(* ===== verification/Prelude.thy ===== *)
theory Prelude
  imports Main "HOL-Library.Word"
begin

text \<open>
  Shared ground of the development: machine word types, the result type in
  which assertion failures, panics and non-returning loops are values, the
  big-endian byte accessors of the target, and the generic lemmas and
  collections the component theories use.
\<close>

unbundle bit_operations_syntax

section \<open>Words\<close>

type_synonym u8 = "8 word"
type_synonym u16 = "16 word"
type_synonym u32 = "32 word"
type_synonym u64 = "64 word"

named_theorems res_simps \<open>equations of the result monad\<close>
named_theorems bytes_simps \<open>load/store equations of byte stores\<close>

text \<open>A narrowed or reread word whose value fits is not changed by the signed reading.\<close>

lemma sint_small: "uint (w :: u32) < 2147483648 \<Longrightarrow> sint w = uint w"
proof -
  assume a: "uint w < 2147483648"
  have "- 2147483648 \<le> uint w" using uint_nonnegative [of w] by linarith
  then show ?thesis using a unfolding sint_uint by (intro signed_take_bit_int_eq_self) simp_all
qed

lemma sint_ucast_small:
  assumes "unat (w :: u64) < 2147483648"
  shows "sint (ucast w :: u32) = int (unat w)"
proof -
  have "unat (ucast w :: u32) = unat w"
    using assms by (simp add: unsigned_ucast_eq take_bit_nat_eq_self)
  then have u: "uint (ucast w :: u32) = int (unat w)" by (metis uint_nat)
  have "int (unat w) < 2147483648" using assms by linarith
  then show ?thesis using sint_small u by metis
qed

text \<open>Powers of two, low masks and rounding on 64-bit words.\<close>

lemma unat_less_64: "unat (y :: u64) < 2 ^ 64"
  by (rule order_less_le_trans [OF unsigned_less]) simp

lemma unat_pow2: "k < 64 \<Longrightarrow> unat (push_bit k 1 :: u64) = 2 ^ k"
  unfolding unsigned_push_bit_eq by (simp add: push_bit_eq_mult take_bit_nat_eq_self)

lemma pow2_minus_1: "push_bit k 1 - 1 = (mask k :: u64)"
  by (simp add: mask_eq_decr_exp push_bit_eq_mult)

lemma pow2_and_mask: "push_bit k 1 AND mask k = (0 :: u64)"
  by (rule bit_word_eqI) (auto simp: bit_simps)

lemma unat_drop_bit: "unat (drop_bit k (y :: u64)) = unat y div 2 ^ k"
  unfolding unsigned_drop_bit_eq using unat_less_64 [of y]
  by (simp add: drop_bit_eq_div take_bit_nat_eq_self)

lemma and_not_mask: "y AND NOT (mask k) = push_bit k (drop_bit k (y :: u64))"
  by (rule bit_word_eqI) (auto simp: bit_simps)

lemma unat_and_not_mask: "unat (y AND NOT (mask k) :: u64) = unat y div 2 ^ k * 2 ^ k"
proof -
  have "unat y div 2 ^ k * 2 ^ k \<le> unat y" by simp
  also have "\<dots> < 2 ^ 64" by (rule unat_less_64)
  finally show ?thesis
    unfolding and_not_mask unsigned_push_bit_eq unat_drop_bit
    by (simp add: push_bit_eq_mult take_bit_nat_eq_self)
qed

lemma unat_add_64: "unat x + unat y < 2 ^ 64 \<Longrightarrow> unat (x + y :: u64) = unat x + unat y"
  by (subst unat_add_lem [symmetric]) simp

section \<open>Results: a value, or the way the program stops\<close>

text \<open>
  \<open>Assert_failed\<close> is a failing \<open>assert\<close> or \<open>KASSERT\<close>, \<open>Panic\<close> a call of
  \<open>panic\<close>, \<open>Div_zero\<close> a division by zero, \<open>Null_deref\<close> a load or store
  through \<open>NULL\<close>, \<open>Out_of_bounds\<close> an access outside its C array,
  \<open>No_return\<close> a loop that is never left and \<open>Undefined\<close> an operation that C
  leaves undefined, as a shift by the width of its operand.
\<close>

datatype fault =
    Assert_failed | Panic | Div_zero | Null_deref | Out_of_bounds | No_return | Undefined

type_synonym 'a res = "fault + 'a"

fun bindE :: "'a res \<Rightarrow> ('a \<Rightarrow> 'b res) \<Rightarrow> 'b res" where
  "bindE (Inl e) f = Inl e"
| "bindE (Inr x) f = f x"

definition assertE :: "bool \<Rightarrow> unit res" where
  "assertE P = (if P then Inr () else Inl Assert_failed)"

lemma bindE_Inr [res_simps]: "bindE m f = Inr y \<longleftrightarrow> (\<exists>x. m = Inr x \<and> f x = Inr y)"
  by (cases m) auto

lemma bindE_Inl [res_simps]:
  "bindE m f = Inl e \<longleftrightarrow> m = Inl e \<or> (\<exists>x. m = Inr x \<and> f x = Inl e)"
  by (cases m) auto

lemma bindE_split:
  "P (bindE m f) \<longleftrightarrow> (\<forall>e. m = Inl e \<longrightarrow> P (Inl e)) \<and> (\<forall>x. m = Inr x \<longrightarrow> P (f x))"
  by (cases m) auto

lemma bindE_assoc: "bindE (bindE m f) g = bindE m (\<lambda>x. bindE (f x) g)"
  by (cases m) auto

lemma bindE_return [simp]: "bindE m Inr = m"
  by (cases m) auto

lemma bindE_cong [fundef_cong]:
  "m = m' \<Longrightarrow> (\<And>x. m' = Inr x \<Longrightarrow> f x = f' x) \<Longrightarrow> bindE m f = bindE m' f'"
  by (cases m') auto

lemma assertE_True [simp]: "assertE True = Inr ()"
  by (simp add: assertE_def)

lemma assertE_False [simp]: "assertE False = Inl Assert_failed"
  by (simp add: assertE_def)

lemma assertE_Inr [simp]: "assertE P = Inr u \<longleftrightarrow> P"
  by (simp add: assertE_def)

lemma assertE_Inl [simp]: "assertE P = Inl e \<longleftrightarrow> \<not> P \<and> e = Assert_failed"
  by (auto simp: assertE_def)

lemma bind_assertE: "bindE (assertE P) f = (if P then f () else Inl Assert_failed)"
  by (simp add: assertE_def)

text \<open>The value of a run that returned (the proofs use it under \<open>isr\<close> only).\<close>

definition returns :: "'a res \<Rightarrow> bool" where
  "returns m \<longleftrightarrow> (\<exists>x. m = Inr x)"

lemma returns_Inr [simp]: "returns (Inr x)"
  by (simp add: returns_def)

lemma returns_Inl [simp]: "\<not> returns (Inl e)"
  by (simp add: returns_def)

lemma returns_bindE: "returns (bindE m f) \<longleftrightarrow> (\<exists>x. m = Inr x \<and> returns (f x))"
  by (cases m) auto

section \<open>Byte stores\<close>

text \<open>
  The target is a big-endian MIPS (\<open>TRIPLE ?= mips64-unknown-freebsd-\<close> in the
  \<open>Makefile\<close>, \<open>--target=mips64c128-unknown-freebsd\<close> in \<open>mdepx.conf\<close>), so a 16-,
  32- or 64-bit load or store through a cast pointer keeps the most
  significant byte at the lowest address.
\<close>

type_synonym bytes = "nat \<Rightarrow> u8"

definition load16 :: "bytes \<Rightarrow> nat \<Rightarrow> u16" where
  "load16 m a = word_cat (m a) (m (a + 1))"

definition load32 :: "bytes \<Rightarrow> nat \<Rightarrow> u32" where
  "load32 m a = word_cat (load16 m a) (load16 m (a + 2))"

definition load64 :: "bytes \<Rightarrow> nat \<Rightarrow> u64" where
  "load64 m a = word_cat (load32 m a) (load32 m (a + 4))"

definition store16 :: "bytes \<Rightarrow> nat \<Rightarrow> u16 \<Rightarrow> bytes" where
  "store16 m a v = m(a := ucast (drop_bit 8 v), a + 1 := ucast v)"

definition store32 :: "bytes \<Rightarrow> nat \<Rightarrow> u32 \<Rightarrow> bytes" where
  "store32 m a v = store16 (store16 m a (ucast (drop_bit 16 v))) (a + 2) (ucast v)"

definition store64 :: "bytes \<Rightarrow> nat \<Rightarrow> u64 \<Rightarrow> bytes" where
  "store64 m a v = store32 (store32 m a (ucast (drop_bit 32 v))) (a + 4) (ucast v)"

lemma word_cat_ucast16: "word_cat (ucast (drop_bit 8 v) :: u8) (ucast v :: u8) = (v :: u16)"
  by (rule bit_word_eqI) (auto simp: bit_word_cat_iff bit_simps)

lemma word_cat_ucast32: "word_cat (ucast (drop_bit 16 v) :: u16) (ucast v :: u16) = (v :: u32)"
  by (rule bit_word_eqI) (auto simp: bit_word_cat_iff bit_simps)

lemma word_cat_ucast64: "word_cat (ucast (drop_bit 32 v) :: u32) (ucast v :: u32) = (v :: u64)"
  by (rule bit_word_eqI) (auto simp: bit_word_cat_iff bit_simps)

lemma load16_store16 [simp, bytes_simps]: "load16 (store16 m a v) a = v"
  by (simp add: load16_def store16_def word_cat_ucast16)

lemma store16_other: "b < a \<or> a + 1 < b \<Longrightarrow> store16 m a v b = m b"
  by (auto simp: store16_def)

lemma load16_store16_other:
  "b + 2 \<le> a \<or> a + 2 \<le> b \<Longrightarrow> load16 (store16 m a v) b = load16 m b"
  by (auto simp: load16_def store16_other)

lemma load32_store32 [simp, bytes_simps]: "load32 (store32 m a v) a = v"
  by (simp add: load32_def store32_def load16_store16_other word_cat_ucast32)

lemma store32_other: "b < a \<or> a + 3 < b \<Longrightarrow> store32 m a v b = m b"
  by (auto simp: store32_def store16_other)

lemma load32_store32_other:
  "b + 4 \<le> a \<or> a + 4 \<le> b \<Longrightarrow> load32 (store32 m a v) b = load32 m b"
  by (auto simp: load32_def store32_def load16_store16_other)

lemma load64_store64 [simp, bytes_simps]: "load64 (store64 m a v) a = v"
  by (simp add: load64_def store64_def load32_store32_other word_cat_ucast64)

lemma load16_cong: "m a = m' a \<Longrightarrow> m (a + 1) = m' (a + 1) \<Longrightarrow> load16 m a = load16 m' a"
  by (simp add: load16_def)

lemma store64_other: "b < a \<or> a + 7 < b \<Longrightarrow> store64 m a v b = m b"
  by (auto simp: store64_def store32_other)

lemma load32_cong: "(\<And>i. i < 4 \<Longrightarrow> m (a + i) = m' (a + i)) \<Longrightarrow> load32 m a = load32 m' a"
proof -
  assume *: "\<And>i. i < 4 \<Longrightarrow> m (a + i) = m' (a + i)"
  show ?thesis using * [of 0] * [of 1] * [of 2] * [of 3]
    by (simp add: load32_def load16_def numeral_3_eq_3)
qed

lemma load64_cong: "(\<And>i. i < 8 \<Longrightarrow> m (a + i) = m' (a + i)) \<Longrightarrow> load64 m a = load64 m' a"
proof -
  assume *: "\<And>i. i < 8 \<Longrightarrow> m (a + i) = m' (a + i)"
  have "load32 m a = load32 m' a" using * by (intro load32_cong) simp
  moreover have "load32 m (a + 4) = load32 m' (a + 4)"
    using * [of "4 + _"] by (intro load32_cong) (simp add: add.assoc)
  ultimately show ?thesis by (simp add: load64_def)
qed

text \<open>Descriptors in memory are little-endian: \<open>le16toh\<close> and its like of a loaded field.\<close>

definition le16 :: "bytes \<Rightarrow> nat \<Rightarrow> u16" where
  "le16 m a = word_cat (m (a + 1)) (m a)"

definition le32 :: "bytes \<Rightarrow> nat \<Rightarrow> u32" where
  "le32 m a = word_cat (le16 m (a + 2)) (le16 m a)"

definition le64 :: "bytes \<Rightarrow> nat \<Rightarrow> u64" where
  "le64 m a = word_cat (le32 m (a + 4)) (le32 m a)"

definition store_le16 :: "bytes \<Rightarrow> nat \<Rightarrow> u16 \<Rightarrow> bytes" where
  "store_le16 m a v = m(a := ucast v, a + 1 := ucast (drop_bit 8 v))"

definition store_le32 :: "bytes \<Rightarrow> nat \<Rightarrow> u32 \<Rightarrow> bytes" where
  "store_le32 m a v = store_le16 (store_le16 m a (ucast v)) (a + 2) (ucast (drop_bit 16 v))"

lemma le16_store_le16 [simp, bytes_simps]: "le16 (store_le16 m a v) a = v"
  by (simp add: le16_def store_le16_def word_cat_ucast16)

lemma store_le16_other: "b < a \<or> a + 1 < b \<Longrightarrow> store_le16 m a v b = m b"
  by (auto simp: store_le16_def)

lemma le16_store_le16_other:
  "b + 2 \<le> a \<or> a + 2 \<le> b \<Longrightarrow> le16 (store_le16 m a v) b = le16 m b"
  by (auto simp: le16_def store_le16_other)

lemma le32_store_le32 [simp, bytes_simps]: "le32 (store_le32 m a v) a = v"
  by (simp add: le32_def store_le32_def le16_store_le16_other word_cat_ucast32)

lemma store_le32_other: "b < a \<or> a + 3 < b \<Longrightarrow> store_le32 m a v b = m b"
  by (auto simp: store_le32_def store_le16_other)

text \<open>The bytes of a native integer in a packed structure.\<close>

definition bytes16 :: "u16 \<Rightarrow> u8 list" where
  "bytes16 v = [ucast (drop_bit 8 v), ucast v]"

definition bytes32 :: "u32 \<Rightarrow> u8 list" where
  "bytes32 v = bytes16 (ucast (drop_bit 16 v)) @ bytes16 (ucast v)"

lemma length_bytes16 [simp]: "length (bytes16 v) = 2"
  by (simp add: bytes16_def)

lemma length_bytes32 [simp]: "length (bytes32 v) = 4"
  by (simp add: bytes32_def)

text \<open>\<open>roundup2(x, y)\<close> of \<open><sys/param.h>\<close> for a power of two \<open>y\<close>.\<close>

definition roundup2 :: "nat \<Rightarrow> nat \<Rightarrow> nat" where
  "roundup2 x y = (x + (y - 1)) div y * y"

lemma roundup2_dvd [simp]: "y dvd roundup2 x y"
  by (simp add: roundup2_def)

lemma roundup2_ge: "0 < y \<Longrightarrow> x \<le> roundup2 x y"
proof -
  assume y: "0 < y"
  have "x + (y - 1) = (x + (y - 1)) div y * y + (x + (y - 1)) mod y" by simp
  moreover have "(x + (y - 1)) mod y \<le> y - 1" using y by (simp add: less_Suc_eq_le [symmetric])
  ultimately show ?thesis unfolding roundup2_def by linarith
qed

lemma roundup2_less: "0 < y \<Longrightarrow> roundup2 x y < x + y"
proof -
  assume y: "0 < y"
  have "(x + (y - 1)) div y * y \<le> x + (y - 1)" by simp
  then show ?thesis using y unfolding roundup2_def by linarith
qed

text \<open>\<open>ffs\<close> and \<open>flsl\<close>: the least and the most significant set bit, from 1; 0 for 0.\<close>

fun ffs :: "nat \<Rightarrow> nat" where
  "ffs n = (if n = 0 then 0 else if odd n then 1 else Suc (ffs (n div 2)))"

fun flsl :: "nat \<Rightarrow> nat" where
  "flsl n = (if n = 0 then 0 else Suc (flsl (n div 2)))"

declare ffs.simps [simp del] flsl.simps [simp del]

section \<open>Lists used as queues\<close>

lemma remove1_append_notin: "x \<notin> set xs \<Longrightarrow> remove1 x (xs @ ys) = xs @ remove1 x ys"
  by (simp add: remove1_append)

lemma find_Some_in: "find P xs = Some x \<Longrightarrow> x \<in> set xs \<and> P x"
  by (auto simp: find_Some_iff)

lemma find_None_all: "find P xs = None \<longleftrightarrow> (\<forall>x\<in>set xs. \<not> P x)"
  by (auto simp: find_None_iff)

lemma find_unique:
  "x \<in> set xs \<Longrightarrow> P x \<Longrightarrow> (\<forall>y\<in>set xs. P y \<longrightarrow> y = x) \<Longrightarrow> find P xs = Some x"
  by (metis find_None_all find_Some_in not_None_eq)

end
