(* ===== verification/Iovec.thy ===== *)
theory Iovec
  imports Prelude
begin

text \<open>
  Scatter/gather vectors (\<open>bhyve/sys/_iovec.h\<close>), the flat memory they point
  into, and the copies between regions of it, which the disk and the network
  card share.
\<close>

record iovec =
  iov_base :: nat
  iov_len :: nat

text \<open>The bytes of a region, and of the regions of a vector one after the other.\<close>

definition region :: "bytes \<Rightarrow> nat \<Rightarrow> nat \<Rightarrow> u8 list" where
  "region m a n = map m [a..<a + n]"

definition gather :: "bytes \<Rightarrow> iovec list \<Rightarrow> u8 list" where
  "gather m iov = concat (map (\<lambda>v. region m (iov_base v) (iov_len v)) iov)"

definition iov_size :: "iovec list \<Rightarrow> nat" where
  "iov_size iov = sum_list (map iov_len iov)"

lemma length_region [simp]: "length (region m a n) = n"
  by (simp add: region_def)

lemma nth_region [simp]: "i < n \<Longrightarrow> region m a n ! i = m (a + i)"
  by (simp add: region_def)

lemma region_0 [simp]: "region m a 0 = []"
  by (simp add: region_def)

lemma region_Suc: "region m a (Suc n) = m a # region m (a + 1) n"
  by (rule nth_equalityI) (auto simp: nth_Cons split: nat.splits)

lemma region_add: "region m a (j + k) = region m a j @ region m (a + j) k"
  by (rule nth_equalityI) (auto simp: nth_append)

lemma drop_region: "drop k (region m a n) = region m (a + k) (n - k)"
  by (rule nth_equalityI) (auto simp: add.assoc)

lemma take_region: "take k (region m a n) = region m a (min k n)"
  by (rule nth_equalityI) auto

lemma gather_simps [simp]:
  "gather m [] = []" "gather m (v # vs) = region m (iov_base v) (iov_len v) @ gather m vs"
  by (simp_all add: gather_def)

lemma gather_append [simp]: "gather m (xs @ ys) = gather m xs @ gather m ys"
  by (induction xs) simp_all

lemma iov_size_simps [simp]: "iov_size [] = 0" "iov_size (v # vs) = iov_len v + iov_size vs"
  by (simp_all add: iov_size_def)

lemma length_gather [simp]: "length (gather m iov) = iov_size iov"
  by (induction iov) simp_all

text \<open>Regions and vectors that a store does not reach keep their bytes.\<close>

definition clear_of :: "nat set \<Rightarrow> iovec list \<Rightarrow> bool" where
  "clear_of A iov \<longleftrightarrow> list_all (\<lambda>v. A \<inter> {iov_base v..<iov_base v + iov_len v} = {}) iov"

lemma clear_of_simps [simp]:
  "clear_of A []" "clear_of A (v # vs) \<longleftrightarrow> A \<inter> {iov_base v..<iov_base v + iov_len v} = {} \<and> clear_of A vs"
  by (simp_all add: clear_of_def)

lemma region_cong: "(\<And>b. a \<le> b \<Longrightarrow> b < a + n \<Longrightarrow> m b = m' b) \<Longrightarrow> region m a n = region m' a n"
  by (rule nth_equalityI) auto

lemma gather_cong: "clear_of A iov \<Longrightarrow> (\<And>b. b \<notin> A \<Longrightarrow> m b = m' b) \<Longrightarrow> gather m iov = gather m' iov"
proof (induction iov)
  case (Cons v vs)
  then have "region m (iov_base v) (iov_len v) = region m' (iov_base v) (iov_len v)"
    by (intro region_cong Cons.prems(2)) (auto dest: disjoint_iff [THEN iffD1])
  then show ?case using Cons by simp
qed simp

text \<open>\<open>memcpy\<close> between regions that do not overlap (an overlap is undefined in C).\<close>

definition memcpy :: "bytes \<Rightarrow> nat \<Rightarrow> nat \<Rightarrow> nat \<Rightarrow> bytes" where
  "memcpy m dst src n = (\<lambda>a. if dst \<le> a \<and> a < dst + n then m (src + (a - dst)) else m a)"

lemma memcpy_other: "a \<notin> {dst..<dst + n} \<Longrightarrow> memcpy m dst src n a = m a"
  by (auto simp: memcpy_def)

lemma memcpy_map: "map (memcpy m dst src n) [dst..<dst + n] = map m [src..<src + n]"
  by (rule nth_equalityI) (simp_all add: memcpy_def)

lemma region_memcpy [simp]: "region (memcpy m dst src n) dst n = region m src n"
  by (simp add: region_def memcpy_map)

end
