(* ===== verification/Pthread_Model.thy ===== *)
theory Pthread_Model
  imports Prelude
begin

text \<open>
  \<open>bhyve/pthread.c\<close>: the thread primitives the emulated devices are linked with
  on the bare-metal core. A mutex is one flag whose operations assert that it
  is free, respectively taken; the condition variables, read-write locks and
  thread creation do nothing and return 0.
\<close>

record pthread_mutex =
  mtx_lock :: int

definition pthread_mutex_init :: "pthread_mutex \<Rightarrow> pthread_mutex" where
  "pthread_mutex_init m = m\<lparr>mtx_lock := 0\<rparr>"

definition pthread_mutex_lock :: "pthread_mutex \<Rightarrow> pthread_mutex res" where
  "pthread_mutex_lock m =
     bindE (assertE (mtx_lock m = 0)) (\<lambda>_. Inr (m\<lparr>mtx_lock := 1\<rparr>))"

definition pthread_mutex_unlock :: "pthread_mutex \<Rightarrow> pthread_mutex res" where
  "pthread_mutex_unlock m =
     bindE (assertE (mtx_lock m = 1)) (\<lambda>_. Inr (m\<lparr>mtx_lock := 0\<rparr>))"

definition pthread_mutex_isowned_np :: "pthread_mutex \<Rightarrow> int" where
  "pthread_mutex_isowned_np m = mtx_lock m"

text \<open>
  \<open>pthread_cond_wait\<close> returns at once: it neither blocks nor releases the mutex,
  so a loop that waits for another thread to change a flag never sees it change.
\<close>

definition pthread_cond_wait :: "pthread_mutex \<Rightarrow> int \<times> pthread_mutex" where
  "pthread_cond_wait m = (0, m)"

definition free_mutex :: "pthread_mutex \<Rightarrow> bool" where
  "free_mutex m \<longleftrightarrow> mtx_lock m = 0"

definition held_mutex :: "pthread_mutex \<Rightarrow> bool" where
  "held_mutex m \<longleftrightarrow> mtx_lock m = 1"

section \<open>The contract of a non-recursive mutex\<close>

text \<open>
  What the block interface and the devices rely on. The lemmas say what a
  critical section that keeps the mutex does to it, and that a second
  acquisition inside one stops the program.
\<close>

locale mutex =
  fixes lck :: "'m \<Rightarrow> 'm res"
    and unlck :: "'m \<Rightarrow> 'm res"
    and is_free :: "'m \<Rightarrow> bool"
    and is_held :: "'m \<Rightarrow> bool"
  assumes lock_free: "is_free m \<Longrightarrow> \<exists>m'. lck m = Inr m' \<and> is_held m'"
    and lock_not_free: "\<not> is_free m \<Longrightarrow> lck m = Inl Assert_failed"
    and unlock_held: "is_held m \<Longrightarrow> \<exists>m'. unlck m = Inr m' \<and> is_free m'"
    and unlock_not_held: "\<not> is_held m \<Longrightarrow> unlck m = Inl Assert_failed"
    and not_both: "is_free m \<Longrightarrow> \<not> is_held m"
begin

lemma lock_Inr_iff: "returns (lck m) \<longleftrightarrow> is_free m"
  using lock_free lock_not_free by (cases "is_free m") (auto simp: returns_def)

lemma locked_held: "lck m = Inr m' \<Longrightarrow> is_held m'"
  using lock_free lock_not_free by (cases "is_free m") fastforce+

lemma unlocked_free: "unlck m = Inr m' \<Longrightarrow> is_free m'"
  using unlock_held unlock_not_held by (cases "is_held m") fastforce+

lemma relock_fails: "lck m = Inr m' \<Longrightarrow> lck m' = Inl Assert_failed"
  using locked_held lock_not_free not_both by blast

lemma critical_section:
  assumes "is_free m" and "\<And>m'. is_held m' \<Longrightarrow> is_held (body m')"
  shows "\<exists>m'. bindE (lck m) (\<lambda>h. unlck (body h)) = Inr m' \<and> is_free m'"
proof -
  obtain h where h: "lck m = Inr h" "is_held h" using lock_free assms(1) by blast
  then obtain m' where "unlck (body h) = Inr m'" "is_free m'"
    using unlock_held assms(2) by blast
  then show ?thesis using h by simp
qed

end

interpretation pthread: mutex pthread_mutex_lock pthread_mutex_unlock free_mutex held_mutex
  by unfold_locales
    (auto simp: pthread_mutex_lock_def pthread_mutex_unlock_def free_mutex_def held_mutex_def
       bind_assertE)

lemma lock_unlock:
  "mtx_lock m = 0 \<Longrightarrow> bindE (pthread_mutex_lock m) pthread_mutex_unlock = Inr m"
  by (simp add: pthread_mutex_lock_def pthread_mutex_unlock_def)

end
