(* ===== verification/Block_If.thy ===== *)
theory Block_If
  imports Iovec Pthread_Model "HOL-Library.Multiset" "HOL-Library.Signed_Division"
begin

text \<open>
  \<open>bhyve/block_if.c\<close>: the queues of block requests between a disk controller
  and the disk image in memory. \<open>'p\<close> is the type of request pointers; requests
  live in the controller's memory and are read through a store. An element is
  its index in \<open>bc_reqs\<close>; the three tail queues are lists of indices.
\<close>

section \<open>State\<close>

definition BLOCKIF_SIG :: nat where "BLOCKIF_SIG = 0xb109b109"
definition BLOCKIF_NUMTHR :: nat where "BLOCKIF_NUMTHR = 8"
definition BLOCKIF_MAXREQ :: nat where "BLOCKIF_MAXREQ = 64 + BLOCKIF_NUMTHR"

definition E2BIG :: int where "E2BIG = 7"
definition EBUSY :: int where "EBUSY = 16"
definition EINVAL' :: int where "EINVAL' = 22"
definition EROFS :: int where "EROFS = 30"
definition EOPNOTSUPP :: int where "EOPNOTSUPP = 45"

definition OFF_MAX :: int where "OFF_MAX = 2 ^ 63 - 1"

datatype blockop = BOP_READ | BOP_WRITE | BOP_FLUSH | BOP_DELETE

datatype blockstat = BST_FREE | BST_BLOCK | BST_PEND | BST_BUSY | BST_DONE

text \<open>The callback and its parameter belong to the caller and are not read here.\<close>

record blockif_req =
  br_iovcnt :: nat
  br_offset :: int
  br_resid :: int
  br_iov :: "iovec list"

record 'p blockif_elem =
  be_req :: "'p option"
  be_op :: blockop
  be_status :: blockstat
  be_tid :: nat
  be_block :: int

record 'p blockif_ctxt =
  bc_magic :: nat
  bc_ischr :: bool
  bc_isgeom :: bool
  bc_candelete :: bool
  bc_rdonly :: bool
  bc_base :: nat
  bc_size :: int
  bc_sectsz :: int
  bc_psectsz :: int
  bc_psectoff :: int
  bc_closing :: bool
  bc_mtx :: pthread_mutex
  bc_freeq :: "nat list"
  bc_pendq :: "nat list"
  bc_busyq :: "nat list"
  bc_reqs :: "nat \<Rightarrow> 'p blockif_elem"

type_synonym 'p req_store = "'p \<Rightarrow> blockif_req"

section \<open>The queues\<close>

definition set_elem :: "nat \<Rightarrow> 'p blockif_elem \<Rightarrow> 'p blockif_ctxt \<Rightarrow> 'p blockif_ctxt" where
  "set_elem i be bc = bc\<lparr>bc_reqs := (bc_reqs bc)(i := be)\<rparr>"

text \<open>The first \<open>n\<close> entries of the request's vector.\<close>

definition req_iov :: "blockif_req \<Rightarrow> iovec list res" where
  "req_iov br = (if br_iovcnt br \<le> length (br_iov br) then Inr (take (br_iovcnt br) (br_iov br))
                 else Inl Out_of_bounds)"

definition req_end :: "blockif_req \<Rightarrow> blockop \<Rightarrow> int res" where
  "req_end br op =
     (if op = BOP_READ \<or> op = BOP_WRITE \<or> op = BOP_DELETE then
        bindE (req_iov br) (\<lambda>iov. Inr (br_offset br + int (sum_list (map iov_len iov))))
      else Inr OFF_MAX)"

definition blockif_enqueue ::
    "'p blockif_ctxt \<Rightarrow> 'p req_store \<Rightarrow> 'p \<Rightarrow> blockop \<Rightarrow> (bool \<times> 'p blockif_ctxt) res" where
  "blockif_enqueue bc st breq op =
     (case bc_freeq bc of
        [] \<Rightarrow> Inl Assert_failed
      | be # freeq \<Rightarrow>
          bindE (assertE (be_status (bc_reqs bc be) = BST_FREE)) (\<lambda>_.
          bindE (req_end (st breq) op) (\<lambda>off.
          let waits = (\<lambda>tbe. be_block (bc_reqs bc tbe) = br_offset (st breq));
              pend = find waits (bc_pendq bc) = None \<and> find waits (bc_busyq bc) = None;
              e = (bc_reqs bc be)\<lparr>be_req := Some breq, be_op := op, be_block := off,
                    be_status := (if pend then BST_PEND else BST_BLOCK)\<rparr>
          in Inr (pend, set_elem be e (bc\<lparr>bc_freeq := freeq, bc_pendq := bc_pendq bc @ [be]\<rparr>)))))"

text \<open>
  The scan of the pending queue stops at the first pending element and asserts
  that all elements before it are blocked.
\<close>

fun first_pending :: "'p blockif_ctxt \<Rightarrow> nat list \<Rightarrow> nat option res" where
  "first_pending bc [] = Inr None"
| "first_pending bc (be # q) =
     (if be_status (bc_reqs bc be) = BST_PEND then Inr (Some be)
      else bindE (assertE (be_status (bc_reqs bc be) = BST_BLOCK)) (\<lambda>_. first_pending bc q))"

definition blockif_dequeue ::
    "'p blockif_ctxt \<Rightarrow> nat \<Rightarrow> (nat option \<times> 'p blockif_ctxt) res" where
  "blockif_dequeue bc t =
     bindE (first_pending bc (bc_pendq bc)) (\<lambda>r.
     case r of
       None \<Rightarrow> Inr (None, bc)
     | Some be \<Rightarrow>
         Inr (Some be, set_elem be ((bc_reqs bc be)\<lparr>be_status := BST_BUSY, be_tid := t\<rparr>)
           (bc\<lparr>bc_pendq := remove1 be (bc_pendq bc), bc_busyq := bc_busyq bc @ [be]\<rparr>)))"

text \<open>The loop that wakes the elements that start where \<open>be\<close> ends.\<close>

fun wake :: "'p req_store \<Rightarrow> int \<Rightarrow> nat list \<Rightarrow> 'p blockif_ctxt \<Rightarrow> 'p blockif_ctxt res" where
  "wake st blk [] bc = Inr bc"
| "wake st blk (tbe # q) bc =
     (case be_req (bc_reqs bc tbe) of
        None \<Rightarrow> Inl Null_deref
      | Some r \<Rightarrow>
          wake st blk q
            (if br_offset (st r) = blk
             then set_elem tbe ((bc_reqs bc tbe)\<lparr>be_status := BST_PEND\<rparr>) bc else bc))"

definition blockif_complete ::
    "'p blockif_ctxt \<Rightarrow> 'p req_store \<Rightarrow> nat \<Rightarrow> 'p blockif_ctxt res" where
  "blockif_complete bc st be =
     (let bc = (if be_status (bc_reqs bc be) = BST_DONE \<or> be_status (bc_reqs bc be) = BST_BUSY
                then bc\<lparr>bc_busyq := remove1 be (bc_busyq bc)\<rparr>
                else bc\<lparr>bc_pendq := remove1 be (bc_pendq bc)\<rparr>)
      in bindE (wake st (be_block (bc_reqs bc be)) (bc_pendq bc) bc) (\<lambda>bc.
         Inr (set_elem be ((bc_reqs bc be)\<lparr>be_tid := 0, be_status := BST_FREE, be_req := None\<rparr>)
           (bc\<lparr>bc_freeq := bc_freeq bc @ [be]\<rparr>))))"

section \<open>Data transfer\<close>

text \<open>
  The state the processing loop works on: the context, the requests, and
  memory; the controller that owns the callbacks extends it.
\<close>

record 'p blk_world =
  blk_bc :: "'p blockif_ctxt"
  blk_st :: "'p req_store"
  blk_mem :: bytes

fun read_iov :: "nat \<Rightarrow> iovec list \<Rightarrow> bytes \<Rightarrow> bytes" where
  "read_iov addr [] m = m"
| "read_iov addr (v # vs) m = read_iov (addr + iov_len v) vs (memcpy m (iov_base v) addr (iov_len v))"

fun write_iov :: "nat \<Rightarrow> iovec list \<Rightarrow> bytes \<Rightarrow> bytes" where
  "write_iov addr [] m = m"
| "write_iov addr (v # vs) m = write_iov (addr + iov_len v) vs (memcpy m addr (iov_base v) (iov_len v))"

type_synonym ('p, 'a) blk_callback =
  "'p \<Rightarrow> int \<Rightarrow> ('p, 'a) blk_world_scheme \<Rightarrow> ('p, 'a) blk_world_scheme res"

definition disk_addr :: "'p blockif_ctxt \<Rightarrow> blockif_req \<Rightarrow> nat" where
  "disk_addr bc br = nat (int (bc_base bc) + br_offset br)"

definition clear_resid :: "'p \<Rightarrow> ('p, 'a) blk_world_scheme \<Rightarrow> ('p, 'a) blk_world_scheme" where
  "clear_resid r w = w\<lparr>blk_st := (blk_st w)(r := (blk_st w r)\<lparr>br_resid := 0\<rparr>)\<rparr>"

text \<open>The \<open>switch\<close> of \<open>blockif_proc\<close>: the error and the new state.\<close>

definition blk_transfer ::
    "'p \<Rightarrow> blockop \<Rightarrow> ('p, 'a) blk_world_scheme \<Rightarrow> (int \<times> ('p, 'a) blk_world_scheme) res" where
  "blk_transfer r op w =
     (let br = blk_st w r; bc = blk_bc w in
      case op of
        BOP_READ \<Rightarrow>
          bindE (req_iov br) (\<lambda>iov.
          Inr (0, clear_resid r (w\<lparr>blk_mem := read_iov (disk_addr bc br) iov (blk_mem w)\<rparr>)))
      | BOP_WRITE \<Rightarrow>
          (if bc_rdonly bc then Inr (EROFS, w)
           else bindE (req_iov br) (\<lambda>iov.
             Inr (0, clear_resid r (w\<lparr>blk_mem := write_iov (disk_addr bc br) iov (blk_mem w)\<rparr>))))
      | BOP_FLUSH \<Rightarrow> Inr (0, w)
      | BOP_DELETE \<Rightarrow> Inr (EOPNOTSUPP, w))"

definition blockif_proc ::
    "('p, 'a) blk_callback \<Rightarrow> nat \<Rightarrow> ('p, 'a) blk_world_scheme \<Rightarrow> ('p, 'a) blk_world_scheme res" where
  "blockif_proc cb be w =
     (case be_req (bc_reqs (blk_bc w) be) of
        None \<Rightarrow> Inl Null_deref
      | Some r \<Rightarrow>
          bindE (blk_transfer r (be_op (bc_reqs (blk_bc w) be)) w) (\<lambda>(err, w).
          cb r err (w\<lparr>blk_bc :=
            set_elem be ((bc_reqs (blk_bc w) be)\<lparr>be_status := BST_DONE\<rparr>) (blk_bc w)\<rparr>)))"

text \<open>The processing loop, \<open>None\<close> if it is never left.\<close>

partial_function (option) blockif_loop ::
    "('p, 'a) blk_callback \<Rightarrow> ('p, 'a) blk_world_scheme \<Rightarrow> ('p, 'a) blk_world_scheme res option" where
  "blockif_loop cb w =
     (case blockif_dequeue (blk_bc w) 0 of
        Inl e \<Rightarrow> Some (Inl e)
      | Inr (None, bc) \<Rightarrow> Some (Inr (w\<lparr>blk_bc := bc\<rparr>))
      | Inr (Some be, bc) \<Rightarrow>
          (case bindE (blockif_proc cb be (w\<lparr>blk_bc := bc\<rparr>)) (\<lambda>w.
                  bindE (blockif_complete (blk_bc w) (blk_st w) be) (\<lambda>bc. Inr (w\<lparr>blk_bc := bc\<rparr>))) of
             Inl e \<Rightarrow> Some (Inl e)
           | Inr w \<Rightarrow> blockif_loop cb w))"

definition lock_bc :: "'p blockif_ctxt \<Rightarrow> 'p blockif_ctxt res" where
  "lock_bc bc = bindE (pthread_mutex_lock (bc_mtx bc)) (\<lambda>m. Inr (bc\<lparr>bc_mtx := m\<rparr>))"

definition unlock_bc :: "'p blockif_ctxt \<Rightarrow> 'p blockif_ctxt res" where
  "unlock_bc bc = bindE (pthread_mutex_unlock (bc_mtx bc)) (\<lambda>m. Inr (bc\<lparr>bc_mtx := m\<rparr>))"

text \<open>\<open>inited\<close> says that \<open>blockif_init\<close> has run (\<open>blockif_sc\<close> is not \<open>NULL\<close>).\<close>

definition blockif_thr ::
    "bool \<Rightarrow> ('p, 'a) blk_callback \<Rightarrow> ('p, 'a) blk_world_scheme \<Rightarrow> ('p, 'a) blk_world_scheme res" where
  "blockif_thr inited cb w =
     (if \<not> inited then Inr w
      else
        bindE (lock_bc (blk_bc w)) (\<lambda>bc.
        bindE (case blockif_loop cb (w\<lparr>blk_bc := bc\<rparr>) of None \<Rightarrow> Inl No_return | Some r \<Rightarrow> r) (\<lambda>w.
        bindE (unlock_bc (blk_bc w)) (\<lambda>bc. Inr (w\<lparr>blk_bc := bc\<rparr>)))))"

section \<open>The interface\<close>

text \<open>\<open>blockif_open\<close> fills a zeroed context; the free queue is built from its head.\<close>

definition zero_elem :: "'p blockif_elem" where
  "zero_elem = \<lparr>be_req = None, be_op = BOP_READ, be_status = BST_FREE, be_tid = 0, be_block = 0\<rparr>"

definition blockif_open :: "bool \<Rightarrow> nat \<Rightarrow> 'p blockif_ctxt option" where
  "blockif_open callocd DM_BASE =
     (if \<not> callocd then None
      else Some \<lparr>bc_magic = BLOCKIF_SIG, bc_ischr = False, bc_isgeom = False, bc_candelete = False,
        bc_rdonly = False, bc_base = DM_BASE + 0x03000000, bc_size = 0x0d000000, bc_sectsz = 512,
        bc_psectsz = 512, bc_psectoff = 0, bc_closing = False,
        bc_mtx = pthread_mutex_init \<lparr>mtx_lock = 0\<rparr>,
        bc_freeq = fold (#) [0..<BLOCKIF_MAXREQ] [], bc_pendq = [], bc_busyq = [],
        bc_reqs = (\<lambda>_. zero_elem)\<rparr>)"

definition blockif_request ::
    "'p blockif_ctxt \<Rightarrow> 'p req_store \<Rightarrow> 'p \<Rightarrow> blockop \<Rightarrow> (int \<times> 'p blockif_ctxt) res" where
  "blockif_request bc st breq op =
     bindE (lock_bc bc) (\<lambda>bc.
     bindE (if bc_freeq bc \<noteq> [] then bindE (blockif_enqueue bc st breq op) (\<lambda>(_, bc). Inr (0, bc))
            else Inr (E2BIG, bc)) (\<lambda>(err, bc).
     bindE (unlock_bc bc) (\<lambda>bc. Inr (err, bc))))"

definition checked :: "'p blockif_ctxt \<Rightarrow> 'b res \<Rightarrow> 'b res" where
  "checked bc r = bindE (assertE (bc_magic bc = BLOCKIF_SIG)) (\<lambda>_. r)"

definition blockif_read ::
    "'p blockif_ctxt \<Rightarrow> 'p req_store \<Rightarrow> 'p \<Rightarrow> (int \<times> 'p blockif_ctxt) res" where
  "blockif_read bc st breq = checked bc (blockif_request bc st breq BOP_READ)"

definition blockif_write ::
    "'p blockif_ctxt \<Rightarrow> 'p req_store \<Rightarrow> 'p \<Rightarrow> (int \<times> 'p blockif_ctxt) res" where
  "blockif_write bc st breq = checked bc (blockif_request bc st breq BOP_WRITE)"

definition blockif_flush ::
    "'p blockif_ctxt \<Rightarrow> 'p req_store \<Rightarrow> 'p \<Rightarrow> (int \<times> 'p blockif_ctxt) res" where
  "blockif_flush bc st breq = checked bc (blockif_request bc st breq BOP_FLUSH)"

definition blockif_delete ::
    "'p blockif_ctxt \<Rightarrow> 'p req_store \<Rightarrow> 'p \<Rightarrow> (int \<times> 'p blockif_ctxt) res" where
  "blockif_delete bc st breq = checked bc (blockif_request bc st breq BOP_DELETE)"

text \<open>
  The wait for a busy request spins on a flag that no other thread clears:
  nothing interrupts the loop on this target.
\<close>

definition blockif_cancel ::
    "'p blockif_ctxt \<Rightarrow> 'p req_store \<Rightarrow> 'p \<Rightarrow> (int \<times> 'p blockif_ctxt) res" where
  "blockif_cancel bc st breq =
     checked bc
       (bindE (lock_bc bc) (\<lambda>bc.
        let mine = (\<lambda>be. be_req (bc_reqs bc be) = Some breq) in
        case find mine (bc_pendq bc) of
          Some be \<Rightarrow>
            bindE (blockif_complete bc st be) (\<lambda>bc.
            bindE (unlock_bc bc) (\<lambda>bc. Inr (0, bc)))
        | None \<Rightarrow>
            (case find mine (bc_busyq bc) of
               None \<Rightarrow> bindE (unlock_bc bc) (\<lambda>bc. Inr (EINVAL', bc))
             | Some be \<Rightarrow>
                 if be_status (bc_reqs bc be) = BST_BUSY then Inl No_return
                 else bindE (unlock_bc bc) (\<lambda>bc. Inr (EBUSY, bc)))))"

definition blockif_close :: "'p blockif_ctxt \<Rightarrow> (int \<times> 'p blockif_ctxt) res" where
  "blockif_close bc =
     checked bc
       (bindE (lock_bc bc) (\<lambda>bc.
        bindE (unlock_bc (bc\<lparr>bc_closing := True\<rparr>)) (\<lambda>bc. Inr (0, bc\<lparr>bc_magic := 0\<rparr>))))"

text \<open>
  Geometry: \<open>heads\<close> is a byte, so the quotient is truncated to 8 bits; the
  clamp compares with an unsigned bound, so a negative count is clamped too.
\<close>

definition blockif_chs :: "'p blockif_ctxt \<Rightarrow> (nat \<times> nat \<times> nat) res" where
  "blockif_chs bc = checked bc
     (if bc_sectsz bc = 0 then Inl Div_zero
      else
        (let quot = bc_size bc sdiv bc_sectsz bc;
             sectors = (if quot < 0 \<or> quot > 65535 * 16 * 255 then 65535 * 16 * 255 else nat quot);
             (hcyl, heads, secpt) =
               (if sectors \<ge> 65536 * 16 * 63 then (sectors div 255, 16, 255)
                else
                  (let hcyl = sectors div 17;
                       heads = (hcyl + 1023) div 1024 mod 256;
                       heads = (if heads < 4 then 4 else heads);
                       (hcyl, heads, secpt) =
                         (if hcyl \<ge> heads * 1024 \<or> heads > 16 then (sectors div 31, 16, 31)
                          else (hcyl, heads, 17))
                   in if hcyl \<ge> heads * 1024 then (sectors div 63, 16, 63) else (hcyl, heads, secpt)))
         in Inr (hcyl div heads mod 2 ^ 16, heads, secpt)))"

definition blockif_size :: "'p blockif_ctxt \<Rightarrow> int res" where
  "blockif_size bc = checked bc (Inr (bc_size bc))"

definition blockif_sectsz :: "'p blockif_ctxt \<Rightarrow> int res" where
  "blockif_sectsz bc = checked bc (Inr (bc_sectsz bc))"

definition blockif_psectsz :: "'p blockif_ctxt \<Rightarrow> (int \<times> int) res" where
  "blockif_psectsz bc = checked bc (Inr (bc_psectsz bc, bc_psectoff bc))"

definition blockif_queuesz :: "'p blockif_ctxt \<Rightarrow> int res" where
  "blockif_queuesz bc = checked bc (Inr (int BLOCKIF_MAXREQ - 1))"

definition blockif_is_ro :: "'p blockif_ctxt \<Rightarrow> bool res" where
  "blockif_is_ro bc = checked bc (Inr (bc_rdonly bc))"

definition blockif_candelete :: "'p blockif_ctxt \<Rightarrow> bool res" where
  "blockif_candelete bc = checked bc (Inr (bc_candelete bc))"

section \<open>The invariant of the queues\<close>

definition elem_ok :: "'p blockif_ctxt \<Rightarrow> blockstat set \<Rightarrow> nat \<Rightarrow> bool" where
  "elem_ok bc S i \<longleftrightarrow> be_status (bc_reqs bc i) \<in> S \<and>
     (be_req (bc_reqs bc i) = None \<longleftrightarrow> be_status (bc_reqs bc i) = BST_FREE)"

text \<open>Every element is in exactly one queue, with the state of that queue.\<close>

definition queues_ok :: "'p blockif_ctxt \<Rightarrow> bool" where
  "queues_ok bc \<longleftrightarrow>
     distinct (bc_freeq bc @ bc_pendq bc @ bc_busyq bc) \<and>
     set (bc_freeq bc @ bc_pendq bc @ bc_busyq bc) = {..<BLOCKIF_MAXREQ} \<and>
     (\<forall>i\<in>set (bc_freeq bc). elem_ok bc {BST_FREE} i) \<and>
     (\<forall>i\<in>set (bc_pendq bc). elem_ok bc {BST_PEND, BST_BLOCK} i) \<and>
     (\<forall>i\<in>set (bc_busyq bc). elem_ok bc {BST_BUSY, BST_DONE} i)"

definition elem_off :: "'p blockif_ctxt \<Rightarrow> 'p req_store \<Rightarrow> nat \<Rightarrow> int" where
  "elem_off bc st i = br_offset (st (the (be_req (bc_reqs bc i))))"

text \<open>A blocked element waits for one that is busy or ahead of it in the queue.\<close>

fun waiting_ok :: "'p blockif_ctxt \<Rightarrow> 'p req_store \<Rightarrow> nat set \<Rightarrow> nat list \<Rightarrow> bool" where
  "waiting_ok bc st B [] \<longleftrightarrow> True"
| "waiting_ok bc st B (i # q) \<longleftrightarrow>
     (be_status (bc_reqs bc i) = BST_BLOCK \<longrightarrow> (\<exists>j\<in>B. be_block (bc_reqs bc j) = elem_off bc st i)) \<and>
     waiting_ok bc st (insert i B) q"

definition blk_inv :: "'p blockif_ctxt \<Rightarrow> 'p req_store \<Rightarrow> bool" where
  "blk_inv bc st \<longleftrightarrow> queues_ok bc \<and> waiting_ok bc st (set (bc_busyq bc)) (bc_pendq bc)"

lemma waiting_mono: "waiting_ok bc st B q \<Longrightarrow> B \<subseteq> B' \<Longrightarrow> waiting_ok bc st B' q"
proof (induction q arbitrary: B B')
  case (Cons i q)
  then have "waiting_ok bc st (insert i B') q" using Cons.IH [of "insert i B" "insert i B'"] by auto
  then show ?case using Cons.prems by auto
qed simp

lemma waiting_append:
  "waiting_ok bc st B (q @ q') \<longleftrightarrow> waiting_ok bc st B q \<and> waiting_ok bc st (B \<union> set q) q'"
  by (induction q arbitrary: B) auto

lemma waiting_cong:
  "waiting_ok bc st B q \<Longrightarrow>
   (\<And>i. i \<in> B \<union> set q \<Longrightarrow> be_block (bc_reqs bc' i) = be_block (bc_reqs bc i)) \<Longrightarrow>
   (\<And>i. i \<in> set q \<Longrightarrow> elem_off bc' st' i = elem_off bc st i \<and>
      (be_status (bc_reqs bc' i) = BST_BLOCK \<longrightarrow> be_status (bc_reqs bc i) = BST_BLOCK)) \<Longrightarrow>
   waiting_ok bc' st' B q"
proof (induction q arbitrary: B)
  case (Cons i q)
  have "waiting_ok bc' st' (insert i B) q" using Cons by auto
  then show ?case using Cons.prems by auto
qed simp

text \<open>Taking one element out of the queue or of the busy set, once no blocked one waits for it.\<close>

lemma waiting_remove:
  assumes "waiting_ok bc st B q" "distinct q"
    and "\<And>i. i \<in> set q \<Longrightarrow> i \<noteq> x \<Longrightarrow> be_status (bc_reqs bc i) = BST_BLOCK \<Longrightarrow>
      elem_off bc st i \<noteq> be_block (bc_reqs bc x)"
  shows "waiting_ok bc st (B - {x}) (remove1 x q)"
  using assms
proof (induction q arbitrary: B)
  case (Cons i q)
  have tl: "waiting_ok bc st (insert i B - {x}) (remove1 x q)"
    using Cons.IH [of "insert i B"] Cons.prems by auto
  show ?case
  proof (cases "i = x")
    case True
    then have "insert i B - {x} = B - {x}" "remove1 x q = q"
      using Cons.prems(2) by (auto simp: remove1_idem)
    then show ?thesis using tl True by simp
  next
    case False
    then have "insert i B - {x} = insert i (B - {x})" by auto
    moreover have "\<exists>j\<in>B - {x}. be_block (bc_reqs bc j) = elem_off bc st i"
      if "be_status (bc_reqs bc i) = BST_BLOCK"
      using Cons.prems(1) Cons.prems(3) [of i] that False by (metis Diff_iff list.set_intros(1) singletonD waiting_ok.simps(2))
    ultimately show ?thesis using tl False by simp
  qed
qed simp

section \<open>What the queue operations do\<close>

lemma set_elem_sel [simp]:
  "bc_freeq (set_elem i e bc) = bc_freeq bc" "bc_pendq (set_elem i e bc) = bc_pendq bc"
  "bc_busyq (set_elem i e bc) = bc_busyq bc" "bc_mtx (set_elem i e bc) = bc_mtx bc"
  "bc_magic (set_elem i e bc) = bc_magic bc" "bc_rdonly (set_elem i e bc) = bc_rdonly bc"
  "bc_base (set_elem i e bc) = bc_base bc"
  "bc_reqs (set_elem i e bc) = (bc_reqs bc)(i := e)"
  by (simp_all add: set_elem_def)

text \<open>The waking loop changes nothing but the states of the elements of the queue.\<close>

definition woken :: "'p req_store \<Rightarrow> int \<Rightarrow> nat set \<Rightarrow> 'p blockif_ctxt \<Rightarrow> 'p blockif_ctxt" where
  "woken st blk Q bc = bc\<lparr>bc_reqs := (\<lambda>i. if i \<in> Q \<and> elem_off bc st i = blk
     then (bc_reqs bc i)\<lparr>be_status := BST_PEND\<rparr> else bc_reqs bc i)\<rparr>"

lemma wake_eq:
  "\<forall>i\<in>set q. be_req (bc_reqs bc i) \<noteq> None \<Longrightarrow> wake st blk q bc = Inr (woken st blk (set q) bc)"
proof (induction q arbitrary: bc)
  case Nil
  then show ?case by (simp add: woken_def)
next
  case (Cons t q)
  define bc' where "bc' = (if elem_off bc st t = blk
    then set_elem t ((bc_reqs bc t)\<lparr>be_status := BST_PEND\<rparr>) bc else bc)"
  obtain r where r: "be_req (bc_reqs bc t) = Some r" using Cons.prems by auto
  have "wake st blk (t # q) bc = wake st blk q bc'"
    using r by (simp add: bc'_def elem_off_def)
  also have "\<dots> = Inr (woken st blk (set q) bc')"
    using Cons.prems by (intro Cons.IH) (auto simp: bc'_def)
  also have "woken st blk (set q) bc' = woken st blk (set (t # q)) bc"
    by (auto simp: woken_def bc'_def set_elem_def elem_off_def intro!: arg_cong [where f = "\<lambda>x. bc\<lparr>bc_reqs := x\<rparr>"])
  finally show ?case .
qed

lemma woken_sel [simp]:
  "bc_freeq (woken st blk Q bc) = bc_freeq bc" "bc_pendq (woken st blk Q bc) = bc_pendq bc"
  "bc_busyq (woken st blk Q bc) = bc_busyq bc" "bc_mtx (woken st blk Q bc) = bc_mtx bc"
  "be_req (bc_reqs (woken st blk Q bc) i) = be_req (bc_reqs bc i)"
  "be_block (bc_reqs (woken st blk Q bc) i) = be_block (bc_reqs bc i)"
  "be_op (bc_reqs (woken st blk Q bc) i) = be_op (bc_reqs bc i)"
  by (simp_all add: woken_def)

lemma woken_status:
  "be_status (bc_reqs (woken st blk Q bc) i) =
     (if i \<in> Q \<and> elem_off bc st i = blk then BST_PEND else be_status (bc_reqs bc i))"
  by (simp add: woken_def)

lemma elem_off_woken [simp]: "elem_off (woken st blk Q bc) st' i = elem_off bc st' i"
  by (simp add: elem_off_def)

definition completed :: "'p blockif_ctxt \<Rightarrow> 'p req_store \<Rightarrow> nat \<Rightarrow> 'p blockif_ctxt" where
  "completed bc st be =
     (let bc' = woken st (be_block (bc_reqs bc be)) (set (remove1 be (bc_pendq bc)))
            (bc\<lparr>bc_pendq := remove1 be (bc_pendq bc), bc_busyq := remove1 be (bc_busyq bc)\<rparr>)
      in set_elem be ((bc_reqs bc' be)\<lparr>be_tid := 0, be_status := BST_FREE, be_req := None\<rparr>)
           (bc'\<lparr>bc_freeq := bc_freeq bc @ [be]\<rparr>))"

lemma queues_apart:
  assumes "queues_ok bc"
  shows "distinct (bc_freeq bc)" "distinct (bc_pendq bc)" "distinct (bc_busyq bc)"
    "set (bc_freeq bc) \<inter> set (bc_pendq bc) = {}" "set (bc_freeq bc) \<inter> set (bc_busyq bc) = {}"
    "set (bc_pendq bc) \<inter> set (bc_busyq bc) = {}"
  using assms by (auto simp: queues_ok_def)

lemma free_elem:
  "queues_ok bc \<Longrightarrow> i \<in> set (bc_freeq bc) \<Longrightarrow> be_status (bc_reqs bc i) = BST_FREE \<and> be_req (bc_reqs bc i) = None"
  by (simp add: queues_ok_def elem_ok_def)

lemma pend_elem:
  "queues_ok bc \<Longrightarrow> i \<in> set (bc_pendq bc) \<Longrightarrow>
     (be_status (bc_reqs bc i) = BST_PEND \<or> be_status (bc_reqs bc i) = BST_BLOCK) \<and> be_req (bc_reqs bc i) \<noteq> None"
  by (auto simp: queues_ok_def elem_ok_def)

lemma busy_elem:
  "queues_ok bc \<Longrightarrow> i \<in> set (bc_busyq bc) \<Longrightarrow>
     (be_status (bc_reqs bc i) = BST_BUSY \<or> be_status (bc_reqs bc i) = BST_DONE) \<and> be_req (bc_reqs bc i) \<noteq> None"
  by (auto simp: queues_ok_def elem_ok_def)

lemma queues_okI:
  assumes "distinct (bc_freeq bc)" "distinct (bc_pendq bc)" "distinct (bc_busyq bc)"
    "set (bc_freeq bc) \<inter> set (bc_pendq bc) = {}" "set (bc_freeq bc) \<inter> set (bc_busyq bc) = {}"
    "set (bc_pendq bc) \<inter> set (bc_busyq bc) = {}"
    "set (bc_freeq bc) \<union> set (bc_pendq bc) \<union> set (bc_busyq bc) = {..<BLOCKIF_MAXREQ}"
    "\<And>i. i \<in> set (bc_freeq bc) \<Longrightarrow> be_status (bc_reqs bc i) = BST_FREE \<and> be_req (bc_reqs bc i) = None"
    "\<And>i. i \<in> set (bc_pendq bc) \<Longrightarrow>
       (be_status (bc_reqs bc i) = BST_PEND \<or> be_status (bc_reqs bc i) = BST_BLOCK) \<and> be_req (bc_reqs bc i) \<noteq> None"
    "\<And>i. i \<in> set (bc_busyq bc) \<Longrightarrow>
       (be_status (bc_reqs bc i) = BST_BUSY \<or> be_status (bc_reqs bc i) = BST_DONE) \<and> be_req (bc_reqs bc i) \<noteq> None"
  shows "queues_ok bc"
proof -
  have "\<forall>i\<in>set (bc_freeq bc). elem_ok bc {BST_FREE} i" using assms(8) by (simp add: elem_ok_def)
  moreover have "\<forall>i\<in>set (bc_pendq bc). elem_ok bc {BST_PEND, BST_BLOCK} i"
    using assms(9) by (fastforce simp: elem_ok_def)
  moreover have "\<forall>i\<in>set (bc_busyq bc). elem_ok bc {BST_BUSY, BST_DONE} i"
    using assms(10) by (fastforce simp: elem_ok_def)
  ultimately show ?thesis using assms(1-7) by (auto simp: queues_ok_def)
qed

lemma queues_cover:
  "queues_ok bc \<Longrightarrow> set (bc_freeq bc) \<union> set (bc_pendq bc) \<union> set (bc_busyq bc) = {..<BLOCKIF_MAXREQ}"
  by (auto simp: queues_ok_def)

lemma complete_eq:
  assumes "queues_ok bc" "be \<in> set (bc_pendq bc) \<union> set (bc_busyq bc)"
  shows "blockif_complete bc st be = Inr (completed bc st be)"
proof -
  note ap = queues_apart [OF assms(1)]
  define b1 where "b1 = bc\<lparr>bc_pendq := remove1 be (bc_pendq bc), bc_busyq := remove1 be (bc_busyq bc)\<rparr>"
  have pick: "(if be_status (bc_reqs bc be) = BST_DONE \<or> be_status (bc_reqs bc be) = BST_BUSY
         then bc\<lparr>bc_busyq := remove1 be (bc_busyq bc)\<rparr> else bc\<lparr>bc_pendq := remove1 be (bc_pendq bc)\<rparr>) = b1"
  proof (cases "be \<in> set (bc_pendq bc)")
    case True
    then have "be \<notin> set (bc_busyq bc)" using ap(6) by blast
    then show ?thesis using pend_elem [OF assms(1) True] by (auto simp: b1_def remove1_idem)
  next
    case False
    then have "be \<in> set (bc_busyq bc)" using assms(2) by blast
    then show ?thesis using busy_elem [OF assms(1)] False by (auto simp: b1_def remove1_idem)
  qed
  have "\<forall>i\<in>set (bc_pendq b1). be_req (bc_reqs b1 i) \<noteq> None"
  proof
    fix i assume "i \<in> set (bc_pendq b1)"
    then have "i \<in> set (bc_pendq bc)" using set_remove1_subset by (fastforce simp: b1_def)
    then show "be_req (bc_reqs b1 i) \<noteq> None" using pend_elem [OF assms(1)] by (simp add: b1_def)
  qed
  then have "wake st (be_block (bc_reqs b1 be)) (bc_pendq b1) b1 =
      Inr (woken st (be_block (bc_reqs b1 be)) (set (bc_pendq b1)) b1)" by (rule wake_eq)
  then show ?thesis
    unfolding blockif_complete_def Let_def pick by (simp add: completed_def b1_def Let_def)
qed

lemma completed_sel [simp]:
  "bc_freeq (completed bc st be) = bc_freeq bc @ [be]"
  "bc_pendq (completed bc st be) = remove1 be (bc_pendq bc)"
  "bc_busyq (completed bc st be) = remove1 be (bc_busyq bc)"
  "bc_mtx (completed bc st be) = bc_mtx bc"
  by (simp_all add: completed_def Let_def)

lemma completed_elem:
  "be_status (bc_reqs (completed bc st be) be) = BST_FREE"
  "be_req (bc_reqs (completed bc st be) be) = None"
  "i \<noteq> be \<Longrightarrow> be_req (bc_reqs (completed bc st be) i) = be_req (bc_reqs bc i)"
  "i \<noteq> be \<Longrightarrow> be_block (bc_reqs (completed bc st be) i) = be_block (bc_reqs bc i)"
  "i \<noteq> be \<Longrightarrow> elem_off (completed bc st be) st' i = elem_off bc st' i"
  "i \<noteq> be \<Longrightarrow> be_status (bc_reqs (completed bc st be) i) =
     (if i \<in> set (remove1 be (bc_pendq bc)) \<and> elem_off bc st i = be_block (bc_reqs bc be) then BST_PEND
      else be_status (bc_reqs bc i))"
  by (simp_all add: completed_def Let_def woken_def elem_off_def)

lemma completed_queues:
  assumes q: "queues_ok bc" and be: "be \<in> set (bc_pendq bc) \<union> set (bc_busyq bc)"
  shows "queues_ok (completed bc st be)"
proof (rule queues_okI)
  note ap = queues_apart [OF q]
  have sets: "set (remove1 be (bc_pendq bc)) = set (bc_pendq bc) - {be}"
    "set (remove1 be (bc_busyq bc)) = set (bc_busyq bc) - {be}"
    using ap by simp_all
  have free: "be \<notin> set (bc_freeq bc)" using be ap by blast
  show "distinct (bc_freeq (completed bc st be))" using ap(1) free by simp
  show "distinct (bc_pendq (completed bc st be))" using ap(2) by simp
  show "distinct (bc_busyq (completed bc st be))" using ap(3) by simp
  show "set (bc_freeq (completed bc st be)) \<inter> set (bc_pendq (completed bc st be)) = {}"
    using ap(4) sets by auto
  show "set (bc_freeq (completed bc st be)) \<inter> set (bc_busyq (completed bc st be)) = {}"
    using ap(5) sets by auto
  show "set (bc_pendq (completed bc st be)) \<inter> set (bc_busyq (completed bc st be)) = {}"
    using ap(6) sets by auto
  show "set (bc_freeq (completed bc st be)) \<union> set (bc_pendq (completed bc st be)) \<union>
      set (bc_busyq (completed bc st be)) = {..<BLOCKIF_MAXREQ}"
    using queues_cover [OF q] be sets by auto
  fix i
  show "be_status (bc_reqs (completed bc st be) i) = BST_FREE \<and> be_req (bc_reqs (completed bc st be) i) = None"
    if "i \<in> set (bc_freeq (completed bc st be))"
    using that free_elem [OF q, of i] ap(4) sets by (cases "i = be") (auto simp: completed_elem)
  show "(be_status (bc_reqs (completed bc st be) i) = BST_PEND \<or>
      be_status (bc_reqs (completed bc st be) i) = BST_BLOCK) \<and> be_req (bc_reqs (completed bc st be) i) \<noteq> None"
    if "i \<in> set (bc_pendq (completed bc st be))"
    using that pend_elem [OF q, of i] sets by (simp add: completed_elem)
  show "(be_status (bc_reqs (completed bc st be) i) = BST_BUSY \<or>
      be_status (bc_reqs (completed bc st be) i) = BST_DONE) \<and> be_req (bc_reqs (completed bc st be) i) \<noteq> None"
    if "i \<in> set (bc_busyq (completed bc st be))"
  proof -
    have i: "i \<in> set (bc_busyq bc)" "i \<noteq> be" using that sets by simp_all
    then have "i \<notin> set (remove1 be (bc_pendq bc))" using ap(6) sets by auto
    then show ?thesis using busy_elem [OF q i(1)] i(2) by (simp add: completed_elem)
  qed
qed

lemma completed_inv:
  assumes "blk_inv bc st" "be \<in> set (bc_pendq bc) \<union> set (bc_busyq bc)"
  shows "blk_inv (completed bc st be) st"
proof -
  have q: "queues_ok bc" and w: "waiting_ok bc st (set (bc_busyq bc)) (bc_pendq bc)"
    using assms(1) by (simp_all add: blk_inv_def)
  note ap = queues_apart [OF q]
  define p' where "p' = remove1 be (bc_pendq bc)"
  have p': "set p' = set (bc_pendq bc) - {be}" "set (remove1 be (bc_busyq bc)) = set (bc_busyq bc) - {be}"
    using ap by (simp_all add: p'_def)
  define bw where "bw = woken st (be_block (bc_reqs bc be)) (set p') bc"
  have "waiting_ok bw st (set (bc_busyq bc)) (bc_pendq bc)"
    using w by (rule waiting_cong) (simp_all add: bw_def woken_status)
  then have "waiting_ok bw st (set (bc_busyq bc) - {be}) p'"
    unfolding p'_def
  proof (rule waiting_remove)
    show "distinct (bc_pendq bc)" by (rule ap(2))
    fix i assume i: "i \<in> set (bc_pendq bc)" "i \<noteq> be" "be_status (bc_reqs bw i) = BST_BLOCK"
    then have "i \<in> set p'" using p' by blast
    then show "elem_off bw st i \<noteq> be_block (bc_reqs bw be)"
      using i(3) by (simp add: bw_def woken_status split: if_splits)
  qed
  then have "waiting_ok (completed bc st be) st (set (bc_busyq bc) - {be}) p'"
  proof (rule waiting_cong)
    have same: "be_block (bc_reqs (completed bc st be) i) = be_block (bc_reqs bw i)"
      "elem_off (completed bc st be) st i = elem_off bw st i"
      "be_status (bc_reqs (completed bc st be) i) = be_status (bc_reqs bw i)" if "i \<noteq> be" for i
      using that by (simp_all add: completed_elem bw_def woken_status p'_def)
    fix i
    show "be_block (bc_reqs (completed bc st be) i) = be_block (bc_reqs bw i)"
      if "i \<in> (set (bc_busyq bc) - {be}) \<union> set p'"
    proof -
      have "i \<noteq> be" using that p' by blast
      then show ?thesis by (rule same)
    qed
    show "elem_off (completed bc st be) st i = elem_off bw st i \<and>
        (be_status (bc_reqs (completed bc st be) i) = BST_BLOCK \<longrightarrow> be_status (bc_reqs bw i) = BST_BLOCK)"
      if "i \<in> set p'"
    proof -
      have "i \<noteq> be" using that p' by blast
      then show ?thesis using same by metis
    qed
  qed
  then have "waiting_ok (completed bc st be) st (set (bc_busyq (completed bc st be))) (bc_pendq (completed bc st be))"
    using p' by (simp add: p'_def)
  then show ?thesis using completed_queues [OF q assms(2)] by (simp add: blk_inv_def)
qed

lemma waiting_move:
  "waiting_ok bc st B q \<Longrightarrow> waiting_ok bc st (insert x B) (remove1 x q)"
proof (induction q arbitrary: B)
  case (Cons i q)
  show ?case
  proof (cases "i = x")
    case True
    then show ?thesis using Cons.prems by simp
  next
    case False
    have "waiting_ok bc st (insert x (insert i B)) (remove1 x q)"
      using Cons.IH [of "insert i B"] Cons.prems by simp
    then show ?thesis using Cons.prems False by (auto simp: insert_commute)
  qed
qed simp

lemma first_pending_cases:
  "\<forall>i\<in>set q. be_status (bc_reqs bc i) = BST_PEND \<or> be_status (bc_reqs bc i) = BST_BLOCK \<Longrightarrow>
   (\<exists>be\<in>set q. first_pending bc q = Inr (Some be) \<and> be_status (bc_reqs bc be) = BST_PEND) \<or>
   (first_pending bc q = Inr None \<and> (\<forall>i\<in>set q. be_status (bc_reqs bc i) = BST_BLOCK))"
  by (induction q) (auto simp: bind_assertE)

definition dequeued :: "'p blockif_ctxt \<Rightarrow> nat \<Rightarrow> 'p blockif_ctxt" where
  "dequeued bc be = set_elem be ((bc_reqs bc be)\<lparr>be_status := BST_BUSY, be_tid := 0\<rparr>)
     (bc\<lparr>bc_pendq := remove1 be (bc_pendq bc), bc_busyq := bc_busyq bc @ [be]\<rparr>)"

lemma dequeued_inv:
  assumes "blk_inv bc st" "be \<in> set (bc_pendq bc)"
  shows "blk_inv (dequeued bc be) st"
proof -
  have q: "queues_ok bc" and w: "waiting_ok bc st (set (bc_busyq bc)) (bc_pendq bc)"
    using assms(1) by (simp_all add: blk_inv_def)
  note ap = queues_apart [OF q]
  have p': "set (remove1 be (bc_pendq bc)) = set (bc_pendq bc) - {be}" using ap(2) by simp
  let ?bc = "dequeued bc be"
  have el: "be_req (bc_reqs ?bc i) = be_req (bc_reqs bc i)" "be_block (bc_reqs ?bc i) = be_block (bc_reqs bc i)"
    "elem_off ?bc st i = elem_off bc st i"
    "be_status (bc_reqs ?bc i) = (if i = be then BST_BUSY else be_status (bc_reqs bc i))" for i
    by (simp_all add: dequeued_def elem_off_def)
  have "queues_ok ?bc"
  proof (rule queues_okI)
    show "distinct (bc_freeq ?bc)" "distinct (bc_pendq ?bc)" "distinct (bc_busyq ?bc)"
      "set (bc_freeq ?bc) \<inter> set (bc_pendq ?bc) = {}" "set (bc_freeq ?bc) \<inter> set (bc_busyq ?bc) = {}"
      "set (bc_pendq ?bc) \<inter> set (bc_busyq ?bc) = {}"
      "set (bc_freeq ?bc) \<union> set (bc_pendq ?bc) \<union> set (bc_busyq ?bc) = {..<BLOCKIF_MAXREQ}"
      using ap assms(2) queues_cover [OF q] p' by (auto simp: dequeued_def)
    fix i
    show "be_status (bc_reqs ?bc i) = BST_FREE \<and> be_req (bc_reqs ?bc i) = None" if "i \<in> set (bc_freeq ?bc)"
    proof -
      have "i \<in> set (bc_freeq bc)" using that by (simp add: dequeued_def)
      moreover from this have "i \<noteq> be" using ap(4) assms(2) by blast
      ultimately show ?thesis using free_elem [OF q] by (simp add: el)
    qed
    show "(be_status (bc_reqs ?bc i) = BST_PEND \<or> be_status (bc_reqs ?bc i) = BST_BLOCK) \<and>
        be_req (bc_reqs ?bc i) \<noteq> None" if "i \<in> set (bc_pendq ?bc)"
      using that pend_elem [OF q, of i] p' by (simp add: el) (simp add: dequeued_def)
    show "(be_status (bc_reqs ?bc i) = BST_BUSY \<or> be_status (bc_reqs ?bc i) = BST_DONE) \<and>
        be_req (bc_reqs ?bc i) \<noteq> None" if "i \<in> set (bc_busyq ?bc)"
      using that busy_elem [OF q, of i] pend_elem [OF q, of be] assms(2)
      by (cases "i = be") (simp_all add: el, simp_all add: dequeued_def)
  qed
  moreover have "waiting_ok bc st (insert be (set (bc_busyq bc))) (remove1 be (bc_pendq bc))"
    by (rule waiting_move [OF w])
  then have "waiting_ok ?bc st (insert be (set (bc_busyq bc))) (remove1 be (bc_pendq bc))"
    by (rule waiting_cong) (auto simp: el)
  then have "waiting_ok ?bc st (set (bc_busyq ?bc)) (bc_pendq ?bc)" by (simp add: dequeued_def)
  ultimately show ?thesis by (simp add: blk_inv_def)
qed

lemma dequeue_cases:
  assumes "blk_inv bc st" "bc_busyq bc = []"
  shows "(bc_pendq bc = [] \<and> blockif_dequeue bc 0 = Inr (None, bc)) \<or>
    (\<exists>be\<in>set (bc_pendq bc). blockif_dequeue bc 0 = Inr (Some be, dequeued bc be))"
proof -
  have q: "queues_ok bc" and w: "waiting_ok bc st {} (bc_pendq bc)"
    using assms by (simp_all add: blk_inv_def)
  have "\<forall>i\<in>set (bc_pendq bc). be_status (bc_reqs bc i) = BST_PEND \<or> be_status (bc_reqs bc i) = BST_BLOCK"
    using pend_elem [OF q] by blast
  from first_pending_cases [OF this] show ?thesis
  proof
    assume "\<exists>be\<in>set (bc_pendq bc). first_pending bc (bc_pendq bc) = Inr (Some be) \<and>
      be_status (bc_reqs bc be) = BST_PEND"
    then show ?thesis by (auto simp: blockif_dequeue_def dequeued_def)
  next
    assume none: "first_pending bc (bc_pendq bc) = Inr None \<and>
      (\<forall>i\<in>set (bc_pendq bc). be_status (bc_reqs bc i) = BST_BLOCK)"
    then have "bc_pendq bc = []" using w by (cases "bc_pendq bc") auto
    then show ?thesis by (simp add: blockif_dequeue_def)
  qed
qed

section \<open>Requests\<close>

definition req_ok :: "blockif_req \<Rightarrow> bool" where
  "req_ok br \<longleftrightarrow> br_iovcnt br \<le> length (br_iov br)"

lemma req_end_ok: "req_ok br \<Longrightarrow> \<exists>off. req_end br op = Inr off"
  by (auto simp: req_end_def req_iov_def req_ok_def)

lemma enqueue_inv:
  assumes "blk_inv bc st" "bc_freeq bc = be # fq" "req_ok (st p)"
  shows "\<exists>e pend bc'. blockif_enqueue bc st p op = Inr (pend, bc') \<and> blk_inv bc' st \<and>
    bc' = set_elem be e (bc\<lparr>bc_freeq := fq, bc_pendq := bc_pendq bc @ [be]\<rparr>) \<and> be_req e = Some p"
proof -
  have q: "queues_ok bc" and w: "waiting_ok bc st (set (bc_busyq bc)) (bc_pendq bc)"
    using assms(1) by (simp_all add: blk_inv_def)
  note ap = queues_apart [OF q]
  obtain off where off: "req_end (st p) op = Inr off" using req_end_ok [OF assms(3)] by blast
  define waits where "waits = (\<lambda>tbe. be_block (bc_reqs bc tbe) = br_offset (st p))"
  define pend where "pend \<longleftrightarrow> find waits (bc_pendq bc) = None \<and> find waits (bc_busyq bc) = None"
  define e where "e = (bc_reqs bc be)\<lparr>be_req := Some p, be_op := op, be_block := off,
      be_status := (if pend then BST_PEND else BST_BLOCK)\<rparr>"
  define bc' where "bc' = set_elem be e (bc\<lparr>bc_freeq := fq, bc_pendq := bc_pendq bc @ [be]\<rparr>)"
  have enq: "blockif_enqueue bc st p op = Inr (pend, bc')"
    using free_elem [OF q, of be] assms(2) off
    by (simp add: blockif_enqueue_def bc'_def e_def pend_def waits_def Let_def)
  have be: "be \<notin> set fq" "be \<notin> set (bc_pendq bc)" "be \<notin> set (bc_busyq bc)"
    using ap assms(2) by auto
  have other: "bc_reqs bc' i = bc_reqs bc i" if "i \<noteq> be" for i using that by (simp add: bc'_def)
  have new: "bc_reqs bc' be = e" by (simp add: bc'_def)
  have lists: "bc_freeq bc' = fq" "bc_pendq bc' = bc_pendq bc @ [be]" "bc_busyq bc' = bc_busyq bc"
    by (simp_all add: bc'_def)
  have "queues_ok bc'"
  proof (rule queues_okI)
    show "distinct (bc_freeq bc')" "distinct (bc_pendq bc')" "distinct (bc_busyq bc')"
      "set (bc_freeq bc') \<inter> set (bc_pendq bc') = {}" "set (bc_freeq bc') \<inter> set (bc_busyq bc') = {}"
      "set (bc_pendq bc') \<inter> set (bc_busyq bc') = {}"
      "set (bc_freeq bc') \<union> set (bc_pendq bc') \<union> set (bc_busyq bc') = {..<BLOCKIF_MAXREQ}"
      using ap assms(2) queues_cover [OF q] be by (auto simp: lists)
    fix i
    show "be_status (bc_reqs bc' i) = BST_FREE \<and> be_req (bc_reqs bc' i) = None" if "i \<in> set (bc_freeq bc')"
    proof -
      have i: "i \<in> set (bc_freeq bc)" "i \<noteq> be" using that assms(2) be(1) by (auto simp: lists)
      then show ?thesis using free_elem [OF q i(1)] other [OF i(2)] by simp
    qed
    show "(be_status (bc_reqs bc' i) = BST_PEND \<or> be_status (bc_reqs bc' i) = BST_BLOCK) \<and>
        be_req (bc_reqs bc' i) \<noteq> None" if "i \<in> set (bc_pendq bc')"
      using that pend_elem [OF q, of i] other [of i] new by (cases "i = be") (simp_all add: lists e_def)
    show "(be_status (bc_reqs bc' i) = BST_BUSY \<or> be_status (bc_reqs bc' i) = BST_DONE) \<and>
        be_req (bc_reqs bc' i) \<noteq> None" if "i \<in> set (bc_busyq bc')"
      using that busy_elem [OF q, of i] be other [of i] by (cases "i = be") (simp_all add: lists)
  qed
  moreover have "waiting_ok bc' st (set (bc_busyq bc)) (bc_pendq bc)"
  proof (rule waiting_cong [OF w])
    fix i
    show "be_block (bc_reqs bc' i) = be_block (bc_reqs bc i)" if "i \<in> set (bc_busyq bc) \<union> set (bc_pendq bc)"
      using that be by (intro arg_cong [where f = be_block] other) auto
    show "elem_off bc' st i = elem_off bc st i \<and>
        (be_status (bc_reqs bc' i) = BST_BLOCK \<longrightarrow> be_status (bc_reqs bc i) = BST_BLOCK)"
      if "i \<in> set (bc_pendq bc)"
    proof -
      have "i \<noteq> be" using that be by auto
      then show ?thesis using other by (simp add: elem_off_def)
    qed
  qed
  moreover have "\<exists>j\<in>set (bc_busyq bc) \<union> set (bc_pendq bc). be_block (bc_reqs bc' j) = elem_off bc' st be"
    if "be_status (bc_reqs bc' be) = BST_BLOCK"
  proof -
    have "\<not> pend" using that by (auto simp: new e_def)
    then obtain j where "j \<in> set (bc_busyq bc) \<union> set (bc_pendq bc)" "waits j"
      by (auto simp: pend_def dest: find_Some_in)
    moreover have "elem_off bc' st be = br_offset (st p)" by (simp add: elem_off_def new e_def)
    moreover have "be_block (bc_reqs bc' j) = be_block (bc_reqs bc j)"
      using \<open>j \<in> _\<close> be by (intro arg_cong [where f = be_block] other) auto
    ultimately show ?thesis by (auto simp: waits_def)
  qed
  ultimately have "blk_inv bc' st" by (simp add: blk_inv_def lists waiting_append)
  moreover have "be_req e = Some p" by (simp add: e_def)
  ultimately show ?thesis using enq bc'_def by blast
qed

section \<open>Draining the queue\<close>

text \<open>The parts of a request that the queues and the transfer read.\<close>

definition same_reqs :: "'p req_store \<Rightarrow> 'p req_store \<Rightarrow> bool" where
  "same_reqs st st' \<longleftrightarrow> (\<forall>p. br_offset (st' p) = br_offset (st p) \<and> br_iovcnt (st' p) = br_iovcnt (st p) \<and>
     br_iov (st' p) = br_iov (st p))"

text \<open>
  A callback that returns, leaves the queues and the outstanding requests
  alone and, as \<open>obs\<close> sees it in its own part of the state, takes note of the
  request it was called for. The callbacks of \<open>bhyve/pci_ahci.c\<close> are not all of this kind: for a command that
  needs another part they submit it, which stops (\<open>reissue_stops\<close>, \<open>long_transfer_stops\<close>). What the
  controller's own callbacks do to the queue is in \<open>Ahci_Thread\<close>.
\<close>

definition answers ::
    "('p, 'a) blk_callback \<Rightarrow> ('a \<Rightarrow> 'p list) \<Rightarrow> bool" where
  "answers cb obs \<longleftrightarrow> (\<forall>p err w. \<exists>w'. cb p err w = Inr w' \<and> blk_bc w' = blk_bc w \<and>
     same_reqs (blk_st w) (blk_st w') \<and> obs (blk_world.more w') = obs (blk_world.more w) @ [p])"

lemma answersD:
  "answers cb obs \<Longrightarrow> \<exists>w'. cb p err w = Inr w' \<and> blk_bc w' = blk_bc w \<and>
     same_reqs (blk_st w) (blk_st w') \<and> obs (blk_world.more w') = obs (blk_world.more w) @ [p]"
  by (simp add: answers_def)

lemma same_reqs_trans: "same_reqs a b \<Longrightarrow> same_reqs b c \<Longrightarrow> same_reqs a c"
  by (simp add: same_reqs_def)

lemma blk_inv_store: "same_reqs st st' \<Longrightarrow> blk_inv bc st' = blk_inv bc st"
proof -
  assume s: "same_reqs st st'"
  have "waiting_ok bc st' B q = waiting_ok bc st B q" for B q
    using s by (induction q arbitrary: B) (simp_all add: elem_off_def same_reqs_def)
  then show ?thesis by (simp add: blk_inv_def)
qed

lemma transfer_ok:
  assumes "req_ok (blk_st w r)"
  shows "\<exists>err w'. blk_transfer r op w = Inr (err, w') \<and> blk_bc w' = blk_bc w \<and>
    same_reqs (blk_st w) (blk_st w') \<and> blk_world.more w' = blk_world.more w"
  using assms
  by (cases op) (auto simp: blk_transfer_def Let_def req_iov_def req_ok_def clear_resid_def same_reqs_def)

lemma done_inv:
  assumes "blk_inv bc st" "be \<in> set (bc_busyq bc)"
  shows "blk_inv (set_elem be ((bc_reqs bc be)\<lparr>be_status := BST_DONE\<rparr>) bc) st" (is "blk_inv ?bc st")
proof -
  have q: "queues_ok bc" and w: "waiting_ok bc st (set (bc_busyq bc)) (bc_pendq bc)"
    using assms(1) by (simp_all add: blk_inv_def)
  have el: "be_req (bc_reqs ?bc i) = be_req (bc_reqs bc i)" "be_block (bc_reqs ?bc i) = be_block (bc_reqs bc i)"
    "elem_off ?bc st i = elem_off bc st i"
    "be_status (bc_reqs ?bc i) = (if i = be then BST_DONE else be_status (bc_reqs bc i))" for i
    by (simp_all add: elem_off_def)
  have "queues_ok ?bc"
    using q assms(2) unfolding queues_ok_def elem_ok_def el by auto
  moreover have "waiting_ok ?bc st (set (bc_busyq bc)) (bc_pendq bc)"
    using w by (rule waiting_cong) (auto simp: el)
  ultimately show ?thesis by (simp add: blk_inv_def)
qed

text \<open>The state between two turns of the loop.\<close>

definition idle_inv :: "('p, 'a) blk_world_scheme \<Rightarrow> bool" where
  "idle_inv w \<longleftrightarrow> blk_inv (blk_bc w) (blk_st w) \<and> bc_busyq (blk_bc w) = [] \<and> (\<forall>p. req_ok (blk_st w p))"

definition queued :: "'p blockif_ctxt \<Rightarrow> 'p multiset" where
  "queued bc = image_mset (\<lambda>i. the (be_req (bc_reqs bc i))) (mset (bc_pendq bc))"

lemma req_ok_same: "same_reqs st st' \<Longrightarrow> req_ok (st' p) = req_ok (st p)"
  by (simp add: same_reqs_def req_ok_def)

lemma queued_remove:
  "be \<in> set q \<Longrightarrow> distinct q \<Longrightarrow> (\<And>i. i \<noteq> be \<Longrightarrow> g i = f i) \<Longrightarrow>
   image_mset f (mset q) = add_mset (f be) (image_mset g (mset (remove1 be q)))"
proof -
  assume a: "be \<in> set q" "distinct q" "\<And>i. i \<noteq> be \<Longrightarrow> g i = f i"
  have "be \<notin> set (remove1 be q)" using a(2) by simp
  then have "image_mset g (mset (remove1 be q)) = image_mset f (mset (remove1 be q))"
    using a(3) by (intro image_mset_cong) (metis set_mset_mset)
  moreover have "mset q = add_mset be (mset (remove1 be q))" using a(1) by simp
  ultimately show ?thesis by (metis image_mset_add_mset)
qed

lemma completed_magic: "bc_magic (completed bc st be) = bc_magic bc"
  by (simp add: completed_def Let_def woken_def)

text \<open>One turn of the loop: the request of the element is carried out, its callback runs, the element is completed.\<close>

definition served :: "'p blockif_ctxt \<Rightarrow> nat \<Rightarrow> 'p blockif_ctxt" where
  "served bc be = set_elem be ((bc_reqs (dequeued bc be) be)\<lparr>be_status := BST_DONE\<rparr>) (dequeued bc be)"

lemma served_inv:
  assumes "blk_inv bc st" "bc_busyq bc = []" "be \<in> set (bc_pendq bc)"
  shows "blk_inv (served bc be) st" "bc_busyq (served bc be) = [be]" "bc_pendq (served bc be) = remove1 be (bc_pendq bc)"
    "bc_mtx (served bc be) = bc_mtx bc" "bc_magic (served bc be) = bc_magic bc"
proof -
  have d: "blk_inv (dequeued bc be) st" "bc_busyq (dequeued bc be) = [be]"
    using dequeued_inv [OF assms(1,3)] assms(2) by (simp_all add: dequeued_def)
  show "blk_inv (served bc be) st" using done_inv [OF d(1), of be] d(2) by (simp add: served_def)
qed (simp_all add: served_def dequeued_def assms(2))

lemma served_complete:
  assumes "idle_inv w" "be \<in> set (bc_pendq (blk_bc w))" "be_req (bc_reqs (blk_bc w) be) = Some r"
    and "blk_bc w2 = served (blk_bc w) be" "same_reqs (blk_st w) (blk_st w2)"
  shows "\<exists>bc. blockif_complete (blk_bc w2) (blk_st w2) be = Inr bc \<and> idle_inv (w2\<lparr>blk_bc := bc\<rparr>) \<and>
    bc_pendq bc = remove1 be (bc_pendq (blk_bc w)) \<and> bc_mtx bc = bc_mtx (blk_bc w) \<and> bc_magic bc = bc_magic (blk_bc w) \<and>
    queued (blk_bc w) = add_mset r (queued bc)"
proof -
  let ?bc = "blk_bc w" and ?c = "completed (blk_bc w2) (blk_st w2) be"
  have inv: "blk_inv ?bc (blk_st w)" "bc_busyq ?bc = []" "\<And>p. req_ok (blk_st w p)"
    using assms(1) by (simp_all add: idle_inv_def)
  then have q: "queues_ok ?bc" by (simp add: blk_inv_def)
  note s = served_inv [OF inv(1,2) assms(2), folded assms(4)]
  have inv2: "blk_inv (blk_bc w2) (blk_st w2)" using s(1) blk_inv_store [OF assms(5)] by simp
  then have "queues_ok (blk_bc w2)" by (simp add: blk_inv_def)
  then have comp: "blockif_complete (blk_bc w2) (blk_st w2) be = Inr ?c" by (rule complete_eq) (simp add: s(2))
  have notin: "be \<notin> set (remove1 be (bc_pendq ?bc))" using queues_apart(2) [OF q] by simp
  then have pend: "bc_pendq ?c = remove1 be (bc_pendq ?bc)" by (simp add: s(3) remove1_idem)
  have "idle_inv (w2\<lparr>blk_bc := ?c\<rparr>)"
    using completed_inv [OF inv2, of be] s(2) inv(3) req_ok_same [OF assms(5)] by (simp add: idle_inv_def)
  moreover have "queued ?bc = add_mset r (queued ?c)"
  proof -
    have "the (be_req (bc_reqs ?c i)) = the (be_req (bc_reqs ?bc i))" if "i \<noteq> be" for i
      using that by (simp add: completed_elem assms(4) served_def dequeued_def)
    then have "queued ?bc = add_mset (the (be_req (bc_reqs ?bc be)))
        (image_mset (\<lambda>i. the (be_req (bc_reqs ?c i))) (mset (remove1 be (bc_pendq ?bc))))"
      unfolding queued_def by (intro queued_remove [OF assms(2) queues_apart(2) [OF q]])
    then show ?thesis unfolding queued_def pend by (simp add: assms(3))
  qed
  ultimately show ?thesis using comp pend s(4,5) by (auto simp: completed_magic)
qed

lemma turn_parts:
  assumes "idle_inv w" "be \<in> set (bc_pendq (blk_bc w))"
  shows "\<exists>r err w1. be_req (bc_reqs (blk_bc w) be) = Some r \<and> r \<in># queued (blk_bc w) \<and>
    blk_bc w1 = served (blk_bc w) be \<and> same_reqs (blk_st w) (blk_st w1) \<and> blk_world.more w1 = blk_world.more w \<and>
    bindE (blockif_proc cb be (w\<lparr>blk_bc := dequeued (blk_bc w) be\<rparr>)) f = bindE (cb r err w1) f"
proof -
  let ?d = "dequeued (blk_bc w) be"
  have inv: "queues_ok (blk_bc w)" "\<And>p. req_ok (blk_st w p)" using assms(1) by (simp_all add: idle_inv_def blk_inv_def)
  obtain r where r: "be_req (bc_reqs (blk_bc w) be) = Some r" using pend_elem [OF inv(1) assms(2)] by blast
  have rq: "r \<in># queued (blk_bc w)" using assms(2) r by (force simp: queued_def)
  let ?w0 = "w\<lparr>blk_bc := ?d\<rparr>"
  have "req_ok (blk_st ?w0 r)" using inv(2) by simp
  then obtain err w1 where t: "blk_transfer r (be_op (bc_reqs ?d be)) ?w0 = Inr (err, w1)" "blk_bc w1 = ?d"
      "same_reqs (blk_st w) (blk_st w1)" "blk_world.more w1 = blk_world.more w"
    using transfer_ok [of ?w0 r "be_op (bc_reqs ?d be)"] by auto
  let ?w1 = "w1\<lparr>blk_bc := served (blk_bc w) be\<rparr>"
  have "bindE (blockif_proc cb be ?w0) f = bindE (cb r err ?w1) f"
    using r t(1,2) by (simp add: blockif_proc_def dequeued_def served_def)
  then show ?thesis using r rq t(3,4) by (intro exI [of _ r] exI [of _ err] exI [of _ ?w1]) simp
qed

lemma loop_turn:
  assumes "answers cb obs" "idle_inv w" "be \<in> set (bc_pendq (blk_bc w))"
  shows "\<exists>w'. bindE (blockif_proc cb be (w\<lparr>blk_bc := dequeued (blk_bc w) be\<rparr>)) (\<lambda>w.
            bindE (blockif_complete (blk_bc w) (blk_st w) be) (\<lambda>bc. Inr (w\<lparr>blk_bc := bc\<rparr>))) = Inr w' \<and>
    idle_inv w' \<and> bc_pendq (blk_bc w') = remove1 be (bc_pendq (blk_bc w)) \<and>
    bc_mtx (blk_bc w') = bc_mtx (blk_bc w) \<and> bc_magic (blk_bc w') = bc_magic (blk_bc w) \<and>
    mset (obs (blk_world.more w')) + queued (blk_bc w') = mset (obs (blk_world.more w)) + queued (blk_bc w)"
proof -
  let ?f = "\<lambda>w. bindE (blockif_complete (blk_bc w) (blk_st w) be) (\<lambda>bc. Inr (w\<lparr>blk_bc := bc\<rparr>))"
  obtain r err w1 where t: "be_req (bc_reqs (blk_bc w) be) = Some r" "blk_bc w1 = served (blk_bc w) be"
      "same_reqs (blk_st w) (blk_st w1)" "blk_world.more w1 = blk_world.more w"
      "bindE (blockif_proc cb be (w\<lparr>blk_bc := dequeued (blk_bc w) be\<rparr>)) ?f = bindE (cb r err w1) ?f"
    using turn_parts [OF assms(2,3), of cb ?f] by blast
  obtain w2 where c: "cb r err w1 = Inr w2" "blk_bc w2 = served (blk_bc w) be" "same_reqs (blk_st w1) (blk_st w2)"
      "obs (blk_world.more w2) = obs (blk_world.more w1) @ [r]"
    using answersD [OF assms(1), of r err w1] unfolding t(2) by blast
  obtain bc where b: "blockif_complete (blk_bc w2) (blk_st w2) be = Inr bc" "idle_inv (w2\<lparr>blk_bc := bc\<rparr>)"
    "bc_pendq bc = remove1 be (bc_pendq (blk_bc w))" "bc_mtx bc = bc_mtx (blk_bc w)" "bc_magic bc = bc_magic (blk_bc w)"
    "queued (blk_bc w) = add_mset r (queued bc)"
    using served_complete [OF assms(2,3) t(1) c(2) same_reqs_trans [OF t(3) c(3)]] by blast
  then show ?thesis using c(1,4) t(4) unfolding t(5) by (intro exI [of _ "w2\<lparr>blk_bc := bc\<rparr>"]) simp
qed

lemma loop_drains:
  assumes "answers cb obs" "idle_inv w"
  shows "\<exists>w'. blockif_loop cb w = Some (Inr w') \<and> idle_inv w' \<and> bc_pendq (blk_bc w') = [] \<and>
    bc_mtx (blk_bc w') = bc_mtx (blk_bc w) \<and> bc_magic (blk_bc w') = bc_magic (blk_bc w) \<and>
    mset (obs (blk_world.more w')) = mset (obs (blk_world.more w)) + queued (blk_bc w)"
  using assms(2)
proof (induction "length (bc_pendq (blk_bc w))" arbitrary: w rule: less_induct)
  case less
  have inv: "blk_inv (blk_bc w) (blk_st w)" "bc_busyq (blk_bc w) = []"
    using less.prems by (simp_all add: idle_inv_def)
  from dequeue_cases [OF inv] show ?case
  proof
    assume a: "bc_pendq (blk_bc w) = [] \<and> blockif_dequeue (blk_bc w) 0 = Inr (None, blk_bc w)"
    then have "blockif_loop cb w = Some (Inr w)" by (subst blockif_loop.simps) simp
    then show ?thesis using a less.prems by (simp add: queued_def)
  next
    assume "\<exists>be\<in>set (bc_pendq (blk_bc w)). blockif_dequeue (blk_bc w) 0 = Inr (Some be, dequeued (blk_bc w) be)"
    then obtain be where be: "be \<in> set (bc_pendq (blk_bc w))"
      "blockif_dequeue (blk_bc w) 0 = Inr (Some be, dequeued (blk_bc w) be)" by blast
    from loop_turn [OF assms(1) less.prems be(1)]
    obtain w1 where w1: "bindE (blockif_proc cb be (w\<lparr>blk_bc := dequeued (blk_bc w) be\<rparr>)) (\<lambda>w.
        bindE (blockif_complete (blk_bc w) (blk_st w) be) (\<lambda>bc. Inr (w\<lparr>blk_bc := bc\<rparr>))) = Inr w1"
      "idle_inv w1" "bc_pendq (blk_bc w1) = remove1 be (bc_pendq (blk_bc w))"
      "bc_mtx (blk_bc w1) = bc_mtx (blk_bc w)" "bc_magic (blk_bc w1) = bc_magic (blk_bc w)"
      "mset (obs (blk_world.more w1)) + queued (blk_bc w1) = mset (obs (blk_world.more w)) + queued (blk_bc w)"
      by blast
    have "length (bc_pendq (blk_bc w1)) < length (bc_pendq (blk_bc w))"
      using be(1) w1(3) length_pos_if_in_set [OF be(1)] by (simp add: length_remove1)
    from less.hyps [OF this w1(2)] obtain w' where w': "blockif_loop cb w1 = Some (Inr w')" "idle_inv w'"
      "bc_pendq (blk_bc w') = []" "bc_mtx (blk_bc w') = bc_mtx (blk_bc w1)" "bc_magic (blk_bc w') = bc_magic (blk_bc w1)"
      "mset (obs (blk_world.more w')) = mset (obs (blk_world.more w1)) + queued (blk_bc w1)" by blast
    have "blockif_loop cb w = blockif_loop cb w1"
      by (subst blockif_loop.simps) (simp add: be(2) w1(1))
    then show ?thesis using w' w1(4,5,6) by auto
  qed
qed

text \<open>The critical sections of the context, through the mutex contract.\<close>

lemma lock_bc_free:
  "free_mutex (bc_mtx bc) \<Longrightarrow>
   \<exists>m. lock_bc bc = Inr (bc\<lparr>bc_mtx := m\<rparr>) \<and> held_mutex m"
  using pthread.lock_free [of "bc_mtx bc"] by (auto simp: lock_bc_def)

lemma lock_bc_stuck: "\<not> free_mutex (bc_mtx bc) \<Longrightarrow> lock_bc bc = Inl Assert_failed"
  using pthread.lock_not_free [of "bc_mtx bc"] by (simp add: lock_bc_def)

lemma unlock_bc_held:
  "held_mutex (bc_mtx bc) \<Longrightarrow>
   \<exists>m. unlock_bc bc = Inr (bc\<lparr>bc_mtx := m\<rparr>) \<and> free_mutex m"
  using pthread.unlock_held [of "bc_mtx bc"] by (auto simp: unlock_bc_def)

lemma set_elem_mtx: "set_elem i e (bc\<lparr>bc_mtx := m\<rparr>) = (set_elem i e bc)\<lparr>bc_mtx := m\<rparr>"
  by (simp add: set_elem_def)

lemma waiting_mtx [simp]: "waiting_ok (bc\<lparr>bc_mtx := m\<rparr>) st B q = waiting_ok bc st B q"
  by (induction q arbitrary: B) (simp_all add: elem_off_def)

lemma blk_inv_mtx [simp]: "blk_inv (bc\<lparr>bc_mtx := m\<rparr>) st = blk_inv bc st"
  by (simp add: blk_inv_def queues_ok_def elem_ok_def)

lemma queued_mtx [simp]: "queued (bc\<lparr>bc_mtx := m\<rparr>) = queued bc"
  by (simp add: queued_def)

lemma idle_inv_mtx [simp]:
  "idle_inv (w\<lparr>blk_bc := (blk_bc w)\<lparr>bc_mtx := m\<rparr>\<rparr>) = idle_inv w"
  by (simp add: idle_inv_def)

lemma thr_drains:
  assumes "answers cb obs" "idle_inv w" "free_mutex (bc_mtx (blk_bc w))"
  shows "\<exists>w'. blockif_thr True cb w = Inr w' \<and> idle_inv w' \<and> bc_pendq (blk_bc w') = [] \<and>
    free_mutex (bc_mtx (blk_bc w')) \<and> bc_magic (blk_bc w') = bc_magic (blk_bc w) \<and>
    mset (obs (blk_world.more w')) = mset (obs (blk_world.more w)) + queued (blk_bc w)"
proof -
  obtain m where m: "lock_bc (blk_bc w) = Inr ((blk_bc w)\<lparr>bc_mtx := m\<rparr>)" "held_mutex m"
    using lock_bc_free [OF assms(3)] by blast
  define w0 where "w0 = w\<lparr>blk_bc := (blk_bc w)\<lparr>bc_mtx := m\<rparr>\<rparr>"
  have w0: "idle_inv w0" "queued (blk_bc w0) = queued (blk_bc w)" "blk_world.more w0 = blk_world.more w"
    "bc_mtx (blk_bc w0) = m" "bc_magic (blk_bc w0) = bc_magic (blk_bc w)"
    using assms(2) unfolding w0_def idle_inv_mtx by simp_all
  from loop_drains [OF assms(1) w0(1)]
  obtain w1 where w1: "blockif_loop cb w0 = Some (Inr w1)" "idle_inv w1" "bc_pendq (blk_bc w1) = []"
    "bc_mtx (blk_bc w1) = m" "bc_magic (blk_bc w1) = bc_magic (blk_bc w)"
    "mset (obs (blk_world.more w1)) = mset (obs (blk_world.more w)) + queued (blk_bc w)"
    unfolding w0 by blast
  have "held_mutex (bc_mtx (blk_bc w1))" using m(2) w1(4) by simp
  then obtain m' where m': "unlock_bc (blk_bc w1) = Inr ((blk_bc w1)\<lparr>bc_mtx := m'\<rparr>)" "free_mutex m'"
    using unlock_bc_held by blast
  define w' where "w' = w1\<lparr>blk_bc := (blk_bc w1)\<lparr>bc_mtx := m'\<rparr>\<rparr>"
  have "blockif_thr True cb w = Inr w'"
    using m(1) w1(1) m'(1) by (simp add: blockif_thr_def w0_def w'_def)
  moreover have "idle_inv w'" using w1(2) unfolding w'_def idle_inv_mtx .
  ultimately show ?thesis using w1(3,5,6) m'(2) by (auto simp: w'_def)
qed

lemma request_cases:
  assumes "idle_inv w" "free_mutex (bc_mtx (blk_bc w))"
  shows "\<exists>bc'. blockif_request (blk_bc w) (blk_st w) p op =
      Inr (if bc_freeq (blk_bc w) = [] then E2BIG else 0, bc') \<and>
    idle_inv (w\<lparr>blk_bc := bc'\<rparr>) \<and> free_mutex (bc_mtx bc') \<and> bc_magic bc' = bc_magic (blk_bc w) \<and>
    queued bc' = (if bc_freeq (blk_bc w) = [] then queued (blk_bc w)
      else add_mset p (queued (blk_bc w)))"
proof -
  let ?bc = "blk_bc w"
  obtain m where m: "lock_bc ?bc = Inr (?bc\<lparr>bc_mtx := m\<rparr>)" "held_mutex m"
    using lock_bc_free [OF assms(2)] by blast
  let ?h = "?bc\<lparr>bc_mtx := m\<rparr>"
  have inv: "blk_inv ?h (blk_st w)" "bc_busyq ?h = []" "\<And>p. req_ok (blk_st w p)"
    using assms(1) by (simp_all add: idle_inv_def)
  show ?thesis
  proof (cases "bc_freeq ?bc")
    case Nil
    have "held_mutex (bc_mtx ?h)" using m(2) by simp
    then obtain m' where m': "unlock_bc ?h = Inr (?h\<lparr>bc_mtx := m'\<rparr>)" "free_mutex m'"
      using unlock_bc_held by blast
    then have "blockif_request ?bc (blk_st w) p op = Inr (E2BIG, ?h\<lparr>bc_mtx := m'\<rparr>)"
      using m(1) Nil by (simp add: blockif_request_def)
    then show ?thesis using inv m'(2) Nil by (simp add: idle_inv_def)
  next
    case (Cons be fq)
    have "bc_freeq ?h = be # fq" using Cons by simp
    from enqueue_inv [OF inv(1) this inv(3)] obtain e pend bc1 where e:
      "blockif_enqueue ?h (blk_st w) p op = Inr (pend, bc1)" "blk_inv bc1 (blk_st w)"
      "bc1 = set_elem be e (?h\<lparr>bc_freeq := fq, bc_pendq := bc_pendq ?h @ [be]\<rparr>)" "be_req e = Some p"
      by blast
    have "bc_mtx bc1 = m" using e(3) by simp
    then have "held_mutex (bc_mtx bc1)" using m(2) by simp
    then obtain m' where m': "unlock_bc bc1 = Inr (bc1\<lparr>bc_mtx := m'\<rparr>)" "free_mutex m'"
      using unlock_bc_held by blast
    have "blockif_request ?bc (blk_st w) p op = Inr (0, bc1\<lparr>bc_mtx := m'\<rparr>)"
      using m(1) Cons e(1) m'(1) by (simp add: blockif_request_def)
    moreover have "idle_inv (w\<lparr>blk_bc := bc1\<lparr>bc_mtx := m'\<rparr>\<rparr>)"
      using e(2,3) inv(2,3) by (simp add: idle_inv_def)
    moreover have "queued bc1 = add_mset p (queued ?bc)"
    proof -
      have "be \<notin> set (bc_pendq ?bc)"
        using inv(1) Cons by (auto simp: blk_inv_def dest: queues_apart(4))
      then have "image_mset (\<lambda>i. the (be_req (bc_reqs bc1 i))) (mset (bc_pendq ?bc)) = queued ?bc"
        unfolding queued_def e(3) by (intro image_mset_cong) auto
      then show ?thesis using e(4) by (simp add: queued_def e(3))
    qed
    moreover have "bc_magic bc1 = bc_magic ?bc" using e(3) by simp
    ultimately show ?thesis using m'(2) Cons by simp
  qed
qed

lemma find_mine:
  assumes "find (\<lambda>be. be_req (bc_reqs bc be) = Some p) q = Some be"
  shows "be \<in> set q" "be_req (bc_reqs bc be) = Some p"
  using assms by (auto dest: find_Some_in)

lemma cancel_cases:
  assumes "idle_inv w" "free_mutex (bc_mtx (blk_bc w))" "bc_magic (blk_bc w) = BLOCKIF_SIG"
  shows "\<exists>bc'. blockif_cancel (blk_bc w) (blk_st w) p =
      Inr (if p \<in># queued (blk_bc w) then 0 else EINVAL', bc') \<and>
    idle_inv (w\<lparr>blk_bc := bc'\<rparr>) \<and> free_mutex (bc_mtx bc') \<and> bc_magic bc' = BLOCKIF_SIG \<and>
    queued bc' = queued (blk_bc w) - {#p#}"
proof -
  let ?bc = "blk_bc w"
  obtain m where m: "lock_bc ?bc = Inr (?bc\<lparr>bc_mtx := m\<rparr>)" "held_mutex m"
    using lock_bc_free [OF assms(2)] by blast
  let ?h = "?bc\<lparr>bc_mtx := m\<rparr>"
  have inv: "blk_inv ?h (blk_st w)" "bc_busyq ?bc = []" "\<And>p. req_ok (blk_st w p)"
    using assms(1) by (simp_all add: idle_inv_def)
  then have q: "queues_ok ?h" by (simp add: blk_inv_def)
  let ?mine = "\<lambda>be. be_req (bc_reqs ?bc be) = Some p"
  show ?thesis
  proof (cases "find ?mine (bc_pendq ?bc)")
    case None
    then have no: "\<forall>be\<in>set (bc_pendq ?bc). be_req (bc_reqs ?bc be) \<noteq> Some p"
      by (simp add: find_None_all)
    have "p \<notin># queued ?bc"
    proof
      assume "p \<in># queued ?bc"
      then obtain i where i: "i \<in> set (bc_pendq ?bc)" "the (be_req (bc_reqs ?bc i)) = p"
        by (auto simp: queued_def)
      then show False using no pend_elem [OF q, of i] by force
    qed
    moreover have "held_mutex (bc_mtx ?h)" using m(2) by simp
    then obtain m' where "unlock_bc ?h = Inr (?h\<lparr>bc_mtx := m'\<rparr>)" "free_mutex m'"
      using unlock_bc_held by blast
    ultimately show ?thesis using None m(1) inv assms(3)
      by (auto simp: blockif_cancel_def checked_def idle_inv_def Let_def)
  next
    case (Some be)
    note be = find_mine [OF Some]
    have c: "blockif_complete ?h (blk_st w) be = Inr (completed ?h (blk_st w) be)"
      by (rule complete_eq [OF q]) (simp add: be(1))
    define b1 where "b1 = completed ?h (blk_st w) be"
    have b1: "blk_inv b1 (blk_st w)" "bc_busyq b1 = []" "bc_mtx b1 = m" "bc_magic b1 = BLOCKIF_SIG"
      "bc_pendq b1 = remove1 be (bc_pendq ?bc)"
      using completed_inv [OF inv(1), of be] be(1) inv(2) assms(3)
      by (simp_all add: b1_def completed_magic)
    have "held_mutex (bc_mtx b1)" using m(2) b1(3) by simp
    then obtain m' where m': "unlock_bc b1 = Inr (b1\<lparr>bc_mtx := m'\<rparr>)" "free_mutex m'"
      using unlock_bc_held by blast
    have "queued ?bc = add_mset p (queued b1)"
    proof -
      have "the (be_req (bc_reqs b1 i)) = the (be_req (bc_reqs ?bc i))" if "i \<noteq> be" for i
        using that by (simp add: b1_def completed_elem)
      then have "queued ?bc = add_mset (the (be_req (bc_reqs ?bc be)))
          (image_mset (\<lambda>i. the (be_req (bc_reqs b1 i))) (mset (remove1 be (bc_pendq ?bc))))"
        unfolding queued_def using queues_apart(2) [OF q] by (intro queued_remove [OF be(1)]) simp_all
      then show ?thesis unfolding queued_def b1(5) by (simp add: be(2))
    qed
    moreover have "blockif_cancel ?bc (blk_st w) p = Inr (0, b1\<lparr>bc_mtx := m'\<rparr>)"
      using Some m(1) c m'(1) assms(3) unfolding b1_def
      by (simp add: blockif_cancel_def checked_def)
    moreover have "idle_inv (w\<lparr>blk_bc := b1\<lparr>bc_mtx := m'\<rparr>\<rparr>)"
      using b1(1,2) inv(3) by (simp add: idle_inv_def)
    ultimately show ?thesis using m'(2) b1(4) by simp
  qed
qed

section \<open>The runs of the interface\<close>

text \<open>
  The controller prepares requests that are not queued, submits and cancels
  requests, and the main loop runs the processing routine.
\<close>

inductive blk_step ::
    "('p, 'a) blk_callback \<Rightarrow> ('p, 'a) blk_world_scheme \<Rightarrow> ('p, 'a) blk_world_scheme \<Rightarrow> bool"
  for cb where
  prepare_req: "p \<notin># queued (blk_bc w) \<Longrightarrow> req_ok br \<Longrightarrow>
    blk_step cb w (w\<lparr>blk_st := (blk_st w)(p := br)\<rparr>)"
| submit_req: "blockif_request (blk_bc w) (blk_st w) p op = Inr (err, bc) \<Longrightarrow>
    blk_step cb w (w\<lparr>blk_bc := bc\<rparr>)"
| cancel_req: "blockif_cancel (blk_bc w) (blk_st w) p = Inr (err, bc) \<Longrightarrow>
    blk_step cb w (w\<lparr>blk_bc := bc\<rparr>)"
| run_thr: "blockif_thr True cb w = Inr w' \<Longrightarrow> blk_step cb w w'"

inductive blk_reach :: "('p, 'a) blk_callback \<Rightarrow> nat \<Rightarrow> ('p, 'a) blk_world_scheme \<Rightarrow> bool"
  for cb base where
  opened: "blockif_open True base = Some (blk_bc w) \<Longrightarrow> (\<And>p. req_ok (blk_st w p)) \<Longrightarrow> blk_reach cb base w"
| stepped: "blk_reach cb base w \<Longrightarrow> blk_step cb w w' \<Longrightarrow> blk_reach cb base w'"

definition blk_ready :: "('p, 'a) blk_world_scheme \<Rightarrow> bool" where
  "blk_ready w \<longleftrightarrow> idle_inv w \<and> free_mutex (bc_mtx (blk_bc w)) \<and> bc_magic (blk_bc w) = BLOCKIF_SIG"

lemma opened_ready:
  assumes "blockif_open True base = Some (blk_bc w)" "\<And>p. req_ok (blk_st w p)"
  shows "blk_ready w" "queued (blk_bc w) = {#}" "length (bc_freeq (blk_bc w)) = BLOCKIF_MAXREQ"
proof -
  have e: "blk_bc w = the (blockif_open True base)" using assms(1) by simp
  have bc: "bc_freeq (blk_bc w) = rev [0..<BLOCKIF_MAXREQ]" "bc_pendq (blk_bc w) = []"
    "bc_busyq (blk_bc w) = []" "bc_reqs (blk_bc w) = (\<lambda>_. zero_elem)"
    "free_mutex (bc_mtx (blk_bc w))" "bc_magic (blk_bc w) = BLOCKIF_SIG"
    by (simp_all add: e blockif_open_def free_mutex_def pthread_mutex_init_def fold_Cons_rev)
  have "queues_ok (blk_bc w)"
    by (auto simp: queues_ok_def elem_ok_def bc zero_elem_def)
  then show "blk_ready w" using assms(2) bc by (simp add: blk_ready_def idle_inv_def blk_inv_def)
  show "queued (blk_bc w) = {#}" "length (bc_freeq (blk_bc w)) = BLOCKIF_MAXREQ"
    by (simp_all add: queued_def bc)
qed

lemma prepare_ready:
  assumes "blk_ready w" "p \<notin># queued (blk_bc w)" "req_ok br"
  shows "blk_ready (w\<lparr>blk_st := (blk_st w)(p := br)\<rparr>)"
proof -
  let ?bc = "blk_bc w" and ?st = "(blk_st w)(p := br)"
  have inv: "blk_inv ?bc (blk_st w)" using assms(1) by (simp add: blk_ready_def idle_inv_def)
  then have q: "queues_ok ?bc" and wt: "waiting_ok ?bc (blk_st w) (set (bc_busyq ?bc)) (bc_pendq ?bc)"
    by (simp_all add: blk_inv_def)
  have "elem_off ?bc ?st i = elem_off ?bc (blk_st w) i" if i: "i \<in> set (bc_pendq ?bc)" for i
  proof -
    have "the (be_req (bc_reqs ?bc i)) \<in># queued ?bc" using i by (simp add: queued_def)
    then have "the (be_req (bc_reqs ?bc i)) \<noteq> p" using assms(2) by blast
    then show ?thesis by (simp add: elem_off_def)
  qed
  then have "waiting_ok ?bc ?st (set (bc_busyq ?bc)) (bc_pendq ?bc)"
    by (intro waiting_cong [OF wt]) simp_all
  then show ?thesis using assms(1,3) q by (simp add: blk_ready_def idle_inv_def blk_inv_def)
qed

lemma request_ready:
  assumes "blk_ready w" "blockif_request (blk_bc w) (blk_st w) p op = Inr (err, bc)"
  shows "blk_ready (w\<lparr>blk_bc := bc\<rparr>)"
proof -
  have r: "idle_inv w" "free_mutex (bc_mtx (blk_bc w))" "bc_magic (blk_bc w) = BLOCKIF_SIG"
    using assms(1) by (simp_all add: blk_ready_def)
  obtain bc' where "blockif_request (blk_bc w) (blk_st w) p op =
      Inr (if bc_freeq (blk_bc w) = [] then E2BIG else 0, bc')"
    "idle_inv (w\<lparr>blk_bc := bc'\<rparr>)" "free_mutex (bc_mtx bc')" "bc_magic bc' = bc_magic (blk_bc w)"
    using request_cases [OF r(1,2), of p op] by blast
  then show ?thesis using assms(2) r(3) by (simp add: blk_ready_def)
qed

lemma cancel_ready:
  assumes "blk_ready w" "blockif_cancel (blk_bc w) (blk_st w) p = Inr (err, bc)"
  shows "blk_ready (w\<lparr>blk_bc := bc\<rparr>)"
proof -
  have r: "idle_inv w" "free_mutex (bc_mtx (blk_bc w))" "bc_magic (blk_bc w) = BLOCKIF_SIG"
    using assms(1) by (simp_all add: blk_ready_def)
  obtain bc' where "blockif_cancel (blk_bc w) (blk_st w) p =
      Inr (if p \<in># queued (blk_bc w) then 0 else EINVAL', bc')"
    "idle_inv (w\<lparr>blk_bc := bc'\<rparr>)" "free_mutex (bc_mtx bc')" "bc_magic bc' = BLOCKIF_SIG"
    using cancel_cases [OF r, of p] by blast
  then show ?thesis using assms(2) by (simp add: blk_ready_def)
qed

lemma thr_ready:
  assumes "answers cb obs" "blk_ready w" "blockif_thr True cb w = Inr w'"
  shows "blk_ready w'"
proof -
  have r: "idle_inv w" "free_mutex (bc_mtx (blk_bc w))" "bc_magic (blk_bc w) = BLOCKIF_SIG"
    using assms(2) by (simp_all add: blk_ready_def)
  obtain w1 where "blockif_thr True cb w = Inr w1" "idle_inv w1" "free_mutex (bc_mtx (blk_bc w1))"
    "bc_magic (blk_bc w1) = bc_magic (blk_bc w)"
    using thr_drains [OF assms(1) r(1,2)] by blast
  then show ?thesis using assms(3) r(3) by (simp add: blk_ready_def)
qed

lemma step_ready:
  assumes "answers cb obs" "blk_step cb w w'" "blk_ready w"
  shows "blk_ready w'"
  using assms(2)
proof (cases rule: blk_step.cases)
  case (prepare_req p br)
  show ?thesis unfolding prepare_req(1) by (rule prepare_ready [OF assms(3) prepare_req(2,3)])
next
  case (submit_req p op err bc)
  show ?thesis unfolding submit_req(1) by (rule request_ready [OF assms(3) submit_req(2)])
next
  case (cancel_req p err bc)
  show ?thesis unfolding cancel_req(1) by (rule cancel_ready [OF assms(3) cancel_req(2)])
next
  case run_thr
  show ?thesis by (rule thr_ready [OF assms(1,3) run_thr])
qed

lemma reach_ready: "blk_reach cb base w \<Longrightarrow> answers cb obs \<Longrightarrow> blk_ready w"
  by (induction rule: blk_reach.induct) (auto simp: opened_ready intro: step_ready)

lemma free_all:
  assumes "blk_ready w" "bc_pendq (blk_bc w) = []"
  shows "set (bc_freeq (blk_bc w)) = {..<BLOCKIF_MAXREQ} \<and> length (bc_freeq (blk_bc w)) = BLOCKIF_MAXREQ"
proof -
  have q: "queues_ok (blk_bc w)" "bc_busyq (blk_bc w) = []"
    using assms(1) by (simp_all add: blk_ready_def idle_inv_def blk_inv_def)
  then have s: "set (bc_freeq (blk_bc w)) = {..<BLOCKIF_MAXREQ}" using assms(2) by (simp add: queues_ok_def)
  then show ?thesis using distinct_card [OF queues_apart(1) [OF q(1)]] by simp
qed

lemma ready_count:
  assumes "blk_ready w"
  shows "size (queued (blk_bc w)) + length (bc_freeq (blk_bc w)) = BLOCKIF_MAXREQ"
proof -
  have q: "queues_ok (blk_bc w)" "bc_busyq (blk_bc w) = []"
    using assms by (simp_all add: blk_ready_def idle_inv_def blk_inv_def)
  then have "distinct (bc_freeq (blk_bc w) @ bc_pendq (blk_bc w))"
    "set (bc_freeq (blk_bc w) @ bc_pendq (blk_bc w)) = {..<BLOCKIF_MAXREQ}"
    by (auto simp: queues_ok_def)
  then have "length (bc_freeq (blk_bc w) @ bc_pendq (blk_bc w)) = BLOCKIF_MAXREQ"
    using distinct_card by fastforce
  then show ?thesis by (simp add: queued_def)
qed

section \<open>Contents of the transfers\<close>

fun iov_bytes :: "iovec list \<Rightarrow> bytes \<Rightarrow> u8 list" where
  "iov_bytes [] m = []"
| "iov_bytes (v # vs) m = map m [iov_base v..<iov_base v + iov_len v] @ iov_bytes vs m"

definition iov_cells :: "iovec \<Rightarrow> nat set" where
  "iov_cells v = {iov_base v..<iov_base v + iov_len v}"

text \<open>The buffers do not overlap the part of the disk that starts at \<open>addr\<close>.\<close>

definition off_disk :: "nat \<Rightarrow> nat \<Rightarrow> iovec list \<Rightarrow> bool" where
  "off_disk addr n vs \<longleftrightarrow> list_all (\<lambda>v. iov_cells v \<inter> {addr..<addr + n} = {}) vs"

fun iov_apart :: "iovec list \<Rightarrow> bool" where
  "iov_apart [] \<longleftrightarrow> True"
| "iov_apart (v # vs) \<longleftrightarrow> list_all (\<lambda>u. iov_cells v \<inter> iov_cells u = {}) vs \<and> iov_apart vs"

lemma off_disk_Cons:
  "off_disk addr n (v # vs) \<longleftrightarrow> iov_cells v \<inter> {addr..<addr + n} = {} \<and> off_disk addr n vs"
  by (simp add: off_disk_def)

lemma off_disk_sub:
  "off_disk addr n vs \<Longrightarrow> addr \<le> a \<Longrightarrow> a + k \<le> addr + n \<Longrightarrow> off_disk a k vs"
proof -
  assume a: "off_disk addr n vs" "addr \<le> a" "a + k \<le> addr + n"
  then have "{a..<a + k} \<subseteq> {addr..<addr + n}" by auto
  then show ?thesis using a(1) unfolding off_disk_def list_all_iff by blast
qed

lemma map_cells_cong: "(\<And>x. x \<in> {a..<b} \<Longrightarrow> f x = g x) \<Longrightarrow> map f [a..<b] = map g [a..<b]"
  by simp

lemma iov_bytes_cong:
  "(\<And>x. x \<in> \<Union> (iov_cells ` set vs) \<Longrightarrow> m x = m' x) \<Longrightarrow> iov_bytes vs m = iov_bytes vs m'"
proof (induction vs)
  case (Cons v vs)
  have "map m [iov_base v..<iov_base v + iov_len v] = map m' [iov_base v..<iov_base v + iov_len v]"
    using Cons.prems by (intro map_cells_cong) (auto simp: iov_cells_def)
  then show ?case using Cons by simp
qed simp

lemma write_iov_other: "a < addr \<or> addr + iov_size vs \<le> a \<Longrightarrow> write_iov addr vs m a = m a"
proof (induction vs arbitrary: addr m)
  case (Cons v vs)
  have "memcpy m addr (iov_base v) (iov_len v) a = m a"
    using Cons.prems by (intro memcpy_other) auto
  moreover have "a < addr + iov_len v \<or> addr + iov_len v + iov_size vs \<le> a" using Cons.prems by auto
  ultimately show ?case using Cons.IH [of "addr + iov_len v"] by simp
qed simp

lemma write_iov_disk:
  "off_disk addr (iov_size vs) vs \<Longrightarrow>
   map (write_iov addr vs m) [addr..<addr + iov_size vs] = iov_bytes vs m"
proof (induction vs arbitrary: addr m)
  case (Cons v vs)
  let ?m = "memcpy m addr (iov_base v) (iov_len v)"
  have split: "[addr..<addr + iov_size (v # vs)] =
      [addr..<addr + iov_len v] @ [addr + iov_len v..<addr + iov_len v + iov_size vs]"
    using upt_add_eq_append [of addr "addr + iov_len v" "iov_size vs"] by (simp add: add.assoc)
  have "off_disk (addr + iov_len v) (iov_size vs) vs"
    using Cons.prems off_disk_sub [of addr "iov_len v + iov_size vs" vs "addr + iov_len v" "iov_size vs"] by (simp add: off_disk_Cons)
  then have "map (write_iov (addr + iov_len v) vs ?m) [addr + iov_len v..<addr + iov_len v + iov_size vs] =
      iov_bytes vs ?m" by (rule Cons.IH)
  moreover have "iov_bytes vs ?m = iov_bytes vs m"
  proof (rule iov_bytes_cong)
    fix x assume "x \<in> \<Union> (iov_cells ` set vs)"
    then have "x \<notin> {addr..<addr + iov_size (v # vs)}"
      using Cons.prems unfolding off_disk_def list_all_iff by fastforce
    then show "?m x = m x" by (intro memcpy_other) auto
  qed
  moreover have "map (write_iov (addr + iov_len v) vs ?m) [addr..<addr + iov_len v] =
      map ?m [addr..<addr + iov_len v]"
    by (rule map_cells_cong) (simp add: write_iov_other)
  ultimately show ?case unfolding split by (simp add: memcpy_map)
qed simp

lemma read_iov_other: "a \<notin> \<Union> (iov_cells ` set vs) \<Longrightarrow> read_iov addr vs m a = m a"
proof (induction vs arbitrary: addr m)
  case (Cons v vs)
  then show ?case by (simp add: memcpy_other iov_cells_def)
qed simp

lemma read_iov_bytes:
  "off_disk addr (iov_size vs) vs \<Longrightarrow> iov_apart vs \<Longrightarrow>
   iov_bytes vs (read_iov addr vs m) = map m [addr..<addr + iov_size vs]"
proof (induction vs arbitrary: addr m)
  case (Cons v vs)
  let ?m = "memcpy m (iov_base v) addr (iov_len v)" and ?a = "addr + iov_len v"
  have split: "[addr..<addr + iov_size (v # vs)] = [addr..<?a] @ [?a..<?a + iov_size vs]"
    using upt_add_eq_append [of addr ?a "iov_size vs"] by (simp add: add.assoc)
  have "off_disk ?a (iov_size vs) vs"
    using Cons.prems(1) off_disk_sub [of addr "iov_len v + iov_size vs" vs "addr + iov_len v" "iov_size vs"] by (simp add: off_disk_Cons)
  then have tl: "iov_bytes vs (read_iov ?a vs ?m) = map ?m [?a..<?a + iov_size vs]"
    using Cons.IH Cons.prems(2) by simp
  also have "\<dots> = map m [?a..<?a + iov_size vs]"
    using Cons.prems(1) by (intro map_cells_cong memcpy_other)
      (auto simp: off_disk_Cons iov_cells_def disjoint_iff)
  finally have tl: "iov_bytes vs (read_iov ?a vs ?m) = map m [?a..<?a + iov_size vs]" .
  have "map (read_iov ?a vs ?m) [iov_base v..<iov_base v + iov_len v] =
      map ?m [iov_base v..<iov_base v + iov_len v]"
    using Cons.prems(2) by (intro map_cells_cong read_iov_other)
      (auto simp: iov_cells_def list_all_iff disjoint_iff)
  then show ?case unfolding split using tl by (simp add: memcpy_map)
qed simp

section \<open>Properties\<close>

text \<open>From opening the disk on, over every sequence of preparing, submitting and cancelling requests
  and of runs of the processing routine with a callback that returns and does not touch the queues,
  the routine returns with every queue empty, the mutex free and every queued request answered
  exactly once.\<close>

theorem requests_answered_once:
  assumes "answers cb obs" "blk_reach cb base w"
  shows "\<exists>w'. blockif_thr True cb w = Inr w' \<and> bc_pendq (blk_bc w') = [] \<and> bc_busyq (blk_bc w') = [] \<and>
    set (bc_freeq (blk_bc w')) = {..<BLOCKIF_MAXREQ} \<and> free_mutex (bc_mtx (blk_bc w')) \<and>
    mset (obs (blk_world.more w')) = mset (obs (blk_world.more w)) + queued (blk_bc w)"
proof -
  have r: "idle_inv w" "free_mutex (bc_mtx (blk_bc w))" "bc_magic (blk_bc w) = BLOCKIF_SIG"
    using reach_ready [OF assms(2,1)] by (simp_all add: blk_ready_def)
  obtain w' where w': "blockif_thr True cb w = Inr w'" "idle_inv w'" "bc_pendq (blk_bc w') = []"
    "free_mutex (bc_mtx (blk_bc w'))" "bc_magic (blk_bc w') = bc_magic (blk_bc w)"
    "mset (obs (blk_world.more w')) = mset (obs (blk_world.more w)) + queued (blk_bc w)"
    using thr_drains [OF assms(1) r(1,2)] by blast
  have "blk_ready w'" using w' r(3) by (simp add: blk_ready_def)
  then show ?thesis using free_all [of w'] w' by (auto simp: idle_inv_def)
qed

text \<open>In every reachable state a submission returns with the mutex free; it accepts the request exactly while
  fewer than 72 are queued (one more than \<open>blockif_queuesz\<close> advertises), and otherwise
  returns \<open>E2BIG\<close> and queues nothing.\<close>

theorem submission_capacity:
  assumes "answers cb obs" "blk_reach cb base w"
  shows "\<exists>bc'. blockif_request (blk_bc w) (blk_st w) p op =
      Inr (if size (queued (blk_bc w)) < 72 then 0 else E2BIG, bc') \<and> free_mutex (bc_mtx bc') \<and>
    queued bc' = (if size (queued (blk_bc w)) < 72 then add_mset p (queued (blk_bc w)) else queued (blk_bc w)) \<and>
    blockif_queuesz (blk_bc w) = Inr 71"
proof -
  have r: "blk_ready w" by (rule reach_ready [OF assms(2,1)])
  then have "bc_freeq (blk_bc w) = [] \<longleftrightarrow> \<not> size (queued (blk_bc w)) < 72"
    using ready_count [OF r] by (cases "bc_freeq (blk_bc w)") (auto simp: BLOCKIF_MAXREQ_def BLOCKIF_NUMTHR_def)
  moreover have "idle_inv w" "free_mutex (bc_mtx (blk_bc w))" "bc_magic (blk_bc w) = BLOCKIF_SIG"
    using r by (simp_all add: blk_ready_def)
  note request_cases [OF this(1,2), of p op]
  ultimately show ?thesis using r
    by (auto simp: blockif_queuesz_def checked_def blk_ready_def BLOCKIF_MAXREQ_def BLOCKIF_NUMTHR_def)
qed

text \<open>In every reachable state cancelling returns with the mutex free: it removes one queued instance of the
  request and returns 0, and returns \<open>EINVAL\<close> exactly when the request is not queued.\<close>

theorem cancel_removes_one:
  assumes "answers cb obs" "blk_reach cb base w"
  shows "\<exists>bc'. blockif_cancel (blk_bc w) (blk_st w) p =
      Inr (if p \<in># queued (blk_bc w) then 0 else EINVAL', bc') \<and> free_mutex (bc_mtx bc') \<and>
    queued bc' = queued (blk_bc w) - {#p#}"
proof -
  have "idle_inv w" "free_mutex (bc_mtx (blk_bc w))" "bc_magic (blk_bc w) = BLOCKIF_SIG"
    using reach_ready [OF assms(2,1)] by (simp_all add: blk_ready_def)
  from cancel_cases [OF this, of p] show ?thesis by blast
qed

text \<open>A callback that submits a request to the context it is called from stops the program:
  the processing routine calls it with the context's mutex held, and the assertion in the
  second acquisition fails. The controller's callbacks do this to continue a long transfer.\<close>

theorem reissue_stops:
  assumes "idle_inv w" "free_mutex (bc_mtx (blk_bc w))" "bc_pendq (blk_bc w) \<noteq> []"
    and "cb = (\<lambda>p err v. bindE (blockif_request (blk_bc v) (blk_st v) (nxt p err v) (oper p err v)) (after p err v))"
  shows "blockif_thr True cb w = Inl Assert_failed"
proof -
  obtain m where m: "lock_bc (blk_bc w) = Inr ((blk_bc w)\<lparr>bc_mtx := m\<rparr>)" "held_mutex m"
    using lock_bc_free [OF assms(2)] by blast
  define w0 where "w0 = w\<lparr>blk_bc := (blk_bc w)\<lparr>bc_mtx := m\<rparr>\<rparr>"
  have w0: "blk_inv (blk_bc w0) (blk_st w0)" "bc_busyq (blk_bc w0) = []" "bc_mtx (blk_bc w0) = m"
    "bc_pendq (blk_bc w0) \<noteq> []" "\<And>p. req_ok (blk_st w0 p)"
    using assms(1,3) by (simp_all add: w0_def idle_inv_def)
  obtain be where be: "be \<in> set (bc_pendq (blk_bc w0))"
    "blockif_dequeue (blk_bc w0) 0 = Inr (Some be, dequeued (blk_bc w0) be)"
    using dequeue_cases [OF w0(1,2)] w0(4) by blast
  let ?d = "dequeued (blk_bc w0) be"
  have "queues_ok (blk_bc w0)" using w0(1) by (simp add: blk_inv_def)
  then obtain r where r: "be_req (bc_reqs (blk_bc w0) be) = Some r" using pend_elem be(1) by blast
  then have rd: "be_req (bc_reqs ?d be) = Some r" by (simp add: dequeued_def)
  define w1 where "w1 = w0\<lparr>blk_bc := ?d\<rparr>"
  have w1: "blk_bc w1 = ?d" "req_ok (blk_st w1 r)" using w0(5) by (simp_all add: w1_def)
  obtain err w2 where t: "blk_transfer r (be_op (bc_reqs ?d be)) w1 = Inr (err, w2)" "blk_bc w2 = ?d"
    using transfer_ok [OF w1(2), of "be_op (bc_reqs ?d be)"] unfolding w1(1) by blast
  have "\<not> free_mutex m" using m(2) pthread.not_both by blast
  then have "lock_bc (set_elem be ((bc_reqs ?d be)\<lparr>be_status := BST_DONE\<rparr>) ?d) = Inl Assert_failed"
    by (intro lock_bc_stuck) (simp add: dequeued_def w0(3))
  then have "blockif_proc cb be w1 = Inl Assert_failed"
    unfolding blockif_proc_def w1(1) using rd t by (simp add: assms(4) blockif_request_def)
  then have "blockif_loop cb w0 = Some (Inl Assert_failed)"
    by (subst blockif_loop.simps) (simp add: be(2) w1_def)
  then show ?thesis using m(1) by (simp add: blockif_thr_def w0_def)
qed

text \<open>C33: Data written to the disk is read back: after a write of one request, a read of the same range
  through other buffers gives them the bytes of the first request's buffers, provided no buffer
  overlaps that range of the disk and the buffers read into are apart. Both report success.\<close>

theorem disk_roundtrip:
  assumes "req_iov (blk_st w r) = Inr out" "req_iov (blk_st w s) = Inr into" "r \<noteq> s"
    and "br_offset (blk_st w r) = br_offset (blk_st w s)" "iov_size into = iov_size out"
    and "\<not> bc_rdonly (blk_bc w)"
    and "off_disk (disk_addr (blk_bc w) (blk_st w r)) (iov_size out) (out @ into)" "iov_apart into"
  shows "\<exists>w1 w2. blk_transfer r BOP_WRITE w = Inr (0, w1) \<and> blk_transfer s BOP_READ w1 = Inr (0, w2) \<and>
    iov_bytes into (blk_mem w2) = iov_bytes out (blk_mem w)"
proof -
  let ?a = "disk_addr (blk_bc w) (blk_st w r)"
  define w1 where "w1 = clear_resid r (w\<lparr>blk_mem := write_iov ?a out (blk_mem w)\<rparr>)"
  define w2 where "w2 = clear_resid s (w1\<lparr>blk_mem := read_iov ?a into (blk_mem w1)\<rparr>)"
  have "blk_transfer r BOP_WRITE w = Inr (0, w1)"
    using assms(1,6) by (simp add: blk_transfer_def w1_def)
  moreover have w1: "blk_bc w1 = blk_bc w" "blk_st w1 s = blk_st w s"
    "blk_mem w1 = write_iov ?a out (blk_mem w)"
    using assms(3) by (simp_all add: w1_def clear_resid_def)
  have "disk_addr (blk_bc w) (blk_st w s) = ?a" using assms(4) by (simp add: disk_addr_def)
  then have "blk_transfer s BOP_READ w1 = Inr (0, w2)"
    using assms(2) by (simp add: blk_transfer_def w1 w2_def)
  moreover have "iov_bytes into (blk_mem w2) = map (blk_mem w1) [?a..<?a + iov_size into]"
    using assms(5,7,8) by (simp add: w2_def clear_resid_def read_iov_bytes off_disk_def)
  moreover have "map (blk_mem w1) [?a..<?a + iov_size out] = iov_bytes out (blk_mem w)"
    using assms(7) unfolding w1(3) by (intro write_iov_disk) (simp add: off_disk_def)
  ultimately show ?thesis using assms(5) by auto
qed

text \<open>The transfer does not compare the request's offset with the size of the disk: with a
  suitable offset a one-byte write of the guest reaches any address, inside the image or not,
  and reports success.\<close>

theorem write_reaches_any_address:
  assumes "req_iov (blk_st w r) = Inr [\<lparr>iov_base = src, iov_len = 1\<rparr>]"
    and "br_offset (blk_st w r) = int a - int (bc_base (blk_bc w))" "\<not> bc_rdonly (blk_bc w)"
  shows "\<exists>w'. blk_transfer r BOP_WRITE w = Inr (0, w') \<and> blk_mem w' = (blk_mem w)(a := blk_mem w src)"
proof -
  have "disk_addr (blk_bc w) (blk_st w r) = a" using assms(2) by (simp add: disk_addr_def)
  then show ?thesis using assms(1,3)
    by (auto simp: blk_transfer_def clear_resid_def memcpy_def intro!: ext)
qed

text \<open>For every non-negative size and positive sector size the reported geometry has 4 to 16 heads and 17, 31, 63 or 255
  sectors per track, its cylinder count is the true quotient (nothing is lost to 16 bits), and
  it covers the clamped capacity up to less than one cylinder.\<close>

theorem chs_covers:
  assumes "bc_magic bc = BLOCKIF_SIG" "0 < bc_sectsz bc" "0 \<le> bc_size bc"
  shows "\<exists>c h s. blockif_chs bc = Inr (c, h, s) \<and> 4 \<le> h \<and> h \<le> 16 \<and> s \<in> {17, 31, 63, 255} \<and> c < 2 ^ 16 \<and>
    c * h * s \<le> min (nat (bc_size bc div bc_sectsz bc)) (65535 * 16 * 255) \<and>
    min (nat (bc_size bc div bc_sectsz bc)) (65535 * 16 * 255) < (c + 1) * h * s"
proof -
  define n where "n = min (nat (bc_size bc div bc_sectsz bc)) (65535 * 16 * 255)"
  have q: "bc_size bc sdiv bc_sectsz bc = bc_size bc div bc_sectsz bc" "0 \<le> bc_size bc div bc_sectsz bc"
    using assms by (auto simp: signed_divide_int_def sgn_if pos_imp_zdiv_nonneg_iff)
  have n: "(if bc_size bc sdiv bc_sectsz bc < 0 \<or> bc_size bc sdiv bc_sectsz bc > 65535 * 16 * 255
      then 65535 * 16 * 255 else nat (bc_size bc sdiv bc_sectsz bc)) = n"
    using q by (auto simp: n_def min_def)
  have goal: "n div s div h * h * s \<le> n \<and> n < (n div s div h + 1) * h * s" if "0 < h" "0 < s" for h s :: nat
  proof -
    have d: "n div s div h = n div (s * h)" by (simp only: div_mult2_eq)
    have "n div s div h * h * s = s * h * (n div (s * h))" unfolding d by (simp only: ac_simps)
    moreover have "(n div s div h + 1) * h * s = s * h * (n div (s * h)) + s * h"
      unfolding d by (simp add: algebra_simps)
    moreover have "n = s * h * (n div (s * h)) + n mod (s * h)" by simp
    moreover have "n mod (s * h) < s * h" using that by simp
    ultimately show ?thesis by linarith
  qed
  have bound: "n \<le> 65535 * 16 * 255" by (simp add: n_def)
  define geo where "geo = (\<lambda>h s. Inr (n div s div h mod 2 ^ 16, h, s) :: (nat \<times> nat \<times> nat) res)"
  have ok: ?thesis if "blockif_chs bc = geo h s" "4 \<le> h" "h \<le> 16" "s \<in> {17, 31, 63, 255}" "n div s div h < 2 ^ 16" for h s
    using that goal [of h s] unfolding n_def [symmetric] by (auto simp: geo_def)
  have chs: "blockif_chs bc =
     (if n \<ge> 65536 * 16 * 63 then geo 16 255
      else let h0 = (n div 17 + 1023) div 1024 mod 256; h = (if h0 < 4 then 4 else h0)
           in if n div 17 \<ge> h * 1024 \<or> h > 16
              then (if n div 31 \<ge> 16 * 1024 then geo 16 63 else geo 16 31)
              else geo h 17)"
    using assms(1,2) n unfolding blockif_chs_def checked_def geo_def by (auto simp: Let_def)
  show ?thesis
  proof (cases "n \<ge> 65536 * 16 * 63")
    case True
    then show ?thesis using bound by (intro ok [of 16 255]) (auto simp: chs)
  next
    case False
    define h where "h = (let h0 = (n div 17 + 1023) div 1024 mod 256 in if h0 < 4 then 4 else h0)"
    have h4: "4 \<le> h" by (simp add: h_def Let_def)
    have chs': "blockif_chs bc = (if n div 17 \<ge> h * 1024 \<or> h > 16
              then (if n div 31 \<ge> 16 * 1024 then geo 16 63 else geo 16 31) else geo h 17)"
      using False unfolding chs h_def Let_def by simp
    show ?thesis
    proof (cases "n div 17 \<ge> h * 1024 \<or> h > 16")
      case True
      then have "blockif_chs bc = (if n div 31 \<ge> 16 * 1024 then geo 16 63 else geo 16 31)" using chs' by simp
      moreover have "n div 63 div 16 < 2 ^ 16" using False by simp
      moreover have "n div 31 div 16 < 2 ^ 16" if "n div 31 < 16 * 1024"
        using that order_le_less_trans [OF div_le_dividend that] by simp
      ultimately show ?thesis using ok [of 16 63] ok [of 16 31]
        by (cases "n div 31 \<ge> 16 * 1024") auto
    next
      case f: False
      then have "n div 17 < 1024 * h" by simp
      then have "n div 17 div h < 1024" by (rule less_mult_imp_div_less)
      then show ?thesis using f h4 chs' by (intro ok [of h 17]) auto
    qed
  qed
qed

section \<open>Witnesses\<close>

text \<open>A controller that notes the requests it is called for.\<close>

definition note_cb :: "(nat, nat list) blk_callback" where
  "note_cb p err w = Inr (blk_world.more_update (\<lambda>l. l @ [p]) w)"

lemma note_cb_answers: "answers note_cb id"
  by (auto simp: answers_def note_cb_def same_reqs_def)

definition demo_req :: "int \<Rightarrow> nat \<Rightarrow> blockif_req" where
  "demo_req off a = \<lparr>br_iovcnt = 1, br_offset = off, br_resid = 0, br_iov = [\<lparr>iov_base = a, iov_len = 2\<rparr>]\<rparr>"

definition demo_world :: "(nat, nat list) blk_world_scheme" where
  "demo_world = blk_world.extend \<lparr>blk_bc = the (blockif_open True 0), blk_st = (\<lambda>p. demo_req 0 (2 * p)),
     blk_mem = (\<lambda>a. of_nat a)\<rparr> []"

lemma demo_sel: "Some (blk_bc demo_world) = blockif_open True 0" "blk_st demo_world = (\<lambda>p. demo_req 0 (2 * p))"
  "blk_mem demo_world = (\<lambda>a. of_nat a)" "blk_world.more demo_world = []"
  by (simp_all add: demo_world_def blk_world.extend_def blockif_open_def)

lemma demo_reach: "blk_reach note_cb 0 demo_world"
  using demo_sel(1) by (intro blk_reach.opened) (simp_all add: demo_sel req_ok_def demo_req_def)

lemma demo_queued:
  "\<exists>w. blk_reach note_cb 0 w \<and> queued (blk_bc w) = {#7#} \<and> blk_world.more w = [] \<and> idle_inv w \<and>
     free_mutex (bc_mtx (blk_bc w)) \<and> bc_pendq (blk_bc w) \<noteq> []"
proof -
  have "blockif_open True 0 = Some (blk_bc demo_world)" using demo_sel(1) by simp
  from opened_ready [OF this] have r: "blk_ready demo_world" "queued (blk_bc demo_world) = {#}"
    "length (bc_freeq (blk_bc demo_world)) = BLOCKIF_MAXREQ"
    by (simp_all add: demo_sel req_ok_def demo_req_def)
  then have f: "bc_freeq (blk_bc demo_world) \<noteq> []" by (auto simp: BLOCKIF_MAXREQ_def)
  have i: "idle_inv demo_world" "free_mutex (bc_mtx (blk_bc demo_world))" using r(1) by (simp_all add: blk_ready_def)
  obtain bc where bc: "blockif_request (blk_bc demo_world) (blk_st demo_world) 7 BOP_READ = Inr (0, bc)"
    "idle_inv (demo_world\<lparr>blk_bc := bc\<rparr>)" "free_mutex (bc_mtx bc)" "queued bc = {#7#}"
    using request_cases [OF i, of 7 BOP_READ] f r(2) by auto
  have "blk_reach note_cb 0 (demo_world\<lparr>blk_bc := bc\<rparr>)"
    by (rule blk_reach.stepped [OF demo_reach]) (rule blk_step.submit_req [OF bc(1)])
  moreover have "bc_pendq bc \<noteq> []" using bc(4) by (auto simp: queued_def)
  ultimately show ?thesis using bc demo_sel(4) by (intro exI [of _ "demo_world\<lparr>blk_bc := bc\<rparr>"]) simp
qed

theorem requests_answered_once_witness:
  "\<exists>w w'. queued (blk_bc w) = {#7#} \<and> blockif_thr True note_cb w = Inr w' \<and> blk_world.more w' = [7]"
proof -
  obtain w where w: "blk_reach note_cb 0 w" "queued (blk_bc w) = {#7#}" "blk_world.more w = []"
    using demo_queued by blast
  obtain w' where "blockif_thr True note_cb w = Inr w'"
    "mset (id (blk_world.more w')) = mset (id (blk_world.more w)) + queued (blk_bc w)"
    using requests_answered_once [OF note_cb_answers w(1)] by blast
  then show ?thesis using w by auto
qed

theorem submission_capacity_witness:
  "\<exists>w bc. blockif_request (blk_bc w) (blk_st w) 9 BOP_WRITE = Inr (0, bc) \<and> queued bc = {#9, 7 :: nat#} \<and>
     blockif_queuesz (blk_bc (w :: (nat, nat list) blk_world_scheme)) = Inr 71"
proof -
  obtain w where w: "blk_reach note_cb 0 w" "queued (blk_bc w) = {#7#}" using demo_queued by blast
  then show ?thesis using submission_capacity [OF note_cb_answers w(1), of 9 BOP_WRITE] by auto
qed

theorem cancel_removes_one_witness:
  "\<exists>w bc bc'. blockif_cancel (blk_bc w) (blk_st w) 7 = Inr (0, bc) \<and> queued bc = {#} \<and>
     blockif_cancel (blk_bc (w :: (nat, nat list) blk_world_scheme)) (blk_st w) 8 = Inr (EINVAL', bc')"
proof -
  obtain w where w: "blk_reach note_cb 0 w" "queued (blk_bc w) = {#7#}" using demo_queued by blast
  then show ?thesis using cancel_removes_one [OF note_cb_answers w(1), of 7]
      cancel_removes_one [OF note_cb_answers w(1), of 8] by auto
qed

theorem reissue_stops_witness:
  "\<exists>w. queued (blk_bc w) = {#7#} \<and> blockif_thr True (\<lambda>p err (v :: (nat, nat list) blk_world_scheme).
     bindE (blockif_request (blk_bc v) (blk_st v) p BOP_READ) (\<lambda>(e, bc). Inr (v\<lparr>blk_bc := bc\<rparr>))) w = Inl Assert_failed"
proof -
  obtain w where w: "queued (blk_bc w) = {#7#}" "idle_inv w" "free_mutex (bc_mtx (blk_bc w))"
    "bc_pendq (blk_bc (w :: (nat, nat list) blk_world_scheme)) \<noteq> []" using demo_queued by blast
  from reissue_stops [OF w(2-4), where nxt = "\<lambda>p e v. p" and oper = "\<lambda>p e v. BOP_READ" and
      after = "\<lambda>p err v (e, bc). Inr (v\<lparr>blk_bc := bc\<rparr>)"]
  show ?thesis using w(1) by blast
qed

lemma demo_base: "bc_base (blk_bc demo_world) = 50331648" "\<not> bc_rdonly (blk_bc demo_world)"
proof -
  have e: "blk_bc demo_world = the (blockif_open True 0)" by (metis demo_sel(1) option.sel)
  show "bc_base (blk_bc demo_world) = 50331648" "\<not> bc_rdonly (blk_bc demo_world)"
    by (simp_all add: e blockif_open_def)
qed

theorem disk_roundtrip_witness:
  "\<exists>w1 w2. blk_transfer 5 BOP_WRITE demo_world = Inr (0, w1) \<and> blk_transfer 6 BOP_READ w1 = Inr (0, w2) \<and>
     iov_bytes [\<lparr>iov_base = 12, iov_len = 2\<rparr>] (blk_mem w2) = [10, 11]"
proof -
  have "\<exists>w1 w2. blk_transfer 5 BOP_WRITE demo_world = Inr (0, w1) \<and> blk_transfer 6 BOP_READ w1 = Inr (0, w2) \<and>
     iov_bytes [\<lparr>iov_base = 12, iov_len = 2\<rparr>] (blk_mem w2) =
     iov_bytes [\<lparr>iov_base = 10, iov_len = 2\<rparr>] (blk_mem demo_world)"
    using demo_base
    by (intro disk_roundtrip) (simp_all add: demo_sel req_iov_def demo_req_def off_disk_def iov_cells_def disk_addr_def)
  then show ?thesis by (simp add: demo_sel numeral_eq_Suc)
qed

theorem write_reaches_any_address_witness:
  "\<exists>w w'. blk_transfer (0 :: nat) BOP_WRITE w = Inr (0, w') \<and>
     blk_mem w' = (blk_mem w)(3 := blk_mem (w :: (nat, nat list) blk_world_scheme) 40)"
proof -
  let ?w = "demo_world\<lparr>blk_st := \<lambda>p. \<lparr>br_iovcnt = 1, br_offset = 3 - 50331648, br_resid = 0,
     br_iov = [\<lparr>iov_base = 40, iov_len = 1\<rparr>]\<rparr>\<rparr>"
  have "\<exists>w'. blk_transfer 0 BOP_WRITE ?w = Inr (0, w') \<and> blk_mem w' = (blk_mem ?w)(3 := blk_mem ?w 40)"
    using demo_base by (intro write_reaches_any_address) (simp_all add: req_iov_def)
  then show ?thesis by blast
qed

theorem chs_covers_witness:
  "\<exists>c h s. blockif_chs (blk_bc demo_world) = Inr (c, h, s) \<and>
    c * h * s \<le> 425984 \<and> 425984 < (c + 1) * h * s"
proof -
  have e: "blk_bc demo_world = the (blockif_open True 0)" by (metis demo_sel(1) option.sel)
  have m: "bc_magic (blk_bc demo_world) = BLOCKIF_SIG" "bc_sectsz (blk_bc demo_world) = 512"
    "bc_size (blk_bc demo_world) = 218103808"
    by (simp_all add: e blockif_open_def)
  from chs_covers [OF m(1)] show ?thesis unfolding m by (simp add: min_def) blast
qed

end
