(* ===== verification/Pci_Device.thy ===== *)
theory Pci_Device
  imports Prelude Pthread_Model
begin

text \<open>
  The instance of an emulated PCI device (\<open>struct pci_devinst\<close> of
  \<open>bhyve/pci_emul.h\<close>), the accessors of its 256-byte configuration space and
  the reads and writes of one, two or four bytes built on them
  (\<open>CFGREAD\<close>, \<open>CFGWRITE\<close> of \<open>bhyve/pci_emul.c\<close>).

  The register offsets and bits of configuration space (\<open>PCIR_\<close>, \<open>PCIM_\<close>,
  \<open>PCIY_\<close>) are those of the PCI Local Bus Specification, which the code takes
  from the system's \<open>pcireg.h\<close>.
\<close>

section \<open>Constants of the PCI configuration space\<close>

abbreviation (input) PCI_REGMAX :: nat where "PCI_REGMAX \<equiv> 255"
abbreviation (input) PCI_BUSMAX :: nat where "PCI_BUSMAX \<equiv> 255"
abbreviation (input) PCI_SLOTMAX :: nat where "PCI_SLOTMAX \<equiv> 31"
abbreviation (input) PCI_FUNCMAX :: nat where "PCI_FUNCMAX \<equiv> 7"
abbreviation (input) PCI_BARMAX :: nat where "PCI_BARMAX \<equiv> 5"
abbreviation (input) PCIR_VENDOR :: nat where "PCIR_VENDOR \<equiv> 0x00"
abbreviation (input) PCIR_DEVICE :: nat where "PCIR_DEVICE \<equiv> 0x02"
abbreviation (input) PCIR_COMMAND :: nat where "PCIR_COMMAND \<equiv> 0x04"
abbreviation (input) PCIR_STATUS :: nat where "PCIR_STATUS \<equiv> 0x06"
abbreviation (input) PCIR_REVID :: nat where "PCIR_REVID \<equiv> 0x08"
abbreviation (input) PCIR_PROGIF :: nat where "PCIR_PROGIF \<equiv> 0x09"
abbreviation (input) PCIR_SUBCLASS :: nat where "PCIR_SUBCLASS \<equiv> 0x0a"
abbreviation (input) PCIR_CLASS :: nat where "PCIR_CLASS \<equiv> 0x0b"
abbreviation (input) PCIR_HDRTYPE :: nat where "PCIR_HDRTYPE \<equiv> 0x0e"
abbreviation (input) PCIR_BAR :: "nat \<Rightarrow> nat" where "PCIR_BAR x \<equiv> 0x10 + x * 4"
abbreviation (input) PCIR_SUBVEND_0 :: nat where "PCIR_SUBVEND_0 \<equiv> 0x2c"
abbreviation (input) PCIR_SUBDEV_0 :: nat where "PCIR_SUBDEV_0 \<equiv> 0x2e"
abbreviation (input) PCIR_CAP_PTR :: nat where "PCIR_CAP_PTR \<equiv> 0x34"
abbreviation (input) PCIR_INTLINE :: nat where "PCIR_INTLINE \<equiv> 0x3c"
abbreviation (input) PCIR_INTPIN :: nat where "PCIR_INTPIN \<equiv> 0x3d"
abbreviation (input) PCIM_CMD_PORTEN :: u16 where "PCIM_CMD_PORTEN \<equiv> 0x0001"
abbreviation (input) PCIM_CMD_MEMEN :: u16 where "PCIM_CMD_MEMEN \<equiv> 0x0002"
abbreviation (input) PCIM_CMD_BUSMASTEREN :: u16 where "PCIM_CMD_BUSMASTEREN \<equiv> 0x0004"
abbreviation (input) PCIM_CMD_INTxDIS :: u16 where "PCIM_CMD_INTxDIS \<equiv> 0x0400"
abbreviation (input) PCIM_STATUS_CAPPRESENT :: u16 where "PCIM_STATUS_CAPPRESENT \<equiv> 0x0010"
abbreviation (input) PCIM_MFDEV :: u32 where "PCIM_MFDEV \<equiv> 0x80"
abbreviation (input) PCIY_MSI :: u8 where "PCIY_MSI \<equiv> 0x05"
abbreviation (input) PCIY_EXPRESS :: u8 where "PCIY_EXPRESS \<equiv> 0x10"
abbreviation (input) PCIY_MSIX :: u8 where "PCIY_MSIX \<equiv> 0x11"
abbreviation (input) PCIM_MSICTRL_MSI_ENABLE :: u16 where "PCIM_MSICTRL_MSI_ENABLE \<equiv> 0x0001"
abbreviation (input) PCIM_MSICTRL_MME_MASK :: u16 where "PCIM_MSICTRL_MME_MASK \<equiv> 0x0070"
abbreviation (input) PCIM_MSICTRL_64BIT :: u16 where "PCIM_MSICTRL_64BIT \<equiv> 0x0080"
abbreviation (input) PCIM_MSIXCTRL_MSIX_ENABLE :: u16 where "PCIM_MSIXCTRL_MSIX_ENABLE \<equiv> 0x8000"
abbreviation (input) PCIM_MSIXCTRL_FUNCTION_MASK :: u16 where "PCIM_MSIXCTRL_FUNCTION_MASK \<equiv> 0x4000"
abbreviation (input) PCIM_MSIX_BIR_MASK :: u32 where "PCIM_MSIX_BIR_MASK \<equiv> 0x7"
abbreviation (input) PCIM_MSIX_VCTRL_MASK :: u32 where "PCIM_MSIX_VCTRL_MASK \<equiv> 0x1"
abbreviation (input) PCIM_BAR_IO_BASE :: u64 where "PCIM_BAR_IO_BASE \<equiv> 0xfffffffc"
abbreviation (input) PCIM_BAR_IO_SPACE :: u64 where "PCIM_BAR_IO_SPACE \<equiv> 1"
abbreviation (input) PCIM_BAR_MEM_BASE :: u64 where "PCIM_BAR_MEM_BASE \<equiv> 0xfffffffffffffff0"
abbreviation (input) PCIM_BAR_MEM_SPACE :: u64 where "PCIM_BAR_MEM_SPACE \<equiv> 0"
abbreviation (input) PCIM_BAR_MEM_32 :: u64 where "PCIM_BAR_MEM_32 \<equiv> 0"
abbreviation (input) PCIM_BAR_MEM_64 :: u64 where "PCIM_BAR_MEM_64 \<equiv> 4"
abbreviation (input) PCIM_BAR_MEM_PREFETCH :: u64 where "PCIM_BAR_MEM_PREFETCH \<equiv> 8"

section \<open>The device instance\<close>

datatype pcibar_type =
    PCIBAR_NONE | PCIBAR_IO | PCIBAR_MEM32 | PCIBAR_MEM64 | PCIBAR_MEMHI64

record pcibar =
  bar_type :: pcibar_type
  bar_size :: u64
  bar_addr :: u64

datatype lintr_stat = IDLE | ASSERTED | PENDING

record pi_lintr =
  lintr_pin :: nat
  lintr_state :: lintr_stat
  lintr_pirq_pin :: int
  lintr_ioapic_irq :: int
  lintr_lock :: pthread_mutex

record pi_msi =
  msi_enabled :: bool
  msi_addr :: u64
  msi_msg_data :: u64
  msi_maxmsgnum :: nat

text \<open>The MSI-X table is the byte array allocated at run time, \<open>None\<close> before.\<close>

record pi_msix =
  msix_enabled :: bool
  msix_table_bar :: int
  msix_pba_bar :: int
  msix_table_offset :: u32
  msix_table_count :: nat
  msix_pba_offset :: u32
  msix_pba_size :: nat
  msix_function_mask :: bool
  msix_table :: "bytes option"

text \<open>
  \<open>pi_devemu\<close> is the \<open>pe_emu\<close> name of the emulation the instance belongs to. The
  private data behind \<open>pi_arg\<close> is kept by the device theories.
\<close>

record pci_devinst =
  pi_devemu :: string
  pi_bus :: nat
  pi_slot :: nat
  pi_func :: nat
  pi_name :: string
  pi_prevcap :: nat
  pi_capend :: nat
  lintr :: pi_lintr
  msi :: pi_msi
  msix :: pi_msix
  pi_cfgdata :: bytes
  pi_bar :: "nat \<Rightarrow> pcibar"

type_synonym bdf = "nat \<times> nat \<times> nat"

definition pi_bdf :: "pci_devinst \<Rightarrow> bdf" where
  "pi_bdf pi = (pi_bus pi, pi_slot pi, pi_func pi)"

section \<open>Configuration space\<close>

definition pci_set_cfgdata8 :: "pci_devinst \<Rightarrow> nat \<Rightarrow> u8 \<Rightarrow> pci_devinst res" where
  "pci_set_cfgdata8 pi off v =
     bindE (assertE (off \<le> PCI_REGMAX)) (\<lambda>_.
     Inr (pi\<lparr>pi_cfgdata := (pi_cfgdata pi)(off := v)\<rparr>))"

definition pci_set_cfgdata16 :: "pci_devinst \<Rightarrow> nat \<Rightarrow> u16 \<Rightarrow> pci_devinst res" where
  "pci_set_cfgdata16 pi off v =
     bindE (assertE (off \<le> PCI_REGMAX - 1 \<and> off AND 1 = 0)) (\<lambda>_.
     Inr (pi\<lparr>pi_cfgdata := store16 (pi_cfgdata pi) off v\<rparr>))"

definition pci_set_cfgdata32 :: "pci_devinst \<Rightarrow> nat \<Rightarrow> u32 \<Rightarrow> pci_devinst res" where
  "pci_set_cfgdata32 pi off v =
     bindE (assertE (off \<le> PCI_REGMAX - 3 \<and> off AND 3 = 0)) (\<lambda>_.
     Inr (pi\<lparr>pi_cfgdata := store32 (pi_cfgdata pi) off v\<rparr>))"

definition pci_get_cfgdata8 :: "pci_devinst \<Rightarrow> nat \<Rightarrow> u8 res" where
  "pci_get_cfgdata8 pi off =
     bindE (assertE (off \<le> PCI_REGMAX)) (\<lambda>_. Inr (pi_cfgdata pi off))"

definition pci_get_cfgdata16 :: "pci_devinst \<Rightarrow> nat \<Rightarrow> u16 res" where
  "pci_get_cfgdata16 pi off =
     bindE (assertE (off \<le> PCI_REGMAX - 1 \<and> off AND 1 = 0)) (\<lambda>_.
     Inr (load16 (pi_cfgdata pi) off))"

definition pci_get_cfgdata32 :: "pci_devinst \<Rightarrow> nat \<Rightarrow> u32 res" where
  "pci_get_cfgdata32 pi off =
     bindE (assertE (off \<le> PCI_REGMAX - 3 \<and> off AND 3 = 0)) (\<lambda>_.
     Inr (load32 (pi_cfgdata pi) off))"

definition CFGWRITE :: "pci_devinst \<Rightarrow> nat \<Rightarrow> u32 \<Rightarrow> nat \<Rightarrow> pci_devinst res" where
  "CFGWRITE pi coff val bytes =
     (if bytes = 1 then pci_set_cfgdata8 pi coff (ucast val)
      else if bytes = 2 then pci_set_cfgdata16 pi coff (ucast val)
      else pci_set_cfgdata32 pi coff val)"

definition CFGREAD :: "pci_devinst \<Rightarrow> nat \<Rightarrow> nat \<Rightarrow> u32 res" where
  "CFGREAD pi coff bytes =
     (if bytes = 1 then bindE (pci_get_cfgdata8 pi coff) (\<lambda>v. Inr (ucast v))
      else if bytes = 2 then bindE (pci_get_cfgdata16 pi coff) (\<lambda>v. Inr (ucast v))
      else pci_get_cfgdata32 pi coff)"

section \<open>Lemmas on configuration space\<close>

lemmas cfgdata_defs =
  pci_set_cfgdata8_def pci_set_cfgdata16_def pci_set_cfgdata32_def
  pci_get_cfgdata8_def pci_get_cfgdata16_def pci_get_cfgdata32_def

lemma nat_and_1: "(n :: nat) AND 1 = n mod 2"
  by (simp add: and_one_eq)

lemma nat_and_3: "(n :: nat) AND 3 = n mod 4"
  using take_bit_eq_mask [of 2 n] by (simp add: mask_eq_exp_minus_1 take_bit_eq_mod)

lemma get_cfgdata16 [simp]:
  "off \<le> 254 \<Longrightarrow> even off \<Longrightarrow> pci_get_cfgdata16 pi off = Inr (load16 (pi_cfgdata pi) off)"
  by (simp add: pci_get_cfgdata16_def nat_and_1 even_iff_mod_2_eq_zero [symmetric])

lemma set_cfgdata16 [simp]:
  "off \<le> 254 \<Longrightarrow> even off \<Longrightarrow>
   pci_set_cfgdata16 pi off v = Inr (pi\<lparr>pi_cfgdata := store16 (pi_cfgdata pi) off v\<rparr>)"
  by (simp add: pci_set_cfgdata16_def nat_and_1 even_iff_mod_2_eq_zero [symmetric])

lemma get_cfgdata32 [simp]:
  "off \<le> 252 \<Longrightarrow> 4 dvd off \<Longrightarrow> pci_get_cfgdata32 pi off = Inr (load32 (pi_cfgdata pi) off)"
  by (simp add: pci_get_cfgdata32_def nat_and_3 dvd_eq_mod_eq_0)

lemma set_cfgdata32 [simp]:
  "off \<le> 252 \<Longrightarrow> 4 dvd off \<Longrightarrow>
   pci_set_cfgdata32 pi off v = Inr (pi\<lparr>pi_cfgdata := store32 (pi_cfgdata pi) off v\<rparr>)"
  by (simp add: pci_set_cfgdata32_def nat_and_3 dvd_eq_mod_eq_0)

lemma get_cfgdata8 [simp]:
  "off \<le> 255 \<Longrightarrow> pci_get_cfgdata8 pi off = Inr (pi_cfgdata pi off)"
  by (simp add: pci_get_cfgdata8_def)

lemma set_cfgdata8 [simp]:
  "off \<le> 255 \<Longrightarrow> pci_set_cfgdata8 pi off v = Inr (pi\<lparr>pi_cfgdata := (pi_cfgdata pi)(off := v)\<rparr>)"
  by (simp add: pci_set_cfgdata8_def)

text \<open>A naturally aligned access that stays inside the 256 bytes.\<close>

definition cfg_access_ok :: "nat \<Rightarrow> nat \<Rightarrow> bool" where
  "cfg_access_ok coff bytes \<longleftrightarrow>
     (bytes = 1 \<and> coff \<le> 255) \<or> (bytes = 2 \<and> coff \<le> 254 \<and> even coff) \<or>
     (bytes = 4 \<and> coff \<le> 252 \<and> 4 dvd coff)"

definition bytes_mask :: "nat \<Rightarrow> u32" where
  "bytes_mask bytes = mask (8 * bytes)"

lemma ucast_ucast_mask8: "ucast (ucast (v :: u32) :: u8) = v AND mask 8"
  by (rule bit_word_eqI) (auto simp: bit_simps)

lemma ucast_ucast_mask16: "ucast (ucast (v :: u32) :: u16) = v AND mask 16"
  by (rule bit_word_eqI) (auto simp: bit_simps)

lemma CFGWRITE_ok: "cfg_access_ok coff bytes \<Longrightarrow> returns (CFGWRITE pi coff val bytes)"
  by (auto simp: cfg_access_ok_def CFGWRITE_def)

lemma CFGREAD_ok: "cfg_access_ok coff bytes \<Longrightarrow> returns (CFGREAD pi coff bytes)"
  by (auto simp: cfg_access_ok_def CFGREAD_def)

lemma mask_32 [simp]: "(mask 32 :: u32) = -1"
  using mask_full [where 'a = 32] by simp

lemma CFGREAD_CFGWRITE:
  "cfg_access_ok coff bytes \<Longrightarrow> CFGWRITE pi coff val bytes = Inr pi' \<Longrightarrow>
   CFGREAD pi' coff bytes = Inr (val AND bytes_mask bytes)"
  by (auto simp: cfg_access_ok_def CFGWRITE_def CFGREAD_def bytes_mask_def
      ucast_ucast_mask8 ucast_ucast_mask16)

lemma CFGWRITE_frame:
  "CFGWRITE pi coff val bytes = Inr pi' \<Longrightarrow> b < coff \<or> coff + max 1 bytes \<le> b \<Longrightarrow> bytes \<le> 4 \<Longrightarrow>
   bytes \<noteq> 3 \<Longrightarrow> bytes \<noteq> 0 \<Longrightarrow> pi_cfgdata pi' b = pi_cfgdata pi b"
  by (auto simp: CFGWRITE_def cfgdata_defs bind_assertE store16_other store32_other split: if_splits)

lemma CFGWRITE_only_cfgdata:
  "CFGWRITE pi coff val bytes = Inr pi' \<Longrightarrow> pi' = pi\<lparr>pi_cfgdata := pi_cfgdata pi'\<rparr>"
  by (auto simp: CFGWRITE_def cfgdata_defs bind_assertE split: if_splits)

end
