(* ===== verification/Pci_Intr.thy ===== *)
theory Pci_Intr
  imports Pci_Device
begin

text \<open>
  Legacy interrupts of the emulated devices: the pin state machine of
  \<open>bhyve/pci_emul.c\<close> (\<open>pci_lintr_assert\<close>, \<open>pci_lintr_deassert\<close>,
  \<open>pci_lintr_update\<close>) and its back end in \<open>bhyve/bhyve_support.c\<close>, which sets or
  clears a line of the main core's interrupt controller. The controller's
  driver is not part of the repository: the calls made to it are recorded in
  order.
\<close>

section \<open>The interrupt controller's calls\<close>

datatype pic_call = Ip_set nat | Ip_clear nat

type_synonym pic_log = "pic_call list"

definition DM_E1000_INTR :: nat where "DM_E1000_INTR = 19"
definition DM_AHCI_INTR :: nat where "DM_AHCI_INTR = 20"

text \<open>The level a log leaves on a line: that of the last call for the line.\<close>

fun line_level :: "nat \<Rightarrow> pic_log \<Rightarrow> bool \<Rightarrow> bool" where
  "line_level irq [] lvl = lvl"
| "line_level irq (Ip_set i # cs) lvl = line_level irq cs (if i = irq then True else lvl)"
| "line_level irq (Ip_clear i # cs) lvl = line_level irq cs (if i = irq then False else lvl)"

definition pi_irq :: "pci_devinst \<Rightarrow> nat" where
  "pi_irq pi =
     (if pi_name pi = ''ahci-hd-pci-1'' then DM_AHCI_INTR
      else if pi_name pi = ''e1000-pci-0'' then DM_E1000_INTR
      else 0)"

definition pci_irq_assert :: "pci_devinst \<Rightarrow> pic_log \<Rightarrow> pic_log" where
  "pci_irq_assert pi pic =
     (let irq = pi_irq pi in if irq \<noteq> 0 then pic @ [Ip_set irq] else pic)"

definition pci_irq_deassert :: "pci_devinst \<Rightarrow> pic_log \<Rightarrow> pic_log" where
  "pci_irq_deassert pi pic =
     (let irq = pi_irq pi in if irq \<noteq> 0 then pic @ [Ip_clear irq] else pic)"

definition pirq_alloc_pin :: "pci_devinst \<Rightarrow> int" where
  "pirq_alloc_pin pi = 1"

definition pirq_irq :: "int \<Rightarrow> int" where
  "pirq_irq pin = 0"

section \<open>The pin state machine\<close>

definition pci_msi_enabled :: "pci_devinst \<Rightarrow> bool" where
  "pci_msi_enabled pi = msi_enabled (msi pi)"

definition pci_msi_maxmsgnum :: "pci_devinst \<Rightarrow> nat" where
  "pci_msi_maxmsgnum pi = (if msi_enabled (msi pi) then msi_maxmsgnum (msi pi) else 0)"

definition pci_msix_enabled :: "pci_devinst \<Rightarrow> bool" where
  "pci_msix_enabled pi \<longleftrightarrow> msix_enabled (msix pi) \<and> \<not> msi_enabled (msi pi)"

definition pci_lintr_permitted :: "pci_devinst \<Rightarrow> bool res" where
  "pci_lintr_permitted pi =
     bindE (pci_get_cfgdata16 pi PCIR_COMMAND) (\<lambda>cmd.
     Inr (\<not> (msi_enabled (msi pi) \<or> msix_enabled (msix pi) \<or> cmd AND PCIM_CMD_INTxDIS \<noteq> 0)))"

definition set_lintr_state :: "lintr_stat \<Rightarrow> pci_devinst \<Rightarrow> pci_devinst" where
  "set_lintr_state st pi = pi\<lparr>lintr := (lintr pi)\<lparr>lintr_state := st\<rparr>\<rparr>"

definition lock_lintr :: "pci_devinst \<Rightarrow> pci_devinst res" where
  "lock_lintr pi =
     bindE (pthread_mutex_lock (lintr_lock (lintr pi))) (\<lambda>m.
     Inr (pi\<lparr>lintr := (lintr pi)\<lparr>lintr_lock := m\<rparr>\<rparr>))"

definition unlock_lintr :: "pci_devinst \<Rightarrow> pci_devinst res" where
  "unlock_lintr pi =
     bindE (pthread_mutex_unlock (lintr_lock (lintr pi))) (\<lambda>m.
     Inr (pi\<lparr>lintr := (lintr pi)\<lparr>lintr_lock := m\<rparr>\<rparr>))"

definition pci_lintr_assert :: "pci_devinst \<Rightarrow> pic_log \<Rightarrow> (pci_devinst \<times> pic_log) res" where
  "pci_lintr_assert pi0 pic0 =
     bindE (assertE (lintr_pin (lintr pi0) > 0)) (\<lambda>_.
     bindE (lock_lintr pi0) (\<lambda>pi.
     bindE (if lintr_state (lintr pi) = IDLE then
              bindE (pci_lintr_permitted pi) (\<lambda>ok.
              if ok then Inr (set_lintr_state ASSERTED pi,
                              pci_irq_assert (set_lintr_state ASSERTED pi) pic0)
              else Inr (set_lintr_state PENDING pi, pic0))
            else Inr (pi, pic0)) (\<lambda>(pi, pic).
     bindE (unlock_lintr pi) (\<lambda>pi.
     Inr (pi, pic)))))"

definition pci_lintr_deassert :: "pci_devinst \<Rightarrow> pic_log \<Rightarrow> (pci_devinst \<times> pic_log) res" where
  "pci_lintr_deassert pi0 pic0 =
     bindE (assertE (lintr_pin (lintr pi0) > 0)) (\<lambda>_.
     bindE (lock_lintr pi0) (\<lambda>pi.
     bindE (if lintr_state (lintr pi) = ASSERTED then
              Inr (set_lintr_state IDLE pi, pci_irq_deassert (set_lintr_state IDLE pi) pic0)
            else if lintr_state (lintr pi) = PENDING then
              Inr (set_lintr_state IDLE pi, pic0)
            else Inr (pi, pic0)) (\<lambda>(pi, pic).
     bindE (unlock_lintr pi) (\<lambda>pi.
     Inr (pi, pic)))))"

definition pci_lintr_update :: "pci_devinst \<Rightarrow> pic_log \<Rightarrow> (pci_devinst \<times> pic_log) res" where
  "pci_lintr_update pi0 pic0 =
     bindE (lock_lintr pi0) (\<lambda>pi.
     bindE (pci_lintr_permitted pi) (\<lambda>ok.
     bindE (if lintr_state (lintr pi) = ASSERTED \<and> \<not> ok then
              Inr (set_lintr_state PENDING pi, pci_irq_deassert pi pic0)
            else if lintr_state (lintr pi) = PENDING \<and> ok then
              Inr (set_lintr_state ASSERTED pi, pci_irq_assert (set_lintr_state ASSERTED pi) pic0)
            else Inr (pi, pic0)) (\<lambda>(pi, pic).
     bindE (unlock_lintr pi) (\<lambda>pi.
     Inr (pi, pic)))))"

section \<open>Closed forms\<close>

definition lintr_allowed :: "pci_devinst \<Rightarrow> bool" where
  "lintr_allowed pi \<longleftrightarrow>
     \<not> (msi_enabled (msi pi) \<or> msix_enabled (msix pi) \<or>
        load16 (pi_cfgdata pi) PCIR_COMMAND AND PCIM_CMD_INTxDIS \<noteq> 0)"

text \<open>A device outside the pin operations: its pin is allocated and its lock free.\<close>

definition lintr_ready :: "pci_devinst \<Rightarrow> bool" where
  "lintr_ready pi \<longleftrightarrow> 0 < lintr_pin (lintr pi) \<and> free_mutex (lintr_lock (lintr pi))"

lemma permitted_eq [simp]: "pci_lintr_permitted pi = Inr (lintr_allowed pi)"
  by (simp add: pci_lintr_permitted_def lintr_allowed_def)

lemma set_lintr_state_sel [simp]:
  "lintr_state (lintr (set_lintr_state st pi)) = st"
  "lintr_pin (lintr (set_lintr_state st pi)) = lintr_pin (lintr pi)"
  "lintr_lock (lintr (set_lintr_state st pi)) = lintr_lock (lintr pi)"
  "pi_name (set_lintr_state st pi) = pi_name pi"
  "pi_cfgdata (set_lintr_state st pi) = pi_cfgdata pi"
  "pi_bar (set_lintr_state st pi) = pi_bar pi"
  "msi (set_lintr_state st pi) = msi pi"
  "msix (set_lintr_state st pi) = msix pi"
  "pi_bdf (set_lintr_state st pi) = pi_bdf pi"
  by (simp_all add: set_lintr_state_def pi_bdf_def)

lemma set_lintr_state_same: "set_lintr_state (lintr_state (lintr pi)) pi = pi"
  by (simp add: set_lintr_state_def)

lemma pi_irq_set_state [simp]: "pi_irq (set_lintr_state st pi) = pi_irq pi"
  by (simp add: pi_irq_def)

lemma lintr_ready_set_state [simp]: "lintr_ready (set_lintr_state st pi) = lintr_ready pi"
  by (simp add: lintr_ready_def)

lemma lintr_allowed_set_state [simp]: "lintr_allowed (set_lintr_state st pi) = lintr_allowed pi"
  by (simp add: lintr_allowed_def)

definition irq_set :: "pci_devinst \<Rightarrow> pic_log" where
  "irq_set pi = (if pi_irq pi \<noteq> 0 then [Ip_set (pi_irq pi)] else [])"

definition irq_clear :: "pci_devinst \<Rightarrow> pic_log" where
  "irq_clear pi = (if pi_irq pi \<noteq> 0 then [Ip_clear (pi_irq pi)] else [])"

lemmas lintr_op_defs =
  lock_lintr_def unlock_lintr_def pthread_mutex_lock_def pthread_mutex_unlock_def
  lintr_ready_def free_mutex_def pci_irq_assert_def pci_irq_deassert_def
  irq_set_def irq_clear_def set_lintr_state_def Let_def pi_irq_def lintr_allowed_def

lemma pci_lintr_assert_eq:
  assumes "lintr_ready pi"
  shows "pci_lintr_assert pi pic =
    Inr (if lintr_state (lintr pi) \<noteq> IDLE then (pi, pic)
         else if lintr_allowed pi then (set_lintr_state ASSERTED pi, pic @ irq_set pi)
         else (set_lintr_state PENDING pi, pic))"
  using assms by (simp add: pci_lintr_assert_def lintr_op_defs)

lemma pci_lintr_deassert_eq:
  assumes "lintr_ready pi"
  shows "pci_lintr_deassert pi pic =
    Inr (case lintr_state (lintr pi) of
           IDLE \<Rightarrow> (pi, pic)
         | ASSERTED \<Rightarrow> (set_lintr_state IDLE pi, pic @ irq_clear pi)
         | PENDING \<Rightarrow> (set_lintr_state IDLE pi, pic))"
  using assms
  by (cases "lintr_state (lintr pi)") (simp_all add: pci_lintr_deassert_def lintr_op_defs)

lemma pci_lintr_update_eq:
  assumes "free_mutex (lintr_lock (lintr pi))"
  shows "pci_lintr_update pi pic =
    Inr (case lintr_state (lintr pi) of
           IDLE \<Rightarrow> (pi, pic)
         | ASSERTED \<Rightarrow>
             if lintr_allowed pi then (pi, pic)
             else (set_lintr_state PENDING pi, pic @ irq_clear pi)
         | PENDING \<Rightarrow>
             if lintr_allowed pi then (set_lintr_state ASSERTED pi, pic @ irq_set pi)
             else (pi, pic))"
  using assms
  by (cases "lintr_state (lintr pi)") (simp_all add: pci_lintr_update_def lintr_op_defs)

section \<open>The contract a device emulation uses\<close>

text \<open>
  A device raises and lowers its pin; \<open>wanted\<close> says that it has raised it. The
  operations always return on a ready device, change nothing else of it and
  may be repeated.
\<close>

locale irq_pin =
  fixes up :: "'d \<Rightarrow> 'l \<Rightarrow> ('d \<times> 'l) res"
    and down :: "'d \<Rightarrow> 'l \<Rightarrow> ('d \<times> 'l) res"
    and ready :: "'d \<Rightarrow> bool"
    and wanted :: "'d \<Rightarrow> bool"
    and rest :: "'d \<Rightarrow> 'r"
  assumes up_ok: "ready d \<Longrightarrow> \<exists>d' l'. up d l = Inr (d', l') \<and> ready d' \<and> wanted d' \<and> rest d' = rest d"
    and down_ok: "ready d \<Longrightarrow> \<exists>d' l'. down d l = Inr (d', l') \<and> ready d' \<and> \<not> wanted d' \<and> rest d' = rest d"
    and up_wanted: "ready d \<Longrightarrow> wanted d \<Longrightarrow> up d l = Inr (d, l)"
    and down_unwanted: "ready d \<Longrightarrow> \<not> wanted d \<Longrightarrow> down d l = Inr (d, l)"
begin

lemma up_again: "ready d \<Longrightarrow> up d l = Inr (d', l') \<Longrightarrow> up d' l' = Inr (d', l')"
  using up_ok [of d l] up_wanted [of d' l'] by auto

lemma down_again: "ready d \<Longrightarrow> down d l = Inr (d', l') \<Longrightarrow> down d' l' = Inr (d', l')"
  using down_ok [of d l] down_unwanted [of d' l'] by auto

lemma up_down:
  "ready d \<Longrightarrow> \<exists>d' l'. bindE (up d l) (\<lambda>(d, l). down d l) = Inr (d', l') \<and> ready d' \<and> \<not> wanted d'
     \<and> rest d' = rest d"
  using up_ok [of d l] down_ok by fastforce

end

definition lintr_wanted :: "pci_devinst \<Rightarrow> bool" where
  "lintr_wanted pi \<longleftrightarrow> lintr_state (lintr pi) \<noteq> IDLE"

text \<open>Everything but the pin state.\<close>

definition lintr_rest :: "pci_devinst \<Rightarrow> pci_devinst" where
  "lintr_rest pi = set_lintr_state IDLE pi"

lemma lintr_rest_set_state [simp]: "lintr_rest (set_lintr_state st pi) = lintr_rest pi"
  by (simp add: lintr_rest_def set_lintr_state_def)

lemma lintr_restD:
  "lintr_rest pi' = lintr_rest pi \<Longrightarrow>
     pi_cfgdata pi' = pi_cfgdata pi \<and> pi_bar pi' = pi_bar pi \<and> msi pi' = msi pi \<and> msix pi' = msix pi \<and>
     pi_name pi' = pi_name pi \<and> pi_bdf pi' = pi_bdf pi"
  by (metis lintr_rest_def set_lintr_state_sel)

interpretation pin: irq_pin pci_lintr_assert pci_lintr_deassert lintr_ready lintr_wanted lintr_rest
  by unfold_locales
    (auto simp: pci_lintr_assert_eq pci_lintr_deassert_eq lintr_wanted_def split: lintr_stat.splits)

section \<open>The pin and the controller's line\<close>

text \<open>
  Every step of the pin: the device raises or lowers it, or the guest changes
  the enable bits (MSI, MSI-X, the command register) and the pin is updated.
\<close>

inductive lintr_step :: "pci_devinst \<times> pic_log \<Rightarrow> pci_devinst \<times> pic_log \<Rightarrow> bool" where
  lintr_raise: "pci_lintr_assert pi pic = Inr (pi', pic') \<Longrightarrow> lintr_step (pi, pic) (pi', pic')"
| lintr_lower: "pci_lintr_deassert pi pic = Inr (pi', pic') \<Longrightarrow> lintr_step (pi, pic) (pi', pic')"
| lintr_config: "pci_lintr_update (pi\<lparr>msi := m, msix := x, pi_cfgdata := c\<rparr>) pic = Inr (pi', pic') \<Longrightarrow>
     lintr_step (pi, pic) (pi', pic')"

inductive_cases lintr_stepE: "lintr_step (pi, pic) (pi', pic')"

definition lintr_inv :: "pci_devinst \<times> pic_log \<Rightarrow> bool" where
  "lintr_inv s \<longleftrightarrow> (case s of (pi, pic) \<Rightarrow>
     lintr_ready pi \<and>
     (lintr_state (lintr pi) = ASSERTED \<longleftrightarrow> lintr_wanted pi \<and> lintr_allowed pi) \<and>
     (pi_irq pi \<noteq> 0 \<longrightarrow> (line_level (pi_irq pi) pic False \<longleftrightarrow> lintr_state (lintr pi) = ASSERTED)))"

lemma line_level_append: "line_level irq (xs @ ys) lvl = line_level irq ys (line_level irq xs lvl)"
  by (induction irq xs lvl rule: line_level.induct) simp_all

lemma line_level_irq [simp]:
  "pi_irq pi \<noteq> 0 \<Longrightarrow> line_level (pi_irq pi) (irq_set pi) lvl"
  "pi_irq pi \<noteq> 0 \<Longrightarrow> \<not> line_level (pi_irq pi) (irq_clear pi) lvl"
  by (simp_all add: irq_set_def irq_clear_def)

lemma pi_irq_config [simp]: "pi_irq (pi\<lparr>msi := m, msix := x, pi_cfgdata := c\<rparr>) = pi_irq pi"
  by (simp add: pi_irq_def)

lemma irq_config [simp]:
  "irq_clear (pi\<lparr>msi := m, msix := x, pi_cfgdata := c\<rparr>) = irq_clear pi"
  "irq_set (pi\<lparr>msi := m, msix := x, pi_cfgdata := c\<rparr>) = irq_set pi"
  by (simp_all add: irq_set_def irq_clear_def)

lemma lintr_step_inv: "lintr_step s t \<Longrightarrow> lintr_inv s \<Longrightarrow> lintr_inv t"
proof (induction rule: lintr_step.induct)
  case (lintr_raise pi pic pi' pic')
  then show ?case
    by (auto simp: lintr_inv_def pci_lintr_assert_eq lintr_wanted_def line_level_append
        split: if_splits)
next
  case (lintr_lower pi pic pi' pic')
  then show ?case
    by (auto simp: lintr_inv_def pci_lintr_deassert_eq lintr_wanted_def line_level_append
        split: lintr_stat.splits)
next
  case (lintr_config c x m pi pic pi' pic')
  define pj where "pj = pi\<lparr>msi := m, msix := x, pi_cfgdata := c\<rparr>"
  have sel: "lintr pj = lintr pi" "pi_irq pj = pi_irq pi" "lintr_ready pj"
    using lintr_config.prems by (auto simp: pj_def lintr_inv_def lintr_ready_def)
  have "free_mutex (lintr_lock (lintr pj))" using sel(3) by (simp add: lintr_ready_def)
  then show ?case
    using lintr_config sel line_level_irq [of pj] unfolding pj_def [symmetric]
    by (auto simp: lintr_inv_def pci_lintr_update_eq lintr_wanted_def line_level_append
        split: lintr_stat.splits if_splits)
qed

text \<open>C10: Whatever interleaving of raising, lowering and re-enabling happens,
  the line at the interrupt controller is up exactly when the device has
  raised its pin and the guest's enable bits permit a legacy interrupt; no
  raised interrupt is lost while it is masked, and none stays up once it is
  masked or lowered.\<close>

theorem line_follows_pin:
  assumes "lintr_step\<^sup>*\<^sup>* (pi0, []) (pi, pic)"
    and "lintr_ready pi0" and "lintr_state (lintr pi0) = IDLE" and "pi_irq pi \<noteq> 0"
  shows "line_level (pi_irq pi) pic False \<longleftrightarrow> lintr_wanted pi \<and> lintr_allowed pi"
proof -
  have "lintr_inv (pi0, [])" using assms(2,3) by (simp add: lintr_inv_def lintr_wanted_def)
  with assms(1) have "lintr_inv (pi, pic)"
    by (induction rule: rtranclp_induct) (auto intro: lintr_step_inv)
  then show ?thesis using assms(4) by (simp add: lintr_inv_def)
qed

definition wit_devinst :: pci_devinst where
  "wit_devinst = \<lparr>pi_devemu = ''e1000'', pi_bus = 0, pi_slot = 0, pi_func = 0,
     pi_name = ''e1000-pci-0'', pi_prevcap = 0, pi_capend = 0,
     lintr = \<lparr>lintr_pin = 1, lintr_state = IDLE, lintr_pirq_pin = 0, lintr_ioapic_irq = 0,
              lintr_lock = \<lparr>mtx_lock = 0\<rparr>\<rparr>,
     msi = \<lparr>msi_enabled = False, msi_addr = 0, msi_msg_data = 0, msi_maxmsgnum = 0\<rparr>,
     msix = \<lparr>msix_enabled = False, msix_table_bar = 0, msix_pba_bar = 0, msix_table_offset = 0,
             msix_table_count = 0, msix_pba_offset = 0, msix_pba_size = 0,
             msix_function_mask = False, msix_table = None\<rparr>,
     pi_cfgdata = (\<lambda>_. 0),
     pi_bar = (\<lambda>_. \<lparr>bar_type = PCIBAR_NONE, bar_size = 0, bar_addr = 0\<rparr>)\<rparr>"

lemma wit_devinst_ready: "lintr_ready wit_devinst" "pi_irq wit_devinst = 19"
  "lintr_state (lintr wit_devinst) = IDLE" "lintr_allowed wit_devinst"
  by (simp_all add: wit_devinst_def lintr_ready_def free_mutex_def pi_irq_def DM_E1000_INTR_def
      lintr_allowed_def load16_def word_cat_0_left)

theorem line_follows_pin_witness:
  "lintr_step\<^sup>*\<^sup>* (wit_devinst, []) (set_lintr_state ASSERTED wit_devinst, [Ip_set 19]) \<and>
   line_level 19 [Ip_set 19] False"
proof -
  have "lintr_step (wit_devinst, []) (set_lintr_state ASSERTED wit_devinst, [Ip_set 19])"
    by (rule lintr_raise) (simp add: pci_lintr_assert_eq wit_devinst_ready irq_set_def)
  then have run: "lintr_step\<^sup>*\<^sup>* (wit_devinst, []) (set_lintr_state ASSERTED wit_devinst, [Ip_set 19])"
    by blast
  show ?thesis
    using run line_follows_pin [OF run] by (simp add: wit_devinst_ready lintr_wanted_def)
qed

end
