(* ===== verification/Pci_Caps.thy ===== *)
theory Pci_Caps
  imports Pci_Intr
begin

text \<open>
  The capability list of \<open>bhyve/pci_emul.c\<close>: its construction
  (\<open>pci_emul_add_capability\<close>, the MSI, MSI-X and PCI Express capabilities), the
  guest's writes to it (\<open>pci_emul_capwrite\<close> and the per-capability handlers), and
  the MSI-X table.
\<close>

section \<open>Building the list\<close>

abbreviation (input) CAP_START_OFFSET :: nat where "CAP_START_OFFSET \<equiv> 0x40"

fun copy_cap :: "pci_devinst \<Rightarrow> nat \<Rightarrow> u8 list \<Rightarrow> pci_devinst res" where
  "copy_cap pi off [] = Inr pi"
| "copy_cap pi off (b # bs) = bindE (pci_set_cfgdata8 pi off b) (\<lambda>pi. copy_cap pi (off + 1) bs)"

definition pci_emul_add_capability :: "pci_devinst \<Rightarrow> u8 list \<Rightarrow> (int \<times> pci_devinst) res" where
  "pci_emul_add_capability pi capdata =
     (let caplen = length capdata; reallen = roundup2 caplen 4 in
      bindE (assertE (caplen > 0)) (\<lambda>_.
      bindE (pci_get_cfgdata16 pi PCIR_STATUS) (\<lambda>sts.
      let present = sts AND PCIM_STATUS_CAPPRESENT \<noteq> 0;
          capoff = (if \<not> present then CAP_START_OFFSET else pi_capend pi + 1)
      in
      if capoff + reallen > PCI_REGMAX + 1 then Inr (-1, pi)
      else
        bindE (if \<not> present then
                 bindE (pci_set_cfgdata8 pi PCIR_CAP_PTR (of_nat capoff)) (\<lambda>pi.
                 pci_set_cfgdata16 pi PCIR_STATUS (sts OR PCIM_STATUS_CAPPRESENT))
               else
                 pci_set_cfgdata8 pi (pi_prevcap pi + 1) (of_nat capoff)) (\<lambda>pi.
        bindE (copy_cap pi capoff capdata) (\<lambda>pi.
        bindE (pci_set_cfgdata8 pi (capoff + 1) 0) (\<lambda>pi.
        Inr (0, pi\<lparr>pi_prevcap := capoff, pi_capend := capoff + reallen - 1\<rparr>)))))))"

definition pci_populate_msicap :: "nat \<Rightarrow> u8 \<Rightarrow> u8 list res" where
  "pci_populate_msicap msgnum nextptr =
     bindE (assertE (msgnum AND (msgnum - 1) = 0 \<and> msgnum \<ge> 1 \<and> msgnum \<le> 32)) (\<lambda>_.
     let mmc = ffs msgnum - 1 in
     Inr ([PCIY_MSI, nextptr] @ bytes16 (PCIM_MSICTRL_64BIT OR of_nat (mmc * 2)) @ replicate 10 0))"

definition pci_emul_add_msicap :: "pci_devinst \<Rightarrow> nat \<Rightarrow> (int \<times> pci_devinst) res" where
  "pci_emul_add_msicap pi msgnum =
     bindE (pci_populate_msicap msgnum 0) (pci_emul_add_capability pi)"

definition pci_populate_msixcap :: "nat \<Rightarrow> nat \<Rightarrow> u32 \<Rightarrow> u8 list res" where
  "pci_populate_msixcap msgnum barnum msix_tab_size =
     bindE (assertE (msix_tab_size mod 4096 = 0)) (\<lambda>_.
     Inr ([PCIY_MSIX, 0] @ bytes16 (of_nat (msgnum - 1)) @
          bytes32 (of_nat barnum AND PCIM_MSIX_BIR_MASK) @
          bytes32 (msix_tab_size OR (of_nat barnum AND PCIM_MSIX_BIR_MASK))))"

abbreviation (input) MSIX_TABLE_ENTRY_SIZE :: nat where "MSIX_TABLE_ENTRY_SIZE \<equiv> 16"
abbreviation (input) MAX_MSIX_TABLE_ENTRIES :: nat where "MAX_MSIX_TABLE_ENTRIES \<equiv> 2048"

text \<open>The loop that masks every vector; \<open>vector_control\<close> is at byte 12 of an entry.\<close>

fun mask_vectors :: "nat \<Rightarrow> bytes \<Rightarrow> bytes" where
  "mask_vectors 0 t = t"
| "mask_vectors (Suc i) t =
     (let t = mask_vectors i t in
      store32 t (i * MSIX_TABLE_ENTRY_SIZE + 12)
        (load32 t (i * MSIX_TABLE_ENTRY_SIZE + 12) OR PCIM_MSIX_VCTRL_MASK))"

definition pci_msix_table_init :: "pci_devinst \<Rightarrow> nat \<Rightarrow> pci_devinst res" where
  "pci_msix_table_init pi table_entries =
     bindE (assertE (table_entries > 0)) (\<lambda>_.
     bindE (assertE (table_entries \<le> MAX_MSIX_TABLE_ENTRIES)) (\<lambda>_.
     Inr (pi\<lparr>msix := (msix pi)\<lparr>msix_table := Some (mask_vectors table_entries (\<lambda>_. 0))\<rparr>\<rparr>)))"

definition pci_emul_add_pciecap :: "pci_devinst \<Rightarrow> nat \<Rightarrow> (int \<times> pci_devinst) res" where
  "pci_emul_add_pciecap pi ty =
     (if ty \<noteq> 0x40 then Inr (-1, pi)
      else pci_emul_add_capability pi
        ([PCIY_EXPRESS, 0] @ bytes16 (0x2 OR 0x40) @ replicate 8 0 @ bytes32 0x411 @
         bytes16 0 @ bytes16 0x11 @ replicate 40 0))"

section \<open>Guest writes to the list\<close>

definition msixcap_cfgwrite ::
    "pci_devinst \<Rightarrow> nat \<Rightarrow> nat \<Rightarrow> nat \<Rightarrow> u32 \<Rightarrow> pic_log \<Rightarrow> (pci_devinst \<times> pic_log) res" where
  "msixcap_cfgwrite pi capoff offset bytes val pic =
     bindE (if int offset - int capoff = 2 \<and> bytes = 2 then
              (let rwmask = PCIM_MSIXCTRL_MSIX_ENABLE OR PCIM_MSIXCTRL_FUNCTION_MASK in
               bindE (pci_get_cfgdata16 pi offset) (\<lambda>msgctrl.
               let msgctrl = (msgctrl AND NOT rwmask) OR (ucast val AND rwmask);
                   pi = pi\<lparr>msix := (msix pi)\<lparr>
                     msix_enabled := msgctrl AND PCIM_MSIXCTRL_MSIX_ENABLE \<noteq> 0,
                     msix_function_mask := msgctrl AND PCIM_MSIXCTRL_FUNCTION_MASK \<noteq> 0\<rparr>\<rparr>
               in bindE (pci_lintr_update pi pic) (\<lambda>(pi, pic). Inr (ucast msgctrl, pi, pic))))
            else Inr (val, pi, pic)) (\<lambda>(val, pi, pic).
     bindE (CFGWRITE pi offset val bytes) (\<lambda>pi. Inr (pi, pic)))"

definition msicap_cfgwrite ::
    "pci_devinst \<Rightarrow> nat \<Rightarrow> nat \<Rightarrow> nat \<Rightarrow> u32 \<Rightarrow> pic_log \<Rightarrow> (pci_devinst \<times> pic_log) res" where
  "msicap_cfgwrite pi capoff offset bytes val pic =
     bindE (if int offset - int capoff = 2 \<and> bytes = 2 then
              (let rwmask = PCIM_MSICTRL_MME_MASK OR PCIM_MSICTRL_MSI_ENABLE in
               bindE (pci_get_cfgdata16 pi offset) (\<lambda>msgctrl.
               let msgctrl = (msgctrl AND NOT rwmask) OR (ucast val AND rwmask) in
               bindE (pci_get_cfgdata32 pi (capoff + 4)) (\<lambda>addrlo.
               bindE (if msgctrl AND PCIM_MSICTRL_64BIT \<noteq> 0
                      then pci_get_cfgdata16 pi (capoff + 12)
                      else pci_get_cfgdata16 pi (capoff + 8)) (\<lambda>msgdata.
               let mme = msgctrl AND PCIM_MSICTRL_MME_MASK;
                   en = msgctrl AND PCIM_MSICTRL_MSI_ENABLE \<noteq> 0;
                   pi = pi\<lparr>msi := (if en then (msi pi)\<lparr>msi_enabled := True, msi_addr := ucast addrlo,
                       msi_msg_data := ucast msgdata,
                       msi_maxmsgnum := push_bit (unat (drop_bit 4 mme)) 1\<rparr>
                     else (msi pi)\<lparr>msi_enabled := False, msi_maxmsgnum := 0\<rparr>)\<rparr>
               in bindE (pci_lintr_update pi pic) (\<lambda>(pi, pic). Inr (ucast msgctrl, pi, pic))))))
            else Inr (val, pi, pic)) (\<lambda>(val, pi, pic).
     bindE (CFGWRITE pi offset val bytes) (\<lambda>pi. Inr (pi, pic)))"

definition pciecap_cfgwrite ::
    "pci_devinst \<Rightarrow> nat \<Rightarrow> nat \<Rightarrow> nat \<Rightarrow> u32 \<Rightarrow> pic_log \<Rightarrow> (pci_devinst \<times> pic_log) res" where
  "pciecap_cfgwrite pi capoff offset bytes val pic =
     bindE (CFGWRITE pi offset val bytes) (\<lambda>pi. Inr (pi, pic))"

text \<open>
  The search for the capability an offset belongs to is the \<open>while (1)\<close> loop of
  \<open>pci_emul_capwrite\<close>; \<open>None\<close> stands for a list that never ends.
\<close>

partial_function (option) find_cap :: "pci_devinst \<Rightarrow> nat \<Rightarrow> nat \<Rightarrow> nat res option" where
  "find_cap pi offset capoff =
     (case pci_get_cfgdata8 pi (capoff + 1) of
        Inl e \<Rightarrow> Some (Inl e)
      | Inr nextoff \<Rightarrow>
          if nextoff = 0 then Some (Inr capoff)
          else if offset \<ge> capoff \<and> offset < unat nextoff then Some (Inr capoff)
          else find_cap pi offset (unat nextoff))"

definition pci_emul_capwrite ::
    "pci_devinst \<Rightarrow> nat \<Rightarrow> nat \<Rightarrow> u32 \<Rightarrow> pic_log \<Rightarrow> (pci_devinst \<times> pic_log) res" where
  "pci_emul_capwrite pi offset bytes val pic =
     (if offset AND (bytes - 1) \<noteq> 0 then Inr (pi, pic)
      else
        bindE (case find_cap pi offset CAP_START_OFFSET of None \<Rightarrow> Inl No_return | Some r \<Rightarrow> r) (\<lambda>capoff.
        bindE (assertE (offset \<ge> capoff)) (\<lambda>_.
        let ro = offset = capoff \<or> offset = capoff + 1;
            trim = offset = capoff \<and> bytes = 4
        in
        if ro \<and> \<not> trim then Inr (pi, pic)
        else
          (let (bytes, offset, val) =
             (if trim then (2, offset + 2, drop_bit 16 val) else (bytes, offset, val)) in
           bindE (pci_get_cfgdata8 pi capoff) (\<lambda>capid.
           if capid = PCIY_MSI then msicap_cfgwrite pi capoff offset bytes val pic
           else if capid = PCIY_MSIX then msixcap_cfgwrite pi capoff offset bytes val pic
           else if capid = PCIY_EXPRESS then pciecap_cfgwrite pi capoff offset bytes val pic
           else Inr (pi, pic))))))"

definition pci_emul_iscap :: "pci_devinst \<Rightarrow> nat \<Rightarrow> bool res" where
  "pci_emul_iscap pi offset =
     bindE (pci_get_cfgdata16 pi PCIR_STATUS) (\<lambda>sts.
     Inr (sts AND PCIM_STATUS_CAPPRESENT \<noteq> 0 \<and> offset \<ge> CAP_START_OFFSET \<and> offset \<le> pi_capend pi))"

section \<open>The MSI-X table\<close>

definition pci_valid_pba_offset :: "pci_devinst \<Rightarrow> u64 \<Rightarrow> bool" where
  "pci_valid_pba_offset pi offset \<longleftrightarrow>
     \<not> offset < ucast (msix_pba_offset (msix pi)) \<and>
     \<not> offset \<ge> ucast (msix_pba_offset (msix pi) + of_nat (msix_pba_size (msix pi)))"

text \<open>\<open>tab_index\<close> is the 64-bit quotient converted to \<open>int\<close>.\<close>

definition tab_index :: "u64 \<Rightarrow> int" where
  "tab_index offset = sint (ucast (offset div 16) :: 32 word)"

definition table_cell :: "pci_devinst \<Rightarrow> u64 \<Rightarrow> (bytes \<times> nat) res" where
  "table_cell pi offset =
     (case msix_table (msix pi) of
        None \<Rightarrow> Inl Null_deref
      | Some t \<Rightarrow>
          if tab_index offset < 0 then Inl Out_of_bounds
          else Inr (t, nat (tab_index offset) * MSIX_TABLE_ENTRY_SIZE + unat (offset mod 16)))"

definition pci_emul_msix_twrite ::
    "pci_devinst \<Rightarrow> u64 \<Rightarrow> nat \<Rightarrow> u64 \<Rightarrow> (int \<times> pci_devinst) res" where
  "pci_emul_msix_twrite pi offset sz value =
     (if sz \<noteq> 4 \<and> sz \<noteq> 8 then Inr (-1, pi)
      else if tab_index offset \<ge> int (msix_table_count (msix pi)) then Inr (-1, pi)
      else if unat (offset mod 16) mod sz \<noteq> 0 then Inr (-1, pi)
      else bindE (table_cell pi offset) (\<lambda>(t, dest).
        Inr (0, pi\<lparr>msix := (msix pi)\<lparr>msix_table :=
          Some (if sz = 4 then store32 t dest (ucast value) else store64 t dest value)\<rparr>\<rparr>)))"

definition pci_emul_msix_tread :: "pci_devinst \<Rightarrow> u64 \<Rightarrow> nat \<Rightarrow> u64 res" where
  "pci_emul_msix_tread pi offset sz =
     (if sz \<noteq> 1 \<and> sz \<noteq> 4 \<and> sz \<noteq> 8 then Inr (- 1)
      else if unat (offset mod 16) mod sz \<noteq> 0 then Inr (- 1)
      else if tab_index offset < int (msix_table_count (msix pi)) then
        bindE (table_cell pi offset) (\<lambda>(t, dest).
        Inr (if sz = 1 then ucast (t dest)
             else if sz = 4 then ucast (load32 t dest)
             else load64 t dest))
      else if pci_valid_pba_offset pi offset then Inr 0
      else Inr (- 1))"

definition pci_msix_table_bar :: "pci_devinst \<Rightarrow> int" where
  "pci_msix_table_bar pi = (if msix_table (msix pi) \<noteq> None then msix_table_bar (msix pi) else -1)"

definition pci_msix_pba_bar :: "pci_devinst \<Rightarrow> int" where
  "pci_msix_pba_bar pi = (if msix_table (msix pi) \<noteq> None then msix_pba_bar (msix pi) else -1)"

text \<open>
  \<open>pci_generate_msix\<close> and \<open>pci_generate_msi\<close> check whether the message may be
  sent; the send itself (\<open>vm_lapic_msi\<close>) is compiled out of both. What is left
  of them is the read of the vector's mask.
\<close>

definition pci_generate_msix :: "pci_devinst \<Rightarrow> nat \<Rightarrow> unit res" where
  "pci_generate_msix pi index =
     (if \<not> pci_msix_enabled pi then Inr ()
      else if msix_function_mask (msix pi) then Inr ()
      else if index \<ge> msix_table_count (msix pi) then Inr ()
      else case msix_table (msix pi) of None \<Rightarrow> Inl Null_deref | Some t \<Rightarrow> Inr ())"

definition pci_generate_msi :: "pci_devinst \<Rightarrow> nat \<Rightarrow> unit" where
  "pci_generate_msi pi index =
     (if pci_msi_enabled pi \<and> index < pci_msi_maxmsgnum pi then () else ())"

section \<open>Well-formed lists\<close>

text \<open>
  \<open>cap_chain m cs\<close>: the capabilities start at the offsets \<open>cs\<close> in ascending
  order, each in a dword of its own, and their next pointers link them up to a
  terminating zero.
\<close>

fun cap_chain :: "bytes \<Rightarrow> nat list \<Rightarrow> bool" where
  "cap_chain m [] \<longleftrightarrow> False"
| "cap_chain m [c] \<longleftrightarrow> 4 dvd c \<and> c + 4 \<le> 256 \<and> m (c + 1) = 0"
| "cap_chain m (c # d # cs) \<longleftrightarrow>
     4 dvd c \<and> c + 4 \<le> d \<and> d < 256 \<and> m (c + 1) = of_nat d \<and> cap_chain m (d # cs)"

text \<open>The message control write of an MSI capability reads 14 bytes of it.\<close>

definition cap_room :: "bytes \<Rightarrow> nat \<Rightarrow> bool" where
  "cap_room m c \<longleftrightarrow> (m c = PCIY_MSI \<longrightarrow> c + 14 \<le> 256)"

definition cap_present :: "pci_devinst \<Rightarrow> bool" where
  "cap_present pi \<longleftrightarrow> load16 (pi_cfgdata pi) PCIR_STATUS AND PCIM_STATUS_CAPPRESENT \<noteq> 0"

definition cap_list :: "pci_devinst \<Rightarrow> nat list \<Rightarrow> bool" where
  "cap_list pi cs \<longleftrightarrow>
     (if cap_present pi then
        cap_chain (pi_cfgdata pi) cs \<and> hd cs = CAP_START_OFFSET \<and> last cs = pi_prevcap pi \<and>
        pi_prevcap pi + 4 \<le> pi_capend pi + 1 \<and> pi_capend pi < 256 \<and> 4 dvd (pi_capend pi + 1) \<and>
        (\<forall>c\<in>set cs. cap_room (pi_cfgdata pi) c)
      else cs = [])"

lemma cap_chain_bounds:
  "cap_chain m cs \<Longrightarrow> c \<in> set cs \<Longrightarrow> hd cs \<le> c \<and> c \<le> last cs \<and> c + 4 \<le> 256 \<and> 4 dvd c"
proof (induction m cs arbitrary: c rule: cap_chain.induct)
  case (3 m c0 d cs)
  have "d \<le> last (d # cs)" using 3 by auto
  then show ?case using 3 by fastforce
qed auto

lemma cap_chain_cong:
  "cap_chain m cs \<Longrightarrow> (\<And>c. c \<in> set cs \<Longrightarrow> m' (c + 1) = m (c + 1)) \<Longrightarrow> cap_chain m' cs"
  by (induction m cs rule: cap_chain.induct) auto

lemma cap_chain_snoc:
  assumes "cap_chain m cs" "last cs + 4 \<le> d" "4 dvd d" "d + 4 \<le> 256"
    and "m' (last cs + 1) = of_nat d" "m' (d + 1) = 0"
    and "\<And>c. c \<in> set cs \<Longrightarrow> c \<noteq> last cs \<Longrightarrow> m' (c + 1) = m (c + 1)"
  shows "cap_chain m' (cs @ [d])"
  using assms
proof (induction m cs rule: cap_chain.induct)
  case (3 m c e cs)
  have "c < last (e # cs)" using 3(2) cap_chain_bounds [of m "e # cs" e] by auto
  then have "m' (c + 1) = m (c + 1)" using 3(8) by auto
  then show ?case using 3 by auto
qed auto

lemma u8_of_nat:
  "d < 256 \<Longrightarrow> unat (of_nat d :: u8) = d"
  "0 < d \<Longrightarrow> d < 256 \<Longrightarrow> (of_nat d :: u8) \<noteq> 0"
proof -
  show "d < 256 \<Longrightarrow> unat (of_nat d :: u8) = d" for d by (simp add: unat_of_nat)
  then show "0 < d \<Longrightarrow> d < 256 \<Longrightarrow> (of_nat d :: u8) \<noteq> 0" by force
qed

text \<open>The search ends on such a list, at the last capability not behind the offset.\<close>

lemma find_cap_chain:
  assumes "cap_chain (pi_cfgdata pi) (c # cs)" "c \<le> offset"
  shows "\<exists>d\<in>set (c # cs). find_cap pi offset c = Some (Inr d) \<and> d \<le> offset \<and>
    (\<forall>e\<in>set (c # cs). e \<le> offset \<longrightarrow> e \<le> d)"
  using assms
proof (induction cs arbitrary: c)
  case Nil
  then show ?case by (subst find_cap.simps) simp
next
  case (Cons d cs)
  have d: "unat (of_nat d :: u8) = d" "(of_nat d :: u8) \<noteq> 0"
    using Cons.prems by (simp_all add: u8_of_nat)
  have step: "find_cap pi offset c = (if offset < d then Some (Inr c) else find_cap pi offset d)"
    using Cons.prems d by (subst find_cap.simps) simp
  show ?case
  proof (cases "offset < d")
    case True
    have "e \<le> offset \<longrightarrow> e \<le> c" if "e \<in> set (c # d # cs)" for e
      using that True Cons.prems(1) cap_chain_bounds [of "pi_cfgdata pi" "d # cs" e] by auto
    then show ?thesis using True step Cons.prems by auto
  next
    case False
    then have "find_cap pi offset c = find_cap pi offset d" "c \<le> d"
      using step Cons.prems(1) by simp_all
    moreover obtain e where "e \<in> set (d # cs)" "find_cap pi offset d = Some (Inr e)"
        "e \<le> offset" "\<forall>e'\<in>set (d # cs). e' \<le> offset \<longrightarrow> e' \<le> e"
      using Cons.IH [of d] Cons.prems(1) False by auto
    ultimately show ?thesis using False by (intro bexI [of _ e]) auto
  qed
qed


section \<open>Adding a capability\<close>

definition put_bytes :: "bytes \<Rightarrow> nat \<Rightarrow> u8 list \<Rightarrow> bytes" where
  "put_bytes m off bs = (\<lambda>a. if off \<le> a \<and> a < off + length bs then bs ! (a - off) else m a)"

lemma copy_cap_eq:
  "off + length bs \<le> 256 \<Longrightarrow>
   copy_cap pi off bs = Inr (pi\<lparr>pi_cfgdata := put_bytes (pi_cfgdata pi) off bs\<rparr>)"
proof (induction bs arbitrary: pi off)
  case Nil
  have "put_bytes (pi_cfgdata pi) off [] = pi_cfgdata pi"
    by (rule ext) (auto simp: put_bytes_def)
  then show ?case by simp
next
  case (Cons b bs)
  have "put_bytes ((pi_cfgdata pi)(off := b)) (off + 1) bs = put_bytes (pi_cfgdata pi) off (b # bs)"
    by (rule ext) (auto simp: put_bytes_def nth_Cons' Suc_le_eq)
  then show ?case using Cons by simp
qed

text \<open>Where the next capability goes, and the bytes that link it in.\<close>

definition next_capoff :: "pci_devinst \<Rightarrow> nat" where
  "next_capoff pi = (if cap_present pi then pi_capend pi + 1 else CAP_START_OFFSET)"

definition link_cap :: "pci_devinst \<Rightarrow> bytes" where
  "link_cap pi =
     (if cap_present pi then (pi_cfgdata pi)(pi_prevcap pi + 1 := of_nat (next_capoff pi))
      else store16 ((pi_cfgdata pi)(PCIR_CAP_PTR := of_nat (next_capoff pi))) PCIR_STATUS
             (load16 (pi_cfgdata pi) PCIR_STATUS OR PCIM_STATUS_CAPPRESENT))"

definition with_cap :: "pci_devinst \<Rightarrow> u8 list \<Rightarrow> pci_devinst" where
  "with_cap pi bs =
     pi\<lparr>pi_cfgdata := (put_bytes (link_cap pi) (next_capoff pi) bs)(next_capoff pi + 1 := 0),
        pi_prevcap := next_capoff pi,
        pi_capend := next_capoff pi + roundup2 (length bs) 4 - 1\<rparr>"

lemma cap_absent:
  "load16 (pi_cfgdata pi) PCIR_STATUS AND PCIM_STATUS_CAPPRESENT = 0 \<longleftrightarrow> \<not> cap_present pi"
  by (simp add: cap_present_def)

lemma add_capability_eq:
  assumes "0 < length bs" and "cap_present pi \<Longrightarrow> pi_prevcap pi < 255"
  shows "pci_emul_add_capability pi bs =
    Inr (if next_capoff pi + roundup2 (length bs) 4 > 256 then (-1, pi) else (0, with_cap pi bs))"
proof -
  have len: "length bs \<le> roundup2 (length bs) 4" by (rule roundup2_ge) simp
  then have "0 < roundup2 (length bs) 4" using assms(1) by linarith
  then have "4 \<le> roundup2 (length bs) 4" by (intro dvd_imp_le roundup2_dvd)
  with len show ?thesis
    using assms
    by (auto simp: pci_emul_add_capability_def Let_def cap_absent with_cap_def
        next_capoff_def link_cap_def copy_cap_eq)
qed

lemma cap_list_Nil: "cap_list pi cs \<Longrightarrow> cap_present pi \<longleftrightarrow> cs \<noteq> []"
  by (auto simp: cap_list_def split: if_splits)


lemma add_capability_list:
  assumes wf: "cap_list pi cs" and len: "4 \<le> length bs" and msi: "bs ! 0 = PCIY_MSI \<longrightarrow> 14 \<le> length bs"
    and room: "next_capoff pi + roundup2 (length bs) 4 \<le> 256"
  shows "cap_list (with_cap pi bs) (cs @ [next_capoff pi])" (is "cap_list ?pj (cs @ [?off])")
proof -
  let ?m = "pi_cfgdata pi" and ?n = "pi_cfgdata ?pj"
  have rl: "4 \<le> roundup2 (length bs) 4" "length bs \<le> roundup2 (length bs) 4"
    using len roundup2_ge [of 4 "length bs"] by auto
  have off: "64 \<le> ?off" "4 dvd ?off" "?off < 256"
    using wf room rl cap_chain_bounds [of ?m cs "hd cs"] cap_list_Nil [OF wf] hd_in_set [of cs]
    by (auto simp: next_capoff_def cap_list_def split: if_splits)
  have old: "?n a = link_cap pi a" if "a < ?off" for a
    using that by (simp add: with_cap_def put_bytes_def)
  have new: "?n (?off + 1) = 0" "?n ?off = bs ! 0"
    using len by (auto simp: with_cap_def put_bytes_def)
  have pres: "cap_present ?pj"
  proof (cases "cap_present pi")
    case True
    then have "64 \<le> pi_prevcap pi"
      using wf cap_chain_bounds [of ?m cs "last cs"] cap_list_Nil [OF wf] last_in_set [of cs]
      by (simp add: cap_list_def)
    then have "load16 ?n PCIR_STATUS = load16 ?m PCIR_STATUS"
      using True off old by (intro load16_cong) (simp_all add: link_cap_def)
    then show ?thesis using True by (simp add: cap_present_def)
  next
    case False
    have "load16 ?n PCIR_STATUS = load16 (link_cap pi) PCIR_STATUS"
      using off old by (intro load16_cong) simp_all
    also have "\<dots> = load16 ?m PCIR_STATUS OR PCIM_STATUS_CAPPRESENT"
      using False by (simp add: link_cap_def)
    finally show ?thesis by (simp add: cap_present_def bit.conj_disj_distrib2)
  qed
  have chain: "cap_chain ?n (cs @ [?off]) \<and> hd (cs @ [?off]) = 64 \<and>
    (\<forall>c\<in>set cs. c + 4 \<le> ?off \<and> ?n c = ?m c)"
  proof (cases "cap_present pi")
    case True
    then have cs: "cap_chain ?m cs" "hd cs = 64" "last cs = pi_prevcap pi" "cs \<noteq> []"
        "pi_prevcap pi + 4 \<le> ?off"
      using wf cap_list_Nil [OF wf] by (auto simp: cap_list_def next_capoff_def)
    have b: "64 \<le> c \<and> c + 4 \<le> ?off \<and> 4 dvd c" if "c \<in> set cs" for c
      using that cap_chain_bounds [OF cs(1) that] cs by simp
    have keep: "?n a = ?m a" if "a < ?off" "a \<noteq> pi_prevcap pi + 1" for a
      using that old True by (simp add: link_cap_def)
    have id: "?n c = ?m c" if "c \<in> set cs" for c
    proof -
      have "4 dvd c" "4 dvd pi_prevcap pi" using b that cs(3,4) last_in_set [of cs] by auto
      then have "c \<noteq> pi_prevcap pi + 1" by presburger
      then show ?thesis using keep b [OF that] by simp
    qed
    have nx: "?n (c + 1) = ?m (c + 1)" if "c \<in> set cs" "c \<noteq> last cs" for c
      using b [OF that(1)] that(2) cs(3) by (intro keep) auto
    have "?n (last cs + 1) = of_nat ?off"
      using old [of "last cs + 1"] b [of "last cs"] cs(3-5) True by (simp add: link_cap_def)
    then have "cap_chain ?n (cs @ [?off])"
      using off new nx cs(3,5) room rl by (intro cap_chain_snoc [OF cs(1)]) auto
    then show ?thesis using b id cs by auto
  next
    case False
    then show ?thesis
      using wf cap_list_Nil [OF wf] off new(1) room rl by (auto simp: next_capoff_def)
  qed
  have "cap_room ?n c" if "c \<in> set cs" for c
    using that chain wf cap_list_Nil [OF wf] by (auto simp: cap_list_def cap_room_def)
  moreover have "cap_room ?n ?off" using new msi rl room by (auto simp: cap_room_def)
  moreover have "4 dvd (?off + roundup2 (length bs) 4)" using off(2) by simp
  ultimately show ?thesis
    using pres chain room rl by (auto simp: cap_list_def with_cap_def)
qed


section \<open>Guest writes keep the list\<close>

text \<open>What a write to \<open>lo .. lo + n - 1\<close> leaves alone.\<close>

definition kept :: "nat \<Rightarrow> nat \<Rightarrow> pci_devinst \<Rightarrow> pci_devinst \<Rightarrow> bool" where
  "kept lo n pi pi' \<longleftrightarrow>
     (\<forall>a. a < lo \<or> lo + n \<le> a \<longrightarrow> pi_cfgdata pi' a = pi_cfgdata pi a) \<and>
     pi_prevcap pi' = pi_prevcap pi \<and> pi_capend pi' = pi_capend pi \<and>
     lintr_lock (lintr pi') = lintr_lock (lintr pi) \<and> pi_bar pi' = pi_bar pi"

lemma lintr_update_kept:
  assumes "free_mutex (lintr_lock (lintr pi))"
  shows "\<exists>st pic'. pci_lintr_update pi pic = Inr (set_lintr_state st pi, pic')"
  using pci_lintr_update_eq [OF assms, of pic] set_lintr_state_same [of pi]
  by (cases "lintr_state (lintr pi)") (auto split: if_splits; metis)+

lemma CFGWRITE_kept:
  assumes "cfg_access_ok offset bytes"
  shows "\<exists>pi'. CFGWRITE pi offset val bytes = Inr pi' \<and> kept offset bytes pi pi'"
proof -
  obtain pi' where w: "CFGWRITE pi offset val bytes = Inr pi'"
    using CFGWRITE_ok [OF assms] by (auto simp: returns_def)
  have "pi' = pi\<lparr>pi_cfgdata := pi_cfgdata pi'\<rparr>" by (rule CFGWRITE_only_cfgdata [OF w])
  then have "pi_prevcap pi' = pi_prevcap pi \<and> pi_capend pi' = pi_capend pi \<and>
      lintr pi' = lintr pi \<and> pi_bar pi' = pi_bar pi"
    by (metis pci_devinst.select_convs(6,7,8,12) pci_devinst.surjective pci_devinst.update_convs(11))
  then show ?thesis
    using w CFGWRITE_frame [OF w] assms by (auto simp: kept_def cfg_access_ok_def)
qed

text \<open>The three handlers return and write nothing outside the accessed bytes.\<close>

lemma update_then_write_kept:
  assumes "cfg_access_ok offset bytes" "free_mutex (lintr_lock (lintr pj))" "kept offset bytes pi pj"
  shows "\<exists>pi' pic'. bindE (bindE (pci_lintr_update pj pic) (\<lambda>(pi, pic). Inr (v, pi, pic)))
      (\<lambda>(val, pi, pic). bindE (CFGWRITE pi offset val bytes) (\<lambda>pi. Inr (pi, pic))) = Inr (pi', pic') \<and>
    kept offset bytes pi pi'"
proof -
  obtain st pic' where u: "pci_lintr_update pj pic = Inr (set_lintr_state st pj, pic')"
    using lintr_update_kept [OF assms(2)] by blast
  obtain pi' where "CFGWRITE (set_lintr_state st pj) offset v bytes = Inr pi'"
      "kept offset bytes (set_lintr_state st pj) pi'"
    using CFGWRITE_kept [OF assms(1)] by blast
  then show ?thesis using u assms(3) by (auto simp: kept_def set_lintr_state_def)
qed

lemma msixcap_kept:
  assumes "cfg_access_ok offset bytes" "free_mutex (lintr_lock (lintr pi))"
  shows "\<exists>pi' pic'. msixcap_cfgwrite pi capoff offset bytes val pic = Inr (pi', pic') \<and>
    kept offset bytes pi pi'"
proof (cases "int offset - int capoff = 2 \<and> bytes = 2")
  case True
  define rw :: u16 where "rw = PCIM_MSIXCTRL_MSIX_ENABLE OR PCIM_MSIXCTRL_FUNCTION_MASK"
  define v where "v = (load16 (pi_cfgdata pi) offset AND NOT rw) OR (ucast val AND rw)"
  define pj where "pj = pi\<lparr>msix := (msix pi)\<lparr>
      msix_enabled := v AND PCIM_MSIXCTRL_MSIX_ENABLE \<noteq> 0,
      msix_function_mask := v AND PCIM_MSIXCTRL_FUNCTION_MASK \<noteq> 0\<rparr>\<rparr>"
  have "pci_get_cfgdata16 pi offset = Inr (load16 (pi_cfgdata pi) offset)"
    using True assms(1) by (simp add: cfg_access_ok_def)
  then have "msixcap_cfgwrite pi capoff offset bytes val pic =
      bindE (bindE (pci_lintr_update pj pic) (\<lambda>(pi, pic). Inr (ucast v, pi, pic)))
        (\<lambda>(val, pi, pic). bindE (CFGWRITE pi offset val bytes) (\<lambda>pi. Inr (pi, pic)))"
    unfolding msixcap_cfgwrite_def Let_def pj_def v_def rw_def by (simp only: True if_True simp_thms bindE.simps)
  then show ?thesis
    using update_then_write_kept [OF assms(1), of pj pi pic "ucast v"] assms(2)
    by (simp add: kept_def pj_def)
next
  case False
  then have "msixcap_cfgwrite pi capoff offset bytes val pic =
      bindE (CFGWRITE pi offset val bytes) (\<lambda>pi. Inr (pi, pic))"
    unfolding msixcap_cfgwrite_def by (simp only: False if_False bindE.simps prod.case)
  then show ?thesis using CFGWRITE_kept [OF assms(1), of pi val] by auto
qed

lemma msicap_kept:
  assumes "cfg_access_ok offset bytes" "free_mutex (lintr_lock (lintr pi))"
    and "4 dvd capoff" "capoff + 14 \<le> 256"
  shows "\<exists>pi' pic'. msicap_cfgwrite pi capoff offset bytes val pic = Inr (pi', pic') \<and>
    kept offset bytes pi pi'"
proof (cases "int offset - int capoff = 2 \<and> bytes = 2")
  case True
  define m where "m = pi_cfgdata pi"
  define rw :: u16 where "rw = PCIM_MSICTRL_MME_MASK OR PCIM_MSICTRL_MSI_ENABLE"
  define v where "v = (load16 m offset AND NOT rw) OR (ucast val AND rw)"
  define data where "data = (if v AND PCIM_MSICTRL_64BIT \<noteq> 0 then load16 m (capoff + 12)
      else load16 m (capoff + 8))"
  define pj where "pj = pi\<lparr>msi := (if v AND PCIM_MSICTRL_MSI_ENABLE \<noteq> 0
      then (msi pi)\<lparr>msi_enabled := True, msi_addr := ucast (load32 m (capoff + 4)),
             msi_msg_data := ucast data,
             msi_maxmsgnum := push_bit (unat (drop_bit 4 (v AND PCIM_MSICTRL_MME_MASK))) 1\<rparr>
      else (msi pi)\<lparr>msi_enabled := False, msi_maxmsgnum := 0\<rparr>)\<rparr>"
  have "even capoff" using assms(3) by (auto elim!: dvdE)
  then have get: "pci_get_cfgdata16 pi offset = Inr (load16 m offset)"
    "pci_get_cfgdata32 pi (capoff + 4) = Inr (load32 m (capoff + 4))"
    "(if v AND PCIM_MSICTRL_64BIT \<noteq> 0 then pci_get_cfgdata16 pi (capoff + 12)
      else pci_get_cfgdata16 pi (capoff + 8)) = Inr data"
    using True assms by (simp_all add: cfg_access_ok_def data_def m_def)
  have "msicap_cfgwrite pi capoff offset bytes val pic =
      bindE (bindE (pci_lintr_update pj pic) (\<lambda>(pi, pic). Inr (ucast v, pi, pic)))
        (\<lambda>(val, pi, pic). bindE (CFGWRITE pi offset val bytes) (\<lambda>pi. Inr (pi, pic)))"
    unfolding msicap_cfgwrite_def Let_def
    by (simp only: True if_True simp_thms bindE.simps get(1,2) flip: rw_def v_def)
      (simp only: get(3) bindE.simps pj_def)
  then show ?thesis
    using update_then_write_kept [OF assms(1), of pj pi pic "ucast v"] assms(2)
    by (simp add: kept_def pj_def)
next
  case False
  then have "msicap_cfgwrite pi capoff offset bytes val pic =
      bindE (CFGWRITE pi offset val bytes) (\<lambda>pi. Inr (pi, pic))"
    unfolding msicap_cfgwrite_def by (simp only: False if_False bindE.simps prod.case)
  then show ?thesis using CFGWRITE_kept [OF assms(1), of pi val] by auto
qed

lemma pciecap_kept:
  assumes "cfg_access_ok offset bytes"
  shows "\<exists>pi' pic'. pciecap_cfgwrite pi capoff offset bytes val pic = Inr (pi', pic') \<and>
    kept offset bytes pi pi'"
  using CFGWRITE_kept [OF assms, of pi val] by (auto simp: pciecap_cfgwrite_def)

lemma nat_and_bytes: "bytes \<in> {1, 2, 4} \<Longrightarrow> (offset AND (bytes - 1) \<noteq> 0) \<longleftrightarrow> \<not> bytes dvd (offset :: nat)"
  by (auto simp: nat_and_1 nat_and_3 dvd_eq_mod_eq_0)

text \<open>The list survives a change that spares identifiers and next pointers.\<close>

definition ids_kept :: "nat list \<Rightarrow> pci_devinst \<Rightarrow> pci_devinst \<Rightarrow> bool" where
  "ids_kept cs pi pi' \<longleftrightarrow>
     (\<forall>c\<in>set cs. pi_cfgdata pi' c = pi_cfgdata pi c \<and> pi_cfgdata pi' (c + 1) = pi_cfgdata pi (c + 1))"

lemma cap_list_kept:
  assumes "cap_list pi cs" "kept offset bytes pi pi'" "64 \<le> offset" "ids_kept cs pi pi'"
  shows "cap_list pi' cs"
proof -
  have "load16 (pi_cfgdata pi') PCIR_STATUS = load16 (pi_cfgdata pi) PCIR_STATUS"
    using assms(2,3) by (intro load16_cong) (simp_all add: kept_def)
  then have p: "cap_present pi' = cap_present pi" by (simp add: cap_present_def)
  have "cap_chain (pi_cfgdata pi') cs" if "cap_chain (pi_cfgdata pi) cs"
    using that assms(4) by (intro cap_chain_cong [OF that]) (simp add: ids_kept_def)
  moreover have "cap_room (pi_cfgdata pi') c = cap_room (pi_cfgdata pi) c" if "c \<in> set cs" for c
    using that assms(4) by (simp add: cap_room_def ids_kept_def)
  ultimately show ?thesis
    using assms(1,2) p by (simp add: cap_list_def kept_def split: if_splits)
qed

lemma ids_kept_outside:
  assumes "kept lo n pi pi'" "\<And>a c. c \<in> set cs \<Longrightarrow> a = c \<or> a = c + 1 \<Longrightarrow> a < lo \<or> lo + n \<le> a"
  shows "ids_kept cs pi pi'"
proof -
  have "pi_cfgdata pi' a = pi_cfgdata pi a" if "c \<in> set cs" "a = c \<or> a = c + 1" for a c
    using assms(1) assms(2) [OF that] by (auto simp: kept_def)
  then show ?thesis by (simp add: ids_kept_def)
qed

text \<open>An aligned access that touches the head of a capability starts behind it.\<close>

lemma touches_head:
  fixes offset :: nat
  assumes "bytes \<in> {1, 2, 4}" "bytes dvd offset" "4 dvd c"
    and "offset \<le> a" "a < offset + bytes" "a = c \<or> a = c + 1"
  shows "c \<le> offset \<and> offset < c + 4"
proof -
  have "a < offset + 4" "bytes = 4 \<longrightarrow> 4 dvd offset" "bytes = 2 \<longrightarrow> 2 dvd offset" "bytes = 1 \<longrightarrow> a = offset"
    "bytes = 2 \<longrightarrow> a < offset + 2"
    using assms(1,2,4,5) by auto
  moreover have "bytes = 1 \<or> bytes = 2 \<or> bytes = 4" using assms(1) by auto
  ultimately show ?thesis using assms(3,4,6) by presburger
qed

lemma dvd_le_window:
  "4 dvd c \<Longrightarrow> 4 dvd d \<Longrightarrow> c \<le> d \<Longrightarrow> d \<le> a \<Longrightarrow> a < c + 4 \<Longrightarrow> c = (d :: nat)"
  by presburger

lemma cap_dispatch_kept:
  assumes "cfg_access_ok offset bytes" "free_mutex (lintr_lock (lintr pi))"
    and "4 dvd c" "c < 256" "cap_room (pi_cfgdata pi) c"
  shows "\<exists>pi' pic'. bindE (pci_get_cfgdata8 pi c) (\<lambda>capid.
           if capid = PCIY_MSI then msicap_cfgwrite pi c offset bytes val pic
           else if capid = PCIY_MSIX then msixcap_cfgwrite pi c offset bytes val pic
           else if capid = PCIY_EXPRESS then pciecap_cfgwrite pi c offset bytes val pic
           else Inr (pi, pic)) = Inr (pi', pic') \<and> kept offset bytes pi pi'"
proof -
  have "pci_get_cfgdata8 pi c = Inr (pi_cfgdata pi c)" using assms(4) by simp
  moreover have "kept offset bytes pi pi" by (simp add: kept_def)
  ultimately show ?thesis
    using msicap_kept [OF assms(1-3), of val pic] msixcap_kept [OF assms(1,2), of c val pic]
      pciecap_kept [OF assms(1), of pi c val pic] assms(5)
    by (simp add: cap_room_def)
qed

lemma capwrite_keeps:
  assumes wf: "cap_list pi cs" "cap_present pi" and free: "free_mutex (lintr_lock (lintr pi))"
    and off: "64 \<le> offset" "offset \<le> pi_capend pi" and b: "bytes \<in> {1, 2, 4}"
  shows "\<exists>pi' pic'. pci_emul_capwrite pi offset bytes val pic = Inr (pi', pic') \<and>
    kept offset bytes pi pi' \<and> ids_kept cs pi pi'"
proof (cases "bytes dvd offset")
  case False
  then show ?thesis
    using nat_and_bytes [OF b, of offset] by (simp add: pci_emul_capwrite_def kept_def ids_kept_def)
next
  case al: True
  have chain: "cap_chain (pi_cfgdata pi) cs" and room: "\<And>c. c \<in> set cs \<Longrightarrow> cap_room (pi_cfgdata pi) c"
    and hd: "hd cs = 64" and top: "pi_capend pi < 256" "4 dvd (pi_capend pi + 1)"
    using wf by (simp_all add: cap_list_def)
  obtain cs' where cs: "cs = 64 # cs'" using hd chain by (cases cs) auto
  obtain d where d: "d \<in> set cs" "find_cap pi offset 64 = Some (Inr d)" "d \<le> offset"
      "\<forall>e\<in>set cs. e \<le> offset \<longrightarrow> e \<le> d"
    using find_cap_chain [of pi 64 cs' offset] chain off(1) cs by metis
  have dv: "4 dvd c \<and> c + 4 \<le> 256" if "c \<in> set cs" for c using cap_chain_bounds [OF chain that] by simp
  define disp where "disp = (\<lambda>bytes offset val. bindE (pci_get_cfgdata8 pi d) (\<lambda>capid.
           if capid = PCIY_MSI then msicap_cfgwrite pi d offset bytes val pic
           else if capid = PCIY_MSIX then msixcap_cfgwrite pi d offset bytes val pic
           else if capid = PCIY_EXPRESS then pciecap_cfgwrite pi d offset bytes val pic
           else Inr (pi, pic)))"
  have eq: "pci_emul_capwrite pi offset bytes val pic =
      (if offset = d \<and> bytes = 4 then disp 2 (offset + 2) (drop_bit 16 val)
       else if offset = d \<or> offset = d + 1 then Inr (pi, pic)
       else disp bytes offset val)"
    using nat_and_bytes [OF b, of offset] al d(2,3)
    by (simp add: pci_emul_capwrite_def disp_def Let_def)
  have acc: "cfg_access_ok offset bytes"
    using b al off(2) top unfolding cfg_access_ok_def by simp presburger
  have run: "\<exists>pi' pic'. disp n lo v = Inr (pi', pic') \<and> kept lo n pi pi'" if "cfg_access_ok lo n" for n lo v
    unfolding disp_def using that free room [OF d(1)] dv [OF d(1)]
    by (intro cap_dispatch_kept) auto
  have none: "kept offset bytes pi pi" "ids_kept cs pi pi" by (simp_all add: kept_def ids_kept_def)
  show ?thesis
  proof (cases "offset = d \<or> offset = d + 1")
    case False
    obtain pi' pic' where r: "disp bytes offset val = Inr (pi', pic')" "kept offset bytes pi pi'"
      using run [OF acc] by blast
    have "a < offset \<or> offset + bytes \<le> a" if "c \<in> set cs" "a = c \<or> a = c + 1" for a c
    proof (rule ccontr)
      assume "\<not> (a < offset \<or> offset + bytes \<le> a)"
      then have c: "c \<le> offset" "offset < c + 4"
        using touches_head [OF b al, of c a] dv [OF that(1)] that(2) by auto
      then have "c = d" using d dv [OF d(1)] dv [OF that(1)] that(1) by (metis dvd_le_window)
      then show False
        using False \<open>\<not> (a < offset \<or> offset + bytes \<le> a)\<close> that(2) d(3) by auto
    qed
    then have "ids_kept cs pi pi'" by (rule ids_kept_outside [OF r(2)])
    then show ?thesis using eq False r by auto
  next
    case True
    show ?thesis
    proof (cases "offset = d \<and> bytes = 4")
      case True
      have "cfg_access_ok (offset + 2) 2"
        using True dv [OF d(1)] by (auto simp: cfg_access_ok_def elim!: dvdE)
      then obtain pi' pic' where r: "disp 2 (offset + 2) (drop_bit 16 val) = Inr (pi', pic')"
          "kept (offset + 2) 2 pi pi'"
        using run by blast
      have "a < offset + 2 \<or> offset + 2 + 2 \<le> a" if "c \<in> set cs" "a = c \<or> a = c + 1" for a c
        using dv [OF that(1)] dv [OF d(1)] that(2) True by presburger
      then have "ids_kept cs pi pi'" by (rule ids_kept_outside [OF r(2)])
      moreover have "kept offset bytes pi pi'" using r(2) True by (auto simp: kept_def)
      ultimately show ?thesis using eq True r by auto
    next
      case False
      then show ?thesis using eq True none by auto
    qed
  qed
qed

section \<open>The MSI-X table behind its BAR\<close>

lemma tab_index_eq:
  assumes "offset < 2 ^ 35"
  shows "tab_index offset = int (unat offset div 16)"
proof -
  have "unat offset < 34359738368" using assms by (simp add: word_less_nat_alt)
  then have "unat (offset div 16) < 2147483648" by (simp add: unat_div)
  then have "sint (ucast (offset div 16) :: u32) = int (unat (offset div 16))"
    by (rule sint_ucast_small)
  then show ?thesis by (simp add: tab_index_def unat_div)
qed

lemma table_cell_eq:
  assumes "offset < 2 ^ 35"
  shows "table_cell pi offset =
    (case msix_table (msix pi) of None \<Rightarrow> Inl Null_deref | Some t \<Rightarrow> Inr (t, unat offset))"
proof -
  have "unat offset div 16 * 16 + unat (offset mod 16) = unat offset"
    by (simp add: unat_mod)
  moreover have "nat (tab_index offset) = unat offset div 16"
    unfolding tab_index_eq [OF assms] by (rule nat_int)
  ultimately show ?thesis
    using tab_index_eq [OF assms] by (simp add: table_cell_def split: option.split)
qed

definition msix_access_ok :: "pci_devinst \<Rightarrow> u64 \<Rightarrow> nat \<Rightarrow> bool" where
  "msix_access_ok pi offset sz \<longleftrightarrow>
     unat offset div 16 < msix_table_count (msix pi) \<and> unat offset mod 16 mod sz = 0"

lemma msix_twrite_eq:
  assumes "offset < 2 ^ 35" "msix_table (msix pi) = Some t"
  shows "pci_emul_msix_twrite pi offset sz v =
    Inr (if (sz = 4 \<or> sz = 8) \<and> msix_access_ok pi offset sz
         then (0, pi\<lparr>msix := (msix pi)\<lparr>msix_table :=
           Some (if sz = 4 then store32 t (unat offset) (ucast v) else store64 t (unat offset) v)\<rparr>\<rparr>)
         else (-1, pi))"
  unfolding pci_emul_msix_twrite_def table_cell_eq [OF assms(1)] tab_index_eq [OF assms(1)]
  by (auto simp: assms(2) msix_access_ok_def unat_mod)

lemma msix_tread_eq:
  assumes "offset < 2 ^ 35" "msix_table (msix pi) = Some t"
  shows "pci_emul_msix_tread pi offset sz =
    Inr (if (sz = 1 \<or> sz = 4 \<or> sz = 8) \<and> unat offset mod 16 mod sz = 0
         then (if unat offset div 16 < msix_table_count (msix pi)
               then (if sz = 1 then ucast (t (unat offset))
                     else if sz = 4 then ucast (load32 t (unat offset)) else load64 t (unat offset))
               else if pci_valid_pba_offset pi offset then 0 else - 1)
         else - 1)"
  unfolding pci_emul_msix_tread_def table_cell_eq [OF assms(1)] tab_index_eq [OF assms(1)]
  by (auto simp: assms(2) unat_mod)

section \<open>Properties\<close>

text \<open>Adding a capability to a well-formed list appends it: it is copied
  behind the last one (apart from the next pointer, which ends the list), the
  previous capability and nothing else of the list is changed to point to it,
  and the list stays well-formed. When the 256 bytes have no room for it the
  call is refused and the device is unchanged.\<close>

theorem add_capability_extends:
  assumes "cap_list pi cs" "4 \<le> length bs" "bs ! 0 = PCIY_MSI \<longrightarrow> 14 \<le> length bs"
  shows "\<exists>r pi'. pci_emul_add_capability pi bs = Inr (r, pi') \<and>
    (if next_capoff pi + roundup2 (length bs) 4 > 256 then r = -1 \<and> pi' = pi
     else r = 0 \<and> cap_list pi' (cs @ [next_capoff pi]) \<and>
       (\<forall>i<length bs. pi_cfgdata pi' (next_capoff pi + i) = (if i = 1 then 0 else bs ! i)) \<and>
       (\<forall>a. 64 \<le> a \<and> a < next_capoff pi \<and> a \<noteq> pi_prevcap pi + 1 \<longrightarrow>
          pi_cfgdata pi' a = pi_cfgdata pi a))"
proof -
  have "pi_prevcap pi < 255" if "cap_present pi" using assms(1) that by (auto simp: cap_list_def)
  moreover have "0 < length bs" using assms(2) by linarith
  ultimately have eq: "pci_emul_add_capability pi bs =
    Inr (if next_capoff pi + roundup2 (length bs) 4 > 256 then (-1, pi) else (0, with_cap pi bs))"
    using add_capability_eq by blast
  have "pi_cfgdata (with_cap pi bs) (next_capoff pi + i) = (if i = 1 then 0 else bs ! i)"
    if "i < length bs" for i using that by (simp add: with_cap_def put_bytes_def)
  moreover have "pi_cfgdata (with_cap pi bs) a = pi_cfgdata pi a"
    if "64 \<le> a \<and> a < next_capoff pi \<and> a \<noteq> pi_prevcap pi + 1" for a
    using that by (auto simp: with_cap_def put_bytes_def link_cap_def store16_other)
  ultimately show ?thesis
    using eq add_capability_list [OF assms] by auto
qed

lemma wit_cap_list: "cap_list wit_devinst []" "\<not> cap_present wit_devinst"
  by (simp_all add: cap_list_def cap_present_def wit_devinst_def load16_def word_cat_0_left)

lemma roundup2_14: "roundup2 14 4 = 16" by (simp add: roundup2_def)

theorem add_capability_extends_witness:
  "\<exists>r pi'. pci_emul_add_capability wit_devinst (PCIY_MSI # replicate 13 0) = Inr (r, pi') \<and>
     r = 0 \<and> cap_list pi' [64] \<and> pi_cfgdata pi' 64 = PCIY_MSI"
proof -
  have "next_capoff wit_devinst = 64" using wit_cap_list by (simp add: next_capoff_def)
  then show ?thesis
    using add_capability_extends [OF wit_cap_list(1), of "PCIY_MSI # replicate 13 0"]
    by (auto simp: roundup2_14 dest: spec [of _ 0])
qed

text \<open>C18: A guest write of 1, 2 or 4 bytes anywhere in the capability area of
  a well-formed list returns (the search for the capability ends, and no
  assertion fails), changes no byte outside the written ones, and changes
  neither the identifier nor the next pointer of any capability, so that the
  list stays well-formed for every later access.\<close>

theorem capwrite_safe:
  assumes "cap_list pi cs" "cap_present pi" "free_mutex (lintr_lock (lintr pi))"
    and "64 \<le> offset" "offset \<le> pi_capend pi" "bytes \<in> {1, 2, 4}"
  shows "\<exists>pi' pic'. pci_emul_capwrite pi offset bytes val pic = Inr (pi', pic') \<and>
    cap_list pi' cs \<and>
    (\<forall>c\<in>set cs. pi_cfgdata pi' c = pi_cfgdata pi c \<and>
       pi_cfgdata pi' (c + 1) = pi_cfgdata pi (c + 1)) \<and>
    (\<forall>a. a < offset \<or> offset + bytes \<le> a \<longrightarrow> pi_cfgdata pi' a = pi_cfgdata pi a)"
proof -
  obtain pi' pic' where r: "pci_emul_capwrite pi offset bytes val pic = Inr (pi', pic')"
      "kept offset bytes pi pi'" "ids_kept cs pi pi'"
    using capwrite_keeps [OF assms] by blast
  then have "cap_list pi' cs" using cap_list_kept assms(1,4) by blast
  then show ?thesis using r by (auto simp: kept_def ids_kept_def)
qed

definition wit_msi :: pci_devinst where
  "wit_msi = with_cap wit_devinst (PCIY_MSI # replicate 13 0)"

lemma wit_msi_list: "cap_list wit_msi [64]" "cap_present wit_msi" "pi_capend wit_msi = 79"
  "free_mutex (lintr_lock (lintr wit_msi))"
proof -
  have off: "next_capoff wit_devinst = 64" using wit_cap_list by (simp add: next_capoff_def)
  show "cap_list wit_msi [64]"
    using add_capability_list [OF wit_cap_list(1), of "PCIY_MSI # replicate 13 0"] off
    by (simp add: roundup2_14 wit_msi_def)
  then show "cap_present wit_msi" using cap_list_Nil by blast
  show "pi_capend wit_msi = 79" "free_mutex (lintr_lock (lintr wit_msi))"
    using off by (simp_all add: wit_msi_def with_cap_def roundup2_14 free_mutex_def wit_devinst_def)
qed

theorem capwrite_safe_witness:
  "\<exists>pi' pic'. pci_emul_capwrite wit_msi 64 4 0x00010000 [] = Inr (pi', pic') \<and> cap_list pi' [64] \<and>
     pi_cfgdata pi' 64 = pi_cfgdata wit_msi 64"
  using capwrite_safe [OF wit_msi_list(1,2,4), where offset = 64 and bytes = 4 and val = "0x00010000"
      and pic = "[]"] wit_msi_list(3) by auto

text \<open>A write to the MSI-X table that is accepted is read back with the
  same width, and every read that does not overlap it is unchanged; writes of
  another width, unaligned or beyond the table are refused.\<close>

theorem msix_table_roundtrip:
  assumes "pci_emul_msix_twrite pi off sz v = Inr (r, pi')" "off < 2 ^ 35" "msix_table (msix pi) \<noteq> None"
  shows "if (sz = 4 \<or> sz = 8) \<and> unat off div 16 < msix_table_count (msix pi) \<and> unat off mod 16 mod sz = 0
    then r = 0 \<and> pci_emul_msix_tread pi' off sz = Inr (v AND mask (8 * sz)) \<and>
      (\<forall>off2 n. off2 < 2 ^ 35 \<and> (unat off2 + n \<le> unat off \<or> unat off + sz \<le> unat off2) \<longrightarrow>
         pci_emul_msix_tread pi' off2 n = pci_emul_msix_tread pi off2 n)
    else r = -1 \<and> pi' = pi"
proof -
  obtain t where t: "msix_table (msix pi) = Some t" using assms(3) by blast
  define t' where "t' = (if sz = 4 then store32 t (unat off) (ucast v) else store64 t (unat off) v)"
  define pj where "pj = pi\<lparr>msix := (msix pi)\<lparr>msix_table := Some t'\<rparr>\<rparr>"
  have w: "(r, pi') = (if (sz = 4 \<or> sz = 8) \<and> msix_access_ok pi off sz then (0, pj) else (-1, pi))"
    using assms(1) unfolding msix_twrite_eq [OF assms(2) t] t'_def pj_def by simp
  have tj: "msix_table (msix pj) = Some t'" by (simp add: pj_def)
  have same: "pci_emul_msix_tread pj off2 n = pci_emul_msix_tread pi off2 n"
    if "sz = 4 \<or> sz = 8" "off2 < 2 ^ 35" "unat off2 + n \<le> unat off \<or> unat off + sz \<le> unat off2" for off2 n
  proof -
    have "t' (unat off2 + i) = t (unat off2 + i)" if "i < n" for i
      using that \<open>sz = 4 \<or> sz = 8\<close> \<open>unat off2 + n \<le> unat off \<or> unat off + sz \<le> unat off2\<close>
      by (auto simp: t'_def store32_other store64_other)
    then have "n = 1 \<longrightarrow> t' (unat off2) = t (unat off2)" "n = 4 \<longrightarrow> load32 t' (unat off2) = load32 t (unat off2)"
      "n = 8 \<longrightarrow> load64 t' (unat off2) = load64 t (unat off2)"
      using load32_cong [of t' "unat off2" t] load64_cong [of t' "unat off2" t] by fastforce+
    then show ?thesis
      unfolding msix_tread_eq [OF that(2) tj] msix_tread_eq [OF that(2) t]
      by (auto simp: pj_def pci_valid_pba_offset_def)
  qed
  have read: "pci_emul_msix_tread pj off sz = Inr (v AND mask (8 * sz))"
    if "sz = 4 \<or> sz = 8" "msix_access_ok pi off sz"
  proof -
    have "(mask 64 :: u64) = -1" using mask_full [where 'a = 64] by simp
    moreover have "ucast (ucast v :: u32) = v AND mask 32" by (rule bit_word_eqI) (auto simp: bit_simps)
    ultimately show ?thesis
      using that unfolding msix_tread_eq [OF assms(2) tj]
      by (auto simp: pj_def t'_def msix_access_ok_def)
  qed
  show ?thesis using w same read by (auto simp: msix_access_ok_def split: if_splits)
qed

definition wit_msix :: pci_devinst where
  "wit_msix = wit_devinst\<lparr>msix := (msix wit_devinst)\<lparr>msix_table_count := 2, msix_table := Some (\<lambda>_. 0)\<rparr>\<rparr>"

theorem msix_table_roundtrip_witness:
  "\<exists>pi'. pci_emul_msix_twrite wit_msix 20 4 0xFEE01234 = Inr (0, pi') \<and>
     pci_emul_msix_tread pi' 20 4 = Inr 0xFEE01234"
proof -
  have t: "msix_table (msix wit_msix) = Some (\<lambda>_. 0)" by (simp add: wit_msix_def)
  have "\<exists>pi'. pci_emul_msix_twrite wit_msix 20 4 0xFEE01234 = Inr (0, pi')"
    using msix_twrite_eq [of 20 wit_msix "\<lambda>_. 0" 4 "0xFEE01234"] t
    by (simp add: msix_access_ok_def wit_msix_def)
  then show ?thesis
    using msix_table_roundtrip [where pi = wit_msix and off = 20 and sz = 4 and v = "0xFEE01234"] t
    by (auto simp: wit_msix_def mask_eq_exp_minus_1)
qed

end
