(* ===== verification/E1000_Intr.thy ===== *)
theory E1000_Intr
  imports Pci_Intr
begin

text \<open>
  \<open>bhyve/pci_e82545.c\<close>: the interrupt causes, mask and throttling timer of the
  emulated network card, and their effect on the card's interrupt pin. The
  timer is a callout of the kernel; the intervals it is set to are recorded in
  order, and it runs exactly while \<open>esc_mevpitr\<close> is not \<open>NULL\<close>.
\<close>

abbreviation (input) E1000_ICR :: u32 where "E1000_ICR \<equiv> 0x000c0"
abbreviation (input) E1000_ITR :: u32 where "E1000_ITR \<equiv> 0x000c4"
abbreviation (input) E1000_ICS :: u32 where "E1000_ICS \<equiv> 0x000c8"
abbreviation (input) E1000_IMS :: u32 where "E1000_IMS \<equiv> 0x000d0"
abbreviation (input) E1000_IMC :: u32 where "E1000_IMC \<equiv> 0x000d8"

section \<open>State and operations\<close>

text \<open>
  The fields of \<open>struct e82545_softc\<close> that belong to interrupts, with the lock
  of the structure and the calls made to the interrupt controller.
\<close>

record e1000_intr =
  esc_pi :: pci_devinst
  esc_pic :: pic_log
  esc_mtx :: pthread_mutex
  esc_mevpitr :: bool
  mevpitr_callout :: "u32 list"
  esc_irq_asserted :: bool
  esc_ICR :: u32
  esc_ITR :: u32
  esc_ICS :: u32
  esc_IMS :: u32
  esc_IMC :: u32

definition esc_lock :: "e1000_intr \<Rightarrow> e1000_intr res" where
  "esc_lock sc = bindE (pthread_mutex_lock (esc_mtx sc)) (\<lambda>m. Inr (sc\<lparr>esc_mtx := m\<rparr>))"

definition esc_unlock :: "e1000_intr \<Rightarrow> e1000_intr res" where
  "esc_unlock sc = bindE (pthread_mutex_unlock (esc_mtx sc)) (\<lambda>m. Inr (sc\<lparr>esc_mtx := m\<rparr>))"

definition pin_up :: "e1000_intr \<Rightarrow> e1000_intr res" where
  "pin_up sc = bindE (pci_lintr_assert (esc_pi sc) (esc_pic sc)) (\<lambda>(pi, pic).
     Inr (sc\<lparr>esc_pi := pi, esc_pic := pic\<rparr>))"

definition pin_down :: "e1000_intr \<Rightarrow> e1000_intr res" where
  "pin_down sc = bindE (pci_lintr_deassert (esc_pi sc) (esc_pic sc)) (\<lambda>(pi, pic).
     Inr (sc\<lparr>esc_pi := pi, esc_pic := pic\<rparr>))"

text \<open>The timer's interval; the product is taken in 32 bits.\<close>

definition itr_ticks :: "u32 \<Rightarrow> u32" where
  "itr_ticks itr = ((itr + 3905) div 3906) * 500000"

definition set_callout :: "e1000_intr \<Rightarrow> e1000_intr" where
  "set_callout sc = sc\<lparr>mevpitr_callout := mevpitr_callout sc @ [itr_ticks (esc_ITR sc)]\<rparr>"

definition e82545_itr_callback :: "e1000_intr \<Rightarrow> e1000_intr res" where
  "e82545_itr_callback sc =
     bindE (esc_lock sc) (\<lambda>sc.
     let new = esc_ICR sc AND esc_IMS sc in
     bindE (if new \<noteq> 0 \<and> \<not> esc_irq_asserted sc then
              bindE (pin_up (sc\<lparr>esc_irq_asserted := True\<rparr>)) (\<lambda>sc. Inr (set_callout sc))
            else Inr (sc\<lparr>esc_mevpitr := False\<rparr>)) esc_unlock)"

text \<open>Raising the line and starting the timer, which two functions share.\<close>

definition intr_fire :: "e1000_intr \<Rightarrow> e1000_intr res" where
  "intr_fire sc =
     bindE (pin_up (sc\<lparr>esc_irq_asserted := True\<rparr>)) (\<lambda>sc.
     Inr (if esc_ITR sc \<noteq> 0 then set_callout (sc\<lparr>esc_mevpitr := True\<rparr>) else sc))"

definition e82545_icr_assert :: "u32 \<Rightarrow> e1000_intr \<Rightarrow> e1000_intr res" where
  "e82545_icr_assert bits sc =
     (let new = bits AND NOT (esc_ICR sc) AND esc_IMS sc;
          sc = sc\<lparr>esc_ICR := esc_ICR sc OR bits\<rparr>
      in if new = 0 then Inr sc
         else if esc_mevpitr sc then Inr sc
         else if \<not> esc_irq_asserted sc then intr_fire sc
         else Inr sc)"

definition e82545_ims_change :: "u32 \<Rightarrow> e1000_intr \<Rightarrow> e1000_intr res" where
  "e82545_ims_change bits sc =
     (let new = bits AND esc_ICR sc AND NOT (esc_IMS sc);
          sc = sc\<lparr>esc_IMS := esc_IMS sc OR bits\<rparr>
      in if new = 0 then Inr sc
         else if esc_mevpitr sc then Inr sc
         else if \<not> esc_irq_asserted sc then intr_fire sc
         else Inr sc)"

definition e82545_icr_deassert :: "u32 \<Rightarrow> e1000_intr \<Rightarrow> e1000_intr res" where
  "e82545_icr_deassert bits sc =
     (let sc = sc\<lparr>esc_ICR := esc_ICR sc AND NOT bits\<rparr>
      in if esc_irq_asserted sc \<and> esc_ICR sc AND esc_IMS sc = 0 then
           bindE (pin_down sc) (\<lambda>sc. Inr (sc\<lparr>esc_irq_asserted := False\<rparr>))
         else Inr sc)"

definition e82545_intr_write :: "u32 \<Rightarrow> u32 \<Rightarrow> e1000_intr \<Rightarrow> e1000_intr res" where
  "e82545_intr_write offset value sc =
     (if offset = E1000_ICR then e82545_icr_deassert value sc
      else if offset = E1000_ITR then Inr (sc\<lparr>esc_ITR := value\<rparr>)
      else if offset = E1000_ICS then e82545_icr_assert value (sc\<lparr>esc_ICS := value\<rparr>)
      else if offset = E1000_IMS then e82545_ims_change value sc
      else if offset = E1000_IMC then Inr (sc\<lparr>esc_IMC := value, esc_IMS := esc_IMS sc AND NOT value\<rparr>)
      else Inr sc)"

definition e82545_intr_read :: "u32 \<Rightarrow> e1000_intr \<Rightarrow> (u32 \<times> e1000_intr) res" where
  "e82545_intr_read offset sc =
     (if offset = E1000_ICR then
        bindE (e82545_icr_deassert (NOT 0) (sc\<lparr>esc_ICR := 0\<rparr>)) (\<lambda>sc'. Inr (esc_ICR sc, sc'))
      else if offset = E1000_ITR then Inr (esc_ITR sc, sc)
      else if offset = E1000_IMS then Inr (esc_IMS sc, sc)
      else Inr (0, sc))"

text \<open>
  What \<open>e82545_reset\<close> does to this part: the pin is lowered and the registers get their initial values; the flag
  \<open>esc_irq_asserted\<close> and the timer are left as they are.
\<close>

definition reset_intr :: "e1000_intr \<Rightarrow> e1000_intr" where
  "reset_intr i = i\<lparr>esc_ICR := 0, esc_ITR := 250, esc_ICS := 0, esc_IMS := 0, esc_IMC := 0\<rparr>"

definition intr_reset :: "e1000_intr \<Rightarrow> e1000_intr res" where
  "intr_reset sc = bindE (if esc_irq_asserted sc then pin_down sc else Inr sc) (\<lambda>sc. Inr (reset_intr sc))"

section \<open>The invariant\<close>

text \<open>
  A pending unmasked cause has set the flag \<open>esc_irq_asserted\<close> or waits for the throttling
  timer; the flag says what the card last did to its pin, unless the card was reset with the flag set: then it is stale.
\<close>

definition intr_live :: "e1000_intr \<Rightarrow> bool" where
  "intr_live sc \<longleftrightarrow> (esc_ICR sc AND esc_IMS sc \<noteq> 0 \<longrightarrow> esc_irq_asserted sc \<or> esc_mevpitr sc)"

definition intr_stale :: "e1000_intr \<Rightarrow> bool" where
  "intr_stale sc \<longleftrightarrow> esc_irq_asserted sc \<and> \<not> lintr_wanted (esc_pi sc)"

definition intr_sound :: "e1000_intr \<Rightarrow> bool" where
  "intr_sound sc \<longleftrightarrow> intr_live sc \<and> lintr_inv (esc_pi sc, esc_pic sc) \<and> (lintr_wanted (esc_pi sc) \<longrightarrow> esc_irq_asserted sc)"

definition pin_inv :: "e1000_intr \<Rightarrow> bool" where
  "pin_inv sc \<longleftrightarrow> lintr_inv (esc_pi sc, esc_pic sc) \<and> (esc_irq_asserted sc \<longleftrightarrow> lintr_wanted (esc_pi sc))"

definition intr_inv :: "e1000_intr \<Rightarrow> bool" where
  "intr_inv sc \<longleftrightarrow> intr_live sc \<and> pin_inv sc"

lemma intr_inv_sound: "intr_inv sc \<longleftrightarrow> intr_sound sc \<and> \<not> intr_stale sc"
  by (auto simp: intr_inv_def intr_sound_def intr_stale_def pin_inv_def)

lemma pin_inv_ready: "pin_inv sc \<Longrightarrow> lintr_ready (esc_pi sc)"
  by (simp add: pin_inv_def lintr_inv_def)

text \<open>What an operation on the pin does to the card, by the contract of the pin.\<close>

lemma pin_up_ok:
  assumes "lintr_inv (esc_pi sc, esc_pic sc)"
  shows "\<exists>pi pic. pin_up sc = Inr (sc\<lparr>esc_pi := pi, esc_pic := pic\<rparr>) \<and> lintr_inv (pi, pic) \<and>
    lintr_wanted pi \<and> lintr_rest pi = lintr_rest (esc_pi sc)"
proof -
  have "lintr_ready (esc_pi sc)" using assms by (simp add: lintr_inv_def)
  from pin.up_ok [OF this, of "esc_pic sc"] obtain pi pic where
    p: "pci_lintr_assert (esc_pi sc) (esc_pic sc) = Inr (pi, pic)" "lintr_wanted pi"
      "lintr_rest pi = lintr_rest (esc_pi sc)" by blast
  moreover have "lintr_inv (pi, pic)" using lintr_step_inv [OF lintr_raise [OF p(1)] assms] .
  ultimately show ?thesis by (auto simp: pin_up_def)
qed

lemma pin_down_ok:
  assumes "lintr_inv (esc_pi sc, esc_pic sc)"
  shows "\<exists>pi pic. pin_down sc = Inr (sc\<lparr>esc_pi := pi, esc_pic := pic\<rparr>) \<and> lintr_inv (pi, pic) \<and>
    \<not> lintr_wanted pi \<and> lintr_rest pi = lintr_rest (esc_pi sc)"
proof -
  have "lintr_ready (esc_pi sc)" using assms by (simp add: lintr_inv_def)
  from pin.down_ok [OF this, of "esc_pic sc"] obtain pi pic where
    p: "pci_lintr_deassert (esc_pi sc) (esc_pic sc) = Inr (pi, pic)" "\<not> lintr_wanted pi"
      "lintr_rest pi = lintr_rest (esc_pi sc)" by blast
  moreover have "lintr_inv (pi, pic)" using lintr_step_inv [OF lintr_lower [OF p(1)] assms] .
  ultimately show ?thesis by (auto simp: pin_down_def)
qed

text \<open>
  \<open>intr_goes sc sc'\<close>: \<open>sc'\<close> is sound again and not newly stale, has the same lock and the same device
  configuration. From a state that is not stale it keeps the whole invariant (\<open>intr_kept\<close>).
\<close>

definition intr_goes :: "e1000_intr \<Rightarrow> e1000_intr \<Rightarrow> bool" where
  "intr_goes sc sc' \<longleftrightarrow> intr_sound sc' \<and> (intr_stale sc' \<longrightarrow> intr_stale sc) \<and> esc_mtx sc' = esc_mtx sc \<and>
     lintr_rest (esc_pi sc') = lintr_rest (esc_pi sc)"

definition intr_kept :: "e1000_intr \<Rightarrow> e1000_intr \<Rightarrow> bool" where
  "intr_kept sc sc' \<longleftrightarrow> intr_inv sc' \<and> esc_mtx sc' = esc_mtx sc \<and>
     lintr_rest (esc_pi sc') = lintr_rest (esc_pi sc)"

lemma goes_kept: "intr_goes sc sc' \<Longrightarrow> intr_inv sc \<Longrightarrow> intr_kept sc sc'"
  by (simp add: intr_goes_def intr_kept_def intr_inv_sound)

lemmas intr_defs = intr_goes_def intr_sound_def intr_stale_def intr_live_def

lemma intr_fire_goes:
  assumes "lintr_inv (esc_pi sc, esc_pic sc)"
  shows "\<exists>sc'. intr_fire sc = Inr sc' \<and> intr_goes sc sc' \<and> esc_irq_asserted sc' \<and> lintr_wanted (esc_pi sc') \<and>
    esc_ICR sc' = esc_ICR sc \<and> esc_IMS sc' = esc_IMS sc"
proof -
  define s where "s = sc\<lparr>esc_irq_asserted := True\<rparr>"
  have "lintr_inv (esc_pi s, esc_pic s)" using assms by (simp add: s_def)
  from pin_up_ok [OF this] obtain pi pic where "pin_up s = Inr (s\<lparr>esc_pi := pi, esc_pic := pic\<rparr>)"
    "lintr_inv (pi, pic)" "lintr_wanted pi" "lintr_rest pi = lintr_rest (esc_pi s)" by blast
  then show ?thesis
    unfolding s_def by (auto simp: intr_fire_def set_callout_def intr_defs)
qed

lemma intr_fire_ok:
  assumes "lintr_inv (esc_pi sc, esc_pic sc)"
  shows "\<exists>sc'. intr_fire sc = Inr sc' \<and> intr_kept sc sc' \<and> esc_irq_asserted sc' \<and>
    esc_ICR sc' = esc_ICR sc \<and> esc_IMS sc' = esc_IMS sc"
proof -
  obtain sc' where "intr_fire sc = Inr sc'" "intr_goes sc sc'" "esc_irq_asserted sc'" "lintr_wanted (esc_pi sc')"
    "esc_ICR sc' = esc_ICR sc" "esc_IMS sc' = esc_IMS sc" using intr_fire_goes [OF assms] by blast
  then show ?thesis by (auto simp: intr_goes_def intr_kept_def intr_inv_sound intr_stale_def)
qed

lemma new_bits: "b AND NOT a AND c = 0 \<Longrightarrow> (a OR b) AND c = a AND (c :: u32)"
proof (rule bit_word_eqI)
  fix n assume *: "b AND NOT a AND c = 0" "n < LENGTH(32)"
  have "\<not> bit (b AND NOT a AND c) n" using *(1) by simp
  then show "bit ((a OR b) AND c) n = bit (a AND c) n" using *(2) by (auto simp: bit_simps)
qed

lemma icr_assert_goes:
  assumes "intr_sound sc"
  shows "\<exists>sc'. e82545_icr_assert bits sc = Inr sc' \<and> intr_goes sc sc' \<and>
    esc_ICR sc' = esc_ICR sc OR bits \<and> esc_IMS sc' = esc_IMS sc"
proof -
  let ?s = "sc\<lparr>esc_ICR := esc_ICR sc OR bits\<rparr>"
  have inv: "lintr_inv (esc_pi ?s, esc_pic ?s)" using assms by (simp add: intr_sound_def)
  have masked: "intr_goes sc ?s" if "bits AND NOT (esc_ICR sc) AND esc_IMS sc = 0 \<or> esc_mevpitr sc \<or> esc_irq_asserted sc"
    using that assms new_bits [of bits "esc_ICR sc" "esc_IMS sc"]
    by (auto simp: intr_defs)
  then show ?thesis using intr_fire_goes [OF inv]
    by (auto simp: e82545_icr_assert_def Let_def intr_goes_def intr_stale_def)
qed

lemma ims_change_goes:
  assumes "intr_sound sc"
  shows "\<exists>sc'. e82545_ims_change bits sc = Inr sc' \<and> intr_goes sc sc' \<and>
    esc_ICR sc' = esc_ICR sc \<and> esc_IMS sc' = esc_IMS sc OR bits"
proof -
  let ?s = "sc\<lparr>esc_IMS := esc_IMS sc OR bits\<rparr>"
  have inv: "lintr_inv (esc_pi ?s, esc_pic ?s)" using assms by (simp add: intr_sound_def)
  have "(esc_IMS sc OR bits) AND esc_ICR sc = esc_IMS sc AND esc_ICR sc"
    if "bits AND esc_ICR sc AND NOT (esc_IMS sc) = 0"
    using that new_bits [of bits "esc_IMS sc" "esc_ICR sc"] by (simp add: ac_simps)
  then have masked: "intr_goes sc ?s"
    if "bits AND esc_ICR sc AND NOT (esc_IMS sc) = 0 \<or> esc_mevpitr sc \<or> esc_irq_asserted sc"
    using that assms by (auto simp: intr_defs and.commute)
  then show ?thesis using intr_fire_goes [OF inv]
    by (auto simp: e82545_ims_change_def Let_def intr_goes_def intr_stale_def)
qed

lemma icr_deassert_goes:
  assumes "intr_sound sc"
  shows "\<exists>sc'. e82545_icr_deassert bits sc = Inr sc' \<and> intr_goes sc sc' \<and>
    esc_ICR sc' = esc_ICR sc AND NOT bits \<and> esc_IMS sc' = esc_IMS sc \<and>
    (esc_irq_asserted sc' \<longrightarrow> esc_ICR sc' AND esc_IMS sc' \<noteq> 0)"
proof -
  let ?s = "sc\<lparr>esc_ICR := esc_ICR sc AND NOT bits\<rparr>"
  have inv: "lintr_inv (esc_pi ?s, esc_pic ?s)" using assms by (simp add: intr_sound_def)
  have sub: "esc_ICR sc AND esc_IMS sc \<noteq> 0" if "(esc_ICR sc AND NOT bits) AND esc_IMS sc \<noteq> 0"
  proof -
    have "(esc_ICR sc AND NOT bits) AND esc_IMS sc = (esc_ICR sc AND esc_IMS sc) AND NOT bits"
      by (simp only: ac_simps)
    then show ?thesis using that by auto
  qed
  obtain pi pic where d: "pin_down ?s = Inr (?s\<lparr>esc_pi := pi, esc_pic := pic\<rparr>)" "lintr_inv (pi, pic)"
    "\<not> lintr_wanted pi" "lintr_rest pi = lintr_rest (esc_pi sc)"
    using pin_down_ok [OF inv] by auto
  show ?thesis using assms sub d
    by (auto simp: e82545_icr_deassert_def Let_def intr_defs)
qed

lemma icr_assert_ok:
  assumes "intr_inv sc"
  shows "\<exists>sc'. e82545_icr_assert bits sc = Inr sc' \<and> intr_kept sc sc' \<and>
    esc_ICR sc' = esc_ICR sc OR bits \<and> esc_IMS sc' = esc_IMS sc"
  using icr_assert_goes [of sc bits] goes_kept [OF _ assms] assms by (auto simp: intr_inv_sound)

lemma ims_change_ok:
  assumes "intr_inv sc"
  shows "\<exists>sc'. e82545_ims_change bits sc = Inr sc' \<and> intr_kept sc sc' \<and>
    esc_ICR sc' = esc_ICR sc \<and> esc_IMS sc' = esc_IMS sc OR bits"
  using ims_change_goes [of sc bits] goes_kept [OF _ assms] assms by (auto simp: intr_inv_sound)

lemma icr_deassert_ok:
  assumes "intr_inv sc"
  shows "\<exists>sc'. e82545_icr_deassert bits sc = Inr sc' \<and> intr_kept sc sc' \<and>
    esc_ICR sc' = esc_ICR sc AND NOT bits \<and> esc_IMS sc' = esc_IMS sc \<and>
    (esc_irq_asserted sc' \<longrightarrow> esc_ICR sc' AND esc_IMS sc' \<noteq> 0)"
  using icr_deassert_goes [of sc bits] goes_kept [OF _ assms] assms by (auto simp: intr_inv_sound)

lemma esc_lock_ok:
  "free_mutex (esc_mtx sc) \<Longrightarrow> \<exists>m. esc_lock sc = Inr (sc\<lparr>esc_mtx := m\<rparr>) \<and> held_mutex m"
  using pthread.lock_free [of "esc_mtx sc"] by (auto simp: esc_lock_def)

lemma esc_unlock_ok:
  "held_mutex (esc_mtx sc) \<Longrightarrow> \<exists>m. esc_unlock sc = Inr (sc\<lparr>esc_mtx := m\<rparr>) \<and> free_mutex m"
  using pthread.unlock_held [of "esc_mtx sc"] by (auto simp: esc_unlock_def)

lemma intr_inv_mtx [simp]: "intr_inv (sc\<lparr>esc_mtx := m\<rparr>) = intr_inv sc"
  by (simp add: intr_inv_def intr_live_def pin_inv_def)

lemma intr_sound_mtx [simp]: "intr_sound (sc\<lparr>esc_mtx := m\<rparr>) = intr_sound sc" "intr_stale (sc\<lparr>esc_mtx := m\<rparr>) = intr_stale sc"
  by (simp_all add: intr_sound_def intr_live_def intr_stale_def)

lemma itr_callback_goes:
  assumes "intr_sound sc" "free_mutex (esc_mtx sc)"
  shows "\<exists>sc'. e82545_itr_callback sc = Inr sc' \<and> intr_sound sc' \<and> (intr_stale sc' \<longrightarrow> intr_stale sc) \<and> free_mutex (esc_mtx sc') \<and>
    lintr_rest (esc_pi sc') = lintr_rest (esc_pi sc) \<and>
    esc_ICR sc' = esc_ICR sc \<and> esc_IMS sc' = esc_IMS sc \<and>
    (esc_ICR sc AND esc_IMS sc \<noteq> 0 \<longrightarrow> esc_irq_asserted sc')"
proof -
  obtain m where m: "esc_lock sc = Inr (sc\<lparr>esc_mtx := m\<rparr>)" "held_mutex m"
    using esc_lock_ok [OF assms(2)] by blast
  define s where "s = sc\<lparr>esc_mtx := m\<rparr>"
  define fire where "fire \<longleftrightarrow> esc_ICR s AND esc_IMS s \<noteq> 0 \<and> \<not> esc_irq_asserted s"
  define body where "body = (if fire then
      bindE (pin_up (s\<lparr>esc_irq_asserted := True\<rparr>)) (\<lambda>sc. Inr (set_callout sc))
    else Inr (s\<lparr>esc_mevpitr := False\<rparr>))"
  have cb: "e82545_itr_callback sc = bindE body esc_unlock"
    using m(1) by (simp add: e82545_itr_callback_def Let_def body_def fire_def s_def)
  have "\<exists>t. body = Inr t \<and> intr_sound t \<and> (intr_stale t \<longrightarrow> intr_stale sc) \<and> esc_mtx t = m \<and> lintr_rest (esc_pi t) = lintr_rest (esc_pi sc) \<and>
      esc_ICR t = esc_ICR sc \<and> esc_IMS t = esc_IMS sc \<and> (esc_ICR sc AND esc_IMS sc \<noteq> 0 \<longrightarrow> esc_irq_asserted t)"
  proof (cases fire)
    case True
    define s1 where "s1 = s\<lparr>esc_irq_asserted := True\<rparr>"
    have "lintr_inv (esc_pi s1, esc_pic s1)"
      using assms(1) by (simp add: s1_def s_def intr_sound_def)
    from pin_up_ok [OF this] obtain pi pic where "pin_up s1 = Inr (s1\<lparr>esc_pi := pi, esc_pic := pic\<rparr>)"
      "lintr_inv (pi, pic)" "lintr_wanted pi" "lintr_rest pi = lintr_rest (esc_pi s1)" by blast
    then show ?thesis using True unfolding body_def s1_def s_def
      by (simp add: set_callout_def intr_sound_def intr_live_def intr_stale_def)
  next
    case False
    then show ?thesis using assms(1) unfolding body_def fire_def
      by (auto simp: s_def intr_sound_def intr_live_def intr_stale_def)
  qed
  then obtain t where t: "body = Inr t" "intr_sound t" "intr_stale t \<longrightarrow> intr_stale sc" "esc_mtx t = m"
    "lintr_rest (esc_pi t) = lintr_rest (esc_pi sc)" "esc_ICR t = esc_ICR sc" "esc_IMS t = esc_IMS sc"
    "esc_ICR sc AND esc_IMS sc \<noteq> 0 \<longrightarrow> esc_irq_asserted t" by blast
  have "held_mutex (esc_mtx t)" using m(2) t(4) by simp
  from esc_unlock_ok [OF this] obtain m' where "esc_unlock t = Inr (t\<lparr>esc_mtx := m'\<rparr>)" "free_mutex m'" by blast
  then show ?thesis unfolding cb using t by simp
qed

lemma itr_callback_ok:
  assumes "intr_inv sc" "free_mutex (esc_mtx sc)"
  shows "\<exists>sc'. e82545_itr_callback sc = Inr sc' \<and> intr_inv sc' \<and> free_mutex (esc_mtx sc') \<and>
    lintr_rest (esc_pi sc') = lintr_rest (esc_pi sc) \<and>
    esc_ICR sc' = esc_ICR sc \<and> esc_IMS sc' = esc_IMS sc \<and>
    (esc_ICR sc AND esc_IMS sc \<noteq> 0 \<longrightarrow> esc_irq_asserted sc')"
  using itr_callback_goes [OF _ assms(2)] assms(1) by (auto simp: intr_inv_sound)

lemma intr_reset_goes:
  assumes "intr_sound sc"
  shows "\<exists>sc'. intr_reset sc = Inr sc' \<and> intr_sound sc' \<and> (intr_stale sc' \<longleftrightarrow> esc_irq_asserted sc) \<and> esc_mtx sc' = esc_mtx sc \<and>
    lintr_rest (esc_pi sc') = lintr_rest (esc_pi sc)"
proof -
  have inv: "lintr_inv (esc_pi sc, esc_pic sc)" using assms by (simp add: intr_sound_def)
  show ?thesis using pin_down_ok [OF inv] assms
    by (cases "esc_irq_asserted sc") (auto simp: intr_reset_def reset_intr_def intr_sound_def intr_live_def intr_stale_def)
qed

section \<open>Runs\<close>

text \<open>
  The device reports causes, the guest reads and writes the interrupt
  registers, resets the card and reconfigures the PCI function, and the timer runs out. A reset with \<open>esc_irq_asserted\<close>
  set is a step only where \<open>stale_ok\<close> allows it.
\<close>

inductive intr_step :: "bool \<Rightarrow> e1000_intr \<Rightarrow> e1000_intr \<Rightarrow> bool" for stale_ok where
  dev_cause: "e82545_icr_assert bits sc = Inr sc' \<Longrightarrow> intr_step stale_ok sc sc'"
| reg_write: "e82545_intr_write off v sc = Inr sc' \<Longrightarrow> intr_step stale_ok sc sc'"
| reg_read: "e82545_intr_read off sc = Inr (v, sc') \<Longrightarrow> intr_step stale_ok sc sc'"
| card_reset: "stale_ok \<or> \<not> esc_irq_asserted sc \<Longrightarrow> intr_reset sc = Inr sc' \<Longrightarrow> intr_step stale_ok sc sc'"
| timer_end: "esc_mevpitr sc \<Longrightarrow> e82545_itr_callback sc = Inr sc' \<Longrightarrow> intr_step stale_ok sc sc'"
| pci_config: "pci_lintr_update ((esc_pi sc)\<lparr>msi := m, msix := x, pi_cfgdata := c\<rparr>) (esc_pic sc) = Inr (pi, pic) \<Longrightarrow>
    intr_step stale_ok sc (sc\<lparr>esc_pi := pi, esc_pic := pic\<rparr>)"

definition intr_ready :: "e1000_intr \<Rightarrow> bool" where
  "intr_ready sc \<longleftrightarrow> intr_inv sc \<and> free_mutex (esc_mtx sc)"

lemma intr_write_goes:
  assumes "intr_sound sc"
  shows "\<exists>sc'. e82545_intr_write off v sc = Inr sc' \<and> intr_goes sc sc'"
proof -
  have ics: "intr_sound (sc\<lparr>esc_ICS := v\<rparr>)" using assms by (auto simp: intr_sound_def intr_live_def)
  have itr: "intr_goes sc (sc\<lparr>esc_ITR := v\<rparr>)" using assms by (auto simp: intr_defs)
  have "esc_ICR sc AND esc_IMS sc \<noteq> 0" if "esc_ICR sc AND (esc_IMS sc AND NOT v) \<noteq> 0"
  proof -
    have "esc_ICR sc AND (esc_IMS sc AND NOT v) = (esc_ICR sc AND esc_IMS sc) AND NOT v" by (simp only: ac_simps)
    then show ?thesis using that by auto
  qed
  then have imc: "intr_goes sc (sc\<lparr>esc_IMC := v, esc_IMS := esc_IMS sc AND NOT v\<rparr>)"
    using assms by (auto simp: intr_defs)
  have self: "intr_goes sc sc" using assms by (simp add: intr_goes_def)
  show ?thesis
    using icr_deassert_goes [OF assms, of v] icr_assert_goes [OF ics, of v] ims_change_goes [OF assms, of v] itr imc self
    by (auto simp: e82545_intr_write_def intr_goes_def intr_stale_def)
qed

lemma intr_write_ok:
  assumes "intr_inv sc"
  shows "\<exists>sc'. e82545_intr_write off v sc = Inr sc' \<and> intr_kept sc sc'"
  using intr_write_goes [of sc off v] goes_kept [OF _ assms] assms by (auto simp: intr_inv_sound)

text \<open>A read of the cause register clears all causes, lowers the pin and the flag.\<close>

lemma intr_read_goes:
  assumes "intr_sound sc"
  shows "\<exists>v sc'. e82545_intr_read off sc = Inr (v, sc') \<and> intr_goes sc sc' \<and>
    (off = E1000_ICR \<longrightarrow> v = esc_ICR sc \<and> \<not> esc_irq_asserted sc')"
proof -
  have z: "intr_sound (sc\<lparr>esc_ICR := 0\<rparr>)" using assms by (simp add: intr_sound_def intr_live_def)
  from icr_deassert_goes [OF this, of "NOT 0"] show ?thesis
    using assms by (auto simp: e82545_intr_read_def intr_goes_def intr_stale_def)
qed

lemma intr_read_ok:
  assumes "intr_inv sc"
  shows "\<exists>v sc'. e82545_intr_read off sc = Inr (v, sc') \<and> intr_kept sc sc'"
  using intr_read_goes [of sc off] goes_kept [OF _ assms] assms by (auto simp: intr_inv_sound)

lemma config_wanted:
  assumes "lintr_inv (esc_pi sc, esc_pic sc)"
    "pci_lintr_update ((esc_pi sc)\<lparr>msi := m, msix := x, pi_cfgdata := c\<rparr>) (esc_pic sc) = Inr (pi, pic)"
  shows "lintr_inv (pi, pic) \<and> lintr_wanted pi = lintr_wanted (esc_pi sc)"
proof -
  have "free_mutex (lintr_lock (lintr ((esc_pi sc)\<lparr>msi := m, msix := x, pi_cfgdata := c\<rparr>)))"
    using assms(1) by (simp add: lintr_inv_def lintr_ready_def)
  from pci_lintr_update_eq [OF this, of "esc_pic sc"] assms(2) have "lintr_wanted pi = lintr_wanted (esc_pi sc)"
    by (auto simp: lintr_wanted_def split: lintr_stat.splits if_splits)
  then show ?thesis using lintr_step_inv [OF lintr_config [OF assms(2)] assms(1)] by blast
qed

lemma intr_step_sound:
  assumes "intr_step stale_ok sc sc'" "intr_sound sc" "free_mutex (esc_mtx sc)"
  shows "intr_sound sc' \<and> free_mutex (esc_mtx sc') \<and> (intr_stale sc' \<longrightarrow> stale_ok \<or> intr_stale sc)"
  using assms(1)
proof (cases rule: intr_step.cases)
  case (dev_cause bits)
  then show ?thesis using assms icr_assert_goes [of sc bits] by (auto simp: intr_goes_def)
next
  case (reg_write off v)
  then show ?thesis using assms intr_write_goes [of sc off v] by (auto simp: intr_goes_def)
next
  case (reg_read off v)
  then show ?thesis using assms intr_read_goes [of sc off] by (auto simp: intr_goes_def)
next
  case card_reset
  then show ?thesis using assms intr_reset_goes [of sc] by auto
next
  case timer_end
  then show ?thesis using assms itr_callback_goes [of sc] by auto
next
  case (pci_config c x m pi pic)
  have "lintr_inv (esc_pi sc, esc_pic sc)" using assms(2) by (simp add: intr_sound_def)
  from config_wanted [OF this pci_config(2)] assms show ?thesis unfolding pci_config(1)
    by (simp add: intr_sound_def intr_live_def intr_stale_def)
qed

text \<open>The line at the interrupt controller.\<close>

definition card_line :: "e1000_intr \<Rightarrow> bool" where
  "card_line sc = line_level (pi_irq (esc_pi sc)) (esc_pic sc) False"

lemma ready_line:
  "intr_ready sc \<Longrightarrow> pi_irq (esc_pi sc) \<noteq> 0 \<Longrightarrow>
   card_line sc \<longleftrightarrow> esc_irq_asserted sc \<and> lintr_allowed (esc_pi sc)"
  by (auto simp: intr_ready_def intr_inv_def pin_inv_def lintr_inv_def card_line_def)

lemma sound_line:
  "intr_sound sc \<Longrightarrow> pi_irq (esc_pi sc) \<noteq> 0 \<Longrightarrow>
   card_line sc \<longleftrightarrow> esc_irq_asserted sc \<and> \<not> intr_stale sc \<and> lintr_allowed (esc_pi sc)"
  by (auto simp: intr_sound_def intr_stale_def lintr_inv_def card_line_def)

lemma pi_irq_rest: "lintr_rest pi' = lintr_rest pi \<Longrightarrow> pi_irq pi' = pi_irq pi"
  using lintr_restD [of pi' pi] by (simp add: pi_irq_def)

lemma allowed_rest: "lintr_rest pi' = lintr_rest pi \<Longrightarrow> lintr_allowed pi' = lintr_allowed pi"
  using lintr_restD [of pi' pi] by (simp add: lintr_allowed_def)

text \<open>C9: No interrupt of the network card is lost, but for those after a reset at the wrong moment: in every state reached from an idle card by any
  interleaving of device causes, accesses to the interrupt registers, resets of the card, reconfiguration of the
  PCI function and expiry of the throttling timer, with a function that is wired to the controller, a cause that is pending and unmasked has
  the controller's line up if the function may raise interrupts, or the timer is running, and
  when the timer expires its callback returns with the line up, unless the flag that says that the line is up is stale.
  It is stale only if the card was reset while it was set, and a read of the cause register, which
  always returns, ends it. The line is never up unless the card asserts its interrupt and may do so.\<close>

theorem interrupt_not_lost:
  assumes "(intr_step stale_ok)\<^sup>*\<^sup>* sc0 sc" "intr_ready sc0" "pi_irq (esc_pi sc) \<noteq> 0"
  shows "(card_line sc \<longleftrightarrow> esc_irq_asserted sc \<and> \<not> intr_stale sc \<and> lintr_allowed (esc_pi sc)) \<and> (intr_stale sc \<longrightarrow> stale_ok) \<and>
    (esc_ICR sc AND esc_IMS sc \<noteq> 0 \<and> lintr_allowed (esc_pi sc) \<and> \<not> intr_stale sc \<longrightarrow> card_line sc \<or> esc_mevpitr sc) \<and>
    (\<exists>sc'. e82545_itr_callback sc = Inr sc' \<and>
      (esc_ICR sc AND esc_IMS sc \<noteq> 0 \<and> lintr_allowed (esc_pi sc) \<and> \<not> intr_stale sc \<longrightarrow> card_line sc')) \<and>
    (\<exists>sc'. e82545_intr_read E1000_ICR sc = Inr (esc_ICR sc, sc') \<and> \<not> intr_stale sc')"
proof -
  have r: "intr_sound sc \<and> free_mutex (esc_mtx sc) \<and> (intr_stale sc \<longrightarrow> stale_ok)" using assms(1)
  proof (induction rule: rtranclp_induct)
    case base
    then show ?case using assms(2) by (simp add: intr_ready_def intr_inv_sound)
  next
    case (step y z)
    then show ?case using intr_step_sound by blast
  qed
  note line = sound_line [OF _ assms(3)]
  obtain sc' where sc': "e82545_itr_callback sc = Inr sc'" "intr_sound sc'" "intr_stale sc' \<longrightarrow> intr_stale sc"
    "lintr_rest (esc_pi sc') = lintr_rest (esc_pi sc)" "esc_ICR sc AND esc_IMS sc \<noteq> 0 \<longrightarrow> esc_irq_asserted sc'"
    using itr_callback_goes r by blast
  have "card_line sc' \<longleftrightarrow> esc_irq_asserted sc' \<and> \<not> intr_stale sc' \<and> lintr_allowed (esc_pi sc)"
    using sound_line [OF sc'(2)] assms(3) pi_irq_rest [OF sc'(4)] allowed_rest [OF sc'(4)] by simp
  moreover obtain sc2 where "e82545_intr_read E1000_ICR sc = Inr (esc_ICR sc, sc2)" "\<not> intr_stale sc2"
    using intr_read_goes [of sc E1000_ICR] r by (auto simp: intr_stale_def)
  ultimately show ?thesis using line r sc'(1,3,5) by (auto simp: intr_sound_def intr_live_def)
qed

definition wit_intr :: e1000_intr where
  "wit_intr = \<lparr>esc_pi = wit_devinst, esc_pic = [], esc_mtx = \<lparr>mtx_lock = 0\<rparr>, esc_mevpitr = False,
     mevpitr_callout = [], esc_irq_asserted = False, esc_ICR = 0, esc_ITR = 250, esc_ICS = 0,
     esc_IMS = 0x80, esc_IMC = 0\<rparr>"

lemma wit_intr_ready: "intr_ready wit_intr"
  by (simp add: wit_intr_def intr_ready_def intr_inv_def intr_live_def pin_inv_def lintr_inv_def
      wit_devinst_ready lintr_wanted_def free_mutex_def)

lemma wit_intr_up:
  "\<exists>sc. e82545_icr_assert 0x80 wit_intr = Inr sc \<and> intr_kept wit_intr sc \<and> esc_irq_asserted sc \<and>
     lintr_rest (esc_pi sc) = lintr_rest wit_devinst"
proof -
  have i: "intr_inv wit_intr" using wit_intr_ready by (simp add: intr_ready_def)
  obtain sc where sc: "e82545_icr_assert 0x80 wit_intr = Inr sc" "intr_kept wit_intr sc"
    using icr_assert_ok [OF i, of "0x80"] by blast
  have "e82545_icr_assert 0x80 wit_intr = intr_fire (wit_intr\<lparr>esc_ICR := 0x80\<rparr>)"
    by (simp add: e82545_icr_assert_def wit_intr_def)
  moreover have "lintr_inv (esc_pi (wit_intr\<lparr>esc_ICR := 0x80\<rparr>), esc_pic (wit_intr\<lparr>esc_ICR := 0x80\<rparr>))"
    using i by (simp add: intr_inv_def pin_inv_def)
  from intr_fire_ok [OF this] have "\<exists>sc'. intr_fire (wit_intr\<lparr>esc_ICR := 0x80\<rparr>) = Inr sc' \<and> esc_irq_asserted sc'" by blast
  ultimately have "esc_irq_asserted sc" using sc(1) by auto
  moreover have "lintr_rest (esc_pi sc) = lintr_rest wit_devinst" using sc(2) by (simp add: intr_kept_def wit_intr_def)
  ultimately show ?thesis using sc by blast
qed

theorem interrupt_not_lost_witness:
  "\<exists>sc. e82545_icr_assert 0x80 wit_intr = Inr sc \<and> card_line sc"
proof -
  obtain sc where sc: "e82545_icr_assert 0x80 wit_intr = Inr sc" "esc_irq_asserted sc"
    and rest: "lintr_rest (esc_pi sc) = lintr_rest wit_devinst"
    using wit_intr_up by blast
  have "(intr_step False)\<^sup>*\<^sup>* wit_intr sc" using dev_cause [OF sc(1)] by blast
  from interrupt_not_lost [OF this wit_intr_ready] show ?thesis
    using sc pi_irq_rest [OF rest] allowed_rest [OF rest] by (simp add: wit_devinst_ready)
qed

end
