(* ===== verification/E1000_Eeprom.thy ===== *)
theory E1000_Eeprom
  imports Prelude
begin

text \<open>
  \<open>bhyve/pci_e82545.c\<close>: the serial EEPROM and the PHY registers of the emulated
  82545 network card. The guest's driver clocks commands into the EEPROM
  through the bits of the \<open>EECD\<close> register: three opcode and six address bits,
  then sixteen data bits in either direction.

  The names and values of registers and register bits (\<open>E1000_\<close>, \<open>NVM_\<close>, \<open>PHY_\<close>)
  are those of Intel's data sheet, which the code takes from the system's
  \<open>e1000_regs.h\<close> and \<open>e1000_defines.h\<close>.
\<close>

section \<open>Constants\<close>

abbreviation (input) E1000_EECD_SK :: u32 where "E1000_EECD_SK \<equiv> 0x00000001"
abbreviation (input) E1000_EECD_CS :: u32 where "E1000_EECD_CS \<equiv> 0x00000002"
abbreviation (input) E1000_EECD_DI :: u32 where "E1000_EECD_DI \<equiv> 0x00000004"
abbreviation (input) E1000_EECD_DO :: u32 where "E1000_EECD_DO \<equiv> 0x00000008"
abbreviation (input) E1000_EECD_REQ :: u32 where "E1000_EECD_REQ \<equiv> 0x00000040"
abbreviation (input) E1000_EECD_GNT :: u32 where "E1000_EECD_GNT \<equiv> 0x00000080"
abbreviation (input) E1000_EECD_PRES :: u32 where "E1000_EECD_PRES \<equiv> 0x00000100"
abbreviation (input) E82545_EECD_FWE_EN :: u32 where "E82545_EECD_FWE_EN \<equiv> 0x00000020"

abbreviation (input) NVM_MAC_ADDR :: nat where "NVM_MAC_ADDR \<equiv> 0x00"
abbreviation (input) NVM_SUB_DEV_ID :: nat where "NVM_SUB_DEV_ID \<equiv> 0x0b"
abbreviation (input) NVM_SUB_VEN_ID :: nat where "NVM_SUB_VEN_ID \<equiv> 0x0c"
abbreviation (input) NVM_DEV_ID :: nat where "NVM_DEV_ID \<equiv> 0x0d"
abbreviation (input) NVM_VEN_ID :: nat where "NVM_VEN_ID \<equiv> 0x0e"
abbreviation (input) NVM_CHECKSUM_REG :: nat where "NVM_CHECKSUM_REG \<equiv> 0x3f"
abbreviation (input) NVM_SUM :: u16 where "NVM_SUM \<equiv> 0xbaba"

abbreviation (input) E82545_VENDOR_ID_INTEL :: u16 where "E82545_VENDOR_ID_INTEL \<equiv> 0x8086"
abbreviation (input) E82545_DEV_ID_82545EM_COPPER :: u16 where "E82545_DEV_ID_82545EM_COPPER \<equiv> 0x100f"
abbreviation (input) E82545_SUBDEV_ID :: u16 where "E82545_SUBDEV_ID \<equiv> 0x1008"

abbreviation (input) E82545_NVM_OPADDR_BITS :: nat where "E82545_NVM_OPADDR_BITS \<equiv> 9"
abbreviation (input) E82545_NVM_DATA_BITS :: nat where "E82545_NVM_DATA_BITS \<equiv> 16"
abbreviation (input) E82545_NVM_ADDR_MASK :: u16 where "E82545_NVM_ADDR_MASK \<equiv> 0x3f"
abbreviation (input) E82545_NVM_OPCODE_MASK :: u16 where "E82545_NVM_OPCODE_MASK \<equiv> 0x1c0"
abbreviation (input) E82545_NVM_OPCODE_READ :: u16 where "E82545_NVM_OPCODE_READ \<equiv> 0x180"
abbreviation (input) E82545_NVM_OPCODE_WRITE :: u16 where "E82545_NVM_OPCODE_WRITE \<equiv> 0x140"
abbreviation (input) E82545_NVM_OPCODE_EWEN :: u16 where "E82545_NVM_OPCODE_EWEN \<equiv> 0x100"
abbreviation (input) E82545_NVM_EEPROM_SIZE :: nat where "E82545_NVM_EEPROM_SIZE \<equiv> 64"
abbreviation (input) E82545_NVM_MODE_OPADDR :: nat where "E82545_NVM_MODE_OPADDR \<equiv> 0"
abbreviation (input) E82545_NVM_MODE_DATAIN :: nat where "E82545_NVM_MODE_DATAIN \<equiv> 1"
abbreviation (input) E82545_NVM_MODE_DATAOUT :: nat where "E82545_NVM_MODE_DATAOUT \<equiv> 2"

section \<open>State and operations\<close>

text \<open>The fields of \<open>struct e82545_softc\<close> that belong to the EEPROM.\<close>

record e1000_nvm =
  eeprom_control :: u32
  nvm_data :: u16
  nvm_opaddr :: u16
  nvm_bits :: nat
  nvm_mode :: nat
  eeprom_data :: "u16 list"

definition mac_word :: "u8 \<Rightarrow> u8 \<Rightarrow> u16" where
  "mac_word lo hi = ucast lo OR push_bit 8 (ucast hi)"

text \<open>\<open>mac\<close> is the six octets of \<open>esc_mac\<close>.\<close>

definition e82545_init_eeprom :: "u8 list \<Rightarrow> e1000_nvm \<Rightarrow> e1000_nvm" where
  "e82545_init_eeprom mac nvm =
     (let d = eeprom_data nvm;
          d = d[NVM_MAC_ADDR := mac_word (mac ! 0) (mac ! 1)];
          d = d[NVM_MAC_ADDR + 1 := mac_word (mac ! 2) (mac ! 3)];
          d = d[NVM_MAC_ADDR + 2 := mac_word (mac ! 4) (mac ! 5)];
          d = d[NVM_SUB_DEV_ID := E82545_SUBDEV_ID];
          d = d[NVM_SUB_VEN_ID := E82545_VENDOR_ID_INTEL];
          d = d[NVM_DEV_ID := E82545_DEV_ID_82545EM_COPPER];
          d = d[NVM_VEN_ID := E82545_VENDOR_ID_INTEL];
          checksum = fold (\<lambda>i checksum. checksum + d ! i) [0..<NVM_CHECKSUM_REG] 0
      in nvm\<lparr>eeprom_data := d[NVM_CHECKSUM_REG := NVM_SUM - checksum]\<rparr>)"

text \<open>Back to opcode mode.\<close>

definition nvm_opmode :: "e1000_nvm \<Rightarrow> e1000_nvm" where
  "nvm_opmode nvm = nvm\<lparr>nvm_opaddr := 0, nvm_mode := E82545_NVM_MODE_OPADDR,
     nvm_bits := E82545_NVM_OPADDR_BITS\<rparr>"

definition e82545_eecd_strobe :: "e1000_nvm \<Rightarrow> e1000_nvm" where
  "e82545_eecd_strobe nvm =
     (if nvm_bits nvm = 0 then nvm
      else
        let nvm = nvm\<lparr>nvm_bits := nvm_bits nvm - 1\<rparr>;
            di = (eeprom_control nvm AND E1000_EECD_DI \<noteq> 0) in
        if nvm_mode nvm = E82545_NVM_MODE_DATAOUT then
          let nvm = nvm\<lparr>eeprom_control :=
                (if nvm_data nvm AND 0x8000 \<noteq> 0 then eeprom_control nvm OR E1000_EECD_DO
                 else eeprom_control nvm AND NOT E1000_EECD_DO),
                nvm_data := push_bit 1 (nvm_data nvm)\<rparr>
          in if nvm_bits nvm = 0 then nvm_opmode nvm else nvm
        else if nvm_mode nvm = E82545_NVM_MODE_DATAIN then
          let nvm = nvm\<lparr>nvm_data := push_bit 1 (nvm_data nvm)\<rparr>;
              nvm = (if di then nvm\<lparr>nvm_data := nvm_data nvm OR 1\<rparr> else nvm)
          in if nvm_bits nvm = 0 then
               let op = nvm_opaddr nvm AND E82545_NVM_OPCODE_MASK;
                   addr = unat (nvm_opaddr nvm AND E82545_NVM_ADDR_MASK);
                   nvm = (if op \<noteq> E82545_NVM_OPCODE_WRITE then nvm
                          else if addr \<ge> E82545_NVM_EEPROM_SIZE then nvm
                          else nvm\<lparr>eeprom_data := (eeprom_data nvm)[addr := nvm_data nvm]\<rparr>)
               in nvm_opmode nvm
             else nvm
        else if nvm_mode nvm = E82545_NVM_MODE_OPADDR then
          let nvm = nvm\<lparr>nvm_opaddr := push_bit 1 (nvm_opaddr nvm)\<rparr>;
              nvm = (if di then nvm\<lparr>nvm_opaddr := nvm_opaddr nvm OR 1\<rparr> else nvm)
          in if nvm_bits nvm = 0 then
               let op = nvm_opaddr nvm AND E82545_NVM_OPCODE_MASK;
                   addr = unat (nvm_opaddr nvm AND E82545_NVM_ADDR_MASK)
               in if op = E82545_NVM_OPCODE_EWEN then nvm_opmode nvm
                  else if op = E82545_NVM_OPCODE_READ then
                    nvm\<lparr>nvm_mode := E82545_NVM_MODE_DATAOUT, nvm_bits := E82545_NVM_DATA_BITS,
                      nvm_data := (if addr < E82545_NVM_EEPROM_SIZE then eeprom_data nvm ! addr else 0)\<rparr>
                  else if op = E82545_NVM_OPCODE_WRITE then
                    nvm\<lparr>nvm_mode := E82545_NVM_MODE_DATAIN, nvm_bits := E82545_NVM_DATA_BITS, nvm_data := 0\<rparr>
                  else nvm_opmode nvm
             else nvm
        else nvm)"

text \<open>
  The \<open>EECD\<close> case of \<open>e82545_write_register\<close>: the control bits the guest may
  write, and the clocking of the state machine by a rising edge.
\<close>

definition eecd_control :: "u32 \<Rightarrow> u32 \<Rightarrow> u32" where
  "eecd_control value ctl =
     (let eecd_mask = E1000_EECD_SK OR E1000_EECD_CS OR E1000_EECD_DI OR E1000_EECD_REQ;
          ctl = ctl AND NOT eecd_mask;
          ctl = ctl OR (value AND eecd_mask)
      in if value AND E1000_EECD_REQ \<noteq> 0 then ctl OR E1000_EECD_GNT else ctl AND NOT E1000_EECD_GNT)"

definition eecd_write :: "u32 \<Rightarrow> e1000_nvm \<Rightarrow> e1000_nvm" where
  "eecd_write value nvm =
     (let eecd_strobe = (if eeprom_control nvm AND E1000_EECD_SK \<noteq> 0 then 0 else value AND E1000_EECD_SK);
          nvm = nvm\<lparr>eeprom_control := eecd_control value (eeprom_control nvm)\<rparr>
      in if eecd_strobe \<noteq> 0 \<and> eeprom_control nvm AND E1000_EECD_CS \<noteq> 0 then e82545_eecd_strobe nvm
         else nvm)"

section \<open>The PHY registers\<close>

abbreviation (input) PHY_STATUS :: u8 where "PHY_STATUS \<equiv> 0x01"
abbreviation (input) PHY_ID1 :: u8 where "PHY_ID1 \<equiv> 0x02"
abbreviation (input) PHY_ID2 :: u8 where "PHY_ID2 \<equiv> 0x03"
abbreviation (input) PHY_AUTONEG_ADV :: u8 where "PHY_AUTONEG_ADV \<equiv> 0x04"
abbreviation (input) PHY_LP_ABILITY :: u8 where "PHY_LP_ABILITY \<equiv> 0x05"
abbreviation (input) PHY_1000T_STATUS :: u8 where "PHY_1000T_STATUS \<equiv> 0x0a"
abbreviation (input) MII_SR_LINK_STATUS :: u32 where "MII_SR_LINK_STATUS \<equiv> 0x0004"
abbreviation (input) MII_SR_AUTONEG_CAPS :: u32 where "MII_SR_AUTONEG_CAPS \<equiv> 0x0008"
abbreviation (input) MII_SR_AUTONEG_COMPLETE :: u32 where "MII_SR_AUTONEG_COMPLETE \<equiv> 0x0020"
abbreviation (input) NWAY_AR_SELECTOR_FIELD :: u32 where "NWAY_AR_SELECTOR_FIELD \<equiv> 0x0001"
abbreviation (input) SR_1000T_LP_FD_CAPS :: u32 where "SR_1000T_LP_FD_CAPS \<equiv> 0x0800"
abbreviation (input) SR_1000T_REMOTE_RX_STATUS :: u32 where "SR_1000T_REMOTE_RX_STATUS \<equiv> 0x1000"
abbreviation (input) SR_1000T_LOCAL_RX_STATUS :: u32 where "SR_1000T_LOCAL_RX_STATUS \<equiv> 0x2000"
abbreviation (input) M88E1011_I_PHY_ID :: u32 where "M88E1011_I_PHY_ID \<equiv> 0x01410c20"
abbreviation (input) E82545_REVISION_4 :: u32 where "E82545_REVISION_4 \<equiv> 4"
abbreviation (input) E1000_MDIC_REG_MASK :: u32 where "E1000_MDIC_REG_MASK \<equiv> 0x001f0000"
abbreviation (input) E1000_MDIC_PHY_MASK :: u32 where "E1000_MDIC_PHY_MASK \<equiv> 0x03e00000"
abbreviation (input) E82545_MDIC_OP_MASK :: u32 where "E82545_MDIC_OP_MASK \<equiv> 0x0c000000"
abbreviation (input) E82545_MDIC_DATA_MASK :: u32 where "E82545_MDIC_DATA_MASK \<equiv> 0x0000ffff"
abbreviation (input) E1000_MDIC_OP_WRITE :: u32 where "E1000_MDIC_OP_WRITE \<equiv> 0x04000000"
abbreviation (input) E1000_MDIC_OP_READ :: u32 where "E1000_MDIC_OP_READ \<equiv> 0x08000000"
abbreviation (input) E1000_MDIC_READY :: u32 where "E1000_MDIC_READY \<equiv> 0x10000000"
abbreviation (input) E1000_MDIC_ERROR :: u32 where "E1000_MDIC_ERROR \<equiv> 0x40000000"
abbreviation (input) E1000_MDIC_DEST :: u32 where "E1000_MDIC_DEST \<equiv> 0x80000000"

definition e82545_read_mdi :: "u8 \<Rightarrow> u8 \<Rightarrow> u32" where
  "e82545_read_mdi reg_addr phy_addr =
     (if reg_addr = PHY_STATUS then
        MII_SR_LINK_STATUS OR MII_SR_AUTONEG_CAPS OR MII_SR_AUTONEG_COMPLETE
      else if reg_addr = PHY_AUTONEG_ADV then NWAY_AR_SELECTOR_FIELD
      else if reg_addr = PHY_LP_ABILITY then 0
      else if reg_addr = PHY_1000T_STATUS then
        SR_1000T_LP_FD_CAPS OR SR_1000T_REMOTE_RX_STATUS OR SR_1000T_LOCAL_RX_STATUS
      else if reg_addr = PHY_ID1 then drop_bit 16 M88E1011_I_PHY_ID AND 0xffff
      else if reg_addr = PHY_ID2 then (M88E1011_I_PHY_ID OR E82545_REVISION_4) AND 0xffff
      else 0)"

text \<open>
  The \<open>MDIC\<close> case of \<open>e82545_write_register\<close>: the new \<open>mdi_control\<close>;
  \<open>e82545_write_mdi\<close> only prints.
\<close>

definition mdic_write :: "u32 \<Rightarrow> u32" where
  "mdic_write value =
     (let reg_addr = ucast (drop_bit 16 (value AND E1000_MDIC_REG_MASK)) :: u8;
          phy_addr = ucast (drop_bit 21 (value AND E1000_MDIC_PHY_MASK)) :: u8;
          mdi_control = value AND NOT (E1000_MDIC_ERROR OR E1000_MDIC_DEST)
      in if value AND E1000_MDIC_READY \<noteq> 0 then mdi_control
         else if value AND E82545_MDIC_OP_MASK = E1000_MDIC_OP_READ then
           ((mdi_control AND NOT E82545_MDIC_DATA_MASK) OR e82545_read_mdi reg_addr phy_addr) OR E1000_MDIC_READY
         else if value AND E82545_MDIC_OP_MASK = E1000_MDIC_OP_WRITE then mdi_control OR E1000_MDIC_READY
         else mdi_control)"

section \<open>The control bits\<close>

lemma eecd_bits:
  "x AND 1 = 0 \<longleftrightarrow> \<not> bit x 0" "x AND 2 = 0 \<longleftrightarrow> \<not> bit x (Suc 0)" "x AND 4 = 0 \<longleftrightarrow> \<not> bit x 2"
  "x AND 8 = 0 \<longleftrightarrow> \<not> bit x 3" for x :: u32
  using and_exp_eq_0_iff_not_bit [of x 0] and_exp_eq_0_iff_not_bit [of x 1]
    and_exp_eq_0_iff_not_bit [of x 2] and_exp_eq_0_iff_not_bit [of x 3] by simp_all

text \<open>
  What a guest's driver does: with chip select and request held, it puts a bit
  on \<open>DI\<close>, raises the clock, reads \<open>DO\<close> and lowers the clock again.
\<close>

definition eecd_value :: "bool \<Rightarrow> bool \<Rightarrow> u32" where
  "eecd_value di sk = E1000_EECD_CS OR E1000_EECD_REQ OR (if di then E1000_EECD_DI else 0) OR
     (if sk then E1000_EECD_SK else 0)"

definition clock_bit :: "bool \<Rightarrow> e1000_nvm \<Rightarrow> bool \<times> e1000_nvm" where
  "clock_bit di nvm =
     (let nvm = eecd_write (eecd_value di True) nvm;
          dout = (eeprom_control nvm AND E1000_EECD_DO \<noteq> 0)
      in (dout, eecd_write (eecd_value di False) nvm))"

definition clock_low :: "e1000_nvm \<Rightarrow> bool" where
  "clock_low nvm \<longleftrightarrow> eeprom_control nvm AND E1000_EECD_SK = 0"

lemma eecd_value_bits:
  "bit (eecd_value di sk) 0 = sk" "bit (eecd_value di sk) (Suc 0)" "bit (eecd_value di sk) 2 = di"
  "eecd_value di sk AND 64 \<noteq> 0" "(eecd_value di sk AND 1 \<noteq> 0) = sk"
  by (cases di; cases sk; simp add: eecd_value_def bit_simps)+

lemma eecd_control_bits:
  "bit (eecd_control v c) 0 = bit v 0" "bit (eecd_control v c) (Suc 0) = bit v (Suc 0)"
  "bit (eecd_control v c) 2 = bit v 2" "bit (eecd_control v c) 3 = bit c 3"
  by (simp_all add: eecd_control_def Let_def bit_simps)

lemma eecd_write_drive:
  "eecd_write (eecd_value di sk) nvm =
     (let nvm' = nvm\<lparr>eeprom_control := eecd_control (eecd_value di sk) (eeprom_control nvm)\<rparr>
      in if sk \<and> clock_low nvm then e82545_eecd_strobe nvm' else nvm')"
  unfolding eecd_write_def Let_def
  using eecd_value_bits [of di sk]
  by (cases sk) (simp_all add: clock_low_def eecd_bits eecd_control_bits)


lemma strobe_control:
  "bit (eeprom_control (e82545_eecd_strobe nvm)) 0 = bit (eeprom_control nvm) 0"
  by (simp add: e82545_eecd_strobe_def Let_def nvm_opmode_def bit_simps)

text \<open>A clocked bit is one strobe with that bit on \<open>DI\<close>; the clock ends low.\<close>

lemma clock_bit_strobe:
  assumes "clock_low nvm"
  shows "\<exists>c c'. \<not> bit c' 0 \<and> bit c 2 = di \<and> bit c 3 = bit (eeprom_control nvm) 3 \<and>
    clock_bit di nvm = (let n = e82545_eecd_strobe (nvm\<lparr>eeprom_control := c\<rparr>)
      in (bit (eeprom_control n) 3, n\<lparr>eeprom_control := c'\<rparr>))"
proof -
  define c where "c = eecd_control (eecd_value di True) (eeprom_control nvm)"
  define n where "n = e82545_eecd_strobe (nvm\<lparr>eeprom_control := c\<rparr>)"
  define c' where "c' = eecd_control (eecd_value di False) (eeprom_control n)"
  have "bit (eeprom_control n) 0"
    by (simp add: n_def strobe_control c_def eecd_control_bits eecd_value_bits)
  then have "clock_bit di nvm = (bit (eeprom_control n) 3, n\<lparr>eeprom_control := c'\<rparr>)"
    using assms unfolding clock_bit_def eecd_write_drive
    by (simp add: Let_def c_def [symmetric] n_def [symmetric] c'_def eecd_bits clock_low_def)
  moreover have "\<not> bit c' 0" "bit c 2 = di" "bit c 3 = bit (eeprom_control nvm) 3"
    by (simp_all add: c_def c'_def eecd_control_bits eecd_value_bits)
  ultimately show ?thesis unfolding n_def Let_def by blast
qed


text \<open>The state the driver can tell, apart from the control register.\<close>

definition nvm_view :: "e1000_nvm \<Rightarrow> e1000_nvm" where
  "nvm_view nvm = nvm\<lparr>eeprom_control := 0\<rparr>"

definition shifted :: "u16 \<Rightarrow> bool \<Rightarrow> u16" where
  "shifted w b = push_bit 1 w OR of_bool b"

lemma shifted_alt: "(if b then push_bit 1 w OR 1 else push_bit 1 w) = shifted w b"
  by (simp add: shifted_def)

text \<open>
  \<open>nvm_in di\<close> is the strobe as seen through \<open>nvm_view\<close>; the read-out bit is \<open>nvm_out\<close>.
\<close>

definition nvm_in :: "bool \<Rightarrow> e1000_nvm \<Rightarrow> e1000_nvm" where
  "nvm_in di nvm = nvm_view (e82545_eecd_strobe (nvm\<lparr>eeprom_control := (if di then 4 else 0)\<rparr>))"

lemma strobe_view:
  "bit c 2 = di \<Longrightarrow> nvm_view (e82545_eecd_strobe (nvm\<lparr>eeprom_control := c\<rparr>)) = nvm_in di (nvm_view nvm)"
  by (cases di) (simp_all add: nvm_in_def nvm_view_def e82545_eecd_strobe_def Let_def nvm_opmode_def eecd_bits
      cong: if_cong)

lemma strobe_out:
  "nvm_bits nvm \<noteq> 0 \<Longrightarrow> nvm_mode nvm = 2 \<Longrightarrow>
   bit (eeprom_control (e82545_eecd_strobe nvm)) 3 = bit (nvm_data nvm) 15"
proof -
  have "nvm_data nvm AND 0x8000 \<noteq> 0 \<longleftrightarrow> bit (nvm_data nvm) 15"
    using and_exp_eq_0_iff_not_bit [of "nvm_data nvm" 15] by simp
  then show "nvm_bits nvm \<noteq> 0 \<Longrightarrow> nvm_mode nvm = 2 \<Longrightarrow>
     bit (eeprom_control (e82545_eecd_strobe nvm)) 3 = bit (nvm_data nvm) 15"
    by (simp add: e82545_eecd_strobe_def Let_def nvm_opmode_def bit_simps)
qed

lemma clock_view:
  assumes "clock_low nvm"
  obtains d n where "clock_bit di nvm = (d, n)" "clock_low n" "nvm_view n = nvm_in di (nvm_view nvm)"
    "nvm_bits nvm \<noteq> 0 \<Longrightarrow> nvm_mode nvm = 2 \<Longrightarrow> d = bit (nvm_data nvm) 15"
proof -
  obtain c c' where c: "\<not> bit c' 0" "bit c 2 = di"
    "clock_bit di nvm = (let n = e82545_eecd_strobe (nvm\<lparr>eeprom_control := c\<rparr>)
      in (bit (eeprom_control n) 3, n\<lparr>eeprom_control := c'\<rparr>))"
    using clock_bit_strobe [OF assms, of di] by blast
  let ?s = "e82545_eecd_strobe (nvm\<lparr>eeprom_control := c\<rparr>)"
  have "nvm_view (?s\<lparr>eeprom_control := c'\<rparr>) = nvm_in di (nvm_view nvm)"
    using strobe_view [OF c(2), of nvm] by (simp add: nvm_view_def)
  moreover have "clock_low (?s\<lparr>eeprom_control := c'\<rparr>)" using c(1) by (simp add: clock_low_def eecd_bits)
  moreover have "nvm_bits nvm \<noteq> 0 \<Longrightarrow> nvm_mode nvm = 2 \<Longrightarrow> bit (eeprom_control ?s) 3 = bit (nvm_data nvm) 15"
    using strobe_out [of "nvm\<lparr>eeprom_control := c\<rparr>"] by simp
  ultimately show ?thesis using that c(3) by (simp add: Let_def)
qed

text \<open>Clocking a list of bits in, and as many bits out.\<close>

fun clock_in :: "bool list \<Rightarrow> e1000_nvm \<Rightarrow> e1000_nvm" where
  "clock_in [] nvm = nvm"
| "clock_in (b # bs) nvm = clock_in bs (snd (clock_bit b nvm))"

fun clock_out :: "nat \<Rightarrow> e1000_nvm \<Rightarrow> bool list \<times> e1000_nvm" where
  "clock_out 0 nvm = ([], nvm)"
| "clock_out (Suc n) nvm =
     (let (d, nvm) = clock_bit False nvm; (ds, nvm) = clock_out n nvm in (d # ds, nvm))"

lemma clock_in_view:
  "clock_low nvm \<Longrightarrow> clock_low (clock_in bs nvm) \<and> nvm_view (clock_in bs nvm) = fold nvm_in bs (nvm_view nvm)"
proof (induction bs arbitrary: nvm)
  case (Cons b bs)
  obtain d n where n: "clock_bit b nvm = (d, n)" "clock_low n" "nvm_view n = nvm_in b (nvm_view nvm)"
    using clock_view [OF Cons.prems, of b] by metis
  then show ?case using Cons.IH [OF n(2)] by simp
qed simp

definition value_of :: "bool list \<Rightarrow> u16" where
  "value_of bs = fold (\<lambda>b w. shifted w b) bs 0"

definition msb_bits :: "nat \<Rightarrow> u16 \<Rightarrow> bool list" where
  "msb_bits n w = map (bit w) (rev [0..<n])"

lemma msb_bits_simps [simp]: "msb_bits 0 w = []" "msb_bits (Suc n) w = bit w n # msb_bits n w"
  by (simp_all add: msb_bits_def)

lemma length_msb_bits [simp]: "length (msb_bits n w) = n"
  by (simp add: msb_bits_def)

lemma fold_shifted: "fold (\<lambda>b w. shifted w b) (msb_bits n w) v = push_bit n v OR take_bit n w"
proof (induction n arbitrary: v)
  case (Suc n)
  have "push_bit n (shifted v (bit w n)) OR take_bit n w = push_bit (Suc n) v OR take_bit (Suc n) w"
    by (rule bit_word_eqI) (auto simp: shifted_def bit_simps less_Suc_eq)
  then show ?case using Suc [of "shifted v (bit w n)"] by simp
qed simp

lemma value_of_bits: "value_of (msb_bits 16 w) = w"
  unfolding value_of_def fold_shifted by (simp add: take_bit_word_eq_self)

section \<open>Commands\<close>

definition nvm_idle :: "e1000_nvm \<Rightarrow> bool" where
  "nvm_idle nvm \<longleftrightarrow> clock_low nvm \<and> nvm_mode nvm = 0 \<and> nvm_bits nvm = 9 \<and> nvm_opaddr nvm = 0 \<and>
     length (eeprom_data nvm) = 64"

lemma nvm_view_sel [simp]:
  "nvm_mode (nvm_view n) = nvm_mode n" "nvm_bits (nvm_view n) = nvm_bits n"
  "nvm_opaddr (nvm_view n) = nvm_opaddr n" "nvm_data (nvm_view n) = nvm_data n"
  "eeprom_data (nvm_view n) = eeprom_data n" "eeprom_control (nvm_view n) = 0"
  by (simp_all add: nvm_view_def)

lemma in_opaddr:
  "nvm_mode n = 0 \<Longrightarrow> nvm_bits n = Suc (Suc k) \<Longrightarrow> eeprom_control n = 0 \<Longrightarrow>
   nvm_in b n = n\<lparr>nvm_opaddr := shifted (nvm_opaddr n) b, nvm_bits := Suc k\<rparr>"
  by (cases b) (simp_all add: nvm_in_def nvm_view_def e82545_eecd_strobe_def shifted_def)

lemma fold_opaddr:
  "nvm_mode n = 0 \<Longrightarrow> nvm_bits n = length bs + Suc k \<Longrightarrow> eeprom_control n = 0 \<Longrightarrow>
   fold nvm_in bs n = n\<lparr>nvm_opaddr := fold (\<lambda>b w. shifted w b) bs (nvm_opaddr n), nvm_bits := Suc k\<rparr>"
proof (induction bs arbitrary: n)
  case (Cons b bs)
  let ?n = "n\<lparr>nvm_opaddr := shifted (nvm_opaddr n) b, nvm_bits := length bs + Suc k\<rparr>"
  have "nvm_in b n = ?n" using Cons.prems in_opaddr [of n "length bs + k" b] by simp
  then show ?case using Cons.IH [of ?n] Cons.prems by simp
qed simp

lemma in_datain:
  "nvm_mode n = 1 \<Longrightarrow> nvm_bits n = Suc (Suc k) \<Longrightarrow> eeprom_control n = 0 \<Longrightarrow>
   nvm_in b n = n\<lparr>nvm_data := shifted (nvm_data n) b, nvm_bits := Suc k\<rparr>"
  by (cases b) (simp_all add: nvm_in_def nvm_view_def e82545_eecd_strobe_def shifted_def)

lemma fold_datain:
  "nvm_mode n = 1 \<Longrightarrow> nvm_bits n = length bs + Suc k \<Longrightarrow> eeprom_control n = 0 \<Longrightarrow>
   fold nvm_in bs n = n\<lparr>nvm_data := fold (\<lambda>b w. shifted w b) bs (nvm_data n), nvm_bits := Suc k\<rparr>"
proof (induction bs arbitrary: n)
  case (Cons b bs)
  let ?n = "n\<lparr>nvm_data := shifted (nvm_data n) b, nvm_bits := length bs + Suc k\<rparr>"
  have "nvm_in b n = ?n" using Cons.prems in_datain [of n "length bs + k" b] by simp
  then show ?case using Cons.IH [of ?n] Cons.prems by simp
qed simp

lemma in_dataout:
  "nvm_mode n = 2 \<Longrightarrow> eeprom_control n = 0 \<Longrightarrow>
   nvm_in b n = (if nvm_bits n = 0 then n
     else if nvm_bits n = 1 then nvm_opmode (n\<lparr>nvm_data := push_bit 1 (nvm_data n)\<rparr>)
     else n\<lparr>nvm_data := push_bit 1 (nvm_data n), nvm_bits := nvm_bits n - 1\<rparr>)"
  by (auto simp: nvm_in_def nvm_view_def e82545_eecd_strobe_def Let_def nvm_opmode_def)

definition read_cmd :: "u16 \<Rightarrow> bool list" where
  "read_cmd a = [True, True, False] @ msb_bits 6 a"

definition write_cmd :: "u16 \<Rightarrow> bool list" where
  "write_cmd a = [True, False, True] @ msb_bits 6 a"

lemma cmd_values:
  "value_of (read_cmd a) = push_bit 6 6 OR take_bit 6 a"
  "value_of (write_cmd a) = push_bit 6 5 OR take_bit 6 a"
  by (simp_all add: value_of_def read_cmd_def write_cmd_def fold_shifted) (simp_all add: shifted_def)

lemma cmd_decode:
  "(push_bit 6 6 OR take_bit 6 a) AND 0x1c0 = (0x180 :: u16)"
  "(push_bit 6 5 OR take_bit 6 a) AND 0x1c0 = (0x140 :: u16)"
  "(push_bit 6 x OR take_bit 6 a) AND 0x3f = take_bit 6 (a :: u16)"
proof -
  have m: "0x3f = (mask 6 :: u16)" "0x1c0 = (push_bit 6 (mask 3) :: u16)"
    by (simp_all add: mask_eq_decr_exp push_bit_eq_mult)
  have op: "(push_bit 6 x OR take_bit 6 a) AND push_bit 6 (mask 3) = push_bit 6 (take_bit 3 x)" for x :: u16
    by (rule bit_word_eqI) (auto simp: bit_simps)
  have "push_bit 6 (take_bit 3 6) = (0x180 :: u16)" "push_bit 6 (take_bit 3 5) = (0x140 :: u16)"
    by (simp_all add: push_bit_eq_mult take_bit_numeral_numeral)
  then show "(push_bit 6 6 OR take_bit 6 a) AND 0x1c0 = (0x180 :: u16)"
    "(push_bit 6 5 OR take_bit 6 a) AND 0x1c0 = (0x140 :: u16)"
    unfolding m(2) op by simp_all
  show "(push_bit 6 x OR take_bit 6 a) AND 0x3f = take_bit 6 (a :: u16)"
    unfolding m(1) by (rule bit_word_eqI) (auto simp: bit_simps)
qed

lemma addr_bits:
  "a < 64 \<Longrightarrow> take_bit 6 a = a" "a < 64 \<Longrightarrow> unat a < 64" for a :: u16
proof -
  show u: "unat a < 64" if "a < 64" using that by (simp add: word_less_nat_alt)
  show "take_bit 6 a = a" if "a < 64"
    using u [OF that] by (simp add: word_unat_eq_iff unsigned_take_bit_eq take_bit_nat_eq_self)
qed

text \<open>The opcode phase: nine bits, the last of which is decoded.\<close>

lemma fold_command:
  assumes "nvm_mode n = 0" "nvm_bits n = 9" "nvm_opaddr n = 0" "eeprom_control n = 0" "length bs = 9"
  shows "\<exists>m b. fold nvm_in bs n = nvm_in b m \<and> m = n\<lparr>nvm_opaddr := nvm_opaddr m, nvm_bits := 1\<rparr> \<and>
    shifted (nvm_opaddr m) b = value_of bs"
proof -
  obtain cs b where cs: "bs = cs @ [b]" "length cs = 8"
    using assms(5) by (cases bs rule: rev_cases) auto
  let ?m = "n\<lparr>nvm_opaddr := fold (\<lambda>b w. shifted w b) cs 0, nvm_bits := 1\<rparr>"
  have "fold nvm_in cs n = ?m"
    using fold_opaddr [of n cs 0] assms cs(2) by simp
  then have "fold nvm_in bs n = nvm_in b ?m" using cs(1) by simp
  moreover have "shifted (nvm_opaddr ?m) b = value_of bs" by (simp add: value_of_def cs(1))
  ultimately show ?thesis by (intro exI [of _ ?m] exI [of _ b]) simp
qed

lemma decode_read:
  assumes "nvm_mode m = 0" "nvm_bits m = 1" "eeprom_control m = 0"
    "shifted (nvm_opaddr m) b = push_bit 6 6 OR take_bit 6 a" "a < 64"
  shows "nvm_in b m = m\<lparr>nvm_opaddr := push_bit 6 6 OR take_bit 6 a, nvm_mode := 2, nvm_bits := 16,
    nvm_data := eeprom_data m ! unat a\<rparr>"
proof -
  define w where "w = push_bit 6 6 OR take_bit 6 a"
  have "w AND 0x1c0 = 0x180" unfolding w_def by (rule cmd_decode)
  moreover have "w AND 0x3f = a" unfolding w_def cmd_decode by (rule addr_bits(1) [OF assms(5)])
  moreover have "unat a < 64" by (rule addr_bits(2) [OF assms(5)])
  ultimately have w: "w AND 0x1c0 = 0x180" "unat (w AND 0x3f) = unat a" "unat a < 64" by simp_all
  have "shifted (nvm_opaddr m) b = w" using assms(4) by (simp only: w_def)
  then show ?thesis unfolding w_def [symmetric] using assms(1-3) w
    by (cases b) (simp_all add: nvm_in_def nvm_view_def e82545_eecd_strobe_def Let_def shifted_def)
qed

lemma decode_write:
  assumes "nvm_mode m = 0" "nvm_bits m = 1" "eeprom_control m = 0"
    "shifted (nvm_opaddr m) b = push_bit 6 5 OR take_bit 6 a"
  shows "nvm_in b m = m\<lparr>nvm_opaddr := push_bit 6 5 OR take_bit 6 a, nvm_mode := 1, nvm_bits := 16,
    nvm_data := 0\<rparr>"
proof -
  define w where "w = push_bit 6 5 OR take_bit 6 a"
  have w: "w AND 0x1c0 = 0x140" unfolding w_def by (rule cmd_decode)
  have "shifted (nvm_opaddr m) b = w" using assms(4) by (simp only: w_def)
  then show ?thesis unfolding w_def [symmetric] using assms(1-3) w
    by (cases b) (simp_all add: nvm_in_def nvm_view_def e82545_eecd_strobe_def Let_def shifted_def)
qed

text \<open>The last data bit of a write.\<close>

lemma store_write:
  assumes "nvm_mode m = 1" "nvm_bits m = 1" "eeprom_control m = 0"
    "nvm_opaddr m = push_bit 6 5 OR take_bit 6 a" "a < 64"
  shows "nvm_in b m = nvm_opmode (m\<lparr>nvm_data := shifted (nvm_data m) b,
    eeprom_data := (eeprom_data m)[unat a := shifted (nvm_data m) b]\<rparr>)"
proof -
  define w where "w = push_bit 6 5 OR take_bit 6 a"
  have "w AND 0x1c0 = 0x140" unfolding w_def by (rule cmd_decode)
  moreover have "w AND 0x3f = a" unfolding w_def cmd_decode by (rule addr_bits(1) [OF assms(5)])
  moreover have "unat a < 64" by (rule addr_bits(2) [OF assms(5)])
  moreover have "nvm_opaddr m = w" using assms(4) by (simp only: w_def)
  ultimately have w: "w AND 0x1c0 = 0x140" "unat (w AND 0x3f) = unat a" "unat a < 64" "nvm_opaddr m = w"
    by simp_all
  then show ?thesis using assms(1-3)
    by (cases b) (simp_all add: nvm_in_def nvm_view_def e82545_eecd_strobe_def Let_def shifted_def nvm_opmode_def)
qed

lemma clock_out_bits:
  assumes "clock_low n" "nvm_mode n = 2" "nvm_bits n = Suc k" "k < 16"
  shows "\<exists>n'. clock_out (Suc k) n = (map (\<lambda>i. bit (nvm_data n) (15 - i)) [0..<Suc k], n') \<and> clock_low n' \<and>
    (\<exists>v. nvm_view n' = nvm_opmode ((nvm_view n)\<lparr>nvm_data := v\<rparr>))"
  using assms
proof (induction k arbitrary: n)
  case 0
  obtain d n' where n': "clock_bit False n = (d, n')" "clock_low n'" "nvm_view n' = nvm_in False (nvm_view n)"
    "d = bit (nvm_data n) 15" using clock_view [OF "0.prems"(1), of False] "0.prems" by (metis nat.distinct(1))
  then show ?case using "0.prems" by (auto simp: in_dataout)
next
  case (Suc k)
  obtain d n1 where n1: "clock_bit False n = (d, n1)" "clock_low n1" "nvm_view n1 = nvm_in False (nvm_view n)"
    "d = bit (nvm_data n) 15" using clock_view [OF Suc.prems(1), of False] Suc.prems by (metis nat.distinct(1))
  have v1: "nvm_view n1 = (nvm_view n)\<lparr>nvm_data := push_bit 1 (nvm_data n), nvm_bits := Suc k\<rparr>"
    using n1(3) Suc.prems by (simp add: in_dataout)
  have s1: "nvm_mode n1 = 2" "nvm_bits n1 = Suc k" "nvm_data n1 = push_bit 1 (nvm_data n)"
    using Suc.prems arg_cong [OF v1, of nvm_mode] arg_cong [OF v1, of nvm_bits] arg_cong [OF v1, of nvm_data] by simp_all
  have "k < 16" using Suc.prems(4) by simp
  from Suc.IH [OF n1(2) s1(1,2) this] obtain n' v where n':
    "clock_out (Suc k) n1 = (map (\<lambda>i. bit (nvm_data n1) (15 - i)) [0..<Suc k], n')" "clock_low n'"
    "nvm_view n' = nvm_opmode ((nvm_view n1)\<lparr>nvm_data := v\<rparr>)" by blast
  have "map (\<lambda>i. bit (nvm_data n) (15 - i)) [0..<Suc (Suc k)] =
      d # map (\<lambda>i. bit (nvm_data n) (15 - Suc i)) [0..<Suc k]"
    using n1(4) by (simp only: map_upt_Suc) simp
  moreover have "clock_out (Suc (Suc k)) n = (d # map (\<lambda>i. bit (nvm_data n1) (15 - i)) [0..<Suc k], n')"
    using n1(1) n'(1) by (simp only: clock_out.simps Let_def prod.case)
  moreover have "nvm_view n' = nvm_opmode ((nvm_view n)\<lparr>nvm_data := v\<rparr>)"
    unfolding n'(3) v1 by (simp add: nvm_opmode_def)
  moreover have "map (\<lambda>i. bit (nvm_data n1) (15 - i)) [0..<Suc k] =
      map (\<lambda>i. bit (nvm_data n) (15 - Suc i)) [0..<Suc k]"
    unfolding s1(3) bit_push_bit_iff using Suc.prems(4) by (intro map_cong [OF refl]) auto
  ultimately show ?case using n'(2) by auto
qed

lemma msb_bits_down: "map (\<lambda>i. bit w (15 - i)) [0..<Suc 15] = msb_bits 16 w"
  by (rule nth_equalityI) (simp_all add: msb_bits_def rev_nth del: upt_Suc)

lemma length_cmds: "length (read_cmd a) = 9" "length (write_cmd a) = 9"
  by (simp_all add: read_cmd_def write_cmd_def)

lemma idle_view: "nvm_idle nvm \<Longrightarrow> nvm_mode (nvm_view nvm) = 0 \<and> nvm_bits (nvm_view nvm) = 9 \<and>
    nvm_opaddr (nvm_view nvm) = 0 \<and> eeprom_control (nvm_view nvm) = 0 \<and> clock_low nvm"
  by (simp add: nvm_idle_def)

lemma read_clocked:
  assumes "nvm_idle nvm" "a < 64"
  shows "\<exists>ds nvm'. clock_out 16 (clock_in (read_cmd a) nvm) = (ds, nvm') \<and>
    value_of ds = eeprom_data nvm ! unat a \<and> nvm_idle nvm' \<and> eeprom_data nvm' = eeprom_data nvm"
proof -
  note iv = idle_view [OF assms(1)]
  define n where "n = clock_in (read_cmd a) nvm"
  have n: "clock_low n" "nvm_view n = fold nvm_in (read_cmd a) (nvm_view nvm)"
    using clock_in_view [of nvm "read_cmd a"] iv by (simp_all add: n_def)
  obtain m b where m: "fold nvm_in (read_cmd a) (nvm_view nvm) = nvm_in b m"
    "m = (nvm_view nvm)\<lparr>nvm_opaddr := nvm_opaddr m, nvm_bits := 1\<rparr>"
    "shifted (nvm_opaddr m) b = value_of (read_cmd a)"
    using fold_command [of "nvm_view nvm" "read_cmd a"] iv length_cmds by metis
  have ms: "nvm_mode m = 0" "nvm_bits m = 1" "eeprom_control m = 0" "eeprom_data m = eeprom_data nvm"
    using arg_cong [OF m(2), of nvm_mode] arg_cong [OF m(2), of nvm_bits]
      arg_cong [OF m(2), of eeprom_control] arg_cong [OF m(2), of eeprom_data] iv by simp_all
  have "nvm_view n = m\<lparr>nvm_opaddr := push_bit 6 6 OR take_bit 6 a, nvm_mode := 2, nvm_bits := 16,
      nvm_data := eeprom_data m ! unat a\<rparr>"
    unfolding n(2) m(1) by (rule decode_read [OF ms(1-3) m(3) [unfolded cmd_values] assms(2)])
  note v = this
  have ns: "nvm_mode n = 2" "nvm_bits n = Suc 15" "nvm_data n = eeprom_data nvm ! unat a"
    "eeprom_data n = eeprom_data nvm"
    using arg_cong [OF v, of nvm_mode] arg_cong [OF v, of nvm_bits] arg_cong [OF v, of nvm_data]
      arg_cong [OF v, of eeprom_data] ms(4) by simp_all
  obtain n' x where n': "clock_out (Suc 15) n = (map (\<lambda>i. bit (nvm_data n) (15 - i)) [0..<Suc 15], n')"
    "clock_low n'" "nvm_view n' = nvm_opmode ((nvm_view n)\<lparr>nvm_data := x\<rparr>)"
    using clock_out_bits [OF n(1) ns(1,2)] by auto
  have "nvm_mode n' = 0 \<and> nvm_bits n' = 9 \<and> nvm_opaddr n' = 0 \<and> eeprom_data n' = eeprom_data nvm"
    using arg_cong [OF n'(3), of nvm_mode] arg_cong [OF n'(3), of nvm_bits]
      arg_cong [OF n'(3), of nvm_opaddr] arg_cong [OF n'(3), of eeprom_data] ns(4)
    by (simp add: nvm_opmode_def)
  then have "nvm_idle n' \<and> eeprom_data n' = eeprom_data nvm"
    using n'(2) assms(1) by (simp add: nvm_idle_def)
  moreover have "clock_out 16 n = (msb_bits 16 (eeprom_data nvm ! unat a), n')"
    using n'(1) unfolding msb_bits_down ns(3) by simp
  ultimately show ?thesis unfolding n_def using value_of_bits by metis
qed

lemma write_clocked:
  assumes "nvm_idle nvm" "a < 64"
  shows "nvm_idle (clock_in (write_cmd a @ msb_bits 16 v) nvm) \<and>
    eeprom_data (clock_in (write_cmd a @ msb_bits 16 v) nvm) = (eeprom_data nvm)[unat a := v]"
proof -
  note iv = idle_view [OF assms(1)]
  define n where "n = clock_in (write_cmd a @ msb_bits 16 v) nvm"
  have n: "clock_low n" "nvm_view n = fold nvm_in (msb_bits 16 v) (fold nvm_in (write_cmd a) (nvm_view nvm))"
    using clock_in_view [of nvm "write_cmd a @ msb_bits 16 v"] iv by (simp_all add: n_def)
  obtain m b where m: "fold nvm_in (write_cmd a) (nvm_view nvm) = nvm_in b m"
    "m = (nvm_view nvm)\<lparr>nvm_opaddr := nvm_opaddr m, nvm_bits := 1\<rparr>"
    "shifted (nvm_opaddr m) b = value_of (write_cmd a)"
    using fold_command [of "nvm_view nvm" "write_cmd a"] iv length_cmds by metis
  have ms: "nvm_mode m = 0" "nvm_bits m = 1" "eeprom_control m = 0" "eeprom_data m = eeprom_data nvm"
    using arg_cong [OF m(2), of nvm_mode] arg_cong [OF m(2), of nvm_bits]
      arg_cong [OF m(2), of eeprom_control] arg_cong [OF m(2), of eeprom_data] iv by simp_all
  define w where "w = nvm_in b m"
  have w: "w = m\<lparr>nvm_opaddr := push_bit 6 5 OR take_bit 6 a, nvm_mode := 1, nvm_bits := 16, nvm_data := 0\<rparr>"
    unfolding w_def by (rule decode_write [OF ms(1-3) m(3) [unfolded cmd_values]])
  obtain cs c where cs: "msb_bits 16 v = cs @ [c]" "length cs = 15"
    using length_msb_bits [of 16 v] by (cases "msb_bits 16 v" rule: rev_cases) auto
  define x where "x = w\<lparr>nvm_data := fold (\<lambda>b w. shifted w b) cs 0, nvm_bits := 1\<rparr>"
  have "fold nvm_in cs w = x" using fold_datain [of w cs 0] cs(2) ms(3) by (simp add: w x_def)
  then have "nvm_view n = nvm_in c x" using n(2) cs(1) by (simp add: m(1) w_def)
  also have "\<dots> = nvm_opmode (x\<lparr>nvm_data := shifted (nvm_data x) c,
      eeprom_data := (eeprom_data x)[unat a := shifted (nvm_data x) c]\<rparr>)"
    using ms(3) assms(2) by (intro store_write) (simp_all add: x_def w)
  also have "shifted (nvm_data x) c = v"
    using value_of_bits [of v] by (simp add: x_def value_of_def cs(1))
  finally have v: "nvm_view n = nvm_opmode (x\<lparr>nvm_data := v, eeprom_data := (eeprom_data x)[unat a := v]\<rparr>)" .
  have "nvm_mode n = 0 \<and> nvm_bits n = 9 \<and> nvm_opaddr n = 0 \<and> eeprom_data n = (eeprom_data nvm)[unat a := v]"
    using arg_cong [OF v, of nvm_mode] arg_cong [OF v, of nvm_bits]
      arg_cong [OF v, of nvm_opaddr] arg_cong [OF v, of eeprom_data] ms(4)
    by (simp add: nvm_opmode_def x_def w)
  then show ?thesis using n(1) assms(1) unfolding n_def by (simp add: nvm_idle_def)
qed

section \<open>Properties\<close>

text \<open>C26: A guest that clocks the read command and an address into an idle EEPROM and then sixteen bits out
  receives the word stored at that address; clocking in the write command, an address and
  sixteen bits stores exactly that word there and changes no other. Either way the state
  machine is idle again, ready for the next command.\<close>

theorem eeprom_protocol:
  assumes "nvm_idle nvm" "a < 64"
  shows "(\<exists>ds nvm'. clock_out 16 (clock_in (read_cmd a) nvm) = (ds, nvm') \<and>
      value_of ds = eeprom_data nvm ! unat a \<and> nvm_idle nvm' \<and> eeprom_data nvm' = eeprom_data nvm) \<and>
    nvm_idle (clock_in (write_cmd a @ msb_bits 16 v) nvm) \<and>
    eeprom_data (clock_in (write_cmd a @ msb_bits 16 v) nvm) = (eeprom_data nvm)[unat a := v]"
  using read_clocked [OF assms] write_clocked [OF assms] by blast

definition wit_nvm :: e1000_nvm where
  "wit_nvm = \<lparr>eeprom_control = 0x120, nvm_data = 0, nvm_opaddr = 0, nvm_bits = 9, nvm_mode = 0,
     eeprom_data = map of_nat [100..<164]\<rparr>"

theorem eeprom_protocol_witness:
  "(\<exists>ds nvm'. clock_out 16 (clock_in (read_cmd 3) wit_nvm) = (ds, nvm') \<and> value_of ds = 103) \<and>
   eeprom_data (clock_in (write_cmd 5 @ msb_bits 16 0xabcd) wit_nvm) ! 5 = 0xabcd"
proof -
  have i: "nvm_idle wit_nvm" by (simp add: nvm_idle_def wit_nvm_def clock_low_def)
  have d: "eeprom_data wit_nvm ! 3 = 103" "length (eeprom_data wit_nvm) = 64" by (simp_all add: wit_nvm_def)
  show ?thesis using eeprom_protocol [OF i, of 3 0] eeprom_protocol [OF i, of 5 "0xabcd"] d by auto
qed

text \<open>Whatever the EEPROM held before, after initialisation its sixty-four words add up to the
  sum that the guest's driver checks, and the station address is where the driver reads it.\<close>

theorem init_eeprom_checksum:
  assumes "length (eeprom_data nvm) = 64"
  shows "sum_list (eeprom_data (e82545_init_eeprom mac nvm)) = 0xbaba \<and>
    take 3 (eeprom_data (e82545_init_eeprom mac nvm)) =
      [mac_word (mac ! 0) (mac ! 1), mac_word (mac ! 2) (mac ! 3), mac_word (mac ! 4) (mac ! 5)]"
proof -
  define d where "d = (eeprom_data nvm)
    [0 := mac_word (mac ! 0) (mac ! 1), 1 := mac_word (mac ! 2) (mac ! 3), 2 := mac_word (mac ! 4) (mac ! 5),
     11 := E82545_SUBDEV_ID, 12 := E82545_VENDOR_ID_INTEL, 13 := E82545_DEV_ID_82545EM_COPPER,
     14 := E82545_VENDOR_ID_INTEL]"
  define c where "c = fold (\<lambda>i checksum. checksum + d ! i) [0..<63] 0"
  have d: "eeprom_data (e82545_init_eeprom mac nvm) = d[63 := 0xbaba - c]" "length d = 64"
    using assms by (simp_all add: e82545_init_eeprom_def Let_def c_def d_def numeral_2_eq_2)
  have d3: "d ! 0 = mac_word (mac ! 0) (mac ! 1)" "d ! 1 = mac_word (mac ! 2) (mac ! 3)"
    "d ! 2 = mac_word (mac ! 4) (mac ! 5)"
    using assms by (simp_all add: d_def)
  have "fold (\<lambda>i s. s + d ! i) [0..<n] 0 = sum_list (take n d)" if "n \<le> 64" for n
    using that d(2) by (induction n) (simp_all add: take_Suc_conv_app_nth)
  then have c: "c = sum_list (take 63 d)" by (simp add: c_def)
  have "d[63 := 0xbaba - c] = take 63 d @ [0xbaba - c]"
    using d(2) by (simp add: upd_conv_take_nth_drop)
  moreover have "take 3 d = [d ! 0, d ! 1, d ! 2]"
    using d(2) by (simp add: take_Suc_conv_app_nth numeral_3_eq_3 numeral_2_eq_2)
  ultimately show ?thesis using d d3 c by simp
qed

theorem init_eeprom_checksum_witness:
  "sum_list (eeprom_data (e82545_init_eeprom [0, 7, 0xed, 0x63, 0xe4, 0x91] wit_nvm)) = 0xbaba"
  using init_eeprom_checksum [of wit_nvm "[0, 7, 0xed, 0x63, 0xe4, 0x91]"] by (simp add: wit_nvm_def)

end
