(* ===== verification/E1000_Regs.thy ===== *)
theory E1000_Regs
  imports E1000_Intr E1000_Eeprom
begin

text \<open>
  \<open>bhyve/pci_e82545.c\<close>: the register file of the emulated network card, its
  reset, and the accesses the guest makes to it through the card's BARs.

  The structure \<open>e82545_softc\<close> is kept in parts: interrupts and EEPROM as in
  their own theories, and one record each for transmission, reception, address
  filters and statistics. Register offsets and bits are those of the data
  sheet (\<open>e1000_regs.h\<close>, \<open>e1000_defines.h\<close>).
\<close>

section \<open>State\<close>

record e1000_tx =
  esc_txdesc :: "u64 option"
  esc_txctx :: "u8 list"
  esc_tx_enabled :: bool
  esc_tx_active :: bool
  esc_TXCW :: u32
  esc_TCTL :: u32
  esc_TIPG :: u32
  esc_AIT :: u16
  esc_tdba :: u64
  esc_TDBAL :: u32
  esc_TDBAH :: u32
  esc_TDLEN :: u32
  esc_TDH :: u16
  esc_TDHr :: u16
  esc_TDT :: u16
  esc_TIDV :: u32
  esc_TXDCTL :: u32
  esc_TADV :: u32

record eth_uni =
  eu_valid :: bool
  eu_addrsel :: u32
  eu_eth :: "u8 list"

record e1000_l2 =
  esc_uni :: "eth_uni list"
  esc_fmcast :: "u32 list"
  esc_fvlan :: "u32 list"

record e1000_rx =
  esc_rxdesc :: "u64 option"
  esc_rx_enabled :: bool
  esc_rx_active :: bool
  esc_rx_loopback :: bool
  esc_RCTL :: u32
  esc_FCRTL :: u32
  esc_FCRTH :: u32
  esc_rdba :: u64
  esc_RDBAL :: u32
  esc_RDBAH :: u32
  esc_RDLEN :: u32
  esc_RDH :: u16
  esc_RDT :: u16
  esc_RDTR :: u32
  esc_RXDCTL :: u32
  esc_RADV :: u32
  esc_RSRPD :: u32
  esc_RXCSUM :: u32

text \<open>The counters are never incremented by the code; they are read only.\<close>

record e1000_stats =
  missed_pkt_count :: u32
  pkt_rx_by_size :: "u32 list"
  pkt_tx_by_size :: "u32 list"
  good_pkt_rx_count :: u32
  bcast_pkt_rx_count :: u32
  mcast_pkt_rx_count :: u32
  good_pkt_tx_count :: u32
  bcast_pkt_tx_count :: u32
  mcast_pkt_tx_count :: u32
  oversize_rx_count :: u32
  tso_tx_count :: u32
  good_octets_rx :: u64
  good_octets_tx :: u64
  missed_octets :: u64

record e82545_softc =
  intr_part :: e1000_intr
  nvm_part :: e1000_nvm
  tx_part :: e1000_tx
  rx_part :: e1000_rx
  l2_part :: e1000_l2
  stats_part :: e1000_stats
  esc_mac :: "u8 list"
  esc_CTRL :: u32
  esc_FCAL :: u32
  esc_FCAH :: u32
  esc_FCT :: u32
  esc_VET :: u32
  esc_FCTTV :: u32
  esc_LEDCTL :: u32
  esc_PBA :: u32
  io_addr :: u32
  mdi_control :: u32

definition on_intr :: "(e1000_intr \<Rightarrow> e1000_intr res) \<Rightarrow> e82545_softc \<Rightarrow> e82545_softc res" where
  "on_intr f sc = bindE (f (intr_part sc)) (\<lambda>i. Inr (sc\<lparr>intr_part := i\<rparr>))"

definition upd_tx :: "(e1000_tx \<Rightarrow> e1000_tx) \<Rightarrow> e82545_softc \<Rightarrow> e82545_softc" where
  "upd_tx f sc = sc\<lparr>tx_part := f (tx_part sc)\<rparr>"

definition upd_rx :: "(e1000_rx \<Rightarrow> e1000_rx) \<Rightarrow> e82545_softc \<Rightarrow> e82545_softc" where
  "upd_rx f sc = sc\<lparr>rx_part := f (rx_part sc)\<rparr>"

definition upd_l2 :: "(e1000_l2 \<Rightarrow> e1000_l2) \<Rightarrow> e82545_softc \<Rightarrow> e82545_softc" where
  "upd_l2 f sc = sc\<lparr>l2_part := f (l2_part sc)\<rparr>"

section \<open>Enabling and disabling the queues\<close>

text \<open>
  \<open>paddr_guest2host\<close> of \<open>bhyve_support.c\<close>: the address under which the model reads a
  guest address; \<open>iommu\<close> is the build option \<open>CONFIG_IOMMU\<close>.
\<close>

definition paddr_guest2host :: "bool \<Rightarrow> u64 \<Rightarrow> u64" where
  "paddr_guest2host iommu gaddr = (if iommu then gaddr else gaddr OR 0x9000000000000000)"

definition e82545_tx_enable :: "e82545_softc \<Rightarrow> e82545_softc" where
  "e82545_tx_enable sc = upd_tx (\<lambda>t. t\<lparr>esc_tx_enabled := True\<rparr>) sc"

definition e82545_rx_enable :: "e82545_softc \<Rightarrow> e82545_softc" where
  "e82545_rx_enable sc = upd_rx (\<lambda>r. r\<lparr>esc_rx_enabled := True\<rparr>) sc"

text \<open>The wait for the queue to become idle, \<open>None\<close> if it does not end.\<close>

definition esc_cond_wait :: "e82545_softc \<Rightarrow> e82545_softc" where
  "esc_cond_wait sc =
     sc\<lparr>intr_part := (intr_part sc)\<lparr>esc_mtx := snd (pthread_cond_wait (esc_mtx (intr_part sc)))\<rparr>\<rparr>"

partial_function (option) tx_wait :: "e82545_softc \<Rightarrow> e82545_softc option" where
  "tx_wait sc = (if esc_tx_active (tx_part sc) then tx_wait (esc_cond_wait sc) else Some sc)"

partial_function (option) rx_wait :: "e82545_softc \<Rightarrow> e82545_softc option" where
  "rx_wait sc = (if esc_rx_active (rx_part sc) then rx_wait (esc_cond_wait sc) else Some sc)"

definition e82545_tx_disable :: "e82545_softc \<Rightarrow> e82545_softc res" where
  "e82545_tx_disable sc =
     (case tx_wait (upd_tx (\<lambda>t. t\<lparr>esc_tx_enabled := False\<rparr>) sc) of None \<Rightarrow> Inl No_return | Some sc \<Rightarrow> Inr sc)"

definition e82545_rx_disable :: "e82545_softc \<Rightarrow> e82545_softc res" where
  "e82545_rx_disable sc =
     (case rx_wait (upd_rx (\<lambda>r. r\<lparr>esc_rx_enabled := False\<rparr>) sc) of None \<Rightarrow> Inl No_return | Some sc \<Rightarrow> Inr sc)"

text \<open>Signalling a condition variable does nothing on this target.\<close>

definition e82545_tx_start :: "e82545_softc \<Rightarrow> e82545_softc" where
  "e82545_tx_start sc = sc"

definition e82545_rx_update_rdba :: "bool \<Rightarrow> e82545_softc \<Rightarrow> e82545_softc" where
  "e82545_rx_update_rdba iommu sc =
     upd_rx (\<lambda>r. let rdba = word_cat (esc_RDBAH r) (esc_RDBAL r) in
       r\<lparr>esc_rdba := rdba, esc_rxdesc := Some (paddr_guest2host iommu rdba)\<rparr>) sc"

definition e82545_tx_update_tdba :: "bool \<Rightarrow> e82545_softc \<Rightarrow> e82545_softc" where
  "e82545_tx_update_tdba iommu sc =
     upd_tx (\<lambda>t. let tdba = word_cat (esc_TDBAH t) (esc_TDBAL t) in
       t\<lparr>esc_tdba := tdba, esc_txdesc := Some (paddr_guest2host iommu tdba)\<rparr>) sc"

abbreviation (input) E1000_CTRL_RST :: u32 where "E1000_CTRL_RST \<equiv> 0x04000000"
abbreviation (input) E1000_RCTL_EN :: u32 where "E1000_RCTL_EN \<equiv> 0x00000002"
abbreviation (input) E1000_RCTL_LBM_TCVR :: u32 where "E1000_RCTL_LBM_TCVR \<equiv> 0x000000c0"
abbreviation (input) E1000_TCTL_EN :: u32 where "E1000_TCTL_EN \<equiv> 0x00000002"

definition e82545_rx_ctl :: "bool \<Rightarrow> u32 \<Rightarrow> e82545_softc \<Rightarrow> e82545_softc res" where
  "e82545_rx_ctl iommu val sc =
     (let on = (val AND E1000_RCTL_EN = E1000_RCTL_EN);
          sc = upd_rx (\<lambda>r. r\<lparr>esc_RCTL := val AND NOT 0xF9204c01\<rparr>) sc
      in if on \<noteq> esc_rx_enabled (rx_part sc) then
           if on then
             (let sc = upd_rx (\<lambda>r. r\<lparr>esc_rx_loopback := (esc_RCTL r AND E1000_RCTL_LBM_TCVR \<noteq> 0)\<rparr>) sc
              in Inr (e82545_rx_enable (e82545_rx_update_rdba iommu sc)))
           else
             bindE (e82545_rx_disable sc) (\<lambda>sc.
             Inr (upd_rx (\<lambda>r. r\<lparr>esc_rx_loopback := False, esc_rdba := 0, esc_rxdesc := None\<rparr>) sc))
         else Inr sc)"

definition e82545_tx_ctl :: "bool \<Rightarrow> u32 \<Rightarrow> e82545_softc \<Rightarrow> e82545_softc res" where
  "e82545_tx_ctl iommu val sc =
     (let on = (val AND E1000_TCTL_EN = E1000_TCTL_EN)
      in if on = esc_tx_enabled (tx_part sc) then Inr sc
         else
           bindE (if on then Inr (e82545_tx_enable (e82545_tx_update_tdba iommu sc))
                  else bindE (e82545_tx_disable sc) (\<lambda>sc.
                    Inr (upd_tx (\<lambda>t. t\<lparr>esc_tdba := 0, esc_txdesc := None\<rparr>) sc))) (\<lambda>sc.
           Inr (upd_tx (\<lambda>t. t\<lparr>esc_TCTL := val AND NOT 0xFE800005\<rparr>) sc)))"

section \<open>Reset\<close>

definition zero_uni :: eth_uni where
  "zero_uni = \<lparr>eu_valid = False, eu_addrsel = 0, eu_eth = replicate 6 0\<rparr>"

text \<open>The parts of \<open>e82545_reset\<close>; \<open>drvr\<close> says that the driver asked for it.\<close>

definition reset_nvm :: "u8 list \<Rightarrow> e1000_nvm \<Rightarrow> e1000_nvm" where
  "reset_nvm mac nvm =
     e82545_init_eeprom mac (nvm\<lparr>nvm_opaddr := 0, nvm_mode := E82545_NVM_MODE_OPADDR,
       nvm_bits := E82545_NVM_OPADDR_BITS, eeprom_control := E1000_EECD_PRES OR E82545_EECD_FWE_EN\<rparr>)"

definition reset_l2 :: "bool \<Rightarrow> u8 list \<Rightarrow> e1000_l2 \<Rightarrow> e1000_l2" where
  "reset_l2 drvr mac l =
     (if \<not> drvr then
        \<lparr>esc_uni = \<lparr>eu_valid = True, eu_addrsel = 0, eu_eth = mac\<rparr> # replicate 15 zero_uni,
         esc_fmcast = replicate 128 0, esc_fvlan = replicate 128 0\<rparr>
      else l\<lparr>esc_uni := map (\<lambda>u. u\<lparr>eu_valid := False\<rparr>) (esc_uni l)\<rparr>)"

definition reset_rx :: "bool \<Rightarrow> e1000_rx \<Rightarrow> e1000_rx" where
  "reset_rx drvr r =
     (let r = (if \<not> drvr then r\<lparr>esc_RDBAL := 0, esc_RDBAH := 0\<rparr> else r)
      in r\<lparr>esc_RCTL := 0, esc_FCRTL := 0, esc_FCRTH := 0, esc_RDLEN := 0, esc_RDH := 0, esc_RDT := 0,
           esc_RDTR := 0, esc_RXDCTL := push_bit 24 1 OR push_bit 16 1, esc_RADV := 0, esc_RXCSUM := 0\<rparr>)"

definition reset_tx :: "bool \<Rightarrow> e1000_tx \<Rightarrow> e1000_tx" where
  "reset_tx drvr t =
     (let t = (if \<not> drvr then t\<lparr>esc_TDBAL := 0, esc_TDBAH := 0, esc_TIPG := 0, esc_AIT := 0, esc_TIDV := 0,
                 esc_TADV := 0\<rparr> else t)
      in t\<lparr>esc_tdba := 0, esc_txdesc := None, esc_TXCW := 0, esc_TCTL := 0, esc_TDLEN := 0, esc_TDT := 0,
           esc_TDHr := 0, esc_TDH := 0, esc_TXDCTL := 0\<rparr>)"

definition e82545_reset :: "bool \<Rightarrow> e82545_softc \<Rightarrow> e82545_softc res" where
  "e82545_reset drvr sc =
     bindE (e82545_rx_disable sc) (\<lambda>sc.
     bindE (e82545_tx_disable sc) (\<lambda>sc.
     bindE (if esc_irq_asserted (intr_part sc) then on_intr pin_down sc else Inr sc) (\<lambda>sc.
     let sc = (if \<not> drvr then sc\<lparr>esc_FCAL := 0, esc_FCAH := 0, esc_FCT := 0, esc_VET := 0, esc_FCTTV := 0\<rparr>
               else sc)
     in Inr (sc\<lparr>esc_LEDCTL := 0x07061302, esc_PBA := 0x00100030,
          nvm_part := reset_nvm (esc_mac sc) (nvm_part sc),
          intr_part := reset_intr (intr_part sc),
          l2_part := reset_l2 drvr (esc_mac sc) (l2_part sc),
          rx_part := reset_rx drvr (rx_part sc),
          tx_part := reset_tx drvr (tx_part sc)\<rparr>))))"

definition e82545_devctl :: "u32 \<Rightarrow> e82545_softc \<Rightarrow> e82545_softc res" where
  "e82545_devctl val sc =
     (let sc = sc\<lparr>esc_CTRL := val AND NOT E1000_CTRL_RST\<rparr>
      in if val AND E1000_CTRL_RST \<noteq> 0 then e82545_reset True sc else Inr sc)"

section \<open>Receive addresses\<close>

abbreviation (input) E1000_RAH_AV :: u32 where "E1000_RAH_AV \<equiv> 0x80000000"

text \<open>\<open>reg\<close> counts the 32-bit registers from \<open>RAL(0)\<close>.\<close>

definition e82545_write_ra :: "nat \<Rightarrow> u32 \<Rightarrow> e1000_l2 \<Rightarrow> e1000_l2 res" where
  "e82545_write_ra reg wval l =
     (let idx = reg div 2 in
      bindE (assertE (idx < 15)) (\<lambda>_.
      let eu = esc_uni l ! idx;
          eth = eu_eth eu;
          eu = (if odd reg then
                  eu\<lparr>eu_valid := (wval AND E1000_RAH_AV = E1000_RAH_AV),
                     eu_addrsel := drop_bit 16 wval AND 0x3,
                     eu_eth := eth[5 := ucast (drop_bit 8 wval), 4 := ucast wval]\<rparr>
                else
                  eu\<lparr>eu_eth := eth[3 := ucast (drop_bit 24 wval), 2 := ucast (drop_bit 16 wval),
                       1 := ucast (drop_bit 8 wval), 0 := ucast wval]\<rparr>)
      in Inr (l\<lparr>esc_uni := (esc_uni l)[idx := eu]\<rparr>)))"

definition e82545_read_ra :: "nat \<Rightarrow> e1000_l2 \<Rightarrow> u32 res" where
  "e82545_read_ra reg l =
     (let idx = reg div 2 in
      bindE (assertE (idx < 15)) (\<lambda>_.
      let eu = esc_uni l ! idx;
          oct = (\<lambda>i. ucast (eu_eth eu ! i) :: u32)
      in Inr (if odd reg then
                push_bit 31 (of_bool (eu_valid eu)) OR push_bit 16 (eu_addrsel eu) OR
                push_bit 8 (oct 5) OR oct 4
              else push_bit 24 (oct 3) OR push_bit 16 (oct 2) OR push_bit 8 (oct 1) OR oct 0)))"

section \<open>Register writes\<close>

abbreviation (input) E1000_CTRL :: u32 where "E1000_CTRL \<equiv> 0x00000"
abbreviation (input) E1000_CTRL_DUP :: u32 where "E1000_CTRL_DUP \<equiv> 0x00004"
abbreviation (input) E1000_STATUS :: u32 where "E1000_STATUS \<equiv> 0x00008"
abbreviation (input) E1000_EECD :: u32 where "E1000_EECD \<equiv> 0x00010"
abbreviation (input) E1000_MDIC :: u32 where "E1000_MDIC \<equiv> 0x00020"
abbreviation (input) E1000_FCAL :: u32 where "E1000_FCAL \<equiv> 0x00028"
abbreviation (input) E1000_FCAH :: u32 where "E1000_FCAH \<equiv> 0x0002c"
abbreviation (input) E1000_FCT :: u32 where "E1000_FCT \<equiv> 0x00030"
abbreviation (input) E1000_VET :: u32 where "E1000_VET \<equiv> 0x00038"
abbreviation (input) E1000_RCTL :: u32 where "E1000_RCTL \<equiv> 0x00100"
abbreviation (input) E1000_FCTTV :: u32 where "E1000_FCTTV \<equiv> 0x00170"
abbreviation (input) E1000_TXCW :: u32 where "E1000_TXCW \<equiv> 0x00178"
abbreviation (input) E1000_TCTL :: u32 where "E1000_TCTL \<equiv> 0x00400"
abbreviation (input) E1000_TIPG :: u32 where "E1000_TIPG \<equiv> 0x00410"
abbreviation (input) E1000_AIT :: u32 where "E1000_AIT \<equiv> 0x00458"
abbreviation (input) E1000_LEDCTL :: u32 where "E1000_LEDCTL \<equiv> 0x00e00"
abbreviation (input) E1000_PBA :: u32 where "E1000_PBA \<equiv> 0x01000"
abbreviation (input) E1000_FCRTL :: u32 where "E1000_FCRTL \<equiv> 0x02160"
abbreviation (input) E1000_FCRTH :: u32 where "E1000_FCRTH \<equiv> 0x02168"
abbreviation (input) E1000_RDBAL0 :: u32 where "E1000_RDBAL0 \<equiv> 0x02800"
abbreviation (input) E1000_RDBAH0 :: u32 where "E1000_RDBAH0 \<equiv> 0x02804"
abbreviation (input) E1000_RDLEN0 :: u32 where "E1000_RDLEN0 \<equiv> 0x02808"
abbreviation (input) E1000_RDH0 :: u32 where "E1000_RDH0 \<equiv> 0x02810"
abbreviation (input) E1000_RDT0 :: u32 where "E1000_RDT0 \<equiv> 0x02818"
abbreviation (input) E1000_RDTR :: u32 where "E1000_RDTR \<equiv> 0x02820"
abbreviation (input) E1000_RXDCTL0 :: u32 where "E1000_RXDCTL0 \<equiv> 0x02828"
abbreviation (input) E1000_RADV :: u32 where "E1000_RADV \<equiv> 0x0282c"
abbreviation (input) E1000_RSRPD :: u32 where "E1000_RSRPD \<equiv> 0x02c00"
abbreviation (input) E1000_TDBAL0 :: u32 where "E1000_TDBAL0 \<equiv> 0x03800"
abbreviation (input) E1000_TDBAH0 :: u32 where "E1000_TDBAH0 \<equiv> 0x03804"
abbreviation (input) E1000_TDLEN0 :: u32 where "E1000_TDLEN0 \<equiv> 0x03808"
abbreviation (input) E1000_TDH0 :: u32 where "E1000_TDH0 \<equiv> 0x03810"
abbreviation (input) E1000_TDT0 :: u32 where "E1000_TDT0 \<equiv> 0x03818"
abbreviation (input) E1000_TIDV :: u32 where "E1000_TIDV \<equiv> 0x03820"
abbreviation (input) E1000_TXDCTL0 :: u32 where "E1000_TXDCTL0 \<equiv> 0x03828"
abbreviation (input) E1000_TADV :: u32 where "E1000_TADV \<equiv> 0x0382c"
abbreviation (input) E1000_RXCSUM :: u32 where "E1000_RXCSUM \<equiv> 0x05000"
abbreviation (input) E1000_MTA :: u32 where "E1000_MTA \<equiv> 0x05200"
abbreviation (input) E1000_RAL0 :: u32 where "E1000_RAL0 \<equiv> 0x05400"
abbreviation (input) E1000_RAH15 :: u32 where "E1000_RAH15 \<equiv> 0x0547c"
abbreviation (input) E1000_VFTA :: u32 where "E1000_VFTA \<equiv> 0x05600"
abbreviation (input) E1000_MANC :: u32 where "E1000_MANC \<equiv> 0x05820"

text \<open>
  The \<open>switch\<close> of \<open>e82545_write_register\<close> in four parts; \<open>None\<close> says that the offset
  belongs to a later part.
\<close>

definition write_general :: "u32 \<Rightarrow> u32 \<Rightarrow> e82545_softc \<Rightarrow> e82545_softc res option" where
  "write_general offset value sc =
     (if offset = E1000_CTRL \<or> offset = E1000_CTRL_DUP then Some (e82545_devctl value sc)
      else if offset = E1000_FCAL then Some (Inr (sc\<lparr>esc_FCAL := value\<rparr>))
      else if offset = E1000_FCAH then Some (Inr (sc\<lparr>esc_FCAH := value AND NOT 0xFFFF0000\<rparr>))
      else if offset = E1000_FCT then Some (Inr (sc\<lparr>esc_FCT := value AND NOT 0xFFFF0000\<rparr>))
      else if offset = E1000_VET then Some (Inr (sc\<lparr>esc_VET := value AND NOT 0xFFFF0000\<rparr>))
      else if offset = E1000_FCTTV then Some (Inr (sc\<lparr>esc_FCTTV := value AND NOT 0xFFFF0000\<rparr>))
      else if offset = E1000_LEDCTL then Some (Inr (sc\<lparr>esc_LEDCTL := value AND NOT 0x30303000\<rparr>))
      else if offset = E1000_PBA then Some (Inr (sc\<lparr>esc_PBA := value AND 0x0000FF80\<rparr>))
      else if offset = E1000_ICR \<or> offset = E1000_ITR \<or> offset = E1000_ICS \<or> offset = E1000_IMS \<or>
              offset = E1000_IMC then Some (on_intr (e82545_intr_write offset value) sc)
      else None)"

definition write_rx :: "bool \<Rightarrow> u32 \<Rightarrow> u32 \<Rightarrow> e82545_softc \<Rightarrow> e82545_softc res option" where
  "write_rx iommu offset value sc =
     (if offset = E1000_RCTL then Some (e82545_rx_ctl iommu value sc)
      else if offset = E1000_FCRTL then Some (Inr (upd_rx (\<lambda>r. r\<lparr>esc_FCRTL := value AND NOT 0xFFFF0007\<rparr>) sc))
      else if offset = E1000_FCRTH then Some (Inr (upd_rx (\<lambda>r. r\<lparr>esc_FCRTH := value AND NOT 0xFFFF0007\<rparr>) sc))
      else if offset = E1000_RDBAL0 then
        (let sc = upd_rx (\<lambda>r. r\<lparr>esc_RDBAL := value AND NOT 0xF\<rparr>) sc
         in Some (Inr (if esc_rx_enabled (rx_part sc) then e82545_rx_update_rdba iommu sc else sc)))
      else if offset = E1000_RDBAH0 then
        Some (bindE (assertE (\<not> esc_rx_enabled (rx_part sc))) (\<lambda>_.
              Inr (upd_rx (\<lambda>r. r\<lparr>esc_RDBAH := value\<rparr>) sc)))
      else if offset = E1000_RDLEN0 then
        Some (bindE (assertE (\<not> esc_rx_enabled (rx_part sc))) (\<lambda>_.
              Inr (upd_rx (\<lambda>r. r\<lparr>esc_RDLEN := value AND NOT 0xFFF0007F\<rparr>) sc)))
      else if offset = E1000_RDH0 then Some (Inr (upd_rx (\<lambda>r. r\<lparr>esc_RDH := ucast value\<rparr>) sc))
      else if offset = E1000_RDT0 then Some (Inr (upd_rx (\<lambda>r. r\<lparr>esc_RDT := ucast value\<rparr>) sc))
      else if offset = E1000_RDTR then Some (Inr (upd_rx (\<lambda>r. r\<lparr>esc_RDTR := value AND NOT 0xFFFF0000\<rparr>) sc))
      else if offset = E1000_RXDCTL0 then Some (Inr (upd_rx (\<lambda>r. r\<lparr>esc_RXDCTL := value AND NOT 0xFEC0C0C0\<rparr>) sc))
      else if offset = E1000_RADV then Some (Inr (upd_rx (\<lambda>r. r\<lparr>esc_RADV := value AND NOT 0xFFFF0000\<rparr>) sc))
      else if offset = E1000_RSRPD then Some (Inr (upd_rx (\<lambda>r. r\<lparr>esc_RSRPD := value AND NOT 0xFFFFF000\<rparr>) sc))
      else if offset = E1000_RXCSUM then Some (Inr (upd_rx (\<lambda>r. r\<lparr>esc_RXCSUM := value AND NOT 0xFFFFF800\<rparr>) sc))
      else None)"

definition write_tx :: "bool \<Rightarrow> u32 \<Rightarrow> u32 \<Rightarrow> e82545_softc \<Rightarrow> e82545_softc res option" where
  "write_tx iommu offset value sc =
     (if offset = E1000_TXCW then Some (Inr (upd_tx (\<lambda>t. t\<lparr>esc_TXCW := value AND NOT 0x3FFF0000\<rparr>) sc))
      else if offset = E1000_TCTL then Some (e82545_tx_ctl iommu value sc)
      else if offset = E1000_TIPG then Some (Inr (upd_tx (\<lambda>t. t\<lparr>esc_TIPG := value\<rparr>) sc))
      else if offset = E1000_AIT then Some (Inr (upd_tx (\<lambda>t. t\<lparr>esc_AIT := ucast value\<rparr>) sc))
      else if offset = E1000_TDBAL0 then
        (let sc = upd_tx (\<lambda>t. t\<lparr>esc_TDBAL := value AND NOT 0xF\<rparr>) sc
         in Some (Inr (if esc_tx_enabled (tx_part sc) then e82545_tx_update_tdba iommu sc else sc)))
      else if offset = E1000_TDBAH0 then Some (Inr (upd_tx (\<lambda>t. t\<lparr>esc_TDBAH := value\<rparr>) sc))
      else if offset = E1000_TDLEN0 then Some (Inr (upd_tx (\<lambda>t. t\<lparr>esc_TDLEN := value AND NOT 0xFFF0007F\<rparr>) sc))
      else if offset = E1000_TDH0 then
        Some (Inr (upd_tx (\<lambda>t. t\<lparr>esc_TDH := ucast value, esc_TDHr := ucast value\<rparr>) sc))
      else if offset = E1000_TDT0 then
        (let sc = upd_tx (\<lambda>t. t\<lparr>esc_TDT := ucast value\<rparr>) sc
         in Some (Inr (if esc_tx_enabled (tx_part sc) then e82545_tx_start sc else sc)))
      else if offset = E1000_TIDV then Some (Inr (upd_tx (\<lambda>t. t\<lparr>esc_TIDV := value AND NOT 0xFFFF0000\<rparr>) sc))
      else if offset = E1000_TXDCTL0 then Some (Inr (upd_tx (\<lambda>t. t\<lparr>esc_TXDCTL := value AND NOT 0xC0C0C0\<rparr>) sc))
      else if offset = E1000_TADV then Some (Inr (upd_tx (\<lambda>t. t\<lparr>esc_TADV := value AND NOT 0xFFFF0000\<rparr>) sc))
      else None)"

text \<open>The index of a 32-bit register of a table.\<close>

definition reg_index :: "u32 \<Rightarrow> u32 \<Rightarrow> nat" where
  "reg_index offset base = unat (drop_bit 2 (offset - base))"

definition write_tables :: "u32 \<Rightarrow> u32 \<Rightarrow> e82545_softc \<Rightarrow> e82545_softc res option" where
  "write_tables offset value sc =
     (if E1000_RAL0 \<le> offset \<and> offset \<le> E1000_RAH15 then
        Some (bindE (e82545_write_ra (reg_index offset E1000_RAL0) value (l2_part sc)) (\<lambda>l.
              Inr (sc\<lparr>l2_part := l\<rparr>)))
      else if E1000_MTA \<le> offset \<and> offset \<le> E1000_MTA + 127 * 4 then
        Some (Inr (upd_l2 (\<lambda>l. l\<lparr>esc_fmcast := (esc_fmcast l)[reg_index offset E1000_MTA := value]\<rparr>) sc))
      else if E1000_VFTA \<le> offset \<and> offset \<le> E1000_VFTA + 127 * 4 then
        Some (Inr (upd_l2 (\<lambda>l. l\<lparr>esc_fvlan := (esc_fvlan l)[reg_index offset E1000_VFTA := value]\<rparr>) sc))
      else if offset = E1000_EECD then Some (Inr (sc\<lparr>nvm_part := eecd_write value (nvm_part sc)\<rparr>))
      else if offset = E1000_MDIC then Some (Inr (sc\<lparr>mdi_control := mdic_write value\<rparr>))
      else None)"

fun first_some :: "('a \<Rightarrow> 'b option) list \<Rightarrow> 'a \<Rightarrow> 'b \<Rightarrow> 'b" where
  "first_some [] x d = d"
| "first_some (f # fs) x d = (case f x of Some y \<Rightarrow> y | None \<Rightarrow> first_some fs x d)"

definition e82545_write_register :: "bool \<Rightarrow> u32 \<Rightarrow> u32 \<Rightarrow> e82545_softc \<Rightarrow> e82545_softc res" where
  "e82545_write_register iommu offset value sc =
     (if offset AND 0x3 \<noteq> 0 then Inr sc
      else first_some [write_general offset value, write_rx iommu offset value, write_tx iommu offset value,
                       write_tables offset value] sc (Inr sc))"

section \<open>Register reads\<close>

text \<open>The \<open>switch\<close> of \<open>e82545_read_register\<close> in parts, as for the writes.\<close>

definition read_general :: "u32 \<Rightarrow> e82545_softc \<Rightarrow> (u32 \<times> e82545_softc) res option" where
  "read_general offset sc =
     (let ret = (\<lambda>v. Some (Inr (v, sc))) in
      if offset = E1000_CTRL then ret (esc_CTRL sc)
      else if offset = E1000_STATUS then ret (0x1 OR 0x2 OR 0x80)
      else if offset = E1000_FCAL then ret (esc_FCAL sc)
      else if offset = E1000_FCAH then ret (esc_FCAH sc)
      else if offset = E1000_FCT then ret (esc_FCT sc)
      else if offset = E1000_VET then ret (esc_VET sc)
      else if offset = E1000_FCTTV then ret (esc_FCTTV sc)
      else if offset = E1000_LEDCTL then ret (esc_LEDCTL sc)
      else if offset = E1000_PBA then ret (esc_PBA sc)
      else if offset = E1000_ICR \<or> offset = E1000_ITR \<or> offset = E1000_ICS \<or> offset = E1000_IMS \<or>
              offset = E1000_IMC then
        Some (bindE (e82545_intr_read offset (intr_part sc)) (\<lambda>(v, i). Inr (v, sc\<lparr>intr_part := i\<rparr>)))
      else None)"

definition read_rx :: "u32 \<Rightarrow> e82545_softc \<Rightarrow> (u32 \<times> e82545_softc) res option" where
  "read_rx offset sc =
     (let ret = (\<lambda>v. Some (Inr (v, sc))); r = rx_part sc in
      if offset = E1000_RCTL then ret (esc_RCTL r)
      else if offset = E1000_FCRTL then ret (esc_FCRTL r)
      else if offset = E1000_FCRTH then ret (esc_FCRTH r)
      else if offset = E1000_RDBAL0 then ret (esc_RDBAL r)
      else if offset = E1000_RDBAH0 then ret (esc_RDBAH r)
      else if offset = E1000_RDLEN0 then ret (esc_RDLEN r)
      else if offset = E1000_RDH0 then ret (ucast (esc_RDH r))
      else if offset = E1000_RDT0 then ret (ucast (esc_RDT r))
      else if offset = E1000_RDTR then ret (esc_RDTR r)
      else if offset = E1000_RXDCTL0 then ret (esc_RXDCTL r)
      else if offset = E1000_RADV then ret (esc_RADV r)
      else if offset = E1000_RSRPD then ret (esc_RSRPD r)
      else if offset = E1000_RXCSUM then ret (esc_RXCSUM r)
      else None)"

definition read_tx :: "u32 \<Rightarrow> e82545_softc \<Rightarrow> (u32 \<times> e82545_softc) res option" where
  "read_tx offset sc =
     (let ret = (\<lambda>v. Some (Inr (v, sc))); t = tx_part sc in
      if offset = E1000_TXCW then ret (esc_TXCW t)
      else if offset = E1000_TCTL then ret (esc_TCTL t)
      else if offset = E1000_TIPG then ret (esc_TIPG t)
      else if offset = E1000_AIT then ret (ucast (esc_AIT t))
      else if offset = E1000_TDBAL0 then ret (esc_TDBAL t)
      else if offset = E1000_TDBAH0 then ret (esc_TDBAH t)
      else if offset = E1000_TDLEN0 then ret (esc_TDLEN t)
      else if offset = E1000_TDH0 then ret (ucast (esc_TDH t))
      else if offset = E1000_TDT0 then ret (ucast (esc_TDT t))
      else if offset = E1000_TIDV then ret (esc_TIDV t)
      else if offset = E1000_TXDCTL0 then ret (esc_TXDCTL t)
      else if offset = E1000_TADV then ret (esc_TADV t)
      else None)"

definition read_tables :: "u32 \<Rightarrow> e82545_softc \<Rightarrow> (u32 \<times> e82545_softc) res option" where
  "read_tables offset sc =
     (let ret = (\<lambda>v. Some (Inr (v, sc))); l = l2_part sc in
      if E1000_RAL0 \<le> offset \<and> offset \<le> E1000_RAH15 then
        Some (bindE (e82545_read_ra (reg_index offset E1000_RAL0) l) (\<lambda>v. Inr (v, sc)))
      else if E1000_MTA \<le> offset \<and> offset \<le> E1000_MTA + 127 * 4 then
        ret (esc_fmcast l ! reg_index offset E1000_MTA)
      else if E1000_VFTA \<le> offset \<and> offset \<le> E1000_VFTA + 127 * 4 then
        ret (esc_fvlan l ! reg_index offset E1000_VFTA)
      else if offset = E1000_EECD then ret (eeprom_control (nvm_part sc))
      else if offset = E1000_MDIC then ret (mdi_control sc)
      else if offset = E1000_MANC then ret 0
      else None)"

text \<open>
  The statistics registers, \<open>E1000_MPC\<close> to \<open>E1000_TSCTC\<close>, by their offsets in the
  data sheet; those that always read 0 are left to the default of the \<open>switch\<close>.
\<close>

definition stat_regs :: "e1000_stats \<Rightarrow> (u32 \<times> u32) list" where
  "stat_regs s =
     [(0x4010, missed_pkt_count s),
      (0x405c, pkt_rx_by_size s ! 0), (0x4060, pkt_rx_by_size s ! 1), (0x4064, pkt_rx_by_size s ! 2),
      (0x4068, pkt_rx_by_size s ! 3), (0x406c, pkt_rx_by_size s ! 4), (0x4070, pkt_rx_by_size s ! 5),
      (0x4074, good_pkt_rx_count s), (0x4078, bcast_pkt_rx_count s), (0x407c, mcast_pkt_rx_count s),
      (0x4080, good_pkt_tx_count s), (0x40d4, good_pkt_tx_count s),
      (0x4088, ucast (good_octets_rx s)), (0x408c, ucast (drop_bit 32 (good_octets_rx s))),
      (0x40c8, ucast (good_octets_tx s)), (0x4090, ucast (good_octets_tx s)),
      (0x40cc, ucast (drop_bit 32 (good_octets_tx s))), (0x4094, ucast (drop_bit 32 (good_octets_tx s))),
      (0x40ac, oversize_rx_count s),
      (0x40c0, ucast (good_octets_rx s + missed_octets s)),
      (0x40c4, ucast (drop_bit 32 (good_octets_rx s + missed_octets s))),
      (0x40d0, good_pkt_rx_count s + missed_pkt_count s + oversize_rx_count s),
      (0x40d8, pkt_tx_by_size s ! 0), (0x40dc, pkt_tx_by_size s ! 1), (0x40e0, pkt_tx_by_size s ! 2),
      (0x40e4, pkt_tx_by_size s ! 3), (0x40e8, pkt_tx_by_size s ! 4), (0x40ec, pkt_tx_by_size s ! 5),
      (0x40f0, mcast_pkt_tx_count s), (0x40f4, bcast_pkt_tx_count s), (0x40f8, tso_tx_count s)]"

definition read_stats :: "u32 \<Rightarrow> e82545_softc \<Rightarrow> (u32 \<times> e82545_softc) res option" where
  "read_stats offset sc = map_option (\<lambda>v. Inr (v, sc)) (map_of (stat_regs (stats_part sc)) offset)"

definition e82545_read_register :: "u32 \<Rightarrow> e82545_softc \<Rightarrow> (u32 \<times> e82545_softc) res" where
  "e82545_read_register offset sc =
     (if offset AND 0x3 \<noteq> 0 then Inr (0, sc)
      else first_some [read_general offset, read_rx offset, read_tx offset, read_tables offset, read_stats offset]
             sc (Inr (0, sc)))"

section \<open>Accesses through the BARs\<close>

abbreviation (input) E82545_BAR_REGISTER :: nat where "E82545_BAR_REGISTER \<equiv> 0"
abbreviation (input) E82545_BAR_REGISTER_LEN :: u64 where "E82545_BAR_REGISTER_LEN \<equiv> 128 * 1024"
abbreviation (input) E82545_BAR_FLASH :: nat where "E82545_BAR_FLASH \<equiv> 1"
abbreviation (input) E82545_BAR_FLASH_LEN :: u64 where "E82545_BAR_FLASH_LEN \<equiv> 64 * 1024"
abbreviation (input) E82545_BAR_IO :: nat where "E82545_BAR_IO \<equiv> 2"
abbreviation (input) E82545_BAR_IO_LEN :: u64 where "E82545_BAR_IO_LEN \<equiv> 8"
abbreviation (input) E82545_IOADDR :: u64 where "E82545_IOADDR \<equiv> 0"
abbreviation (input) E82545_IODATA :: u64 where "E82545_IODATA \<equiv> 4"
abbreviation (input) E82545_IO_REGISTER_MAX :: u32 where "E82545_IO_REGISTER_MAX \<equiv> 0x0001FFFF"

definition e82545_write ::
    "bool \<Rightarrow> nat \<Rightarrow> u64 \<Rightarrow> nat \<Rightarrow> u64 \<Rightarrow> e82545_softc \<Rightarrow> e82545_softc res" where
  "e82545_write iommu baridx offset sz value sc =
     bindE (on_intr esc_lock sc) (\<lambda>sc.
     bindE (if baridx = E82545_BAR_IO then
              (if offset = E82545_IOADDR then
                 Inr (if sz \<noteq> 4 then sc else sc\<lparr>io_addr := ucast value\<rparr>)
               else if offset = E82545_IODATA then
                 (if sz \<noteq> 4 then Inr sc
                  else if io_addr sc > E82545_IO_REGISTER_MAX then Inr sc
                  else e82545_write_register iommu (io_addr sc) (ucast value) sc)
               else Inr sc)
            else if baridx = E82545_BAR_REGISTER then
              (if sz \<noteq> 4 then Inr sc else e82545_write_register iommu (ucast offset) (ucast value) sc)
            else Inr sc) (\<lambda>sc.
     on_intr esc_unlock sc))"

definition e82545_read :: "nat \<Rightarrow> u64 \<Rightarrow> nat \<Rightarrow> e82545_softc \<Rightarrow> (u64 \<times> e82545_softc) res" where
  "e82545_read baridx offset sz sc =
     bindE (on_intr esc_lock sc) (\<lambda>sc.
     bindE (if baridx = E82545_BAR_IO then
              (if offset = E82545_IOADDR then
                 Inr (if sz \<noteq> 4 then 0 else io_addr sc, sc)
               else if offset = E82545_IODATA then
                 (if io_addr sc > E82545_IO_REGISTER_MAX then Inr (0, sc)
                  else e82545_read_register (io_addr sc) sc)
               else Inr (0, sc))
            else if baridx = E82545_BAR_REGISTER then
              (if sz \<noteq> 4 then Inr (0, sc) else e82545_read_register (ucast offset) sc)
            else Inr (0, sc)) (\<lambda>(v, sc).
     bindE (on_intr esc_unlock sc) (\<lambda>sc. Inr (ucast v, sc))))"

section \<open>When the waits end\<close>

lemma cond_wait_same: "esc_cond_wait sc = sc"
  by (simp add: esc_cond_wait_def pthread_cond_wait_def)

lemma tx_wait_stuck: "esc_tx_active (tx_part sc) \<Longrightarrow> tx_wait sc = None"
proof (rule ccontr)
  assume a: "esc_tx_active (tx_part sc)" "tx_wait sc \<noteq> None"
  then obtain sc' where "tx_wait sc = Some sc'" by blast
  then have "\<not> esc_tx_active (tx_part sc)"
    by (rule tx_wait.raw_induct [where P = "\<lambda>sc _. \<not> esc_tx_active (tx_part sc)", rotated])
      (auto simp: cond_wait_same split: if_splits)
  then show False using a(1) by contradiction
qed

lemma rx_wait_stuck: "esc_rx_active (rx_part sc) \<Longrightarrow> rx_wait sc = None"
proof (rule ccontr)
  assume a: "esc_rx_active (rx_part sc)" "rx_wait sc \<noteq> None"
  then obtain sc' where "rx_wait sc = Some sc'" by blast
  then have "\<not> esc_rx_active (rx_part sc)"
    by (rule rx_wait.raw_induct [where P = "\<lambda>sc _. \<not> esc_rx_active (rx_part sc)", rotated])
      (auto simp: cond_wait_same split: if_splits)
  then show False using a(1) by contradiction
qed

lemma upd_sel [simp]:
  "tx_part (upd_tx f sc) = f (tx_part sc)" "rx_part (upd_tx f sc) = rx_part sc"
  "intr_part (upd_tx f sc) = intr_part sc" "l2_part (upd_tx f sc) = l2_part sc"
  "rx_part (upd_rx g sc) = g (rx_part sc)" "tx_part (upd_rx g sc) = tx_part sc"
  "intr_part (upd_rx g sc) = intr_part sc" "l2_part (upd_rx g sc) = l2_part sc"
  "l2_part (upd_l2 h sc) = h (l2_part sc)" "tx_part (upd_l2 h sc) = tx_part sc"
  "rx_part (upd_l2 h sc) = rx_part sc" "intr_part (upd_l2 h sc) = intr_part sc"
  by (simp_all add: upd_tx_def upd_rx_def upd_l2_def)

lemma tx_disable_eq:
  "e82545_tx_disable sc = (if esc_tx_active (tx_part sc) then Inl No_return
     else Inr (upd_tx (\<lambda>t. t\<lparr>esc_tx_enabled := False\<rparr>) sc))"
  using tx_wait_stuck [of "upd_tx (\<lambda>t. t\<lparr>esc_tx_enabled := False\<rparr>) sc"]
    tx_wait.simps [of "upd_tx (\<lambda>t. t\<lparr>esc_tx_enabled := False\<rparr>) sc"]
  by (simp add: e82545_tx_disable_def)

lemma rx_disable_eq:
  "e82545_rx_disable sc = (if esc_rx_active (rx_part sc) then Inl No_return
     else Inr (upd_rx (\<lambda>r. r\<lparr>esc_rx_enabled := False\<rparr>) sc))"
  using rx_wait_stuck [of "upd_rx (\<lambda>r. r\<lparr>esc_rx_enabled := False\<rparr>) sc"]
    rx_wait.simps [of "upd_rx (\<lambda>r. r\<lparr>esc_rx_enabled := False\<rparr>) sc"]
  by (simp add: e82545_rx_disable_def)

text \<open>What a reset leaves of the interrupt state.\<close>

lemma reset_intr_part:
  assumes "intr_sound (intr_part sc)" "\<not> esc_tx_active (tx_part sc)" "\<not> esc_rx_active (rx_part sc)"
  shows "\<exists>sc' pi pic. e82545_reset drvr sc = Inr sc' \<and>
    intr_part sc' = reset_intr ((intr_part sc)\<lparr>esc_pi := pi, esc_pic := pic\<rparr>) \<and>
    lintr_inv (pi, pic) \<and> \<not> lintr_wanted pi \<and> lintr_rest pi = lintr_rest (esc_pi (intr_part sc))"
proof (cases "esc_irq_asserted (intr_part sc)")
  case True
  define s where "s = upd_tx (\<lambda>t. t\<lparr>esc_tx_enabled := False\<rparr>) (upd_rx (\<lambda>r. r\<lparr>esc_rx_enabled := False\<rparr>) sc)"
  have "lintr_inv (esc_pi (intr_part sc), esc_pic (intr_part sc))"
    using assms(1) by (simp add: intr_sound_def)
  from pin_down_ok [OF this] obtain pi pic where
    d: "pin_down (intr_part sc) = Inr ((intr_part sc)\<lparr>esc_pi := pi, esc_pic := pic\<rparr>)"
      "lintr_inv (pi, pic)" "\<not> lintr_wanted pi" "lintr_rest pi = lintr_rest (esc_pi (intr_part sc))" by blast
  then show ?thesis using True assms(2,3)
    by (auto simp: e82545_reset_def tx_disable_eq rx_disable_eq Let_def on_intr_def)
next
  case False
  then have "lintr_inv (esc_pi (intr_part sc), esc_pic (intr_part sc))" "\<not> lintr_wanted (esc_pi (intr_part sc))"
    using assms(1) by (auto simp: intr_sound_def)
  moreover have "\<exists>sc'. e82545_reset drvr sc = Inr sc' \<and> intr_part sc' = reset_intr (intr_part sc)"
    using False assms(2,3) by (simp add: e82545_reset_def tx_disable_eq rx_disable_eq Let_def)
  moreover have "(intr_part sc)\<lparr>esc_pi := esc_pi (intr_part sc), esc_pic := esc_pic (intr_part sc)\<rparr> = intr_part sc"
    by simp
  ultimately show ?thesis by metis
qed

lemma reset_returns:
  assumes "intr_sound (intr_part sc)"
  shows "returns (e82545_reset drvr sc) \<longleftrightarrow> \<not> esc_tx_active (tx_part sc) \<and> \<not> esc_rx_active (rx_part sc)"
proof (cases "esc_tx_active (tx_part sc) \<or> esc_rx_active (rx_part sc)")
  case True
  then show ?thesis by (auto simp: e82545_reset_def tx_disable_eq rx_disable_eq returns_bindE)
next
  case False
  then show ?thesis using reset_intr_part [OF assms] by (metis returns_Inr)
qed

text \<open>What any access to a register does to the interrupts is a run of the steps of \<open>E1000_Intr\<close>.\<close>

lemma reset_is_intr_reset: "e82545_reset drvr sc = Inr sc' \<Longrightarrow> intr_reset (intr_part sc) = Inr (intr_part sc')"
  by (auto simp: e82545_reset_def tx_disable_eq rx_disable_eq intr_reset_def on_intr_def bindE_Inr Let_def split: if_splits)

lemma write_register_steps:
  assumes "e82545_write_register iommu off v sc = Inr sc'"
  shows "(intr_step True)\<^sup>*\<^sup>* (intr_part sc) (intr_part sc')"
proof -
  have ctl: "(intr_step True)\<^sup>*\<^sup>* (intr_part a) (intr_part b)" if "e82545_devctl v a = Inr b" for a b
    using that reset_is_intr_reset [of True "a\<lparr>esc_CTRL := v AND NOT E1000_CTRL_RST\<rparr>" b] card_reset [of True "intr_part a" "intr_part b"]
    by (auto simp: e82545_devctl_def Let_def split: if_splits)
  have intr: "(intr_step True)\<^sup>*\<^sup>* (intr_part a) (intr_part b)" if "on_intr (e82545_intr_write off v) a = Inr b" for a b
    using that reg_write [of off v "intr_part a" _ True] by (auto simp: on_intr_def bindE_Inr)
  have g: "(intr_step True)\<^sup>*\<^sup>* (intr_part sc) (intr_part sc')" if "write_general off v sc = Some (Inr sc')"
    using that ctl [of sc sc'] intr [of sc sc'] by (auto simp: write_general_def split: if_splits)
  have rx: "intr_part sc' = intr_part sc" if "write_rx iommu off v sc = Some (Inr sc')"
    using that by (auto simp: write_rx_def Let_def e82545_rx_ctl_def e82545_rx_enable_def e82545_rx_update_rdba_def rx_disable_eq
      upd_rx_def res_simps bind_assertE split: if_splits)
  have tx: "intr_part sc' = intr_part sc" if "write_tx iommu off v sc = Some (Inr sc')"
    using that by (auto simp: write_tx_def Let_def e82545_tx_ctl_def e82545_tx_enable_def e82545_tx_update_tdba_def tx_disable_eq
      e82545_tx_start_def upd_tx_def res_simps bind_assertE split: if_splits)
  have tab: "intr_part sc' = intr_part sc" if "write_tables off v sc = Some (Inr sc')"
    using that by (auto simp: write_tables_def upd_l2_def res_simps split: if_splits)
  show ?thesis using assms g rx tx tab unfolding e82545_write_register_def
    by (auto split: if_splits option.splits)
qed

lemma read_register_steps:
  assumes "e82545_read_register off sc = Inr (v, sc')"
  shows "(intr_step True)\<^sup>*\<^sup>* (intr_part sc) (intr_part sc')"
  using assms reg_read [of off "intr_part sc" v _ True]
  by (auto simp: e82545_read_register_def read_general_def read_rx_def read_tx_def read_tables_def read_stats_def
      res_simps Let_def split: if_splits option.splits)

section \<open>Properties\<close>

text \<open>The writes a guest can stop the device model with.\<close>

definition stops_model :: "u32 \<Rightarrow> u32 \<Rightarrow> e82545_softc \<Rightarrow> bool" where
  "stops_model offset value sc \<longleftrightarrow>
     (offset = E1000_RDBAH0 \<or> offset = E1000_RDLEN0) \<and> esc_rx_enabled (rx_part sc) \<or>
     0x5478 \<le> offset \<and> offset \<le> 0x547c \<or>
     (offset = E1000_CTRL \<or> offset = E1000_CTRL_DUP) \<and> value AND E1000_CTRL_RST \<noteq> 0 \<and>
       (esc_tx_active (tx_part sc) \<or> esc_rx_active (rx_part sc)) \<or>
     offset = E1000_RCTL \<and> value AND E1000_RCTL_EN = 0 \<and> esc_rx_enabled (rx_part sc) \<and> esc_rx_active (rx_part sc) \<or>
     offset = E1000_TCTL \<and> value AND E1000_TCTL_EN = 0 \<and> esc_tx_enabled (tx_part sc) \<and> esc_tx_active (tx_part sc)"

lemma en_bit: "v AND 2 = 2 \<longleftrightarrow> v AND 2 \<noteq> 0" for v :: u32
proof -
  have "v AND 2 = 0 \<or> v AND 2 = 2"
  proof (cases "bit v 1")
    case True
    then have "v AND 2 = 2" by (intro bit_word_eqI) (auto simp: bit_simps)
    then show ?thesis ..
  next
    case False
    then have "v AND 2 = 0" by (intro bit_word_eqI) (auto simp: bit_simps)
    then show ?thesis ..
  qed
  then show ?thesis by auto
qed

lemma rx_ctl_returns:
  "returns (e82545_rx_ctl iommu value sc) \<longleftrightarrow>
   \<not> (value AND 2 = 0 \<and> esc_rx_enabled (rx_part sc) \<and> esc_rx_active (rx_part sc))"
  by (auto simp: e82545_rx_ctl_def Let_def rx_disable_eq en_bit returns_bindE)

lemma tx_ctl_returns:
  "returns (e82545_tx_ctl iommu value sc) \<longleftrightarrow>
   \<not> (value AND 2 = 0 \<and> esc_tx_enabled (tx_part sc) \<and> esc_tx_active (tx_part sc))"
  by (auto simp: e82545_tx_ctl_def Let_def tx_disable_eq en_bit returns_bindE)

lemma devctl_returns:
  assumes "intr_sound (intr_part sc)"
  shows "returns (e82545_devctl value sc) \<longleftrightarrow>
    \<not> (value AND E1000_CTRL_RST \<noteq> 0 \<and> (esc_tx_active (tx_part sc) \<or> esc_rx_active (rx_part sc)))"
  using assms by (auto simp: e82545_devctl_def Let_def reset_returns)

lemma on_intr_write_returns:
  "intr_sound (intr_part sc) \<Longrightarrow> returns (on_intr (e82545_intr_write offset v) sc)"
  using intr_write_goes [of "intr_part sc" offset v] by (auto simp: on_intr_def)

lemma reg_index_eq: "base \<le> off \<Longrightarrow> reg_index off base = (unat off - unat base) div 4"
proof -
  assume le: "base \<le> off"
  have "unat (off - base) < 2 ^ 32" by (rule order_less_le_trans [OF unsigned_less]) simp
  then have "unat (drop_bit 2 (off - base)) = unat (off - base) div 4"
    unfolding unsigned_drop_bit_eq by (simp add: drop_bit_eq_div take_bit_nat_eq_self)
  then show ?thesis using le by (simp add: reg_index_def unat_sub)
qed

lemma write_ra_returns: "returns (e82545_write_ra reg v l) \<longleftrightarrow> reg < 30"
  by (auto simp: e82545_write_ra_def returns_bindE Let_def)

lemma write_general_returns:
  "write_general off v sc = Some r \<Longrightarrow> intr_sound (intr_part sc) \<Longrightarrow> returns r \<longleftrightarrow> \<not> stops_model off v sc"
  unfolding write_general_def
  by (auto simp: stops_model_def devctl_returns on_intr_write_returns split: if_splits)

lemma write_rx_returns:
  "write_rx iommu off v sc = Some r \<Longrightarrow> returns r \<longleftrightarrow> \<not> stops_model off v sc"
  unfolding write_rx_def
  by (auto simp: stops_model_def rx_ctl_returns returns_bindE Let_def split: if_splits)

lemma write_tx_returns:
  "write_tx iommu off v sc = Some r \<Longrightarrow> returns r \<longleftrightarrow> \<not> stops_model off v sc"
  unfolding write_tx_def
  by (auto simp: stops_model_def tx_ctl_returns returns_bindE Let_def split: if_splits)

lemma ra_15_low: "0x5478 \<le> off \<Longrightarrow> 0x5400 \<le> (off :: u32)"
  by (rule order_trans [of _ "0x5478"]) simp_all

lemma write_tables_returns:
  assumes "write_tables off v sc = Some r"
  shows "returns r \<longleftrightarrow> \<not> stops_model off v sc"
proof (cases "E1000_RAL0 \<le> off \<and> off \<le> E1000_RAH15")
  case True
  then have "reg_index off E1000_RAL0 < 30 \<longleftrightarrow> \<not> 0x5478 \<le> off"
    by (subst reg_index_eq) (auto simp: word_le_nat_alt)
  moreover have "r = bindE (e82545_write_ra (reg_index off E1000_RAL0) v (l2_part sc)) (\<lambda>l. Inr (sc\<lparr>l2_part := l\<rparr>))"
    using assms True by (simp add: write_tables_def)
  then have "returns r \<longleftrightarrow> returns (e82545_write_ra (reg_index off E1000_RAL0) v (l2_part sc))"
    by (simp add: returns_bindE) (simp add: returns_def)
  then have "returns r \<longleftrightarrow> reg_index off E1000_RAL0 < 30" by (simp add: write_ra_returns)
  moreover have "stops_model off v sc \<longleftrightarrow> 0x5478 \<le> off"
    using True by (auto simp: stops_model_def)
  ultimately show ?thesis by simp
next
  case False
  then have "returns r" using assms by (auto simp: write_tables_def split: if_splits)
  moreover have "\<not> stops_model off v sc"
    using assms False by (auto simp: write_tables_def stops_model_def ra_15_low split: if_splits)
  ultimately show ?thesis by simp
qed

lemma no_case_returns:
  assumes "write_general off v sc = None" "write_rx iommu off v sc = None" "write_tx iommu off v sc = None"
    "write_tables off v sc = None"
  shows "\<not> stops_model off v sc"
proof -
  have "\<not> (0x5478 \<le> off \<and> off \<le> 0x547c)"
  proof
    assume a: "0x5478 \<le> off \<and> off \<le> 0x547c"
    then have "0x5400 \<le> off" using ra_15_low by blast
    then show False using a assms(4) by (simp add: write_tables_def)
  qed
  then show ?thesis
  using assms
  unfolding stops_model_def write_general_def write_rx_def write_tx_def write_tables_def
  by (auto simp: Let_def split: if_splits)
qed

text \<open>C24: An aligned write of any value to any register returns exactly unless it is one of five cases: the
  receive ring's base or length while receiving, receive address 15, and a reset or a disable
  while a queue is marked active, which waits for ever.\<close>

theorem write_register_returns:
  assumes "intr_sound (intr_part sc)" "off AND 3 = 0"
  shows "returns (e82545_write_register iommu off v sc) \<longleftrightarrow> \<not> stops_model off v sc"
proof -
  note g = write_general_returns [of off v sc, OF _ assms(1)] and r = write_rx_returns [of iommu off v sc]
    and t = write_tx_returns [of iommu off v sc] and b = write_tables_returns [of off v sc]
    and n = no_case_returns [of off v sc iommu]
  show ?thesis
    unfolding e82545_write_register_def
    using assms(2) g r t b n by (auto split: option.splits)
qed

definition wit_softc :: e82545_softc where
  "wit_softc = \<lparr>intr_part = wit_intr, nvm_part = wit_nvm,
     tx_part = \<lparr>esc_txdesc = None, esc_txctx = replicate 16 0, esc_tx_enabled = True, esc_tx_active = True,
       esc_TXCW = 0, esc_TCTL = 0, esc_TIPG = 0, esc_AIT = 0, esc_tdba = 0, esc_TDBAL = 0, esc_TDBAH = 0,
       esc_TDLEN = 0, esc_TDH = 0, esc_TDHr = 0, esc_TDT = 0, esc_TIDV = 0, esc_TXDCTL = 0, esc_TADV = 0\<rparr>,
     rx_part = \<lparr>esc_rxdesc = None, esc_rx_enabled = False, esc_rx_active = False, esc_rx_loopback = False,
       esc_RCTL = 0, esc_FCRTL = 0, esc_FCRTH = 0, esc_rdba = 0, esc_RDBAL = 0, esc_RDBAH = 0, esc_RDLEN = 0,
       esc_RDH = 0, esc_RDT = 0, esc_RDTR = 0, esc_RXDCTL = 0, esc_RADV = 0, esc_RSRPD = 0, esc_RXCSUM = 0\<rparr>,
     l2_part = \<lparr>esc_uni = replicate 16 zero_uni, esc_fmcast = replicate 128 0, esc_fvlan = replicate 128 0\<rparr>,
     stats_part = \<lparr>missed_pkt_count = 0, pkt_rx_by_size = replicate 6 0, pkt_tx_by_size = replicate 6 0,
       good_pkt_rx_count = 0, bcast_pkt_rx_count = 0, mcast_pkt_rx_count = 0, good_pkt_tx_count = 0,
       bcast_pkt_tx_count = 0, mcast_pkt_tx_count = 0, oversize_rx_count = 0, tso_tx_count = 0,
       good_octets_rx = 0, good_octets_tx = 0, missed_octets = 0\<rparr>,
     esc_mac = [0x00, 0x07, 0xed, 0x63, 0xe4, 0x91], esc_CTRL = 0, esc_FCAL = 0, esc_FCAH = 0, esc_FCT = 0,
     esc_VET = 0, esc_FCTTV = 0, esc_LEDCTL = 0, esc_PBA = 0, io_addr = 0, mdi_control = 0\<rparr>"

lemma wit_softc_sel [simp]:
  "intr_part wit_softc = wit_intr" "esc_tx_active (tx_part wit_softc)" "esc_tx_enabled (tx_part wit_softc)"
  "\<not> esc_rx_enabled (rx_part wit_softc)" "\<not> esc_rx_active (rx_part wit_softc)"
  by (simp_all add: wit_softc_def)

theorem write_register_returns_witness:
  "returns (e82545_write_register False 0x2804 7 wit_softc) \<and>
   \<not> returns (e82545_write_register False 0x5478 7 wit_softc) \<and>
   \<not> returns (e82545_write_register False 0x0400 0 wit_softc)"
proof -
  have i: "intr_sound (intr_part wit_softc)" using wit_intr_ready by (simp add: intr_ready_def intr_inv_sound)
  show ?thesis
    using write_register_returns [OF i, of "0x2804" False 7] write_register_returns [OF i, of "0x5478" False 7]
      write_register_returns [OF i, of "0x0400" False 0]
    by (simp add: stops_model_def)
qed

text \<open>
  The registers that only store: what a read returns of the value written.
\<close>

definition plain_regs :: "(u32 \<times> u32) list" where
  "plain_regs =
     [(E1000_FCAL, -1), (E1000_FCAH, NOT 0xFFFF0000), (E1000_FCT, NOT 0xFFFF0000), (E1000_VET, NOT 0xFFFF0000),
      (E1000_FCTTV, NOT 0xFFFF0000), (E1000_LEDCTL, NOT 0x30303000), (E1000_PBA, 0x0000FF80), (E1000_ITR, -1),
      (E1000_FCRTL, NOT 0xFFFF0007), (E1000_FCRTH, NOT 0xFFFF0007), (E1000_RDBAL0, NOT 0xF),
      (E1000_RDH0, 0xFFFF), (E1000_RDT0, 0xFFFF), (E1000_RDTR, NOT 0xFFFF0000),
      (E1000_RXDCTL0, NOT 0xFEC0C0C0), (E1000_RADV, NOT 0xFFFF0000), (E1000_RSRPD, NOT 0xFFFFF000),
      (E1000_RXCSUM, NOT 0xFFFFF800), (E1000_TXCW, NOT 0x3FFF0000), (E1000_TIPG, -1), (E1000_AIT, 0xFFFF),
      (E1000_TDBAL0, NOT 0xF), (E1000_TDBAH0, -1), (E1000_TDLEN0, NOT 0xFFF0007F), (E1000_TDH0, 0xFFFF),
      (E1000_TDT0, 0xFFFF), (E1000_TIDV, NOT 0xFFFF0000), (E1000_TXDCTL0, NOT 0xC0C0C0),
      (E1000_TADV, NOT 0xFFFF0000)]"

lemma ucast_16: "ucast (ucast v :: u16) = v AND (0xFFFF :: u32)"
proof -
  have m: "(0xFFFF :: u32) = mask 16" by (simp add: mask_eq_decr_exp)
  show ?thesis unfolding m by (rule bit_word_eqI) (auto simp: bit_simps)
qed

lemmas register_switch =
  e82545_write_register_def e82545_read_register_def write_general_def write_rx_def write_tx_def
  read_general_def read_rx_def read_tx_def on_intr_def e82545_intr_write_def e82545_intr_read_def
  e82545_rx_update_rdba_def e82545_tx_update_tdba_def e82545_tx_start_def ucast_16 Let_def

definition stores :: "bool \<Rightarrow> u32 \<Rightarrow> e82545_softc \<Rightarrow> u32 \<times> u32 \<Rightarrow> bool" where
  "stores iommu v sc r \<longleftrightarrow>
     (\<exists>sc'. e82545_write_register iommu (fst r) v sc = Inr sc' \<and>
            e82545_read_register (fst r) sc' = Inr (v AND snd r, sc') \<and>
            esc_mtx (intr_part sc') = esc_mtx (intr_part sc) \<and>
            esc_pi (intr_part sc') = esc_pi (intr_part sc) \<and> esc_pic (intr_part sc') = esc_pic (intr_part sc))"

lemma stores_general: "list_all (stores iommu v sc) (take 8 plain_regs)"
  by (simp add: plain_regs_def stores_def register_switch)

lemma stores_rx: "list_all (stores iommu v sc) (take 10 (drop 8 plain_regs))"
  by (simp add: plain_regs_def stores_def register_switch)

lemma stores_tx: "list_all (stores iommu v sc) (drop 18 plain_regs)"
  by (simp add: plain_regs_def stores_def register_switch)

lemma plain_register_stores:
  assumes "r \<in> set plain_regs"
  shows "stores iommu v sc r"
proof -
  have "plain_regs = take 8 plain_regs @ take 10 (drop 8 plain_regs) @ drop 18 plain_regs"
    by (simp add: plain_regs_def)
  then have "list_all (stores iommu v sc) plain_regs"
    using stores_general stores_rx stores_tx by (metis list_all_append)
  then show ?thesis using assms by (simp add: list_all_iff)
qed

text \<open>The registers without side effects hold what the driver wrote, less
  their reserved bits: whatever the state of the card, a write of any value
  succeeds, and a read right after it returns the value masked with the bits of
  the register, and changes nothing.\<close>

theorem register_roundtrip:
  assumes "(off, m) \<in> set plain_regs"
  shows "\<exists>sc'. e82545_write_register iommu off v sc = Inr sc' \<and>
     e82545_read_register off sc' = Inr (v AND m, sc')"
  using plain_register_stores [OF assms, of iommu v sc] by (auto simp: stores_def)

theorem register_roundtrip_witness:
  "\<exists>sc'. e82545_write_register True 0x3818 0x10007 wit_softc = Inr sc' \<and>
     e82545_read_register 0x3818 sc' = Inr (7, sc')"
  using register_roundtrip [of "0x3818" "0xFFFF" True "0x10007" wit_softc]
  by (simp add: plain_regs_def)

text \<open>
  The state a reset leaves when the line was up: the pin is down, the flag
  \<open>esc_irq_asserted\<close> still says that it is up.
\<close>

definition line_stuck :: "e1000_intr \<Rightarrow> bool" where
  "line_stuck i \<longleftrightarrow> esc_irq_asserted i \<and> lintr_inv (esc_pi i, esc_pic i) \<and> \<not> lintr_wanted (esc_pi i)"

lemma line_stuck_stale: "intr_sound i \<Longrightarrow> line_stuck i \<longleftrightarrow> intr_stale i"
  by (auto simp: line_stuck_def intr_sound_def intr_stale_def)

lemma line_stuck_down: "line_stuck i \<Longrightarrow> pi_irq (esc_pi i) \<noteq> 0 \<Longrightarrow> \<not> card_line i"
  by (auto simp: line_stuck_def lintr_inv_def card_line_def)

lemma stuck_ims_change:
  "line_stuck i \<Longrightarrow> e82545_ims_change b i = Inr (i\<lparr>esc_IMS := esc_IMS i OR b\<rparr>)"
  by (simp add: e82545_ims_change_def line_stuck_def Let_def)

lemma stuck_icr_assert:
  "line_stuck i \<Longrightarrow> e82545_icr_assert b i = Inr (i\<lparr>esc_ICR := esc_ICR i OR b\<rparr>)"
  by (simp add: e82545_icr_assert_def line_stuck_def Let_def)

lemma stuck_callback:
  assumes "line_stuck i" "free_mutex (esc_mtx i)"
  shows "\<exists>m. e82545_itr_callback i = Inr (i\<lparr>esc_mevpitr := False, esc_mtx := m\<rparr>)"
proof -
  obtain m where m: "esc_lock i = Inr (i\<lparr>esc_mtx := m\<rparr>)" "held_mutex m"
    using esc_lock_ok [OF assms(2)] by blast
  have "held_mutex (esc_mtx (i\<lparr>esc_mtx := m, esc_mevpitr := False\<rparr>))" using m(2) by simp
  from esc_unlock_ok [OF this] show ?thesis
    using m(1) assms(1) by (auto simp: e82545_itr_callback_def Let_def line_stuck_def)
qed

lemma line_stuck_upd [simp]:
  "line_stuck (i\<lparr>esc_IMS := a\<rparr>) = line_stuck i" "line_stuck (i\<lparr>esc_ICR := a\<rparr>) = line_stuck i"
  "line_stuck (i\<lparr>esc_mevpitr := b, esc_mtx := m\<rparr>) = line_stuck i"
  "line_stuck (i\<lparr>esc_mtx := m, esc_mevpitr := b\<rparr>) = line_stuck i"
  by (simp_all add: line_stuck_def)

text \<open>A reset of a card whose interrupt line is up loses the interrupts that follow: the reset takes
  the line down and leaves the flag that says it is up, so that unmasking causes and then reporting
  them leaves them pending and unmasked with the line down, and the expiry of the throttling
  timer does not raise it either, until the driver reads the cause register, which clears the flag.\<close>

theorem reset_loses_interrupt:
  assumes "intr_inv (intr_part sc)" "esc_irq_asserted (intr_part sc)" "free_mutex (esc_mtx (intr_part sc))"
    "\<not> esc_tx_active (tx_part sc)" "\<not> esc_rx_active (rx_part sc)" "pi_irq (esc_pi (intr_part sc)) \<noteq> 0" "bits \<noteq> 0"
  shows "\<exists>sc1 i2 i3 i4. e82545_reset drvr sc = Inr sc1 \<and>
    e82545_ims_change bits (intr_part sc1) = Inr i2 \<and> e82545_icr_assert bits i2 = Inr i3 \<and>
    e82545_itr_callback i3 = Inr i4 \<and> esc_ICR i4 AND esc_IMS i4 = bits \<and>
    \<not> card_line i3 \<and> \<not> card_line i4 \<and> \<not> esc_mevpitr i4 \<and>
    (\<exists>v i5. e82545_intr_read E1000_ICR i4 = Inr (v, i5) \<and> \<not> esc_irq_asserted i5)"
proof -
  obtain sc1 pi pic where r: "e82545_reset drvr sc = Inr sc1"
    "intr_part sc1 = reset_intr ((intr_part sc)\<lparr>esc_pi := pi, esc_pic := pic\<rparr>)"
    "lintr_inv (pi, pic)" "\<not> lintr_wanted pi" "lintr_rest pi = lintr_rest (esc_pi (intr_part sc))"
    using reset_intr_part [OF _ assms(4,5), of drvr] assms(1) unfolding intr_inv_sound by blast
  define i where "i = intr_part sc1"
  have i: "line_stuck i" "esc_ICR i = 0" "esc_IMS i = 0" "free_mutex (esc_mtx i)" "esc_pi i = pi"
    using r assms(2,3) by (simp_all add: i_def line_stuck_def reset_intr_def)
  have irq: "pi_irq (esc_pi i) \<noteq> 0" using assms(6) pi_irq_rest [OF r(5)] i(5) by simp
  define i3 where "i3 = i\<lparr>esc_IMS := bits, esc_ICR := bits\<rparr>"
  have s3: "line_stuck i3" "free_mutex (esc_mtx i3)" using i by (simp_all add: i3_def)
  obtain m where cb: "e82545_itr_callback i3 = Inr (i3\<lparr>esc_mevpitr := False, esc_mtx := m\<rparr>)"
    using stuck_callback [OF s3] by blast
  have s4: "line_stuck (i3\<lparr>esc_mevpitr := False, esc_mtx := m\<rparr>)" using s3(1) by simp
  have read: "\<exists>v i5. e82545_intr_read E1000_ICR (i3\<lparr>esc_mevpitr := False, esc_mtx := m\<rparr>) = Inr (v, i5) \<and>
      \<not> esc_irq_asserted i5"
  proof -
    define i4 where "i4 = i3\<lparr>esc_mevpitr := False, esc_mtx := m, esc_ICR := 0\<rparr>"
    have "lintr_inv (esc_pi i4, esc_pic i4)" using s3(1) by (simp add: i4_def line_stuck_def)
    from pin_down_ok [OF this] obtain pi' pic' where d: "pin_down i4 = Inr (i4\<lparr>esc_pi := pi', esc_pic := pic'\<rparr>)" by blast
    have e: "e82545_icr_deassert (NOT 0) i4 = Inr (i4\<lparr>esc_pi := pi', esc_pic := pic', esc_irq_asserted := False\<rparr>)"
      using s3(1) d by (simp add: e82545_icr_deassert_def line_stuck_def i4_def)
    show ?thesis using e by (simp add: e82545_intr_read_def i4_def [symmetric])
  qed
  have "\<not> card_line i3" "\<not> card_line (i3\<lparr>esc_mevpitr := False, esc_mtx := m\<rparr>)"
    using line_stuck_down [OF s3(1)] line_stuck_down [OF s4] irq by (simp_all add: i3_def)
  moreover have "e82545_ims_change bits i = Inr (i\<lparr>esc_IMS := bits\<rparr>)"
    using stuck_ims_change [OF i(1), of bits] i(3) by simp
  moreover have "e82545_icr_assert bits (i\<lparr>esc_IMS := bits\<rparr>) = Inr i3"
    using stuck_icr_assert [of "i\<lparr>esc_IMS := bits\<rparr>" bits] i(1,2) by (simp add: i3_def)
  ultimately show ?thesis using r(1) cb read by (force simp: i_def i3_def)
qed

definition wit_quiet :: "e1000_intr \<Rightarrow> e82545_softc" where
  "wit_quiet i = (upd_tx (\<lambda>t. t\<lparr>esc_tx_active := False\<rparr>) wit_softc)\<lparr>intr_part := i\<rparr>"

theorem reset_loses_interrupt_witness:
  "\<exists>i sc1 i2 i3. e82545_icr_assert 0x80 wit_intr = Inr i \<and> e82545_reset True (wit_quiet i) = Inr sc1 \<and>
     e82545_ims_change 4 (intr_part sc1) = Inr i2 \<and> e82545_icr_assert 4 i2 = Inr i3 \<and> \<not> card_line i3"
proof -
  obtain i where i: "e82545_icr_assert 0x80 wit_intr = Inr i" "intr_kept wit_intr i" "esc_irq_asserted i"
    "lintr_rest (esc_pi i) = lintr_rest wit_devinst"
    using wit_intr_up by blast
  have f: "free_mutex (esc_mtx i)" "intr_inv i"
    using i(2) wit_intr_ready by (simp_all add: intr_kept_def intr_ready_def)
  have sel: "intr_part (wit_quiet i) = i" "\<not> esc_tx_active (tx_part (wit_quiet i))"
    "\<not> esc_rx_active (rx_part (wit_quiet i))" by (simp_all add: wit_quiet_def upd_tx_def)
  show ?thesis
    using reset_loses_interrupt [of "wit_quiet i" 4 True, unfolded sel(1)] i f sel pi_irq_rest [OF i(4)]
    by (simp add: wit_devinst_ready) blast
qed

end
