(* ===== verification/Ahci_State.thy ===== *)
theory Ahci_State
  imports Block_If Pci_Caps E1000_Regs
begin

text \<open>
  \<open>bhyve/pci_ahci.c\<close>: the state of the AHCI disk controller, its interrupts, the
  frames (FIS) a port posts in the guest's memory, and stopping and resetting a
  port. Constants are those of \<open>bhyve/ahci.h\<close> and \<open>bhyve/sys/ata.h\<close>.
\<close>

section \<open>Constants\<close>

abbreviation (input) ATA_E_ABORT :: u32 where "ATA_E_ABORT \<equiv> 0x04"
abbreviation (input) ATA_I_CMD :: u8 where "ATA_I_CMD \<equiv> 0x01"
abbreviation (input) ATA_I_IN :: u8 where "ATA_I_IN \<equiv> 0x02"
abbreviation (input) ATA_S_ERROR :: u32 where "ATA_S_ERROR \<equiv> 0x01"
abbreviation (input) ATA_S_DRQ :: u32 where "ATA_S_DRQ \<equiv> 0x08"
abbreviation (input) ATA_S_DSC :: u32 where "ATA_S_DSC \<equiv> 0x10"
abbreviation (input) ATA_S_DMA :: u32 where "ATA_S_DMA \<equiv> 0x20"
abbreviation (input) ATA_S_READY :: u32 where "ATA_S_READY \<equiv> 0x40"
abbreviation (input) ATA_S_BUSY :: u32 where "ATA_S_BUSY \<equiv> 0x80"
abbreviation (input) ATA_SS_DET_NO_DEVICE :: u32 where "ATA_SS_DET_NO_DEVICE \<equiv> 0x00000000"
abbreviation (input) ATA_SS_DET_PHY_ONLINE :: u32 where "ATA_SS_DET_PHY_ONLINE \<equiv> 0x00000003"
abbreviation (input) ATA_SS_SPD_MASK :: u32 where "ATA_SS_SPD_MASK \<equiv> 0x000000f0"
abbreviation (input) ATA_SS_SPD_GEN3 :: u32 where "ATA_SS_SPD_GEN3 \<equiv> 0x00000030"
abbreviation (input) ATA_SS_IPM_ACTIVE :: u32 where "ATA_SS_IPM_ACTIVE \<equiv> 0x00000100"
abbreviation (input) ATA_SC_DET_RESET :: u64 where "ATA_SC_DET_RESET \<equiv> 0x00000001"
abbreviation (input) ATA_SC_SPD_MASK :: u32 where "ATA_SC_SPD_MASK \<equiv> 0x000000f0"
abbreviation (input) AHCI_MAX_SLOTS :: nat where "AHCI_MAX_SLOTS \<equiv> 32"
abbreviation (input) AHCI_GHC_AE :: u32 where "AHCI_GHC_AE \<equiv> 0x80000000"
abbreviation (input) AHCI_GHC_IE :: u32 where "AHCI_GHC_IE \<equiv> 0x00000002"
abbreviation (input) AHCI_P_IX_DHR :: u32 where "AHCI_P_IX_DHR \<equiv> 0x00000001"
abbreviation (input) AHCI_P_IX_PS :: u32 where "AHCI_P_IX_PS \<equiv> 0x00000002"
abbreviation (input) AHCI_P_IX_SDB :: u32 where "AHCI_P_IX_SDB \<equiv> 0x00000008"
abbreviation (input) AHCI_P_IX_TFE :: u32 where "AHCI_P_IX_TFE \<equiv> 0x40000000"
abbreviation (input) AHCI_P_CMD_ST :: u32 where "AHCI_P_CMD_ST \<equiv> 0x00000001"
abbreviation (input) AHCI_P_CMD_SUD :: u32 where "AHCI_P_CMD_SUD \<equiv> 0x00000002"
abbreviation (input) AHCI_P_CMD_POD :: u32 where "AHCI_P_CMD_POD \<equiv> 0x00000004"
abbreviation (input) AHCI_P_CMD_CLO :: u32 where "AHCI_P_CMD_CLO \<equiv> 0x00000008"
abbreviation (input) AHCI_P_CMD_FRE :: u32 where "AHCI_P_CMD_FRE \<equiv> 0x00000010"
abbreviation (input) AHCI_P_CMD_CCS_MASK :: u32 where "AHCI_P_CMD_CCS_MASK \<equiv> 0x00001f00"
abbreviation (input) AHCI_P_CMD_CCS_SHIFT :: nat where "AHCI_P_CMD_CCS_SHIFT \<equiv> 8"
abbreviation (input) AHCI_P_CMD_FR :: u32 where "AHCI_P_CMD_FR \<equiv> 0x00004000"
abbreviation (input) AHCI_P_CMD_CR :: u32 where "AHCI_P_CMD_CR \<equiv> 0x00008000"
abbreviation (input) AHCI_P_CMD_CPS :: u32 where "AHCI_P_CMD_CPS \<equiv> 0x00010000"
abbreviation (input) AHCI_P_CMD_APSTE :: u32 where "AHCI_P_CMD_APSTE \<equiv> 0x00800000"
abbreviation (input) AHCI_P_CMD_ATAPI :: u32 where "AHCI_P_CMD_ATAPI \<equiv> 0x01000000"
abbreviation (input) AHCI_P_CMD_DLAE :: u32 where "AHCI_P_CMD_DLAE \<equiv> 0x02000000"
abbreviation (input) AHCI_P_CMD_ALPE :: u32 where "AHCI_P_CMD_ALPE \<equiv> 0x04000000"
abbreviation (input) AHCI_P_CMD_ASP :: u32 where "AHCI_P_CMD_ASP \<equiv> 0x08000000"
abbreviation (input) AHCI_P_CMD_ICC_MASK :: u32 where "AHCI_P_CMD_ICC_MASK \<equiv> 0xf0000000"
abbreviation (input) AHCI_CL_SIZE :: nat where "AHCI_CL_SIZE \<equiv> 32"
abbreviation (input) PxSIG_ATA :: u32 where "PxSIG_ATA \<equiv> 0x00000101"
abbreviation (input) PxSIG_ATAPI :: u32 where "PxSIG_ATAPI \<equiv> 0xeb140101"
abbreviation (input) ATA_UDMA6 :: u8 where "ATA_UDMA6 \<equiv> 0x46"
abbreviation (input) ATA_WRITE_FPDMA_QUEUED :: u8 where "ATA_WRITE_FPDMA_QUEUED \<equiv> 0x61"
abbreviation (input) ATA_READ_FPDMA_QUEUED :: u8 where "ATA_READ_FPDMA_QUEUED \<equiv> 0x60"
abbreviation (input) ATA_SEND_FPDMA_QUEUED :: u8 where "ATA_SEND_FPDMA_QUEUED \<equiv> 0x64"

text \<open>The frame types the controller handles; the rest of the enumeration is not used.\<close>

datatype sata_fis_type = FIS_TYPE_REGD2H | FIS_TYPE_SETDEVBITS | FIS_TYPE_PIOSETUP

fun fis_code :: "sata_fis_type \<Rightarrow> u8" where
  "fis_code FIS_TYPE_REGD2H = 0x34"
| "fis_code FIS_TYPE_SETDEVBITS = 0xA1"
| "fis_code FIS_TYPE_PIOSETUP = 0x5F"

section \<open>State\<close>

text \<open>
  A request block is its index in the array \<open>ioreq\<close> of its port. Its back pointer is
  that port; its callback is the same for all requests of a port.
\<close>

record ahci_ioreq =
  io_req :: blockif_req
  io_cfis :: nat
  io_len :: u32
  io_done :: u32
  io_slot :: nat
  io_more :: bool

text \<open>The registers of a port, in the order in which they lie in memory.\<close>

record port_regs =
  r_clb :: u32
  r_clbu :: u32
  r_fb :: u32
  r_fbu :: u32
  r_is :: u32
  r_ie :: u32
  r_cmd :: u32
  r_unused0 :: u32
  r_tfd :: u32
  r_sig :: u32
  r_ssts :: u32
  r_sctl :: u32
  r_serr :: u32
  r_sact :: u32
  r_ci :: u32
  r_sntf :: u32
  r_fbs :: u32

text \<open>
  A port; \<open>pr_sc\<close> says whether its pointer to the controller is set, which only
  \<open>pci_ahci_init\<close> does, for the ports with a disk.
\<close>

record ahci_port =
  bctx :: "nat blockif_ctxt option"
  pr_sc :: bool
  cmd_lst :: "nat option"
  rfis :: "nat option"
  p_ident :: string
  p_port :: nat
  p_atapi :: bool
  p_reset :: bool
  waitforclear :: bool
  mult_sectors :: nat
  xfermode :: u8
  err_cfis :: "u8 list"
  sense_key :: u8
  p_asc :: u8
  ccs :: nat
  pending :: u32
  regs :: port_regs
  ioreq :: "nat \<Rightarrow> ahci_ioreq"
  ioqsz :: nat
  iofhd :: "nat list"
  iobhd :: "nat list"

record hba_regs =
  h_cap :: u32
  h_ghc :: u32
  h_is :: u32
  h_pi :: u32
  h_vs :: u32
  h_ccc_ctl :: u32
  h_ccc_pts :: u32
  h_em_loc :: u32
  h_em_ctl :: u32
  h_cap2 :: u32
  h_bohc :: u32

record pci_ahci_softc =
  asc_pi :: pci_devinst
  asc_mtx :: pthread_mutex
  ports :: nat
  hregs :: hba_regs
  asc_lintr :: bool
  port :: "nat \<Rightarrow> ahci_port"

text \<open>What the operations work on: the controller, the guest's memory and the interrupt controller.\<close>

record ahci_io =
  hba :: pci_ahci_softc
  a_mem :: bytes
  a_pic :: pic_log

definition the_port :: "nat \<Rightarrow> ahci_io \<Rightarrow> ahci_port" where
  "the_port n io = port (hba io) n"

definition upd_hba :: "(pci_ahci_softc \<Rightarrow> pci_ahci_softc) \<Rightarrow> ahci_io \<Rightarrow> ahci_io" where
  "upd_hba f io = io\<lparr>hba := f (hba io)\<rparr>"

definition upd_hregs :: "(hba_regs \<Rightarrow> hba_regs) \<Rightarrow> ahci_io \<Rightarrow> ahci_io" where
  "upd_hregs f = upd_hba (\<lambda>sc. sc\<lparr>hregs := f (hregs sc)\<rparr>)"

definition upd_port :: "nat \<Rightarrow> (ahci_port \<Rightarrow> ahci_port) \<Rightarrow> ahci_io \<Rightarrow> ahci_io" where
  "upd_port n f = upd_hba (\<lambda>sc. sc\<lparr>port := (port sc)(n := f (port sc n))\<rparr>)"

definition upd_regs :: "nat \<Rightarrow> (port_regs \<Rightarrow> port_regs) \<Rightarrow> ahci_io \<Rightarrow> ahci_io" where
  "upd_regs n f = upd_port n (\<lambda>p. p\<lparr>regs := f (regs p)\<rparr>)"

definition upd_mem :: "(bytes \<Rightarrow> bytes) \<Rightarrow> ahci_io \<Rightarrow> ahci_io" where
  "upd_mem f io = io\<lparr>a_mem := f (a_mem io)\<rparr>"

definition slot_bit :: "nat \<Rightarrow> u32" where
  "slot_bit slot = push_bit slot 1"

text \<open>Bytes stored one after the other.\<close>

definition store_bytes :: "nat \<Rightarrow> u8 list \<Rightarrow> bytes \<Rightarrow> bytes" where
  "store_bytes a xs m = (\<lambda>i. if a \<le> i \<and> i < a + length xs then xs ! (i - a) else m i)"

section \<open>Interrupts\<close>

definition hba_assert :: "ahci_io \<Rightarrow> ahci_io res" where
  "hba_assert io =
     bindE (pci_lintr_assert (asc_pi (hba io)) (a_pic io)) (\<lambda>(pi, pic).
     Inr ((upd_hba (\<lambda>sc. sc\<lparr>asc_pi := pi\<rparr>) io)\<lparr>a_pic := pic\<rparr>))"

definition hba_deassert :: "ahci_io \<Rightarrow> ahci_io res" where
  "hba_deassert io =
     bindE (pci_lintr_deassert (asc_pi (hba io)) (a_pic io)) (\<lambda>(pi, pic).
     Inr ((upd_hba (\<lambda>sc. sc\<lparr>asc_pi := pi\<rparr>) io)\<lparr>a_pic := pic\<rparr>))"

definition set_lintr :: "bool \<Rightarrow> ahci_io \<Rightarrow> ahci_io" where
  "set_lintr b = upd_hba (\<lambda>sc. sc\<lparr>asc_lintr := b\<rparr>)"

text \<open>The global status with the ports that have an enabled event.\<close>

definition ports_status :: "pci_ahci_softc \<Rightarrow> u32" where
  "ports_status sc =
     fold (\<lambda>i s. let r = regs (port sc i) in if r_is r AND r_ie r \<noteq> 0 then s OR slot_bit i else s)
       [0..<ports sc] (h_is (hregs sc))"

text \<open>The messages of the touched ports.\<close>

definition msi_messages :: "nat \<Rightarrow> nat \<Rightarrow> u32 \<Rightarrow> u32 \<Rightarrow> nat list" where
  "msi_messages nports nmsg is touched =
     filter (\<lambda>i. let mmask = (if nports \<le> nmsg \<or> int i < int nmsg - 1 then slot_bit i else push_bit i (- 1))
                 in is AND touched \<noteq> 0 \<and> mmask AND touched \<noteq> 0) [0..<nmsg]"

definition ahci_generate_intr :: "u32 \<Rightarrow> ahci_io \<Rightarrow> ahci_io res" where
  "ahci_generate_intr touched io =
     (let io = upd_hregs (\<lambda>h. h\<lparr>h_is := ports_status (hba io)\<rparr>) io;
          h = hregs (hba io)
      in if h_is h = 0 \<or> h_ghc h AND AHCI_GHC_IE = 0 then
           (if asc_lintr (hba io) then bindE (hba_deassert io) (\<lambda>io. Inr (set_lintr False io)) else Inr io)
         else
           (let nmsg = pci_msi_maxmsgnum (asc_pi (hba io)) in
            if nmsg = 0 then
              (if \<not> asc_lintr (hba io) then hba_assert (set_lintr True io) else Inr io)
            else
              (case fold (\<lambda>i _. pci_generate_msi (asc_pi (hba io)) i)
                      (msi_messages (ports (hba io)) nmsg (h_is h) touched) () of () \<Rightarrow> Inr io)))"

definition ahci_port_intr :: "nat \<Rightarrow> ahci_io \<Rightarrow> ahci_io res" where
  "ahci_port_intr n io =
     (let p = the_port n io; pi = asc_pi (hba io); nmsg = pci_msi_maxmsgnum pi;
          here = slot_bit (p_port p);
          set = upd_hregs (\<lambda>h. h\<lparr>h_is := h_is h OR here\<rparr>);
          enabled = h_ghc (hregs (hba io)) AND AHCI_GHC_IE \<noteq> 0
      in if \<not> pr_sc p then Inl Null_deref
         else if r_is (regs p) AND r_ie (regs p) = 0 then Inr io
         else if ports (hba io) \<le> nmsg \<or> int (p_port p) < int nmsg - 1 then
           (if \<not> enabled then Inr (set io)
            else (case pci_generate_msi pi (p_port p) of () \<Rightarrow> Inr (set io)))
         else if h_is (hregs (hba io)) AND here \<noteq> 0 then Inr io
         else if \<not> enabled then Inr (set io)
         else if 0 < nmsg then (case pci_generate_msi pi (nmsg - 1) of () \<Rightarrow> Inr (set io))
         else if \<not> asc_lintr (hba io) then hba_assert (set_lintr True (set io))
         else Inr (set io))"

section \<open>Frames\<close>

text \<open>Where a frame goes, how long it is and which event it raises.\<close>

fun fis_place :: "sata_fis_type \<Rightarrow> nat \<times> nat \<times> u32" where
  "fis_place FIS_TYPE_REGD2H = (0x40, 20, AHCI_P_IX_DHR)"
| "fis_place FIS_TYPE_SETDEVBITS = (0x58, 8, AHCI_P_IX_SDB)"
| "fis_place FIS_TYPE_PIOSETUP = (0x20, 20, AHCI_P_IX_PS)"

definition ahci_write_fis :: "nat \<Rightarrow> sata_fis_type \<Rightarrow> u8 list \<Rightarrow> ahci_io \<Rightarrow> ahci_io res" where
  "ahci_write_fis n ft fis io =
     (case rfis (the_port n io) of
        None \<Rightarrow> Inr io
      | Some a \<Rightarrow>
          if r_cmd (regs (the_port n io)) AND AHCI_P_CMD_FRE = 0 then Inr io
          else
            (case fis_place ft of (offset, len, ix) \<Rightarrow>
               let err = fis ! 2 AND 0x01 \<noteq> 0;
                   irq = (if bit (fis ! 1) 6 then ix else 0) OR (if err then AHCI_P_IX_TFE else 0);
                   io = (if err then upd_port n (\<lambda>p. p\<lparr>waitforclear := True\<rparr>) io else io);
                   io = upd_mem (store_bytes (a + offset) (take len fis)) io
               in if NOT (r_is (regs (the_port n io))) AND irq \<noteq> 0 then
                    ahci_port_intr n (upd_regs n (\<lambda>r. r\<lparr>r_is := r_is r OR irq\<rparr>) io)
                  else Inr io))"

definition ahci_write_fis_piosetup :: "nat \<Rightarrow> ahci_io \<Rightarrow> ahci_io res" where
  "ahci_write_fis_piosetup n =
     ahci_write_fis n FIS_TYPE_PIOSETUP (fis_code FIS_TYPE_PIOSETUP # replicate 19 0)"

text \<open>The error record: its head and sixteen bytes of the command.\<close>

definition record_error :: "nat \<Rightarrow> u8 \<Rightarrow> u8 \<Rightarrow> u8 \<Rightarrow> nat \<Rightarrow> ahci_io \<Rightarrow> ahci_io" where
  "record_error n b0 status err cfis io =
     upd_port n (\<lambda>p. p\<lparr>err_cfis := (take 4 (err_cfis p))[0 := b0, 2 := status, 3 := err] @
       region (a_mem io) (cfis + 4) 16\<rparr>) io"

text \<open>The SActive word of the frame is stored in the order of the host.\<close>

definition ahci_write_fis_sdb :: "nat \<Rightarrow> nat \<Rightarrow> nat \<Rightarrow> u32 \<Rightarrow> ahci_io \<Rightarrow> ahci_io res" where
  "ahci_write_fis_sdb n slot cfis tfd io =
     (let err = ucast (drop_bit 8 tfd); tfd = tfd AND 0x77; failed = tfd AND ATA_S_ERROR \<noteq> 0;
          fis = [fis_code FIS_TYPE_SETDEVBITS, 0x40, ucast tfd, err] @
                (if failed then [0, 0, 0, 0] else region (store32 (\<lambda>_. 0) 0 (slot_bit slot)) 0 4);
          io = (if failed then record_error n (of_nat slot) (ucast tfd) err cfis io
                else upd_regs n (\<lambda>r. r\<lparr>r_sact := r_sact r AND NOT (slot_bit slot)\<rparr>) io);
          io = upd_regs n (\<lambda>r. r\<lparr>r_tfd := r_tfd r AND NOT 0x77 OR tfd\<rparr>) io
      in ahci_write_fis n FIS_TYPE_SETDEVBITS fis io)"

definition ahci_write_fis_d2h :: "nat \<Rightarrow> nat \<Rightarrow> nat \<Rightarrow> u32 \<Rightarrow> ahci_io \<Rightarrow> ahci_io res" where
  "ahci_write_fis_d2h n slot cfis tfd io =
     (let err = ucast (drop_bit 8 tfd); failed = tfd AND ATA_S_ERROR \<noteq> 0;
          fis = [fis_code FIS_TYPE_REGD2H, 0x40, ucast tfd, err] @ region (a_mem io) (cfis + 4) 10 @ replicate 6 0;
          io = (if failed then record_error n 0x80 (ucast tfd) err cfis io
                else upd_regs n (\<lambda>r. r\<lparr>r_ci := r_ci r AND NOT (slot_bit slot)\<rparr>) io);
          io = upd_regs n (\<lambda>r. r\<lparr>r_tfd := tfd\<rparr>) io
      in ahci_write_fis n FIS_TYPE_REGD2H fis io)"

definition ahci_write_fis_d2h_ncq :: "nat \<Rightarrow> nat \<Rightarrow> ahci_io \<Rightarrow> ahci_io res" where
  "ahci_write_fis_d2h_ncq n slot io =
     (let tfd = ATA_S_READY OR ATA_S_DSC;
          io = upd_regs n (\<lambda>r. r\<lparr>r_tfd := tfd, r_ci := r_ci r AND NOT (slot_bit slot)\<rparr>) io
      in ahci_write_fis n FIS_TYPE_REGD2H ([fis_code FIS_TYPE_REGD2H, 0, ucast tfd, 0] @ replicate 16 0) io)"

definition ahci_write_reset_fis_d2h :: "nat \<Rightarrow> ahci_io \<Rightarrow> ahci_io res" where
  "ahci_write_reset_fis_d2h n io =
     ahci_write_fis n FIS_TYPE_REGD2H
       ([fis_code FIS_TYPE_REGD2H, 0, 0, 1, 1] @ (if p_atapi (the_port n io) then [0x14, 0xeb] else [0, 0]) @
        [0, 0, 0, 0, 0, 1] @ replicate 7 0) io"

section \<open>Stopping and resetting\<close>

definition ahci_check_stopped :: "nat \<Rightarrow> ahci_io \<Rightarrow> ahci_io" where
  "ahci_check_stopped n io =
     (let p = the_port n io in
      if r_cmd (regs p) AND AHCI_P_CMD_ST = 0 \<and> pending p = 0 then
        upd_port n (\<lambda>p. p\<lparr>ccs := 0, waitforclear := False, regs := (regs p)\<lparr>
          r_cmd := r_cmd (regs p) AND NOT (AHCI_P_CMD_CR OR AHCI_P_CMD_CCS_MASK), r_ci := 0, r_sact := 0\<rparr>\<rparr>) io
      else io)"

definition req_store :: "ahci_port \<Rightarrow> nat req_store" where
  "req_store p = (\<lambda>i. io_req (ioreq p i))"

definition is_ncq :: "u8 \<Rightarrow> bool" where
  "is_ncq c \<longleftrightarrow> c = ATA_WRITE_FPDMA_QUEUED \<or> c = ATA_READ_FPDMA_QUEUED \<or> c = ATA_SEND_FPDMA_QUEUED"

text \<open>A request leaves the busy list and goes to the end of the free list.\<close>

definition free_ioreq :: "nat \<Rightarrow> ahci_port \<Rightarrow> ahci_port" where
  "free_ioreq i p = p\<lparr>iobhd := remove1 i (iobhd p), iofhd := iofhd p @ [i]\<rparr>"

text \<open>The walk over the busy list removes only the element it stands on.\<close>

fun stop_reqs :: "nat \<Rightarrow> nat list \<Rightarrow> ahci_io \<Rightarrow> ahci_io res" where
  "stop_reqs n [] io = Inr io"
| "stop_reqs n (i # is) io =
     (let p = the_port n io in
      case bctx p of
        None \<Rightarrow> Inl Null_deref
      | Some bc \<Rightarrow>
          bindE (blockif_cancel bc (req_store p) i) (\<lambda>(err, bc).
          let io = upd_port n (\<lambda>p. p\<lparr>bctx := Some bc\<rparr>) io in
          if err \<noteq> 0 then stop_reqs n is io
          else
            (let slot = io_slot (ioreq p i);
                 io = (if is_ncq (a_mem io (io_cfis (ioreq p i) + 2))
                       then upd_regs n (\<lambda>r. r\<lparr>r_sact := r_sact r AND NOT (slot_bit slot)\<rparr>) io
                       else upd_regs n (\<lambda>r. r\<lparr>r_ci := r_ci r AND NOT (slot_bit slot)\<rparr>) io)
             in stop_reqs n is
                  (upd_port n (\<lambda>p. free_ioreq i (p\<lparr>pending := pending p AND NOT (slot_bit slot)\<rparr>)) io))))"

definition ahci_port_stop :: "nat \<Rightarrow> ahci_io \<Rightarrow> ahci_io res" where
  "ahci_port_stop n io =
     (if \<not> pr_sc (the_port n io) then Inl Null_deref
      else
        bindE (assertE (pthread_mutex_isowned_np (asc_mtx (hba io)) \<noteq> 0)) (\<lambda>_.
        bindE (stop_reqs n (iobhd (the_port n io)) io) (\<lambda>io.
        Inr (ahci_check_stopped n io))))"

definition ahci_port_reset :: "nat \<Rightarrow> ahci_io \<Rightarrow> ahci_io res" where
  "ahci_port_reset n io =
     (let io = upd_port n (\<lambda>p. p\<lparr>xfermode := ATA_UDMA6, mult_sectors := 128,
                 regs := (regs p)\<lparr>r_serr := 0, r_sact := 0\<rparr>\<rparr>) io;
          p = the_port n io
      in if bctx p = None then
           Inr (upd_regs n (\<lambda>r. r\<lparr>r_ssts := ATA_SS_DET_NO_DEVICE, r_sig := 0xFFFFFFFF, r_tfd := 0x7F\<rparr>) io)
         else
           (let spd = r_sctl (regs p) AND ATA_SC_SPD_MASK;
                tfd = (push_bit 8 1 :: u32) OR ATA_S_DSC OR ATA_S_DMA
            in ahci_write_reset_fis_d2h n
                 (upd_regs n (\<lambda>r. r\<lparr>
                    r_ssts := ATA_SS_DET_PHY_ONLINE OR ATA_SS_IPM_ACTIVE OR (if spd \<noteq> 0 then spd else ATA_SS_SPD_GEN3),
                    r_tfd := (if p_atapi p then tfd else tfd OR ATA_S_READY),
                    r_sig := (if p_atapi p then PxSIG_ATAPI else PxSIG_ATA)\<rparr>) io)))"

fun reset_ports :: "nat list \<Rightarrow> ahci_io \<Rightarrow> ahci_io res" where
  "reset_ports [] io = Inr io"
| "reset_ports (i # is) io =
     bindE (ahci_port_reset i
       (upd_regs i (\<lambda>r. r\<lparr>r_ie := 0, r_is := 0,
          r_cmd := AHCI_P_CMD_SUD OR AHCI_P_CMD_POD OR (if bctx (the_port i io) \<noteq> None then AHCI_P_CMD_CPS else 0),
          r_sctl := 0\<rparr>) io)) (\<lambda>io.
     reset_ports is io)"

definition ahci_reset :: "ahci_io \<Rightarrow> ahci_io res" where
  "ahci_reset io =
     (let io = upd_hregs (\<lambda>h. h\<lparr>h_ghc := AHCI_GHC_AE, h_is := 0\<rparr>) io
      in bindE (if asc_lintr (hba io) then bindE (hba_deassert io) (\<lambda>io. Inr (set_lintr False io)) else Inr io)
           (\<lambda>io. reset_ports [0..<ports (hba io)] io))"

section \<open>Reading what was written\<close>

lemma the_port_upd [simp]:
  "the_port n (upd_port m f io) = (if n = m then f (the_port n io) else the_port n io)"
  "the_port n (upd_regs m g io) = (if n = m then (the_port n io)\<lparr>regs := g (regs (the_port n io))\<rparr> else the_port n io)"
  "the_port n (upd_hregs h io) = the_port n io"
  "the_port n (upd_mem k io) = the_port n io"
  "the_port n (set_lintr b io) = the_port n io"
  "the_port n (io\<lparr>a_mem := mm\<rparr>) = the_port n io"
  "the_port n (io\<lparr>a_pic := pc\<rparr>) = the_port n io"
  by (simp_all add: the_port_def upd_port_def upd_regs_def upd_hregs_def upd_hba_def upd_mem_def set_lintr_def)

lemma upd_mem_sel [simp]:
  "a_mem (upd_mem k io) = k (a_mem io)" "hba (upd_mem k io) = hba io" "a_pic (upd_mem k io) = a_pic io"
  by (simp_all add: upd_mem_def)

lemma upd_hba_sel [simp]:
  "a_mem (upd_hba f io) = a_mem io" "a_pic (upd_hba f io) = a_pic io" "hba (upd_hba f io) = f (hba io)"
  by (simp_all add: upd_hba_def)

lemma upd_port_sel [simp]:
  "a_mem (upd_port n f io) = a_mem io" "a_pic (upd_port n f io) = a_pic io"
  "hregs (hba (upd_port n f io)) = hregs (hba io)" "asc_mtx (hba (upd_port n f io)) = asc_mtx (hba io)"
  "asc_pi (hba (upd_port n f io)) = asc_pi (hba io)" "ports (hba (upd_port n f io)) = ports (hba io)"
  "asc_lintr (hba (upd_port n f io)) = asc_lintr (hba io)"
  by (simp_all add: upd_port_def)

lemma upd_regs_sel [simp]:
  "a_mem (upd_regs n g io) = a_mem io" "a_pic (upd_regs n g io) = a_pic io"
  "hregs (hba (upd_regs n g io)) = hregs (hba io)" "asc_mtx (hba (upd_regs n g io)) = asc_mtx (hba io)"
  "asc_pi (hba (upd_regs n g io)) = asc_pi (hba io)" "ports (hba (upd_regs n g io)) = ports (hba io)"
  "asc_lintr (hba (upd_regs n g io)) = asc_lintr (hba io)"
  by (simp_all add: upd_regs_def)

lemma upd_hregs_sel [simp]:
  "a_mem (upd_hregs h io) = a_mem io" "a_pic (upd_hregs h io) = a_pic io"
  "hregs (hba (upd_hregs h io)) = h (hregs (hba io))" "asc_mtx (hba (upd_hregs h io)) = asc_mtx (hba io)"
  "asc_pi (hba (upd_hregs h io)) = asc_pi (hba io)" "ports (hba (upd_hregs h io)) = ports (hba io)"
  "asc_lintr (hba (upd_hregs h io)) = asc_lintr (hba io)" "port (hba (upd_hregs h io)) = port (hba io)"
  by (simp_all add: upd_hregs_def)

lemma set_lintr_sel [simp]:
  "a_mem (set_lintr b io) = a_mem io" "a_pic (set_lintr b io) = a_pic io"
  "hregs (hba (set_lintr b io)) = hregs (hba io)" "asc_mtx (hba (set_lintr b io)) = asc_mtx (hba io)"
  "asc_pi (hba (set_lintr b io)) = asc_pi (hba io)" "ports (hba (set_lintr b io)) = ports (hba io)"
  "asc_lintr (hba (set_lintr b io)) = b" "port (hba (set_lintr b io)) = port (hba io)"
  by (simp_all add: set_lintr_def)

lemma store_bytes_other: "i < a \<or> a + length xs \<le> i \<Longrightarrow> store_bytes a xs m i = m i"
  by (auto simp: store_bytes_def)

lemma store_bytes_nth: "k < length xs \<Longrightarrow> store_bytes a xs m (a + k) = xs ! k"
  by (simp add: store_bytes_def)

text \<open>
  The interrupt changes the global status, the pin and the flag of the controller,
  and never a port, the memory or the mutex.
\<close>

definition same_ports :: "ahci_io \<Rightarrow> ahci_io \<Rightarrow> bool" where
  "same_ports io io' \<longleftrightarrow> port (hba io') = port (hba io) \<and> a_mem io' = a_mem io \<and> asc_mtx (hba io') = asc_mtx (hba io) \<and>
     ports (hba io') = ports (hba io)"

lemma same_ports_refl [simp]: "same_ports io io"
  by (simp add: same_ports_def)

lemma same_ports_port: "same_ports io io' \<Longrightarrow> the_port n io' = the_port n io \<and> a_mem io' = a_mem io"
  by (simp add: same_ports_def the_port_def)

lemma hba_assert_same: "hba_assert io = Inr io' \<Longrightarrow> same_ports io io'"
  by (auto simp: hba_assert_def same_ports_def bindE_Inr)

lemma hba_deassert_same: "hba_deassert io = Inr io' \<Longrightarrow> same_ports io io'"
  by (auto simp: hba_deassert_def same_ports_def bindE_Inr)

lemma same_ports_upd [simp]:
  "same_ports io (upd_hregs h io)" "same_ports io (set_lintr b io)" "same_ports (upd_hregs h io) io' = same_ports io io'"
  "same_ports (set_lintr b io) io' = same_ports io io'" "same_ports io (set_lintr b io') = same_ports io io'"
  by (simp_all add: same_ports_def)

lemma case_unit: "(case (u :: unit) of () \<Rightarrow> x) = x"
  by (cases u) (simp only: unit.case)

lemma generate_intr_same:
  assumes "ahci_generate_intr v io = Inr io'"
  shows "same_ports io io'"
proof -
  let ?io = "upd_hregs (\<lambda>h. h\<lparr>h_is := ports_status (hba io)\<rparr>) io"
  have "hba_assert (set_lintr True ?io) = Inr io' \<or> (\<exists>x. hba_deassert ?io = Inr x \<and> io' = set_lintr False x) \<or> io' = ?io"
    using assms unfolding ahci_generate_intr_def Let_def case_unit
    by (simp only: bindE_Inr sum.inject upd_hregs_sel split: if_split_asm) blast+
  then show ?thesis using hba_assert_same [of "set_lintr True ?io"] hba_deassert_same [of ?io] by auto
qed

lemma port_intr_same:
  assumes "ahci_port_intr n io = Inr io'"
  shows "same_ports io io'"
proof -
  let ?io = "upd_hregs (\<lambda>h. h\<lparr>h_is := h_is h OR slot_bit (p_port (the_port n io))\<rparr>) io"
  have "hba_assert (set_lintr True ?io) = Inr io' \<or> io' = ?io \<or> io' = io"
    using assms unfolding ahci_port_intr_def Let_def case_unit
    by (simp only: sum.inject sum.distinct split: if_split_asm) blast+
  then show ?thesis using hba_assert_same [of "set_lintr True ?io"] by auto
qed

end
