(* ===== verification/Ahci_Cmd.thy ===== *)
theory Ahci_Cmd
  imports Ahci_State
begin

text \<open>
  \<open>bhyve/pci_ahci.c\<close>: the disk commands: the scatter/gather table of a command (PRDT),
  transfers, flush and trim, the log pages and the identification block.
  \<open>iommu\<close> is the build option \<open>CONFIG_IOMMU\<close>.
\<close>

section \<open>Constants\<close>

abbreviation (input) BLOCKIF_IOV_MAX :: nat where "BLOCKIF_IOV_MAX \<equiv> 33"
abbreviation (input) DBCMASK :: u32 where "DBCMASK \<equiv> 0x3fffff"
abbreviation (input) ATA_DATA_SET_MANAGEMENT :: u8 where "ATA_DATA_SET_MANAGEMENT \<equiv> 0x06"
abbreviation (input) ATA_READ48 :: u8 where "ATA_READ48 \<equiv> 0x24"
abbreviation (input) ATA_READ_DMA48 :: u8 where "ATA_READ_DMA48 \<equiv> 0x25"
abbreviation (input) ATA_READ_MUL48 :: u8 where "ATA_READ_MUL48 \<equiv> 0x29"
abbreviation (input) ATA_READ_LOG_EXT :: u8 where "ATA_READ_LOG_EXT \<equiv> 0x2f"
abbreviation (input) ATA_WRITE :: u8 where "ATA_WRITE \<equiv> 0x30"
abbreviation (input) ATA_WRITE48 :: u8 where "ATA_WRITE48 \<equiv> 0x34"
abbreviation (input) ATA_WRITE_DMA48 :: u8 where "ATA_WRITE_DMA48 \<equiv> 0x35"
abbreviation (input) ATA_WRITE_MUL48 :: u8 where "ATA_WRITE_MUL48 \<equiv> 0x39"
abbreviation (input) ATA_WRITE_MUL :: u8 where "ATA_WRITE_MUL \<equiv> 0xc5"
abbreviation (input) ATA_WRITE_DMA :: u8 where "ATA_WRITE_DMA \<equiv> 0xca"
abbreviation (input) ATA_WDMA0 :: u8 where "ATA_WDMA0 \<equiv> 0x20"
abbreviation (input) ATA_UDMA0 :: u8 where "ATA_UDMA0 \<equiv> 0x40"
abbreviation (input) ATA_SATA_GEN1 :: u16 where "ATA_SATA_GEN1 \<equiv> 0x0002"
abbreviation (input) ATA_SATA_GEN2 :: u16 where "ATA_SATA_GEN2 \<equiv> 0x0004"
abbreviation (input) ATA_SATA_GEN3 :: u16 where "ATA_SATA_GEN3 \<equiv> 0x0008"
abbreviation (input) ATA_SUPPORT_NCQ :: u16 where "ATA_SUPPORT_NCQ \<equiv> 0x0100"
abbreviation (input) ATA_SUPPORT_RCVSND_FPDMA_QUEUED :: u16 where "ATA_SUPPORT_RCVSND_FPDMA_QUEUED \<equiv> 0x0040"
abbreviation (input) ATA_SUPPORT_POWERMGT :: u16 where "ATA_SUPPORT_POWERMGT \<equiv> 0x0008"
abbreviation (input) ATA_SUPPORT_PACKET :: u16 where "ATA_SUPPORT_PACKET \<equiv> 0x0010"
abbreviation (input) ATA_SUPPORT_WRITECACHE :: u16 where "ATA_SUPPORT_WRITECACHE \<equiv> 0x0020"
abbreviation (input) ATA_SUPPORT_LOOKAHEAD :: u16 where "ATA_SUPPORT_LOOKAHEAD \<equiv> 0x0040"
abbreviation (input) ATA_SUPPORT_RESET :: u16 where "ATA_SUPPORT_RESET \<equiv> 0x0200"
abbreviation (input) ATA_SUPPORT_NOP :: u16 where "ATA_SUPPORT_NOP \<equiv> 0x4000"
abbreviation (input) ATA_SUPPORT_ADDRESS48 :: u16 where "ATA_SUPPORT_ADDRESS48 \<equiv> 0x0400"
abbreviation (input) ATA_SUPPORT_FLUSHCACHE :: u16 where "ATA_SUPPORT_FLUSHCACHE \<equiv> 0x1000"
abbreviation (input) ATA_SUPPORT_FLUSHCACHE48 :: u16 where "ATA_SUPPORT_FLUSHCACHE48 \<equiv> 0x2000"
abbreviation (input) ATA_SUPPORT_RZAT :: u16 where "ATA_SUPPORT_RZAT \<equiv> 0x0020"
abbreviation (input) ATA_SUPPORT_DRAT :: u16 where "ATA_SUPPORT_DRAT \<equiv> 0x4000"
abbreviation (input) ATA_SUPPORT_DSM_TRIM :: u16 where "ATA_SUPPORT_DSM_TRIM \<equiv> 0x0001"
abbreviation (input) ATA_SUPPORT_RWLOGDMAEXT :: u16 where "ATA_SUPPORT_RWLOGDMAEXT \<equiv> 0x0008"

text \<open>The task file of a command that succeeded, and of one that was aborted.\<close>

abbreviation (input) tfd_ok :: u32 where "tfd_ok \<equiv> ATA_S_READY OR ATA_S_DSC"
abbreviation (input) tfd_abort :: u32 where "tfd_abort \<equiv> push_bit 8 ATA_E_ABORT OR ATA_S_READY OR ATA_S_ERROR"

section \<open>Command headers and tables\<close>

definition cmd_hdr :: "nat \<Rightarrow> nat \<Rightarrow> ahci_io \<Rightarrow> nat res" where
  "cmd_hdr n slot io =
     (case cmd_lst (the_port n io) of None \<Rightarrow> Inl Null_deref | Some a \<Rightarrow> Inr (a + slot * AHCI_CL_SIZE))"

definition hdr_prdtl :: "bytes \<Rightarrow> nat \<Rightarrow> nat" where
  "hdr_prdtl m hdr = unat (le16 m (hdr + 2))"

definition prdt_dbc :: "bytes \<Rightarrow> nat \<Rightarrow> nat" where
  "prdt_dbc m prdt = unat (le32 m (prdt + 12) AND DBCMASK) + 1"

definition prdt_ptr :: "bool \<Rightarrow> bytes \<Rightarrow> nat \<Rightarrow> nat" where
  "prdt_ptr iommu m prdt = unat (paddr_guest2host iommu (le64 m prdt))"

text \<open>
  The two copies look at the header and at the table again in every turn, and a
  copy to the guest may change both.
\<close>

function read_prdt_loop :: "bool \<Rightarrow> bytes \<Rightarrow> nat \<Rightarrow> nat \<Rightarrow> nat \<Rightarrow> nat \<Rightarrow> u8 list" where
  "read_prdt_loop iommu m hdr i prdt len =
     (if i < hdr_prdtl m hdr \<and> 0 < len then
        (let sublen = min len (prdt_dbc m prdt) in
         region m (prdt_ptr iommu m prdt) sublen @ read_prdt_loop iommu m hdr (i + 1) (prdt + 16) (len - sublen))
      else [])"
  by pat_completeness auto
termination by (relation "measure (\<lambda>(_, _, _, _, _, len). len)") (auto simp: prdt_dbc_def)

declare read_prdt_loop.simps [simp del]

text \<open>What the table does not fill keeps what was on the stack.\<close>

definition read_prdt :: "bool \<Rightarrow> u8 list \<Rightarrow> nat \<Rightarrow> nat \<Rightarrow> nat \<Rightarrow> ahci_io \<Rightarrow> u8 list res" where
  "read_prdt iommu buf n slot cfis io =
     bindE (cmd_hdr n slot io) (\<lambda>hdr.
     let got = read_prdt_loop iommu (a_mem io) hdr 0 (cfis + 0x80) (length buf)
     in Inr (got @ drop (length got) buf))"

function write_prdt_loop :: "bool \<Rightarrow> nat \<Rightarrow> nat \<Rightarrow> nat \<Rightarrow> u8 list \<Rightarrow> bytes \<Rightarrow> u8 list \<times> bytes" where
  "write_prdt_loop iommu hdr i prdt buf m =
     (if i < hdr_prdtl m hdr \<and> buf \<noteq> [] then
        (let sublen = min (length buf) (prdt_dbc m prdt) in
         write_prdt_loop iommu hdr (i + 1) (prdt + 16) (drop sublen buf)
           (store_bytes (prdt_ptr iommu m prdt) (take sublen buf) m))
      else (buf, m))"
  by pat_completeness auto
termination by (relation "measure (\<lambda>(_, _, _, _, buf, _). length buf)") (auto simp: prdt_dbc_def)

declare write_prdt_loop.simps [simp del]

definition write_prdt :: "bool \<Rightarrow> u8 list \<Rightarrow> nat \<Rightarrow> nat \<Rightarrow> nat \<Rightarrow> ahci_io \<Rightarrow> ahci_io res" where
  "write_prdt iommu buf n slot cfis io =
     bindE (cmd_hdr n slot io) (\<lambda>hdr.
     case write_prdt_loop iommu hdr 0 (cfis + 0x80) buf (a_mem io) of
       (rest, m) \<Rightarrow> Inr (io\<lparr>a_mem := store32 m (hdr + 4) (of_nat (length buf - length rest))\<rparr>))"

section \<open>Building the vector of a transfer\<close>

text \<open>
  The part of the table from \<open>skip\<close> on, at most \<open>left\<close> bytes and
  \<open>BLOCKIF_IOV_MAX\<close> pieces: the pieces, the bytes in them and the entries that
  were not looked at. The comparison with \<open>left\<close> is the signed one of the loop.
\<close>

fun build_iov_loop :: "bool \<Rightarrow> bytes \<Rightarrow> nat \<Rightarrow> nat \<Rightarrow> u32 \<Rightarrow> u32 \<Rightarrow> u32 \<Rightarrow> iovec list \<Rightarrow> iovec list \<times> u32 \<times> nat" where
  "build_iov_loop iommu m prdt 0 skip left todo iov = (iov, todo, 0)"
| "build_iov_loop iommu m prdt (Suc n) skip left todo iov =
     (if \<not> (length iov < BLOCKIF_IOV_MAX \<and> 0 < sint left) then (iov, todo, Suc n)
      else
        (let dbcsz = (le32 m (prdt + 12) AND DBCMASK) + 1 in
         if dbcsz \<le> skip then build_iov_loop iommu m (prdt + 16) n (skip - dbcsz) left todo iov
         else
           (let dbcsz = dbcsz - skip; dbcsz = (if dbcsz > left then left else dbcsz);
                v = \<lparr>iov_base = unat (paddr_guest2host iommu (le64 m prdt + scast skip)), iov_len = unat dbcsz\<rparr>
            in build_iov_loop iommu m (prdt + 16) n 0 (left - dbcsz) (todo + dbcsz) (iov @ [v]))))"

text \<open>Cutting \<open>extra\<close> bytes off the end; the vector is given from its end.\<close>

fun trim_rev :: "nat \<Rightarrow> iovec list \<Rightarrow> iovec list res" where
  "trim_rev 0 vs = Inr vs"
| "trim_rev (Suc e) [] = Inl Out_of_bounds"
| "trim_rev (Suc e) (v # vs) =
     (if iov_len v > Suc e then Inr (v\<lparr>iov_len := iov_len v - Suc e\<rparr> # vs)
      else trim_rev (Suc e - iov_len v) vs)"

definition port_sectsz :: "nat \<Rightarrow> ahci_io \<Rightarrow> int res" where
  "port_sectsz n io = (case bctx (the_port n io) of None \<Rightarrow> Inl Null_deref | Some bc \<Rightarrow> blockif_sectsz bc)"

definition upd_ioreq :: "nat \<Rightarrow> nat \<Rightarrow> (ahci_ioreq \<Rightarrow> ahci_ioreq) \<Rightarrow> ahci_io \<Rightarrow> ahci_io" where
  "upd_ioreq n i f = upd_port n (\<lambda>p. p\<lparr>ioreq := (ioreq p)(i := f (ioreq p i))\<rparr>)"

definition ahci_build_iov :: "bool \<Rightarrow> nat \<Rightarrow> nat \<Rightarrow> nat \<Rightarrow> nat \<Rightarrow> ahci_io \<Rightarrow> ahci_io res" where
  "ahci_build_iov iommu n i prdt prdtl io =
     (let aior = ioreq (the_port n io) i in
      case build_iov_loop iommu (a_mem io) prdt prdtl (io_done aior) (io_len aior - io_done aior) 0 [] of
        (iov, todo, rest) \<Rightarrow>
          bindE (if length iov = BLOCKIF_IOV_MAX then
                   bindE (port_sectsz n io) (\<lambda>sectsz.
                   if sectsz = 0 then Inl Div_zero
                   else
                     (let extra = nat (sint todo smod sectsz); todo = todo - of_nat extra in
                      bindE (assertE (0 < sint todo)) (\<lambda>_.
                      bindE (trim_rev extra (rev iov)) (\<lambda>vs. Inr (rev vs, todo)))))
                 else Inr (iov, todo)) (\<lambda>(iov, todo).
          Inr (upd_ioreq n i (\<lambda>a. a\<lparr>
            io_req := (io_req a)\<lparr>br_iov := iov, br_iovcnt := length iov, br_resid := sint todo\<rparr>,
            io_done := io_done a + todo,
            io_more := io_done a + todo < io_len a \<and> 0 < rest\<rparr>) io)))"

section \<open>Requests to the disk\<close>

definition take_ioreq :: "nat \<Rightarrow> ahci_io \<Rightarrow> (nat \<times> ahci_io) res" where
  "take_ioreq n io =
     (case iofhd (the_port n io) of
        [] \<Rightarrow> Inl Assert_failed
      | i # is \<Rightarrow> Inr (i, upd_port n (\<lambda>p. p\<lparr>iofhd := is\<rparr>) io))"

text \<open>The command is in flight and its request on the busy list.\<close>

definition in_flight :: "nat \<Rightarrow> nat \<Rightarrow> nat \<Rightarrow> ahci_io \<Rightarrow> ahci_io" where
  "in_flight n slot i = upd_port n (\<lambda>p. p\<lparr>pending := pending p OR slot_bit slot, iobhd := i # iobhd p\<rparr>)"

definition submit_req ::
    "(nat blockif_ctxt \<Rightarrow> nat req_store \<Rightarrow> nat \<Rightarrow> (int \<times> nat blockif_ctxt) res) \<Rightarrow> nat \<Rightarrow> nat \<Rightarrow> ahci_io \<Rightarrow> ahci_io res" where
  "submit_req op n i io =
     (case bctx (the_port n io) of
        None \<Rightarrow> Inl Null_deref
      | Some bc \<Rightarrow>
          bindE (op bc (req_store (the_port n io)) i) (\<lambda>(err, bc).
          bindE (assertE (err = 0)) (\<lambda>_. Inr (upd_port n (\<lambda>p. p\<lparr>bctx := Some bc\<rparr>) io))))"

section \<open>Read and write\<close>

definition rw_write :: "u8 \<Rightarrow> bool" where
  "rw_write c \<longleftrightarrow> c = ATA_WRITE \<or> c = ATA_WRITE48 \<or> c = ATA_WRITE_MUL \<or> c = ATA_WRITE_MUL48 \<or>
     c = ATA_WRITE_DMA \<or> c = ATA_WRITE_DMA48 \<or> c = ATA_WRITE_FPDMA_QUEUED"

definition rw_ncq :: "u8 \<Rightarrow> bool" where
  "rw_ncq c \<longleftrightarrow> c = ATA_WRITE_FPDMA_QUEUED \<or> c = ATA_READ_FPDMA_QUEUED"

definition rw_48 :: "u8 \<Rightarrow> bool" where
  "rw_48 c \<longleftrightarrow> c = ATA_READ48 \<or> c = ATA_WRITE48 \<or> c = ATA_READ_MUL48 \<or> c = ATA_WRITE_MUL48 \<or>
     c = ATA_READ_DMA48 \<or> c = ATA_WRITE_DMA48"

definition byte_at :: "bytes \<Rightarrow> nat \<Rightarrow> nat \<Rightarrow> u64" where
  "byte_at m a sh = push_bit sh (ucast (m a))"

definition lba48 :: "bytes \<Rightarrow> nat \<Rightarrow> u64" where
  "lba48 m c = byte_at m (c + 10) 40 OR byte_at m (c + 9) 32 OR byte_at m (c + 8) 24 OR
     byte_at m (c + 6) 16 OR byte_at m (c + 5) 8 OR byte_at m (c + 4) 0"

definition lba28 :: "bytes \<Rightarrow> nat \<Rightarrow> u64" where
  "lba28 m c = push_bit 24 (ucast (m (c + 7) AND 0xf)) OR byte_at m (c + 6) 16 OR byte_at m (c + 5) 8 OR
     byte_at m (c + 4) 0"

text \<open>First sector and number of sectors; a count of zero is the largest one.\<close>

definition rw_range :: "bytes \<Rightarrow> nat \<Rightarrow> u64 \<times> u32" where
  "rw_range m c =
     (let pair = (\<lambda>hi lo. push_bit 8 (ucast (m (c + hi))) OR ucast (m (c + lo)) :: u32);
          most = (\<lambda>l d. if l = 0 then d else l)
      in if rw_ncq (m (c + 2)) then (lba48 m c, most (pair 11 3) 65536)
         else if rw_48 (m (c + 2)) then (lba48 m c, most (pair 13 12) 65536)
         else (lba28 m c, most (ucast (m (c + 12))) 256))"

definition ahci_handle_rw :: "bool \<Rightarrow> nat \<Rightarrow> nat \<Rightarrow> nat \<Rightarrow> u32 \<Rightarrow> ahci_io \<Rightarrow> ahci_io res" where
  "ahci_handle_rw iommu n slot cfis fin io =
     (let m = a_mem io; c = m (cfis + 2) in
      bindE (port_sectsz n io) (\<lambda>sectsz.
      let (lba, len) = rw_range m cfis;
          lba = lba * word_of_int sectsz;
          len = len * word_of_int sectsz
      in bindE (take_ioreq n io) (\<lambda>(i, io).
         bindE (cmd_hdr n slot io) (\<lambda>hdr.
         let io = upd_ioreq n i (\<lambda>a. a\<lparr>io_cfis := cfis, io_slot := slot, io_len := len, io_done := fin,
                    io_req := (io_req a)\<lparr>br_offset := sint (lba + ucast fin)\<rparr>\<rparr>) io
         in bindE (ahci_build_iov iommu n i (cfis + 0x80) (hdr_prdtl m hdr) io) (\<lambda>io.
            let io = in_flight n slot i io in
            bindE (if rw_ncq c \<and> fin = 0 then ahci_write_fis_d2h_ncq n slot io else Inr io) (\<lambda>io.
            submit_req (if rw_write c then blockif_write else blockif_read) n i io))))))"

definition ahci_handle_flush :: "nat \<Rightarrow> nat \<Rightarrow> nat \<Rightarrow> ahci_io \<Rightarrow> ahci_io res" where
  "ahci_handle_flush n slot cfis io =
     bindE (take_ioreq n io) (\<lambda>(i, io).
     submit_req blockif_flush n i
       (in_flight n slot i
         (upd_ioreq n i (\<lambda>a. a\<lparr>io_cfis := cfis, io_slot := slot, io_len := 0, io_done := 0, io_more := False\<rparr>) io)))"

section \<open>Trim\<close>

text \<open>The next range that is not empty, from entry \<open>fin\<close> on: its start, its length and the place behind it.\<close>

function trim_scan :: "u8 list \<Rightarrow> nat \<Rightarrow> nat \<Rightarrow> (u64 \<times> nat \<times> nat) option res" where
  "trim_scan buf len fin =
     (if length buf < fin + 8 then Inl Out_of_bounds
      else
        (let b = (\<lambda>i sh. push_bit sh (ucast (buf ! (fin + i))) :: u64);
             elba = b 5 40 OR b 4 32 OR b 3 24 OR b 2 16 OR b 1 8 OR b 0 0;
             elen = unat (b 7 8 OR b 6 0)
         in if elen \<noteq> 0 then Inr (Some (elba, elen, fin + 8))
            else if fin + 8 \<ge> len then Inr None
            else trim_scan buf len (fin + 8)))"
  by pat_completeness auto
termination by (relation "measure (\<lambda>(buf, _, fin). length buf - fin)") auto

declare trim_scan.simps [simp del]

text \<open>
  \<open>junk\<close> is the buffer on the stack; \<open>resume\<close> is \<open>ahci_handle_port\<close>, called when the last
  round of a command finds nothing more to trim.
\<close>

definition trim_done :: "nat \<Rightarrow> nat \<Rightarrow> nat \<Rightarrow> bool \<Rightarrow> bool \<Rightarrow> ahci_io \<Rightarrow> ahci_io res" where
  "trim_done n slot cfis ncq first io =
     bindE (if ncq then
              bindE (if first then ahci_write_fis_d2h_ncq n slot io else Inr io)
                (ahci_write_fis_sdb n slot cfis tfd_ok)
            else ahci_write_fis_d2h n slot cfis tfd_ok io) (\<lambda>io.
     Inr (ahci_check_stopped n (upd_port n (\<lambda>p. p\<lparr>pending := pending p AND NOT (slot_bit slot)\<rparr>) io)))"

definition ahci_handle_dsm_trim ::
    "bool \<Rightarrow> bytes \<Rightarrow> (ahci_io \<Rightarrow> ahci_io res) \<Rightarrow> nat \<Rightarrow> nat \<Rightarrow> nat \<Rightarrow> u32 \<Rightarrow> ahci_io \<Rightarrow> ahci_io res" where
  "ahci_handle_dsm_trim iommu junk resume n slot cfis fin io =
     (let m = a_mem io; first = (fin = 0); ncq = (m (cfis + 2) \<noteq> ATA_DATA_SET_MANAGEMENT);
          len = (if ncq then unat (m (cfis + 11)) * 256 + unat (m (cfis + 3))
                 else unat (m (cfis + 13)) * 256 + unat (m (cfis + 12))) * 512
      in bindE (read_prdt iommu (map junk [0..<512]) n slot cfis io) (\<lambda>buf.
         bindE (trim_scan buf len (unat fin)) (\<lambda>r.
         case r of
           None \<Rightarrow>
             bindE (trim_done n slot cfis ncq first io) (\<lambda>io. if first then Inr io else resume io)
         | Some (elba, elen, fin') \<Rightarrow>
             bindE (take_ioreq n io) (\<lambda>(i, io).
             bindE (port_sectsz n io) (\<lambda>sectsz.
             let io = upd_ioreq n i (\<lambda>a. a\<lparr>io_cfis := cfis, io_slot := slot, io_len := of_nat len,
                        io_done := of_nat fin', io_more := len \<noteq> fin',
                        io_req := (io_req a)\<lparr>br_offset := sint (elba * word_of_int sectsz),
                          br_resid := int elen * sectsz\<rparr>\<rparr>) io;
                 io = in_flight n slot i io
             in bindE (if ncq \<and> first then ahci_write_fis_d2h_ncq n slot io else Inr io) (\<lambda>io.
                submit_req blockif_delete n i io))))))"

section \<open>Blocks of data for the guest\<close>

definition bswap16 :: "u16 \<Rightarrow> u16" where
  "bswap16 v = push_bit 8 v OR drop_bit 8 v"

text \<open>A block on the stack is a list of bytes; its words are stored in the order of the host.\<close>

definition put16 :: "nat \<Rightarrow> u16 \<Rightarrow> u8 list \<Rightarrow> u8 list" where
  "put16 i v buf = buf[2 * i := ucast (drop_bit 8 v), 2 * i + 1 := ucast v]"

definition or16 :: "nat \<Rightarrow> u16 \<Rightarrow> u8 list \<Rightarrow> u8 list" where
  "or16 i v buf = buf[2 * i := buf ! (2 * i) OR ucast (drop_bit 8 v), 2 * i + 1 := buf ! (2 * i + 1) OR ucast v]"

definition put_words :: "(nat \<times> u16) list \<Rightarrow> u8 list \<Rightarrow> u8 list" where
  "put_words ws buf = fold (\<lambda>(i, v). put16 i v) ws buf"

definition ahci_checksum :: "u8 list \<Rightarrow> u8 list" where
  "ahci_checksum buf = buf[length buf - 1 := - sum_list (take (length buf - 1) buf)]"

definition char_at :: "string \<Rightarrow> nat \<Rightarrow> u8" where
  "char_at s i = (if i < length s then of_char (s ! i) else 0x20)"

definition ata_string :: "nat \<Rightarrow> string \<Rightarrow> nat \<Rightarrow> u8 list \<Rightarrow> u8 list" where
  "ata_string dest src len buf = fold (\<lambda>i b. b[dest + (if even i then i + 1 else i - 1) := char_at src i]) [0..<len] buf"

definition atapi_string :: "nat \<Rightarrow> string \<Rightarrow> nat \<Rightarrow> u8 list \<Rightarrow> u8 list" where
  "atapi_string dest src len buf = fold (\<lambda>i b. b[dest + i := char_at src i]) [0..<len] buf"

section \<open>Log pages\<close>

definition ahci_handle_read_log :: "bool \<Rightarrow> nat \<Rightarrow> nat \<Rightarrow> nat \<Rightarrow> ahci_io \<Rightarrow> ahci_io res" where
  "ahci_handle_read_log iommu n slot cfis io =
     bindE (cmd_hdr n slot io) (\<lambda>hdr.
     let m = a_mem io; p = the_port n io; zero = replicate 512 0; page = m (cfis + 4) in
     if p_atapi p \<or> hdr_prdtl m hdr = 0 \<or> m (cfis + 5) \<noteq> 0 \<or> m (cfis + 9) \<noteq> 0 \<or> m (cfis + 12) \<noteq> 1 \<or>
        m (cfis + 13) \<noteq> 0
     then ahci_write_fis_d2h n slot cfis tfd_abort io
     else
       bindE (if page = 0x00 then Inr (Some (put_words [(0x00, 1), (0x10, 1), (0x13, 1)] zero))
              else if page = 0x10 then Inr (Some (ahci_checksum (err_cfis p @ drop (length (err_cfis p)) zero)))
              else if page = 0x13 then
                (case bctx p of
                   None \<Rightarrow> Inl Null_deref
                 | Some bc \<Rightarrow>
                     bindE (blockif_candelete bc) (\<lambda>cd.
                     bindE (if cd then blockif_is_ro bc else Inr True) (\<lambda>ro.
                     Inr (Some (if cd \<and> \<not> ro then put_words [(1, 1), (3, 1)] zero else zero)))))
              else Inr None) (\<lambda>r.
       case r of
         None \<Rightarrow> ahci_write_fis_d2h n slot cfis tfd_abort io
       | Some buf \<Rightarrow>
           bindE (if m (cfis + 2) = ATA_READ_LOG_EXT then ahci_write_fis_piosetup n io else Inr io) (\<lambda>io.
           bindE (write_prdt iommu buf n slot cfis io) (\<lambda>io.
           ahci_write_fis_d2h n slot cfis (ATA_S_DSC OR ATA_S_READY) io))))"

section \<open>Identification\<close>

text \<open>The geometry and the size of the disk, as \<open>handle_identify\<close> asks for them.\<close>

record disk_info =
  d_ro :: bool
  d_candelete :: bool
  d_sectsz :: int
  d_sectors :: u64
  d_chs :: "nat \<times> nat \<times> nat"
  d_psect :: "int \<times> int"

definition disk_query :: "nat blockif_ctxt \<Rightarrow> disk_info res" where
  "disk_query bc =
     bindE (blockif_is_ro bc) (\<lambda>ro.
     bindE (blockif_candelete bc) (\<lambda>cd.
     bindE (blockif_sectsz bc) (\<lambda>sectsz.
     bindE (blockif_size bc) (\<lambda>sz.
     if sectsz = 0 then Inl Div_zero
     else
       bindE (blockif_chs bc) (\<lambda>chs.
       bindE (blockif_psectsz bc) (\<lambda>ps.
       Inr \<lparr>d_ro = ro, d_candelete = cd, d_sectsz = sectsz, d_sectors = word_of_int (sz sdiv sectsz),
         d_chs = chs, d_psect = ps\<rparr>))))))"

definition xfer_words :: "nat \<Rightarrow> u8 \<Rightarrow> u8 \<Rightarrow> (u16 \<Rightarrow> u16) \<Rightarrow> u8 list \<Rightarrow> u8 list" where
  "xfer_words i xfer family order buf =
     (if xfer AND family \<noteq> 0 then or16 i (order (push_bit (unat (xfer AND 7) + 8) 1)) buf else buf)"

definition identify_block :: "ahci_port \<Rightarrow> disk_info \<Rightarrow> u8 list" where
  "identify_block p d =
     (let le = bswap16; (cyl, heads, sech) = d_chs d; (psectsz, psectoff) = d_psect d; s = d_sectors d;
          sectsz = d_sectsz d; spd = r_ssts (regs p) AND ATA_SS_SPD_MASK;
          buf = put_words [(0, le 0x0040), (1, le (of_nat cyl)), (3, le (of_nat heads)), (6, le (of_nat sech))]
                  (replicate 512 0);
          buf = ata_string 54 ''BHYVE SATA DISK'' 40 (ata_string 46 ''001'' 8 (ata_string 20 (p_ident p) 20 buf));
          buf = put_words [(47, le (0x8000 OR 128)), (48, 0), (49, le 0x0b00), (50, le 0x4000), (53, le 0x0006)] buf;
          buf = (if mult_sectors p \<noteq> 0 then put16 59 (le (0x100 OR of_nat (mult_sectors p))) buf else buf);
          buf = put_words (if s \<le> 0x0fffffff then [(60, le (ucast s)), (61, le (ucast (drop_bit 16 s)))]
                           else [(60, le 0xffff), (61, le 0x0fff)]) buf;
          buf = xfer_words 63 (xfermode p) ATA_WDMA0 le (put16 63 (le 0x7) buf);
          buf = put_words [(64, le 0x3), (65, le 120), (66, le 120), (67, le 120), (68, le 120), (69, 0), (75, le 31),
                 (76, le (ATA_SATA_GEN1 OR ATA_SATA_GEN2 OR ATA_SATA_GEN3 OR ATA_SUPPORT_NCQ)),
                 (77, le (ATA_SUPPORT_RCVSND_FPDMA_QUEUED OR ucast (drop_bit 3 spd))),
                 (80, le 0x3f0), (81, le 0x28),
                 (82, le (ATA_SUPPORT_POWERMGT OR ATA_SUPPORT_WRITECACHE OR ATA_SUPPORT_LOOKAHEAD OR ATA_SUPPORT_NOP)),
                 (83, le (ATA_SUPPORT_ADDRESS48 OR ATA_SUPPORT_FLUSHCACHE OR ATA_SUPPORT_FLUSHCACHE48 OR 0x4000)),
                 (84, le 0x4000),
                 (85, le (ATA_SUPPORT_POWERMGT OR ATA_SUPPORT_WRITECACHE OR ATA_SUPPORT_LOOKAHEAD OR ATA_SUPPORT_NOP)),
                 (86, le (ATA_SUPPORT_ADDRESS48 OR ATA_SUPPORT_FLUSHCACHE OR ATA_SUPPORT_FLUSHCACHE48 OR 0x8000)),
                 (87, le 0x4000)] buf;
          buf = xfer_words 88 (xfermode p) ATA_UDMA0 le (put16 88 (le 0x7f) buf);
          buf = put_words [(100, le (ucast s)), (101, le (ucast (drop_bit 16 s))), (102, le (ucast (drop_bit 32 s))),
                 (103, le (ucast (drop_bit 48 s)))] buf;
          buf = (if d_candelete d \<and> \<not> d_ro d then
                   put_words [(105, le 1), (169, le ATA_SUPPORT_DSM_TRIM)]
                     (or16 69 (le (ATA_SUPPORT_RZAT OR ATA_SUPPORT_DRAT)) buf) else buf);
          buf = put_words [(106, le 0x4000), (209, le 0x4000)] buf;
          buf = (if psectsz > sectsz then
                   or16 209 (le (word_of_int (psectoff sdiv sectsz)))
                     (or16 106 (le (of_nat (ffs (nat (psectsz sdiv sectsz))) - 1)) (or16 106 (le 0x2000) buf)) else buf);
          buf = (if sectsz > 512 then
                   put_words [(117, le (word_of_int (sectsz div 2))), (118, le (word_of_int (drop_bit 16 (sectsz div 2))))]
                     (or16 106 (le 0x1000) buf) else buf);
          buf = put_words [(119, le (ATA_SUPPORT_RWLOGDMAEXT OR 0x4000)), (120, le (ATA_SUPPORT_RWLOGDMAEXT OR 0x4000)),
                 (222, le 0x1020), (255, le 0x00a5)] buf
      in ahci_checksum buf)"

definition send_identify :: "bool \<Rightarrow> u8 list \<Rightarrow> nat \<Rightarrow> nat \<Rightarrow> nat \<Rightarrow> ahci_io \<Rightarrow> ahci_io res" where
  "send_identify iommu buf n slot cfis io =
     bindE (ahci_write_fis_piosetup n io) (\<lambda>io.
     bindE (write_prdt iommu buf n slot cfis io) (\<lambda>io.
     ahci_write_fis_d2h n slot cfis (ATA_S_DSC OR ATA_S_READY) io))"

definition handle_identify :: "bool \<Rightarrow> nat \<Rightarrow> nat \<Rightarrow> nat \<Rightarrow> ahci_io \<Rightarrow> ahci_io res" where
  "handle_identify iommu n slot cfis io =
     bindE (cmd_hdr n slot io) (\<lambda>hdr.
     let p = the_port n io in
     if p_atapi p \<or> hdr_prdtl (a_mem io) hdr = 0 then ahci_write_fis_d2h n slot cfis tfd_abort io
     else
       (case bctx p of
          None \<Rightarrow> Inl Null_deref
        | Some bc \<Rightarrow> bindE (disk_query bc) (\<lambda>d. send_identify iommu (identify_block p d) n slot cfis io)))"

definition atapi_identify_block :: "ahci_port \<Rightarrow> u8 list" where
  "atapi_identify_block p =
     (let spd = r_ssts (regs p) AND ATA_SS_SPD_MASK;
          support = ATA_SUPPORT_POWERMGT OR ATA_SUPPORT_PACKET OR ATA_SUPPORT_RESET OR ATA_SUPPORT_NOP;
          buf = put16 0 0x85c0 (replicate 512 0);
          buf = ata_string 54 ''BHYVE SATA DVD ROM'' 40 (ata_string 46 ''001'' 8 (ata_string 20 (p_ident p) 20 buf));
          buf = put_words [(49, 0x0300), (50, 0x4001), (53, 0x0006), (62, 0x3f)] buf;
          buf = xfer_words 63 (xfermode p) ATA_WDMA0 id (put16 63 7 buf);
          buf = put_words [(64, 3), (65, 120), (66, 120), (67, 120), (68, 120),
                 (76, ATA_SATA_GEN1 OR ATA_SATA_GEN2 OR ATA_SATA_GEN3), (77, ucast (drop_bit 3 spd)), (78, 0x20),
                 (80, 0x3f0), (82, support), (83, 0x4000), (84, 0x4000), (85, support), (87, 0x4000)] buf;
          buf = xfer_words 88 (xfermode p) ATA_UDMA0 id (put16 88 0x7f buf)
      in ahci_checksum (put_words [(222, 0x1020), (255, 0x00a5)] buf))"

definition handle_atapi_identify :: "bool \<Rightarrow> nat \<Rightarrow> nat \<Rightarrow> nat \<Rightarrow> ahci_io \<Rightarrow> ahci_io res" where
  "handle_atapi_identify iommu n slot cfis io =
     (if \<not> p_atapi (the_port n io) then ahci_write_fis_d2h n slot cfis tfd_abort io
      else send_identify iommu (atapi_identify_block (the_port n io)) n slot cfis io)"

end
