(* ===== verification/Ahci_Ident.thy ===== *)
theory Ahci_Ident
  imports Ahci_Cmd
begin

text \<open>
  What a driver reads in the identification block: its length, checksum and
  signature, and the number of sectors.
\<close>

section \<open>Words of a block\<close>

text \<open>A word of the block in the byte order of the guest's driver.\<close>

definition word_at :: "u8 list \<Rightarrow> nat \<Rightarrow> u16" where
  "word_at b i = ucast (b ! (2 * i)) OR push_bit 8 (ucast (b ! (2 * i + 1)))"

lemma length_blocks [simp]:
  "length (put16 i v b) = length b" "length (or16 i v b) = length b" "length (put_words ws b) = length b"
  "length (xfer_words i x f g b) = length b" "length (ahci_checksum b) = length b"
proof -
  show 1: "length (put16 i v b) = length b" for i v b by (simp add: put16_def)
  show 2: "length (or16 i v b) = length b" for i v b by (simp add: or16_def)
  show "length (put_words ws b) = length b"
    unfolding put_words_def by (induction ws arbitrary: b) (auto simp: 1)
  show "length (xfer_words i x f g b) = length b" by (simp add: xfer_words_def 2)
  show "length (ahci_checksum b) = length b" by (simp add: ahci_checksum_def)
qed

lemma fold_length: "(\<And>x b. length (f x b) = length b) \<Longrightarrow> length (fold f xs b) = length b"
  by (induction xs arbitrary: b) auto

lemma length_strings [simp]: "length (ata_string d s n b) = length b" "length (atapi_string d s n b) = length b"
  unfolding ata_string_def atapi_string_def by (simp_all add: fold_length)

lemma swap_halves: "(ucast (ucast (drop_bit 8 (v :: u16)) :: u8) :: u16) OR push_bit 8 (ucast (ucast v :: u8)) = bswap16 v"
proof (rule bit_word_eqI)
  fix n assume "n < LENGTH(16)"
  moreover have "\<not> bit v (n + 8)" if "8 \<le> n" using that bit_imp_le_length [of v "n + 8"] by auto
  ultimately show "bit ((ucast (ucast (drop_bit 8 v) :: u8) :: u16) OR push_bit 8 (ucast (ucast v :: u8))) n = bit (bswap16 v) n"
    by (auto simp: bswap16_def bit_simps add.commute)
qed

lemma word_at_put: "2 * j + 1 < length b \<Longrightarrow> word_at (put16 j v b) i = (if i = j then bswap16 v else word_at b i)"
  by (simp add: word_at_def put16_def swap_halves)

lemma bswap16_twice [simp]: "bswap16 (bswap16 v) = v"
  by (rule bit_word_eqI) (auto simp: bswap16_def bit_simps)

lemma word_at_or: "i \<noteq> j \<Longrightarrow> word_at (or16 j v b) i = word_at b i"
  by (simp add: word_at_def or16_def)

lemma word_at_puts: "i \<notin> fst ` set ws \<Longrightarrow> \<forall>j\<in>fst ` set ws. 2 * j + 1 < length b \<Longrightarrow> word_at (put_words ws b) i = word_at b i"
  unfolding put_words_def by (induction ws arbitrary: b) (auto simp: word_at_put)

lemma put_words_Cons [simp]: "put_words ((j, v) # ws) b = put_words ws (put16 j v b)" "put_words [] b = b"
  by (simp_all add: put_words_def)

lemma word_at_xfer: "i \<noteq> j \<Longrightarrow> word_at (xfer_words j x f g b) i = word_at b i"
  by (simp add: xfer_words_def word_at_or)

lemma word_at_checksum: "2 * i + 1 < length b - 1 \<Longrightarrow> word_at (ahci_checksum b) i = word_at b i"
  by (simp add: word_at_def ahci_checksum_def)

lemma checksum_zero: "b \<noteq> [] \<Longrightarrow> sum_list (ahci_checksum b) = 0"
proof -
  assume "b \<noteq> []"
  then obtain c x where b: "b = c @ [x]" by (metis rev_exhaust)
  show ?thesis by (simp add: ahci_checksum_def b list_update_append)
qed

lemma checksum_nth: "i < length b - 1 \<Longrightarrow> ahci_checksum b ! i = b ! i"
  by (simp add: ahci_checksum_def)

text \<open>A 64-bit and a 32-bit value from their halves.\<close>

lemma join_words64:
  "(ucast (ucast s :: u16) OR push_bit 16 (ucast (ucast (drop_bit 16 s) :: u16)) OR
    push_bit 32 (ucast (ucast (drop_bit 32 s) :: u16)) OR push_bit 48 (ucast (ucast (drop_bit 48 s) :: u16)) :: u64) = s"
  (is "?l = s")
proof (rule bit_word_eqI)
  fix n assume n: "n < LENGTH(64)"
  consider "n < 16" | "16 \<le> n" "n < 32" | "32 \<le> n" "n < 48" | "48 \<le> n" by linarith
  then show "bit ?l n = bit s n" using n by cases (auto simp: bit_simps)
qed

lemma join_words32:
  assumes "s \<le> 0x0fffffff"
  shows "(ucast (ucast s :: u16) OR push_bit 16 (ucast (ucast (drop_bit 16 s) :: u16)) :: u64) = s" (is "?l = s")
proof (rule bit_word_eqI)
  fix n assume n: "n < LENGTH(64)"
  have hi: "\<not> bit s n" if "32 \<le> n"
  proof -
    have "unat s < 2 ^ 28" using assms by (simp add: word_le_nat_alt)
    also have "\<dots> \<le> 2 ^ n" using that by (intro power_increasing) simp_all
    finally have "\<not> bit (unat s) n" by (simp add: bit_iff_odd)
    then show ?thesis using n by (simp add: bit_unsigned_iff)
  qed
  consider "n < 16" | "16 \<le> n" "n < 32" | "32 \<le> n" by linarith
  then show "bit ?l n = bit s n" using n hi by cases (auto simp: bit_simps)
qed

section \<open>Properties\<close>

text \<open>C37: The identification block of a disk has 512 bytes that sum to zero behind the signature 0xA5, and a
  driver that reads its words in little-endian order finds the number of sectors of the disk: all 64 bits of
  it in words 100 to 103 and its 28-bit part, clamped, in words 60 and 61.\<close>

theorem identify_tells_size:
  "length (identify_block p d) = 512 \<and> sum_list (identify_block p d) = 0 \<and> identify_block p d ! 510 = 0xa5 \<and>
   d_sectors d = ucast (word_at (identify_block p d) 100) OR push_bit 16 (ucast (word_at (identify_block p d) 101)) OR
     push_bit 32 (ucast (word_at (identify_block p d) 102)) OR push_bit 48 (ucast (word_at (identify_block p d) 103)) \<and>
   (ucast (word_at (identify_block p d) 60) OR push_bit 16 (ucast (word_at (identify_block p d) 61)) :: u64) =
     min (d_sectors d) 0x0fffffff"
proof -
  have words: "word_at (identify_block p d) 100 = ucast (d_sectors d)"
    "word_at (identify_block p d) 101 = ucast (drop_bit 16 (d_sectors d))"
    "word_at (identify_block p d) 102 = ucast (drop_bit 32 (d_sectors d))"
    "word_at (identify_block p d) 103 = ucast (drop_bit 48 (d_sectors d))"
    by (simp_all add: identify_block_def Let_def case_prod_beta word_at_checksum word_at_put word_at_or word_at_xfer)
  have small: "word_at (identify_block p d) 60 = (if d_sectors d \<le> 0x0fffffff then ucast (d_sectors d) else 0xffff)"
    "word_at (identify_block p d) 61 = (if d_sectors d \<le> 0x0fffffff then ucast (drop_bit 16 (d_sectors d)) else 0x0fff)"
    by (simp_all add: identify_block_def Let_def case_prod_beta word_at_checksum word_at_put word_at_or word_at_xfer)
  have len: "length (identify_block p d) = 512"
    by (simp add: identify_block_def Let_def case_prod_beta)
  moreover have "\<exists>b. identify_block p d = ahci_checksum (put16 255 (bswap16 0x00a5) b)"
    unfolding identify_block_def Let_def case_prod_beta put_words_Cons by (rule exI, rule refl)
  then obtain b where b: "identify_block p d = ahci_checksum (put16 255 (bswap16 0x00a5) b)" "length b = 512"
    using len by auto
  then have "sum_list (identify_block p d) = 0" "identify_block p d ! 510 = 0xa5"
    by (intro checksum_zero [of "put16 255 (bswap16 0x00a5) b", folded b(1)])
      (auto simp: b checksum_nth put16_def bswap16_def simp flip: length_0_conv)
  moreover have "(ucast (word_at (identify_block p d) 60) OR push_bit 16 (ucast (word_at (identify_block p d) 61)) :: u64) =
      min (d_sectors d) 0x0fffffff"
    using join_words32 [of "d_sectors d"] unfolding small by (auto simp: min_def)
  ultimately show ?thesis unfolding words join_words64 by blast
qed

end
