(* ===== verification/Ahci_Atapi.thy ===== *)
theory Ahci_Atapi
  imports Ahci_Cmd
begin

text \<open>
  \<open>bhyve/pci_ahci.c\<close>: the packet commands of a CD drive. The command block is in the
  table of the command, 0x40 bytes behind the frame.
\<close>

section \<open>Constants\<close>

abbreviation (input) TEST_UNIT_READY :: u8 where "TEST_UNIT_READY \<equiv> 0x00"
abbreviation (input) REQUEST_SENSE :: u8 where "REQUEST_SENSE \<equiv> 0x03"
abbreviation (input) INQUIRY :: u8 where "INQUIRY \<equiv> 0x12"
abbreviation (input) START_STOP_UNIT :: u8 where "START_STOP_UNIT \<equiv> 0x1B"
abbreviation (input) PREVENT_ALLOW :: u8 where "PREVENT_ALLOW \<equiv> 0x1E"
abbreviation (input) READ_CAPACITY :: u8 where "READ_CAPACITY \<equiv> 0x25"
abbreviation (input) READ_10 :: u8 where "READ_10 \<equiv> 0x28"
abbreviation (input) READ_TOC :: u8 where "READ_TOC \<equiv> 0x43"
abbreviation (input) GET_EVENT_STATUS_NOTIFICATION :: u8 where "GET_EVENT_STATUS_NOTIFICATION \<equiv> 0x4A"
abbreviation (input) MODE_SENSE_10 :: u8 where "MODE_SENSE_10 \<equiv> 0x5A"
abbreviation (input) REPORT_LUNS :: u8 where "REPORT_LUNS \<equiv> 0xA0"
abbreviation (input) READ_12 :: u8 where "READ_12 \<equiv> 0xA8"
abbreviation (input) MODEPAGE_RW_ERROR_RECOVERY :: u8 where "MODEPAGE_RW_ERROR_RECOVERY \<equiv> 0x01"
abbreviation (input) MODEPAGE_CD_CAPABILITIES :: u8 where "MODEPAGE_CD_CAPABILITIES \<equiv> 0x2A"
abbreviation (input) ATA_SENSE_ILLEGAL_REQUEST :: u8 where "ATA_SENSE_ILLEGAL_REQUEST \<equiv> 0x05"

section \<open>Pieces\<close>

definition be16enc :: "u16 \<Rightarrow> u8 list" where
  "be16enc v = [ucast (drop_bit 8 v), ucast v]"

definition be32enc :: "u32 \<Rightarrow> u8 list" where
  "be32enc v = [ucast (drop_bit 24 v), ucast (drop_bit 16 v), ucast (drop_bit 8 v), ucast v]"

definition be16dec :: "bytes \<Rightarrow> nat \<Rightarrow> nat" where
  "be16dec m a = unat (m a) * 256 + unat (m (a + 1))"

definition be32dec :: "bytes \<Rightarrow> nat \<Rightarrow> u32" where
  "be32dec m a = push_bit 24 (ucast (m a)) OR push_bit 16 (ucast (m (a + 1))) OR push_bit 8 (ucast (m (a + 2))) OR
     ucast (m (a + 3))"

text \<open>The division and the remainder are those of C; the results are stored in bytes.\<close>

definition lba_to_msf :: "int \<Rightarrow> u8 list" where
  "lba_to_msf lba = (let lba = lba + 150 in
     [word_of_int ((lba sdiv 75) sdiv 60), word_of_int ((lba sdiv 75) smod 60), word_of_int (lba smod 75)])"

text \<open>Every packet command rewrites the interrupt reason in the frame of the guest.\<close>

definition set_reason :: "nat \<Rightarrow> ahci_io \<Rightarrow> ahci_io" where
  "set_reason cfis io = upd_mem (\<lambda>m. m(cfis + 4 := (m (cfis + 4) AND NOT 7) OR ATA_I_CMD OR ATA_I_IN)) io"

definition set_sense :: "nat \<Rightarrow> u8 \<Rightarrow> ahci_io \<Rightarrow> ahci_io" where
  "set_sense n asc = upd_port n (\<lambda>p. p\<lparr>sense_key := ATA_SENSE_ILLEGAL_REQUEST, p_asc := asc\<rparr>)"

definition sense_tfd :: "u8 \<Rightarrow> u32" where
  "sense_tfd key = push_bit 12 (ucast key) OR ATA_S_READY OR ATA_S_ERROR"

definition packet_ok :: "nat \<Rightarrow> nat \<Rightarrow> nat \<Rightarrow> ahci_io \<Rightarrow> ahci_io res" where
  "packet_ok n slot cfis io = ahci_write_fis_d2h n slot cfis tfd_ok (set_reason cfis io)"

definition packet_error :: "u8 \<Rightarrow> nat \<Rightarrow> nat \<Rightarrow> nat \<Rightarrow> ahci_io \<Rightarrow> ahci_io res" where
  "packet_error asc n slot cfis io =
     ahci_write_fis_d2h n slot cfis (sense_tfd ATA_SENSE_ILLEGAL_REQUEST) (set_reason cfis (set_sense n asc io))"

text \<open>A reply of at most \<open>len\<close> bytes; most commands send it before they rewrite the frame.\<close>

definition packet_reply :: "bool \<Rightarrow> u8 list \<Rightarrow> nat \<Rightarrow> nat \<Rightarrow> nat \<Rightarrow> nat \<Rightarrow> ahci_io \<Rightarrow> ahci_io res" where
  "packet_reply iommu buf len n slot cfis io =
     bindE (write_prdt iommu (take len buf) n slot cfis io) (packet_ok n slot cfis)"

definition reason_reply :: "bool \<Rightarrow> u8 list \<Rightarrow> nat \<Rightarrow> nat \<Rightarrow> nat \<Rightarrow> ahci_io \<Rightarrow> ahci_io res" where
  "reason_reply iommu buf n slot cfis io =
     bindE (write_prdt iommu buf n slot cfis (set_reason cfis io)) (ahci_write_fis_d2h n slot cfis tfd_ok)"

definition port_size :: "nat \<Rightarrow> ahci_io \<Rightarrow> int res" where
  "port_size n io = (case bctx (the_port n io) of None \<Rightarrow> Inl Null_deref | Some bc \<Rightarrow> blockif_size bc)"

section \<open>Commands\<close>

definition atapi_inquiry :: "bool \<Rightarrow> nat \<Rightarrow> nat \<Rightarrow> nat \<Rightarrow> ahci_io \<Rightarrow> ahci_io res" where
  "atapi_inquiry iommu n slot cfis io =
     (let acmd = cfis + 0x40; m = a_mem io; len = unat (m (acmd + 4)) in
      if bit (m (acmd + 1)) 0 then
        (if m (acmd + 2) = 0 then reason_reply iommu (take len [0x05, 0, 0, 1, 0]) n slot cfis io
         else packet_error 0x24 n slot cfis io)
      else
        (let buf = [0x05, 0x80, 0x00, 0x21, 31, 0, 0, 0] @ replicate 28 0;
             buf = atapi_string 32 ''001'' 4 (atapi_string 16 ''BHYVE DVD-ROM'' 16 (atapi_string 8 ''BHYVE'' 8 buf))
         in reason_reply iommu (take len buf) n slot cfis io))"

definition atapi_read_capacity :: "bool \<Rightarrow> nat \<Rightarrow> nat \<Rightarrow> nat \<Rightarrow> ahci_io \<Rightarrow> ahci_io res" where
  "atapi_read_capacity iommu n slot cfis io =
     bindE (port_size n io) (\<lambda>sz.
     reason_reply iommu (be32enc (word_of_int (sz sdiv 2048) - 1) @ be32enc 2048) n slot cfis io)"

text \<open>An address in the table of contents: minutes, seconds and frames, or a sector.\<close>

definition toc_addr :: "bool \<Rightarrow> u64 \<Rightarrow> u8 list" where
  "toc_addr msf s = (if msf then 0 # lba_to_msf (sint (ucast s :: u32)) else be32enc (ucast s))"

definition toc_sectors :: "nat \<Rightarrow> ahci_io \<Rightarrow> u64 res" where
  "toc_sectors n io =
     bindE (port_size n io) (\<lambda>sz.
     bindE (port_sectsz n io) (\<lambda>sectsz.
     if sectsz = 0 then Inl Div_zero else Inr (drop_bit 2 (word_of_int (sz sdiv sectsz)))))"

text \<open>The length of the rest in front.\<close>

definition with_size :: "u8 list \<Rightarrow> u8 list" where
  "with_size xs = be16enc (of_nat (length xs)) @ xs"

definition toc_tracks :: "bool \<Rightarrow> bool \<Rightarrow> u64 \<Rightarrow> u8 list" where
  "toc_tracks msf both sectors =
     [1, 1] @ (if both then [0, 0x14, 1, 0] @ toc_addr msf 0 else []) @ [0, 0x14, 0xaa, 0] @ toc_addr msf sectors"

definition toc_full :: "bool \<Rightarrow> u64 \<Rightarrow> u8 list" where
  "toc_full msf sectors =
     [1, 1] @ [1, 0x14, 0, 0xa0, 0, 0, 0, 0, 1, 0, 0] @ [1, 0x14, 0, 0xa1, 0, 0, 0, 0, 1, 0, 0] @
     [1, 0x14, 0, 0xa2, 0, 0, 0] @ toc_addr msf sectors @ [1, 0x14, 0, 1, 0, 0, 0] @ toc_addr msf 0"

definition atapi_read_toc :: "bool \<Rightarrow> nat \<Rightarrow> nat \<Rightarrow> nat \<Rightarrow> ahci_io \<Rightarrow> ahci_io res" where
  "atapi_read_toc iommu n slot cfis io =
     (let acmd = cfis + 0x40; m = a_mem io; len = be16dec m (acmd + 7); format = drop_bit 6 (m (acmd + 9));
          msf = bit (m (acmd + 1)) 1; start_track = m (acmd + 6)
      in if format = 0 then
           (if start_track > 1 \<and> start_track \<noteq> 0xaa then packet_error 0x24 n slot cfis io
            else
              bindE (toc_sectors n io) (\<lambda>sectors.
              packet_reply iommu (with_size (toc_tracks msf (start_track \<le> 1) sectors)) len n slot cfis io))
         else if format = 1 then
           packet_reply iommu ([0, 0xa, 0x1, 0x1] @ replicate 8 0) len n slot cfis io
         else if format = 2 then
           bindE (toc_sectors n io) (\<lambda>sectors.
           packet_reply iommu (with_size (toc_full msf sectors)) len n slot cfis io)
         else packet_error 0x24 n slot cfis io)"

definition atapi_report_luns :: "bool \<Rightarrow> nat \<Rightarrow> nat \<Rightarrow> nat \<Rightarrow> ahci_io \<Rightarrow> ahci_io res" where
  "atapi_report_luns iommu n slot cfis io = reason_reply iommu ((replicate 16 0)[3 := 8]) n slot cfis io"

text \<open>A length of zero is answered at once, and then the transfer is started all the same.\<close>

definition atapi_read :: "bool \<Rightarrow> nat \<Rightarrow> nat \<Rightarrow> nat \<Rightarrow> u32 \<Rightarrow> ahci_io \<Rightarrow> ahci_io res" where
  "atapi_read iommu n slot cfis fin io =
     (let acmd = cfis + 0x40; m = a_mem io;
          lba = ucast (be32dec m (acmd + 2)) :: u64;
          len = (if m acmd = READ_10 then of_nat (be16dec m (acmd + 7)) else be32dec m (acmd + 6))
      in bindE (cmd_hdr n slot io) (\<lambda>hdr.
         bindE (if len = 0 then packet_ok n slot cfis io else Inr io) (\<lambda>io.
         bindE (take_ioreq n io) (\<lambda>(i, io).
         let io = upd_ioreq n i (\<lambda>a. a\<lparr>io_cfis := cfis, io_slot := slot, io_len := len * 2048, io_done := fin,
                    io_req := (io_req a)\<lparr>br_offset := sint (lba * 2048 + ucast fin)\<rparr>\<rparr>) io
         in bindE (ahci_build_iov iommu n i (cfis + 0x80) (hdr_prdtl (a_mem io) hdr) io) (\<lambda>io.
            submit_req blockif_read n i (in_flight n slot i io))))))"

text \<open>The first bytes are stored whether or not \<open>len\<close> reaches them; the rest of the 64 is not set.\<close>

definition atapi_request_sense :: "bool \<Rightarrow> bytes \<Rightarrow> nat \<Rightarrow> nat \<Rightarrow> nat \<Rightarrow> ahci_io \<Rightarrow> ahci_io res" where
  "atapi_request_sense iommu junk n slot cfis io =
     (let len = min 64 (unat (a_mem io (cfis + 0x40 + 4))); p = the_port n io;
          buf = replicate len 0 @ map junk [len..<64];
          buf = buf[0 := 0x70 OR 0x80, 2 := sense_key p, 7 := 10, 12 := p_asc p]
      in packet_reply iommu buf len n slot cfis io)"

definition atapi_start_stop_unit :: "nat \<Rightarrow> nat \<Rightarrow> nat \<Rightarrow> ahci_io \<Rightarrow> ahci_io res" where
  "atapi_start_stop_unit n slot cfis io =
     (if a_mem io (cfis + 0x40 + 4) AND 3 = 2 then packet_error 0x53 n slot cfis io
      else packet_ok n slot cfis io)"

definition mode_page :: "u8 \<Rightarrow> u8 list option" where
  "mode_page code =
     (if code = MODEPAGE_RW_ERROR_RECOVERY then
        Some ((be16enc (16 - 2) @ replicate 14 0)[2 := 0x70, 8 := 0x01, 9 := 16 - 10, 11 := 0x05])
      else if code = MODEPAGE_CD_CAPABILITIES then
        Some ((be16enc (30 - 2) @ replicate 16 0 @ be16enc 2 @ be16enc 512 @ replicate 8 0)
                [2 := 0x70, 8 := 0x2A, 9 := 30 - 10, 10 := 0x08, 12 := 0x71])
      else None)"

definition atapi_mode_sense :: "bool \<Rightarrow> nat \<Rightarrow> nat \<Rightarrow> nat \<Rightarrow> ahci_io \<Rightarrow> ahci_io res" where
  "atapi_mode_sense iommu n slot cfis io =
     (let acmd = cfis + 0x40; m = a_mem io; len = be16dec m (acmd + 7);
          pc = drop_bit 6 (m (acmd + 2)); code = m (acmd + 2) AND 0x3f
      in if pc = 0 then
           (case mode_page code of
              Some buf \<Rightarrow> packet_reply iommu buf len n slot cfis io
            | None \<Rightarrow> packet_error 0x24 n slot cfis io)
         else if pc = 3 then packet_error 0x39 n slot cfis io
         else packet_error 0x24 n slot cfis io)"

definition atapi_get_event_status_notification ::
    "bool \<Rightarrow> nat \<Rightarrow> nat \<Rightarrow> nat \<Rightarrow> ahci_io \<Rightarrow> ahci_io res" where
  "atapi_get_event_status_notification iommu n slot cfis io =
     (let acmd = cfis + 0x40; m = a_mem io in
      if \<not> bit (m (acmd + 1)) 0 then packet_error 0x24 n slot cfis io
      else packet_reply iommu (be16enc (8 - 2) @ [0x04, 0x10, 0, 0x02, 0, 0]) (be16dec m (acmd + 7)) n slot cfis io)"

definition handle_packet_cmd :: "bool \<Rightarrow> bytes \<Rightarrow> nat \<Rightarrow> nat \<Rightarrow> nat \<Rightarrow> ahci_io \<Rightarrow> ahci_io res" where
  "handle_packet_cmd iommu junk n slot cfis io =
     (let op = a_mem io (cfis + 0x40) in
      if op = TEST_UNIT_READY then packet_ok n slot cfis io
      else if op = INQUIRY then atapi_inquiry iommu n slot cfis io
      else if op = READ_CAPACITY then atapi_read_capacity iommu n slot cfis io
      else if op = PREVENT_ALLOW then packet_ok n slot cfis io
      else if op = READ_TOC then atapi_read_toc iommu n slot cfis io
      else if op = REPORT_LUNS then atapi_report_luns iommu n slot cfis io
      else if op = READ_10 \<or> op = READ_12 then atapi_read iommu n slot cfis 0 io
      else if op = REQUEST_SENSE then atapi_request_sense iommu junk n slot cfis io
      else if op = START_STOP_UNIT then atapi_start_stop_unit n slot cfis io
      else if op = MODE_SENSE_10 then atapi_mode_sense iommu n slot cfis io
      else if op = GET_EVENT_STATUS_NOTIFICATION then atapi_get_event_status_notification iommu n slot cfis io
      else packet_error 0x20 n slot cfis io)"

end
