(* ===== verification/Ahci_Port.thy ===== *)
theory Ahci_Port
  imports Ahci_Atapi
begin

text \<open>
  \<open>bhyve/pci_ahci.c\<close>: the command switch, the walk over the issued slots of a port,
  and the callbacks that complete a transfer. \<open>junk\<close> stands for buffers on the
  stack that are not initialised.
\<close>

section \<open>Constants\<close>

abbreviation (input) FIS_TYPE_REGH2D :: u8 where "FIS_TYPE_REGH2D \<equiv> 0x27"
abbreviation (input) ATA_NOP :: u8 where "ATA_NOP \<equiv> 0x00"
abbreviation (input) ATA_READ :: u8 where "ATA_READ \<equiv> 0x20"
abbreviation (input) ATA_READ_VERIFY :: u8 where "ATA_READ_VERIFY \<equiv> 0x40"
abbreviation (input) ATA_READ_VERIFY48 :: u8 where "ATA_READ_VERIFY48 \<equiv> 0x42"
abbreviation (input) ATA_READ_LOG_DMA_EXT :: u8 where "ATA_READ_LOG_DMA_EXT \<equiv> 0x47"
abbreviation (input) ATA_PACKET_CMD :: u8 where "ATA_PACKET_CMD \<equiv> 0xa0"
abbreviation (input) ATA_ATAPI_IDENTIFY :: u8 where "ATA_ATAPI_IDENTIFY \<equiv> 0xa1"
abbreviation (input) ATA_SMART_CMD :: u8 where "ATA_SMART_CMD \<equiv> 0xb0"
abbreviation (input) ATA_READ_MUL :: u8 where "ATA_READ_MUL \<equiv> 0xc4"
abbreviation (input) ATA_SET_MULTI :: u8 where "ATA_SET_MULTI \<equiv> 0xc6"
abbreviation (input) ATA_READ_DMA :: u8 where "ATA_READ_DMA \<equiv> 0xc8"
abbreviation (input) ATA_STANDBY_IMMEDIATE :: u8 where "ATA_STANDBY_IMMEDIATE \<equiv> 0xe0"
abbreviation (input) ATA_IDLE_IMMEDIATE :: u8 where "ATA_IDLE_IMMEDIATE \<equiv> 0xe1"
abbreviation (input) ATA_STANDBY_CMD :: u8 where "ATA_STANDBY_CMD \<equiv> 0xe2"
abbreviation (input) ATA_IDLE_CMD :: u8 where "ATA_IDLE_CMD \<equiv> 0xe3"
abbreviation (input) ATA_CHECK_POWER_MODE :: u8 where "ATA_CHECK_POWER_MODE \<equiv> 0xe5"
abbreviation (input) ATA_SLEEP :: u8 where "ATA_SLEEP \<equiv> 0xe6"
abbreviation (input) ATA_FLUSHCACHE :: u8 where "ATA_FLUSHCACHE \<equiv> 0xe7"
abbreviation (input) ATA_FLUSHCACHE48 :: u8 where "ATA_FLUSHCACHE48 \<equiv> 0xea"
abbreviation (input) ATA_ATA_IDENTIFY :: u8 where "ATA_ATA_IDENTIFY \<equiv> 0xec"
abbreviation (input) ATA_SETFEATURES :: u8 where "ATA_SETFEATURES \<equiv> 0xef"
abbreviation (input) ATA_SF_SETXFER :: u8 where "ATA_SF_SETXFER \<equiv> 0x03"
abbreviation (input) ATA_SF_ENAB_WCACHE :: u8 where "ATA_SF_ENAB_WCACHE \<equiv> 0x02"
abbreviation (input) ATA_SF_DIS_WCACHE :: u8 where "ATA_SF_DIS_WCACHE \<equiv> 0x82"
abbreviation (input) ATA_SF_ENAB_RCACHE :: u8 where "ATA_SF_ENAB_RCACHE \<equiv> 0xaa"
abbreviation (input) ATA_SF_DIS_RCACHE :: u8 where "ATA_SF_DIS_RCACHE \<equiv> 0x55"
abbreviation (input) ATA_SF_ENAB_SATA_SF :: u8 where "ATA_SF_ENAB_SATA_SF \<equiv> 0x10"
abbreviation (input) ATA_SATA_SF_AN :: u8 where "ATA_SATA_SF_AN \<equiv> 0x05"
abbreviation (input) ATA_SECURITY_FREEZE_LOCK :: u8 where "ATA_SECURITY_FREEZE_LOCK \<equiv> 0xf5"
abbreviation (input) ATA_DSM_TRIM :: u8 where "ATA_DSM_TRIM \<equiv> 0x01"
abbreviation (input) ATA_SFPDMA_DSM :: u8 where "ATA_SFPDMA_DSM \<equiv> 0x00"
abbreviation (input) ATA_ERROR_ABORT :: u32 where "ATA_ERROR_ABORT \<equiv> 0x04"

section \<open>Commands\<close>

abbreviation (input) tfd_error :: u32 where
  "tfd_error \<equiv> ATA_S_ERROR OR ATA_S_READY OR push_bit 8 ATA_ERROR_ABORT"

text \<open>Features: the new transfer mode, if the command sets one, and the task file.\<close>

definition set_features :: "u8 \<Rightarrow> u8 \<Rightarrow> ahci_port \<Rightarrow> ahci_port \<times> u32" where
  "set_features feature c12 p =
     (if feature = ATA_SF_ENAB_SATA_SF then (p, if c12 = ATA_SATA_SF_AN then ATA_S_DSC OR ATA_S_READY else tfd_error)
      else if feature = ATA_SF_ENAB_WCACHE \<or> feature = ATA_SF_DIS_WCACHE \<or> feature = ATA_SF_ENAB_RCACHE \<or>
              feature = ATA_SF_DIS_RCACHE
      then (p, ATA_S_DSC OR ATA_S_READY)
      else if feature = ATA_SF_SETXFER then
        (if c12 AND 0xf8 = ATA_WDMA0 \<or> c12 AND 0xf8 = ATA_UDMA0 then p\<lparr>xfermode := c12 AND 0x7\<rparr> else p,
         ATA_S_DSC OR ATA_S_READY)
      else (p, tfd_error))"

definition set_multi :: "u8 \<Rightarrow> ahci_port \<Rightarrow> ahci_port \<times> u32" where
  "set_multi c12 p =
     (if c12 \<noteq> 0 \<and> (c12 > 128 \<or> c12 AND (c12 - 1) \<noteq> 0) then (p, tfd_error)
      else (p\<lparr>mult_sectors := unat c12\<rparr>, ATA_S_DSC OR ATA_S_READY))"

text \<open>A command that only changes the port: it stores the task file and sends it.\<close>

definition port_cmd :: "(ahci_port \<Rightarrow> ahci_port \<times> u32) \<Rightarrow> nat \<Rightarrow> nat \<Rightarrow> nat \<Rightarrow> ahci_io \<Rightarrow> ahci_io res" where
  "port_cmd f n slot cfis io =
     (case f (the_port n io) of (p, tfd) \<Rightarrow>
        ahci_write_fis_d2h n slot cfis tfd (upd_port n (\<lambda>_. p\<lparr>regs := (regs p)\<lparr>r_tfd := tfd\<rparr>\<rparr>) io))"

definition transfer_cmd :: "u8 \<Rightarrow> bool" where
  "transfer_cmd c \<longleftrightarrow> c = ATA_READ \<or> c = ATA_WRITE \<or> c = ATA_READ48 \<or> c = ATA_WRITE48 \<or> c = ATA_READ_MUL \<or>
     c = ATA_WRITE_MUL \<or> c = ATA_READ_MUL48 \<or> c = ATA_WRITE_MUL48 \<or> c = ATA_READ_DMA \<or> c = ATA_WRITE_DMA \<or>
     c = ATA_READ_DMA48 \<or> c = ATA_WRITE_DMA48 \<or> c = ATA_READ_FPDMA_QUEUED \<or> c = ATA_WRITE_FPDMA_QUEUED"

definition trim_cmd :: "bytes \<Rightarrow> nat \<Rightarrow> bool" where
  "trim_cmd m cfis \<longleftrightarrow>
     m (cfis + 2) = ATA_DATA_SET_MANAGEMENT \<and> m (cfis + 11) = 0 \<and> m (cfis + 3) = ATA_DSM_TRIM \<and>
       m (cfis + 13) = 0 \<and> m (cfis + 12) = 1 \<or>
     m (cfis + 2) = ATA_SEND_FPDMA_QUEUED \<and> m (cfis + 13) AND 0x1f = ATA_SFPDMA_DSM \<and> m (cfis + 17) = 0 \<and>
       m (cfis + 16) = ATA_DSM_TRIM \<and> m (cfis + 11) = 0 \<and> m (cfis + 3) = 1"

definition quiet_cmd :: "u8 \<Rightarrow> bool" where
  "quiet_cmd c \<longleftrightarrow> c = ATA_STANDBY_CMD \<or> c = ATA_STANDBY_IMMEDIATE \<or> c = ATA_IDLE_CMD \<or> c = ATA_IDLE_IMMEDIATE \<or>
     c = ATA_SLEEP \<or> c = ATA_READ_VERIFY \<or> c = ATA_READ_VERIFY48"

text \<open>The first round of a trim does not come back to the port.\<close>

definition ahci_handle_cmd :: "bool \<Rightarrow> bytes \<Rightarrow> nat \<Rightarrow> nat \<Rightarrow> nat \<Rightarrow> ahci_io \<Rightarrow> ahci_io res" where
  "ahci_handle_cmd iommu junk n slot cfis io =
     (let m = a_mem io; c = m (cfis + 2);
          io = upd_regs n (\<lambda>r. r\<lparr>r_tfd := r_tfd r OR ATA_S_BUSY\<rparr>) io
      in if c = ATA_ATA_IDENTIFY then handle_identify iommu n slot cfis io
         else if c = ATA_SETFEATURES then port_cmd (set_features (m (cfis + 3)) (m (cfis + 12))) n slot cfis io
         else if c = ATA_SET_MULTI then port_cmd (set_multi (m (cfis + 12))) n slot cfis io
         else if transfer_cmd c then ahci_handle_rw iommu n slot cfis 0 io
         else if c = ATA_FLUSHCACHE \<or> c = ATA_FLUSHCACHE48 then ahci_handle_flush n slot cfis io
         else if trim_cmd m cfis then ahci_handle_dsm_trim iommu junk Inr n slot cfis 0 io
         else if c = ATA_READ_LOG_EXT \<or> c = ATA_READ_LOG_DMA_EXT then ahci_handle_read_log iommu n slot cfis io
         else if c = ATA_SECURITY_FREEZE_LOCK \<or> c = ATA_SMART_CMD \<or> c = ATA_NOP then
           ahci_write_fis_d2h n slot cfis tfd_abort io
         else if c = ATA_CHECK_POWER_MODE then
           ahci_write_fis_d2h n slot cfis tfd_ok (upd_mem (\<lambda>m. m(cfis + 12 := 0xff)) io)
         else if quiet_cmd c then ahci_write_fis_d2h n slot cfis tfd_ok io
         else if c = ATA_ATAPI_IDENTIFY then handle_atapi_identify iommu n slot cfis io
         else if c = ATA_PACKET_CMD then
           (if \<not> p_atapi (the_port n io) then ahci_write_fis_d2h n slot cfis tfd_abort io
            else handle_packet_cmd iommu junk n slot cfis io)
         else ahci_write_fis_d2h n slot cfis tfd_abort io)"

section \<open>Slots\<close>

definition ahci_handle_slot :: "bool \<Rightarrow> bytes \<Rightarrow> nat \<Rightarrow> nat \<Rightarrow> ahci_io \<Rightarrow> ahci_io res" where
  "ahci_handle_slot iommu junk n slot io =
     (if \<not> pr_sc (the_port n io) then Inl Null_deref
      else
        bindE (cmd_hdr n slot io) (\<lambda>hdr.
        let m = a_mem io; cfis = unat (paddr_guest2host iommu (le64 m (hdr + 8))) in
        if m cfis \<noteq> FIS_TYPE_REGH2D then Inr io
        else if bit (m (cfis + 1)) 7 then ahci_handle_cmd iommu junk n slot cfis io
        else
          bindE (if bit (m (cfis + 15)) 2 then Inr (upd_port n (\<lambda>p. p\<lparr>p_reset := True\<rparr>) io)
                 else if p_reset (the_port n io) then
                   ahci_port_reset n (upd_port n (\<lambda>p. p\<lparr>p_reset := False\<rparr>) io)
                 else Inr io) (\<lambda>io.
          Inr (upd_regs n (\<lambda>r. r\<lparr>r_ci := r_ci r AND NOT (slot_bit slot)\<rparr>) io))))"

definition issued :: "ahci_port \<Rightarrow> u32" where
  "issued p = r_ci (regs p) AND NOT (pending p)"

definition port_busy :: "ahci_port \<Rightarrow> bool" where
  "port_busy p \<longleftrightarrow> r_tfd (regs p) AND (ATA_S_BUSY OR ATA_S_DRQ) \<noteq> 0 \<or> waitforclear p"

text \<open>One turn of the loop: the current slot if it is issued, then the next one.\<close>

definition port_turn :: "bool \<Rightarrow> bytes \<Rightarrow> nat \<Rightarrow> ahci_io \<Rightarrow> ahci_io res" where
  "port_turn iommu junk n io =
     (let p = the_port n io in
      bindE (if issued p AND slot_bit (ccs p) \<noteq> 0 then
               ahci_handle_slot iommu junk n (ccs p)
                 (upd_regs n (\<lambda>r. r\<lparr>r_cmd := r_cmd r AND NOT AHCI_P_CMD_CCS_MASK OR
                    push_bit AHCI_P_CMD_CCS_SHIFT (of_nat (ccs p))\<rparr>) io)
             else Inr io) (\<lambda>io.
      Inr (upd_port n (\<lambda>p. p\<lparr>ccs := (ccs p + 1) mod 32\<rparr>) io)))"

text \<open>The loop, \<open>None\<close> if it is never left.\<close>

partial_function (option) port_loop :: "bool \<Rightarrow> bytes \<Rightarrow> nat \<Rightarrow> ahci_io \<Rightarrow> ahci_io res option" where
  "port_loop iommu junk n io =
     (if issued (the_port n io) = 0 \<or> port_busy (the_port n io) then Some (Inr io)
      else
        (case port_turn iommu junk n io of
           Inl e \<Rightarrow> Some (Inl e)
         | Inr io \<Rightarrow> port_loop iommu junk n io))"

definition ahci_handle_port :: "bool \<Rightarrow> bytes \<Rightarrow> nat \<Rightarrow> ahci_io \<Rightarrow> ahci_io res" where
  "ahci_handle_port iommu junk n io =
     (if r_cmd (regs (the_port n io)) AND AHCI_P_CMD_ST = 0 then Inr io
      else (case port_loop iommu junk n io of None \<Rightarrow> Inl No_return | Some r \<Rightarrow> r))"

section \<open>Completion\<close>

definition lock_hba :: "ahci_io \<Rightarrow> ahci_io res" where
  "lock_hba io = bindE (pthread_mutex_lock (asc_mtx (hba io))) (\<lambda>mx. Inr (upd_hba (\<lambda>sc. sc\<lparr>asc_mtx := mx\<rparr>) io))"

definition unlock_hba :: "ahci_io \<Rightarrow> ahci_io res" where
  "unlock_hba io = bindE (pthread_mutex_unlock (asc_mtx (hba io))) (\<lambda>mx. Inr (upd_hba (\<lambda>sc. sc\<lparr>asc_mtx := mx\<rparr>) io))"

text \<open>Both callbacks: the request is free again and the guest's header holds the bytes moved.\<close>

definition request_back :: "nat \<Rightarrow> nat \<Rightarrow> int \<Rightarrow> nat \<Rightarrow> ahci_io \<Rightarrow> ahci_io" where
  "request_back n i err hdr io =
     (let io = upd_port n (free_ioreq i) io in
      if err = 0 then upd_mem (\<lambda>m. store32 m (hdr + 4) (io_done (ioreq (the_port n io) i))) io else io)"

definition command_complete :: "bool \<Rightarrow> bytes \<Rightarrow> nat \<Rightarrow> nat \<Rightarrow> ahci_io \<Rightarrow> ahci_io res" where
  "command_complete iommu junk n slot io =
     ahci_handle_port iommu junk n
       (ahci_check_stopped n (upd_port n (\<lambda>p. p\<lparr>pending := pending p AND NOT (slot_bit slot)\<rparr>) io))"

definition ata_ioreq_cb :: "bool \<Rightarrow> bytes \<Rightarrow> nat \<Rightarrow> nat \<Rightarrow> int \<Rightarrow> ahci_io \<Rightarrow> ahci_io res" where
  "ata_ioreq_cb iommu junk n i err io =
     (let aior = ioreq (the_port n io) i; cfis = io_cfis aior; slot = io_slot aior;
          m = a_mem io; c = m (cfis + 2); ncq = is_ncq c;
          dsm = (c = ATA_DATA_SET_MANAGEMENT \<or> c = ATA_SEND_FPDMA_QUEUED \<and> m (cfis + 13) AND 0x1f = ATA_SFPDMA_DSM)
      in bindE (cmd_hdr n slot io) (\<lambda>hdr.
         bindE (lock_hba io) (\<lambda>io.
         let io = request_back n i err hdr io in
         bindE (if err = 0 \<and> io_more aior then
                  (if dsm then
                     ahci_handle_dsm_trim iommu junk (ahci_handle_port iommu junk n) n slot cfis (io_done aior) io
                   else ahci_handle_rw iommu n slot cfis (io_done aior) io)
                else
                  (let tfd = (if err = 0 then tfd_ok else tfd_abort) in
                   bindE (if ncq then ahci_write_fis_sdb n slot cfis tfd io else ahci_write_fis_d2h n slot cfis tfd io)
                     (command_complete iommu junk n slot))) unlock_hba)))"

definition atapi_ioreq_cb :: "bool \<Rightarrow> bytes \<Rightarrow> nat \<Rightarrow> nat \<Rightarrow> int \<Rightarrow> ahci_io \<Rightarrow> ahci_io res" where
  "atapi_ioreq_cb iommu junk n i err io =
     (let aior = ioreq (the_port n io) i; cfis = io_cfis aior; slot = io_slot aior in
      bindE (cmd_hdr n slot io) (\<lambda>hdr.
      bindE (lock_hba io) (\<lambda>io.
      let io = request_back n i err hdr io in
      bindE (if err = 0 \<and> io_more aior then atapi_read iommu n slot cfis (io_done aior) io
             else
               bindE (if err = 0 then packet_ok n slot cfis io else packet_error 0x21 n slot cfis io)
                 (command_complete iommu junk n slot)) unlock_hba)))"

end
