(* ===== verification/Mem_Ranges.thy ===== *)
theory Mem_Ranges
  imports Prelude
begin

text \<open>
  \<open>bhyve/mem.c\<close>: the table of memory ranges that emulated devices claim. A
  range carries its handler; an access finds the range of its address, first
  in a one-entry hint, then in the tree of registered ranges, then in the
  fallback tree. The trees are the ordered trees of \<open><sys/tree.h>\<close> under
  \<open>mmio_rb_range_compare\<close>; they are kept here by their in-order contents.
\<close>

section \<open>Data\<close>

definition ENOENT :: int where "ENOENT = 2"
definition ESRCH :: int where "ESRCH = 3"
definition ENOMEM :: int where "ENOMEM = 12"
definition EEXIST :: int where "EEXIST = 17"

definition MEM_F_READ :: nat where "MEM_F_READ = 1"
definition MEM_F_WRITE :: nat where "MEM_F_WRITE = 2"
definition MEM_F_RW :: nat where "MEM_F_RW = 3"
definition MEM_F_IMMUTABLE :: nat where "MEM_F_IMMUTABLE = 4"

text \<open>
  \<open>'n\<close> is the identity of the name string (\<open>unregister_mem\<close> compares the
  pointers), \<open>'h\<close> the handler with its two bound arguments.
\<close>

record ('n, 'h) mem_range =
  mr_name :: 'n
  mr_flags :: nat
  mr_handler :: 'h
  mr_rbase :: u64
  mr_rsize :: u64

record ('n, 'h) mmio_rb_range =
  mr_param :: "('n, 'h) mem_range"
  mr_base :: u64
  mr_end :: u64

type_synonym ('n, 'h) mmio_rb_tree = "('n, 'h) mmio_rb_range list"

text \<open>\<open>malloc_ok\<close> says whether the allocator still has memory.\<close>

record ('n, 'h) mem_state =
  mmio_rb_root :: "('n, 'h) mmio_rb_tree"
  mmio_rb_fallback :: "('n, 'h) mmio_rb_tree"
  mmio_hint :: "('n, 'h) mmio_rb_range option"
  malloc_ok :: bool

section \<open>Operations\<close>

text \<open>The comparison reads the two bounds of a range only: its extent.\<close>

definition extent :: "('n, 'h) mmio_rb_range \<Rightarrow> u64 \<times> u64" where
  "extent e = (mr_base e, mr_end e)"

fun mmio_rb_range_compare :: "u64 \<times> u64 \<Rightarrow> u64 \<times> u64 \<Rightarrow> int" where
  "mmio_rb_range_compare (a_base, a_end) (b_base, b_end) =
     (if a_end < b_base then -1
      else if a_base > b_end then 1
      else 0)"

text \<open>
  The three operations of \<open><sys/tree.h>\<close> that the file uses, on the in-order
  list: \<open>RB_FIND\<close> returns an element that compares equal, \<open>RB_INSERT\<close> returns
  such an element or inserts in order, \<open>RB_REMOVE\<close> removes the element.
\<close>

definition rb_find ::
    "('n, 'h) mmio_rb_tree \<Rightarrow> u64 \<times> u64 \<Rightarrow> ('n, 'h) mmio_rb_range option" where
  "rb_find t k = find (\<lambda>e. mmio_rb_range_compare k (extent e) = 0) t"

definition rb_insert ::
    "('n, 'h) mmio_rb_tree \<Rightarrow> ('n, 'h) mmio_rb_range
     \<Rightarrow> ('n, 'h) mmio_rb_range option \<times> ('n, 'h) mmio_rb_tree" where
  "rb_insert t new =
     (case rb_find t (extent new) of
        Some e \<Rightarrow> (Some e, t)
      | None \<Rightarrow>
          (None,
           takeWhile (\<lambda>e. mmio_rb_range_compare (extent new) (extent e) = 1) t @ new #
           dropWhile (\<lambda>e. mmio_rb_range_compare (extent new) (extent e) = 1) t))"

definition rb_remove ::
    "('n, 'h) mmio_rb_tree \<Rightarrow> ('n, 'h) mmio_rb_range \<Rightarrow> ('n, 'h) mmio_rb_tree" where
  "rb_remove t e = remove1 e t"

text \<open>\<open>Inl\<close> is the error number, \<open>Inr\<close> the entry stored through the out pointer.\<close>

definition mmio_rb_lookup ::
    "('n, 'h) mmio_rb_tree \<Rightarrow> u64 \<Rightarrow> int + ('n, 'h) mmio_rb_range" where
  "mmio_rb_lookup rbt addr =
     (case rb_find rbt (addr, addr) of
        Some res \<Rightarrow> Inr res
      | None \<Rightarrow> Inl ENOENT)"

definition mmio_rb_add ::
    "('n, 'h) mmio_rb_tree \<Rightarrow> ('n, 'h) mmio_rb_range \<Rightarrow> int \<times> ('n, 'h) mmio_rb_tree" where
  "mmio_rb_add rbt new =
     (case rb_insert rbt new of
        (Some overlap, t) \<Rightarrow> (EEXIST, t)
      | (None, t) \<Rightarrow> (0, t))"

text \<open>
  The lookup half of \<open>access_memory\<close>: the hint is consulted first and is
  updated by a hit in the main tree, not by one in the fallback tree.
\<close>

definition access_entry ::
    "('n, 'h) mem_state \<Rightarrow> u64
     \<Rightarrow> (('n, 'h) mmio_rb_range \<times> ('n, 'h) mem_state) option" where
  "access_entry ms paddr =
     (case (case mmio_hint ms of
              Some h \<Rightarrow> if paddr \<ge> mr_base h \<and> paddr \<le> mr_end h then Some h else None
            | None \<Rightarrow> None) of
        Some entry \<Rightarrow> Some (entry, ms)
      | None \<Rightarrow>
          (case mmio_rb_lookup (mmio_rb_root ms) paddr of
             Inr entry \<Rightarrow> Some (entry, ms\<lparr>mmio_hint := Some entry\<rparr>)
           | Inl _ \<Rightarrow>
               (case mmio_rb_lookup (mmio_rb_fallback ms) paddr of
                  Inr entry \<Rightarrow> Some (entry, ms)
                | Inl _ \<Rightarrow> None)))"

text \<open>
  \<open>access_memory\<close> hands the range to the callback; \<open>'s\<close> is the rest of the
  state the callback works on. The read-write lock operations are no-ops of
  \<open>pthread.c\<close>, so the early release for immutable ranges leaves no trace.
\<close>

definition access_memory ::
    "('n, 'h) mem_state \<Rightarrow> 's \<Rightarrow> u64
     \<Rightarrow> (('n, 'h) mem_range \<Rightarrow> ('n, 'h) mem_state \<Rightarrow> 's \<Rightarrow> (int \<times> ('n, 'h) mem_state \<times> 's) res)
     \<Rightarrow> (int \<times> ('n, 'h) mem_state \<times> 's) res" where
  "access_memory ms s paddr cb =
     (case access_entry ms paddr of
        None \<Rightarrow> Inr (ESRCH, ms, s)
      | Some (entry, ms') \<Rightarrow> cb (mr_param entry) ms' s)"

text \<open>
  A handler call: direction, address, size and the value cell, which is part
  of the state it returns. \<open>call\<close> is the function the handler pointer denotes.
\<close>

type_synonym ('n, 'h, 's) mem_call =
  "'h \<Rightarrow> nat \<Rightarrow> u64 \<Rightarrow> nat \<Rightarrow> ('n, 'h) mem_state \<Rightarrow> u64 \<times> 's
   \<Rightarrow> (int \<times> ('n, 'h) mem_state \<times> u64 \<times> 's) res"

definition emulate_mem_cb ::
    "('n, 'h, 's) mem_call \<Rightarrow> bool \<Rightarrow> nat \<Rightarrow> u64 \<Rightarrow> ('n, 'h) mem_range
     \<Rightarrow> ('n, 'h) mem_state \<Rightarrow> u64 \<times> 's \<Rightarrow> (int \<times> ('n, 'h) mem_state \<times> u64 \<times> 's) res" where
  "emulate_mem_cb call wr sz paddr mr ms vs =
     (if \<not> wr then call (mr_handler mr) MEM_F_READ paddr sz ms vs
      else call (mr_handler mr) MEM_F_WRITE paddr sz ms vs)"

definition emulate_mem ::
    "('n, 'h, 's) mem_call \<Rightarrow> ('n, 'h) mem_state \<Rightarrow> 's \<Rightarrow> u64 \<Rightarrow> bool \<Rightarrow> nat \<Rightarrow> u64
     \<Rightarrow> (int \<times> ('n, 'h) mem_state \<times> u64 \<times> 's) res" where
  "emulate_mem call ms s paddr wr access_width val =
     access_memory ms (val, s) paddr (emulate_mem_cb call wr access_width paddr)"

definition read_mem_cb ::
    "('n, 'h, 's) mem_call \<Rightarrow> nat \<Rightarrow> u64 \<Rightarrow> ('n, 'h) mem_range
     \<Rightarrow> ('n, 'h) mem_state \<Rightarrow> u64 \<times> 's \<Rightarrow> (int \<times> ('n, 'h) mem_state \<times> u64 \<times> 's) res" where
  "read_mem_cb call sz paddr mr ms vs = call (mr_handler mr) MEM_F_READ paddr sz ms vs"

definition read_mem ::
    "('n, 'h, 's) mem_call \<Rightarrow> ('n, 'h) mem_state \<Rightarrow> 's \<Rightarrow> u64 \<Rightarrow> u64 \<Rightarrow> nat
     \<Rightarrow> (int \<times> ('n, 'h) mem_state \<times> u64 \<times> 's) res" where
  "read_mem call ms s gpa rval sz =
     access_memory ms (rval, s) gpa (read_mem_cb call sz gpa)"

definition new_range :: "('n, 'h) mem_range \<Rightarrow> ('n, 'h) mmio_rb_range" where
  "new_range memp =
     \<lparr>mr_param = memp, mr_base = mr_rbase memp,
      mr_end = mr_rbase memp + mr_rsize memp - 1\<rparr>"

definition register_mem_int ::
    "bool \<Rightarrow> ('n, 'h) mmio_rb_tree \<Rightarrow> ('n, 'h) mem_range \<Rightarrow> int \<times> ('n, 'h) mmio_rb_tree" where
  "register_mem_int malloced rbt memp =
     (if \<not> malloced then (ENOMEM, rbt)
      else
        (case mmio_rb_lookup rbt (mr_rbase memp) of
           Inr entry \<Rightarrow> (0, rbt)
         | Inl _ \<Rightarrow> mmio_rb_add rbt (new_range memp)))"

definition register_mem ::
    "('n, 'h) mem_state \<Rightarrow> ('n, 'h) mem_range \<Rightarrow> int \<times> ('n, 'h) mem_state" where
  "register_mem ms memp =
     (case register_mem_int (malloc_ok ms) (mmio_rb_root ms) memp of
        (err, t) \<Rightarrow> (err, ms\<lparr>mmio_rb_root := t\<rparr>))"

definition register_mem_fallback ::
    "('n, 'h) mem_state \<Rightarrow> ('n, 'h) mem_range \<Rightarrow> int \<times> ('n, 'h) mem_state" where
  "register_mem_fallback ms memp =
     (case register_mem_int (malloc_ok ms) (mmio_rb_fallback ms) memp of
        (err, t) \<Rightarrow> (err, ms\<lparr>mmio_rb_fallback := t\<rparr>))"

definition unregister_mem ::
    "('n, 'h) mem_state \<Rightarrow> ('n, 'h) mem_range \<Rightarrow> (int \<times> ('n, 'h) mem_state) res" where
  "unregister_mem ms memp =
     (case mmio_rb_lookup (mmio_rb_root ms) (mr_rbase memp) of
        Inl err \<Rightarrow> Inr (err, ms)
      | Inr entry \<Rightarrow>
          (let mr = mr_param entry in
           bindE (assertE (mr_name mr = mr_name memp)) (\<lambda>_.
           bindE (assertE (mr_rbase mr = mr_rbase memp \<and> mr_rsize mr = mr_rsize memp)) (\<lambda>_.
           bindE (assertE (mr_flags mr AND MEM_F_IMMUTABLE = 0)) (\<lambda>_.
           Inr (0, ms\<lparr>mmio_rb_root := rb_remove (mmio_rb_root ms) entry,
                      mmio_hint := (if mmio_hint ms = Some entry then None
                                    else mmio_hint ms)\<rparr>))))))"

definition init_mem :: "('n, 'h) mem_state \<Rightarrow> ('n, 'h) mem_state" where
  "init_mem ms = ms\<lparr>mmio_rb_root := [], mmio_rb_fallback := []\<rparr>"

section \<open>The invariant\<close>

text \<open>
  A range is proper when it is not empty and does not wrap around the address
  space. The tree holds proper ranges, in order and pairwise disjoint, and
  the hint, if there is one, is one of them.
\<close>

definition proper_range :: "('n, 'h) mem_range \<Rightarrow> bool" where
  "proper_range mr \<longleftrightarrow> 0 < uint (mr_rsize mr) \<and> uint (mr_rbase mr) + uint (mr_rsize mr) \<le> 2 ^ 64"

definition entry_ok :: "('n, 'h) mmio_rb_range \<Rightarrow> bool" where
  "entry_ok e \<longleftrightarrow> proper_range (mr_param e) \<and> e = new_range (mr_param e)"

definition tree_ok :: "('n, 'h) mmio_rb_tree \<Rightarrow> bool" where
  "tree_ok t \<longleftrightarrow> (\<forall>e\<in>set t. entry_ok e) \<and> sorted_wrt (\<lambda>a b. mr_end a < mr_base b) t"

definition mem_inv :: "('n, 'h) mem_state \<Rightarrow> bool" where
  "mem_inv ms \<longleftrightarrow>
     tree_ok (mmio_rb_root ms) \<and> tree_ok (mmio_rb_fallback ms) \<and>
     (case mmio_hint ms of None \<Rightarrow> True | Some h \<Rightarrow> h \<in> set (mmio_rb_root ms))"

definition covers :: "('n, 'h) mem_range \<Rightarrow> u64 \<Rightarrow> bool" where
  "covers mr a \<longleftrightarrow> mr_rbase mr \<le> a \<and> a \<le> mr_rbase mr + mr_rsize mr - 1"

text \<open>The abstract map: which registered range an address belongs to.\<close>

definition range_at :: "('n, 'h) mem_state \<Rightarrow> u64 \<Rightarrow> ('n, 'h) mem_range option" where
  "range_at ms a = map_option mr_param (find (\<lambda>e. covers (mr_param e) a) (mmio_rb_root ms))"

section \<open>Ranges and their extents\<close>

lemma uint_end:
  assumes "proper_range mr"
  shows "uint (mr_rbase mr + mr_rsize mr - 1) = uint (mr_rbase mr) + uint (mr_rsize mr) - 1"
proof -
  have "0 \<le> uint (mr_rbase mr)" by simp
  moreover have "0 < uint (mr_rsize mr)" "uint (mr_rbase mr) + uint (mr_rsize mr) \<le> 2 ^ 64"
    using assms by (auto simp: proper_range_def)
  ultimately have "(uint (mr_rbase mr) + uint (mr_rsize mr) - 1) mod 2 ^ 64 =
      uint (mr_rbase mr) + uint (mr_rsize mr) - 1"
    by (intro mod_pos_pos_trivial) linarith+
  then show ?thesis by (simp add: uint_word_ariths mod_simps)
qed

lemma entry_base_le_end: "entry_ok e \<Longrightarrow> mr_base e \<le> mr_end e"
proof -
  assume e: "entry_ok e"
  then have p: "proper_range (mr_param e)" and n: "e = new_range (mr_param e)"
    by (auto simp: entry_ok_def)
  from n have b: "mr_base e = mr_rbase (mr_param e)"
    and d: "mr_end e = mr_rbase (mr_param e) + mr_rsize (mr_param e) - 1"
    by (metis mmio_rb_range.select_convs new_range_def)+
  show ?thesis using p by (simp add: b d word_le_def uint_end proper_range_def)
qed

lemma entry_covers: "entry_ok e \<Longrightarrow> covers (mr_param e) a \<longleftrightarrow> mr_base e \<le> a \<and> a \<le> mr_end e"
  by (metis covers_def entry_ok_def mmio_rb_range.select_convs(2,3) new_range_def)

lemma entry_ok_new_range: "proper_range r \<Longrightarrow> entry_ok (new_range r)"
  by (simp add: entry_ok_def new_range_def)

lemma mr_param_new_range [simp]: "mr_param (new_range r) = r"
  by (simp add: new_range_def)

lemma covers_base: "proper_range r \<Longrightarrow> covers r (mr_rbase r)"
  by (auto simp: covers_def word_le_def uint_end proper_range_def)

lemma compare_zero:
  "mmio_rb_range_compare (a, b) (c, d) = 0 \<longleftrightarrow> c \<le> b \<and> a \<le> d"
  by auto

lemma compare_point: "mmio_rb_range_compare (a, a) (extent e) = 0 \<longleftrightarrow> mr_base e \<le> a \<and> a \<le> mr_end e"
  by (auto simp: extent_def)

lemma tree_ok_entry: "tree_ok t \<Longrightarrow> e \<in> set t \<Longrightarrow> entry_ok e"
  by (simp add: tree_ok_def)

lemma tree_ok_tl: "tree_ok (e # t) \<Longrightarrow> tree_ok t"
  by (simp add: tree_ok_def)

lemma tree_ok_Nil [simp]: "tree_ok []"
  by (simp add: tree_ok_def)

lemma tree_disjoint:
  assumes "tree_ok t" "e \<in> set t" "e' \<in> set t"
    and "covers (mr_param e) a" "covers (mr_param e') a"
  shows "e = e'"
  using assms
proof (induction t)
  case (Cons x t)
  have less: "mr_end x < mr_base y" if "y \<in> set t" for y
    using Cons.prems(1) that by (simp add: tree_ok_def)
  have cov: "mr_base y \<le> a \<and> a \<le> mr_end y"
    if "y \<in> set (x # t)" "covers (mr_param y) a" for y
    using that Cons.prems(1) entry_covers tree_ok_entry by blast
  have apart: "\<not> covers (mr_param y) a" if "y \<in> set t" "covers (mr_param x) a" for y
    using less [OF that(1)] cov [of x] cov [of y] that by auto
  consider "e = x" "e' = x" | "e = x" "e' \<in> set t" | "e \<in> set t" "e' = x"
    | "e \<in> set t" "e' \<in> set t" using Cons.prems(2,3) by auto
  then show ?case
    using apart Cons.prems(4,5) Cons.IH tree_ok_tl [OF Cons.prems(1)] by cases auto
qed simp

lemma lookup_covers:
  assumes "tree_ok t"
  shows "mmio_rb_lookup t a =
    (case find (\<lambda>e. covers (mr_param e) a) t of Some e \<Rightarrow> Inr e | None \<Rightarrow> Inl ENOENT)"
proof -
  have "rb_find t (a, a) = find (\<lambda>e. covers (mr_param e) a) t"
    unfolding rb_find_def
    by (rule find_cong) (use assms in \<open>auto simp: compare_point entry_covers tree_ok_entry\<close>)
  then show ?thesis by (simp add: mmio_rb_lookup_def split: option.split)
qed

lemma find_covers_iff:
  assumes "tree_ok t"
  shows "find (\<lambda>e. covers (mr_param e) a) t = Some e \<longleftrightarrow> e \<in> set t \<and> covers (mr_param e) a"
  by (metis (no_types, lifting) assms find_Some_in find_unique tree_disjoint)

section \<open>Insertion and removal keep the tree\<close>

definition rb_ins ::
    "('n, 'h) mmio_rb_tree \<Rightarrow> ('n, 'h) mmio_rb_range \<Rightarrow> ('n, 'h) mmio_rb_tree" where
  "rb_ins t new =
     takeWhile (\<lambda>e. mmio_rb_range_compare (extent new) (extent e) = 1) t @ new #
     dropWhile (\<lambda>e. mmio_rb_range_compare (extent new) (extent e) = 1) t"

lemma set_rb_ins [simp]: "set (rb_ins t new) = insert new (set t)"
proof -
  have "set (rb_ins t new) = insert new (set (takeWhile (\<lambda>e. mmio_rb_range_compare (extent new) (extent e) = 1) t
          @ dropWhile (\<lambda>e. mmio_rb_range_compare (extent new) (extent e) = 1) t))"
    by (simp only: rb_ins_def set_append list.set) blast
  then show ?thesis by (simp only: takeWhile_dropWhile_id)
qed

lemma rb_ins_Cons:
  "rb_ins (e # t) new =
     (if mmio_rb_range_compare (extent new) (extent e) = 1 then e # rb_ins t new else new # e # t)"
  by (simp add: rb_ins_def)

lemma rb_ins_ok:
  assumes "tree_ok t" "entry_ok new" "rb_find t (extent new) = None"
  shows "tree_ok (rb_ins t new)"
  using assms(1,3)
proof (induction t)
  case Nil
  then show ?case using assms(2) by (simp add: rb_ins_def tree_ok_def)
next
  case (Cons e t)
  have ne: "mmio_rb_range_compare (extent new) (extent e) \<noteq> 0"
    and rest: "rb_find t (extent new) = None"
    using Cons.prems(2) by (auto simp: rb_find_def split: if_splits)
  show ?case
  proof (cases "mmio_rb_range_compare (extent new) (extent e) = 1")
    case True
    then have "mr_end e < mr_base new" by (auto simp: extent_def split: if_splits)
    then show ?thesis
      using True Cons.IH[OF tree_ok_tl rest] Cons.prems(1)
      by (auto simp: rb_ins_Cons tree_ok_def)
  next
    case False
    with ne have lt: "mr_end new < mr_base e"
      by (auto simp: extent_def split: if_splits)
    have "mr_end new < mr_base y" if "y \<in> set t" for y
    proof -
      have "mr_end e < mr_base y" using Cons.prems(1) that by (simp add: tree_ok_def)
      moreover have "mr_base e \<le> mr_end e"
        using Cons.prems(1) by (intro entry_base_le_end) (simp add: tree_ok_def)
      ultimately show ?thesis using lt by (meson less_le_trans less_trans)
    qed
    then show ?thesis
      using False lt Cons.prems(1) assms(2) by (auto simp: rb_ins_Cons tree_ok_def)
  qed
qed

lemma mmio_rb_add_eq:
  "mmio_rb_add t new =
     (if rb_find t (extent new) = None then (0, rb_ins t new) else (EEXIST, t))"
  by (auto simp: mmio_rb_add_def rb_insert_def rb_ins_def split: option.split)

lemma rb_remove_ok: "tree_ok t \<Longrightarrow> tree_ok (rb_remove t e)"
  unfolding rb_remove_def tree_ok_def
  by (induction t) (auto dest: in_set_remove1 [THEN iffD1, rotated] notin_set_remove1)

lemma tree_ok_distinct: "tree_ok t \<Longrightarrow> distinct t"
proof (induction t)
  case (Cons e t)
  have "e \<notin> set t"
  proof
    assume "e \<in> set t"
    then have "mr_end e < mr_base e" using Cons.prems by (simp add: tree_ok_def)
    moreover have "mr_base e \<le> mr_end e"
      using Cons.prems by (intro entry_base_le_end) (simp add: tree_ok_def)
    ultimately show False by simp
  qed
  then show ?case using Cons tree_ok_tl by auto
qed simp

lemma set_rb_remove: "tree_ok t \<Longrightarrow> set (rb_remove t e) = set t - {e}"
  by (simp add: rb_remove_def tree_ok_distinct)


section \<open>What the operations do to the table\<close>

lemma range_at_iff:
  assumes "mem_inv ms"
  shows "range_at ms a = Some r \<longleftrightarrow>
    (\<exists>e. e \<in> set (mmio_rb_root ms) \<and> mr_param e = r \<and> covers r a)"
  using assms by (auto simp: range_at_def mem_inv_def find_covers_iff)

lemma range_at_None:
  "range_at ms a = None \<longleftrightarrow> (\<forall>e\<in>set (mmio_rb_root ms). \<not> covers (mr_param e) a)"
  by (simp add: range_at_def find_None_all)

lemma option_eqI: "(\<And>x. a = Some x \<longleftrightarrow> b = Some x) \<Longrightarrow> a = b"
  by (cases a; cases b) auto

lemma range_at_proper:
  "mem_inv ms \<Longrightarrow> range_at ms a = Some r \<Longrightarrow> covers r a \<and> proper_range r"
  by (auto simp: range_at_iff mem_inv_def tree_ok_def entry_ok_def)

lemma lookup_root:
  assumes "mem_inv ms"
  shows "mmio_rb_lookup (mmio_rb_root ms) a =
    (case range_at ms a of Some r \<Rightarrow> Inr (new_range r) | None \<Rightarrow> Inl ENOENT)"
proof -
  have ok: "tree_ok (mmio_rb_root ms)" using assms by (simp add: mem_inv_def)
  show ?thesis
  proof (cases "find (\<lambda>e. covers (mr_param e) a) (mmio_rb_root ms)")
    case None
    then show ?thesis by (simp add: lookup_covers [OF ok] range_at_def)
  next
    case (Some e)
    then have "new_range (mr_param e) = e"
      using ok find_covers_iff tree_ok_entry entry_ok_def by metis
    then show ?thesis using Some by (simp add: lookup_covers [OF ok] range_at_def)
  qed
qed

lemma find_extent_None:
  assumes "mem_inv ms" "proper_range r"
    and free: "\<forall>a. covers r a \<longrightarrow> range_at ms a = None"
  shows "rb_find (mmio_rb_root ms) (extent (new_range r)) = None"
proof (rule ccontr)
  assume "\<not> ?thesis"
  then obtain e where e: "e \<in> set (mmio_rb_root ms)"
    and c: "mmio_rb_range_compare (extent (new_range r)) (extent e) = 0"
    by (auto simp: rb_find_def find_None_all)
  have eok: "entry_ok e" and nok: "entry_ok (new_range r)"
    using assms(1,2) e by (auto simp: mem_inv_def tree_ok_def entry_ok_new_range)
  define a where "a = max (mr_base e) (mr_base (new_range r))"
  have "mr_base e \<le> mr_end e" "mr_base (new_range r) \<le> mr_end (new_range r)"
    using eok nok entry_base_le_end by blast+
  moreover have "mr_base e \<le> mr_end (new_range r)" "mr_base (new_range r) \<le> mr_end e"
    using c by (auto simp: extent_def split: if_splits)
  ultimately have "covers (mr_param e) a" "covers r a"
    using entry_covers [OF eok] entry_covers [OF nok] by (auto simp: a_def max_def)
  then show False using free e by (auto simp: range_at_None)
qed

lemma find_extent_Some:
  assumes "mem_inv ms" "proper_range r" "covers r a" "range_at ms a \<noteq> None"
  shows "rb_find (mmio_rb_root ms) (extent (new_range r)) \<noteq> None"
proof
  assume n: "rb_find (mmio_rb_root ms) (extent (new_range r)) = None"
  obtain e where e: "e \<in> set (mmio_rb_root ms)" "covers (mr_param e) a"
    using assms(4) by (auto simp: range_at_None)
  then have "mr_base e \<le> a" "a \<le> mr_end e"
    using assms(1) entry_covers by (auto simp: mem_inv_def tree_ok_def)
  moreover have "mr_base (new_range r) \<le> a" "a \<le> mr_end (new_range r)"
    using entry_covers [OF entry_ok_new_range [OF assms(2)]] assms(3) by auto
  ultimately have "mmio_rb_range_compare (extent (new_range r)) (extent e) = 0"
    by (auto simp: extent_def)
  then show False using n e(1) by (auto simp: rb_find_def find_None_all)
qed

text \<open>\<open>register_mem\<close> in one equation, over the abstract map.\<close>

lemma register_mem_eq:
  assumes "mem_inv ms" "proper_range r"
  shows "register_mem ms r =
    (if \<not> malloc_ok ms then (ENOMEM, ms)
     else if range_at ms (mr_rbase r) \<noteq> None then (0, ms)
     else if \<exists>a. covers r a \<and> range_at ms a \<noteq> None then (EEXIST, ms)
     else (0, ms\<lparr>mmio_rb_root := rb_ins (mmio_rb_root ms) (new_range r)\<rparr>))"
proof -
  have conflict: "(\<exists>a. covers r a \<and> range_at ms a \<noteq> None) \<longleftrightarrow>
      rb_find (mmio_rb_root ms) (extent (new_range r)) \<noteq> None"
    by (rule iffI) (use find_extent_Some [OF assms] find_extent_None [OF assms] in metis)+
  show ?thesis
    unfolding conflict
    by (cases "range_at ms (mr_rbase r)")
      (simp_all add: register_mem_def register_mem_int_def lookup_root [OF assms(1)] mmio_rb_add_eq)
qed

lemma register_mem_inv:
  assumes "mem_inv ms" "proper_range r" "register_mem ms r = (err, ms')"
  shows "mem_inv ms'"
proof -
  have "mem_inv (ms\<lparr>mmio_rb_root := rb_ins (mmio_rb_root ms) (new_range r)\<rparr>)"
    if "\<not> (\<exists>a. covers r a \<and> range_at ms a \<noteq> None)"
  proof -
    have "rb_find (mmio_rb_root ms) (extent (new_range r)) = None"
      using find_extent_None [OF assms(1,2)] that by auto
    then show ?thesis
      using assms(1,2) rb_ins_ok entry_ok_new_range
      by (auto simp: mem_inv_def split: option.splits)
  qed
  then show ?thesis using assms by (auto simp: register_mem_eq split: if_splits)
qed

lemma register_mem_fresh:
  assumes "mem_inv ms" "proper_range r" "malloc_ok ms"
    and free: "\<And>a. covers r a \<Longrightarrow> range_at ms a = None"
  shows "\<exists>ms'. register_mem ms r = (0, ms') \<and> mem_inv ms' \<and> malloc_ok ms' \<and>
    (\<forall>a. range_at ms' a = (if covers r a then Some r else range_at ms a))"
proof -
  let ?ms' = "ms\<lparr>mmio_rb_root := rb_ins (mmio_rb_root ms) (new_range r)\<rparr>"
  have "range_at ms (mr_rbase r) = None" using free covers_base assms(2) by blast
  then have eq: "register_mem ms r = (0, ?ms')"
    using free assms(3) unfolding register_mem_eq [OF assms(1,2)] by auto
  have inv: "mem_inv ?ms'" using register_mem_inv assms(1,2) eq by blast
  have "range_at ?ms' a = (if covers r a then Some r else range_at ms a)" for a
  proof (rule option_eqI)
    fix x
    show "range_at ?ms' a = Some x \<longleftrightarrow> (if covers r a then Some r else range_at ms a) = Some x"
      using free [of a] by (auto simp: range_at_iff [OF inv] range_at_iff [OF assms(1)] range_at_None)
  qed
  then show ?thesis using eq inv assms(3) by simp
qed

lemma unregister_mem_found:
  assumes "mem_inv ms" "range_at ms (mr_rbase r) = Some r" "mr_flags r AND MEM_F_IMMUTABLE = 0"
  shows "\<exists>ms'. unregister_mem ms r = Inr (0, ms') \<and> mem_inv ms' \<and>
    malloc_ok ms' = malloc_ok ms \<and>
    (\<forall>a. range_at ms' a = (if covers r a then None else range_at ms a))"
proof -
  let ?t = "rb_remove (mmio_rb_root ms) (new_range r)"
  define ms' where "ms' = ms\<lparr>mmio_rb_root := ?t,
    mmio_hint := (if mmio_hint ms = Some (new_range r) then None else mmio_hint ms)\<rparr>"
  have eq: "unregister_mem ms r = Inr (0, ms')"
    using assms by (simp add: unregister_mem_def lookup_root ms'_def)
  have root: "mmio_rb_root ms' = ?t" and mal: "malloc_ok ms' = malloc_ok ms"
    by (simp_all add: ms'_def)
  have ok: "tree_ok (mmio_rb_root ms)" using assms(1) by (simp add: mem_inv_def)
  have set: "set ?t = set (mmio_rb_root ms) - {new_range r}"
    by (rule set_rb_remove [OF ok])
  have inv: "mem_inv ms'"
    using assms(1) rb_remove_ok [OF ok] set by (auto simp: mem_inv_def ms'_def split: option.splits)
  have new: "e = new_range r" if "e \<in> set (mmio_rb_root ms)" "mr_param e = r" for e
    using that ok tree_ok_entry entry_ok_def by metis
  have in_root: "new_range r \<in> set (mmio_rb_root ms)"
    using assms(2) new by (auto simp: range_at_iff [OF assms(1)])
  have gone: "range_at ms' a = None" if c: "covers r a" for a
    using tree_disjoint [OF ok in_root, of _ a] c set root by (auto simp: range_at_None)
  have kept: "range_at ms' a = range_at ms a" if c: "\<not> covers r a" for a
  proof (rule option_eqI)
    fix x
    have "e \<noteq> new_range r" if "covers (mr_param e) a" for e
      using that c by auto
    then show "range_at ms' a = Some x \<longleftrightarrow> range_at ms a = Some x"
      using set root unfolding range_at_iff [OF inv] range_at_iff [OF assms(1)] by auto
  qed
  show ?thesis using eq inv gone kept mal by (intro exI [of _ ms']) simp
qed

lemma unregister_mem_missing:
  "mem_inv ms \<Longrightarrow> range_at ms (mr_rbase r) = None \<Longrightarrow> unregister_mem ms r = Inr (ENOENT, ms)"
  by (simp add: unregister_mem_def lookup_root)

lemma unregister_mem_inv:
  assumes "mem_inv ms" "unregister_mem ms r = Inr (err, ms')"
  shows "mem_inv ms'"
proof (cases "range_at ms (mr_rbase r)")
  case None
  then show ?thesis using assms unregister_mem_missing by fastforce
next
  case (Some q)
  let ?t = "rb_remove (mmio_rb_root ms) (new_range q)"
  have ok: "tree_ok (mmio_rb_root ms)" using assms(1) by (simp add: mem_inv_def)
  have "ms' = ms\<lparr>mmio_rb_root := ?t,
      mmio_hint := (if mmio_hint ms = Some (new_range q) then None else mmio_hint ms)\<rparr>"
    using assms Some
    by (auto simp: unregister_mem_def lookup_root bind_assertE split: if_splits)
  then show ?thesis
    using assms(1) rb_remove_ok [OF ok] set_rb_remove [OF ok]
    by (auto simp: mem_inv_def split: option.splits)
qed


section \<open>The contract of the range table\<close>

text \<open>
  What the PCI layer relies on when it moves the decoding of a BAR: a look-up
  function, registration of a range over free addresses, removal of a range
  that is registered, and what each does to the look-ups.
\<close>

locale range_table =
  fixes lookup_at :: "'s \<Rightarrow> u64 \<Rightarrow> 'r option"
    and reg :: "'s \<Rightarrow> 'r \<Rightarrow> int \<times> 's"
    and unreg :: "'s \<Rightarrow> 'r \<Rightarrow> (int \<times> 's) res"
    and inv :: "'s \<Rightarrow> bool"
    and room :: "'s \<Rightarrow> bool"
    and proper :: "'r \<Rightarrow> bool"
    and removable :: "'r \<Rightarrow> bool"
    and cov :: "'r \<Rightarrow> u64 \<Rightarrow> bool"
    and base :: "'r \<Rightarrow> u64"
  assumes reg_fresh: "inv s \<Longrightarrow> proper r \<Longrightarrow> room s \<Longrightarrow> (\<And>a. cov r a \<Longrightarrow> lookup_at s a = None) \<Longrightarrow>
      \<exists>s'. reg s r = (0, s') \<and> inv s' \<and> room s' \<and>
        (\<forall>a. lookup_at s' a = (if cov r a then Some r else lookup_at s a))"
    and unreg_found: "inv s \<Longrightarrow> lookup_at s (base r) = Some r \<Longrightarrow> removable r \<Longrightarrow>
      \<exists>s'. unreg s r = Inr (0, s') \<and> inv s' \<and> room s' = room s \<and>
        (\<forall>a. lookup_at s' a = (if cov r a then None else lookup_at s a))"
    and unreg_missing: "inv s \<Longrightarrow> lookup_at s (base r) = None \<Longrightarrow> unreg s r = Inr (ENOENT, s)"
    and proper_base: "proper r \<Longrightarrow> cov r (base r)"
    and lookup_cov: "inv s \<Longrightarrow> lookup_at s a = Some r \<Longrightarrow> cov r a \<and> proper r"
begin

lemma reg_unreg:
  assumes "inv s" "proper r" "room s" "removable r" "\<And>a. cov r a \<Longrightarrow> lookup_at s a = None"
  shows "\<exists>s1 s2. reg s r = (0, s1) \<and> unreg s1 r = Inr (0, s2) \<and> inv s2 \<and>
    (\<forall>a. lookup_at s2 a = lookup_at s a)"
proof -
  obtain s1 where s1: "reg s r = (0, s1)" "inv s1"
      "\<And>a. lookup_at s1 a = (if cov r a then Some r else lookup_at s a)"
    using reg_fresh assms by metis
  have "lookup_at s1 (base r) = Some r" using s1(3) proper_base assms(2) by simp
  then obtain s2 where s2: "unreg s1 r = Inr (0, s2)" "inv s2"
      "\<And>a. lookup_at s2 a = (if cov r a then None else lookup_at s1 a)"
    using unreg_found s1(2) assms(4) by metis
  show ?thesis using s1 s2 assms(5) by (intro exI [of _ s1] exI [of _ s2]) simp
qed

lemma move:
  assumes "inv s" "room s" "lookup_at s (base r) = Some r" "removable r" "proper r'"
    and free: "\<And>a. cov r' a \<Longrightarrow> lookup_at s a = None \<or> lookup_at s a = Some r"
  shows "\<exists>s1 s2. unreg s r = Inr (0, s1) \<and> reg s1 r' = (0, s2) \<and> inv s2 \<and> room s2 \<and>
    (\<forall>a. lookup_at s2 a = (if cov r' a then Some r' else if cov r a then None else lookup_at s a))"
proof -
  obtain s1 where s1: "unreg s r = Inr (0, s1)" "inv s1" "room s1 = room s"
      "\<And>a. lookup_at s1 a = (if cov r a then None else lookup_at s a)"
    using unreg_found assms(1,3,4) by metis
  have "lookup_at s1 a = None" if "cov r' a" for a
    using free [OF that] lookup_cov [OF assms(1)] s1(4) by auto
  then obtain s2 where s2: "reg s1 r' = (0, s2)" "inv s2" "room s2"
      "\<And>a. lookup_at s2 a = (if cov r' a then Some r' else lookup_at s1 a)"
    using reg_fresh [OF s1(2) assms(5)] s1(3) assms(2) by metis
  show ?thesis using s1 s2 by (intro exI [of _ s1] exI [of _ s2]) simp
qed

lemma unreg_twice_fails:
  assumes "inv s" "lookup_at s (base r) = Some r" "removable r" "unreg s r = Inr (e, s1)"
  shows "unreg s1 r = Inr (ENOENT, s1)"
proof -
  obtain s' where "unreg s r = Inr (0, s')" "inv s'"
      "\<And>a. lookup_at s' a = (if cov r a then None else lookup_at s a)"
    using unreg_found assms(1-3) by metis
  moreover have "cov r (base r)" using lookup_cov assms(1,2) by blast
  ultimately show ?thesis using unreg_missing assms(4) by simp
qed

end

definition removable :: "('n, 'h) mem_range \<Rightarrow> bool" where
  "removable r \<longleftrightarrow> mr_flags r AND MEM_F_IMMUTABLE = 0"

interpretation mmio: range_table range_at register_mem unregister_mem mem_inv malloc_ok
    proper_range removable covers mr_rbase
  by unfold_locales
    (simp_all add: register_mem_fresh unregister_mem_found unregister_mem_missing covers_base
       range_at_proper removable_def)

section \<open>Look-ups through the hint\<close>

text \<open>The range an access is handed to, with the hint left out.\<close>

definition plain_range :: "('n, 'h) mem_state \<Rightarrow> u64 \<Rightarrow> ('n, 'h) mem_range option" where
  "plain_range ms a =
     (case range_at ms a of
        Some r \<Rightarrow> Some r
      | None \<Rightarrow> map_option mr_param (find (\<lambda>e. covers (mr_param e) a) (mmio_rb_fallback ms)))"

lemma range_at_hint: "range_at (ms\<lparr>mmio_hint := h\<rparr>) a = range_at ms a"
  by (simp add: range_at_def)

lemma access_entry_hit:
  assumes "mem_inv ms" "range_at ms a = Some r"
  shows "\<exists>e ms'. access_entry ms a = Some (e, ms') \<and> mr_param e = r \<and>
    ms' = ms\<lparr>mmio_hint := Some (new_range r)\<rparr> \<and> mem_inv ms'"
proof -
  have ok: "tree_ok (mmio_rb_root ms)" using assms(1) by (simp add: mem_inv_def)
  obtain e where e: "e \<in> set (mmio_rb_root ms)" "mr_param e = r" "covers r a"
    using assms range_at_iff by blast
  then have new: "e = new_range r" using ok tree_ok_entry entry_ok_def by metis
  have hint: "h = e" if "mmio_hint ms = Some h" "mr_base h \<le> a" "a \<le> mr_end h" for h
  proof -
    have "h \<in> set (mmio_rb_root ms)" using that(1) assms(1) by (simp add: mem_inv_def)
    moreover from this have "covers (mr_param h) a"
      using that ok entry_covers tree_ok_entry by blast
    ultimately show ?thesis using tree_disjoint [OF ok _ e(1)] e(2,3) by blast
  qed
  have "access_entry ms a = Some (e, ms\<lparr>mmio_hint := Some (new_range r)\<rparr>)"
    using hint assms by (auto simp: access_entry_def lookup_root new split: option.splits)
  moreover have "mem_inv (ms\<lparr>mmio_hint := Some (new_range r)\<rparr>)"
    using assms(1) e(1) new by (simp add: mem_inv_def)
  ultimately show ?thesis using e(2) by blast
qed

lemma access_entry_miss:
  assumes "mem_inv ms" "range_at ms a = None"
  shows "access_entry ms a =
    map_option (\<lambda>e. (e, ms)) (find (\<lambda>e. covers (mr_param e) a) (mmio_rb_fallback ms))"
proof -
  have ok: "tree_ok (mmio_rb_root ms)" "tree_ok (mmio_rb_fallback ms)"
    using assms(1) by (simp_all add: mem_inv_def)
  have "\<not> (mr_base h \<le> a \<and> a \<le> mr_end h)" if "mmio_hint ms = Some h" for h
    using that assms ok entry_covers tree_ok_entry by (fastforce simp: mem_inv_def range_at_None)
  then show ?thesis
    using assms by (auto simp: access_entry_def lookup_root lookup_covers [OF ok(2)] split: option.splits)
qed

lemma access_entry_plain:
  assumes "mem_inv ms"
  shows "map_option (mr_param \<circ> fst) (access_entry ms a) = plain_range ms a"
  using access_entry_hit [OF assms] access_entry_miss [OF assms]
  by (cases "range_at ms a") (force simp: plain_range_def option.map_comp comp_def)+

lemma access_entry_inv:
  assumes "mem_inv ms" "access_entry ms a = Some (e, ms')"
  shows "mem_inv ms' \<and> (\<forall>b. range_at ms' b = range_at ms b) \<and> malloc_ok ms' = malloc_ok ms"
proof (cases "range_at ms a")
  case None
  then show ?thesis using assms access_entry_miss by fastforce
next
  case (Some r)
  then show ?thesis using assms access_entry_hit [OF assms(1) Some] by (auto simp: range_at_hint)
qed


section \<open>Reachable tables\<close>

text \<open>
  Every change the program makes to the table is one of these steps, in any
  order: the registrations of non-empty ranges, removals, and accesses, which
  move the hint.
\<close>

inductive mem_step :: "('n, 'h) mem_state \<Rightarrow> ('n, 'h) mem_state \<Rightarrow> bool" where
  step_register: "proper_range r \<Longrightarrow> register_mem ms r = (err, ms') \<Longrightarrow> mem_step ms ms'"
| step_fallback: "proper_range r \<Longrightarrow> register_mem_fallback ms r = (err, ms') \<Longrightarrow> mem_step ms ms'"
| step_unregister: "unregister_mem ms r = Inr (err, ms') \<Longrightarrow> mem_step ms ms'"
| step_access: "access_entry ms a = Some (e, ms') \<Longrightarrow> mem_step ms ms'"

lemma rb_find_new_range:
  "tree_ok t \<Longrightarrow> proper_range r \<Longrightarrow> tree_ok (snd (register_mem_int m t r))"
  using rb_ins_ok [OF _ entry_ok_new_range]
  by (auto simp: register_mem_int_def mmio_rb_add_eq split: sum.split)

lemma register_mem_fallback_inv:
  assumes "mem_inv ms" "proper_range r" "register_mem_fallback ms r = (err, ms')"
  shows "mem_inv ms'"
proof -
  have "ms' = ms\<lparr>mmio_rb_fallback := snd (register_mem_int (malloc_ok ms) (mmio_rb_fallback ms) r)\<rparr>"
    using assms(3) by (auto simp: register_mem_fallback_def split: prod.splits)
  then show ?thesis
    using assms(1,2) by (auto simp: mem_inv_def rb_find_new_range split: option.splits)
qed

lemma mem_step_inv: "mem_step ms ms' \<Longrightarrow> mem_inv ms \<Longrightarrow> mem_inv ms'"
  by (induction rule: mem_step.induct)
    (blast intro: register_mem_inv register_mem_fallback_inv unregister_mem_inv
       dest: access_entry_inv)+

lemma mem_inv_init: "mmio_hint ms = None \<Longrightarrow> mem_inv (init_mem ms)"
  by (simp add: mem_inv_def init_mem_def)

lemma mem_steps_inv: "mem_step\<^sup>*\<^sup>* ms ms' \<Longrightarrow> mem_inv ms \<Longrightarrow> mem_inv ms'"
  by (induction rule: rtranclp_induct) (auto intro: mem_step_inv)

section \<open>Properties\<close>

definition wit_range :: "(nat, nat) mem_range" where
  "wit_range = \<lparr>mr_name = 0, mr_flags = 3, mr_handler = 7, mr_rbase = 16, mr_rsize = 8\<rparr>"

definition wit_empty :: "(nat, nat) mem_state" where
  "wit_empty = \<lparr>mmio_rb_root = [], mmio_rb_fallback = [], mmio_hint = None, malloc_ok = True\<rparr>"

definition wit_mem :: "(nat, nat) mem_state" where
  "wit_mem = wit_empty\<lparr>mmio_rb_root := [new_range wit_range]\<rparr>"

lemma proper_wit_range: "proper_range wit_range"
  by (simp add: proper_range_def wit_range_def)

lemma mem_inv_wit_mem: "mem_inv wit_mem"
  by (simp add: mem_inv_def wit_mem_def wit_empty_def tree_ok_def entry_ok_new_range proper_wit_range)

lemma wit_mem_reached: "mem_step\<^sup>*\<^sup>* (init_mem wit_empty) wit_mem"
proof -
  have "register_mem (init_mem wit_empty) wit_range = (0, wit_mem)"
    by (simp add: register_mem_def register_mem_int_def init_mem_def wit_empty_def wit_mem_def
        mmio_rb_lookup_def mmio_rb_add_def rb_insert_def rb_find_def)
  then show ?thesis using step_register proper_wit_range by blast
qed

text \<open>C12: From the empty table, whatever sequence of registrations, removals
  and accesses the program makes, the registered ranges stay pairwise
  disjoint: an address lies in at most one of them, and the cached hint is
  one of the registered ranges.\<close>

theorem reachable_ranges_disjoint:
  assumes "mmio_hint ms0 = None" and "mem_step\<^sup>*\<^sup>* (init_mem ms0) ms"
    and "e \<in> set (mmio_rb_root ms)" and "covers (mr_param e) a"
  shows "(\<forall>e'\<in>set (mmio_rb_root ms). covers (mr_param e') a \<longrightarrow> e' = e) \<and>
    (\<forall>h. mmio_hint ms = Some h \<longrightarrow> h \<in> set (mmio_rb_root ms))"
proof -
  have inv: "mem_inv ms" using mem_steps_inv mem_inv_init assms(1,2) by blast
  then have ok: "tree_ok (mmio_rb_root ms)" by (simp add: mem_inv_def)
  have "\<forall>e'\<in>set (mmio_rb_root ms). covers (mr_param e') a \<longrightarrow> e' = e"
    using tree_disjoint [OF ok] assms(3,4) by blast
  then show ?thesis using inv by (auto simp: mem_inv_def)
qed

theorem reachable_ranges_disjoint_witness:
  "mem_step\<^sup>*\<^sup>* (init_mem wit_empty) wit_mem \<and> covers wit_range 20 \<and>
   \<not> (\<exists>e'. e' \<in> set (mmio_rb_root wit_mem) \<and> covers (mr_param e') 20 \<and> e' \<noteq> new_range wit_range)"
proof -
  have prem: "mmio_hint wit_empty = None" "new_range wit_range \<in> set (mmio_rb_root wit_mem)"
    "covers (mr_param (new_range wit_range)) 20"
    by (simp_all add: wit_empty_def wit_mem_def covers_def wit_range_def)
  have "covers wit_range 20" using prem(3) by simp
  moreover note reachable_ranges_disjoint [OF prem(1) wit_mem_reached prem(2,3)]
  ultimately show ?thesis using wit_mem_reached by metis
qed

text \<open>C17: An access is handed to the handler of the range its address lies in,
  with the direction, address and width of the access, and to no other; if no
  range covers the address it returns \<open>ESRCH\<close> and changes nothing. The one-entry
  hint makes no difference to which handler runs.\<close>

theorem emulate_mem_dispatch:
  assumes "mem_inv ms"
  shows "emulate_mem call ms s paddr wr w val =
    (case plain_range ms paddr of
       None \<Rightarrow> Inr (ESRCH, ms, val, s)
     | Some r \<Rightarrow>
         call (mr_handler r) (if wr then MEM_F_WRITE else MEM_F_READ) paddr w
           (if range_at ms paddr = None then ms else ms\<lparr>mmio_hint := Some (new_range r)\<rparr>)
           (val, s))"
proof (cases "range_at ms paddr")
  case None
  then show ?thesis
    by (auto simp: emulate_mem_def access_memory_def access_entry_miss [OF assms None]
        plain_range_def emulate_mem_cb_def split: option.split)
next
  case (Some r)
  then show ?thesis
    using access_entry_hit [OF assms Some]
    by (auto simp: emulate_mem_def access_memory_def plain_range_def emulate_mem_cb_def)
qed

theorem emulate_mem_dispatch_witness:
  "mem_inv wit_mem \<and>
   emulate_mem (\<lambda>h dir a sz ms vs. Inr (0, ms, of_nat (h + sz), snd vs + dir))
     wit_mem 0 18 True 4 9 =
   Inr (0, wit_mem\<lparr>mmio_hint := Some (new_range wit_range)\<rparr>, 11, 2)"
proof -
  have "range_at wit_mem 18 = Some wit_range"
    by (simp add: range_at_def covers_def wit_mem_def wit_range_def)
  then show ?thesis
    using emulate_mem_dispatch [OF mem_inv_wit_mem,
        of "\<lambda>h dir a sz ms vs. Inr (0, ms, of_nat (h + sz), snd vs + dir)" 0 18 True 4 9]
    by (simp add: mem_inv_wit_mem plain_range_def MEM_F_WRITE_def wit_range_def)
qed

text \<open>C32: Registering a range whose addresses are all free makes exactly those
  addresses answer with it, and unregistering it again gives back the table's
  answers at every address; unregistering it a second time is refused with
  \<open>ENOENT\<close>.\<close>

theorem register_unregister:
  assumes "mem_inv ms" "proper_range r" "malloc_ok ms" "removable r"
    and "\<And>a. covers r a \<Longrightarrow> range_at ms a = None"
  shows "\<exists>ms1 ms2. register_mem ms r = (0, ms1) \<and>
    (\<forall>a. range_at ms1 a = (if covers r a then Some r else range_at ms a)) \<and>
    unregister_mem ms1 r = Inr (0, ms2) \<and> (\<forall>a. range_at ms2 a = range_at ms a) \<and>
    unregister_mem ms2 r = Inr (ENOENT, ms2)"
proof -
  obtain ms1 where r: "register_mem ms r = (0, ms1)" "mem_inv ms1"
      "\<And>a. range_at ms1 a = (if covers r a then Some r else range_at ms a)"
    using mmio.reg_fresh assms by metis
  obtain ms2 where u: "unregister_mem ms1 r = Inr (0, ms2)" "\<forall>a. range_at ms2 a = range_at ms a"
    using mmio.reg_unreg [OF assms(1-4)] assms(5) r(1) by auto
  have "range_at ms1 (mr_rbase r) = Some r" using r(3) mmio.proper_base [OF assms(2)] by simp
  then have "unregister_mem ms2 r = Inr (ENOENT, ms2)"
    using mmio.unreg_twice_fails [OF r(2) _ assms(4) u(1)] by blast
  then show ?thesis using r u by blast
qed

theorem register_unregister_witness:
  "\<exists>ms1 ms2. register_mem wit_mem (wit_range\<lparr>mr_rbase := 32\<rparr>) = (0, ms1) \<and>
     unregister_mem ms1 (wit_range\<lparr>mr_rbase := 32\<rparr>) = Inr (0, ms2) \<and>
     (\<forall>a. range_at ms2 a = range_at wit_mem a)"
proof -
  let ?r = "wit_range\<lparr>mr_rbase := 32\<rparr>"
  have "range_at wit_mem a = None" if "covers ?r a" for a
    using that order.trans [of 32 a 23]
    by (auto simp: range_at_def wit_mem_def covers_def wit_range_def)
  moreover have "proper_range ?r" "malloc_ok wit_mem" "removable ?r"
    by (simp_all add: proper_range_def wit_mem_def wit_empty_def wit_range_def removable_def
        MEM_F_IMMUTABLE_def)
  ultimately show ?thesis using register_unregister [OF mem_inv_wit_mem, of ?r] by blast
qed

end
