(* ===== verification/Pci_Bar.thy ===== *)
theory Pci_Bar
  imports Pci_Caps Mem_Ranges
begin

text \<open>
  The base address registers of \<open>bhyve/pci_emul.c\<close>: allocation of address
  space for them, the registration of the ranges they decode with \<open>mem.c\<close>,
  moving a BAR, and the MSI-X capability, which allocates one.
\<close>

section \<open>State\<close>

text \<open>
  A range is named by the \<open>pi_name\<close> array of its device (one per instance, so
  its address is that of the instance) or by a string literal, and handled by
  \<open>pci_emul_mem_handler\<close> for a device and BAR or by \<open>pci_emul_ecfg_handler\<close>.
\<close>

datatype range_name = PiName bdf | Literal string

datatype range_handler = Null_handler | Pci_emul_mem_handler bdf nat | Pci_emul_ecfg_handler

type_synonym pci_range = "(range_name, range_handler) mem_range"
type_synonym pci_mem = "(range_name, range_handler) mem_state"

text \<open>The three allocation cursors.\<close>

record pci_cursors =
  pci_emul_iobase :: u64
  pci_emul_membase32 :: u64
  pci_emul_membase64 :: u64

definition PCI_EMUL_IOLIMIT :: u64 where "PCI_EMUL_IOLIMIT = 0x10000"
definition PCI_EMUL_ECFG_BASE :: u64 where "PCI_EMUL_ECFG_BASE = 0xFDC00000"
definition PCI_EMUL_ECFG_SIZE :: u64 where "PCI_EMUL_ECFG_SIZE = 256 * 1024 * 2"
definition PCI_EMUL_MEMLIMIT32 :: u64 where "PCI_EMUL_MEMLIMIT32 = PCI_EMUL_ECFG_BASE"
definition PCI_EMUL_MEMBASE64 :: u64 where "PCI_EMUL_MEMBASE64 = 0xD000000000"
definition PCI_EMUL_MEMLIMIT64 :: u64 where "PCI_EMUL_MEMLIMIT64 = 0xFD00000000"

definition EINVAL :: int where "EINVAL = 22"

section \<open>Operations\<close>

text \<open>The \<open>roundup2\<close> macro on 64-bit operands.\<close>

definition roundup2w :: "u64 \<Rightarrow> u64 \<Rightarrow> u64" where
  "roundup2w x y = (x + (y - 1)) AND NOT (y - 1)"

text \<open>Returns the error, the new cursor and the address if there is one.\<close>

definition pci_emul_alloc_resource :: "u64 \<Rightarrow> u64 \<Rightarrow> u64 \<Rightarrow> (int \<times> u64 \<times> u64 option) res" where
  "pci_emul_alloc_resource baseptr limit sz =
     bindE (assertE (sz AND (sz - 1) = 0)) (\<lambda>_.
     let base = roundup2w baseptr sz in
     if base + sz \<le> limit then Inr (0, base + sz, Some base)
     else Inr (-1, baseptr, None))"

record inout_port =
  iop_name :: range_name
  iop_port :: u32
  iop_size :: u32
  iop_flags :: nat

definition register_inout :: "inout_port \<Rightarrow> int" where
  "register_inout iop = 0"

definition unregister_inout :: "inout_port \<Rightarrow> int" where
  "unregister_inout iop = 0"

definition bar_port :: "pci_devinst \<Rightarrow> nat \<Rightarrow> nat \<Rightarrow> inout_port" where
  "bar_port pi idx flags =
     \<lparr>iop_name = PiName (pi_bdf pi), iop_port = ucast (bar_addr (pi_bar pi idx)),
      iop_size = ucast (bar_size (pi_bar pi idx)), iop_flags = flags\<rparr>"

text \<open>The range of a memory BAR, as it is registered; the removal fills in less.\<close>

definition bar_range :: "pci_devinst \<Rightarrow> nat \<Rightarrow> pci_range" where
  "bar_range pi idx =
     \<lparr>mr_name = PiName (pi_bdf pi), mr_flags = MEM_F_RW,
      mr_handler = Pci_emul_mem_handler (pi_bdf pi) idx,
      mr_rbase = bar_addr (pi_bar pi idx), mr_rsize = bar_size (pi_bar pi idx)\<rparr>"

definition modify_bar_registration ::
    "pci_devinst \<Rightarrow> nat \<Rightarrow> bool \<Rightarrow> pci_mem \<Rightarrow> pci_mem res" where
  "modify_bar_registration pi idx registration mem =
     bindE (case bar_type (pi_bar pi idx) of
              PCIBAR_IO \<Rightarrow>
                Inr (if registration then register_inout (bar_port pi idx 3)
                     else unregister_inout (bar_port pi idx 0), mem)
            | PCIBAR_MEM32 \<Rightarrow>
                (if registration then Inr (register_mem mem (bar_range pi idx))
                 else unregister_mem mem
                   ((bar_range pi idx)\<lparr>mr_flags := 0, mr_handler := Null_handler\<rparr>))
            | PCIBAR_MEM64 \<Rightarrow>
                (if registration then Inr (register_mem mem (bar_range pi idx))
                 else unregister_mem mem
                   ((bar_range pi idx)\<lparr>mr_flags := 0, mr_handler := Null_handler\<rparr>))
            | PCIBAR_NONE \<Rightarrow> Inr (EINVAL, mem)
            | PCIBAR_MEMHI64 \<Rightarrow> Inr (EINVAL, mem)) (\<lambda>(error, mem).
     bindE (assertE (error = 0)) (\<lambda>_. Inr mem))"

definition unregister_bar :: "pci_devinst \<Rightarrow> nat \<Rightarrow> pci_mem \<Rightarrow> pci_mem res" where
  "unregister_bar pi idx mem = modify_bar_registration pi idx False mem"

definition register_bar :: "pci_devinst \<Rightarrow> nat \<Rightarrow> pci_mem \<Rightarrow> pci_mem res" where
  "register_bar pi idx mem = modify_bar_registration pi idx True mem"

definition porten :: "pci_devinst \<Rightarrow> bool res" where
  "porten pi = bindE (pci_get_cfgdata16 pi PCIR_COMMAND) (\<lambda>cmd. Inr (cmd AND PCIM_CMD_PORTEN \<noteq> 0))"

definition memen :: "pci_devinst \<Rightarrow> bool res" where
  "memen pi = bindE (pci_get_cfgdata16 pi PCIR_COMMAND) (\<lambda>cmd. Inr (cmd AND PCIM_CMD_MEMEN \<noteq> 0))"

definition set_bar :: "pci_devinst \<Rightarrow> nat \<Rightarrow> pcibar \<Rightarrow> pci_devinst" where
  "set_bar pi idx b = pi\<lparr>pi_bar := (pi_bar pi)(idx := b)\<rparr>"

definition set_bar_addr :: "pci_devinst \<Rightarrow> nat \<Rightarrow> u64 \<Rightarrow> pci_devinst" where
  "set_bar_addr pi idx a = set_bar pi idx ((pi_bar pi idx)\<lparr>bar_addr := a\<rparr>)"

definition update_bar_address ::
    "pci_devinst \<Rightarrow> u64 \<Rightarrow> nat \<Rightarrow> pcibar_type \<Rightarrow> pci_mem \<Rightarrow> (pci_devinst \<times> pci_mem) res" where
  "update_bar_address pi addr idx type mem =
     bindE (if bar_type (pi_bar pi idx) = PCIBAR_IO then porten pi else memen pi) (\<lambda>decode.
     bindE (if decode then unregister_bar pi idx mem else Inr mem) (\<lambda>mem.
     bindE (let old = bar_addr (pi_bar pi idx) in
            case type of
              PCIBAR_IO \<Rightarrow> Inr (set_bar_addr pi idx addr)
            | PCIBAR_MEM32 \<Rightarrow> Inr (set_bar_addr pi idx addr)
            | PCIBAR_MEM64 \<Rightarrow> Inr (set_bar_addr pi idx ((old AND NOT 0xffffffff) OR addr))
            | PCIBAR_MEMHI64 \<Rightarrow> Inr (set_bar_addr pi idx ((old AND 0xffffffff) OR addr))
            | PCIBAR_NONE \<Rightarrow> Inl Assert_failed) (\<lambda>pi.
     bindE (if decode then register_bar pi idx mem else Inr mem) (\<lambda>mem.
     Inr (pi, mem)))))"

text \<open>Which cursor an allocation moves; \<open>Hostbase\<close> is the caller's own copy.\<close>

datatype cursor = No_cursor | Hostbase | Io_cursor | Mem32_cursor | Mem64_cursor

definition get_cursor :: "cursor \<Rightarrow> u64 \<Rightarrow> pci_cursors \<Rightarrow> u64" where
  "get_cursor c hostbase cs =
     (case c of No_cursor \<Rightarrow> 0 | Hostbase \<Rightarrow> hostbase | Io_cursor \<Rightarrow> pci_emul_iobase cs
      | Mem32_cursor \<Rightarrow> pci_emul_membase32 cs | Mem64_cursor \<Rightarrow> pci_emul_membase64 cs)"

definition put_cursor :: "cursor \<Rightarrow> u64 \<Rightarrow> pci_cursors \<Rightarrow> pci_cursors" where
  "put_cursor c v cs =
     (case c of No_cursor \<Rightarrow> cs | Hostbase \<Rightarrow> cs | Io_cursor \<Rightarrow> cs\<lparr>pci_emul_iobase := v\<rparr>
      | Mem32_cursor \<Rightarrow> cs\<lparr>pci_emul_membase32 := v\<rparr> | Mem64_cursor \<Rightarrow> cs\<lparr>pci_emul_membase64 := v\<rparr>)"

text \<open>The size an allocation really asks for: a power of two, at least the minimum.\<close>

definition bar_request_size :: "pcibar_type \<Rightarrow> u64 \<Rightarrow> u64 res" where
  "bar_request_size type sz =
     bindE (if sz AND (sz - 1) \<noteq> 0 then
              (if flsl (unat sz) < 64 then Inr (push_bit (flsl (unat sz)) 1) else Inl Undefined)
            else Inr sz) (\<lambda>sz.
     Inr (if type = PCIBAR_IO then (if sz < 4 then 4 else sz) else (if sz < 16 then 16 else sz)))"

text \<open>The \<open>switch\<close> of the allocation: cursor, limit, address mask, low bits.\<close>

definition bar_placement :: "pcibar_type \<Rightarrow> u64 \<Rightarrow> (cursor \<times> u64 \<times> u64 \<times> u64) res" where
  "bar_placement type sz =
     (case type of
        PCIBAR_NONE \<Rightarrow> Inr (No_cursor, 0, 0, 0)
      | PCIBAR_IO \<Rightarrow> Inr (Io_cursor, PCI_EMUL_IOLIMIT, PCIM_BAR_IO_BASE, PCIM_BAR_IO_SPACE)
      | PCIBAR_MEM64 \<Rightarrow>
          (if sz > 32 * 1024 * 1024 then
             Inr (if sz = 0x100000000 then Hostbase else Mem64_cursor, PCI_EMUL_MEMLIMIT64,
                  PCIM_BAR_MEM_BASE, PCIM_BAR_MEM_SPACE OR PCIM_BAR_MEM_64 OR PCIM_BAR_MEM_PREFETCH)
           else Inr (Mem32_cursor, PCI_EMUL_MEMLIMIT32, PCIM_BAR_MEM_BASE,
                     PCIM_BAR_MEM_SPACE OR PCIM_BAR_MEM_64))
      | PCIBAR_MEM32 \<Rightarrow>
          Inr (Mem32_cursor, PCI_EMUL_MEMLIMIT32, PCIM_BAR_MEM_BASE,
               PCIM_BAR_MEM_SPACE OR PCIM_BAR_MEM_32)
      | PCIBAR_MEMHI64 \<Rightarrow> Inl Assert_failed)"

definition pci_emul_alloc_pbar ::
    "pci_devinst \<Rightarrow> nat \<Rightarrow> u64 \<Rightarrow> pcibar_type \<Rightarrow> u64 \<Rightarrow> pci_cursors \<Rightarrow> pci_mem
     \<Rightarrow> (int \<times> pci_devinst \<times> pci_cursors \<times> pci_mem) res" where
  "pci_emul_alloc_pbar pdi0 idx hostbase type sz0 cs mem =
     bindE (assertE (idx \<le> PCI_BARMAX)) (\<lambda>_.
     bindE (bar_request_size type sz0) (\<lambda>sz.
     bindE (bar_placement type sz) (\<lambda>(cur, limit, msk, lobits).
     bindE (if cur \<noteq> No_cursor then pci_emul_alloc_resource (get_cursor cur hostbase cs) limit sz
            else Inr (0, 0, Some 0)) (\<lambda>(error, base, place).
     case place of
       None \<Rightarrow> Inr (error, pdi0, cs, mem)
     | Some addr \<Rightarrow>
         (let cs = put_cursor cur base cs;
              pdi = set_bar pdi0 idx \<lparr>bar_type = type, bar_size = sz, bar_addr = addr\<rparr>;
              bar = (addr AND msk) OR lobits
          in
          bindE (pci_set_cfgdata32 pdi (PCIR_BAR idx) (ucast bar)) (\<lambda>pdi.
          bindE (if type = PCIBAR_MEM64 then
                   bindE (assertE (idx + 1 \<le> PCI_BARMAX)) (\<lambda>_.
                   pci_set_cfgdata32
                     (set_bar pdi (idx + 1) ((pi_bar pdi (idx + 1))\<lparr>bar_type := PCIBAR_MEMHI64\<rparr>))
                     (PCIR_BAR (idx + 1)) (ucast (drop_bit 32 bar)))
                 else Inr pdi) (\<lambda>pdi.
          bindE (register_bar pdi idx mem) (\<lambda>mem.
          Inr (0, pdi, cs, mem)))))))))"

definition pci_emul_alloc_bar ::
    "pci_devinst \<Rightarrow> nat \<Rightarrow> pcibar_type \<Rightarrow> u64 \<Rightarrow> pci_cursors \<Rightarrow> pci_mem
     \<Rightarrow> (int \<times> pci_devinst \<times> pci_cursors \<times> pci_mem) res" where
  "pci_emul_alloc_bar pdi idx type sz cs mem = pci_emul_alloc_pbar pdi idx 0 type sz cs mem"

definition PBA_SIZE :: "nat \<Rightarrow> nat" where
  "PBA_SIZE msgnum = roundup2 msgnum 64 div 8"

text \<open>The result of the allocation is not checked by the caller.\<close>

definition pci_emul_add_msixcap ::
    "pci_devinst \<Rightarrow> nat \<Rightarrow> nat \<Rightarrow> pci_cursors \<Rightarrow> pci_mem
     \<Rightarrow> (int \<times> pci_devinst \<times> pci_cursors \<times> pci_mem) res" where
  "pci_emul_add_msixcap pi0 msgnum barnum cs mem =
     bindE (assertE (msgnum \<ge> 1 \<and> msgnum \<le> MAX_MSIX_TABLE_ENTRIES)) (\<lambda>_.
     bindE (assertE (barnum \<le> PCI_BARMAX)) (\<lambda>_.
     let tab_size = roundup2 (msgnum * MSIX_TABLE_ENTRY_SIZE) 4096;
         pi = pi0\<lparr>msix := (msix pi0)\<lparr>msix_table_bar := int barnum, msix_pba_bar := int barnum,
           msix_table_offset := 0, msix_table_count := msgnum, msix_pba_offset := of_nat tab_size,
           msix_pba_size := PBA_SIZE msgnum\<rparr>\<rparr>
     in
     bindE (pci_msix_table_init pi msgnum) (\<lambda>pi.
     bindE (pci_populate_msixcap msgnum barnum (of_nat tab_size)) (\<lambda>msixcap.
     bindE (pci_emul_alloc_bar pi barnum PCIBAR_MEM32
              (of_nat (tab_size + msix_pba_size (msix pi))) cs mem) (\<lambda>(_, pi, cs, mem).
     bindE (pci_emul_add_capability pi msixcap) (\<lambda>(error, pi).
     Inr (error, pi, cs, mem)))))))"

section \<open>Accesses through a BAR\<close>

text \<open>
  A device emulation: its name and the functions \<open>struct pci_devemu\<close> points to,
  on the instance and the rest \<open>'d\<close> of the state. A missing callback is \<open>None\<close>.
\<close>

record 'd pci_devemu =
  pe_emu :: string
  pe_init :: "string option \<Rightarrow> pci_devinst \<times> 'd \<Rightarrow> (int \<times> pci_devinst \<times> 'd) res"
  pe_cfgwrite :: "(nat \<Rightarrow> nat \<Rightarrow> u32 \<Rightarrow> pci_devinst \<times> 'd \<Rightarrow> (int \<times> pci_devinst \<times> 'd) res) option"
  pe_cfgread :: "(nat \<Rightarrow> nat \<Rightarrow> u32 \<Rightarrow> pci_devinst \<times> 'd \<Rightarrow> (int \<times> u32 \<times> pci_devinst \<times> 'd) res) option"
  pe_barwrite :: "nat \<Rightarrow> u64 \<Rightarrow> nat \<Rightarrow> u64 \<Rightarrow> pci_devinst \<times> 'd \<Rightarrow> (pci_devinst \<times> 'd) res"
  pe_barread :: "nat \<Rightarrow> u64 \<Rightarrow> nat \<Rightarrow> pci_devinst \<times> 'd \<Rightarrow> (u64 \<times> pci_devinst \<times> 'd) res"

definition io_bar_hit :: "pci_devinst \<Rightarrow> u64 \<Rightarrow> nat \<Rightarrow> nat \<Rightarrow> bool" where
  "io_bar_hit pdi port bytes i \<longleftrightarrow>
     bar_type (pi_bar pdi i) = PCIBAR_IO \<and> port \<ge> bar_addr (pi_bar pdi i) \<and>
     port + of_nat bytes \<le> bar_addr (pi_bar pdi i) + bar_size (pi_bar pdi i)"

definition pci_emul_io_handler ::
    "'d pci_devemu \<Rightarrow> bool \<Rightarrow> u64 \<Rightarrow> nat \<Rightarrow> u32 \<Rightarrow> pci_devinst \<times> 'd
     \<Rightarrow> (int \<times> u32 \<times> pci_devinst \<times> 'd) res" where
  "pci_emul_io_handler pe rd port bytes eax s =
     (case find (io_bar_hit (fst s) port bytes) [0..<PCI_BARMAX + 1] of
        None \<Rightarrow> Inr (-1, eax, s)
      | Some i \<Rightarrow>
          (let offset = port - bar_addr (pi_bar (fst s) i) in
           if rd then bindE (pe_barread pe i offset bytes s) (\<lambda>(v, s). Inr (0, ucast v, s))
           else bindE (pe_barwrite pe i offset bytes (ucast eax) s) (\<lambda>s. Inr (0, eax, s))))"

definition pci_emul_mem_handler ::
    "'d pci_devemu \<Rightarrow> nat \<Rightarrow> u64 \<Rightarrow> nat \<Rightarrow> u64 \<Rightarrow> nat \<Rightarrow> pci_devinst \<times> 'd
     \<Rightarrow> (int \<times> u64 \<times> pci_devinst \<times> 'd) res" where
  "pci_emul_mem_handler pe dir addr sz val bidx s =
     (let b = pi_bar (fst s) bidx in
      bindE (assertE (bidx \<le> PCI_BARMAX)) (\<lambda>_.
      bindE (assertE (bar_type b = PCIBAR_MEM32 \<or> bar_type b = PCIBAR_MEM64)) (\<lambda>_.
      bindE (assertE (addr \<ge> bar_addr b \<and> addr + of_nat sz \<le> bar_addr b + bar_size b)) (\<lambda>_.
      let offset = addr - bar_addr b in
      if dir = MEM_F_WRITE then
        (if sz = 8 then
           bindE (pe_barwrite pe bidx offset 4 (val AND 0xffffffff) s) (\<lambda>s.
           bindE (pe_barwrite pe bidx (offset + 4) 4 (drop_bit 32 val) s) (\<lambda>s. Inr (0, val, s)))
         else bindE (pe_barwrite pe bidx offset sz val s) (\<lambda>s. Inr (0, val, s)))
      else
        (if sz = 8 then
           bindE (pe_barread pe bidx offset 4 s) (\<lambda>(lo, s).
           bindE (pe_barread pe bidx (offset + 4) 4 s) (\<lambda>(hi, s).
           Inr (0, lo OR push_bit 32 hi, s)))
         else bindE (pe_barread pe bidx offset sz s) (\<lambda>(v, s). Inr (0, v, s)))))))"


section \<open>Allocation\<close>

lemma roundup2w_eq:
  assumes "k < 64" "unat x + 2 ^ k < 2 ^ 64"
  shows "unat (roundup2w x (push_bit k 1)) = roundup2 (unat x) (2 ^ k)"
proof -
  have "unat (mask k :: u64) = 2 ^ k - 1"
    using assms(1) unat_pow2 [OF assms(1)] by (simp add: pow2_minus_1 [symmetric] unat_minus_one)
  then have "unat (x + mask k) = unat x + (2 ^ k - 1)"
    using assms(2) by (subst unat_add_64) simp_all
  then show ?thesis
    unfolding roundup2w_def pow2_minus_1 unat_and_not_mask roundup2_def by simp
qed

lemma alloc_resource_eq:
  assumes "k < 63" "unat cur < 2 ^ 62"
  shows "pci_emul_alloc_resource cur limit (push_bit k 1) =
    Inr (let base = roundup2w cur (push_bit k 1) in
         if base + push_bit k 1 \<le> limit then (0, base + push_bit k 1, Some base)
         else (-1, cur, None))"
  using pow2_and_mask [of k] pow2_minus_1 [of k]
  by (simp add: pci_emul_alloc_resource_def Let_def)

text \<open>What one allocation does to the cursor, in terms of natural numbers.\<close>

lemma alloc_resource_bounds:
  assumes "k < 63" "unat cur < 2 ^ 62"
    and "pci_emul_alloc_resource cur limit (push_bit k 1) = Inr (err, cur', place)"
  shows "case place of
      None \<Rightarrow> err = -1 \<and> cur' = cur \<and> unat limit < roundup2 (unat cur) (2 ^ k) + 2 ^ k
    | Some a \<Rightarrow> err = 0 \<and> 2 ^ k dvd unat a \<and> unat cur \<le> unat a \<and> unat a < unat cur + 2 ^ k \<and>
        unat cur' = unat a + 2 ^ k \<and> unat cur' \<le> unat limit"
proof -
  have "(2 :: nat) ^ k \<le> 2 ^ 62" using assms(1) by (intro power_increasing) simp_all
  then have le: "unat cur + 2 ^ k + 2 ^ k < 2 ^ 64" using assms(2) by simp
  have k: "k < 64" using assms(1) by simp
  let ?b = "roundup2w cur (push_bit k 1)"
  have b: "unat ?b = roundup2 (unat cur) (2 ^ k)"
    using le k by (intro roundup2w_eq) simp_all
  have up: "unat cur \<le> unat ?b" "unat ?b < unat cur + 2 ^ k" "2 ^ k dvd unat ?b"
    unfolding b by (simp_all add: roundup2_ge roundup2_less)
  have s: "unat (?b + push_bit k 1) = unat ?b + 2 ^ k"
    using unat_add_64 [of ?b "push_bit k 1"] le up(2) unat_pow2 [OF k] by linarith
  show ?thesis
    using assms(3) up s b unfolding alloc_resource_eq [OF assms(1,2)] Let_def
    by (auto simp: word_le_nat_alt split: if_splits)
qed

text \<open>A run of allocations from one cursor under one limit; the sizes are exponents.\<close>

fun alloc_run :: "u64 \<Rightarrow> u64 \<Rightarrow> nat list \<Rightarrow> (u64 \<times> u64 option list) res" where
  "alloc_run cur limit [] = Inr (cur, [])"
| "alloc_run cur limit (k # ks) =
     bindE (pci_emul_alloc_resource cur limit (push_bit k 1)) (\<lambda>(_, cur, place).
     bindE (alloc_run cur limit ks) (\<lambda>(cur, places). Inr (cur, place # places)))"

text \<open>The regions handed out: base and length.\<close>

definition regions :: "nat list \<Rightarrow> u64 option list \<Rightarrow> (nat \<times> nat) list" where
  "regions ks places =
     map (\<lambda>(k, p). (unat (the p), 2 ^ k)) (filter (\<lambda>(k, p). p \<noteq> None) (zip ks places))"

lemma alloc_run_regions:
  assumes "\<forall>k\<in>set ks. k < 63" "unat cur < 2 ^ 62" "unat limit < 2 ^ 62"
    and "alloc_run cur limit ks = Inr (cur', places)"
  shows "unat cur \<le> unat cur' \<and> unat cur' < 2 ^ 62 \<and> (unat cur \<le> unat limit \<longrightarrow> unat cur' \<le> unat limit) \<and>
    sorted_wrt (\<lambda>(b, n) (b', n'). b + n \<le> b') (regions ks places) \<and>
    (\<forall>(b, n)\<in>set (regions ks places). n dvd b \<and> unat cur \<le> b \<and> b + n \<le> unat cur' \<and> b + n \<le> unat limit)"
  using assms
proof (induction ks arbitrary: cur places)
  case Nil
  then show ?case by (simp add: regions_def)
next
  case (Cons k ks)
  obtain err c1 place ps where r: "pci_emul_alloc_resource cur limit (push_bit k 1) = Inr (err, c1, place)"
      "alloc_run c1 limit ks = Inr (cur', ps)" "places = place # ps"
    using Cons.prems(4) by (auto simp: bindE_Inr)
  have st: "case place of None \<Rightarrow> c1 = cur
      | Some a \<Rightarrow> 2 ^ k dvd unat a \<and> unat cur \<le> unat a \<and> unat c1 = unat a + 2 ^ k \<and> unat c1 \<le> unat limit"
    using alloc_resource_bounds [OF _ Cons.prems(2) r(1)] Cons.prems(1) by (auto split: option.splits)
  have c1: "unat cur \<le> unat c1" "unat c1 < 2 ^ 62" "unat cur \<le> unat limit \<longrightarrow> unat c1 \<le> unat limit"
    using st Cons.prems(2,3) by (auto split: option.splits)
  have ih: "unat c1 \<le> unat cur'" "unat cur' < 2 ^ 62" "unat c1 \<le> unat limit \<longrightarrow> unat cur' \<le> unat limit"
    "sorted_wrt (\<lambda>(b, n) (b', n'). b + n \<le> b') (regions ks ps)"
    "\<forall>(b, n)\<in>set (regions ks ps). n dvd b \<and> unat c1 \<le> b \<and> b + n \<le> unat cur' \<and> b + n \<le> unat limit"
    using Cons.IH [OF _ c1(2) Cons.prems(3) r(2)] Cons.prems(1) by auto
  have later: "\<forall>(b, n)\<in>set (regions ks ps). n dvd b \<and> unat cur \<le> b \<and> b + n \<le> unat cur' \<and> b + n \<le> unat limit"
    using ih(5) c1(1) by fastforce
  show ?case
  proof (cases place)
    case None
    then have "regions (k # ks) places = regions ks ps" by (simp add: regions_def r(3))
    then show ?thesis using ih later c1 by auto
  next
    case (Some a)
    then have "regions (k # ks) places = (unat a, 2 ^ k) # regions ks ps" by (simp add: regions_def r(3))
    then show ?thesis using ih later c1 st Some by fastforce
  qed
qed

section \<open>Registration of a memory BAR\<close>

definition is_mem_bar :: "pci_devinst \<Rightarrow> nat \<Rightarrow> bool" where
  "is_mem_bar pi idx \<longleftrightarrow> bar_type (pi_bar pi idx) = PCIBAR_MEM32 \<or> bar_type (pi_bar pi idx) = PCIBAR_MEM64"

definition decoding :: "pci_devinst \<Rightarrow> bool" where
  "decoding pi \<longleftrightarrow> load16 (pi_cfgdata pi) PCIR_COMMAND AND PCIM_CMD_MEMEN \<noteq> 0"

lemma memen_eq [simp]: "memen pi = Inr (decoding pi)"
  by (simp add: memen_def decoding_def)

text \<open>The removal compares the name, the base and the size only.\<close>

lemma unregister_mem_key: "unregister_mem mem (r\<lparr>mr_flags := f, mr_handler := h\<rparr>) = unregister_mem mem r"
  by (simp add: unregister_mem_def Let_def split: sum.split)

lemma register_bar_mem:
  "is_mem_bar pi idx \<Longrightarrow> register_mem mem (bar_range pi idx) = (err, mem') \<Longrightarrow>
   register_bar pi idx mem = (if err = 0 then Inr mem' else Inl Assert_failed)"
  by (auto simp: register_bar_def modify_bar_registration_def is_mem_bar_def bind_assertE)

lemma unregister_bar_mem:
  assumes "is_mem_bar pi idx"
  shows "unregister_bar pi idx mem =
    bindE (unregister_mem mem (bar_range pi idx)) (\<lambda>(err, mem').
      if err = 0 then Inr mem' else Inl Assert_failed)"
proof -
  have "modify_bar_registration pi idx False mem =
    bindE (unregister_mem mem ((bar_range pi idx)\<lparr>mr_flags := 0, mr_handler := Null_handler\<rparr>)) (\<lambda>(error, mem).
      bindE (assertE (error = 0)) (\<lambda>_. Inr mem))"
    using assms by (auto simp: modify_bar_registration_def is_mem_bar_def)
  then show ?thesis
    unfolding unregister_bar_def unregister_mem_key by (simp add: bind_assertE)
qed

lemma bar_removable [simp]: "removable (bar_range pi idx)"
  by (simp add: removable_def bar_range_def MEM_F_RW_def MEM_F_IMMUTABLE_def)

lemma set_bar_addr_sel [simp]:
  "pi_cfgdata (set_bar_addr pi idx a) = pi_cfgdata pi"
  "bar_type (pi_bar (set_bar_addr pi idx a) i) = bar_type (pi_bar pi i)"
  "bar_size (pi_bar (set_bar_addr pi idx a) i) = bar_size (pi_bar pi i)"
  "bar_addr (pi_bar (set_bar_addr pi idx a) idx) = a"
  "pi_bdf (set_bar_addr pi idx a) = pi_bdf pi"
  "is_mem_bar (set_bar_addr pi idx a) i = is_mem_bar pi i"
  "decoding (set_bar_addr pi idx a) = decoding pi"
  by (simp_all add: set_bar_addr_def set_bar_def pi_bdf_def is_mem_bar_def decoding_def)

text \<open>The address a write of the given kind gives the BAR.\<close>

definition bar_target :: "pcibar_type \<Rightarrow> u64 \<Rightarrow> u64 \<Rightarrow> u64" where
  "bar_target type old addr =
     (case type of
        PCIBAR_MEM64 \<Rightarrow> (old AND NOT 0xffffffff) OR addr
      | PCIBAR_MEMHI64 \<Rightarrow> (old AND 0xffffffff) OR addr
      | _ \<Rightarrow> addr)"

definition moved_bar :: "pci_devinst \<Rightarrow> u64 \<Rightarrow> nat \<Rightarrow> pcibar_type \<Rightarrow> pci_devinst" where
  "moved_bar pi addr idx type = set_bar_addr pi idx (bar_target type (bar_addr (pi_bar pi idx)) addr)"

lemma update_bar_mem:
  assumes "is_mem_bar pi idx" "type \<noteq> PCIBAR_NONE"
  shows "update_bar_address pi addr idx type mem =
    bindE (if decoding pi then unregister_bar pi idx mem else Inr mem) (\<lambda>mem.
    bindE (if decoding pi then register_bar (moved_bar pi addr idx type) idx mem else Inr mem) (\<lambda>mem.
    Inr (moved_bar pi addr idx type, mem)))"
proof -
  have "bar_type (pi_bar pi idx) \<noteq> PCIBAR_IO" using assms(1) by (auto simp: is_mem_bar_def)
  then show ?thesis
    using assms(2)
    by (cases type) (simp_all add: update_bar_address_def moved_bar_def bar_target_def Let_def)
qed

text \<open>C21: However many resources are allocated from one cursor under one limit, both below \<open>2 ^ 62\<close> as the
  windows of the program are, with sizes that are powers of two below \<open>2 ^ 63\<close>, in any order, every allocation returns, the regions
  handed out are naturally aligned, lie between the cursor's start and the
  limit, and are pairwise disjoint (each ends before the next one begins).\<close>

theorem allocations_disjoint:
  assumes "\<forall>k\<in>set ks. k < 63" "unat cur < 2 ^ 62" "unat limit < 2 ^ 62"
  shows "\<exists>cur' places. alloc_run cur limit ks = Inr (cur', places) \<and> length places = length ks \<and>
    sorted_wrt (\<lambda>(b, n) (b', n'). b + n \<le> b') (regions ks places) \<and>
    (\<forall>(b, n)\<in>set (regions ks places). n dvd b \<and> unat cur \<le> b \<and> b + n \<le> unat cur' \<and> b + n \<le> unat limit)"
proof -
  have "\<exists>cur' places. alloc_run cur limit ks = Inr (cur', places) \<and> length places = length ks"
    using assms
  proof (induction ks arbitrary: cur)
    case (Cons k ks)
    obtain e c p where a: "pci_emul_alloc_resource cur limit (push_bit k 1) = Inr (e, c, p)"
      using alloc_resource_eq [of k cur limit] Cons.prems by (auto simp: Let_def split: if_splits)
    have "unat c < 2 ^ 62"
      using alloc_resource_bounds [OF _ Cons.prems(2) a] Cons.prems by (auto split: option.splits)
    then obtain c' ps where "alloc_run c limit ks = Inr (c', ps)" "length ps = length ks"
      using Cons.IH [of c] Cons.prems(1,3) by auto
    then show ?case using a by simp
  qed simp
  then show ?thesis using alloc_run_regions [OF assms] by fast
qed

theorem allocations_disjoint_witness:
  "\<exists>cur' places. alloc_run 0x2000 0x10000 [4, 12, 3] = Inr (cur', places) \<and> length places = 3"
  using allocations_disjoint [of "[4, 12, 3]" "0x2000" "0x10000"] by auto

text \<open>The bound on the sizes is needed: the sum of base and size is not checked for wrapping, so the largest power of two
  is handed out above every limit, and the cursor goes back to 0.\<close>

theorem largest_size_wraps:
  assumes "0 < unat cur" "unat cur \<le> 2 ^ 63"
  shows "pci_emul_alloc_resource cur limit (push_bit 63 1) = Inr (0, 0, Some (push_bit 63 1))"
proof -
  have "unat (mask 63 :: u64) = 2 ^ 63 - 1"
    using unat_pow2 [of 63] by (simp add: pow2_minus_1 [symmetric] unat_minus_one)
  then have "unat (cur + mask 63) = unat cur + (2 ^ 63 - 1)"
    using assms(2) by (subst unat_add_64) simp_all
  then have "unat (roundup2w cur (push_bit 63 1)) = (unat cur + (2 ^ 63 - 1)) div 2 ^ 63 * 2 ^ 63"
    unfolding roundup2w_def pow2_minus_1 unat_and_not_mask by (simp only:)
  moreover have "(unat cur + (2 ^ 63 - 1)) div 2 ^ 63 = 1" using assms by (intro div_nat_eqI) simp_all
  ultimately have "unat (roundup2w cur (push_bit 63 1)) = unat (push_bit 63 1 :: u64)"
    using unat_pow2 [of 63] by simp
  then have b: "roundup2w cur (push_bit 63 1) = push_bit 63 1" by (rule unsigned_word_eqI)
  have "(push_bit 63 1 :: u64) + push_bit 63 1 = 0" by simp
  then show ?thesis using pow2_and_mask [of 63] pow2_minus_1 [of 63] b
    by (simp add: pci_emul_alloc_resource_def Let_def del: push_bit_of_1)
qed

theorem largest_size_wraps_witness:
  "pci_emul_alloc_resource 0x2000 0x10000 (push_bit 63 1) = Inr (0, 0, Some (push_bit 63 1))"
  using largest_size_wraps [of "0x2000" "0x10000"] by (simp del: push_bit_of_1)

text \<open>C19: Moving a memory BAR. If the guest has decoding enabled, the BAR is registered at its recorded address and the
  new place is free (or its own), then afterwards the addresses of the new place are handled by this device and BAR, those of
  the old place by nobody, and all others as before. If decoding is disabled then, whatever is registered,
  only the recorded address changes.\<close>

theorem update_bar_moves_decoding:
  assumes "is_mem_bar pi idx" "type \<noteq> PCIBAR_NONE"
    and "decoding pi \<Longrightarrow> mem_inv mem \<and> malloc_ok mem \<and> range_at mem (bar_addr (pi_bar pi idx)) = Some (bar_range pi idx)"
    and "decoding pi \<Longrightarrow> proper_range (bar_range (moved_bar pi addr idx type) idx)"
    and "\<And>a. decoding pi \<Longrightarrow> covers (bar_range (moved_bar pi addr idx type) idx) a \<Longrightarrow>
      range_at mem a = None \<or> range_at mem a = Some (bar_range pi idx)"
  shows "\<exists>mem'. update_bar_address pi addr idx type mem = Inr (moved_bar pi addr idx type, mem') \<and>
    (if decoding pi then mem_inv mem' \<and>
       (\<forall>a. range_at mem' a =
          (if covers (bar_range (moved_bar pi addr idx type) idx) a
           then Some (bar_range (moved_bar pi addr idx type) idx)
           else if covers (bar_range pi idx) a then None else range_at mem a))
     else mem' = mem)"
proof (cases "decoding pi")
  case False
  then show ?thesis using update_bar_mem [OF assms(1,2)] by simp
next
  case True
  define pj where "pj = moved_bar pi addr idx type"
  have "mr_rbase (bar_range pi idx) = bar_addr (pi_bar pi idx)" by (simp add: bar_range_def)
  then obtain s1 s2 where m: "unregister_mem mem (bar_range pi idx) = Inr (0, s1)"
      "register_mem s1 (bar_range pj idx) = (0, s2)" "mem_inv s2"
      "\<forall>a. range_at s2 a = (if covers (bar_range pj idx) a then Some (bar_range pj idx)
         else if covers (bar_range pi idx) a then None else range_at mem a)"
    using mmio.move [of mem "bar_range pi idx" "bar_range pj idx"] assms(3-5) True unfolding pj_def by auto
  have "is_mem_bar pj idx" using assms(1) by (simp add: pj_def moved_bar_def)
  then have "update_bar_address pi addr idx type mem = Inr (pj, s2)"
    using True m(1) register_bar_mem [OF _ m(2)]
    unfolding update_bar_mem [OF assms(1,2)] unregister_bar_mem [OF assms(1)] pj_def [symmetric] by simp
  then show ?thesis using True m(3,4) unfolding pj_def by auto
qed

definition wit_bar :: pci_devinst where
  "wit_bar = set_bar (wit_devinst\<lparr>pi_cfgdata := (\<lambda>_. 0)(5 := 2)\<rparr>) 0
     \<lparr>bar_type = PCIBAR_MEM32, bar_size = 0x20000, bar_addr = 0xfdb20000\<rparr>"

definition wit_bar_mem :: pci_mem where
  "wit_bar_mem = \<lparr>mmio_rb_root = [new_range (bar_range wit_bar 0)], mmio_rb_fallback = [],
     mmio_hint = None, malloc_ok = True\<rparr>"

lemma wit_bar_range: "bar_range wit_bar 0 =
    \<lparr>mr_name = PiName (0, 0, 0), mr_flags = MEM_F_RW, mr_handler = Pci_emul_mem_handler (0, 0, 0) 0,
     mr_rbase = 0xfdb20000, mr_rsize = 0x20000\<rparr>"
  by (simp add: bar_range_def wit_bar_def set_bar_def pi_bdf_def wit_devinst_def)

lemma wit_bar_facts: "is_mem_bar wit_bar 0" "decoding wit_bar" "mem_inv wit_bar_mem"
  "range_at wit_bar_mem a = (if covers (bar_range wit_bar 0) a then Some (bar_range wit_bar 0) else None)"
proof -
  have "proper_range (bar_range wit_bar 0)" by (simp add: wit_bar_range proper_range_def)
  then show "mem_inv wit_bar_mem"
    by (simp add: mem_inv_def wit_bar_mem_def tree_ok_def entry_ok_new_range)
  show "is_mem_bar wit_bar 0" by (simp add: is_mem_bar_def wit_bar_def set_bar_def)
  have "load16 (pi_cfgdata wit_bar) 4 = 2"
    by (simp add: wit_bar_def set_bar_def load16_def word_cat_0_left)
  then show "decoding wit_bar" by (simp add: decoding_def)
  show "range_at wit_bar_mem a =
      (if covers (bar_range wit_bar 0) a then Some (bar_range wit_bar 0) else None)"
    by (simp add: range_at_def wit_bar_mem_def)
qed

lemma wit_bar_moved: "bar_range (moved_bar wit_bar 0xfdb40000 0 PCIBAR_MEM32) 0 =
    (bar_range wit_bar 0)\<lparr>mr_rbase := 0xfdb40000\<rparr>"
  by (simp add: moved_bar_def bar_target_def set_bar_addr_def bar_range_def set_bar_def pi_bdf_def)

theorem update_bar_moves_decoding_witness:
  "\<exists>mem'. update_bar_address wit_bar 0xfdb40000 0 PCIBAR_MEM32 wit_bar_mem =
       Inr (moved_bar wit_bar 0xfdb40000 0 PCIBAR_MEM32, mem') \<and>
     range_at mem' 0xfdb20000 = None \<and>
     range_at mem' 0xfdb40004 = Some (bar_range (moved_bar wit_bar 0xfdb40000 0 PCIBAR_MEM32) 0)"
proof -
  have "range_at wit_bar_mem (bar_addr (pi_bar wit_bar 0)) = Some (bar_range wit_bar 0)"
    "proper_range (bar_range (moved_bar wit_bar 0xfdb40000 0 PCIBAR_MEM32) 0)" "malloc_ok wit_bar_mem"
    by (simp_all add: wit_bar_facts covers_def wit_bar_range wit_bar_moved proper_range_def)
      (simp_all add: wit_bar_def set_bar_def wit_bar_mem_def)
  moreover have "range_at wit_bar_mem a = None \<or> range_at wit_bar_mem a = Some (bar_range wit_bar 0)" for a
    by (simp add: wit_bar_facts)
  ultimately obtain mem' where m: "update_bar_address wit_bar 0xfdb40000 0 PCIBAR_MEM32 wit_bar_mem =
       Inr (moved_bar wit_bar 0xfdb40000 0 PCIBAR_MEM32, mem')"
      "\<forall>a. range_at mem' a =
          (if covers ((bar_range wit_bar 0)\<lparr>mr_rbase := 0xfdb40000\<rparr>) a
           then Some ((bar_range wit_bar 0)\<lparr>mr_rbase := 0xfdb40000\<rparr>)
           else if covers (bar_range wit_bar 0) a then None else range_at wit_bar_mem a)"
    using update_bar_moves_decoding [OF wit_bar_facts(1), of PCIBAR_MEM32 wit_bar_mem "0xfdb40000"]
      wit_bar_facts(2,3) unfolding wit_bar_moved by auto
  then show ?thesis
    by (intro exI [of _ mem']) (simp add: wit_bar_moved, simp add: covers_def wit_bar_range)
qed

text \<open>A guest can move a memory BAR onto an address that another device
  decodes: the move is accepted although nothing is registered for the BAR
  (\<open>register_mem\<close> reports success for a base that is taken), and the next time the
  guest moves the BAR, wherever to, the program stops at the assertion of
  \<open>unregister_mem\<close>.\<close>

theorem bar_overlap_stops_later:
  assumes "is_mem_bar pi idx" "type \<noteq> PCIBAR_NONE" "decoding pi" "mem_inv mem" "malloc_ok mem"
    and "range_at mem (bar_addr (pi_bar pi idx)) = Some (bar_range pi idx)"
    and "range_at mem (bar_addr (pi_bar (moved_bar pi addr idx type) idx)) = Some other"
    and "mr_name other \<noteq> PiName (pi_bdf pi)" "type2 \<noteq> PCIBAR_NONE"
  shows "\<exists>mem'. update_bar_address pi addr idx type mem = Inr (moved_bar pi addr idx type, mem') \<and>
    range_at mem' (bar_addr (pi_bar (moved_bar pi addr idx type) idx)) = Some other \<and>
    update_bar_address (moved_bar pi addr idx type) addr2 idx type2 mem' = Inl Assert_failed"
proof -
  define pj where "pj = moved_bar pi addr idx type"
  have pj: "is_mem_bar pj idx" "decoding pj" "pi_bdf pj = pi_bdf pi"
    using assms(1,3) by (simp_all add: pj_def moved_bar_def)
  have base: "mr_rbase (bar_range p idx) = bar_addr (pi_bar p idx)"
    "mr_name (bar_range p idx) = PiName (pi_bdf p)" for p
    by (simp_all add: bar_range_def)
  obtain s1 where s1: "unregister_mem mem (bar_range pi idx) = Inr (0, s1)" "mem_inv s1" "malloc_ok s1"
      "\<forall>a. range_at s1 a = (if covers (bar_range pi idx) a then None else range_at mem a)"
    using mmio.unreg_found [of mem "bar_range pi idx"] assms(4-6) base by auto
  have "\<not> covers (bar_range pi idx) (bar_addr (pi_bar pj idx))"
    using assms(4,6-8) base unfolding pj_def [symmetric] by (metis option.inject range_at_iff)
  then have at: "range_at s1 (bar_addr (pi_bar pj idx)) = Some other"
    using s1(4) assms(7) by (simp add: pj_def)
  then have "register_mem s1 (bar_range pj idx) = (0, s1)"
    using s1(3) lookup_root [OF s1(2), of "bar_addr (pi_bar pj idx)"] base
    by (simp add: register_mem_def register_mem_int_def)
  then have "update_bar_address pi addr idx type mem = Inr (pj, s1)"
    using assms(3) s1(1) register_bar_mem [OF pj(1)]
    unfolding update_bar_mem [OF assms(1,2)] unregister_bar_mem [OF assms(1)] pj_def [symmetric] by simp
  moreover have "unregister_mem s1 (bar_range pj idx) = Inl Assert_failed"
    using at lookup_root [OF s1(2), of "bar_addr (pi_bar pj idx)"] base pj(3) assms(8)
    by (simp add: unregister_mem_def)
  then have "update_bar_address pj addr2 idx type2 s1 = Inl Assert_failed"
    using pj(2) unfolding update_bar_mem [OF pj(1) assms(9)] unregister_bar_mem [OF pj(1)] by simp
  ultimately show ?thesis using at unfolding pj_def by blast
qed

text \<open>The other device of the witness sits at the new place.\<close>

definition wit_other :: pci_range where
  "wit_other = \<lparr>mr_name = PiName (0, 1, 0), mr_flags = MEM_F_RW,
     mr_handler = Pci_emul_mem_handler (0, 1, 0) 5, mr_rbase = 0xfdb40000, mr_rsize = 0x1000\<rparr>"

definition wit_two_mem :: pci_mem where
  "wit_two_mem = wit_bar_mem\<lparr>mmio_rb_root := [new_range (bar_range wit_bar 0), new_range wit_other]\<rparr>"

lemma wit_two_inv: "mem_inv wit_two_mem"
proof -
  have "proper_range (bar_range wit_bar 0)" "proper_range wit_other"
    by (simp_all add: wit_bar_range wit_other_def proper_range_def)
  moreover have "mr_end (new_range (bar_range wit_bar 0)) < mr_base (new_range wit_other)"
    by (simp add: new_range_def wit_bar_range wit_other_def)
  ultimately show ?thesis
    by (simp add: mem_inv_def wit_two_mem_def wit_bar_mem_def tree_ok_def entry_ok_new_range)
qed

theorem bar_overlap_stops_later_witness:
  "\<exists>mem'. update_bar_address wit_bar 0xfdb40000 0 PCIBAR_MEM32 wit_two_mem =
       Inr (moved_bar wit_bar 0xfdb40000 0 PCIBAR_MEM32, mem') \<and>
     update_bar_address (moved_bar wit_bar 0xfdb40000 0 PCIBAR_MEM32) 0xfdb80000 0 PCIBAR_MEM32 mem' =
       Inl Assert_failed"
proof -
  have addr: "bar_addr (pi_bar wit_bar 0) = 0xfdb20000"
      "bar_addr (pi_bar (moved_bar wit_bar 0xfdb40000 0 PCIBAR_MEM32) 0) = 0xfdb40000"
    by (simp_all add: moved_bar_def bar_target_def) (simp add: wit_bar_def set_bar_def)
  have "range_at wit_two_mem 0xfdb20000 = Some (bar_range wit_bar 0)"
      "range_at wit_two_mem 0xfdb40000 = Some wit_other"
    by (simp_all add: range_at_def wit_two_mem_def covers_def wit_bar_range)
      (simp add: wit_other_def)
  moreover have "malloc_ok wit_two_mem" "mr_name wit_other \<noteq> PiName (pi_bdf wit_bar)"
    by (simp_all add: wit_two_mem_def wit_bar_mem_def wit_other_def wit_bar_def set_bar_def
        pi_bdf_def wit_devinst_def)
  ultimately show ?thesis
    using bar_overlap_stops_later [OF wit_bar_facts(1) _ wit_bar_facts(2) wit_two_inv, of PCIBAR_MEM32
        "0xfdb40000" wit_other PCIBAR_MEM32 "0xfdb80000"] addr
    by auto
qed

end
