(* ===== verification/Pci_Emul.thy ===== *)
theory Pci_Emul
  imports Pci_Bar
begin

text \<open>
  The PCI bus of \<open>bhyve/pci_emul.c\<close>: the tables of buses, slots and functions,
  the creation of the devices, the routing of their interrupt pins, and every
  access to configuration space (\<open>pci_cfgrw\<close> with its special registers, the
  two configuration ports and the memory-mapped window).
\<close>

section \<open>The tables\<close>

record intxinfo =
  ii_count :: nat
  ii_pirq_pin :: int
  ii_ioapic_irq :: int

record funcinfo =
  fi_name :: "string option"
  fi_param :: "string option"
  fi_devi :: "pci_devinst option"

record slotinfo =
  si_intpins :: "nat \<Rightarrow> intxinfo"
  si_funcs :: "nat \<Rightarrow> funcinfo"

record businfo =
  bi_iobase :: u16
  bi_iolimit :: u16
  bi_membase32 :: u32
  bi_memlimit32 :: u32
  bi_membase64 :: u64
  bi_memlimit64 :: u64
  bi_slots :: "nat \<Rightarrow> slotinfo"

text \<open>The latch of the configuration address port.\<close>

record cfg_latch =
  cfgenable :: bool
  cfgbus :: nat
  cfgslot :: nat
  cfgfunc :: nat
  cfgoff :: nat

text \<open>
  The state of the file and of the parts it calls; the device emulations
  extend the record with their own state.
\<close>

record pci_world =
  pci_businfo :: "nat \<Rightarrow> businfo option"
  w_cursors :: pci_cursors
  w_mem :: pci_mem
  w_pic :: pic_log
  w_latch :: cfg_latch

type_synonym 'a world_emu = "'a pci_world_scheme pci_devemu"

definition get_func :: "'a pci_world_scheme \<Rightarrow> bdf \<Rightarrow> funcinfo option" where
  "get_func w b =
     (case b of (bus, slot, func) \<Rightarrow>
        map_option (\<lambda>bi. si_funcs (bi_slots bi slot) func) (pci_businfo w bus))"

definition map_slot :: "nat \<Rightarrow> nat \<Rightarrow> (slotinfo \<Rightarrow> slotinfo) \<Rightarrow> 'a pci_world_scheme \<Rightarrow> 'a pci_world_scheme" where
  "map_slot bus slot f w =
     w\<lparr>pci_businfo := (pci_businfo w)(bus := map_option (\<lambda>bi.
        bi\<lparr>bi_slots := (bi_slots bi)(slot := f (bi_slots bi slot))\<rparr>) (pci_businfo w bus))\<rparr>"

text \<open>Storing the instance back behind its \<open>fi_devi\<close> pointer.\<close>

definition put_devi :: "bdf \<Rightarrow> pci_devinst option \<Rightarrow> 'a pci_world_scheme \<Rightarrow> 'a pci_world_scheme" where
  "put_devi b pi w =
     (case b of (bus, slot, func) \<Rightarrow>
        map_slot bus slot (\<lambda>si. si\<lparr>si_funcs := (si_funcs si)(func :=
          (si_funcs si func)\<lparr>fi_devi := pi\<rparr>)\<rparr>) w)"

section \<open>Interrupt pins\<close>

definition set_count :: "nat \<Rightarrow> (intxinfo \<Rightarrow> intxinfo) \<Rightarrow> slotinfo \<Rightarrow> slotinfo" where
  "set_count pin f si = si\<lparr>si_intpins := (si_intpins si)(pin := f (si_intpins si pin))\<rparr>"

text \<open>The loop that looks for the least used pin of the slot.\<close>

definition least_used_pin :: "slotinfo \<Rightarrow> nat" where
  "least_used_pin si =
     fst (fold (\<lambda>pin (bestpin, bestcount).
            if ii_count (si_intpins si pin) < bestcount then (pin, ii_count (si_intpins si pin))
            else (bestpin, bestcount)) [1, 2, 3] (0, ii_count (si_intpins si 0)))"

definition pci_lintr_request ::
    "pci_devinst \<times> 'a pci_world_scheme \<Rightarrow> (pci_devinst \<times> 'a pci_world_scheme) res" where
  "pci_lintr_request s =
     (let (pi, w) = s in
      case pci_businfo w (pi_bus pi) of
        None \<Rightarrow> Inl Assert_failed
      | Some bi \<Rightarrow>
          (let bestpin = least_used_pin (bi_slots bi (pi_slot pi));
               w = map_slot (pi_bus pi) (pi_slot pi)
                     (set_count bestpin (\<lambda>ii. ii\<lparr>ii_count := ii_count ii + 1\<rparr>)) w
           in
           bindE (pci_set_cfgdata8 (pi\<lparr>lintr := (lintr pi)\<lparr>lintr_pin := bestpin + 1\<rparr>\<rparr>)
                    PCIR_INTPIN (of_nat (bestpin + 1))) (\<lambda>pi. Inr (pi, w))))"

definition pci_lintr_route ::
    "pci_devinst \<times> 'a pci_world_scheme \<Rightarrow> (pci_devinst \<times> 'a pci_world_scheme) res" where
  "pci_lintr_route s =
     (let (pi, w) = s; pin = lintr_pin (lintr pi) in
      if pin = 0 then Inr (pi, w)
      else case pci_businfo w (pi_bus pi) of
        None \<Rightarrow> Inl Assert_failed
      | Some bi \<Rightarrow>
          (let ii = si_intpins (bi_slots bi (pi_slot pi)) (pin - 1);
               pirq = (if ii_pirq_pin ii = 0 then pirq_alloc_pin pi else ii_pirq_pin ii)
           in
           bindE (assertE (pirq > 0)) (\<lambda>_.
           let w = map_slot (pi_bus pi) (pi_slot pi)
                     (set_count (pin - 1) (\<lambda>ii. ii\<lparr>ii_pirq_pin := pirq\<rparr>)) w;
               pi = pi\<lparr>lintr := (lintr pi)\<lparr>lintr_ioapic_irq := ii_ioapic_irq ii, lintr_pirq_pin := pirq\<rparr>\<rparr>
           in bindE (pci_set_cfgdata8 pi PCIR_INTLINE (of_int (pirq_irq pirq))) (\<lambda>pi. Inr (pi, w)))))"

definition all_pins :: "(nat \<times> nat) list" where
  "all_pins = concat (map (\<lambda>slot. map (Pair slot) [0..<4]) [0..<PCI_SLOTMAX + 1])"

definition pci_count_lintr :: "'a pci_world_scheme \<Rightarrow> nat \<Rightarrow> nat" where
  "pci_count_lintr w bus =
     (case pci_businfo w bus of
        None \<Rightarrow> 0
      | Some bi \<Rightarrow>
          length (filter (\<lambda>(slot, pin). ii_count (si_intpins (bi_slots bi slot) pin) \<noteq> 0) all_pins))"

definition pci_walk_lintr ::
    "'a pci_world_scheme \<Rightarrow> nat \<Rightarrow> (nat \<Rightarrow> nat \<Rightarrow> nat \<Rightarrow> int \<Rightarrow> int \<Rightarrow> 's \<Rightarrow> 's) \<Rightarrow> 's \<Rightarrow> 's" where
  "pci_walk_lintr w bus cb s =
     (case pci_businfo w bus of
        None \<Rightarrow> s
      | Some bi \<Rightarrow>
          fold (\<lambda>(slot, pin) s.
            let ii = si_intpins (bi_slots bi slot) pin in
            if ii_count ii \<noteq> 0 then cb bus slot (pin + 1) (ii_pirq_pin ii) (ii_ioapic_irq ii) s else s)
            all_pins s)"

section \<open>Creating the devices\<close>

text \<open>The devices the linker collects in \<open>pci_devemu_set\<close>, in its order.\<close>

definition pci_emul_finddev :: "'d pci_devemu list \<Rightarrow> string \<Rightarrow> 'd pci_devemu option" where
  "pci_emul_finddev devs name = find (\<lambda>pd. pe_emu pd = name) devs"

text \<open>\<open>calloc\<close> returns the all-zero instance.\<close>

definition zero_devinst :: pci_devinst where
  "zero_devinst = \<lparr>pi_devemu = [], pi_bus = 0, pi_slot = 0, pi_func = 0, pi_name = [],
     pi_prevcap = 0, pi_capend = 0,
     lintr = \<lparr>lintr_pin = 0, lintr_state = IDLE, lintr_pirq_pin = 0, lintr_ioapic_irq = 0,
              lintr_lock = \<lparr>mtx_lock = 0\<rparr>\<rparr>,
     msi = \<lparr>msi_enabled = False, msi_addr = 0, msi_msg_data = 0, msi_maxmsgnum = 0\<rparr>,
     msix = \<lparr>msix_enabled = False, msix_table_bar = 0, msix_pba_bar = 0, msix_table_offset = 0,
             msix_table_count = 0, msix_pba_offset = 0, msix_pba_size = 0,
             msix_function_mask = False, msix_table = None\<rparr>,
     pi_cfgdata = (\<lambda>_. 0),
     pi_bar = (\<lambda>_. \<lparr>bar_type = PCIBAR_NONE, bar_size = 0, bar_addr = 0\<rparr>)\<rparr>"

fun decimal :: "nat \<Rightarrow> string" where
  "decimal n = (if n < 10 then [char_of (48 + n)] else decimal (n div 10) @ [char_of (48 + n mod 10)])"

declare decimal.simps [simp del]

abbreviation (input) PI_NAMESZ :: nat where "PI_NAMESZ \<equiv> 40"

definition pci_emul_init ::
    "'a world_emu \<Rightarrow> bdf \<Rightarrow> string option \<Rightarrow> 'a pci_world_scheme \<Rightarrow> (int \<times> 'a pci_world_scheme) res" where
  "pci_emul_init pde b param w =
     (case b of (bus, slot, func) \<Rightarrow>
        (let pdi = zero_devinst\<lparr>pi_bus := bus, pi_slot := slot, pi_func := func,
               lintr := (lintr zero_devinst)\<lparr>
                 lintr_lock := pthread_mutex_init (lintr_lock (lintr zero_devinst))\<rparr>,
               pi_devemu := pe_emu pde,
               pi_name := take (PI_NAMESZ - 1) (pe_emu pde @ ''-pci-'' @ decimal slot)\<rparr>
         in
         bindE (pci_set_cfgdata8 pdi PCIR_INTLINE 255) (\<lambda>pdi.
         bindE (pci_set_cfgdata8 pdi PCIR_INTPIN 0) (\<lambda>pdi.
         bindE (pci_set_cfgdata8 pdi PCIR_COMMAND
                  (ucast (PCIM_CMD_PORTEN OR PCIM_CMD_MEMEN OR PCIM_CMD_BUSMASTEREN))) (\<lambda>pdi.
         bindE (pe_init pde param (pdi, w)) (\<lambda>(err, pdi, w).
         Inr (err, if err = 0 then put_devi b (Some pdi) w else w)))))))"

abbreviation (input) BUSIO_ROUNDUP :: u64 where "BUSIO_ROUNDUP \<equiv> 32"
abbreviation (input) BUSMEM_ROUNDUP :: u64 where "BUSMEM_ROUNDUP \<equiv> 1024 * 1024"

definition all_funcs :: "(nat \<times> nat) list" where
  "all_funcs = concat (map (\<lambda>slot. map (Pair slot) [0..<PCI_FUNCMAX + 1]) [0..<PCI_SLOTMAX + 1])"

text \<open>The device loop of one bus; it stops at the first error.\<close>

fun init_funcs ::
    "'a world_emu list \<Rightarrow> nat \<Rightarrow> (nat \<times> nat) list \<Rightarrow> 'a pci_world_scheme
     \<Rightarrow> (int \<times> 'a pci_world_scheme) res" where
  "init_funcs devs bus [] w = Inr (0, w)"
| "init_funcs devs bus ((slot, func) # rest) w =
     (case get_func w (bus, slot, func) of
        None \<Rightarrow> Inl Null_deref
      | Some fi \<Rightarrow>
          (case fi_name fi of
             None \<Rightarrow> init_funcs devs bus rest w
           | Some name \<Rightarrow>
               (case pci_emul_finddev devs name of
                  None \<Rightarrow> Inl Assert_failed
                | Some pde \<Rightarrow>
                    bindE (pci_emul_init pde (bus, slot, func) (fi_param fi) w) (\<lambda>(err, w).
                    if err \<noteq> 0 then Inr (err, w) else init_funcs devs bus rest w))))"

definition map_bus :: "nat \<Rightarrow> (businfo \<Rightarrow> businfo) \<Rightarrow> 'a pci_world_scheme \<Rightarrow> 'a pci_world_scheme" where
  "map_bus bus f w = w\<lparr>pci_businfo := (pci_businfo w)(bus := map_option f (pci_businfo w bus))\<rparr>"

definition bus_slop :: "pci_cursors \<Rightarrow> pci_cursors" where
  "bus_slop cs =
     \<lparr>pci_emul_iobase = roundup2w (pci_emul_iobase cs + BUSIO_ROUNDUP) BUSIO_ROUNDUP,
      pci_emul_membase32 = roundup2w (pci_emul_membase32 cs + BUSMEM_ROUNDUP) BUSMEM_ROUNDUP,
      pci_emul_membase64 = roundup2w (pci_emul_membase64 cs + BUSMEM_ROUNDUP) BUSMEM_ROUNDUP\<rparr>"

fun init_buses ::
    "'a world_emu list \<Rightarrow> nat list \<Rightarrow> 'a pci_world_scheme \<Rightarrow> (int \<times> 'a pci_world_scheme) res" where
  "init_buses devs [] w = Inr (0, w)"
| "init_buses devs (bus # buses) w =
     (case pci_businfo w bus of
        None \<Rightarrow> init_buses devs buses w
      | Some bi \<Rightarrow>
          bindE (init_funcs devs bus all_funcs (map_bus bus (\<lambda>bi. bi\<lparr>
              bi_iobase := ucast (pci_emul_iobase (w_cursors w)),
              bi_membase32 := ucast (pci_emul_membase32 (w_cursors w)),
              bi_membase64 := pci_emul_membase64 (w_cursors w)\<rparr>) w)) (\<lambda>(err, w).
          if err \<noteq> 0 then Inr (err, w)
          else
            (let cs = bus_slop (w_cursors w) in
             init_buses devs buses (map_bus bus (\<lambda>bi. bi\<lparr>
               bi_iolimit := ucast (pci_emul_iobase cs),
               bi_memlimit32 := ucast (pci_emul_membase32 cs),
               bi_memlimit64 := pci_emul_membase64 cs\<rparr>) (w\<lparr>w_cursors := cs\<rparr>)))))"

text \<open>The second pass routes the pin of every device that was created.\<close>

fun route_funcs ::
    "nat \<Rightarrow> (nat \<times> nat) list \<Rightarrow> 'a pci_world_scheme \<Rightarrow> 'a pci_world_scheme res" where
  "route_funcs bus [] w = Inr w"
| "route_funcs bus ((slot, func) # rest) w =
     (case get_func w (bus, slot, func) of
        None \<Rightarrow> Inl Null_deref
      | Some fi \<Rightarrow>
          (case fi_devi fi of
             None \<Rightarrow> route_funcs bus rest w
           | Some pi \<Rightarrow>
               bindE (pci_lintr_route (pi, w)) (\<lambda>(pi, w).
               route_funcs bus rest (put_devi (bus, slot, func) (Some pi) w))))"

fun route_buses :: "nat list \<Rightarrow> 'a pci_world_scheme \<Rightarrow> 'a pci_world_scheme res" where
  "route_buses [] w = Inr w"
| "route_buses (bus # buses) w =
     (case pci_businfo w bus of
        None \<Rightarrow> route_buses buses w
      | Some bi \<Rightarrow> bindE (route_funcs bus all_funcs w) (route_buses buses))"

definition ecfg_range :: pci_range where
  "ecfg_range = \<lparr>mr_name = Literal ''PCI ECFG'', mr_flags = MEM_F_RW OR MEM_F_IMMUTABLE,
     mr_handler = Pci_emul_ecfg_handler, mr_rbase = PCI_EMUL_ECFG_BASE, mr_rsize = PCI_EMUL_ECFG_SIZE\<rparr>"

definition init_pci :: "'a world_emu list \<Rightarrow> 'a pci_world_scheme \<Rightarrow> (int \<times> 'a pci_world_scheme) res" where
  "init_pci devs w =
     bindE (init_buses devs [0..<PCI_BUSMAX + 1]
       (w\<lparr>w_cursors := \<lparr>pci_emul_iobase = 0x2000, pci_emul_membase32 = 0xfdb10000,
                        pci_emul_membase64 = PCI_EMUL_MEMBASE64\<rparr>\<rparr>)) (\<lambda>(err, w).
     if err \<noteq> 0 then Inr (err, w)
     else
       bindE (route_buses [0..<PCI_BUSMAX + 1] w) (\<lambda>w.
       let (error, mem) = register_mem (w_mem w) ecfg_range in
       bindE (assertE (error = 0)) (\<lambda>_. Inr (0, w\<lparr>w_mem := mem\<rparr>))))"

section \<open>Configuration accesses\<close>

definition pci_emul_is_mfdev :: "'a pci_world_scheme \<Rightarrow> nat \<Rightarrow> nat \<Rightarrow> bool" where
  "pci_emul_is_mfdev w bus slot =
     (case pci_businfo w bus of
        None \<Rightarrow> False
      | Some bi \<Rightarrow>
          1 < length (filter (\<lambda>f. fi_devi (si_funcs (bi_slots bi slot) f) \<noteq> None) [0..<PCI_FUNCMAX + 1]))"

definition pci_emul_hdrtype_fixup ::
    "'a pci_world_scheme \<Rightarrow> nat \<Rightarrow> nat \<Rightarrow> nat \<Rightarrow> nat \<Rightarrow> u32 \<Rightarrow> u32" where
  "pci_emul_hdrtype_fixup w bus slot off bytes rv =
     (if off \<le> PCIR_HDRTYPE \<and> off + bytes > PCIR_HDRTYPE then
        (let mfdev = pci_emul_is_mfdev w bus slot in
         if bytes = 1 \<or> bytes = 2 then
           (rv AND NOT PCIM_MFDEV) OR (if mfdev then PCIM_MFDEV else 0)
         else if bytes = 4 then
           (rv AND NOT (push_bit 16 PCIM_MFDEV)) OR (if mfdev then push_bit 16 PCIM_MFDEV else 0)
         else rv)
      else rv)"

text \<open>The loop over the BARs after a change of the command register.\<close>

fun redecode_bars :: "pci_devinst \<Rightarrow> u16 \<Rightarrow> nat list \<Rightarrow> pci_mem \<Rightarrow> pci_mem res" where
  "redecode_bars pi changed [] mem = Inr mem"
| "redecode_bars pi changed (i # is) mem =
     bindE (case bar_type (pi_bar pi i) of
              PCIBAR_NONE \<Rightarrow> Inr mem
            | PCIBAR_MEMHI64 \<Rightarrow> Inr mem
            | PCIBAR_IO \<Rightarrow>
                if changed AND PCIM_CMD_PORTEN \<noteq> 0 then
                  bindE (porten pi) (\<lambda>on. if on then register_bar pi i mem else unregister_bar pi i mem)
                else Inr mem
            | _ \<Rightarrow>
                if changed AND PCIM_CMD_MEMEN \<noteq> 0 then
                  bindE (memen pi) (\<lambda>on. if on then register_bar pi i mem else unregister_bar pi i mem)
                else Inr mem) (redecode_bars pi changed is)"

definition cmdsts_readonly :: "nat \<Rightarrow> u32" where
  "cmdsts_readonly coff = drop_bit ((coff AND 3) * 8) 0xFFFFF880"

definition pci_emul_cmdsts_write ::
    "pci_devinst \<Rightarrow> nat \<Rightarrow> u32 \<Rightarrow> nat \<Rightarrow> pci_mem \<times> pic_log \<Rightarrow> (pci_devinst \<times> pci_mem \<times> pic_log) res" where
  "pci_emul_cmdsts_write pi0 coff new bytes s =
     bindE (pci_get_cfgdata16 pi0 PCIR_COMMAND) (\<lambda>cmd.
     bindE (CFGREAD pi0 coff bytes) (\<lambda>old.
     let readonly = cmdsts_readonly coff;
         new = (new AND NOT readonly) OR (old AND readonly)
     in
     bindE (CFGWRITE pi0 coff new bytes) (\<lambda>pi.
     bindE (pci_get_cfgdata16 pi PCIR_COMMAND) (\<lambda>cmd2.
     bindE (redecode_bars pi (cmd XOR cmd2) [0..<PCI_BARMAX + 1] (fst s)) (\<lambda>mem.
     bindE (pci_lintr_update pi (snd s)) (\<lambda>(pi, pic).
     Inr (pi, mem, pic)))))))"

text \<open>The write to a BAR register: the new instance, the table and the register's value.\<close>

definition bar_mask :: "pci_devinst \<Rightarrow> nat \<Rightarrow> u64" where
  "bar_mask pi idx = NOT (bar_size (pi_bar pi idx) - 1)"

definition bar_cfgwrite ::
    "pci_devinst \<Rightarrow> nat \<Rightarrow> u32 \<Rightarrow> pci_mem \<Rightarrow> (u64 \<times> pci_devinst \<times> pci_mem) res" where
  "bar_cfgwrite pi idx eax mem =
     (let b = pi_bar pi idx; addr = ucast eax AND bar_mask pi idx in
      case bar_type b of
        PCIBAR_NONE \<Rightarrow> Inr (0, set_bar_addr pi idx 0, mem)
      | PCIBAR_IO \<Rightarrow>
          (let addr = addr AND 0xffff in
           bindE (if addr \<noteq> bar_addr b then update_bar_address pi addr idx PCIBAR_IO mem
                  else Inr (pi, mem)) (\<lambda>s. Inr (addr OR PCIM_BAR_IO_SPACE, s)))
      | PCIBAR_MEM32 \<Rightarrow>
          bindE (if addr \<noteq> bar_addr b then update_bar_address pi addr idx PCIBAR_MEM32 mem
                 else Inr (pi, mem)) (\<lambda>s.
          Inr (addr OR (PCIM_BAR_MEM_SPACE OR PCIM_BAR_MEM_32), s))
      | PCIBAR_MEM64 \<Rightarrow>
          bindE (if addr \<noteq> ucast (ucast (bar_addr b) :: u32)
                 then update_bar_address pi addr idx PCIBAR_MEM64 mem else Inr (pi, mem)) (\<lambda>s.
          Inr (addr OR (PCIM_BAR_MEM_SPACE OR PCIM_BAR_MEM_64 OR PCIM_BAR_MEM_PREFETCH), s))
      | PCIBAR_MEMHI64 \<Rightarrow>
          (if idx = 0 then Inl Out_of_bounds
           else
             (let addr = push_bit 32 (ucast eax) AND bar_mask pi (idx - 1); bar = drop_bit 32 addr in
              bindE (if bar \<noteq> drop_bit 32 (bar_addr (pi_bar pi (idx - 1)))
                     then update_bar_address pi addr (idx - 1) PCIBAR_MEMHI64 mem
                     else Inr (pi, mem)) (\<lambda>s. Inr (bar, s)))))"

text \<open>
  The default write of \<open>pci_cfgrw\<close>: BAR registers, the capability area, the
  command and status registers, and plain bytes.
\<close>

definition default_cfgwrite ::
    "pci_devinst \<Rightarrow> nat \<Rightarrow> nat \<Rightarrow> u32 \<Rightarrow> pci_mem \<times> pic_log \<Rightarrow> (pci_devinst \<times> pci_mem \<times> pic_log) res" where
  "default_cfgwrite pi coff bytes eax s =
     (if coff \<ge> PCIR_BAR 0 \<and> coff < PCIR_BAR (PCI_BARMAX + 1) then
        (if bytes \<noteq> 4 \<or> coff AND 3 \<noteq> 0 then Inr (pi, s)
         else
           bindE (bar_cfgwrite pi ((coff - PCIR_BAR 0) div 4) eax (fst s)) (\<lambda>(bar, pi, mem).
           bindE (pci_set_cfgdata32 pi coff (ucast bar)) (\<lambda>pi. Inr (pi, mem, snd s))))
      else
        bindE (pci_emul_iscap pi coff) (\<lambda>cap.
        if cap then
          bindE (pci_emul_capwrite pi coff bytes eax (snd s)) (\<lambda>(pi, pic). Inr (pi, fst s, pic))
        else if coff \<ge> PCIR_COMMAND \<and> coff < PCIR_REVID then pci_emul_cmdsts_write pi coff eax bytes s
        else bindE (CFGWRITE pi coff eax bytes) (\<lambda>pi. Inr (pi, s))))"

definition pci_cfgread ::
    "'a world_emu \<Rightarrow> bdf \<Rightarrow> pci_devinst \<Rightarrow> nat \<Rightarrow> nat \<Rightarrow> u32 \<Rightarrow> 'a pci_world_scheme
     \<Rightarrow> (u32 \<times> 'a pci_world_scheme) res" where
  "pci_cfgread pe b pi coff bytes eax w =
     bindE (case pe_cfgread pe of
              Some f \<Rightarrow> f coff bytes eax (pi, w)
            | None \<Rightarrow> Inr (1, eax, pi, w)) (\<lambda>(needcfg, eax, pi, w).
     bindE (if needcfg \<noteq> 0 then CFGREAD pi coff bytes else Inr eax) (\<lambda>eax.
     let w = put_devi b (Some pi) w in
     Inr (pci_emul_hdrtype_fixup w (fst b) (fst (snd b)) coff bytes eax, w)))"

definition pci_cfgwrite ::
    "'a world_emu \<Rightarrow> bdf \<Rightarrow> pci_devinst \<Rightarrow> nat \<Rightarrow> nat \<Rightarrow> u32 \<Rightarrow> 'a pci_world_scheme
     \<Rightarrow> 'a pci_world_scheme res" where
  "pci_cfgwrite pe b pi coff bytes eax w =
     bindE (case pe_cfgwrite pe of
              Some f \<Rightarrow> f coff bytes eax (pi, w)
            | None \<Rightarrow> Inr (1, pi, w)) (\<lambda>(r, pi, w).
     if r = 0 then Inr (put_devi b (Some pi) w)
     else
       bindE (default_cfgwrite pi coff bytes eax (w_mem w, w_pic w)) (\<lambda>(pi, mem, pic).
       Inr (put_devi b (Some pi) (w\<lparr>w_mem := mem, w_pic := pic\<rparr>))))"

definition pci_cfgrw ::
    "'a world_emu list \<Rightarrow> bool \<Rightarrow> bdf \<Rightarrow> nat \<Rightarrow> nat \<Rightarrow> u32 \<Rightarrow> 'a pci_world_scheme
     \<Rightarrow> (u32 \<times> 'a pci_world_scheme) res" where
  "pci_cfgrw devs rd b coff bytes eax w =
     (if fst b > PCI_BUSMAX \<or> fst (snd b) > PCI_SLOTMAX \<or> snd (snd b) > PCI_FUNCMAX then Inl Out_of_bounds
      else
        case Option.bind (get_func w b) fi_devi of
          None \<Rightarrow> Inr (if rd then 0xffffffff else eax, w)
        | Some pi \<Rightarrow>
            if (bytes \<noteq> 1 \<and> bytes \<noteq> 2 \<and> bytes \<noteq> 4) \<or> coff AND (bytes - 1) \<noteq> 0 then
              Inr (if rd then 0xffffffff else eax, w)
            else if coff \<ge> PCI_REGMAX + 1 then
              Inr (if rd then (if coff \<le> PCI_REGMAX + 4 then 0 else 0xffffffff) else eax, w)
            else
              (case pci_emul_finddev devs (pi_devemu pi) of
                 None \<Rightarrow> Inl Null_deref
               | Some pe \<Rightarrow>
                   if rd then pci_cfgread pe b pi coff bytes eax w
                   else bindE (pci_cfgwrite pe b pi coff bytes eax w) (\<lambda>w. Inr (eax, w))))"

section \<open>The ways in\<close>

definition pci_emul_cfgaddr :: "bool \<Rightarrow> nat \<Rightarrow> u32 \<Rightarrow> 'a pci_world_scheme \<Rightarrow> int \<times> u32 \<times> 'a pci_world_scheme" where
  "pci_emul_cfgaddr rd bytes eax w =
     (if bytes \<noteq> 4 then (0, if rd then (if bytes = 2 then 0xffff else 0xff) else eax, w)
      else if rd then
        (let l = w_latch w;
             x = push_bit 16 (of_nat (cfgbus l)) OR push_bit 11 (of_nat (cfgslot l)) OR
                 push_bit 8 (of_nat (cfgfunc l)) OR of_nat (cfgoff l)
         in (0, if cfgenable l then x OR 0x80000000 else x, w))
      else
        (0, eax, w\<lparr>w_latch := \<lparr>cfgenable = (eax AND 0x80000000 = 0x80000000),
                     cfgbus = unat (drop_bit 16 eax AND of_nat PCI_BUSMAX),
                     cfgslot = unat (drop_bit 11 eax AND of_nat PCI_SLOTMAX),
                     cfgfunc = unat (drop_bit 8 eax AND of_nat PCI_FUNCMAX),
                     cfgoff = unat (eax AND of_nat PCI_REGMAX)\<rparr>\<rparr>))"

definition CONF1_DATA_PORT :: nat where "CONF1_DATA_PORT = 0x0cfc"

text \<open>The data port is registered for the four ports from \<open>CONF1_DATA_PORT\<close> on.\<close>

definition pci_emul_cfgdata ::
    "'a world_emu list \<Rightarrow> bool \<Rightarrow> nat \<Rightarrow> nat \<Rightarrow> u32 \<Rightarrow> 'a pci_world_scheme
     \<Rightarrow> (int \<times> u32 \<times> 'a pci_world_scheme) res" where
  "pci_emul_cfgdata devs rd port bytes eax w =
     bindE (assertE (bytes = 1 \<or> bytes = 2 \<or> bytes = 4)) (\<lambda>_.
     let l = w_latch w; coff = cfgoff l + (port - CONF1_DATA_PORT) in
     if cfgenable l then
       bindE (pci_cfgrw devs rd (cfgbus l, cfgslot l, cfgfunc l) coff bytes eax w) (\<lambda>(eax, w).
       Inr (0, eax, w))
     else Inr (0, if rd then 0xffffffff else eax, w))"

text \<open>
  The handler of the memory-mapped window passes the 64-bit cell as a pointer
  to 32 bits, which on this target is its upper half.
\<close>

definition ecfg_bdf :: "u64 \<Rightarrow> bdf" where
  "ecfg_bdf addr = (unat (drop_bit 20 addr AND 0xff), unat (drop_bit 15 addr AND 0x1f),
     unat (drop_bit 12 addr AND 0x7))"

definition pci_emul_ecfg_handler ::
    "'a world_emu list \<Rightarrow> nat \<Rightarrow> u64 \<Rightarrow> nat \<Rightarrow> u64 \<Rightarrow> 'a pci_world_scheme
     \<Rightarrow> (int \<times> u64 \<times> 'a pci_world_scheme) res" where
  "pci_emul_ecfg_handler devs dir addr bytes val w =
     (let rd = dir = MEM_F_READ; val = (if rd then - 1 else val) in
      bindE (pci_cfgrw devs rd (ecfg_bdf addr) (unat (addr AND 0xfff)) bytes
               (ucast (drop_bit 32 val)) w) (\<lambda>(eax, w).
      Inr (0, push_bit 32 (ucast eax) OR (val AND 0xffffffff), w)))"

definition zero_slot :: slotinfo where
  "zero_slot = \<lparr>si_intpins = (\<lambda>_. \<lparr>ii_count = 0, ii_pirq_pin = 0, ii_ioapic_irq = 0\<rparr>),
     si_funcs = (\<lambda>_. \<lparr>fi_name = None, fi_param = None, fi_devi = None\<rparr>)\<rparr>"

definition zero_bus :: businfo where
  "zero_bus = \<lparr>bi_iobase = 0, bi_iolimit = 0, bi_membase32 = 0, bi_memlimit32 = 0,
     bi_membase64 = 0, bi_memlimit64 = 0, bi_slots = (\<lambda>_. zero_slot)\<rparr>"

definition name_func :: "nat \<Rightarrow> string \<Rightarrow> string option \<Rightarrow> businfo \<Rightarrow> businfo" where
  "name_func slot name param bi =
     bi\<lparr>bi_slots := (bi_slots bi)(slot := (bi_slots bi slot)\<lparr>
       si_funcs := (si_funcs (bi_slots bi slot))(0 := (si_funcs (bi_slots bi slot) 0)\<lparr>
         fi_name := Some name, fi_param := param\<rparr>)\<rparr>)\<rparr>"

definition bhyve_pci_init :: "'a world_emu list \<Rightarrow> 'a pci_world_scheme \<Rightarrow> (int \<times> 'a pci_world_scheme) res" where
  "bhyve_pci_init devs w =
     (let bi = name_func 1 ''ahci-hd'' (Some ''hd:test'') (name_func 0 ''e1000'' None zero_bus) in
      bindE (init_pci devs (w\<lparr>w_mem := init_mem (w_mem w),
               pci_businfo := (pci_businfo w)(0 := Some bi)\<rparr>)) (\<lambda>(error, w).
      if error \<noteq> 0 then Inl Panic else Inr (0, w)))"

definition bhyve_pci_cfgrw ::
    "'a world_emu list \<Rightarrow> bool \<Rightarrow> bdf \<Rightarrow> nat \<Rightarrow> nat \<Rightarrow> u32 \<Rightarrow> 'a pci_world_scheme
     \<Rightarrow> (u32 \<times> 'a pci_world_scheme) res" where
  "bhyve_pci_cfgrw devs rd b coff bytes val w = pci_cfgrw devs rd b coff bytes val w"

section \<open>The tables as a store of instances\<close>

definition get_devi :: "'a pci_world_scheme \<Rightarrow> bdf \<Rightarrow> pci_devinst option" where
  "get_devi w b = Option.bind (get_func w b) fi_devi"

lemma get_put_devi:
  "get_devi w b = Some pi \<Longrightarrow> get_devi (put_devi b (Some pi') w) b = Some pi'"
  by (cases b) (auto simp: get_devi_def put_devi_def map_slot_def get_func_def split: bind_splits)

lemma put_devi_more [simp]:
  "w_mem (put_devi b pi w) = w_mem w" "w_pic (put_devi b pi w) = w_pic w"
  "w_latch (put_devi b pi w) = w_latch w" "w_cursors (put_devi b pi w) = w_cursors w"
  by (cases b; simp add: put_devi_def map_slot_def)+

lemma put_same_devi: "get_devi w b = Some pi \<Longrightarrow> put_devi b (Some pi) w = w"
proof -
  assume g: "get_devi w b = Some pi"
  obtain bus slot func where b: "b = (bus, slot, func)" by (cases b)
  obtain bi where bi: "pci_businfo w bus = Some bi" "fi_devi (si_funcs (bi_slots bi slot) func) = Some pi"
    using g by (auto simp: get_devi_def get_func_def b split: bind_splits)
  have "(si_funcs (bi_slots bi slot) func)\<lparr>fi_devi := Some pi\<rparr> = si_funcs (bi_slots bi slot) func"
    using bi(2) by simp
  then have "(si_funcs (bi_slots bi slot))(func := (si_funcs (bi_slots bi slot) func)\<lparr>fi_devi := Some pi\<rparr>)
      = si_funcs (bi_slots bi slot)" by simp
  then have "map_option (\<lambda>bi. bi\<lparr>bi_slots := (bi_slots bi)(slot := (bi_slots bi slot)
      \<lparr>si_funcs := (si_funcs (bi_slots bi slot))(func := (si_funcs (bi_slots bi slot) func)
        \<lparr>fi_devi := Some pi\<rparr>)\<rparr>)\<rparr>) (pci_businfo w bus) = pci_businfo w bus"
    using bi(1) by simp
  then show ?thesis unfolding put_devi_def map_slot_def b by simp
qed

lemma is_mfdev_put:
  "get_devi w b = Some pi \<Longrightarrow>
   pci_emul_is_mfdev (put_devi b (Some pi') w) bus slot = pci_emul_is_mfdev w bus slot"
proof -
  assume g: "get_devi w b = Some pi"
  obtain x y z where b: "b = (x, y, z)" by (cases b)
  obtain bi where bi: "pci_businfo w x = Some bi" "fi_devi (si_funcs (bi_slots bi y) z) = Some pi"
    using g by (auto simp: get_devi_def get_func_def b split: bind_splits)
  have "(f \<noteq> z \<longrightarrow> (\<exists>d. fi_devi (si_funcs (bi_slots bi y) f) = Some d)) \<longleftrightarrow>
      (\<exists>d. fi_devi (si_funcs (bi_slots bi y) f) = Some d)" for f
    using bi(2) by auto
  then show ?thesis
    using bi by (auto simp: pci_emul_is_mfdev_def b put_devi_def map_slot_def split: option.split)
qed

lemma hdrtype_put:
  "get_devi w b = Some pi \<Longrightarrow> pci_emul_hdrtype_fixup (put_devi b (Some pi') w) bus slot off bytes rv =
     pci_emul_hdrtype_fixup w bus slot off bytes rv"
  by (simp add: pci_emul_hdrtype_fixup_def is_mfdev_put)

text \<open>A function that exists, with an emulation that leaves configuration space to this file.\<close>

definition plain_dev :: "'a world_emu list \<Rightarrow> 'a pci_world_scheme \<Rightarrow> bdf \<Rightarrow> pci_devinst \<Rightarrow> bool" where
  "plain_dev devs w b pi \<longleftrightarrow>
     get_devi w b = Some pi \<and> fst b \<le> PCI_BUSMAX \<and> fst (snd b) \<le> PCI_SLOTMAX \<and> snd (snd b) \<le> PCI_FUNCMAX \<and>
     (\<exists>pe. pci_emul_finddev devs (pi_devemu pi) = Some pe \<and> pe_cfgread pe = None \<and> pe_cfgwrite pe = None)"

lemma cfg_access_ok_bytes:
  "cfg_access_ok coff bytes \<Longrightarrow> bytes \<in> {1, 2, 4} \<and> bytes dvd coff \<and> coff \<le> 255"
  by (auto simp: cfg_access_ok_def)

lemma aligned_iff: "cfg_access_ok coff bytes \<Longrightarrow> coff AND (bytes - 1) = 0"
  using nat_and_bytes [of bytes coff] by (auto dest: cfg_access_ok_bytes)

lemma cfgrw_read:
  assumes "plain_dev devs w b pi" "cfg_access_ok coff bytes" "CFGREAD pi coff bytes = Inr v"
  shows "pci_cfgrw devs True b coff bytes eax w =
    Inr (pci_emul_hdrtype_fixup w (fst b) (fst (snd b)) coff bytes v, w)"
proof -
  have dev: "Option.bind (get_func w b) fi_devi = Some pi" "get_devi w b = Some pi"
    using assms(1) by (auto simp: plain_dev_def get_devi_def)
  show ?thesis
    using assms(1,3) dev cfg_access_ok_bytes [OF assms(2)] aligned_iff [OF assms(2)]
    by (auto simp: pci_cfgrw_def pci_cfgread_def plain_dev_def put_same_devi [OF dev(2)])
qed

lemma cfgrw_write:
  assumes "plain_dev devs w b pi" "cfg_access_ok coff bytes"
    and "default_cfgwrite pi coff bytes v (w_mem w, w_pic w) = Inr (pi', mem, pic)"
  shows "pci_cfgrw devs False b coff bytes v w =
    Inr (v, put_devi b (Some pi') (w\<lparr>w_mem := mem, w_pic := pic\<rparr>))"
proof -
  have dev: "Option.bind (get_func w b) fi_devi = Some pi"
    using assms(1) by (auto simp: plain_dev_def get_devi_def)
  show ?thesis
    using assms(1,3) dev cfg_access_ok_bytes [OF assms(2)] aligned_iff [OF assms(2)]
    by (auto simp: pci_cfgrw_def pci_cfgwrite_def plain_dev_def)
qed

text \<open>An access to a function that does not exist, of a width other than
  1, 2 or 4, unaligned, or beyond the 256 bytes changes nothing; a read of it
  returns all ones, except the first extended capability header at 256, which
  reads as zero on a device that exists.\<close>

theorem cfgrw_rejects:
  assumes "fst b \<le> 255" "fst (snd b) \<le> 31" "snd (snd b) \<le> 7"
    and "get_devi w b = None \<or> \<not> cfg_access_ok coff bytes"
  shows "pci_cfgrw devs rd b coff bytes eax w =
    Inr (if \<not> rd then eax
         else if get_devi w b \<noteq> None \<and> bytes \<in> {1, 2, 4} \<and> bytes dvd coff \<and> coff \<le> 259 then 0
         else 0xffffffff, w)"
proof (cases "get_devi w b")
  case None
  then show ?thesis using assms(1-3) by (simp add: pci_cfgrw_def get_devi_def)
next
  case (Some pi)
  have bad: "\<not> cfg_access_ok coff bytes" using assms(4) Some by simp
  show ?thesis
  proof (cases "bytes \<in> {1, 2, 4} \<and> bytes dvd coff")
    case True
    then have "bytes \<in> {1, 2, 4}" and "coff AND (bytes - 1) = 0"
      using nat_and_bytes [of bytes coff] by auto
    moreover have "256 \<le> coff"
    proof (rule ccontr)
      assume "\<not> 256 \<le> coff"
      then have "cfg_access_ok coff bytes"
        using True unfolding cfg_access_ok_def by auto
      then show False using bad by simp
    qed
    ultimately show ?thesis using True Some assms(1-3) by (auto simp: pci_cfgrw_def get_devi_def)
  next
    case False
    then have "(bytes \<noteq> 1 \<and> bytes \<noteq> 2 \<and> bytes \<noteq> 4) \<or> coff AND (bytes - 1) \<noteq> 0"
      using nat_and_bytes [of bytes coff] by auto
    then show ?thesis using False Some assms(1-3) by (auto simp: pci_cfgrw_def get_devi_def)
  qed
qed

definition wit_world :: pci_world where
  "wit_world = \<lparr>pci_businfo = (\<lambda>_. None)(0 := Some zero_bus),
     w_cursors = \<lparr>pci_emul_iobase = 0x2000, pci_emul_membase32 = 0xfdb10000,
                  pci_emul_membase64 = PCI_EMUL_MEMBASE64\<rparr>,
     w_mem = wit_bar_mem, w_pic = [],
     w_latch = \<lparr>cfgenable = False, cfgbus = 0, cfgslot = 0, cfgfunc = 0, cfgoff = 0\<rparr>\<rparr>"

definition wit_devs :: "pci_world pci_devemu list" where
  "wit_devs = [\<lparr>pe_emu = ''e1000'', pe_init = (\<lambda>_ (d, w). Inr (0, d, w)), pe_cfgwrite = None,
     pe_cfgread = None, pe_barwrite = (\<lambda>_ _ _ _ s. Inr s), pe_barread = (\<lambda>_ _ _ (d, w). Inr (0, d, w))\<rparr>]"

theorem cfgrw_rejects_witness:
  "pci_cfgrw wit_devs True (0, 3, 0) 0 4 7 wit_world = Inr (0xffffffff, wit_world)"
proof -
  have "get_devi wit_world (0, 3, 0) = None"
    by (simp add: get_devi_def get_func_def wit_world_def zero_bus_def zero_slot_def)
  then show ?thesis using cfgrw_rejects [of "(0, 3, 0)" wit_world 0 4 wit_devs True 7] by simp
qed

section \<open>Plain registers\<close>

definition plain_register :: "pci_devinst \<Rightarrow> nat \<Rightarrow> nat \<Rightarrow> bool" where
  "plain_register pi coff bytes \<longleftrightarrow>
     cfg_access_ok coff bytes \<and> (coff < 0x10 \<or> 0x28 \<le> coff) \<and> (coff < 4 \<or> 8 \<le> coff) \<and>
     (coff + bytes \<le> PCIR_HDRTYPE \<or> PCIR_HDRTYPE < coff) \<and>
     (cap_present pi \<longrightarrow> coff < 64 \<or> pi_capend pi < coff)"

lemma iscap_eq: "pci_emul_iscap pi off = Inr (cap_present pi \<and> 64 \<le> off \<and> off \<le> pi_capend pi)"
  by (simp add: pci_emul_iscap_def cap_present_def)

lemma default_cfgwrite_plain:
  "plain_register pi coff bytes \<Longrightarrow>
   default_cfgwrite pi coff bytes v s = bindE (CFGWRITE pi coff v bytes) (\<lambda>pi. Inr (pi, s))"
proof -
  assume p: "plain_register pi coff bytes"
  then have "\<not> (coff \<ge> PCIR_BAR 0 \<and> coff < PCIR_BAR (PCI_BARMAX + 1))"
    "\<not> (coff \<ge> PCIR_COMMAND \<and> coff < PCIR_REVID)"
    "pci_emul_iscap pi coff = Inr False"
    by (auto simp: plain_register_def iscap_eq)
  then show ?thesis unfolding default_cfgwrite_def by (simp only: if_False bindE.simps)
qed

lemma CFGREAD_frame:
  assumes "cfg_access_ok coff bytes" "\<And>a. coff \<le> a \<Longrightarrow> a < coff + bytes \<Longrightarrow> pi_cfgdata pi' a = pi_cfgdata pi a"
  shows "CFGREAD pi' coff bytes = CFGREAD pi coff bytes"
proof -
  have "bytes = 1 \<longrightarrow> pi_cfgdata pi' coff = pi_cfgdata pi coff" using assms(2) by simp
  moreover have "bytes = 2 \<longrightarrow> load16 (pi_cfgdata pi') coff = load16 (pi_cfgdata pi) coff"
    using assms(2) by (intro impI load16_cong) simp_all
  moreover have "bytes = 4 \<longrightarrow> load32 (pi_cfgdata pi') coff = load32 (pi_cfgdata pi) coff"
    using assms(2) by (intro impI load32_cong) simp_all
  ultimately show ?thesis using assms(1) by (auto simp: CFGREAD_def cfg_access_ok_def)
qed

lemma CFGWRITE_devemu: "CFGWRITE pi coff v bytes = Inr pi' \<Longrightarrow> pi_devemu pi' = pi_devemu pi"
  by (auto simp: CFGWRITE_def cfgdata_defs bind_assertE split: if_splits)

lemma plain_dev_put:
  assumes "plain_dev devs w b pi" "pi_devemu pi' = pi_devemu pi"
    and "pci_businfo w' = pci_businfo w"
  shows "plain_dev devs (put_devi b (Some pi') w') b pi'"
proof -
  have "get_devi w' b = Some pi"
    using assms(1,3) by (cases b) (simp add: plain_dev_def get_devi_def get_func_def)
  then show ?thesis using assms(1,2) by (auto simp: plain_dev_def get_put_devi)
qed

text \<open>On a device that leaves configuration space to the default handler, a
  plain register (not a BAR, not command or status, not a capability, not the
  header type) reads back what was written to it at the same width, and every
  aligned read elsewhere returns what it returned before.\<close>

theorem plain_register_roundtrip:
  assumes "plain_dev devs w b pi" "plain_register pi coff bytes"
  shows "\<exists>w'. pci_cfgrw devs False b coff bytes v w = Inr (v, w') \<and>
    pci_cfgrw devs True b coff bytes x w' = Inr (v AND bytes_mask bytes, w') \<and>
    (\<forall>c n. cfg_access_ok c n \<and> (c + n \<le> coff \<or> coff + bytes \<le> c) \<longrightarrow>
       (\<exists>r. pci_cfgrw devs True b c n x w = Inr (r, w) \<and> pci_cfgrw devs True b c n x w' = Inr (r, w')))"
proof -
  have ok: "cfg_access_ok coff bytes" using assms(2) by (simp add: plain_register_def)
  obtain pi' where wr: "CFGWRITE pi coff v bytes = Inr pi'"
    using CFGWRITE_ok [OF ok] by (auto simp: returns_def)
  define w' where "w' = put_devi b (Some pi') w"
  have same: "w\<lparr>w_mem := w_mem w, w_pic := w_pic w\<rparr> = w" by simp
  have d: "get_devi w b = Some pi" using assms(1) by (simp add: plain_dev_def)
  have step: "pci_cfgrw devs False b coff bytes v w = Inr (v, w')"
    using cfgrw_write [OF assms(1) ok] default_cfgwrite_plain [OF assms(2)] wr same by (simp add: w'_def)
  have plain: "plain_dev devs w' b pi'"
    unfolding w'_def using assms(1) CFGWRITE_devemu [OF wr] by (rule plain_dev_put) simp
  have hdr: "pci_emul_hdrtype_fixup w' = pci_emul_hdrtype_fixup w"
    unfolding w'_def by (intro ext) (simp add: hdrtype_put [OF d])
  have "pci_cfgrw devs True b coff bytes x w' = Inr (v AND bytes_mask bytes, w')"
    using cfgrw_read [OF plain ok CFGREAD_CFGWRITE [OF ok wr]] assms(2)
    by (auto simp: pci_emul_hdrtype_fixup_def plain_register_def)
  moreover have "\<exists>r. pci_cfgrw devs True b c n x w = Inr (r, w) \<and> pci_cfgrw devs True b c n x w' = Inr (r, w')"
    if c: "cfg_access_ok c n" "c + n \<le> coff \<or> coff + bytes \<le> c" for c n
  proof -
    have "CFGREAD pi' c n = CFGREAD pi c n"
      using CFGWRITE_frame [OF wr] c(2) cfg_access_ok_bytes [OF ok]
      by (intro CFGREAD_frame [OF c(1)]) auto
    moreover obtain r where "CFGREAD pi c n = Inr r" using CFGREAD_ok [OF c(1)] by (auto simp: returns_def)
    ultimately show ?thesis
      using cfgrw_read [OF assms(1) c(1)] cfgrw_read [OF plain c(1)] hdr by auto
  qed
  ultimately show ?thesis using step by blast
qed

definition wit_dev_world :: "pci_devinst \<Rightarrow> pci_world" where
  "wit_dev_world pi = put_devi (0, 0, 0) (Some pi) wit_world"

lemma wit_plain_dev: "pi_devemu pi = ''e1000'' \<Longrightarrow> plain_dev wit_devs (wit_dev_world pi) (0, 0, 0) pi"
  by (simp add: plain_dev_def wit_dev_world_def get_devi_def get_func_def put_devi_def map_slot_def
      wit_world_def zero_bus_def pci_emul_finddev_def wit_devs_def)

theorem plain_register_roundtrip_witness:
  "\<exists>w'. pci_cfgrw wit_devs False (0, 0, 0) 0x3c 1 0x1ab (wit_dev_world wit_devinst) = Inr (0x1ab, w') \<and>
     pci_cfgrw wit_devs True (0, 0, 0) 0x3c 1 0 w' = Inr (0xab, w')"
proof -
  have "plain_register wit_devinst 0x3c 1"
    using wit_cap_list(2) by (simp add: plain_register_def cfg_access_ok_def)
  moreover have "pi_devemu wit_devinst = ''e1000''" by (simp add: wit_devinst_def)
  ultimately show ?thesis
    using plain_register_roundtrip [OF wit_plain_dev, where pi = wit_devinst and coff = "0x3c"
        and bytes = 1 and v = "0x1ab" and x = 0]
    by (fastforce simp: bytes_mask_def mask_eq_exp_minus_1)
qed

section \<open>Decoding and the command register\<close>

text \<open>The memory BARs are sound and disjoint, and registered exactly when \<open>on\<close>.\<close>

definition bars_ok :: "pci_devinst \<Rightarrow> bool" where
  "bars_ok pi \<longleftrightarrow> (\<forall>i. is_mem_bar pi i \<longrightarrow> proper_range (bar_range pi i) \<and>
     (\<forall>j a. is_mem_bar pi j \<and> j \<noteq> i \<and> covers (bar_range pi i) a \<longrightarrow> \<not> covers (bar_range pi j) a))"

definition decoded :: "pci_devinst \<Rightarrow> pci_mem \<Rightarrow> bool \<Rightarrow> nat set \<Rightarrow> bool" where
  "decoded pi mem on I \<longleftrightarrow> mem_inv mem \<and> malloc_ok mem \<and>
     (\<forall>i a. i \<in> I \<and> is_mem_bar pi i \<and> covers (bar_range pi i) a \<longrightarrow>
        range_at mem a = (if on then Some (bar_range pi i) else None))"

definition outside_bars :: "pci_devinst \<Rightarrow> nat set \<Rightarrow> u64 \<Rightarrow> bool" where
  "outside_bars pi I a \<longleftrightarrow> (\<forall>i\<in>I. is_mem_bar pi i \<longrightarrow> \<not> covers (bar_range pi i) a)"

lemma porten_eq: "porten pi = Inr (load16 (pi_cfgdata pi) PCIR_COMMAND AND PCIM_CMD_PORTEN \<noteq> 0)"
  by (simp add: porten_def)

lemma io_bar_registers:
  "bar_type (pi_bar pi i) = PCIBAR_IO \<Longrightarrow>
   register_bar pi i mem = Inr mem \<and> unregister_bar pi i mem = Inr mem"
  by (simp add: register_bar_def unregister_bar_def modify_bar_registration_def register_inout_def
      unregister_inout_def)

lemma redecode_skip:
  assumes "\<not> is_mem_bar pi i \<or> changed AND PCIM_CMD_MEMEN = 0"
  shows "redecode_bars pi changed (i # is) mem = redecode_bars pi changed is mem"
  using assms io_bar_registers [of pi i]
  by (cases "bar_type (pi_bar pi i)") (simp_all add: is_mem_bar_def porten_eq)

lemma redecode_mem_bar:
  assumes "is_mem_bar pi i" "changed AND PCIM_CMD_MEMEN \<noteq> 0"
  shows "redecode_bars pi changed (i # is) mem =
    bindE (if decoding pi then register_bar pi i mem else unregister_bar pi i mem)
      (redecode_bars pi changed is)"
  using assms by (auto simp: is_mem_bar_def)

text \<open>A BAR that is already registered stays so when it is registered again.\<close>

lemma toggle_bar:
  assumes "bars_ok pi" "is_mem_bar pi i" "decoded pi mem on {i}" "\<not> decoding pi \<longrightarrow> on"
  shows "\<exists>mem'. (if decoding pi then register_bar pi i mem else unregister_bar pi i mem) = Inr mem' \<and>
    decoded pi mem' (decoding pi) {i} \<and>
    (\<forall>a. \<not> covers (bar_range pi i) a \<longrightarrow> range_at mem' a = range_at mem a)"
proof -
  have p: "proper_range (bar_range pi i)" using assms(1,2) by (simp add: bars_ok_def)
  have m: "mem_inv mem" "malloc_ok mem" using assms(3) by (simp_all add: decoded_def)
  have base: "on \<Longrightarrow> range_at mem (mr_rbase (bar_range pi i)) = Some (bar_range pi i)"
    using assms(2,3) mmio.proper_base [OF p] by (simp add: decoded_def)
  consider "decoding pi" "on" | "decoding pi" "\<not> on" | "\<not> decoding pi" "on" using assms(4) by blast
  then show ?thesis
  proof cases
    case 1
    have "register_mem mem (bar_range pi i) = (0, mem)"
      using m(2) lookup_root [OF m(1), of "mr_rbase (bar_range pi i)"] base [OF 1(2)]
      by (simp add: register_mem_def register_mem_int_def)
    then show ?thesis using 1 assms(3) register_bar_mem [OF assms(2)] by auto
  next
    case 2
    have "range_at mem a = None" if "covers (bar_range pi i) a" for a
      using assms(2,3) that 2(2) by (simp add: decoded_def)
    then obtain s where s: "register_mem mem (bar_range pi i) = (0, s)" "mem_inv s" "malloc_ok s"
        "\<forall>a. range_at s a = (if covers (bar_range pi i) a then Some (bar_range pi i) else range_at mem a)"
      using mmio.reg_fresh [OF m(1) p m(2)] by blast
    then show ?thesis using 2(1) register_bar_mem [OF assms(2) s(1)] by (auto simp: decoded_def)
  next
    case 3
    then obtain s where s: "unregister_mem mem (bar_range pi i) = Inr (0, s)" "mem_inv s" "malloc_ok s = malloc_ok mem"
        "\<forall>a. range_at s a = (if covers (bar_range pi i) a then None else range_at mem a)"
      using mmio.unreg_found [OF m(1) base bar_removable] by blast
    then show ?thesis using 3(1) m unregister_bar_mem [OF assms(2)] by (auto simp: decoded_def)
  qed
qed

lemma redecode_all:
  assumes "bars_ok pi" "changed AND PCIM_CMD_MEMEN \<noteq> 0" "distinct is"
    and "decoded pi mem on (set is)" "\<not> decoding pi \<longrightarrow> on"
  shows "\<exists>mem'. redecode_bars pi changed is mem = Inr mem' \<and> decoded pi mem' (decoding pi) (set is) \<and>
    (\<forall>a. outside_bars pi (set is) a \<longrightarrow> range_at mem' a = range_at mem a)"
  using assms(3,4)
proof (induction "is" arbitrary: mem)
  case Nil
  then show ?case by (auto simp: decoded_def)
next
  case (Cons i js)
  show ?case
  proof (cases "is_mem_bar pi i")
    case False
    have "decoded pi mem on (set js)" using Cons.prems(2) by (simp add: decoded_def)
    then obtain mem' where "redecode_bars pi changed js mem = Inr mem'" "decoded pi mem' (decoding pi) (set js)"
        "\<forall>a. outside_bars pi (set js) a \<longrightarrow> range_at mem' a = range_at mem a"
      using Cons.IH Cons.prems(1) by auto
    then show ?thesis
      using False redecode_skip [of pi i changed js mem] by (auto simp: decoded_def outside_bars_def)
  next
    case True
    have "decoded pi mem on {i}" using Cons.prems(2) by (simp add: decoded_def)
    then obtain m1 where m1: "(if decoding pi then register_bar pi i mem else unregister_bar pi i mem) = Inr m1"
        "decoded pi m1 (decoding pi) {i}"
        "\<forall>a. \<not> covers (bar_range pi i) a \<longrightarrow> range_at m1 a = range_at mem a"
      using toggle_bar [OF assms(1) True _ assms(5)] by blast
    have apart: "\<not> covers (bar_range pi i) a" if "j \<in> set js" "is_mem_bar pi j" "covers (bar_range pi j) a" for j a
      using that Cons.prems(1) True assms(1) unfolding bars_ok_def by fastforce
    have same: "range_at m1 a = range_at mem a"
      if "j \<in> set js" "is_mem_bar pi j" "covers (bar_range pi j) a" for j a
      using apart [OF that] m1(3) by blast
    have "range_at m1 a = (if on then Some (bar_range pi j) else None)"
      if "j \<in> set js" "is_mem_bar pi j" "covers (bar_range pi j) a" for j a
      using Cons.prems(2) same [OF that] that by (simp add: decoded_def)
    then have "decoded pi m1 on (set js)"
      using m1(2) by (simp add: decoded_def)
    then obtain m2 where m2: "redecode_bars pi changed js m1 = Inr m2" "decoded pi m2 (decoding pi) (set js)"
        "\<forall>a. outside_bars pi (set js) a \<longrightarrow> range_at m2 a = range_at m1 a"
      using Cons.IH Cons.prems(1) by auto
    have "outside_bars pi (set js) a" if "covers (bar_range pi i) a" for a
      using apart that by (auto simp: outside_bars_def)
    then have "decoded pi m2 (decoding pi) (set (i # js))"
      using m1(2) m2(2,3) by (auto simp: decoded_def)
    moreover have "range_at m2 a = range_at mem a" if "outside_bars pi (set (i # js)) a" for a
      using that m1(3) m2(3) True by (simp add: outside_bars_def)
    ultimately show ?thesis
      using redecode_mem_bar [OF True assms(2)] m1(1) m2(1) by auto
  qed
qed

lemma redecode_unchanged:
  "changed AND PCIM_CMD_MEMEN = 0 \<Longrightarrow> redecode_bars pi changed is mem = Inr mem"
  by (induction "is") (simp_all add: redecode_skip del: redecode_bars.simps(2))

lemma CFGWRITE_sel:
  assumes "CFGWRITE pi coff v bytes = Inr pi'"
  shows "pi_bar pi' = pi_bar pi" "pi_bdf pi' = pi_bdf pi" "lintr pi' = lintr pi" "bar_range pi' i = bar_range pi i"
    "is_mem_bar pi' i = is_mem_bar pi i" "msi pi' = msi pi" "msix pi' = msix pi" "pi_capend pi' = pi_capend pi"
    "pi_prevcap pi' = pi_prevcap pi"
  using assms
  by (auto simp: CFGWRITE_def cfgdata_defs bind_assertE bar_range_def is_mem_bar_def pi_bdf_def split: if_splits)

lemma set_lintr_state_bars [simp]:
  "bar_range (set_lintr_state st pi) i = bar_range pi i"
  "is_mem_bar (set_lintr_state st pi) i = is_mem_bar pi i"
  "decoding (set_lintr_state st pi) = decoding pi"
  by (simp_all add: bar_range_def is_mem_bar_def decoding_def)

lemma xor_bit_clear: "(a XOR b) AND 2 = 0 \<longleftrightarrow> (a AND 2 = 0 \<longleftrightarrow> b AND 2 = (0 :: u16))"
proof -
  have *: "(x AND 2 = 0) = (\<not> bit x 1)" for x :: u16
    using and_exp_eq_0_iff_not_bit [of x 1] by simp
  show ?thesis unfolding * by (simp add: bit_xor_iff)
qed

text \<open>What \<open>pci_emul_cmdsts_write\<close> does to the table, whatever it does to the registers.\<close>

lemma cmdsts_write_decoding:
  assumes "bars_ok pi" "decoded pi mem on {..PCI_BARMAX}" "decoding pi \<longrightarrow> on" "free_mutex (lintr_lock (lintr pi))"
    and "cfg_access_ok coff bytes" "CFGREAD pi coff bytes = Inr old"
    and "CFGWRITE pi coff ((new AND NOT (cmdsts_readonly coff)) OR (old AND cmdsts_readonly coff)) bytes = Inr pj"
  shows "\<exists>st mem' pic'. pci_emul_cmdsts_write pi coff new bytes (mem, pic) =
      Inr (set_lintr_state st pj, mem', pic') \<and>
    decoded pj mem' (if decoding pj = decoding pi then on else decoding pj) {..PCI_BARMAX} \<and>
    (\<forall>a. outside_bars pi {..PCI_BARMAX} a \<longrightarrow> range_at mem' a = range_at mem a)"
proof -
  have sel: "bars_ok pj" "lintr pj = lintr pi" "\<And>on. decoded pj mem on {..PCI_BARMAX} = decoded pi mem on {..PCI_BARMAX}"
    "\<And>a. outside_bars pj {..PCI_BARMAX} a = outside_bars pi {..PCI_BARMAX} a"
    using assms(1) CFGWRITE_sel [OF assms(7)] by (simp_all add: bars_ok_def decoded_def outside_bars_def)
  let ?c = "load16 (pi_cfgdata pi) PCIR_COMMAND XOR load16 (pi_cfgdata pj) PCIR_COMMAND"
  have idx: "set [0..<PCI_BARMAX + 1] = {..PCI_BARMAX}" by auto
  have "\<exists>mem'. redecode_bars pj ?c [0..<PCI_BARMAX + 1] mem = Inr mem' \<and>
    decoded pj mem' (if decoding pj = decoding pi then on else decoding pj) {..PCI_BARMAX} \<and>
    (\<forall>a. outside_bars pi {..PCI_BARMAX} a \<longrightarrow> range_at mem' a = range_at mem a)"
  proof (cases "?c AND PCIM_CMD_MEMEN = 0")
    case True
    then have "decoding pj = decoding pi" by (simp add: decoding_def xor_bit_clear)
    then show ?thesis using assms(2) sel redecode_unchanged [OF True] by simp
  next
    case False
    then have ne: "decoding pj \<noteq> decoding pi" by (auto simp: decoding_def xor_bit_clear)
    have d: "decoded pj mem on (set [0..<PCI_BARMAX + 1])" using assms(2) sel(3) unfolding idx by simp
    have "\<not> decoding pj \<longrightarrow> on" using ne assms(3) by blast
    from redecode_all [OF sel(1) False distinct_upt d this] show ?thesis
      using ne unfolding idx sel(4) by simp
  qed
  then obtain mem' where mem': "redecode_bars pj ?c [0..<PCI_BARMAX + 1] mem = Inr mem'"
    "decoded pj mem' (if decoding pj = decoding pi then on else decoding pj) {..PCI_BARMAX}"
    "\<forall>a. outside_bars pi {..PCI_BARMAX} a \<longrightarrow> range_at mem' a = range_at mem a" by blast
  have "free_mutex (lintr_lock (lintr pj))" using assms(4) sel(2) by simp
  then obtain st pic' where "pci_lintr_update pj pic = Inr (set_lintr_state st pj, pic')"
    using lintr_update_kept by blast
  then have "pci_emul_cmdsts_write pi coff new bytes (mem, pic) = Inr (set_lintr_state st pj, mem', pic')"
    using assms(6,7) mem'(1) by (simp add: pci_emul_cmdsts_write_def Let_def del: upt_Suc redecode_bars.simps)
  then show ?thesis using mem' by blast
qed

lemma cmd_merge16:
  "(ucast ((new AND NOT 0xFFFFF880) OR (ucast old AND 0xFFFFF880) :: u32) :: u16) =
   (ucast new AND 0x077F) OR (old AND 0xF880)"
  by (rule bit_word_eqI) (auto simp: bit_simps numeral_eq_Suc less_Suc_eq)

lemma cmd_keep16:
  "(ucast ((new AND NOT 0xFFFF) OR (ucast old AND 0xFFFF) :: u32) :: u16) = old"
  by (rule bit_word_eqI) (auto simp: bit_simps numeral_eq_Suc less_Suc_eq)

lemma readonly_values: "cmdsts_readonly 4 = 0xFFFFF880" "cmdsts_readonly 6 = 0xFFFF"
  by (simp_all add: cmdsts_readonly_def nat_and_3)

text \<open>C11: A guest's 16-bit write to the command register always returns and changes the writable command bits only and no other
  byte, on a device whose memory BARs are disjoint and all registered at their recorded addresses, or all unregistered
  with decoding off. The first covers the state after the start, where the BARs are registered although the bit is clear.
  A write that turns decoding on or off leaves every memory BAR registered exactly when it is on; any other leaves the registrations as they
  were. In both cases the handling of all addresses outside the BARs stays the same.\<close>

theorem command_write_decoding:
  assumes "bars_ok pi" "decoded pi mem on {..PCI_BARMAX}" "decoding pi \<longrightarrow> on" "free_mutex (lintr_lock (lintr pi))"
  shows "\<exists>pi' mem' pic'. pci_emul_cmdsts_write pi PCIR_COMMAND new 2 (mem, pic) = Inr (pi', mem', pic') \<and>
    load16 (pi_cfgdata pi') PCIR_COMMAND =
      (ucast new AND 0x077F) OR (load16 (pi_cfgdata pi) PCIR_COMMAND AND 0xF880) \<and>
    (\<forall>a. a < 4 \<or> 6 \<le> a \<longrightarrow> pi_cfgdata pi' a = pi_cfgdata pi a) \<and> pi_bar pi' = pi_bar pi \<and>
    decoded pi' mem' (if decoding pi' = decoding pi then on else decoding pi') {..PCI_BARMAX} \<and>
    (\<forall>a. outside_bars pi {..PCI_BARMAX} a \<longrightarrow> range_at mem' a = range_at mem a)"
proof -
  have acc: "cfg_access_ok 4 2" by (simp add: cfg_access_ok_def)
  let ?old = "load16 (pi_cfgdata pi) 4"
  let ?v = "(new AND NOT (cmdsts_readonly 4)) OR (ucast ?old AND cmdsts_readonly 4)"
  define pj where "pj = pi\<lparr>pi_cfgdata := store16 (pi_cfgdata pi) 4 (ucast ?v)\<rparr>"
  have "CFGREAD pi 4 2 = Inr (ucast ?old)" "CFGWRITE pi 4 ?v 2 = Inr pj"
    by (simp_all add: CFGREAD_def CFGWRITE_def pj_def)
  from cmdsts_write_decoding [OF assms acc this, of pic]
  obtain st mem' pic' where r: "pci_emul_cmdsts_write pi 4 new 2 (mem, pic) = Inr (set_lintr_state st pj, mem', pic')"
      "decoded pj mem' (if decoding pj = decoding pi then on else decoding pj) {..PCI_BARMAX}"
      "\<forall>a. outside_bars pi {..PCI_BARMAX} a \<longrightarrow> range_at mem' a = range_at mem a" by blast
  have "load16 (pi_cfgdata pj) 4 = (ucast new AND 0x077F) OR (?old AND 0xF880)"
    unfolding pj_def readonly_values using cmd_merge16 [of new ?old] by simp
  moreover have "pi_cfgdata pj a = pi_cfgdata pi a" if "a < 4 \<or> 6 \<le> a" for a
    using that by (auto simp: pj_def store16_other)
  moreover have "pi_bar pj = pi_bar pi" by (simp add: pj_def)
  moreover have "decoded (set_lintr_state st pj) mem' (if decoding pj = decoding pi then on else decoding pj) {..PCI_BARMAX}"
    using r(2) by (simp add: decoded_def)
  ultimately show ?thesis
    using r(1,3) by (intro exI [of _ "set_lintr_state st pj"] exI [of _ mem'] exI [of _ pic']) (simp split: if_splits)
qed

lemma wit_bars_ok: "bars_ok wit_bar" "decoded wit_bar wit_bar_mem (decoding wit_bar) {..PCI_BARMAX}"
  "free_mutex (lintr_lock (lintr wit_bar))"
proof -
  have only: "is_mem_bar wit_bar i \<longleftrightarrow> i = 0" for i
    by (auto simp: is_mem_bar_def wit_bar_def set_bar_def wit_devinst_def)
  have "proper_range (bar_range wit_bar 0)" by (simp add: wit_bar_range proper_range_def)
  then show "bars_ok wit_bar" by (auto simp: bars_ok_def only)
  have "malloc_ok wit_bar_mem" by (simp add: wit_bar_mem_def)
  then show "decoded wit_bar wit_bar_mem (decoding wit_bar) {..PCI_BARMAX}"
    using wit_bar_facts by (simp add: decoded_def only)
  show "free_mutex (lintr_lock (lintr wit_bar))"
    by (simp add: wit_bar_def set_bar_def wit_devinst_def free_mutex_def)
qed

text \<open>The state after the start: the BAR is registered, the bit is clear. Turning it on and off again makes them agree.\<close>

theorem command_write_decoding_witness:
  "let pi = wit_bar\<lparr>pi_cfgdata := (\<lambda>_. 0)\<rparr> in \<not> decoding pi \<and> decoded pi wit_bar_mem True {..PCI_BARMAX} \<and>
     (\<exists>pi' mem' pic'. pci_emul_cmdsts_write pi PCIR_COMMAND 2 2 (wit_bar_mem, []) = Inr (pi', mem', pic') \<and>
       load16 (pi_cfgdata pi') PCIR_COMMAND = 2 \<and> decoded pi' mem' True {..PCI_BARMAX})"
proof -
  define pi where "pi = wit_bar\<lparr>pi_cfgdata := (\<lambda>_. 0)\<rparr>"
  have s: "bar_range pi i = bar_range wit_bar i" "is_mem_bar pi i = is_mem_bar wit_bar i" "lintr pi = lintr wit_bar" for i
    by (simp_all add: pi_def bar_range_def is_mem_bar_def pi_bdf_def)
  have c: "load16 (pi_cfgdata pi) 4 = 0" by (simp add: pi_def load16_def word_cat_0_left)
  have d: "decoding wit_bar" by (rule wit_bar_facts(2))
  have p: "bars_ok pi" "decoded pi wit_bar_mem True {..PCI_BARMAX}" "\<not> decoding pi" "free_mutex (lintr_lock (lintr pi))"
    using wit_bars_ok d c unfolding s bars_ok_def decoded_def by (simp_all add: s decoding_def)
  from command_write_decoding [OF p(1,2) _ p(4), of 2 "[]"] obtain pi' mem' pic' where
    "pci_emul_cmdsts_write pi PCIR_COMMAND 2 2 (wit_bar_mem, []) = Inr (pi', mem', pic')"
    "load16 (pi_cfgdata pi') PCIR_COMMAND = 2"
    "decoded pi' mem' (if decoding pi' = decoding pi then True else decoding pi') {..PCI_BARMAX}"
    using c by auto
  then show ?thesis using p unfolding pi_def [symmetric] Let_def by (auto simp: decoding_def)
qed

text \<open>The status register is treated as read-only, as the comment says, for a
  16-bit write, but not for a 32-bit write at the command register: on this
  big-endian target such a write never changes the command register and
  instead changes the low status bits, among them the one that says that the
  device has a capability list.\<close>

theorem status_writable_by_dword:
  assumes "bars_ok pi" "decoded pi mem (decoding pi) {..PCI_BARMAX}" "free_mutex (lintr_lock (lintr pi))"
  shows "(\<exists>pi' mem' pic'. pci_emul_cmdsts_write pi PCIR_STATUS new 2 (mem, pic) = Inr (pi', mem', pic') \<and>
      load16 (pi_cfgdata pi') PCIR_STATUS = load16 (pi_cfgdata pi) PCIR_STATUS) \<and>
    (\<exists>pi' mem' pic'. pci_emul_cmdsts_write pi PCIR_COMMAND new 4 (mem, pic) = Inr (pi', mem', pic') \<and>
      load16 (pi_cfgdata pi') PCIR_COMMAND = load16 (pi_cfgdata pi) PCIR_COMMAND \<and>
      load16 (pi_cfgdata pi') PCIR_STATUS =
        (ucast new AND 0x077F) OR (load16 (pi_cfgdata pi) PCIR_STATUS AND 0xF880))"
proof
  let ?m = "pi_cfgdata pi"
  show "\<exists>pi' mem' pic'. pci_emul_cmdsts_write pi PCIR_STATUS new 2 (mem, pic) = Inr (pi', mem', pic') \<and>
      load16 (pi_cfgdata pi') PCIR_STATUS = load16 ?m PCIR_STATUS"
  proof -
    have acc: "cfg_access_ok 6 2" by (simp add: cfg_access_ok_def)
    let ?v = "(new AND NOT (cmdsts_readonly 6)) OR (ucast (load16 ?m 6) AND cmdsts_readonly 6)"
    define pj where "pj = pi\<lparr>pi_cfgdata := store16 ?m 6 (ucast ?v)\<rparr>"
    have "CFGREAD pi 6 2 = Inr (ucast (load16 ?m 6))" "CFGWRITE pi 6 ?v 2 = Inr pj"
      by (simp_all add: CFGREAD_def CFGWRITE_def pj_def)
    from cmdsts_write_decoding [OF assms(1,2) _ assms(3) acc this, of pic] obtain st mem' pic' where
      "pci_emul_cmdsts_write pi 6 new 2 (mem, pic) = Inr (set_lintr_state st pj, mem', pic')" by blast
    moreover have "load16 (pi_cfgdata pj) 6 = load16 ?m 6"
      unfolding pj_def readonly_values using cmd_keep16 [of new "load16 ?m 6"] by simp
    ultimately show ?thesis by auto
  qed
  show "\<exists>pi' mem' pic'. pci_emul_cmdsts_write pi PCIR_COMMAND new 4 (mem, pic) = Inr (pi', mem', pic') \<and>
      load16 (pi_cfgdata pi') PCIR_COMMAND = load16 ?m PCIR_COMMAND \<and>
      load16 (pi_cfgdata pi') PCIR_STATUS = (ucast new AND 0x077F) OR (load16 ?m PCIR_STATUS AND 0xF880)"
  proof -
    have acc: "cfg_access_ok 4 4" by (simp add: cfg_access_ok_def)
    let ?v = "(new AND NOT (cmdsts_readonly 4)) OR (load32 ?m 4 AND cmdsts_readonly 4)"
    define pj where "pj = pi\<lparr>pi_cfgdata := store32 ?m 4 ?v\<rparr>"
    have "CFGREAD pi 4 4 = Inr (load32 ?m 4)" "CFGWRITE pi 4 ?v 4 = Inr pj"
      by (simp_all add: CFGREAD_def CFGWRITE_def pj_def)
    from cmdsts_write_decoding [OF assms(1,2) _ assms(3) acc this, of pic] obtain st mem' pic' where
      r: "pci_emul_cmdsts_write pi 4 new 4 (mem, pic) = Inr (set_lintr_state st pj, mem', pic')" by blast
    have "load16 (pi_cfgdata pj) 4 = ucast (drop_bit 16 ?v)" "load16 (pi_cfgdata pj) 6 = ucast ?v"
      by (simp_all add: pj_def store32_def load16_store16_other)
    moreover have "(ucast (drop_bit 16 ?v) :: u16) = load16 ?m 4"
      unfolding readonly_values load32_def by (rule bit_word_eqI)
        (auto simp: bit_simps bit_word_cat_iff numeral_eq_Suc less_Suc_eq)
    moreover have "(ucast ?v :: u16) = (ucast new AND 0x077F) OR (load16 ?m 6 AND 0xF880)"
      unfolding readonly_values load32_def by (rule bit_word_eqI)
        (auto simp: bit_simps bit_word_cat_iff numeral_eq_Suc less_Suc_eq)
    ultimately show ?thesis
      using r by (intro exI [of _ "set_lintr_state st pj"] exI [of _ mem'] exI [of _ pic']) simp
  qed
qed

theorem status_writable_by_dword_witness:
  "\<exists>pi' mem' pic'. pci_emul_cmdsts_write wit_bar PCIR_COMMAND 0x00020010 4 (wit_bar_mem, []) =
       Inr (pi', mem', pic') \<and> load16 (pi_cfgdata pi') PCIR_STATUS = 0x0010"
proof -
  have "load16 (pi_cfgdata wit_bar) 6 = 0"
    by (simp add: wit_bar_def set_bar_def load16_def word_cat_0_left wit_devinst_def)
  then show ?thesis using status_writable_by_dword [OF wit_bars_ok, of "0x00020010" "[]"] by auto
qed

section \<open>BAR registers\<close>

lemma bar_value:
  "(ucast (ucast (v :: u32) AND NOT (mask k) :: u64) :: u32) = v AND NOT (mask k)"
  by (rule bit_word_eqI) (auto simp: bit_simps)

lemma bar_cfgwrite_mem32:
  assumes "bar_type (pi_bar pi idx) = PCIBAR_MEM32" "bar_size (pi_bar pi idx) = push_bit k 1" "\<not> decoding pi"
  shows "bar_cfgwrite pi idx v mem =
    Inr (ucast v AND NOT (mask k), set_bar_addr pi idx (ucast v AND NOT (mask k)), mem)"
proof -
  let ?a = "ucast v AND NOT (mask k) :: u64"
  have mem: "is_mem_bar pi idx" using assms(1) by (simp add: is_mem_bar_def)
  have "bar_mask pi idx = NOT (mask k)" using assms(2) pow2_minus_1 [of k] by (simp add: bar_mask_def)
  moreover have "update_bar_address pi ?a idx PCIBAR_MEM32 mem = Inr (set_bar_addr pi idx ?a, mem)"
    using update_bar_mem [OF mem, of PCIBAR_MEM32 ?a mem] assms(3) by (simp add: moved_bar_def bar_target_def)
  moreover have "set_bar_addr pi idx ?a = pi" if "?a = bar_addr (pi_bar pi idx)"
    using that by (simp add: set_bar_addr_def set_bar_def)
  ultimately show ?thesis using assms(1) by (auto simp: bar_cfgwrite_def Let_def)
qed

text \<open>C20: A guest that writes \<open>v\<close> to the register of a 32-bit memory BAR of size
  \<open>2 ^ k\<close> while decoding is off reads back \<open>v\<close> with its low \<open>k\<close> bits clear, so that
  writing all ones shows the size; the BAR's address becomes that value and
  no range is registered or removed.\<close>

theorem bar_sizing:
  assumes "plain_dev devs w b pi" "idx \<le> PCI_BARMAX" "\<not> decoding pi"
    and "bar_type (pi_bar pi idx) = PCIBAR_MEM32" "bar_size (pi_bar pi idx) = push_bit k 1"
  shows "\<exists>w' pi'. pci_cfgrw devs False b (PCIR_BAR idx) 4 v w = Inr (v, w') \<and>
    pci_cfgrw devs True b (PCIR_BAR idx) 4 x w' = Inr (v AND NOT (mask k), w') \<and>
    get_devi w' b = Some pi' \<and> bar_addr (pi_bar pi' idx) = ucast v AND NOT (mask k) \<and> w_mem w' = w_mem w"
proof -
  let ?a = "ucast v AND NOT (mask k) :: u64"
  let ?c = "PCIR_BAR idx"
  define pi' where "pi' = (set_bar_addr pi idx ?a)\<lparr>pi_cfgdata := store32 (pi_cfgdata pi) ?c (v AND NOT (mask k))\<rparr>"
  have ok: "cfg_access_ok ?c 4" using assms(2) by (simp add: cfg_access_ok_def)
  have c: "?c \<le> 252" "4 dvd ?c" "?c AND 3 = 0" "?c \<ge> PCIR_BAR 0" "?c < PCIR_BAR (PCI_BARMAX + 1)"
    using assms(2) by (simp_all add: nat_and_3)
  have idx: "(?c - PCIR_BAR 0) div 4 = idx" by simp
  have "pci_set_cfgdata32 (set_bar_addr pi idx ?a) ?c (ucast ?a) = Inr pi'"
    using set_cfgdata32 [OF c(1,2)] bar_value [of v k] by (simp add: pi'_def)
  then have "default_cfgwrite pi ?c 4 v (w_mem w, w_pic w) = Inr (pi', w_mem w, w_pic w)"
    unfolding default_cfgwrite_def idx using c bar_cfgwrite_mem32 [OF assms(4,5,3)] by simp
  then have wr: "pci_cfgrw devs False b ?c 4 v w = Inr (v, put_devi b (Some pi') w)"
    using cfgrw_write [OF assms(1) ok] by simp
  have "plain_dev devs (put_devi b (Some pi') w) b pi'"
    by (rule plain_dev_put [OF assms(1)]) (simp_all add: pi'_def set_bar_addr_def set_bar_def)
  moreover have "CFGREAD pi' ?c 4 = Inr (v AND NOT (mask k))"
    unfolding CFGREAD_def using get_cfgdata32 [OF c(1,2)] by (simp add: pi'_def)
  ultimately have "pci_cfgrw devs True b ?c 4 x (put_devi b (Some pi') w) =
      Inr (v AND NOT (mask k), put_devi b (Some pi') w)"
    using cfgrw_read [OF _ ok] by (simp add: pci_emul_hdrtype_fixup_def)
  moreover have "get_devi (put_devi b (Some pi') w) b = Some pi'"
    using assms(1) by (auto simp: plain_dev_def get_put_devi)
  ultimately show ?thesis using wr by (auto simp: pi'_def set_bar_addr_def set_bar_def)
qed

definition wit_bar_off :: pci_devinst where
  "wit_bar_off = wit_bar\<lparr>pi_cfgdata := (\<lambda>_. 0)\<rparr>"

theorem bar_sizing_witness:
  "\<exists>w'. pci_cfgrw wit_devs False (0, 0, 0) 0x10 4 0xffffffff (wit_dev_world wit_bar_off) = Inr (0xffffffff, w') \<and>
     pci_cfgrw wit_devs True (0, 0, 0) 0x10 4 0 w' = Inr (0xfffe0000, w')"
proof -
  have "pi_devemu wit_bar_off = ''e1000''" "\<not> decoding wit_bar_off"
    "bar_type (pi_bar wit_bar_off 0) = PCIBAR_MEM32" "bar_size (pi_bar wit_bar_off 0) = push_bit 17 1"
    by (simp_all add: wit_bar_off_def wit_bar_def set_bar_def wit_devinst_def decoding_def load16_def
        word_cat_0_left push_bit_eq_mult)
  then show ?thesis
    using bar_sizing [OF wit_plain_dev, of wit_bar_off 0 17 "0xffffffff" 0]
    by (fastforce simp: mask_eq_exp_minus_1)
qed

section \<open>The memory-mapped window\<close>

lemma ecfg_bus:
  assumes "PCI_EMUL_ECFG_BASE \<le> addr" "addr < PCI_EMUL_ECFG_BASE + PCI_EMUL_ECFG_SIZE"
  shows "fst (ecfg_bdf addr) = 220"
proof -
  have lo: "4257218560 \<le> unat addr" and hi: "unat addr < 4257742848"
    using assms by (simp_all add: PCI_EMUL_ECFG_BASE_def PCI_EMUL_ECFG_SIZE_def word_le_nat_alt word_less_nat_alt)
  have "unat (drop_bit 20 addr) = unat addr div 2 ^ 20" by (rule unat_drop_bit)
  also have "\<dots> = 4060" using lo hi by simp
  also have "\<dots> = unat (4060 :: u64)" by simp
  finally have "drop_bit 20 addr = 4060" by (simp only: word_unat_eq_iff)
  then show ?thesis by (simp add: ecfg_bdf_def)
qed

text \<open>The memory-mapped configuration window answers for no device of bus
  0: every address of it decodes to bus 220, because its base is not a
  multiple of 256 MB. With no such bus a read returns all ones and a write
  changes nothing, whatever the offset and width.\<close>

theorem ecfg_window_dead:
  assumes "PCI_EMUL_ECFG_BASE \<le> addr" "addr < PCI_EMUL_ECFG_BASE + PCI_EMUL_ECFG_SIZE"
    and "pci_businfo w 220 = None"
  shows "pci_emul_ecfg_handler devs dir addr bytes val w =
    Inr (0, if dir = MEM_F_READ then - 1 else val, w)"
proof -
  obtain slot func where b: "ecfg_bdf addr = (220, slot, func)"
    using ecfg_bus [OF assms(1,2)] by (cases "ecfg_bdf addr") auto
  have u: "unat (x AND mask n :: u64) < 2 ^ n" for x n
    unfolding take_bit_eq_mask [symmetric] unsigned_take_bit_eq by simp
  have "(mask 5 :: u64) = 0x1f" "(mask 3 :: u64) = 0x7" by (simp_all add: mask_eq_exp_minus_1)
  then have "slot < 32" "func < 8"
    using b u [of "drop_bit 15 addr" 5] u [of "drop_bit 12 addr" 3] by (auto simp: ecfg_bdf_def)
  then have "pci_cfgrw devs rd (220, slot, func) coff bytes eax w = Inr (if rd then 0xffffffff else eax, w)"
    for rd coff eax
    using assms(3) by (simp add: pci_cfgrw_def get_func_def)
  moreover have "push_bit 32 (ucast (ucast (drop_bit 32 val) :: u32)) OR (val AND 0xffffffff) = (val :: u64)"
  proof -
    have "push_bit 32 (ucast (ucast (drop_bit 32 val) :: u32)) OR (val AND mask 32) = (val :: u64)"
      by (rule bit_word_eqI) (auto simp: bit_simps)
    moreover have "(mask 32 :: u64) = 0xffffffff" by (simp add: mask_eq_exp_minus_1)
    ultimately show ?thesis by (simp only:)
  qed
  ultimately show ?thesis by (simp add: pci_emul_ecfg_handler_def b)
qed

theorem ecfg_window_dead_witness:
  "pci_emul_ecfg_handler wit_devs MEM_F_READ 0xFDC08000 4 0 wit_world = Inr (0, - 1, wit_world)"
proof -
  have "pci_businfo wit_world 220 = None" by (simp add: wit_world_def)
  then show ?thesis
    using ecfg_window_dead [of "0xFDC08000" wit_world wit_devs MEM_F_READ 4 0]
    by (simp add: PCI_EMUL_ECFG_BASE_def PCI_EMUL_ECFG_SIZE_def)
qed

section \<open>Start-up of a device\<close>

lemma word_cat_7_0: "(word_cat (7 :: u8) (0 :: u8) :: u16) = 0x0700"
  by (simp add: word_cat_eq)

text \<open>A device is handed to its emulation with the decoding and bus-master
  bits in the wrong byte of the command register: the byte store at the
  register's address is its upper half on this target, so neither port nor
  memory decoding is enabled and legacy interrupts are disabled, although the
  code means to enable the first two.\<close>

theorem init_command_misplaced:
  "\<exists>pdi. pci_emul_init pde b param w =
     bindE (pe_init pde param (pdi, w)) (\<lambda>(err, pdi, w).
       Inr (err, if err = 0 then put_devi b (Some pdi) w else w)) \<and>
   pi_bdf pdi = b \<and> lintr_pin (lintr pdi) = 0 \<and>
   load16 (pi_cfgdata pdi) PCIR_COMMAND = 0x0700 \<and>
   porten pdi = Inr False \<and> memen pdi = Inr False \<and> pci_lintr_permitted pdi = Inr False"
proof -
  obtain bus slot func where b: "b = (bus, slot, func)" by (cases b)
  define pdi where "pdi = zero_devinst\<lparr>pi_bus := bus, pi_slot := slot, pi_func := func,
      lintr := (lintr zero_devinst)\<lparr>lintr_lock := pthread_mutex_init (lintr_lock (lintr zero_devinst))\<rparr>,
      pi_devemu := pe_emu pde,
      pi_name := take 39 (pe_emu pde @ ''-pci-'' @ decimal slot),
      pi_cfgdata := ((pi_cfgdata zero_devinst)(60 := 255, 61 := 0))(4 := 7)\<rparr>"
  have cmd: "load16 (pi_cfgdata pdi) 4 = 0x0700"
    by (simp add: pdi_def load16_def zero_devinst_def word_cat_7_0)
  have "pci_emul_init pde b param w =
     bindE (pe_init pde param (pdi, w)) (\<lambda>(err, pdi, w).
       Inr (err, if err = 0 then put_devi b (Some pdi) w else w))"
    unfolding b by (simp add: pci_emul_init_def pdi_def Let_def)
  moreover have "lintr_pin (lintr pdi) = 0"
    by (simp add: pdi_def zero_devinst_def)
  moreover have "pi_bdf pdi = b" by (simp add: pdi_def pi_bdf_def b)
  ultimately show ?thesis
    using cmd by (intro exI [of _ pdi]) (simp add: porten_eq decoding_def lintr_allowed_def)
qed

section \<open>Interrupt pin allocation\<close>

definition balanced_pins :: "slotinfo \<Rightarrow> bool" where
  "balanced_pins si \<longleftrightarrow> (\<forall>p<4. \<forall>q<4. ii_count (si_intpins si p) \<le> ii_count (si_intpins si q) + 1)"

lemma all_less_4: "(\<forall>p<4. P p) \<longleftrightarrow> P 0 \<and> P 1 \<and> P 2 \<and> P (3 :: nat)"
  by (auto simp: numeral_eq_Suc less_Suc_eq)

lemma least_used_pin:
  "least_used_pin si < 4 \<and> (\<forall>p<4. ii_count (si_intpins si (least_used_pin si)) \<le> ii_count (si_intpins si p))"
  unfolding all_less_4 by (simp add: least_used_pin_def)

lemma balanced_request:
  assumes "balanced_pins si"
  shows "balanced_pins (set_count (least_used_pin si) (\<lambda>ii. ii\<lparr>ii_count := ii_count ii + 1\<rparr>) si)"
  using assms least_used_pin [of si]
  by (auto simp: balanced_pins_def set_count_def intro: le_SucI)

text \<open>A request for a legacy interrupt on an existing bus returns, gives the
  device one of the four pins and shows it in its configuration register;
  the pins of a slot are handed out evenly, no two of them ever differ by more
  than one user.\<close>

theorem lintr_request_balanced:
  assumes "pci_businfo w (pi_bus pi) = Some bi" "balanced_pins (bi_slots bi (pi_slot pi))"
  shows "\<exists>pi' w' bi'. pci_lintr_request (pi, w) = Inr (pi', w') \<and>
    1 \<le> lintr_pin (lintr pi') \<and> lintr_pin (lintr pi') \<le> 4 \<and>
    pi_cfgdata pi' PCIR_INTPIN = of_nat (lintr_pin (lintr pi')) \<and>
    pci_businfo w' (pi_bus pi) = Some bi' \<and> balanced_pins (bi_slots bi' (pi_slot pi)) \<and>
    (\<forall>s. s \<noteq> pi_slot pi \<longrightarrow> bi_slots bi' s = bi_slots bi s)"
proof -
  let ?si = "bi_slots bi (pi_slot pi)"
  have "least_used_pin ?si < 4" using least_used_pin by blast
  then show ?thesis
    using assms balanced_request [OF assms(2)]
    by (simp add: pci_lintr_request_def Let_def map_slot_def)
qed

theorem lintr_request_balanced_witness:
  "\<exists>pi' w'. pci_lintr_request (wit_devinst, wit_world) = Inr (pi', w') \<and> 1 \<le> lintr_pin (lintr pi')"
proof -
  have "pci_businfo wit_world (pi_bus wit_devinst) = Some zero_bus"
    by (simp add: wit_world_def wit_devinst_def)
  moreover have "balanced_pins (bi_slots zero_bus (pi_slot wit_devinst))"
    by (simp add: balanced_pins_def zero_bus_def zero_slot_def)
  ultimately show ?thesis using lintr_request_balanced by blast
qed

end
