(* ===== verification/E1000_Csum.thy ===== *)
theory E1000_Csum
  imports Iovec
begin

text \<open>
  \<open>bhyve/pci_e82545.c\<close>: the Internet checksum that the network card computes over
  the fragments of a packet, and its reference, the one's complement sum of the
  bytes of the packet as big-endian 16-bit numbers.
\<close>

section \<open>Model\<close>

record ck_info =
  ck_valid :: bool
  ck_start :: u8
  ck_off :: u8
  ck_len :: u16

definition e82545_carry :: "u32 \<Rightarrow> u16" where
  "e82545_carry acc =
     (let acc = (acc AND 0xFFFF) + drop_bit 16 acc
      in ucast (if acc > 0xFFFF then acc - 0xFFFF else acc))"

text \<open>The loop over the pairs of bytes at \<open>buf\<close>.\<close>

fun pair_sum :: "bytes \<Rightarrow> nat \<Rightarrow> nat \<Rightarrow> u32 \<Rightarrow> u32" where
  "pair_sum m buf 0 acc = acc"
| "pair_sum m buf (Suc k) acc = pair_sum m (buf + 2) k (acc + ucast (load16 m buf))"

definition e82545_buf_checksum :: "bytes \<Rightarrow> nat \<Rightarrow> nat \<Rightarrow> u16" where
  "e82545_buf_checksum m buf len =
     (let acc = pair_sum m buf (len div 2) 0
      in e82545_carry (if odd len then acc + push_bit 8 (ucast (m (buf + len - 1))) else acc))"

text \<open>The vectors that lie before the offset are skipped.\<close>

fun skip_iov :: "iovec list \<Rightarrow> nat \<Rightarrow> iovec list \<times> nat" where
  "skip_iov [] off = ([], off)"
| "skip_iov (v # vs) off =
     (if iov_len v \<le> off \<and> 0 < off then skip_iov vs (off - iov_len v) else (v # vs, off))"

fun sum_iov :: "bytes \<Rightarrow> iovec list \<Rightarrow> nat \<Rightarrow> int \<Rightarrow> bool \<Rightarrow> u32 \<Rightarrow> u32" where
  "sum_iov m [] off len flip acc = acc"
| "sum_iov m (v # vs) off len flip acc =
     (if 0 < len then
        (let now = min (nat len) (iov_len v - off);
             s = ucast (e82545_buf_checksum m (iov_base v + off) now)
         in sum_iov m vs 0 (len - int now) (flip \<noteq> (now mod 2 = 1)) (acc + (if flip then push_bit 8 s else s)))
      else acc)"

definition e82545_iov_checksum :: "bytes \<Rightarrow> iovec list \<Rightarrow> nat \<Rightarrow> int \<Rightarrow> u16" where
  "e82545_iov_checksum m iov off len =
     (case skip_iov iov off of (vs, off) \<Rightarrow> e82545_carry (sum_iov m vs off len False 0))"

definition ck_range :: "ck_info \<Rightarrow> int" where
  "ck_range ck = (if ck_len ck \<noteq> 0 then uint (ck_len ck) - uint (ck_start ck) + 1 else 2 ^ 31 - 1)"

definition e82545_transmit_checksum :: "bytes \<Rightarrow> iovec list \<Rightarrow> ck_info \<Rightarrow> bytes res" where
  "e82545_transmit_checksum m iov ck =
     (case iov of
        [] \<Rightarrow> Inl Undefined
      | v # _ \<Rightarrow>
          Inr (store16 m (iov_base v + unat (ck_off ck))
            (NOT (e82545_iov_checksum m iov (unat (ck_start ck)) (ck_range ck)))))"

section \<open>The reference\<close>

text \<open>
  \<open>wsum o xs\<close> adds up the bytes, with weight 256 at even places and 1 at odd
  ones, the first place being odd if \<open>o\<close>; \<open>fold16\<close> brings a number into 16 bits
  by adding the carries, so that 0 comes from 0 only.
\<close>

fun wsum :: "bool \<Rightarrow> u8 list \<Rightarrow> nat" where
  "wsum o1 [] = 0"
| "wsum o1 (b # bs) = (if o1 then 1 else 256) * unat b + wsum (\<not> o1) bs"

definition fold16 :: "nat \<Rightarrow> nat" where
  "fold16 n = (if n = 0 then 0 else (n - 1) mod 65535 + 1)"

definition ones_sum :: "u8 list \<Rightarrow> nat" where
  "ones_sum xs = fold16 (wsum False xs)"

text \<open>Equality of one's complement numbers.\<close>

definition eq16 :: "nat \<Rightarrow> nat \<Rightarrow> bool" where
  "eq16 a b \<longleftrightarrow> a mod 65535 = b mod 65535 \<and> (a = 0 \<longleftrightarrow> b = 0)"

lemma suc_mod_cancel: "Suc a mod 65535 = Suc b mod 65535 \<Longrightarrow> a mod 65535 = b mod 65535"
proof -
  assume "Suc a mod 65535 = Suc b mod 65535"
  then have "(Suc a + 65534) mod 65535 = (Suc b + 65534) mod 65535" by (metis mod_add_left_eq)
  then show ?thesis by simp
qed

lemma fold16_eqI: "eq16 a b \<Longrightarrow> fold16 a = fold16 b"
  using suc_mod_cancel [of "a - 1" "b - 1"] by (auto simp: eq16_def fold16_def)

lemma eq16_refl [simp]: "eq16 a a"
  by (simp add: eq16_def)

lemma eq16_sym: "eq16 a b \<Longrightarrow> eq16 b a"
  by (simp add: eq16_def)

lemma eq16_trans [trans]: "eq16 a b \<Longrightarrow> eq16 b c \<Longrightarrow> eq16 a c"
  by (simp add: eq16_def)

lemma eq16_add: "eq16 a b \<Longrightarrow> eq16 c d \<Longrightarrow> eq16 (a + c) (b + d)"
  unfolding eq16_def by (auto intro: mod_add_cong)

lemma eq16_mult: "eq16 a b \<Longrightarrow> eq16 (256 * a) (256 * b)"
  unfolding eq16_def by (auto intro: mod_mult_cong)

lemma eq16_65536: "eq16 (65536 * a) a"
proof -
  have "65536 * a = a + 65535 * a" by simp
  then have "65536 * a mod 65535 = a mod 65535" by (metis mod_mult_self2)
  then show ?thesis by (simp add: eq16_def)
qed

lemma eq16_fold16: "eq16 (fold16 a) a"
  by (cases a) (simp_all add: eq16_def fold16_def mod_Suc_eq)

lemma fold16_le: "fold16 n \<le> 65535"
  by (simp add: fold16_def less_Suc_eq_le [symmetric])

lemma fold16_small: "n \<le> 65535 \<Longrightarrow> fold16 n = n"
  by (cases n) (simp_all add: fold16_def)

lemma wsum_append:
  "wsum o1 (xs @ ys) = wsum o1 xs + wsum (o1 \<noteq> odd (length xs)) ys"
proof (induction xs arbitrary: o1)
  case (Cons x xs)
  then show ?case by (cases o1) simp_all
qed simp

lemma wsum_swap: "eq16 (wsum True xs) (256 * wsum False xs)" "eq16 (wsum False xs) (256 * wsum True xs)"
proof (induction xs)
  case (Cons b bs)
  have b: "eq16 (unat b) (65536 * unat b)" by (rule eq16_sym [OF eq16_65536])
  from eq16_add [OF b Cons.IH(2)] show "eq16 (wsum True (b # bs)) (256 * wsum False (b # bs))"
    by simp
  from eq16_add [OF eq16_refl [of "256 * unat b"] Cons.IH(1)]
  show "eq16 (wsum False (b # bs)) (256 * wsum True (b # bs))" by simp
qed simp_all

section \<open>The routines against the reference\<close>

lemma carry_fold: "unat (e82545_carry s) = fold16 (unat s)"
proof -
  define l where "l = unat s mod 65536"
  define h where "h = unat s div 65536"
  have s: "unat s = 65536 * h + l" by (simp add: l_def h_def)
  have "unat s < 2 ^ 32" by (rule order_less_le_trans [OF unsigned_less]) simp
  then have b: "l \<le> 65535" "h \<le> 65535" unfolding l_def h_def by auto
  have m: "(0xFFFF :: u32) = mask 16" by (simp add: mask_eq_decr_exp)
  have lo: "unat (s AND 0xFFFF) = l"
    unfolding m take_bit_eq_mask [symmetric] unsigned_take_bit_eq by (simp add: take_bit_eq_mod l_def)
  have hi: "unat (drop_bit 16 s) = h"
    using \<open>unat s < 2 ^ 32\<close> unfolding unsigned_drop_bit_eq
    by (simp add: drop_bit_eq_div h_def take_bit_nat_eq_self)
  have t: "unat ((s AND 0xFFFF) + drop_bit 16 s) = l + h"
    using b lo hi by (subst unat_add_lem [THEN iffD1]) auto
  have e: "eq16 (l + h) (unat s)"
  proof -
    have "eq16 (65536 * h + l) (h + l)" by (rule eq16_add [OF eq16_65536]) simp
    then show ?thesis using s by (simp add: eq16_sym add.commute)
  qed
  show ?thesis
  proof (cases "l + h \<le> 65535")
    case True
    then have "unat (e82545_carry s) = l + h"
      using t by (simp add: e82545_carry_def Let_def word_less_nat_alt unsigned_ucast_eq take_bit_nat_eq_self)
    then show ?thesis using True fold16_eqI [OF e] by (simp add: fold16_small)
  next
    case False
    then have "unat ((s AND 0xFFFF) + drop_bit 16 s - 0xFFFF) = l + h - 65535"
      using t by (subst unat_sub) (simp_all add: word_le_nat_alt)
    then have "unat (e82545_carry s) = l + h - 65535"
      using False b t
      by (simp add: e82545_carry_def Let_def word_less_nat_alt unsigned_ucast_eq take_bit_nat_eq_self)
    moreover have "eq16 (l + h - 65535) (l + h)"
      using False by (simp add: eq16_def mod_if) linarith
    ultimately show ?thesis using False b fold16_eqI [OF eq16_trans [OF _ e]]
      by (metis fold16_small le_diff_conv add_mono)
  qed
qed

lemma unat_u8: "unat (a :: u8) < 256"
  by (rule order_less_le_trans [OF unsigned_less]) simp

lemma unat_u16: "unat (a :: u16) < 65536"
  by (rule order_less_le_trans [OF unsigned_less]) simp

lemma unat_push8:
  fixes a :: "'a :: len word"
  assumes "256 * unat a < 2 ^ LENGTH('l)"
  shows "unat (push_bit 8 (ucast a) :: 'l :: len word) = 256 * unat a"
proof -
  have "unat a < 2 ^ LENGTH('l)" using assms by linarith
  then show ?thesis
    using assms unfolding unsigned_push_bit_eq
    by (simp add: push_bit_eq_mult take_bit_nat_eq_self unsigned_ucast_eq ac_simps)
qed

lemma unat_cat8: "unat (word_cat (a :: u8) (b :: u8) :: u16) = 256 * unat a + unat b"
proof -
  have p: "unat (push_bit 8 (ucast a) :: u16) = 256 * unat a" using unat_u8 [of a] by (intro unat_push8) simp
  moreover have "unat (ucast b :: u16) = unat b"
    using unat_u8 [of b] by (simp add: unsigned_ucast_eq take_bit_nat_eq_self)
  ultimately show ?thesis
    using unat_u8 [of a] unat_u8 [of b] unfolding word_cat_eq
    by (subst unat_add_lem [THEN iffD1]) simp_all
qed

lemma wsum_pair: "wsum False (region m a (2 * Suc k)) = unat (load16 m a) + wsum False (region m (a + 2) (2 * k))"
  by (simp add: region_Suc load16_def unat_cat8)

lemma wsum_bound: "wsum False (region m a (2 * k)) \<le> 65535 * k"
proof (induction k arbitrary: a)
  case (Suc k)
  show ?case using unat_u16 [of "load16 m a"] Suc.IH [of "a + 2"]
    unfolding wsum_pair mult_Suc_right [of 65535] by linarith
qed simp

lemma pair_sum_val:
  "unat s + 65535 * k < 2 ^ 32 \<Longrightarrow> unat (pair_sum m a k s) = unat s + wsum False (region m a (2 * k))"
proof (induction k arbitrary: a s)
  case (Suc k)
  have u: "unat (ucast (load16 m a) :: u32) = unat (load16 m a)"
    using unat_u16 [of "load16 m a"] by (simp add: unsigned_ucast_eq take_bit_nat_eq_self)
  then have "unat (s + ucast (load16 m a)) = unat s + unat (load16 m a)"
    using Suc.prems unat_u16 [of "load16 m a"] by (subst unat_add_lem [THEN iffD1]) simp_all
  then show ?case using Suc.IH [of "s + ucast (load16 m a)" "a + 2"] Suc.prems unat_u16 [of "load16 m a"]
    unfolding wsum_pair by simp
qed simp

text \<open>A buffer of up to 131074 bytes cannot overflow the accumulator.\<close>

lemma buf_checksum_val:
  assumes "len \<le> 131074"
  shows "unat (e82545_buf_checksum m a len) = fold16 (wsum False (region m a len))"
proof -
  define k where "k = len div 2"
  have k: "65535 * k < 2 ^ 32" using assms by (simp add: k_def)
  have p: "unat (pair_sum m a k 0) = wsum False (region m a (2 * k))"
    using pair_sum_val [of 0 k m a] k by simp
  show ?thesis
  proof (cases "odd len")
    case True
    then have len: "len = 2 * k + 1" by (simp add: k_def)
    have lo: "k \<le> 65536" using assms len by simp
    have q: "unat (push_bit 8 (ucast (m (a + 2 * k))) :: u32) = 256 * unat (m (a + 2 * k))"
      using unat_u8 [of "m (a + 2 * k)"] by (intro unat_push8) simp
    have "wsum False (region m a (2 * k)) + 256 * unat (m (a + 2 * k)) < 2 ^ 32"
      using wsum_bound [of m a k] lo unat_u8 [of "m (a + 2 * k)"] by simp
    then have "unat (pair_sum m a k 0 + push_bit 8 (ucast (m (a + 2 * k)))) =
        wsum False (region m a (2 * k)) + 256 * unat (m (a + 2 * k))"
      unfolding p [symmetric] q [symmetric] by (subst unat_add_lem [THEN iffD1]) simp_all
    also have "\<dots> = wsum False (region m a (2 * k + 1))"
      unfolding region_add by (simp add: wsum_append region_Suc)
    finally show ?thesis using True by (simp add: e82545_buf_checksum_def k_def [symmetric] carry_fold len)
  next
    case False
    then have "len = 2 * k" by (simp add: k_def)
    then show ?thesis using p False by (simp add: e82545_buf_checksum_def k_def [symmetric] carry_fold)
  qed
qed

text \<open>Fragments that start at an odd place are added with their bytes swapped.\<close>

lemma swap_sum: "eq16 (256 * fold16 (wsum False xs)) (wsum True xs)"
  using eq16_trans [OF eq16_mult [OF eq16_fold16] eq16_sym [OF wsum_swap(1)]] .

lemma sum_iov_val:
  assumes "list_all (\<lambda>v. iov_len v \<le> 131074) iov" "unat s + length iov * 0xFFFF00 < 2 ^ 32"
    "iov \<noteq> [] \<Longrightarrow> off = 0 \<or> off < iov_len (hd iov)"
  shows "eq16 (unat (sum_iov m iov off len fl s)) (unat s + wsum fl (take (nat len) (drop off (gather m iov))))"
  using assms
proof (induction iov arbitrary: off len fl s)
  case (Cons v vs)
  show ?case
  proof (cases "0 < len")
    case True
    define now where "now = min (nat len) (iov_len v - off)"
    define frag where "frag = region m (iov_base v + off) now"
    define c where "c = e82545_buf_checksum m (iov_base v + off) now"
    define t where "t = (if fl then push_bit 8 (ucast c) else ucast c :: u32)"
    have "now \<le> 131074" using Cons.prems(1) by (auto simp: now_def min_def)
    then have c: "unat c = fold16 (wsum False frag)" unfolding c_def frag_def by (rule buf_checksum_val)
    have t: "unat t = (if fl then 256 else 1) * unat c"
      using unat_u16 [of c] unat_push8 [of c, where 'l = 32]
      by (simp add: t_def take_bit_nat_eq_self unsigned_ucast_eq)
    then have tle: "unat t \<le> 0xFFFF00" using unat_u16 [of c] by (simp split: if_splits)
    have st: "unat (s + t) = unat s + unat t"
      using Cons.prems(2) tle by (subst unat_add_lem [THEN iffD1]) simp_all
    have te: "eq16 (unat t) (wsum fl frag)"
      unfolding t c using swap_sum [of frag] eq16_fold16 [of "wsum False frag"] by simp
    have data: "take (nat len) (drop off (gather m (v # vs))) =
        frag @ take (nat (len - int now)) (gather m vs)"
    proof -
      have "off \<le> iov_len v" using Cons.prems(3) by auto
      moreover have "nat (len - int now) = nat len - (iov_len v - off)"
        using True by (simp add: now_def min_def nat_diff_distrib)
      ultimately show ?thesis by (simp add: frag_def now_def drop_region take_region)
    qed
    have "eq16 (unat (sum_iov m vs 0 (len - int now) (fl \<noteq> odd now) (s + t)))
        (unat (s + t) + wsum (fl \<noteq> odd now) (take (nat (len - int now)) (gather m vs)))"
      using Cons.IH [of "s + t" 0 "len - int now" "fl \<noteq> odd now"] Cons.prems tle st by simp
    also have "eq16 \<dots> (unat s + wsum fl (frag @ take (nat (len - int now)) (gather m vs)))"
      unfolding st wsum_append add.assoc using te
      by (intro eq16_add eq16_refl) (simp_all add: frag_def)
    also have "sum_iov m vs 0 (len - int now) (fl \<noteq> odd now) (s + t) = sum_iov m (v # vs) off len fl s"
      using True by (simp add: Let_def t_def c_def now_def odd_iff_mod_2_eq_one)
    finally show ?thesis unfolding data .
  qed simp
qed simp

lemma skip_iov_val:
  "skip_iov iov off = (vs, off') \<Longrightarrow>
   drop off (gather m iov) = drop off' (gather m vs) \<and> (\<exists>us. iov = us @ vs) \<and>
   (vs \<noteq> [] \<longrightarrow> off' = 0 \<or> off' < iov_len (hd vs))"
proof (induction iov off rule: skip_iov.induct)
  case (2 v us off)
  show ?case
  proof (cases "iov_len v \<le> off \<and> 0 < off")
    case True
    have "skip_iov us (off - iov_len v) = (vs, off')" using 2(2) True by simp
    with 2(1) True have "drop (off - iov_len v) (gather m us) = drop off' (gather m vs) \<and>
        (\<exists>ws. us = ws @ vs) \<and> (vs \<noteq> [] \<longrightarrow> off' = 0 \<or> off' < iov_len (hd vs))" by blast
    then show ?thesis using True by (auto intro: exI [of _ "v # _"])
  next
    case False
    then show ?thesis using 2(2) by (auto split: if_splits)
  qed
qed simp

text \<open>C14: The checksum the card computes is the one's complement sum of the selected bytes of the
  packet, however the packet is cut into fragments (of odd or even length, empty ones included): for at most
  256 fragments of up to 131074 bytes each it equals the reference sum of the bytes from the offset
  to the given length, or to the end of the packet.\<close>

theorem csum_fragments:
  assumes "list_all (\<lambda>v. iov_len v \<le> 131074) iov" "length iov \<le> 256"
  shows "unat (e82545_iov_checksum m iov off len) = ones_sum (take (nat len) (drop off (gather m iov)))"
proof -
  obtain vs off' where sk: "skip_iov iov off = (vs, off')" by (cases "skip_iov iov off")
  from skip_iov_val [OF sk, of m] obtain us where us: "iov = us @ vs"
    "drop off (gather m iov) = drop off' (gather m vs)" "vs \<noteq> [] \<Longrightarrow> off' = 0 \<or> off' < iov_len (hd vs)" by blast
  have "eq16 (unat (sum_iov m vs off' len False 0)) (wsum False (take (nat len) (drop off' (gather m vs))))"
    using sum_iov_val [of vs 0 off' m len False] assms us by simp
  then show ?thesis
    by (simp add: e82545_iov_checksum_def sk carry_fold ones_sum_def us(2) fold16_eqI)
qed

definition wit_bytes :: bytes where
  "wit_bytes a = word_of_nat (3 * a + 1)"

theorem csum_fragments_witness:
  "unat (e82545_iov_checksum wit_bytes [\<lparr>iov_base = 2, iov_len = 3\<rparr>, \<lparr>iov_base = 9, iov_len = 0\<rparr>,
     \<lparr>iov_base = 40, iov_len = 4\<rparr>] 1 5) = ones_sum [10, 13, 121, 124, 127]"
  using csum_fragments [of "[\<lparr>iov_base = 2, iov_len = 3\<rparr>, \<lparr>iov_base = 9, iov_len = 0\<rparr>,
     \<lparr>iov_base = 40, iov_len = 4\<rparr>]" wit_bytes 1 5]
  by (simp add: region_def wit_bytes_def)

text \<open>
  A longer fragment can overflow the 32-bit accumulator: for 131076 bytes of
  ones, whose one's complement sum is 65535, the card computes 65534.
\<close>

lemma pair_sum_ones: "pair_sum (\<lambda>_. 0xFF) a k s = s + of_nat k * 0xFFFF"
proof (induction k arbitrary: a s)
  case (Suc k)
  have "load16 (\<lambda>_. 0xFF) a = 0xFFFF" by (simp add: load16_def word_cat_eq)
  then show ?case by (simp add: Suc.IH distrib_right add.assoc)
qed simp

lemma wsum_ones: "wsum False (region (\<lambda>_. 0xFF) a (2 * k)) = 65535 * k"
  by (induction k arbitrary: a) (simp_all add: region_Suc)

lemma long_fragment_checksum:
  "unat (e82545_buf_checksum (\<lambda>_. 0xFF) a 131076) = 65534"
  "ones_sum (region (\<lambda>_. 0xFF) a 131076) = 65535"
proof -
  have "e82545_buf_checksum (\<lambda>_. 0xFF) a 131076 = e82545_carry (of_nat 65538 * 0xFFFF)"
    by (simp add: e82545_buf_checksum_def pair_sum_ones)
  also have "of_nat 65538 * 0xFFFF = (0xFFFE :: u32)" by simp
  finally show "unat (e82545_buf_checksum (\<lambda>_. 0xFF) a 131076) = 65534"
    by (simp add: carry_fold fold16_small)
  have "wsum False (region (\<lambda>_. 0xFF) a 131076) = 65535 * 65538"
    using wsum_ones [of a 65538] by simp
  then show "ones_sum (region (\<lambda>_. 0xFF) a 131076) = 65535"
    by (simp add: ones_sum_def fold16_def)
qed

section \<open>The checksum field\<close>

text \<open>What the card does to the packet as a list of bytes.\<close>

definition put_csum :: "ck_info \<Rightarrow> u8 list \<Rightarrow> u8 list" where
  "put_csum ck p =
     take (unat (ck_off ck)) p @
     bytes16 (NOT (word_of_nat (ones_sum (take (nat (ck_range ck)) (drop (unat (ck_start ck)) p))))) @
     drop (unat (ck_off ck) + 2) p"

lemma region_store16:
  assumes "k + 2 \<le> n"
  shows "region (store16 m (a + k) v) a n = take k (region m a n) @ bytes16 v @ drop (k + 2) (region m a n)"
proof (rule nth_equalityI)
  fix i assume "i < length (region (store16 m (a + k) v) a n)"
  then show "region (store16 m (a + k) v) a n ! i =
      (take k (region m a n) @ bytes16 v @ drop (k + 2) (region m a n)) ! i"
    using assms by (auto simp: nth_append store16_def bytes16_def nth_Cons' drop_region less_Suc_eq)
      (rule arg_cong [where f = m], arith)
qed (use assms in simp)

lemma transmit_checksum_ref:
  assumes "list_all (\<lambda>v. iov_len v \<le> 131074) (v # vs)" "length (v # vs) \<le> 256"
    "unat (ck_off ck) + 2 \<le> iov_len v"
    "clear_of {iov_base v + unat (ck_off ck)..<iov_base v + unat (ck_off ck) + 2} vs"
  shows "\<exists>m'. e82545_transmit_checksum m (v # vs) ck = Inr m' \<and>
    gather m' (v # vs) = put_csum ck (gather m (v # vs)) \<and>
    (\<forall>a. a \<notin> {iov_base v + unat (ck_off ck)..<iov_base v + unat (ck_off ck) + 2} \<longrightarrow> m' a = m a)"
proof -
  define o1 where "o1 = unat (ck_off ck)"
  define c where "c = e82545_iov_checksum m (v # vs) (unat (ck_start ck)) (ck_range ck)"
  define m' where "m' = store16 m (iov_base v + o1) (NOT c)"
  have "c = word_of_nat (unat c)" by simp
  also have "unat c = ones_sum (take (nat (ck_range ck)) (drop (unat (ck_start ck)) (gather m (v # vs))))"
    unfolding c_def by (rule csum_fragments [OF assms(1,2)])
  finally have c: "c = word_of_nat (ones_sum (take (nat (ck_range ck)) (drop (unat (ck_start ck)) (gather m (v # vs)))))" .
  have oth: "\<forall>a. a \<notin> {iov_base v + o1..<iov_base v + o1 + 2} \<longrightarrow> m' a = m a"
    by (auto simp: m'_def store16_other)
  then have "gather m' vs = gather m vs"
    using assms(4) by (intro gather_cong) (auto simp: o1_def)
  then have "gather m' (v # vs) = put_csum ck (gather m (v # vs))"
    unfolding put_csum_def c [symmetric] o1_def [symmetric]
    using assms(3) by (simp add: m'_def region_store16 o1_def [symmetric])
  then show ?thesis using oth by (simp add: e82545_transmit_checksum_def c_def [symmetric] m'_def [symmetric] o1_def [symmetric])
qed

text \<open>The checksum field starts at an even place of the range, and lies inside it.\<close>

definition field_at :: "ck_info \<Rightarrow> nat \<Rightarrow> bool" where
  "field_at ck n \<longleftrightarrow> ck_start ck \<le> ck_off ck \<and> even (unat (ck_off ck) - unat (ck_start ck)) \<and>
     int (unat (ck_off ck)) + 2 \<le> min (int (unat (ck_start ck)) + ck_range ck) (int n)"

definition ck_bytes :: "ck_info \<Rightarrow> u8 list \<Rightarrow> u8 list" where
  "ck_bytes ck p = take (nat (ck_range ck)) (drop (unat (ck_start ck)) p)"

lemma wsum_bytes16: "wsum False (bytes16 v) = unat v"
proof -
  have "unat v = 256 * unat (ucast (drop_bit 8 v) :: u8) + unat (ucast v :: u8)"
    using unat_cat8 [of "ucast (drop_bit 8 v)" "ucast v"] by (simp add: word_cat_ucast16)
  then show ?thesis by (simp add: bytes16_def)
qed

lemma length_put_csum [simp]: "unat (ck_off ck) + 2 \<le> length p \<Longrightarrow> length (put_csum ck p) = length p"
  by (simp add: put_csum_def)

lemma put_csum_verifies:
  assumes "field_at ck (length p)"
  shows "fold16 (unat (word_cat (p ! unat (ck_off ck)) (p ! (unat (ck_off ck) + 1)) :: u16) +
    wsum False (ck_bytes ck (put_csum ck p))) = 65535"
proof -
  define st where "st = unat (ck_start ck)"
  define k where "k = unat (ck_off ck) - st"
  define n where "n = nat (ck_range ck)"
  define c where "c = ones_sum (ck_bytes ck p)"
  have "even k" using assms by (simp only: field_at_def st_def k_def)
  have le: "st \<le> unat (ck_off ck)" "int (unat (ck_off ck)) + 2 \<le> int st + ck_range ck"
    "unat (ck_off ck) + 2 \<le> length p"
    using assms unfolding field_at_def st_def k_def word_le_nat_alt min.bounded_iff by linarith+
  have off: "unat (ck_off ck) = st + k" using le by (simp add: k_def)
  have n: "k + 2 \<le> n" using le(2) off unfolding n_def by linarith
  define q where "q = drop st p"
  have q: "k + 2 \<le> length q" using le(3) off by (simp add: q_def)
  define us where "us = take k q"
  define ws where "ws = take (n - k - 2) (drop (k + 2) q)"
  have us: "length us = k" using q by (simp add: us_def)
  have p2: "p ! (st + k) = q ! k" "p ! (st + k + 1) = q ! (k + 1)" using le(3) off by (simp_all add: q_def add.assoc)
  have old: "ck_bytes ck p = us @ [q ! k, q ! (k + 1)] @ ws"
  proof -
    have "q = us @ [q ! k, q ! (k + 1)] @ drop (k + 2) q"
      using q by (simp add: us_def Cons_nth_drop_Suc)
    then have "take n q = take n (us @ [q ! k, q ! (k + 1)] @ drop (k + 2) q)" by simp
    then show ?thesis using n us unfolding ck_bytes_def st_def [symmetric] n_def [symmetric] q_def [symmetric]
      by (simp add: ws_def take_Cons')
  qed
  have new: "ck_bytes ck (put_csum ck p) = us @ bytes16 (NOT (word_of_nat c)) @ ws"
  proof -
    have cc: "ones_sum (take n (drop st p)) = c" by (simp add: c_def ck_bytes_def n_def st_def)
    have "drop st (take (st + k) p) = us" by (simp add: us_def q_def drop_take)
    then show ?thesis using n us le(3) off
      unfolding ck_bytes_def put_csum_def st_def [symmetric] n_def [symmetric] cc
      by (simp add: ws_def q_def take_append add.assoc add.commute [of st])
  qed
  have "c \<le> 65535" unfolding c_def ones_sum_def by (rule fold16_le)
  then have cn: "unat (NOT (word_of_nat c :: u16)) = 65535 - c"
  proof -
    have "NOT (word_of_nat c :: u16) = - 1 - word_of_nat c" by (simp add: not_eq_complement)
    moreover have "unat (- 1 - word_of_nat c :: u16) = unat (- 1 :: u16) - unat (word_of_nat c :: u16)"
      by (rule unat_sub) simp
    ultimately show ?thesis using \<open>c \<le> 65535\<close>
      by (simp add: unsigned_minus_1_eq_mask mask_eq_exp_minus_1 unat_of_nat take_bit_nat_eq_self)
  qed
  have "eq16 c (wsum False (ck_bytes ck p))" unfolding c_def ones_sum_def by (rule eq16_fold16)
  then have "eq16 (c + (65535 - c)) (wsum False (ck_bytes ck p) + (65535 - c))" by (intro eq16_add) simp_all
  moreover have "c + (65535 - c) = 65535" using \<open>c \<le> 65535\<close> by simp
  ultimately have "fold16 65535 = fold16 (wsum False (ck_bytes ck p) + (65535 - c))"
    by (metis fold16_eqI)
  moreover have "unat (word_cat (q ! k) (q ! (k + 1)) :: u16) + wsum False (ck_bytes ck (put_csum ck p)) =
      wsum False (ck_bytes ck p) + (65535 - c)"
    unfolding old new using \<open>even k\<close> us by (simp add: wsum_append wsum_bytes16 cn unat_cat8)
  ultimately show ?thesis unfolding off p2 by (simp add: fold16_small)
qed

text \<open>C29: A checksum the card inserts verifies: if the field lies at an even place of the selected range
  and in the first fragment, which no other fragment overlaps, inserting it changes the two bytes of
  the field only, the vector then holds the packet with the reference checksum in the field, and the
  receiver's sum over the range, with the value the driver had left in the field (the sum of the
  pseudo header) added, is all ones.\<close>

theorem checksum_verifies:
  assumes "list_all (\<lambda>v. iov_len v \<le> 131074) (v # vs)" "length (v # vs) \<le> 256"
    "unat (ck_off ck) + 2 \<le> iov_len v"
    "clear_of {iov_base v + unat (ck_off ck)..<iov_base v + unat (ck_off ck) + 2} vs"
    "field_at ck (iov_size (v # vs))"
  shows "\<exists>m'. e82545_transmit_checksum m (v # vs) ck = Inr m' \<and>
    (\<forall>a. m' a \<noteq> m a \<longrightarrow> a \<in> {iov_base v + unat (ck_off ck)..<iov_base v + unat (ck_off ck) + 2}) \<and>
    gather m' (v # vs) = put_csum ck (gather m (v # vs)) \<and>
    fold16 (unat (load16 m (iov_base v + unat (ck_off ck))) + wsum False (ck_bytes ck (gather m' (v # vs)))) = 65535"
proof -
  obtain m' where m': "e82545_transmit_checksum m (v # vs) ck = Inr m'"
    "gather m' (v # vs) = put_csum ck (gather m (v # vs))"
    "\<forall>a. a \<notin> {iov_base v + unat (ck_off ck)..<iov_base v + unat (ck_off ck) + 2} \<longrightarrow> m' a = m a"
    using transmit_checksum_ref [OF assms(1-4)] by blast
  have "load16 m (iov_base v + unat (ck_off ck)) =
      word_cat (gather m (v # vs) ! unat (ck_off ck)) (gather m (v # vs) ! (unat (ck_off ck) + 1))"
    using assms(3) by (simp add: load16_def nth_append)
  then show ?thesis using m' put_csum_verifies [of ck "gather m (v # vs)"] assms(5) by (auto simp del: gather_simps)
qed

theorem checksum_verifies_witness:
  "\<exists>m'. e82545_transmit_checksum wit_bytes [\<lparr>iov_base = 2, iov_len = 7\<rparr>, \<lparr>iov_base = 40, iov_len = 4\<rparr>]
       \<lparr>ck_valid = True, ck_start = 1, ck_off = 5, ck_len = 0\<rparr> = Inr m' \<and>
     fold16 (unat (load16 wit_bytes 7) + wsum False (drop 1 (gather m' [\<lparr>iov_base = 2, iov_len = 7\<rparr>,
       \<lparr>iov_base = 40, iov_len = 4\<rparr>]))) = 65535"
proof -
  note * = checksum_verifies [of "\<lparr>iov_base = 2, iov_len = 7\<rparr>" "[\<lparr>iov_base = 40, iov_len = 4\<rparr>]"
      "\<lparr>ck_valid = True, ck_start = 1, ck_off = 5, ck_len = 0\<rparr>" wit_bytes]
  show ?thesis using * by (simp add: field_at_def ck_range_def ck_bytes_def iov_size_def) blast
qed

end
