(* ===== verification/E1000_Tx.thy ===== *)
theory E1000_Tx
  imports E1000_Regs E1000_Csum
begin

text \<open>
  \<open>bhyve/pci_e82545.c\<close>: transmission. The card gathers the descriptors of one
  packet from the ring, builds a writable copy of the headers on the stack,
  inserts the VLAN tag and the checksums or cuts the packet into TCP or UDP
  segments, hands the result to the FIFO driver, and writes the status back
  into the descriptors.

  The memory is one flat store of bytes, the stack included: \<open>stk\<close> is the address that
  \<open>alloca\<close> returns for the header copy. The packets given to the driver
  are logged as the bytes of their vectors.
\<close>

section \<open>State and descriptors\<close>

record e1000_io =
  io_sc :: e82545_softc
  io_mem :: bytes
  io_sent :: "u8 list list"

abbreviation (input) E1000_TXD_CMD_EOP :: u32 where "E1000_TXD_CMD_EOP \<equiv> 0x01000000"
abbreviation (input) E1000_TXD_CMD_IFCS :: u32 where "E1000_TXD_CMD_IFCS \<equiv> 0x02000000"
abbreviation (input) E1000_TXD_CMD_IC :: u32 where "E1000_TXD_CMD_IC \<equiv> 0x04000000"
abbreviation (input) E1000_TXD_CMD_TSE :: u32 where "E1000_TXD_CMD_TSE \<equiv> 0x04000000"
abbreviation (input) E1000_TXD_CMD_TCP :: u32 where "E1000_TXD_CMD_TCP \<equiv> 0x01000000"
abbreviation (input) E1000_TXD_CMD_IP :: u32 where "E1000_TXD_CMD_IP \<equiv> 0x02000000"
abbreviation (input) E1000_TXD_CMD_RS :: u32 where "E1000_TXD_CMD_RS \<equiv> 0x08000000"
abbreviation (input) E1000_TXD_CMD_DEXT :: u32 where "E1000_TXD_CMD_DEXT \<equiv> 0x20000000"
abbreviation (input) E1000_TXD_CMD_VLE :: u32 where "E1000_TXD_CMD_VLE \<equiv> 0x40000000"
abbreviation (input) E1000_TXD_MASK :: u32 where "E1000_TXD_MASK \<equiv> 0x20F00000"
abbreviation (input) E1000_TXD_TYP_L :: u32 where "E1000_TXD_TYP_L \<equiv> 0"
abbreviation (input) E1000_TXD_TYP_C :: u32 where "E1000_TXD_TYP_C \<equiv> 0x20000000"
abbreviation (input) E1000_TXD_TYP_D :: u32 where "E1000_TXD_TYP_D \<equiv> 0x20100000"
abbreviation (input) E1000_TXD_POPTS_IXSM :: u8 where "E1000_TXD_POPTS_IXSM \<equiv> 0x01"
abbreviation (input) E1000_TXD_POPTS_TXSM :: u8 where "E1000_TXD_POPTS_TXSM \<equiv> 0x02"
abbreviation (input) E1000_CTRL_VME :: u32 where "E1000_CTRL_VME \<equiv> 0x40000000"
abbreviation (input) E1000_ICR_TXDW :: u32 where "E1000_ICR_TXDW \<equiv> 0x00000001"
abbreviation (input) E1000_ICR_TXQE :: u32 where "E1000_ICR_TXQE \<equiv> 0x00000002"

definition I82545_MAX_TXSEGS :: nat where "I82545_MAX_TXSEGS = 64"

definition e82545_txdesc_type :: "u32 \<Rightarrow> u32" where
  "e82545_txdesc_type lower = (if lower AND E1000_TXD_CMD_DEXT \<noteq> 0 then lower AND E1000_TXD_MASK else 0)"

text \<open>The fields of a descriptor at address \<open>d\<close>, which the three layouts share.\<close>

definition td_lower :: "bytes \<Rightarrow> nat \<Rightarrow> u32" where
  "td_lower m d = le32 m (d + 8)"

text \<open>The local variables of the loop over the descriptors of a packet.\<close>

record tx_pkt =
  tp_head :: nat
  tp_desc :: nat
  tp_iov :: "iovec list"
  tp_iovcnt :: nat
  tp_ntype :: u32
  tp_ck0 :: ck_info
  tp_ck1 :: ck_info
  tp_tso :: bool

definition no_ck :: ck_info where
  "no_ck = \<lparr>ck_valid = False, ck_start = 0, ck_off = 0, ck_len = 0\<rparr>"

definition tx_pkt0 :: "nat \<Rightarrow> tx_pkt" where
  "tx_pkt0 head = \<lparr>tp_head = head, tp_desc = 0, tp_iov = [], tp_iovcnt = 0, tp_ntype = 0,
     tp_ck0 = no_ck, tp_ck1 = no_ck, tp_tso = False\<rparr>"

datatype tx_step = Tx_context | Tx_more tx_pkt | Tx_last tx_pkt

text \<open>The length of a descriptor's buffer, and the fragment it adds.\<close>

definition td_len :: "bytes \<Rightarrow> nat \<Rightarrow> nat" where
  "td_len m d = (if e82545_txdesc_type (td_lower m d) = E1000_TXD_TYP_L then unat (le16 m (d + 8))
     else unat (td_lower m d AND 0xFFFFF))"

definition add_frag :: "bool \<Rightarrow> bytes \<Rightarrow> nat \<Rightarrow> tx_pkt \<Rightarrow> tx_pkt" where
  "add_frag iommu m d p =
     (let lower = td_lower m d; len = td_len m d in
      if 0 < len then
        (let len' = (if lower AND E1000_TXD_CMD_EOP \<noteq> 0 \<and> lower AND E1000_TXD_CMD_IFCS = 0
                     then int len - 2 else int len);
             frag = \<lparr>iov_base = unat (paddr_guest2host iommu (le64 m d)), iov_len = nat (len' mod 2 ^ 64)\<rparr>
         in p\<lparr>tp_iov := (if tp_iovcnt p < I82545_MAX_TXSEGS then tp_iov p @ [frag] else tp_iov p),
              tp_iovcnt := tp_iovcnt p + 1\<rparr>)
      else p)"

text \<open>What the last descriptor of a packet says, with the saved context \<open>cd\<close>.\<close>

definition last_desc :: "u8 list \<Rightarrow> bytes \<Rightarrow> nat \<Rightarrow> tx_pkt \<Rightarrow> tx_pkt" where
  "last_desc cd m d p =
     (let lower = td_lower m d in
      if e82545_txdesc_type lower = E1000_TXD_TYP_L then
        (if lower AND E1000_TXD_CMD_IC \<noteq> 0
         then p\<lparr>tp_ck0 := (tp_ck0 p)\<lparr>ck_valid := True, ck_off := m (d + 10), ck_len := 0\<rparr>\<rparr> else p)
      else
        (let tso = (lower AND E1000_TXD_CMD_TSE \<noteq> 0);
             popts = m (d + 13);
             ixsm = (popts AND E1000_TXD_POPTS_IXSM \<noteq> 0);
             txsm = (popts AND E1000_TXD_POPTS_TXSM \<noteq> 0);
             c = nth cd;
             ck0 = (tp_ck0 p)\<lparr>ck_valid := ixsm \<or> ck_valid (tp_ck0 p)\<rparr>;
             ck1 = (tp_ck1 p)\<lparr>ck_valid := txsm \<or> ck_valid (tp_ck1 p)\<rparr>
         in p\<lparr>tp_tso := tso,
              tp_ck0 := (if ixsm \<or> tso then ck0\<lparr>ck_start := c 0, ck_off := c 1, ck_len := le16 c 2\<rparr> else ck0),
              tp_ck1 := (if txsm \<or> tso then ck1\<lparr>ck_start := c 4, ck_off := c 5, ck_len := le16 c 6\<rparr> else ck1)\<rparr>))"

text \<open>The type of the first descriptor selects the packet; later ones must agree.\<close>

definition tx_desc :: "bool \<Rightarrow> u8 list \<Rightarrow> bytes \<Rightarrow> nat \<Rightarrow> tx_pkt \<Rightarrow> tx_step res" where
  "tx_desc iommu cd m d p =
     (let lower = td_lower m d; dtype = e82545_txdesc_type lower in
      if tp_desc p = 0 \<and> dtype = E1000_TXD_TYP_C then Inr Tx_context
      else
        bindE (if tp_desc p = 0 then
                 Inr (if dtype = E1000_TXD_TYP_L then
                        p\<lparr>tp_ntype := dtype, tp_ck0 := (tp_ck0 p)\<lparr>ck_start := m (d + 13)\<rparr>\<rparr>
                      else if dtype = E1000_TXD_TYP_D then p\<lparr>tp_ntype := dtype\<rparr>
                      else p)
               else bindE (assertE (dtype = tp_ntype p)) (\<lambda>_. Inr p)) (\<lambda>p.
        let p = add_frag iommu m d p
        in Inr (if lower AND E1000_TXD_CMD_EOP \<noteq> 0 then Tx_last (last_desc cd m d p) else Tx_more p)))"

definition next_desc :: "nat \<Rightarrow> nat \<Rightarrow> nat res" where
  "next_desc dsize head = (if dsize = 0 then Inl Div_zero else Inr ((head + 1) mod dsize))"

text \<open>
  The loop: \<open>None\<close> if it is never left. It ends when the ring is
  empty, with a context descriptor, or with a complete packet.
\<close>

datatype tx_end = Tx_idle | Tx_ctx tx_pkt | Tx_packet tx_pkt

partial_function (option) tx_gather ::
    "bool \<Rightarrow> u8 list \<Rightarrow> bytes \<Rightarrow> nat \<Rightarrow> nat \<Rightarrow> nat \<Rightarrow> tx_pkt \<Rightarrow> tx_end res option" where
  "tx_gather iommu cd m ring dsize tail p =
     (if tp_head p = tail then Some (Inr Tx_idle)
      else
        (case tx_desc iommu cd m (ring + 16 * tp_head p) p of
           Inl e \<Rightarrow> Some (Inl e)
         | Inr Tx_context \<Rightarrow> Some (Inr (Tx_ctx p))
         | Inr (Tx_last p) \<Rightarrow> Some (Inr (Tx_packet p))
         | Inr (Tx_more p) \<Rightarrow>
             (case next_desc dsize (tp_head p) of
                Inl e \<Rightarrow> Some (Inl e)
              | Inr head \<Rightarrow>
                  tx_gather iommu cd m ring dsize tail (p\<lparr>tp_head := head, tp_desc := tp_desc p + 1\<rparr>))))"

section \<open>The header copy and the VLAN tag\<close>

text \<open>The first \<open>left\<close> bytes of the vector are copied to \<open>dst\<close> and taken off it.\<close>

fun hdr_copy :: "bytes \<Rightarrow> nat \<Rightarrow> nat \<Rightarrow> iovec list \<Rightarrow> (bytes \<times> iovec list) res" where
  "hdr_copy m dst left iov =
     (if left = 0 then Inr (m, iov)
      else
        (case iov of
           [] \<Rightarrow> Inl Undefined
         | v # vs \<Rightarrow>
             (let now = min left (iov_len v);
                  m = memcpy m dst (iov_base v) now;
                  v = v\<lparr>iov_base := iov_base v + now, iov_len := iov_len v - now\<rparr>
              in if iov_len v = 0 then hdr_copy m (dst + now) (left - now) vs else Inr (m, v # vs))))"

declare hdr_copy.simps [simp del]

text \<open>The frame under construction: header address and length, vector, checksums.\<close>

record tx_frame =
  tf_hdr :: "nat option"
  tf_hdrlen :: nat
  tf_iov :: "iovec list"
  tf_ck0 :: ck_info
  tf_ck1 :: ck_info

definition tx_vlen :: "u32 \<Rightarrow> u32 \<Rightarrow> nat" where
  "tx_vlen ctrl lower =
     (if ctrl AND E1000_CTRL_VME \<noteq> 0 \<and> lower AND E1000_TXD_CMD_VLE \<noteq> 0 then 4 else 0)"

definition tx_hdrlen :: "u8 list \<Rightarrow> nat \<Rightarrow> tx_pkt \<Rightarrow> nat res" where
  "tx_hdrlen cd vlen p =
     (if tp_tso p then Inr (unat (cd ! 13))
      else
        (let h = (if vlen \<noteq> 0 then 12 else 0);
             h = (if ck_valid (tp_ck0 p) then max h (unat (ck_off (tp_ck0 p)) + 2) else h);
             h = (if ck_valid (tp_ck1 p) then max h (unat (ck_off (tp_ck1 p)) + 2) else h)
         in if h = 0 then Inr 0
            else
              (case tp_iov p of
                 [] \<Rightarrow> Inl Undefined
               | v # _ \<Rightarrow> Inr (if h < iov_len v \<and> iov_len v < h + 100 then iov_len v else h))))"

definition vlan_ck :: "ck_info \<Rightarrow> ck_info" where
  "vlan_ck ck = ck\<lparr>ck_start := ck_start ck + 4, ck_off := ck_off ck + 4,
     ck_len := (if ck_len ck \<noteq> 0 then ck_len ck + 4 else 0)\<rparr>"

text \<open>The four bytes of the tag: the VLAN type of the card, and the tag of the descriptor.\<close>

definition vlan_tag :: "u32 \<Rightarrow> u16 \<Rightarrow> u8 list" where
  "vlan_tag vet special = [ucast (drop_bit 8 vet), ucast vet, ucast (drop_bit 8 special), ucast special]"

definition put_bytes :: "bytes \<Rightarrow> nat \<Rightarrow> u8 list \<Rightarrow> bytes" where
  "put_bytes m a bs = (\<lambda>b. if a \<le> b \<and> b < a + length bs then bs ! (b - a) else m b)"

definition insert_vlan :: "u32 \<Rightarrow> u16 \<Rightarrow> bytes \<Rightarrow> tx_frame \<Rightarrow> (bytes \<times> tx_frame) res" where
  "insert_vlan vet special m f =
     (case (tf_hdr f, tf_iov f) of
        (Some hdr, v # vs) \<Rightarrow>
          (let hdr = hdr - 4;
               m = memcpy m hdr (hdr + 4) 12;
               m = put_bytes m (hdr + 12) (vlan_tag vet special)
           in Inr (m, f\<lparr>tf_hdr := Some hdr, tf_hdrlen := tf_hdrlen f + 4,
                  tf_iov := v\<lparr>iov_base := hdr, iov_len := iov_len v + 4\<rparr> # vs,
                  tf_ck0 := vlan_ck (tf_ck0 f), tf_ck1 := vlan_ck (tf_ck1 f)\<rparr>))
      | _ \<Rightarrow> Inl Undefined)"

definition tx_headers ::
    "e82545_softc \<Rightarrow> nat \<Rightarrow> nat \<Rightarrow> tx_pkt \<Rightarrow> bytes \<Rightarrow> (bytes \<times> tx_frame) res" where
  "tx_headers sc stk d p m =
     (let vlen = tx_vlen (esc_CTRL sc) (td_lower m d); special = le16 m (d + 14) in
      bindE (tx_hdrlen (esc_txctx (tx_part sc)) vlen p) (\<lambda>hdrlen.
      bindE (if hdrlen \<noteq> 0 then
               bindE (hdr_copy m (stk + vlen) hdrlen (tp_iov p)) (\<lambda>(m, iov).
               Inr (m, \<lparr>tf_hdr = Some (stk + vlen), tf_hdrlen = hdrlen,
                 tf_iov = \<lparr>iov_base = stk + vlen, iov_len = hdrlen\<rparr> # iov,
                 tf_ck0 = tp_ck0 p, tf_ck1 = tp_ck1 p\<rparr>))
             else Inr (m, \<lparr>tf_hdr = None, tf_hdrlen = 0, tf_iov = tp_iov p,
                 tf_ck0 = tp_ck0 p, tf_ck1 = tp_ck1 p\<rparr>)) (\<lambda>(m, f).
      if vlen \<noteq> 0 then insert_vlan (esc_VET sc) special m f else Inr (m, f))))"

definition put_ck :: "bytes \<Rightarrow> iovec list \<Rightarrow> ck_info \<Rightarrow> bytes res" where
  "put_ck m iov ck = (if ck_valid ck then e82545_transmit_checksum m iov ck else Inr m)"

definition e82545_transmit_backend :: "bytes \<Rightarrow> iovec list \<Rightarrow> u8 list list \<Rightarrow> u8 list list" where
  "e82545_transmit_backend m iov sent = sent @ [gather m iov]"

text \<open>The simple case.\<close>

definition tx_simple :: "bytes \<Rightarrow> tx_frame \<Rightarrow> u8 list list \<Rightarrow> (bytes \<times> u8 list list) res" where
  "tx_simple m f sent =
     bindE (put_ck m (tf_iov f) (tf_ck0 f)) (\<lambda>m.
     bindE (put_ck m (tf_iov f) (tf_ck1 f)) (\<lambda>m.
     Inr (m, e82545_transmit_backend m (tf_iov f) sent)))"

section \<open>Segmentation\<close>

text \<open>The next \<open>n\<close> bytes of the payload: their vector, what remains, and the offset in its head.\<close>

fun tso_slice :: "iovec list \<Rightarrow> nat \<Rightarrow> nat \<Rightarrow> iovec list \<times> iovec list \<times> nat" where
  "tso_slice [] off n = ([], [], off)"
| "tso_slice (v # vs) off n =
     (if n = 0 then ([], v # vs, off)
      else
        (let nnow = min n (iov_len v - off);
             piece = \<lparr>iov_base = iov_base v + off, iov_len = nnow\<rparr>
         in if off + nnow = iov_len v then
              (case tso_slice vs 0 (n - nnow) of (ts, rest, o1) \<Rightarrow> (piece # ts, rest, o1))
            else ([piece], v # vs, off + nnow)))"

text \<open>What stays the same over the segments of a packet.\<close>

record tso_info =
  ts_hdr :: nat
  ts_hdrlen :: nat
  ts_ck0 :: ck_info
  ts_ck1 :: ck_info
  ts_cmd :: u32
  ts_mss :: nat
  ts_paylen :: nat
  ts_ipid :: u16
  ts_tcpseq :: u32
  ts_ipcs :: u16
  ts_tcpcs :: u16

definition tso_start :: "u8 list \<Rightarrow> bytes \<Rightarrow> tx_frame \<Rightarrow> tso_info res" where
  "tso_start cd m f =
     (case tf_hdr f of
        None \<Rightarrow> Inl Undefined
      | Some hdr \<Rightarrow>
          (let s0 = unat (ck_start (tf_ck0 f)); s1 = unat (ck_start (tf_ck1 f)); cmd = le32 (nth cd) 8
           in Inr \<lparr>ts_hdr = hdr, ts_hdrlen = tf_hdrlen f, ts_ck0 = tf_ck0 f, ts_ck1 = tf_ck1 f, ts_cmd = cmd,
                ts_mss = unat (le16 (nth cd) 14), ts_paylen = unat (cmd AND 0x000fffff),
                ts_ipid = load16 m (hdr + s0 + 4), ts_tcpseq = load32 m (hdr + s1 + 4),
                ts_ipcs = load16 m (hdr + unat (ck_off (tf_ck0 f))),
                ts_tcpcs = (if ck_valid (tf_ck1 f) then load16 m (hdr + unat (ck_off (tf_ck1 f))) else 0)\<rparr>))"

text \<open>The length of the headers from \<open>start\<close> on and of the payload, in 16 or 32 bits.\<close>

definition seg_len :: "tso_info \<Rightarrow> u8 \<Rightarrow> nat \<Rightarrow> 'l :: len word" where
  "seg_len t start now = word_of_int (int (ts_hdrlen t) - uint start + int now)"

definition seg_ip :: "tso_info \<Rightarrow> nat \<Rightarrow> nat \<Rightarrow> bytes \<Rightarrow> bytes" where
  "seg_ip t seg now m =
     (let start = ck_start (ts_ck0 t); ip = ts_hdr t + unat start in
      if ts_cmd t AND E1000_TXD_CMD_IP \<noteq> 0
      then store16 (store16 m (ip + 2) (seg_len t start now)) (ip + 4) (ts_ipid t + word_of_nat seg)
      else store16 m (ip + 4) (seg_len t start now - 40))"

definition seg_tcp :: "tso_info \<Rightarrow> nat \<Rightarrow> nat \<Rightarrow> bytes \<Rightarrow> bytes" where
  "seg_tcp t left now m =
     (let start = ck_start (ts_ck1 t); th = ts_hdr t + unat start in
      if ts_cmd t AND E1000_TXD_CMD_TCP \<noteq> 0 then
        (let m = store32 m (th + 4) (ts_tcpseq t + word_of_nat (ts_paylen t) - word_of_nat left)
         in if now < left then m(th + 13 := m (th + 13) AND NOT 0x09) else m)
      else store32 m (th + 4) (seg_len t start now))"

definition seg_ck :: "tso_info \<Rightarrow> nat \<Rightarrow> iovec list \<Rightarrow> bytes \<Rightarrow> bytes res" where
  "seg_ck t now tiov m =
     (let len = seg_len t (ck_start (ts_ck1 t)) now :: u16;
          tcpsum = (ucast (ts_tcpcs t) + ucast len :: u32);
          hdr = ts_hdr t
      in bindE (if ck_valid (ts_ck0 t)
                then e82545_transmit_checksum (store16 m (hdr + unat (ck_off (ts_ck0 t))) (ts_ipcs t)) tiov (ts_ck0 t)
                else Inr m) (\<lambda>m.
         if ck_valid (ts_ck1 t)
         then e82545_transmit_checksum
                (store16 m (hdr + unat (ck_off (ts_ck1 t))) (e82545_carry tcpsum)) tiov (ts_ck1 t)
         else Inr m))"

text \<open>The loop over the segments, \<open>None\<close> if it is never left.\<close>

partial_function (option) tso_loop ::
    "tso_info \<Rightarrow> nat \<Rightarrow> nat \<Rightarrow> iovec list \<Rightarrow> nat \<Rightarrow> bytes \<Rightarrow> u8 list list \<Rightarrow> (bytes \<times> u8 list list) res option" where
  "tso_loop t seg left iov off m sent =
     (if left = 0 then Some (Inr (m, sent))
      else
        (let now = min left (ts_mss t) in
         case tso_slice iov off now of
           (ts, rest, off) \<Rightarrow>
             (let tiov = \<lparr>iov_base = ts_hdr t, iov_len = ts_hdrlen t\<rparr> # ts;
                  m = seg_tcp t left now (seg_ip t seg now m)
              in case seg_ck t now tiov m of
                   Inl e \<Rightarrow> Some (Inl e)
                 | Inr m \<Rightarrow> tso_loop t (seg + 1) (left - now) rest off m (e82545_transmit_backend m tiov sent))))"

definition tx_tso ::
    "u8 list \<Rightarrow> bytes \<Rightarrow> tx_frame \<Rightarrow> u8 list list \<Rightarrow> (bytes \<times> u8 list list) res" where
  "tx_tso cd m f sent =
     bindE (tso_start cd m f) (\<lambda>t.
     case tso_loop t 0 (ts_paylen t) (tl (tf_iov f)) 0 m sent of None \<Rightarrow> Inl No_return | Some r \<Rightarrow> r)"

text \<open>A gathered packet, dropped if it has too many fragments; \<open>d\<close> is its last descriptor.\<close>

definition tx_send :: "e82545_softc \<Rightarrow> nat \<Rightarrow> nat \<Rightarrow> tx_pkt \<Rightarrow> bytes \<Rightarrow> u8 list list \<Rightarrow>
    (bytes \<times> u8 list list) res" where
  "tx_send sc stk d p m sent =
     (if I82545_MAX_TXSEGS < tp_iovcnt p then Inr (m, sent)
      else
        bindE (tx_headers sc stk d p m) (\<lambda>(m, f).
        if tp_tso p then tx_tso (esc_txctx (tx_part sc)) m f sent else tx_simple m f sent))"

section \<open>The ring\<close>

partial_function (option) tx_done_loop ::
    "nat \<Rightarrow> nat \<Rightarrow> nat \<Rightarrow> nat \<Rightarrow> bytes \<Rightarrow> bool \<Rightarrow> (bytes \<times> bool) res option" where
  "tx_done_loop ring dsize tail head m tdwb =
     (if head = tail then Some (Inr (m, tdwb))
      else
        (let d = ring + 16 * head;
             rs = (td_lower m d AND E1000_TXD_CMD_RS \<noteq> 0);
             m = (if rs then m(d + 12 := m (d + 12) OR 1) else m)
         in case next_desc dsize head of
              Inl e \<Rightarrow> Some (Inl e)
            | Inr head \<Rightarrow> tx_done_loop ring dsize tail head m (tdwb \<or> rs)))"

definition e82545_transmit_done ::
    "nat \<Rightarrow> nat \<Rightarrow> nat \<Rightarrow> nat \<Rightarrow> bytes \<Rightarrow> bool \<Rightarrow> (bytes \<times> bool) res" where
  "e82545_transmit_done ring head tail dsize m tdwb =
     (case tx_done_loop ring dsize tail head m tdwb of None \<Rightarrow> Inl No_return | Some r \<Rightarrow> r)"

text \<open>\<open>e82545_transmit\<close>: the number of descriptors consumed, the new head, the write-back flag.\<close>

definition e82545_transmit ::
    "bool \<Rightarrow> nat \<Rightarrow> nat \<Rightarrow> nat \<Rightarrow> nat \<Rightarrow> bool \<Rightarrow> e1000_io \<Rightarrow> (nat \<times> nat \<times> bool \<times> e1000_io) res" where
  "e82545_transmit iommu stk head tail dsize tdwb io =
     (let t = tx_part (io_sc io); m = io_mem io in
      case esc_txdesc t of
        None \<Rightarrow> (if head = tail then Inr (0, head, tdwb, io) else Inl Null_deref)
      | Some txdesc \<Rightarrow>
          (let ring = unat txdesc;
               finish = (\<lambda>p m io.
                 bindE (next_desc dsize (tp_head p)) (\<lambda>head'.
                 bindE (e82545_transmit_done ring head head' dsize m tdwb) (\<lambda>(m, tdwb).
                 Inr (tp_desc p + 1, head', tdwb, io\<lparr>io_mem := m\<rparr>))))
           in case tx_gather iommu (esc_txctx t) m ring dsize tail (tx_pkt0 head) of
                None \<Rightarrow> Inl No_return
              | Some (Inl e) \<Rightarrow> Inl e
              | Some (Inr Tx_idle) \<Rightarrow> Inr (0, tail, tdwb, io)
              | Some (Inr (Tx_ctx p)) \<Rightarrow>
                  finish p m (io\<lparr>io_sc := upd_tx (\<lambda>t. t\<lparr>esc_txctx := region m (ring + 16 * tp_head p) 16\<rparr>) (io_sc io)\<rparr>)
              | Some (Inr (Tx_packet p)) \<Rightarrow>
                  bindE (tx_send (io_sc io) stk (ring + 16 * tp_head p) p m (io_sent io)) (\<lambda>(m, sent).
                  finish p m (io\<lparr>io_sent := sent\<rparr>))))"

text \<open>The loop of \<open>e82545_tx_run\<close>: at most \<open>lim\<close> descriptors, roughly.\<close>

function tx_loop ::
    "bool \<Rightarrow> nat \<Rightarrow> nat \<Rightarrow> nat \<Rightarrow> nat \<Rightarrow> int \<Rightarrow> nat \<Rightarrow> bool \<Rightarrow> e1000_io \<Rightarrow> (nat \<times> nat \<times> int \<times> bool \<times> e1000_io) res" where
  "tx_loop iommu stk tail size1 head lim rhead tdwb io =
     (if esc_tx_enabled (tx_part (io_sc io)) \<and> 0 < lim then
        bindE (e82545_transmit iommu stk head tail size1 tdwb io) (\<lambda>(sent, rhead, tdwb, io).
        if sent = 0 then Inr (head, rhead, lim, tdwb, io)
        else tx_loop iommu stk tail size1 rhead (lim - int sent) rhead tdwb io)
      else Inr (head, rhead, lim, tdwb, io))"
  by pat_completeness auto
termination by (relation "measure (\<lambda>(_, _, _, _, _, lim, _). nat lim)") auto

declare tx_loop.simps [simp del]

definition io_lock :: "e1000_io \<Rightarrow> e1000_io res" where
  "io_lock io = bindE (on_intr esc_lock (io_sc io)) (\<lambda>sc. Inr (io\<lparr>io_sc := sc\<rparr>))"

definition io_unlock :: "e1000_io \<Rightarrow> e1000_io res" where
  "io_unlock io = bindE (on_intr esc_unlock (io_sc io)) (\<lambda>sc. Inr (io\<lparr>io_sc := sc\<rparr>))"

text \<open>The end of a run: the indices, and the causes it accumulated.\<close>

definition tx_run_end :: "nat \<Rightarrow> nat \<Rightarrow> bool \<Rightarrow> bool \<Rightarrow> e1000_io \<Rightarrow> e1000_io res" where
  "tx_run_end head rhead tdwb moved io =
     (let sc = upd_tx (\<lambda>t. t\<lparr>esc_TDH := word_of_nat head, esc_TDHr := word_of_nat rhead\<rparr>) (io_sc io);
          cause = (if tdwb then E1000_ICR_TXDW else 0) OR
                  (if moved \<and> esc_TDH (tx_part sc) = esc_TDT (tx_part sc) then E1000_ICR_TXQE else 0)
      in bindE (if cause \<noteq> 0 then on_intr (e82545_icr_assert cause) sc else Inr sc) (\<lambda>sc.
         Inr (io\<lparr>io_sc := sc\<rparr>)))"

definition e82545_tx_run :: "bool \<Rightarrow> nat \<Rightarrow> e1000_io \<Rightarrow> e1000_io res" where
  "e82545_tx_run iommu stk io =
     (let t = tx_part (io_sc io);
          head = unat (esc_TDH t);
          tail = unat (esc_TDT t);
          size1 = unat (esc_TDLEN t) div 16 mod 2 ^ 16;
          lim0 = int (size1 div 4)
      in bindE (io_unlock io) (\<lambda>io.
         bindE (tx_loop iommu stk tail size1 head lim0 head False io) (\<lambda>(head, rhead, lim, tdwb, io).
         bindE (io_lock io) (tx_run_end head rhead tdwb (lim \<noteq> lim0)))))"

definition e82545_tx_poll :: "bool \<Rightarrow> nat \<Rightarrow> e1000_io \<Rightarrow> e1000_io res" where
  "e82545_tx_poll iommu stk io =
     bindE (io_lock io) (\<lambda>io.
     let t = tx_part (io_sc io) in
     bindE (if esc_tx_enabled t \<and> esc_TDHr t \<noteq> esc_TDT t
            then e82545_tx_run iommu stk (io\<lparr>io_sc := upd_tx (\<lambda>t. t\<lparr>esc_tx_active := True\<rparr>) (io_sc io)\<rparr>)
            else Inr (io\<lparr>io_sc := upd_tx (\<lambda>t. t\<lparr>esc_tx_active := False\<rparr>) (io_sc io)\<rparr>)) io_unlock)"

end
