(* ===== verification/E1000_Frame.thy ===== *)
theory E1000_Frame
  imports E1000_Tx
begin

text \<open>
  The frames the card sends: copying the headers to the stack, inserting the
  VLAN tag and patching the checksums have the effect of the reference functions
  on lists of bytes.
\<close>

section \<open>The frame that is sent\<close>

text \<open>The first bytes of the vector reach the header copy, and the vector keeps the others.\<close>

lemma hdr_copy_val:
  assumes "left \<le> iov_size iov" "clear_of {dst..<dst + left} iov" "list_all (\<lambda>v. iov_len v \<le> B) iov"
  shows "\<exists>m' iov'. hdr_copy m dst left iov = Inr (m', iov') \<and>
    region m' dst left @ gather m iov' = gather m iov \<and>
    (\<forall>a. a \<notin> {dst..<dst + left} \<longrightarrow> m' a = m a) \<and>
    (\<forall>A. clear_of A iov \<longrightarrow> clear_of A iov') \<and> list_all (\<lambda>v. iov_len v \<le> B) iov' \<and> length iov' \<le> length iov"
  using assms
proof (induction iov arbitrary: m dst left)
  case Nil
  then show ?case by (simp add: hdr_copy.simps)
next
  case (Cons v vs)
  show ?case
  proof (cases "left = 0")
    case True
    then show ?thesis using Cons.prems by (simp add: hdr_copy.simps)
  next
    case False
    define now where "now = min left (iov_len v)"
    define m1 where "m1 = memcpy m dst (iov_base v) now"
    have sub: "{dst..<dst + now} \<subseteq> {dst..<dst + left}" by (auto simp: now_def)
    have m1: "m1 a = m a" if "a \<notin> {dst..<dst + left}" for a
      using that sub unfolding m1_def by (intro memcpy_other) auto
    show ?thesis
    proof (cases "left < iov_len v")
      case True
      then have now: "now = left" by (simp add: now_def)
      have "hdr_copy m dst left (v # vs) =
          Inr (m1, v\<lparr>iov_base := iov_base v + left, iov_len := iov_len v - left\<rparr> # vs)"
        using True False by (subst hdr_copy.simps) (simp add: Let_def m1_def now_def)
      moreover have "region m1 dst left @ region m (iov_base v + left) (iov_len v - left) =
          region m (iov_base v) (iov_len v)"
        using True region_add [of m "iov_base v" left "iov_len v - left"] by (simp add: m1_def now)
      ultimately show ?thesis using m1 Cons.prems True by (auto simp: clear_of_def)
    next
      case False
      then have now: "now = iov_len v" by (simp add: now_def)
      have step: "hdr_copy m dst left (v # vs) = hdr_copy m1 (dst + now) (left - now) vs"
        using \<open>left \<noteq> 0\<close> False by (subst hdr_copy.simps) (simp add: Let_def m1_def now_def)
      have range: "{dst + now..<dst + now + (left - now)} \<subseteq> {dst..<dst + left}" using False now by auto
      have clr: "clear_of {dst + now..<dst + now + (left - now)} vs"
        using Cons.prems(2) range unfolding clear_of_def list_all_iff by fastforce
      obtain m' iov' where r: "hdr_copy m1 (dst + now) (left - now) vs = Inr (m', iov')"
        "region m' (dst + now) (left - now) @ gather m1 iov' = gather m1 vs"
        "\<forall>a. a \<notin> {dst + now..<dst + now + (left - now)} \<longrightarrow> m' a = m1 a"
        "\<forall>A. clear_of A vs \<longrightarrow> clear_of A iov'" "list_all (\<lambda>v. iov_len v \<le> B) iov'" "length iov' \<le> length vs"
        using Cons.IH [OF _ clr, of m1] Cons.prems(1,3) now by (simp add: le_diff_conv add.commute) blast
      have same: "gather m1 us = gather m us" if "clear_of {dst..<dst + left} us" for us
        using that m1 by (intro gather_cong) auto
      have clv: "clear_of {dst..<dst + left} vs" using Cons.prems(2) by simp
      have "region m' dst now = region m1 dst now" using r(3) by (intro region_cong) auto
      then have "region m' dst left = region m (iov_base v) (iov_len v) @ region m' (dst + now) (left - now)"
        using False now region_add [of m' dst now "left - now"] by (simp add: m1_def)
      then have "region m' dst left @ gather m iov' = gather m (v # vs)"
        using r(2) same [OF clv] same [of iov'] r(4) clv by simp
      moreover have "\<forall>a. a \<notin> {dst..<dst + left} \<longrightarrow> m' a = m a"
        using r(3) m1 range by (metis subsetD)
      ultimately show ?thesis unfolding step using r Cons.prems by (auto simp: clear_of_def)
    qed
  qed
qed

text \<open>The frame as a list of bytes: the reference for \<open>tx_send\<close>.\<close>

definition tag_frame :: "u32 \<Rightarrow> u16 \<Rightarrow> u8 list \<Rightarrow> u8 list" where
  "tag_frame vet special p = take 12 p @ vlan_tag vet special @ drop 12 p"

definition ref_ck :: "ck_info \<Rightarrow> u8 list \<Rightarrow> u8 list" where
  "ref_ck ck p = (if ck_valid ck then put_csum ck p else p)"

definition ref_frame :: "bool \<Rightarrow> u32 \<Rightarrow> u16 \<Rightarrow> ck_info \<Rightarrow> ck_info \<Rightarrow> u8 list \<Rightarrow> u8 list" where
  "ref_frame tagged vet special ck0 ck1 p =
     (if tagged then ref_ck (vlan_ck ck1) (ref_ck (vlan_ck ck0) (tag_frame vet special p))
      else ref_ck ck1 (ref_ck ck0 p))"

text \<open>What \<open>tx_headers\<close> hands on: a vector whose head is the header copy on the stack.\<close>

definition frame_ok :: "bytes \<Rightarrow> nat \<Rightarrow> nat \<Rightarrow> u8 list \<Rightarrow> bytes \<Rightarrow> tx_frame \<Rightarrow> bool" where
  "frame_ok m stk n data m' f \<longleftrightarrow>
     gather m' (tf_iov f) = data \<and> (\<forall>a. a \<notin> {stk..<stk + n} \<longrightarrow> m' a = m a) \<and>
     list_all (\<lambda>v. iov_len v \<le> 131074) (tf_iov f) \<and> length (tf_iov f) \<le> 65 \<and>
     (0 < n \<longrightarrow> (\<exists>vs. tf_iov f = \<lparr>iov_base = stk, iov_len = n\<rparr> # vs \<and> clear_of {stk..<stk + n} vs))"

lemma put_bytes_region: "length bs = n \<Longrightarrow> region (put_bytes m a bs) a n = bs"
  by (rule nth_equalityI) (auto simp: put_bytes_def)

lemma put_bytes_other: "b \<notin> {a..<a + length bs} \<Longrightarrow> put_bytes m a bs b = m b"
  by (auto simp: put_bytes_def)

lemma clear_of_mono: "clear_of B iov \<Longrightarrow> A \<subseteq> B \<Longrightarrow> clear_of A iov"
  by (auto simp: clear_of_def list_all_iff)

lemma length_vlan_tag [simp]: "length (vlan_tag vet special) = 4"
  by (simp add: vlan_tag_def)

text \<open>The tag is inserted by moving the two addresses down by four bytes.\<close>

lemma insert_vlan_region:
  assumes "12 \<le> h"
  shows "region (put_bytes (memcpy m stk (stk + 4) 12) (stk + 12) (vlan_tag vet special)) stk (h + 4) =
    tag_frame vet special (region m (stk + 4) h)"
proof -
  define m1 where "m1 = memcpy m stk (stk + 4) 12"
  define m2 where "m2 = put_bytes m1 (stk + 12) (vlan_tag vet special)"
  have "h + 4 = 12 + (4 + (h - 12))" using assms by simp
  then have "region m2 stk (h + 4) = region m2 stk 12 @ region m2 (stk + 12) 4 @ region m2 (stk + 16) (h - 12)"
    by (simp only: region_add add.assoc) simp
  also have "region m2 (stk + 12) 4 = vlan_tag vet special"
    unfolding m2_def by (rule put_bytes_region) simp
  also have "region m2 stk 12 = region m1 stk 12"
    by (rule region_cong) (simp add: m2_def put_bytes_other)
  also have "region m1 stk 12 = region m (stk + 4) 12" by (simp add: m1_def)
  also have "region m2 (stk + 16) (h - 12) = region m (stk + 16) (h - 12)"
    by (rule region_cong) (simp add: m2_def m1_def put_bytes_other memcpy_other)
  finally show ?thesis using assms
    by (simp add: m2_def m1_def tag_frame_def take_region drop_region add.commute)
qed

lemma tag_frame_append: "12 \<le> length xs \<Longrightarrow> tag_frame vet special (xs @ ys) = tag_frame vet special xs @ ys"
  by (simp add: tag_frame_def)

lemma iov_small: "list_all (\<lambda>v. iov_len v \<le> 131070) iov \<Longrightarrow> list_all (\<lambda>v. iov_len v \<le> 131074) iov"
  by (auto simp: list_all_iff)

lemma tx_hdrlen_bounds:
  assumes "\<not> tp_tso p" "tx_hdrlen cd vlen p = Inr h"
  shows "vlen \<noteq> 0 \<longrightarrow> 12 \<le> h" "ck_valid (tp_ck0 p) \<longrightarrow> unat (ck_off (tp_ck0 p)) + 2 \<le> h"
    "ck_valid (tp_ck1 p) \<longrightarrow> unat (ck_off (tp_ck1 p)) + 2 \<le> h"
    "list_all (\<lambda>v. iov_len v \<le> 131070) (tp_iov p) \<Longrightarrow> h \<le> 131070"
proof -
  define h1 where "h1 = (if vlen \<noteq> 0 then 12 else 0 :: nat)"
  define h2 where "h2 = (if ck_valid (tp_ck0 p) then max h1 (unat (ck_off (tp_ck0 p)) + 2) else h1)"
  define h3 where "h3 = (if ck_valid (tp_ck1 p) then max h2 (unat (ck_off (tp_ck1 p)) + 2) else h2)"
  have h: "(if h3 = 0 then Inr 0 else (case tp_iov p of [] \<Rightarrow> Inl Undefined
      | v # _ \<Rightarrow> Inr (if h3 < iov_len v \<and> iov_len v < h3 + 100 then iov_len v else h3))) = Inr h"
    using assms(2) unfolding tx_hdrlen_def Let_def h3_def h2_def h1_def if_not_P [OF assms(1)] .
  then have "h3 \<le> h" by (auto split: if_splits list.splits)
  moreover have "h1 \<le> h2" "h2 \<le> h3" by (simp_all add: h2_def h3_def)
  moreover have "ck_valid (tp_ck0 p) \<longrightarrow> unat (ck_off (tp_ck0 p)) + 2 \<le> h2"
    "ck_valid (tp_ck1 p) \<longrightarrow> unat (ck_off (tp_ck1 p)) + 2 \<le> h3" "vlen \<noteq> 0 \<longrightarrow> 12 \<le> h1"
    by (simp_all add: h1_def h2_def h3_def)
  ultimately show "vlen \<noteq> 0 \<longrightarrow> 12 \<le> h" "ck_valid (tp_ck0 p) \<longrightarrow> unat (ck_off (tp_ck0 p)) + 2 \<le> h"
    "ck_valid (tp_ck1 p) \<longrightarrow> unat (ck_off (tp_ck1 p)) + 2 \<le> h" by linarith+
  have "h3 \<le> 257"
    using unat_u8 [of "ck_off (tp_ck0 p)"] unat_u8 [of "ck_off (tp_ck1 p)"]
    by (simp add: h1_def h2_def h3_def)
  then show "list_all (\<lambda>v. iov_len v \<le> 131070) (tp_iov p) \<Longrightarrow> h \<le> 131070"
    using h by (auto split: if_splits list.splits)
qed

lemma tx_headers_val:
  assumes "\<not> tp_tso p" "vlen = tx_vlen (esc_CTRL sc) (td_lower m d)"
    "tx_hdrlen (esc_txctx (tx_part sc)) vlen p = Inr h" "h \<le> iov_size (tp_iov p)"
    "clear_of {stk..<stk + vlen + h} (tp_iov p)"
    "list_all (\<lambda>v. iov_len v \<le> 131070) (tp_iov p)" "length (tp_iov p) \<le> 64"
  shows "\<exists>m' f. tx_headers sc stk d p m = Inr (m', f) \<and>
    tf_ck0 f = (if vlen \<noteq> 0 then vlan_ck (tp_ck0 p) else tp_ck0 p) \<and>
    tf_ck1 f = (if vlen \<noteq> 0 then vlan_ck (tp_ck1 p) else tp_ck1 p) \<and>
    frame_ok m stk (vlen + h) (if vlen \<noteq> 0 then tag_frame (esc_VET sc) (le16 m (d + 14)) (gather m (tp_iov p))
      else gather m (tp_iov p)) m' f"
proof (cases "h = 0")
  case True
  then have "vlen = 0" using tx_hdrlen_bounds(1) [OF assms(1,3)] by auto
  moreover from this have "tx_headers sc stk d p m =
      Inr (m, \<lparr>tf_hdr = None, tf_hdrlen = 0, tf_iov = tp_iov p, tf_ck0 = tp_ck0 p, tf_ck1 = tp_ck1 p\<rparr>)"
    using True assms(2,3) by (simp add: tx_headers_def Let_def)
  ultimately show ?thesis using True assms(6,7) iov_small by (simp add: frame_ok_def)
next
  case False
  note hb = tx_hdrlen_bounds [OF assms(1,3)]
  have clr: "clear_of {stk + vlen..<stk + vlen + h} (tp_iov p)"
    using assms(5) by (rule clear_of_mono) auto
  obtain m1 iov1 where c: "hdr_copy m (stk + vlen) h (tp_iov p) = Inr (m1, iov1)"
    "region m1 (stk + vlen) h @ gather m iov1 = gather m (tp_iov p)"
    "\<forall>a. a \<notin> {stk + vlen..<stk + vlen + h} \<longrightarrow> m1 a = m a" "\<forall>A. clear_of A (tp_iov p) \<longrightarrow> clear_of A iov1"
    "list_all (\<lambda>v. iov_len v \<le> 131070) iov1" "length iov1 \<le> length (tp_iov p)"
    using hdr_copy_val [OF assms(4) clr assms(6), of m] by blast
  have clr1: "clear_of {stk..<stk + (vlen + h)} iov1" using c(4) assms(5) by (simp add: add.assoc)
  show ?thesis
  proof (cases "vlen = 0")
    case True
    define f where "f = \<lparr>tf_hdr = Some stk, tf_hdrlen = h, tf_iov = \<lparr>iov_base = stk, iov_len = h\<rparr> # iov1,
      tf_ck0 = tp_ck0 p, tf_ck1 = tp_ck1 p\<rparr>"
    have "tx_headers sc stk d p m = Inr (m1, f)"
      using True False assms(2,3) c(1) by (simp add: tx_headers_def Let_def f_def)
    moreover have "gather m1 iov1 = gather m iov1"
      using c(3) clr1 True by (intro gather_cong [of "{stk..<stk + h}"]) auto
    ultimately show ?thesis
      using True c hb(4) [OF assms(6)] clr1 assms(7) iov_small [OF c(5)] by (simp add: frame_ok_def f_def)
  next
    case vlen: False
    then have v4: "vlen = 4" "12 \<le> h" using assms(2) hb(1) by (simp_all add: tx_vlen_def split: if_splits)
    define m2 where "m2 = put_bytes (memcpy m1 stk (stk + 4) 12) (stk + 12)
      (vlan_tag (esc_VET sc) (le16 m (d + 14)))"
    define f where "f = \<lparr>tf_hdr = Some stk, tf_hdrlen = h + 4,
      tf_iov = \<lparr>iov_base = stk, iov_len = h + 4\<rparr> # iov1,
      tf_ck0 = vlan_ck (tp_ck0 p), tf_ck1 = vlan_ck (tp_ck1 p)\<rparr>"
    have "tx_headers sc stk d p m = Inr (m2, f)"
      using v4 False assms(2) [symmetric] assms(3) c(1)
      by (simp add: tx_headers_def insert_vlan_def Let_def f_def m2_def)
    moreover have "region m2 stk (h + 4) = tag_frame (esc_VET sc) (le16 m (d + 14)) (region m1 (stk + 4) h)"
      unfolding m2_def by (rule insert_vlan_region [OF v4(2)])
    moreover have out: "m2 a = m a" if "a \<notin> {stk..<stk + (vlen + h)}" for a
    proof -
      have "m2 a = memcpy m1 stk (stk + 4) 12 a" unfolding m2_def using that v4 by (intro put_bytes_other) auto
      also have "\<dots> = m1 a" using that v4 by (intro memcpy_other) auto
      also have "\<dots> = m a" using that v4 c(3) by auto
      finally show ?thesis .
    qed
    moreover have "gather m2 iov1 = gather m iov1" using out clr1 by (intro gather_cong) auto
    ultimately show ?thesis
      using v4 c hb(4) [OF assms(6)] clr1 assms(7) iov_small [OF c(5)]
        tag_frame_append [of "region m1 (stk + 4) h" "esc_VET sc" "le16 m (d + 14)" "gather m iov1"]
      by (simp add: frame_ok_def f_def add.commute)
  qed
qed

text \<open>Inserting checksums into a frame.\<close>

lemma put_ck_val:
  assumes "frame_ok m stk n data m1 f" "ck_valid ck \<longrightarrow> unat (ck_off ck) + 2 \<le> n"
  shows "\<exists>m2. put_ck m1 (tf_iov f) ck = Inr m2 \<and> frame_ok m stk n (ref_ck ck data) m2 f"
proof (cases "ck_valid ck")
  case False
  then show ?thesis using assms(1) by (simp add: put_ck_def ref_ck_def)
next
  case True
  have n: "unat (ck_off ck) + 2 \<le> n" "0 < n" using True assms(2) by auto
  obtain vs where vs: "tf_iov f = \<lparr>iov_base = stk, iov_len = n\<rparr> # vs" "clear_of {stk..<stk + n} vs"
    using assms(1) n(2) by (auto simp: frame_ok_def)
  let ?v = "\<lparr>iov_base = stk, iov_len = n\<rparr>"
  have clr: "clear_of {stk + unat (ck_off ck)..<stk + unat (ck_off ck) + 2} vs"
    by (rule clear_of_mono [OF vs(2)]) (use n in auto)
  have b: "list_all (\<lambda>v. iov_len v \<le> 131074) (?v # vs)" "length (?v # vs) \<le> 256"
    using assms(1) unfolding frame_ok_def vs(1) by simp_all
  obtain m2 where m2: "e82545_transmit_checksum m1 (?v # vs) ck = Inr m2"
    "gather m2 (?v # vs) = put_csum ck (gather m1 (?v # vs))"
    "\<forall>a. a \<notin> {stk + unat (ck_off ck)..<stk + unat (ck_off ck) + 2} \<longrightarrow> m2 a = m1 a"
    using transmit_checksum_ref [OF b, of ck m1] n clr by auto
  have "m2 a = m a" if "a \<notin> {stk..<stk + n}" for a
  proof -
    have "m2 a = m1 a" using m2(3) that n by auto
    then show ?thesis using assms(1) that by (simp add: frame_ok_def)
  qed
  then have "frame_ok m stk n (ref_ck ck data) m2 f"
    using assms(1) m2(2) True vs unfolding frame_ok_def ref_ck_def vs(1) by (simp del: gather_simps)
  then show ?thesis using m2(1) True vs(1) by (simp add: put_ck_def)
qed

lemma vlan_ck_bounds: "unat (ck_off ck) + 2 \<le> h \<Longrightarrow> unat (ck_off (vlan_ck ck)) + 2 \<le> h + 4"
proof -
  assume "unat (ck_off ck) + 2 \<le> h"
  moreover have "unat (ck_off ck + 4) \<le> unat (ck_off ck) + unat (4 :: u8)"
    by (simp add: unat_word_ariths mod_less_eq_dividend)
  ultimately show ?thesis by (simp add: vlan_ck_def)
qed

lemma frame_sent:
  assumes "\<not> tp_tso p" "tp_iovcnt p \<le> I82545_MAX_TXSEGS" "length (tp_iov p) \<le> I82545_MAX_TXSEGS"
    "vlen = tx_vlen (esc_CTRL sc) (td_lower m d)"
    "tx_hdrlen (esc_txctx (tx_part sc)) vlen p = Inr h" "h \<le> iov_size (tp_iov p)"
    "clear_of {stk..<stk + vlen + h} (tp_iov p)"
    "list_all (\<lambda>v. iov_len v \<le> 131070) (tp_iov p)"
  shows "\<exists>m'. tx_send sc stk d p m sent = Inr (m',
      sent @ [ref_frame (vlen \<noteq> 0) (esc_VET sc) (le16 m (d + 14)) (tp_ck0 p) (tp_ck1 p) (gather m (tp_iov p))]) \<and>
    (\<forall>a. m' a \<noteq> m a \<longrightarrow> a \<in> {stk..<stk + vlen + h})"
proof -
  define data where "data = (if vlen \<noteq> 0 then tag_frame (esc_VET sc) (le16 m (d + 14)) (gather m (tp_iov p))
      else gather m (tp_iov p))"
  define c0 where "c0 = (if vlen \<noteq> 0 then vlan_ck (tp_ck0 p) else tp_ck0 p)"
  define c1 where "c1 = (if vlen \<noteq> 0 then vlan_ck (tp_ck1 p) else tp_ck1 p)"
  have v04: "vlen \<noteq> 0 \<longrightarrow> vlen = 4" using assms(4) by (simp add: tx_vlen_def)
  have len: "length (tp_iov p) \<le> 64" using assms(3) by (simp add: I82545_MAX_TXSEGS_def)
  obtain m1 f where f: "tx_headers sc stk d p m = Inr (m1, f)" "tf_ck0 f = c0" "tf_ck1 f = c1"
    "frame_ok m stk (vlen + h) data m1 f"
    using tx_headers_val [OF assms(1,4,5,6,7,8) len] unfolding data_def c0_def c1_def by blast
  note hb = tx_hdrlen_bounds [OF assms(1,5)]
  have b0: "ck_valid c0 \<longrightarrow> unat (ck_off c0) + 2 \<le> vlen + h"
    using hb(2) v04 vlan_ck_bounds [of "tp_ck0 p" h] by (auto simp: c0_def vlan_ck_def)
  have b1: "ck_valid c1 \<longrightarrow> unat (ck_off c1) + 2 \<le> vlen + h"
    using hb(3) v04 vlan_ck_bounds [of "tp_ck1 p" h] by (auto simp: c1_def vlan_ck_def)
  obtain m2 where m2: "put_ck m1 (tf_iov f) c0 = Inr m2" "frame_ok m stk (vlen + h) (ref_ck c0 data) m2 f"
    using put_ck_val [OF f(4) b0] by blast
  obtain m3 where m3: "put_ck m2 (tf_iov f) c1 = Inr m3"
    "frame_ok m stk (vlen + h) (ref_ck c1 (ref_ck c0 data)) m3 f"
    using put_ck_val [OF m2(2) b1] by blast
  have r: "ref_ck c1 (ref_ck c0 data) =
      ref_frame (vlen \<noteq> 0) (esc_VET sc) (le16 m (d + 14)) (tp_ck0 p) (tp_ck1 p) (gather m (tp_iov p))"
    by (simp add: ref_frame_def data_def c0_def c1_def)
  have "tx_send sc stk d p m sent = Inr (m3, sent @ [ref_ck c1 (ref_ck c0 data)])"
    using assms(1,2) f m2(1) m3 by (simp add: tx_send_def tx_simple_def e82545_transmit_backend_def frame_ok_def)
  then show ?thesis using m3(2) unfolding r frame_ok_def add.assoc by blast
qed

end
