(* ===== verification/E1000_Ring.thy ===== *)
theory E1000_Ring
  imports E1000_Frame
begin

text \<open>
  The transmit ring: which loops of the transmission end, what one call of
  \<open>e82545_transmit\<close> sends and writes, and where segmentation writes.
\<close>


section \<open>The loops end\<close>

text \<open>
  Ring walks: from \<open>head\<close> the index \<open>tail\<close> is \<open>k\<close> steps ahead.
\<close>

lemma ring_step:
  assumes "(head + Suc k) mod n = tail" "head < (n :: nat)"
  shows "((head + 1) mod n + k) mod n = tail" "(head + 1) mod n < n"
  using assms by (simp_all add: mod_add_left_eq)

lemma ring_distance:
  assumes "head < (n :: nat)" "tail < n"
  shows "\<exists>k. (head + k) mod n = tail"
proof (cases "head \<le> tail")
  case True
  then show ?thesis using assms by (intro exI [of _ "tail - head"]) simp
next
  case False
  then have "(head + (n - head + tail)) mod n = tail" using assms by simp
  then show ?thesis by blast
qed

text \<open>Writing back the status touches the status bytes of descriptors only.\<close>

definition status_only :: "nat \<Rightarrow> bytes \<Rightarrow> bytes \<Rightarrow> bool" where
  "status_only ring m m' \<longleftrightarrow> (\<forall>a. m' a \<noteq> m a \<longrightarrow> (\<exists>i. a = ring + 16 * i + 12))"

lemma status_only_refl [simp]: "status_only ring m m"
  by (simp add: status_only_def)

lemma status_only_step:
  assumes "status_only ring (if rs then m(ring + 16 * i + 12 := v) else m) m'"
  shows "status_only ring m m'"
  unfolding status_only_def
proof (intro allI impI)
  fix a assume "m' a \<noteq> m a"
  then show "\<exists>j. a = ring + 16 * j + 12"
    using assms unfolding status_only_def by (cases "a = ring + 16 * i + 12") (auto split: if_splits)
qed

lemma done_loop_in_range:
  assumes "head < dsize" "(head + k) mod dsize = tail"
  shows "\<exists>m' b. tx_done_loop ring dsize tail head m tdwb = Some (Inr (m', b)) \<and> status_only ring m m'"
  using assms
proof (induction k arbitrary: head m tdwb)
  case 0
  then show ?case by (subst tx_done_loop.simps) simp
next
  case (Suc k)
  show ?case
  proof (cases "head = tail")
    case True
    then show ?thesis by (subst tx_done_loop.simps) simp
  next
    case False
    let ?d = "ring + 16 * head"
    let ?rs = "td_lower m ?d AND E1000_TXD_CMD_RS \<noteq> 0"
    let ?m = "if ?rs then m(?d + 12 := m (?d + 12) OR 1) else m"
    obtain m' b where r: "tx_done_loop ring dsize tail ((head + 1) mod dsize) ?m (tdwb \<or> ?rs) = Some (Inr (m', b))"
      "status_only ring ?m m'"
      using Suc.IH [OF ring_step(2,1) [OF Suc.prems(2,1)], of ?m "tdwb \<or> ?rs"] by blast
    have "next_desc dsize head = Inr ((head + 1) mod dsize)" using Suc.prems(1) by (simp add: next_desc_def)
    then have "tx_done_loop ring dsize tail head m tdwb = Some (Inr (m', b))"
      using r(1) False by (subst tx_done_loop.simps) (simp only: Let_def if_False sum.case)
    then show ?thesis using status_only_step [OF r(2)] by blast
  qed
qed

lemma transmit_done_ok:
  assumes "tail < dsize"
  shows "\<exists>m' b. e82545_transmit_done ring head tail dsize m tdwb = Inr (m', b) \<and> status_only ring m m'"
proof -
  have "\<exists>m' b. tx_done_loop ring dsize tail head m tdwb = Some (Inr (m', b)) \<and> status_only ring m m'"
  proof (cases "head < dsize")
    case True
    then show ?thesis using ring_distance [OF True assms] done_loop_in_range by blast
  next
    case False
    let ?d = "ring + 16 * head"
    let ?rs = "td_lower m ?d AND E1000_TXD_CMD_RS \<noteq> 0"
    let ?m = "if ?rs then m(?d + 12 := m (?d + 12) OR 1) else m"
    have lt: "(head + 1) mod dsize < dsize" using assms by simp
    then obtain m' b where r: "tx_done_loop ring dsize tail ((head + 1) mod dsize) ?m (tdwb \<or> ?rs) = Some (Inr (m', b))"
      "status_only ring ?m m'"
      using ring_distance [OF lt assms] done_loop_in_range [OF lt] by blast
    have "next_desc dsize head = Inr ((head + 1) mod dsize)" using assms by (simp add: next_desc_def)
    then have "tx_done_loop ring dsize tail head m tdwb = Some (Inr (m', b))"
      using r(1) False assms by (subst tx_done_loop.simps) (simp only: Let_def sum.case, auto)
    then show ?thesis using status_only_step [OF r(2)] by blast
  qed
  then show ?thesis by (auto simp: e82545_transmit_done_def)
qed

lemma gather_in_range:
  assumes "tp_head p < dsize" "(tp_head p + k) mod dsize = tail"
  shows "\<exists>r. tx_gather iommu cd m ring dsize tail p = Some r"
  using assms
proof (induction k arbitrary: p)
  case 0
  then show ?case by (subst tx_gather.simps) simp
next
  case (Suc k)
  have next_d: "next_desc dsize h = Inr ((h + 1) mod dsize)" for h
    using Suc.prems(1) by (simp add: next_desc_def)
  have head: "tp_head q = tp_head p" if "tx_desc iommu cd m d p = Inr (Tx_more q)" for q d
    using that by (auto simp: tx_desc_def add_frag_def Let_def res_simps split: if_splits)
  show ?case
  proof (cases "tp_head p = tail")
    case True
    then show ?thesis by (subst tx_gather.simps) simp
  next
    case False
    show ?thesis
    proof (cases "tx_desc iommu cd m (ring + 16 * tp_head p) p")
      case (Inl e)
      then show ?thesis using False by (subst tx_gather.simps) simp
    next
      case (Inr s)
      show ?thesis
      proof (cases s)
        case (Tx_more q)
        have "tp_head q = tp_head p" using head Inr Tx_more by blast
        then show ?thesis
          using False Inr Tx_more next_d ring_step [OF Suc.prems(2,1)]
            Suc.IH [of "q\<lparr>tp_head := (tp_head p + 1) mod dsize, tp_desc := tp_desc q + 1\<rparr>"]
          by (subst tx_gather.simps) simp
      qed (use False Inr in \<open>subst tx_gather.simps, simp\<close>)+
    qed
  qed
qed

lemma gather_returns:
  assumes "tail < dsize" "tp_head p < dsize"
  shows "\<exists>r. tx_gather iommu cd m ring dsize tail p = Some r"
  using ring_distance [OF assms(2,1)] gather_in_range [OF assms(2)] by blast

text \<open>The segments: each takes at least one byte if the segment size is not 0.\<close>

lemma seg_ck_ok: "\<exists>m'. seg_ck t now (v # vs) m = Inr m'"
  by (auto simp: seg_ck_def e82545_transmit_checksum_def Let_def)

lemma tso_step:
  assumes "0 < left" "tso_slice iov off (min left (ts_mss t)) = (ts, rest, off')"
  shows "\<exists>m' frame. tso_loop t seg left iov off m sent =
    tso_loop t (seg + 1) (left - min left (ts_mss t)) rest off' m' (sent @ [frame])"
proof -
  let ?now = "min left (ts_mss t)"
  let ?tiov = "\<lparr>iov_base = ts_hdr t, iov_len = ts_hdrlen t\<rparr> # ts"
  obtain m' where "seg_ck t ?now ?tiov (seg_tcp t left ?now (seg_ip t seg ?now m)) = Inr m'"
    using seg_ck_ok by blast
  then show ?thesis using assms
    by (intro exI [of _ m'] exI [of _ "gather m' ?tiov"], subst tso_loop.simps)
      (simp add: Let_def e82545_transmit_backend_def)
qed

lemma tso_returns:
  assumes "0 < ts_mss t"
  shows "\<exists>r. tso_loop t seg left iov off m sent = Some (Inr r)"
proof (induction left arbitrary: seg iov off m sent rule: less_induct)
  case (less left)
  show ?case
  proof (cases "left = 0")
    case True
    then show ?thesis by (subst tso_loop.simps) simp
  next
    case False
    obtain ts rest off' where s: "tso_slice iov off (min left (ts_mss t)) = (ts, rest, off')"
      by (metis prod_cases3)
    have "left - min left (ts_mss t) < left" using False assms by simp
    then show ?thesis using tso_step [OF _ s, of seg m sent] False less.IH by fastforce
  qed
qed

lemma tso_stuck:
  assumes "ts_mss t = 0" "0 < left"
  shows "tso_loop t seg left iov off m sent = None"
proof (rule ccontr)
  assume "tso_loop t seg left iov off m sent \<noteq> None"
  then obtain r where "tso_loop t seg left iov off m sent = Some r" by blast
  then have "\<not> (ts_mss t = 0 \<and> 0 < left)"
  proof (rule tso_loop.raw_induct [where P = "\<lambda>t seg left iov off m sent r. \<not> (ts_mss t = 0 \<and> 0 < left)", rotated])
    fix loop t seg left iov off m sent r
    assume IH: "\<And>t seg left iov off m sent r. loop t seg left iov off m sent = Some r \<Longrightarrow> \<not> (ts_mss t = 0 \<and> 0 < left)"
      and eq: "(if left = 0 then Some (Inr (m, sent))
      else
        (let now = min left (ts_mss t) in
         case tso_slice iov off now of
           (ts, rest, off) \<Rightarrow>
             (let tiov = \<lparr>iov_base = ts_hdr t, iov_len = ts_hdrlen t\<rparr> # ts;
                  m = seg_tcp t left now (seg_ip t seg now m)
              in case seg_ck t now tiov m of
                   Inl e \<Rightarrow> Some (Inl e)
                 | Inr m \<Rightarrow> loop t (seg + 1) (left - now) rest off m (e82545_transmit_backend m tiov sent)))) = Some r"
    show "\<not> (ts_mss t = 0 \<and> 0 < left)"
    proof
      assume z: "ts_mss t = 0 \<and> 0 < left"
      obtain ts rest off' where s: "tso_slice iov off 0 = (ts, rest, off')" by (metis prod_cases3)
      let ?tiov = "\<lparr>iov_base = ts_hdr t, iov_len = ts_hdrlen t\<rparr> # ts"
      obtain m' where "seg_ck t 0 ?tiov (seg_tcp t left 0 (seg_ip t seg 0 m)) = Inr m'" using seg_ck_ok by blast
      then have "loop t (seg + 1) left rest off' m' (e82545_transmit_backend m' ?tiov sent) = Some r"
        using eq z s by (simp add: Let_def)
      then show False using IH z by blast
    qed
  qed
  then show False using assms by simp
qed

text \<open>A packet sent in segments of no bytes is never finished.\<close>

definition ctx_mss :: "u8 list \<Rightarrow> nat" where
  "ctx_mss cd = unat (le16 (nth cd) 14)"

definition ctx_paylen :: "u8 list \<Rightarrow> nat" where
  "ctx_paylen cd = unat (le32 (nth cd) 8 AND 0x000fffff)"

lemma tso_start_ctx:
  "tso_start cd m f = Inr t \<Longrightarrow> ts_mss t = ctx_mss cd \<and> ts_paylen t = ctx_paylen cd"
  by (auto simp: tso_start_def ctx_mss_def ctx_paylen_def Let_def split: option.splits)

lemma tx_tso_stuck: "tx_tso cd m f sent = Inl No_return \<longleftrightarrow>
   tf_hdr f \<noteq> None \<and> ctx_mss cd = 0 \<and> 0 < ctx_paylen cd"
proof (cases "tf_hdr f")
  case None
  then show ?thesis by (simp add: tx_tso_def tso_start_def)
next
  case (Some hdr)
  then obtain t where t: "tso_start cd m f = Inr t" by (simp add: tso_start_def Let_def)
  note c = tso_start_ctx [OF t]
  show ?thesis
  proof (cases "0 < ts_mss t")
    case True
    then obtain r where "tso_loop t 0 (ts_paylen t) (tl (tf_iov f)) 0 m sent = Some (Inr r)"
      using tso_returns by blast
    then show ?thesis using t c True by (simp add: tx_tso_def)
  next
    case False
    then have "ts_paylen t = 0 \<longrightarrow> tso_loop t 0 (ts_paylen t) (tl (tf_iov f)) 0 m sent = Some (Inr (m, sent))"
      by (subst tso_loop.simps) simp
    moreover have "0 < ts_paylen t \<longrightarrow> tso_loop t 0 (ts_paylen t) (tl (tf_iov f)) 0 m sent = None"
      using tso_stuck False by simp
    ultimately show ?thesis using t c False Some by (cases "ts_paylen t = 0") (auto simp: tx_tso_def)
  qed
qed

lemma put_ck_returns: "put_ck m iov ck \<noteq> Inl No_return"
  by (auto simp: put_ck_def e82545_transmit_checksum_def split: list.splits)

lemma hdr_copy_returns: "hdr_copy m dst left iov \<noteq> Inl No_return"
  by (induction iov arbitrary: m dst left) (subst hdr_copy.simps, simp add: Let_def)+

lemma tx_hdrlen_returns: "tx_hdrlen cd vlen p \<noteq> Inl No_return"
  by (simp add: tx_hdrlen_def Let_def split: list.split)

lemma insert_vlan_returns: "insert_vlan vet special m f \<noteq> Inl No_return"
  by (simp add: insert_vlan_def Let_def split: option.split list.split)

lemma tx_headers_returns: "tx_headers sc stk d p m \<noteq> Inl No_return"
  unfolding tx_headers_def Let_def
  by (auto simp: tx_hdrlen_returns insert_vlan_returns hdr_copy_returns res_simps split: if_splits)

lemma tx_send_stuck:
  "tx_send sc stk d p m sent = Inl No_return \<longleftrightarrow>
   tp_tso p \<and> tp_iovcnt p \<le> I82545_MAX_TXSEGS \<and> ctx_mss (esc_txctx (tx_part sc)) = 0 \<and>
   0 < ctx_paylen (esc_txctx (tx_part sc)) \<and>
   (\<exists>m' f. tx_headers sc stk d p m = Inr (m', f) \<and> tf_hdr f \<noteq> None)"
  unfolding tx_send_def tx_simple_def
  by (auto simp: tx_tso_stuck put_ck_returns tx_headers_returns res_simps not_less)

lemma tx_desc_returns: "tx_desc iommu cd m d p \<noteq> Inl No_return"
  by (auto simp: tx_desc_def Let_def res_simps)

lemma gather_no_stop:
  assumes "tx_gather iommu cd m ring dsize tail p = Some (Inl e)"
  shows "e \<noteq> No_return"
proof -
  have "\<forall>e. Inl e = r \<longrightarrow> e \<noteq> No_return" if "tx_gather iommu cd m ring dsize tail p = Some r" for r :: "tx_end res"
    using that
    by (rule tx_gather.raw_induct [where P = "\<lambda>iommu cd m ring dsize tail p r. \<forall>e. Inl e = r \<longrightarrow> e \<noteq> No_return", rotated])
      (auto simp: tx_desc_returns next_desc_def split: if_splits sum.splits tx_step.splits)
  then show ?thesis using assms by blast
qed

text \<open>The packet at \<open>head\<close> is to be cut into segments of no bytes.\<close>

definition endless_packet :: "bool \<Rightarrow> nat \<Rightarrow> nat \<Rightarrow> nat \<Rightarrow> nat \<Rightarrow> e1000_io \<Rightarrow> bool" where
  "endless_packet iommu stk head tail dsize io \<longleftrightarrow>
     (\<exists>txdesc p m' f. esc_txdesc (tx_part (io_sc io)) = Some txdesc \<and>
        tx_gather iommu (esc_txctx (tx_part (io_sc io))) (io_mem io) (unat txdesc) dsize tail (tx_pkt0 head) =
          Some (Inr (Tx_packet p)) \<and>
        tp_tso p \<and> tp_iovcnt p \<le> I82545_MAX_TXSEGS \<and>
        tx_headers (io_sc io) stk (unat txdesc + 16 * tp_head p) p (io_mem io) = Inr (m', f) \<and> tf_hdr f \<noteq> None \<and>
        ctx_mss (esc_txctx (tx_part (io_sc io))) = 0 \<and> 0 < ctx_paylen (esc_txctx (tx_part (io_sc io))))"

lemma bind_stuck:
  "(\<And>x. f x \<noteq> Inl No_return) \<Longrightarrow> bindE m f = Inl No_return \<longleftrightarrow> m = Inl No_return"
  by (cases m) auto

text \<open>For ring indices in range, the transmission of one packet returns (with a result or at a failed
  assertion) exactly unless the packet asks for segmentation and the saved context gives a segment size of 0
  and a payload: then the loop over the segments sends empty segments for ever.\<close>

theorem transmit_returns:
  assumes "head < dsize" "tail < dsize"
  shows "e82545_transmit iommu stk head tail dsize tdwb io = Inl No_return \<longleftrightarrow>
    endless_packet iommu stk head tail dsize io"
proof (cases "esc_txdesc (tx_part (io_sc io))")
  case None
  then show ?thesis by (simp add: e82545_transmit_def endless_packet_def)
next
  case (Some txdesc)
  let ?t = "tx_part (io_sc io)" and ?m = "io_mem io"
  have fin: "bindE (next_desc dsize h) (\<lambda>h'. bindE (e82545_transmit_done ring head h' dsize m tdwb) (F h')) = Inl No_return
      \<longleftrightarrow> False" if "\<And>h' x. F h' x \<noteq> Inl No_return" for h ring m and F :: "nat \<Rightarrow> bytes \<times> bool \<Rightarrow> 'a res"
  proof -
    have "(h + 1) mod dsize < dsize" using assms(2) by simp
    then obtain m' b where "e82545_transmit_done ring head ((h + 1) mod dsize) dsize m tdwb = Inr (m', b)"
      using transmit_done_ok by blast
    then show ?thesis using that assms(2) by (simp add: next_desc_def)
  qed
  have "tp_head (tx_pkt0 head) < dsize" using assms(1) by (simp add: tx_pkt0_def)
  then obtain r where r: "tx_gather iommu (esc_txctx ?t) ?m (unat txdesc) dsize tail (tx_pkt0 head) = Some r"
    using gather_returns [OF assms(2)] by blast
  show ?thesis
  proof (cases r)
    case (Inl e)
    then show ?thesis using r Some gather_no_stop
      by (auto simp: e82545_transmit_def endless_packet_def)
  next
    case (Inr s)
    show ?thesis
    proof (cases s)
      case (Tx_packet p)
      have "e82545_transmit iommu stk head tail dsize tdwb io = Inl No_return \<longleftrightarrow>
          tx_send (io_sc io) stk (unat txdesc + 16 * tp_head p) p ?m (io_sent io) = Inl No_return"
        using r Some Inr Tx_packet
        by (auto simp: e82545_transmit_def Let_def bind_stuck fin split_beta)
      also have "\<dots> \<longleftrightarrow> endless_packet iommu stk head tail dsize io"
        using r Some Inr Tx_packet by (auto simp: tx_send_stuck endless_packet_def)
      finally show ?thesis .
    qed (use r Some Inr in \<open>simp_all add: e82545_transmit_def endless_packet_def Let_def fin split_beta\<close>)
  qed
qed

text \<open>
  A card with a ring of eight descriptors at address 4096, the first of which asks for
  the segmentation of 64 bytes, and a context with a payload of one byte and
  a segment size of \<open>mss\<close>.
\<close>

definition wit_ctx :: "u8 \<Rightarrow> u8 list" where
  "wit_ctx mss = [0, 0, 0, 0, 0, 0, 0, 0, 1, 0, 0, 0, 0, 20, mss, 0]"

definition wit_mem :: bytes where
  "wit_mem = store_le32 (\<lambda>_. 0) 4104 0x27100040"

definition wit_io :: "u8 \<Rightarrow> e1000_io" where
  "wit_io mss = \<lparr>io_sc = upd_tx (\<lambda>t. t\<lparr>esc_txdesc := Some 4096, esc_txctx := wit_ctx mss\<rparr>) wit_softc,
     io_mem = wit_mem, io_sent = []\<rparr>"

lemma wit_io_sel [simp]:
  "esc_txdesc (tx_part (io_sc (wit_io mss))) = Some 4096"
  "esc_txctx (tx_part (io_sc (wit_io mss))) = wit_ctx mss"
  "io_mem (wit_io mss) = wit_mem"
  "esc_CTRL (io_sc (wit_io mss)) = 0"
  by (simp_all add: wit_io_def upd_tx_def wit_softc_def)

lemma wit_ctx_vals: "ctx_mss (wit_ctx mss) = unat mss" "ctx_paylen (wit_ctx mss) = 1"
proof -
  have "unat mss < 65536" using unat_u8 [of mss] by simp
  then show "ctx_mss (wit_ctx mss) = unat mss"
    by (simp add: ctx_mss_def wit_ctx_def le16_def unsigned_ucast_eq take_bit_nat_eq_self)
  show "ctx_paylen (wit_ctx mss) = 1"
    by (simp add: ctx_paylen_def wit_ctx_def le16_def le32_def)
qed

lemma wit_mem_vals:
  "td_lower wit_mem 4096 = 0x27100040" "le64 wit_mem 4096 = 0" "wit_mem 4109 = 0"
  by (simp_all add: td_lower_def wit_mem_def le64_def le32_def [of _ 4096] le32_def [of _ 4100] le16_def
      store_le32_other)

lemma wit_types:
  "e82545_txdesc_type 0x27100040 = 0x20100000" "td_len wit_mem 4096 = 64"
  by (simp_all add: e82545_txdesc_type_def td_len_def wit_mem_vals)

definition wit_pkt :: tx_pkt where
  "wit_pkt = \<lparr>tp_head = 0, tp_desc = 0, tp_iov = [\<lparr>iov_base = 0, iov_len = 64\<rparr>], tp_iovcnt = 1,
     tp_ntype = 0x20100000, tp_ck0 = no_ck, tp_ck1 = no_ck, tp_tso = True\<rparr>"

lemma wit_gather:
  "tx_gather True (wit_ctx mss) wit_mem 4096 8 1 (tx_pkt0 0) = Some (Inr (Tx_packet wit_pkt))"
proof -
  have "add_frag True wit_mem 4096 p = p\<lparr>tp_iov := [\<lparr>iov_base = 0, iov_len = 64\<rparr>], tp_iovcnt := 1\<rparr>"
    if "tp_iov p = []" "tp_iovcnt p = 0" for p
    using that by (simp add: add_frag_def wit_mem_vals wit_types Let_def paddr_guest2host_def I82545_MAX_TXSEGS_def)
  then show ?thesis
    by (subst tx_gather.simps)
      (simp add: tx_pkt0_def tx_desc_def wit_mem_vals wit_types last_desc_def Let_def wit_pkt_def no_ck_def
        wit_ctx_def le16_def)
qed

lemma wit_headers:
  "\<exists>m' f. tx_headers (io_sc (wit_io mss)) 0x8000 4096 wit_pkt wit_mem = Inr (m', f) \<and> tf_hdr f \<noteq> None"
proof -
  have "tx_hdrlen (wit_ctx mss) 0 wit_pkt = Inr 20" by (simp add: tx_hdrlen_def wit_pkt_def wit_ctx_def)
  moreover have "hdr_copy wit_mem 0x8000 20 (tp_iov wit_pkt) =
      Inr (memcpy wit_mem 0x8000 0 20, [\<lparr>iov_base = 20, iov_len = 44\<rparr>])"
    by (simp add: wit_pkt_def hdr_copy.simps)
  ultimately show ?thesis by (simp add: tx_headers_def tx_vlen_def)
qed

theorem transmit_returns_witness:
  "e82545_transmit True 0x8000 0 1 8 False (wit_io 1) \<noteq> Inl No_return \<and>
   e82545_transmit True 0x8000 0 1 8 False (wit_io 0) = Inl No_return"
proof -
  have "\<not> endless_packet True 0x8000 0 1 8 (wit_io 1)"
    by (simp add: endless_packet_def wit_ctx_vals)
  moreover have "endless_packet True 0x8000 0 1 8 (wit_io 0)"
    using wit_gather [of 0] wit_headers [of 0]
    by (simp add: endless_packet_def wit_ctx_vals wit_pkt_def I82545_MAX_TXSEGS_def)
  ultimately show ?thesis
    using transmit_returns [of 0 8 1 True "0x8000" False "wit_io 1"] transmit_returns [of 0 8 1 True "0x8000" False "wit_io 0"]
    by simp
qed

text \<open>
  A tail index outside the ring, which the register accepts, is never reached: if no descriptor of
  the ring ends a packet, the gathering goes round for ever.
\<close>

lemma ring_tail_hang:
  assumes "tp_head p < dsize" "dsize \<le> tail" "tp_ntype p = 0"
    "\<forall>i<dsize. e82545_txdesc_type (td_lower m (ring + 16 * i)) = 0 \<and>
       td_lower m (ring + 16 * i) AND E1000_TXD_CMD_EOP = 0"
  shows "tx_gather iommu cd m ring dsize tail p = None"
proof (rule ccontr)
  assume "tx_gather iommu cd m ring dsize tail p \<noteq> None"
  then obtain r where r: "tx_gather iommu cd m ring dsize tail p = Some r" by blast
  let ?P = "\<lambda>iommu cd m ring dsize tail p. tp_head p < dsize \<and> dsize \<le> tail \<and> tp_ntype p = 0 \<and>
    (\<forall>i<dsize. e82545_txdesc_type (td_lower m (ring + 16 * i)) = 0 \<and>
       td_lower m (ring + 16 * i) AND E1000_TXD_CMD_EOP = 0)"
  from r have "\<not> ?P iommu cd m ring dsize tail p"
  proof (rule tx_gather.raw_induct [where P = "\<lambda>iommu cd m ring dsize tail p r. \<not> ?P iommu cd m ring dsize tail p", rotated])
    fix loop iommu cd m ring dsize tail p r
    assume IH: "\<And>iommu cd m ring dsize tail p r. loop iommu cd m ring dsize tail p = Some r \<Longrightarrow> \<not> ?P iommu cd m ring dsize tail p"
      and eq: "(if tp_head p = tail then Some (Inr Tx_idle)
      else
        (case tx_desc iommu cd m (ring + 16 * tp_head p) p of
           Inl e \<Rightarrow> Some (Inl e)
         | Inr Tx_context \<Rightarrow> Some (Inr (Tx_ctx p))
         | Inr (Tx_last p) \<Rightarrow> Some (Inr (Tx_packet p))
         | Inr (Tx_more p) \<Rightarrow>
             (case next_desc dsize (tp_head p) of
                Inl e \<Rightarrow> Some (Inl e)
              | Inr head \<Rightarrow>
                  loop iommu cd m ring dsize tail (p\<lparr>tp_head := head, tp_desc := tp_desc p + 1\<rparr>)))) = Some r"
    show "\<not> ?P iommu cd m ring dsize tail p"
    proof
      assume h: "?P iommu cd m ring dsize tail p"
      define d where "d = ring + 16 * tp_head p"
      have ty: "e82545_txdesc_type (td_lower m d) = 0" "td_lower m d AND E1000_TXD_CMD_EOP = 0"
        using h by (simp_all add: d_def)
      have frag: "tp_head (add_frag iommu m d q) = tp_head q" "tp_ntype (add_frag iommu m d q) = tp_ntype q" for q
        by (simp_all add: add_frag_def Let_def)
      have "\<exists>q. tx_desc iommu cd m d p = Inr (Tx_more q) \<and> tp_head q = tp_head p \<and> tp_ntype q = 0"
        using h by (cases "tp_desc p = 0") (simp_all add: tx_desc_def ty frag)
      then obtain q where q: "tx_desc iommu cd m d p = Inr (Tx_more q)" "tp_head q = tp_head p" "tp_ntype q = 0"
        by blast
      have "?P iommu cd m ring dsize tail (q\<lparr>tp_head := (tp_head q + 1) mod dsize, tp_desc := tp_desc q + 1\<rparr>)"
        using h q(3) by auto
      moreover have "loop iommu cd m ring dsize tail (q\<lparr>tp_head := (tp_head q + 1) mod dsize, tp_desc := tp_desc q + 1\<rparr>) = Some r"
        using eq h q by (auto simp: d_def [symmetric] next_desc_def)
      ultimately show False using IH by blast
    qed
  qed
  then show False using assms by blast
qed

section \<open>Segmentation writes past the headers\<close>

text \<open>One segment of a packet without checksums that is not TCP: the length field is written last.\<close>

lemma tso_single:
  assumes "0 < left" "left \<le> ts_mss t" "\<not> ck_valid (ts_ck0 t)" "\<not> ck_valid (ts_ck1 t)"
    "ts_cmd t AND E1000_TXD_CMD_TCP = 0"
  shows "\<exists>frame. tso_loop t seg left iov off m sent =
    Some (Inr (store32 (seg_ip t seg left m) (ts_hdr t + unat (ck_start (ts_ck1 t)) + 4)
      (seg_len t (ck_start (ts_ck1 t)) left), sent @ [frame]))"
proof -
  obtain ts rest off' where s: "tso_slice iov off left = (ts, rest, off')" by (metis prod_cases3)
  have "seg_ck t left tiov m' = Inr m'" for tiov m' using assms(3,4) by (simp add: seg_ck_def Let_def)
  moreover have "tso_loop t (seg + 1) 0 rest off' m' sent' = Some (Inr (m', sent'))" for m' sent'
    by (subst tso_loop.simps) simp
  ultimately show ?thesis using assms s
    by (subst tso_loop.simps) (simp add: Let_def seg_tcp_def e82545_transmit_backend_def)
qed

text \<open>C34: Segmentation writes outside the header copy on the stack: for a packet that is not TCP, has no
  checksums and fits one segment, four bytes that the driver controls are stored at the start
  offset of the context plus 4, an offset that is not compared with the length of the header copy, so
  that every offset from that length on overwrites the stack beyond the copy.\<close>

theorem segmentation_overflow:
  assumes "tp_tso p" "tp_iovcnt p \<le> I82545_MAX_TXSEGS" "tx_headers sc stk d p m = Inr (m1, f)" "tf_hdr f = Some hdr"
    "\<not> ck_valid (tf_ck0 f)" "\<not> ck_valid (tf_ck1 f)"
    "le32 (nth (esc_txctx (tx_part sc))) 8 AND E1000_TXD_CMD_TCP = 0"
    "0 < ctx_paylen (esc_txctx (tx_part sc))"
    "ctx_paylen (esc_txctx (tx_part sc)) \<le> ctx_mss (esc_txctx (tx_part sc))"
    "tf_hdrlen f \<le> unat (ck_start (tf_ck1 f)) + 4"
  shows "\<exists>m' frame. tx_send sc stk d p m sent = Inr (m', sent @ [frame]) \<and>
    load32 m' (hdr + unat (ck_start (tf_ck1 f)) + 4) =
      word_of_int (int (tf_hdrlen f) - uint (ck_start (tf_ck1 f)) + int (ctx_paylen (esc_txctx (tx_part sc)))) \<and>
    hdr + unat (ck_start (tf_ck1 f)) + 4 \<notin> {hdr..<hdr + tf_hdrlen f}"
proof -
  let ?cd = "esc_txctx (tx_part sc)"
  obtain t where t: "tso_start ?cd m1 f = Inr t" "ts_hdr t = hdr" "ts_hdrlen t = tf_hdrlen f"
    "ts_ck0 t = tf_ck0 f" "ts_ck1 t = tf_ck1 f" "ts_cmd t = le32 (nth ?cd) 8"
    using assms(4) by (simp add: tso_start_def Let_def)
  note c = tso_start_ctx [OF t(1)]
  have "\<exists>frame. tso_loop t 0 (ctx_paylen ?cd) (tl (tf_iov f)) 0 m1 sent =
      Some (Inr (store32 (seg_ip t 0 (ctx_paylen ?cd) m1) (hdr + unat (ck_start (tf_ck1 f)) + 4)
        (seg_len t (ck_start (tf_ck1 f)) (ctx_paylen ?cd)), sent @ [frame]))"
    using tso_single [of "ctx_paylen ?cd" t 0 "tl (tf_iov f)" 0 m1 sent] assms t c by simp
  then show ?thesis using assms t c
    by (auto simp: tx_send_def tx_tso_def seg_len_def)
qed

definition wit_udp :: tx_pkt where
  "wit_udp = wit_pkt\<lparr>tp_ck1 := no_ck\<lparr>ck_start := 200\<rparr>\<rparr>"

theorem segmentation_overflow_witness:
  "\<exists>m' frame. tx_send (io_sc (wit_io 1)) 0x8000 4096 wit_udp wit_mem [] = Inr (m', [frame]) \<and>
     load32 m' (0x8000 + 204) = word_of_int (20 - 200 + 1)"
proof -
  define f where "f = \<lparr>tf_hdr = Some 0x8000, tf_hdrlen = 20, tf_iov = [\<lparr>iov_base = 0x8000, iov_len = 20\<rparr>,
    \<lparr>iov_base = 20, iov_len = 44\<rparr>], tf_ck0 = no_ck, tf_ck1 = no_ck\<lparr>ck_start := 200\<rparr>\<rparr>"
  have "tx_hdrlen (wit_ctx 1) 0 wit_udp = Inr 20" by (simp add: tx_hdrlen_def wit_udp_def wit_pkt_def wit_ctx_def)
  moreover have "hdr_copy wit_mem 0x8000 20 (tp_iov wit_udp) =
      Inr (memcpy wit_mem 0x8000 0 20, [\<lparr>iov_base = 20, iov_len = 44\<rparr>])"
    by (simp add: wit_udp_def wit_pkt_def hdr_copy.simps)
  ultimately have h: "tx_headers (io_sc (wit_io 1)) 0x8000 4096 wit_udp wit_mem = Inr (memcpy wit_mem 0x8000 0 20, f)"
    by (simp add: tx_headers_def tx_vlen_def f_def wit_udp_def wit_pkt_def)
  have cmd: "le32 (nth (wit_ctx 1)) 8 = 1" by (simp add: wit_ctx_def le32_def le16_def)
  have tso: "tp_tso wit_udp" "tp_iovcnt wit_udp \<le> I82545_MAX_TXSEGS"
    by (simp_all add: wit_udp_def wit_pkt_def I82545_MAX_TXSEGS_def)
  have fs: "tf_hdr f = Some 0x8000" "\<not> ck_valid (tf_ck0 f)" "\<not> ck_valid (tf_ck1 f)" "ck_start (tf_ck1 f) = 200"
    "tf_hdrlen f = 20" by (simp_all add: f_def no_ck_def)
  show ?thesis
    using segmentation_overflow [OF tso h fs(1-3), of "[]"] fs cmd by (simp add: wit_ctx_vals)
qed

section \<open>A poll leaves the queue marked active\<close>

lemma transmit_keeps:
  assumes "e82545_transmit iommu stk head tail dsize tdwb io = Inr (s, rhead, tdwb', io')"
  shows "esc_tx_active (tx_part (io_sc io')) = esc_tx_active (tx_part (io_sc io)) \<and>
    intr_part (io_sc io') = intr_part (io_sc io) \<and> rx_part (io_sc io') = rx_part (io_sc io)"
  using assms
  by (auto simp: e82545_transmit_def Let_def res_simps split: option.splits sum.splits tx_end.splits if_splits prod.splits)

lemma tx_loop_keeps:
  "tx_loop iommu stk tail n head lim rhead tdwb io = Inr (head', rhead', lim', tdwb', io') \<Longrightarrow>
   esc_tx_active (tx_part (io_sc io')) = esc_tx_active (tx_part (io_sc io)) \<and>
   intr_part (io_sc io') = intr_part (io_sc io) \<and> rx_part (io_sc io') = rx_part (io_sc io)"
proof (induction iommu stk tail n head lim rhead tdwb io rule: tx_loop.induct)
  case (1 iommu stk tail n head lim rhead tdwb io)
  show ?case
  proof (cases "esc_tx_enabled (tx_part (io_sc io)) \<and> 0 < lim")
    case False
    then show ?thesis using 1(2) by (subst (asm) tx_loop.simps) auto
  next
    case True
    then obtain s rh b io1 where t: "e82545_transmit iommu stk head tail n tdwb io = Inr (s, rh, b, io1)"
      using 1(2) by (subst (asm) tx_loop.simps) (auto simp: res_simps)
    note k = transmit_keeps [OF t]
    show ?thesis
    proof (cases "s = 0")
      case True
      then show ?thesis using 1(2) \<open>esc_tx_enabled _ \<and> 0 < lim\<close> t k by (subst (asm) tx_loop.simps) auto
    next
      case False
      have "tx_loop iommu stk tail n rh (lim - int s) rh b io1 = Inr (head', rhead', lim', tdwb', io')"
        using 1(2) True t False by (subst (asm) tx_loop.simps) simp
      then show ?thesis using 1(1) [OF True t refl refl refl] False k by simp
    qed
  qed
qed

lemma on_intr_tx: "on_intr g sc = Inr sc' \<Longrightarrow> tx_part sc' = tx_part sc \<and> rx_part sc' = rx_part sc"
  by (auto simp: on_intr_def res_simps)

lemma io_lock_tx: "io_lock io = Inr io' \<Longrightarrow> tx_part (io_sc io') = tx_part (io_sc io)"
  using on_intr_tx by (auto simp: io_lock_def res_simps)

lemma io_unlock_tx: "io_unlock io = Inr io' \<Longrightarrow> tx_part (io_sc io') = tx_part (io_sc io)"
  using on_intr_tx by (auto simp: io_unlock_def res_simps)

lemma tx_run_active:
  assumes "e82545_tx_run iommu stk io = Inr io'"
  shows "esc_tx_active (tx_part (io_sc io')) = esc_tx_active (tx_part (io_sc io))"
proof -
  obtain io1 head rhead lim tdwb io2 io3 where
    a: "io_unlock io = Inr io1" "tx_loop iommu stk (unat (esc_TDT (tx_part (io_sc io))))
        (unat (esc_TDLEN (tx_part (io_sc io))) div 16 mod 2 ^ 16) (unat (esc_TDH (tx_part (io_sc io))))
        (int (unat (esc_TDLEN (tx_part (io_sc io))) div 16 mod 2 ^ 16 div 4)) (unat (esc_TDH (tx_part (io_sc io))))
        False io1 = Inr (head, rhead, lim, tdwb, io2)" "io_lock io2 = Inr io3"
    and b: "tx_run_end head rhead tdwb (lim \<noteq> int (unat (esc_TDLEN (tx_part (io_sc io))) div 16 mod 2 ^ 16 div 4)) io3 = Inr io'"
    using assms unfolding e82545_tx_run_def Let_def by (auto simp: bindE_Inr)
  have "esc_tx_active (tx_part (io_sc io')) = esc_tx_active (tx_part (io_sc io3))"
    using b on_intr_tx by (fastforce simp: tx_run_end_def Let_def bindE_Inr split: if_splits)
  then show ?thesis using io_unlock_tx [OF a(1)] tx_loop_keeps [OF a(2)] io_lock_tx [OF a(3)] by simp
qed

text \<open>
  After a poll that found work the queue is still marked active, and until the
  next poll a reset by the guest waits for ever.
\<close>

lemma poll_then_reset_hangs:
  assumes "e82545_tx_poll iommu stk io = Inr io'" "esc_tx_enabled (tx_part (io_sc io))"
    "esc_TDHr (tx_part (io_sc io)) \<noteq> esc_TDT (tx_part (io_sc io))" "v AND 0x04000000 \<noteq> 0"
  shows "\<not> returns (e82545_write_register iommu 0 v (io_sc io'))"
proof -
  obtain io1 io2 where a: "io_lock io = Inr io1"
    "e82545_tx_run iommu stk (io1\<lparr>io_sc := upd_tx (\<lambda>t. t\<lparr>esc_tx_active := True\<rparr>) (io_sc io1)\<rparr>) = Inr io2"
    "io_unlock io2 = Inr io'"
    using assms(1-3) io_lock_tx unfolding e82545_tx_poll_def Let_def by (auto simp: res_simps split: if_splits)
  have "esc_tx_active (tx_part (io_sc io'))"
    using tx_run_active [OF a(2)] io_unlock_tx [OF a(3)] by simp
  then show ?thesis using assms(4)
    by (simp add: e82545_write_register_def write_general_def e82545_devctl_def Let_def e82545_reset_def
        returns_bindE tx_disable_eq rx_disable_eq)
qed


section \<open>The frame of a packet\<close>

lemma gather_inv:
  assumes "tx_gather iommu cd m ring dsize tail p = Some (Inr (Tx_packet q))"
    "length (tp_iov p) \<le> tp_iovcnt p"
  shows "length (tp_iov q) \<le> tp_iovcnt q"
proof -
  have frag: "length (tp_iov (add_frag iommu m d p)) \<le> tp_iovcnt (add_frag iommu m d p)"
    if "length (tp_iov p) \<le> tp_iovcnt p" for p d iommu m
    using that by (simp add: add_frag_def Let_def)
  have last: "tp_iov (last_desc cd m d p) = tp_iov p \<and> tp_iovcnt (last_desc cd m d p) = tp_iovcnt p" for p d cd m
    by (simp add: last_desc_def Let_def)
  have desc: "length (tp_iov q) \<le> tp_iovcnt q"
    if "tx_desc iommu cd m d p = Inr (Tx_more q) \<or> tx_desc iommu cd m d p = Inr (Tx_last q)"
      "length (tp_iov p) \<le> tp_iovcnt p" for p q d iommu cd m
    using that frag last by (auto simp: tx_desc_def Let_def res_simps split: if_splits)
  have "length (tp_iov p) \<le> tp_iovcnt p \<longrightarrow> (\<forall>q. r = Inr (Tx_packet q) \<longrightarrow> length (tp_iov q) \<le> tp_iovcnt q)"
    if "tx_gather iommu cd m ring dsize tail p = Some r" for r
    using that
  proof (rule tx_gather.raw_induct [where P = "\<lambda>iommu cd m ring dsize tail p r.
      length (tp_iov p) \<le> tp_iovcnt p \<longrightarrow> (\<forall>q. r = Inr (Tx_packet q) \<longrightarrow> length (tp_iov q) \<le> tp_iovcnt q)", rotated])
    fix loop iommu cd m ring dsize tail p r
    assume IH: "\<And>iommu cd m ring dsize tail p r. loop iommu cd m ring dsize tail p = Some r \<Longrightarrow>
        length (tp_iov p) \<le> tp_iovcnt p \<longrightarrow> (\<forall>q. r = Inr (Tx_packet q) \<longrightarrow> length (tp_iov q) \<le> tp_iovcnt q)"
      and eq: "(if tp_head p = tail then Some (Inr Tx_idle)
      else
        (case tx_desc iommu cd m (ring + 16 * tp_head p) p of
           Inl e \<Rightarrow> Some (Inl e)
         | Inr Tx_context \<Rightarrow> Some (Inr (Tx_ctx p))
         | Inr (Tx_last p) \<Rightarrow> Some (Inr (Tx_packet p))
         | Inr (Tx_more p) \<Rightarrow>
             (case next_desc dsize (tp_head p) of
                Inl e \<Rightarrow> Some (Inl e)
              | Inr head \<Rightarrow>
                  loop iommu cd m ring dsize tail (p\<lparr>tp_head := head, tp_desc := tp_desc p + 1\<rparr>)))) = Some r"
    show "length (tp_iov p) \<le> tp_iovcnt p \<longrightarrow> (\<forall>q. r = Inr (Tx_packet q) \<longrightarrow> length (tp_iov q) \<le> tp_iovcnt q)"
    proof (intro impI allI)
      fix q assume p: "length (tp_iov p) \<le> tp_iovcnt p" and q: "r = Inr (Tx_packet q)"
      show "length (tp_iov q) \<le> tp_iovcnt q"
      proof (cases "\<exists>p'. tx_desc iommu cd m (ring + 16 * tp_head p) p = Inr (Tx_more p')")
        case False
        then have "tx_desc iommu cd m (ring + 16 * tp_head p) p = Inr (Tx_last q)"
          using eq q by (auto split: if_splits sum.splits tx_step.splits)
        from desc [OF disjI2 [OF this] p] show ?thesis .
      next
        case True
        then obtain p' where p': "tx_desc iommu cd m (ring + 16 * tp_head p) p = Inr (Tx_more p')" by blast
        then obtain h where "loop iommu cd m ring dsize tail (p'\<lparr>tp_head := h, tp_desc := tp_desc p' + 1\<rparr>) = Some r"
          using eq q by (auto split: if_splits sum.splits)
        from IH [OF this] desc [OF disjI1 [OF p'] p] q show ?thesis by simp
      qed
    qed
  qed
  then show ?thesis using assms by blast
qed

text \<open>The card sends the frame it was given: for a complete packet without segmentation the driver
  receives exactly one frame, the bytes of the fragments in order with the VLAN tag inserted after
  the addresses and the checksums in their fields as the reference on lists of bytes has them, although the
  headers are copied to the stack, moved and patched there; the descriptors of the packet are
  consumed, the registers keep their values, and the memory changes only in the
  header copy and in the status bytes of descriptors.\<close>

theorem transmit_sends:
  assumes "esc_txdesc (tx_part (io_sc io)) = Some ring" "tail < dsize"
    "tx_gather iommu (esc_txctx (tx_part (io_sc io))) (io_mem io) (unat ring) dsize tail (tx_pkt0 head) =
       Some (Inr (Tx_packet p))"
    "\<not> tp_tso p" "tp_iovcnt p \<le> I82545_MAX_TXSEGS"
    "d = unat ring + 16 * tp_head p" "vlen = tx_vlen (esc_CTRL (io_sc io)) (td_lower (io_mem io) d)"
    "tx_hdrlen (esc_txctx (tx_part (io_sc io))) vlen p = Inr h" "h \<le> iov_size (tp_iov p)"
    "clear_of {stk..<stk + vlen + h} (tp_iov p)" "list_all (\<lambda>v. iov_len v \<le> 131070) (tp_iov p)"
  shows "\<exists>b io'. e82545_transmit iommu stk head tail dsize tdwb io =
      Inr (tp_desc p + 1, (tp_head p + 1) mod dsize, b, io') \<and>
    io_sent io' = io_sent io @ [ref_frame (vlen \<noteq> 0) (esc_VET (io_sc io)) (le16 (io_mem io) (d + 14))
      (tp_ck0 p) (tp_ck1 p) (gather (io_mem io) (tp_iov p))] \<and>
    io_sc io' = io_sc io \<and>
    (\<forall>a. io_mem io' a \<noteq> io_mem io a \<longrightarrow> a \<in> {stk..<stk + vlen + h} \<or> (\<exists>i. a = unat ring + 16 * i + 12))"
proof -
  have len: "length (tp_iov p) \<le> I82545_MAX_TXSEGS"
    using gather_inv [OF assms(3)] assms(5) by (simp add: tx_pkt0_def)
  obtain m1 where m1: "tx_send (io_sc io) stk d p (io_mem io) (io_sent io) = Inr (m1,
      io_sent io @ [ref_frame (vlen \<noteq> 0) (esc_VET (io_sc io)) (le16 (io_mem io) (d + 14)) (tp_ck0 p) (tp_ck1 p)
        (gather (io_mem io) (tp_iov p))])" "\<forall>a. m1 a \<noteq> io_mem io a \<longrightarrow> a \<in> {stk..<stk + vlen + h}"
    using frame_sent [OF assms(4,5) len assms(7-11)] by blast
  have "(tp_head p + 1) mod dsize < dsize" using assms(2) by simp
  then obtain m2 b where m2: "e82545_transmit_done (unat ring) head ((tp_head p + 1) mod dsize) dsize m1 tdwb = Inr (m2, b)"
    "status_only (unat ring) m1 m2" using transmit_done_ok by blast
  have "e82545_transmit iommu stk head tail dsize tdwb io = Inr (tp_desc p + 1, (tp_head p + 1) mod dsize, b,
      io\<lparr>io_sent := io_sent io @ [ref_frame (vlen \<noteq> 0) (esc_VET (io_sc io)) (le16 (io_mem io) (d + 14))
        (tp_ck0 p) (tp_ck1 p) (gather (io_mem io) (tp_iov p))], io_mem := m2\<rparr>)"
    using assms(1-3,6) m1(1) m2(1) by (simp add: e82545_transmit_def Let_def next_desc_def)
  moreover have "a \<in> {stk..<stk + vlen + h} \<or> (\<exists>i. a = unat ring + 16 * i + 12)" if "m2 a \<noteq> io_mem io a" for a
    using that m1(2) m2(2) unfolding status_only_def by metis
  ultimately show ?thesis by auto
qed

text \<open>A legacy packet of 64 bytes at address 0 with a checksum of the bytes from 14 on, at 24.\<close>

definition wit_plain_mem :: bytes where
  "wit_plain_mem = (store_le32 (\<lambda>_. 0) 4104 0x07180040)(4109 := 14)"

definition wit_plain :: tx_pkt where
  "wit_plain = \<lparr>tp_head = 0, tp_desc = 0, tp_iov = [\<lparr>iov_base = 0, iov_len = 64\<rparr>], tp_iovcnt = 1,
     tp_ntype = 0, tp_ck0 = \<lparr>ck_valid = True, ck_start = 14, ck_off = 24, ck_len = 0\<rparr>, tp_ck1 = no_ck,
     tp_tso = False\<rparr>"

lemma wit_plain_gather:
  "tx_gather True (wit_ctx 1) wit_plain_mem 4096 8 1 (tx_pkt0 0) = Some (Inr (Tx_packet wit_plain))"
proof -
  have v: "td_lower wit_plain_mem 4096 = 0x07180040" "le64 wit_plain_mem 4096 = 0" "wit_plain_mem 4109 = 14"
    "wit_plain_mem 4106 = 24" "le16 wit_plain_mem 4104 = 64"
    by (simp_all add: td_lower_def wit_plain_mem_def le64_def le32_def le16_def store_le32_def store_le16_def)
      (simp add: word_cat_eq)
  have t: "e82545_txdesc_type 0x07180040 = 0" "td_len wit_plain_mem 4096 = 64"
    by (simp_all add: e82545_txdesc_type_def td_len_def v)
  have "add_frag True wit_plain_mem 4096 p = p\<lparr>tp_iov := [\<lparr>iov_base = 0, iov_len = 64\<rparr>], tp_iovcnt := 1\<rparr>"
    if "tp_iov p = []" "tp_iovcnt p = 0" for p
    using that by (simp add: add_frag_def v t Let_def paddr_guest2host_def I82545_MAX_TXSEGS_def)
  then show ?thesis
    by (subst tx_gather.simps)
      (simp add: tx_pkt0_def tx_desc_def v t last_desc_def Let_def wit_plain_def no_ck_def)
qed

theorem transmit_sends_witness:
  "\<exists>b io'. e82545_transmit True 0x8000 0 1 8 False ((wit_io 1)\<lparr>io_mem := wit_plain_mem\<rparr>) = Inr (1, 1, b, io') \<and>
     io_sent io' = [put_csum \<lparr>ck_valid = True, ck_start = 14, ck_off = 24, ck_len = 0\<rparr> (region wit_plain_mem 0 64)]"
proof -
  have h: "tx_hdrlen (wit_ctx 1) 0 wit_plain = Inr 64" by (simp add: tx_hdrlen_def wit_plain_def no_ck_def)
  have s: "tp_head wit_plain = 0" "tp_desc wit_plain = 0" "tp_iov wit_plain = [\<lparr>iov_base = 0, iov_len = 64\<rparr>]"
    "\<not> tp_tso wit_plain" "tp_iovcnt wit_plain = 1" "tp_ck1 wit_plain = no_ck"
    "tp_ck0 wit_plain = \<lparr>ck_valid = True, ck_start = 14, ck_off = 24, ck_len = 0\<rparr>" by (simp_all add: wit_plain_def)
  define io where "io = (wit_io 1)\<lparr>io_mem := wit_plain_mem\<rparr>"
  have io: "io_sc io = io_sc (wit_io 1)" "io_mem io = wit_plain_mem" "io_sent io = []"
    by (simp_all add: io_def wit_io_def)
  have clr: "clear_of {0x8000..<0x8000 + 0 + 64} (tp_iov wit_plain)" by (auto simp: s)
  have v: "0 = tx_vlen (esc_CTRL (io_sc io)) (td_lower (io_mem io) 4096)" by (simp add: io tx_vlen_def)
  have "\<exists>b io'. e82545_transmit True 0x8000 0 1 8 False io =
      Inr (tp_desc wit_plain + 1, (tp_head wit_plain + 1) mod 8, b, io') \<and>
    io_sent io' = io_sent io @ [ref_frame (0 \<noteq> (0 :: nat)) (esc_VET (io_sc io)) (le16 (io_mem io) (4096 + 14))
      (tp_ck0 wit_plain) (tp_ck1 wit_plain) (gather (io_mem io) (tp_iov wit_plain))] \<and>
    io_sc io' = io_sc io \<and>
    (\<forall>a. io_mem io' a \<noteq> io_mem io a \<longrightarrow> a \<in> {0x8000..<0x8000 + 0 + 64} \<or> (\<exists>i. a = unat (4096 :: u64) + 16 * i + 12))"
    by (rule transmit_sends [OF _ _ _ s(4) _ _ v _ _ clr])
      (simp_all add: io wit_plain_gather [unfolded One_nat_def] h s I82545_MAX_TXSEGS_def)
  then show ?thesis
    by (auto simp: io s ref_frame_def ref_ck_def no_ck_def io_def [symmetric])
qed

end
