(* ===== verification/Fifo.thy ===== *)
theory Fifo
  imports Iovec
begin

text \<open>
  The FIFO driver, which is not part of this repository, as the devices see it:
  \<open>fifo_process_tx f iov m\<close> takes the packet of a vector and \<open>fifo_process_rx f iov m\<close>
  fills a vector with the next packet; both return its length, or a number that is
  not positive. What the code asks of the interrupts of a FIFO is a list of calls.
\<close>

type_synonym 'f fifo_tx = "'f \<Rightarrow> iovec list \<Rightarrow> bytes \<Rightarrow> int \<times> 'f"
type_synonym 'f fifo_rx = "'f \<Rightarrow> iovec list \<Rightarrow> bytes \<Rightarrow> int \<times> 'f \<times> bytes"

record 'f fifo_ops =
  fifo_process_tx :: "'f fifo_tx"
  fifo_process_rx :: "'f fifo_rx"

datatype fifo_call = Interrupts_disable nat | Set_callback nat | Interrupts_enable nat

end
