(* ===== verification/E1000_Rx.thy ===== *)
theory E1000_Rx
  imports E1000_Regs Fifo "HOL-Library.Signed_Division"
begin

text \<open>
  \<open>bhyve/pci_e82545.c\<close>: reception, with the FIFO driver's \<open>fifo_process_rx\<close> as a parameter.
\<close>

section \<open>Model\<close>

record 'f rx_io =
  rx_sc :: e82545_softc
  rx_mem :: bytes
  rx_fifo :: 'f

abbreviation (input) E1000_RCTL_LPE :: u32 where "E1000_RCTL_LPE \<equiv> 0x00000020"
abbreviation (input) E1000_RCTL_VFE :: u32 where "E1000_RCTL_VFE \<equiv> 0x00040000"
abbreviation (input) E1000_RCTL_SECRC :: u32 where "E1000_RCTL_SECRC \<equiv> 0x04000000"
abbreviation (input) E1000_RCTL_BSEX :: u32 where "E1000_RCTL_BSEX \<equiv> 0x02000000"
abbreviation (input) E1000_ICR_RXT0 :: u32 where "E1000_ICR_RXT0 \<equiv> 0x00000080"
abbreviation (input) E1000_ICR_RXDMT0 :: u32 where "E1000_ICR_RXDMT0 \<equiv> 0x00000010"
abbreviation (input) E1000_ICR_SRPD :: u32 where "E1000_ICR_SRPD \<equiv> 0x00010000"

definition e82545_bufsz :: "u32 \<Rightarrow> nat" where
  "e82545_bufsz rctl =
     (let sz = rctl AND 0x02030000 in
      if sz = 0 then 2048 else if sz = 0x00010000 then 1024 else if sz = 0x00020000 then 512
      else if sz = 0x00030000 then 256 else if sz = 0x02010000 then 16384 else if sz = 0x02020000 then 8192
      else if sz = 0x02030000 then 4096 else 256)"

definition max_pkt_desc :: "u32 \<Rightarrow> nat" where
  "max_pkt_desc rctl =
     ((if rctl AND E1000_RCTL_LPE \<noteq> 0 then 16384 else 1522) + e82545_bufsz rctl - 1) div e82545_bufsz rctl"

text \<open>The free descriptors: the remainder truncates towards zero.\<close>

definition rx_left :: "nat \<Rightarrow> nat \<Rightarrow> nat \<Rightarrow> int" where
  "rx_left n rdt head = (int n + int rdt - int head) smod int n"

definition rx_vec :: "bool \<Rightarrow> bytes \<Rightarrow> nat \<Rightarrow> nat \<Rightarrow> nat \<Rightarrow> nat \<Rightarrow> nat \<Rightarrow> iovec list" where
  "rx_vec iommu m ring n head bufsz k =
     map (\<lambda>i. \<lparr>iov_base = unat (paddr_guest2host iommu (le64 m (ring + 16 * ((head + i) mod n)))),
               iov_len = bufsz\<rparr>) [0..<k]"

text \<open>The length of the packet with padding and frame check sequence.\<close>

definition rx_len :: "u32 \<Rightarrow> int \<Rightarrow> int" where
  "rx_len rctl len = (let len = (if len < 60 then 60 else len) in
     if rctl AND E1000_RCTL_SECRC = 0 then len + 4 else len)"

definition vlan_unknown :: "e82545_softc \<Rightarrow> bytes \<Rightarrow> iovec list \<Rightarrow> bool" where
  "vlan_unknown sc m vec =
     (let tp = iov_base (hd vec) + 12; tag = load16 m (tp + 2) AND 0x0fff in
      esc_RCTL (rx_part sc) AND E1000_RCTL_VFE \<noteq> 0 \<and> ucast (load16 m tp) = esc_VET sc \<and>
      \<not> bit (esc_fvlan (l2_part sc) ! unat (drop_bit 5 tag)) (unat (tag AND 0x1f)))"

definition rx_desc :: "nat \<Rightarrow> nat \<Rightarrow> u8 \<Rightarrow> bytes \<Rightarrow> bytes" where
  "rx_desc d len status m =
     ((store16 (store16 (store_le16 m (d + 8) (word_of_nat len)) (d + 10) 0) (d + 14) 0)
        (d + 13 := 0, d + 12 := status))"

text \<open>All descriptors of a packet but the last are full; \<open>k\<close> counts those still to do.\<close>

fun rx_full :: "nat \<Rightarrow> nat \<Rightarrow> nat \<Rightarrow> nat \<Rightarrow> nat \<Rightarrow> nat \<Rightarrow> bytes \<Rightarrow> bytes" where
  "rx_full ring n head bufsz i 0 m = m"
| "rx_full ring n head bufsz i (Suc k) m =
     rx_full ring n head bufsz (i + 1) k (rx_desc (ring + 16 * ((head + i) mod n)) bufsz 0x01 m)"

definition rx_packet :: "nat \<Rightarrow> nat \<Rightarrow> nat \<Rightarrow> nat \<Rightarrow> nat \<Rightarrow> nat \<Rightarrow> bytes \<Rightarrow> bytes" where
  "rx_packet ring n head bufsz len nd m =
     rx_desc (ring + 16 * ((head + (nd - 1)) mod n)) (len mod bufsz) 0x87 (rx_full ring n head bufsz 0 (nd - 1) m)"

definition rx_cause :: "e82545_softc \<Rightarrow> nat \<Rightarrow> u32" where
  "rx_cause sc len =
     (if len \<le> unat (esc_RSRPD (rx_part sc)) then E1000_ICR_SRPD OR E1000_ICR_RXT0 else E1000_ICR_RXT0)"

text \<open>The loop over the packets, \<open>None\<close> if it is never left.\<close>

partial_function (option) rx_loop ::
    "'f fifo_rx \<Rightarrow> bool \<Rightarrow> nat \<Rightarrow> nat \<Rightarrow> int \<Rightarrow> int \<Rightarrow> nat \<Rightarrow> u32 \<Rightarrow> 'f rx_io \<Rightarrow> (nat \<times> u32 \<times> 'f rx_io) option" where
  "rx_loop fifo iommu ring n lim left head cause io =
     (let sc = rx_sc io; rctl = esc_RCTL (rx_part sc); bufsz = e82545_bufsz rctl; k = max_pkt_desc rctl in
      if 0 < lim \<and> int k \<le> left then
        (let vec = rx_vec iommu (rx_mem io) ring n head bufsz k in
         case fifo (rx_fifo io) vec (rx_mem io) of
           (len, f, m) \<Rightarrow>
             (let io = io\<lparr>rx_fifo := f, rx_mem := m\<rparr> in
              if len \<le> 0 then Some (head, cause, io)
              else
                (let len = nat (rx_len rctl len); nd = (len + bufsz - 1) div bufsz in
                 if vlan_unknown sc m vec then rx_loop fifo iommu ring n lim left head cause io
                 else rx_loop fifo iommu ring n (lim - int nd) (left - int nd) ((head + nd) mod n)
                        (cause OR rx_cause sc len)
                        (io\<lparr>rx_mem := rx_packet ring n head bufsz len nd m\<rparr>))))
      else Some (head, cause, io))"

definition on_sc :: "(e82545_softc \<Rightarrow> e82545_softc res) \<Rightarrow> 'f rx_io \<Rightarrow> 'f rx_io res" where
  "on_sc g io = bindE (g (rx_sc io)) (\<lambda>sc. Inr (io\<lparr>rx_sc := sc\<rparr>))"

definition upd_sc :: "(e1000_rx \<Rightarrow> e1000_rx) \<Rightarrow> 'f rx_io \<Rightarrow> 'f rx_io" where
  "upd_sc g io = io\<lparr>rx_sc := upd_rx g (rx_sc io)\<rparr>"

text \<open>After the loop: head index and causes.\<close>

definition rx_finish :: "nat \<Rightarrow> nat \<Rightarrow> u32 \<Rightarrow> 'f rx_io \<Rightarrow> 'f rx_io res" where
  "rx_finish n head cause io =
     (let io = upd_sc (\<lambda>r. r\<lparr>esc_rx_active := False, esc_RDH := word_of_nat head\<rparr>) io;
          r = rx_part (rx_sc io);
          left = rx_left n (unat (esc_RDT r)) head;
          thresh = int (n div 2 ^ (unat (drop_bit 8 (esc_RCTL r) AND 3) + 1));
          cause = (if left < thresh then cause OR E1000_ICR_RXDMT0 else cause)
      in if cause \<noteq> 0 then on_sc (on_intr (e82545_icr_assert cause)) io else Inr io)"

definition e82545_tap_callback :: "'f fifo_rx \<Rightarrow> bool \<Rightarrow> 'f rx_io \<Rightarrow> 'f rx_io res" where
  "e82545_tap_callback fifo iommu io =
     bindE (on_sc (on_intr esc_lock) io) (\<lambda>io.
     let r = rx_part (rx_sc io) in
     bindE (if \<not> esc_rx_enabled r \<or> esc_rx_loopback r then Inr io
            else
              (let n = unat (esc_RDLEN r) div 16; head = unat (esc_RDH r); k = max_pkt_desc (esc_RCTL r) in
               if n = 0 then Inl Div_zero
               else
                 (let left = rx_left n (unat (esc_RDT r)) head in
                  if left < int k then Inr io
                  else
                    bindE (on_sc (on_intr esc_unlock) (upd_sc (\<lambda>r. r\<lparr>esc_rx_active := True\<rparr>) io)) (\<lambda>io.
                    bindE (if n div 4 = 0 then Inr (head, 0, io)
                           else
                             (case esc_rxdesc r of
                                None \<Rightarrow> Inl Null_deref
                              | Some rxdesc \<Rightarrow>
                                  (case rx_loop fifo iommu (unat rxdesc) n (int (n div 4)) left head 0 io of
                                     None \<Rightarrow> Inl No_return
                                   | Some res \<Rightarrow> Inr res))) (\<lambda>(head, cause, io).
                    bindE (on_sc (on_intr esc_lock) io) (rx_finish n head cause))))))
       (on_sc (on_intr esc_unlock)))"

section \<open>The descriptors of a packet\<close>

lemma rx_desc_vals:
  "le16 (rx_desc d len st m) (d + 8) = word_of_nat len"
  "rx_desc d len st m (d + 12) = st"
  by (simp_all add: rx_desc_def le16_def store16_other store_le16_def word_cat_ucast16)

lemma rx_desc_other: "a < d + 8 \<or> d + 16 \<le> a \<Longrightarrow> rx_desc d len st m a = m a"
  by (auto simp: rx_desc_def store16_other store_le16_other)

text \<open>Different places of the ring have descriptors that do not overlap.\<close>

lemma ring_places:
  assumes "i < n" "j < n" "i \<noteq> j"
  shows "(head + i) mod n \<noteq> (head + j) mod (n :: nat)"
proof
  assume "(head + i) mod n = (head + j) mod n"
  then have "int (head + i) mod int n = int (head + j) mod int n" by (metis of_nat_mod)
  then have "int n dvd int i - int j" by (simp add: mod_eq_dvd_iff)
  moreover have "int i - int j \<noteq> 0" using assms(3) by simp
  ultimately have "int n \<le> \<bar>int i - int j\<bar>" using dvd_imp_le_int [of "int i - int j" "int n"] by simp
  then show False using assms(1,2) by linarith
qed

definition rx_at :: "nat \<Rightarrow> nat \<Rightarrow> nat \<Rightarrow> nat \<Rightarrow> nat" where
  "rx_at ring n head i = ring + 16 * ((head + i) mod n)"

lemma rx_at_apart:
  assumes "i < n" "j < n" "i \<noteq> j" "a < 16"
  shows "rx_at ring n head j + a < rx_at ring n head i + 8 \<or> rx_at ring n head i + 16 \<le> rx_at ring n head j + a"
  using ring_places [OF assms(1,2,3), of head] assms(4) unfolding rx_at_def by auto

text \<open>The fields that the card sets in a descriptor.\<close>

definition rx_entry :: "bytes \<Rightarrow> nat \<Rightarrow> nat \<times> u8" where
  "rx_entry m d = (unat (le16 m (d + 8)), m (d + 12))"

lemma rx_entry_desc: "len < 65536 \<Longrightarrow> rx_entry (rx_desc d len st m) d = (len, st)"
  by (simp add: rx_entry_def rx_desc_vals unat_of_nat take_bit_nat_eq_self)

lemma rx_entry_other:
  assumes "i < n" "j < n" "i \<noteq> j"
  shows "rx_entry (rx_desc (rx_at ring n head i) len st m) (rx_at ring n head j) = rx_entry m (rx_at ring n head j)"
proof -
  have "rx_desc (rx_at ring n head i) len st m (rx_at ring n head j + a) = m (rx_at ring n head j + a)" if "a < 16" for a
    by (rule rx_desc_other [OF rx_at_apart [OF assms that]])
  from this [of 8] this [of 9] this [of 12] show ?thesis by (simp add: rx_entry_def le16_def add.commute [of 9 "rx_at ring n head j"])
qed

lemma rx_full_entry:
  assumes "bufsz < 65536" "i + k \<le> n" "j < n"
  shows "rx_entry (rx_full ring n head bufsz i k m) (rx_at ring n head j) =
    (if i \<le> j \<and> j < i + k then (bufsz, 1) else rx_entry m (rx_at ring n head j))"
  using assms(2)
proof (induction k arbitrary: i m)
  case (Suc k)
  have "rx_entry (rx_desc (rx_at ring n head i) bufsz 1 m) (rx_at ring n head j) =
      (if j = i then (bufsz, 1) else rx_entry m (rx_at ring n head j))"
    using rx_entry_desc [OF assms(1)] rx_entry_other [of i n j] Suc.prems assms(3) by auto
  then show ?case using Suc.IH [of "Suc i" "rx_desc (rx_at ring n head i) bufsz 1 m"] Suc.prems
    by (auto simp: rx_at_def)
qed auto

lemma rx_full_other:
  "(\<And>j. j < n \<Longrightarrow> a < ring + 16 * j + 8 \<or> ring + 16 * j + 16 \<le> a) \<Longrightarrow> 0 < n \<Longrightarrow>
   rx_full ring n head bufsz i k m a = m a"
  by (induction k arbitrary: i m) (simp_all add: rx_desc_other)

text \<open>
  A packet of \<open>len\<close> bytes: every descriptor is done, the last one ends the packet, and the
  lengths add up to \<open>len\<close> unless the last buffer is full.
\<close>

lemma rx_packet_entries:
  assumes "0 < bufsz" "bufsz < 65536" "0 < len" "nd = (len + bufsz - 1) div bufsz" "nd \<le> n" "j < nd"
  shows "rx_entry (rx_packet ring n head bufsz len nd m) (rx_at ring n head j) =
    (if j = nd - 1 then (len mod bufsz, 0x87) else (bufsz, 1))"
proof -
  have nd: "0 < nd" using assms(1,3,4) by (simp add: div_greater_zero_iff)
  have "len mod bufsz < 65536" using assms(1,2) by (meson less_trans mod_less_divisor)
  have u: "rx_packet ring n head bufsz len nd m =
      rx_desc (rx_at ring n head (nd - 1)) (len mod bufsz) 0x87 (rx_full ring n head bufsz 0 (nd - 1) m)"
    by (simp only: rx_packet_def rx_at_def)
  show ?thesis
  proof (cases "j = nd - 1")
    case True
    then show ?thesis unfolding u using rx_entry_desc [OF \<open>len mod bufsz < 65536\<close>] by simp
  next
    case False
    then have "j < nd - 1" using assms(6) by simp
    then show ?thesis unfolding u
      using rx_entry_other [of "nd - 1" n j ring head] rx_full_entry [OF assms(2), of 0 "nd - 1" n j ring head m]
        assms(5,6) nd by simp
  qed
qed

lemma rx_packet_sum:
  assumes "0 < bufsz" "bufsz < 65536" "0 < len" "nd = (len + bufsz - 1) div bufsz" "nd \<le> n"
  shows "(\<Sum>j<nd. fst (rx_entry (rx_packet ring n head bufsz len nd m) (rx_at ring n head j))) =
    (if bufsz dvd len then len - bufsz else len)"
proof -
  define k where "k = (len - 1) div bufsz"
  have e: "len + bufsz - 1 = (len - 1) + bufsz" using assms(3) by simp
  have "nd = ((len - 1) + bufsz) div bufsz" unfolding assms(4) e ..
  moreover have "(x + bufsz) div bufsz = Suc (x div bufsz)" for x
    using div_add_self2 [of bufsz x] assms(1) by simp
  ultimately have k: "nd = Suc k" unfolding k_def by (simp only:)
  have "(\<Sum>j<nd. fst (rx_entry (rx_packet ring n head bufsz len nd m) (rx_at ring n head j))) =
      (\<Sum>j<nd. if j = nd - 1 then len mod bufsz else bufsz)"
  proof (rule sum.cong [OF refl])
    fix j assume "j \<in> {..<nd}"
    then have "j < nd" by simp
    show "fst (rx_entry (rx_packet ring n head bufsz len nd m) (rx_at ring n head j)) =
        (if j = nd - 1 then len mod bufsz else bufsz)"
      unfolding rx_packet_entries [OF assms \<open>j < nd\<close>] by (simp split: if_split)
  qed
  also have "\<dots> = (\<Sum>j<k. if j = k then len mod bufsz else bufsz) + len mod bufsz" unfolding k by simp
  also have "(\<Sum>j<k. if j = k then len mod bufsz else bufsz) = (\<Sum>j<k. bufsz)" by (rule sum.cong) auto
  also have "(\<Sum>j<k. bufsz) + len mod bufsz = k * bufsz + len mod bufsz" by simp
  also have "\<dots> = (if bufsz dvd len then len - bufsz else len)"
  proof (cases "bufsz dvd len")
    case True
    then obtain c where c: "len = bufsz * Suc c" using assms(3) by (metis dvdE gr0_implies_Suc nat_0_less_mult_iff)
    have "k = c" unfolding k_def by (rule div_nat_eqI) (use c assms(1) in simp_all)
    then show ?thesis using c by (simp add: mult.commute)
  next
    case False
    then have "len mod bufsz \<noteq> 0" by (simp add: mod_eq_0_iff_dvd)
    then have "len - 1 = len div bufsz * bufsz + (len mod bufsz - 1)"
      using div_mult_mod_eq [of len bufsz] by linarith
    moreover have "len mod bufsz - 1 < bufsz" using assms(1) by (simp add: less_imp_diff_less)
    ultimately have "k = len div bufsz" using assms(1) by (simp add: k_def)
    then show ?thesis using False by simp
  qed
  finally show ?thesis .
qed

text \<open>Outside the ring nothing changes.\<close>

lemma rx_packet_other:
  assumes "0 < n" "a \<notin> {ring..<ring + 16 * n}"
  shows "rx_packet ring n head bufsz len nd m a = m a"
proof -
  have out: "a < ring + 16 * j + 8 \<or> ring + 16 * j + 16 \<le> a" if "j < n" for j using assms(2) that by auto
  moreover have "(head + (nd - 1)) mod n < n" using assms(1) by simp
  ultimately show ?thesis using rx_full_other [OF out assms(1)] by (simp add: rx_packet_def rx_desc_other)
qed

section \<open>Receiving one packet\<close>

text \<open>Taking and releasing the lock of the card.\<close>

definition with_mtx :: "pthread_mutex \<Rightarrow> 'f rx_io \<Rightarrow> 'f rx_io" where
  "with_mtx mtx io = io\<lparr>rx_sc := (rx_sc io)\<lparr>intr_part := (intr_part (rx_sc io))\<lparr>esc_mtx := mtx\<rparr>\<rparr>\<rparr>"

lemma with_mtx_sel [simp]:
  "rx_part (rx_sc (with_mtx mtx io)) = rx_part (rx_sc io)" "rx_mem (with_mtx mtx io) = rx_mem io"
  "rx_fifo (with_mtx mtx io) = rx_fifo io" "esc_mtx (intr_part (rx_sc (with_mtx mtx io))) = mtx"
  "intr_inv (intr_part (rx_sc (with_mtx mtx io))) = intr_inv (intr_part (rx_sc io))"
  "l2_part (rx_sc (with_mtx mtx io)) = l2_part (rx_sc io)" "esc_VET (rx_sc (with_mtx mtx io)) = esc_VET (rx_sc io)"
  "esc_ICR (intr_part (rx_sc (with_mtx mtx io))) = esc_ICR (intr_part (rx_sc io))"
  by (simp_all add: with_mtx_def)

lemma rx_lock_ok:
  "free_mutex (esc_mtx (intr_part (rx_sc io))) \<Longrightarrow>
   \<exists>mtx. on_sc (on_intr esc_lock) io = Inr (with_mtx mtx io) \<and> held_mutex mtx"
  using esc_lock_ok [of "intr_part (rx_sc io)"] by (auto simp: on_sc_def on_intr_def with_mtx_def)

lemma rx_unlock_ok:
  "held_mutex (esc_mtx (intr_part (rx_sc io))) \<Longrightarrow>
   \<exists>mtx. on_sc (on_intr esc_unlock) io = Inr (with_mtx mtx io) \<and> free_mutex mtx"
  using esc_unlock_ok [of "intr_part (rx_sc io)"] by (auto simp: on_sc_def on_intr_def with_mtx_def)

lemma upd_sc_sel [simp]:
  "rx_part (rx_sc (upd_sc g io)) = g (rx_part (rx_sc io))" "rx_mem (upd_sc g io) = rx_mem io"
  "rx_fifo (upd_sc g io) = rx_fifo io" "intr_part (rx_sc (upd_sc g io)) = intr_part (rx_sc io)"
  "l2_part (rx_sc (upd_sc g io)) = l2_part (rx_sc io)" "esc_VET (rx_sc (upd_sc g io)) = esc_VET (rx_sc io)"
  by (simp_all add: upd_sc_def upd_rx_def)

text \<open>What the callback leaves alone.\<close>

definition rx_kept :: "'f rx_io \<Rightarrow> 'f rx_io \<Rightarrow> bool" where
  "rx_kept io io' \<longleftrightarrow> tx_part (rx_sc io') = tx_part (rx_sc io) \<and>
     esc_IMS (intr_part (rx_sc io')) = esc_IMS (intr_part (rx_sc io)) \<and>
     lintr_rest (esc_pi (intr_part (rx_sc io'))) = lintr_rest (esc_pi (intr_part (rx_sc io)))"

lemma rx_kept_trans [trans]: "rx_kept a b \<Longrightarrow> rx_kept b c \<Longrightarrow> rx_kept a c"
  by (simp add: rx_kept_def)

lemma rx_kept_simps [simp]: "rx_kept io (with_mtx k io)" "rx_kept io (upd_sc g io)" "rx_kept io (io\<lparr>rx_fifo := f\<rparr>)"
  "rx_kept io (io\<lparr>rx_mem := m, rx_fifo := f\<rparr>)"
  by (simp_all add: rx_kept_def with_mtx_def upd_sc_def upd_rx_def)

text \<open>The end of the callback raises the causes that were collected.\<close>

lemma rx_finish_ok:
  assumes "intr_inv (intr_part (rx_sc io))"
  shows "\<exists>io' extra. rx_finish n head cause io = Inr io' \<and>
    esc_ICR (intr_part (rx_sc io')) = esc_ICR (intr_part (rx_sc io)) OR cause OR extra \<and>
    intr_inv (intr_part (rx_sc io')) \<and> esc_mtx (intr_part (rx_sc io')) = esc_mtx (intr_part (rx_sc io)) \<and>
    rx_mem io' = rx_mem io \<and> rx_fifo io' = rx_fifo io \<and> rx_kept io io' \<and>
    rx_part (rx_sc io') = (rx_part (rx_sc io))\<lparr>esc_rx_active := False, esc_RDH := word_of_nat head\<rparr>"
proof -
  define io1 where "io1 = upd_sc (\<lambda>r. r\<lparr>esc_rx_active := False, esc_RDH := word_of_nat head\<rparr>) io"
  define low where "low \<longleftrightarrow> rx_left n (unat (esc_RDT (rx_part (rx_sc io1)))) head <
    int (n div 2 ^ (unat (drop_bit 8 (esc_RCTL (rx_part (rx_sc io1))) AND 3) + 1))"
  define extra where "extra = (if low then E1000_ICR_RXDMT0 else 0)"
  have f: "rx_finish n head cause io = (if cause OR extra \<noteq> 0 then on_sc (on_intr (e82545_icr_assert (cause OR extra))) io1
      else Inr io1)"
    unfolding rx_finish_def Let_def io1_def [symmetric] low_def [symmetric] extra_def
    by (cases low) simp_all
  show ?thesis
  proof (cases "cause OR extra = 0")
    case True
    then have "cause = 0" by (simp add: or_eq_0_iff)
    then show ?thesis using True f assms
      by (intro exI [of _ io1] exI [of _ "0 :: u32"]) (simp add: io1_def)
  next
    case False
    have "intr_inv (intr_part (rx_sc io1))" using assms by (simp add: io1_def)
    from icr_assert_ok [OF this, of "cause OR extra"] obtain i where i:
      "e82545_icr_assert (cause OR extra) (intr_part (rx_sc io1)) = Inr i" "intr_kept (intr_part (rx_sc io1)) i"
      "esc_ICR i = esc_ICR (intr_part (rx_sc io1)) OR (cause OR extra)" "esc_IMS i = esc_IMS (intr_part (rx_sc io1))" by blast
    moreover have "rx_kept io (io1\<lparr>rx_sc := (rx_sc io1)\<lparr>intr_part := i\<rparr>\<rparr>)"
      using i(2,4) by (simp add: rx_kept_def intr_kept_def io1_def) (simp add: upd_sc_def upd_rx_def)
    ultimately show ?thesis using False f
      by (intro exI [of _ "io1\<lparr>rx_sc := (rx_sc io1)\<lparr>intr_part := i\<rparr>\<rparr>"] exI [of _ extra])
        (simp add: on_sc_def on_intr_def intr_kept_def io1_def or.assoc)
  qed
qed

lemma bufsz_bounds: "0 < e82545_bufsz rctl" "e82545_bufsz rctl < 65536"
  by (simp_all add: e82545_bufsz_def Let_def)

lemma max_pkt_desc_pos: "0 < max_pkt_desc rctl"
  using bufsz_bounds [of rctl] by (auto simp: max_pkt_desc_def div_greater_zero_iff)

text \<open>The FIFO holds one packet of \<open>len\<close> bytes: a second read gives nothing.\<close>

definition one_packet :: "'f fifo_rx \<Rightarrow> 'f \<Rightarrow> iovec list \<Rightarrow> bytes \<Rightarrow> int \<Rightarrow> bytes \<Rightarrow> bool" where
  "one_packet fifo f vec m len m1 \<longleftrightarrow>
     (\<exists>f1. fifo f vec m = (len, f1, m1) \<and> (\<forall>v m. \<exists>f2. fst (fifo f1 v m) \<le> 0 \<and> snd (fifo f1 v m) = (f2, m)))"

lemma rx_loop_one:
  assumes "0 < lim" "int (max_pkt_desc rctl) \<le> left" "rctl = esc_RCTL (rx_part (rx_sc io))"
    "vec = rx_vec iommu (rx_mem io) ring n head (e82545_bufsz rctl) (max_pkt_desc rctl)"
    "one_packet fifo (rx_fifo io) vec (rx_mem io) l m1" "0 < l" "\<not> vlan_unknown (rx_sc io) m1 vec"
    "len = nat (rx_len rctl l)" "nd = (len + e82545_bufsz rctl - 1) div e82545_bufsz rctl"
  shows "\<exists>f'. rx_loop fifo iommu ring n lim left head cause io =
    Some ((head + nd) mod n, cause OR rx_cause (rx_sc io) len,
      io\<lparr>rx_mem := rx_packet ring n head (e82545_bufsz rctl) len nd m1, rx_fifo := f'\<rparr>)"
proof -
  obtain f1 where f1: "fifo (rx_fifo io) vec (rx_mem io) = (l, f1, m1)"
    "\<forall>v m. \<exists>f2. fst (fifo f1 v m) \<le> 0 \<and> snd (fifo f1 v m) = (f2, m)"
    using assms(5) by (auto simp: one_packet_def)
  define io1 where "io1 = io\<lparr>rx_fifo := f1, rx_mem := rx_packet ring n head (e82545_bufsz rctl) len nd m1\<rparr>"
  have step: "rx_loop fifo iommu ring n lim left head cause io =
      rx_loop fifo iommu ring n (lim - int nd) (left - int nd) ((head + nd) mod n) (cause OR rx_cause (rx_sc io) len) io1"
    using assms(1,2,6,7) f1(1)
    by (subst rx_loop.simps)
      (simp add: Let_def assms(3) [symmetric] assms(4) [symmetric] assms(8) [symmetric] assms(9) io1_def)
  have last: "\<exists>f'. rx_loop fifo iommu ring n lim left head cause io1 = Some (head, cause, io1\<lparr>rx_fifo := f'\<rparr>)"
    for lim left head cause
  proof (cases "0 < lim \<and> int (max_pkt_desc (esc_RCTL (rx_part (rx_sc io1)))) \<le> left")
    case False
    have "rx_loop fifo iommu ring n lim left head cause io1 = Some (head, cause, io1)"
      unfolding rx_loop.simps [of fifo iommu ring n lim left head cause io1] Let_def if_not_P [OF False] ..
    moreover have "io1\<lparr>rx_fifo := f1\<rparr> = io1" by (simp add: io1_def)
    ultimately show ?thesis by metis
  next
    case True
    define v where "v = rx_vec iommu (rx_mem io1) ring n head (e82545_bufsz (esc_RCTL (rx_part (rx_sc io1))))
      (max_pkt_desc (esc_RCTL (rx_part (rx_sc io1))))"
    obtain l2 f2 where "fifo f1 v (rx_mem io1) = (l2, f2, rx_mem io1)" "l2 \<le> 0"
      using f1(2) by (metis prod.collapse)
    moreover have "rx_fifo io1 = f1" by (simp add: io1_def)
    ultimately have "rx_loop fifo iommu ring n lim left head cause io1 = Some (head, cause, io1\<lparr>rx_fifo := f2\<rparr>)"
      using True by (subst rx_loop.simps) (simp add: Let_def v_def [symmetric])
    then show ?thesis by blast
  qed
  show ?thesis unfolding step
    using last [of "lim - int nd" "left - int nd" "(head + nd) mod n" "cause OR rx_cause (rx_sc io) len"]
    by (auto simp: io1_def)
qed

text \<open>
  If the FIFO holds one packet, the card is enabled and the ring has room for it, the callback returns with the lock
  free and reception idle, the head index moves past the descriptors of the packet, each of them is marked
  done and only the last ends the packet. The lengths in the descriptors add up to the length of the packet (padded, with the
  check sequence), except that a last buffer that is exactly full is reported as empty, so that its bytes are lost.
\<close>

theorem packet_received:
  assumes "intr_ready (intr_part (rx_sc io))" "r = rx_part (rx_sc io)" "esc_rx_enabled r" "\<not> esc_rx_loopback r"
    "esc_rxdesc r = Some ring" "n = unat (esc_RDLEN r) div 16" "4 \<le> n" "head = unat (esc_RDH r)"
    "bufsz = e82545_bufsz (esc_RCTL r)" "k = max_pkt_desc (esc_RCTL r)"
    "int k \<le> rx_left n (unat (esc_RDT r)) head"
    "vec = rx_vec iommu (rx_mem io) (unat ring) n head bufsz k"
    "one_packet fifo (rx_fifo io) vec (rx_mem io) l m1" "0 < l" "\<not> vlan_unknown (rx_sc io) m1 vec"
    "len = nat (rx_len (esc_RCTL r) l)" "nd = (len + bufsz - 1) div bufsz" "nd \<le> n"
  shows "\<exists>io'. e82545_tap_callback fifo iommu io = Inr io' \<and> intr_ready (intr_part (rx_sc io')) \<and>
    \<not> esc_rx_active (rx_part (rx_sc io')) \<and> esc_RDH (rx_part (rx_sc io')) = word_of_nat ((head + nd) mod n) \<and>
    (\<exists>old. esc_ICR (intr_part (rx_sc io')) = old OR rx_cause (rx_sc io) len) \<and>
    (\<forall>j<nd. rx_entry (rx_mem io') (rx_at (unat ring) n head j) =
      (if j = nd - 1 then (len mod bufsz, 0x87) else (bufsz, 1))) \<and>
    (\<Sum>j<nd. fst (rx_entry (rx_mem io') (rx_at (unat ring) n head j))) = (if bufsz dvd len then len - bufsz else len) \<and>
    rx_kept io io' \<and> (\<forall>a. a \<notin> {unat ring..<unat ring + 16 * n} \<longrightarrow> rx_mem io' a = m1 a)"
proof -
  have inv: "intr_inv (intr_part (rx_sc io))" "free_mutex (esc_mtx (intr_part (rx_sc io)))"
    using assms(1) by (simp_all add: intr_ready_def)
  obtain x1 where x1: "on_sc (on_intr esc_lock) io = Inr (with_mtx x1 io)" "held_mutex x1"
    using rx_lock_ok [OF inv(2)] by blast
  define a where "a = upd_sc (\<lambda>r. r\<lparr>esc_rx_active := True\<rparr>) (with_mtx x1 io)"
  have "held_mutex (esc_mtx (intr_part (rx_sc a)))" using x1(2) by (simp add: a_def)
  from rx_unlock_ok [OF this] obtain x2 where
    x2: "on_sc (on_intr esc_unlock) a = Inr (with_mtx x2 a)" "free_mutex x2" by blast
  define b where "b = with_mtx x2 a"
  have b: "rx_part (rx_sc b) = r\<lparr>esc_rx_active := True\<rparr>" "rx_mem b = rx_mem io" "rx_fifo b = rx_fifo io"
    "rx_cause (rx_sc b) len = rx_cause (rx_sc io) len" "vlan_unknown (rx_sc b) m1 vec = vlan_unknown (rx_sc io) m1 vec"
    using assms(2) by (simp_all add: b_def a_def rx_cause_def vlan_unknown_def)
  have len: "0 < len" unfolding assms(16) rx_len_def Let_def by auto
  obtain f' where loop: "rx_loop fifo iommu (unat ring) n (int (n div 4)) (rx_left n (unat (esc_RDT r)) head) head 0 b =
      Some ((head + nd) mod n, rx_cause (rx_sc io) len,
        b\<lparr>rx_mem := rx_packet (unat ring) n head bufsz len nd m1, rx_fifo := f'\<rparr>)"
    using rx_loop_one [of "int (n div 4)" "esc_RCTL r" "rx_left n (unat (esc_RDT r)) head" b vec iommu "unat ring" n head
        fifo l m1 len nd 0] assms b by (auto simp: div_greater_zero_iff)
  define c where "c = b\<lparr>rx_mem := rx_packet (unat ring) n head bufsz len nd m1, rx_fifo := f'\<rparr>"
  have "free_mutex (esc_mtx (intr_part (rx_sc c)))" using x2(2) by (simp add: c_def b_def)
  from rx_lock_ok [OF this] obtain x3 where x3: "on_sc (on_intr esc_lock) c = Inr (with_mtx x3 c)" "held_mutex x3" by blast
  have "intr_inv (intr_part (rx_sc (with_mtx x3 c)))" using inv(1) by (simp add: c_def b_def a_def)
  from rx_finish_ok [OF this, of n "(head + nd) mod n" "rx_cause (rx_sc io) len"] obtain e extra where
    e: "rx_finish n ((head + nd) mod n) (rx_cause (rx_sc io) len) (with_mtx x3 c) = Inr e"
      "esc_ICR (intr_part (rx_sc e)) = esc_ICR (intr_part (rx_sc c)) OR rx_cause (rx_sc io) len OR extra"
      "intr_inv (intr_part (rx_sc e))" "esc_mtx (intr_part (rx_sc e)) = x3" "rx_mem e = rx_mem c" "rx_kept (with_mtx x3 c) e"
      "rx_part (rx_sc e) = (rx_part (rx_sc c))\<lparr>esc_rx_active := False, esc_RDH := word_of_nat ((head + nd) mod n)\<rparr>"
    by auto
  have "held_mutex (esc_mtx (intr_part (rx_sc e)))" using e(4) x3(2) by simp
  from rx_unlock_ok [OF this] obtain x4 where x4: "on_sc (on_intr esc_unlock) e = Inr (with_mtx x4 e)" "free_mutex x4" by blast
  have n4: "n div 4 \<noteq> 0" using assms(7) by (simp add: div_eq_0_iff)
  have run: "e82545_tap_callback fifo iommu io = Inr (with_mtx x4 e)"
    unfolding e82545_tap_callback_def
    using x1 x2(1) x3(1) x4(1) e(1) loop assms(3-5,7,11) n4
    by (simp add: Let_def assms(2) [symmetric] assms(6) [symmetric] assms(8) [symmetric] assms(10) [symmetric]
        a_def [symmetric] b_def [symmetric] c_def [symmetric])
  have icr: "\<exists>old. esc_ICR (intr_part (rx_sc e)) = old OR rx_cause (rx_sc io) len"
    unfolding e(2) by (metis or.assoc or.commute)
  have mem: "rx_mem e = rx_packet (unat ring) n head bufsz len nd m1" using e(5) by (simp add: c_def)
  note ent = rx_packet_entries [OF bufsz_bounds [of "esc_RCTL r", folded assms(9)] len assms(17,18)]
    and total = rx_packet_sum [OF bufsz_bounds [of "esc_RCTL r", folded assms(9)] len assms(17,18)]
  have final: "rx_mem (with_mtx x4 e) = rx_packet (unat ring) n head bufsz len nd m1" by (simp add: mem)
  have "intr_ready (intr_part (rx_sc (with_mtx x4 e)))" using e(3) x4(2) by (simp add: intr_ready_def)
  moreover have "\<not> esc_rx_active (rx_part (rx_sc (with_mtx x4 e)))"
    "esc_RDH (rx_part (rx_sc (with_mtx x4 e))) = word_of_nat ((head + nd) mod n)" using e(7) by simp_all
  moreover have "rx_kept io (with_mtx x4 e)"
  proof -
    have "rx_kept io a" unfolding a_def by (rule rx_kept_trans [OF rx_kept_simps(1,2)])
    also have "rx_kept a b" by (simp add: b_def)
    also have "rx_kept b c" by (simp add: c_def)
    also have "rx_kept c (with_mtx x3 c)" by simp
    also note e(6)
    also have "rx_kept e (with_mtx x4 e)" by simp
    finally show ?thesis .
  qed
  moreover have "0 < n" using assms(7) by simp
  moreover have "\<exists>old. esc_ICR (intr_part (rx_sc (with_mtx x4 e))) = old OR rx_cause (rx_sc io) len"
    using icr by simp
  ultimately show ?thesis
    using run ent [of _ "unat ring" head m1] total [of "unat ring" head m1] rx_packet_other [of n _ "unat ring" head bufsz len nd m1]
    unfolding final [symmetric] by blast
qed

text \<open>A FIFO of packets that copies a packet to the first fragment.\<close>

definition wit_fifo :: "u8 list list fifo_rx" where
  "wit_fifo f iov m =
     (case f of
        [] \<Rightarrow> (- 1, [], m)
      | p # ps \<Rightarrow> (int (length p), ps, \<lambda>a. if iov_base (hd iov) \<le> a \<and> a < iov_base (hd iov) + length p
                                        then p ! (a - iov_base (hd iov)) else m a))"

definition wit_packet :: "nat \<Rightarrow> u8 list" where
  "wit_packet n = replicate n 0"

definition wit_rx :: "u8 list list rx_io" where
  "wit_rx = \<lparr>rx_sc = upd_rx (\<lambda>r. r\<lparr>esc_rx_enabled := True, esc_rxdesc := Some 4096, esc_RDLEN := 128,
     esc_RDT := 4\<rparr>) wit_softc, rx_mem = (\<lambda>_. 0), rx_fifo = [wit_packet 2044]\<rparr>"

lemma length_wit_packet [simp]: "length (wit_packet n) = n"
  by (simp add: wit_packet_def)

lemma wit_fifo_one: "\<exists>m1. one_packet wit_fifo [p] vec m (int (length p)) m1"
  by (auto simp: one_packet_def wit_fifo_def)

text \<open>2044 bytes and the check sequence fill a buffer of 2048 bytes: the length reported is 0.\<close>

theorem packet_received_witness:
  "\<exists>io'. e82545_tap_callback wit_fifo True wit_rx = Inr io' \<and> esc_RDH (rx_part (rx_sc io')) = 1 \<and>
     rx_entry (rx_mem io') (rx_at 4096 8 0 0) = (0, 0x87)"
proof -
  define r where "r = rx_part (rx_sc wit_rx)"
  have r: "esc_rx_enabled r" "\<not> esc_rx_loopback r" "esc_rxdesc r = Some 4096" "esc_RDLEN r = 128" "esc_RDH r = 0"
    "esc_RDT r = 4" "esc_RCTL r = 0" by (simp_all add: r_def wit_rx_def wit_softc_def upd_rx_def)
  have c: "e82545_bufsz 0 = 2048" "max_pkt_desc 0 = 1" "rx_left 8 4 0 = 4" "rx_len 0 2044 = 2048"
    by (simp_all add: e82545_bufsz_def max_pkt_desc_def rx_left_def rx_len_def signed_modulo_int_def)
  define vec where "vec = rx_vec True (rx_mem wit_rx) 4096 8 0 2048 1"
  obtain m1 where m1: "one_packet wit_fifo (rx_fifo wit_rx) vec (rx_mem wit_rx) 2044 m1"
    using wit_fifo_one [of "wit_packet 2044" vec "rx_mem wit_rx"] by (auto simp: wit_rx_def)
  have ready: "intr_ready (intr_part (rx_sc wit_rx))"
    using wit_intr_ready by (simp add: wit_rx_def upd_rx_def wit_softc_def)
  have novlan: "\<not> vlan_unknown (rx_sc wit_rx) m1 vec"
    by (simp add: vlan_unknown_def Let_def r_def [symmetric] r)
  have vec1: "vec = rx_vec True (rx_mem wit_rx) 4096 8 0 2048 (Suc 0)" by (simp add: vec_def)
  have "\<exists>io'. e82545_tap_callback wit_fifo True wit_rx = Inr io' \<and> intr_ready (intr_part (rx_sc io')) \<and>
    \<not> esc_rx_active (rx_part (rx_sc io')) \<and> esc_RDH (rx_part (rx_sc io')) = word_of_nat ((0 + 1) mod 8) \<and>
    (\<exists>old. esc_ICR (intr_part (rx_sc io')) = old OR rx_cause (rx_sc wit_rx) 2048) \<and>
    (\<forall>j<1. rx_entry (rx_mem io') (rx_at (unat (4096 :: u64)) 8 0 j) =
      (if j = 1 - 1 then (2048 mod 2048, 0x87) else (2048, 1))) \<and>
    (\<Sum>j<1. fst (rx_entry (rx_mem io') (rx_at (unat (4096 :: u64)) 8 0 j))) = (if (2048 :: nat) dvd 2048 then 2048 - 2048 else 2048) \<and>
    rx_kept wit_rx io' \<and> (\<forall>a. a \<notin> {unat (4096 :: u64)..<unat (4096 :: u64) + 16 * 8} \<longrightarrow> rx_mem io' a = m1 a)"
    by (rule packet_received [OF ready r_def r(1,2,3), where k = 1 and vec = vec and l = 2044 and ?m1.0 = m1])
      (simp_all add: r c m1 [unfolded vec1] novlan [unfolded vec1] vec1)
  then show ?thesis by auto
qed

end
