(* ===== verification/E1000_Device.thy ===== *)
theory E1000_Device
  imports Pci_Emul E1000_Ring E1000_Rx
begin

text \<open>
  \<open>bhyve/pci_e82545.c\<close>: the card as a device of the PCI bus: its initialisation,
  its BAR callbacks and the poll the main loop calls.
\<close>

section \<open>The card on the bus\<close>

text \<open>
  The world of the bus with the global \<open>e82545_sc\<close>, the guest's memory, the frames sent
  and the receiving FIFO. There is one card, so the \<open>pi_arg\<close> of its instance is
  \<open>e82545_sc\<close>, and its \<open>esc_pi\<close> is that instance.
\<close>

record 'f e1000_world = pci_world +
  w_e1000 :: "e82545_softc option"
  w_ram :: bytes
  w_sent :: "u8 list list"
  w_fifo :: 'f

text \<open>What \<open>calloc\<close> returns.\<close>

definition zero_softc :: e82545_softc where
  "zero_softc = \<lparr>
     intr_part = \<lparr>esc_pi = zero_devinst, esc_pic = [], esc_mtx = \<lparr>mtx_lock = 0\<rparr>, esc_mevpitr = False,
       mevpitr_callout = [], esc_irq_asserted = False, esc_ICR = 0, esc_ITR = 0, esc_ICS = 0, esc_IMS = 0,
       esc_IMC = 0\<rparr>,
     nvm_part = \<lparr>eeprom_control = 0, nvm_data = 0, nvm_opaddr = 0, nvm_bits = 0,
       nvm_mode = E82545_NVM_MODE_OPADDR, eeprom_data = replicate 64 0\<rparr>,
     tx_part = \<lparr>esc_txdesc = None, esc_txctx = replicate 16 0, esc_tx_enabled = False, esc_tx_active = False,
       esc_TXCW = 0, esc_TCTL = 0, esc_TIPG = 0, esc_AIT = 0, esc_tdba = 0, esc_TDBAL = 0, esc_TDBAH = 0,
       esc_TDLEN = 0, esc_TDH = 0, esc_TDHr = 0, esc_TDT = 0, esc_TIDV = 0, esc_TXDCTL = 0, esc_TADV = 0\<rparr>,
     rx_part = \<lparr>esc_rxdesc = None, esc_rx_enabled = False, esc_rx_active = False, esc_rx_loopback = False,
       esc_RCTL = 0, esc_FCRTL = 0, esc_FCRTH = 0, esc_rdba = 0, esc_RDBAL = 0, esc_RDBAH = 0, esc_RDLEN = 0,
       esc_RDH = 0, esc_RDT = 0, esc_RDTR = 0, esc_RXDCTL = 0, esc_RADV = 0, esc_RSRPD = 0, esc_RXCSUM = 0\<rparr>,
     l2_part = \<lparr>esc_uni = replicate 16 zero_uni, esc_fmcast = replicate 128 0, esc_fvlan = replicate 128 0\<rparr>,
     stats_part = \<lparr>missed_pkt_count = 0, pkt_rx_by_size = replicate 6 0, pkt_tx_by_size = replicate 6 0,
       good_pkt_rx_count = 0, bcast_pkt_rx_count = 0, mcast_pkt_rx_count = 0, good_pkt_tx_count = 0,
       bcast_pkt_tx_count = 0, mcast_pkt_tx_count = 0, oversize_rx_count = 0, tso_tx_count = 0,
       good_octets_rx = 0, good_octets_tx = 0, missed_octets = 0\<rparr>,
     esc_mac = replicate 6 0, esc_CTRL = 0, esc_FCAL = 0, esc_FCAH = 0, esc_FCT = 0,
     esc_VET = 0, esc_FCTTV = 0, esc_LEDCTL = 0, esc_PBA = 0, io_addr = 0, mdi_control = 0\<rparr>"

text \<open>An operation of the card on its own instance and on the interrupt controller.\<close>

definition at_devi :: "pci_devinst \<Rightarrow> pic_log \<Rightarrow> e82545_softc \<Rightarrow> e82545_softc" where
  "at_devi pi pic sc = sc\<lparr>intr_part := (intr_part sc)\<lparr>esc_pi := pi, esc_pic := pic\<rparr>\<rparr>"

definition e1000_leave ::
    "e82545_softc \<Rightarrow> ('f, 'a) e1000_world_scheme \<Rightarrow> pci_devinst \<times> ('f, 'a) e1000_world_scheme" where
  "e1000_leave sc w = (esc_pi (intr_part sc), w\<lparr>w_pic := esc_pic (intr_part sc), w_e1000 := Some sc\<rparr>)"

definition e1000_barwrite ::
    "bool \<Rightarrow> nat \<Rightarrow> u64 \<Rightarrow> nat \<Rightarrow> u64 \<Rightarrow> pci_devinst \<times> ('f, 'a) e1000_world_scheme
     \<Rightarrow> (pci_devinst \<times> ('f, 'a) e1000_world_scheme) res" where
  "e1000_barwrite iommu baridx offset sz value s =
     (case w_e1000 (snd s) of
        None \<Rightarrow> Inl Null_deref
      | Some sc \<Rightarrow>
          bindE (e82545_write iommu baridx offset sz value (at_devi (fst s) (w_pic (snd s)) sc)) (\<lambda>sc.
          Inr (e1000_leave sc (snd s))))"

definition e1000_barread ::
    "nat \<Rightarrow> u64 \<Rightarrow> nat \<Rightarrow> pci_devinst \<times> ('f, 'a) e1000_world_scheme
     \<Rightarrow> (u64 \<times> pci_devinst \<times> ('f, 'a) e1000_world_scheme) res" where
  "e1000_barread baridx offset sz s =
     (case w_e1000 (snd s) of
        None \<Rightarrow> Inl Null_deref
      | Some sc \<Rightarrow>
          bindE (e82545_read baridx offset sz (at_devi (fst s) (w_pic (snd s)) sc)) (\<lambda>(v, sc).
          Inr (v, e1000_leave sc (snd s))))"

section \<open>Initialisation\<close>

abbreviation (input) E82545_BAR_REGISTER_LEN :: u64 where "E82545_BAR_REGISTER_LEN \<equiv> 128 * 1024"
abbreviation (input) E82545_BAR_FLASH :: nat where "E82545_BAR_FLASH \<equiv> 1"
abbreviation (input) E82545_BAR_FLASH_LEN :: u64 where "E82545_BAR_FLASH_LEN \<equiv> 64 * 1024"
abbreviation (input) PCIC_NETWORK :: u8 where "PCIC_NETWORK \<equiv> 2"
abbreviation (input) PCIS_NETWORK_ETHERNET :: u8 where "PCIS_NETWORK_ETHERNET \<equiv> 0"
abbreviation (input) PCIM_HDRTYPE_NORMAL :: u8 where "PCIM_HDRTYPE_NORMAL \<equiv> 0"

text \<open>The identification registers.\<close>

definition e82545_ids :: "pci_devinst \<Rightarrow> pci_devinst res" where
  "e82545_ids pi =
     bindE (pci_set_cfgdata16 pi PCIR_DEVICE E82545_DEV_ID_82545EM_COPPER) (\<lambda>pi.
     bindE (pci_set_cfgdata16 pi PCIR_VENDOR E82545_VENDOR_ID_INTEL) (\<lambda>pi.
     bindE (pci_set_cfgdata8 pi PCIR_CLASS PCIC_NETWORK) (\<lambda>pi.
     bindE (pci_set_cfgdata8 pi PCIR_SUBCLASS PCIS_NETWORK_ETHERNET) (\<lambda>pi.
     bindE (pci_set_cfgdata16 pi PCIR_SUBDEV_0 E82545_SUBDEV_ID) (\<lambda>pi.
     bindE (pci_set_cfgdata16 pi PCIR_SUBVEND_0 E82545_VENDOR_ID_INTEL) (\<lambda>pi.
     bindE (pci_set_cfgdata8 pi PCIR_HDRTYPE PCIM_HDRTYPE_NORMAL) (\<lambda>pi.
     pci_set_cfgdata8 pi PCIR_INTPIN 1)))))))"

text \<open>One call of \<open>pci_emul_alloc_bar\<close>, whose result the card does not look at.\<close>

definition e82545_alloc_bar ::
    "nat \<Rightarrow> pcibar_type \<Rightarrow> u64 \<Rightarrow> pci_devinst \<times> 'a pci_world_scheme \<Rightarrow> (pci_devinst \<times> 'a pci_world_scheme) res" where
  "e82545_alloc_bar idx type sz s =
     bindE (pci_emul_alloc_bar (fst s) idx type sz (w_cursors (snd s)) (w_mem (snd s))) (\<lambda>(_, pi, cs, mem).
     Inr (pi, (snd s)\<lparr>w_cursors := cs, w_mem := mem\<rparr>))"

definition e82545_bars ::
    "pci_devinst \<times> 'a pci_world_scheme \<Rightarrow> (pci_devinst \<times> 'a pci_world_scheme) res" where
  "e82545_bars s =
     bindE (e82545_alloc_bar E82545_BAR_REGISTER PCIBAR_MEM32 E82545_BAR_REGISTER_LEN s) (\<lambda>s.
     bindE (e82545_alloc_bar E82545_BAR_FLASH PCIBAR_MEM32 E82545_BAR_FLASH_LEN s) (\<lambda>s.
     e82545_alloc_bar E82545_BAR_IO PCIBAR_IO E82545_BAR_IO_LEN s))"

definition default_mac :: "u8 list" where
  "default_mac = [0x00, 0x07, 0xed, 0x63, 0xe4, 0x91]"

text \<open>The options are not read and the sending thread never runs.\<close>

definition e82545_init ::
    "string option \<Rightarrow> pci_devinst \<times> ('f, 'a) e1000_world_scheme
     \<Rightarrow> (int \<times> pci_devinst \<times> ('f, 'a) e1000_world_scheme) res" where
  "e82545_init opts s =
     (let sc = zero_softc\<lparr>intr_part := (intr_part zero_softc)\<lparr>
                 esc_mtx := pthread_mutex_init (esc_mtx (intr_part zero_softc))\<rparr>\<rparr>
      in bindE (e82545_ids (fst s)) (\<lambda>pi.
         bindE (pci_lintr_request (pi, snd s)) (\<lambda>s.
         bindE (e82545_bars s) (\<lambda>(pi, w).
         bindE (e82545_reset False (at_devi pi (w_pic w) (sc\<lparr>esc_mac := default_mac\<rparr>))) (\<lambda>sc.
         Inr (0, e1000_leave sc w))))))"

definition pci_de_e82545 :: "bool \<Rightarrow> ('f, 'a) e1000_world_scheme pci_devemu" where
  "pci_de_e82545 iommu = \<lparr>pe_emu = ''e1000'', pe_init = e82545_init, pe_cfgwrite = None, pe_cfgread = None,
     pe_barwrite = e1000_barwrite iommu, pe_barread = e1000_barread\<rparr>"

text \<open>
  The FIFOs, \<open>0\<close> for sending and \<open>1\<close> for receiving, and the thread that
  polls when packets arrive; \<open>created\<close> says whether it could be created.
\<close>

definition e82545_setup_fifo ::
    "bool \<Rightarrow> ('f, 'a) e1000_world_scheme \<Rightarrow> fifo_call list \<Rightarrow> int \<times> fifo_call list" where
  "e82545_setup_fifo created w log =
     (if w_e1000 w = None then (-1, log)
      else if \<not> created then (-1, log @ [Interrupts_disable 0, Interrupts_disable 1])
      else (0, log @ [Interrupts_disable 0, Interrupts_disable 1, Set_callback 1, Interrupts_enable 1]))"

section \<open>Polling\<close>

text \<open>
  The two polls of \<open>e1000_poll\<close>, on the instance the card points to.
  \<open>stk\<close> is the place of the header buffer on the stack.
\<close>

definition poll_tx :: "bool \<Rightarrow> nat \<Rightarrow> e82545_softc \<Rightarrow> ('f, 'a) e1000_world_scheme
    \<Rightarrow> (e82545_softc \<times> ('f, 'a) e1000_world_scheme) res" where
  "poll_tx iommu stk sc w =
     bindE (e82545_tx_poll iommu stk \<lparr>io_sc = sc, io_mem = w_ram w, io_sent = w_sent w\<rparr>) (\<lambda>io.
     Inr (io_sc io, w\<lparr>w_ram := io_mem io, w_sent := io_sent io\<rparr>))"

definition e82545_rx_poll :: "'f fifo_rx \<Rightarrow> bool \<Rightarrow> e82545_softc \<Rightarrow> ('f, 'a) e1000_world_scheme
    \<Rightarrow> (e82545_softc \<times> ('f, 'a) e1000_world_scheme) res" where
  "e82545_rx_poll fifo iommu sc w =
     bindE (e82545_tap_callback fifo iommu \<lparr>rx_sc = sc, rx_mem = w_ram w, rx_fifo = w_fifo w\<rparr>) (\<lambda>io.
     Inr (rx_sc io, w\<lparr>w_ram := rx_mem io, w_fifo := rx_fifo io\<rparr>))"

definition e1000_poll :: "'f fifo_rx \<Rightarrow> bool \<Rightarrow> nat \<Rightarrow> ('f, 'a) e1000_world_scheme
    \<Rightarrow> ('f, 'a) e1000_world_scheme res" where
  "e1000_poll fifo iommu stk w =
     (case w_e1000 w of
        None \<Rightarrow> Inr w
      | Some sc \<Rightarrow>
          (let b = pi_bdf (esc_pi (intr_part sc)) in
           case get_devi w b of
             None \<Rightarrow> Inl Null_deref
           | Some pi \<Rightarrow>
               bindE (poll_tx iommu stk (at_devi pi (w_pic w) sc) w) (\<lambda>(sc, w).
               bindE (e82545_rx_poll fifo iommu sc w) (\<lambda>(sc, w).
               let (pi, w) = e1000_leave sc w in Inr (put_devi b (Some pi) w)))))"

text \<open>
  The interrupt of the receiving FIFO posts a semaphore; one turn of the thread that
  waits for it takes what has arrived, \<open>None\<close> while it waits.
\<close>

definition e1000_fifo_intr :: "nat \<Rightarrow> nat" where
  "e1000_fifo_intr sem = sem + 1"

definition e1000_fifo_work :: "'f fifo_rx \<Rightarrow> bool \<Rightarrow> nat \<times> ('f, 'a) e1000_world_scheme
    \<Rightarrow> (nat \<times> ('f, 'a) e1000_world_scheme) option res" where
  "e1000_fifo_work fifo iommu s =
     (if fst s = 0 then Inr None
      else
        (case w_e1000 (snd s) of
           None \<Rightarrow> Inl Null_deref
         | Some sc \<Rightarrow>
             (let b = pi_bdf (esc_pi (intr_part sc)) in
              case get_devi (snd s) b of
                None \<Rightarrow> Inl Null_deref
              | Some pi \<Rightarrow>
                  bindE (e82545_rx_poll fifo iommu (at_devi pi (w_pic (snd s)) sc) (snd s)) (\<lambda>(sc, w).
                  let (pi, w) = e1000_leave sc w in Inr (Some (fst s - 1, put_devi b (Some pi) w))))))"

end
