(* ===== verification/Ahci_Dev.thy ===== *)
theory Ahci_Dev
  imports Ahci_Port E1000_Device
begin

text \<open>
  \<open>bhyve/pci_ahci.c\<close>: the registers of the controller and of its ports, its
  initialisation as a device of the PCI bus, and the block thread that serves it.
\<close>

section \<open>Port registers\<close>

abbreviation (input) AHCI_OFFSET :: u64 where "AHCI_OFFSET \<equiv> 0x100"
abbreviation (input) AHCI_STEP :: u64 where "AHCI_STEP \<equiv> 0x80"
abbreviation (input) AHCI_P_CLB :: u64 where "AHCI_P_CLB \<equiv> 0x00"
abbreviation (input) AHCI_P_CLBU :: u64 where "AHCI_P_CLBU \<equiv> 0x04"
abbreviation (input) AHCI_P_FB :: u64 where "AHCI_P_FB \<equiv> 0x08"
abbreviation (input) AHCI_P_FBU :: u64 where "AHCI_P_FBU \<equiv> 0x0c"
abbreviation (input) AHCI_P_IS :: u64 where "AHCI_P_IS \<equiv> 0x10"
abbreviation (input) AHCI_P_IE :: u64 where "AHCI_P_IE \<equiv> 0x14"
abbreviation (input) AHCI_P_CMD :: u64 where "AHCI_P_CMD \<equiv> 0x18"
abbreviation (input) AHCI_P_TFD :: u64 where "AHCI_P_TFD \<equiv> 0x20"
abbreviation (input) AHCI_P_SIG :: u64 where "AHCI_P_SIG \<equiv> 0x24"
abbreviation (input) AHCI_P_SSTS :: u64 where "AHCI_P_SSTS \<equiv> 0x28"
abbreviation (input) AHCI_P_SCTL :: u64 where "AHCI_P_SCTL \<equiv> 0x2c"
abbreviation (input) AHCI_P_SERR :: u64 where "AHCI_P_SERR \<equiv> 0x30"
abbreviation (input) AHCI_P_SACT :: u64 where "AHCI_P_SACT \<equiv> 0x34"
abbreviation (input) AHCI_P_CI :: u64 where "AHCI_P_CI \<equiv> 0x38"
abbreviation (input) AHCI_P_SNTF :: u64 where "AHCI_P_SNTF \<equiv> 0x3C"
abbreviation (input) AHCI_P_FBS :: u64 where "AHCI_P_FBS \<equiv> 0x40"

text \<open>The bits of the command register that software sets.\<close>

definition cmd_writable :: u32 where
  "cmd_writable = AHCI_P_CMD_ST OR AHCI_P_CMD_SUD OR AHCI_P_CMD_POD OR AHCI_P_CMD_CLO OR AHCI_P_CMD_FRE OR
     AHCI_P_CMD_APSTE OR AHCI_P_CMD_ATAPI OR AHCI_P_CMD_DLAE OR AHCI_P_CMD_ALPE OR AHCI_P_CMD_ASP OR
     AHCI_P_CMD_ICC_MASK"

definition two_words :: "u32 \<Rightarrow> u32 \<Rightarrow> u64" where
  "two_words hi lo = push_bit 32 (ucast hi) OR ucast lo"

definition start_list :: "bool \<Rightarrow> ahci_port \<Rightarrow> ahci_port" where
  "start_list iommu p = p\<lparr>regs := (regs p)\<lparr>r_cmd := r_cmd (regs p) OR AHCI_P_CMD_CR\<rparr>,
     cmd_lst := Some (unat (paddr_guest2host iommu (two_words (r_clbu (regs p)) (r_clb (regs p)))))\<rparr>"

definition set_receive :: "bool \<Rightarrow> bool \<Rightarrow> ahci_port \<Rightarrow> ahci_port" where
  "set_receive iommu on p =
     (if on then p\<lparr>regs := (regs p)\<lparr>r_cmd := r_cmd (regs p) OR AHCI_P_CMD_FR\<rparr>,
             rfis := Some (unat (paddr_guest2host iommu (two_words (r_fbu (regs p)) (r_fb (regs p)))))\<rparr>
      else p\<lparr>regs := (regs p)\<lparr>r_cmd := r_cmd (regs p) AND NOT AHCI_P_CMD_FR\<rparr>\<rparr>)"

definition port_cmd_write :: "bool \<Rightarrow> bytes \<Rightarrow> nat \<Rightarrow> u32 \<Rightarrow> ahci_io \<Rightarrow> ahci_io res" where
  "port_cmd_write iommu junk n value io =
     (let io = upd_regs n (\<lambda>r. r\<lparr>r_cmd := r_cmd r AND NOT cmd_writable OR (cmd_writable AND value)\<rparr>) io
      in bindE (if value AND AHCI_P_CMD_ST = 0 then ahci_port_stop n io
                else Inr (upd_port n (start_list iommu) io)) (\<lambda>io.
         let io = upd_port n (set_receive iommu (value AND AHCI_P_CMD_FRE \<noteq> 0)) io;
             io = (if value AND AHCI_P_CMD_CLO \<noteq> 0 then
                     upd_regs n (\<lambda>r. r\<lparr>r_tfd := r_tfd r AND NOT (ATA_S_BUSY OR ATA_S_DRQ),
                       r_cmd := r_cmd r AND NOT AHCI_P_CMD_CLO\<rparr>) io else io);
             io = (if value AND AHCI_P_CMD_ICC_MASK \<noteq> 0 then
                     upd_regs n (\<lambda>r. r\<lparr>r_cmd := r_cmd r AND NOT AHCI_P_CMD_ICC_MASK\<rparr>) io else io)
         in ahci_handle_port iommu junk n io))"

definition port_of :: "u64 \<Rightarrow> nat" where
  "port_of offset = unat ((offset - AHCI_OFFSET) div AHCI_STEP)"

definition port_reg :: "u64 \<Rightarrow> u64" where
  "port_reg offset = (offset - AHCI_OFFSET) mod AHCI_STEP"

definition pci_ahci_port_write :: "bool \<Rightarrow> bytes \<Rightarrow> u64 \<Rightarrow> u64 \<Rightarrow> ahci_io \<Rightarrow> ahci_io res" where
  "pci_ahci_port_write iommu junk offset value io =
     (let n = port_of offset; reg = port_reg offset; v = ucast value :: u32 in
      if reg = AHCI_P_CLB then Inr (upd_regs n (\<lambda>r. r\<lparr>r_clb := v\<rparr>) io)
      else if reg = AHCI_P_CLBU then Inr (upd_regs n (\<lambda>r. r\<lparr>r_clbu := v\<rparr>) io)
      else if reg = AHCI_P_FB then Inr (upd_regs n (\<lambda>r. r\<lparr>r_fb := v\<rparr>) io)
      else if reg = AHCI_P_FBU then Inr (upd_regs n (\<lambda>r. r\<lparr>r_fbu := v\<rparr>) io)
      else if reg = AHCI_P_IS then ahci_port_intr n (upd_regs n (\<lambda>r. r\<lparr>r_is := r_is r AND NOT v\<rparr>) io)
      else if reg = AHCI_P_IE then ahci_port_intr n (upd_regs n (\<lambda>r. r\<lparr>r_ie := v AND 0xFDC000FF\<rparr>) io)
      else if reg = AHCI_P_CMD then port_cmd_write iommu junk n v io
      else if reg = AHCI_P_TFD \<or> reg = AHCI_P_SIG \<or> reg = AHCI_P_SSTS then Inr io
      else if reg = AHCI_P_SCTL then
        (let io = upd_regs n (\<lambda>r. r\<lparr>r_sctl := v\<rparr>) io in
         if r_cmd (regs (the_port n io)) AND AHCI_P_CMD_ST = 0 \<and> value AND ATA_SC_DET_RESET \<noteq> 0
         then ahci_port_reset n io else Inr io)
      else if reg = AHCI_P_SERR then Inr (upd_regs n (\<lambda>r. r\<lparr>r_serr := r_serr r AND NOT v\<rparr>) io)
      else if reg = AHCI_P_SACT then Inr (upd_regs n (\<lambda>r. r\<lparr>r_sact := r_sact r OR v\<rparr>) io)
      else if reg = AHCI_P_CI then
        ahci_handle_port iommu junk n (upd_regs n (\<lambda>r. r\<lparr>r_ci := r_ci r OR v\<rparr>) io)
      else Inr io)"

text \<open>The reads go through pointers to the first register: the registers in their order in memory.\<close>

definition port_words :: "port_regs \<Rightarrow> u32 list" where
  "port_words r = [r_clb r, r_clbu r, r_fb r, r_fbu r, r_is r, r_ie r, r_cmd r, r_unused0 r, r_tfd r, r_sig r,
     r_ssts r, r_sctl r, r_serr r, r_sact r, r_ci r, r_sntf r, r_fbs r]"

definition hba_words :: "hba_regs \<Rightarrow> u32 list" where
  "hba_words h = [h_cap h, h_ghc h, h_is h, h_pi h, h_vs h, h_ccc_ctl h, h_ccc_pts h, h_em_loc h, h_em_ctl h,
     h_cap2 h, h_bohc h]"

definition pci_ahci_port_read :: "u64 \<Rightarrow> ahci_io \<Rightarrow> u32" where
  "pci_ahci_port_read offset io =
     (let reg = port_reg offset in
      if reg \<in> {AHCI_P_CLB, AHCI_P_CLBU, AHCI_P_FB, AHCI_P_FBU, AHCI_P_IS, AHCI_P_IE, AHCI_P_CMD, AHCI_P_TFD,
         AHCI_P_SIG, AHCI_P_SSTS, AHCI_P_SCTL, AHCI_P_SERR, AHCI_P_SACT, AHCI_P_CI, AHCI_P_SNTF, AHCI_P_FBS}
      then port_words (regs (the_port (port_of offset) io)) ! unat (reg div 4)
      else 0)"

section \<open>Controller registers\<close>

abbreviation (input) AHCI_CAP :: u64 where "AHCI_CAP \<equiv> 0x00"
abbreviation (input) AHCI_GHC :: u64 where "AHCI_GHC \<equiv> 0x04"
abbreviation (input) AHCI_GHC_HR :: u64 where "AHCI_GHC_HR \<equiv> 0x00000001"
abbreviation (input) AHCI_IS :: u64 where "AHCI_IS \<equiv> 0x08"
abbreviation (input) AHCI_PI :: u64 where "AHCI_PI \<equiv> 0x0c"
abbreviation (input) AHCI_VS :: u64 where "AHCI_VS \<equiv> 0x10"
abbreviation (input) AHCI_CCCC :: u64 where "AHCI_CCCC \<equiv> 0x14"
abbreviation (input) AHCI_CCCP :: u64 where "AHCI_CCCP \<equiv> 0x18"
abbreviation (input) AHCI_EM_LOC :: u64 where "AHCI_EM_LOC \<equiv> 0x1C"
abbreviation (input) AHCI_EM_CTL :: u64 where "AHCI_EM_CTL \<equiv> 0x20"
abbreviation (input) AHCI_CAP2 :: u64 where "AHCI_CAP2 \<equiv> 0x24"

definition pci_ahci_host_write :: "u64 \<Rightarrow> u64 \<Rightarrow> ahci_io \<Rightarrow> ahci_io res" where
  "pci_ahci_host_write offset value io =
     (if offset = AHCI_GHC then
        (if value AND AHCI_GHC_HR \<noteq> 0 then ahci_reset io
         else
           ahci_generate_intr 0xffffffff
             (upd_hregs (\<lambda>h. h\<lparr>h_ghc := (if value AND 0x02 \<noteq> 0 then h_ghc h OR AHCI_GHC_IE
                                        else h_ghc h AND NOT AHCI_GHC_IE)\<rparr>) io))
      else if offset = AHCI_IS then
        ahci_generate_intr (ucast value) (upd_hregs (\<lambda>h. h\<lparr>h_is := h_is h AND NOT (ucast value)\<rparr>) io)
      else Inr io)"

definition pci_ahci_host_read :: "u64 \<Rightarrow> ahci_io \<Rightarrow> u32" where
  "pci_ahci_host_read offset io =
     (if offset \<in> {AHCI_CAP, AHCI_GHC, AHCI_IS, AHCI_PI, AHCI_VS, AHCI_CCCC, AHCI_CCCP, AHCI_EM_LOC, AHCI_EM_CTL,
         AHCI_CAP2}
      then hba_words (hregs (hba io)) ! unat (offset div 4) else 0)"

definition ports_end :: "ahci_io \<Rightarrow> u64" where
  "ports_end io = AHCI_OFFSET + of_nat (ports (hba io)) * AHCI_STEP"

definition pci_ahci_write :: "bool \<Rightarrow> bytes \<Rightarrow> nat \<Rightarrow> u64 \<Rightarrow> u64 \<Rightarrow> ahci_io \<Rightarrow> ahci_io res" where
  "pci_ahci_write iommu junk baridx offset value io =
     bindE (assertE (baridx = 5)) (\<lambda>_.
     bindE (assertE (offset mod 4 = 0)) (\<lambda>_.
     bindE (lock_hba io) (\<lambda>io.
     bindE (if offset < AHCI_OFFSET then pci_ahci_host_write offset value io
            else if offset < ports_end io then pci_ahci_port_write iommu junk offset value io
            else Inr io) unlock_hba)))"

definition pci_ahci_read :: "nat \<Rightarrow> u64 \<Rightarrow> nat \<Rightarrow> ahci_io \<Rightarrow> (u64 \<times> ahci_io) res" where
  "pci_ahci_read baridx regoff sz io =
     bindE (assertE (baridx = 5)) (\<lambda>_.
     bindE (assertE (sz = 1 \<or> sz = 2 \<or> sz = 4)) (\<lambda>_.
     bindE (assertE (regoff AND (of_nat sz - 1) = 0)) (\<lambda>_.
     bindE (lock_hba io) (\<lambda>io.
     let offset = regoff AND NOT 0x3;
         value = (if offset < AHCI_OFFSET then pci_ahci_host_read offset io
                  else if offset < ports_end io then pci_ahci_port_read offset io
                  else 0)
     in bindE (unlock_hba io) (\<lambda>io. Inr (ucast (drop_bit (8 * unat (regoff AND 0x3)) value), io))))))"

section \<open>The controller on the bus\<close>

text \<open>
  The world of the bus with the controller and the pointer of the block thread: the
  global \<open>blockif_sc\<close> of \<open>block_if.c\<close> once it is allocated, and in it the context
  opened last, named by its port. There is one controller, so the \<open>pi_arg\<close> of its instance
  is \<open>w_ahci\<close>.
\<close>

record 'f ahci_world = "'f e1000_world" +
  w_ahci :: "pci_ahci_softc option"
  w_blockif :: "nat option option"

definition at_hba :: "pci_devinst \<Rightarrow> ('f, 'a) ahci_world_scheme \<Rightarrow> pci_ahci_softc \<Rightarrow> ahci_io" where
  "at_hba pi w sc = \<lparr>hba = sc\<lparr>asc_pi := pi\<rparr>, a_mem = w_ram w, a_pic = w_pic w\<rparr>"

definition hba_leave ::
    "ahci_io \<Rightarrow> ('f, 'a) ahci_world_scheme \<Rightarrow> pci_devinst \<times> ('f, 'a) ahci_world_scheme" where
  "hba_leave io w = (asc_pi (hba io), w\<lparr>w_ahci := Some (hba io), w_ram := a_mem io, w_pic := a_pic io\<rparr>)"

definition ahci_barwrite ::
    "bool \<Rightarrow> bytes \<Rightarrow> nat \<Rightarrow> u64 \<Rightarrow> nat \<Rightarrow> u64 \<Rightarrow> pci_devinst \<times> ('f, 'a) ahci_world_scheme
     \<Rightarrow> (pci_devinst \<times> ('f, 'a) ahci_world_scheme) res" where
  "ahci_barwrite iommu junk baridx offset sz value s =
     (case w_ahci (snd s) of
        None \<Rightarrow> Inl Null_deref
      | Some sc \<Rightarrow>
          bindE (pci_ahci_write iommu junk baridx offset value (at_hba (fst s) (snd s) sc)) (\<lambda>io.
          Inr (hba_leave io (snd s))))"

definition ahci_barread ::
    "nat \<Rightarrow> u64 \<Rightarrow> nat \<Rightarrow> pci_devinst \<times> ('f, 'a) ahci_world_scheme
     \<Rightarrow> (u64 \<times> pci_devinst \<times> ('f, 'a) ahci_world_scheme) res" where
  "ahci_barread baridx regoff sz s =
     (case w_ahci (snd s) of
        None \<Rightarrow> Inl Null_deref
      | Some sc \<Rightarrow>
          bindE (pci_ahci_read baridx regoff sz (at_hba (fst s) (snd s) sc)) (\<lambda>(v, io).
          Inr (v, hba_leave io (snd s))))"

section \<open>Initialisation\<close>

definition zero_ioreq :: ahci_ioreq where
  "zero_ioreq = \<lparr>io_req = \<lparr>br_iovcnt = 0, br_offset = 0, br_resid = 0, br_iov = []\<rparr>, io_cfis = 0, io_len = 0,
     io_done = 0, io_slot = 0, io_more = False\<rparr>"

definition zero_port :: ahci_port where
  "zero_port = \<lparr>bctx = None, pr_sc = False, cmd_lst = None, rfis = None, p_ident = [], p_port = 0,
     p_atapi = False, p_reset = False, waitforclear = False, mult_sectors = 0, xfermode = 0,
     err_cfis = replicate 20 0, sense_key = 0, p_asc = 0, ccs = 0, pending = 0,
     regs = \<lparr>r_clb = 0, r_clbu = 0, r_fb = 0, r_fbu = 0, r_is = 0, r_ie = 0, r_cmd = 0, r_unused0 = 0, r_tfd = 0,
       r_sig = 0, r_ssts = 0, r_sctl = 0, r_serr = 0, r_sact = 0, r_ci = 0, r_sntf = 0, r_fbs = 0\<rparr>,
     ioreq = (\<lambda>_. zero_ioreq), ioqsz = 0, iofhd = [], iobhd = []\<rparr>"

definition zero_hba :: "pci_devinst \<Rightarrow> pci_ahci_softc" where
  "zero_hba pi = \<lparr>asc_pi = pi, asc_mtx = pthread_mutex_init \<lparr>mtx_lock = 0\<rparr>, ports = 0,
     hregs = \<lparr>h_cap = 0, h_ghc = 0, h_is = 0, h_pi = 0, h_vs = 0, h_ccc_ctl = 0, h_ccc_pts = 0, h_em_loc = 0,
       h_em_ctl = 0, h_cap2 = 0, h_bohc = 0\<rparr>,
     asc_lintr = False, port = (\<lambda>_. zero_port)\<rparr>"

definition pci_ahci_ioreq_init :: "ahci_port \<Rightarrow> ahci_port res" where
  "pci_ahci_ioreq_init pr =
     (case bctx pr of
        None \<Rightarrow> Inl Null_deref
      | Some bc \<Rightarrow>
          bindE (blockif_queuesz bc) (\<lambda>sz.
          Inr (pr\<lparr>ioqsz := nat sz, ioreq := (\<lambda>_. zero_ioreq), iofhd := [0..<nat sz], iobhd := []\<rparr>)))"

text \<open>The first occurrence of a string in another.\<close>

fun strstr :: "string \<Rightarrow> string \<Rightarrow> nat option" where
  "strstr [] pat = (if pat = [] then Some 0 else None)"
| "strstr (c # s) pat = (if take (length pat) (c # s) = pat then Some 0 else map_option Suc (strstr s pat))"

text \<open>The type of the port in front of its options, and the options of this port and of the next ones.\<close>

definition port_type :: "bool \<Rightarrow> string \<Rightarrow> bool \<times> string" where
  "port_type atapi opts =
     (if take 3 opts = ''hd:'' then (False, drop 3 opts)
      else if take 3 opts = ''cd:'' then (True, drop 3 opts)
      else (atapi, opts))"

definition cut_opts :: "string \<Rightarrow> string \<times> string option" where
  "cut_opts opts =
     (let next = strstr opts '',hd:''; next2 = strstr opts '',cd:'';
          next = (case next of None \<Rightarrow> next2
                  | Some i \<Rightarrow> (case next2 of None \<Rightarrow> next | Some j \<Rightarrow> if j < i then next2 else next))
      in case next of None \<Rightarrow> (opts, None) | Some i \<Rightarrow> (take i opts, Some (drop (i + 1) opts)))"

definition hex_digit :: "nat \<Rightarrow> char" where
  "hex_digit d = ''0123456789ABCDEF'' ! d"

definition hex2 :: "u8 \<Rightarrow> string" where
  "hex2 b = [hex_digit (unat b div 16), hex_digit (unat b mod 16)]"

definition make_ident :: "u8 list \<Rightarrow> string" where
  "make_ident dg = ''BHYVE-'' @ hex2 (dg ! 0) @ hex2 (dg ! 1) @ ''-'' @ hex2 (dg ! 2) @ hex2 (dg ! 3) @ ''-'' @
     hex2 (dg ! 4) @ hex2 (dg ! 5)"

text \<open>
  What the start-up code depends on: whether the context of a port can be allocated,
  the place of the disk image and the digest of a string.
\<close>

record ahci_env =
  bc_alloc :: "nat \<Rightarrow> bool"
  env_base :: nat
  md5 :: "string \<Rightarrow> u8 list"

text \<open>
  The loop over the ports: the number of ports tried, the controller, the context
  opened last and the least queue size; \<open>False\<close> if a disk could not be opened. The
  first argument counts the ports left.
\<close>

fun open_ports :: "ahci_env \<Rightarrow> nat \<Rightarrow> nat \<Rightarrow> bool \<Rightarrow> string option \<Rightarrow> pci_ahci_softc \<times> nat option option \<times> nat
     \<Rightarrow> (bool \<times> nat \<times> pci_ahci_softc \<times> nat option option \<times> nat) res" where
  "open_ports env 0 p atapi opts (sc, bl, slots) = Inr (True, p, sc, bl, slots)"
| "open_ports env (Suc k) p atapi opts (sc, bl, slots) =
     (case opts of
        None \<Rightarrow> Inr (True, p, sc, bl, slots)
      | Some opts \<Rightarrow>
          (case port_type atapi opts of (atapi, opts) \<Rightarrow>
           case cut_opts opts of (opts, next) \<Rightarrow>
             if opts = [] then open_ports env k (p + 1) atapi next (sc, bl, slots)
             else
               (case blockif_open (bc_alloc env p) (env_base env) of
                  None \<Rightarrow> Inr (False, p, sc, Some None, slots)
                | Some bc \<Rightarrow>
                    bindE (pci_ahci_ioreq_init ((port sc p)\<lparr>bctx := Some bc, pr_sc := True, p_port := p,
                      p_atapi := atapi, p_ident := make_ident (md5 env opts)\<rparr>)) (\<lambda>pr.
                    open_ports env k (p + 1) atapi next
                      (sc\<lparr>port := (port sc)(p := pr),
                          hregs := (hregs sc)\<lparr>h_pi := h_pi (hregs sc) OR slot_bit p\<rparr>\<rparr>,
                       Some (Some p), min slots (ioqsz pr))))))"

abbreviation (input) MAX_PORTS :: nat where "MAX_PORTS \<equiv> 32"
abbreviation (input) DEF_PORTS :: nat where "DEF_PORTS \<equiv> 6"
abbreviation (input) PCIC_STORAGE :: u8 where "PCIC_STORAGE \<equiv> 1"
abbreviation (input) PCIS_STORAGE_SATA :: u8 where "PCIS_STORAGE_SATA \<equiv> 6"
abbreviation (input) PCIP_STORAGE_SATA_AHCI_1_0 :: u8 where "PCIP_STORAGE_SATA_AHCI_1_0 \<equiv> 1"
abbreviation (input) AHCI_CAP_FLAGS :: u32 where "AHCI_CAP_FLAGS \<equiv>
  0x80000000 OR 0x40000000 OR 0x20000000 OR 0x10000000 OR 0x08000000 OR 0x04000000 OR 0x02000000 OR 0x01000000 OR
  push_bit 20 3 OR 0x00008000 OR 0x00004000 OR 0x00002000"

definition hba_caps :: "nat \<Rightarrow> nat \<Rightarrow> u32" where
  "hba_caps slots nports =
     AHCI_CAP_FLAGS OR push_bit 8 (of_nat slots) OR 0x00000020 OR (of_nat nports - 1)"

definition ahci_ids :: "nat \<Rightarrow> pci_devinst \<Rightarrow> pci_devinst res" where
  "ahci_ids nports pi =
     bindE (pci_set_cfgdata16 pi PCIR_DEVICE 0x2821) (\<lambda>pi.
     bindE (pci_set_cfgdata16 pi PCIR_VENDOR 0x8086) (\<lambda>pi.
     bindE (pci_set_cfgdata8 pi PCIR_CLASS PCIC_STORAGE) (\<lambda>pi.
     bindE (pci_set_cfgdata8 pi PCIR_SUBCLASS PCIS_STORAGE_SATA) (\<lambda>pi.
     bindE (pci_set_cfgdata8 pi PCIR_PROGIF PCIP_STORAGE_SATA_AHCI_1_0) (\<lambda>pi.
     let p = min nports 16; p = flsl p - (if p AND (p - 1) \<noteq> 0 then 0 else 1)
     in bindE (pci_emul_add_msicap pi (push_bit p 1)) (\<lambda>(_, pi). Inr pi))))))"

definition close_ports :: "pci_ahci_softc \<Rightarrow> nat list \<Rightarrow> unit res" where
  "close_ports sc is =
     fold (\<lambda>i r. bindE r (\<lambda>_. case bctx (port sc i) of None \<Rightarrow> Inr () | Some bc \<Rightarrow> bindE (blockif_close bc) (\<lambda>_. Inr ())))
       is (Inr ())"

definition pci_ahci_init ::
    "ahci_env \<Rightarrow> bool \<Rightarrow> string option \<Rightarrow> pci_devinst \<times> ('f, 'a) ahci_world_scheme
     \<Rightarrow> (int \<times> pci_devinst \<times> ('f, 'a) ahci_world_scheme) res" where
  "pci_ahci_init env atapi opts s =
     (let (pi, w) = s in
      bindE (open_ports env MAX_PORTS 0 atapi opts (zero_hba pi, w_blockif w, 32)) (\<lambda>(ok, p, sc, bl, slots).
      let w = w\<lparr>w_blockif := bl\<rparr> in
      if \<not> ok then bindE (close_ports sc [0..<p]) (\<lambda>_. Inr (1, pi, w\<lparr>w_ahci := None\<rparr>))
      else
        (let nports = max p DEF_PORTS;
             sc = sc\<lparr>ports := nports, hregs := (hregs sc)\<lparr>h_cap := hba_caps (slots - 1) nports, h_vs := 0x10300,
                        h_cap2 := 0x00000004\<rparr>\<rparr>
         in bindE (ahci_reset (at_hba pi w sc)) (\<lambda>io.
            let (pi, w) = hba_leave io w in
            bindE (ahci_ids nports pi) (\<lambda>pi.
            bindE (pci_emul_alloc_bar pi 5 PCIBAR_MEM32 (0x100 + of_nat nports * 0x80) (w_cursors w) (w_mem w))
              (\<lambda>(_, pi, cs, mem).
            bindE (pci_lintr_request (pi, w\<lparr>w_cursors := cs, w_mem := mem\<rparr>)) (\<lambda>(pi, w).
            Inr (0, pi, w))))))))"

definition pci_ahci_hd_init where "pci_ahci_hd_init env = pci_ahci_init env False"
definition pci_ahci_atapi_init where "pci_ahci_atapi_init env = pci_ahci_init env True"

definition pci_de_ahci ::
    "string \<Rightarrow> bool \<Rightarrow> bytes \<Rightarrow> ahci_env \<Rightarrow> ('f, 'a) ahci_world_scheme pci_devemu" where
  "pci_de_ahci name iommu junk env = \<lparr>pe_emu = name,
     pe_init = (if name = ''ahci-cd'' then pci_ahci_atapi_init env else pci_ahci_hd_init env),
     pe_cfgwrite = None, pe_cfgread = None, pe_barwrite = ahci_barwrite iommu junk, pe_barread = ahci_barread\<rparr>"

section \<open>The block thread\<close>

text \<open>The controller as the block interface sees it: one context, its requests and memory.\<close>

record ahci_blk = "nat blk_world" +
  blk_io :: ahci_io

definition to_blk :: "nat \<Rightarrow> ahci_io \<Rightarrow> ahci_blk \<Rightarrow> ahci_blk" where
  "to_blk n io w =
     (case bctx (the_port n io) of
        None \<Rightarrow> w\<lparr>blk_mem := a_mem io, blk_io := io\<rparr>
      | Some bc \<Rightarrow> \<lparr>blk_bc = bc, blk_st = req_store (the_port n io), blk_mem = a_mem io, blk_io = io\<rparr>)"

definition of_blk :: "nat \<Rightarrow> ahci_blk \<Rightarrow> ahci_io" where
  "of_blk n w =
     (upd_port n (\<lambda>p. p\<lparr>bctx := Some (blk_bc w), ioreq := (\<lambda>i. (ioreq p i)\<lparr>io_req := blk_st w i\<rparr>)\<rparr>) (blk_io w))
       \<lparr>a_mem := blk_mem w\<rparr>"

definition ahci_callback :: "bool \<Rightarrow> bytes \<Rightarrow> nat \<Rightarrow> nat \<Rightarrow> int \<Rightarrow> ahci_blk \<Rightarrow> ahci_blk res" where
  "ahci_callback iommu junk n i err w =
     bindE ((if p_atapi (the_port n (blk_io w)) then atapi_ioreq_cb else ata_ioreq_cb) iommu junk n i err (of_blk n w))
       (\<lambda>io. Inr (to_blk n io w))"

definition ahci_blockif_thr ::
    "bool \<Rightarrow> bytes \<Rightarrow> ('f, 'a) ahci_world_scheme \<Rightarrow> ('f, 'a) ahci_world_scheme res" where
  "ahci_blockif_thr iommu junk w =
     (case w_blockif w of
        None \<Rightarrow> Inr w
      | Some None \<Rightarrow> Inl Null_deref
      | Some (Some n) \<Rightarrow>
          (case w_ahci w of
             None \<Rightarrow> Inl Null_deref
           | Some sc \<Rightarrow>
               (let b = pi_bdf (asc_pi sc) in
                case (get_devi w b, bctx (port sc n)) of
                  (Some pi, Some bc) \<Rightarrow>
                    (let io = at_hba pi w sc;
                         bw = \<lparr>blk_bc = bc, blk_st = req_store (the_port n io), blk_mem = a_mem io, blk_io = io\<rparr>
                     in bindE (blockif_thr True (ahci_callback iommu junk n) bw) (\<lambda>bw.
                        let (pi, w) = hba_leave (of_blk n bw) w in Inr (put_devi b (Some pi) w)))
                | _ \<Rightarrow> Inl Null_deref)))"

end
