(* ===== verification/Ahci_Frame.thy ===== *)
theory Ahci_Frame
  imports Ahci_Dev
begin

text \<open>
  What the commands of the disk controller leave alone. A step is quiet if it
  changes no queue, no command list, no issued or pending slot of any port; a
  command is answered if it is quiet up to one frame to the host; a transfer is
  started if one request block goes to the disk.
\<close>

section \<open>Quiet steps\<close>

definition qpart where
  "qpart p = (bctx p, pr_sc p, cmd_lst p, rfis p, p_port p, p_atapi p, pending p, ioreq p, ioqsz p, iofhd p, iobhd p,
     ccs p, r_cmd (regs p), r_ci (regs p))"

definition quiet :: "ahci_io \<Rightarrow> ahci_io \<Rightarrow> bool" where
  "quiet io io' \<longleftrightarrow> (\<forall>k. qpart (the_port k io') = qpart (the_port k io)) \<and>
     asc_mtx (hba io') = asc_mtx (hba io) \<and> ports (hba io') = ports (hba io)"

lemma quiet_refl [simp]: "quiet io io"
  by (simp add: quiet_def)

lemma quiet_trans [trans]: "quiet a b \<Longrightarrow> quiet b c \<Longrightarrow> quiet a c"
  by (simp add: quiet_def)

lemma quiet_ports: "same_ports io io' \<Longrightarrow> quiet io io'"
  by (simp add: quiet_def same_ports_def the_port_def)

lemma quiet_sel:
  assumes "quiet io io'"
  shows "bctx (the_port k io') = bctx (the_port k io)" "cmd_lst (the_port k io') = cmd_lst (the_port k io)"
    "rfis (the_port k io') = rfis (the_port k io)" "pending (the_port k io') = pending (the_port k io)"
    "ioreq (the_port k io') = ioreq (the_port k io)" "iofhd (the_port k io') = iofhd (the_port k io)"
    "iobhd (the_port k io') = iobhd (the_port k io)" "ccs (the_port k io') = ccs (the_port k io)"
    "r_cmd (regs (the_port k io')) = r_cmd (regs (the_port k io))" "r_ci (regs (the_port k io')) = r_ci (regs (the_port k io))"
    "pr_sc (the_port k io') = pr_sc (the_port k io)" "p_atapi (the_port k io') = p_atapi (the_port k io)"
    "ioqsz (the_port k io') = ioqsz (the_port k io)"
  using assms by (simp_all add: quiet_def qpart_def)

lemma quiet_mem [simp]: "quiet io (upd_mem f io') = quiet io io'" "quiet io (io'\<lparr>a_mem := m\<rparr>) = quiet io io'"
  by (simp_all add: quiet_def)

lemma quiet_port: "quiet io io' \<Longrightarrow> qpart (f (the_port n io')) = qpart (the_port n io') \<Longrightarrow> quiet io (upd_port n f io')"
  by (simp add: quiet_def)

lemma quiet_regs:
  "quiet io io' \<Longrightarrow> r_cmd (g (regs (the_port n io'))) = r_cmd (regs (the_port n io')) \<Longrightarrow>
   r_ci (g (regs (the_port n io'))) = r_ci (regs (the_port n io')) \<Longrightarrow> quiet io (upd_regs n g io')"
  by (auto simp: quiet_def qpart_def)

lemma quiet_hregs [simp]: "quiet io (upd_hregs h io') = quiet io io'"
  by (simp add: quiet_def)

lemma write_fis_quiet:
  assumes "ahci_write_fis n ft fis io = Inr io'"
  shows "quiet io io'"
proof (cases "rfis (the_port n io)")
  case None
  then show ?thesis using assms by (simp add: ahci_write_fis_def)
next
  case (Some a)
  obtain off len ix where fp: "fis_place ft = (off, len, ix)" using prod_cases3 by blast
  define err where "err \<longleftrightarrow> fis ! 2 AND 0x01 \<noteq> 0"
  define io1 where "io1 = upd_mem (store_bytes (a + off) (take len fis))
    (if err then upd_port n (\<lambda>p. p\<lparr>waitforclear := True\<rparr>) io else io)"
  define irq where "irq = (if bit (fis ! 1) 6 then ix else 0) OR (if err then 0x40000000 else 0)"
  have q1: "quiet io io1" by (auto simp: io1_def intro!: quiet_port simp: qpart_def)
  then have q2: "quiet io (upd_regs n (\<lambda>r. r\<lparr>r_is := r_is r OR irq\<rparr>) io1)" by (intro quiet_regs) simp_all
  have "io' = io \<or> io' = io1 \<or> ahci_port_intr n (upd_regs n (\<lambda>r. r\<lparr>r_is := r_is r OR irq\<rparr>) io1) = Inr io'"
    using assms unfolding ahci_write_fis_def Some fp Let_def err_def [symmetric] option.case prod.case
      io1_def [symmetric] irq_def [symmetric]
    by (simp only: sum.inject split: if_split_asm) blast+
  then show ?thesis using q1 q2 quiet_trans [OF q2 quiet_ports [OF port_intr_same]] by auto
qed

lemma piosetup_quiet: "ahci_write_fis_piosetup n io = Inr io' \<Longrightarrow> quiet io io'"
  by (simp add: ahci_write_fis_piosetup_def write_fis_quiet)

lemma record_error_quiet: "quiet io (record_error n a b c d io)"
  by (simp add: record_error_def quiet_port qpart_def)

lemma sdb_quiet:
  assumes "ahci_write_fis_sdb n slot cfis tfd io = Inr io'"
  shows "quiet io io'"
proof -
  let ?a = "upd_regs n (\<lambda>r. r\<lparr>r_sact := r_sact r AND NOT (slot_bit slot)\<rparr>) io"
  let ?e = "record_error n (of_nat slot) (ucast (tfd AND 0x77)) (ucast (drop_bit 8 tfd)) cfis io"
  let ?f = "\<lambda>io. upd_regs n (\<lambda>r. r\<lparr>r_tfd := r_tfd r AND NOT 0x77 OR (tfd AND 0x77)\<rparr>) io"
  have "quiet io (?f ?a)" "quiet io (?f ?e)"
    by (intro quiet_regs record_error_quiet quiet_refl; simp)+
  moreover have "(\<exists>fis. ahci_write_fis n FIS_TYPE_SETDEVBITS fis (?f ?a) = Inr io') \<or>
      (\<exists>fis. ahci_write_fis n FIS_TYPE_SETDEVBITS fis (?f ?e) = Inr io')"
    using assms unfolding ahci_write_fis_sdb_def Let_def by (auto split: if_split_asm)
  ultimately show ?thesis using write_fis_quiet quiet_trans by blast
qed

lemma reset_d2h_quiet: "ahci_write_reset_fis_d2h n io = Inr io' \<Longrightarrow> quiet io io'"
  by (simp add: ahci_write_reset_fis_d2h_def write_fis_quiet)

lemma reset_d2h_regs:
  "ahci_write_reset_fis_d2h n (upd_regs n g io1) = Inr io' \<Longrightarrow> quiet io io1 \<Longrightarrow>
   (\<And>r. r_cmd (g r) = r_cmd r) \<Longrightarrow> (\<And>r. r_ci (g r) = r_ci r) \<Longrightarrow> quiet io io'"
  using quiet_trans [OF quiet_regs reset_d2h_quiet] by blast

lemma port_reset_quiet:
  assumes "ahci_port_reset n io = Inr io'"
  shows "quiet io io'"
proof -
  define io1 where "io1 = upd_port n (\<lambda>p. p\<lparr>xfermode := 0x46, mult_sectors := 128,
                 regs := (regs p)\<lparr>r_serr := 0, r_sact := 0\<rparr>\<rparr>) io"
  have q: "quiet io io1" by (simp add: io1_def quiet_port qpart_def)
  show ?thesis
    using assms unfolding ahci_port_reset_def Let_def io1_def [symmetric]
    by (auto split: if_split_asm intro: quiet_regs [OF q] elim: reset_d2h_regs [OF _ q])
qed

lemma write_prdt_quiet: "write_prdt iommu buf n slot cfis io = Inr io' \<Longrightarrow> quiet io io'"
  by (auto simp: write_prdt_def bindE_Inr case_prod_beta)

lemma set_reason_quiet: "quiet io (set_reason cfis io)"
  by (simp add: set_reason_def)

lemma set_sense_quiet: "quiet io (set_sense n asc io)"
  by (simp add: set_sense_def quiet_port qpart_def)

section \<open>Answered commands\<close>

definition answered :: "nat \<Rightarrow> nat \<Rightarrow> ahci_io \<Rightarrow> ahci_io res \<Rightarrow> bool" where
  "answered n slot io m \<longleftrightarrow> (\<forall>io'. m = Inr io' \<longrightarrow>
     (\<exists>cfis tfd io1. quiet io io1 \<and> ahci_write_fis_d2h n slot cfis tfd io1 = Inr io'))"

lemma answered_d2h [intro]: "quiet io io1 \<Longrightarrow> answered n slot io (ahci_write_fis_d2h n slot cfis tfd io1)"
  by (auto simp: answered_def)

lemma answered_Inl [simp]: "answered n slot io (Inl e)"
  by (simp add: answered_def)

lemma answered_bind: "(\<And>x. m = Inr x \<Longrightarrow> answered n slot io (f x)) \<Longrightarrow> answered n slot io (bindE m f)"
  by (cases m) simp_all

lemma packet_ok_answered [intro]: "quiet io io1 \<Longrightarrow> answered n slot io (packet_ok n slot cfis io1)"
  unfolding packet_ok_def by (intro answered_d2h) (blast intro: quiet_trans set_reason_quiet)

lemma packet_error_answered [intro]: "quiet io io1 \<Longrightarrow> answered n slot io (packet_error asc n slot cfis io1)"
  unfolding packet_error_def by (intro answered_d2h) (blast intro: quiet_trans set_reason_quiet set_sense_quiet)

lemma packet_reply_answered [intro]: "quiet io io1 \<Longrightarrow> answered n slot io (packet_reply iommu buf len n slot cfis io1)"
  unfolding packet_reply_def
  by (intro answered_bind packet_ok_answered) (blast intro: quiet_trans write_prdt_quiet)

lemma reason_reply_answered [intro]: "quiet io io1 \<Longrightarrow> answered n slot io (reason_reply iommu buf n slot cfis io1)"
  unfolding reason_reply_def
  by (intro answered_bind answered_d2h) (blast intro: quiet_trans write_prdt_quiet set_reason_quiet)

lemma port_cmd_answered:
  assumes "quiet io io1" "\<And>p. qpart (fst (f p)) = qpart p"
  shows "answered n slot io (port_cmd f n slot cfis io1)"
proof (cases "f (the_port n io1)")
  case (Pair p tfd)
  then have "qpart p = qpart (the_port n io1)" using assms(2) [of "the_port n io1"] by simp
  then have "quiet io (upd_port n (\<lambda>_. p\<lparr>regs := (regs p)\<lparr>r_tfd := tfd\<rparr>\<rparr>) io1)"
    by (intro quiet_port [OF assms(1)]) (simp add: qpart_def)
  then show ?thesis by (simp add: port_cmd_def Pair answered_d2h)
qed

lemma send_identify_answered: "quiet io io1 \<Longrightarrow> answered n slot io (send_identify iommu buf n slot cfis io1)"
  unfolding send_identify_def
  by (intro answered_bind answered_d2h) (blast intro: quiet_trans write_prdt_quiet piosetup_quiet)

lemma handle_identify_answered: "quiet io io1 \<Longrightarrow> answered n slot io (handle_identify iommu n slot cfis io1)"
  unfolding handle_identify_def Let_def
  by (auto intro!: answered_bind send_identify_answered split: option.split)

lemma handle_atapi_identify_answered: "quiet io io1 \<Longrightarrow> answered n slot io (handle_atapi_identify iommu n slot cfis io1)"
  unfolding handle_atapi_identify_def by (auto intro: send_identify_answered)

lemma read_log_answered: "quiet io io1 \<Longrightarrow> answered n slot io (ahci_handle_read_log iommu n slot cfis io1)"
  unfolding ahci_handle_read_log_def Let_def
  by (auto intro!: answered_bind answered_d2h split: option.split if_split_asm
      dest!: piosetup_quiet write_prdt_quiet elim!: quiet_trans)

lemma answered_if:
  "(P \<Longrightarrow> answered n slot io a) \<Longrightarrow> (\<not> P \<Longrightarrow> answered n slot io b) \<Longrightarrow> answered n slot io (if P then a else b)"
  by simp

lemmas answered_intros = answered_if answered_bind packet_ok_answered packet_error_answered packet_reply_answered
  reason_reply_answered answered_d2h

lemma mode_sense_answered: "quiet io io1 \<Longrightarrow> answered n slot io (atapi_mode_sense iommu n slot cfis io1)"
  unfolding atapi_mode_sense_def Let_def by (cases "mode_page (a_mem io1 (cfis + 0x40 + 2) AND 0x3f)") (auto intro!: answered_intros)

lemma packet_cmd_answered:
  assumes "quiet io io1" "a_mem io1 (cfis + 0x40) \<notin> {READ_10, READ_12}"
  shows "answered n slot io (handle_packet_cmd iommu junk n slot cfis io1)"
proof -
  have *: "\<not> (a_mem io1 (cfis + 0x40) = READ_10 \<or> a_mem io1 (cfis + 0x40) = READ_12)" using assms(2) by simp
  show ?thesis
    unfolding handle_packet_cmd_def Let_def atapi_inquiry_def atapi_read_capacity_def atapi_read_toc_def
      atapi_report_luns_def atapi_request_sense_def atapi_start_stop_unit_def
      atapi_get_event_status_notification_def if_not_P [OF *]
    by (intro answered_intros mode_sense_answered assms(1))
qed

end
