(* ===== verification/Ahci_Slots.thy ===== *)
theory Ahci_Slots
  imports Ahci_Frame
begin

text \<open>
  What one issued slot can become: cleared, stopped by an error, in flight to the
  disk, or untouched because its table does not hold a command.
\<close>

section \<open>Clearing a slot\<close>

definition clear_slot :: "nat \<Rightarrow> nat \<Rightarrow> ahci_io \<Rightarrow> ahci_io" where
  "clear_slot n slot = upd_regs n (\<lambda>r. r\<lparr>r_ci := r_ci r AND NOT (slot_bit slot)\<rparr>)"

definition receiving :: "ahci_port \<Rightarrow> bool" where
  "receiving p \<longleftrightarrow> rfis p \<noteq> None \<and> r_cmd (regs p) AND AHCI_P_CMD_FRE \<noteq> 0"

lemma and_one_bit: "w AND 1 \<noteq> 0 \<longleftrightarrow> bit w 0" for w :: "'a::len word"
  by (simp add: and_one_eq bit_0 odd_iff_mod_2_eq_one)

lemma d2h_cases:
  assumes "ahci_write_fis_d2h n slot cfis tfd io = Inr io'"
  shows "if tfd AND ATA_S_ERROR = 0 then quiet (clear_slot n slot io) io'
    else quiet io io' \<and> (receiving (the_port n io) \<longrightarrow> waitforclear (the_port n io'))"
proof (cases "tfd AND ATA_S_ERROR = 0")
  case True
  have "quiet (clear_slot n slot io) (upd_regs n (\<lambda>r. r\<lparr>r_tfd := tfd\<rparr>) (clear_slot n slot io))"
    by (intro quiet_regs quiet_refl) simp_all
  moreover have "\<exists>fis. ahci_write_fis n FIS_TYPE_REGD2H fis (upd_regs n (\<lambda>r. r\<lparr>r_tfd := tfd\<rparr>) (clear_slot n slot io)) = Inr io'"
    using assms True by (auto simp: ahci_write_fis_d2h_def Let_def clear_slot_def)
  ultimately show ?thesis using True write_fis_quiet quiet_trans by fastforce
next
  case False
  let ?fis = "[fis_code FIS_TYPE_REGD2H, 0x40, ucast tfd, ucast (drop_bit 8 tfd)] @ region (a_mem io) (cfis + 4) 10 @ replicate 6 0"
  let ?e = "upd_regs n (\<lambda>r. r\<lparr>r_tfd := tfd\<rparr>) (record_error n 0x80 (ucast tfd) (ucast (drop_bit 8 tfd)) cfis io)"
  have q: "quiet io ?e" by (intro quiet_regs record_error_quiet) simp_all
  have w: "ahci_write_fis n FIS_TYPE_REGD2H ?fis ?e = Inr io'"
    using assms False by (simp add: ahci_write_fis_d2h_def Let_def)
  have "waitforclear (the_port n io')" if rc: "receiving (the_port n io)"
  proof -
    obtain a where "rfis (the_port n io) = Some a" using rc by (auto simp: receiving_def)
    then have a: "rfis (the_port n ?e) = Some a" "r_cmd (regs (the_port n ?e)) AND AHCI_P_CMD_FRE \<noteq> 0"
      using rc unfolding quiet_sel(3,9) [OF q] receiving_def by blast+
    have e: "(ucast tfd :: u8) AND 1 \<noteq> 0"
      using False by (simp only: and_one_bit bit_ucast_iff) simp
    define io1 where "io1 = upd_mem (store_bytes (a + 0x40) (take 20 ?fis)) (upd_port n (\<lambda>p. p\<lparr>waitforclear := True\<rparr>) ?e)"
    have "io' = io1 \<or> (\<exists>irq. ahci_port_intr n (upd_regs n (\<lambda>r. r\<lparr>r_is := r_is r OR irq\<rparr>) io1) = Inr io')"
      using w e unfolding ahci_write_fis_def a(1) Let_def option.case fis_place.simps prod.case if_not_P [OF a(2)] io1_def
      by (simp only: sum.inject nth_Cons_0 nth_Cons_Suc numeral_2_eq_2 append.simps split: if_split_asm) (blast | simp)+
    moreover have "waitforclear (the_port n io1)" by (simp add: io1_def)
    ultimately show ?thesis using same_ports_port [OF port_intr_same] by fastforce
  qed
  then show ?thesis using False quiet_trans [OF q write_fis_quiet [OF w]] by simp
qed

lemma d2h_ncq_clears:
  assumes "ahci_write_fis_d2h_ncq n slot io = Inr io'"
  shows "quiet (clear_slot n slot io) io'"
proof -
  have "quiet (clear_slot n slot io) (upd_regs n (\<lambda>r. r\<lparr>r_tfd := tfd_ok, r_ci := r_ci r AND NOT (slot_bit slot)\<rparr>) io)"
    by (auto simp: quiet_def qpart_def clear_slot_def)
  then show ?thesis
    using assms write_fis_quiet quiet_trans unfolding ahci_write_fis_d2h_ncq_def Let_def by blast
qed

section \<open>A transfer on its way\<close>

definition blk_op :: "(nat blockif_ctxt \<Rightarrow> nat req_store \<Rightarrow> nat \<Rightarrow> (int \<times> nat blockif_ctxt) res) \<Rightarrow> bool" where
  "blk_op op \<longleftrightarrow> op = blockif_read \<or> op = blockif_write \<or> op = blockif_flush \<or> op = blockif_delete"

definition fresh_req :: "ahci_port \<Rightarrow> nat \<Rightarrow> ahci_ioreq \<Rightarrow> nat \<Rightarrow> bool" where
  "fresh_req p i a slot \<longleftrightarrow> io_slot a = slot \<and> (req_ok (io_req (ioreq p i)) \<longrightarrow> req_ok (io_req a))"

definition in_transfer :: "nat \<Rightarrow> nat \<Rightarrow> ahci_io \<Rightarrow> ahci_io \<Rightarrow> bool" where
  "in_transfer n slot io io' \<longleftrightarrow>
     (\<exists>i a op bc bc'. let p = the_port n io; p' = the_port n io' in
        iofhd p = i # iofhd p' \<and> iobhd p' = i # iobhd p \<and> pending p' = pending p OR slot_bit slot \<and>
        ioreq p' = (ioreq p)(i := a) \<and> fresh_req p i a slot \<and>
        bctx p = Some bc \<and> bctx p' = Some bc' \<and> blk_op op \<and> op bc (req_store p') i = Inr (0, bc') \<and>
        r_ci (regs p') \<in> {r_ci (regs p), r_ci (regs p) AND NOT (slot_bit slot)} \<and>
        cmd_lst p' = cmd_lst p \<and> rfis p' = rfis p \<and> r_cmd (regs p') = r_cmd (regs p) \<and> ccs p' = ccs p \<and>
        pr_sc p' = pr_sc p \<and> ioqsz p' = ioqsz p \<and> p_atapi p' = p_atapi p) \<and>
     (\<forall>k. k \<noteq> n \<longrightarrow> qpart (the_port k io') = qpart (the_port k io)) \<and>
     asc_mtx (hba io') = asc_mtx (hba io) \<and> ports (hba io') = ports (hba io)"

lemma transfer_core:
  assumes "iofhd (the_port n io) = i # rest" "fresh_req (the_port n io) i (f (ioreq (the_port n io) i)) slot"
    and "io1 = in_flight n slot i (upd_ioreq n i f (upd_port n (\<lambda>p. p\<lparr>iofhd := rest\<rparr>) io))"
    and "quiet io1 io2 \<or> quiet (clear_slot n slot io1) io2" "blk_op op" "submit_req op n i io2 = Inr io3"
  shows "in_transfer n slot io io3"
proof -
  let ?p = "the_port n io" and ?p2 = "the_port n io2"
  have q: "qpart (the_port k io2) = qpart (the_port k (if quiet io1 io2 then io1 else clear_slot n slot io1))"
    "asc_mtx (hba io2) = asc_mtx (hba io)" "ports (hba io2) = ports (hba io)" for k
    using assms(4) by (auto simp: quiet_def assms(3) in_flight_def upd_ioreq_def clear_slot_def)
  obtain bc bc' where b: "bctx ?p2 = Some bc" "op bc (req_store ?p2) i = Inr (0, bc')"
    "io3 = upd_port n (\<lambda>p. p\<lparr>bctx := Some bc'\<rparr>) io2"
    using assms(6) by (auto simp: submit_req_def bindE_Inr split: option.splits)
  have k: "qpart (the_port k io3) = qpart (the_port k io)" if "k \<noteq> n" for k
    using q(1) [of k] that by (simp add: b(3) assms(3) in_flight_def upd_ioreq_def clear_slot_def)
  have p2: "iofhd ?p2 = rest" "iobhd ?p2 = i # iobhd ?p" "pending ?p2 = pending ?p OR slot_bit slot"
    "ioreq ?p2 = (ioreq ?p)(i := f (ioreq ?p i))" "bctx ?p2 = bctx ?p" "cmd_lst ?p2 = cmd_lst ?p" "rfis ?p2 = rfis ?p"
    "r_cmd (regs ?p2) = r_cmd (regs ?p)" "ccs ?p2 = ccs ?p" "pr_sc ?p2 = pr_sc ?p" "ioqsz ?p2 = ioqsz ?p"
    "p_atapi ?p2 = p_atapi ?p" "r_ci (regs ?p2) \<in> {r_ci (regs ?p), r_ci (regs ?p) AND NOT (slot_bit slot)}"
    using q(1) [of n] by (auto simp: qpart_def assms(3) in_flight_def upd_ioreq_def clear_slot_def split: if_splits)
  have st: "req_store (the_port n io3) = req_store ?p2" by (simp add: b(3) req_store_def)
  show ?thesis
    unfolding in_transfer_def Let_def
    using k q(2,3) p2 b assms(1,2,5) st
    by (intro conjI exI [of _ i] exI [of _ "f (ioreq ?p i)"] exI [of _ op] exI [of _ bc] exI [of _ bc'])
      (simp_all add: b(3))
qed

lemma in_transfer_quiet:
  assumes "quiet io io1 \<or> quiet (clear_slot n slot io) io1" "in_transfer n slot io1 io'"
  shows "in_transfer n slot io io'"
proof -
  let ?p = "the_port n io" and ?p1 = "the_port n io1"
  have q: "qpart (the_port k io1) = qpart (the_port k (if quiet io io1 then io else clear_slot n slot io))"
    "asc_mtx (hba io1) = asc_mtx (hba io)" "ports (hba io1) = ports (hba io)" for k
    using assms(1) by (auto simp: quiet_def clear_slot_def)
  have k: "qpart (the_port k io1) = qpart (the_port k io)" if "k \<noteq> n" for k
    using q(1) [of k] that by (simp add: clear_slot_def)
  have p1: "iofhd ?p1 = iofhd ?p" "iobhd ?p1 = iobhd ?p" "pending ?p1 = pending ?p" "ioreq ?p1 = ioreq ?p"
    "bctx ?p1 = bctx ?p" "cmd_lst ?p1 = cmd_lst ?p" "rfis ?p1 = rfis ?p" "r_cmd (regs ?p1) = r_cmd (regs ?p)"
    "ccs ?p1 = ccs ?p" "pr_sc ?p1 = pr_sc ?p" "ioqsz ?p1 = ioqsz ?p" "p_atapi ?p1 = p_atapi ?p"
    "r_ci (regs ?p1) \<in> {r_ci (regs ?p), r_ci (regs ?p) AND NOT (slot_bit slot)}"
    using q(1) [of n] by (auto simp: qpart_def clear_slot_def split: if_splits)
  obtain i a op bc bc' where t: "iofhd ?p1 = i # iofhd (the_port n io')" "iobhd (the_port n io') = i # iobhd ?p1"
    "pending (the_port n io') = pending ?p1 OR slot_bit slot" "ioreq (the_port n io') = (ioreq ?p1)(i := a)"
    "fresh_req ?p1 i a slot" "bctx ?p1 = Some bc" "bctx (the_port n io') = Some bc'" "blk_op op"
    "op bc (req_store (the_port n io')) i = Inr (0, bc')"
    "r_ci (regs (the_port n io')) \<in> {r_ci (regs ?p1), r_ci (regs ?p1) AND NOT (slot_bit slot)}"
    "cmd_lst (the_port n io') = cmd_lst ?p1" "rfis (the_port n io') = rfis ?p1"
    "r_cmd (regs (the_port n io')) = r_cmd (regs ?p1)" "ccs (the_port n io') = ccs ?p1"
    "pr_sc (the_port n io') = pr_sc ?p1" "ioqsz (the_port n io') = ioqsz ?p1" "p_atapi (the_port n io') = p_atapi ?p1"
    "\<And>k. k \<noteq> n \<Longrightarrow> qpart (the_port k io') = qpart (the_port k io1)"
    "asc_mtx (hba io') = asc_mtx (hba io1)" "ports (hba io') = ports (hba io1)"
    using assms(2) unfolding in_transfer_def Let_def by blast
  have ci: "r_ci (regs (the_port n io')) \<in> {r_ci (regs ?p), r_ci (regs ?p) AND NOT (slot_bit slot)}"
    using t(10) p1(13) by (auto simp: and.assoc)
  have fr: "fresh_req ?p i a slot" using t(5) p1(4) by (simp add: fresh_req_def)
  show ?thesis
    unfolding in_transfer_def Let_def
    by (intro conjI exI [of _ i] exI [of _ a] exI [of _ op] exI [of _ bc] exI [of _ bc'] allI impI)
      (use t p1(1-12) q(2,3) k ci fr in simp_all)
qed

section \<open>What becomes of a command\<close>

definition settled :: "nat \<Rightarrow> nat \<Rightarrow> ahci_io \<Rightarrow> ahci_io \<Rightarrow> bool" where
  "settled n slot io io' \<longleftrightarrow> quiet (clear_slot n slot io) io' \<or>
     quiet io io' \<and> (receiving (the_port n io) \<longrightarrow> waitforclear (the_port n io')) \<or> in_transfer n slot io io'"

lemma clear_slot_quiet: "quiet io io1 \<Longrightarrow> quiet (clear_slot n slot io) (clear_slot n slot io1)"
  by (simp add: quiet_def qpart_def clear_slot_def)

lemma receiving_quiet: "quiet io io1 \<Longrightarrow> receiving (the_port n io1) = receiving (the_port n io)"
  by (simp add: receiving_def quiet_sel)

lemma answered_settled:
  assumes "answered n slot io m" "m = Inr io'"
  shows "settled n slot io io'"
proof -
  obtain cfis tfd io1 where io1: "quiet io io1" "ahci_write_fis_d2h n slot cfis tfd io1 = Inr io'"
    using assms by (auto simp: answered_def)
  then show ?thesis
    using d2h_cases [OF io1(2)] quiet_trans [OF clear_slot_quiet [OF io1(1)]] quiet_trans [OF io1(1)]
      receiving_quiet [OF io1(1), of n]
    unfolding settled_def by (auto split: if_split_asm)
qed

lemma settled_quiet: "quiet io io1 \<Longrightarrow> settled n slot io1 io' \<Longrightarrow> settled n slot io io'"
  unfolding settled_def using quiet_trans [OF clear_slot_quiet] quiet_trans receiving_quiet in_transfer_quiet by metis

lemma settled_transfer: "in_transfer n slot io io' \<Longrightarrow> settled n slot io io'"
  by (simp add: settled_def)

lemma upd_ioreq_twice: "upd_ioreq n i g (upd_ioreq n i f io) = upd_ioreq n i (\<lambda>a. g (f a)) io"
  by (simp add: upd_ioreq_def upd_port_def upd_hba_def)

lemma take_ioreqD: "take_ioreq n io = Inr (i, io1) \<Longrightarrow>
  \<exists>rest. iofhd (the_port n io) = i # rest \<and> io1 = upd_port n (\<lambda>p. p\<lparr>iofhd := rest\<rparr>) io"
  by (auto simp: take_ioreq_def split: list.splits)

lemma build_iovD: "ahci_build_iov iommu n i prdt l io = Inr io' \<Longrightarrow>
  \<exists>g. io' = upd_ioreq n i g io \<and> (\<forall>a. io_slot (g a) = io_slot a \<and> req_ok (io_req (g a)))"
  by (auto simp: ahci_build_iov_def Let_def case_prod_beta bindE_Inr req_ok_def split: if_split_asm)

lemma blk_ops [simp]: "blk_op blockif_read" "blk_op blockif_write" "blk_op blockif_flush" "blk_op blockif_delete"
  by (simp_all add: blk_op_def)

definition transfers :: "nat \<Rightarrow> nat \<Rightarrow> ahci_io \<Rightarrow> ahci_io res \<Rightarrow> bool" where
  "transfers n slot io m \<longleftrightarrow> (\<forall>io'. m = Inr io' \<longrightarrow> in_transfer n slot io io')"

lemma transfers_bind: "(\<And>x. m = Inr x \<Longrightarrow> transfers n slot io (f x)) \<Longrightarrow> transfers n slot io (bindE m f)"
  by (cases m) (simp_all add: transfers_def)

lemma transfers_submit:
  assumes "take_ioreq n io = Inr x" "\<And>a. io_slot (f a) = slot \<and> (req_ok (io_req a) \<longrightarrow> req_ok (io_req (f a)))"
    and "ioc = in_flight n slot (fst x) (upd_ioreq n (fst x) f (snd x)) \<or>
      quiet (clear_slot n slot (in_flight n slot (fst x) (upd_ioreq n (fst x) f (snd x)))) ioc"
    and "blk_op op"
  shows "transfers n slot io (submit_req op n (fst x) ioc)"
proof -
  obtain rest where r: "iofhd (the_port n io) = fst x # rest" "snd x = upd_port n (\<lambda>p. p\<lparr>iofhd := rest\<rparr>) io"
    using take_ioreqD [of n io "fst x" "snd x"] assms(1) by auto
  have fr: "fresh_req (the_port n io) (fst x) (f (ioreq (the_port n io) (fst x))) slot"
    using assms(2) by (simp add: fresh_req_def)
  show ?thesis
    unfolding transfers_def
  proof (intro allI impI)
    fix io' assume "submit_req op n (fst x) ioc = Inr io'"
    from transfer_core [where f = f, OF r(1) fr refl _ assms(4) this] show "in_transfer n slot io io'"
      using assms(3) unfolding r(2) by auto
  qed
qed

lemma transfers_ncq:
  assumes "take_ioreq n io = Inr x"
    and "(if b then ahci_write_fis_d2h_ncq n slot (in_flight n slot (fst x) (upd_ioreq n (fst x) f (snd x)))
      else Inr (in_flight n slot (fst x) (upd_ioreq n (fst x) f (snd x)))) = Inr ioc"
    and "\<And>a. io_slot (f a) = slot \<and> (req_ok (io_req a) \<longrightarrow> req_ok (io_req (f a)))" "blk_op op"
  shows "transfers n slot io (submit_req op n (fst x) ioc)"
  by (rule transfers_submit [OF assms(1,3) _ assms(4)]) (use assms(2) in \<open>auto split: if_split_asm dest: d2h_ncq_clears\<close>)

lemma transfers_built:
  assumes "take_ioreq n io = Inr x" "ahci_build_iov iommu n (fst x) t l (upd_ioreq n (fst x) f (snd x)) = Inr iob"
    and "\<And>a. io_slot (f a) = slot"
    and "ioc = in_flight n slot (fst x) iob \<or> quiet (clear_slot n slot (in_flight n slot (fst x) iob)) ioc" "blk_op op"
  shows "transfers n slot io (submit_req op n (fst x) ioc)"
proof -
  obtain g where g: "iob = upd_ioreq n (fst x) (\<lambda>a. g (f a)) (snd x)" "\<forall>a. io_slot (g a) = io_slot a \<and> req_ok (io_req (g a))"
    using build_iovD [OF assms(2)] by (auto simp: upd_ioreq_twice)
  show ?thesis
    by (rule transfers_submit [OF assms(1) _ _ assms(5), where f = "\<lambda>a. g (f a)"])
      (use g assms(3,4) in auto)
qed

lemma handle_rw_transfers: "transfers n slot io (ahci_handle_rw iommu n slot cfis fin io)"
  unfolding ahci_handle_rw_def Let_def case_prod_beta
  apply (intro transfers_bind)
  subgoal premises p
    by (rule transfers_built [OF p(2,4)]) (use p(5) in \<open>auto split: if_splits dest: d2h_ncq_clears\<close>)
  done

lemma handle_flush_transfers: "transfers n slot io (ahci_handle_flush n slot cfis io)"
  unfolding ahci_handle_flush_def Let_def case_prod_beta
  apply (intro transfers_bind)
  subgoal premises p
    by (rule transfers_submit [OF p,
        where f = "\<lambda>a. a\<lparr>io_cfis := cfis, io_slot := slot, io_len := 0, io_done := 0, io_more := False\<rparr>"]) auto
  done

lemma packet_ok_clears:
  assumes "packet_ok n slot cfis io = Inr io'"
  shows "quiet (clear_slot n slot io) io'"
  using d2h_cases [OF assms [unfolded packet_ok_def]] quiet_trans [OF clear_slot_quiet [OF set_reason_quiet]] by simp

lemma transfers_after:
  "quiet io io1 \<or> quiet (clear_slot n slot io) io1 \<Longrightarrow> transfers n slot io1 m \<Longrightarrow> transfers n slot io m"
  unfolding transfers_def using in_transfer_quiet by blast

lemma atapi_read_transfers: "transfers n slot io (atapi_read iommu n slot cfis fin io)"
  unfolding atapi_read_def Let_def case_prod_beta
  apply (rule transfers_bind)
  apply (rule transfers_bind)
  subgoal premises p for hdr io1
    apply (rule transfers_after [of io io1])
    using p(2) packet_ok_clears apply (auto split: if_split_asm) [1]
    apply (intro transfers_bind)
    subgoal premises q for x iob by (rule transfers_built [OF q]) auto
    done
  done

text \<open>The first round of a trim, on a running port whose slot is not in flight.\<close>

lemma mask_clear: "\<not> bit w s \<Longrightarrow> w AND NOT (slot_bit s) = w"
  by (rule bit_word_eqI) (auto simp: slot_bit_def bit_simps)

lemma trim_done_settled:
  assumes "trim_done n slot cfis ncq True io = Inr io'" "\<not> bit (pending (the_port n io)) slot"
    "r_cmd (regs (the_port n io)) AND AHCI_P_CMD_ST \<noteq> 0"
  shows "settled n slot io io'"
proof -
  obtain io2 where io2: "(if ncq then bindE (ahci_write_fis_d2h_ncq n slot io) (ahci_write_fis_sdb n slot cfis tfd_ok)
      else ahci_write_fis_d2h n slot cfis tfd_ok io) = Inr io2"
    "io' = ahci_check_stopped n (upd_port n (\<lambda>p. p\<lparr>pending := pending p AND NOT (slot_bit slot)\<rparr>) io2)"
    using assms(1) by (auto simp: trim_done_def bindE_Inr split: if_split_asm)
  have q: "quiet (clear_slot n slot io) io2"
    using io2(1) d2h_cases d2h_ncq_clears sdb_quiet quiet_trans
    by (auto simp: bindE_Inr split: if_split_asm) fastforce
  have s: "pending (the_port n io2) = pending (the_port n io)" "r_cmd (regs (the_port n io2)) = r_cmd (regs (the_port n io))"
    using quiet_sel [OF q, of n] by (simp_all add: clear_slot_def)
  have "quiet (clear_slot n slot io) (upd_port n (\<lambda>p. p\<lparr>pending := pending p AND NOT (slot_bit slot)\<rparr>) io2)"
    using q by (rule quiet_port) (use s assms(2) mask_clear in \<open>simp add: qpart_def\<close>)
  moreover have "ahci_check_stopped n x = x" if "r_cmd (regs (the_port n x)) AND AHCI_P_CMD_ST \<noteq> 0" for x
    using that by (simp add: ahci_check_stopped_def)
  ultimately show ?thesis using io2(2) s assms(3) by (simp add: settled_def)
qed

definition settles :: "nat \<Rightarrow> nat \<Rightarrow> ahci_io \<Rightarrow> ahci_io res \<Rightarrow> bool" where
  "settles n slot io m \<longleftrightarrow> (\<forall>io'. m = Inr io' \<longrightarrow> settled n slot io io')"

lemma settles_bind: "(\<And>x. m = Inr x \<Longrightarrow> settles n slot io (f x)) \<Longrightarrow> settles n slot io (bindE m f)"
  by (cases m) (simp_all add: settles_def)

lemma settles_transfers: "transfers n slot io m \<Longrightarrow> settles n slot io m"
  by (simp add: settles_def transfers_def settled_transfer)

lemma settles_answered: "answered n slot io m \<Longrightarrow> settles n slot io m"
  by (simp add: settles_def answered_settled)

lemma settles_quiet: "quiet io io1 \<Longrightarrow> settles n slot io1 m \<Longrightarrow> settles n slot io m"
  unfolding settles_def using settled_quiet by blast

lemma settles_if:
  "(P \<Longrightarrow> settles n slot io a) \<Longrightarrow> (\<not> P \<Longrightarrow> settles n slot io b) \<Longrightarrow> settles n slot io (if P then a else b)"
  by simp

lemma trim_settles:
  assumes "\<not> bit (pending (the_port n io)) slot" "r_cmd (regs (the_port n io)) AND AHCI_P_CMD_ST \<noteq> 0"
  shows "settles n slot io (ahci_handle_dsm_trim iommu junk Inr n slot cfis 0 io)"
  unfolding ahci_handle_dsm_trim_def Let_def case_prod_beta
  apply (intro settles_bind)
  subgoal premises p for buf r
  proof (cases r)
    case None
    then show ?thesis using trim_done_settled [OF _ assms] by (auto simp: settles_def bindE_Inr)
  next
    case (Some t)
    show ?thesis
      unfolding Some option.case case_prod_beta
      apply (intro settles_transfers transfers_bind)
      subgoal premises q by (rule transfers_ncq [OF q(1,3)]) (auto simp: req_ok_def)
      done
  qed
  done

lemma handle_cmd_settles:
  assumes "\<not> bit (pending (the_port n io)) slot" "r_cmd (regs (the_port n io)) AND AHCI_P_CMD_ST \<noteq> 0"
  shows "settles n slot io (ahci_handle_cmd iommu junk n slot cfis io)"
proof -
  define io1 where "io1 = upd_regs n (\<lambda>r. r\<lparr>r_tfd := r_tfd r OR ATA_S_BUSY\<rparr>) io"
  have q: "quiet io io1" by (simp add: io1_def quiet_regs)
  have q1: "quiet io1 io1" by simp
  have a: "\<not> bit (pending (the_port n io1)) slot" "r_cmd (regs (the_port n io1)) AND AHCI_P_CMD_ST \<noteq> 0"
    using assms quiet_sel [OF q, of n] by simp_all
  have p: "settles n slot io1 (handle_packet_cmd iommu junk n slot cfis io1)"
  proof (cases "a_mem io1 (cfis + 0x40) \<in> {READ_10, READ_12}")
    case True
    then have "handle_packet_cmd iommu junk n slot cfis io1 = atapi_read iommu n slot cfis 0 io1"
      by (auto simp: handle_packet_cmd_def Let_def)
    then show ?thesis by (simp add: settles_transfers atapi_read_transfers)
  next
    case False
    show ?thesis by (rule settles_answered [OF packet_cmd_answered [OF q1 False]])
  qed
  have sf: "qpart (fst (set_features x y pt)) = qpart pt" "qpart (fst (set_multi x pt)) = qpart pt" for x y pt
    by (simp_all add: set_features_def set_multi_def qpart_def)
  show ?thesis
    unfolding ahci_handle_cmd_def Let_def io1_def [symmetric]
    by (rule settles_quiet [OF q])
      (intro settles_if settles_answered [OF handle_identify_answered [OF q1]]
        settles_answered [OF port_cmd_answered [OF q1]] settles_transfers [OF handle_rw_transfers]
        settles_transfers [OF handle_flush_transfers] trim_settles [OF a] settles_answered [OF read_log_answered [OF q1]]
        settles_answered [OF handle_atapi_identify_answered [OF q1]] p sf settles_answered [OF answered_d2h]; simp)
qed

end
