(* ===== verification/Ahci_Walk.thy ===== *)
theory Ahci_Walk
  imports Ahci_Slots
begin

text \<open>
  The walk of \<open>ahci_handle_port\<close> over the issued slots: each turn settles the slot it
  stands on or finds no command there, and what that means for the end of the walk.
\<close>

section \<open>One turn\<close>

text \<open>The table of a slot holds a frame from the host.\<close>

definition holds_command :: "bool \<Rightarrow> nat \<Rightarrow> nat \<Rightarrow> ahci_io \<Rightarrow> bool" where
  "holds_command iommu n slot io \<longleftrightarrow>
     (case cmd_hdr n slot io of
        Inl e \<Rightarrow> False
      | Inr hdr \<Rightarrow> a_mem io (unat (paddr_guest2host iommu (le64 (a_mem io) (hdr + 8)))) = FIS_TYPE_REGH2D)"

definition running :: "ahci_port \<Rightarrow> bool" where
  "running p \<longleftrightarrow> r_cmd (regs p) AND AHCI_P_CMD_ST \<noteq> 0"

lemma handle_slot_cases:
  assumes "ahci_handle_slot iommu junk n slot io = Inr io'" "\<not> bit (pending (the_port n io)) slot" "running (the_port n io)"
  shows "if holds_command iommu n slot io then settled n slot io io' else io' = io"
proof -
  obtain hdr where h: "pr_sc (the_port n io)" "cmd_hdr n slot io = Inr hdr"
    using assms(1) by (auto simp: ahci_handle_slot_def bindE_Inr split: if_split_asm)
  define cfis where "cfis = unat (paddr_guest2host iommu (le64 (a_mem io) (hdr + 8)))"
  have hc: "holds_command iommu n slot io \<longleftrightarrow> a_mem io cfis = FIS_TYPE_REGH2D"
    by (simp add: holds_command_def h(2) cfis_def)
  have s: "(if a_mem io cfis \<noteq> FIS_TYPE_REGH2D then Inr io
        else if bit (a_mem io (cfis + 1)) 7 then ahci_handle_cmd iommu junk n slot cfis io
        else
          bindE (if bit (a_mem io (cfis + 15)) 2 then Inr (upd_port n (\<lambda>p. p\<lparr>p_reset := True\<rparr>) io)
                 else if p_reset (the_port n io) then
                   ahci_port_reset n (upd_port n (\<lambda>p. p\<lparr>p_reset := False\<rparr>) io)
                 else Inr io) (\<lambda>io.
          Inr (upd_regs n (\<lambda>r. r\<lparr>r_ci := r_ci r AND NOT (slot_bit slot)\<rparr>) io))) = Inr io'"
    using assms(1) h(1) unfolding ahci_handle_slot_def h(2) bindE.simps Let_def cfis_def [symmetric] by argo
  show ?thesis
  proof (cases "a_mem io cfis = FIS_TYPE_REGH2D \<and> \<not> bit (a_mem io (cfis + 1)) 7")
    case False
    then show ?thesis
      using s handle_cmd_settles [OF assms(2) assms(3) [unfolded running_def], of iommu junk cfis]
      by (auto simp: hc settles_def)
  next
    case True
    have r: "quiet io (upd_port n (\<lambda>p. p\<lparr>p_reset := b\<rparr>) io)" for b
      by (intro quiet_port quiet_refl) (simp add: qpart_def)
    obtain io1 where io1: "(if bit (a_mem io (cfis + 15)) 2 then Inr (upd_port n (\<lambda>p. p\<lparr>p_reset := True\<rparr>) io)
        else if p_reset (the_port n io) then ahci_port_reset n (upd_port n (\<lambda>p. p\<lparr>p_reset := False\<rparr>) io)
        else Inr io) = Inr io1" "io' = clear_slot n slot io1"
      using s True by (auto simp: bindE_Inr clear_slot_def)
    have "quiet io io1"
      using io1(1) r by (auto split: if_split_asm dest!: port_reset_quiet intro: quiet_trans [OF r])
    then show ?thesis using True by (simp add: hc settled_def clear_slot_quiet io1(2))
  qed
qed

text \<open>The port as a turn of the walk sees it, once it has noted the slot it stands on.\<close>

definition at_slot :: "nat \<Rightarrow> ahci_io \<Rightarrow> ahci_io" where
  "at_slot n io = upd_regs n (\<lambda>r. r\<lparr>r_cmd := r_cmd r AND NOT AHCI_P_CMD_CCS_MASK OR
     push_bit AHCI_P_CMD_CCS_SHIFT (of_nat (ccs (the_port n io)))\<rparr>) io"

definition next_slot :: "nat \<Rightarrow> ahci_io \<Rightarrow> ahci_io" where
  "next_slot n = upd_port n (\<lambda>p. p\<lparr>ccs := (ccs p + 1) mod 32\<rparr>)"

definition standing :: "ahci_port \<Rightarrow> bool" where
  "standing p \<longleftrightarrow> bit (issued p) (ccs p)"

lemma and_slot_bit: "w AND slot_bit s \<noteq> 0 \<longleftrightarrow> bit w s"
  by (simp add: slot_bit_def push_bit_eq_mult and_exp_eq_0_iff_not_bit)

lemma port_turn_eq:
  "port_turn iommu junk n io =
     (if standing (the_port n io)
      then bindE (ahci_handle_slot iommu junk n (ccs (the_port n io)) (at_slot n io)) (\<lambda>io. Inr (next_slot n io))
      else Inr (next_slot n io))"
  by (simp add: port_turn_def Let_def and_slot_bit standing_def at_slot_def next_slot_def)

lemma slot_word: "bit (w AND NOT (slot_bit s)) k \<longleftrightarrow> bit w k \<and> k \<noteq> s" for w :: u32
  using bit_imp_le_length [of w k] by (auto simp: slot_bit_def bit_simps)

lemma issued_clear: "(ci AND NOT (slot_bit s)) AND NOT pd = (ci AND NOT pd) AND NOT (slot_bit s)"
  by (rule bit_word_eqI) (auto simp: bit_simps)

lemma issued_pending: "ci AND NOT (pd OR slot_bit s) = (ci AND NOT pd) AND NOT (slot_bit s)"
  by (rule bit_word_eqI) (auto simp: bit_simps)

lemma at_slot_quiet [simp]:
  "issued (the_port n (at_slot n io)) = issued (the_port n io)" "pending (the_port n (at_slot n io)) = pending (the_port n io)"
  "receiving (the_port n (at_slot n io)) = receiving (the_port n io)" "running (the_port n (at_slot n io)) = running (the_port n io)"
  "ccs (the_port n (at_slot n io)) = ccs (the_port n io)" "holds_command iommu n s (at_slot n io) = holds_command iommu n s io"
  "cmd_hdr n s (at_slot n io) = cmd_hdr n s io" "a_mem (at_slot n io) = a_mem io"
proof -
  have "push_bit 8 y AND 1 = 0" "push_bit 8 y AND 0x10 = 0" for y :: u32
    using and_exp_eq_0_iff_not_bit [of "push_bit 8 y" 0] and_exp_eq_0_iff_not_bit [of "push_bit 8 y" 4]
    by (simp_all add: bit_push_bit_iff)
  then have "(w AND NOT 0x1f00 OR push_bit 8 (of_nat c)) AND 1 = w AND 1" "(w AND NOT 0x1f00 OR push_bit 8 (of_nat c)) AND 0x10 = w AND 0x10"
    for w :: u32 and c
    by (simp_all add: bit.conj_disj_distrib2 and.assoc)
  then show "receiving (the_port n (at_slot n io)) = receiving (the_port n io)"
     "running (the_port n (at_slot n io)) = running (the_port n io)"
    by (simp_all add: receiving_def running_def at_slot_def)
qed (simp_all add: at_slot_def issued_def holds_command_def cmd_hdr_def cong: sum.case_cong)

lemma settled_sel:
  assumes "settled n s io io'"
  shows "issued (the_port n io') = issued (the_port n io) AND NOT (slot_bit s) \<or>
      issued (the_port n io') = issued (the_port n io) \<and> (receiving (the_port n io) \<longrightarrow> waitforclear (the_port n io'))"
    and "receiving (the_port n io') = receiving (the_port n io)" "running (the_port n io') = running (the_port n io)"
    and "ccs (the_port n io') = ccs (the_port n io)" "pr_sc (the_port n io') = pr_sc (the_port n io)"
proof -
  have "(issued (the_port n io') = issued (the_port n io) AND NOT (slot_bit s) \<or>
      issued (the_port n io') = issued (the_port n io) \<and> (receiving (the_port n io) \<longrightarrow> waitforclear (the_port n io'))) \<and>
      receiving (the_port n io') = receiving (the_port n io) \<and> running (the_port n io') = running (the_port n io) \<and>
      ccs (the_port n io') = ccs (the_port n io) \<and> pr_sc (the_port n io') = pr_sc (the_port n io)"
    using assms unfolding settled_def
  proof (elim disjE)
    assume "quiet (clear_slot n s io) io'"
    from quiet_sel [OF this, of n] show ?thesis
      by (simp add: issued_def receiving_def running_def clear_slot_def issued_clear)
  next
    assume q: "quiet io io' \<and> (receiving (the_port n io) \<longrightarrow> waitforclear (the_port n io'))"
    then show ?thesis using quiet_sel [of io io' n] by (simp add: issued_def receiving_def running_def)
  next
    assume "in_transfer n s io io'"
    then have t: "pending (the_port n io') = pending (the_port n io) OR slot_bit s" "rfis (the_port n io') = rfis (the_port n io)"
      "r_cmd (regs (the_port n io')) = r_cmd (regs (the_port n io))" "ccs (the_port n io') = ccs (the_port n io)"
      "pr_sc (the_port n io') = pr_sc (the_port n io)"
      "r_ci (regs (the_port n io')) \<in> {r_ci (regs (the_port n io)), r_ci (regs (the_port n io)) AND NOT (slot_bit s)}"
      unfolding in_transfer_def Let_def by blast+
    have "issued (the_port n io') = issued (the_port n io) AND NOT (slot_bit s)"
      unfolding issued_def t(1) using t(6)
      by (elim insertE emptyE; simp only:) (rule bit_word_eqI, auto simp: bit_simps)+
    then show ?thesis using t by (simp add: receiving_def running_def)
  qed
  then show "issued (the_port n io') = issued (the_port n io) AND NOT (slot_bit s) \<or>
      issued (the_port n io') = issued (the_port n io) \<and> (receiving (the_port n io) \<longrightarrow> waitforclear (the_port n io'))"
    "receiving (the_port n io') = receiving (the_port n io)" "running (the_port n io') = running (the_port n io)"
    "ccs (the_port n io') = ccs (the_port n io)" "pr_sc (the_port n io') = pr_sc (the_port n io)" by blast+
qed

section \<open>The end of the walk\<close>

definition walkable :: "nat \<Rightarrow> ahci_io \<Rightarrow> bool" where
  "walkable n io \<longleftrightarrow> running (the_port n io) \<and> receiving (the_port n io) \<and> ccs (the_port n io) < 32"

text \<open>A slot is issued but not in flight, and its table holds no command.\<close>

definition lost :: "bool \<Rightarrow> nat \<Rightarrow> ahci_io \<Rightarrow> bool" where
  "lost iommu n io \<longleftrightarrow> standing (the_port n io) \<and> \<not> holds_command iommu n (ccs (the_port n io)) io"

lemma next_slot_sel [simp]:
  "issued (the_port n (next_slot n io)) = issued (the_port n io)" "receiving (the_port n (next_slot n io)) = receiving (the_port n io)"
  "running (the_port n (next_slot n io)) = running (the_port n io)" "pr_sc (the_port n (next_slot n io)) = pr_sc (the_port n io)"
  "ccs (the_port n (next_slot n io)) = (ccs (the_port n io) + 1) mod 32"
  "waitforclear (the_port n (next_slot n io)) = waitforclear (the_port n io)"
  by (simp_all add: next_slot_def issued_def receiving_def running_def)

lemma standing_free: "standing p \<Longrightarrow> \<not> bit (pending p) (ccs p)"
  by (simp add: standing_def issued_def bit_simps)

lemma turn_facts:
  assumes "port_turn iommu junk n io = Inr io'" "walkable n io" "\<not> lost iommu n io"
  shows "walkable n io'" "ccs (the_port n io') = (ccs (the_port n io) + 1) mod 32"
    and "if standing (the_port n io) then issued (the_port n io') = issued (the_port n io) AND NOT (slot_bit (ccs (the_port n io))) \<or>
        issued (the_port n io') = issued (the_port n io) \<and> waitforclear (the_port n io')
      else issued (the_port n io') = issued (the_port n io)"
proof -
  have "walkable n io' \<and> ccs (the_port n io') = (ccs (the_port n io) + 1) mod 32 \<and>
    (if standing (the_port n io) then issued (the_port n io') = issued (the_port n io) AND NOT (slot_bit (ccs (the_port n io))) \<or>
        issued (the_port n io') = issued (the_port n io) \<and> waitforclear (the_port n io')
      else issued (the_port n io') = issued (the_port n io))"
  proof (cases "standing (the_port n io)")
    case False
    then show ?thesis using assms by (auto simp: port_turn_eq walkable_def)
  next
    case True
    let ?s = "ccs (the_port n io)"
    obtain io1 where io1: "ahci_handle_slot iommu junk n ?s (at_slot n io) = Inr io1" "io' = next_slot n io1"
      using assms(1) True by (auto simp: port_turn_eq bindE_Inr)
    have "settled n ?s (at_slot n io) io1"
      using handle_slot_cases [OF io1(1)] assms(2,3) True standing_free [OF True] by (simp add: walkable_def lost_def)
    from settled_sel [OF this] show ?thesis
      using assms(2) True by (auto simp: io1(2) walkable_def)
  qed
  then show "walkable n io'" "ccs (the_port n io') = (ccs (the_port n io) + 1) mod 32"
    "if standing (the_port n io) then issued (the_port n io') = issued (the_port n io) AND NOT (slot_bit (ccs (the_port n io))) \<or>
        issued (the_port n io') = issued (the_port n io) \<and> waitforclear (the_port n io')
      else issued (the_port n io') = issued (the_port n io)" by blast+
qed

text \<open>The slots still to settle, and the turns to the next of them.\<close>

definition slots_left :: "ahci_port \<Rightarrow> nat" where
  "slots_left p = card {s. bit (issued p) s}"

definition slot_gap :: "ahci_port \<Rightarrow> nat" where
  "slot_gap p = (LEAST k. bit (issued p) ((ccs p + k) mod 32))"

lemma slots_finite: "finite {s. bit (w :: u32) s}"
  by (rule finite_subset [of _ "{..<32}"]) (auto dest: bit_imp_le_length)

lemma gap_exists:
  assumes "issued p \<noteq> 0" "ccs p < 32"
  shows "\<exists>k. bit (issued p) ((ccs p + k) mod 32)"
proof -
  have "\<exists>s. bit (issued p) s"
  proof (rule ccontr)
    assume "\<nexists>s. bit (issued p) s"
    then have "issued p = 0" by (intro bit_word_eqI) simp
    then show False using assms by simp
  qed
  then obtain s where s: "bit (issued p) s" by blast
  then have "s < 32" using bit_imp_le_length [of "issued p" s] by simp
  then show ?thesis
    using s assms(2) by (cases "ccs p \<le> s") (auto intro: exI [of _ "s - ccs p"] exI [of _ "s + 32 - ccs p"])
qed

lemma gap_step:
  assumes "issued p \<noteq> 0" "\<not> standing p" "ccs p < 32" "issued p' = issued p" "ccs p' = (ccs p + 1) mod 32"
  shows "slot_gap p = Suc (slot_gap p')"
proof -
  obtain k where "bit (issued p) ((ccs p + k) mod 32)" using gap_exists [OF assms(1,3)] by blast
  moreover have "\<not> bit (issued p) ((ccs p + 0) mod 32)" using assms(2,3) by (simp add: standing_def)
  ultimately have "(LEAST k. bit (issued p) ((ccs p + k) mod 32)) = Suc (LEAST m. bit (issued p) ((ccs p + Suc m) mod 32))"
    by (rule Least_Suc)
  moreover have "((ccs p + 1) mod 32 + m) mod 32 = (ccs p + Suc m) mod 32" for m by presburger
  ultimately show ?thesis using assms(4,5) by (simp add: slot_gap_def)
qed

text \<open>The states the loop passes through.\<close>

inductive walks :: "bool \<Rightarrow> bytes \<Rightarrow> nat \<Rightarrow> ahci_io \<Rightarrow> ahci_io \<Rightarrow> bool" for iommu junk n io where
  walk_start: "walks iommu junk n io io"
| walk_turn: "walks iommu junk n io io1 \<Longrightarrow> issued (the_port n io1) \<noteq> 0 \<Longrightarrow> \<not> port_busy (the_port n io1) \<Longrightarrow>
    port_turn iommu junk n io1 = Inr io2 \<Longrightarrow> walks iommu junk n io io2"

lemma walks_trans:
  assumes "walks iommu junk n io1 io2" "walks iommu junk n io io1"
  shows "walks iommu junk n io io2"
  using assms by (induction rule: walks.induct) (auto intro: walk_turn)

lemma loop_ends:
  assumes "walkable n io" "\<And>io'. walks iommu junk n io io' \<Longrightarrow> \<not> lost iommu n io'"
  shows "\<exists>r. port_loop iommu junk n io = Some r"
  using assms
proof (induction "(slots_left (the_port n io), slot_gap (the_port n io))" arbitrary: io
    rule: wf_induct_rule [OF wf_lex_prod [OF wf_less wf_less]])
  case 1
  let ?p = "the_port n io"
  show ?case
  proof (cases "issued ?p = 0 \<or> port_busy ?p")
    case True
    then show ?thesis by (subst port_loop.simps) simp
  next
    case False
    show ?thesis
    proof (cases "port_turn iommu junk n io")
      case (Inl e)
      then show ?thesis using False by (subst port_loop.simps) simp
    next
      case (Inr io1)
      let ?q = "the_port n io1"
      have eq: "port_loop iommu junk n io = port_loop iommu junk n io1"
        using False Inr by (subst port_loop.simps) simp
      have w1: "walks iommu junk n io io1" using walk_turn [OF walk_start] False Inr by blast
      note t = turn_facts [OF Inr 1(2) 1(3) [OF walk_start]]
      have no: "\<not> lost iommu n io'" if "walks iommu junk n io1 io'" for io'
        using 1(3) walks_trans [OF that w1] by blast
      show ?thesis
      proof (cases "issued ?q = 0 \<or> waitforclear ?q")
        case True
        then have "port_loop iommu junk n io1 = Some (Inr io1)" by (subst port_loop.simps) (auto simp: port_busy_def)
        then show ?thesis using eq by simp
      next
        case q: False
        have "((slots_left ?q, slot_gap ?q), slots_left ?p, slot_gap ?p) \<in> {(x, y). x < y} <*lex*> {(x, y). x < y}"
        proof (cases "standing ?p")
          case True
          then have "{s. bit (issued ?q) s} = {s. bit (issued ?p) s} - {ccs ?p}" using t(3) q by (auto simp: slot_word)
          moreover have "card ({s. bit (issued ?p) s} - {ccs ?p}) < card {s. bit (issued ?p) s}"
            by (rule card_Diff1_less [OF slots_finite]) (use True in \<open>simp add: standing_def\<close>)
          ultimately have "slots_left ?q < slots_left ?p" by (simp add: slots_left_def)
          then show ?thesis by simp
        next
          case ns: False
          then have "issued ?q = issued ?p" using t(3) by simp
          then show ?thesis
            using gap_step [of ?p ?q] False ns t(2) 1(2) by (simp add: slots_left_def walkable_def)
        qed
        then show ?thesis using 1(1) [OF _ t(1) no] eq by simp
      qed
    qed
  qed
qed

lemma loop_done:
  assumes "port_loop iommu junk n io = Some r"
  shows "\<forall>io'. r = Inr io' \<longrightarrow> issued (the_port n io') = 0 \<or> port_busy (the_port n io')"
  using assms
  by (rule port_loop.raw_induct [rotated, where P = "\<lambda>_ _ n _ r. \<forall>io'. r = Inr io' \<longrightarrow> issued (the_port n io') = 0 \<or> port_busy (the_port n io')"])
    (auto split: if_split_asm sum.split_asm)

section \<open>A walk that does not end\<close>

text \<open>Nothing changes while the walk passes over slots without a command.\<close>

definition hopeless :: "bool \<Rightarrow> nat \<Rightarrow> ahci_io \<Rightarrow> bool" where
  "hopeless iommu n io \<longleftrightarrow> issued (the_port n io) \<noteq> 0 \<and> \<not> port_busy (the_port n io) \<and> pr_sc (the_port n io) \<and>
     cmd_lst (the_port n io) \<noteq> None \<and> (\<forall>s. bit (issued (the_port n io)) s \<longrightarrow> \<not> holds_command iommu n s io)"

lemma hopeless_turn:
  assumes "hopeless iommu n io"
  shows "\<exists>io'. port_turn iommu junk n io = Inr io' \<and> hopeless iommu n io'"
proof -
  obtain a where a: "cmd_lst (the_port n io) = Some a" using assms by (auto simp: hopeless_def)
  then have hd: "cmd_hdr n s io = Inr (a + s * AHCI_CL_SIZE)" for s by (simp add: cmd_hdr_def)
  let ?io = "if standing (the_port n io) then at_slot n io else io"
  have "port_turn iommu junk n io = Inr (next_slot n ?io)"
  proof (cases "standing (the_port n io)")
    case True
    then have "\<not> holds_command iommu n (ccs (the_port n io)) io" using assms by (simp add: hopeless_def standing_def)
    moreover have "pr_sc (the_port n (at_slot n io))" using assms by (simp add: hopeless_def at_slot_def)
    ultimately have "ahci_handle_slot iommu junk n (ccs (the_port n io)) (at_slot n io) = Inr (at_slot n io)"
      by (simp add: ahci_handle_slot_def Let_def holds_command_def hd)
    then show ?thesis using True by (simp add: port_turn_eq)
  qed (simp add: port_turn_eq)
  moreover have "hopeless iommu n (next_slot n ?io)"
    using assms by (auto simp: hopeless_def next_slot_def at_slot_def issued_def port_busy_def holds_command_def cmd_hdr_def)
  ultimately show ?thesis by blast
qed

lemma hopeless_loops:
  assumes "hopeless iommu n io"
  shows "port_loop iommu junk n io = None"
proof (rule ccontr)
  assume "port_loop iommu junk n io \<noteq> None"
  then obtain r where "port_loop iommu junk n io = Some r" by blast
  then have "\<not> hopeless iommu n io"
  proof (rule port_loop.raw_induct [rotated, where P = "\<lambda>iommu _ n io _. \<not> hopeless iommu n io"])
    fix loop :: "bool \<Rightarrow> bytes \<Rightarrow> nat \<Rightarrow> ahci_io \<Rightarrow> ahci_io res option" and iommu junk n io r
    assume ih: "\<And>iommu junk n io r. loop iommu junk n io = Some r \<Longrightarrow> \<not> hopeless iommu n io"
      and eq: "(if issued (the_port n io) = 0 \<or> port_busy (the_port n io) then Some (Inr io)
        else case port_turn iommu junk n io of Inl e \<Rightarrow> Some (Inl e) | Inr io \<Rightarrow> loop iommu junk n io) = Some r"
    show "\<not> hopeless iommu n io"
    proof
      assume h: "hopeless iommu n io"
      obtain io' where t: "port_turn iommu junk n io = Inr io'" "hopeless iommu n io'" using hopeless_turn [OF h] by blast
      have "loop iommu junk n io' = Some r" using eq h t(1) by (simp add: hopeless_def)
      then show False using ih t(2) by blast
    qed
  qed
  then show False using assms by blast
qed

end
