(* ===== verification/Ahci_Regs.thy ===== *)
theory Ahci_Regs
  imports Ahci_Walk
begin

text \<open>
  The registers as a driver reaches them: the port an offset belongs to, what a
  write does to the register that is read back, and the writes that stop the model.
\<close>

section \<open>Offsets\<close>

definition port_offset :: "nat \<Rightarrow> u64 \<Rightarrow> u64" where
  "port_offset n reg = AHCI_OFFSET + of_nat n * AHCI_STEP + reg"

lemma port_offset_nat:
  assumes "n < 32" "unat reg < 0x80"
  shows "unat (port_offset n reg) = 0x100 + n * 0x80 + unat reg"
proof -
  have "unat (of_nat n * 0x80 :: u64) = n * 0x80" using assms(1) by (simp add: unat_word_ariths unat_of_nat)
  then show ?thesis using assms by (simp add: port_offset_def unat_word_ariths)
qed

lemma port_offset_parts:
  assumes "n < 32" "unat reg < 0x80"
  shows "port_of (port_offset n reg) = n" "port_reg (port_offset n reg) = reg"
    "\<not> port_offset n reg < AHCI_OFFSET" "n < ports (hba io) \<Longrightarrow> ports (hba io) \<le> 32 \<Longrightarrow> port_offset n reg < ports_end io"
    "4 dvd unat reg \<Longrightarrow> port_offset n reg mod 4 = 0" "4 dvd unat reg \<Longrightarrow> port_offset n reg AND NOT 0x3 = port_offset n reg"
    "4 dvd unat reg \<Longrightarrow> port_offset n reg AND 0x3 = 0"
proof -
  note nat = port_offset_nat [OF assms]
  have d: "unat (port_offset n reg - 0x100) = n * 0x80 + unat reg"
    by (subst unat_sub) (simp_all add: nat word_le_nat_alt)
  show "port_of (port_offset n reg) = n" using assms(2) by (simp add: port_of_def d unat_div)
  show "port_reg (port_offset n reg) = reg"
    using assms(2) by (simp add: port_reg_def word_unat_eq_iff d unat_mod)
  show "\<not> port_offset n reg < AHCI_OFFSET" by (simp add: word_less_nat_alt nat)
  show "port_offset n reg < ports_end io" if "n < ports (hba io)" "ports (hba io) \<le> 32"
  proof -
    have "unat (ports_end io) = 0x100 + ports (hba io) * 0x80"
      using that(2) by (simp add: ports_end_def unat_word_ariths unat_of_nat)
    then show ?thesis using that(1) assms(2) by (simp add: word_less_nat_alt nat)
  qed
  assume "4 dvd unat reg"
  then have m: "unat (port_offset n reg) mod 4 = 0" unfolding nat by presburger
  then show m4: "port_offset n reg mod 4 = 0" by (simp add: word_unat_eq_iff unat_mod)
  show a: "port_offset n reg AND 0x3 = 0"
    using m4 take_bit_eq_mask [of 2 "port_offset n reg"] take_bit_eq_mod [of 2 "port_offset n reg"]
    by (simp add: mask_eq_exp_minus_1)
  show "port_offset n reg AND NOT 0x3 = port_offset n reg"
  proof -
    have "port_offset n reg = (port_offset n reg AND 0x3) OR (port_offset n reg AND NOT 0x3)"
      by (rule bit_word_eqI) (auto simp: bit_simps)
    then show ?thesis by (simp add: a)
  qed
qed

section \<open>Access under the lock\<close>

definition with_lock :: "pthread_mutex \<Rightarrow> ahci_io \<Rightarrow> ahci_io" where
  "with_lock mx = upd_hba (\<lambda>sc. sc\<lparr>asc_mtx := mx\<rparr>)"

lemma with_lock_sel [simp]:
  "the_port n (with_lock mx io) = the_port n io" "asc_mtx (hba (with_lock mx io)) = mx" "ports (hba (with_lock mx io)) = ports (hba io)"
  "a_mem (with_lock mx io) = a_mem io" "hregs (hba (with_lock mx io)) = hregs (hba io)" "a_pic (with_lock mx io) = a_pic io"
  "asc_pi (hba (with_lock mx io)) = asc_pi (hba io)" "asc_lintr (hba (with_lock mx io)) = asc_lintr (hba io)"
  by (simp_all add: with_lock_def the_port_def)

lemma lock_hba_free:
  assumes "free_mutex (asc_mtx (hba io))"
  shows "\<exists>mx. lock_hba io = Inr (with_lock mx io) \<and> held_mutex mx"
  using pthread.lock_free [OF assms] by (auto simp: lock_hba_def with_lock_def)

lemma unlock_hba_held:
  assumes "held_mutex (asc_mtx (hba io))"
  shows "\<exists>mx. unlock_hba io = Inr (with_lock mx io) \<and> free_mutex mx"
  using pthread.unlock_held [OF assms] by (auto simp: unlock_hba_def with_lock_def)

text \<open>A write to a register of a port, and a read of the whole register.\<close>

lemma port_write_eq:
  assumes "free_mutex (asc_mtx (hba io))" "n < ports (hba io)" "ports (hba io) \<le> 32" "unat reg < 0x80" "4 dvd unat reg"
  shows "\<exists>mx. held_mutex mx \<and> pci_ahci_write iommu junk 5 (port_offset n reg) v io =
    bindE (pci_ahci_port_write iommu junk (port_offset n reg) v (with_lock mx io)) unlock_hba"
proof -
  obtain mx where mx: "lock_hba io = Inr (with_lock mx io)" "held_mutex mx"
    using lock_hba_free [OF assms(1)] by blast
  have n: "n < 32" using assms(2,3) by simp
  note off = port_offset_parts [OF n assms(4)]
  have "port_offset n reg < ports_end (with_lock mx io)" using off(4) [of "with_lock mx io"] assms(2,3) by simp
  then have "pci_ahci_write iommu junk 5 (port_offset n reg) v io =
      bindE (pci_ahci_port_write iommu junk (port_offset n reg) v (with_lock mx io)) unlock_hba"
    using off(3) off(5) [OF assms(5)] by (simp add: pci_ahci_write_def bind_assertE mx(1))
  then show ?thesis using mx(2) by blast
qed

lemma port_read_eq:
  assumes "free_mutex (asc_mtx (hba io))" "n < ports (hba io)" "ports (hba io) \<le> 32" "unat reg < 0x80" "4 dvd unat reg"
  shows "\<exists>mx. free_mutex mx \<and> pci_ahci_read 5 (port_offset n reg) 4 io =
    Inr (ucast (pci_ahci_port_read (port_offset n reg) io), with_lock mx io)"
proof -
  obtain mx where mx: "lock_hba io = Inr (with_lock mx io)" "held_mutex mx"
    using lock_hba_free [OF assms(1)] by blast
  then have "held_mutex (asc_mtx (hba (with_lock mx io)))" by simp
  then obtain my where my: "unlock_hba (with_lock mx io) = Inr (with_lock my (with_lock mx io))" "free_mutex my"
    using unlock_hba_held by blast
  have n: "n < 32" using assms(2,3) by simp
  note off = port_offset_parts [OF n assms(4)]
  have "port_offset n reg < ports_end (with_lock mx io)" using off(4) [of "with_lock mx io"] assms(2,3) by simp
  moreover have "pci_ahci_port_read off (with_lock mx io) = pci_ahci_port_read off io" for off
    by (simp add: pci_ahci_port_read_def Let_def)
  moreover have "with_lock my (with_lock mx io) = with_lock my io" by (simp add: with_lock_def upd_hba_def)
  ultimately have "pci_ahci_read 5 (port_offset n reg) 4 io = Inr (ucast (pci_ahci_port_read (port_offset n reg) io), with_lock my io)"
    using off(3) off(6,7) [OF assms(5)] by (simp add: pci_ahci_read_def bind_assertE mx(1) my(1) Let_def)
  then show ?thesis using my(2) by blast
qed

section \<open>Registers without a command behind them\<close>

text \<open>What a write of \<open>v\<close> makes of the old contents.\<close>

definition port_effects :: "(u64 \<times> (u32 \<Rightarrow> u32 \<Rightarrow> u32)) list" where
  "port_effects =
     [(AHCI_P_CLB, \<lambda>_ v. v), (AHCI_P_CLBU, \<lambda>_ v. v), (AHCI_P_FB, \<lambda>_ v. v), (AHCI_P_FBU, \<lambda>_ v. v),
      (AHCI_P_TFD, \<lambda>old _. old), (AHCI_P_SIG, \<lambda>old _. old), (AHCI_P_SSTS, \<lambda>old _. old),
      (AHCI_P_SERR, \<lambda>old v. old AND NOT v), (AHCI_P_SACT, \<lambda>old v. old OR v)]"

lemma effect_reg: "(reg, f) \<in> set port_effects \<Longrightarrow> unat reg < 0x80 \<and> 4 dvd unat reg"
  by (auto simp: port_effects_def)

lemma length_port_words [simp]: "length (port_words r) = 17"
  by (simp add: port_words_def)

lemma port_write_effect:
  assumes "(reg, f) \<in> set port_effects" "n < 32"
  shows "\<exists>g. pci_ahci_port_write iommu junk (port_offset n reg) v io = Inr (upd_regs n g io) \<and>
    (\<forall>r. port_words (g r) = (port_words r)[unat reg div 4 := f (port_words r ! (unat reg div 4)) (ucast v)])"
proof -
  have r: "unat reg < 0x80" using effect_reg [OF assms(1)] by blast
  note off = port_offset_parts(1,2) [OF assms(2) r]
  have id: "upd_regs n (\<lambda>r. r) io = io" by (simp add: upd_regs_def upd_port_def upd_hba_def)
  have cases: "(reg, f) = (0x00, \<lambda>_ v. v) \<or> (reg, f) = (0x04, \<lambda>_ v. v) \<or> (reg, f) = (0x08, \<lambda>_ v. v) \<or>
      (reg, f) = (0x0c, \<lambda>_ v. v) \<or> (reg, f) = (0x20, \<lambda>old _. old) \<or> (reg, f) = (0x24, \<lambda>old _. old) \<or>
      (reg, f) = (0x28, \<lambda>old _. old) \<or> (reg, f) = (0x30, \<lambda>old v. old AND NOT v) \<or> (reg, f) = (0x34, \<lambda>old v. old OR v)"
    using assms(1) unfolding port_effects_def list.set insert_iff empty_iff by blast
  show ?thesis
    unfolding pci_ahci_port_write_def off Let_def port_words_def
    using cases
    apply (elim disjE)
    subgoal by (rule exI [of _ "\<lambda>r. r\<lparr>r_clb := ucast v\<rparr>"]) simp
    subgoal by (rule exI [of _ "\<lambda>r. r\<lparr>r_clbu := ucast v\<rparr>"]) simp
    subgoal by (rule exI [of _ "\<lambda>r. r\<lparr>r_fb := ucast v\<rparr>"]) simp
    subgoal by (rule exI [of _ "\<lambda>r. r\<lparr>r_fbu := ucast v\<rparr>"]) simp
    subgoal by (rule exI [of _ "\<lambda>r. r"]) (simp add: id)
    subgoal by (rule exI [of _ "\<lambda>r. r"]) (simp add: id)
    subgoal by (rule exI [of _ "\<lambda>r. r"]) (simp add: id)
    subgoal by (rule exI [of _ "\<lambda>r. r\<lparr>r_serr := r_serr r AND NOT (ucast v)\<rparr>"]) simp
    subgoal by (rule exI [of _ "\<lambda>r. r\<lparr>r_sact := r_sact r OR ucast v\<rparr>"]) simp
    done
qed

lemma port_read_word:
  assumes "(reg, f) \<in> set port_effects" "n < 32"
  shows "pci_ahci_port_read (port_offset n reg) io = port_words (regs (the_port n io)) ! (unat reg div 4)"
proof -
  have r: "unat reg < 0x80" using effect_reg [OF assms(1)] by blast
  note off = port_offset_parts(1,2) [OF assms(2) r]
  show ?thesis
    using assms(1) unfolding port_effects_def pci_ahci_port_read_def off Let_def
    by (auto simp: unat_div)
qed

text \<open>The registers of a port that only hold data behave as a driver expects: a write through the BAR
  followed by a read of the same register returns what the effect table says (the address registers
  what was written, the status registers what they held, the error register with the written bits
  cleared, the active register with them set), and no other register, port or byte of memory changes.\<close>

theorem port_register_roundtrip:
  assumes "(reg, f) \<in> set port_effects" "n < ports (hba io)" "ports (hba io) \<le> 32" "free_mutex (asc_mtx (hba io))"
  shows "\<exists>io1 io2. pci_ahci_write iommu junk 5 (port_offset n reg) v io = Inr io1 \<and>
    pci_ahci_read 5 (port_offset n reg) 4 io1 =
      Inr (ucast (f (port_words (regs (the_port n io)) ! (unat reg div 4)) (ucast v)), io2) \<and>
    (\<forall>k i. (k, i) \<noteq> (n, unat reg div 4) \<longrightarrow> port_words (regs (the_port k io1)) ! i = port_words (regs (the_port k io)) ! i) \<and>
    hregs (hba io1) = hregs (hba io) \<and> a_mem io1 = a_mem io"
proof -
  have r: "unat reg < 0x80" "4 dvd unat reg" using effect_reg [OF assms(1)] by blast+
  have n: "n < 32" using assms(2,3) by simp
  obtain mx where w: "held_mutex mx" "pci_ahci_write iommu junk 5 (port_offset n reg) v io =
      bindE (pci_ahci_port_write iommu junk (port_offset n reg) v (with_lock mx io)) unlock_hba"
    using port_write_eq [OF assms(4,2,3) r] by blast
  obtain g where g: "pci_ahci_port_write iommu junk (port_offset n reg) v (with_lock mx io) = Inr (upd_regs n g (with_lock mx io))"
    "\<And>r. port_words (g r) = (port_words r)[unat reg div 4 := f (port_words r ! (unat reg div 4)) (ucast v)]"
    using port_write_effect [OF assms(1) n] by blast
  have "held_mutex (asc_mtx (hba (upd_regs n g (with_lock mx io))))" using w(1) by simp
  then obtain my where u: "unlock_hba (upd_regs n g (with_lock mx io)) = Inr (with_lock my (upd_regs n g (with_lock mx io)))"
    "free_mutex my" using unlock_hba_held by blast
  let ?io1 = "with_lock my (upd_regs n g (with_lock mx io))"
  have "free_mutex (asc_mtx (hba ?io1))" "n < ports (hba ?io1)" "ports (hba ?io1) \<le> 32" using u(2) assms(2,3) by simp_all
  then obtain io2 where rd: "pci_ahci_read 5 (port_offset n reg) 4 ?io1 =
      Inr (ucast (pci_ahci_port_read (port_offset n reg) ?io1), io2)"
    using port_read_eq [OF _ _ _ r] by blast
  have "unat reg div 4 < 17" using assms(1) by (auto simp: port_effects_def)
  then have "pci_ahci_port_read (port_offset n reg) ?io1 = f (port_words (regs (the_port n io)) ! (unat reg div 4)) (ucast v)"
    by (simp add: port_read_word [OF assms(1) n] g(2))
  moreover have "pci_ahci_write iommu junk 5 (port_offset n reg) v io = Inr ?io1" by (simp add: w(2) g(1) u(1))
  moreover have "\<forall>k i. (k, i) \<noteq> (n, unat reg div 4) \<longrightarrow>
      port_words (regs (the_port k ?io1)) ! i = port_words (regs (the_port k io)) ! i"
    by (auto simp: g(2))
  ultimately show ?thesis using rd by (intro exI [of _ ?io1] exI [of _ io2]) simp
qed

section \<open>Writes that stop the model\<close>

text \<open>A port without a disk keeps a null pointer to its controller, so an ordinary driver that makes sure
  the port is stopped (a write to the command register with the start bit clear) stops the whole device
  model.\<close>

theorem absent_port_stops:
  assumes "\<not> pr_sc (the_port n io)" "n < ports (hba io)" "ports (hba io) \<le> 32" "free_mutex (asc_mtx (hba io))"
    and "v AND AHCI_P_CMD_ST = 0"
  shows "pci_ahci_write iommu junk 5 (port_offset n AHCI_P_CMD) (ucast v) io = Inl Null_deref"
proof -
  obtain mx where w: "pci_ahci_write iommu junk 5 (port_offset n 0x18) (ucast v) io =
      bindE (pci_ahci_port_write iommu junk (port_offset n 0x18) (ucast v) (with_lock mx io)) unlock_hba"
    using port_write_eq [OF assms(4,2,3), of "0x18" iommu junk "ucast v"] by auto
  have off: "port_of (port_offset n 0x18) = n" "port_reg (port_offset n 0x18) = 0x18"
    using port_offset_parts(1,2) [of n "0x18"] assms(2,3) by simp_all
  have "ucast (ucast v :: u64) = v" by (rule bit_word_eqI) (simp add: bit_simps)
  then show ?thesis
    unfolding w pci_ahci_port_write_def off Let_def
    using assms(1,5) by (simp add: port_cmd_write_def ahci_port_stop_def Let_def)
qed

text \<open>C36: A driver that issues only slots whose command tables do not hold a command frame hangs the device
  model: the walk over the issued slots leaves such a slot issued and never ends, so the write of the
  command issue register does not return.\<close>

theorem empty_slot_hangs:
  assumes "n < ports (hba io)" "ports (hba io) \<le> 32" "free_mutex (asc_mtx (hba io))"
    and "running (the_port n io)" "pr_sc (the_port n io)" "cmd_lst (the_port n io) \<noteq> None" "\<not> port_busy (the_port n io)"
    and "(r_ci (regs (the_port n io)) OR v) AND NOT (pending (the_port n io)) \<noteq> 0"
    and "\<forall>s. bit ((r_ci (regs (the_port n io)) OR v) AND NOT (pending (the_port n io))) s \<longrightarrow> \<not> holds_command iommu n s io"
  shows "pci_ahci_write iommu junk 5 (port_offset n AHCI_P_CI) (ucast v) io = Inl No_return"
proof -
  obtain mx where w: "pci_ahci_write iommu junk 5 (port_offset n 0x38) (ucast v) io =
      bindE (pci_ahci_port_write iommu junk (port_offset n 0x38) (ucast v) (with_lock mx io)) unlock_hba"
    using port_write_eq [OF assms(3,1,2), of "0x38" iommu junk "ucast v"] by auto
  have off: "port_of (port_offset n 0x38) = n" "port_reg (port_offset n 0x38) = 0x38"
    using port_offset_parts(1,2) [of n "0x38"] assms(1,2) by simp_all
  have u: "ucast (ucast v :: u64) = v" by (rule bit_word_eqI) (simp add: bit_simps)
  let ?io = "upd_regs n (\<lambda>r. r\<lparr>r_ci := r_ci r OR v\<rparr>) (with_lock mx io)"
  have "holds_command iommu n s ?io = holds_command iommu n s io" for s
    by (simp add: holds_command_def cmd_hdr_def cong: sum.case_cong)
  then have "hopeless iommu n ?io"
    using assms(5-9) by (simp add: hopeless_def issued_def port_busy_def)
  then have "ahci_handle_port iommu junk n ?io = Inl No_return"
    using assms(4) hopeless_loops by (simp add: ahci_handle_port_def running_def)
  then show ?thesis
    unfolding w pci_ahci_port_write_def off Let_def u by simp
qed

text \<open>C23: The walk over the issued slots of a port that receives frames ends, in a state where no slot is
  issued or the port is busy, unless it comes to an issued slot whose table holds no command; it never
  goes round on commands of any kind, failed ones included.\<close>

theorem walk_ends:
  assumes "running (the_port n io)" "receiving (the_port n io)" "ccs (the_port n io) < 32"
  shows "(\<exists>r. port_loop iommu junk n io = Some r \<and>
      (\<forall>io'. r = Inr io' \<longrightarrow> issued (the_port n io') = 0 \<or> port_busy (the_port n io'))) \<or>
    (\<exists>io'. walks iommu junk n io io' \<and> standing (the_port n io') \<and> \<not> holds_command iommu n (ccs (the_port n io')) io')"
  using loop_ends [of n io iommu junk] loop_done [of iommu junk n io] assms
  unfolding walkable_def lost_def by blast

section \<open>Witnesses\<close>

text \<open>A port without a disk, and a running port whose memory holds zeros or command frames that only reset.\<close>

definition wit_port :: ahci_port where
  "wit_port = zero_port\<lparr>pr_sc := True, cmd_lst := Some 0, rfis := Some 0x1000,
     regs := (regs zero_port)\<lparr>r_cmd := 0x11\<rparr>\<rparr>"

definition wit_hba :: "ahci_port \<Rightarrow> u8 \<Rightarrow> ahci_io" where
  "wit_hba p b = \<lparr>hba = (zero_hba undefined)\<lparr>ports := 6, port := (\<lambda>_. p)\<rparr>, a_mem = (\<lambda>_. b), a_pic = undefined\<rparr>"

lemma wit_hba_sel:
  "the_port n (wit_hba p b) = p" "ports (hba (wit_hba p b)) = 6" "free_mutex (asc_mtx (hba (wit_hba p b)))" "a_mem (wit_hba p b) = (\<lambda>_. b)"
  by (simp_all add: wit_hba_def the_port_def zero_hba_def free_mutex_def pthread_mutex_init_def)

theorem port_register_roundtrip_witness:
  "\<exists>io1 io2. pci_ahci_write False (\<lambda>_. 0) 5 (port_offset 1 AHCI_P_FB) 0x1234000 (wit_hba zero_port 0) = Inr io1 \<and>
     pci_ahci_read 5 (port_offset 1 AHCI_P_FB) 4 io1 = Inr (0x1234000, io2)"
  using port_register_roundtrip [of "0x08" "\<lambda>_ v. v" 1 "wit_hba zero_port 0" False "\<lambda>_. 0" "0x1234000"]
  by (auto simp: wit_hba_sel port_effects_def)

theorem absent_port_stops_witness:
  "pci_ahci_write False (\<lambda>_. 0) 5 (port_offset 1 AHCI_P_CMD) 0x6 (wit_hba zero_port 0) = Inl Null_deref"
  using absent_port_stops [of 1 "wit_hba zero_port 0" "0x6" False "\<lambda>_. 0"] by (simp add: wit_hba_sel zero_port_def)

theorem empty_slot_hangs_witness:
  "pci_ahci_write False (\<lambda>_. 0) 5 (port_offset 0 AHCI_P_CI) 1 (wit_hba wit_port 0) = Inl No_return"
  using empty_slot_hangs [of 0 "wit_hba wit_port 0" 1 False "\<lambda>_. 0"]
  by (simp add: wit_hba_sel wit_port_def zero_port_def running_def port_busy_def holds_command_def cmd_hdr_def)

theorem walk_ends_witness:
  "let io = upd_regs 0 (\<lambda>r. r\<lparr>r_ci := 1\<rparr>) (wit_hba wit_port 0x27) in
   (\<exists>r. port_loop False (\<lambda>_. 0) 0 io = Some r) \<or>
   (\<exists>io'. walks False (\<lambda>_. 0) 0 io io' \<and> \<not> holds_command False 0 (ccs (the_port 0 io')) io')"
  using walk_ends [of 0 "upd_regs 0 (\<lambda>r. r\<lparr>r_ci := 1\<rparr>) (wit_hba wit_port 0x27)" False "\<lambda>_. 0"]
  by (auto simp: Let_def wit_hba_sel wit_port_def zero_port_def running_def receiving_def)

end
