(* ===== verification/Block_Queue.thy ===== *)
theory Block_Queue
  imports Block_If
begin

text \<open>
  The queue of block requests as a disk controller uses it: what submitting a new
  request and cancelling an old one do to the requests that wait, and that both stop
  the program inside a callback, which runs with the queue locked.
\<close>

section \<open>The contract\<close>

text \<open>
  \<open>st\<close> holds the request blocks of the controller; a block may be rewritten while it does not wait.
\<close>

locale request_queue =
  fixes ready :: "'q \<Rightarrow> 'p req_store \<Rightarrow> bool"
    and locked :: "'q \<Rightarrow> bool"
    and waiting :: "'q \<Rightarrow> 'p multiset"
    and room :: nat
    and submit :: "blockop \<Rightarrow> 'q \<Rightarrow> 'p req_store \<Rightarrow> 'p \<Rightarrow> (int \<times> 'q) res"
    and cancel :: "'q \<Rightarrow> 'p req_store \<Rightarrow> 'p \<Rightarrow> (int \<times> 'q) res"
  assumes prepare_law: "ready q st \<Longrightarrow> i \<notin># waiting q \<Longrightarrow> req_ok br \<Longrightarrow> ready q (st(i := br))"
    and submit_law: "ready q st \<Longrightarrow> size (waiting q) < room \<Longrightarrow>
      \<exists>q'. submit op q st i = Inr (0, q') \<and> ready q' st \<and> waiting q' = add_mset i (waiting q)"
    and cancel_law: "ready q st \<Longrightarrow>
      \<exists>err q'. cancel q st i = Inr (err, q') \<and> ready q' st \<and> waiting q' = waiting q - {#i#} \<and> (err = 0 \<longleftrightarrow> i \<in># waiting q)"
    and submit_locked: "locked q \<Longrightarrow> submit op q st i = Inl Assert_failed"
    and cancel_locked: "locked q \<Longrightarrow> cancel q st i = Inl Assert_failed"
begin

lemma submit_fresh:
  assumes "ready q st" "i \<notin># waiting q" "req_ok br" "size (waiting q) < room"
  shows "\<exists>q'. submit op q (st(i := br)) i = Inr (0, q') \<and> ready q' (st(i := br)) \<and> waiting q' = add_mset i (waiting q)"
  using submit_law [OF prepare_law [OF assms(1-3)] assms(4)] .

lemma cancel_waiting:
  assumes "ready q st" "i \<in># waiting q"
  shows "\<exists>q'. cancel q st i = Inr (0, q') \<and> ready q' st \<and> waiting q' = waiting q - {#i#}"
  using cancel_law [OF assms(1), of i] assms(2) by auto

lemma cancel_submitted:
  assumes "ready q st" "size (waiting q) < room"
  shows "\<exists>q1 q2. submit op q st i = Inr (0, q1) \<and> cancel q1 st i = Inr (0, q2) \<and> ready q2 st \<and> waiting q2 = waiting q"
proof -
  obtain q1 where q1: "submit op q st i = Inr (0, q1)" "ready q1 st" "waiting q1 = add_mset i (waiting q)"
    using submit_law [OF assms] by blast
  then obtain q2 where "cancel q1 st i = Inr (0, q2)" "ready q2 st" "waiting q2 = waiting q1 - {#i#}"
    using cancel_waiting [OF q1(2), of i] by auto
  then show ?thesis using q1 by auto
qed

lemma submit_unlocked: "submit op q st i = Inr r \<Longrightarrow> \<not> locked q"
  using submit_locked by fastforce

end

section \<open>The queue of \<open>block_if.c\<close>\<close>

definition disk_at :: "'p blockif_ctxt \<Rightarrow> 'p req_store \<Rightarrow> 'p blk_world" where
  "disk_at bc st = \<lparr>blk_bc = bc, blk_st = st, blk_mem = (\<lambda>_. 0)\<rparr>"

definition disk_ready :: "'p blockif_ctxt \<Rightarrow> 'p req_store \<Rightarrow> bool" where
  "disk_ready bc st \<longleftrightarrow> blk_ready (disk_at bc st)"

definition disk_locked :: "'p blockif_ctxt \<Rightarrow> bool" where
  "disk_locked bc \<longleftrightarrow> \<not> free_mutex (bc_mtx bc)"

definition disk_submit :: "blockop \<Rightarrow> 'p blockif_ctxt \<Rightarrow> 'p req_store \<Rightarrow> 'p \<Rightarrow> (int \<times> 'p blockif_ctxt) res" where
  "disk_submit op bc st i = checked bc (blockif_request bc st i op)"

lemma disk_submits:
  "blockif_read = disk_submit BOP_READ" "blockif_write = disk_submit BOP_WRITE"
  "blockif_flush = disk_submit BOP_FLUSH" "blockif_delete = disk_submit BOP_DELETE"
  by (simp_all add: fun_eq_iff blockif_read_def blockif_write_def blockif_flush_def blockif_delete_def disk_submit_def)

lemma disk_at_upd: "(disk_at bc st)\<lparr>blk_st := st'\<rparr> = disk_at bc st'" "(disk_at bc st)\<lparr>blk_bc := bc'\<rparr> = disk_at bc' st"
  by (simp_all add: disk_at_def)

lemma disk_at_sel [simp]: "blk_bc (disk_at bc st) = bc" "blk_st (disk_at bc st) = st"
  by (simp_all add: disk_at_def)

lemma disk_ready_parts:
  assumes "disk_ready bc st"
  shows "idle_inv (disk_at bc st)" "free_mutex (bc_mtx bc)" "bc_magic bc = BLOCKIF_SIG"
  using assms by (simp_all add: disk_ready_def blk_ready_def)

lemma disk_prepare: "disk_ready bc st \<Longrightarrow> i \<notin># queued bc \<Longrightarrow> req_ok br \<Longrightarrow> disk_ready bc (st(i := br))"
  using prepare_ready [of "disk_at bc st" i br] by (simp add: disk_ready_def disk_at_upd)

lemma disk_submit_law:
  assumes "disk_ready bc st" "size (queued bc) < BLOCKIF_MAXREQ"
  shows "\<exists>bc'. disk_submit op bc st i = Inr (0, bc') \<and> disk_ready bc' st \<and> queued bc' = add_mset i (queued bc)"
proof -
  note d = disk_ready_parts [OF assms(1)]
  have "bc_freeq bc \<noteq> []" using ready_count [of "disk_at bc st"] assms by (auto simp: disk_ready_def)
  then obtain bc' where "blockif_request bc st i op = Inr (0, bc')" "idle_inv (disk_at bc' st)" "free_mutex (bc_mtx bc')"
    "bc_magic bc' = bc_magic bc" "queued bc' = add_mset i (queued bc)"
    using request_cases [OF d(1), of i op] d(2) by (auto simp: disk_at_upd)
  then show ?thesis using d(3) by (simp add: disk_submit_def checked_def bind_assertE disk_ready_def blk_ready_def)
qed

lemma disk_cancel_law:
  assumes "disk_ready bc st"
  shows "\<exists>err bc'. blockif_cancel bc st i = Inr (err, bc') \<and> disk_ready bc' st \<and> queued bc' = queued bc - {#i#} \<and>
    (err = 0 \<longleftrightarrow> i \<in># queued bc)"
proof -
  note d = disk_ready_parts [OF assms]
  obtain bc' where "blockif_cancel bc st i = Inr (if i \<in># queued bc then 0 else EINVAL', bc')" "idle_inv (disk_at bc' st)"
    "free_mutex (bc_mtx bc')" "bc_magic bc' = BLOCKIF_SIG" "queued bc' = queued bc - {#i#}"
    using cancel_cases [OF d(1), of i] d(2,3) by (auto simp: disk_at_upd)
  then show ?thesis by (simp add: disk_ready_def blk_ready_def EINVAL'_def)
qed

lemma disk_submit_locked: "disk_locked bc \<Longrightarrow> disk_submit op bc st i = Inl Assert_failed"
  by (auto simp: disk_locked_def disk_submit_def checked_def blockif_request_def lock_bc_stuck assertE_def)

lemma disk_cancel_locked: "disk_locked bc \<Longrightarrow> blockif_cancel bc st i = Inl Assert_failed"
  by (auto simp: disk_locked_def blockif_cancel_def checked_def lock_bc_stuck assertE_def)

interpretation disk: request_queue disk_ready disk_locked queued BLOCKIF_MAXREQ disk_submit blockif_cancel
  by unfold_locales (rule disk_prepare disk_submit_law disk_cancel_law disk_submit_locked disk_cancel_locked; assumption)+

end
