(* ===== verification/Ahci_Inv.thy ===== *)
theory Ahci_Inv
  imports Ahci_Regs Block_Queue
begin

text \<open>
  The bookkeeping of requests: every request block of a port is free or in flight, the
  pending slots are those of the blocks in flight, and those wait in the queue of the
  disk. Commands, register writes and stopping keep it so, and none of the assertions
  about request blocks and the queue fails.
\<close>

section \<open>The invariant\<close>

definition port_inv :: "ahci_port \<Rightarrow> bool" where
  "port_inv p \<longleftrightarrow>
     distinct (iofhd p @ iobhd p) \<and> set (iofhd p @ iobhd p) = {..<ioqsz p} \<and> 32 \<le> ioqsz p \<and> ioqsz p < BLOCKIF_MAXREQ \<and>
     inj_on (\<lambda>i. io_slot (ioreq p i)) (set (iobhd p)) \<and>
     {s. bit (pending p) s} = (\<lambda>i. io_slot (ioreq p i)) ` set (iobhd p) \<and>
     (\<exists>bc. bctx p = Some bc \<and> disk_ready bc (req_store p) \<and> queued bc = mset (iobhd p))"

definition has_disk :: "ahci_port \<Rightarrow> bool" where
  "has_disk p \<longleftrightarrow> pr_sc p \<or> bctx p \<noteq> None"

definition hba_inv :: "pci_ahci_softc \<Rightarrow> bool" where
  "hba_inv sc \<longleftrightarrow> (\<forall>k. has_disk (port sc k) \<longrightarrow> port_inv (port sc k))"

definition ahci_inv :: "ahci_io \<Rightarrow> bool" where
  "ahci_inv io \<longleftrightarrow> (\<forall>k. has_disk (the_port k io) \<longrightarrow> port_inv (the_port k io))"

text \<open>The part of a port the invariant looks at.\<close>

definition books :: "ahci_port \<Rightarrow> _" where
  "books p = (bctx p, pr_sc p, pending p, ioreq p, ioqsz p, iofhd p, iobhd p)"

lemma books_regs [simp]: "books (p\<lparr>regs := r\<rparr>) = books p"
  by (simp add: books_def)

lemma qpart_books: "qpart p' = qpart p \<Longrightarrow> books p' = books p"
  by (simp add: qpart_def books_def)

lemma books_inv: "books p' = books p \<Longrightarrow> port_inv p' = port_inv p \<and> pr_sc p' = pr_sc p \<and> has_disk p' = has_disk p"
  by (simp add: books_def port_inv_def req_store_def has_disk_def)

definition same_books :: "ahci_io \<Rightarrow> ahci_io \<Rightarrow> bool" where
  "same_books io io' \<longleftrightarrow> (\<forall>k. books (the_port k io') = books (the_port k io))"

lemma same_books_inv: "same_books io io' \<Longrightarrow> ahci_inv io' = ahci_inv io"
  using books_inv unfolding same_books_def ahci_inv_def by metis

lemma same_books_refl [simp]: "same_books io io"
  by (simp add: same_books_def)

lemma same_books_trans: "same_books a b \<Longrightarrow> same_books b c \<Longrightarrow> same_books a c"
  by (simp add: same_books_def)

lemma quiet_books: "quiet io io' \<Longrightarrow> same_books io io'"
  by (auto simp: quiet_def same_books_def intro: qpart_books)

lemma same_books_upd [simp]:
  "same_books io (upd_regs n g io') = same_books io io'" "same_books (upd_regs n g io) io' = same_books io io'"
  "same_books io (upd_mem f io') = same_books io io'" "same_books io (upd_hregs h io') = same_books io io'"
  "same_books io (with_lock mx io') = same_books io io'" "same_books (with_lock mx io) io' = same_books io io'"
  "same_books io (clear_slot n s io') = same_books io io'" "same_books (clear_slot n s io) io' = same_books io io'"
  "same_books io (set_lintr b io') = same_books io io'" "same_books io (at_slot n io') = same_books io io'"
  "same_books io (next_slot n io') = same_books io io'"
  by (auto simp: same_books_def books_def clear_slot_def at_slot_def next_slot_def)

section \<open>A request goes to the disk\<close>

lemma bits_slots:
  assumes "port_inv p"
  shows "card {s. bit (pending p) s} = length (iobhd p)" "length (iofhd p) + length (iobhd p) = ioqsz p"
proof -
  have d: "distinct (iobhd p)" "distinct (iofhd p @ iobhd p)" using assms by (auto simp: port_inv_def)
  then show "card {s. bit (pending p) s} = length (iobhd p)"
    using assms distinct_card [OF d(1)] by (simp add: port_inv_def card_image)
  show "length (iofhd p) + length (iobhd p) = ioqsz p"
    using distinct_card [OF d(2)] assms by (simp add: port_inv_def)
qed

lemma free_block:
  assumes "port_inv p" "\<not> bit (pending p) slot" "slot < 32"
  shows "\<exists>i rest. iofhd p = i # rest"
proof -
  have "{s. bit (pending p) s} \<subseteq> {..<32} - {slot}" using assms(2) by (auto dest: bit_imp_le_length)
  then have "card {s. bit (pending p) s} \<le> card ({..<32} - {slot})" by (intro card_mono) simp_all
  then have "length (iobhd p) < 32" using assms(3) bits_slots(1) [OF assms(1)] by simp
  then have "iofhd p \<noteq> []" using bits_slots(2) [OF assms(1)] assms(1) by (auto simp: port_inv_def)
  then show ?thesis by (cases "iofhd p") auto
qed

definition books_with :: "nat \<Rightarrow> ahci_ioreq \<Rightarrow> nat \<Rightarrow> nat list \<Rightarrow> nat blockif_ctxt \<Rightarrow> ahci_port \<Rightarrow> ahci_port" where
  "books_with i a slot rest bc p = p\<lparr>iofhd := rest, iobhd := i # iobhd p, pending := pending p OR slot_bit slot,
     ioreq := (ioreq p)(i := a), bctx := Some bc\<rparr>"

lemma flight_inv:
  assumes "port_inv p" "\<not> bit (pending p) slot" "slot < 32" "iofhd p = i # rest" "io_slot a = slot" "req_ok (io_req a)"
  shows "\<exists>bc bc'. bctx p = Some bc \<and> disk_submit op bc ((req_store p)(i := io_req a)) i = Inr (0, bc') \<and>
    port_inv (books_with i a slot rest bc' p)"
proof -
  obtain bc where bc: "bctx p = Some bc" "disk_ready bc (req_store p)" "queued bc = mset (iobhd p)"
    using assms(1) by (auto simp: port_inv_def)
  have i: "i \<notin> set (iobhd p)" "i < ioqsz p" using assms(1,4) by (auto simp: port_inv_def)
  have "length (iobhd p) < BLOCKIF_MAXREQ" using bits_slots(2) [OF assms(1)] assms(1) by (simp add: port_inv_def)
  then obtain bc' where bc': "disk_submit op bc ((req_store p)(i := io_req a)) i = Inr (0, bc')"
    "disk_ready bc' ((req_store p)(i := io_req a))" "queued bc' = add_mset i (queued bc)"
    using disk.submit_fresh [OF bc(2), of i "io_req a" op] i(1) assms(6) bc(3) by auto
  have st: "req_store (books_with i a slot rest bc' p) = (req_store p)(i := io_req a)"
    by (auto simp: req_store_def books_with_def)
  have im: "(\<lambda>k. io_slot (((ioreq p)(i := a)) k)) ` set (iobhd p) = (\<lambda>k. io_slot (ioreq p k)) ` set (iobhd p)"
    using i(1) by (intro image_cong) auto
  have inj: "inj_on (\<lambda>k. io_slot (((ioreq p)(i := a)) k)) (set (iobhd p))"
    using assms(1) i(1) by (auto simp: port_inv_def inj_on_def)
  have pend: "{s. bit (pending p OR slot_bit slot) s} = insert slot {s. bit (pending p) s}"
    using assms(3) by (auto simp: slot_bit_def bit_simps)
  have new: "slot \<notin> (\<lambda>k. io_slot (ioreq p k)) ` set (iobhd p)" using assms(1,2) by (auto simp: port_inv_def)
  have "port_inv (books_with i a slot rest bc' p)"
    unfolding port_inv_def st
    using assms(1,4,5) bc' bc(3) i inj im pend new by (auto simp: books_with_def port_inv_def)
  then show ?thesis using bc(1) bc'(1) by blast
qed

lemma disk_ready_ok: "disk_ready bc st \<Longrightarrow> req_ok (st i)"
  by (auto simp: disk_ready_def blk_ready_def idle_inv_def)

lemma transfer_inv:
  assumes "in_transfer n slot io io'" "ahci_inv io" "pr_sc (the_port n io)" "\<not> bit (pending (the_port n io)) slot" "slot < 32"
  shows "ahci_inv io'"
proof -
  let ?p = "the_port n io" and ?p' = "the_port n io'"
  obtain i a op bc bc' where t: "iofhd ?p = i # iofhd ?p'" "iobhd ?p' = i # iobhd ?p"
    "pending ?p' = pending ?p OR slot_bit slot" "ioreq ?p' = (ioreq ?p)(i := a)" "fresh_req ?p i a slot"
    "bctx ?p = Some bc" "bctx ?p' = Some bc'" "blk_op op" "op bc (req_store ?p') i = Inr (0, bc')"
    "pr_sc ?p' = pr_sc ?p" "ioqsz ?p' = ioqsz ?p" "\<And>k. k \<noteq> n \<Longrightarrow> qpart (the_port k io') = qpart (the_port k io)"
    using assms(1) unfolding in_transfer_def Let_def by blast
  have inv: "port_inv ?p" using assms(2,3) by (simp add: ahci_inv_def has_disk_def)
  have "req_ok (io_req (ioreq ?p i))"
    using inv t(6) disk_ready_ok [of bc "req_store ?p" i] by (auto simp: port_inv_def req_store_def)
  then have ok: "io_slot a = slot" "req_ok (io_req a)" using t(5) by (auto simp: fresh_req_def)
  obtain bop where bop: "op = disk_submit bop" using t(8) by (auto simp: blk_op_def disk_submits)
  have st: "req_store ?p' = (req_store ?p)(i := io_req a)" using t(4) by (auto simp: req_store_def)
  obtain bc2 where "disk_submit bop bc ((req_store ?p)(i := io_req a)) i = Inr (0, bc2)"
    "port_inv (books_with i a slot (iofhd ?p') bc2 ?p)"
    using flight_inv [OF inv assms(4,5) t(1) ok, of bop] t(6) by auto
  then have "port_inv (books_with i a slot (iofhd ?p') bc' ?p)" using t(9) unfolding bop st by simp
  moreover have "books ?p' = books (books_with i a slot (iofhd ?p') bc' ?p)"
    using t by (simp add: books_def books_with_def)
  ultimately have "port_inv ?p'" using books_inv by blast
  moreover have "has_disk (the_port k io') \<longrightarrow> port_inv (the_port k io')" if "k \<noteq> n" for k
    using assms(2) books_inv [OF qpart_books [OF t(12) [OF that]]] by (simp add: ahci_inv_def)
  ultimately show ?thesis unfolding ahci_inv_def by metis
qed

lemma settled_inv:
  assumes "settled n slot io io'" "ahci_inv io" "pr_sc (the_port n io)" "\<not> bit (pending (the_port n io)) slot" "slot < 32"
  shows "ahci_inv io'"
  using assms(1) unfolding settled_def
proof (elim disjE)
  assume "quiet (clear_slot n slot io) io'"
  then show ?thesis using same_books_inv [of io io'] assms(2) quiet_books by fastforce
next
  assume "quiet io io' \<and> (receiving (the_port n io) \<longrightarrow> waitforclear (the_port n io'))"
  then show ?thesis using same_books_inv [of io io'] assms(2) quiet_books by blast
qed (rule transfer_inv [OF _ assms(2-5)])

section \<open>The walk and the register writes\<close>

lemma turn_inv:
  assumes "port_turn iommu junk n io = Inr io'" "ahci_inv io" "running (the_port n io)"
  shows "ahci_inv io' \<and> running (the_port n io')"
proof (cases "standing (the_port n io)")
  case False
  then have "io' = next_slot n io" using assms(1) by (simp add: port_turn_eq)
  then show ?thesis using same_books_inv [of io io'] assms(2,3) by simp
next
  case True
  let ?s = "ccs (the_port n io)"
  obtain io1 where io1: "ahci_handle_slot iommu junk n ?s (at_slot n io) = Inr io1" "io' = next_slot n io1"
    using assms(1) True by (auto simp: port_turn_eq bindE_Inr)
  have a: "ahci_inv (at_slot n io)" using same_books_inv [of io "at_slot n io"] assms(2) by simp
  have s: "\<not> bit (pending (the_port n (at_slot n io))) ?s" "?s < 32"
    using standing_free [OF True] True bit_imp_le_length [of "issued (the_port n io)" ?s] by (simp_all add: standing_def)
  have pr: "pr_sc (the_port n (at_slot n io))" using io1(1) by (simp add: ahci_handle_slot_def split: if_split_asm)
  have "ahci_inv io1 \<and> running (the_port n io1)"
  proof (cases "holds_command iommu n ?s (at_slot n io)")
    case True
    then have st: "settled n ?s (at_slot n io) io1"
      using handle_slot_cases [OF io1(1) s(1)] assms(3) by simp
    show ?thesis using settled_inv [OF st a pr s] settled_sel(3) [OF st] assms(3) by simp
  next
    case False
    then show ?thesis using handle_slot_cases [OF io1(1) s(1)] assms(3) a by simp
  qed
  then show ?thesis using same_books_inv [of io1 io'] io1(2) by simp
qed

lemma loop_inv:
  assumes "port_loop iommu junk n io = Some r"
  shows "\<forall>io'. r = Inr io' \<longrightarrow> ahci_inv io \<longrightarrow> running (the_port n io) \<longrightarrow> ahci_inv io'"
  using assms
  by (rule port_loop.raw_induct [rotated, where P = "\<lambda>_ _ n io r. \<forall>io'. r = Inr io' \<longrightarrow> ahci_inv io \<longrightarrow> running (the_port n io) \<longrightarrow> ahci_inv io'"])
    (auto split: if_split_asm sum.split_asm dest: turn_inv)

lemma handle_port_inv: "ahci_handle_port iommu junk n io = Inr io' \<Longrightarrow> ahci_inv io \<Longrightarrow> ahci_inv io'"
  using loop_inv [of iommu junk n io] by (auto simp: ahci_handle_port_def running_def split: if_split_asm option.split_asm)

section \<open>Stopping a port\<close>

lemma bits_clear: "{k. bit (w AND NOT (slot_bit s)) k} = {k. bit w k} - {s}" for w :: u32
  by (auto simp: slot_word)

lemma cancel_inv:
  assumes "port_inv p" "iobhd p = i # rest"
  shows "\<exists>bc bc'. bctx p = Some bc \<and> blockif_cancel bc (req_store p) i = Inr (0, bc') \<and>
    port_inv (free_ioreq i (p\<lparr>bctx := Some bc', pending := pending p AND NOT (slot_bit (io_slot (ioreq p i)))\<rparr>))"
proof -
  obtain bc where bc: "bctx p = Some bc" "disk_ready bc (req_store p)" "queued bc = mset (iobhd p)"
    using assms(1) by (auto simp: port_inv_def)
  then obtain bc' where c: "blockif_cancel bc (req_store p) i = Inr (0, bc')" "disk_ready bc' (req_store p)"
    "queued bc' = queued bc - {#i#}"
    using disk.cancel_waiting [OF bc(2), of i] assms(2) by auto
  have "port_inv (free_ioreq i (p\<lparr>bctx := Some bc', pending := pending p AND NOT (slot_bit (io_slot (ioreq p i)))\<rparr>))"
    using assms c(2,3) bc(3)
    by (auto simp: port_inv_def free_ioreq_def req_store_def bits_clear intro: rev_image_eqI)
  then show ?thesis using bc(1) c(1) by blast
qed

lemma stop_reqs_all:
  assumes "port_inv (the_port n io)" "iobhd (the_port n io) = bs"
  shows "\<exists>io'. stop_reqs n bs io = Inr io' \<and> port_inv (the_port n io') \<and> iobhd (the_port n io') = [] \<and>
    (\<forall>k. k \<noteq> n \<longrightarrow> the_port k io' = the_port k io) \<and> pr_sc (the_port n io') = pr_sc (the_port n io) \<and>
    r_cmd (regs (the_port n io')) = r_cmd (regs (the_port n io)) \<and> hregs (hba io') = hregs (hba io) \<and>
    asc_mtx (hba io') = asc_mtx (hba io) \<and> ports (hba io') = ports (hba io) \<and> a_mem io' = a_mem io"
  using assms
proof (induction bs arbitrary: io)
  case Nil
  then show ?case by simp
next
  case (Cons i bs)
  let ?p = "the_port n io" and ?s = "io_slot (ioreq (the_port n io) i)"
  obtain bc bc' where c: "bctx ?p = Some bc" "blockif_cancel bc (req_store ?p) i = Inr (0, bc')"
    "port_inv (free_ioreq i (?p\<lparr>bctx := Some bc', pending := pending ?p AND NOT (slot_bit ?s)\<rparr>))"
    using cancel_inv [OF Cons.prems] by blast
  define clr where "clr = (if is_ncq (a_mem io (io_cfis (ioreq ?p i) + 2))
    then (\<lambda>r :: port_regs. r\<lparr>r_sact := r_sact r AND NOT (slot_bit ?s)\<rparr>) else (\<lambda>r. r\<lparr>r_ci := r_ci r AND NOT (slot_bit ?s)\<rparr>))"
  define io1 where "io1 = upd_port n (\<lambda>p. free_ioreq i (p\<lparr>pending := pending p AND NOT (slot_bit ?s)\<rparr>))
    (upd_regs n clr (upd_port n (\<lambda>p. p\<lparr>bctx := Some bc'\<rparr>) io))"
  have run: "stop_reqs n (i # bs) io = stop_reqs n bs io1"
    using c(1,2) by (simp add: io1_def clr_def Let_def)
  have "books (the_port n io1) = books (free_ioreq i (?p\<lparr>bctx := Some bc', pending := pending ?p AND NOT (slot_bit ?s)\<rparr>))"
    by (simp add: io1_def books_def free_ioreq_def)
  then have inv: "port_inv (the_port n io1)" using c(3) books_inv by blast
  have "r_cmd (clr r) = r_cmd r" for r by (simp add: clr_def)
  then have rest: "iobhd (the_port n io1) = bs" "\<And>k. k \<noteq> n \<Longrightarrow> the_port k io1 = the_port k io" "pr_sc (the_port n io1) = pr_sc ?p"
    "r_cmd (regs (the_port n io1)) = r_cmd (regs ?p)" "hregs (hba io1) = hregs (hba io)" "asc_mtx (hba io1) = asc_mtx (hba io)"
    "ports (hba io1) = ports (hba io)" "a_mem io1 = a_mem io"
    using Cons.prems(2) by (simp_all add: io1_def free_ioreq_def)
  show ?case
    using Cons.IH [OF inv rest(1)] rest(2-) unfolding run by auto
qed

text \<open>All requests of the port are cancelled and all slots are free again.\<close>

definition all_idle :: "ahci_port \<Rightarrow> bool" where
  "all_idle p \<longleftrightarrow> pending p = 0 \<and> iobhd p = [] \<and> (\<exists>bc. bctx p = Some bc \<and> queued bc = {#}) \<and> r_ci (regs p) = 0 \<and>
     r_sact (regs p) = 0 \<and> ccs p = 0 \<and> \<not> waitforclear p \<and> r_cmd (regs p) AND (AHCI_P_CMD_CR OR AHCI_P_CMD_CCS_MASK) = 0"

lemma idle_pending:
  assumes "port_inv p" "iobhd p = []"
  shows "pending p = 0" "\<exists>bc. bctx p = Some bc \<and> queued bc = {#}"
proof -
  have "{s. bit (pending p) s} = {}" using assms by (simp add: port_inv_def)
  then show "pending p = 0" by (intro bit_word_eqI) auto
  show "\<exists>bc. bctx p = Some bc \<and> queued bc = {#}" using assms by (auto simp: port_inv_def)
qed

lemma stopped_idle:
  assumes "port_inv (the_port n io)" "iobhd (the_port n io) = []" "r_cmd (regs (the_port n io)) AND AHCI_P_CMD_ST = 0"
  shows "all_idle (the_port n (ahci_check_stopped n io))" "same_books io (ahci_check_stopped n io)"
proof -
  note d = idle_pending [OF assms(1,2)]
  have z: "(w AND NOT v) AND v = 0" for w v :: u32 by (rule bit_word_eqI) (simp add: bit_simps)
  have m: "(w AND NOT 0x9f00) AND 0x9f00 = 0" for w :: u32 using z [of w "0x9f00"] .
  show "all_idle (the_port n (ahci_check_stopped n io))"
    using d assms(2,3) m by (simp add: ahci_check_stopped_def Let_def all_idle_def)
  show "same_books io (ahci_check_stopped n io)"
    by (simp add: ahci_check_stopped_def Let_def same_books_def books_def)
qed

lemma port_stop_cancels:
  assumes "port_inv (the_port n io)" "pr_sc (the_port n io)" "held_mutex (asc_mtx (hba io))" "r_cmd (regs (the_port n io)) AND AHCI_P_CMD_ST = 0"
  shows "\<exists>io'. ahci_port_stop n io = Inr io' \<and> port_inv (the_port n io') \<and> all_idle (the_port n io') \<and>
    (\<forall>k. k \<noteq> n \<longrightarrow> the_port k io' = the_port k io) \<and> pr_sc (the_port n io') \<and>
    r_cmd (regs (the_port n io')) = r_cmd (regs (the_port n io)) AND NOT (AHCI_P_CMD_CR OR AHCI_P_CMD_CCS_MASK) \<and>
    asc_mtx (hba io') = asc_mtx (hba io) \<and> a_mem io' = a_mem io"
proof -
  obtain io1 where s: "stop_reqs n (iobhd (the_port n io)) io = Inr io1" "port_inv (the_port n io1)" "iobhd (the_port n io1) = []"
    "\<And>k. k \<noteq> n \<Longrightarrow> the_port k io1 = the_port k io" "pr_sc (the_port n io1) = pr_sc (the_port n io)"
    "r_cmd (regs (the_port n io1)) = r_cmd (regs (the_port n io))" "asc_mtx (hba io1) = asc_mtx (hba io)" "a_mem io1 = a_mem io"
    using stop_reqs_all [OF assms(1) refl] by blast
  have st: "r_cmd (regs (the_port n io1)) AND AHCI_P_CMD_ST = 0" using s(6) assms(4) by simp
  note idle = stopped_idle [OF s(2,3) st]
  have "ahci_port_stop n io = Inr (ahci_check_stopped n io1)"
    using assms(2,3) s(1) by (simp add: ahci_port_stop_def bind_assertE held_mutex_def pthread_mutex_isowned_np_def)
  moreover have "port_inv (the_port n (ahci_check_stopped n io1))" "pr_sc (the_port n (ahci_check_stopped n io1))"
    using books_inv [OF idle(2) [unfolded same_books_def, THEN spec, of n]] s(2,5) assms(2) by simp_all
  moreover have "r_cmd (regs (the_port n (ahci_check_stopped n io1))) =
      r_cmd (regs (the_port n io)) AND NOT (AHCI_P_CMD_CR OR AHCI_P_CMD_CCS_MASK)"
    using idle_pending(1) [OF s(2,3)] st s(6) by (simp add: ahci_check_stopped_def Let_def)
  moreover have "the_port k (ahci_check_stopped n io1) = the_port k io" if "k \<noteq> n" for k
    using s(4) [OF that] that by (simp add: ahci_check_stopped_def Let_def)
  moreover have "asc_mtx (hba (ahci_check_stopped n io1)) = asc_mtx (hba io)" "a_mem (ahci_check_stopped n io1) = a_mem io"
    using s(7,8) by (simp_all add: ahci_check_stopped_def Let_def)
  ultimately show ?thesis using idle(1) by (intro exI [of _ "ahci_check_stopped n io1"] conjI allI impI)
qed

section \<open>The writes of a driver\<close>

text \<open>What follows the stop or the start of the list in a write of the command register.\<close>

definition cmd_tail :: "bool \<Rightarrow> nat \<Rightarrow> u32 \<Rightarrow> ahci_io \<Rightarrow> ahci_io" where
  "cmd_tail iommu n v io =
     (let io = upd_port n (set_receive iommu (v AND AHCI_P_CMD_FRE \<noteq> 0)) io;
          io = (if v AND AHCI_P_CMD_CLO \<noteq> 0 then
                  upd_regs n (\<lambda>r. r\<lparr>r_tfd := r_tfd r AND NOT (ATA_S_BUSY OR ATA_S_DRQ),
                    r_cmd := r_cmd r AND NOT AHCI_P_CMD_CLO\<rparr>) io else io)
      in if v AND AHCI_P_CMD_ICC_MASK \<noteq> 0 then
           upd_regs n (\<lambda>r. r\<lparr>r_cmd := r_cmd r AND NOT AHCI_P_CMD_ICC_MASK\<rparr>) io else io)"

definition cmd_bits :: "nat \<Rightarrow> u32 \<Rightarrow> ahci_io \<Rightarrow> ahci_io" where
  "cmd_bits n v = upd_regs n (\<lambda>r. r\<lparr>r_cmd := r_cmd r AND NOT cmd_writable OR (cmd_writable AND v)\<rparr>)"

lemma port_cmd_write_eq:
  "port_cmd_write iommu junk n v io =
     bindE (if v AND AHCI_P_CMD_ST = 0 then ahci_port_stop n (cmd_bits n v io)
            else Inr (upd_port n (start_list iommu) (cmd_bits n v io))) (\<lambda>io. ahci_handle_port iommu junk n (cmd_tail iommu n v io))"
  by (simp add: port_cmd_write_def cmd_tail_def cmd_bits_def Let_def)

lemma set_receive_sel [simp]:
  "books (set_receive iommu on p) = books p" "r_ci (regs (set_receive iommu on p)) = r_ci (regs p)"
  "r_sact (regs (set_receive iommu on p)) = r_sact (regs p)" "ccs (set_receive iommu on p) = ccs p"
  "waitforclear (set_receive iommu on p) = waitforclear p" "pending (set_receive iommu on p) = pending p"
  "iobhd (set_receive iommu on p) = iobhd p" "bctx (set_receive iommu on p) = bctx p"
  "r_cmd (regs (set_receive iommu on p)) = (if on then r_cmd (regs p) OR AHCI_P_CMD_FR else r_cmd (regs p) AND NOT AHCI_P_CMD_FR)"
  by (simp_all add: set_receive_def books_def)

lemma cmd_tail_sel:
  "same_books io (cmd_tail iommu n v io)" "k \<noteq> n \<Longrightarrow> the_port k (cmd_tail iommu n v io) = the_port k io"
  "a_mem (cmd_tail iommu n v io) = a_mem io" "asc_mtx (hba (cmd_tail iommu n v io)) = asc_mtx (hba io)"
  by (auto simp: cmd_tail_def Let_def same_books_def)

lemma cmd_tail_masked:
  assumes "m AND AHCI_P_CMD_FR = 0"
  shows "r_cmd (regs (the_port n io)) AND m = 0 \<Longrightarrow> r_cmd (regs (the_port n (cmd_tail iommu n v io))) AND m = 0"
proof -
  have a: "(w AND NOT x) AND m = 0" if "w AND m = 0" for w x :: u32
  proof -
    have "(w AND NOT x) AND m = (w AND m) AND NOT x" by (simp only: and.assoc and.commute [of "NOT x" m])
    then show ?thesis using that by simp
  qed
  have o: "(w OR 0x4000) AND m = 0" if "w AND m = 0" for w :: u32
  proof -
    have "(w OR 0x4000) AND m = (w AND m) OR (0x4000 AND m)" by (rule bit.conj_disj_distrib2)
    then show ?thesis using that assms by (simp add: and.commute)
  qed
  have t: "r_cmd (regs (the_port n (cmd_tail iommu n v io))) =
    (let w = r_cmd (regs (the_port n io)); w = (if v AND AHCI_P_CMD_FRE \<noteq> 0 then w OR AHCI_P_CMD_FR else w AND NOT AHCI_P_CMD_FR);
         w = (if v AND AHCI_P_CMD_CLO \<noteq> 0 then w AND NOT AHCI_P_CMD_CLO else w)
     in if v AND AHCI_P_CMD_ICC_MASK \<noteq> 0 then w AND NOT AHCI_P_CMD_ICC_MASK else w)"
    by (simp add: cmd_tail_def Let_def)
  show "r_cmd (regs (the_port n (cmd_tail iommu n v io))) AND m = 0" if "r_cmd (regs (the_port n io)) AND m = 0"
    unfolding t Let_def using that a o by presburger
qed

lemma cmd_tail_idle: "all_idle (the_port n io) \<Longrightarrow> all_idle (the_port n (cmd_tail iommu n v io))"
  using cmd_tail_masked [of "0x9f00" n io iommu v]
  by (auto simp: all_idle_def cmd_tail_def Let_def)

lemma cmd_bits_stop: "v AND AHCI_P_CMD_ST = 0 \<Longrightarrow> r_cmd (regs (the_port n (cmd_bits n v io))) AND AHCI_P_CMD_ST = 0"
  by (simp add: cmd_bits_def cmd_writable_def bit.conj_disj_distrib2 and.assoc)

text \<open>C25: Clearing the start bit of a port cancels everything on it: the write returns, every request of the port
  has left the queue of the disk and its block is free, no slot is pending or issued, the walk starts
  over at slot 0, and no other port and no byte of memory changes.\<close>

theorem stop_cancels_all:
  assumes "port_inv (the_port n io)" "pr_sc (the_port n io)" "n < ports (hba io)" "ports (hba io) \<le> 32"
    "free_mutex (asc_mtx (hba io))" "v AND AHCI_P_CMD_ST = 0"
  shows "\<exists>io'. pci_ahci_write iommu junk 5 (port_offset n AHCI_P_CMD) (ucast v) io = Inr io' \<and> all_idle (the_port n io') \<and>
    port_inv (the_port n io') \<and> (\<forall>k. k \<noteq> n \<longrightarrow> the_port k io' = the_port k io) \<and> a_mem io' = a_mem io \<and>
    free_mutex (asc_mtx (hba io'))"
proof -
  obtain mx where mx: "held_mutex mx" "pci_ahci_write iommu junk 5 (port_offset n 0x18) (ucast v) io =
      bindE (pci_ahci_port_write iommu junk (port_offset n 0x18) (ucast v) (with_lock mx io)) unlock_hba"
    using port_write_eq [OF assms(5,3,4), of "0x18" iommu junk "ucast v"] by auto
  have off: "port_of (port_offset n 0x18) = n" "port_reg (port_offset n 0x18) = 0x18"
    using port_offset_parts(1,2) [of n "0x18"] assms(3,4) by simp_all
  have u: "ucast (ucast v :: u64) = v" by (rule bit_word_eqI) (simp add: bit_simps)
  let ?io = "cmd_bits n v (with_lock mx io)"
  have b: "books (the_port n ?io) = books (the_port n io)" by (simp add: cmd_bits_def books_def)
  have inv: "port_inv (the_port n ?io)" "pr_sc (the_port n ?io)" using books_inv [OF b] assms(1,2) by simp_all
  have held: "held_mutex (asc_mtx (hba ?io))" using mx(1) by (simp add: cmd_bits_def)
  from port_stop_cancels [OF inv held cmd_bits_stop [OF assms(6)]]
  obtain io1 where s: "ahci_port_stop n ?io = Inr io1" "port_inv (the_port n io1)" "all_idle (the_port n io1)"
    "\<And>k. k \<noteq> n \<Longrightarrow> the_port k io1 = the_port k ?io" "r_cmd (regs (the_port n io1)) = r_cmd (regs (the_port n ?io)) AND NOT (AHCI_P_CMD_CR OR AHCI_P_CMD_CCS_MASK)"
    "asc_mtx (hba io1) = asc_mtx (hba ?io)" "a_mem io1 = a_mem ?io" by blast
  let ?io2 = "cmd_tail iommu n v io1"
  have st: "r_cmd (regs (the_port n ?io2)) AND AHCI_P_CMD_ST = 0"
    using cmd_tail_masked [of 1 n io1] s(5) cmd_bits_stop [OF assms(6), of n "with_lock mx io"]
    by (simp add: and.assoc)
  have "held_mutex (asc_mtx (hba ?io2))" using held s(6) by (simp add: cmd_tail_sel)
  then obtain my where my: "unlock_hba ?io2 = Inr (with_lock my ?io2)" "free_mutex my" using unlock_hba_held by blast
  have "pci_ahci_write iommu junk 5 (port_offset n 0x18) (ucast v) io = Inr (with_lock my ?io2)"
    unfolding mx(2) pci_ahci_port_write_def off Let_def u port_cmd_write_eq
    using assms(6) s(1) st my(1) by (simp add: ahci_handle_port_def)
  moreover have "port_inv (the_port n ?io2)"
    using s(2) books_inv [OF cmd_tail_sel(1) [unfolded same_books_def, THEN spec, of n]] by simp
  moreover have "the_port k ?io2 = the_port k io" if "k \<noteq> n" for k
    using that s(4) cmd_tail_sel(2) by (simp add: cmd_bits_def)
  ultimately show ?thesis
    using cmd_tail_idle [OF s(3)] s(7) my(2)
    by (intro exI [of _ "with_lock my ?io2"]) (simp add: cmd_tail_sel(3) cmd_bits_def)
qed

lemma start_list_books [simp]: "books (start_list iommu p) = books p"
  by (simp add: start_list_def books_def)

lemma cmd_write_inv:
  assumes "port_cmd_write iommu junk n v io = Inr io'" "ahci_inv io" "held_mutex (asc_mtx (hba io))"
  shows "ahci_inv io'"
proof -
  have b: "ahci_inv (cmd_bits n v io)" using same_books_inv [of io "cmd_bits n v io"] assms(2) by (simp add: cmd_bits_def)
  obtain io1 where io1: "(if v AND AHCI_P_CMD_ST = 0 then ahci_port_stop n (cmd_bits n v io)
      else Inr (upd_port n (start_list iommu) (cmd_bits n v io))) = Inr io1"
    "ahci_handle_port iommu junk n (cmd_tail iommu n v io1) = Inr io'"
    using assms(1) by (auto simp: port_cmd_write_eq bindE_Inr)
  have "ahci_inv io1"
  proof (cases "v AND AHCI_P_CMD_ST = 0")
    case False
    have "same_books (cmd_bits n v io) (upd_port n (start_list iommu) (cmd_bits n v io))" by (simp add: same_books_def)
    then show ?thesis using io1(1) False b same_books_inv by auto
  next
    case True
    then have s: "ahci_port_stop n (cmd_bits n v io) = Inr io1" using io1(1) by simp
    then have pr: "pr_sc (the_port n (cmd_bits n v io))" by (simp add: ahci_port_stop_def split: if_split_asm)
    have held: "held_mutex (asc_mtx (hba (cmd_bits n v io)))" using assms(3) by (simp add: cmd_bits_def)
    have inv: "port_inv (the_port n (cmd_bits n v io))" using b pr by (simp add: ahci_inv_def has_disk_def)
    from port_stop_cancels [OF inv pr held cmd_bits_stop [OF True]] s
    have "port_inv (the_port n io1)" "\<And>k. k \<noteq> n \<Longrightarrow> the_port k io1 = the_port k (cmd_bits n v io)" by auto
    then show ?thesis using b unfolding ahci_inv_def by metis
  qed
  then have "ahci_inv (cmd_tail iommu n v io1)" using same_books_inv [OF cmd_tail_sel(1)] by blast
  then show ?thesis using handle_port_inv [OF io1(2)] by blast
qed

lemma ports_books: "same_ports io io' \<Longrightarrow> same_books io io'"
  by (simp add: quiet_books quiet_ports)

lemma port_write_inv:
  assumes "pci_ahci_port_write iommu junk off v io = Inr io'" "ahci_inv io" "held_mutex (asc_mtx (hba io))"
  shows "ahci_inv io'"
proof -
  let ?n = "port_of off"
  have r: "ahci_inv (upd_regs ?n g io)" for g using same_books_inv [of io "upd_regs ?n g io"] assms(2) by simp
  have i: "ahci_inv io'" if "ahci_port_intr ?n (upd_regs ?n g io) = Inr io'" for g
    using same_books_inv [OF ports_books [OF port_intr_same [OF that]]] r by blast
  have q: "ahci_inv io'" if "ahci_port_reset ?n (upd_regs ?n g io) = Inr io'" for g
    using same_books_inv [OF quiet_books [OF port_reset_quiet [OF that]]] r by blast
  have h: "ahci_inv io'" if "ahci_handle_port iommu junk ?n (upd_regs ?n g io) = Inr io'" for g
    using handle_port_inv [OF that r] .
  show ?thesis
    using assms(1,2) unfolding pci_ahci_port_write_def Let_def
    by (auto split: if_split_asm simp: r intro: i q h cmd_write_inv [OF _ assms(2,3)])
qed

lemma reset_ports_books: "reset_ports is io = Inr io' \<Longrightarrow> same_books io io'"
proof (induction "is" arbitrary: io)
  case (Cons i "is")
  then obtain g io1 where "ahci_port_reset i (upd_regs i g io) = Inr io1" "reset_ports is io1 = Inr io'"
    by (auto simp: bindE_Inr)
  then show ?case using Cons.IH quiet_books [OF port_reset_quiet] same_books_trans by fastforce
qed simp

lemma deassert_books: "hba_deassert io = Inr io' \<Longrightarrow> same_books io io'"
  by (simp add: ports_books hba_deassert_same)

lemma reset_books:
  assumes "ahci_reset io = Inr io'"
  shows "same_books io io'"
proof -
  let ?io = "upd_hregs (\<lambda>h. h\<lparr>h_ghc := AHCI_GHC_AE, h_is := 0\<rparr>) io"
  obtain io1 "is" where r: "(if asc_lintr (hba ?io) then bindE (hba_deassert ?io) (\<lambda>io. Inr (set_lintr False io)) else Inr ?io) = Inr io1"
    "reset_ports is io1 = Inr io'"
    using assms unfolding ahci_reset_def Let_def bindE_Inr by blast
  have h: "same_books io ?io" by simp
  have "same_books ?io io1"
    using r(1) by (auto simp: bindE_Inr split: if_split_asm dest!: deassert_books)
  then have "same_books io io1" using same_books_trans [OF h] by blast
  then show ?thesis using reset_ports_books [OF r(2)] same_books_trans by blast
qed

lemma host_write_books:
  assumes "pci_ahci_host_write off v io = Inr io'"
  shows "same_books io io'"
proof -
  have g: "same_books io io'" if "ahci_generate_intr m (upd_hregs h io) = Inr io'" for m h
    using ports_books [OF generate_intr_same [OF that]] by (simp add: same_books_def)
  show ?thesis using assms g reset_books by (auto simp: pci_ahci_host_write_def split: if_split_asm)
qed

lemma lock_hbaD: "lock_hba io = Inr io' \<Longrightarrow> \<exists>mx. io' = with_lock mx io \<and> held_mutex mx"
  using pthread.locked_held by (auto simp: lock_hba_def with_lock_def bindE_Inr)

lemma unlock_hbaD: "unlock_hba io = Inr io' \<Longrightarrow> \<exists>mx. io' = with_lock mx io \<and> free_mutex mx"
  using pthread.unlocked_free by (auto simp: unlock_hba_def with_lock_def bindE_Inr)

lemma write_inv:
  assumes "pci_ahci_write iommu junk baridx off v io = Inr io'" "ahci_inv io"
  shows "ahci_inv io'"
proof -
  obtain io0 io1 where io0: "lock_hba io = Inr io0" "(if off < AHCI_OFFSET then pci_ahci_host_write off v io0
      else if off < ports_end io0 then pci_ahci_port_write iommu junk off v io0 else Inr io0) = Inr io1" "unlock_hba io1 = Inr io'"
    using assms(1) unfolding pci_ahci_write_def bindE_Inr by blast
  obtain mx where mx: "io0 = with_lock mx io" "held_mutex mx" using lock_hbaD [OF io0(1)] by blast
  note w = mx(2) io0(2,3) [unfolded mx(1)]
  have l: "ahci_inv (with_lock mx io)" using same_books_inv [of io "with_lock mx io"] assms(2) by simp
  have "ahci_inv io1"
    using w(1,2) l same_books_inv [OF host_write_books [of off v "with_lock mx io" io1]]
      port_write_inv [of iommu junk off v "with_lock mx io" io1]
    by (auto split: if_split_asm)
  then show ?thesis using unlock_hbaD [OF w(3)] same_books_inv [of io1 io'] by auto
qed

lemma read_inv:
  assumes "pci_ahci_read baridx off sz io = Inr (v, io')" "ahci_inv io"
  shows "ahci_inv io'"
proof -
  obtain io0 where io0: "lock_hba io = Inr io0" "unlock_hba io0 = Inr io'"
    using assms(1) unfolding pci_ahci_read_def bindE_Inr Let_def by auto
  have "same_books io io'" using lock_hbaD [OF io0(1)] unlock_hbaD [OF io0(2)] by auto
  then show ?thesis using same_books_inv assms(2) by blast
qed

section \<open>Room for every command\<close>

text \<open>A command of a slot that is not in flight never lacks a request block nor room in the queue of the disk:
  whatever request is prepared for it, the block is taken, the request is accepted by the
  disk, none of the assertions on the way fails, and the bookkeeping of the port stays exact.\<close>

theorem request_slots_suffice:
  assumes "port_inv (the_port n io)" "\<not> bit (pending (the_port n io)) slot" "slot < 32"
    "\<And>a. io_slot (f a) = slot \<and> (req_ok (io_req a) \<longrightarrow> req_ok (io_req (f a)))"
  shows "\<exists>i io1 io2. take_ioreq n io = Inr (i, io1) \<and>
    submit_req (disk_submit op) n i (in_flight n slot i (upd_ioreq n i f io1)) = Inr io2 \<and>
    port_inv (the_port n io2) \<and> pending (the_port n io2) = pending (the_port n io) OR slot_bit slot \<and>
    iobhd (the_port n io2) = i # iobhd (the_port n io)"
proof -
  let ?p = "the_port n io"
  obtain i rest where i: "iofhd ?p = i # rest" using free_block [OF assms(1-3)] by blast
  let ?a = "f (ioreq ?p i)" and ?io1 = "upd_port n (\<lambda>p. p\<lparr>iofhd := rest\<rparr>) io"
  let ?io2 = "in_flight n slot i (upd_ioreq n i f ?io1)"
  have "req_ok (io_req (ioreq ?p i))" using assms(1) disk_ready_ok [of _ "req_store ?p" i] by (auto simp: port_inv_def req_store_def)
  then have a: "io_slot ?a = slot" "req_ok (io_req ?a)" using assms(4) [of "ioreq ?p i"] by simp_all
  obtain bc bc' where s: "bctx ?p = Some bc" "disk_submit op bc ((req_store ?p)(i := io_req ?a)) i = Inr (0, bc')"
    "port_inv (books_with i ?a slot rest bc' ?p)"
    using flight_inv [OF assms(1-3) i a, of op] by blast
  have st: "req_store (the_port n ?io2) = (req_store ?p)(i := io_req ?a)" "bctx (the_port n ?io2) = Some bc"
    using s(1) by (auto simp: req_store_def in_flight_def upd_ioreq_def)
  let ?io3 = "upd_port n (\<lambda>p. p\<lparr>bctx := Some bc'\<rparr>) ?io2"
  have run: "take_ioreq n io = Inr (i, ?io1)" "submit_req (disk_submit op) n i ?io2 = Inr ?io3"
    using i s(2) st by (simp_all add: take_ioreq_def submit_req_def assertE_def)
  have b: "books (the_port n ?io3) = books (books_with i ?a slot rest bc' ?p)"
    by (simp add: books_def books_with_def in_flight_def upd_ioreq_def)
  have "port_inv (the_port n ?io3)" using s(3) books_inv [OF b] by blast
  moreover have "pending (the_port n ?io3) = pending ?p OR slot_bit slot" "iobhd (the_port n ?io3) = i # iobhd ?p"
    by (simp_all add: in_flight_def upd_ioreq_def)
  ultimately show ?thesis using run by blast
qed

section \<open>A port with a disk\<close>

lemma opened_inv:
  assumes "blockif_open True base = Some bc" "bctx p = Some bc" "pending p = 0" "pci_ahci_ioreq_init p = Inr p'"
  shows "port_inv p'"
proof -
  have ok: "req_ok (io_req zero_ioreq)" by (simp add: zero_ioreq_def req_ok_def)
  have d: "disk_ready bc (\<lambda>_. io_req zero_ioreq)" "queued bc = {#}"
    using opened_ready(1,2) [of base "disk_at bc (\<lambda>_. io_req zero_ioreq)"] assms(1) ok by (simp_all add: disk_ready_def)
  have "blockif_queuesz bc = Inr 71"
    using disk_ready_parts(3) [OF d(1)] by (simp add: blockif_queuesz_def checked_def bind_assertE BLOCKIF_MAXREQ_def BLOCKIF_NUMTHR_def)
  then have p': "p' = p\<lparr>ioqsz := 71, ioreq := (\<lambda>_. zero_ioreq), iofhd := [0..<71], iobhd := []\<rparr>"
    using assms(2,4) by (simp add: pci_ahci_ioreq_init_def)
  have "req_store p' = (\<lambda>_. io_req zero_ioreq)" by (simp add: p' req_store_def)
  then show ?thesis
    using d assms(2,3) by (simp add: port_inv_def p' BLOCKIF_MAXREQ_def BLOCKIF_NUMTHR_def atLeast0LessThan)
qed

definition wit_disk :: ahci_port where
  "wit_disk = wit_port\<lparr>bctx := blockif_open True 0, ioqsz := 71, iofhd := [0..<71]\<rparr>"

lemma wit_disk_inv: "port_inv wit_disk" "pr_sc wit_disk" "pending wit_disk = 0"
proof -
  obtain bc :: "nat blockif_ctxt" where bc: "blockif_open True 0 = Some bc" by (auto simp: blockif_open_def)
  have "blockif_queuesz bc = Inr 71"
    using bc by (auto simp: blockif_open_def blockif_queuesz_def checked_def BLOCKIF_MAXREQ_def BLOCKIF_NUMTHR_def)
  then have "pci_ahci_ioreq_init (wit_port\<lparr>bctx := Some bc\<rparr>) = Inr wit_disk"
    by (simp add: pci_ahci_ioreq_init_def wit_disk_def bc wit_port_def zero_port_def)
  then show "port_inv wit_disk"
    using opened_inv [OF bc, of "wit_port\<lparr>bctx := Some bc\<rparr>" wit_disk] by (simp add: wit_port_def zero_port_def)
  show "pr_sc wit_disk" "pending wit_disk = 0" by (simp_all add: wit_disk_def wit_port_def zero_port_def)
qed

theorem stop_cancels_all_witness:
  "\<exists>io'. pci_ahci_write False (\<lambda>_. 0) 5 (port_offset 2 AHCI_P_CMD) (ucast (0x10 :: u32)) (wit_hba wit_disk 0) = Inr io' \<and>
     all_idle (the_port 2 io')"
  using stop_cancels_all [of 2 "wit_hba wit_disk 0" "0x10" False "\<lambda>_. 0"] wit_disk_inv wit_hba_sel(3) [of wit_disk 0]
  unfolding wit_hba_sel(1,2) by auto

theorem request_slots_suffice_witness:
  "\<exists>i io1 io2. take_ioreq 2 (wit_hba wit_disk 0) = Inr (i, io1) \<and>
    submit_req (disk_submit BOP_FLUSH) 2 i (in_flight 2 7 i (upd_ioreq 2 i (\<lambda>a. a\<lparr>io_slot := 7, io_len := 0\<rparr>) io1)) = Inr io2"
  using request_slots_suffice [of 2 "wit_hba wit_disk 0" 7 "\<lambda>a. a\<lparr>io_slot := 7, io_len := 0\<rparr>" BOP_FLUSH] wit_disk_inv
  unfolding wit_hba_sel(1) by simp blast

end
