(* ===== verification/Emul_Link.thy ===== *)
theory Emul_Link
  imports Prelude
begin

text \<open>
  The requests the device model serves and the tables of emulated windows
  (\<open>src/emul.h\<close>, \<open>src/device-model.h\<close>). A request comes from the driver of the
  exception window (\<open>epw\<close>), which is not part of this repository; the record has
  the fields of \<open>struct epw_request\<close> that the code uses.
\<close>

section \<open>Requests\<close>

record epw_request =
  rq_addr :: u64
  rq_is_write :: bool
  rq_data :: bytes
  rq_data_len :: nat
  rq_flit_size :: nat
  rq_byte_enable :: nat
  rq_burst_count :: nat

definition EPW_BASE :: u64 where "EPW_BASE = 0xff7ff00000"
definition EPW_WINDOW :: u64 where "EPW_WINDOW = 0xfdb00000"

text \<open>
  The value of a write: the \<open>switch\<close> on \<open>data_len\<close> that loads it in the order of
  the host, \<open>None\<close> where \<open>val\<close> keeps what was on the stack.
\<close>

definition rq_val :: "epw_request \<Rightarrow> u64 option" where
  "rq_val req =
     (if rq_data_len req = 8 then Some (load64 (rq_data req) 0)
      else if rq_data_len req = 4 then Some (ucast (load32 (rq_data req) 0))
      else if rq_data_len req = 2 then Some (ucast (load16 (rq_data req) 0))
      else if rq_data_len req = 1 then Some (ucast (rq_data req 0))
      else None)"

section \<open>Emulated windows\<close>

datatype emul_device_type = MSGDMA_CSR | MSGDMA_PF | MSGDMA_IOMMU | PCI_GENERIC

text \<open>The function and the argument of a link: which device of which kind it serves.\<close>

datatype emul_target = Emul_msgdma nat | Emul_pci | Emul_iommu nat

record emul_link =
  el_base :: u64
  el_size :: u32
  el_target :: emul_target
  el_type :: emul_device_type

definition emul_offset :: "emul_link \<Rightarrow> epw_request \<Rightarrow> u64" where
  "emul_offset el req = rq_addr req - el_base el - EPW_WINDOW"

end
