(* ===== verification/Emul_Pci.thy ===== *)
theory Emul_Pci
  imports Emul_Link Pci_Emul
begin

text \<open>
  The PCI window (\<open>src/emul_pci.c\<close>): a request is an access to a memory range of the
  bus if one covers it, else an access to configuration space. The handlers of the
  ranges are those of \<open>bhyve/pci_emul.c\<close>, called through \<open>bhyve/mem.c\<close>.
\<close>

section \<open>The handlers\<close>

text \<open>What a range's handler pointer does with its arguments.\<close>

definition pci_mem_call ::
    "'a world_emu list \<Rightarrow> (range_name, range_handler, 'a pci_world_scheme) mem_call" where
  "pci_mem_call devs h dir addr sz ms vs =
     (let w = (snd vs)\<lparr>w_mem := ms\<rparr> in
      case h of
        Null_handler \<Rightarrow> Inl Null_deref
      | Pci_emul_ecfg_handler \<Rightarrow>
          bindE (pci_emul_ecfg_handler devs dir addr sz (fst vs) w) (\<lambda>(err, val, w).
          Inr (err, w_mem w, val, w))
      | Pci_emul_mem_handler b idx \<Rightarrow>
          (case get_devi w b of
             None \<Rightarrow> Inl Null_deref
           | Some pi \<Rightarrow>
               (case pci_emul_finddev devs (pi_devemu pi) of
                  None \<Rightarrow> Inl Null_deref
                | Some pe \<Rightarrow>
                    bindE (pci_emul_mem_handler pe dir addr sz (fst vs) idx (pi, w)) (\<lambda>(err, val, pi, w).
                    Inr (err, w_mem w, val, put_devi b (Some pi) w)))))"

definition bus_access ::
    "'a world_emu list \<Rightarrow> u64 \<Rightarrow> bool \<Rightarrow> nat \<Rightarrow> u64 \<Rightarrow> 'a pci_world_scheme
     \<Rightarrow> (int \<times> u64 \<times> 'a pci_world_scheme) res" where
  "bus_access devs addr wr width val w =
     bindE (emulate_mem (pci_mem_call devs) (w_mem w) w addr wr width val) (\<lambda>(err, ms, val, w).
     Inr (err, val, w\<lparr>w_mem := ms\<rparr>))"

section \<open>Memory accesses\<close>

text \<open>
  The value of a write: the bytes of the request in the guest's order, swapped.
  \<open>junk\<close> is what the stack holds where the code does not initialise it; \<open>kassert\<close>
  says whether the kernel is built with assertions.
\<close>

definition swapped_val :: "u64 \<Rightarrow> epw_request \<Rightarrow> u64" where
  "swapped_val junk req =
     (if rq_data_len req = 8 then le64 (rq_data req) 0
      else if rq_data_len req = 4 then ucast (le32 (rq_data req) 0)
      else if rq_data_len req = 2 then ucast (le16 (rq_data req) 0)
      else if rq_data_len req = 1 then ucast (rq_data req 0)
      else junk)"

text \<open>
  The reply to a read: the low bytes of the value, lowest first, up to the end of
  the eight-byte flit less the offset in it. A negative index is out of bounds.
\<close>

definition put_flit :: "nat \<Rightarrow> nat \<Rightarrow> u64 \<Rightarrow> bytes \<Rightarrow> bytes" where
  "put_flit at bytes val m =
     (\<lambda>a. if at \<le> a \<and> a < at + bytes then ucast (drop_bit (8 * (a - at)) val) else m a)"

definition emul_mem ::
    "bool \<Rightarrow> 'a world_emu list \<Rightarrow> u64 \<Rightarrow> u64 \<Rightarrow> epw_request \<times> 'a pci_world_scheme
     \<Rightarrow> (int \<times> epw_request \<times> 'a pci_world_scheme) res" where
  "emul_mem kassert devs junk offset s =
     (let (req, w) = s in
      if rq_is_write req then
        (if kassert \<and> 8 \<le> rq_data_len req then Inl Panic
         else
           bindE (bus_access devs (rq_addr req) True (rq_flit_size req) (swapped_val junk req) w) (\<lambda>(err, val, w).
           Inr (err, req, w)))
      else
        (let bytes = rq_data_len req; fill = bytes + unat (offset mod 8) in
         bindE (bus_access devs (rq_addr req) False (rq_flit_size req) junk w) (\<lambda>(err, val, w).
         if err \<noteq> 0 then Inr (err, req, w)
         else if 0 < bytes \<and> 8 < fill then Inl Out_of_bounds
         else Inr (err, req\<lparr>rq_data := put_flit (8 - fill) bytes val (rq_data req)\<rparr>, w))))"

section \<open>Configuration accesses\<close>

text \<open>The first four bytes of \<open>val8\<close>, of which a write fills the last ones.\<close>

definition cfg_cell :: "u32 \<Rightarrow> nat \<Rightarrow> bytes \<Rightarrow> u32" where
  "cfg_cell junk bytes m =
     (let b = (\<lambda>i. if 4 - bytes \<le> i then m (i - (4 - bytes)) else ucast (drop_bit (8 * (3 - i)) junk))
      in load32 b 0)"

definition put_cfg :: "nat \<Rightarrow> nat \<Rightarrow> u32 \<Rightarrow> bytes \<Rightarrow> bytes" where
  "put_cfg at bytes val m =
     (\<lambda>a. if at \<le> a \<and> a < at + bytes then ucast (drop_bit (8 * (at + bytes - 1 - a)) val) else m a)"

definition emul_pci ::
    "bool \<Rightarrow> 'a world_emu list \<Rightarrow> u64 \<Rightarrow> emul_link \<Rightarrow> epw_request \<times> 'a pci_world_scheme
     \<Rightarrow> (epw_request \<times> 'a pci_world_scheme) res" where
  "emul_pci kassert devs junk el s =
     (let offset = emul_offset el (fst s) in
      if kassert \<and> el_type el \<noteq> PCI_GENERIC then Inl Panic
      else
        bindE (emul_mem kassert devs junk offset s) (\<lambda>(err, req, w).
        if err = 0 then Inr (req, w)
        else
          (let coff = unat (offset AND 0xfff);
               b = (unat (drop_bit 20 offset AND 0xff), unat (drop_bit 15 offset AND 0x1f),
                    unat (drop_bit 12 offset AND 0x7))
           in
           if rq_is_write req then
             (let bytes = rq_data_len req in
              if 4 < bytes then Inl Out_of_bounds
              else
                bindE (bhyve_pci_cfgrw devs False b coff bytes (cfg_cell (ucast junk) bytes (rq_data req)) w)
                  (\<lambda>(val, w). Inr (req, w)))
           else
             (let req = req\<lparr>rq_data := (\<lambda>a. if a < 32 then 0 else rq_data req a)\<rparr>;
                  bytes = rq_flit_size req;
                  len = bytes + unat (offset mod 8)
              in
              bindE (bhyve_pci_cfgrw devs True b coff bytes (ucast junk) w) (\<lambda>(val, w).
              if 4 < bytes \<or> 8 < len then Inl Out_of_bounds
              else Inr (req\<lparr>rq_data := put_cfg (8 - len) bytes val (rq_data req)\<rparr>, w))))))"

definition emul_pci_init :: "bool \<Rightarrow> 'a world_emu list \<Rightarrow> u32 \<Rightarrow> 'a pci_world_scheme
    \<Rightarrow> (int \<times> 'a pci_world_scheme) res" where
  "emul_pci_init malloced devs junk w =
     (if \<not> malloced then Inr (-1, w)
      else
        bindE (bhyve_pci_init devs w) (\<lambda>(_, w).
        bindE (bhyve_pci_cfgrw devs True (0, 0, 0) 0 2 junk w) (\<lambda>(val, w).
        bindE (bhyve_pci_cfgrw devs True (0, 1, 0) 0 2 val w) (\<lambda>(val, w).
        Inr (0, w)))))"

end
