(* ===== verification/E1000_Bus.thy ===== *)
theory E1000_Bus
  imports E1000_Device Emul_Pci
begin

text \<open>
  From the address to the register: an access of the bus that falls into the
  card's register BAR, through the memory ranges, the BAR handler and the card.
\<close>

section \<open>A decoded card\<close>

lemma emulate_mem_hit:
  assumes "mem_inv ms" "range_at ms a = Some r"
  shows "emulate_mem call ms s a wr width val =
    call (mr_handler r) (if wr then MEM_F_WRITE else MEM_F_READ) a width
      (ms\<lparr>mmio_hint := Some (new_range r)\<rparr>) (val, s)"
  using access_entry_hit [OF assms]
  by (auto simp: emulate_mem_def access_memory_def emulate_mem_cb_def)

lemma mem_inv_hint:
  assumes "mem_inv ms" "range_at ms a = Some r"
  shows "mem_inv (ms\<lparr>mmio_hint := Some (new_range r)\<rparr>)"
  using access_entry_hit [OF assms] by auto

text \<open>
  The instance of the card at \<open>b\<close>, with the card's state, when its register
  BAR is in the table of memory ranges.
\<close>

definition card_at ::
    "('f, 'a) e1000_world_scheme pci_devemu list \<Rightarrow> bool \<Rightarrow> bdf \<Rightarrow> pci_devinst \<Rightarrow> e82545_softc
     \<Rightarrow> ('f, 'a) e1000_world_scheme \<Rightarrow> bool" where
  "card_at devs iommu b pi sc w \<longleftrightarrow>
     pci_emul_finddev devs ''e1000'' = Some (pci_de_e82545 iommu) \<and>
     get_devi w b = Some pi \<and> pi_bdf pi = b \<and> pi_devemu pi = ''e1000'' \<and> w_e1000 w = Some sc \<and>
     free_mutex (esc_mtx (intr_part sc)) \<and> mem_inv (w_mem w) \<and>
     bar_type (pi_bar pi 0) = PCIBAR_MEM32 \<and> bar_size (pi_bar pi 0) = E82545_BAR_REGISTER_LEN \<and>
     unat (bar_addr (pi_bar pi 0)) < 2 ^ 32 \<and> 8 dvd unat (bar_addr (pi_bar pi 0)) \<and>
     (\<forall>a. covers (bar_range pi 0) a \<longrightarrow> range_at (w_mem w) a = Some (bar_range pi 0))"

lemma get_devi_upd [simp]:
  "get_devi (w\<lparr>w_mem := m\<rparr>) b = get_devi w b" "get_devi (w\<lparr>w_pic := p\<rparr>) b = get_devi w b"
  by (cases b; simp add: get_devi_def get_func_def)+

lemma get_devi_card [simp]: "get_devi (w\<lparr>w_e1000 := c\<rparr>) b = get_devi w b"
  by (cases b) (simp add: get_devi_def get_func_def)

lemma at_devi_sel [simp]:
  "esc_mtx (intr_part (at_devi pi pic sc)) = esc_mtx (intr_part sc)"
  "esc_pi (intr_part (at_devi pi pic sc)) = pi" "esc_pic (intr_part (at_devi pi pic sc)) = pic"
  by (simp_all add: at_devi_def)

lemma at_devi_same: "esc_pi (intr_part sc) = pi \<Longrightarrow> esc_pic (intr_part sc) = pic \<Longrightarrow> at_devi pi pic sc = sc"
  by (auto simp: at_devi_def)

lemma card_at_offset:
  assumes "card_at devs iommu b pi sc w" "unat off + 4 \<le> 0x20000"
  defines "a \<equiv> bar_addr (pi_bar pi 0) + off"
  shows "range_at (w_mem w) a = Some (bar_range pi 0)"
    and "a \<ge> bar_addr (pi_bar pi 0) \<and> a + 4 \<le> bar_addr (pi_bar pi 0) + bar_size (pi_bar pi 0)"
    and "a - bar_addr (pi_bar pi 0) = off"
proof -
  have u: "unat (bar_addr (pi_bar pi 0)) < 2 ^ 32" "bar_size (pi_bar pi 0) = 0x20000"
    using assms(1) by (simp_all add: card_at_def)
  have n: "unat (bar_addr (pi_bar pi 0) + off) = unat (bar_addr (pi_bar pi 0)) + unat off"
    using u(1) assms(2) by (subst unat_add_64) simp_all
  have n4: "unat (bar_addr (pi_bar pi 0) + off + 4) = unat (bar_addr (pi_bar pi 0)) + unat off + 4"
    using u(1) assms(2) n by (subst unat_add_64) simp_all
  have e: "unat (bar_addr (pi_bar pi 0) + 0x20000) = unat (bar_addr (pi_bar pi 0)) + 0x20000"
    using u(1) by (subst unat_add_64) simp_all
  show b: "a \<ge> bar_addr (pi_bar pi 0) \<and> a + 4 \<le> bar_addr (pi_bar pi 0) + bar_size (pi_bar pi 0)"
    unfolding a_def u(2) word_le_nat_alt n n4 e using assms(2) by simp
  have "unat (bar_addr (pi_bar pi 0) + 0x20000 - 1) = unat (bar_addr (pi_bar pi 0)) + 0x20000 - 1"
    using e u(1) by (subst unat_sub_if') (simp add: word_le_nat_alt)
  then have "covers (bar_range pi 0) a"
    unfolding a_def covers_def bar_range_def word_le_nat_alt n using assms(2) n by (simp add: u(2))
  then show "range_at (w_mem w) a = Some (bar_range pi 0)" using assms(1) by (simp add: card_at_def)
  show "a - bar_addr (pi_bar pi 0) = off" by (simp add: a_def)
qed

lemma bar_range_sel [simp]: "mr_handler (bar_range pi i) = Pci_emul_mem_handler (pi_bdf pi) i"
  by (simp add: bar_range_def)

lemma put_devi_mem: "w_mem w = m \<Longrightarrow> put_devi b pi w\<lparr>w_mem := m\<rparr> = put_devi b pi w"
  using pci_world.surjective [of "put_devi b pi w"] by simp

lemma bus_access_card:
  assumes "card_at devs iommu b pi sc w" "unat off + 4 \<le> 0x20000"
  shows "bus_access devs (bar_addr (pi_bar pi 0) + off) wr 4 val w =
    bindE (if wr then bindE (e82545_write iommu 0 off 4 val (at_devi pi (w_pic w) sc)) (\<lambda>sc. Inr (val, sc))
           else e82545_read 0 off 4 (at_devi pi (w_pic w) sc)) (\<lambda>(val, sc).
      let (pi', w') = e1000_leave sc (w\<lparr>w_mem := (w_mem w)\<lparr>mmio_hint := Some (new_range (bar_range pi 0))\<rparr>\<rparr>)
      in Inr (0, val, put_devi b (Some pi') w'))"
proof -
  note c = assms(1) [unfolded card_at_def]
  have z: "MEM_F_READ \<noteq> MEM_F_WRITE" by (simp add: MEM_F_READ_def MEM_F_WRITE_def)
  have hit: "emulate_mem (pci_mem_call devs) (w_mem w) w (bar_addr (pi_bar pi 0) + off) wr 4 val =
      pci_mem_call devs (Pci_emul_mem_handler b 0) (if wr then MEM_F_WRITE else MEM_F_READ)
        (bar_addr (pi_bar pi 0) + off) 4 ((w_mem w)\<lparr>mmio_hint := Some (new_range (bar_range pi 0))\<rparr>) (val, w)" for wr
    using c card_at_offset [OF assms] by (simp add: emulate_mem_hit)
  show ?thesis
  proof (cases wr)
    case True
    then show ?thesis
      using c card_at_offset [OF assms]
      by (cases "e82545_write iommu 0 off 4 val (at_devi pi (w_pic w) sc)")
        (simp_all add: bus_access_def hit pci_mem_call_def pci_emul_mem_handler_def pci_de_e82545_def
          e1000_barwrite_def bind_assertE Let_def e1000_leave_def put_devi_mem)
  next
    case False
    then show ?thesis
      using c card_at_offset [OF assms]
      by (cases "e82545_read 0 off 4 (at_devi pi (w_pic w) sc)")
        (auto simp add: bus_access_def hit pci_mem_call_def pci_emul_mem_handler_def pci_de_e82545_def
          e1000_barread_def bind_assertE z Let_def e1000_leave_def put_devi_mem)
  qed
qed

section \<open>Registers through the bus\<close>

lemma plain_reg_bound: "(reg, m) \<in> set plain_regs \<Longrightarrow> unat reg + 4 \<le> 0x20000 \<and> 4 dvd unat reg"
  by (auto simp: plain_regs_def)

lemma card_write_read:
  assumes "(reg, m) \<in> set plain_regs" "free_mutex (esc_mtx (intr_part sc))"
  shows "\<exists>sc'. e82545_write iommu 0 (ucast reg) 4 val sc = Inr sc' \<and>
    e82545_read 0 (ucast reg) 4 sc' = Inr (ucast (ucast val AND m), sc') \<and>
    esc_pi (intr_part sc') = esc_pi (intr_part sc) \<and> esc_pic (intr_part sc') = esc_pic (intr_part sc) \<and>
    free_mutex (esc_mtx (intr_part sc'))"
proof -
  define mtx where "mtx k sc = sc\<lparr>intr_part := (intr_part sc)\<lparr>esc_mtx := \<lparr>mtx_lock = k\<rparr>\<rparr>\<rparr>" for k and sc :: e82545_softc
  have free: "esc_mtx (intr_part sc) = \<lparr>mtx_lock = 0\<rparr>"
    using assms(2) by (simp add: free_mutex_def)
  have lck: "on_intr esc_lock s = Inr (mtx 1 s)" if "esc_mtx (intr_part s) = \<lparr>mtx_lock = 0\<rparr>" for s
    using that by (simp add: on_intr_def esc_lock_def pthread_mutex_lock_def mtx_def)
  have unlck: "on_intr esc_unlock s = Inr (mtx 0 s)" if "esc_mtx (intr_part s) = \<lparr>mtx_lock = 1\<rparr>" for s
    using that by (simp add: on_intr_def esc_unlock_def pthread_mutex_unlock_def mtx_def)
  have r: "ucast (ucast reg :: u64) = reg" by (rule bit_word_eqI) (simp add: bit_simps)
  obtain s where s: "e82545_write_register iommu reg (ucast val) (mtx 1 sc) = Inr s"
    "e82545_read_register reg s = Inr (ucast val AND m, s)"
    "esc_mtx (intr_part s) = \<lparr>mtx_lock = 1\<rparr>"
    "esc_pi (intr_part s) = esc_pi (intr_part sc)" "esc_pic (intr_part s) = esc_pic (intr_part sc)"
    using plain_register_stores [OF assms(1), of iommu "ucast val" "mtx 1 sc"]
    by (auto simp: stores_def mtx_def)
  have w: "e82545_write iommu 0 (ucast reg) 4 val sc = Inr (mtx 0 s)"
    by (simp add: e82545_write_def lck free r s unlck)
  have relock: "mtx 1 (mtx 0 s) = s" using s(3) by (simp add: mtx_def)
  have mtx0: "esc_mtx (intr_part (mtx 0 s)) = \<lparr>mtx_lock = 0\<rparr>" by (simp add: mtx_def)
  have "e82545_read 0 (ucast reg) 4 (mtx 0 s) = Inr (ucast (ucast val AND m), mtx 0 s)"
    using lck [of "mtx 0 s"] mtx0 by (simp add: e82545_read_def relock r s unlck)
  then show ?thesis using w s by (auto simp: mtx_def free_mutex_def)
qed

text \<open>An access changes the hint of the table and the card, and nothing else.\<close>

definition with_card :: "pci_devinst \<Rightarrow> e82545_softc \<Rightarrow> ('f, 'a) e1000_world_scheme \<Rightarrow> ('f, 'a) e1000_world_scheme" where
  "with_card pi sc w =
     w\<lparr>w_mem := (w_mem w)\<lparr>mmio_hint := Some (new_range (bar_range pi 0))\<rparr>, w_e1000 := Some sc\<rparr>"

lemma card_at_with:
  assumes "card_at devs iommu b pi sc w" "free_mutex (esc_mtx (intr_part sc'))"
  shows "card_at devs iommu b pi sc' (with_card pi sc' w)"
  using assms card_at_offset(1) [OF assms(1), of 0] mem_inv_hint [of "w_mem w" "bar_addr (pi_bar pi 0)"]
  by (auto simp: card_at_def with_card_def range_at_hint)

lemma leave_with:
  assumes "get_devi w b = Some pi" "esc_pi (intr_part sc) = pi" "esc_pic (intr_part sc) = w_pic w"
  shows "(let (pi', w') = e1000_leave sc (w\<lparr>w_mem := (w_mem w)\<lparr>mmio_hint := Some (new_range (bar_range pi 0))\<rparr>\<rparr>)
    in Inr (0, val, put_devi b (Some pi') w')) = Inr (0, val, with_card pi sc w)"
  using assms by (simp add: e1000_leave_def put_same_devi with_card_def)

lemma bus_register:
  assumes "card_at devs iommu b pi sc w" "(reg, m) \<in> set plain_regs"
  defines "a \<equiv> bar_addr (pi_bar pi 0) + ucast reg"
  shows "\<exists>w' sc'. card_at devs iommu b pi sc' w' \<and> bus_access devs a True 4 val w = Inr (0, val, w') \<and>
    bus_access devs a False 4 junk w' = Inr (0, ucast (ucast val AND m), w')"
proof -
  have off: "unat (ucast reg :: u64) + 4 \<le> 0x20000"
    using plain_reg_bound [OF assms(2)] by (simp add: unsigned_ucast_eq take_bit_nat_eq_self)
  have g: "get_devi w b = Some pi" and free: "free_mutex (esc_mtx (intr_part sc))"
    using assms(1) by (simp_all add: card_at_def)
  obtain sc' where sc': "e82545_write iommu 0 (ucast reg) 4 val (at_devi pi (w_pic w) sc) = Inr sc'"
    "e82545_read 0 (ucast reg) 4 sc' = Inr (ucast (ucast val AND m), sc')"
    "esc_pi (intr_part sc') = pi" "esc_pic (intr_part sc') = w_pic w" "free_mutex (esc_mtx (intr_part sc'))"
    using card_write_read [OF assms(2), of "at_devi pi (w_pic w) sc" iommu val] free by auto
  let ?w = "with_card pi sc' w"
  have at: "card_at devs iommu b pi sc' ?w" using card_at_with [OF assms(1) sc'(5)] .
  have w: "bus_access devs a True 4 val w = Inr (0, val, ?w)"
    unfolding a_def bus_access_card [OF assms(1) off] using sc' leave_with [OF g] by simp
  have pic: "w_pic ?w = w_pic w" "get_devi ?w b = Some pi" "with_card pi sc' ?w = ?w"
    using g by (simp_all add: with_card_def)
  have "bus_access devs a False 4 junk ?w = Inr (0, ucast (ucast val AND m), ?w)"
    unfolding a_def bus_access_card [OF at off] pic(1) at_devi_same [OF sc'(3,4)]
    using leave_with [OF pic(2) sc'(3) sc'(4) [folded pic(1)], of "ucast (ucast val AND m)"]
    by (simp only: sc'(2) if_False bindE.simps prod.case pic(3))
  then show ?thesis using at w by blast
qed

section \<open>Initialisation\<close>

text \<open>A bus before its devices are created.\<close>

definition fresh_pci :: "('f, 'a) e1000_world_scheme \<Rightarrow> bool" where
  "fresh_pci w \<longleftrightarrow>
     (\<exists>bi. pci_businfo w 0 = Some bi \<and> si_intpins (bi_slots bi 0) = (\<lambda>_. \<lparr>ii_count = 0, ii_pirq_pin = 0, ii_ioapic_irq = 0\<rparr>)) \<and>
     w_cursors w = \<lparr>pci_emul_iobase = 0x2000, pci_emul_membase32 = 0xfdb10000,
                    pci_emul_membase64 = PCI_EMUL_MEMBASE64\<rparr> \<and>
     w_mem w = \<lparr>mmio_rb_root = [], mmio_rb_fallback = [], mmio_hint = None, malloc_ok = True\<rparr> \<and>
     \<not> line_level 19 (w_pic w) False"

definition reg_range :: "bdf \<Rightarrow> pci_range" where
  "reg_range b = \<lparr>mr_name = PiName b, mr_flags = MEM_F_RW, mr_handler = Pci_emul_mem_handler b 0,
     mr_rbase = 0xfdb20000, mr_rsize = 0x20000\<rparr>"

definition flash_range :: "bdf \<Rightarrow> pci_range" where
  "flash_range b = \<lparr>mr_name = PiName b, mr_flags = MEM_F_RW, mr_handler = Pci_emul_mem_handler b 1,
     mr_rbase = 0xfdb40000, mr_rsize = 0x10000\<rparr>"

definition card_bars :: "pci_devinst \<Rightarrow> pci_devinst" where
  "card_bars pi = pi\<lparr>
     pi_bar := (pi_bar pi)(0 := \<lparr>bar_type = PCIBAR_MEM32, bar_size = 0x20000, bar_addr = 0xfdb20000\<rparr>,
       1 := \<lparr>bar_type = PCIBAR_MEM32, bar_size = 0x10000, bar_addr = 0xfdb40000\<rparr>,
       2 := \<lparr>bar_type = PCIBAR_IO, bar_size = 8, bar_addr = 0x2000\<rparr>),
     pi_cfgdata := store32 (store32 (store32 (pi_cfgdata pi) 0x10 0xfdb20000) 0x14 0xfdb40000) 0x18 0x2001\<rparr>"

lemma bars_eq:
  assumes "w_cursors w = \<lparr>pci_emul_iobase = 0x2000, pci_emul_membase32 = 0xfdb10000, pci_emul_membase64 = PCI_EMUL_MEMBASE64\<rparr>"
    "w_mem w = \<lparr>mmio_rb_root = [], mmio_rb_fallback = [], mmio_hint = None, malloc_ok = True\<rparr>"
  shows "e82545_bars (pi, w) = Inr (card_bars pi,
    w\<lparr>w_cursors := \<lparr>pci_emul_iobase = 0x2008, pci_emul_membase32 = 0xfdb50000, pci_emul_membase64 = PCI_EMUL_MEMBASE64\<rparr>,
      w_mem := \<lparr>mmio_rb_root = [new_range (reg_range (pi_bdf pi)), new_range (flash_range (pi_bdf pi))],
                mmio_rb_fallback = [], mmio_hint = None, malloc_ok = True\<rparr>\<rparr>)"
  using assms
  by (simp add: e82545_bars_def e82545_alloc_bar_def pci_emul_alloc_bar_def pci_emul_alloc_pbar_def bind_assertE
    bar_request_size_def bar_placement_def pci_emul_alloc_resource_def roundup2w_def Let_def get_cursor_def put_cursor_def
    PCI_EMUL_MEMLIMIT32_def PCI_EMUL_ECFG_BASE_def PCI_EMUL_IOLIMIT_def set_bar_def register_bar_def modify_bar_registration_def
    register_mem_def register_mem_int_def mmio_rb_lookup_def mmio_rb_add_def rb_find_def rb_insert_def bar_range_def bar_port_def
    register_inout_def new_range_def extent_def card_bars_def [unfolded One_nat_def] reg_range_def flash_range_def pi_bdf_def)

text \<open>The instance between its creation and its BARs.\<close>

definition the_ids :: "pci_devinst \<Rightarrow> pci_devinst" where
  "the_ids pi = pi\<lparr>pi_cfgdata :=
     (store16 (store16 ((store16 (store16 (pi_cfgdata pi) 2 0x100f) 0 0x8086)(0x0b := 2, 0x0a := 0)) 0x2e 0x1008) 0x2c 0x8086)
       (0x0e := 0, 0x3d := 1)\<rparr>"

lemma ids_eq: "e82545_ids pi = Inr (the_ids pi)"
  by (simp add: e82545_ids_def pci_set_cfgdata8_def bind_assertE the_ids_def)

definition card_pi0 :: pci_devinst where
  "card_pi0 = zero_devinst\<lparr>pi_devemu := ''e1000'', pi_name := ''e1000-pci-0'',
     pi_cfgdata := (\<lambda>_. 0)(0x3c := 255, 0x3d := 0, 4 := 7)\<rparr>"

definition card_pi :: pci_devinst where
  "card_pi = zero_devinst\<lparr>pi_devemu := ''e1000'', pi_name := ''e1000-pci-0'',
     lintr := (lintr zero_devinst)\<lparr>lintr_pin := 1\<rparr>,
     pi_cfgdata := (store16 (store16 ((store16 (store16 ((\<lambda>_. 0)(0x3c := 255, 0x3d := 0, 4 := 7)) 2 0x100f) 0 0x8086)
        (0x0b := 2, 0x0a := 0)) 0x2e 0x1008) 0x2c 0x8086)(0x0e := 0, 0x3d := 1)\<rparr>"

lemma card_pi_eq:
  "card_pi = (the_ids card_pi0)\<lparr>lintr := (lintr (the_ids card_pi0))\<lparr>lintr_pin := 1\<rparr>,
     pi_cfgdata := (pi_cfgdata (the_ids card_pi0))(0x3d := 1)\<rparr>"
  by (simp add: card_pi_def the_ids_def card_pi0_def)

lemma lintr_fresh:
  assumes "pci_businfo w 0 = Some bi"
    "si_intpins (bi_slots bi 0) = (\<lambda>_. \<lparr>ii_count = 0, ii_pirq_pin = 0, ii_ioapic_irq = 0\<rparr>)"
    "pi_bus pi = 0" "pi_slot pi = 0"
  shows "pci_lintr_request (pi, w) =
    Inr (pi\<lparr>lintr := (lintr pi)\<lparr>lintr_pin := 1\<rparr>, pi_cfgdata := (pi_cfgdata pi)(0x3d := 1)\<rparr>,
      map_slot 0 0 (set_count 0 (\<lambda>ii. ii\<lparr>ii_count := ii_count ii + 1\<rparr>)) w)"
  using assms by (simp add: pci_lintr_request_def pci_set_cfgdata8_def bind_assertE least_used_pin_def)

lemma decimal_0: "decimal 0 = ''0''"
  by code_simp

lemma pci_emul_init_start:
  "pci_emul_init (pci_de_e82545 iommu) (0, 0, 0) param w =
     bindE (pe_init (pci_de_e82545 iommu) param (card_pi0, w)) (\<lambda>(err, pdi, w).
     Inr (err, if err = 0 then put_devi (0, 0, 0) (Some pdi) w else w))"
proof -
  have "zero_devinst\<lparr>pi_bus := 0, pi_slot := 0, pi_func := 0,
      lintr := (lintr zero_devinst)\<lparr>lintr_lock := pthread_mutex_init (lintr_lock (lintr zero_devinst))\<rparr>,
      pi_devemu := ''e1000'', pi_name := ''e1000-pci-0'', pi_cfgdata := (\<lambda>_. 0)(0x3c := 255, 0x3d := 0, 4 := 7)\<rparr> = card_pi0"
    by (simp add: zero_devinst_def card_pi0_def pthread_mutex_init_def)
  moreover have "pi_cfgdata zero_devinst = (\<lambda>_. 0)" by (simp add: zero_devinst_def)
  ultimately show ?thesis
    by (simp add: pci_emul_init_def pci_set_cfgdata8_def bind_assertE decimal_0 pci_de_e82545_def)
qed

lemma reset_fresh:
  fixes sc :: e82545_softc
  assumes "\<not> esc_tx_active (tx_part sc)" "\<not> esc_rx_active (rx_part sc)" "\<not> esc_irq_asserted (intr_part sc)"
  shows "\<exists>sc'. e82545_reset False sc = Inr sc' \<and> intr_part sc' = reset_intr (intr_part sc) \<and>
    l2_part sc' = reset_l2 False (esc_mac sc) (l2_part sc) \<and> nvm_part sc' = reset_nvm (esc_mac sc) (nvm_part sc) \<and>
    \<not> esc_tx_enabled (tx_part sc') \<and> \<not> esc_rx_enabled (rx_part sc') \<and>
    \<not> esc_tx_active (tx_part sc') \<and> \<not> esc_rx_active (rx_part sc')"
  using assms by (simp add: e82545_reset_def rx_disable_eq tx_disable_eq Let_def reset_rx_def reset_tx_def upd_tx_def upd_rx_def)

lemma card_created:
  assumes "fresh_pci w"
  shows "\<exists>w0 sc. e82545_init param (card_pi0, w) = Inr (0, card_bars card_pi, w0) \<and>
    (\<exists>fi. get_func w0 (0, 0, 0) = Some fi) \<and>
    w_e1000 w0 = Some sc \<and> w_pic w0 = w_pic w \<and>
    w_mem w0 = \<lparr>mmio_rb_root = [new_range (reg_range (0, 0, 0)), new_range (flash_range (0, 0, 0))],
       mmio_rb_fallback = [], mmio_hint = None, malloc_ok = True\<rparr> \<and>
    w_cursors w0 = \<lparr>pci_emul_iobase = 0x2008, pci_emul_membase32 = 0xfdb50000, pci_emul_membase64 = PCI_EMUL_MEMBASE64\<rparr> \<and>
    intr_part sc = reset_intr ((intr_part zero_softc)\<lparr>esc_pi := card_bars card_pi, esc_pic := w_pic w\<rparr>) \<and>
    l2_part sc = reset_l2 False default_mac (l2_part zero_softc) \<and>
    nvm_part sc = reset_nvm default_mac (nvm_part zero_softc) \<and>
    \<not> esc_tx_enabled (tx_part sc) \<and> \<not> esc_rx_enabled (rx_part sc) \<and>
    \<not> esc_tx_active (tx_part sc) \<and> \<not> esc_rx_active (rx_part sc)"
proof -
  obtain bi where bi: "pci_businfo w 0 = Some bi"
    "si_intpins (bi_slots bi 0) = (\<lambda>_. \<lparr>ii_count = 0, ii_pirq_pin = 0, ii_ioapic_irq = 0\<rparr>)"
    using assms by (auto simp: fresh_pci_def)
  define w1 where "w1 = map_slot 0 0 (set_count 0 (\<lambda>ii. ii\<lparr>ii_count := ii_count ii + 1\<rparr>)) w"
  have w1: "w_cursors w1 = w_cursors w" "w_mem w1 = w_mem w" "w_pic w1 = w_pic w"
    by (simp_all add: w1_def map_slot_def)
  have bars: "e82545_bars (card_pi, w1) = Inr (card_bars card_pi,
    w1\<lparr>w_cursors := \<lparr>pci_emul_iobase = 0x2008, pci_emul_membase32 = 0xfdb50000, pci_emul_membase64 = PCI_EMUL_MEMBASE64\<rparr>,
      w_mem := \<lparr>mmio_rb_root = [new_range (reg_range (0, 0, 0)), new_range (flash_range (0, 0, 0))],
                mmio_rb_fallback = [], mmio_hint = None, malloc_ok = True\<rparr>\<rparr>)"
    using bars_eq [of w1 card_pi] assms
    by (simp add: w1 fresh_pci_def card_pi_def pi_bdf_def zero_devinst_def)
  define w2 where "w2 = w1\<lparr>w_cursors := \<lparr>pci_emul_iobase = 0x2008, pci_emul_membase32 = 0xfdb50000, pci_emul_membase64 = PCI_EMUL_MEMBASE64\<rparr>,
      w_mem := \<lparr>mmio_rb_root = [new_range (reg_range (0, 0, 0)), new_range (flash_range (0, 0, 0))],
                mmio_rb_fallback = [], mmio_hint = None, malloc_ok = True\<rparr>\<rparr>"
  let ?sc = "at_devi (card_bars card_pi) (w_pic w2) (zero_softc\<lparr>esc_mac := default_mac\<rparr>)"
  obtain sc where sc: "e82545_reset False ?sc = Inr sc" "intr_part sc = reset_intr (intr_part ?sc)"
    "l2_part sc = reset_l2 False default_mac (l2_part zero_softc)" "nvm_part sc = reset_nvm default_mac (nvm_part zero_softc)"
    "\<not> esc_tx_enabled (tx_part sc)" "\<not> esc_rx_enabled (rx_part sc)"
    "\<not> esc_tx_active (tx_part sc)" "\<not> esc_rx_active (rx_part sc)"
    using reset_fresh [of ?sc] by (auto simp: at_devi_def zero_softc_def)
  have init: "e82545_init param (card_pi0, w) = Inr (0, card_bars card_pi, w2\<lparr>w_e1000 := Some sc\<rparr>)"
  proof -
    have "pci_lintr_request (the_ids card_pi0, w) = Inr (card_pi, w1)"
      unfolding w1_def card_pi_eq
      by (rule lintr_fresh [OF bi]) (simp_all add: card_pi0_def zero_devinst_def the_ids_def)
    moreover have "pthread_mutex_init (esc_mtx (intr_part zero_softc)) = esc_mtx (intr_part zero_softc)"
      by (simp add: pthread_mutex_init_def zero_softc_def)
    moreover have "e1000_leave sc w2 = (card_bars card_pi, w2\<lparr>w_e1000 := Some sc\<rparr>)"
      using sc(2) by (simp add: e1000_leave_def reset_intr_def at_devi_def)
    ultimately show ?thesis
      using bars [folded w2_def] sc(1) by (simp add: e82545_init_def ids_eq Let_def)
  qed
  have "\<exists>fi. get_func (w2\<lparr>w_e1000 := Some sc\<rparr>) (0, 0, 0) = Some fi"
    using bi(1) by (simp add: get_func_def w2_def w1_def map_slot_def)
  then show ?thesis
    using sc init by (intro exI [of _ "w2\<lparr>w_e1000 := Some sc\<rparr>"] exI [of _ sc]) (simp add: w2_def w1 at_devi_def)
qed


lemma card_init_eq:
  assumes "fresh_pci w"
  shows "\<exists>w0 sc. pci_emul_init (pci_de_e82545 iommu) (0, 0, 0) param w =
      Inr (0, put_devi (0, 0, 0) (Some (card_bars card_pi)) w0) \<and>
    (\<exists>fi. get_func w0 (0, 0, 0) = Some fi) \<and>
    w_e1000 w0 = Some sc \<and> w_pic w0 = w_pic w \<and>
    w_mem w0 = \<lparr>mmio_rb_root = [new_range (reg_range (0, 0, 0)), new_range (flash_range (0, 0, 0))],
       mmio_rb_fallback = [], mmio_hint = None, malloc_ok = True\<rparr> \<and>
    w_cursors w0 = \<lparr>pci_emul_iobase = 0x2008, pci_emul_membase32 = 0xfdb50000, pci_emul_membase64 = PCI_EMUL_MEMBASE64\<rparr> \<and>
    intr_part sc = reset_intr ((intr_part zero_softc)\<lparr>esc_pi := card_bars card_pi, esc_pic := w_pic w\<rparr>) \<and>
    l2_part sc = reset_l2 False default_mac (l2_part zero_softc) \<and>
    nvm_part sc = reset_nvm default_mac (nvm_part zero_softc) \<and>
    \<not> esc_tx_enabled (tx_part sc) \<and> \<not> esc_rx_enabled (rx_part sc) \<and>
    \<not> esc_tx_active (tx_part sc) \<and> \<not> esc_rx_active (rx_part sc)"
  using card_created [OF assms, of param] unfolding pci_emul_init_start by (fastforce simp: pci_de_e82545_def)

lemma get_put_func: "get_func w b = Some fi \<Longrightarrow> get_devi (put_devi b (Some pi) w) b = Some pi"
  by (cases b) (auto simp: get_devi_def put_devi_def map_slot_def get_func_def split: bind_splits)

lemma put_devi_card [simp]: "w_e1000 (put_devi b pi w) = w_e1000 w"
  by (cases b) (simp add: put_devi_def map_slot_def)

lemma card_bars_sel:
  "pi_devemu (card_bars card_pi) = ''e1000''" "pi_bdf (card_bars card_pi) = (0, 0, 0)"
  "pi_bar (card_bars card_pi) 0 = \<lparr>bar_type = PCIBAR_MEM32, bar_size = 0x20000, bar_addr = 0xfdb20000\<rparr>"
  "pi_bar (card_bars card_pi) 1 = \<lparr>bar_type = PCIBAR_MEM32, bar_size = 0x10000, bar_addr = 0xfdb40000\<rparr>"
  "pi_bar (card_bars card_pi) 2 = \<lparr>bar_type = PCIBAR_IO, bar_size = 8, bar_addr = 0x2000\<rparr>"
  "pi_irq (card_bars card_pi) = 19" "lintr_pin (lintr (card_bars card_pi)) = 1"
  "lintr_state (lintr (card_bars card_pi)) = IDLE" "lintr_lock (lintr (card_bars card_pi)) = \<lparr>mtx_lock = 0\<rparr>"
  "bar_range (card_bars card_pi) 0 = reg_range (0, 0, 0)"
  by (simp_all add: card_bars_def card_pi_def zero_devinst_def pi_bdf_def pi_irq_def DM_E1000_INTR_def bar_range_def
      reg_range_def)

lemma card_ids: "CFGREAD (card_bars card_pi) 0 2 = Inr 0x8086" "CFGREAD (card_bars card_pi) 2 2 = Inr 0x100f"
  by (simp_all add: CFGREAD_def pci_get_cfgdata16_def bind_assertE card_bars_def card_pi_def load16_def store16_def store32_def
      word_cat_eq)

lemma ranges_inv:
  fixes ms defines "ms \<equiv> \<lparr>mmio_rb_root = [new_range (reg_range (0, 0, 0)), new_range (flash_range (0, 0, 0))],
       mmio_rb_fallback = [], mmio_hint = None, malloc_ok = True\<rparr>"
  shows "mem_inv ms" "covers (reg_range (0, 0, 0)) a \<Longrightarrow> range_at ms a = Some (reg_range (0, 0, 0))"
    "covers (flash_range (0, 0, 0)) a \<Longrightarrow> range_at ms a = Some (flash_range (0, 0, 0))"
proof -
  show "mem_inv ms"
    by (simp add: ms_def mem_inv_def tree_ok_def entry_ok_def proper_range_def new_range_def reg_range_def flash_range_def)
  show "covers (reg_range (0, 0, 0)) a \<Longrightarrow> range_at ms a = Some (reg_range (0, 0, 0))"
    by (simp add: ms_def range_at_def)
  assume f: "covers (flash_range (0, 0, 0)) a"
  then have "\<not> covers (reg_range (0, 0, 0)) a"
    by (auto simp: covers_def reg_range_def flash_range_def word_le_nat_alt)
  then show "range_at ms a = Some (flash_range (0, 0, 0))" using f by (simp add: ms_def range_at_def)
qed

lemma card_at_init:
  assumes "\<exists>fi. get_func w (0, 0, 0) = Some fi" "w_e1000 w = Some sc"
    "w_mem w = \<lparr>mmio_rb_root = [new_range (reg_range (0, 0, 0)), new_range (flash_range (0, 0, 0))],
       mmio_rb_fallback = [], mmio_hint = None, malloc_ok = True\<rparr>"
    "intr_part sc = reset_intr ((intr_part zero_softc)\<lparr>esc_pi := card_bars card_pi, esc_pic := pic\<rparr>)"
  shows "card_at [pci_de_e82545 iommu] iommu (0, 0, 0) (card_bars card_pi) sc
    (put_devi (0, 0, 0) (Some (card_bars card_pi)) w)"
  using assms ranges_inv
  by (auto simp: card_at_def pci_emul_finddev_def pci_de_e82545_def get_put_func card_bars_sel
      reset_intr_def zero_softc_def free_mutex_def)

lemma card_decoded:
  assumes "fresh_pci w"
  shows "\<exists>w' pi sc. pci_emul_init (pci_de_e82545 iommu) (0, 0, 0) param w = Inr (0, w') \<and>
    card_at [pci_de_e82545 iommu] iommu (0, 0, 0) pi sc w' \<and> bar_addr (pi_bar pi 0) = 0xfdb20000"
  using card_init_eq [OF assms, of iommu param] card_at_init [of _ _ "w_pic w" iommu] card_bars_sel(3) by fastforce

text \<open>C31: The card comes up: on a fresh bus its initialisation succeeds and leaves an identified
  device, with its registers decoded at 0xfdb20000, its flash at 0xfdb40000 and its ports at 0x2000, on
  interrupt pin A; an access in the register window reaches the card, whose queues are off, whose
  interrupts are masked with none pending, and whose first receive address holds the station
  address.\<close>

theorem card_initialised:
  assumes "fresh_pci w"
  shows "\<exists>w' pi sc. pci_emul_init (pci_de_e82545 iommu) (0, 0, 0) param w = Inr (0, w') \<and>
    card_at [pci_de_e82545 iommu] iommu (0, 0, 0) pi sc w' \<and>
    CFGREAD pi 0 2 = Inr 0x8086 \<and> CFGREAD pi 2 2 = Inr 0x100f \<and>
    bar_addr (pi_bar pi 0) = 0xfdb20000 \<and> bar_addr (pi_bar pi 1) = 0xfdb40000 \<and>
    bar_addr (pi_bar pi 2) = 0x2000 \<and> lintr_pin (lintr pi) = 1 \<and> pi_irq pi = 19 \<and>
    intr_inv (intr_part sc) \<and> esc_pi (intr_part sc) = pi \<and> esc_ICR (intr_part sc) = 0 \<and> esc_IMS (intr_part sc) = 0 \<and>
    \<not> esc_tx_enabled (tx_part sc) \<and> \<not> esc_rx_enabled (rx_part sc) \<and>
    \<not> esc_tx_active (tx_part sc) \<and> \<not> esc_rx_active (rx_part sc) \<and>
    e82545_read_register 0x5400 sc = Inr (0x63ed0700, sc) \<and>
    e82545_read_register 0x5404 sc = Inr (0x800091e4, sc)"
proof -
  let ?pi = "card_bars card_pi"
  obtain w0 sc where r: "pci_emul_init (pci_de_e82545 iommu) (0, 0, 0) param w = Inr (0, put_devi (0, 0, 0) (Some ?pi) w0)"
    "\<exists>fi. get_func w0 (0, 0, 0) = Some fi" "w_e1000 w0 = Some sc"
    "w_mem w0 = \<lparr>mmio_rb_root = [new_range (reg_range (0, 0, 0)), new_range (flash_range (0, 0, 0))],
       mmio_rb_fallback = [], mmio_hint = None, malloc_ok = True\<rparr>"
    "intr_part sc = reset_intr ((intr_part zero_softc)\<lparr>esc_pi := ?pi, esc_pic := w_pic w\<rparr>)"
    "l2_part sc = reset_l2 False default_mac (l2_part zero_softc)"
    "\<not> esc_tx_enabled (tx_part sc)" "\<not> esc_rx_enabled (rx_part sc)"
    "\<not> esc_tx_active (tx_part sc)" "\<not> esc_rx_active (rx_part sc)"
    using card_init_eq [OF assms, of iommu param] by blast
  have at: "card_at [pci_de_e82545 iommu] iommu (0, 0, 0) ?pi sc (put_devi (0, 0, 0) (Some ?pi) w0)"
    using r by (intro card_at_init) auto
  have inv: "intr_inv (intr_part sc)"
    using assms
    by (simp add: r(5) reset_intr_def zero_softc_def intr_inv_def intr_live_def pin_inv_def lintr_inv_def lintr_ready_def
        card_bars_sel free_mutex_def lintr_wanted_def fresh_pci_def)
  have ra: "e82545_read_register 0x5400 sc = Inr (0x63ed0700, sc)" "e82545_read_register 0x5404 sc = Inr (0x800091e4, sc)"
    by (simp_all add: e82545_read_register_def read_general_def read_rx_def read_tx_def read_tables_def e82545_intr_read_def
        Let_def reg_index_def e82545_read_ra_def bind_assertE r(6) reset_l2_def default_mac_def)
  show ?thesis
    using r at inv ra card_ids
    by (intro exI [of _ "put_devi (0, 0, 0) (Some ?pi) w0"] exI [of _ ?pi] exI [of _ sc])
      (simp add: card_bars_sel card_bars_sel(4) [unfolded One_nat_def] reset_intr_def)
qed


definition wit_bus :: "unit e1000_world" where
  "wit_bus = \<lparr>pci_businfo = (\<lambda>_. None)(0 := Some zero_bus),
     w_cursors = \<lparr>pci_emul_iobase = 0x2000, pci_emul_membase32 = 0xfdb10000, pci_emul_membase64 = PCI_EMUL_MEMBASE64\<rparr>,
     w_mem = \<lparr>mmio_rb_root = [], mmio_rb_fallback = [], mmio_hint = None, malloc_ok = True\<rparr>,
     w_pic = [], w_latch = \<lparr>cfgenable = False, cfgbus = 0, cfgslot = 0, cfgfunc = 0, cfgoff = 0\<rparr>,
     w_e1000 = None, w_ram = (\<lambda>_. 0), w_sent = [], w_fifo = ()\<rparr>"

lemma wit_fresh: "fresh_pci wit_bus"
  by (simp add: fresh_pci_def wit_bus_def zero_bus_def zero_slot_def)

theorem card_initialised_witness:
  "\<exists>w' pi sc. pci_emul_init (pci_de_e82545 False) (0, 0, 0) None wit_bus = Inr (0, w') \<and>
     card_at [pci_de_e82545 False] False (0, 0, 0) pi sc w' \<and> e82545_read_register 0x5400 sc = Inr (0x63ed0700, sc)"
  using card_initialised [OF wit_fresh, of False None] by blast

end
