(* ===== verification/Ahci_Init.thy ===== *)
theory Ahci_Init
  imports Ahci_Inv E1000_Bus
begin

text \<open>
  The controller comes up on the bus: what its initialisation leaves in the registers,
  the configuration space, the memory ranges and the request blocks.
\<close>

section \<open>Ports\<close>

lemma init_ports_inv:
  "open_ports env k p atapi opts (sc, bl, slots) = Inr (ok, p', sc', bl', slots') \<Longrightarrow> hba_inv sc \<Longrightarrow>
   (\<And>q. p \<le> q \<Longrightarrow> port sc q = zero_port) \<Longrightarrow> hba_inv sc'"
proof (induction k arbitrary: p atapi opts sc bl slots)
  case 0
  then show ?case by simp
next
  case (Suc k)
  show ?case
  proof (cases opts)
    case None
    then show ?thesis using Suc.prems by simp
  next
    case (Some o0)
    obtain at1 o1 where t: "port_type atapi o0 = (at1, o1)" by fastforce
    obtain o2 nx where c: "cut_opts o1 = (o2, nx)" by fastforce
    show ?thesis
    proof (cases "o2 = [] \<or> blockif_open (bc_alloc env p) (env_base env) = (None :: nat blockif_ctxt option)")
      case True
      then show ?thesis
        using Suc.IH [of "p + 1" at1 nx sc bl slots] Suc.prems by (auto simp: Some t c split: if_split_asm)
    next
      case False
      then obtain bc :: "nat blockif_ctxt" where bc: "o2 \<noteq> []" "blockif_open (bc_alloc env p) (env_base env) = Some bc" by auto
      then have op: "blockif_open True (env_base env) = Some bc" by (auto simp: blockif_open_def split: if_splits)
      let ?pr0 = "(port sc p)\<lparr>bctx := Some bc, pr_sc := True, p_port := p, p_atapi := at1, p_ident := make_ident (md5 env o2)\<rparr>"
      obtain pr where pr: "pci_ahci_ioreq_init ?pr0 = Inr pr"
        "open_ports env k (p + 1) at1 nx (sc\<lparr>port := (port sc)(p := pr), hregs := (hregs sc)\<lparr>h_pi := h_pi (hregs sc) OR slot_bit p\<rparr>\<rparr>,
           Some (Some p), min slots (ioqsz pr)) = Inr (ok, p', sc', bl', slots')"
        using Suc.prems(1) by (auto simp: Some t c bc bindE_Inr)
      have "pending ?pr0 = 0" using Suc.prems(3) [of p] by (simp add: zero_port_def)
      then have "port_inv pr" using opened_inv [OF op _ _ pr(1)] by simp
      then show ?thesis using Suc.IH [OF pr(2)] Suc.prems(2,3) by (simp add: hba_inv_def)
    qed
  qed
qed

lemma at_hba_port [simp]: "the_port k (at_hba pi w sc) = port sc k" "hba (at_hba pi w sc) = sc\<lparr>asc_pi := pi\<rparr>"
  "a_mem (at_hba pi w sc) = w_ram w" "a_pic (at_hba pi w sc) = w_pic w"
  by (simp_all add: at_hba_def the_port_def)

lemma hba_inv_at: "ahci_inv (at_hba pi w sc) = hba_inv sc"
  by (simp add: ahci_inv_def hba_inv_def)

lemma hba_inv_io: "ahci_inv io = hba_inv (hba io)"
  by (simp add: ahci_inv_def hba_inv_def the_port_def)

lemma hba_inv_pi [simp]: "hba_inv (sc\<lparr>asc_pi := pi\<rparr>) = hba_inv sc"
  by (simp add: hba_inv_def)

lemma zero_hba_inv: "hba_inv (zero_hba pi)" "port (zero_hba pi) q = zero_port"
  by (simp_all add: hba_inv_def zero_hba_def has_disk_def zero_port_def)

lemma lintr_request_hba: "pci_lintr_request (pi, w) = Inr (pi', w') \<Longrightarrow> w_ahci w' = w_ahci w \<and> w_blockif w' = w_blockif w"
  by (auto simp: pci_lintr_request_def Let_def bindE_Inr map_slot_def split: option.splits)

lemma init_inv:
  assumes "pci_ahci_init env atapi opts s = Inr (0, s')"
  shows "\<exists>sc. w_ahci (snd s') = Some sc \<and> hba_inv sc"
proof -
  obtain pi w where s: "s = (pi, w)" by fastforce
  obtain ok p sc bl slots where o: "open_ports env MAX_PORTS 0 atapi opts (zero_hba pi, w_blockif w, 32) = Inr (ok, p, sc, bl, slots)"
    using assms by (cases "open_ports env MAX_PORTS 0 atapi opts (zero_hba pi, w_blockif w, 32)") (auto simp: pci_ahci_init_def s)
  have i: "hba_inv sc" by (rule init_ports_inv [OF o zero_hba_inv])
  define sc1 where "sc1 = sc\<lparr>ports := max p DEF_PORTS, hregs := (hregs sc)\<lparr>h_cap := hba_caps (slots - 1) (max p DEF_PORTS),
      h_vs := 0x10300, h_cap2 := 0x00000004\<rparr>\<rparr>"
  have i1: "hba_inv sc1" using i by (simp add: hba_inv_def sc1_def)
  obtain io where io: "ahci_reset (at_hba pi (w\<lparr>w_blockif := bl\<rparr>) sc1) = Inr io" "w_ahci (snd s') = Some (hba io)"
    using assms [unfolded pci_ahci_init_def s Let_def prod.case o bindE.simps, folded sc1_def]
    by (auto simp: bindE_Inr hba_leave_def split: if_split_asm dest!: lintr_request_hba)
  have "ahci_inv io"
    using same_books_inv [OF reset_books [OF io(1)]] i1 by (simp add: hba_inv_at)
  then show ?thesis using io(2) by (simp add: hba_inv_io)
qed

section \<open>Resetting ports that receive nothing\<close>

definition port_after_reset :: "ahci_port \<Rightarrow> ahci_port" where
  "port_after_reset p = p\<lparr>xfermode := ATA_UDMA6, mult_sectors := 128, regs := (regs p)\<lparr>r_ie := 0, r_is := 0,
     r_cmd := AHCI_P_CMD_SUD OR AHCI_P_CMD_POD OR (if bctx p \<noteq> None then AHCI_P_CMD_CPS else 0),
     r_sctl := 0, r_serr := 0, r_sact := 0,
     r_ssts := (if bctx p = None then ATA_SS_DET_NO_DEVICE else ATA_SS_DET_PHY_ONLINE OR ATA_SS_IPM_ACTIVE OR ATA_SS_SPD_GEN3),
     r_tfd := (if bctx p = None then 0x7F else if p_atapi p then 0x0110 OR ATA_S_DMA else 0x0150 OR ATA_S_DMA),
     r_sig := (if bctx p = None then 0xFFFFFFFF else if p_atapi p then PxSIG_ATAPI else PxSIG_ATA)\<rparr>\<rparr>"

lemma reset_ports_eq:
  "distinct is \<Longrightarrow> (\<And>k. rfis (the_port k io) = None) \<Longrightarrow>
   \<exists>io'. reset_ports is io = Inr io' \<and>
     (\<forall>k. the_port k io' = (if k \<in> set is then port_after_reset (the_port k io) else the_port k io)) \<and>
     hregs (hba io') = hregs (hba io) \<and> ports (hba io') = ports (hba io) \<and> asc_pi (hba io') = asc_pi (hba io) \<and>
     asc_mtx (hba io') = asc_mtx (hba io) \<and> a_mem io' = a_mem io \<and> a_pic io' = a_pic io"
proof (induction "is" arbitrary: io)
  case Nil
  then show ?case by simp
next
  case (Cons i "is")
  let ?g = "\<lambda>r :: port_regs. r\<lparr>r_ie := 0, r_is := 0,
          r_cmd := AHCI_P_CMD_SUD OR AHCI_P_CMD_POD OR (if bctx (the_port i io) \<noteq> None then AHCI_P_CMD_CPS else 0), r_sctl := 0\<rparr>"
  have "\<exists>io1. ahci_port_reset i (upd_regs i ?g io) = Inr io1 \<and> the_port i io1 = port_after_reset (the_port i io) \<and>
    (\<forall>k. k \<noteq> i \<longrightarrow> the_port k io1 = the_port k io) \<and>
    hregs (hba io1) = hregs (hba io) \<and> ports (hba io1) = ports (hba io) \<and> asc_pi (hba io1) = asc_pi (hba io) \<and>
    asc_mtx (hba io1) = asc_mtx (hba io) \<and> a_mem io1 = a_mem io \<and> a_pic io1 = a_pic io"
    using Cons.prems(2) [of i]
    by (cases "bctx (the_port i io)")
      (simp_all add: ahci_port_reset_def Let_def ahci_write_reset_fis_d2h_def ahci_write_fis_def port_after_reset_def)
  then obtain io1 where io1: "ahci_port_reset i (upd_regs i ?g io) = Inr io1" "the_port i io1 = port_after_reset (the_port i io)"
    "\<And>k. k \<noteq> i \<Longrightarrow> the_port k io1 = the_port k io"
    "hregs (hba io1) = hregs (hba io)" "ports (hba io1) = ports (hba io)" "asc_pi (hba io1) = asc_pi (hba io)"
    "asc_mtx (hba io1) = asc_mtx (hba io)" "a_mem io1 = a_mem io" "a_pic io1 = a_pic io" by blast
  have rf: "rfis (the_port k io1) = None" for k
    using Cons.prems(2) [of k] Cons.prems(2) [of i] io1(2,3) by (cases "k = i") (simp_all add: port_after_reset_def)
  obtain io' where io': "reset_ports is io1 = Inr io'"
     "\<forall>k. the_port k io' = (if k \<in> set is then port_after_reset (the_port k io1) else the_port k io1)"
     "hregs (hba io') = hregs (hba io1)" "ports (hba io') = ports (hba io1)" "asc_pi (hba io') = asc_pi (hba io1)"
     "asc_mtx (hba io') = asc_mtx (hba io1)" "a_mem io' = a_mem io1" "a_pic io' = a_pic io1"
    using Cons.IH [OF _ rf] Cons.prems(1) by auto
  have "the_port k io' = (if k \<in> set (i # is) then port_after_reset (the_port k io) else the_port k io)" for k
    using io'(2) io1(2,3) Cons.prems(1) by (cases "k = i") auto
  then show ?case using io1(1,4-) io'(1,3-) by (intro exI [of _ io']) simp
qed

section \<open>The instance on the bus\<close>

text \<open>A bus on which the network card is set up and the second slot is free.\<close>

definition sata_range :: pci_range where
  "sata_range = \<lparr>mr_name = PiName (0, 1, 0), mr_flags = MEM_F_RW, mr_handler = Pci_emul_mem_handler (0, 1, 0) 5,
     mr_rbase = 0xfdb50000, mr_rsize = 0x400\<rparr>"

definition fresh_sata :: "('f, 'a) ahci_world_scheme \<Rightarrow> bool" where
  "fresh_sata w \<longleftrightarrow>
     (\<exists>bi. pci_businfo w 0 = Some bi \<and> si_intpins (bi_slots bi 1) = (\<lambda>_. \<lparr>ii_count = 0, ii_pirq_pin = 0, ii_ioapic_irq = 0\<rparr>)) \<and>
     w_cursors w = \<lparr>pci_emul_iobase = 0x2008, pci_emul_membase32 = 0xfdb50000, pci_emul_membase64 = PCI_EMUL_MEMBASE64\<rparr> \<and>
     mem_inv (w_mem w) \<and> malloc_ok (w_mem w) \<and> (\<forall>a. covers sata_range a \<longrightarrow> range_at (w_mem w) a = None)"

definition sata_pi0 :: pci_devinst where
  "sata_pi0 = zero_devinst\<lparr>pi_slot := 1, pi_devemu := ''ahci-hd'', pi_name := ''ahci-hd-pci-1'',
     pi_cfgdata := (\<lambda>_. 0)(0x3c := 255, 0x3d := 0, 4 := 7)\<rparr>"

lemma decimal_1: "decimal 1 = ''1''"
  by code_simp

lemma sata_start:
  "pci_emul_init (pci_de_ahci ''ahci-hd'' iommu junk env) (0, 1, 0) param w =
     bindE (pci_ahci_init env False param (sata_pi0, w)) (\<lambda>(err, pdi, w).
     Inr (err, if err = 0 then put_devi (0, 1, 0) (Some pdi) w else w))"
proof -
  have "zero_devinst\<lparr>pi_bus := 0, pi_slot := 1, pi_func := 0,
      lintr := (lintr zero_devinst)\<lparr>lintr_lock := pthread_mutex_init (lintr_lock (lintr zero_devinst))\<rparr>,
      pi_devemu := ''ahci-hd'', pi_name := ''ahci-hd-pci-1'', pi_cfgdata := (\<lambda>_. 0)(0x3c := 255, 0x3d := 0, 4 := 7)\<rparr> = sata_pi0"
    by (simp add: zero_devinst_def sata_pi0_def pthread_mutex_init_def)
  moreover have "pi_cfgdata zero_devinst = (\<lambda>_. 0)" by (simp add: zero_devinst_def)
  ultimately show ?thesis
    by (simp add: pci_emul_init_def pci_set_cfgdata8_def bind_assertE decimal_1 pci_de_ahci_def pci_ahci_hd_init_def del: One_nat_def)
qed

lemma sata_opts: "port_type False ''hd:test'' = (False, ''test'')" "cut_opts ''test'' = (''test'', None)"
  by code_simp+

definition sata_port :: "string \<Rightarrow> nat blockif_ctxt \<Rightarrow> ahci_port" where
  "sata_port ident bc = zero_port\<lparr>bctx := Some bc, pr_sc := True, p_ident := ident, ioqsz := 71, iofhd := [0..<71]\<rparr>"

lemma sata_ports:
  assumes "blockif_open (bc_alloc env 0) (env_base env) = Some bc"
  shows "open_ports env 32 0 False (Some ''hd:test'') (zero_hba pi, bl, 32) =
    Inr (True, 1, (zero_hba pi)\<lparr>port := (\<lambda>_. zero_port)(0 := sata_port (make_ident (md5 env ''test'')) bc),
      hregs := (hregs (zero_hba pi))\<lparr>h_pi := 1\<rparr>\<rparr>, Some (Some 0), 32)"
    "port_inv (sata_port ident bc)"
proof -
  have op: "blockif_open True (env_base env) = Some bc" using assms by (auto simp: blockif_open_def split: if_splits)
  have "blockif_queuesz bc = Inr 71"
    using op by (auto simp: blockif_open_def blockif_queuesz_def checked_def BLOCKIF_MAXREQ_def BLOCKIF_NUMTHR_def)
  then have i: "pci_ahci_ioreq_init (zero_port\<lparr>bctx := Some bc, pr_sc := True, p_port := 0, p_atapi := False, p_ident := ident\<rparr>) =
      Inr (sata_port ident bc)" for ident
    by (simp add: pci_ahci_ioreq_init_def sata_port_def zero_port_def)
  show "port_inv (sata_port ident bc)" using opened_inv [OF op _ _ i [of ident]] by (simp add: zero_port_def)
  have "open_ports env 31 1 False None x = Inr (True, 1, x)" for x by (cases x) (simp add: eval_nat_numeral)
  then show "open_ports env 32 0 False (Some ''hd:test'') (zero_hba pi, bl, 32) =
    Inr (True, 1, (zero_hba pi)\<lparr>port := (\<lambda>_. zero_port)(0 := sata_port (make_ident (md5 env ''test'')) bc),
      hregs := (hregs (zero_hba pi))\<lparr>h_pi := 1\<rparr>\<rparr>, Some (Some 0), 32)"
    using assms i [of "make_ident (md5 env ''test'')"]
    by (simp add: numeral_eq_Suc sata_opts zero_hba_def slot_bit_def sata_port_def)
qed

text \<open>The instance with its identifiers and its capability.\<close>

lemma sata_pi0_sel [simp]:
  "pi_cfgdata sata_pi0 = (\<lambda>_. 0)(0x3c := 255, 0x3d := 0, 4 := 7)" "lintr (sata_pi0) = lintr zero_devinst"
  "pi_bus sata_pi0 = 0" "pi_slot sata_pi0 = 1" "pi_func sata_pi0 = 0" "pi_name sata_pi0 = ''ahci-hd-pci-1''"
  "msi sata_pi0 = msi zero_devinst" "pi_devemu sata_pi0 = ''ahci-hd''"
  by (simp_all add: sata_pi0_def zero_devinst_def)

lemma six_log: "flsl 6 = 3" "ffs 8 = 4" "roundup2 14 4 = 16"
  by code_simp+

lemma ids_run: "\<exists>pi. ahci_ids 6 sata_pi0 = Inr pi \<and> pi_bar pi = pi_bar sata_pi0 \<and> lintr pi = lintr zero_devinst \<and>
    pi_bus pi = 0 \<and> pi_slot pi = 1 \<and> pi_func pi = 0 \<and> pi_name pi = ''ahci-hd-pci-1'' \<and> pi_devemu pi = ''ahci-hd'' \<and> msi pi = msi zero_devinst \<and>
    (\<forall>k<4. pi_cfgdata pi k = store16 (store16 (\<lambda>_. 0) 2 0x2821) 0 0x8086 k)"
  by (simp add: ahci_ids_def pci_set_cfgdata16_def pci_set_cfgdata8_def bind_assertE six_log pci_emul_add_msicap_def pci_populate_msicap_def
    pci_emul_add_capability_def pci_get_cfgdata16_def Let_def load16_def store16_def copy_cap_eq Pci_Caps.put_bytes_def)

lemma bar_run:
  assumes "pi_bdf pi = (0, 1, 0)" "w_cursors w = \<lparr>pci_emul_iobase = 0x2008, pci_emul_membase32 = 0xfdb50000, pci_emul_membase64 = PCI_EMUL_MEMBASE64\<rparr>"
    "mem_inv (w_mem w)" "malloc_ok (w_mem w)" "\<forall>a. covers sata_range a \<longrightarrow> range_at (w_mem w) a = None"
  shows "\<exists>mem. pci_emul_alloc_bar pi 5 PCIBAR_MEM32 0x400 (w_cursors w) (w_mem w) =
      Inr (0, pi\<lparr>pi_bar := (pi_bar pi)(5 := \<lparr>bar_type = PCIBAR_MEM32, bar_size = 0x400, bar_addr = 0xfdb50000\<rparr>),
                pi_cfgdata := store32 (pi_cfgdata pi) 0x24 0xfdb50000\<rparr>,
        \<lparr>pci_emul_iobase = 0x2008, pci_emul_membase32 = 0xfdb50400, pci_emul_membase64 = PCI_EMUL_MEMBASE64\<rparr>, mem) \<and>
    mem_inv mem \<and> malloc_ok mem \<and> (\<forall>a. range_at mem a = (if covers sata_range a then Some sata_range else range_at (w_mem w) a))"
proof -
  have "proper_range sata_range" by (simp add: proper_range_def sata_range_def)
  then obtain mem where m: "register_mem (w_mem w) sata_range = (0, mem)" "mem_inv mem" "malloc_ok mem"
    "\<forall>a. range_at mem a = (if covers sata_range a then Some sata_range else range_at (w_mem w) a)"
    using register_mem_fresh [OF assms(3) _ assms(4)] assms(5) by blast
  have r: "bar_range (pi\<lparr>pi_bar := b, pi_cfgdata := c\<rparr>) 5 = sata_range" if "b 5 = \<lparr>bar_type = PCIBAR_MEM32, bar_size = 0x400, bar_addr = 0xfdb50000\<rparr>" for b c
    using assms(1) that by (simp add: bar_range_def sata_range_def pi_bdf_def)
  show ?thesis
    using m(2-4) r m(1)
    by (simp add: assms(2) pci_emul_alloc_bar_def pci_emul_alloc_pbar_def bind_assertE bar_request_size_def bar_placement_def
      pci_emul_alloc_resource_def roundup2w_def Let_def get_cursor_def put_cursor_def PCI_EMUL_MEMLIMIT32_def PCI_EMUL_ECFG_BASE_def
      set_bar_def register_bar_def modify_bar_registration_def pci_set_cfgdata32_def)
qed

lemma sata_lintr:
  assumes "pci_businfo w 0 = Some bi" "si_intpins (bi_slots bi 1) = (\<lambda>_. \<lparr>ii_count = 0, ii_pirq_pin = 0, ii_ioapic_irq = 0\<rparr>)"
    "pi_bus pi = 0" "pi_slot pi = 1"
  shows "pci_lintr_request (pi, w) =
    Inr (pi\<lparr>lintr := (lintr pi)\<lparr>lintr_pin := 1\<rparr>, pi_cfgdata := (pi_cfgdata pi)(0x3d := 1)\<rparr>,
      map_slot 0 1 (set_count 0 (\<lambda>ii. ii\<lparr>ii_count := ii_count ii + 1\<rparr>)) w)"
  using assms by (simp add: pci_lintr_request_def pci_set_cfgdata8_def bind_assertE least_used_pin_def)

definition sata_ready :: "string \<Rightarrow> nat blockif_ctxt \<Rightarrow> pci_devinst \<Rightarrow> pci_ahci_softc \<Rightarrow> bool" where
  "sata_ready ident bc pi sc \<longleftrightarrow> pi_name pi = ''ahci-hd-pci-1'' \<and> pi_devemu pi = ''ahci-hd'' \<and> pi_bdf pi = (0, 1, 0) \<and> lintr_pin (lintr pi) = 1 \<and> lintr_ready pi \<and>
     pi_bar pi 5 = \<lparr>bar_type = PCIBAR_MEM32, bar_size = 0x400, bar_addr = 0xfdb50000\<rparr> \<and>
     CFGREAD pi 0 2 = Inr 0x8086 \<and> CFGREAD pi 2 2 = Inr 0x2821 \<and>
     pi_bdf (asc_pi sc) = (0, 1, 0) \<and> ports sc = 6 \<and> h_pi (hregs sc) = 1 \<and> h_is (hregs sc) = 0 \<and> h_ghc (hregs sc) = AHCI_GHC_AE \<and>
     port sc 0 = port_after_reset (sata_port ident bc) \<and> (\<forall>k\<in>{1..<6}. port sc k = port_after_reset zero_port)"

lemma sata_created:
  assumes "fresh_sata w" "blockif_open (bc_alloc env 0) (env_base env) = Some bc"
  shows "\<exists>pi w' sc. pci_ahci_init env False (Some ''hd:test'') (sata_pi0, w) = Inr (0, pi, w') \<and>
    (\<exists>fi. get_func w' (0, 1, 0) = Some fi) \<and> w_ahci w' = Some sc \<and> w_blockif w' = Some (Some 0) \<and>
    (\<forall>a. range_at (w_mem w') a = (if covers sata_range a then Some sata_range else range_at (w_mem w) a)) \<and>
    mem_inv (w_mem w') \<and> malloc_ok (w_mem w') \<and> sata_ready (make_ident (md5 env ''test'')) bc pi sc"
proof -
  obtain bi where bi: "pci_businfo w 0 = Some bi" "si_intpins (bi_slots bi 1) = (\<lambda>_. \<lparr>ii_count = 0, ii_pirq_pin = 0, ii_ioapic_irq = 0\<rparr>)"
    using assms(1) by (auto simp: fresh_sata_def)
  define id where "id = make_ident (md5 env ''test'')"
  define sc1 where "sc1 = (zero_hba sata_pi0)\<lparr>port := (\<lambda>_. zero_port)(0 := sata_port id bc), ports := 6,
      hregs := (hregs (zero_hba sata_pi0))\<lparr>h_pi := 1, h_cap := hba_caps 31 6, h_vs := 0x10300, h_cap2 := 4\<rparr>\<rparr>"
  define w1 where "w1 = w\<lparr>w_blockif := Some (Some 0)\<rparr>"
  note op = sata_ports(1) [OF assms(2), of sata_pi0 "w_blockif w", folded id_def]
  define io0 where "io0 = upd_hregs (\<lambda>h. h\<lparr>h_ghc := AHCI_GHC_AE, h_is := 0\<rparr>) (at_hba sata_pi0 w1 sc1)"
  have rf: "rfis (the_port k io0) = None" for k
    by (simp add: io0_def sc1_def zero_hba_def sata_port_def zero_port_def)
  obtain io where io: "reset_ports [0..<6] io0 = Inr io"
     "\<forall>k. the_port k io = (if k \<in> set [0..<6] then port_after_reset (the_port k io0) else the_port k io0)"
     "hregs (hba io) = hregs (hba io0)" "ports (hba io) = ports (hba io0)" "asc_pi (hba io) = asc_pi (hba io0)"
     "asc_mtx (hba io) = asc_mtx (hba io0)" "a_mem io = a_mem io0" "a_pic io = a_pic io0"
    using reset_ports_eq [of "[0..<6]" io0, OF _ rf] by auto
  have reset: "ahci_reset (at_hba sata_pi0 w1 sc1) = Inr io"
    using io(1) by (simp add: ahci_reset_def Let_def io0_def sc1_def zero_hba_def)
  obtain pi where pi: "ahci_ids 6 sata_pi0 = Inr pi" "lintr pi = lintr zero_devinst" "pi_bus pi = 0" "pi_slot pi = 1" "pi_func pi = 0"
    "pi_name pi = ''ahci-hd-pci-1''" "\<forall>k<4. pi_cfgdata pi k = store16 (store16 (\<lambda>_. 0) 2 0x2821) 0 0x8086 k"
    "pi_devemu pi = ''ahci-hd''"
    using ids_run by blast
  define w2 where "w2 = snd (hba_leave io w1)"
  have w2: "w_cursors w2 = w_cursors w" "w_mem w2 = w_mem w" "pci_businfo w2 = pci_businfo w" "w_ahci w2 = Some (hba io)"
    "w_blockif w2 = Some (Some 0)"
    by (simp_all add: w2_def hba_leave_def w1_def)
  have leave: "hba_leave io w1 = (sata_pi0, w2)" using io(5) by (simp add: w2_def hba_leave_def io0_def)
  have b: "pi_bdf pi = (0, 1, 0)" using pi(3-5) by (simp add: pi_bdf_def)
  let ?pi2 = "pi\<lparr>pi_bar := (pi_bar pi)(5 := \<lparr>bar_type = PCIBAR_MEM32, bar_size = 0x400, bar_addr = 0xfdb50000\<rparr>),
                pi_cfgdata := store32 (pi_cfgdata pi) 0x24 0xfdb50000\<rparr>"
  obtain cs mem where m: "pci_emul_alloc_bar pi 5 PCIBAR_MEM32 0x400 (w_cursors w2) (w_mem w2) = Inr (0, ?pi2, cs, mem)"
    "\<forall>a. range_at mem a = (if covers sata_range a then Some sata_range else range_at (w_mem w2) a)" "mem_inv mem" "malloc_ok mem"
    using bar_run [OF b, of w2] assms(1) w2(1,2) by (auto simp: fresh_sata_def)
  let ?w3 = "w2\<lparr>w_cursors := cs, w_mem := mem\<rparr>"
  let ?pi3 = "?pi2\<lparr>lintr := (lintr ?pi2)\<lparr>lintr_pin := 1\<rparr>, pi_cfgdata := (pi_cfgdata ?pi2)(0x3d := 1)\<rparr>"
  let ?w4 = "map_slot 0 1 (set_count 0 (\<lambda>ii. ii\<lparr>ii_count := ii_count ii + 1\<rparr>)) ?w3"
  have l: "pci_lintr_request (?pi2, ?w3) = Inr (?pi3, ?w4)"
    by (rule sata_lintr [of ?w3 bi ?pi2]) (use bi w2(3) pi(3,4) in simp_all)
  have "sc1 = (zero_hba sata_pi0)\<lparr>port := (\<lambda>_. zero_port)(0 := sata_port id bc),
      hregs := (hregs (zero_hba sata_pi0))\<lparr>h_pi := 1\<rparr>, ports := max 1 6,
      hregs := ((hregs (zero_hba sata_pi0))\<lparr>h_pi := 1\<rparr>)\<lparr>h_cap := hba_caps (32 - 1) (max 1 6), h_vs := 0x10300, h_cap2 := 4\<rparr>\<rparr>"
    by (simp add: sc1_def zero_hba_def)
  then have init: "pci_ahci_init env False (Some ''hd:test'') (sata_pi0, w) = Inr (0, ?pi3, ?w4)"
    using op reset leave pi(1) m(1) l
    by (simp add: pci_ahci_init_def Let_def w1_def [symmetric])
  have "sata_ready id bc ?pi3 (hba io)"
    using pi(2-8) io(2-5)
    by (simp add: sata_ready_def lintr_ready_def free_mutex_def zero_devinst_def pi_bdf_def CFGREAD_def pci_get_cfgdata16_def bind_assertE load16_def store16_def store32_def word_cat_eq
      io0_def sc1_def the_port_def [symmetric])
  moreover have "w_mem ?w4 = mem" "w_ahci ?w4 = Some (hba io)" "w_blockif ?w4 = Some (Some 0)" "\<exists>fi. get_func ?w4 (0, 1, 0) = Some fi"
    using w2 bi(1) by (simp_all add: map_slot_def get_func_def)
  ultimately show ?thesis
    using init m(2-4) unfolding w2(2) id_def
    by (intro exI [of _ ?pi3] exI [of _ ?w4] exI [of _ "hba io"]) simp
qed

text \<open>C30: The controller comes up beside the network card: its initialisation succeeds with the option string of
  the start-up code and leaves an identified device with its registers decoded at 0xfdb50000 on
  interrupt pin A, six ports of which the first has the memory disk and reports an ATA drive and the
  others report no device, nothing in flight, and the disk behind the block thread.\<close>

theorem controller_initialised:
  assumes "fresh_sata w" "bc_alloc env 0"
  shows "\<exists>w' pi sc. pci_emul_init (pci_de_ahci ''ahci-hd'' iommu junk env) (0, 1, 0) (Some ''hd:test'') w = Inr (0, w') \<and>
    get_devi w' (0, 1, 0) = Some pi \<and> w_ahci w' = Some sc \<and> w_blockif w' = Some (Some 0) \<and>
    CFGREAD pi 0 2 = Inr 0x8086 \<and> CFGREAD pi 2 2 = Inr 0x2821 \<and> lintr_pin (lintr pi) = 1 \<and> pi_irq pi = 20 \<and>
    pi_bar pi 5 = \<lparr>bar_type = PCIBAR_MEM32, bar_size = 0x400, bar_addr = 0xfdb50000\<rparr> \<and>
    (\<forall>a. range_at (w_mem w') a = (if covers sata_range a then Some sata_range else range_at (w_mem w) a)) \<and>
    ports sc = 6 \<and> h_pi (hregs sc) = 1 \<and> h_is (hregs sc) = 0 \<and> h_ghc (hregs sc) = AHCI_GHC_AE \<and>
    port_inv (port sc 0) \<and> pr_sc (port sc 0) \<and> pending (port sc 0) = 0 \<and> r_ci (regs (port sc 0)) = 0 \<and>
    map (\<lambda>k. r_ssts (regs (port sc k))) [0..<6] = [0x133, 0, 0, 0, 0, 0] \<and>
    map (\<lambda>k. r_sig (regs (port sc k))) [0..<6] = [0x101, 0xFFFFFFFF, 0xFFFFFFFF, 0xFFFFFFFF, 0xFFFFFFFF, 0xFFFFFFFF]"
proof -
  obtain bc :: "nat blockif_ctxt" where bc: "blockif_open (bc_alloc env 0) (env_base env) = Some bc"
    using assms(2) by (auto simp: blockif_open_def)
  let ?id = "make_ident (md5 env ''test'')"
  obtain pi w4 sc where i: "pci_ahci_init env False (Some ''hd:test'') (sata_pi0, w) = Inr (0, pi, w4)"
    "\<exists>fi. get_func w4 (0, 1, 0) = Some fi" "w_ahci w4 = Some sc" "w_blockif w4 = Some (Some 0)"
    "\<forall>a. range_at (w_mem w4) a = (if covers sata_range a then Some sata_range else range_at (w_mem w) a)"
    "sata_ready ?id bc pi sc"
    using sata_created [OF assms(1) bc] by blast
  let ?w = "put_devi (0, 1, 0) (Some pi) w4"
  have run: "pci_emul_init (pci_de_ahci ''ahci-hd'' iommu junk env) (0, 1, 0) (Some ''hd:test'') w = Inr (0, ?w)"
    unfolding sata_start i(1) by simp
  have devi: "get_devi ?w (0, 1, 0) = Some pi" using get_put_func i(2) by blast
  have keep: "w_ahci ?w = Some sc" "w_blockif ?w = Some (Some 0)" "w_mem ?w = w_mem w4"
    using i(3,4) by (simp_all add: put_devi_def map_slot_def)
  have p: "port sc 0 = port_after_reset (sata_port ?id bc)" "\<And>k. k \<in> {1..<6} \<Longrightarrow> port sc k = port_after_reset zero_port"
    using i(6) by (simp_all add: sata_ready_def)
  have "books (port_after_reset (sata_port ?id bc)) = books (sata_port ?id bc)" by (simp add: books_def port_after_reset_def)
  then have inv: "port_inv (port sc 0)" using sata_ports(2) [OF bc] books_inv p(1) by metis
  have six: "[0..<6] = [0, 1, 2, 3, 4, 5 :: nat]" by (simp add: upt_rec)
  have st: "map (\<lambda>k. r_ssts (regs (port sc k))) [0..<6] = [0x133, 0, 0, 0, 0, 0]"
    "map (\<lambda>k. r_sig (regs (port sc k))) [0..<6] = [0x101, 0xFFFFFFFF, 0xFFFFFFFF, 0xFFFFFFFF, 0xFFFFFFFF, 0xFFFFFFFF]"
    by (simp_all add: six p port_after_reset_def sata_port_def zero_port_def del: One_nat_def)
  have idle: "pr_sc (port sc 0)" "pending (port sc 0) = 0" "r_ci (regs (port sc 0)) = 0"
    by (simp_all add: p(1) port_after_reset_def sata_port_def zero_port_def)
  have irq: "pi_irq pi = 20" using i(6) by (simp add: sata_ready_def pi_irq_def DM_AHCI_INTR_def)
  have r: "\<forall>a. range_at (w_mem ?w) a = (if covers sata_range a then Some sata_range else range_at (w_mem w) a)"
    using i(5) unfolding keep(3) .
  show ?thesis
    using i(6) [unfolded sata_ready_def] run devi keep(1,2) r inv st idle irq
    by (intro exI [of _ ?w] exI [of _ pi] exI [of _ sc] conjI) blast+
qed

section \<open>Witness\<close>

definition wit_sata_bus :: "unit ahci_world" where
  "wit_sata_bus = e1000_world.extend
     (wit_bus\<lparr>w_cursors := \<lparr>pci_emul_iobase = 0x2008, pci_emul_membase32 = 0xfdb50000, pci_emul_membase64 = PCI_EMUL_MEMBASE64\<rparr>\<rparr>)
     \<lparr>w_ahci = None, w_blockif = None\<rparr>"

definition wit_env :: ahci_env where
  "wit_env = \<lparr>bc_alloc = (\<lambda>_. True), env_base = 0x10000000, md5 = (\<lambda>_. replicate 16 7)\<rparr>"

lemma wit_fresh_sata: "fresh_sata wit_sata_bus"
  by (simp add: fresh_sata_def wit_sata_bus_def e1000_world.extend_def wit_bus_def zero_bus_def zero_slot_def mem_inv_def range_at_def)

theorem controller_initialised_witness:
  "\<exists>w' sc. pci_emul_init (pci_de_ahci ''ahci-hd'' False (\<lambda>_. 0) wit_env) (0, 1, 0) (Some ''hd:test'') wit_sata_bus = Inr (0, w') \<and>
     w_ahci w' = Some sc \<and> port_inv (port sc 0) \<and>
     range_at (w_mem w') 0xfdb50100 = Some sata_range \<and> range_at (w_mem w') 0xfdb50400 = range_at (w_mem wit_sata_bus) 0xfdb50400"
  using controller_initialised [OF wit_fresh_sata, of wit_env False "\<lambda>_. 0"]
  by (fastforce simp: wit_env_def covers_def sata_range_def)

end
