(* ===== verification/Ahci_Thread.thy ===== *)
theory Ahci_Thread
  imports Ahci_Inv
begin

text \<open>
  The completion of requests by the block thread. The callbacks run with the queue of
  the disk locked, so they can answer commands but not start a transfer; each one frees
  its own request block and slot. Over every run of the controller the bookkeeping of
  requests stays exact.
\<close>

section \<open>Callbacks under the lock\<close>

definition locked_port :: "nat \<Rightarrow> ahci_io \<Rightarrow> bool" where
  "locked_port n io \<longleftrightarrow> (\<exists>bc. bctx (the_port n io) = Some bc \<and> disk_locked bc)"

lemma locked_books: "same_books io io' \<Longrightarrow> locked_port n io' = locked_port n io"
  by (simp add: locked_port_def same_books_def books_def)

lemma locked_no_transfer:
  assumes "locked_port n io"
  shows "\<not> in_transfer n s io io'"
proof
  assume "in_transfer n s io io'"
  then obtain i op bc bc' st where t: "bctx (the_port n io) = Some bc" "blk_op op" "op bc st i = Inr (0, bc')"
    unfolding in_transfer_def Let_def by blast
  then obtain bop where b: "disk_submit bop bc st i = Inr (0, bc')" by (auto simp: blk_op_def disk_submits)
  show False using disk.submit_unlocked [OF b] assms t(1) by (auto simp: locked_port_def)
qed

lemma locked_settled: "settled n s io io' \<Longrightarrow> locked_port n io \<Longrightarrow> same_books io io'"
  unfolding settled_def using locked_no_transfer quiet_books by fastforce

lemma locked_turn:
  assumes "port_turn iommu junk n io = Inr io'" "running (the_port n io)" "locked_port n io"
  shows "same_books io io' \<and> running (the_port n io')"
proof (cases "standing (the_port n io)")
  case False
  then have "io' = next_slot n io" using assms(1) by (simp add: port_turn_eq)
  then show ?thesis using assms(2) by simp
next
  case True
  let ?s = "ccs (the_port n io)"
  obtain io1 where io1: "ahci_handle_slot iommu junk n ?s (at_slot n io) = Inr io1" "io' = next_slot n io1"
    using assms(1) True by (auto simp: port_turn_eq bindE_Inr)
  have a: "same_books io (at_slot n io)" by simp
  have l: "locked_port n (at_slot n io)" using locked_books [OF a] assms(3) by simp
  have "same_books (at_slot n io) io1 \<and> running (the_port n io1)"
    using handle_slot_cases [OF io1(1)] standing_free [OF True] assms(2) locked_settled [OF _ l] settled_sel(3)
    by (auto split: if_split_asm)
  then show ?thesis using same_books_trans [OF a] io1(2) by simp
qed

lemma locked_loop:
  assumes "port_loop iommu junk n io = Some r"
  shows "\<forall>io'. r = Inr io' \<longrightarrow> running (the_port n io) \<longrightarrow> locked_port n io \<longrightarrow> same_books io io'"
  using assms
proof (rule port_loop.raw_induct [rotated, where P = "\<lambda>_ _ n io r. \<forall>io'. r = Inr io' \<longrightarrow> running (the_port n io) \<longrightarrow>
      locked_port n io \<longrightarrow> same_books io io'"])
  fix loop :: "bool \<Rightarrow> bytes \<Rightarrow> nat \<Rightarrow> ahci_io \<Rightarrow> ahci_io res option" and iommu junk n io r
  assume ih: "\<And>iommu junk n io r. loop iommu junk n io = Some r \<Longrightarrow>
      \<forall>io'. r = Inr io' \<longrightarrow> running (the_port n io) \<longrightarrow> locked_port n io \<longrightarrow> same_books io io'"
    and eq: "(if issued (the_port n io) = 0 \<or> port_busy (the_port n io) then Some (Inr io)
      else case port_turn iommu junk n io of Inl e \<Rightarrow> Some (Inl e) | Inr io \<Rightarrow> loop iommu junk n io) = Some r"
  show "\<forall>io'. r = Inr io' \<longrightarrow> running (the_port n io) \<longrightarrow> locked_port n io \<longrightarrow> same_books io io'"
  proof (intro allI impI)
    fix io' assume r: "r = Inr io'" "running (the_port n io)" "locked_port n io"
    show "same_books io io'"
    proof (cases "port_turn iommu junk n io")
      case (Inl e)
      then show ?thesis using eq r(1) by (auto split: if_split_asm)
    next
      case (Inr io1)
      have t: "same_books io io1" "running (the_port n io1)" using locked_turn [OF Inr r(2,3)] by simp_all
      have l: "locked_port n io1" using locked_books [OF t(1)] r(3) by simp
      show ?thesis
      proof (cases "issued (the_port n io) = 0 \<or> port_busy (the_port n io)")
        case True
        then show ?thesis using eq r(1) by auto
      next
        case False
        then have "loop iommu junk n io1 = Some r" using eq Inr by simp
        then have "same_books io1 io'" using ih r(1) t(2) l by blast
        then show ?thesis using same_books_trans [OF t(1)] by blast
      qed
    qed
  qed
qed

lemma locked_handle_port: "ahci_handle_port iommu junk n io = Inr io' \<Longrightarrow> locked_port n io \<Longrightarrow> same_books io io'"
  using locked_loop [of iommu junk n io] by (auto simp: ahci_handle_port_def running_def split: if_split_asm option.split_asm)

definition unpend :: "nat \<Rightarrow> nat \<Rightarrow> ahci_io \<Rightarrow> ahci_io" where
  "unpend n slot = upd_port n (\<lambda>p. p\<lparr>pending := pending p AND NOT (slot_bit slot)\<rparr>)"

lemma check_stopped_books [simp]: "same_books io (ahci_check_stopped n io') = same_books io io'"
proof -
  have "books (the_port k (ahci_check_stopped n io')) = books (the_port k io')" for k
    by (simp add: ahci_check_stopped_def Let_def books_def)
  then show ?thesis by (simp add: same_books_def)
qed

lemma unpend_books: "same_books io io' \<Longrightarrow> same_books (unpend n s io) (unpend n s io')"
  by (simp add: same_books_def unpend_def books_def)

lemma unpend_locked [simp]: "locked_port n (unpend n s io) = locked_port n io"
  by (simp add: locked_port_def unpend_def)

lemma command_complete_books:
  assumes "command_complete iommu junk n slot io = Inr io'" "locked_port n io"
  shows "same_books (unpend n slot io) io'"
proof -
  have h: "ahci_handle_port iommu junk n (ahci_check_stopped n (unpend n slot io)) = Inr io'"
    using assms(1) by (simp add: command_complete_def unpend_def)
  have c: "same_books (unpend n slot io) (ahci_check_stopped n (unpend n slot io))" by simp
  have "locked_port n (ahci_check_stopped n (unpend n slot io))" using locked_books [OF c] assms(2) by simp
  then show ?thesis using locked_handle_port [OF h] same_books_trans [OF c] by blast
qed

lemma d2h_books: "ahci_write_fis_d2h n slot cfis tfd io = Inr io' \<Longrightarrow> same_books io io'"
  using d2h_cases [of n slot cfis tfd io io'] quiet_books by (fastforce split: if_split_asm)

lemma d2h_ncq_books: "ahci_write_fis_d2h_ncq n slot io = Inr io' \<Longrightarrow> same_books io io'"
  using d2h_ncq_clears quiet_books by fastforce

lemma sdb_books: "ahci_write_fis_sdb n slot cfis tfd io = Inr io' \<Longrightarrow> same_books io io'"
  using sdb_quiet quiet_books by blast

text \<open>A round of a trim: a request goes to the disk, or the command is done.\<close>

definition trim_ends :: "(ahci_io \<Rightarrow> ahci_io res) \<Rightarrow> nat \<Rightarrow> nat \<Rightarrow> bool \<Rightarrow> ahci_io \<Rightarrow> ahci_io res \<Rightarrow> bool" where
  "trim_ends resume n slot first io m \<longleftrightarrow> (\<forall>io'. m = Inr io' \<longrightarrow> in_transfer n slot io io' \<or>
     (\<exists>cfis ncq io1. trim_done n slot cfis ncq first io = Inr io1 \<and> (if first then io' = io1 else resume io1 = Inr io')))"

lemma trim_ends_bind: "(\<And>x. m = Inr x \<Longrightarrow> trim_ends resume n slot first io (f x)) \<Longrightarrow> trim_ends resume n slot first io (bindE m f)"
  by (cases m) (simp_all add: trim_ends_def)

lemma trim_ends_transfers: "transfers n slot io m \<Longrightarrow> trim_ends resume n slot first io m"
  by (simp add: transfers_def trim_ends_def)

lemma trim_cases: "trim_ends resume n slot (fin = 0) io (ahci_handle_dsm_trim iommu junk resume n slot cfis fin io)"
  unfolding ahci_handle_dsm_trim_def Let_def case_prod_beta
  apply (rule trim_ends_bind)
  apply (rule trim_ends_bind)
  subgoal premises p for buf r
  proof (cases r)
    case None
    then show ?thesis by (auto simp: trim_ends_def bindE_Inr split: if_split_asm)
  next
    case (Some t)
    show ?thesis
      unfolding Some option.case case_prod_beta
      apply (intro trim_ends_transfers transfers_bind)
      subgoal premises q by (rule transfers_ncq [OF q(1,3)]) (auto simp: req_ok_def)
      done
  qed
  done

lemma trim_done_books:
  assumes "trim_done n slot cfis ncq first io = Inr io'"
  shows "same_books (unpend n slot io) io'"
proof -
  obtain io1 where io1: "(if ncq then bindE (if first then ahci_write_fis_d2h_ncq n slot io else Inr io)
      (ahci_write_fis_sdb n slot cfis tfd_ok) else ahci_write_fis_d2h n slot cfis tfd_ok io) = Inr io1"
    "io' = ahci_check_stopped n (unpend n slot io1)"
    using assms unfolding trim_done_def bindE_Inr unpend_def by blast
  have "same_books io io1"
    using io1(1) by (auto simp: bindE_Inr split: if_split_asm dest!: d2h_books d2h_ncq_books sdb_books intro: same_books_trans)
  then show ?thesis by (simp add: io1(2) unpend_books)
qed

section \<open>What a callback does to the books\<close>

definition release :: "nat \<Rightarrow> nat \<Rightarrow> ahci_io \<Rightarrow> ahci_io" where
  "release n i io = unpend n (io_slot (ioreq (the_port n io) i)) (upd_port n (free_ioreq i) io)"

lemma request_back_books: "same_books (upd_port n (free_ioreq i) io) (request_back n i err hdr (with_lock mx io))"
  by (simp add: request_back_def Let_def same_books_def books_def free_ioreq_def)

lemma request_back_locked [simp]: "locked_port n (request_back n i err hdr (with_lock mx io)) = locked_port n io"
  by (simp add: locked_port_def request_back_def Let_def free_ioreq_def)

lemma cb_tail_books:
  assumes "bindE m (command_complete iommu junk n slot) = Inr io'" "\<And>x. m = Inr x \<Longrightarrow> same_books io x" "locked_port n io"
  shows "same_books (unpend n slot io) io'"
proof -
  obtain x where x: "m = Inr x" "command_complete iommu junk n slot x = Inr io'" using assms(1) by (auto simp: bindE_Inr)
  have s: "same_books io x" by (rule assms(2) [OF x(1)])
  show ?thesis
    using command_complete_books [OF x(2)] locked_books [OF s] assms(3) same_books_trans [OF unpend_books [OF s]] by blast
qed

lemma packet_books:
  "packet_ok n slot cfis io = Inr io' \<Longrightarrow> same_books io io'" "packet_error asc n slot cfis io = Inr io' \<Longrightarrow> same_books io io'"
  unfolding packet_ok_def packet_error_def
  using d2h_books same_books_trans [OF quiet_books [OF set_reason_quiet]]
    same_books_trans [OF quiet_books [OF quiet_trans [OF set_sense_quiet set_reason_quiet]]] by blast+

lemma ata_cb_books:
  assumes "ata_ioreq_cb iommu junk n i err io = Inr io'" "locked_port n io"
  shows "same_books (release n i io) io'"
proof -
  let ?slot = "io_slot (ioreq (the_port n io) i)" and ?cfis = "io_cfis (ioreq (the_port n io) i)"
  obtain hdr io0 io2 dsm where io0: "lock_hba io = Inr io0" and u: "unlock_hba io2 = Inr io'"
    and m: "(if err = 0 \<and> io_more (ioreq (the_port n io) i) then
                  (if dsm then
                     ahci_handle_dsm_trim iommu junk (ahci_handle_port iommu junk n) n ?slot ?cfis (io_done (ioreq (the_port n io) i)) (request_back n i err hdr io0)
                   else ahci_handle_rw iommu n ?slot ?cfis (io_done (ioreq (the_port n io) i)) (request_back n i err hdr io0))
                else
                   bindE (if is_ncq (a_mem io (?cfis + 2)) then ahci_write_fis_sdb n ?slot ?cfis (if err = 0 then tfd_ok else tfd_abort) (request_back n i err hdr io0)
                     else ahci_write_fis_d2h n ?slot ?cfis (if err = 0 then tfd_ok else tfd_abort) (request_back n i err hdr io0))
                     (command_complete iommu junk n ?slot)) = Inr io2"
    using assms(1) unfolding ata_ioreq_cb_def Let_def bindE_Inr by blast
  obtain mx where mx: "io0 = with_lock mx io" using lock_hbaD [OF io0] by blast
  define io1 where "io1 = request_back n i err hdr (with_lock mx io)"
  have l: "locked_port n io1" using assms(2) by (simp add: io1_def)
  have r: "same_books (upd_port n (free_ioreq i) io) io1" by (simp add: io1_def request_back_books)
  have s2: "same_books (unpend n ?slot io1) io2"
  proof (cases "err = 0 \<and> io_more (ioreq (the_port n io) i)")
    case True
    show ?thesis
    proof (cases dsm)
      case False
      then show ?thesis
        using m True handle_rw_transfers [of n ?slot io1] locked_no_transfer [OF l]
        unfolding mx io1_def [symmetric] transfers_def by auto
    next
      case True
      let ?first = "io_done (ioreq (the_port n io) i) = 0"
      have "ahci_handle_dsm_trim iommu junk (ahci_handle_port iommu junk n) n ?slot ?cfis (io_done (ioreq (the_port n io) i)) io1 = Inr io2"
        using m True \<open>err = 0 \<and> io_more (ioreq (the_port n io) i)\<close> unfolding mx io1_def [symmetric] by simp
      then obtain cfis ncq ioa where t: "trim_done n ?slot cfis ncq ?first io1 = Inr ioa"
        "if ?first then io2 = ioa else ahci_handle_port iommu junk n ioa = Inr io2"
        using trim_cases [of "ahci_handle_port iommu junk n" n ?slot "io_done (ioreq (the_port n io) i)" io1 iommu junk ?cfis]
          locked_no_transfer [OF l] unfolding trim_ends_def by blast
      have a: "same_books (unpend n ?slot io1) ioa" by (rule trim_done_books [OF t(1)])
      have "locked_port n ioa" using locked_books [OF a] l by simp
      then have "same_books ioa io2" using t(2) locked_handle_port by (auto split: if_split_asm)
      then show ?thesis using same_books_trans [OF a] by blast
    qed
  next
    case False
    then have b: "bindE (if is_ncq (a_mem io (?cfis + 2)) then ahci_write_fis_sdb n ?slot ?cfis (if err = 0 then tfd_ok else tfd_abort) io1
        else ahci_write_fis_d2h n ?slot ?cfis (if err = 0 then tfd_ok else tfd_abort) io1) (command_complete iommu junk n ?slot) = Inr io2"
      using m unfolding mx io1_def [symmetric] by argo
    show ?thesis by (rule cb_tail_books [OF b _ l]) (auto split: if_split_asm intro: d2h_books sdb_books)
  qed
  have "same_books (release n i io) (unpend n ?slot io1)" unfolding release_def by (rule unpend_books [OF r])
  then have "same_books (release n i io) io2" using s2 same_books_trans by blast
  then show ?thesis using unlock_hbaD [OF u] by auto
qed

lemma atapi_cb_books:
  assumes "atapi_ioreq_cb iommu junk n i err io = Inr io'" "locked_port n io"
  shows "same_books (release n i io) io'"
proof -
  let ?slot = "io_slot (ioreq (the_port n io) i)" and ?cfis = "io_cfis (ioreq (the_port n io) i)"
  let ?fin = "io_done (ioreq (the_port n io) i)"
  obtain hdr io0 io2 where io0: "lock_hba io = Inr io0" and u: "unlock_hba io2 = Inr io'"
    and m: "(if err = 0 \<and> io_more (ioreq (the_port n io) i) then atapi_read iommu n ?slot ?cfis ?fin (request_back n i err hdr io0)
             else bindE (if err = 0 then packet_ok n ?slot ?cfis (request_back n i err hdr io0)
                         else packet_error 0x21 n ?slot ?cfis (request_back n i err hdr io0))
                    (command_complete iommu junk n ?slot)) = Inr io2"
    using assms(1) unfolding atapi_ioreq_cb_def Let_def bindE_Inr by blast
  obtain mx where mx: "io0 = with_lock mx io" using lock_hbaD [OF io0] by blast
  define io1 where "io1 = request_back n i err hdr (with_lock mx io)"
  have l: "locked_port n io1" using assms(2) by (simp add: io1_def)
  have r: "same_books (upd_port n (free_ioreq i) io) io1" by (simp add: io1_def request_back_books)
  have s2: "same_books (unpend n ?slot io1) io2"
  proof (cases "err = 0 \<and> io_more (ioreq (the_port n io) i)")
    case True
    then show ?thesis
      using m atapi_read_transfers [of n ?slot io1] locked_no_transfer [OF l]
      unfolding mx io1_def [symmetric] transfers_def by auto
  next
    case False
    then have b: "bindE (if err = 0 then packet_ok n ?slot ?cfis io1 else packet_error 0x21 n ?slot ?cfis io1)
        (command_complete iommu junk n ?slot) = Inr io2"
      using m unfolding mx io1_def [symmetric] by argo
    show ?thesis by (rule cb_tail_books [OF b _ l]) (auto split: if_split_asm intro: packet_books)
  qed
  have "same_books (release n i io) (unpend n ?slot io1)" unfolding release_def by (rule unpend_books [OF r])
  then have "same_books (release n i io) io2" using s2 same_books_trans by blast
  then show ?thesis using unlock_hbaD [OF u] by auto
qed

section \<open>The loop of the block thread\<close>

text \<open>The part of the invariant of a port that does not look at the queue of the disk.\<close>

definition slots_inv :: "ahci_port \<Rightarrow> bool" where
  "slots_inv p \<longleftrightarrow>
     distinct (iofhd p @ iobhd p) \<and> set (iofhd p @ iobhd p) = {..<ioqsz p} \<and> 32 \<le> ioqsz p \<and> ioqsz p < BLOCKIF_MAXREQ \<and>
     inj_on (\<lambda>i. io_slot (ioreq p i)) (set (iobhd p)) \<and>
     {s. bit (pending p) s} = (\<lambda>i. io_slot (ioreq p i)) ` set (iobhd p)"

lemma port_inv_slots:
  "port_inv p \<longleftrightarrow> slots_inv p \<and> (\<exists>bc. bctx p = Some bc \<and> disk_ready bc (req_store p) \<and> queued bc = mset (iobhd p))"
  by (auto simp: port_inv_def slots_inv_def)

lemma slots_inv_cong:
  assumes "pending p' = pending p" "ioqsz p' = ioqsz p" "iofhd p' = iofhd p" "iobhd p' = iobhd p"
    "\<And>i. io_slot (ioreq p' i) = io_slot (ioreq p i)"
  shows "slots_inv p' = slots_inv p"
  using assms by (simp add: slots_inv_def)

lemma release_port:
  "the_port n (release n i io) = free_ioreq i ((the_port n io)\<lparr>pending := pending (the_port n io) AND NOT (slot_bit (io_slot (ioreq (the_port n io) i)))\<rparr>)"
  "k \<noteq> n \<Longrightarrow> the_port k (release n i io) = the_port k io"
  by (simp_all add: release_def unpend_def free_ioreq_def)

lemma release_slots:
  assumes "slots_inv (the_port n io)" "i \<in> set (iobhd (the_port n io))"
  shows "slots_inv (the_port n (release n i io))"
proof -
  let ?p = "the_port n io"
  have d: "distinct (iobhd ?p)" "inj_on (\<lambda>i. io_slot (ioreq ?p i)) (set (iobhd ?p))" using assms(1) by (simp_all add: slots_inv_def)
  have im: "(\<lambda>i. io_slot (ioreq ?p i)) ` set (iobhd ?p) - {io_slot (ioreq ?p i)} = (\<lambda>i. io_slot (ioreq ?p i)) ` (set (iobhd ?p) - {i})"
    using inj_on_image_set_diff [OF d(2), of "set (iobhd ?p)" "{i}"] assms(2) by auto
  show ?thesis
    unfolding release_port
    using assms d im by (auto simp: slots_inv_def free_ioreq_def bits_clear inj_on_diff set_remove1_eq)
qed

definition thr_inv :: "nat \<Rightarrow> ahci_blk \<Rightarrow> bool" where
  "thr_inv n w \<longleftrightarrow> idle_inv w \<and> held_mutex (bc_mtx (blk_bc w)) \<and> bc_magic (blk_bc w) = BLOCKIF_SIG \<and>
     slots_inv (the_port n (blk_io w)) \<and> queued (blk_bc w) = mset (iobhd (the_port n (blk_io w))) \<and>
     (\<forall>k. k \<noteq> n \<longrightarrow> has_disk (the_port k (blk_io w)) \<longrightarrow> port_inv (the_port k (blk_io w)))"

lemma more_io: "blk_world.more w1 = blk_world.more w \<Longrightarrow> blk_io w1 = blk_io w" for w w1 :: ahci_blk
  by (cases w; cases w1) simp

lemma of_blk_port:
  "the_port n (of_blk n w) = (the_port n (blk_io w))\<lparr>bctx := Some (blk_bc w),
     ioreq := (\<lambda>i. (ioreq (the_port n (blk_io w)) i)\<lparr>io_req := blk_st w i\<rparr>)\<rparr>"
  "k \<noteq> n \<Longrightarrow> the_port k (of_blk n w) = the_port k (blk_io w)"
  by (simp_all add: of_blk_def the_port_def upd_port_def upd_hba_def)

lemma callback_books:
  assumes "ahci_callback iommu junk n i err w = Inr w'" "held_mutex (bc_mtx (blk_bc w))"
  shows "\<exists>io'. same_books (release n i (of_blk n w)) io' \<and> blk_bc w' = blk_bc w \<and> blk_st w' = blk_st w \<and> blk_io w' = io'"
proof -
  obtain io' where io': "(if p_atapi (the_port n (blk_io w)) then atapi_ioreq_cb else ata_ioreq_cb) iommu junk n i err (of_blk n w) = Inr io'"
    "w' = to_blk n io' w"
    using assms(1) by (auto simp: ahci_callback_def bindE_Inr)
  have "disk_locked (blk_bc w)" using pthread.not_both assms(2) by (auto simp: disk_locked_def)
  then have l: "locked_port n (of_blk n w)" by (simp add: locked_port_def of_blk_port)
  have s: "same_books (release n i (of_blk n w)) io'"
    using io'(1) ata_cb_books [OF _ l] atapi_cb_books [OF _ l] by (auto split: if_split_asm)
  then have "bctx (the_port n io') = Some (blk_bc w)" "ioreq (the_port n io') = ioreq (the_port n (of_blk n w))"
    by (simp_all add: same_books_def books_def release_port free_ioreq_def of_blk_port)
  then have "blk_bc w' = blk_bc w" "blk_st w' = blk_st w" "blk_io w' = io'"
    by (simp_all add: io'(2) to_blk_def req_store_def of_blk_port)
  then show ?thesis using s by blast
qed

abbreviation (input) thr_turn where
  "thr_turn cb be w \<equiv> bindE (blockif_proc cb be (w\<lparr>blk_bc := dequeued (blk_bc w) be\<rparr>)) (\<lambda>w.
     bindE (blockif_complete (blk_bc w) (blk_st w) be) (\<lambda>bc. Inr (w\<lparr>blk_bc := bc\<rparr>)))"

lemma thr_turn_inv:
  assumes "thr_inv n w" "be \<in> set (bc_pendq (blk_bc w))" "thr_turn (ahci_callback iommu junk n) be w = Inr w'"
  shows "thr_inv n w'"
proof -
  let ?f = "\<lambda>w :: ahci_blk. bindE (blockif_complete (blk_bc w) (blk_st w) be) (\<lambda>bc. Inr (w\<lparr>blk_bc := bc\<rparr>))"
  have w: "idle_inv w" "held_mutex (bc_mtx (blk_bc w))" "bc_magic (blk_bc w) = BLOCKIF_SIG" "slots_inv (the_port n (blk_io w))"
    "queued (blk_bc w) = mset (iobhd (the_port n (blk_io w)))"
    "\<And>k. k \<noteq> n \<Longrightarrow> has_disk (the_port k (blk_io w)) \<Longrightarrow> port_inv (the_port k (blk_io w))"
    using assms(1) by (auto simp: thr_inv_def)
  obtain r err w1 where t: "be_req (bc_reqs (blk_bc w) be) = Some r" "r \<in># queued (blk_bc w)" "blk_bc w1 = served (blk_bc w) be"
      "same_reqs (blk_st w) (blk_st w1)" "blk_world.more w1 = blk_world.more w"
      "thr_turn (ahci_callback iommu junk n) be w = bindE (ahci_callback iommu junk n r err w1) ?f"
    using turn_parts [OF w(1) assms(2), of "ahci_callback iommu junk n" ?f] by blast
  obtain w2 where w2: "ahci_callback iommu junk n r err w1 = Inr w2" "?f w2 = Inr w'"
    using assms(3) unfolding t(6) bindE_Inr by blast
  have "held_mutex (bc_mtx (blk_bc w1))" using w(2) by (simp add: t(3) served_def dequeued_def)
  then obtain io' where c: "same_books (release n r (of_blk n w1)) io'" "blk_bc w2 = blk_bc w1" "blk_st w2 = blk_st w1" "blk_io w2 = io'"
    using callback_books [OF w2(1)] by blast
  have "blk_bc w2 = served (blk_bc w) be" "same_reqs (blk_st w) (blk_st w2)" using c(2,3) t(3,4) by simp_all
  note served_complete [OF w(1) assms(2) t(1) this]
  then obtain bc where b: "w' = w2\<lparr>blk_bc := bc\<rparr>" "idle_inv (w2\<lparr>blk_bc := bc\<rparr>)" "bc_mtx bc = bc_mtx (blk_bc w)" "bc_magic bc = bc_magic (blk_bc w)"
    "queued (blk_bc w) = add_mset r (queued bc)"
    using w2(2) by auto
  have io: "blk_io w1 = blk_io w" by (rule more_io [OF t(5)])
  have k: "books (the_port k io') = books (the_port k (release n r (of_blk n w1)))" for k
    using c(1) by (simp add: same_books_def)
  have rin: "r \<in> set (iobhd (the_port n (of_blk n w1)))" using t(2) w(5) by (simp add: of_blk_port io)
  have s1: "slots_inv (the_port n (of_blk n w1))"
    using w(4) slots_inv_cong [of "the_port n (of_blk n w1)" "the_port n (blk_io w)"] by (simp add: of_blk_port io)
  have "slots_inv (the_port n io') = slots_inv (the_port n (release n r (of_blk n w1)))"
    using k [of n] by (intro slots_inv_cong) (simp_all add: books_def)
  then have s2: "slots_inv (the_port n io')" using release_slots [OF s1 rin] by simp
  have "iobhd (the_port n io') = remove1 r (iobhd (the_port n (blk_io w)))"
    using k [of n] by (simp add: books_def release_port free_ioreq_def of_blk_port io)
  then have "queued bc = mset (iobhd (the_port n io'))" using b(5) w(5) by simp
  moreover have "port_inv (the_port k io')" if "k \<noteq> n" "has_disk (the_port k io')" for k
    using books_inv [OF k [of k]] that w(6) by (simp add: release_port of_blk_port io)
  ultimately show ?thesis using b(2-4) w(2,3) s2 c(4) by (simp add: thr_inv_def b(1))
qed

lemma thr_loop_inv:
  assumes "blockif_loop cb w = Some r" "cb = ahci_callback iommu junk n"
  shows "\<forall>w'. r = Inr w' \<longrightarrow> thr_inv n w \<longrightarrow> thr_inv n w' \<and> bc_pendq (blk_bc w') = []"
proof -
  have "cb = ahci_callback iommu junk n \<longrightarrow> (\<forall>w'. r = Inr w' \<longrightarrow> thr_inv n w \<longrightarrow> thr_inv n w' \<and> bc_pendq (blk_bc w') = [])"
    using assms(1)
  proof (rule blockif_loop.raw_induct [rotated, where P = "\<lambda>cb w r. cb = ahci_callback iommu junk n \<longrightarrow>
      (\<forall>w'. r = Inr w' \<longrightarrow> thr_inv n w \<longrightarrow> thr_inv n w' \<and> bc_pendq (blk_bc w') = [])"])
    fix loop :: "(nat, _) blk_callback \<Rightarrow> ahci_blk \<Rightarrow> ahci_blk res option" and cb w r
    assume ih: "\<And>cb w r. loop cb w = Some r \<Longrightarrow> cb = ahci_callback iommu junk n \<longrightarrow>
        (\<forall>w'. r = Inr w' \<longrightarrow> thr_inv n w \<longrightarrow> thr_inv n w' \<and> bc_pendq (blk_bc w') = [])"
      and eq: "(case blockif_dequeue (blk_bc w) 0 of
        Inl e \<Rightarrow> Some (Inl e)
      | Inr (None, bc) \<Rightarrow> Some (Inr (w\<lparr>blk_bc := bc\<rparr>))
      | Inr (Some be, bc) \<Rightarrow>
          (case bindE (blockif_proc cb be (w\<lparr>blk_bc := bc\<rparr>)) (\<lambda>w.
                  bindE (blockif_complete (blk_bc w) (blk_st w) be) (\<lambda>bc. Inr (w\<lparr>blk_bc := bc\<rparr>))) of
             Inl e \<Rightarrow> Some (Inl e)
           | Inr w \<Rightarrow> loop cb w)) = Some r"
    show "cb = ahci_callback iommu junk n \<longrightarrow> (\<forall>w'. r = Inr w' \<longrightarrow> thr_inv n w \<longrightarrow> thr_inv n w' \<and> bc_pendq (blk_bc w') = [])"
    proof (intro allI impI)
      fix w' assume cb: "cb = ahci_callback iommu junk n" and r: "r = Inr w'" and inv: "thr_inv n w"
      then have b: "blk_inv (blk_bc w) (blk_st w)" "bc_busyq (blk_bc w) = []" by (simp_all add: thr_inv_def idle_inv_def)
      from dequeue_cases [OF b] show "thr_inv n w' \<and> bc_pendq (blk_bc w') = []"
      proof
        assume "bc_pendq (blk_bc w) = [] \<and> blockif_dequeue (blk_bc w) 0 = Inr (None, blk_bc w)"
        then show ?thesis using eq r inv by auto
      next
        assume "\<exists>be\<in>set (bc_pendq (blk_bc w)). blockif_dequeue (blk_bc w) 0 = Inr (Some be, dequeued (blk_bc w) be)"
        then obtain be where be: "be \<in> set (bc_pendq (blk_bc w))"
          "blockif_dequeue (blk_bc w) 0 = Inr (Some be, dequeued (blk_bc w) be)" by blast
        obtain w1 where w1: "thr_turn cb be w = Inr w1" "loop cb w1 = Some r"
          using eq r unfolding be(2) by (auto split: sum.split_asm)
        have "thr_inv n w1" using thr_turn_inv [OF inv be(1)] w1(1) unfolding cb by blast
        then show ?thesis using ih [OF w1(2)] cb r by blast
      qed
    qed
  qed
  then show ?thesis using assms(2) by blast
qed

definition ahci_blk_at :: "nat \<Rightarrow> nat blockif_ctxt \<Rightarrow> ahci_io \<Rightarrow> ahci_blk" where
  "ahci_blk_at n bc io = \<lparr>blk_bc = bc, blk_st = req_store (the_port n io), blk_mem = a_mem io, blk_io = io\<rparr>"

lemma thr_run:
  assumes "blockif_thr True (ahci_callback iommu junk n) (ahci_blk_at n bc io) = Inr w'" "ahci_inv io" "bctx (the_port n io) = Some bc"
  shows "ahci_inv (of_blk n w')" "iobhd (the_port n (of_blk n w')) = []"
proof -
  let ?p = "the_port n io" and ?w = "ahci_blk_at n bc io"
  have inv: "slots_inv ?p" "disk_ready bc (req_store ?p)" "queued bc = mset (iobhd ?p)"
    using assms(2,3) by (auto simp: ahci_inv_def has_disk_def port_inv_slots)
  note d = disk_ready_parts [OF inv(2)]
  obtain m where m: "lock_bc bc = Inr (bc\<lparr>bc_mtx := m\<rparr>)" "held_mutex m" using lock_bc_free [OF d(2)] by blast
  let ?w0 = "?w\<lparr>blk_bc := bc\<lparr>bc_mtx := m\<rparr>\<rparr>"
  obtain r w1 where r: "blockif_loop (ahci_callback iommu junk n) ?w0 = Some r" "r = Inr w1"
    "bindE (unlock_bc (blk_bc w1)) (\<lambda>bc. Inr (w1\<lparr>blk_bc := bc\<rparr>)) = Inr w'"
    using assms(1) m(1) by (auto simp: blockif_thr_def ahci_blk_at_def bindE_Inr split: option.split_asm)
  have "idle_inv ?w0" using d(1) by (simp add: idle_inv_def ahci_blk_at_def)
  moreover have "has_disk (the_port k io) \<longrightarrow> port_inv (the_port k io)" for k using assms(2) by (simp add: ahci_inv_def)
  ultimately have "thr_inv n ?w0" using m(2) d(3) inv(1,3) by (simp add: thr_inv_def ahci_blk_at_def)
  then have w1: "thr_inv n w1" "bc_pendq (blk_bc w1) = []" using thr_loop_inv [OF r(1) refl] r(2) by blast+
  obtain m' where m': "w' = w1\<lparr>blk_bc := (blk_bc w1)\<lparr>bc_mtx := m'\<rparr>\<rparr>" "free_mutex m'"
    using unlock_bc_held [of "blk_bc w1"] w1(1) r(3) by (auto simp: thr_inv_def)
  let ?p' = "the_port n (of_blk n w')"
  have t: "idle_inv w1" "bc_magic (blk_bc w1) = BLOCKIF_SIG" "slots_inv (the_port n (blk_io w1))"
    "queued (blk_bc w1) = mset (iobhd (the_port n (blk_io w1)))"
    "\<And>k. k \<noteq> n \<Longrightarrow> has_disk (the_port k (blk_io w1)) \<Longrightarrow> port_inv (the_port k (blk_io w1))"
    using w1(1) by (auto simp: thr_inv_def)
  have p': "bctx ?p' = Some ((blk_bc w1)\<lparr>bc_mtx := m'\<rparr>)" "req_store ?p' = blk_st w1" "iobhd ?p' = iobhd (the_port n (blk_io w1))"
    by (simp_all add: of_blk_port m'(1) req_store_def)
  have "slots_inv ?p'" using t(3) slots_inv_cong [of ?p' "the_port n (blk_io w1)"] by (simp add: of_blk_port m'(1))
  moreover have "disk_ready ((blk_bc w1)\<lparr>bc_mtx := m'\<rparr>) (blk_st w1)"
    using t(1,2) m'(2) by (simp add: disk_ready_def blk_ready_def idle_inv_def)
  ultimately have "port_inv ?p'" using t(4) by (simp add: port_inv_slots p')
  moreover have "the_port k (of_blk n w') = the_port k (blk_io w1)" if "k \<noteq> n" for k
    using that by (simp add: of_blk_port m'(1))
  ultimately show "ahci_inv (of_blk n w')" using t(5) unfolding ahci_inv_def by metis
  have "mset (iobhd (the_port n (blk_io w1))) = {#}" using t(4) w1(2) by (simp add: queued_def)
  then show "iobhd ?p' = []" by (simp add: p'(3))
qed

end
