(* ===== verification/Ahci_Run.thy ===== *)
theory Ahci_Run
  imports Ahci_Init Ahci_Thread
begin

text \<open>
  Runs of the controller: its initialisation, the accesses of a driver, the turns of the
  block thread, and any change of memory and of the rest of the bus in between.
\<close>

section \<open>Runs\<close>

inductive ahci_reach :: "bool \<Rightarrow> ahci_env \<Rightarrow> pci_devinst \<times> ('f, 'a) ahci_world_scheme \<Rightarrow> bool" for iommu env where
  reach_init: "pci_ahci_init env atapi opts s = Inr (0, s') \<Longrightarrow> ahci_reach iommu env s'"
| reach_write: "ahci_reach iommu env s \<Longrightarrow> ahci_barwrite iommu junk baridx off sz v s = Inr s' \<Longrightarrow> ahci_reach iommu env s'"
| reach_read: "ahci_reach iommu env s \<Longrightarrow> ahci_barread baridx off sz s = Inr (v, s') \<Longrightarrow> ahci_reach iommu env s'"
| reach_turn: "ahci_reach iommu env (pi, w) \<Longrightarrow> ahci_blockif_thr iommu junk w = Inr w' \<Longrightarrow> ahci_reach iommu env (pi, w')"
| reach_rest: "ahci_reach iommu env (pi, w) \<Longrightarrow> w_ahci w' = w_ahci w \<Longrightarrow> w_blockif w' = w_blockif w \<Longrightarrow> ahci_reach iommu env (pi', w')"

definition accounted :: "('f, 'a) ahci_world_scheme \<Rightarrow> bool" where
  "accounted w \<longleftrightarrow> (\<exists>sc. w_ahci w = Some sc \<and> hba_inv sc)"

lemma write_accounted:
  assumes "ahci_barwrite iommu junk baridx off sz v s = Inr s'" "accounted (snd s)"
  shows "accounted (snd s')"
proof -
  obtain sc io where io: "w_ahci (snd s) = Some sc" "pci_ahci_write iommu junk baridx off v (at_hba (fst s) (snd s) sc) = Inr io"
    "s' = hba_leave io (snd s)"
    using assms(1) by (auto simp: ahci_barwrite_def bindE_Inr split: option.split_asm)
  have "hba_inv (hba io)" using write_inv [OF io(2)] assms(2) io(1) by (simp add: accounted_def hba_inv_at hba_inv_io)
  then show ?thesis by (simp add: accounted_def io(3) hba_leave_def)
qed

lemma read_accounted:
  assumes "ahci_barread baridx off sz s = Inr (v, s')" "accounted (snd s)"
  shows "accounted (snd s')"
proof -
  obtain sc io where io: "w_ahci (snd s) = Some sc" "pci_ahci_read baridx off sz (at_hba (fst s) (snd s) sc) = Inr (v, io)"
    "s' = hba_leave io (snd s)"
    using assms(1) by (auto simp: ahci_barread_def bindE_Inr split: option.split_asm)
  have "hba_inv (hba io)" using read_inv [OF io(2)] assms(2) io(1) by (simp add: accounted_def hba_inv_at hba_inv_io)
  then show ?thesis by (simp add: accounted_def io(3) hba_leave_def)
qed

lemma turn_run:
  assumes "ahci_blockif_thr iommu junk w = Inr w'" "accounted w" "w_blockif w = Some (Some n)"
  shows "\<exists>sc. w_ahci w' = Some sc \<and> hba_inv sc \<and> iobhd (port sc n) = [] \<and> bctx (port sc n) \<noteq> None"
proof -
  obtain sc where sc: "w_ahci w = Some sc" "hba_inv sc" using assms(2) by (auto simp: accounted_def)
  obtain pi bc bw where t: "bctx (port sc n) = Some bc"
    "blockif_thr True (ahci_callback iommu junk n) (ahci_blk_at n bc (at_hba pi w sc)) = Inr bw"
    "w' = put_devi (pi_bdf (asc_pi sc)) (Some (fst (hba_leave (of_blk n bw) w))) (snd (hba_leave (of_blk n bw) w))"
    using assms(1,3) sc(1)
    by (auto simp: ahci_blockif_thr_def ahci_blk_at_def Let_def bindE_Inr case_prod_beta split: option.split_asm)
  have i: "ahci_inv (at_hba pi w sc)" "bctx (the_port n (at_hba pi w sc)) = Some bc" using sc(2) t(1) by (simp_all add: hba_inv_at)
  note r = thr_run [OF t(2) i]
  have "w_ahci w' = Some (hba (of_blk n bw))"
    by (simp add: t(3) hba_leave_def put_devi_def map_slot_def split: prod.split)
  moreover have "bctx (the_port n (of_blk n bw)) \<noteq> None" by (simp add: of_blk_port)
  ultimately show ?thesis using r by (simp add: hba_inv_io the_port_def)
qed

lemma turn_accounted:
  assumes "ahci_blockif_thr iommu junk w = Inr w'" "accounted w"
  shows "accounted w'"
proof (cases "w_blockif w")
  case None
  then show ?thesis using assms by (simp add: ahci_blockif_thr_def)
next
  case (Some b)
  then obtain n where "w_blockif w = Some (Some n)" using assms(1) by (cases b) (auto simp: ahci_blockif_thr_def)
  from turn_run [OF assms this] show ?thesis by (auto simp: accounted_def)
qed

lemma reach_accounted: "ahci_reach iommu env s \<Longrightarrow> accounted (snd s)"
proof (induction rule: ahci_reach.induct)
  case (reach_init atapi opts s s')
  then show ?case unfolding accounted_def by (rule init_inv)
next
  case (reach_write s junk baridx off sz v s')
  then show ?case using write_accounted by blast
next
  case (reach_read s baridx off sz v s')
  then show ?case using read_accounted by blast
next
  case (reach_turn pi w junk w')
  then show ?case using turn_accounted by (metis snd_conv)
next
  case (reach_rest pi w w' pi')
  then show ?case by (simp add: accounted_def)
qed

section \<open>Properties\<close>

text \<open>C7: Over every run (any driver, any memory contents changing at any time, any turns of the block thread)
  the requests of each port with a disk stay accounted for: each of its request blocks is free or
  belongs to exactly one pending slot, no two blocks share a slot, exactly the blocks in use wait
  in the queue of the disk, once each, and the queue is consistent, unlocked and not full.\<close>

theorem requests_accounted:
  assumes "ahci_reach iommu env s" "w_ahci (snd s) = Some sc" "bctx (port sc k) \<noteq> None"
  shows "port_inv (port sc k)"
  using reach_accounted [OF assms(1)] assms(2,3) by (auto simp: accounted_def hba_inv_def has_disk_def)

text \<open>C22: A turn of the block thread that returns has finished all the work of the disk it serves: no request waits in
  its queue, every request block is free and no slot is pending.\<close>

theorem disk_turn_drains:
  assumes "ahci_reach iommu env (pi, w)" "w_blockif w = Some (Some n)" "ahci_blockif_thr iommu junk w = Inr w'"
  shows "\<exists>sc bc. w_ahci w' = Some sc \<and> bctx (port sc n) = Some bc \<and> queued bc = {#} \<and> pending (port sc n) = 0 \<and>
    set (iofhd (port sc n)) = {..<ioqsz (port sc n)} \<and> port_inv (port sc n)"
proof -
  have "accounted w" using reach_accounted [OF assms(1)] by simp
  then obtain sc where sc: "w_ahci w' = Some sc" "hba_inv sc" "iobhd (port sc n) = []" "bctx (port sc n) \<noteq> None"
    using turn_run [OF assms(3) _ assms(2)] by blast
  then have inv: "port_inv (port sc n)" by (simp add: hba_inv_def has_disk_def)
  then have "set (iofhd (port sc n)) = {..<ioqsz (port sc n)}" using sc(3) by (simp add: port_inv_def)
  then show ?thesis using sc(1) inv idle_pending [OF inv sc(3)] by blast
qed

text \<open>C38: A transfer that is longer than one request cannot go on: the callback of its first part has to submit the
  next one, but it runs with the queue of the disk locked, so it never returns and the whole device stops.\<close>

theorem long_transfer_stops:
  assumes "io_more (ioreq (the_port n io) i)" "bctx (the_port n io) = Some bc" "\<not> free_mutex (bc_mtx bc)"
    "a_mem io (io_cfis (ioreq (the_port n io) i) + 2) \<notin> {ATA_DATA_SET_MANAGEMENT, ATA_SEND_FPDMA_QUEUED}"
  shows "\<exists>e. ata_ioreq_cb iommu junk n i 0 io = Inl e"
proof -
  let ?a = "ioreq (the_port n io) i"
  have nd: "\<not> (a_mem io (io_cfis ?a + 2) = ATA_DATA_SET_MANAGEMENT \<or>
      a_mem io (io_cfis ?a + 2) = ATA_SEND_FPDMA_QUEUED \<and> a_mem io (io_cfis ?a + 13) AND 0x1f = ATA_SFPDMA_DSM)"
    using assms(4) by simp
  have "ata_ioreq_cb iommu junk n i 0 io \<noteq> Inr io'" for io'
  proof
    assume r: "ata_ioreq_cb iommu junk n i 0 io = Inr io'"
    obtain hdr io0 io2 where io0: "lock_hba io = Inr io0"
      "ahci_handle_rw iommu n (io_slot ?a) (io_cfis ?a) (io_done ?a) (request_back n i 0 hdr io0) = Inr io2"
      using r assms(1) nd unfolding ata_ioreq_cb_def Let_def bindE_Inr by auto
    obtain mx where mx: "io0 = with_lock mx io" using lock_hbaD [OF io0(1)] by blast
    have "locked_port n io" using assms(2,3) by (simp add: locked_port_def disk_locked_def)
    then have "locked_port n (request_back n i 0 hdr io0)" by (simp add: mx)
    then show False using locked_no_transfer handle_rw_transfers io0(2) unfolding transfers_def by blast
  qed
  then show ?thesis by (cases "ata_ioreq_cb iommu junk n i 0 io") auto
qed

section \<open>Witnesses\<close>

text \<open>A turn with nothing to do returns.\<close>

lemma idle_turn:
  assumes "w_ahci w = Some sc" "w_blockif w = Some (Some n)" "get_devi w (pi_bdf (asc_pi sc)) = Some pi" "bctx (port sc n) = Some bc"
    "free_mutex (bc_mtx bc)" "bc_pendq bc = []"
  shows "\<exists>w'. ahci_blockif_thr iommu junk w = Inr w'"
proof -
  obtain m where m: "lock_bc bc = Inr (bc\<lparr>bc_mtx := m\<rparr>)" "held_mutex m" using lock_bc_free [OF assms(5)] by blast
  let ?w = "(ahci_blk_at n bc (at_hba pi w sc))\<lparr>blk_bc := bc\<lparr>bc_mtx := m\<rparr>\<rparr>"
  have "blockif_dequeue (bc\<lparr>bc_mtx := m\<rparr>) 0 = Inr (None, bc\<lparr>bc_mtx := m\<rparr>)" using assms(6) by (simp add: blockif_dequeue_def)
  then have "blockif_loop (ahci_callback iommu junk n) ?w = Some (Inr ?w)" by (subst blockif_loop.simps) simp
  moreover obtain m' where "unlock_bc (bc\<lparr>bc_mtx := m\<rparr>) = Inr (bc\<lparr>bc_mtx := m'\<rparr>)"
    using unlock_bc_held [of "bc\<lparr>bc_mtx := m\<rparr>"] m(2) by auto
  ultimately have "\<exists>bw. blockif_thr True (ahci_callback iommu junk n) (ahci_blk_at n bc (at_hba pi w sc)) = Inr bw"
    using m(1) by (simp add: blockif_thr_def ahci_blk_at_def)
  then show ?thesis using assms(1-4) by (auto simp: ahci_blockif_thr_def ahci_blk_at_def Let_def case_prod_beta)
qed

lemma wit_reach: "\<exists>pi sc bc (w :: unit ahci_world). ahci_reach False wit_env (pi, w) \<and> w_ahci w = Some sc \<and> bctx (port sc 0) = Some bc \<and>
    w_blockif w = Some (Some 0) \<and> get_devi w (pi_bdf (asc_pi sc)) = Some pi \<and> free_mutex (bc_mtx bc) \<and> bc_pendq bc = []"
proof -
  obtain bc :: "nat blockif_ctxt" where bc: "blockif_open (bc_alloc wit_env 0) (env_base wit_env) = Some bc"
    by (auto simp: blockif_open_def wit_env_def)
  obtain pi w sc where i: "pci_ahci_init wit_env False (Some ''hd:test'') (sata_pi0, wit_sata_bus) = Inr (0, pi, w)"
    "\<exists>fi. get_func w (0, 1, 0) = Some fi" "w_ahci w = Some sc" "w_blockif w = Some (Some 0)" "sata_ready (make_ident (md5 wit_env ''test'')) bc pi sc"
    using sata_created [OF wit_fresh_sata bc] by blast
  let ?w = "put_devi (0, 1, 0) (Some pi) w"
  have k: "w_ahci ?w = w_ahci w" "w_blockif ?w = w_blockif w" by (simp_all add: put_devi_def map_slot_def)
  have "ahci_reach False wit_env (pi, ?w)" by (rule reach_rest [OF reach_init [OF i(1)] k])
  moreover have "bctx (port sc 0) = Some bc" "pi_bdf (asc_pi sc) = (0, 1, 0)"
    using i(5) by (simp_all add: sata_ready_def port_after_reset_def sata_port_def)
  moreover have "free_mutex (bc_mtx bc)" "bc_pendq bc = []"
    using bc by (auto simp: blockif_open_def free_mutex_def pthread_mutex_init_def split: if_split_asm)
  moreover have "get_devi ?w (0, 1, 0) = Some pi" using get_put_func i(2) by blast
  ultimately show ?thesis using i(3,4) k by (intro exI [of _ pi] exI [of _ sc] exI [of _ bc] exI [of _ ?w]) simp
qed

theorem requests_accounted_witness:
  "\<exists>s sc. ahci_reach False wit_env (s :: pci_devinst \<times> unit ahci_world) \<and> w_ahci (snd s) = Some sc \<and>
     bctx (port sc 0) \<noteq> None \<and> port_inv (port sc 0)"
proof -
  obtain pi sc bc and w :: "unit ahci_world" where r: "ahci_reach False wit_env (pi, w)" "w_ahci w = Some sc" "bctx (port sc 0) = Some bc"
    using wit_reach by blast
  have d: "bctx (port sc 0) \<noteq> None" using r(3) by simp
  have "w_ahci (snd (pi, w)) = Some sc" using r(2) by simp
  from requests_accounted [OF r(1) this d] show ?thesis using r(1,2) d by fastforce
qed

theorem disk_turn_drains_witness:
  "\<exists>(w :: unit ahci_world) w' sc. ahci_blockif_thr False (\<lambda>_. 0) w = Inr w' \<and> w_ahci w' = Some sc \<and> pending (port sc 0) = 0"
proof -
  obtain pi sc bc and w :: "unit ahci_world" where r: "ahci_reach False wit_env (pi, w)" "w_ahci w = Some sc" "bctx (port sc 0) = Some bc"
    "w_blockif w = Some (Some 0)" "get_devi w (pi_bdf (asc_pi sc)) = Some pi" "free_mutex (bc_mtx bc)" "bc_pendq bc = []"
    using wit_reach by blast
  obtain w' where w': "ahci_blockif_thr False (\<lambda>_. 0) w = Inr w'" using idle_turn [OF r(2,4,5,3,6,7)] by blast
  from disk_turn_drains [OF r(1,4) w'] show ?thesis using w' by blast
qed

theorem long_transfer_stops_witness:
  "let p = wit_port\<lparr>bctx := map_option (\<lambda>bc. bc\<lparr>bc_mtx := \<lparr>mtx_lock = 1\<rparr>\<rparr>) (blockif_open True 0), ioreq := (\<lambda>_. zero_ioreq\<lparr>io_more := True\<rparr>)\<rparr>
   in \<exists>e. ata_ioreq_cb False (\<lambda>_. 0) 0 3 0 (wit_hba p 0x25) = Inl e"
proof -
  let ?p = "wit_port\<lparr>bctx := map_option (\<lambda>bc. bc\<lparr>bc_mtx := \<lparr>mtx_lock = 1\<rparr>\<rparr>) (blockif_open True 0), ioreq := (\<lambda>_. zero_ioreq\<lparr>io_more := True\<rparr>)\<rparr>"
  obtain bc :: "nat blockif_ctxt" where bc: "blockif_open True 0 = Some bc" by (auto simp: blockif_open_def)
  have "\<not> free_mutex (bc_mtx (bc\<lparr>bc_mtx := \<lparr>mtx_lock = 1\<rparr>\<rparr>))" by (simp add: free_mutex_def)
  with long_transfer_stops [of 0 "wit_hba ?p 0x25" 3 "bc\<lparr>bc_mtx := \<lparr>mtx_lock = 1\<rparr>\<rparr>" False "\<lambda>_. 0"] bc
  show ?thesis by (simp add: wit_hba_sel(1,4) Let_def)
qed

end
