(* ===== verification/Ahci_Disk.thy ===== *)
theory Ahci_Disk
  imports Ahci_Run
begin

text \<open>
  A transfer from the doorbell to the completion: the command of a slot is put on the queue of
  the disk, the block thread copies between the sectors and the buffers of the command's table,
  and its callback posts the completion.
\<close>

section \<open>Posting a frame\<close>

lemma port_intr_ok:
  assumes "pr_sc (the_port n io)" "lintr_ready (asc_pi (hba io))"
  shows "\<exists>io'. ahci_port_intr n io = Inr io' \<and> lintr_ready (asc_pi (hba io'))"
proof -
  obtain pi pic where a: "pci_lintr_assert (asc_pi (hba io)) (a_pic io) = Inr (pi, pic)" "lintr_ready pi"
    using pin.up_ok [OF assms(2), of "a_pic io"] by blast
  then have "\<exists>io'. hba_assert (set_lintr True (upd_hregs f io)) = Inr io' \<and> lintr_ready (asc_pi (hba io'))" for f
    by (simp add: hba_assert_def set_lintr_def upd_hregs_def upd_hba_def)
  then show ?thesis using assms by (auto simp: ahci_port_intr_def Let_def case_unit)
qed

lemma d2h_posts:
  assumes "rfis (the_port n io) = Some F" "r_cmd (regs (the_port n io)) AND AHCI_P_CMD_FRE \<noteq> 0"
    "pr_sc (the_port n io)" "lintr_ready (asc_pi (hba io))"
  shows "\<exists>io' fis. ahci_write_fis_d2h n slot cfis tfd_ok io = Inr io' \<and> length fis = 20 \<and> fis ! 0 = 0x34 \<and> fis ! 2 = 0x50 \<and>
    a_mem io' = store_bytes (F + 0x40) fis (a_mem io) \<and> lintr_ready (asc_pi (hba io')) \<and> asc_mtx (hba io') = asc_mtx (hba io) \<and>
    the_port n io' = (the_port n io)\<lparr>regs := (regs (the_port n io))\<lparr>r_ci := r_ci (regs (the_port n io)) AND NOT (slot_bit slot),
      r_tfd := tfd_ok, r_is := r_is (regs (the_port n io)) OR 1\<rparr>\<rparr> \<and> (\<forall>k. k \<noteq> n \<longrightarrow> the_port k io' = the_port k io)"
proof -
  let ?fis = "[0x34, 0x40, 0x50, 0] @ region (a_mem io) (cfis + 4) 10 @ replicate 6 0"
  let ?io = "upd_mem (store_bytes (F + 0x40) ?fis) (upd_regs n (\<lambda>r. r\<lparr>r_tfd := tfd_ok\<rparr>) (upd_regs n (\<lambda>r. r\<lparr>r_ci := r_ci r AND NOT (slot_bit slot)\<rparr>) io))"
  have run: "ahci_write_fis_d2h n slot cfis tfd_ok io =
      (if NOT (r_is (regs (the_port n io))) AND 1 \<noteq> 0 then ahci_port_intr n (upd_regs n (\<lambda>r. r\<lparr>r_is := r_is r OR 1\<rparr>) ?io) else Inr ?io)"
    using assms(1,2)
    by (simp add: ahci_write_fis_d2h_def Let_def ahci_write_fis_def length_region)
  show ?thesis
  proof (cases "NOT (r_is (regs (the_port n io))) AND 1 = (0 :: u32)")
    case True
    then have "r_is (regs (the_port n io)) OR 1 = r_is (regs (the_port n io))"
      using and_one_bit [of "NOT (r_is (regs (the_port n io)))"]
      by (intro bit_word_eqI) (auto simp: bit_simps bit_1_iff)
    then show ?thesis using run True assms(4)
      by (intro exI [of _ ?io] exI [of _ ?fis]) (simp add: length_region)
  next
    case False
    let ?io1 = "upd_regs n (\<lambda>r. r\<lparr>r_is := r_is r OR 1\<rparr>) ?io"
    obtain io' where io': "ahci_port_intr n ?io1 = Inr io'" "lintr_ready (asc_pi (hba io'))"
      using port_intr_ok [of n ?io1] assms(3,4) by auto
    note s = port_intr_same [OF io'(1)]
    then have p: "the_port k io' = the_port k ?io1" "a_mem io' = a_mem ?io1" for k using same_ports_port by blast+
    have "asc_mtx (hba io') = asc_mtx (hba io)" using s by (simp add: same_ports_def)
    then show ?thesis using run False io' p
      by (intro exI [of _ io'] exI [of _ ?fis]) (simp add: length_region)
  qed
qed

section \<open>The callback\<close>

text \<open>The port after its only command is done.\<close>

definition port_done :: "ahci_port \<Rightarrow> nat \<Rightarrow> ahci_port \<Rightarrow> bool" where
  "port_done p slot p' \<longleftrightarrow> r_ci (regs p') = r_ci (regs p) AND NOT (slot_bit slot) \<and> r_tfd (regs p') = tfd_ok \<and>
     r_is (regs p') = r_is (regs p) OR 1 \<and> r_cmd (regs p') = r_cmd (regs p)"

lemma no_issue_returns: "issued (the_port n io) = 0 \<Longrightarrow> ahci_handle_port iommu junk n io = Inr io"
  by (subst ahci_handle_port_def, subst port_loop.simps) simp

lemma ata_cb_completes:
  assumes "rfis (the_port n io) = Some F" "r_cmd (regs (the_port n io)) AND AHCI_P_CMD_FRE \<noteq> 0" "running (the_port n io)"
    "pr_sc (the_port n io)" "lintr_ready (asc_pi (hba io))" "cmd_lst (the_port n io) = Some L" "free_mutex (asc_mtx (hba io))"
    "\<not> is_ncq (a_mem io (io_cfis (ioreq (the_port n io) i) + 2))" "\<not> io_more (ioreq (the_port n io) i)"
    "issued (the_port n io) = 0"
  defines "slot \<equiv> io_slot (ioreq (the_port n io) i)"
  shows "\<exists>io' fis. ata_ioreq_cb iommu junk n i 0 io = Inr io' \<and> free_mutex (asc_mtx (hba io')) \<and>
    length fis = 20 \<and> fis ! 0 = 0x34 \<and> fis ! 2 = 0x50 \<and>
    a_mem io' = store_bytes (F + 0x40) fis (store32 (a_mem io) (L + slot * AHCI_CL_SIZE + 4) (io_done (ioreq (the_port n io) i))) \<and>
    port_done (the_port n io) slot (the_port n io')"
proof -
  let ?p = "the_port n io" and ?a = "ioreq (the_port n io) i" and ?H = "L + slot * AHCI_CL_SIZE"
  obtain mx where mx: "lock_hba io = Inr (with_lock mx io)" "held_mutex mx" using lock_hba_free [OF assms(7)] by blast
  define io1 where "io1 = request_back n i 0 ?H (with_lock mx io)"
  have p1: "the_port n io1 = free_ioreq i ?p" "a_mem io1 = store32 (a_mem io) (?H + 4) (io_done ?a)"
    "asc_pi (hba io1) = asc_pi (hba io)" "asc_mtx (hba io1) = mx"
    by (simp_all add: io1_def request_back_def Let_def free_ioreq_def)
  have pre: "rfis (the_port n io1) = Some F" "r_cmd (regs (the_port n io1)) AND AHCI_P_CMD_FRE \<noteq> 0"
    "pr_sc (the_port n io1)" "lintr_ready (asc_pi (hba io1))"
    using assms(1-5) by (simp_all add: p1 free_ioreq_def)
  from d2h_posts [OF pre, of slot "io_cfis ?a"]
  obtain io2 fis where d: "ahci_write_fis_d2h n slot (io_cfis ?a) tfd_ok io1 = Inr io2" "length fis = 20" "fis ! 0 = 0x34" "fis ! 2 = 0x50"
    "a_mem io2 = store_bytes (F + 0x40) fis (a_mem io1)" "asc_mtx (hba io2) = asc_mtx (hba io1)"
    "the_port n io2 = (the_port n io1)\<lparr>regs := (regs (the_port n io1))\<lparr>r_ci := r_ci (regs (the_port n io1)) AND NOT (slot_bit slot),
      r_tfd := tfd_ok, r_is := r_is (regs (the_port n io1)) OR 1\<rparr>\<rparr>" by blast
  have r2: "regs (the_port n io2) = (regs ?p)\<lparr>r_ci := r_ci (regs ?p) AND NOT (slot_bit slot), r_tfd := tfd_ok, r_is := r_is (regs ?p) OR 1\<rparr>"
    "pending (the_port n io2) = pending ?p"
    by (simp_all add: d(7) p1(1) free_ioreq_def)
  have st: "ahci_check_stopped n (unpend n slot io2) = unpend n slot io2"
    using assms(3) by (simp add: ahci_check_stopped_def unpend_def r2 running_def)
  have "(w AND NOT x) AND NOT (v AND NOT x) = (w AND NOT v) AND NOT x" for w v x :: u32
    by (rule bit_word_eqI) (auto simp: bit_simps)
  then have "issued (the_port n (unpend n slot io2)) = 0" using assms(10) by (simp add: issued_def unpend_def r2)
  then have c: "command_complete iommu junk n slot io2 = Inr (unpend n slot io2)"
    using st no_issue_returns by (simp add: command_complete_def unpend_def)
  have "held_mutex (asc_mtx (hba (unpend n slot io2)))" using mx(2) d(6) p1(4) by (simp add: unpend_def)
  then obtain my where my: "unlock_hba (unpend n slot io2) = Inr (with_lock my (unpend n slot io2))" "free_mutex my"
    using unlock_hba_held by blast
  have h: "cmd_hdr n slot io = Inr ?H" using assms(6) by (simp add: cmd_hdr_def)
  have "ata_ioreq_cb iommu junk n i 0 io = Inr (with_lock my (unpend n slot io2))"
    using assms(8,9) h mx(1) d(1) c my(1)
    by (simp add: ata_ioreq_cb_def Let_def slot_def [symmetric] io1_def)
  moreover have "port_done ?p slot (the_port n (with_lock my (unpend n slot io2)))"
    by (simp add: port_done_def unpend_def r2)
  moreover have "a_mem (with_lock my (unpend n slot io2)) = store_bytes (F + 0x40) fis (store32 (a_mem io) (?H + 4) (io_done ?a))"
    using d(5) p1(2) by (simp add: unpend_def)
  ultimately show ?thesis using d(2-4) my(2) by (intro exI [of _ "with_lock my (unpend n slot io2)"] exI [of _ fis]) simp
qed

section \<open>A queue with one request\<close>

text \<open>The two directions of a transfer, and what the copy makes of the memory.\<close>

definition disk_op :: "bool \<Rightarrow> blockop" where
  "disk_op wr = (if wr then BOP_WRITE else BOP_READ)"

definition moved :: "bool \<Rightarrow> nat \<Rightarrow> iovec list \<Rightarrow> bytes \<Rightarrow> bytes" where
  "moved wr = (if wr then write_iov else read_iov)"

lemma empty_queue: "queued bc = {#} \<longleftrightarrow> bc_pendq bc = []"
  by (simp add: queued_def)

lemma submit_one:
  assumes "disk_ready bc st" "queued bc = {#}"
  shows "\<exists>be bc'. disk_submit op bc st i = Inr (0, bc') \<and> disk_ready bc' st \<and> queued bc' = {#i#} \<and> bc_pendq bc' = [be] \<and>
    be_req (bc_reqs bc' be) = Some i \<and> be_op (bc_reqs bc' be) = op \<and> bc_base bc' = bc_base bc \<and> bc_rdonly bc' = bc_rdonly bc"
proof -
  obtain bc' where bc': "disk_submit op bc st i = Inr (0, bc')" "disk_ready bc' st" "queued bc' = add_mset i (queued bc)"
    using disk.submit_law [OF assms(1), of op i] assms(2) by (auto simp: BLOCKIF_MAXREQ_def)
  have "length (bc_pendq bc') = 1" using arg_cong [OF bc'(3), of size] assms(2) by (simp add: queued_def)
  then obtain be where be: "bc_pendq bc' = [be]" by (auto simp: length_Suc_conv)
  have "be_op (bc_reqs bc' be) = op \<and> bc_base bc' = bc_base bc \<and> bc_rdonly bc' = bc_rdonly bc \<and> be_req (bc_reqs bc' be) = Some i"
    using bc'(1) be assms(2)
    by (auto simp: disk_submit_def checked_def bind_assertE blockif_request_def lock_bc_def unlock_bc_def bindE_Inr blockif_enqueue_def
      Let_def queued_def E2BIG_def assertE_def split: if_split_asm list.split_asm)
  then show ?thesis using bc' be assms(2) by (intro exI [of _ be] exI [of _ bc']) simp
qed

text \<open>The controller between the copy and the callback: only the disk and the requests in it have changed.\<close>

definition disk_part :: "nat \<Rightarrow> ahci_io \<Rightarrow> ahci_io \<Rightarrow> bool" where
  "disk_part n io io' \<longleftrightarrow> asc_mtx (hba io') = asc_mtx (hba io) \<and> asc_pi (hba io') = asc_pi (hba io) \<and>
     (\<exists>bc st. the_port n io' = (the_port n io)\<lparr>bctx := Some bc, ioreq := (\<lambda>j. (ioreq (the_port n io) j)\<lparr>io_req := st j\<rparr>)\<rparr>)"

lemma of_blk_part: "blk_io w = io \<Longrightarrow> disk_part n io (of_blk n w) \<and> a_mem (of_blk n w) = blk_mem w"
  by (auto simp: disk_part_def of_blk_port) (simp_all add: of_blk_def)

lemma thr_one:
  assumes "disk_ready bc (req_store (the_port n io))" "bctx (the_port n io) = Some bc" "bc_pendq bc = [be]" "\<not> p_atapi (the_port n io)"
    "be_req (bc_reqs bc be) = Some i" "be_op (bc_reqs bc be) = disk_op wr" "req_iov (io_req (ioreq (the_port n io) i)) = Inr iov"
    "wr \<longrightarrow> \<not> bc_rdonly bc"
    "\<And>ioc. disk_part n io ioc \<Longrightarrow> a_mem ioc = moved wr (disk_addr bc (io_req (ioreq (the_port n io) i))) iov (a_mem io) \<Longrightarrow>
      \<exists>io2. ata_ioreq_cb iommu junk n i 0 ioc = Inr io2 \<and> P io2"
  shows "\<exists>w' io2. blockif_thr True (ahci_callback iommu junk n) (ahci_blk_at n bc io) = Inr w' \<and> P io2 \<and>
    a_mem (of_blk n w') = a_mem io2 \<and> regs (the_port n (of_blk n w')) = regs (the_port n io2) \<and>
    pending (the_port n (of_blk n w')) = pending (the_port n io2)"
proof -
  let ?cb = "ahci_callback iommu junk n" and ?r = "io_req (ioreq (the_port n io) i)"
  let ?f = "\<lambda>w :: ahci_blk. bindE (blockif_complete (blk_bc w) (blk_st w) be) (\<lambda>bc. Inr (w\<lparr>blk_bc := bc\<rparr>))"
  note d = disk_ready_parts [OF assms(1)]
  obtain m where m: "lock_bc bc = Inr (bc\<lparr>bc_mtx := m\<rparr>)" "held_mutex m" using lock_bc_free [OF d(2)] by blast
  define w0 where "w0 = (ahci_blk_at n bc io)\<lparr>blk_bc := bc\<lparr>bc_mtx := m\<rparr>\<rparr>"
  have w0: "blk_bc w0 = bc\<lparr>bc_mtx := m\<rparr>" "blk_st w0 = req_store (the_port n io)" "blk_mem w0 = a_mem io" "blk_io w0 = io"
    by (simp_all add: w0_def ahci_blk_at_def)
  have idle: "idle_inv w0" using d(1) by (simp add: idle_inv_def w0)
  then have bi: "blk_inv (blk_bc w0) (blk_st w0)" "bc_busyq (blk_bc w0) = []" by (simp_all add: idle_inv_def)
  have be: "be \<in> set (bc_pendq (blk_bc w0))" "be_req (bc_reqs (blk_bc w0) be) = Some i" using assms(3,5) by (simp_all add: w0)
  have dq: "blockif_dequeue (blk_bc w0) 0 = Inr (Some be, dequeued (blk_bc w0) be)"
    using dequeue_cases [OF bi] assms(3) by (auto simp: w0)
  let ?d = "dequeued (blk_bc w0) be"
  define w1 where "w1 = (clear_resid i (w0\<lparr>blk_bc := ?d, blk_mem := moved wr (disk_addr bc ?r) iov (a_mem io)\<rparr>))\<lparr>blk_bc := served (blk_bc w0) be\<rparr>"
  have w1: "blk_bc w1 = served (blk_bc w0) be" "blk_mem w1 = moved wr (disk_addr bc ?r) iov (a_mem io)" "blk_io w1 = io"
    "same_reqs (blk_st w0) (blk_st w1)"
    by (simp_all add: w1_def clear_resid_def w0(4) same_reqs_def)
  have "disk_addr (dequeued (bc\<lparr>bc_mtx := m\<rparr>) be) ?r = disk_addr bc ?r" by (simp add: disk_addr_def dequeued_def)
  then have proc: "blockif_proc ?cb be (w0\<lparr>blk_bc := ?d\<rparr>) = ?cb i 0 w1"
    using assms(5-8) unfolding blockif_proc_def w1_def
    by (cases wr) (simp_all add: disk_op_def moved_def blk_transfer_def Let_def w0 dequeued_def served_def clear_resid_def req_store_def)
  note pt = of_blk_part [OF w1(3), of n]
  obtain io2 where io2: "ata_ioreq_cb iommu junk n i 0 (of_blk n w1) = Inr io2" "P io2"
    using assms(9) [of "of_blk n w1"] pt w1(2) by auto
  define w2 where "w2 = to_blk n io2 w1"
  have cb: "?cb i 0 w1 = Inr w2" using io2(1) assms(4) by (simp add: ahci_callback_def w1(3) w2_def)
  have "held_mutex (bc_mtx (blk_bc w1))" using m(2) by (simp add: w1(1) served_def dequeued_def w0)
  then have c: "blk_bc w2 = blk_bc w1" "blk_st w2 = blk_st w1" "blk_io w2 = io2"
    using callback_books [OF cb] by (auto simp: w2_def to_blk_def split: option.splits)
  have w2m: "blk_mem w2 = a_mem io2" by (simp add: w2_def to_blk_def split: option.split)
  obtain bc3 where b: "blockif_complete (blk_bc w2) (blk_st w2) be = Inr bc3" "bc_pendq bc3 = remove1 be (bc_pendq (blk_bc w0))"
    "bc_mtx bc3 = bc_mtx (blk_bc w0)"
    using served_complete [OF idle be c(1) [unfolded w1(1)]] w1(4) c(2) by auto
  define w3 where "w3 = w2\<lparr>blk_bc := bc3\<rparr>"
  have "bc_pendq (blk_bc w3) = []" using b(2) assms(3) by (simp add: w3_def w0)
  then have stop: "blockif_loop ?cb w3 = Some (Inr w3)"
    by (subst blockif_loop.simps) (simp add: blockif_dequeue_def)
  have "blockif_loop ?cb w0 = blockif_loop ?cb w3"
    by (subst blockif_loop.simps) (simp add: dq proc cb b(1) w3_def)
  moreover obtain m' where m': "unlock_bc bc3 = Inr (bc3\<lparr>bc_mtx := m'\<rparr>)" using unlock_bc_held [of bc3] b(3) m(2) by (auto simp: w0)
  ultimately have "blockif_thr True ?cb (ahci_blk_at n bc io) = Inr (w3\<lparr>blk_bc := bc3\<lparr>bc_mtx := m'\<rparr>\<rparr>)"
    using m(1) stop by (simp add: blockif_thr_def ahci_blk_at_def w0_def [unfolded ahci_blk_at_def] w3_def)
  then show ?thesis
    using io2(2) c(3) w2m by (intro exI [of _ "w3\<lparr>blk_bc := bc3\<lparr>bc_mtx := m'\<rparr>\<rparr>"] exI [of _ io2]) (simp add: of_blk_port w3_def of_blk_part)
qed

section \<open>From the doorbell to the queue\<close>

lemma bit_slot: "bit (slot_bit s) k \<longleftrightarrow> k = s \<and> s < 32"
  by (auto simp: slot_bit_def bit_simps dest: bit_imp_le_length)

lemma upd_port_same: "f (the_port n io) = the_port n io \<Longrightarrow> upd_port n f io = io"
  by (cases io; cases "hba io") (simp add: upd_port_def upd_hba_def the_port_def)

lemma upd_ioreq_cong: "f (ioreq (the_port n io) i) = g (ioreq (the_port n io) i) \<Longrightarrow> upd_ioreq n i f io = upd_ioreq n i g io"
  by (simp add: upd_ioreq_def upd_port_def upd_hba_def the_port_def)

lemma doorbell_step:
  fixes c s :: nat
  assumes "c < 32" "s < 32" "c \<noteq> s"
  shows "(s + 32 - (c + 1) mod 32) mod 32 < (s + 32 - c) mod 32"
proof (cases "c < s")
  case True
  then obtain d where d: "s = Suc (c + d)" using less_imp_Suc_add by blast
  have e: "s + 32 - (c + 1) mod 32 = d + 32" "s + 32 - c = Suc d + 32" using assms(2) by (simp_all add: d)
  show ?thesis unfolding e mod_add_self2 using assms(2) by (simp add: d)
next
  case False
  then show ?thesis using assms by (cases "c = 31") auto
qed

lemma walk_to:
  assumes "issued (the_port n io) = slot_bit s" "\<not> port_busy (the_port n io)" "ccs (the_port n io) < 32" "s < 32"
  shows "port_loop iommu junk n io = port_loop iommu junk n (upd_port n (\<lambda>p. p\<lparr>ccs := s\<rparr>) io)"
  using assms
proof (induction "(s + 32 - ccs (the_port n io)) mod 32" arbitrary: io rule: less_induct)
  case less
  show ?case
  proof (cases "ccs (the_port n io) = s")
    case True
    then have "upd_port n (\<lambda>p. p\<lparr>ccs := s\<rparr>) io = io" by (intro upd_port_same) (cases "the_port n io", simp)
    then show ?thesis by simp
  next
    case False
    let ?io = "next_slot n io"
    have nz: "slot_bit s \<noteq> 0" using bit_slot [of s s] less.prems(4) by (metis bit_0_eq bot_apply bot_bool_def)
    have "port_turn iommu junk n io = Inr ?io" using False less.prems(1) by (simp add: port_turn_eq standing_def bit_slot)
    then have step: "port_loop iommu junk n io = port_loop iommu junk n ?io"
      using less.prems(1,2) nz by (subst port_loop.simps) simp
    have p: "issued (the_port n ?io) = slot_bit s" "\<not> port_busy (the_port n ?io)" "ccs (the_port n ?io) < 32"
      using less.prems(1,2) by (simp_all add: next_slot_def issued_def port_busy_def)
    have "(s + 32 - (c + 1) mod 32) mod 32 < (s + 32 - c) mod 32" if "c < 32" "c \<noteq> s" for c
      by (rule doorbell_step [OF that(1) less.prems(4) that(2)])
    then have "(s + 32 - ccs (the_port n ?io)) mod 32 < (s + 32 - ccs (the_port n io)) mod 32"
      using less.prems(3) False by (simp add: next_slot_def)
    from less.hyps [OF this p less.prems(4)]
    have "port_loop iommu junk n ?io = port_loop iommu junk n (upd_port n (\<lambda>p. p\<lparr>ccs := s\<rparr>) ?io)" .
    moreover have "upd_port n (\<lambda>p. p\<lparr>ccs := s\<rparr>) ?io = upd_port n (\<lambda>p. p\<lparr>ccs := s\<rparr>) io"
      by (simp add: next_slot_def upd_port_def upd_hba_def)
    ultimately show ?thesis using step by simp
  qed
qed

text \<open>A command table that asks to move \<open>len\<close> bytes at \<open>start\<close> of the disk from or into the buffers \<open>iov\<close>.\<close>

definition table_at :: "bool \<Rightarrow> bytes \<Rightarrow> nat \<Rightarrow> nat" where
  "table_at iommu m hdr = unat (paddr_guest2host iommu (le64 m (hdr + 8)))"

definition asks_dma :: "bool \<Rightarrow> bool \<Rightarrow> bytes \<Rightarrow> nat \<Rightarrow> iovec list \<Rightarrow> int \<Rightarrow> u32 \<Rightarrow> bool" where
  "asks_dma wr iommu m hdr iov start len \<longleftrightarrow>
     (let c = table_at iommu m hdr in
      m c = FIS_TYPE_REGH2D \<and> bit (m (c + 1)) 7 \<and> m (c + 2) = (if wr then ATA_WRITE_DMA48 else ATA_READ_DMA48) \<and> length iov < BLOCKIF_IOV_MAX \<and>
      (\<exists>lba count rest. rw_range m c = (lba, count) \<and> start = sint (lba * 512) \<and> len = count * 512 \<and>
         build_iov_loop iommu m (c + 0x80) (hdr_prdtl m hdr) 0 len 0 [] = (iov, len, rest)))"

definition dma_block :: "nat \<Rightarrow> nat \<Rightarrow> iovec list \<Rightarrow> int \<Rightarrow> u32 \<Rightarrow> ahci_ioreq \<Rightarrow> bool" where
  "dma_block c slot iov start len a \<longleftrightarrow> io_cfis a = c \<and> io_slot a = slot \<and> io_done a = len \<and> \<not> io_more a \<and>
     br_iov (io_req a) = iov \<and> br_iovcnt (io_req a) = length iov \<and> br_offset (io_req a) = start"

lemma handle_rw_dma:
  assumes "port_inv (the_port n io)" "\<not> bit (pending (the_port n io)) slot" "slot < 32" "iobhd (the_port n io) = []"
    "bctx (the_port n io) = Some bc" "bc_sectsz bc = 512" "cmd_lst (the_port n io) = Some L"
    "asks_dma wr iommu (a_mem io) (L + slot * AHCI_CL_SIZE) iov start len"
  defines "c \<equiv> table_at iommu (a_mem io) (L + slot * AHCI_CL_SIZE)"
  obtains io' i be bc' rest a where "ahci_handle_rw iommu n slot c 0 io = Inr io'"
    "the_port n io' = books_with i a slot rest bc' (the_port n io)" "dma_block c slot iov start len a"
    "port_inv (the_port n io')" "bc_pendq bc' = [be]" "be_req (bc_reqs bc' be) = Some i" "be_op (bc_reqs bc' be) = disk_op wr"
    "bc_base bc' = bc_base bc" "bc_rdonly bc' = bc_rdonly bc" "a_mem io' = a_mem io" "asc_mtx (hba io') = asc_mtx (hba io)" "asc_pi (hba io') = asc_pi (hba io)"
proof -
  let ?p = "the_port n io" and ?H = "L + slot * AHCI_CL_SIZE" and ?m = "a_mem io"
  obtain i rest where i: "iofhd ?p = i # rest" using free_block [OF assms(1-3)] by blast
  obtain lba cnt r where t: "?m (c + 2) = (if wr then ATA_WRITE_DMA48 else ATA_READ_DMA48)" "length iov < BLOCKIF_IOV_MAX" "rw_range ?m c = (lba, cnt)" "start = sint (lba * 512)"
    "len = cnt * 512" "build_iov_loop iommu ?m (c + 0x80) (hdr_prdtl ?m ?H) 0 len 0 [] = (iov, len, r)"
    using assms(8) by (auto simp: asks_dma_def Let_def c_def)
  have rd: "disk_ready bc (req_store ?p)" "queued bc = {#}" using assms(1,4,5) by (auto simp: port_inv_def)
  have sect: "port_sectsz n io = Inr 512"
    using assms(5,6) disk_ready_parts(3) [OF rd(1)] by (simp add: port_sectsz_def blockif_sectsz_def checked_def bind_assertE)
  let ?f = "\<lambda>a. a\<lparr>io_cfis := c, io_slot := slot, io_len := len, io_done := 0, io_req := (io_req a)\<lparr>br_offset := start\<rparr>\<rparr>"
  let ?g = "\<lambda>a. a\<lparr>io_req := (io_req a)\<lparr>br_iov := iov, br_iovcnt := length iov, br_resid := sint len\<rparr>, io_done := len, io_more := False\<rparr>"
  let ?io1 = "upd_port n (\<lambda>p. p\<lparr>iofhd := rest\<rparr>) io"
  let ?io2 = "upd_ioreq n i ?f ?io1"
  let ?io3 = "upd_ioreq n i ?g ?io2"
  let ?a = "?g (?f (ioreq ?p i))"
  have blk: "ioreq (the_port n ?io2) i = ?f (ioreq ?p i)" by (simp add: upd_ioreq_def)
  have mem2: "a_mem ?io2 = ?m" by (simp add: upd_ioreq_def)
  have build: "ahci_build_iov iommu n i (c + 0x80) (hdr_prdtl ?m ?H) ?io2 = Inr ?io3"
    using t(2,6) by (simp add: ahci_build_iov_def Let_def blk mem2) (rule upd_ioreq_cong, simp add: blk)
  have ok: "req_ok (io_req ?a)" by (simp add: req_ok_def)
  have st: "req_store (the_port n (in_flight n slot i ?io3)) = (req_store ?p)(i := io_req ?a)"
    "bctx (the_port n (in_flight n slot i ?io3)) = Some bc"
    using assms(5) by (auto simp: req_store_def in_flight_def upd_ioreq_def)
  have "disk_ready bc ((req_store ?p)(i := io_req ?a))" by (rule disk_prepare [OF rd(1) _ ok]) (simp add: rd(2))
  from submit_one [OF this rd(2), of "disk_op wr" i]
  obtain be bc' where s: "disk_submit (disk_op wr) bc ((req_store ?p)(i := io_req ?a)) i = Inr (0, bc')" "bc_pendq bc' = [be]"
    "be_req (bc_reqs bc' be) = Some i" "be_op (bc_reqs bc' be) = disk_op wr" "bc_base bc' = bc_base bc" "bc_rdonly bc' = bc_rdonly bc" by blast
  let ?io' = "upd_port n (\<lambda>p. p\<lparr>bctx := Some bc'\<rparr>) (in_flight n slot i ?io3)"
  have sub: "submit_req (if wr then blockif_write else blockif_read) n i (in_flight n slot i ?io3) = Inr ?io'"
    unfolding disk_submits submit_req_def st using s(1) by (cases wr) (simp_all add: disk_op_def)
  have "cmd_hdr n slot ?io1 = Inr ?H" using assms(7) by (simp add: cmd_hdr_def)
  then have run: "ahci_handle_rw iommu n slot c 0 io = Inr ?io'"
    using sect i t(1,3) build sub
    by (simp add: ahci_handle_rw_def Let_def take_ioreq_def t(4,5) rw_ncq_def rw_write_def split: if_split_asm)
  obtain bc2 where "disk_submit (disk_op wr) bc ((req_store ?p)(i := io_req ?a)) i = Inr (0, bc2)" "port_inv (books_with i ?a slot rest bc2 ?p)"
    using flight_inv [OF assms(1-3) i _ ok, of "disk_op wr"] assms(5) by auto
  moreover have p: "the_port n ?io' = books_with i ?a slot rest bc' ?p"
    by (simp add: books_with_def in_flight_def upd_ioreq_def)
  ultimately have inv: "port_inv (the_port n ?io')" using s(1) by auto
  have "dma_block c slot iov start len ?a" by (simp add: dma_block_def)
  moreover have "a_mem ?io' = ?m" "asc_mtx (hba ?io') = asc_mtx (hba io)" "asc_pi (hba ?io') = asc_pi (hba io)"
    by (simp_all add: in_flight_def upd_ioreq_def)
  ultimately show thesis by (intro that [OF run p _ inv s(2-6)])
qed

lemma handle_one:
  assumes "issued (the_port n io) = slot_bit s" "\<not> port_busy (the_port n io)" "ccs (the_port n io) < 32" "s < 32" "running (the_port n io)"
    "ahci_handle_slot iommu junk n s (at_slot n (upd_port n (\<lambda>p. p\<lparr>ccs := s\<rparr>) io)) = Inr io1" "port_busy (the_port n io1)"
  shows "ahci_handle_port iommu junk n io = Inr (next_slot n io1)"
proof -
  let ?io = "upd_port n (\<lambda>p. p\<lparr>ccs := s\<rparr>) io"
  have nz: "slot_bit s \<noteq> 0" using bit_slot [of s s] assms(4) by (metis bit_0_eq bot_apply bot_bool_def)
  have iss: "issued (the_port n ?io) = slot_bit s" "\<not> port_busy (the_port n ?io)" using assms(1,2) by (simp_all add: issued_def port_busy_def)
  then have "port_turn iommu junk n ?io = Inr (next_slot n io1)"
    using assms(4,6) by (simp add: port_turn_eq standing_def bit_slot)
  then have "port_loop iommu junk n ?io = port_loop iommu junk n (next_slot n io1)"
    using iss nz by (subst port_loop.simps) simp
  moreover have "port_busy (the_port n (next_slot n io1))" using assms(7) by (simp add: next_slot_def port_busy_def)
  then have "port_loop iommu junk n (next_slot n io1) = Some (Inr (next_slot n io1))" by (subst port_loop.simps) simp
  moreover have "r_cmd (regs (the_port n io)) AND AHCI_P_CMD_ST \<noteq> 0" using assms(5) by (simp add: running_def)
  ultimately show ?thesis using walk_to [OF assms(1-4)] by (simp add: ahci_handle_port_def)
qed

text \<open>A port that waits for a command, and what the doorbell leaves of it: all but the books and the registers.\<close>

definition idle_port :: "ahci_port \<Rightarrow> bool" where
  "idle_port p \<longleftrightarrow> port_inv p \<and> r_ci (regs p) = 0 \<and> pending p = 0 \<and> \<not> port_busy p \<and> running p \<and> pr_sc p \<and> \<not> p_atapi p \<and> ccs p < 32"

definition same_setup :: "ahci_port \<Rightarrow> ahci_port \<Rightarrow> bool" where
  "same_setup p p' \<longleftrightarrow> cmd_lst p' = cmd_lst p \<and> rfis p' = rfis p \<and> p_atapi p' = p_atapi p \<and> running p' = running p \<and>
     r_is (regs p') = r_is (regs p) \<and> receiving p' = receiving p"

lemma same_setup_trans: "same_setup p q \<Longrightarrow> same_setup q r \<Longrightarrow> same_setup p r"
  by (simp add: same_setup_def)

lemma idle_books: "idle_port p \<Longrightarrow> iobhd p = []"
  using bits_slots(1) [of p] by (simp add: idle_port_def)

lemma busy_word: "(w OR 0x80) AND 0x88 \<noteq> 0" for w :: u32
proof -
  have "bit ((w OR 0x80) AND 0x88) 7" by (simp add: bit_simps)
  then show ?thesis by (metis bit_0_eq bot_apply bot_bool_def)
qed

lemma issue_dma:
  assumes "idle_port (the_port n io)" "bctx (the_port n io) = Some bc" "bc_sectsz bc = 512" "cmd_lst (the_port n io) = Some L"
    "slot < 32" "asks_dma wr iommu (a_mem io) (L + slot * AHCI_CL_SIZE) iov start len"
  defines "c \<equiv> table_at iommu (a_mem io) (L + slot * AHCI_CL_SIZE)"
  obtains io' i be bc' rest a where
    "ahci_handle_port iommu junk n (upd_regs n (\<lambda>r. r\<lparr>r_ci := r_ci r OR slot_bit slot\<rparr>) io) = Inr io'"
    "books (the_port n io') = books (books_with i a slot rest bc' (the_port n io))" "same_setup (the_port n io) (the_port n io')"
    "dma_block c slot iov start len a" "r_ci (regs (the_port n io')) = slot_bit slot"
    "bc_pendq bc' = [be]" "be_req (bc_reqs bc' be) = Some i" "be_op (bc_reqs bc' be) = disk_op wr"
    "bc_base bc' = bc_base bc" "bc_rdonly bc' = bc_rdonly bc" "a_mem io' = a_mem io" "asc_mtx (hba io') = asc_mtx (hba io)" "asc_pi (hba io') = asc_pi (hba io)"
proof -
  let ?p = "the_port n io" and ?H = "L + slot * AHCI_CL_SIZE" and ?m = "a_mem io"
  define io1 where "io1 = upd_regs n (\<lambda>r. r\<lparr>r_ci := r_ci r OR slot_bit slot\<rparr>) io"
  define io2 where "io2 = at_slot n (upd_port n (\<lambda>p. p\<lparr>ccs := slot\<rparr>) io1)"
  define io3 where "io3 = upd_regs n (\<lambda>r. r\<lparr>r_tfd := r_tfd r OR ATA_S_BUSY\<rparr>) io2"
  note ip = assms(1) [unfolded idle_port_def]
  have m: "a_mem io1 = ?m" "a_mem io2 = ?m" "a_mem io3 = ?m" by (simp_all add: io1_def io2_def io3_def)
  have p1: "issued (the_port n io1) = slot_bit slot" "\<not> port_busy (the_port n io1)" "ccs (the_port n io1) < 32" "running (the_port n io1)"
    using ip by (simp_all add: io1_def issued_def port_busy_def running_def)
  have s1: "same_setup ?p (the_port n io1)" by (simp add: same_setup_def io1_def running_def receiving_def)
  have s2: "same_setup (the_port n io1) (the_port n io2)"
    unfolding io2_def same_setup_def at_slot_quiet by (simp add: at_slot_def running_def receiving_def)
  have b3: "books (the_port n io3) = books ?p" by (simp add: books_def io3_def io2_def io1_def at_slot_def)
  then have p3: "port_inv (the_port n io3)" "\<not> bit (pending (the_port n io3)) slot" "iobhd (the_port n io3) = []" "bctx (the_port n io3) = Some bc"
    using books_inv [OF b3] idle_books [OF assms(1)] assms(2) ip by (simp_all add: books_def)
  have l3: "cmd_lst (the_port n io3) = Some L" "asks_dma wr iommu (a_mem io3) ?H iov start len"
    using assms(4,6) by (simp_all add: m) (simp add: io3_def io2_def io1_def at_slot_def)
  from handle_rw_dma [OF p3(1,2) assms(5) p3(3,4) assms(3) l3]
  obtain io4 i be bc' rest a where r: "ahci_handle_rw iommu n slot c 0 io3 = Inr io4"
    "the_port n io4 = books_with i a slot rest bc' (the_port n io3)" "dma_block c slot iov start len a"
    "bc_pendq bc' = [be]" "be_req (bc_reqs bc' be) = Some i" "be_op (bc_reqs bc' be) = disk_op wr"
    "bc_base bc' = bc_base bc" "bc_rdonly bc' = bc_rdonly bc" "a_mem io4 = a_mem io3" "asc_mtx (hba io4) = asc_mtx (hba io3)" "asc_pi (hba io4) = asc_pi (hba io3)"
    unfolding m(3) c_def by metis
  have h2: "cmd_hdr n slot io2 = Inr ?H" "pr_sc (the_port n io2)"
    using assms(4) ip by (simp_all add: cmd_hdr_def io2_def io1_def at_slot_def)
  have t: "?m c = FIS_TYPE_REGH2D" "bit (?m (c + 1)) 7" "?m (c + 2) = (if wr then ATA_WRITE_DMA48 else ATA_READ_DMA48)"
    using assms(6) by (auto simp: asks_dma_def Let_def c_def)
  have "ahci_handle_slot iommu junk n slot io2 = Inr io4" 
    using h2 t r(1) unfolding ahci_handle_slot_def
    by (simp add: Let_def m c_def table_at_def ahci_handle_cmd_def transfer_cmd_def io3_def)
  moreover have "port_busy (the_port n io4)"
    using busy_word by (simp add: port_busy_def r(2) io3_def books_with_def)
  ultimately have "ahci_handle_port iommu junk n io1 = Inr (next_slot n io4)"
    using handle_one [OF p1(1-3) assms(5) p1(4)] by (simp add: io2_def)
  moreover have "books (the_port n (next_slot n io4)) = books (books_with i a slot rest bc' ?p)"
    using b3 by (simp add: next_slot_def r(2) books_def books_with_def)
  moreover have "same_setup ?p (the_port n (next_slot n io4))"
    by (rule same_setup_trans [OF same_setup_trans [OF s1 s2]])
       (simp add: same_setup_def next_slot_def r(2) books_with_def io3_def running_def receiving_def)
  moreover have "r_ci (regs (the_port n (next_slot n io4))) = slot_bit slot"
    using ip by (simp add: next_slot_def r(2) books_with_def io3_def io2_def io1_def at_slot_def)
  moreover have "a_mem (next_slot n io4) = ?m" "asc_mtx (hba (next_slot n io4)) = asc_mtx (hba io)" "asc_pi (hba (next_slot n io4)) = asc_pi (hba io)"
    using r(9-11) by (simp_all add: next_slot_def io3_def io2_def io1_def at_slot_def)
  ultimately show thesis using r(3-8) by (intro that [of "next_slot n io4" i a rest bc' be]) (simp_all add: io1_def)
qed

section \<open>From the queue to the completion\<close>

lemma finish_dma:
  assumes "books (the_port n io) = books (books_with i a slot rest bc p)" "idle_port p" "same_setup p (the_port n io)" "receiving p"
    "dma_block c slot iov start len a" "r_ci (regs (the_port n io)) = slot_bit slot" "port_inv (the_port n io)"
    "bc_pendq bc = [be]" "be_req (bc_reqs bc be) = Some i" "be_op (bc_reqs bc be) = disk_op wr" "rfis p = Some F" "cmd_lst p = Some L"
    "lintr_ready (asc_pi (hba io))" "free_mutex (asc_mtx (hba io))" "wr \<longrightarrow> \<not> bc_rdonly bc"
  defines "m \<equiv> moved wr (nat (int (bc_base bc) + start)) iov (a_mem io)"
  assumes "\<not> is_ncq (m (c + 2))"
  obtains w' fis where "blockif_thr True (ahci_callback iommu junk n) (ahci_blk_at n bc io) = Inr w'" "length fis = 20" "fis ! 0 = 0x34"
    "a_mem (of_blk n w') = store_bytes (F + 0x40) fis (store32 m (L + slot * AHCI_CL_SIZE + 4) len)"
    "r_ci (regs (the_port n (of_blk n w'))) = 0" "r_tfd (regs (the_port n (of_blk n w'))) = tfd_ok"
    "bit (r_is (regs (the_port n (of_blk n w')))) 0"
proof -
  let ?p = "the_port n io"
  have b: "bctx ?p = Some bc" "ioreq ?p i = a" "pending ?p = slot_bit slot" "pr_sc ?p"
    using assms(1,2) by (simp_all add: books_def books_with_def idle_port_def)
  have s: "rfis ?p = Some F" "cmd_lst ?p = Some L" "running ?p" "\<not> p_atapi ?p" "r_cmd (regs ?p) AND AHCI_P_CMD_FRE \<noteq> 0"
    using assms(2-4,11,12) by (simp_all add: same_setup_def idle_port_def receiving_def)
  note a = assms(5) [unfolded dma_block_def]
  have rd: "disk_ready bc (req_store ?p)" using assms(7) b(1) by (simp add: port_inv_def)
  have iv: "req_iov (io_req (ioreq ?p i)) = Inr iov" using a by (simp add: b(2) req_iov_def)
  have m: "moved wr (disk_addr bc (io_req (ioreq ?p i))) iov (a_mem io) = m" using a by (simp add: b(2) m_def disk_addr_def)
  let ?P = "\<lambda>io2. \<exists>fis. length fis = 20 \<and> fis ! 0 = 0x34 \<and> port_done ?p slot (the_port n io2) \<and>
    a_mem io2 = store_bytes (F + 0x40) fis (store32 m (L + slot * AHCI_CL_SIZE + 4) len)"
  have cb: "\<exists>io2. ata_ioreq_cb iommu junk n i 0 ioc = Inr io2 \<and> ?P io2"
    if d: "disk_part n io ioc" and mc: "a_mem ioc = m" for ioc
  proof -
    obtain bc' st where q: "the_port n ioc = ?p\<lparr>bctx := Some bc', ioreq := (\<lambda>j. (ioreq ?p j)\<lparr>io_req := st j\<rparr>)\<rparr>"
      using d by (auto simp: disk_part_def)
    have "asc_mtx (hba ioc) = asc_mtx (hba io)" "asc_pi (hba ioc) = asc_pi (hba io)" using d by (simp_all add: disk_part_def)
    then show ?thesis
      using ata_cb_completes [of n ioc F L i iommu junk] assms(6,13,14,17) s b a
      by (auto simp: q mc running_def issued_def port_done_def)
  qed
  obtain w' io2 where w': "blockif_thr True (ahci_callback iommu junk n) (ahci_blk_at n bc io) = Inr w'" "?P io2"
    "a_mem (of_blk n w') = a_mem io2" "regs (the_port n (of_blk n w')) = regs (the_port n io2)"
    using thr_one [OF rd b(1) assms(8) s(4) assms(9,10) iv assms(15), of iommu junk ?P] cb m by auto
  then obtain fis where f: "length fis = 20" "fis ! 0 = 0x34" "port_done ?p slot (the_port n io2)"
    "a_mem io2 = store_bytes (F + 0x40) fis (store32 m (L + slot * AHCI_CL_SIZE + 4) len)" by blast
  show thesis
    using w'(3,4) f(3,4) by (intro that [OF w'(1) f(1,2)]) (simp_all add: port_done_def assms(6) bit_simps bit_1_iff)
qed

section \<open>The whole transfer\<close>

text \<open>
  A controller whose port \<open>n\<close> has a disk and nothing to do, set up by a driver: its list of commands
  is at \<open>L\<close>, the area for the frames it receives at \<open>F\<close>.
\<close>

definition ready_port :: "nat \<Rightarrow> nat \<Rightarrow> nat \<Rightarrow> nat blockif_ctxt \<Rightarrow> pci_devinst \<Rightarrow> ('f, 'a) ahci_world_scheme \<Rightarrow> pci_ahci_softc \<Rightarrow> bool" where
  "ready_port n L F bc pi w sc \<longleftrightarrow> w_ahci w = Some sc \<and> hba_inv sc \<and> free_mutex (asc_mtx sc) \<and> n < ports sc \<and> ports sc \<le> 32 \<and>
     lintr_ready pi \<and> get_func w (pi_bdf pi) \<noteq> None \<and> w_blockif w = Some (Some n) \<and> idle_port (port sc n) \<and> receiving (port sc n) \<and>
     cmd_lst (port sc n) = Some L \<and> rfis (port sc n) = Some F \<and> bctx (port sc n) = Some bc \<and> bc_sectsz bc = 512 \<and> \<not> bc_rdonly bc"

text \<open>The port after a transfer.\<close>

definition completed_port :: "ahci_port \<Rightarrow> bool" where
  "completed_port p \<longleftrightarrow> port_inv p \<and> pending p = 0 \<and> r_ci (regs p) = 0 \<and> r_tfd (regs p) = tfd_ok \<and> bit (r_is (regs p)) 0"

lemma books_run: "books p = books p' \<Longrightarrow> port_inv p = port_inv p'"
  using books_inv by metis

lemma slot_ucast: "ucast (ucast (slot_bit s) :: u64) = slot_bit s"
  by (rule bit_word_eqI) (auto simp: bit_simps dest: bit_imp_le_length)

text \<open>The buffers of a table hold what was asked for.\<close>

lemma build_iov_size:
  "build_iov_loop iommu m prdt n skip left todo iov = (iov', todo', rest) \<Longrightarrow>
   \<exists>k. iov_size iov' = iov_size iov + k \<and> todo' = todo + of_nat k \<and> k \<le> unat left"
proof (induction iommu m prdt n skip left todo iov rule: build_iov_loop.induct)
  case (1 iommu m prdt skip left todo iov)
  then show ?case by auto
next
  case (2 iommu m prdt n skip left todo iov)
  define d where "d = (le32 m (prdt + 12) AND DBCMASK) + 1"
  define e where "e = (if d - skip > left then left else d - skip)"
  have "e \<le> left" by (auto simp: e_def)
  then have e: "unat e \<le> unat left" by (simp add: word_le_nat_alt)
  show ?case
  proof (cases "length iov < BLOCKIF_IOV_MAX \<and> 0 < sint left \<and> \<not> d \<le> skip")
    case False
    then show ?thesis using 2 by (auto simp: Let_def d_def [symmetric] split: if_split_asm)
  next
    case True
    define v where "v = \<lparr>iov_base = unat (paddr_guest2host iommu (le64 m prdt + scast skip)), iov_len = unat e\<rparr>"
    have "build_iov_loop iommu m (prdt + 16) n 0 (left - e) (todo + e) (iov @ [v]) = (iov', todo', rest)"
      using "2.prems" True by (simp add: Let_def d_def [symmetric] e_def v_def)
    then obtain k where "iov_size iov' = iov_size (iov @ [v]) + k" "todo' = todo + e + of_nat k" "k \<le> unat (left - e)"
      using "2.IH"(2) [OF _ d_def _ refl e_def v_def] True by blast
    moreover have "unat (left - e) = unat left - unat e" using e by (simp add: unat_sub word_le_nat_alt)
    ultimately show ?thesis using e by (intro exI [of _ "unat e + k"]) (simp add: v_def iov_size_def)
  qed
qed

lemma asks_size: "asks_dma wr iommu m hdr iov start len \<Longrightarrow> iov_size iov = unat len"
proof -
  assume "asks_dma wr iommu m hdr iov start len"
  then obtain prdt n rest where "build_iov_loop iommu m prdt n 0 len 0 [] = (iov, len, rest)"
    by (auto simp: asks_dma_def Let_def)
  then obtain k where k: "iov_size iov = k" "len = of_nat k" "k \<le> unat len" using build_iov_size by fastforce
  have "unat len < 2 ^ 32" using unsigned_less [of len] by simp
  then show ?thesis using k by (simp add: unat_of_nat)
qed

lemma doorbell:
  assumes "ready_port n L F bc pi w sc" "slot < 32" "asks_dma wr iommu (w_ram w) (L + slot * AHCI_CL_SIZE) iov start len"
  defines "c \<equiv> table_at iommu (w_ram w) (L + slot * AHCI_CL_SIZE)"
  obtains io i be bc' rest a where
    "pci_ahci_write iommu junk 5 (port_offset n AHCI_P_CI) (ucast (slot_bit slot)) (at_hba pi w sc) = Inr io"
    "books (the_port n io) = books (books_with i a slot rest bc' (port sc n))" "same_setup (port sc n) (the_port n io)"
    "dma_block c slot iov start len a" "r_ci (regs (the_port n io)) = slot_bit slot" "ahci_inv io"
    "bc_pendq bc' = [be]" "be_req (bc_reqs bc' be) = Some i" "be_op (bc_reqs bc' be) = disk_op wr"
    "bc_base bc' = bc_base bc" "bc_rdonly bc' = bc_rdonly bc" "a_mem io = w_ram w" "free_mutex (asc_mtx (hba io))" "asc_pi (hba io) = pi"
proof -
  let ?io = "at_hba pi w sc"
  note rp = assms(1) [unfolded ready_port_def]
  have off: "unat AHCI_P_CI < 0x80" "4 dvd unat AHCI_P_CI" by simp_all
  have p: "free_mutex (asc_mtx (hba ?io))" "n < ports (hba ?io)" "ports (hba ?io) \<le> 32" "the_port n ?io = port sc n"
    using rp by (simp_all add: at_hba_def the_port_def)
  obtain mx where mx: "held_mutex mx" "pci_ahci_write iommu junk 5 (port_offset n AHCI_P_CI) (ucast (slot_bit slot)) ?io =
      bindE (pci_ahci_port_write iommu junk (port_offset n AHCI_P_CI) (ucast (slot_bit slot)) (with_lock mx ?io)) unlock_hba"
    using port_write_eq [OF p(1-3) off] by blast
  have n32: "n < 32" using p(2,3) by simp
  note parts = port_offset_parts [OF n32 off(1)]
  have wr: "pci_ahci_port_write iommu junk (port_offset n AHCI_P_CI) (ucast (slot_bit slot)) (with_lock mx ?io) =
      ahci_handle_port iommu junk n (upd_regs n (\<lambda>r. r\<lparr>r_ci := r_ci r OR slot_bit slot\<rparr>) (with_lock mx ?io))"
    using parts(1,2) slot_ucast by (simp add: pci_ahci_port_write_def Let_def)
  define io0 where "io0 = with_lock mx ?io"
  have io0: "the_port n io0 = port sc n" "a_mem io0 = w_ram w" "asc_mtx (hba io0) = mx" "asc_pi (hba io0) = pi"
    using p(4) by (simp_all add: io0_def at_hba_def)
  have q: "idle_port (the_port n io0)" "bctx (the_port n io0) = Some bc" "bc_sectsz bc = 512" "cmd_lst (the_port n io0) = Some L"
    "asks_dma wr iommu (a_mem io0) (L + slot * AHCI_CL_SIZE) iov start len"
    using rp assms(3) by (simp_all add: io0)
  obtain io1 i be bc' rest a where r: "ahci_handle_port iommu junk n (upd_regs n (\<lambda>r. r\<lparr>r_ci := r_ci r OR slot_bit slot\<rparr>) io0) = Inr io1"
    "books (the_port n io1) = books (books_with i a slot rest bc' (port sc n))" "same_setup (port sc n) (the_port n io1)"
    "dma_block c slot iov start len a" "r_ci (regs (the_port n io1)) = slot_bit slot"
    "bc_pendq bc' = [be]" "be_req (bc_reqs bc' be) = Some i" "be_op (bc_reqs bc' be) = disk_op wr"
    "bc_base bc' = bc_base bc" "bc_rdonly bc' = bc_rdonly bc" "a_mem io1 = w_ram w" "asc_mtx (hba io1) = mx" "asc_pi (hba io1) = pi"
    by (rule issue_dma [OF q(1-4) assms(2) q(5), of junk, unfolded io0, folded c_def])
  have "held_mutex (asc_mtx (hba io1))" using mx(1) r(12) by simp
  then obtain my where my: "unlock_hba io1 = Inr (with_lock my io1)" "free_mutex my" using unlock_hba_held by blast
  have w: "pci_ahci_write iommu junk 5 (port_offset n AHCI_P_CI) (ucast (slot_bit slot)) ?io = Inr (with_lock my io1)"
    by (simp add: mx(2) wr r(1) [unfolded io0_def] my(1))
  have "ahci_inv (with_lock my io1)" using write_inv [OF w] rp by (simp add: hba_inv_at)
  then show thesis using r(2-13) my(2) by (intro that [of "with_lock my io1" i a rest bc' be, OF w]) simp_all
qed

lemma transfer_run:
  assumes "ready_port n L F bc pi w sc" "slot < 32" "asks_dma wr iommu (w_ram w) (L + slot * AHCI_CL_SIZE) iov start len"
  defines "m \<equiv> moved wr (nat (int (bc_base bc) + start)) iov (w_ram w)" and "H \<equiv> L + slot * AHCI_CL_SIZE"
  assumes "m (table_at iommu (w_ram w) H + 2) = w_ram w (table_at iommu (w_ram w) H + 2)"
  obtains w1 w2 sc2 fis where
    "ahci_barwrite iommu junk 5 (port_offset n AHCI_P_CI) 4 (ucast (slot_bit slot)) (pi, w) = Inr (pi, w1)"
    "ahci_blockif_thr iommu junk (put_devi (pi_bdf pi) (Some pi) w1) = Inr w2" "w_ahci w2 = Some sc2"
    "w_ram w2 = store_bytes (F + 0x40) fis (store32 m (H + 4) len)" "length fis = 20" "fis ! 0 = 0x34"
    "completed_port (port sc2 n)" "hba_inv sc2"
proof -
  note rp = assms(1) [unfolded ready_port_def]
  let ?c = "table_at iommu (w_ram w) H"
  obtain io i be bc' rest a where
    d: "pci_ahci_write iommu junk 5 (port_offset n AHCI_P_CI) (ucast (slot_bit slot)) (at_hba pi w sc) = Inr io"
    "books (the_port n io) = books (books_with i a slot rest bc' (port sc n))" "same_setup (port sc n) (the_port n io)"
    "dma_block ?c slot iov start len a" "r_ci (regs (the_port n io)) = slot_bit slot" "ahci_inv io"
    "bc_pendq bc' = [be]" "be_req (bc_reqs bc' be) = Some i" "be_op (bc_reqs bc' be) = disk_op wr"
    "bc_base bc' = bc_base bc" "bc_rdonly bc' = bc_rdonly bc" "a_mem io = w_ram w" "free_mutex (asc_mtx (hba io))" "asc_pi (hba io) = pi"
    by (rule doorbell [OF assms(1-3), of junk, folded H_def])
  have b: "bctx (the_port n io) = Some bc'" using d(2) by (simp add: books_def books_with_def)
  then have inv: "port_inv (the_port n io)" using d(6) by (simp add: ahci_inv_def has_disk_def)
  have ncq: "\<not> is_ncq (m (?c + 2))"
    using assms(3,6) by (simp add: asks_dma_def Let_def H_def is_ncq_def)
  have l: "lintr_ready (asc_pi (hba io))" "wr \<longrightarrow> \<not> bc_rdonly bc'" using rp d(11,14) by simp_all
  from finish_dma [OF d(2) _ d(3) _ d(4,5) inv d(7-9) _ _ l(1) d(13) l(2), of F L iommu junk]
  obtain bw fis where f: "blockif_thr True (ahci_callback iommu junk n) (ahci_blk_at n bc' io) = Inr bw" "length fis = 20" "fis ! 0 = 0x34"
    "a_mem (of_blk n bw) = store_bytes (F + 0x40) fis (store32 m (H + 4) len)"
    "r_ci (regs (the_port n (of_blk n bw))) = 0" "r_tfd (regs (the_port n (of_blk n bw))) = tfd_ok" "bit (r_is (regs (the_port n (of_blk n bw)))) 0"
    using rp ncq unfolding m_def H_def d(10,12) by metis
  have r: "ahci_inv (of_blk n bw)" "iobhd (the_port n (of_blk n bw)) = []" using thr_run [OF f(1) d(6) b] .
  have "bctx (the_port n (of_blk n bw)) \<noteq> None" by (simp add: of_blk_port)
  then have pinv: "port_inv (the_port n (of_blk n bw))" using r(1) by (simp add: ahci_inv_def has_disk_def)
  let ?w1 = "w\<lparr>w_ahci := Some (hba io), w_ram := a_mem io, w_pic := a_pic io\<rparr>"
  let ?w1' = "put_devi (pi_bdf pi) (Some pi) ?w1"
  have w1: "ahci_barwrite iommu junk 5 (port_offset n AHCI_P_CI) 4 (ucast (slot_bit slot)) (pi, w) = Inr (pi, ?w1)"
    using rp d(1,14) by (simp add: ahci_barwrite_def hba_leave_def)
  obtain fi where fi: "get_func ?w1 (pi_bdf pi) = Some fi" using rp by (auto simp: get_func_def)
  have g: "get_devi ?w1' (pi_bdf pi) = Some pi" using get_put_func [OF fi] .
  have at: "at_hba pi ?w1' (hba io) = io" "w_ahci ?w1' = Some (hba io)" "w_blockif ?w1' = Some (Some n)" "bctx (port (hba io) n) = Some bc'"
    using d(14) rp b by (cases io; cases "pi_bdf pi"; simp add: at_hba_def put_devi_def map_slot_def the_port_def)+
  let ?w2 = "put_devi (pi_bdf pi) (Some (asc_pi (hba (of_blk n bw)))) (snd (hba_leave (of_blk n bw) ?w1'))"
  have w2: "ahci_blockif_thr iommu junk ?w1' = Inr ?w2"
    using f(1) g at d(14) by (simp add: ahci_blockif_thr_def ahci_blk_at_def Let_def hba_leave_def)
  have s2: "w_ahci ?w2 = Some (hba (of_blk n bw))" "w_ram ?w2 = a_mem (of_blk n bw)"
    by (cases "pi_bdf pi"; simp add: hba_leave_def put_devi_def map_slot_def)+
  show thesis
  proof (rule that [OF w1 w2 s2(1) _ f(2,3)])
    show "w_ram ?w2 = store_bytes (F + 0x40) fis (store32 m (H + 4) len)" using s2(2) f(4) by simp
    show "completed_port (port (hba (of_blk n bw)) n)"
      using f(5-7) pinv idle_pending(1) [OF pinv r(2)] by (simp add: completed_port_def the_port_def)
    show "hba_inv (hba (of_blk n bw))" using r(1) by (simp add: hba_inv_io)
  qed
qed

lemma apart_cells: "off_disk a k iov \<Longrightarrow> x \<in> \<Union> (iov_cells ` set iov) \<Longrightarrow> x < a \<or> a + k \<le> x"
  unfolding off_disk_def list_all_iff by fastforce

text \<open>What the completion writes stays off everything but the frame and the count in the header.\<close>

lemma posted_other:
  "x < h \<or> h + 4 \<le> x \<Longrightarrow> x < f \<or> f + length fis \<le> x \<Longrightarrow> store_bytes f fis (store32 m h v) x = m x"
  by (subst store_bytes_other) (auto intro: store32_other)

lemma posted_count:
  "h + 4 \<le> f \<or> f + length fis \<le> h \<Longrightarrow> load32 (store_bytes f fis (store32 m h v)) h = v"
proof -
  assume "h + 4 \<le> f \<or> f + length fis \<le> h"
  then have "load32 (store_bytes f fis (store32 m h v)) h = load32 (store32 m h v) h"
    by (intro load32_cong store_bytes_other) auto
  then show ?thesis by simp
qed

section \<open>Properties\<close>

text \<open>A read, from the doorbell to its completion.\<close>

lemma read_dma:
  assumes "ready_port n L F bc pi w sc" "slot < 32"
    "asks_dma False iommu (w_ram w) (L + slot * AHCI_CL_SIZE) iov start len"
    "iov_apart iov" "off_disk (nat (int (bc_base bc) + start)) (unat len) iov"
    "off_disk (table_at iommu (w_ram w) (L + slot * AHCI_CL_SIZE) + 2) 1 iov"
    "off_disk (L + slot * AHCI_CL_SIZE + 4) 4 iov" "off_disk (F + 0x40) 20 iov"
    "L + slot * AHCI_CL_SIZE + 8 \<le> F + 0x40 \<or> F + 0x54 \<le> L + slot * AHCI_CL_SIZE + 4"
  shows "\<exists>w1 w2 sc2. ahci_barwrite iommu junk 5 (port_offset n AHCI_P_CI) 4 (ucast (slot_bit slot)) (pi, w) = Inr (pi, w1) \<and>
    ahci_blockif_thr iommu junk (put_devi (pi_bdf pi) (Some pi) w1) = Inr w2 \<and> w_ahci w2 = Some sc2 \<and>
    iov_bytes iov (w_ram w2) = map (w_ram w) [nat (int (bc_base bc) + start)..<nat (int (bc_base bc) + start) + unat len] \<and>
    load32 (w_ram w2) (L + slot * AHCI_CL_SIZE + 4) = len \<and> w_ram w2 (F + 0x40) = 0x34 \<and>
    completed_port (port sc2 n) \<and> hba_inv sc2"
proof -
  let ?D = "nat (int (bc_base bc) + start)" and ?H = "L + slot * AHCI_CL_SIZE" and ?m = "w_ram w"
  note sz = asks_size [OF assms(3)]
  have "table_at iommu ?m ?H + 2 \<notin> \<Union> (iov_cells ` set iov)" using apart_cells [OF assms(6)] by fastforce
  then have t: "moved False ?D iov ?m (table_at iommu ?m ?H + 2) = ?m (table_at iommu ?m ?H + 2)"
    by (simp add: moved_def read_iov_other)
  obtain w1 w2 sc2 fis where r:
    "ahci_barwrite iommu junk 5 (port_offset n AHCI_P_CI) 4 (ucast (slot_bit slot)) (pi, w) = Inr (pi, w1)"
    "ahci_blockif_thr iommu junk (put_devi (pi_bdf pi) (Some pi) w1) = Inr w2" "w_ahci w2 = Some sc2"
    "w_ram w2 = store_bytes (F + 0x40) fis (store32 (moved False ?D iov ?m) (?H + 4) len)" "length fis = 20" "fis ! 0 = 0x34"
    "completed_port (port sc2 n)" "hba_inv sc2"
    by (rule transfer_run [OF assms(1-3) t])
  have "iov_bytes iov (w_ram w2) = iov_bytes iov (read_iov ?D iov ?m)"
    using apart_cells [OF assms(7)] apart_cells [OF assms(8)] r(5)
    unfolding r(4) by (intro iov_bytes_cong) (simp add: moved_def posted_other)
  also have "\<dots> = map ?m [?D..<?D + unat len]" using read_iov_bytes [of ?D iov ?m] assms(4,5) sz by simp
  finally have b: "iov_bytes iov (w_ram w2) = map ?m [?D..<?D + unat len]" .
  have "load32 (w_ram w2) (?H + 4) = len" unfolding r(4) using assms(9) r(5) by (intro posted_count) auto
  moreover have "w_ram w2 (F + 0x40) = 0x34" using r(4-6) store_bytes_nth [of 0 fis "F + 0x40"] by simp
  ultimately show ?thesis using r(1-3,7,8) b by blast
qed

text \<open>And a write.\<close>

lemma write_dma:
  assumes "ready_port n L F bc pi w sc" "slot < 32"
    "asks_dma True iommu (w_ram w) (L + slot * AHCI_CL_SIZE) iov start len"
    "off_disk (nat (int (bc_base bc) + start)) (unat len) iov"
    "let D = nat (int (bc_base bc) + start) in \<forall>(a, k)\<in>{(table_at iommu (w_ram w) (L + slot * AHCI_CL_SIZE) + 2, 1),
       (L + slot * AHCI_CL_SIZE + 4, 4), (F + 0x40, 20)}. D + unat len \<le> a \<or> a + k \<le> D"
    "L + slot * AHCI_CL_SIZE + 8 \<le> F + 0x40 \<or> F + 0x54 \<le> L + slot * AHCI_CL_SIZE + 4"
  shows "\<exists>w1 w2 sc2. ahci_barwrite iommu junk 5 (port_offset n AHCI_P_CI) 4 (ucast (slot_bit slot)) (pi, w) = Inr (pi, w1) \<and>
    ahci_blockif_thr iommu junk (put_devi (pi_bdf pi) (Some pi) w1) = Inr w2 \<and> w_ahci w2 = Some sc2 \<and>
    map (w_ram w2) [nat (int (bc_base bc) + start)..<nat (int (bc_base bc) + start) + unat len] = iov_bytes iov (w_ram w) \<and>
    load32 (w_ram w2) (L + slot * AHCI_CL_SIZE + 4) = len \<and> w_ram w2 (F + 0x40) = 0x34 \<and>
    completed_port (port sc2 n) \<and> hba_inv sc2"
proof -
  let ?D = "nat (int (bc_base bc) + start)" and ?H = "L + slot * AHCI_CL_SIZE" and ?m = "w_ram w"
  note sz = asks_size [OF assms(3)]
  have d: "?D + unat len \<le> table_at iommu ?m ?H + 2 \<or> table_at iommu ?m ?H + 3 \<le> ?D"
    "?D + unat len \<le> ?H + 4 \<or> ?H + 8 \<le> ?D" "?D + unat len \<le> F + 0x40 \<or> F + 0x54 \<le> ?D"
    using assms(5) by (auto simp: Let_def)
  have t: "moved True ?D iov ?m (table_at iommu ?m ?H + 2) = ?m (table_at iommu ?m ?H + 2)"
    using d(1) sz by (auto simp: moved_def intro: write_iov_other)
  obtain w1 w2 sc2 fis where r:
    "ahci_barwrite iommu junk 5 (port_offset n AHCI_P_CI) 4 (ucast (slot_bit slot)) (pi, w) = Inr (pi, w1)"
    "ahci_blockif_thr iommu junk (put_devi (pi_bdf pi) (Some pi) w1) = Inr w2" "w_ahci w2 = Some sc2"
    "w_ram w2 = store_bytes (F + 0x40) fis (store32 (moved True ?D iov ?m) (?H + 4) len)" "length fis = 20" "fis ! 0 = 0x34"
    "completed_port (port sc2 n)" "hba_inv sc2"
    by (rule transfer_run [OF assms(1-3) t])
  have "map (w_ram w2) [?D..<?D + unat len] = map (write_iov ?D iov ?m) [?D..<?D + unat len]"
    unfolding r(4) using d(2,3) r(5) by (intro map_cells_cong) (auto simp: moved_def intro!: posted_other)
  also have "\<dots> = iov_bytes iov ?m" using write_iov_disk [of ?D iov ?m] assms(4) sz by simp
  finally have b: "map (w_ram w2) [?D..<?D + unat len] = iov_bytes iov ?m" .
  have "load32 (w_ram w2) (?H + 4) = len" unfolding r(4) using assms(6) r(5) by (intro posted_count) auto
  moreover have "w_ram w2 (F + 0x40) = 0x34" using r(4-6) store_bytes_nth [of 0 fis "F + 0x40"] by simp
  ultimately show ?thesis using r(1-3,7,8) b by blast
qed

end
