(* ===== verification/Ahci_Complete.thy ===== *)
theory Ahci_Complete
  imports Ahci_Disk
begin

text \<open>
  Queued commands: the controller takes a command of this kind out of the issue register when it accepts it, so that
  any number of them can be with the disk at once. One turn of the block thread answers all of them.
\<close>

section \<open>The callback returns\<close>

text \<open>A port of a disk whose issue register is empty.\<close>

definition all_accepted :: "nat \<Rightarrow> ahci_io \<Rightarrow> bool" where
  "all_accepted n io \<longleftrightarrow> pr_sc (the_port n io) \<and> cmd_lst (the_port n io) \<noteq> None \<and> r_ci (regs (the_port n io)) = 0 \<and>
     \<not> p_atapi (the_port n io) \<and> lintr_ready (asc_pi (hba io))"

definition stays_accepted :: "nat \<Rightarrow> ahci_io \<Rightarrow> ahci_io \<Rightarrow> bool" where
  "stays_accepted n io io' \<longleftrightarrow> all_accepted n io' \<and> asc_mtx (hba io') = asc_mtx (hba io) \<and> ioreq (the_port n io') = ioreq (the_port n io)"

lemma stays_trans: "stays_accepted n a b \<Longrightarrow> stays_accepted n b c \<Longrightarrow> stays_accepted n a c"
  by (simp add: stays_accepted_def)

lemma intr_accepted:
  assumes "stays_accepted n io io1"
  shows "\<exists>io'. (if c then ahci_port_intr n (upd_regs n (\<lambda>r. r\<lparr>r_is := f r\<rparr>) io1) else Inr io1) = Inr io' \<and> stays_accepted n io io'"
proof -
  let ?io = "upd_regs n (\<lambda>r. r\<lparr>r_is := f r\<rparr>) io1"
  obtain io2 where io2: "ahci_port_intr n ?io = Inr io2" "lintr_ready (asc_pi (hba io2))"
    using port_intr_ok [of n ?io] assms by (auto simp: stays_accepted_def all_accepted_def)
  note s = port_intr_same [OF io2(1)]
  have "the_port n io2 = the_port n ?io" "asc_mtx (hba io2) = asc_mtx (hba io)"
    using same_ports_port [OF s] s assms by (simp_all add: same_ports_def stays_accepted_def)
  then show ?thesis using io2 assms by (simp add: stays_accepted_def all_accepted_def)
qed

lemma fis_accepted:
  assumes "all_accepted n io"
  shows "\<exists>io'. ahci_write_fis n ft fis io = Inr io' \<and> stays_accepted n io io'"
proof -
  have "stays_accepted n io (upd_mem f (if e then upd_port n (\<lambda>p. p\<lparr>waitforclear := True\<rparr>) io else io))" for f e
    using assms by (simp add: stays_accepted_def all_accepted_def)
  note i = intr_accepted [OF this]
  have r: "stays_accepted n io io" using assms by (simp add: stays_accepted_def)
  show ?thesis
    unfolding ahci_write_fis_def Let_def
    by (cases "rfis (the_port n io)"; cases "r_cmd (regs (the_port n io)) AND AHCI_P_CMD_FRE = 0"; cases "fis_place ft")
      (simp_all add: r i)
qed

lemma answer_accepted:
  assumes "all_accepted n io"
  shows "\<exists>io'. ahci_write_fis_d2h n slot cfis tfd io = Inr io' \<and> stays_accepted n io io'"
    "\<exists>io'. ahci_write_fis_sdb n slot cfis tfd io = Inr io' \<and> stays_accepted n io io'"
proof -
  let ?d = "\<lambda>b1 b2 b3 io. record_error n b1 b2 b3 cfis io" and ?c = "upd_regs n (\<lambda>r. r\<lparr>r_ci := r_ci r AND NOT (slot_bit slot)\<rparr>)"
    and ?s = "upd_regs n (\<lambda>r. r\<lparr>r_sact := r_sact r AND NOT (slot_bit slot)\<rparr>)" and ?t = "\<lambda>f. upd_regs n (\<lambda>r. r\<lparr>r_tfd := f r\<rparr>)"
  have st: "stays_accepted n io (?d b1 b2 b3 io)" "stays_accepted n io (?c io)" "stays_accepted n io (?s io)" for b1 b2 b3
    using assms by (simp_all add: stays_accepted_def all_accepted_def record_error_def)
  have t: "stays_accepted n io (?t f io1)" if "stays_accepted n io io1" for f io1
    using that by (simp add: stays_accepted_def all_accepted_def)
  have w: "\<exists>io'. ahci_write_fis n ft fis (?t f io1) = Inr io' \<and> stays_accepted n io io'" if "stays_accepted n io io1" for ft fis f io1
    using fis_accepted [of n "?t f io1" ft fis] t [OF that, of f] stays_trans by (auto simp: stays_accepted_def)
  show "\<exists>io'. ahci_write_fis_d2h n slot cfis tfd io = Inr io' \<and> stays_accepted n io io'"
    unfolding ahci_write_fis_d2h_def Let_def using st by (intro w) simp
  show "\<exists>io'. ahci_write_fis_sdb n slot cfis tfd io = Inr io' \<and> stays_accepted n io io'"
    unfolding ahci_write_fis_sdb_def Let_def using st by (intro w) simp
qed

lemma complete_accepted:
  assumes "all_accepted n io"
  shows "\<exists>io'. command_complete iommu junk n slot io = Inr io' \<and> stays_accepted n io io'"
proof -
  let ?io = "ahci_check_stopped n (unpend n slot io)"
  have "stays_accepted n io ?io"
    using assms by (simp add: stays_accepted_def all_accepted_def ahci_check_stopped_def unpend_def Let_def)
  moreover from this have "issued (the_port n ?io) = 0" by (simp add: stays_accepted_def all_accepted_def issued_def)
  ultimately show ?thesis using no_issue_returns by (simp add: command_complete_def unpend_def)
qed

lemma ata_cb_returns:
  assumes "all_accepted n io" "free_mutex (asc_mtx (hba io))" "\<not> io_more (ioreq (the_port n io) i)"
  shows "\<exists>io'. ata_ioreq_cb iommu junk n i err io = Inr io' \<and> all_accepted n io' \<and> free_mutex (asc_mtx (hba io')) \<and>
    ioreq (the_port n io') = ioreq (the_port n io)"
proof -
  let ?a = "ioreq (the_port n io) i" and ?tfd = "if err = 0 then tfd_ok else tfd_abort"
  let ?ncq = "is_ncq (a_mem io (io_cfis ?a + 2))"
  obtain L where L: "cmd_lst (the_port n io) = Some L" using assms(1) by (auto simp: all_accepted_def)
  obtain mx where mx: "lock_hba io = Inr (with_lock mx io)" "held_mutex mx" using lock_hba_free [OF assms(2)] by blast
  let ?io1 = "request_back n i err (L + io_slot ?a * AHCI_CL_SIZE) (with_lock mx io)"
  have 1: "all_accepted n ?io1" "asc_mtx (hba ?io1) = mx" "ioreq (the_port n ?io1) = ioreq (the_port n io)"
    using assms(1) by (simp_all add: all_accepted_def request_back_def Let_def free_ioreq_def)
  obtain io2 where 2: "(if ?ncq then ahci_write_fis_sdb n (io_slot ?a) (io_cfis ?a) ?tfd ?io1
      else ahci_write_fis_d2h n (io_slot ?a) (io_cfis ?a) ?tfd ?io1) = Inr io2" "stays_accepted n ?io1 io2"
    using answer_accepted [OF 1(1)] by (cases ?ncq) (simp_all only: if_True if_False, blast+)
  obtain io3 where 3: "command_complete iommu junk n (io_slot ?a) io2 = Inr io3" "stays_accepted n io2 io3"
    using complete_accepted 2(2) unfolding stays_accepted_def by blast
  have s: "stays_accepted n ?io1 io3" by (rule stays_trans [OF 2(2) 3(2)])
  obtain my where my: "unlock_hba io3 = Inr (with_lock my io3)" "free_mutex my"
    using unlock_hba_held [of io3] s mx(2) 1(2) by (auto simp: stays_accepted_def)
  have "ata_ioreq_cb iommu junk n i err io = Inr (with_lock my io3)"
    using assms(3) L mx(1) 2(1) 3(1) my(1) by (simp add: ata_ioreq_cb_def cmd_hdr_def Let_def)
  then show ?thesis using s 1(3) my(2) by (simp add: stays_accepted_def all_accepted_def)
qed

section \<open>The turn returns\<close>

text \<open>In the middle of a turn: every request that waits is the last part of its command.\<close>

definition last_parts :: "nat \<Rightarrow> ahci_blk \<Rightarrow> bool" where
  "last_parts n w \<longleftrightarrow> thr_inv n w \<and> all_accepted n (blk_io w) \<and> free_mutex (asc_mtx (hba (blk_io w))) \<and>
     (\<forall>i\<in>set (iobhd (the_port n (blk_io w))). \<not> io_more (ioreq (the_port n (blk_io w)) i))"

lemma of_blk_hba: "asc_pi (hba (of_blk n w)) = asc_pi (hba (blk_io w))" "asc_mtx (hba (of_blk n w)) = asc_mtx (hba (blk_io w))"
  by (simp_all add: of_blk_def upd_port_def upd_hba_def)

lemma of_blk_accepted: "all_accepted n (of_blk n w) = all_accepted n (blk_io w)"
  by (simp add: all_accepted_def of_blk_port of_blk_hba)

lemma last_part_turn:
  assumes "last_parts n w" "be \<in> set (bc_pendq (blk_bc w))"
  shows "\<exists>w'. thr_turn (ahci_callback iommu junk n) be w = Inr w' \<and> last_parts n w' \<and>
    bc_pendq (blk_bc w') = remove1 be (bc_pendq (blk_bc w))"
proof -
  let ?f = "\<lambda>w :: ahci_blk. bindE (blockif_complete (blk_bc w) (blk_st w) be) (\<lambda>bc. Inr (w\<lparr>blk_bc := bc\<rparr>))"
  have w: "idle_inv w" "held_mutex (bc_mtx (blk_bc w))" "queued (blk_bc w) = mset (iobhd (the_port n (blk_io w)))" "thr_inv n w"
    "all_accepted n (blk_io w)" "free_mutex (asc_mtx (hba (blk_io w)))"
    "\<And>i. i \<in> set (iobhd (the_port n (blk_io w))) \<Longrightarrow> \<not> io_more (ioreq (the_port n (blk_io w)) i)"
    using assms(1) by (auto simp: last_parts_def thr_inv_def)
  obtain r err w1 where t: "be_req (bc_reqs (blk_bc w) be) = Some r" "r \<in># queued (blk_bc w)" "blk_bc w1 = served (blk_bc w) be"
      "same_reqs (blk_st w) (blk_st w1)" "blk_world.more w1 = blk_world.more w"
      "thr_turn (ahci_callback iommu junk n) be w = bindE (ahci_callback iommu junk n r err w1) ?f"
    using turn_parts [OF w(1) assms(2), of "ahci_callback iommu junk n" ?f] by blast
  have io: "blk_io w1 = blk_io w" by (rule more_io [OF t(5)])
  have a: "all_accepted n (of_blk n w1)" "free_mutex (asc_mtx (hba (of_blk n w1)))" using w(5,6) by (simp_all add: of_blk_accepted of_blk_hba io)
  have "\<not> io_more (ioreq (the_port n (of_blk n w1)) r)" using w(3,7) t(2) by (simp add: of_blk_port io)
  from ata_cb_returns [OF a this, of iommu junk err]
  obtain io' where io': "ata_ioreq_cb iommu junk n r err (of_blk n w1) = Inr io'" "all_accepted n io'" "free_mutex (asc_mtx (hba io'))"
    "ioreq (the_port n io') = ioreq (the_port n (of_blk n w1))" by blast
  then have cb: "ahci_callback iommu junk n r err w1 = Inr (to_blk n io' w1)"
    using w(5) by (simp add: ahci_callback_def io all_accepted_def)
  have "held_mutex (bc_mtx (blk_bc w1))" using w(2) by (simp add: t(3) served_def dequeued_def)
  then obtain io2 where c: "same_books (release n r (of_blk n w1)) io2" "blk_bc (to_blk n io' w1) = blk_bc w1"
    "blk_st (to_blk n io' w1) = blk_st w1" "blk_io (to_blk n io' w1) = io2"
    using callback_books [OF cb] by blast
  have e: "io2 = io'" using c(4) by (simp add: to_blk_def split: option.split_asm)
  obtain bc where b: "?f (to_blk n io' w1) = Inr ((to_blk n io' w1)\<lparr>blk_bc := bc\<rparr>)" "bc_pendq bc = remove1 be (bc_pendq (blk_bc w))"
    using served_complete [OF w(1) assms(2) t(1), of "to_blk n io' w1"] c(2,3) t(3,4) by auto
  let ?w' = "(to_blk n io' w1)\<lparr>blk_bc := bc\<rparr>"
  have run: "thr_turn (ahci_callback iommu junk n) be w = Inr ?w'" using t(6) cb b(1) by simp
  have "iobhd (the_port n io') = remove1 r (iobhd (the_port n (blk_io w)))"
    using c(1) by (simp add: same_books_def books_def release_port free_ioreq_def of_blk_port io e)
  then have "last_parts n ?w'"
    using thr_turn_inv [OF w(4) assms(2) run] io'(2-4) w(7) set_remove1_subset
    by (fastforce simp: last_parts_def c(4) e of_blk_port io)
  then show ?thesis using run b(2) by (intro exI [of _ ?w']) simp
qed

lemma last_parts_loop:
  "last_parts n w \<Longrightarrow> \<exists>w'. blockif_loop (ahci_callback iommu junk n) w = Some (Inr w') \<and> last_parts n w' \<and> bc_pendq (blk_bc w') = []"
proof (induction "length (bc_pendq (blk_bc w))" arbitrary: w rule: less_induct)
  case less
  let ?cb = "ahci_callback iommu junk n"
  have inv: "blk_inv (blk_bc w) (blk_st w)" "bc_busyq (blk_bc w) = []"
    using less.prems by (simp_all add: last_parts_def thr_inv_def idle_inv_def)
  from dequeue_cases [OF inv] show ?case
  proof
    assume a: "bc_pendq (blk_bc w) = [] \<and> blockif_dequeue (blk_bc w) 0 = Inr (None, blk_bc w)"
    then have "blockif_loop ?cb w = Some (Inr w)" by (subst blockif_loop.simps) simp
    then show ?thesis using a less.prems by simp
  next
    assume "\<exists>be\<in>set (bc_pendq (blk_bc w)). blockif_dequeue (blk_bc w) 0 = Inr (Some be, dequeued (blk_bc w) be)"
    then obtain be where be: "be \<in> set (bc_pendq (blk_bc w))" "blockif_dequeue (blk_bc w) 0 = Inr (Some be, dequeued (blk_bc w) be)" by blast
    obtain w1 where w1: "thr_turn ?cb be w = Inr w1" "last_parts n w1" "bc_pendq (blk_bc w1) = remove1 be (bc_pendq (blk_bc w))"
      using last_part_turn [OF less.prems be(1)] by blast
    have "length (bc_pendq (blk_bc w1)) < length (bc_pendq (blk_bc w))"
      using be(1) w1(3) length_pos_if_in_set [OF be(1)] by (simp add: length_remove1)
    note less.hyps [OF this w1(2)]
    moreover have "blockif_loop ?cb w = blockif_loop ?cb w1" by (subst blockif_loop.simps) (simp add: be(2) w1(1))
    ultimately show ?thesis by simp
  qed
qed

text \<open>A controller between two operations whose port \<open>n\<close> has only commands of this kind in service.\<close>

definition queued_commands :: "nat \<Rightarrow> pci_devinst \<Rightarrow> pci_ahci_softc \<Rightarrow> bool" where
  "queued_commands n pi sc \<longleftrightarrow> hba_inv sc \<and> pr_sc (port sc n) \<and> cmd_lst (port sc n) \<noteq> None \<and> \<not> p_atapi (port sc n) \<and>
     r_ci (regs (port sc n)) = 0 \<and> lintr_ready pi \<and> free_mutex (asc_mtx sc) \<and>
     (\<forall>i\<in>set (iobhd (port sc n)). \<not> io_more (ioreq (port sc n) i))"

lemma queued_turn:
  assumes "queued_commands n pi sc" "bctx (port sc n) = Some bc"
  shows "\<exists>bw. blockif_thr True (ahci_callback iommu junk n) (ahci_blk_at n bc (at_hba pi w sc)) = Inr bw \<and>
    r_ci (regs (the_port n (of_blk n bw))) = 0"
proof -
  let ?io = "at_hba pi w sc"
  have p: "the_port k ?io = port sc k" for k by (simp add: the_port_def at_hba_def)
  have h: "asc_pi (hba ?io) = pi" "asc_mtx (hba ?io) = asc_mtx sc" by (simp_all add: at_hba_def)
  have d: "slots_inv (port sc n)" "disk_ready bc (req_store (port sc n))" "queued bc = mset (iobhd (port sc n))"
    using assms by (auto simp: queued_commands_def hba_inv_def has_disk_def port_inv_slots)
  note dr = disk_ready_parts [OF d(2)]
  obtain m where m: "lock_bc bc = Inr (bc\<lparr>bc_mtx := m\<rparr>)" "held_mutex m" using lock_bc_free [OF dr(2)] by blast
  let ?w0 = "(ahci_blk_at n bc ?io)\<lparr>blk_bc := bc\<lparr>bc_mtx := m\<rparr>\<rparr>"
  have "idle_inv ?w0" using dr(1) by (simp add: idle_inv_def ahci_blk_at_def p)
  then have "thr_inv n ?w0"
    using assms(1) m(2) dr(3) d(1,3) by (simp add: thr_inv_def ahci_blk_at_def p queued_commands_def hba_inv_def)
  then have "last_parts n ?w0"
    using assms(1) by (simp add: last_parts_def ahci_blk_at_def p all_accepted_def queued_commands_def h)
  then obtain w1 where w1: "blockif_loop (ahci_callback iommu junk n) ?w0 = Some (Inr w1)" "last_parts n w1"
    using last_parts_loop by blast
  obtain m' where m': "unlock_bc (blk_bc w1) = Inr ((blk_bc w1)\<lparr>bc_mtx := m'\<rparr>)"
    using unlock_bc_held [of "blk_bc w1"] w1(2) by (auto simp: last_parts_def thr_inv_def)
  have "blockif_thr True (ahci_callback iommu junk n) (ahci_blk_at n bc ?io) = Inr (w1\<lparr>blk_bc := (blk_bc w1)\<lparr>bc_mtx := m'\<rparr>\<rparr>)"
    using m(1) w1(1) m' by (simp add: blockif_thr_def ahci_blk_at_def)
  then show ?thesis using w1(2) by (simp add: of_blk_port last_parts_def all_accepted_def)
qed

section \<open>The property\<close>

text \<open>C13: Commands that the controller has accepted are completed: when, on a controller that is initialised, unlocked, with its
  interrupt pin connected and its bookkeeping intact, the issue register of a port with a disk is empty, so that all
  commands in service are queued ones, and the disk works on the last part of each of them, a turn of the block thread
  returns, whatever the requests are, whether they succeed or fail and whatever memory holds. Each of them has then been
  answered: no request waits in the queue, no slot is pending, every request block is free and the issue register is still empty.\<close>

theorem queued_commands_complete:
  assumes "w_ahci w = Some sc" "w_blockif w = Some (Some n)" "get_devi w (pi_bdf (asc_pi sc)) = Some pi" "queued_commands n pi sc"
  shows "\<exists>w' sc' bc. ahci_blockif_thr iommu junk w = Inr w' \<and> w_ahci w' = Some sc' \<and> bctx (port sc' n) = Some bc \<and> queued bc = {#} \<and>
    pending (port sc' n) = 0 \<and> set (iofhd (port sc' n)) = {..<ioqsz (port sc' n)} \<and> r_ci (regs (port sc' n)) = 0"
proof -
  have inv: "hba_inv sc" "pr_sc (port sc n)" using assms(4) by (simp_all add: queued_commands_def)
  then obtain bc where bc: "bctx (port sc n) = Some bc" by (auto simp: hba_inv_def has_disk_def port_inv_def)
  obtain bw where bw: "blockif_thr True (ahci_callback iommu junk n) (ahci_blk_at n bc (at_hba pi w sc)) = Inr bw"
    "r_ci (regs (the_port n (of_blk n bw))) = 0"
    using queued_turn [OF assms(4) bc] by blast
  define w' where "w' = put_devi (pi_bdf (asc_pi sc)) (Some (fst (hba_leave (of_blk n bw) w))) (snd (hba_leave (of_blk n bw) w))"
  have run: "ahci_blockif_thr iommu junk w = Inr w'"
    using assms(1-3) bc bw(1) by (simp add: ahci_blockif_thr_def ahci_blk_at_def Let_def case_prod_beta w'_def)
  have "accounted w" using assms(1) inv(1) by (simp add: accounted_def)
  from turn_run [OF run this assms(2)]
  obtain sc' where sc': "w_ahci w' = Some sc'" "hba_inv sc'" "iobhd (port sc' n) = []" "bctx (port sc' n) \<noteq> None" by blast
  then have pinv: "port_inv (port sc' n)" by (simp add: hba_inv_def has_disk_def)
  have "sc' = hba (of_blk n bw)" using sc'(1) by (simp add: w'_def hba_leave_def put_devi_def map_slot_def split: prod.split_asm)
  then have "r_ci (regs (port sc' n)) = 0" using bw(2) by (simp add: the_port_def)
  moreover have "set (iofhd (port sc' n)) = {..<ioqsz (port sc' n)}" using pinv sc'(3) by (simp add: port_inv_def)
  ultimately show ?thesis using run sc'(1) idle_pending [OF pinv sc'(3)] by blast
qed

section \<open>Two commands\<close>

text \<open>Two requests wait on the port of \<open>wit_disk\<close>, for the slots 3 and 5.\<close>

lemma wit_two: "\<exists>p. port_inv p \<and> pr_sc p \<and> cmd_lst p \<noteq> None \<and> \<not> p_atapi p \<and> r_ci (regs p) = 0 \<and> iobhd p = [1, 0] \<and>
    pending p = 0x28 \<and> (\<forall>i. \<not> io_more (ioreq p i))"
proof -
  let ?a = "\<lambda>s. zero_ioreq\<lparr>io_slot := s\<rparr>"
  have ok: "req_ok (io_req (?a s))" for s by (simp add: zero_ioreq_def req_ok_def)
  have i: "iofhd wit_disk = 0 # [1..<71]" by (simp add: wit_disk_def upt_conv_Cons)
  have "\<not> bit (pending wit_disk) 3" using wit_disk_inv(3) by simp
  then obtain b1 where p1: "port_inv (books_with 0 (?a 3) 3 [1..<71] b1 wit_disk)"
    using flight_inv [OF wit_disk_inv(1) _ _ i, of 3 "?a 3"] ok by auto
  let ?p1 = "books_with 0 (?a 3) 3 [1..<71] b1 wit_disk"
  have j: "iofhd ?p1 = 1 # [2..<71]" by (simp add: books_with_def upt_conv_Cons)
  have "\<not> bit (pending ?p1) 5" using wit_disk_inv(3) by (simp add: books_with_def slot_bit_def bit_simps)
  then obtain b2 where p2: "port_inv (books_with 1 (?a 5) 5 [2..<71] b2 ?p1)"
    using flight_inv [OF p1 _ _ j, of 5 "?a 5"] ok by auto
  show ?thesis
    using p2 by (intro exI [of _ "books_with 1 (?a 5) 5 [2..<71] b2 ?p1"])
      (simp add: books_with_def wit_disk_def wit_port_def zero_port_def zero_ioreq_def slot_bit_def)
qed

theorem queued_commands_complete_witness:
  "\<exists>(w :: unit ahci_world) w' sc sc'. w_ahci w = Some sc \<and> iobhd (port sc 0) = [1, 0] \<and> pending (port sc 0) = 0x28 \<and>
     ahci_blockif_thr False (\<lambda>_. 0) w = Inr w' \<and> w_ahci w' = Some sc' \<and> pending (port sc' 0) = 0"
proof -
  obtain p where p: "port_inv p" "pr_sc p" "cmd_lst p \<noteq> None" "\<not> p_atapi p" "r_ci (regs p) = 0" "iobhd p = [1, 0]"
    "pending p = 0x28" "\<forall>i. \<not> io_more (ioreq p i)" using wit_two by blast
  define sc where "sc = (zero_hba wit_devinst)\<lparr>ports := 6, port := (\<lambda>_. p)\<rparr>"
  have sel: "port sc k = p" "asc_pi sc = wit_devinst" "free_mutex (asc_mtx sc)" for k
    by (simp_all add: sc_def zero_hba_def free_mutex_def pthread_mutex_init_def)
  then have q: "queued_commands 0 wit_devinst sc"
    using p wit_devinst_ready(1) by (simp add: queued_commands_def hba_inv_def)
  define w :: "unit ahci_world" where "w = put_devi (0, 0, 0) (Some wit_devinst) (wit_sata_bus\<lparr>w_ahci := Some sc, w_blockif := Some (Some 0)\<rparr>)"
  have w: "w_ahci w = Some sc" "w_blockif w = Some (Some 0)" by (simp_all add: w_def put_devi_def map_slot_def)
  have "\<exists>fi. get_func (wit_sata_bus\<lparr>w_ahci := Some sc, w_blockif := Some (Some 0)\<rparr>) (0, 0, 0) = Some fi"
    by (simp add: get_func_def wit_sata_bus_def e1000_world.extend_def wit_bus_def zero_bus_def zero_slot_def)
  moreover have "pi_bdf wit_devinst = (0, 0, 0)" by (simp add: wit_devinst_def pi_bdf_def)
  ultimately have "get_devi w (pi_bdf (asc_pi sc)) = Some wit_devinst" using get_put_func by (simp only: sel w_def) blast
  from queued_commands_complete [OF w this q, of False "\<lambda>_. 0"]
  obtain w' sc' where "ahci_blockif_thr False (\<lambda>_. 0) w = Inr w'" "w_ahci w' = Some sc'" "pending (port sc' 0) = 0" by blast
  then show ?thesis using w(1) p(6,7) sel(1) by (intro exI [of _ w] exI [of _ w'] exI [of _ sc] exI [of _ sc']) simp
qed

end
