(* ===== verification/Emul_Iommu.thy ===== *)
theory Emul_Iommu
  imports Emul_Link
begin

text \<open>
  The IOMMU registers of \<open>src/emul_iommu.c\<close> and the invalidation of a translation
  in \<open>src/tlb.c\<close>. The coprocessor registers and the TLB of the CPU, which \<open>tlb.c\<close>
  reaches by instructions, follow the MIPS64 architecture.
\<close>

section \<open>The translation buffer\<close>

record tlb_entry =
  te_hi :: u64
  te_mask :: u64
  te_lo0 :: u64
  te_lo1 :: u64

record cp0 =
  cp_pagemask :: u64
  cp_entryhi :: u64
  cp_entrylo0 :: u64
  cp_entrylo1 :: u64
  cp_index :: int
  cp_tlb :: "tlb_entry list"

text \<open>The constants of \<open>tlb.c\<close>.\<close>

definition PAGE_MASK :: u64 where "PAGE_MASK = mask 12"

definition TLBHI_VPN2_MASK :: u64 where
  "TLBHI_VPN2_MASK = drop_bit 23 (push_bit 23 (NOT (push_bit 13 1 - 1)))"

definition TLBHI_R_MASK :: u64 where "TLBHI_R_MASK = push_bit 62 3"

definition TLBHI_ENTRY :: "u64 \<Rightarrow> u64 \<Rightarrow> u64" where
  "TLBHI_ENTRY va asid = (va AND TLBHI_R_MASK) OR (va AND TLBHI_VPN2_MASK) OR (asid AND 0xff)"

text \<open>
  An entry matches if it has the region and the pair of pages under its mask, and
  the address space unless both halves are global. \<open>tlbp\<close> finds the matching entry;
  no match leaves a negative index.
\<close>

definition te_match :: "u64 \<Rightarrow> tlb_entry \<Rightarrow> bool" where
  "te_match hi te \<longleftrightarrow>
     te_hi te AND (TLBHI_R_MASK OR TLBHI_VPN2_MASK) AND NOT (te_mask te) =
       hi AND (TLBHI_R_MASK OR TLBHI_VPN2_MASK) AND NOT (te_mask te) \<and>
     (te_lo0 te AND te_lo1 te AND 1 = 1 \<or> te_hi te AND 0xff = hi AND 0xff)"

fun first_match :: "u64 \<Rightarrow> tlb_entry list \<Rightarrow> nat \<Rightarrow> int" where
  "first_match hi [] i = -1"
| "first_match hi (te # tes) i = (if te_match hi te then int i else first_match hi tes (i + 1))"

definition tlb_probe :: "cp0 \<Rightarrow> cp0" where
  "tlb_probe c = c\<lparr>cp_index := first_match (cp_entryhi c) (cp_tlb c) 0\<rparr>"

definition tlb_write_indexed :: "cp0 \<Rightarrow> cp0" where
  "tlb_write_indexed c = c\<lparr>cp_tlb := (cp_tlb c)[nat (cp_index c) :=
     \<lparr>te_hi = cp_entryhi c, te_mask = cp_pagemask c, te_lo0 = cp_entrylo0 c, te_lo1 = cp_entrylo1 c\<rparr>]\<rparr>"

definition tlb_invalidate_address :: "u64 \<Rightarrow> cp0 \<Rightarrow> cp0" where
  "tlb_invalidate_address va c =
     (let va = va AND NOT PAGE_MASK;
          c = tlb_probe (c\<lparr>cp_pagemask := 0, cp_entryhi := TLBHI_ENTRY va 0\<rparr>);
          i = cp_index c
      in if i \<ge> 0
         then tlb_write_indexed (c\<lparr>cp_entrylo0 := 0, cp_entrylo1 := 0, cp_pagemask := 0, cp_index := i\<rparr>)
         else c)"

section \<open>The registers\<close>

record iommu_state =
  kernel_segmap :: u64
  iommu_cp0 :: cp0

definition MIPS_XKPHYS_CACHED_NC :: u64 where "MIPS_XKPHYS_CACHED_NC = 0x9800000000000000"
definition MIPS_XKPHYS_UNCACHED :: u64 where "MIPS_XKPHYS_UNCACHED = 0x9000000000000000"

text \<open>A use of the uninitialised \<open>val\<close> is undefined.\<close>

definition emul_iommu :: "emul_link \<Rightarrow> epw_request \<Rightarrow> iommu_state \<Rightarrow> iommu_state res" where
  "emul_iommu el req st =
     (if emul_offset el req = 0 then
        (if rq_is_write req then
           (case rq_val req of
              None \<Rightarrow> Inl Undefined
            | Some v \<Rightarrow> Inr (st\<lparr>iommu_cp0 := tlb_invalidate_address v (iommu_cp0 st)\<rparr>))
         else Inr st)
      else if emul_offset el req = 8 then
        (case rq_val req of
           None \<Rightarrow> Inl Undefined
         | Some v \<Rightarrow> Inr (st\<lparr>kernel_segmap := (v AND NOT MIPS_XKPHYS_CACHED_NC) OR MIPS_XKPHYS_UNCACHED\<rparr>))
      else Inr st)"

definition emul_iommu_activate :: "iommu_state \<Rightarrow> iommu_state" where
  "emul_iommu_activate st = st"


section \<open>Invalidation\<close>

lemma first_match_cases:
  "first_match hi tes k = -1 \<and> (\<forall>te\<in>set tes. \<not> te_match hi te) \<or>
   (\<exists>i<length tes. first_match hi tes k = int (k + i) \<and> te_match hi (tes ! i))"
proof (induction tes arbitrary: k)
  case (Cons te tes)
  show ?case
  proof (cases "te_match hi te")
    case True
    then show ?thesis by (intro disjI2 exI [of _ 0]) simp
  next
    case False
    then have f: "first_match hi (te # tes) k = first_match hi tes (k + 1)" by simp
    from Cons.IH [of "k + 1"] show ?thesis
    proof
      assume "first_match hi tes (k + 1) = -1 \<and> (\<forall>te\<in>set tes. \<not> te_match hi te)"
      then show ?thesis using False f by simp
    next
      assume "\<exists>i<length tes. first_match hi tes (k + 1) = int (k + 1 + i) \<and> te_match hi (tes ! i)"
      then obtain i where i: "i < length tes" "first_match hi tes (k + 1) = int (k + 1 + i)" "te_match hi (tes ! i)"
        by blast
      then show ?thesis unfolding f by (intro disjI2 exI [of _ "Suc i"]) simp
    qed
  qed
qed simp

definition page_entryhi :: "u64 \<Rightarrow> u64" where
  "page_entryhi va = TLBHI_ENTRY (va AND NOT PAGE_MASK) 0"

definition cleared_entry :: "u64 \<Rightarrow> tlb_entry" where
  "cleared_entry va = \<lparr>te_hi = page_entryhi va, te_mask = 0, te_lo0 = 0, te_lo1 = 0\<rparr>"

lemma invalidate_eq:
  "cp_tlb (tlb_invalidate_address va c) =
     (let i = first_match (page_entryhi va) (cp_tlb c) 0
      in if 0 \<le> i then (cp_tlb c)[nat i := cleared_entry va] else cp_tlb c)"
  by (simp add: tlb_invalidate_address_def tlb_probe_def tlb_write_indexed_def Let_def page_entryhi_def
      cleared_entry_def)

text \<open>No two entries of the buffer match one address, as the architecture demands.\<close>

definition no_shadow :: "u64 \<Rightarrow> tlb_entry list \<Rightarrow> bool" where
  "no_shadow hi tes \<longleftrightarrow>
     (\<forall>i<length tes. \<forall>j<length tes. te_match hi (tes ! i) \<and> te_match hi (tes ! j) \<longrightarrow> i = j)"

text \<open>C35: Invalidating an address through the IOMMU's first register removes its translation: afterwards
  every entry of the translation buffer that matches the address in address space 0 has both its
  pages invalid and unmapped, and every entry that did not match is as before.\<close>

theorem translation_invalidated:
  assumes "no_shadow (page_entryhi va) (cp_tlb (iommu_cp0 st))"
    and "emul_offset el req = 0" "rq_is_write req" "rq_val req = Some va"
  shows "\<exists>st'. emul_iommu el req st = Inr st' \<and> kernel_segmap st' = kernel_segmap st \<and>
    length (cp_tlb (iommu_cp0 st')) = length (cp_tlb (iommu_cp0 st)) \<and>
    (\<forall>i<length (cp_tlb (iommu_cp0 st)).
       let old = cp_tlb (iommu_cp0 st) ! i; new = cp_tlb (iommu_cp0 st') ! i
       in if te_match (page_entryhi va) old then te_lo0 new = 0 \<and> te_lo1 new = 0 else new = old)"
proof -
  let ?hi = "page_entryhi va" and ?tes = "cp_tlb (iommu_cp0 st)"
  have r: "emul_iommu el req st = Inr (st\<lparr>iommu_cp0 := tlb_invalidate_address va (iommu_cp0 st)\<rparr>)"
    using assms(2-4) by (simp add: emul_iommu_def)
  from first_match_cases [of ?hi ?tes 0]
  show ?thesis
  proof
    assume "first_match ?hi ?tes 0 = -1 \<and> (\<forall>te\<in>set ?tes. \<not> te_match ?hi te)"
    then show ?thesis unfolding r by (simp add: invalidate_eq Let_def)
  next
    assume "\<exists>i<length ?tes. first_match ?hi ?tes 0 = int (0 + i) \<and> te_match ?hi (?tes ! i)"
    then obtain i where i: "i < length ?tes" "first_match ?hi ?tes 0 = int i" "te_match ?hi (?tes ! i)" by auto
    then have only: "j = i" if "j < length ?tes" "te_match ?hi (?tes ! j)" for j
      using assms(1) that by (simp add: no_shadow_def)
    have t: "cp_tlb (tlb_invalidate_address va (iommu_cp0 st)) = ?tes[i := cleared_entry va]"
      using i(2) by (simp add: invalidate_eq)
    have "let old = ?tes ! j; new = ?tes[i := cleared_entry va] ! j
        in if te_match ?hi old then te_lo0 new = 0 \<and> te_lo1 new = 0 else new = old" if "j < length ?tes" for j
    proof (cases "j = i")
      case True
      then show ?thesis using i by (simp add: cleared_entry_def)
    next
      case False
      then show ?thesis using only [OF that] by (auto simp: Let_def)
    qed
    then show ?thesis unfolding r by (simp add: t)
  qed
qed

definition wit_iommu :: iommu_state where
  "wit_iommu = \<lparr>kernel_segmap = 0, iommu_cp0 = \<lparr>cp_pagemask = 0, cp_entryhi = 0, cp_entrylo0 = 0,
     cp_entrylo1 = 0, cp_index = 0, cp_tlb =
       [\<lparr>te_hi = 0x2000, te_mask = 0, te_lo0 = 6, te_lo1 = 6\<rparr>, \<lparr>te_hi = 0x4000, te_mask = 0, te_lo0 = 6, te_lo1 = 6\<rparr>]\<rparr>\<rparr>"

definition wit_iommu_link :: emul_link where
  "wit_iommu_link = \<lparr>el_base = 0x60000, el_size = 0x100, el_target = Emul_iommu 0, el_type = MSGDMA_IOMMU\<rparr>"

definition wit_iommu_req :: epw_request where
  "wit_iommu_req = \<lparr>rq_addr = 0xfdb60000, rq_is_write = True, rq_data = (\<lambda>_. 0)(2 := 0x40), rq_data_len = 4,
     rq_flit_size = 4, rq_byte_enable = 4, rq_burst_count = 0\<rparr>"

lemma word_cat_64_0: "(word_cat (64 :: u8) (0 :: u8) :: u16) = 0x4000"
  by (simp add: word_cat_eq)

lemma wit_iommu_vals:
  "rq_val wit_iommu_req = Some 0x4000" "page_entryhi 0x4000 = 0x4000"
  "emul_offset wit_iommu_link wit_iommu_req = 0" "rq_is_write wit_iommu_req"
  by (simp_all add: rq_val_def wit_iommu_req_def wit_iommu_link_def page_entryhi_def TLBHI_ENTRY_def TLBHI_R_MASK_def
      TLBHI_VPN2_MASK_def PAGE_MASK_def emul_offset_def EPW_WINDOW_def load32_def load16_def word_cat_64_0 word_cat_eq mask_eq_exp_minus_1)

theorem translation_invalidated_witness:
  "\<exists>st'. emul_iommu wit_iommu_link wit_iommu_req wit_iommu = Inr st' \<and>
     te_lo0 (cp_tlb (iommu_cp0 st') ! 1) = 0 \<and>
     cp_tlb (iommu_cp0 st') ! 0 = \<lparr>te_hi = 0x2000, te_mask = 0, te_lo0 = 6, te_lo1 = 6\<rparr>"
proof -
  have m: "\<not> te_match 0x4000 (cp_tlb (iommu_cp0 wit_iommu) ! 0)" "te_match 0x4000 (cp_tlb (iommu_cp0 wit_iommu) ! 1)"
    and l: "length (cp_tlb (iommu_cp0 wit_iommu)) = 2"
    and e: "cp_tlb (iommu_cp0 wit_iommu) ! 0 = \<lparr>te_hi = 0x2000, te_mask = 0, te_lo0 = 6, te_lo1 = 6\<rparr>" by code_simp+
  have n: "no_shadow (page_entryhi 0x4000) (cp_tlb (iommu_cp0 wit_iommu))"
    using m(1) by (auto simp: no_shadow_def l wit_iommu_vals less_2_cases_iff)
  show ?thesis
    using translation_invalidated [OF n wit_iommu_vals(3,4,1)] m
    by (auto simp: l wit_iommu_vals less_2_cases_iff all_conj_distrib Let_def e)
qed

end
