(* ===== verification/Emul_Msgdma.thy ===== *)
theory Emul_Msgdma
  imports Emul_Iommu Fifo Pci_Intr
begin

text \<open>
  The emulated DMA controller of \<open>src/emul_msgdma.c\<close>: one channel that sends and one that
  receives, each with the registers of the controller and of its prefetcher, and a
  ring of descriptors in the guest's memory.

  Registers and bits are those of the Altera mSGDMA core. The layout of a descriptor
  belongs to its driver, which is not part of this repository: descriptors are a
  store of records with the fields the code uses, as \<open>le32toh\<close> reads them. The FIFO
  driver is a parameter, and what the code asks of its interrupts is a list of calls.
\<close>

section \<open>State\<close>

abbreviation (input) DMA_STATUS :: u64 where "DMA_STATUS \<equiv> 0x00"
abbreviation (input) DMA_CONTROL :: u64 where "DMA_CONTROL \<equiv> 0x04"
abbreviation (input) CONTROL_RESET :: u64 where "CONTROL_RESET \<equiv> 0x02"
abbreviation (input) CONTROL_GIEM :: u32 where "CONTROL_GIEM \<equiv> 0x10"
abbreviation (input) PF_CONTROL :: u64 where "PF_CONTROL \<equiv> 0x00"
abbreviation (input) PF_NEXT_LO :: u64 where "PF_NEXT_LO \<equiv> 0x04"
abbreviation (input) PF_NEXT_HI :: u64 where "PF_NEXT_HI \<equiv> 0x08"
abbreviation (input) PF_POLL_FREQ :: u64 where "PF_POLL_FREQ \<equiv> 0x0c"
abbreviation (input) PF_STATUS :: u64 where "PF_STATUS \<equiv> 0x10"
abbreviation (input) CONTROL_OWN :: u32 where "CONTROL_OWN \<equiv> 0x40000000"

definition DM_MSGDMA0_INTR :: nat where "DM_MSGDMA0_INTR = 18"
definition DM_MSGDMA1_INTR :: nat where "DM_MSGDMA1_INTR = 17"
definition MIPS_XKPHYS_UNCACHED_BASE :: u64 where "MIPS_XKPHYS_UNCACHED_BASE = 0x9000000000000000"

record msgdma_desc =
  md_read_lo :: u32
  md_read_hi :: u32
  md_write_lo :: u32
  md_write_hi :: u32
  md_length :: u32
  md_next :: u32
  md_transferred :: u32
  md_control :: u32

type_synonym desc_store = "u64 \<Rightarrow> msgdma_desc"

record msgdma_csr =
  dma_status :: u32
  dma_control :: u32

record msgdma_pf =
  pf_control :: u32
  pf_next_lo :: u32
  pf_next_hi :: u32
  pf_poll_freq :: u32
  pf_status :: u32

record msgdma_softc =
  ms_csr :: msgdma_csr
  ms_pf :: msgdma_pf
  poll_en :: bool
  ms_unit :: nat
  cur_desc :: u64
  ms_sem :: nat
  ms_fifo_log :: "fifo_call list"

section \<open>Polling\<close>

definition emul_msgdma_next_desc :: "msgdma_desc \<Rightarrow> u64" where
  "emul_msgdma_next_desc d = ucast (md_next d) OR MIPS_XKPHYS_UNCACHED_BASE"

definition send_soft_irq :: "msgdma_softc \<Rightarrow> pic_log \<Rightarrow> pic_log" where
  "send_soft_irq sc pic =
     (if dma_control (ms_csr sc) AND CONTROL_GIEM = 0 then pic
      else pic @ [Ip_set (if ms_unit sc = 1 then DM_MSGDMA1_INTR else DM_MSGDMA0_INTR)])"

text \<open>
  The build options: \<open>ext\<close> says that descriptors carry 64-bit addresses, \<open>iommu\<close> is
  \<open>CONFIG_IOMMU\<close>.
\<close>

definition desc_iov :: "bool \<Rightarrow> bool \<Rightarrow> nat \<Rightarrow> msgdma_desc \<Rightarrow> iovec" where
  "desc_iov ext iommu unit d =
     (let lo = (if unit = 0 then md_read_lo d else md_write_lo d);
          hi = (if unit = 0 then md_read_hi d else md_write_hi d);
          base = ucast lo OR (if ext then push_bit 32 (ucast hi) else 0);
          base = (if iommu then base else base OR MIPS_XKPHYS_UNCACHED_BASE)
      in \<lparr>iov_base = unat base, iov_len = unat (md_length d)\<rparr>)"

text \<open>The FIFO's two calls, on a vector of one region: the bytes taken or delivered.\<close>

definition fifo_process :: "'f fifo_ops \<Rightarrow> nat \<Rightarrow> iovec \<Rightarrow> 'f \<times> bytes \<Rightarrow> int \<times> 'f \<times> bytes" where
  "fifo_process ops unit iov s =
     (if unit = 0 then (case fifo_process_tx ops (fst s) [iov] (snd s) of (n, f) \<Rightarrow> (n, f, snd s))
      else fifo_process_rx ops (fst s) [iov] (snd s))"

definition owned :: "desc_store \<Rightarrow> u64 \<Rightarrow> bool" where
  "owned ds a \<longleftrightarrow> md_control (ds a) AND CONTROL_OWN \<noteq> 0"

definition desc_done :: "int \<Rightarrow> msgdma_desc \<Rightarrow> msgdma_desc" where
  "desc_done n d = d\<lparr>md_transferred := word_of_int n, md_control := md_control d AND NOT CONTROL_OWN\<rparr>"

text \<open>
  The loop: the number of descriptors processed, the current one, the descriptors,
  the FIFO and the memory. The last test of the loop sees a pointer that is never null.
\<close>

lemma owned_done: "owned ds a \<Longrightarrow> {b. owned (ds(a := desc_done n (ds a))) b} \<subset> {b. owned ds b}"
  by (auto simp: owned_def desc_done_def and.assoc split: if_splits)

function poll_loop ::
    "'f fifo_ops \<Rightarrow> bool \<Rightarrow> bool \<Rightarrow> nat \<Rightarrow> nat \<Rightarrow> u64 \<Rightarrow> desc_store \<Rightarrow> 'f \<times> bytes
     \<Rightarrow> nat \<times> u64 \<times> desc_store \<times> 'f \<times> bytes" where
  "poll_loop ops ext iommu unit count cur ds s =
     (if \<not> owned ds cur then (count, cur, ds, s)
      else
        (case fifo_process ops unit (desc_iov ext iommu unit (ds cur)) s of
           (n, s') \<Rightarrow>
             if n \<le> 0 then (count, cur, ds, s')
             else
               (let ds' = ds(cur := desc_done n (ds cur)); next = emul_msgdma_next_desc (ds' cur)
                in if next = 0 then (count + 1, next, ds', s')
                   else poll_loop ops ext iommu unit (count + 1) next ds' s')))"
  by pat_completeness auto
termination
  by (relation "measure (\<lambda>(_, _, _, _, _, _, ds, _). card {b. owned ds b})")
    (simp_all add: psubset_card_mono owned_done)

declare poll_loop.simps [simp del]

record 'f dma_io =
  di_descs :: desc_store
  di_ram :: bytes
  di_fifo :: 'f
  di_pic :: pic_log

definition emul_msgdma_poll ::
    "'f fifo_ops \<Rightarrow> bool \<Rightarrow> bool \<Rightarrow> msgdma_softc \<times> 'f dma_io \<Rightarrow> msgdma_softc \<times> 'f dma_io" where
  "emul_msgdma_poll ops ext iommu s =
     (let (sc, io) = s in
      if \<not> poll_en sc then (sc, io)
      else
        (case poll_loop ops ext iommu (ms_unit sc) 0 (cur_desc sc) (di_descs io) (di_fifo io, di_ram io) of
           (count, cur, ds, f, m) \<Rightarrow>
             (sc\<lparr>cur_desc := cur\<rparr>,
              io\<lparr>di_descs := ds, di_ram := m, di_fifo := f,
                 di_pic := (if count > 0 then send_soft_irq sc (di_pic io) else di_pic io)\<rparr>)))"

section \<open>Registers\<close>

definition emul_msgdma_poll_enable :: "msgdma_softc \<Rightarrow> int \<times> msgdma_softc" where
  "emul_msgdma_poll_enable sc =
     (if pf_next_lo (ms_pf sc) = 0 then (-1, sc)
      else
        (0, sc\<lparr>cur_desc := ucast (pf_next_lo (ms_pf sc)) OR MIPS_XKPHYS_UNCACHED_BASE, poll_en := True,
               ms_fifo_log := ms_fifo_log sc @ Interrupts_disable (ms_unit sc) #
                 (if ms_unit sc = 1 then [Set_callback (ms_unit sc), Interrupts_enable (ms_unit sc)] else [])\<rparr>))"

text \<open>A read puts the four bytes of the register into the reply.\<close>

definition reply32 :: "u32 \<Rightarrow> epw_request \<Rightarrow> epw_request" where
  "reply32 v req = req\<lparr>rq_data := store32 (rq_data req) 0 v\<rparr>"

definition csr_r :: "msgdma_softc \<Rightarrow> u64 \<Rightarrow> epw_request \<Rightarrow> epw_request" where
  "csr_r sc offset req =
     (if offset = DMA_STATUS then reply32 (dma_status (ms_csr sc)) req
      else if offset = DMA_CONTROL then reply32 (dma_control (ms_csr sc)) req
      else req)"

definition csr_w :: "u64 \<Rightarrow> u64 \<Rightarrow> msgdma_softc \<Rightarrow> msgdma_softc" where
  "csr_w offset val sc =
     (if offset = DMA_STATUS then sc\<lparr>ms_csr := (ms_csr sc)\<lparr>dma_status := ucast val\<rparr>\<rparr>
      else if offset = DMA_CONTROL then
        (if val AND CONTROL_RESET \<noteq> 0 then sc\<lparr>ms_csr := \<lparr>dma_status = 0, dma_control = 0\<rparr>\<rparr>
         else sc\<lparr>ms_csr := (ms_csr sc)\<lparr>dma_control := ucast val\<rparr>\<rparr>)
      else sc)"

definition pf_r :: "msgdma_softc \<Rightarrow> u64 \<Rightarrow> epw_request \<Rightarrow> epw_request" where
  "pf_r sc offset req =
     (let pf = ms_pf sc in
      if offset = PF_CONTROL then reply32 (pf_control pf) req
      else if offset = PF_NEXT_LO then reply32 (pf_next_lo pf) req
      else if offset = PF_NEXT_HI then reply32 (pf_next_hi pf) req
      else if offset = PF_POLL_FREQ then reply32 (pf_poll_freq pf) req
      else if offset = PF_STATUS then reply32 (pf_status pf) req
      else req)"

definition upd_pf :: "(msgdma_pf \<Rightarrow> msgdma_pf) \<Rightarrow> msgdma_softc \<Rightarrow> msgdma_softc" where
  "upd_pf f sc = sc\<lparr>ms_pf := f (ms_pf sc)\<rparr>"

definition pf_w :: "u64 \<Rightarrow> u64 \<Rightarrow> msgdma_softc \<Rightarrow> msgdma_softc" where
  "pf_w offset val sc =
     (if offset = PF_CONTROL then upd_pf (\<lambda>pf. pf\<lparr>pf_control := ucast val\<rparr>) sc
      else if offset = PF_NEXT_LO then upd_pf (\<lambda>pf. pf\<lparr>pf_next_lo := ucast val\<rparr>) sc
      else if offset = PF_NEXT_HI then upd_pf (\<lambda>pf. pf\<lparr>pf_next_hi := ucast val\<rparr>) sc
      else if offset = PF_POLL_FREQ then
        (let sc = upd_pf (\<lambda>pf. pf\<lparr>pf_poll_freq := ucast val\<rparr>) sc
         in if val \<noteq> 0 then snd (emul_msgdma_poll_enable sc) else sc)
      else if offset = PF_STATUS then upd_pf (\<lambda>pf. pf\<lparr>pf_status := ucast val\<rparr>) sc
      else sc)"

definition emul_msgdma ::
    "emul_link \<Rightarrow> epw_request \<times> msgdma_softc \<Rightarrow> (epw_request \<times> msgdma_softc) res" where
  "emul_msgdma el s =
     (let (req, sc) = s; offset = emul_offset el req in
      if rq_is_write req then
        (case rq_val req of
           None \<Rightarrow> Inl Undefined
         | Some val \<Rightarrow> Inr (req, if el_type el = MSGDMA_CSR then csr_w offset val sc else pf_w offset val sc))
      else Inr (if el_type el = MSGDMA_CSR then csr_r sc offset req else pf_r sc offset req, sc))"

section \<open>The receiving thread\<close>

text \<open>Whether the thread could be created; its semaphore starts at one.\<close>

definition emul_msgdma_rx_init :: "bool \<Rightarrow> msgdma_softc \<Rightarrow> int \<times> msgdma_softc" where
  "emul_msgdma_rx_init created sc = (if created then 0 else -1, sc\<lparr>ms_sem := 1\<rparr>)"

definition emul_msgdma_fifo_intr :: "msgdma_softc \<Rightarrow> msgdma_softc" where
  "emul_msgdma_fifo_intr sc = (if ms_unit sc = 1 then sc\<lparr>ms_sem := ms_sem sc + 1\<rparr> else sc)"

text \<open>One turn of the thread's loop, \<open>None\<close> while it waits.\<close>

definition emul_msgdma_work ::
    "'f fifo_ops \<Rightarrow> bool \<Rightarrow> bool \<Rightarrow> msgdma_softc \<times> 'f dma_io \<Rightarrow> (msgdma_softc \<times> 'f dma_io) option" where
  "emul_msgdma_work ops ext iommu s =
     (case s of (sc, io) \<Rightarrow>
        if ms_sem sc = 0 then None
        else Some (emul_msgdma_poll ops ext iommu (sc\<lparr>ms_sem := ms_sem sc - 1\<rparr>, io)))"


section \<open>The reference: one run of owned descriptors\<close>

lemma next_not_null: "emul_msgdma_next_desc d \<noteq> 0"
proof
  assume "emul_msgdma_next_desc d = 0"
  then have "bit (emul_msgdma_next_desc d) 63 = bit (0 :: u64) 63" by simp
  then show False by (simp add: emul_msgdma_next_desc_def MIPS_XKPHYS_UNCACHED_BASE_def bit_simps)
qed

text \<open>
  The descriptors from \<open>cur\<close> on along their links that the controller owns, up to
  the first that it does not own or that has been met before.
\<close>

function owned_run :: "desc_store \<Rightarrow> u64 set \<Rightarrow> u64 \<Rightarrow> u64 list" where
  "owned_run ds seen cur =
     (if owned ds cur \<and> cur \<notin> seen
      then cur # owned_run ds (insert cur seen) (emul_msgdma_next_desc (ds cur)) else [])"
  by pat_completeness auto
termination
proof (relation "measure (\<lambda>(_, seen, _). card (- seen))")
  show "\<And>ds seen cur. owned ds cur \<and> cur \<notin> seen \<Longrightarrow>
      ((ds, insert cur seen, emul_msgdma_next_desc (ds cur)), (ds, seen, cur)) \<in> measure (\<lambda>(_, seen, _). card (- seen))"
    by (auto intro!: psubset_card_mono)
qed simp

declare owned_run.simps [simp del]

text \<open>The FIFO on the descriptors of a list in their order, until it takes no more.\<close>

fun serve :: "'f fifo_ops \<Rightarrow> bool \<Rightarrow> bool \<Rightarrow> nat \<Rightarrow> msgdma_desc list \<Rightarrow> 'f \<times> bytes \<Rightarrow> int list \<times> 'f \<times> bytes" where
  "serve ops ext iommu unit [] s = ([], s)"
| "serve ops ext iommu unit (d # rest) s =
     (case fifo_process ops unit (desc_iov ext iommu unit d) s of
        (n, s) \<Rightarrow> if n \<le> 0 then ([], s)
                  else (case serve ops ext iommu unit rest s of (ns, s) \<Rightarrow> (n # ns, s)))"

fun complete :: "desc_store \<Rightarrow> (u64 \<times> int) list \<Rightarrow> desc_store" where
  "complete ds [] = ds"
| "complete ds ((a, n) # rest) = complete (ds(a := desc_done n (ds a))) rest"

text \<open>Where the poll stands after \<open>k\<close> descriptors.\<close>

definition run_end :: "desc_store \<Rightarrow> u64 \<Rightarrow> u64 list \<Rightarrow> u64" where
  "run_end ds cur as = (if as = [] then cur else emul_msgdma_next_desc (ds (last as)))"

lemma next_done [simp]: "emul_msgdma_next_desc (desc_done n d) = emul_msgdma_next_desc d"
  by (simp add: emul_msgdma_next_desc_def desc_done_def)

lemma owned_upd: "owned (ds(a := desc_done n (ds a))) x \<longleftrightarrow> owned ds x \<and> x \<noteq> a"
  by (auto simp: owned_def desc_done_def and.assoc)

lemma owned_run_upd: "owned_run (ds(a := desc_done n (ds a))) seen x = owned_run ds (insert a seen) x"
proof (induction "ds(a := desc_done n (ds a))" seen x rule: owned_run.induct)
  case (1 seen x)
  show ?case
  proof (cases "owned ds x \<and> x \<noteq> a \<and> x \<notin> seen")
    case True
    then have "owned_run (ds(a := desc_done n (ds a))) (insert x seen) (emul_msgdma_next_desc (ds x))
        = owned_run ds (insert a (insert x seen)) (emul_msgdma_next_desc (ds x))"
      using 1 by (simp add: owned_upd)
    then show ?thesis using True
      by (simp add: owned_run.simps [of "ds(a := desc_done n (ds a))" seen x] owned_run.simps [of ds "insert a seen" x]
          owned_upd insert_commute)
  next
    case False
    then show ?thesis
      by (auto simp: owned_run.simps [of "ds(a := desc_done n (ds a))" seen x] owned_run.simps [of ds "insert a seen" x]
          owned_upd)
  qed
qed

lemma owned_run_fresh: "set (owned_run ds seen x) \<inter> seen = {}"
proof (induction ds seen x rule: owned_run.induct)
  case (1 ds seen cur)
  then show ?case by (subst owned_run.simps) auto
qed

lemma map_upd_fresh: "a \<notin> set xs \<Longrightarrow> map (ds(a := d)) xs = map ds xs"
  by (induction xs) auto

lemma length_serve: "length (fst (serve ops ext iommu unit ds s)) \<le> length ds"
  by (induction ds arbitrary: s) (auto split: prod.splits simp: Let_def, metis fst_conv)

text \<open>The loop is the reference.\<close>

lemma poll_loop_eq:
  "poll_loop ops ext iommu unit count cur ds s =
     (let as = owned_run ds {} cur;
          (ns, s') = serve ops ext iommu unit (map ds as) s;
          k = length ns
      in (count + k, run_end ds cur (take k as), complete ds (zip as ns), s'))"
proof (induction ops ext iommu unit count cur ds s rule: poll_loop.induct)
  case (1 ops ext iommu unit count cur ds s)
  show ?case
  proof (cases "owned ds cur")
    case False
    then show ?thesis
      by (simp add: poll_loop.simps owned_run.simps Let_def run_end_def)
  next
    case True
    obtain n s1 where p: "fifo_process ops unit (desc_iov ext iommu unit (ds cur)) s = (n, s1)" by (metis surj_pair)
    have r: "owned_run ds {} cur = cur # owned_run ds {cur} (emul_msgdma_next_desc (ds cur))"
      using True by (simp add: owned_run.simps)
    show ?thesis
    proof (cases "n \<le> 0")
      case le: True
      then show ?thesis using True p r
        by (simp add: poll_loop.simps Let_def run_end_def)
    next
      case pos: False
      define ds' where "ds' = ds(cur := desc_done n (ds cur))"
      let ?next = "emul_msgdma_next_desc (ds cur)"
      let ?as = "owned_run ds {cur} ?next"
      have fresh: "cur \<notin> set ?as" using owned_run_fresh [of ds "{cur}" ?next] by auto
      have as: "owned_run ds' {} ?next = ?as" by (simp add: ds'_def owned_run_upd)
      have m: "map ds' ?as = map ds ?as" unfolding ds'_def using fresh by (rule map_upd_fresh)
      have nx: "?next = emul_msgdma_next_desc (ds' cur)" by (simp add: ds'_def)
      obtain ns s2 where sv: "serve ops ext iommu unit (map ds ?as) s1 = (ns, s2)" by (metis surj_pair)
      have "poll_loop ops ext iommu unit count cur ds s = poll_loop ops ext iommu unit (count + 1) ?next ds' s1"
        using True p pos by (simp add: poll_loop.simps [of _ _ _ _ count] next_not_null Let_def ds'_def)
      also have "\<dots> = (count + 1 + length ns, run_end ds' ?next (take (length ns) ?as), complete ds' (zip ?as ns), s2)"
        using 1 [OF _ p [symmetric] pos ds'_def nx] True by (simp add: as m sv next_not_null Let_def)
      also have "run_end ds' ?next (take (length ns) ?as) = run_end ds cur (take (Suc (length ns)) (cur # ?as))"
      proof (cases "take (length ns) ?as = []")
        case False
        then have "last (take (length ns) ?as) \<noteq> cur" using fresh by (metis in_set_takeD last_in_set)
        then show ?thesis using False by (simp add: run_end_def ds'_def)
      qed (auto simp: run_end_def)
      finally show ?thesis using p pos r sv by (simp add: Let_def ds'_def [symmetric])
    qed
  qed
qed


lemma distinct_owned_run: "distinct (owned_run ds seen x) \<and> (\<forall>a\<in>set (owned_run ds seen x). owned ds a)"
proof (induction ds seen x rule: owned_run.induct)
  case (1 ds seen cur)
  show ?case
  proof (cases "owned ds cur \<and> cur \<notin> seen")
    case True
    then show ?thesis
      using 1 owned_run_fresh [of ds "insert cur seen" "emul_msgdma_next_desc (ds cur)"]
      by (subst (1 2) owned_run.simps) auto
  qed (subst (1 2) owned_run.simps, auto)
qed

lemma owned_complete:
  "length as = length ns \<Longrightarrow> owned (complete ds (zip as ns)) x \<longleftrightarrow> owned ds x \<and> x \<notin> set as"
proof (induction as ns arbitrary: ds rule: list_induct2)
  case (Cons a as n ns)
  then show ?case by (auto simp: owned_upd simp del: fun_upd_apply)
qed simp


lemma zip_take_length: "zip (take (length ns) xs) ns = zip xs ns"
  by (induction xs ns rule: list_induct2') simp_all

section \<open>Properties\<close>

text \<open>C15: The poll of an enabled channel does what a reference without pointers says: it gives the FIFO the
  buffers of the descriptors that the controller owns, along their links from the current one, each
  descriptor once, until the FIFO takes no more; it writes the number of bytes to each descriptor
  served and gives it back, leaves every other descriptor to its owner, stands at the link of the last
  one, and raises the channel's interrupt exactly if it served one and interrupts are enabled.\<close>

theorem poll_serves_run:
  assumes "poll_en sc"
  shows "\<exists>as ns f m. let ds = di_descs io; run = owned_run ds {} (cur_desc sc) in
    distinct run \<and> as = take (length ns) run \<and>
    serve ops ext iommu (ms_unit sc) (map ds run) (di_fifo io, di_ram io) = (ns, f, m) \<and>
    emul_msgdma_poll ops ext iommu (sc, io) =
      (sc\<lparr>cur_desc := run_end ds (cur_desc sc) as\<rparr>,
       \<lparr>di_descs = complete ds (zip as ns), di_ram = m, di_fifo = f,
        di_pic = di_pic io @ (if as \<noteq> [] \<and> dma_control (ms_csr sc) AND CONTROL_GIEM \<noteq> 0
                              then [Ip_set (if ms_unit sc = 1 then 17 else 18)] else [])\<rparr>) \<and>
    (\<forall>a. owned (complete ds (zip as ns)) a \<longleftrightarrow> owned ds a \<and> a \<notin> set as)"
proof -
  let ?ds = "di_descs io" and ?run = "owned_run (di_descs io) {} (cur_desc sc)"
  obtain ns f m where s: "serve ops ext iommu (ms_unit sc) (map ?ds ?run) (di_fifo io, di_ram io) = (ns, f, m)"
    by (metis surj_pair)
  have l: "length ns \<le> length ?run"
    using length_serve [of ops ext iommu "ms_unit sc" "map ?ds ?run" "(di_fifo io, di_ram io)"] by (simp add: s)
  have z: "zip (take (length ns) ?run) ns = zip ?run ns" by (rule zip_take_length)
  have "\<forall>a. owned (complete ?ds (zip (take (length ns) ?run) ns)) a \<longleftrightarrow> owned ?ds a \<and> a \<notin> set (take (length ns) ?run)"
    using owned_complete [of "take (length ns) ?run" ns ?ds] l by simp
  moreover have "take (length ns) ?run = [] \<longleftrightarrow> ns = []" using l by auto
  ultimately show ?thesis
    using assms s distinct_owned_run [of ?ds "{}" "cur_desc sc"]
    by (intro exI [of _ "take (length ns) ?run"] exI [of _ ns] exI [of _ f] exI [of _ m])
      (simp add: emul_msgdma_poll_def poll_loop_eq z send_soft_irq_def DM_MSGDMA0_INTR_def DM_MSGDMA1_INTR_def
        Let_def)
qed

text \<open>A ring of two descriptors, and a FIFO that takes what it is given.\<close>

definition wit_descs :: desc_store where
  "wit_descs a =
     \<lparr>md_read_lo = ucast a, md_read_hi = 0, md_write_lo = 0, md_write_hi = 0, md_length = 64,
      md_next = (if a = 0x9000000000001000 then 0x2000 else 0x1000), md_transferred = 0,
      md_control = (if a = 0x9000000000001000 \<or> a = 0x9000000000002000 then CONTROL_OWN else 0)\<rparr>"

definition wit_dma :: msgdma_softc where
  "wit_dma = \<lparr>ms_csr = \<lparr>dma_status = 0, dma_control = 0x10\<rparr>,
     ms_pf = \<lparr>pf_control = 0, pf_next_lo = 0x1000, pf_next_hi = 0, pf_poll_freq = 1, pf_status = 0\<rparr>,
     poll_en = True, ms_unit = 0, cur_desc = 0x9000000000001000, ms_sem = 0, ms_fifo_log = []\<rparr>"

definition wit_dma_io :: "nat dma_io" where
  "wit_dma_io = \<lparr>di_descs = wit_descs, di_ram = (\<lambda>_. 0), di_fifo = 0, di_pic = []\<rparr>"

definition wit_fifo_ops :: "nat fifo_ops" where
  "wit_fifo_ops = \<lparr>fifo_process_tx = (\<lambda>f v m. (int (iov_size v), f + 1)),
     fifo_process_rx = (\<lambda>f v m. (0, f, m))\<rparr>"

lemma wit_owned: "owned wit_descs a \<longleftrightarrow> a = 0x9000000000001000 \<or> a = 0x9000000000002000"
  by (simp add: owned_def wit_descs_def)

lemma wit_next:
  "emul_msgdma_next_desc (wit_descs 0x9000000000001000) = 0x9000000000002000"
  "emul_msgdma_next_desc (wit_descs 0x9000000000002000) = 0x9000000000001000"
  by (simp_all add: emul_msgdma_next_desc_def wit_descs_def MIPS_XKPHYS_UNCACHED_BASE_def)

lemma wit_run: "owned_run wit_descs {} 0x9000000000001000 = [0x9000000000001000, 0x9000000000002000]"
  by (simp add: owned_run.simps wit_owned wit_next)

lemma wit_serve:
  "serve wit_fifo_ops True True (ms_unit wit_dma) (map wit_descs [0x9000000000001000, 0x9000000000002000])
     (di_fifo wit_dma_io, di_ram wit_dma_io) = ([64, 64], 2, \<lambda>_. 0)"
  by (simp add: wit_fifo_ops_def fifo_process_def desc_iov_def wit_descs_def wit_dma_def wit_dma_io_def Let_def)

lemma wit_dma_sel:
  "poll_en wit_dma" "cur_desc wit_dma = 0x9000000000001000" "di_descs wit_dma_io = wit_descs"
  "dma_control (ms_csr wit_dma) = 0x10" "ms_unit wit_dma = 0" "di_pic wit_dma_io = []"
  by (simp_all add: wit_dma_def wit_dma_io_def)

theorem poll_serves_run_witness:
  "let (sc, io) = emul_msgdma_poll wit_fifo_ops True True (wit_dma, wit_dma_io)
   in cur_desc sc = 0x9000000000001000 \<and> di_fifo io = 2 \<and> di_pic io = [Ip_set 18] \<and> (\<forall>a. \<not> owned (di_descs io) a)"
proof -
  from poll_serves_run [OF wit_dma_sel(1), of wit_dma_io wit_fifo_ops True True]
  obtain as ns f m where
    "as = take (length ns) [0x9000000000001000, 0x9000000000002000]" "(ns, f, m) = ([64, 64], 2, \<lambda>_. 0)"
    "emul_msgdma_poll wit_fifo_ops True True (wit_dma, wit_dma_io) =
       (wit_dma\<lparr>cur_desc := run_end wit_descs 0x9000000000001000 as\<rparr>,
        \<lparr>di_descs = complete wit_descs (zip as ns), di_ram = m, di_fifo = f,
         di_pic = if as \<noteq> [] then [Ip_set 18] else []\<rparr>)"
    "\<forall>a. owned (complete wit_descs (zip as ns)) a \<longleftrightarrow> owned wit_descs a \<and> a \<notin> set as"
    unfolding Let_def wit_dma_sel wit_run using wit_serve by (auto simp: wit_dma_sel)
  then show ?thesis by (auto simp add: run_end_def wit_next wit_owned)
qed

text \<open>No write of a register turns polling off again.\<close>

lemma polling_never_stops:
  assumes "emul_msgdma el (req, sc) = Inr (req', sc')" "poll_en sc"
  shows "poll_en sc'"
  using assms
  by (auto simp: emul_msgdma_def csr_w_def pf_w_def upd_pf_def emul_msgdma_poll_enable_def Let_def
      split: if_splits option.splits)

end
