(* ===== verification/Fwd_Device.thy ===== *)
theory Fwd_Device
  imports Emul_Link Iovec
begin

text \<open>
  Forwarding to the real DMA controllers (\<open>src/fwd_device.c\<close>). The hardware behind an
  address is a parameter: \<open>bus_read a n\<close> and \<open>bus_write a xs\<close> are the accesses of one, two, four
  or eight bytes in the order of the host.
\<close>

record fwd_link =
  fl_base_emul :: u64
  fl_size :: u32
  fl_base :: u64

record 'h hw_bus =
  bus_read :: "u64 \<Rightarrow> nat \<Rightarrow> 'h \<Rightarrow> u8 list \<times> 'h"
  bus_write :: "u64 \<Rightarrow> u8 list \<Rightarrow> 'h \<Rightarrow> 'h"

definition put_data :: "epw_request \<Rightarrow> u8 list \<Rightarrow> epw_request" where
  "put_data req xs = req\<lparr>rq_data := (\<lambda>i. if i < length xs then xs ! i else rq_data req i)\<rparr>"

definition fwd_rw :: "'h hw_bus \<Rightarrow> u64 \<Rightarrow> epw_request \<times> 'h \<Rightarrow> epw_request \<times> 'h" where
  "fwd_rw hw addr s =
     (let (req, h) = s; len = (if rq_is_write req then rq_byte_enable req else rq_burst_count req) in
      if len = 1 \<or> len = 2 \<or> len = 4 \<or> len = 8 then
        (if rq_is_write req then (req, bus_write hw addr (region (rq_data req) 0 len) h)
         else (let (xs, h) = bus_read hw addr len h in (put_data req (take len xs), h)))
      else (req, h))"

definition fwd_addr :: "fwd_link \<Rightarrow> epw_request \<Rightarrow> u64" where
  "fwd_addr fl req = fl_base fl + (rq_addr req - fl_base_emul fl - EPW_BASE)"

definition fwd_request :: "'h hw_bus \<Rightarrow> fwd_link \<Rightarrow> epw_request \<times> 'h \<Rightarrow> epw_request \<times> 'h" where
  "fwd_request hw fl s = fwd_rw hw (fwd_addr fl (fst s)) s"

end
