(* ===== verification/Device_Model.thy ===== *)
theory Device_Model
  imports Emul_Msgdma Fwd_Device Emul_Pci E1000_Bus Ahci_Dev
begin

text \<open>
  The dispatcher of \<open>src/device-model.c\<close>: the tables of windows, the routing of a
  request, the initialisation and one turn of the main loop.
\<close>

section \<open>The whole state\<close>

record ('f, 'h) dm_world = "'f ahci_world" +
  w_msgdma0 :: msgdma_softc
  w_msgdma1 :: msgdma_softc
  w_descs :: desc_store
  w_iommu :: iommu_state
  w_hw :: 'h
  w_fifo_calls :: "fifo_call list"
  req_count :: int

text \<open>
  How the model is built and what it runs on: the build options, the hardware
  behind forwarded requests, the FIFO driver, the devices of the PCI bus, the place
  of the header buffer and the contents of uninitialised cells and stack buffers.
\<close>

record ('f, 'h) dm_config =
  CONFIG_EMUL_PCI :: bool
  CONFIG_IOMMU :: bool
  MSGDMA_DESC_EXT :: bool
  INVARIANTS :: bool
  dm_hw :: "'h hw_bus"
  dm_fifo :: "'f fifo_ops"
  dm_devs :: "('f, 'h) dm_world pci_devemu list"
  dm_stk :: nat
  dm_junk :: u64
  dm_stack :: bytes

section \<open>The windows\<close>

abbreviation (input) MSGDMA0_BASE_CSR :: u64 where "MSGDMA0_BASE_CSR \<equiv> 0x80004080"
abbreviation (input) MSGDMA0_BASE_DESC :: u64 where "MSGDMA0_BASE_DESC \<equiv> 0x800040a0"
abbreviation (input) MSGDMA1_BASE_CSR :: u64 where "MSGDMA1_BASE_CSR \<equiv> 0x80004000"
abbreviation (input) MSGDMA1_BASE_DESC :: u64 where "MSGDMA1_BASE_DESC \<equiv> 0x80004020"

definition fwd_map :: "fwd_link list" where
  "fwd_map =
     [\<lparr>fl_base_emul = 0x0000, fl_size = 0x20, fl_base = MSGDMA0_BASE_CSR\<rparr>,
      \<lparr>fl_base_emul = 0x0020, fl_size = 0x20, fl_base = MSGDMA0_BASE_DESC\<rparr>,
      \<lparr>fl_base_emul = 0x0040, fl_size = 0x20, fl_base = MSGDMA1_BASE_CSR\<rparr>,
      \<lparr>fl_base_emul = 0x0060, fl_size = 0x20, fl_base = MSGDMA1_BASE_DESC\<rparr>]"

definition emul_map :: "emul_link list" where
  "emul_map =
     [\<lparr>el_base = 0x04080, el_size = 0x00020, el_target = Emul_msgdma 0, el_type = MSGDMA_CSR\<rparr>,
      \<lparr>el_base = 0x040a0, el_size = 0x00020, el_target = Emul_msgdma 0, el_type = MSGDMA_PF\<rparr>,
      \<lparr>el_base = 0x04000, el_size = 0x00020, el_target = Emul_msgdma 1, el_type = MSGDMA_CSR\<rparr>,
      \<lparr>el_base = 0x04020, el_size = 0x00020, el_target = Emul_msgdma 1, el_type = MSGDMA_PF\<rparr>,
      \<lparr>el_base = 0x10000, el_size = 0x50000, el_target = Emul_pci, el_type = PCI_GENERIC\<rparr>,
      \<lparr>el_base = 0x60000, el_size = 0x00100, el_target = Emul_iommu 0, el_type = MSGDMA_IOMMU\<rparr>,
      \<lparr>el_base = 0x60100, el_size = 0x00100, el_target = Emul_iommu 1, el_type = MSGDMA_IOMMU\<rparr>]"

text \<open>The test of the two loops; a base plus a size does not wrap.\<close>

definition in_window :: "u64 \<Rightarrow> u64 \<Rightarrow> u32 \<Rightarrow> bool" where
  "in_window offset base sz \<longleftrightarrow> base \<le> offset \<and> offset < base + ucast sz"

section \<open>Requests\<close>

definition get_msgdma :: "nat \<Rightarrow> ('f, 'h) dm_world \<Rightarrow> msgdma_softc" where
  "get_msgdma u w = (if u = 0 then w_msgdma0 w else w_msgdma1 w)"

definition put_msgdma :: "nat \<Rightarrow> msgdma_softc \<Rightarrow> ('f, 'h) dm_world \<Rightarrow> ('f, 'h) dm_world" where
  "put_msgdma u sc w = (if u = 0 then w\<lparr>w_msgdma0 := sc\<rparr> else w\<lparr>w_msgdma1 := sc\<rparr>)"

text \<open>The call through the pointer of a link.\<close>

definition emul_request ::
    "('f, 'h) dm_config \<Rightarrow> emul_link \<Rightarrow> epw_request \<times> ('f, 'h) dm_world \<Rightarrow> (epw_request \<times> ('f, 'h) dm_world) res" where
  "emul_request cfg el s =
     (let (req, w) = s in
      case el_target el of
        Emul_msgdma u \<Rightarrow>
          bindE (emul_msgdma el (req, get_msgdma u w)) (\<lambda>(req, sc). Inr (req, put_msgdma u sc w))
      | Emul_pci \<Rightarrow> emul_pci (INVARIANTS cfg) (dm_devs cfg) (dm_junk cfg) el (req, w)
      | Emul_iommu u \<Rightarrow> bindE (emul_iommu el req (w_iommu w)) (\<lambda>st. Inr (req, w\<lparr>w_iommu := st\<rparr>)))"

definition dm_request ::
    "('f, 'h) dm_config \<Rightarrow> epw_request \<times> ('f, 'h) dm_world \<Rightarrow> (int \<times> epw_request \<times> ('f, 'h) dm_world) res" where
  "dm_request cfg s =
     (let (req, w) = s; offset = rq_addr req - EPW_WINDOW in
      case find (\<lambda>fl. in_window offset (fl_base_emul fl) (fl_size fl)) fwd_map of
        Some fl \<Rightarrow> (let (req, hw) = fwd_request (dm_hw cfg) fl (req, w_hw w) in Inr (0, req, w\<lparr>w_hw := hw\<rparr>))
      | None \<Rightarrow>
          (case find (\<lambda>el. in_window offset (el_base el) (el_size el)) emul_map of
             Some el \<Rightarrow> bindE (emul_request cfg el (req, w)) (\<lambda>s. Inr (0, s))
           | None \<Rightarrow> Inr (-1, req, w)))"

section \<open>Initialisation\<close>

text \<open>
  \<open>malloced\<close> and \<open>created\<close> say whether the kernel could allocate the context and
  create the thread; \<open>val\<close> is the uninitialised cell of the test reads.
\<close>

definition dm_init :: "('f, 'h) dm_config \<Rightarrow> bool \<Rightarrow> bool \<Rightarrow> ('f, 'h) dm_world \<Rightarrow> ('f, 'h) dm_world res" where
  "dm_init cfg malloced created w =
     (let w = w\<lparr>w_msgdma0 := (w_msgdma0 w)\<lparr>ms_unit := 0\<rparr>, w_msgdma1 := (w_msgdma1 w)\<lparr>ms_unit := 1\<rparr>\<rparr> in
      if CONFIG_EMUL_PCI cfg then
        bindE (emul_pci_init malloced (dm_devs cfg) (ucast (dm_junk cfg)) w) (\<lambda>(error, w).
        if error \<noteq> 0 then Inl Panic
        else
          (let w = w\<lparr>req_count := 0\<rparr>;
               (error, calls) = e82545_setup_fifo created w (w_fifo_calls w);
               w = w\<lparr>w_fifo_calls := calls\<rparr>
           in if error \<noteq> 0 then Inl Panic else Inr w))
      else
        (let (error, sc) = emul_msgdma_rx_init created (w_msgdma1 w)
         in if error \<noteq> 0 then Inl Panic else Inr (w\<lparr>w_msgdma1 := sc\<rparr>)))"

section \<open>The main loop\<close>

definition msgdma_poll :: "('f, 'h) dm_config \<Rightarrow> nat \<Rightarrow> ('f, 'h) dm_world \<Rightarrow> ('f, 'h) dm_world" where
  "msgdma_poll cfg u w =
     (case emul_msgdma_poll (dm_fifo cfg) (MSGDMA_DESC_EXT cfg) (CONFIG_IOMMU cfg)
             (get_msgdma u w, \<lparr>di_descs = w_descs w, di_ram = w_ram w, di_fifo = w_fifo w, di_pic = w_pic w\<rparr>) of
        (sc, io) \<Rightarrow>
          (put_msgdma u sc w)\<lparr>w_descs := di_descs io, w_ram := di_ram io, w_fifo := di_fifo io,
            w_pic := di_pic io\<rparr>)"

text \<open>
  One turn: the request of the window if there is one, whose reply is returned,
  and the polls of the build.
\<close>

definition dm_loop_turn ::
    "('f, 'h) dm_config \<Rightarrow> epw_request option \<Rightarrow> ('f, 'h) dm_world \<Rightarrow> (epw_request option \<times> ('f, 'h) dm_world) res" where
  "dm_loop_turn cfg epw w =
     bindE (case epw of
              None \<Rightarrow> Inr (None, w)
            | Some req \<Rightarrow>
                bindE (dm_request cfg (req, w\<lparr>req_count := req_count w + 1\<rparr>)) (\<lambda>(ret, req, w).
                Inr (Some req, w))) (\<lambda>(reply, w).
     bindE (if CONFIG_EMUL_PCI cfg then
              bindE (e1000_poll (fifo_process_rx (dm_fifo cfg)) (CONFIG_IOMMU cfg) (dm_stk cfg) w)
                (ahci_blockif_thr (CONFIG_IOMMU cfg) (dm_stack cfg))
            else Inr (msgdma_poll cfg 1 (msgdma_poll cfg 0 w))) (\<lambda>w. Inr (reply, w)))"


text \<open>One turn of the thread that serves the receiving DMA controller, \<open>None\<close> while it waits.\<close>

definition msgdma_work :: "('f, 'h) dm_config \<Rightarrow> ('f, 'h) dm_world \<Rightarrow> ('f, 'h) dm_world option" where
  "msgdma_work cfg w =
     (case emul_msgdma_work (dm_fifo cfg) (MSGDMA_DESC_EXT cfg) (CONFIG_IOMMU cfg)
             (w_msgdma1 w, \<lparr>di_descs = w_descs w, di_ram = w_ram w, di_fifo = w_fifo w, di_pic = w_pic w\<rparr>) of
        None \<Rightarrow> None
      | Some (sc, io) \<Rightarrow>
          Some (w\<lparr>w_msgdma1 := sc, w_descs := di_descs io, w_ram := di_ram io, w_fifo := di_fifo io, w_pic := di_pic io\<rparr>))"

section \<open>The windows do not overlap\<close>

lemma unat_size [simp]: "unat (ucast (sz :: u32) :: u64) = unat sz"
proof -
  have "unat sz < 2 ^ 32" by (rule order_less_le_trans [OF unsigned_less]) simp
  then show ?thesis by (simp add: unsigned_ucast_eq take_bit_nat_eq_self)
qed

lemma in_window_nat:
  "unat base + unat sz < 2 ^ 64 \<Longrightarrow> in_window offset base sz \<longleftrightarrow>
     unat base \<le> unat offset \<and> unat offset < unat base + unat sz"
  by (simp add: in_window_def word_le_nat_alt word_less_nat_alt unat_word_ariths)

definition fwd_hit :: "u64 \<Rightarrow> fwd_link \<Rightarrow> bool" where
  "fwd_hit offset fl = in_window offset (fl_base_emul fl) (fl_size fl)"

definition emul_hit :: "u64 \<Rightarrow> emul_link \<Rightarrow> bool" where
  "emul_hit offset el = in_window offset (el_base el) (el_size el)"

lemmas window_simps = fwd_hit_def emul_hit_def in_window_nat fwd_map_def emul_map_def

text \<open>Where each table answers at all, and that no two windows share an offset.\<close>

lemma fwd_low: "fl \<in> set fwd_map \<Longrightarrow> fwd_hit offset fl \<Longrightarrow> unat offset < 0x80"
  by (auto simp: window_simps)

lemma emul_high: "el \<in> set emul_map \<Longrightarrow> emul_hit offset el \<Longrightarrow> 0x4000 \<le> unat offset"
  by (auto simp: window_simps)

lemma fwd_unique: "fl \<in> set fwd_map \<Longrightarrow> fl' \<in> set fwd_map \<Longrightarrow> fwd_hit offset fl \<Longrightarrow> fwd_hit offset fl' \<Longrightarrow> fl = fl'"
  by (auto simp: window_simps)

lemma emul_unique:
  "el \<in> set emul_map \<Longrightarrow> el' \<in> set emul_map \<Longrightarrow> emul_hit offset el \<Longrightarrow> emul_hit offset el' \<Longrightarrow> el = el'"
  by (auto simp: window_simps)

lemma find_the: "x \<in> set xs \<Longrightarrow> P x \<Longrightarrow> (\<And>y. y \<in> set xs \<Longrightarrow> P y \<Longrightarrow> y = x) \<Longrightarrow> find P xs = Some x"
proof (cases "find P xs")
  case None
  assume "x \<in> set xs" "P x"
  then show ?thesis using None by (metis find_None_iff)
next
  case (Some y)
  assume uniq: "\<And>y. y \<in> set xs \<Longrightarrow> P y \<Longrightarrow> y = x"
  from Some have "y \<in> set xs" "P y" by (metis find_Some_iff nth_mem)+
  then have "y = x" by (rule uniq)
  then show ?thesis using Some by simp
qed

lemma find_none: "(\<And>y. y \<in> set xs \<Longrightarrow> \<not> P y) \<Longrightarrow> find P xs = None"
  by (metis find_None_iff2)

lemma dm_request_eq:
  "dm_request cfg (req, w) =
     (case find (fwd_hit (rq_addr req - EPW_WINDOW)) fwd_map of
        Some fl \<Rightarrow> (let (req, hw) = fwd_request (dm_hw cfg) fl (req, w_hw w) in Inr (0, req, w\<lparr>w_hw := hw\<rparr>))
      | None \<Rightarrow>
          (case find (emul_hit (rq_addr req - EPW_WINDOW)) emul_map of
             Some el \<Rightarrow> bindE (emul_request cfg el (req, w)) (\<lambda>s. Inr (0, s))
           | None \<Rightarrow> Inr (-1, req, w)))"
  unfolding dm_request_def Let_def fwd_hit_def emul_hit_def by simp

lemma dispatch_emul:
  assumes "el \<in> set emul_map" "emul_hit (rq_addr req - EPW_WINDOW) el"
  shows "dm_request cfg (req, w) = bindE (emul_request cfg el (req, w)) (\<lambda>s. Inr (0, s))"
proof -
  let ?off = "rq_addr req - EPW_WINDOW"
  have "find (fwd_hit ?off) fwd_map = None"
    using emul_high [OF assms] fwd_low by (fastforce intro: find_none)
  moreover have "find (emul_hit ?off) emul_map = Some el" using assms emul_unique by (blast intro: find_the)
  ultimately show ?thesis by (simp add: dm_request_eq)
qed

section \<open>Properties\<close>

text \<open>C16: The dispatcher is a table: every offset of the device window belongs to at most one window of
  either table, a request in a window is served by the function of its link, whichever table is searched
  first, and a request outside all of them changes nothing and is answered with an error.\<close>

theorem dispatch_by_window:
  "(\<forall>el\<in>set emul_map. emul_hit (rq_addr req - EPW_WINDOW) el \<longrightarrow>
      dm_request cfg (req, w) = bindE (emul_request cfg el (req, w)) (\<lambda>s. Inr (0, s))) \<and>
   (\<forall>fl\<in>set fwd_map. fwd_hit (rq_addr req - EPW_WINDOW) fl \<longrightarrow>
      dm_request cfg (req, w) =
        (let (req, hw) = fwd_request (dm_hw cfg) fl (req, w_hw w) in Inr (0, req, w\<lparr>w_hw := hw\<rparr>))) \<and>
   ((\<forall>el\<in>set emul_map. \<not> emul_hit (rq_addr req - EPW_WINDOW) el) \<and>
    (\<forall>fl\<in>set fwd_map. \<not> fwd_hit (rq_addr req - EPW_WINDOW) fl) \<longrightarrow>
      dm_request cfg (req, w) = Inr (-1, req, w))"
proof (intro conjI ballI impI)
  let ?off = "rq_addr req - EPW_WINDOW"
  fix el assume "el \<in> set emul_map" "emul_hit ?off el"
  then show "dm_request cfg (req, w) = bindE (emul_request cfg el (req, w)) (\<lambda>s. Inr (0, s))"
    by (rule dispatch_emul)
next
  let ?off = "rq_addr req - EPW_WINDOW"
  fix fl assume fl: "fl \<in> set fwd_map" "fwd_hit ?off fl"
  then have "find (fwd_hit ?off) fwd_map = Some fl" using fwd_unique by (blast intro: find_the)
  then show "dm_request cfg (req, w) =
      (let (req, hw) = fwd_request (dm_hw cfg) fl (req, w_hw w) in Inr (0, req, w\<lparr>w_hw := hw\<rparr>))"
    by (simp add: dm_request_eq)
next
  let ?off = "rq_addr req - EPW_WINDOW"
  assume "(\<forall>el\<in>set emul_map. \<not> emul_hit ?off el) \<and> (\<forall>fl\<in>set fwd_map. \<not> fwd_hit ?off fl)"
  then have "find (fwd_hit ?off) fwd_map = None" "find (emul_hit ?off) emul_map = None"
    by (auto intro: find_none)
  then show "dm_request cfg (req, w) = Inr (-1, req, w)" by (simp add: dm_request_eq)
qed

text \<open>The address a forwarded request reaches, and that it is none of the controllers'.\<close>

lemma forward_misses:
  assumes "fl \<in> set fwd_map" "fwd_hit (rq_addr req - EPW_WINDOW) fl"
  shows "fwd_addr fl req = fl_base fl + (rq_addr req - EPW_WINDOW - fl_base_emul fl) + (EPW_WINDOW - EPW_BASE)"
    and "\<forall>fl'\<in>set fwd_map. \<not> in_window (fwd_addr fl req) (fl_base fl') (fl_size fl')"
proof -
  show eq: "fwd_addr fl req = fl_base fl + (rq_addr req - EPW_WINDOW - fl_base_emul fl) + (EPW_WINDOW - EPW_BASE)"
    by (simp add: fwd_addr_def algebra_simps)
  define d where "d = rq_addr req - EPW_WINDOW - fl_base_emul fl"
  have "unat d < 0x20"
    using assms unfolding d_def by (auto simp: window_simps unat_sub_if')
  then have "0x100000000 \<le> unat (fwd_addr fl req)"
    using assms(1) unfolding eq d_def [symmetric]
    by (auto simp: fwd_map_def EPW_WINDOW_def EPW_BASE_def unat_sub_if' unat_word_ariths)
  then show "\<forall>fl'\<in>set fwd_map. \<not> in_window (fwd_addr fl req) (fl_base fl') (fl_size fl')"
    by (auto simp: fwd_map_def in_window_nat)
qed

section \<open>A register of the network card through the dispatcher\<close>

definition pci_link :: emul_link where
  "pci_link = \<lparr>el_base = 0x10000, el_size = 0x50000, el_target = Emul_pci, el_type = PCI_GENERIC\<rparr>"

lemma pci_link_in: "pci_link \<in> set emul_map"
  by (simp add: pci_link_def emul_map_def)

text \<open>The offset of a request in the PCI window.\<close>

lemma pci_window:
  assumes "0xfdb10000 \<le> unat (rq_addr req)" "unat (rq_addr req) < 0xfdb60000"
  shows "emul_hit (rq_addr req - EPW_WINDOW) pci_link"
    and "unat (emul_offset pci_link req mod 8) = unat (rq_addr req) mod 8"
proof -
  define k where "k = unat (rq_addr req) - 0xfdb10000"
  then have k: "unat (rq_addr req) = 0xfdb10000 + k" "k < 0x50000" using assms by linarith+
  have w: "unat (rq_addr req - EPW_WINDOW) = 0x10000 + k"
    by (simp add: EPW_WINDOW_def unat_sub_if' k)
  have s: "unat (0x10000 :: u64) + unat (0x50000 :: u32) < 2 ^ 64" by simp
  show "emul_hit (rq_addr req - EPW_WINDOW) pci_link"
    unfolding emul_hit_def pci_link_def emul_link.simps in_window_nat [OF s] w using k(2) by simp
  have "unat (emul_offset pci_link req) = k"
    by (simp add: emul_offset_def pci_link_def EPW_WINDOW_def unat_sub_if' k)
  moreover have "(0xfdb10000 + k) mod 8 = k mod 8" by presburger
  ultimately show "unat (emul_offset pci_link req mod 8) = unat (rq_addr req) mod 8"
    by (simp add: unat_mod k)
qed

lemma le32_put_flit: "le32 (put_flit at 4 (ucast (v :: u32)) m) at = v"
  by (rule bit_word_eqI) (auto simp: le32_def le16_def put_flit_def bit_word_cat_iff bit_simps)

lemma pci_dispatch:
  assumes "0xfdb10000 \<le> unat (rq_addr req)" "unat (rq_addr req) < 0xfdb60000"
  shows "dm_request cfg (req, w) =
    bindE (emul_pci (INVARIANTS cfg) (dm_devs cfg) (dm_junk cfg) pci_link (req, w)) (\<lambda>s. Inr (0, s))"
  using dispatch_emul [OF pci_link_in pci_window(1) [OF assms]] by (simp add: emul_request_def pci_link_def)

lemma pci_write32:
  assumes "rq_is_write req" "rq_data_len req = 4" "rq_flit_size req = 4"
    "bus_access devs (rq_addr req) True 4 (ucast (le32 (rq_data req) 0)) w = Inr (0, val, w')"
  shows "emul_pci kassert devs junk pci_link (req, w) = Inr (req, w')"
  using assms by (simp add: emul_pci_def emul_mem_def swapped_val_def pci_link_def Let_def)

lemma pci_read32:
  assumes "\<not> rq_is_write req" "rq_data_len req = 4" "rq_flit_size req = 4" "unat (rq_addr req) mod 8 \<le> 4"
    "unat (emul_offset pci_link req mod 8) = unat (rq_addr req) mod 8"
    "bus_access devs (rq_addr req) False 4 junk w = Inr (0, val, w')"
  shows "emul_pci kassert devs junk pci_link (req, w) =
    Inr (req\<lparr>rq_data := put_flit (4 - unat (rq_addr req) mod 8) 4 val (rq_data req)\<rparr>, w')"
  using assms by (simp add: emul_pci_def emul_mem_def pci_link_def Let_def)

text \<open>C8: A driver of the guest reaches the card's registers: a request of the device window that writes
  four little-endian bytes to a plain register of the decoded card is served, and a four-byte read of
  the same address then returns those bytes, less the register's reserved bits, in the lane of the
  eight-byte flit that the address selects; every other byte of the reply is as it was.\<close>

theorem guest_register_roundtrip:
  assumes "card_at (dm_devs cfg) (CONFIG_IOMMU cfg) b pi sc w" "(reg, m) \<in> set plain_regs"
    and "0xfdb10000 \<le> unat (bar_addr (pi_bar pi 0))" "unat (bar_addr (pi_bar pi 0)) + 0x20000 \<le> 0xfdb60000"
    and "rq_addr wr = bar_addr (pi_bar pi 0) + ucast reg" "rq_is_write wr" "rq_data_len wr = 4" "rq_flit_size wr = 4"
    and "rq_addr rd = rq_addr wr" "\<not> rq_is_write rd" "rq_data_len rd = 4" "rq_flit_size rd = 4"
  shows "\<exists>w' rd'. dm_request cfg (wr, w) = Inr (0, wr, w') \<and> dm_request cfg (rd, w') = Inr (0, rd', w') \<and>
    le32 (rq_data rd') (4 - unat (rq_addr rd) mod 8) = le32 (rq_data wr) 0 AND m \<and>
    (\<forall>i. i < 4 - unat (rq_addr rd) mod 8 \<or> 8 - unat (rq_addr rd) mod 8 \<le> i \<longrightarrow> rq_data rd' i = rq_data rd i)"
proof -
  have r: "unat reg + 4 \<le> 0x20000" "4 dvd unat reg" using plain_reg_bound [OF assms(2)] by simp_all
  have d: "8 dvd unat (bar_addr (pi_bar pi 0))" using assms(1) by (simp add: card_at_def)
  have a: "unat (rq_addr wr) = unat (bar_addr (pi_bar pi 0)) + unat reg"
    unfolding assms(5) using assms(3,4) r(1) by (subst unat_add_64) simp_all
  have "unat (rq_addr wr) mod 8 = unat reg mod 8" using d a by (auto elim!: dvdE)
  then have lane: "unat (rq_addr wr) mod 8 \<le> 4" using r(2) by presburger
  have win: "0xfdb10000 \<le> unat (rq_addr wr)" "unat (rq_addr wr) < 0xfdb60000" using a assms(3,4) r(1) by simp_all
  obtain w' sc' where b: "bus_access (dm_devs cfg) (rq_addr wr) True 4 (ucast (le32 (rq_data wr) 0)) w =
      Inr (0, ucast (le32 (rq_data wr) 0), w')"
    "bus_access (dm_devs cfg) (rq_addr wr) False 4 (dm_junk cfg) w' =
      Inr (0, ucast (ucast (ucast (le32 (rq_data wr) 0) :: u64) AND m), w')"
    using bus_register [OF assms(1,2), of "ucast (le32 (rq_data wr) 0)" "dm_junk cfg"] assms(5) by auto
  have u: "ucast (ucast (le32 (rq_data wr) 0) :: u64) = le32 (rq_data wr) 0"
    by (rule bit_word_eqI) (simp add: bit_simps)
  have w: "dm_request cfg (wr, w) = Inr (0, wr, w')"
    using pci_dispatch [OF win, of cfg w] pci_write32 [OF assms(6-8) b(1)] by simp
  let ?rd = "rd\<lparr>rq_data := put_flit (4 - unat (rq_addr rd) mod 8) 4 (ucast (le32 (rq_data wr) 0 AND m)) (rq_data rd)\<rparr>"
  have "dm_request cfg (rd, w') = Inr (0, ?rd, w')"
    using pci_dispatch [of rd cfg w'] pci_read32 [OF assms(10-12), of "dm_devs cfg" "dm_junk cfg" w'] pci_window(2) [of rd]
      win lane b(2) assms(9) by (simp add: u)
  moreover have "le32 (rq_data ?rd) (4 - unat (rq_addr rd) mod 8) = le32 (rq_data wr) 0 AND m"
    by (simp add: le32_put_flit)
  moreover have "\<forall>i. i < 4 - unat (rq_addr rd) mod 8 \<or> 8 - unat (rq_addr rd) mod 8 \<le> i \<longrightarrow> rq_data ?rd i = rq_data rd i"
    using lane assms(9) by (auto simp: put_flit_def)
  ultimately show ?thesis using w by blast
qed

text \<open>A build with the card alone, its fresh bus, and a write and a read of the flow control address (0x28).\<close>

definition wit_cfg :: "(unit, unit) dm_config" where
  "wit_cfg = \<lparr>CONFIG_EMUL_PCI = True, CONFIG_IOMMU = False, MSGDMA_DESC_EXT = False, INVARIANTS = False,
     dm_hw = \<lparr>bus_read = (\<lambda>_ n h. (replicate n 0, h)), bus_write = (\<lambda>_ _ h. h)\<rparr>,
     dm_fifo = \<lparr>fifo_process_tx = (\<lambda>f _ _. (0, f)), fifo_process_rx = (\<lambda>f _ m. (0, f, m))\<rparr>,
     dm_devs = [pci_de_e82545 False], dm_stk = 0, dm_junk = 0, dm_stack = (\<lambda>_. 0)\<rparr>"

definition wit_world :: "(unit, unit) dm_world" where
  "wit_world = e1000_world.extend wit_bus
     \<lparr>w_ahci = None, w_blockif = None, w_msgdma0 = undefined, w_msgdma1 = undefined, w_descs = undefined, w_iommu = undefined, w_hw = (),
      w_fifo_calls = [], req_count = 0\<rparr>"

definition wit_req :: "bool \<Rightarrow> epw_request" where
  "wit_req wr = \<lparr>rq_addr = 0xfdb20028, rq_is_write = wr, rq_data = (\<lambda>i. of_nat (i + 1)), rq_data_len = 4,
     rq_flit_size = 4, rq_byte_enable = 4, rq_burst_count = 4\<rparr>"

lemma wit_card:
  "\<exists>w pi sc. card_at (dm_devs wit_cfg) False (0, 0, 0) pi sc (w :: (unit, unit) dm_world) \<and>
     bar_addr (pi_bar pi 0) = 0xfdb20000"
proof -
  have "fresh_pci wit_world" using wit_fresh by (simp add: fresh_pci_def wit_world_def e1000_world.defs)
  then show ?thesis using card_decoded [of wit_world False None] by (auto simp: wit_cfg_def)
qed

theorem guest_register_roundtrip_witness:
  "\<exists>(w :: (unit, unit) dm_world) w' rd'. dm_request wit_cfg (wit_req True, w) = Inr (0, wit_req True, w') \<and>
     dm_request wit_cfg (wit_req False, w') = Inr (0, rd', w') \<and> le32 (rq_data rd') 4 = 0x04030201 \<and>
     rq_data rd' 0 = 1"
proof -
  obtain w :: "(unit, unit) dm_world" and pi sc where c: "card_at (dm_devs wit_cfg) False (0, 0, 0) pi sc w"
    "bar_addr (pi_bar pi 0) = 0xfdb20000"
    using wit_card by blast
  have m: "(0x28, 0xffffffff) \<in> set plain_regs" by (simp add: plain_regs_def)
  have l: "le32 (rq_data (wit_req True)) 0 = 0x04030201"
    by (simp add: wit_req_def le32_def le16_def word_cat_eq)
  have r: "rq_addr (wit_req wr) = 0xfdb20028" "rq_is_write (wit_req wr) = wr" "rq_data_len (wit_req wr) = 4"
    "rq_flit_size (wit_req wr) = 4" "rq_data (wit_req wr) 0 = 1" for wr
    by (simp_all add: wit_req_def)
  have i: "CONFIG_IOMMU wit_cfg = False" by (simp add: wit_cfg_def)
  obtain w' rd' where x: "dm_request wit_cfg (wit_req True, w) = Inr (0, wit_req True, w')"
    "dm_request wit_cfg (wit_req False, w') = Inr (0, rd', w')" "le32 (rq_data rd') 4 = 0x04030201"
    "\<forall>i. i < 4 \<or> 8 \<le> i \<longrightarrow> rq_data rd' i = rq_data (wit_req False) i"
    using guest_register_roundtrip [of wit_cfg "(0, 0, 0)" pi sc w "0x28" "0xffffffff" "wit_req True" "wit_req False"]
      c m l r i by auto
  then have "rq_data rd' 0 = 1" using r(5) by simp
  then show ?thesis using x by blast
qed

definition wit_miss :: epw_request where
  "wit_miss = (wit_req True)\<lparr>rq_addr := 0xfdb00100\<rparr>"

theorem dispatch_by_window_witness:
  "dm_request wit_cfg (wit_miss, wit_world) = Inr (-1, wit_miss, wit_world) \<and>
   dm_request wit_cfg (wit_req True, wit_world) = bindE (emul_request wit_cfg pci_link (wit_req True, wit_world)) (\<lambda>s. Inr (0, s))"
proof
  have "(\<forall>el\<in>set emul_map. \<not> emul_hit (rq_addr wit_miss - EPW_WINDOW) el) \<and>
      (\<forall>fl\<in>set fwd_map. \<not> fwd_hit (rq_addr wit_miss - EPW_WINDOW) fl)"
    by (simp add: emul_map_def fwd_map_def emul_hit_def fwd_hit_def in_window_def EPW_WINDOW_def wit_miss_def)
  then show "dm_request wit_cfg (wit_miss, wit_world) = Inr (-1, wit_miss, wit_world)"
    using dispatch_by_window [of wit_miss wit_cfg wit_world] by blast
  have "emul_hit (rq_addr (wit_req True) - EPW_WINDOW) pci_link"
    by (simp add: emul_hit_def pci_link_def in_window_def EPW_WINDOW_def wit_req_def)
  then show "dm_request wit_cfg (wit_req True, wit_world) =
      bindE (emul_request wit_cfg pci_link (wit_req True, wit_world)) (\<lambda>s. Inr (0, s))"
    using dispatch_by_window [of "wit_req True" wit_cfg wit_world] pci_link_in by blast
qed

end
