(* ===== verification/Bus_Devices.thy ===== *)
theory Bus_Devices
  imports Emul_Pci
begin

text \<open>
  What the bus relies on in the devices behind it: the table of functions of a
  \<open>struct pci_devemu\<close>. A fact about the state of the devices that every function keeps, and that does not
  depend on the state of the bus itself, holds after every access through the bus.
\<close>

locale bus_devices =
  fixes devs :: "'a world_emu list" and inv :: "'a pci_world_scheme \<Rightarrow> bool"
  assumes bus_free: "pci_world.more w' = pci_world.more w \<Longrightarrow> inv w \<Longrightarrow> inv w'"
    and init_keeps: "pe \<in> set devs \<Longrightarrow> pe_init pe opts (pi, w) = Inr (err, pi', w') \<Longrightarrow> inv w \<Longrightarrow> inv w'"
    and barwrite_keeps: "pe \<in> set devs \<Longrightarrow> pe_barwrite pe idx off sz val (pi, w) = Inr (pi', w') \<Longrightarrow> inv w \<Longrightarrow> inv w'"
    and barread_keeps: "pe \<in> set devs \<Longrightarrow> pe_barread pe idx off sz (pi, w) = Inr (v, pi', w') \<Longrightarrow> inv w \<Longrightarrow> inv w'"
    and cfgwrite_keeps: "pe \<in> set devs \<Longrightarrow> pe_cfgwrite pe = Some f \<Longrightarrow> f coff bytes eax (pi, w) = Inr (r, pi', w') \<Longrightarrow> inv w \<Longrightarrow> inv w'"
    and cfgread_keeps: "pe \<in> set devs \<Longrightarrow> pe_cfgread pe = Some g \<Longrightarrow> g coff bytes eax (pi, w) = Inr (r, u, pi', w') \<Longrightarrow> inv w \<Longrightarrow> inv w'"
begin

lemma inv_bus [simp]:
  "inv (w\<lparr>pci_businfo := bi\<rparr>) = inv w" "inv (w\<lparr>w_cursors := cs\<rparr>) = inv w" "inv (w\<lparr>w_mem := mem\<rparr>) = inv w"
  "inv (w\<lparr>w_pic := pic\<rparr>) = inv w" "inv (w\<lparr>w_latch := l\<rparr>) = inv w"
  by (rule iffI; erule bus_free [rotated]; simp)+

lemma inv_put [simp]: "inv (put_devi b pi w) = inv w"
  by (cases b) (simp add: put_devi_def map_slot_def)

lemma inv_map_bus [simp]: "inv (map_bus bus f w) = inv w"
  by (simp add: map_bus_def)

lemma finddev_in: "pci_emul_finddev devs name = Some pe \<Longrightarrow> pe \<in> set devs"
  by (auto simp: pci_emul_finddev_def find_Some_iff)

subsection \<open>Accesses\<close>

lemma mem_handler_keeps:
  assumes "pe \<in> set devs" "pci_emul_mem_handler pe dir addr sz val idx (pi, w) = Inr (err, v, pi', w')" "inv w"
  shows "inv w'"
  using assms(2,3)
  by (auto simp: pci_emul_mem_handler_def Let_def bindE_Inr bind_assertE split: if_split_asm
      intro: barwrite_keeps [OF assms(1)] barread_keeps [OF assms(1)])

lemma cfgrw_keeps:
  assumes "pci_cfgrw devs rd b coff bytes eax w = Inr (v, w')" "inv w"
  shows "inv w'"
proof (cases "Option.bind (get_func w b) fi_devi")
  case None
  then show ?thesis using assms by (auto simp: pci_cfgrw_def split: if_split_asm)
next
  case (Some pi)
  then consider "w' = w"
    | pe where "pci_emul_finddev devs (pi_devemu pi) = Some pe" "pci_cfgread pe b pi coff bytes eax w = Inr (v, w')"
    | pe where "pci_emul_finddev devs (pi_devemu pi) = Some pe" "pci_cfgwrite pe b pi coff bytes eax w = Inr w'"
    using assms(1) by (auto simp: pci_cfgrw_def bindE_Inr split: if_split_asm option.split_asm)
  then show ?thesis
  proof cases
    case 1
    then show ?thesis using assms(2) by simp
  next
    case 2
    note pe = finddev_in [OF 2(1)]
    show ?thesis using 2(2) assms(2)
      by (auto simp: pci_cfgread_def bindE_Inr Let_def split: option.split_asm if_split_asm dest: cfgread_keeps [OF pe])
  next
    case 3
    note pe = finddev_in [OF 3(1)]
    show ?thesis using 3(2) assms(2)
      by (auto simp: pci_cfgwrite_def bindE_Inr split: option.split_asm if_split_asm dest: cfgwrite_keeps [OF pe])
  qed
qed

lemma mem_call_keeps:
  assumes "pci_mem_call devs h dir addr sz ms (v, w) = Inr (err, ms', v', w')" "inv w"
  shows "inv w'"
proof (cases h)
  case Null_handler
  then show ?thesis using assms by (simp add: pci_mem_call_def)
next
  case (Pci_emul_mem_handler b idx)
  then obtain pi pe pi' w1 where "pci_emul_finddev devs (pi_devemu pi) = Some pe"
    "pci_emul_mem_handler pe dir addr sz v idx (pi, w\<lparr>w_mem := ms\<rparr>) = Inr (err, v', pi', w1)" "w' = put_devi b (Some pi') w1"
    using assms(1) by (auto simp: pci_mem_call_def bindE_Inr Let_def split: option.split_asm)
  then show ?thesis using mem_handler_keeps [OF finddev_in] assms(2) by fastforce
next
  case Pci_emul_ecfg_handler
  then show ?thesis using assms cfgrw_keeps
    by (fastforce simp: pci_mem_call_def pci_emul_ecfg_handler_def bindE_Inr Let_def)
qed

lemma bus_access_keeps: "bus_access devs addr wr width val w = Inr (err, v, w') \<Longrightarrow> inv w \<Longrightarrow> inv w'"
  by (auto simp: bus_access_def emulate_mem_def access_memory_def emulate_mem_cb_def bindE_Inr
      split: option.split_asm if_split_asm intro: mem_call_keeps)

lemma emul_mem_keeps: "emul_mem kassert devs junk off (req, w) = Inr (err, req', w') \<Longrightarrow> inv w \<Longrightarrow> inv w'"
  by (auto simp: emul_mem_def bindE_Inr Let_def split: if_split_asm intro: bus_access_keeps)

lemma emul_pci_keeps: "emul_pci kassert devs junk el (req, w) = Inr (req', w') \<Longrightarrow> inv w \<Longrightarrow> inv w'"
proof -
  assume a: "emul_pci kassert devs junk el (req, w) = Inr (req', w')" "inv w"
  then obtain err req1 w1 where m: "emul_mem kassert devs junk (emul_offset el req) (req, w) = Inr (err, req1, w1)"
    by (auto simp: emul_pci_def Let_def bindE_Inr split: if_split_asm)
  have i: "inv w1" using emul_mem_keeps [OF m a(2)] .
  then show "inv w'" using a(1) m
    by (auto simp: emul_pci_def Let_def bindE_Inr bhyve_pci_cfgrw_def split: if_split_asm intro: cfgrw_keeps)
qed

subsection \<open>Initialisation\<close>

lemma emul_init_keeps: "pe \<in> set devs \<Longrightarrow> pci_emul_init pe b param w = Inr (err, w') \<Longrightarrow> inv w \<Longrightarrow> inv w'"
  by (cases b) (auto simp: pci_emul_init_def bindE_Inr Let_def split: if_split_asm dest: init_keeps)

lemma init_funcs_keeps: "init_funcs devs bus fs w = Inr (err, w') \<Longrightarrow> inv w \<Longrightarrow> inv w'"
proof (induction fs arbitrary: w)
  case (Cons f fs)
  obtain slot func where f: "f = (slot, func)" by (cases f)
  obtain fi where fi: "get_func w (bus, slot, func) = Some fi" using Cons.prems(1) by (auto simp: f split: option.split_asm)
  show ?case
  proof (cases "fi_name fi")
    case None
    then show ?thesis using Cons f fi by simp
  next
    case (Some name)
    obtain pde where pde: "pci_emul_finddev devs name = Some pde" using Cons.prems(1) fi Some by (auto simp: f split: option.split_asm)
    obtain err1 w1 where w1: "pci_emul_init pde (bus, slot, func) (fi_param fi) w = Inr (err1, w1)"
      "(if err1 \<noteq> 0 then Inr (err1, w1) else init_funcs devs bus fs w1) = Inr (err, w')"
      using Cons.prems(1) fi Some pde by (auto simp: f bindE_Inr)
    have "inv w1" using emul_init_keeps [OF finddev_in [OF pde] w1(1) Cons.prems(2)] .
    then show ?thesis using w1(2) Cons.IH by (auto split: if_split_asm)
  qed
qed simp

lemma init_buses_keeps: "init_buses devs bs w = Inr (err, w') \<Longrightarrow> inv w \<Longrightarrow> inv w'"
proof (induction bs arbitrary: w)
  case (Cons b bs)
  show ?case
  proof (cases "pci_businfo w b")
    case None
    then show ?thesis using Cons by simp
  next
    case (Some bi)
    obtain err1 w0 w1 where w1: "init_funcs devs b all_funcs w0 = Inr (err1, w1)" "inv w0"
      "(if err1 \<noteq> 0 then Inr (err1, w1) else
         (let cs = bus_slop (w_cursors w1) in
             init_buses devs bs (map_bus b (\<lambda>bi. bi\<lparr>
               bi_iolimit := ucast (pci_emul_iobase cs),
               bi_memlimit32 := ucast (pci_emul_membase32 cs),
               bi_memlimit64 := pci_emul_membase64 cs\<rparr>) (w1\<lparr>w_cursors := cs\<rparr>)))) = Inr (err, w')"
      using Cons.prems Some by (fastforce simp: bindE_Inr)
    have "inv w1" using init_funcs_keeps [OF w1(1,2)] .
    then show ?thesis using w1(3) Cons.IH by (auto simp: Let_def split: if_split_asm)
  qed
qed simp

lemma lintr_route_keeps: "pci_lintr_route (pi, w) = Inr (pi', w') \<Longrightarrow> inv w \<Longrightarrow> inv w'"
  by (auto simp: pci_lintr_route_def Let_def bindE_Inr map_slot_def split: if_split_asm option.split_asm)

lemma route_funcs_keeps: "route_funcs bus fs w = Inr w' \<Longrightarrow> inv w \<Longrightarrow> inv w'"
proof (induction fs arbitrary: w)
  case (Cons f fs)
  obtain slot func where f: "f = (slot, func)" by (cases f)
  then show ?case using Cons
    by (fastforce simp: bindE_Inr split: option.split_asm dest: lintr_route_keeps)
qed simp

lemma route_buses_keeps: "route_buses bs w = Inr w' \<Longrightarrow> inv w \<Longrightarrow> inv w'"
proof (induction bs arbitrary: w)
  case (Cons b bs)
  then show ?case by (fastforce simp: bindE_Inr split: option.split_asm dest: route_funcs_keeps)
qed simp

lemma init_pci_keeps: "init_pci devs w = Inr (err, w') \<Longrightarrow> inv w \<Longrightarrow> inv w'"
  by (fastforce simp: init_pci_def bindE_Inr Let_def case_prod_beta split: if_split_asm dest: init_buses_keeps route_buses_keeps)

lemma pci_init_keeps: "bhyve_pci_init devs w = Inr (err, w') \<Longrightarrow> inv w \<Longrightarrow> inv w'"
  by (fastforce simp: bhyve_pci_init_def bindE_Inr Let_def split: if_split_asm dest: init_pci_keeps)

lemma emul_pci_init_keeps: "emul_pci_init malloced devs junk w = Inr (err, w') \<Longrightarrow> inv w \<Longrightarrow> inv w'"
  by (fastforce simp: emul_pci_init_def bindE_Inr bhyve_pci_cfgrw_def split: if_split_asm dest: pci_init_keeps cfgrw_keeps)

end

end
