(* ===== verification/Device_Boot.thy ===== *)
theory Device_Boot
  imports Device_Model Ahci_Init Bus_Devices
begin

text \<open>
  The start of the machine with the devices of the source: the loop of \<open>init_pci\<close> over the buses creates
  the network card in slot 0 and the disk controller in slot 1, routes their pins and adds the
  configuration window.
\<close>

section \<open>The devices\<close>

definition pci_devemu_set :: "bool \<Rightarrow> bytes \<Rightarrow> ahci_env \<Rightarrow> ('f, 'a) ahci_world_scheme pci_devemu list" where
  "pci_devemu_set iommu junk env = pci_de_e82545 iommu # map (\<lambda>name. pci_de_ahci name iommu junk env) [''ahci'', ''ahci-hd'', ''ahci-cd'']"

lemma devemu_found:
  "pci_emul_finddev (pci_devemu_set iommu junk env) ''e1000'' = Some (pci_de_e82545 iommu)"
  "pci_emul_finddev (pci_devemu_set iommu junk env) ''ahci-hd'' = Some (pci_de_ahci ''ahci-hd'' iommu junk env)"
  by (simp_all add: pci_emul_finddev_def pci_devemu_set_def pci_de_e82545_def pci_de_ahci_def)

section \<open>What creating a device leaves\<close>

text \<open>The state of the other device.\<close>

lemma request_keeps: "pci_lintr_request (pi, w) = Inr (pi', w') \<Longrightarrow> pci_world.more w' = pci_world.more w"
  by (auto simp: pci_lintr_request_def Let_def bindE_Inr map_slot_def split: option.split_asm)

lemma more_devices: "pci_world.more w' = pci_world.more w \<Longrightarrow> w_e1000 w' = w_e1000 w \<and> w_ahci w' = w_ahci w"
  for w w' :: "('f, 'a) ahci_world_scheme"
  by (cases w; cases w') simp

lemma put_devi_ahci [simp]: "w_ahci (put_devi b pi w) = w_ahci w" "w_blockif (put_devi b pi w) = w_blockif w"
  by (cases b; simp add: put_devi_def map_slot_def)+

lemma ahci_init_card: "pci_ahci_init env atapi opts (pi, w) = Inr (err, pi', w') \<Longrightarrow> w_e1000 w' = w_e1000 w"
  for w :: "('f, 'a) ahci_world_scheme"
  by (fastforce simp: pci_ahci_init_def bindE_Inr Let_def hba_leave_def split: if_split_asm
      dest!: request_keeps dest: more_devices)

text \<open>The functions of the bus.\<close>

lemma get_func_map_slot [simp]: "get_func (map_slot b s (set_count k f) w) = get_func w"
  by (cases "pci_businfo w b") (auto simp: fun_eq_iff get_func_def map_slot_def set_count_def)

lemma get_func_upd [simp]:
  "get_func (w\<lparr>w_cursors := cs\<rparr>) = get_func w" "get_func (w\<lparr>w_mem := mem\<rparr>) = get_func w" "get_func (w\<lparr>w_pic := pic\<rparr>) = get_func w"
  by (simp_all add: fun_eq_iff get_func_def)

lemma get_func_limits [simp]:
  "get_func (map_bus b (\<lambda>bi. bi\<lparr>bi_iolimit := x, bi_memlimit32 := y, bi_memlimit64 := z\<rparr>) w) = get_func w"
  "get_func (map_bus b (\<lambda>bi. bi\<lparr>bi_iobase := x, bi_membase32 := y, bi_membase64 := z\<rparr>) w) = get_func w"
  by (cases "pci_businfo w b"; auto simp: fun_eq_iff get_func_def map_bus_def)+

lemma get_func_put:
  "get_func (put_devi b (Some pi) w) c = (if c = b then map_option (\<lambda>fi. fi\<lparr>fi_devi := Some pi\<rparr>) (get_func w b) else get_func w c)"
  by (cases b; cases c; cases "pci_businfo w (fst b)") (auto simp: get_func_def put_devi_def map_slot_def)

text \<open>No pin is routed to a negative line.\<close>

definition pirq_ok :: "'a pci_world_scheme \<Rightarrow> bool" where
  "pirq_ok w \<longleftrightarrow> (\<forall>b bi s p. pci_businfo w b = Some bi \<longrightarrow> 0 \<le> ii_pirq_pin (si_intpins (bi_slots bi s) p))"

lemma pirq_ok_upd [simp]:
  "pirq_ok (w\<lparr>w_cursors := cs\<rparr>) = pirq_ok w" "pirq_ok (w\<lparr>w_mem := mem\<rparr>) = pirq_ok w" "pirq_ok (w\<lparr>w_pic := pic\<rparr>) = pirq_ok w"
  by (simp_all add: pirq_ok_def)

lemma pirq_ok_map_slot: "pirq_ok w \<Longrightarrow> (\<And>i. 0 \<le> ii_pirq_pin i \<Longrightarrow> 0 \<le> ii_pirq_pin (f i)) \<Longrightarrow> pirq_ok (map_slot b s (set_count k f) w)"
  by (auto simp: pirq_ok_def map_slot_def set_count_def)

lemma pirq_ok_put: "pirq_ok w \<Longrightarrow> pirq_ok (put_devi b pi w)"
  by (cases b) (auto simp: pirq_ok_def put_devi_def map_slot_def)

lemma pirq_ok_limits:
  "pirq_ok w \<Longrightarrow> pirq_ok (map_bus b (\<lambda>bi. bi\<lparr>bi_iolimit := x, bi_memlimit32 := y, bi_memlimit64 := z\<rparr>) w)"
  by (auto simp: pirq_ok_def map_bus_def)

text \<open>The facts of the bus that creating a device keeps: its functions, and that.\<close>

definition bus_kept :: "'a pci_world_scheme \<Rightarrow> 'a pci_world_scheme \<Rightarrow> bool" where
  "bus_kept w w' \<longleftrightarrow> get_func w' = get_func w \<and> (pirq_ok w \<longrightarrow> pirq_ok w')"

lemma kept_trans: "bus_kept u v \<Longrightarrow> bus_kept v w \<Longrightarrow> bus_kept u w"
  by (simp add: bus_kept_def)

lemma request_kept: "pci_lintr_request (pi, w) = Inr (pi', w') \<Longrightarrow> bus_kept w w'"
  by (auto simp: pci_lintr_request_def Let_def bindE_Inr bus_kept_def intro: pirq_ok_map_slot split: option.split_asm)

lemma kept_cong: "pci_businfo w' = pci_businfo w \<Longrightarrow> bus_kept w w'"
  by (simp add: bus_kept_def fun_eq_iff get_func_def pirq_ok_def)

lemma bars_kept: "e82545_bars (pi, w) = Inr (pi', w') \<Longrightarrow> pci_businfo w' = pci_businfo w"
  by (auto simp: e82545_bars_def e82545_alloc_bar_def bindE_Inr case_prod_beta)

lemma e1000_init_kept: "e82545_init opts (pi, w) = Inr (err, pi', w') \<Longrightarrow> bus_kept w w'"
proof -
  assume "e82545_init opts (pi, w) = Inr (err, pi', w')"
  then obtain pi1 pi2 w1 pi3 w2 where "pci_lintr_request (pi1, w) = Inr (pi2, w1)" "e82545_bars (pi2, w1) = Inr (pi3, w2)"
    "pci_businfo w' = pci_businfo w2"
    by (auto simp: e82545_init_def Let_def bindE_Inr e1000_leave_def)
  then show ?thesis using request_kept bars_kept kept_cong kept_trans by metis
qed

lemma ahci_init_kept: "pci_ahci_init env atapi opts (pi, w) = Inr (0, pi', w') \<Longrightarrow> bus_kept w w'"
proof -
  have l: "bus_kept w w2" if "pci_lintr_request (pi1, w1) = Inr (pi2, w2)" "pci_businfo w1 = pci_businfo w" for pi1 w1 pi2 w2
    using request_kept [OF that(1)] kept_cong [OF that(2)] by (rule kept_trans [rotated])
  assume "pci_ahci_init env atapi opts (pi, w) = Inr (0, pi', w')"
  then show ?thesis
    by (auto simp: pci_ahci_init_def Let_def bindE_Inr hba_leave_def case_prod_beta elim!: l split: if_split_asm)
qed

text \<open>The pins of the other slots.\<close>

definition slot_pins :: "'a pci_world_scheme \<Rightarrow> nat \<Rightarrow> nat \<Rightarrow> (nat \<Rightarrow> intxinfo) option" where
  "slot_pins w b s = map_option (\<lambda>bi. si_intpins (bi_slots bi s)) (pci_businfo w b)"

lemma card_init_pins:
  assumes "e82545_init opts (card_pi0, w) = Inr (err, pi', w')"
  shows "slot_pins w' 0 1 = slot_pins w 0 1"
proof -
  obtain pi2 w1 pi3 w2 where "pci_lintr_request (the_ids card_pi0, w) = Inr (pi2, w1)" "e82545_bars (pi2, w1) = Inr (pi3, w2)"
    "pci_businfo w' = pci_businfo w2"
    using assms by (auto simp: e82545_init_def Let_def bindE_Inr e1000_leave_def ids_eq)
  moreover have "pi_slot (the_ids card_pi0) = 0" by (simp add: the_ids_def card_pi0_def zero_devinst_def)
  ultimately show ?thesis
    using bars_kept
    by (fastforce simp: slot_pins_def pci_lintr_request_def Let_def bindE_Inr map_slot_def option.map_comp o_def split: option.split_asm)
qed

lemma put_pins [simp]: "slot_pins (put_devi b pi w) c s = slot_pins w c s"
  by (cases b; cases "pci_businfo w (fst b)") (auto simp: slot_pins_def put_devi_def map_slot_def)

section \<open>The loops\<close>

lemma init_funcs_skip:
  "(\<And>s f. (s, f) \<in> set fs \<Longrightarrow> \<exists>fi. get_func w (b, s, f) = Some fi \<and> fi_name fi = None) \<Longrightarrow>
   init_funcs devs b (fs @ rest) w = init_funcs devs b rest w"
proof (induction fs)
  case (Cons x fs)
  obtain s f where x: "x = (s, f)" by (cases x)
  then obtain fi where "get_func w (b, s, f) = Some fi" "fi_name fi = None" using Cons.prems by fastforce
  then show ?case using Cons x by simp
qed simp

lemma route_funcs_skip:
  "(\<And>s f. (s, f) \<in> set fs \<Longrightarrow> \<exists>fi. get_func w (b, s, f) = Some fi \<and> fi_devi fi = None) \<Longrightarrow>
   route_funcs b (fs @ rest) w = route_funcs b rest w"
proof (induction fs)
  case (Cons x fs)
  obtain s f where x: "x = (s, f)" by (cases x)
  then obtain fi where "get_func w (b, s, f) = Some fi" "fi_devi fi = None" using Cons.prems by fastforce
  then show ?case using Cons x by simp
qed simp

lemma init_buses_skip: "(\<And>b. b \<in> set bs \<Longrightarrow> pci_businfo w b = None) \<Longrightarrow> init_buses devs bs w = Inr (0, w)"
  by (induction bs) auto

lemma route_buses_skip: "(\<And>b. b \<in> set bs \<Longrightarrow> pci_businfo w b = None) \<Longrightarrow> route_buses bs w = Inr w"
  by (induction bs) auto

lemma all_funcs_split:
  obtains A B where "all_funcs = (0, 0) # A @ (1, 0) # B" "(0, 0) \<notin> set A" "(1, 0) \<notin> set A" "(0, 0) \<notin> set B" "(1, 0) \<notin> set B"
proof -
  have "[0..<32] = 0 # 1 # [2..<32 :: nat]" "[0..<8] = 0 # [1..<8 :: nat]" by (simp_all add: upt_conv_Cons)
  then have "all_funcs = (0, 0) # map (Pair 0) [1..<8] @ (1, 0) # (map (Pair 1) [1..<8] @ concat (map (\<lambda>s. map (Pair s) [0..<8]) [2..<32]))"
    by (simp add: all_funcs_def)
  then show thesis by (rule that) auto
qed

section \<open>The two devices\<close>

text \<open>A function with an instance.\<close>

definition with_devi :: "bdf \<Rightarrow> pci_devinst \<Rightarrow> (bdf \<Rightarrow> funcinfo option) \<Rightarrow> bdf \<Rightarrow> funcinfo option" where
  "with_devi b pi g = g(b := map_option (\<lambda>fi. fi\<lparr>fi_devi := Some pi\<rparr>) (g b))"

lemma with_devi_sel [simp]: "c \<noteq> b \<Longrightarrow> with_devi b pi g c = g c"
  "with_devi b pi g b = map_option (\<lambda>fi. fi\<lparr>fi_devi := Some pi\<rparr>) (g b)"
  by (simp_all add: with_devi_def)

lemma get_func_put_eq: "get_func (put_devi b (Some pi) w) = with_devi b pi (get_func w)"
  by (rule ext) (simp add: get_func_put with_devi_def)

lemma businfo_func: "pci_businfo w b = None \<longleftrightarrow> get_func w (b, 0, 0) = None"
  by (simp add: get_func_def)

lemma slot_pins_eq: "slot_pins w b s = Some f \<longleftrightarrow> (\<exists>bi. pci_businfo w b = Some bi \<and> si_intpins (bi_slots bi s) = f)"
  by (auto simp: slot_pins_def)

text \<open>The card before a driver has enabled it.\<close>

definition card_quiet :: "('f, 'a) e1000_world_scheme \<Rightarrow> bool" where
  "card_quiet w \<longleftrightarrow> (\<exists>sc. w_e1000 w = Some sc \<and> pi_bdf (esc_pi (intr_part sc)) = (0, 0, 0) \<and> free_mutex (esc_mtx (intr_part sc)) \<and>
     \<not> esc_tx_enabled (tx_part sc) \<and> \<not> esc_rx_enabled (rx_part sc))"

lemma card_quiet_cong: "w_e1000 w' = w_e1000 w \<Longrightarrow> card_quiet w' = card_quiet w"
  for w' :: "('f, 'a) e1000_world_scheme" and w :: "('f, 'b) e1000_world_scheme"
  by (simp add: card_quiet_def)

lemma card_quietD: "card_quiet w \<Longrightarrow> w_e1000 w \<noteq> None"
  by (auto simp: card_quiet_def)

lemma boot_card:
  fixes w :: "('f, 'a) ahci_world_scheme"
  assumes "fresh_pci w" "slot_pins w 0 1 = Some (\<lambda>_. \<lparr>ii_count = 0, ii_pirq_pin = 0, ii_ioapic_irq = 0\<rparr>)"
  shows "\<exists>w'. pci_emul_init (pci_de_e82545 iommu) (0, 0, 0) None w = Inr (0, w') \<and>
    get_func w' = with_devi (0, 0, 0) (card_bars card_pi) (get_func w) \<and> (pirq_ok w \<longrightarrow> pirq_ok w') \<and>
    fresh_sata w' \<and> card_quiet w' \<and>
    w_mem w' = \<lparr>mmio_rb_root = [new_range (reg_range (0, 0, 0)), new_range (flash_range (0, 0, 0))],
       mmio_rb_fallback = [], mmio_hint = None, malloc_ok = True\<rparr>"
proof -
  obtain w0 sc where w0: "e82545_init None (card_pi0, w) = Inr (0, card_bars card_pi, w0)" "w_e1000 w0 = Some sc"
    "intr_part sc = reset_intr ((intr_part zero_softc)\<lparr>esc_pi := card_bars card_pi, esc_pic := w_pic w\<rparr>)"
    "\<not> esc_tx_enabled (tx_part sc)" "\<not> esc_rx_enabled (rx_part sc)"
    "w_mem w0 = \<lparr>mmio_rb_root = [new_range (reg_range (0, 0, 0)), new_range (flash_range (0, 0, 0))],
       mmio_rb_fallback = [], mmio_hint = None, malloc_ok = True\<rparr>"
    "w_cursors w0 = \<lparr>pci_emul_iobase = 0x2008, pci_emul_membase32 = 0xfdb50000, pci_emul_membase64 = PCI_EMUL_MEMBASE64\<rparr>"
    using card_created [OF assms(1), of None] by blast
  let ?w = "put_devi (0, 0, 0) (Some (card_bars card_pi)) w0"
  have q: "card_quiet ?w" using w0(2-5) card_bars_sel(2)
    by (simp add: card_quiet_def reset_intr_def zero_softc_def free_mutex_def)
  have k: "bus_kept w w0" using e1000_init_kept [OF w0(1)] .
  have far: "range_at (w_mem w0) a = None" if "covers sata_range a" for a
    using that by (auto simp: w0(6) range_at_def covers_def sata_range_def new_range_def reg_range_def flash_range_def word_le_nat_alt)
  have "slot_pins ?w 0 1 = Some (\<lambda>_. \<lparr>ii_count = 0, ii_pirq_pin = 0, ii_ioapic_irq = 0\<rparr>)"
    using card_init_pins [OF w0(1)] assms(2) by simp
  then have "fresh_sata ?w" using w0(6,7) far ranges_inv(1) unfolding slot_pins_eq fresh_sata_def by simp
  moreover have "pci_emul_init (pci_de_e82545 iommu) (0, 0, 0) None w = Inr (0, ?w)"
    unfolding pci_emul_init_start using w0(1) by (simp add: pci_de_e82545_def)
  ultimately show ?thesis
    using w0(6) q k pirq_ok_put by (intro exI [of _ ?w]) (auto simp: get_func_put_eq bus_kept_def)
qed

lemma boot_sata:
  assumes "fresh_sata w" "bc_alloc env 0"
  shows "\<exists>w' pi sc bc. pci_emul_init (pci_de_ahci ''ahci-hd'' iommu junk env) (0, 1, 0) (Some ''hd:test'') w = Inr (0, w') \<and>
    get_func w' = with_devi (0, 1, 0) pi (get_func w) \<and> (pirq_ok w \<longrightarrow> pirq_ok w') \<and> w_e1000 w' = w_e1000 w \<and>
    w_ahci w' = Some sc \<and> w_blockif w' = Some (Some 0) \<and> sata_ready (make_ident (md5 env ''test'')) bc pi sc \<and>
    mem_inv (w_mem w') \<and> malloc_ok (w_mem w') \<and>
    (\<forall>a. range_at (w_mem w') a = (if covers sata_range a then Some sata_range else range_at (w_mem w) a))"
proof -
  obtain bc :: "nat blockif_ctxt" where bc: "blockif_open (bc_alloc env 0) (env_base env) = Some bc"
    using assms(2) by (auto simp: blockif_open_def)
  obtain pi w4 sc where i: "pci_ahci_init env False (Some ''hd:test'') (sata_pi0, w) = Inr (0, pi, w4)"
    "w_ahci w4 = Some sc" "w_blockif w4 = Some (Some 0)"
    "\<forall>a. range_at (w_mem w4) a = (if covers sata_range a then Some sata_range else range_at (w_mem w) a)"
    "mem_inv (w_mem w4)" "malloc_ok (w_mem w4)" "sata_ready (make_ident (md5 env ''test'')) bc pi sc"
    using sata_created [OF assms(1) bc] by blast
  let ?w = "put_devi (0, 1, 0) (Some pi) w4"
  have k: "bus_kept w w4" using ahci_init_kept [OF i(1)] .
  have "pci_emul_init (pci_de_ahci ''ahci-hd'' iommu junk env) (0, 1, 0) (Some ''hd:test'') w = Inr (0, ?w)"
    unfolding sata_start i(1) by simp
  moreover have "get_func ?w = with_devi (0, 1, 0) pi (get_func w)" "pirq_ok w \<longrightarrow> pirq_ok ?w"
    using k pirq_ok_put by (auto simp: get_func_put_eq bus_kept_def)
  ultimately show ?thesis
    using i(2-7) ahci_init_card [OF i(1)] by (intro exI [of _ ?w] exI [of _ pi] exI [of _ sc] exI [of _ bc]) simp
qed

section \<open>The buses\<close>

text \<open>The bus as \<open>bhyve_pci_init\<close> names its functions.\<close>

abbreviation boot_bus :: businfo where
  "boot_bus \<equiv> name_func 1 ''ahci-hd'' (Some ''hd:test'') (name_func 0 ''e1000'' None zero_bus)"

definition boot_func :: "bdf \<Rightarrow> funcinfo option" where
  "boot_func b = (if fst b \<noteq> 0 then None
     else if b = (0, 0, 0) then Some \<lparr>fi_name = Some ''e1000'', fi_param = None, fi_devi = None\<rparr>
     else if b = (0, 1, 0) then Some \<lparr>fi_name = Some ''ahci-hd'', fi_param = Some ''hd:test'', fi_devi = None\<rparr>
     else Some \<lparr>fi_name = None, fi_param = None, fi_devi = None\<rparr>)"

lemma boot_func_eq: "pci_businfo w = (\<lambda>_. None)(0 := Some boot_bus) \<Longrightarrow> get_func w = boot_func"
  by (rule ext) (auto simp: get_func_def boot_func_def name_func_def zero_bus_def zero_slot_def split: prod.split)

lemma boot_pins:
  "pci_businfo w = (\<lambda>_. None)(0 := Some boot_bus) \<Longrightarrow> pirq_ok w \<and> slot_pins w 0 s = Some (\<lambda>_. \<lparr>ii_count = 0, ii_pirq_pin = 0, ii_ioapic_irq = 0\<rparr>)"
  by (auto simp: slot_pins_def pirq_ok_def name_func_def zero_bus_def zero_slot_def split: if_split_asm)

definition booted_funcs :: "pci_devinst \<Rightarrow> pci_devinst \<Rightarrow> bdf \<Rightarrow> funcinfo option" where
  "booted_funcs pi0 pi1 = with_devi (0, 1, 0) pi1 (with_devi (0, 0, 0) pi0 boot_func)"

lemma booted_sel [simp]:
  "booted_funcs pi0 pi1 (0, 0, 0) = Some \<lparr>fi_name = Some ''e1000'', fi_param = None, fi_devi = Some pi0\<rparr>"
  "booted_funcs pi0 pi1 (0, 1, 0) = Some \<lparr>fi_name = Some ''ahci-hd'', fi_param = Some ''hd:test'', fi_devi = Some pi1\<rparr>"
  by (simp_all add: booted_funcs_def boot_func_def)

lemma booted_other: "b \<noteq> (0, 0, 0) \<Longrightarrow> b \<noteq> (0, 1, 0) \<Longrightarrow> fst b = 0 \<Longrightarrow>
    booted_funcs pi0 pi1 b = Some \<lparr>fi_name = None, fi_param = None, fi_devi = None\<rparr>"
  "fst b \<noteq> 0 \<Longrightarrow> booted_funcs pi0 pi1 b = None"
  by (auto simp: booted_funcs_def boot_func_def with_devi_def)

lemma init_funcs_boot:
  fixes w :: "('f, 'a) ahci_world_scheme"
  assumes "fresh_pci w" "slot_pins w 0 1 = Some (\<lambda>_. \<lparr>ii_count = 0, ii_pirq_pin = 0, ii_ioapic_irq = 0\<rparr>)"
    "get_func w = boot_func" "bc_alloc env 0"
  shows "\<exists>w' pi sc bc. init_funcs (pci_devemu_set iommu junk env) 0 all_funcs w = Inr (0, w') \<and>
    get_func w' = booted_funcs (card_bars card_pi) pi \<and> (pirq_ok w \<longrightarrow> pirq_ok w') \<and> card_quiet w' \<and>
    w_ahci w' = Some sc \<and> w_blockif w' = Some (Some 0) \<and> sata_ready (make_ident (md5 env ''test'')) bc pi sc \<and>
    mem_inv (w_mem w') \<and> malloc_ok (w_mem w') \<and>
    (\<forall>a. range_at (w_mem w') a = (if covers sata_range a then Some sata_range
       else if covers (reg_range (0, 0, 0)) a then Some (reg_range (0, 0, 0))
       else if covers (flash_range (0, 0, 0)) a then Some (flash_range (0, 0, 0)) else None))"
proof -
  obtain A B where fs: "all_funcs = (0, 0) # A @ (1, 0) # B" "(0, 0) \<notin> set A" "(1, 0) \<notin> set A" "(0, 0) \<notin> set B" "(1, 0) \<notin> set B"
    by (rule all_funcs_split)
  obtain w1 where w1: "pci_emul_init (pci_de_e82545 iommu) (0, 0, 0) None w = Inr (0, w1)"
    "get_func w1 = with_devi (0, 0, 0) (card_bars card_pi) boot_func" "pirq_ok w \<longrightarrow> pirq_ok w1" "fresh_sata w1" "card_quiet w1"
    "w_mem w1 = \<lparr>mmio_rb_root = [new_range (reg_range (0, 0, 0)), new_range (flash_range (0, 0, 0))],
       mmio_rb_fallback = [], mmio_hint = None, malloc_ok = True\<rparr>"
    using boot_card [OF assms(1,2), of iommu] assms(3) by auto
  obtain w2 pi sc bc where w2: "pci_emul_init (pci_de_ahci ''ahci-hd'' iommu junk env) (0, 1, 0) (Some ''hd:test'') w1 = Inr (0, w2)"
    "get_func w2 = booted_funcs (card_bars card_pi) pi" "pirq_ok w1 \<longrightarrow> pirq_ok w2" "w_e1000 w2 = w_e1000 w1"
    "w_ahci w2 = Some sc" "w_blockif w2 = Some (Some 0)" "sata_ready (make_ident (md5 env ''test'')) bc pi sc"
    "mem_inv (w_mem w2)" "malloc_ok (w_mem w2)"
    "\<forall>a. range_at (w_mem w2) a = (if covers sata_range a then Some sata_range else range_at (w_mem w1) a)"
    using boot_sata [OF w1(4) assms(4), of iommu junk] w1(2) unfolding booted_funcs_def by auto
  have "\<exists>fi. get_func w1 (0, s, f) = Some fi \<and> fi_name fi = None" if "(s, f) \<in> set A" for s f
  proof -
    have "(s, f) \<noteq> (0, 0)" "(s, f) \<noteq> (1, 0)" using that fs(2,3) by metis+
    then show ?thesis by (auto simp: w1(2) with_devi_def boot_func_def)
  qed
  note A = init_funcs_skip [of A w1 0, OF this]
  have "\<exists>fi. get_func w2 (0, s, f) = Some fi \<and> fi_name fi = None" if "(s, f) \<in> set B" for s f
  proof -
    have "(s, f) \<noteq> (0, 0)" "(s, f) \<noteq> (1, 0)" using that fs(4,5) by metis+
    then show ?thesis by (simp add: w2(2) booted_other)
  qed
  note B = init_funcs_skip [of B w2 0, OF this, of _ "[]"]
  have f: "get_func w (0, 0, 0) = Some \<lparr>fi_name = Some ''e1000'', fi_param = None, fi_devi = None\<rparr>"
    "get_func w1 (0, 1, 0) = Some \<lparr>fi_name = Some ''ahci-hd'', fi_param = Some ''hd:test'', fi_devi = None\<rparr>"
    by (simp_all add: assms(3) w1(2) boot_func_def)
  have "init_funcs (pci_devemu_set iommu junk env) 0 all_funcs w = Inr (0, w2)"
    unfolding fs(1) using f w1(1) w2(1) A B by (simp add: devemu_found del: One_nat_def)
  moreover have "range_at (w_mem w1) a = (if covers (reg_range (0, 0, 0)) a then Some (reg_range (0, 0, 0))
       else if covers (flash_range (0, 0, 0)) a then Some (flash_range (0, 0, 0)) else None)" for a
    unfolding w1(6) by (auto simp: range_at_def new_range_def covers_def extent_def)
  ultimately show ?thesis
    using w1(3,5) w2(2-10) by (intro exI [of _ w2] exI [of _ pi] exI [of _ sc] exI [of _ bc]) (simp add: card_quiet_cong [OF w2(4)])
qed

text \<open>Routing sets the line of an instance and leaves its identity, its BARs and its pin.\<close>

definition routed :: "pci_devinst \<Rightarrow> pci_devinst \<Rightarrow> bool" where
  "routed pi pi' \<longleftrightarrow> pi_devemu pi' = pi_devemu pi \<and> pi_bar pi' = pi_bar pi \<and> pi_bdf pi' = pi_bdf pi \<and>
     lintr_pin (lintr pi') = lintr_pin (lintr pi) \<and> lintr_lock (lintr pi') = lintr_lock (lintr pi) \<and> (\<forall>k < 4. pi_cfgdata pi' k = pi_cfgdata pi k)"

lemma routed_ids: "routed pi pi' \<Longrightarrow> CFGREAD pi' 0 2 = CFGREAD pi 0 2 \<and> CFGREAD pi' 2 2 = CFGREAD pi 2 2"
  by (simp add: routed_def CFGREAD_def pci_get_cfgdata16_def bind_assertE load16_def)

lemma route_runs:
  assumes "pirq_ok w" "get_func w (pi_bdf pi) \<noteq> None"
  shows "\<exists>pi' w'. pci_lintr_route (pi, w) = Inr (pi', w') \<and> get_func w' = get_func w \<and> pirq_ok w' \<and>
    pci_world.more w' = pci_world.more w \<and> w_mem w' = w_mem w \<and> routed pi pi'"
proof (cases "lintr_pin (lintr pi) = 0")
  case True
  then show ?thesis using assms by (simp add: pci_lintr_route_def routed_def)
next
  case False
  obtain bi where bi: "pci_businfo w (pi_bus pi) = Some bi" using assms(2) by (auto simp: get_func_def pi_bdf_def)
  define ii where "ii = si_intpins (bi_slots bi (pi_slot pi)) (lintr_pin (lintr pi) - 1)"
  define pirq where "pirq = (if ii_pirq_pin ii = 0 then pirq_alloc_pin pi else ii_pirq_pin ii)"
  have p: "0 < pirq" using assms(1) bi unfolding pirq_ok_def pirq_def ii_def pirq_alloc_pin_def by (auto simp: order_less_le)
  let ?w = "map_slot (pi_bus pi) (pi_slot pi) (set_count (lintr_pin (lintr pi) - 1) (\<lambda>ii. ii\<lparr>ii_pirq_pin := pirq\<rparr>)) w"
  have "pirq_ok ?w" by (rule pirq_ok_map_slot [OF assms(1)]) (use p in simp)
  moreover have "pci_world.more ?w = pci_world.more w" "w_mem ?w = w_mem w" by (simp_all add: map_slot_def)
  ultimately show ?thesis
    using False bi p by (simp add: pci_lintr_route_def Let_def ii_def [symmetric] pirq_def [symmetric] bind_assertE
        pci_set_cfgdata8_def routed_def pi_bdf_def del: One_nat_def)
qed

lemma put_devi_world [simp]: "pci_world.more (put_devi b pi w) = pci_world.more w"
  by (cases b) (simp add: put_devi_def map_slot_def)

lemma route_one:
  assumes "get_func w (bus, s, f) = Some fi" "fi_devi fi = Some pi" "pi_bdf pi = (bus, s, f)" "pirq_ok w"
  shows "\<exists>pi' w'. (\<forall>rest. route_funcs bus ((s, f) # rest) w = route_funcs bus rest w') \<and> routed pi pi' \<and>
    get_func w' = with_devi (bus, s, f) pi' (get_func w) \<and> pirq_ok w' \<and> pci_world.more w' = pci_world.more w \<and> w_mem w' = w_mem w"
proof -
  obtain pi' w1 where r: "pci_lintr_route (pi, w) = Inr (pi', w1)" "get_func w1 = get_func w" "pirq_ok w1"
    "pci_world.more w1 = pci_world.more w" "w_mem w1 = w_mem w" "routed pi pi'"
    using route_runs [OF assms(4), of pi] assms(1,3) by auto
  then show ?thesis
    using assms(1,2) pirq_ok_put [OF r(3)]
    by (intro exI [of _ pi'] exI [of _ "put_devi (bus, s, f) (Some pi') w1"]) (simp add: get_func_put_eq)
qed

lemma booted_again:
  "with_devi (0, 0, 0) pi (booted_funcs pi0 pi1) = booted_funcs pi pi1"
  "with_devi (0, 1, 0) pi (booted_funcs pi0 pi1) = booted_funcs pi0 pi"
  by (auto simp: fun_eq_iff booted_funcs_def with_devi_def boot_func_def)

lemma route_boot:
  assumes "get_func w = booted_funcs pi0 pi1" "pirq_ok w" "pi_bdf pi0 = (0, 0, 0)" "pi_bdf pi1 = (0, 1, 0)"
  shows "\<exists>w' pi0' pi1'. route_funcs 0 all_funcs w = Inr w' \<and> get_func w' = booted_funcs pi0' pi1' \<and>
    routed pi0 pi0' \<and> routed pi1 pi1' \<and> pci_world.more w' = pci_world.more w \<and> w_mem w' = w_mem w"
proof -
  obtain A B where fs: "all_funcs = (0, 0) # A @ (1, 0) # B" "(0, 0) \<notin> set A" "(1, 0) \<notin> set A" "(0, 0) \<notin> set B" "(1, 0) \<notin> set B"
    by (rule all_funcs_split)
  have skip: "\<exists>fi. booted_funcs p0 p1 (0, s, f) = Some fi \<and> fi_devi fi = None" if "(s, f) \<in> set C" "(0, 0) \<notin> set C" "(1, 0) \<notin> set C" for s f C p0 p1
  proof -
    have "(s, f) \<noteq> (0, 0)" "(s, f) \<noteq> (1, 0)" using that by metis+
    then show ?thesis by (simp add: booted_other)
  qed
  obtain pi0' w1 where w1: "\<And>rest. route_funcs 0 ((0, 0) # rest) w = route_funcs 0 rest w1" "routed pi0 pi0'"
    "get_func w1 = booted_funcs pi0' pi1" "pirq_ok w1" "pci_world.more w1 = pci_world.more w" "w_mem w1 = w_mem w"
    using route_one [of w 0 0 0 _ pi0] assms by (auto simp: booted_again)
  obtain pi1' w2 where w2: "\<And>rest. route_funcs 0 ((1, 0) # rest) w1 = route_funcs 0 rest w2" "routed pi1 pi1'"
    "get_func w2 = booted_funcs pi0' pi1'" "pirq_ok w2" "pci_world.more w2 = pci_world.more w1" "w_mem w2 = w_mem w1"
    using route_one [of w1 0 1 0 _ pi1] w1(3,4) assms(4) by (auto simp: booted_again simp del: One_nat_def)
  have "route_funcs 0 (A @ r) w1 = route_funcs 0 r w1" for r
    by (rule route_funcs_skip) (use skip [OF _ fs(2,3)] w1(3) in simp)
  moreover have "route_funcs 0 (B @ []) w2 = route_funcs 0 [] w2"
    by (rule route_funcs_skip) (use skip [OF _ fs(4,5)] w2(3) in simp)
  ultimately have "route_funcs 0 all_funcs w = Inr w2" unfolding fs(1) w1(1) using w2(1) by simp
  then show ?thesis using w1(2,5,6) w2(2,3,5,6) by (intro exI [of _ w2] exI [of _ pi0'] exI [of _ pi1']) simp
qed

text \<open>The ranges of a machine that has come up.\<close>

definition boot_range :: "u64 \<Rightarrow> pci_range option" where
  "boot_range a =
     (if covers ecfg_range a then Some ecfg_range
      else if covers sata_range a then Some sata_range
      else if covers (reg_range (0, 0, 0)) a then Some (reg_range (0, 0, 0))
      else if covers (flash_range (0, 0, 0)) a then Some (flash_range (0, 0, 0)) else None)"

lemma ecfg_apart: "covers ecfg_range a \<Longrightarrow> \<not> covers sata_range a \<and> \<not> covers (reg_range (0, 0, 0)) a \<and> \<not> covers (flash_range (0, 0, 0)) a"
  by (auto simp: covers_def ecfg_range_def sata_range_def reg_range_def flash_range_def PCI_EMUL_ECFG_BASE_def PCI_EMUL_ECFG_SIZE_def word_le_nat_alt)

lemma bus_zero_first: "[0..<PCI_BUSMAX + 1] = 0 # [1..<PCI_BUSMAX + 1]"
  by (simp add: upt_conv_Cons)

lemma no_bus: "get_func w = booted_funcs pi0 pi1 \<Longrightarrow> b \<noteq> 0 \<Longrightarrow> pci_businfo w b = None"
  by (simp add: businfo_func booted_other)

lemma no_bus_but_0: "get_func w = booted_funcs pi0 pi1 \<Longrightarrow> \<exists>bi. pci_businfo w 0 = Some bi"
  using businfo_func [of w 0] by auto

lemma buses_boot:
  fixes wi :: "('f, 'a) ahci_world_scheme"
  assumes "pci_businfo wi = (\<lambda>_. None)(0 := Some boot_bus)" "\<not> line_level 19 (w_pic wi) False" "bc_alloc env 0"
    "w_cursors wi = \<lparr>pci_emul_iobase = 0x2000, pci_emul_membase32 = 0xfdb10000, pci_emul_membase64 = PCI_EMUL_MEMBASE64\<rparr>"
    "w_mem wi = \<lparr>mmio_rb_root = [], mmio_rb_fallback = [], mmio_hint = None, malloc_ok = True\<rparr>"
  shows "\<exists>w' pi sc bc. init_buses (pci_devemu_set iommu junk env) [0..<PCI_BUSMAX + 1] wi = Inr (0, w') \<and>
    get_func w' = booted_funcs (card_bars card_pi) pi \<and> pirq_ok w' \<and> card_quiet w' \<and>
    w_ahci w' = Some sc \<and> w_blockif w' = Some (Some 0) \<and> sata_ready (make_ident (md5 env ''test'')) bc pi sc \<and>
    mem_inv (w_mem w') \<and> malloc_ok (w_mem w') \<and>
    (\<forall>a. range_at (w_mem w') a = (if covers sata_range a then Some sata_range
       else if covers (reg_range (0, 0, 0)) a then Some (reg_range (0, 0, 0))
       else if covers (flash_range (0, 0, 0)) a then Some (flash_range (0, 0, 0)) else None))"
proof -
  let ?devs = "pci_devemu_set iommu junk env :: ('f, 'a) ahci_world_scheme pci_devemu list"
  define wb where "wb = map_bus 0 (\<lambda>bi. bi\<lparr>bi_iobase := ucast (pci_emul_iobase (w_cursors wi)),
      bi_membase32 := ucast (pci_emul_membase32 (w_cursors wi)), bi_membase64 := pci_emul_membase64 (w_cursors wi)\<rparr>) wi"
  have func: "get_func wb = boot_func" using boot_func_eq [OF assms(1)] by (simp add: wb_def)
  have pins: "slot_pins wb 0 1 = Some (\<lambda>_. \<lparr>ii_count = 0, ii_pirq_pin = 0, ii_ioapic_irq = 0\<rparr>)"
    using boot_pins [OF assms(1), of 1] assms(1) by (auto simp: wb_def slot_pins_def map_bus_def)
  have ok: "pirq_ok wb" using boot_pins [OF assms(1)] by (auto simp: wb_def pirq_ok_def map_bus_def split: if_split_asm)
  have fresh: "fresh_pci wb" using assms
    by (auto simp: fresh_pci_def wb_def map_bus_def name_func_def zero_bus_def zero_slot_def)
  obtain w2 pi sc bc where w2: "init_funcs ?devs 0 all_funcs wb = Inr (0, w2)"
    "get_func w2 = booted_funcs (card_bars card_pi) pi" "pirq_ok wb \<longrightarrow> pirq_ok w2" "card_quiet w2"
    "w_ahci w2 = Some sc" "w_blockif w2 = Some (Some 0)" "sata_ready (make_ident (md5 env ''test'')) bc pi sc"
    "mem_inv (w_mem w2)" "malloc_ok (w_mem w2)"
    "\<forall>a. range_at (w_mem w2) a = (if covers sata_range a then Some sata_range
       else if covers (reg_range (0, 0, 0)) a then Some (reg_range (0, 0, 0))
       else if covers (flash_range (0, 0, 0)) a then Some (flash_range (0, 0, 0)) else None)"
    using init_funcs_boot [OF fresh pins func assms(3), of iommu junk] by blast
  define cs where "cs = bus_slop (w_cursors w2)"
  define w3 where "w3 = map_bus 0 (\<lambda>bi. bi\<lparr>bi_iolimit := ucast (pci_emul_iobase cs),
       bi_memlimit32 := ucast (pci_emul_membase32 cs), bi_memlimit64 := pci_emul_membase64 cs\<rparr>) (w2\<lparr>w_cursors := cs\<rparr>)"
  have w3: "get_func w3 = get_func w2" "pirq_ok w3" "w_e1000 w3 = w_e1000 w2" "w_ahci w3 = w_ahci w2" "w_blockif w3 = w_blockif w2" "w_mem w3 = w_mem w2"
    using w2(3) ok by (simp_all add: w3_def pirq_ok_limits) (simp_all add: map_bus_def)
  have "init_buses ?devs [1..<PCI_BUSMAX + 1] w3 = Inr (0, w3)"
    by (rule init_buses_skip) (use w3(1) w2(2) no_bus in fastforce)
  moreover have "init_buses ?devs [0..<PCI_BUSMAX + 1] wi = init_buses ?devs [1..<PCI_BUSMAX + 1] w3"
    unfolding bus_zero_first using assms(1) w2(1) by (simp add: wb_def [symmetric] cs_def [symmetric] w3_def [symmetric] Let_def del: upt_Suc)
  ultimately show ?thesis
    using w2(2,4-) w3 by (intro exI [of _ w3] exI [of _ pi] exI [of _ sc] exI [of _ bc]) (simp add: card_quiet_cong [OF w3(3)])
qed

lemma routes_boot:
  assumes "get_func w = booted_funcs pi0 pi1" "pirq_ok w" "pi_bdf pi0 = (0, 0, 0)" "pi_bdf pi1 = (0, 1, 0)"
  shows "\<exists>w' pi0' pi1'. route_buses [0..<PCI_BUSMAX + 1] w = Inr w' \<and> get_func w' = booted_funcs pi0' pi1' \<and>
    routed pi0 pi0' \<and> routed pi1 pi1' \<and> pci_world.more w' = pci_world.more w \<and> w_mem w' = w_mem w"
proof -
  obtain w' pi0' pi1' where r: "route_funcs 0 all_funcs w = Inr w'" "get_func w' = booted_funcs pi0' pi1'"
    "routed pi0 pi0'" "routed pi1 pi1'" "pci_world.more w' = pci_world.more w" "w_mem w' = w_mem w"
    using route_boot [OF assms] by blast
  have "route_buses [1..<PCI_BUSMAX + 1] w' = Inr w'"
    by (rule route_buses_skip) (use r(2) no_bus in fastforce)
  moreover obtain bi where "pci_businfo w 0 = Some bi" using no_bus_but_0 [OF assms(1)] by blast
  ultimately have "route_buses [0..<PCI_BUSMAX + 1] w = Inr w'"
    unfolding bus_zero_first using r(1) by (simp del: upt_Suc)
  then show ?thesis using r(2-) by blast
qed

lemma sata_bdf: "sata_ready ident bc pi sc \<Longrightarrow> pi_bdf pi = (0, 1, 0)"
  by (simp add: sata_ready_def)

lemma pci_init_boot:
  fixes w :: "('f, 'a) ahci_world_scheme"
  assumes "pci_businfo w = (\<lambda>_. None)" "malloc_ok (w_mem w)" "mmio_hint (w_mem w) = None" "\<not> line_level 19 (w_pic w) False" "bc_alloc env 0"
  shows "\<exists>w' pi0 pi1 pi sc bc. bhyve_pci_init (pci_devemu_set iommu junk env) w = Inr (0, w') \<and>
    get_func w' = booted_funcs pi0 pi1 \<and> routed (card_bars card_pi) pi0 \<and> card_quiet w' \<and>
    w_ahci w' = Some sc \<and> w_blockif w' = Some (Some 0) \<and> sata_ready (make_ident (md5 env ''test'')) bc pi sc \<and> routed pi pi1 \<and>
    (\<forall>a. range_at (w_mem w') a = boot_range a) \<and> mem_inv (w_mem w')"
proof -
  define wi where "wi = w\<lparr>w_mem := init_mem (w_mem w), pci_businfo := (pci_businfo w)(0 := Some boot_bus),
     w_cursors := \<lparr>pci_emul_iobase = 0x2000, pci_emul_membase32 = 0xfdb10000, pci_emul_membase64 = PCI_EMUL_MEMBASE64\<rparr>\<rparr>"
  have wi: "pci_businfo wi = (\<lambda>_. None)(0 := Some boot_bus)" "\<not> line_level 19 (w_pic wi) False"
    "w_cursors wi = \<lparr>pci_emul_iobase = 0x2000, pci_emul_membase32 = 0xfdb10000, pci_emul_membase64 = PCI_EMUL_MEMBASE64\<rparr>"
    "w_mem wi = \<lparr>mmio_rb_root = [], mmio_rb_fallback = [], mmio_hint = None, malloc_ok = True\<rparr>"
    using assms(1-4) by (simp_all add: wi_def init_mem_def)
  obtain w1 pi sc bc where w1: "init_buses (pci_devemu_set iommu junk env) [0..<PCI_BUSMAX + 1] wi = Inr (0, w1)"
    "get_func w1 = booted_funcs (card_bars card_pi) pi" "pirq_ok w1" "card_quiet w1" "w_ahci w1 = Some sc" "w_blockif w1 = Some (Some 0)"
    "sata_ready (make_ident (md5 env ''test'')) bc pi sc" "mem_inv (w_mem w1)" "malloc_ok (w_mem w1)"
    "\<And>a. range_at (w_mem w1) a = (if covers sata_range a then Some sata_range
       else if covers (reg_range (0, 0, 0)) a then Some (reg_range (0, 0, 0))
       else if covers (flash_range (0, 0, 0)) a then Some (flash_range (0, 0, 0)) else None)"
    using buses_boot [OF wi(1,2) assms(5) wi(3,4), of iommu junk] by blast
  obtain w2 pi0' pi1' where w2: "route_buses [0..<PCI_BUSMAX + 1] w1 = Inr w2" "get_func w2 = booted_funcs pi0' pi1'"
    "routed (card_bars card_pi) pi0'" "routed pi pi1'" "pci_world.more w2 = pci_world.more w1" "w_mem w2 = w_mem w1"
    using routes_boot [OF w1(2,3) card_bars_sel(2) sata_bdf [OF w1(7)]] by blast
  have "proper_range ecfg_range" by (simp add: proper_range_def ecfg_range_def PCI_EMUL_ECFG_BASE_def PCI_EMUL_ECFG_SIZE_def)
  then obtain mem where mem: "register_mem (w_mem w2) ecfg_range = (0, mem)" "mem_inv mem"
    "\<And>a. range_at mem a = (if covers ecfg_range a then Some ecfg_range else range_at (w_mem w2) a)"
    using register_mem_fresh [of "w_mem w2" ecfg_range] w1(8-10) ecfg_apart unfolding w2(6) by auto
  have "init_pci (pci_devemu_set iommu junk env) (w\<lparr>w_mem := init_mem (w_mem w), pci_businfo := (pci_businfo w)(0 := Some boot_bus)\<rparr>) =
      Inr (0, w2\<lparr>w_mem := mem\<rparr>)"
    using w1(1) w2(1) mem(1) unfolding init_pci_def wi_def [symmetric] by (simp add: bind_assertE del: upt_Suc)
  then have "bhyve_pci_init (pci_devemu_set iommu junk env) w = Inr (0, w2\<lparr>w_mem := mem\<rparr>)"
    by (simp add: bhyve_pci_init_def)
  moreover have "card_quiet (w2\<lparr>w_mem := mem\<rparr>)" using w1(4) w2(5) card_quiet_cong [of "w2\<lparr>w_mem := mem\<rparr>" w1] by (cases w1; cases w2; simp)
  moreover have "w_e1000 w2 = w_e1000 w1" "w_ahci w2 = w_ahci w1" "w_blockif w2 = w_blockif w1" using w2(5) by (cases w1; cases w2; simp)+
  ultimately show ?thesis
    using w1(4-7) w2(2-4) mem(2,3) w1(10) w2(6)
    by (intro exI [of _ "w2\<lparr>w_mem := mem\<rparr>"] exI [of _ pi0'] exI [of _ pi1'] exI [of _ pi] exI [of _ sc] exI [of _ bc])
      (simp add: boot_range_def)
qed

section \<open>The property\<close>

lemma devi_booted: "get_func w = booted_funcs pi0 pi1 \<Longrightarrow>
    get_devi w b = (if b = (0, 0, 0) then Some pi0 else if b = (0, 1, 0) then Some pi1 else None)"
  by (cases "fst b = 0") (auto simp: get_devi_def booted_other simp del: One_nat_def)

lemma read_id:
  assumes "get_devi w (0, s, 0) = Some pi" "s \<le> 1" "pi_devemu pi \<in> {''e1000'', ''ahci-hd''}" "CFGREAD pi 0 2 = Inr v"
  shows "\<exists>r. bhyve_pci_cfgrw (pci_devemu_set iommu junk env) True (0, s, 0) 0 2 val w = Inr (r, w)"
proof -
  have "plain_dev (pci_devemu_set iommu junk env) w (0, s, 0) pi"
    using assms(1-3) by (auto simp: plain_dev_def devemu_found) (simp_all add: pci_de_e82545_def pci_de_ahci_def)
  moreover have "cfg_access_ok 0 2" by (simp add: cfg_access_ok_def)
  ultimately show ?thesis using cfgrw_read assms(4) unfolding bhyve_pci_cfgrw_def by blast
qed

text \<open>The calls that start the FIFOs of the card.\<close>

definition fifo_started :: "fifo_call list" where
  "fifo_started = [Interrupts_disable 0, Interrupts_disable 1, Set_callback 1, Interrupts_enable 1]"

lemma routed_card:
  "routed (card_bars card_pi) pi0 \<Longrightarrow> CFGREAD pi0 0 2 = Inr 0x8086 \<and> CFGREAD pi0 2 2 = Inr 0x100f \<and> lintr_pin (lintr pi0) = 1 \<and>
     pi_devemu pi0 = ''e1000'' \<and> map (\<lambda>i. bar_addr (pi_bar pi0 i)) [0, 1, 2] = [0xfdb20000, 0xfdb40000, 0x2000]"
  using routed_ids [of "card_bars card_pi" pi0] card_ids card_bars_sel by (simp add: routed_def)

lemma routed_sata:
  "sata_ready ident bc pi sc \<Longrightarrow> routed pi pi1 \<Longrightarrow> CFGREAD pi1 0 2 = Inr 0x8086 \<and> CFGREAD pi1 2 2 = Inr 0x2821 \<and>
     lintr_pin (lintr pi1) = 1 \<and> pi_devemu pi1 = ''ahci-hd'' \<and> bar_addr (pi_bar pi1 5) = 0xfdb50000"
  using routed_ids [of pi pi1] by (simp add: routed_def sata_ready_def)

lemma dm_boots:
  fixes w :: "('f, 'h) dm_world"
  assumes "dm_devs cfg = pci_devemu_set iommu junk env" "CONFIG_EMUL_PCI cfg" "bc_alloc env 0"
    "pci_businfo w = (\<lambda>_. None)" "malloc_ok (w_mem w)" "mmio_hint (w_mem w) = None" "\<not> line_level 19 (w_pic w) False"
  shows "\<exists>w' pi0 pi1 pi sc bc. dm_init cfg True True w = Inr w' \<and>
    get_func w' = booted_funcs pi0 pi1 \<and> routed (card_bars card_pi) pi0 \<and> card_quiet w' \<and>
    w_ahci w' = Some sc \<and> w_blockif w' = Some (Some 0) \<and> sata_ready (make_ident (md5 env ''test'')) bc pi sc \<and> routed pi pi1 \<and>
    (\<forall>a. range_at (w_mem w') a = boot_range a) \<and> mem_inv (w_mem w') \<and> (\<exists>calls. w_fifo_calls w' = calls @ fifo_started)"
proof -
  let ?wi = "w\<lparr>w_msgdma0 := (w_msgdma0 w)\<lparr>ms_unit := 0\<rparr>, w_msgdma1 := (w_msgdma1 w)\<lparr>ms_unit := 1\<rparr>\<rparr>"
  obtain w1 pi0 pi1 pi sc bc where b: "bhyve_pci_init (pci_devemu_set iommu junk env) ?wi = Inr (0, w1)"
    "get_func w1 = booted_funcs pi0 pi1" "routed (card_bars card_pi) pi0" "card_quiet w1"
    "w_ahci w1 = Some sc" "w_blockif w1 = Some (Some 0)" "sata_ready (make_ident (md5 env ''test'')) bc pi sc" "routed pi pi1"
    "\<forall>a. range_at (w_mem w1) a = boot_range a" "mem_inv (w_mem w1)"
    using pci_init_boot [of ?wi env iommu junk] assms(3-7) by auto
  note devi = devi_booted [OF b(2)]
  have ids: "CFGREAD pi0 0 2 = Inr 0x8086" "pi_devemu pi0 = ''e1000''" "CFGREAD pi1 0 2 = Inr 0x8086" "pi_devemu pi1 = ''ahci-hd''"
    using routed_card [OF b(3)] routed_sata [OF b(7,8)] by simp_all
  obtain r0 where r0: "bhyve_pci_cfgrw (pci_devemu_set iommu junk env) True (0, 0, 0) 0 2 (ucast (dm_junk cfg)) w1 = Inr (r0, w1)"
    using read_id [of w1 0 pi0] devi ids(1,2) by fastforce
  obtain r1 where r1: "bhyve_pci_cfgrw (pci_devemu_set iommu junk env) True (0, 1, 0) 0 2 r0 w1 = Inr (r1, w1)"
    using read_id [of w1 1 pi1] devi ids(3,4) by fastforce
  let ?w = "w1\<lparr>req_count := 0, w_fifo_calls := w_fifo_calls w1 @ fifo_started\<rparr>"
  have "dm_init cfg True True w = Inr ?w"
    using assms(1,2) b(1) card_quietD [OF b(4)] r0 r1 by (simp add: dm_init_def Let_def emul_pci_init_def e82545_setup_fifo_def fifo_started_def del: One_nat_def)
  moreover have "get_func ?w = get_func w1" by (simp add: fun_eq_iff get_func_def)
  ultimately show ?thesis
    using b(2-10) by (intro exI [of _ ?w] exI [of _ pi0] exI [of _ pi1] exI [of _ pi] exI [of _ sc] exI [of _ bc]) (simp add: card_quiet_def)
qed

text \<open>C4: The machine comes up: from an empty bus, and whatever else the state is, the initialisation of the device
  model with the devices of the source creates exactly two devices, the network card at 0:0.0 and the disk
  controller at 0:1.0, each with its identifiers, an interrupt pin and its BARs; the address space then has exactly four
  ranges, the card's registers and flash, the controller's registers and the configuration window; the
  controller has one disk, with nothing in flight, and the last thing done is to start the FIFOs of the card.\<close>

theorem machine_boots:
  fixes w :: "('f, 'h) dm_world"
  assumes "dm_devs cfg = pci_devemu_set iommu junk env" "CONFIG_EMUL_PCI cfg" "bc_alloc env 0"
    "pci_businfo w = (\<lambda>_. None)" "malloc_ok (w_mem w)" "mmio_hint (w_mem w) = None" "\<not> line_level 19 (w_pic w) False"
  shows "\<exists>w' pi0 pi1 sc. dm_init cfg True True w = Inr w' \<and>
    (\<forall>b. get_devi w' b = (if b = (0, 0, 0) then Some pi0 else if b = (0, 1, 0) then Some pi1 else None)) \<and>
    CFGREAD pi0 0 2 = Inr 0x8086 \<and> CFGREAD pi0 2 2 = Inr 0x100f \<and> lintr_pin (lintr pi0) = 1 \<and>
    map (\<lambda>i. bar_addr (pi_bar pi0 i)) [0, 1, 2] = [0xfdb20000, 0xfdb40000, 0x2000] \<and>
    CFGREAD pi1 0 2 = Inr 0x8086 \<and> CFGREAD pi1 2 2 = Inr 0x2821 \<and> lintr_pin (lintr pi1) = 1 \<and>
    bar_addr (pi_bar pi1 5) = 0xfdb50000 \<and>
    (\<forall>a. range_at (w_mem w') a = boot_range a) \<and> mem_inv (w_mem w') \<and>
    card_quiet w' \<and> w_ahci w' = Some sc \<and> ports sc = 6 \<and> h_pi (hregs sc) = 1 \<and> pending (port sc 0) = 0 \<and>
    (\<exists>calls. w_fifo_calls w' = calls @ fifo_started)"
proof -
  obtain w' pi0 pi1 pi sc bc where b: "dm_init cfg True True w = Inr w'" "get_func w' = booted_funcs pi0 pi1"
    "routed (card_bars card_pi) pi0" "card_quiet w'" "w_ahci w' = Some sc" "sata_ready (make_ident (md5 env ''test'')) bc pi sc"
    "routed pi pi1" "\<forall>a. range_at (w_mem w') a = boot_range a" "mem_inv (w_mem w')" "\<exists>calls. w_fifo_calls w' = calls @ fifo_started"
    using dm_boots [OF assms] by blast
  have "ports sc = 6" "h_pi (hregs sc) = 1" "pending (port sc 0) = 0"
    using b(6) by (simp_all add: sata_ready_def port_after_reset_def sata_port_def zero_port_def)
  then show ?thesis
    using devi_booted [OF b(2)] routed_card [OF b(3)] routed_sata [OF b(6,7)] b(1,4,5,8-10) by (intro exI [of _ w'] exI [of _ pi0] exI [of _ pi1] exI [of _ sc]) simp
qed

text \<open>A machine before its start, with the build options of the PCI devices.\<close>

definition boot_cfg :: "(unit, unit) dm_config" where
  "boot_cfg = wit_cfg\<lparr>dm_devs := pci_devemu_set False (\<lambda>_. 0) wit_env\<rparr>"

definition cold_world :: "(unit, unit) dm_world" where
  "cold_world = Device_Model.wit_world\<lparr>pci_businfo := (\<lambda>_. None)\<rparr>"

lemma cold: "pci_businfo cold_world = (\<lambda>_. None)" "malloc_ok (w_mem cold_world)" "mmio_hint (w_mem cold_world) = None"
  "\<not> line_level 19 (w_pic cold_world) False" "w_e1000 cold_world = None" "w_ahci cold_world = None"
  by (simp_all add: cold_world_def Device_Model.wit_world_def wit_bus_def e1000_world.defs)

lemma boot_cfg_sel: "dm_devs boot_cfg = pci_devemu_set False (\<lambda>_. 0) wit_env" "CONFIG_EMUL_PCI boot_cfg" "bc_alloc wit_env 0"
  by (simp_all add: boot_cfg_def wit_cfg_def wit_env_def)

theorem machine_boots_witness:
  "\<exists>w' pi0 pi1. dm_init boot_cfg True True cold_world = Inr w' \<and> get_devi w' (0, 0, 0) = Some pi0 \<and>
     get_devi w' (0, 1, 0) = Some pi1 \<and> CFGREAD pi0 2 2 = Inr 0x100f \<and> CFGREAD pi1 2 2 = Inr 0x2821 \<and>
     get_devi w' (0, 2, 0) = None \<and> range_at (w_mem w') 0xfdb50010 = Some sata_range"
proof -
  have r: "boot_range 0xfdb50010 = Some sata_range"
    by (simp add: boot_range_def covers_def ecfg_range_def sata_range_def PCI_EMUL_ECFG_BASE_def PCI_EMUL_ECFG_SIZE_def)
  show ?thesis using machine_boots [OF boot_cfg_sel cold(1-4)] r by fastforce
qed

end
