(* ===== verification/E1000_Types.thy ===== *)
theory E1000_Types
  imports E1000_Bus
begin

text \<open>
  The arrays of the card keep their sizes, which is what makes every index the
  register switch computes stay inside them.
\<close>

definition nvm_wf :: "e1000_nvm \<Rightarrow> bool" where
  "nvm_wf n \<longleftrightarrow> length (eeprom_data n) = 64 \<and> nvm_bits n \<le> 16 \<and> nvm_mode n \<le> 2"

definition l2_wf :: "e1000_l2 \<Rightarrow> bool" where
  "l2_wf l \<longleftrightarrow> length (esc_uni l) = 16 \<and> (\<forall>u\<in>set (esc_uni l). length (eu_eth u) = 6) \<and>
     length (esc_fmcast l) = 128 \<and> length (esc_fvlan l) = 128"

definition card_wf :: "e82545_softc \<Rightarrow> bool" where
  "card_wf sc \<longleftrightarrow> length (esc_txctx (tx_part sc)) = 16 \<and> length (esc_mac sc) = 6 \<and>
     nvm_wf (nvm_part sc) \<and> l2_wf (l2_part sc)"

definition world_wf :: "('f, 'a) e1000_world_scheme \<Rightarrow> bool" where
  "world_wf w \<longleftrightarrow> (case w_e1000 w of None \<Rightarrow> True | Some sc \<Rightarrow> card_wf sc)"

section \<open>The parts\<close>

lemma strobe_wf: "nvm_wf n \<Longrightarrow> nvm_wf (e82545_eecd_strobe n)"
  by (auto simp: nvm_wf_def e82545_eecd_strobe_def nvm_opmode_def Let_def)

lemma eecd_wf: "nvm_wf n \<Longrightarrow> nvm_wf (eecd_write v n)"
  by (auto simp: eecd_write_def Let_def intro!: strobe_wf) (simp_all add: nvm_wf_def)

lemma init_eeprom_wf: "nvm_wf n \<Longrightarrow> nvm_wf (e82545_init_eeprom mac n)"
  by (simp add: nvm_wf_def e82545_init_eeprom_def Let_def)

lemma reset_nvm_wf: "nvm_wf n \<Longrightarrow> nvm_wf (reset_nvm mac n)"
  by (auto simp: reset_nvm_def intro!: init_eeprom_wf) (simp add: nvm_wf_def)

lemma reset_l2_wf: "l2_wf l \<Longrightarrow> length mac = 6 \<Longrightarrow> l2_wf (reset_l2 drvr mac l)"
  by (auto simp: l2_wf_def reset_l2_def zero_uni_def)

lemma write_ra_wf: "l2_wf l \<Longrightarrow> e82545_write_ra reg v l = Inr l' \<Longrightarrow> l2_wf l'"
  by (auto simp: l2_wf_def e82545_write_ra_def Let_def res_simps bind_assertE nth_mem
      dest!: set_update_subset_insert [THEN subsetD] split: if_splits)

text \<open>What a function keeps that touches none of the tables.\<close>

definition same_tables :: "e82545_softc \<Rightarrow> e82545_softc \<Rightarrow> bool" where
  "same_tables sc sc' \<longleftrightarrow> esc_txctx (tx_part sc') = esc_txctx (tx_part sc) \<and> esc_mac sc' = esc_mac sc \<and>
     nvm_part sc' = nvm_part sc \<and> l2_part sc' = l2_part sc"

lemma same_tables_wf: "same_tables sc sc' \<Longrightarrow> card_wf sc \<Longrightarrow> card_wf sc'"
  by (simp add: same_tables_def card_wf_def)

lemma same_tables_refl [simp]: "same_tables sc sc"
  by (simp add: same_tables_def)

lemma same_tables_trans: "same_tables a b \<Longrightarrow> same_tables b c \<Longrightarrow> same_tables a c"
  by (simp add: same_tables_def)

lemma on_intr_tables: "on_intr g sc = Inr sc' \<Longrightarrow> same_tables sc sc'"
  by (auto simp: on_intr_def res_simps same_tables_def)

lemma on_intr_wf: "on_intr g sc = Inr sc' \<Longrightarrow> card_wf sc \<Longrightarrow> card_wf sc'"
  using on_intr_tables same_tables_wf by blast

lemma reset_wf: "e82545_reset drvr sc = Inr sc' \<Longrightarrow> card_wf sc \<Longrightarrow> card_wf sc'"
proof -
  assume r: "e82545_reset drvr sc = Inr sc'" and wf: "card_wf sc"
  let ?s = "upd_tx (\<lambda>t. t\<lparr>esc_tx_enabled := False\<rparr>) (upd_rx (\<lambda>r. r\<lparr>esc_rx_enabled := False\<rparr>) sc)"
  have s: "same_tables sc ?s" by (simp add: same_tables_def upd_tx_def upd_rx_def)
  obtain s1 where s1: "(if esc_irq_asserted (intr_part ?s) then on_intr pin_down ?s else Inr ?s) = Inr s1"
    and t: "esc_txctx (tx_part sc') = esc_txctx (tx_part s1)" "esc_mac sc' = esc_mac s1"
      "nvm_part sc' = reset_nvm (esc_mac s1) (nvm_part s1)" "l2_part sc' = reset_l2 drvr (esc_mac s1) (l2_part s1)"
    using r by (auto simp: e82545_reset_def rx_disable_eq tx_disable_eq res_simps Let_def reset_tx_def split: if_splits)
  have "same_tables ?s s1" using s1 on_intr_tables by (auto split: if_splits)
  then have "card_wf s1" using s wf same_tables_wf same_tables_trans by blast
  then show ?thesis using t by (simp add: card_wf_def reset_nvm_wf reset_l2_wf)
qed

lemma write_general_wf: "write_general off v sc = Some (Inr sc') \<Longrightarrow> card_wf sc \<Longrightarrow> card_wf sc'"
proof -
  assume w: "write_general off v sc = Some (Inr sc')" and wf: "card_wf sc"
  have "card_wf sc'" if "e82545_devctl v sc = Inr sc'"
    using that wf reset_wf [of True "sc\<lparr>esc_CTRL := v AND NOT E1000_CTRL_RST\<rparr>" sc']
    by (auto simp: e82545_devctl_def Let_def card_wf_def split: if_splits)
  moreover have "card_wf sc'" if "on_intr (e82545_intr_write off v) sc = Inr sc'"
    using that wf on_intr_tables same_tables_wf by blast
  ultimately show ?thesis using w wf
    by (auto simp: write_general_def card_wf_def split: if_splits)
qed

lemma write_rx_wf: "write_rx iommu off v sc = Some (Inr sc') \<Longrightarrow> same_tables sc sc'"
  by (auto simp: write_rx_def Let_def e82545_rx_ctl_def e82545_rx_enable_def e82545_rx_update_rdba_def rx_disable_eq
      same_tables_def upd_rx_def res_simps bind_assertE split: if_splits)

lemma write_tx_wf: "write_tx iommu off v sc = Some (Inr sc') \<Longrightarrow> same_tables sc sc'"
  by (auto simp: write_tx_def Let_def e82545_tx_ctl_def e82545_tx_enable_def e82545_tx_update_tdba_def tx_disable_eq
      e82545_tx_start_def same_tables_def upd_tx_def res_simps bind_assertE split: if_splits)

lemma write_tables_wf: "write_tables off v sc = Some (Inr sc') \<Longrightarrow> card_wf sc \<Longrightarrow> card_wf sc'"
  by (auto simp: write_tables_def card_wf_def upd_l2_def res_simps eecd_wf intro: write_ra_wf split: if_splits)
    (simp_all add: l2_wf_def)

lemma write_register_wf:
  assumes "e82545_write_register iommu off v sc = Inr sc'" "card_wf sc"
  shows "card_wf sc'"
  using assms write_general_wf [of off v sc sc'] write_rx_wf [of iommu off v sc sc', THEN same_tables_wf]
    write_tx_wf [of iommu off v sc sc', THEN same_tables_wf] write_tables_wf [of off v sc sc']
  by (auto simp: e82545_write_register_def split: if_splits option.splits)

lemma read_register_tables: "e82545_read_register off sc = Inr (v, sc') \<Longrightarrow> same_tables sc sc'"
  by (auto simp: e82545_read_register_def read_general_def read_rx_def read_tx_def read_tables_def read_stats_def
      res_simps Let_def same_tables_def split: if_splits option.splits)

section \<open>Accesses and polls\<close>

lemma write_wf:
  assumes "e82545_write iommu idx off sz v sc = Inr sc'" "card_wf sc"
  shows "card_wf sc'"
proof -
  obtain s1 s2 where s: "on_intr esc_lock sc = Inr s1" "on_intr esc_unlock s2 = Inr sc'"
    and "s2 = s1 \<or> s2 = s1\<lparr>io_addr := ucast v\<rparr> \<or> (\<exists>o1 v1. e82545_write_register iommu o1 v1 s1 = Inr s2)"
    using assms(1) by (auto simp: e82545_write_def res_simps split: if_splits)
  moreover have "card_wf s1" using on_intr_tables [OF s(1)] assms(2) by (rule same_tables_wf)
  ultimately have "card_wf s2" using write_register_wf by (auto simp: card_wf_def)
  then show ?thesis using on_intr_tables [OF s(2)] same_tables_wf by blast
qed

lemma read_wf:
  assumes "e82545_read idx off sz sc = Inr (v, sc')" "card_wf sc"
  shows "card_wf sc'"
proof -
  obtain s1 s2 where s: "on_intr esc_lock sc = Inr s1" "on_intr esc_unlock s2 = Inr sc'"
    and "s2 = s1 \<or> (\<exists>o1 v1. e82545_read_register o1 s1 = Inr (v1, s2))"
    using assms(1) by (auto simp: e82545_read_def res_simps split: if_splits)
  then have "same_tables s1 s2" using read_register_tables by auto
  then show ?thesis using on_intr_tables [OF s(1)] on_intr_tables [OF s(2)] assms(2) same_tables_wf by blast
qed

text \<open>Sending changes the transmit context, to the sixteen bytes of a descriptor.\<close>

lemma transmit_wf:
  "e82545_transmit iommu stk head tail dsize tdwb io = Inr (s, rhead, tdwb', io') \<Longrightarrow> card_wf (io_sc io) \<Longrightarrow>
   card_wf (io_sc io')"
  by (auto simp: e82545_transmit_def Let_def res_simps card_wf_def upd_tx_def
      split: option.splits sum.splits tx_end.splits if_splits prod.splits)

lemma tx_loop_wf:
  "tx_loop iommu stk tail n head lim rhead tdwb io = Inr (head', rhead', lim', tdwb', io') \<Longrightarrow>
   card_wf (io_sc io) \<Longrightarrow> card_wf (io_sc io')"
proof (induction iommu stk tail n head lim rhead tdwb io rule: tx_loop.induct)
  case (1 iommu stk tail n head lim rhead tdwb io)
  show ?case
  proof (cases "esc_tx_enabled (tx_part (io_sc io)) \<and> 0 < lim")
    case False
    then show ?thesis using 1(2,3) by (subst (asm) tx_loop.simps) auto
  next
    case True
    then obtain s rh b io1 where t: "e82545_transmit iommu stk head tail n tdwb io = Inr (s, rh, b, io1)"
      using 1(2) by (subst (asm) tx_loop.simps) (auto simp: res_simps)
    have wf: "card_wf (io_sc io1)" using transmit_wf [OF t 1(3)] .
    show ?thesis
    proof (cases "s = 0")
      case True
      then show ?thesis using 1(2) \<open>esc_tx_enabled _ \<and> 0 < lim\<close> t wf by (subst (asm) tx_loop.simps) auto
    next
      case False
      have "tx_loop iommu stk tail n rh (lim - int s) rh b io1 = Inr (head', rhead', lim', tdwb', io')"
        using 1(2) True t False by (subst (asm) tx_loop.simps) simp
      then show ?thesis using 1(1) [OF True t refl refl refl] False wf by simp
    qed
  qed
qed

lemma tx_parts_tables:
  "same_tables sc (upd_tx (\<lambda>t. t\<lparr>esc_TDH := a, esc_TDHr := b\<rparr>) sc)"
  "same_tables sc (upd_tx (\<lambda>t. t\<lparr>esc_tx_active := c\<rparr>) sc)"
  by (simp_all add: same_tables_def upd_tx_def)

lemma tx_run_end_wf:
  assumes "tx_run_end head rhead tdwb moved io = Inr io'" "card_wf (io_sc io)"
  shows "card_wf (io_sc io')"
proof -
  have "card_wf (upd_tx (\<lambda>t. t\<lparr>esc_TDH := word_of_nat head, esc_TDHr := word_of_nat rhead\<rparr>) (io_sc io))"
    using assms(2) same_tables_wf tx_parts_tables(1) by blast
  then show ?thesis using assms(1)
    by (auto simp: tx_run_end_def Let_def res_simps intro: on_intr_wf split: if_splits)
qed

lemma io_lock_wf: "io_lock io = Inr io' \<or> io_unlock io = Inr io' \<Longrightarrow> card_wf (io_sc io) \<Longrightarrow> card_wf (io_sc io')"
  by (auto simp: io_lock_def io_unlock_def res_simps intro: on_intr_wf)

lemma tx_run_wf:
  assumes "e82545_tx_run iommu stk io = Inr io'" "card_wf (io_sc io)"
  shows "card_wf (io_sc io')"
proof -
  obtain io1 t n h l head rhead lim tdwb io2 io3 moved where
    "io_unlock io = Inr io1" "tx_loop iommu stk t n h l h False io1 = Inr (head, rhead, lim, tdwb, io2)"
    "io_lock io2 = Inr io3" "tx_run_end head rhead tdwb moved io3 = Inr io'"
    using assms(1) unfolding e82545_tx_run_def Let_def by (auto simp: bindE_Inr)
  then show ?thesis using assms(2) io_lock_wf tx_loop_wf tx_run_end_wf by meson
qed

lemma tx_poll_wf:
  assumes "e82545_tx_poll iommu stk io = Inr io'" "card_wf (io_sc io)"
  shows "card_wf (io_sc io')"
proof -
  obtain io1 io2 c where l: "io_lock io = Inr io1" "io_unlock io2 = Inr io'"
    and m: "e82545_tx_run iommu stk (io1\<lparr>io_sc := upd_tx (\<lambda>t. t\<lparr>esc_tx_active := c\<rparr>) (io_sc io1)\<rparr>) = Inr io2 \<or>
      io2 = io1\<lparr>io_sc := upd_tx (\<lambda>t. t\<lparr>esc_tx_active := c\<rparr>) (io_sc io1)\<rparr>"
    using assms(1) unfolding e82545_tx_poll_def Let_def by (auto simp: res_simps split: if_splits)
  have "card_wf (upd_tx (\<lambda>t. t\<lparr>esc_tx_active := c\<rparr>) (io_sc io1))"
    using io_lock_wf l(1) assms(2) same_tables_wf tx_parts_tables(2) by blast
  then have "card_wf (io_sc io2)"
    using m tx_run_wf [of iommu stk "io1\<lparr>io_sc := upd_tx (\<lambda>t. t\<lparr>esc_tx_active := c\<rparr>) (io_sc io1)\<rparr>" io2] by auto
  then show ?thesis using io_lock_wf l(2) by blast
qed

text \<open>Receiving touches the queue and the interrupts only.\<close>

lemma rx_loop_sc:
  assumes "rx_loop fifo iommu ring n lim left head cause io = Some r"
  shows "rx_sc (snd (snd r)) = rx_sc io"
  using assms
  by (rule rx_loop.raw_induct [where P = "\<lambda>fifo iommu ring n lim left head cause io r. rx_sc (snd (snd r)) = rx_sc io", rotated])
    (auto simp: Let_def split: if_splits prod.splits)

lemma rx_loop_end: "rx_loop fifo iommu ring n lim left head cause io = Some (h, c, io') \<Longrightarrow> rx_sc io' = rx_sc io"
  using rx_loop_sc by fastforce

lemma on_sc_tables: "on_sc (on_intr g) io = Inr io' \<Longrightarrow> same_tables (rx_sc io) (rx_sc io')"
  using on_intr_tables by (auto simp: on_sc_def res_simps)

lemma upd_sc_tables: "same_tables (rx_sc io) (rx_sc (upd_sc g io))"
  by (simp add: same_tables_def upd_sc_def upd_rx_def)

lemma rx_finish_tables:
  assumes "rx_finish n head cause io = Inr io'"
  shows "same_tables (rx_sc io) (rx_sc io')"
  using assms upd_sc_tables [of io] on_sc_tables same_tables_trans
  unfolding rx_finish_def Let_def by (auto split: if_splits; blast)

definition keeps :: "e82545_softc \<Rightarrow> 'f rx_io res \<Rightarrow> bool" where
  "keeps sc m \<longleftrightarrow> (\<forall>io'. m = Inr io' \<longrightarrow> same_tables sc (rx_sc io'))"

lemma keeps_bind: "(\<And>x. m = Inr x \<Longrightarrow> keeps sc (f x)) \<Longrightarrow> keeps sc (bindE m f)"
  by (auto simp: keeps_def res_simps)

lemma keeps_simps [simp]: "keeps sc (Inl e)" "keeps sc (Inr io) \<longleftrightarrow> same_tables sc (rx_sc io)"
  by (auto simp: keeps_def)

lemma keeps_on_sc: "same_tables sc (rx_sc io) \<Longrightarrow> keeps sc (on_sc (on_intr g) io)"
  unfolding keeps_def using on_sc_tables same_tables_trans by blast

lemma keeps_finish: "same_tables sc (rx_sc io) \<Longrightarrow> keeps sc (rx_finish n h c io)"
  unfolding keeps_def using rx_finish_tables same_tables_trans by blast

lemma keeps_wrap: "keeps sc m \<Longrightarrow> keeps sc (bindE m (on_sc (on_intr g)))"
  by (rule keeps_bind, rule keeps_on_sc) (simp add: keeps_def)

lemma keeps_poll:
  assumes "same_tables sc (rx_sc io)"
    and "\<And>io1 h c io2. same_tables sc (rx_sc io1) \<Longrightarrow> loop io1 = Inr (h, c, io2) \<Longrightarrow> rx_sc io2 = rx_sc io1"
  shows "keeps sc (bindE (on_sc (on_intr esc_unlock) (upd_sc g io)) (\<lambda>io.
    bindE (loop io) (\<lambda>(head, cause, io). bindE (on_sc (on_intr esc_lock) io) (rx_finish n head cause))))"
proof (intro keeps_bind)
  fix io1 r
  assume u: "on_sc (on_intr esc_unlock) (upd_sc g io) = Inr io1" and l: "loop io1 = Inr r"
  have t1: "same_tables sc (rx_sc io1)"
    using assms(1) upd_sc_tables on_sc_tables [OF u] same_tables_trans by blast
  obtain h c io2 where r: "r = (h, c, io2)" by (cases r)
  then have t2: "same_tables sc (rx_sc io2)" using assms(2) [OF t1] l t1 by simp
  then have "keeps sc (bindE (on_sc (on_intr esc_lock) io2) (rx_finish n h c))"
    using keeps_on_sc [OF t2, of esc_lock] by (intro keeps_bind keeps_finish) (simp add: keeps_def)
  then show "keeps sc (case r of (head, cause, io) \<Rightarrow> bindE (on_sc (on_intr esc_lock) io) (rx_finish n head cause))"
    by (simp add: r)
qed

lemma tap_callback_tables:
  assumes "e82545_tap_callback fifo iommu io = Inr io'"
  shows "same_tables (rx_sc io) (rx_sc io')"
proof -
  have "keeps (rx_sc io) (e82545_tap_callback fifo iommu io)"
    unfolding e82545_tap_callback_def Let_def
  proof (rule keeps_bind, rule keeps_wrap, goal_cases)
    case (1 io1)
    then have t: "same_tables (rx_sc io) (rx_sc io1)" by (rule on_sc_tables)
    then show ?case by (auto dest: rx_loop_end split: option.splits if_splits intro!: keeps_poll)
  qed
  then show ?thesis using assms by (simp add: keeps_def)
qed

section \<open>The world\<close>

lemma at_devi_wf [simp]: "card_wf (at_devi pi pic sc) = card_wf sc"
  by (simp add: card_wf_def at_devi_def)

lemma leave_wf [simp]: "world_wf (snd (e1000_leave sc w)) = card_wf sc"
  by (simp add: world_wf_def e1000_leave_def)

lemma put_devi_wf [simp]: "world_wf (put_devi b pi w) = world_wf w"
  by (simp add: world_wf_def)

lemma init_wf:
  assumes "e82545_init opts (pi, w) = Inr (err, s)"
  shows "world_wf (snd s)"
proof -
  obtain pi' w' mtx sc where r: "e82545_reset False (at_devi pi' (w_pic w')
      (zero_softc\<lparr>intr_part := (intr_part zero_softc)\<lparr>esc_mtx := mtx\<rparr>, esc_mac := default_mac\<rparr>)) = Inr sc"
    "s = e1000_leave sc w'"
    using assms by (auto simp: e82545_init_def res_simps Let_def)
  have "card_wf (zero_softc\<lparr>intr_part := (intr_part zero_softc)\<lparr>esc_mtx := mtx\<rparr>, esc_mac := default_mac\<rparr>)"
    by (simp add: card_wf_def zero_softc_def nvm_wf_def l2_wf_def zero_uni_def default_mac_def)
  then show ?thesis using reset_wf [OF r(1)] r(2) by simp
qed

lemma poll_wf:
  assumes "e1000_poll fifo iommu stk w = Inr w'" "world_wf w"
  shows "world_wf w'"
proof (cases "w_e1000 w")
  case None
  then show ?thesis using assms by (simp add: e1000_poll_def)
next
  case (Some sc)
  let ?b = "pi_bdf (esc_pi (intr_part sc))"
  obtain pi sc1 w1 sc2 w2 where
    t: "poll_tx iommu stk (at_devi pi (w_pic w) sc) w = Inr (sc1, w1)"
    and r: "e82545_rx_poll fifo iommu sc1 w1 = Inr (sc2, w2)"
    and e: "w' = put_devi ?b (Some (fst (e1000_leave sc2 w2))) (snd (e1000_leave sc2 w2))"
    using assms(1) Some by (auto simp: e1000_poll_def res_simps Let_def case_prod_beta split: option.splits)
  have "card_wf sc" using assms(2) Some by (simp add: world_wf_def)
  then have "card_wf sc1" using t tx_poll_wf by (fastforce simp: poll_tx_def res_simps)
  then have "card_wf sc2"
    using r tap_callback_tables same_tables_wf by (fastforce simp: e82545_rx_poll_def res_simps)
  then show ?thesis by (simp add: e)
qed

lemma fifo_work_wf:
  assumes "e1000_fifo_work fifo iommu (sem, w) = Inr (Some (sem', w'))" "world_wf w"
  shows "world_wf w'"
proof (cases "w_e1000 w")
  case None
  then show ?thesis using assms by (simp add: e1000_fifo_work_def split: if_split_asm)
next
  case (Some sc)
  let ?b = "pi_bdf (esc_pi (intr_part sc))"
  obtain pi sc2 w2 where r: "e82545_rx_poll fifo iommu (at_devi pi (w_pic w) sc) w = Inr (sc2, w2)"
    and e: "w' = put_devi ?b (Some (fst (e1000_leave sc2 w2))) (snd (e1000_leave sc2 w2))"
    using assms(1) Some by (auto simp: e1000_fifo_work_def res_simps Let_def case_prod_beta split: option.splits if_split_asm)
  have "card_wf sc" using assms(2) Some by (simp add: world_wf_def)
  then have "card_wf sc2"
    using r tap_callback_tables same_tables_wf by (fastforce simp: e82545_rx_poll_def res_simps)
  then show ?thesis by (simp add: e)
qed

text \<open>What can happen to the card: it is created, accessed through a BAR, or polled.\<close>

inductive e1000_step ::
    "'f fifo_rx \<Rightarrow> bool \<Rightarrow> nat \<Rightarrow> ('f, 'a) e1000_world_scheme \<Rightarrow> ('f, 'a) e1000_world_scheme \<Rightarrow> bool"
  for fifo iommu stk where
  step_init: "e82545_init opts (pi, w) = Inr (err, pi', w') \<Longrightarrow> e1000_step fifo iommu stk w w'"
| step_write: "e1000_barwrite iommu idx off sz v (pi, w) = Inr (pi', w') \<Longrightarrow> e1000_step fifo iommu stk w w'"
| step_read: "e1000_barread idx off sz (pi, w) = Inr (v, pi', w') \<Longrightarrow> e1000_step fifo iommu stk w w'"
| step_poll: "e1000_poll fifo iommu stk w = Inr w' \<Longrightarrow> e1000_step fifo iommu stk w w'"

lemma step_wf: "e1000_step fifo iommu stk w w' \<Longrightarrow> world_wf w \<Longrightarrow> world_wf w'"
proof (induction rule: e1000_step.induct)
  case (step_init opts pi w err pi' w')
  then show ?case using init_wf by fastforce
next
  case (step_write idx off sz v pi w pi' w')
  then obtain sc sc' where s: "w_e1000 w = Some sc" "e82545_write iommu idx off sz v (at_devi pi (w_pic w) sc) = Inr sc'"
    "(pi', w') = e1000_leave sc' w"
    by (auto simp: e1000_barwrite_def res_simps split: option.splits)
  then have "card_wf sc'" using write_wf [OF s(2)] step_write.prems by (simp add: world_wf_def)
  then show ?case using s(3) leave_wf by (metis snd_conv)
next
  case (step_read idx off sz pi w v pi' w')
  then obtain sc sc' where s: "w_e1000 w = Some sc" "e82545_read idx off sz (at_devi pi (w_pic w) sc) = Inr (v, sc')"
    "(pi', w') = e1000_leave sc' w"
    by (auto simp: e1000_barread_def res_simps split: option.splits)
  then have "card_wf sc'" using read_wf [OF s(2)] step_read.prems by (simp add: world_wf_def)
  then show ?case using s(3) leave_wf by (metis snd_conv)
next
  case (step_poll w w')
  then show ?case using poll_wf by blast
qed

end
