(* ===== verification/Device_Run.thy ===== *)
theory Device_Run
  imports Device_Boot Bus_Devices E1000_Types Ahci_Run
begin

text \<open>
  Runs of the whole device model: its initialisation, turns of the main loop with any request of the guest, turns of
  the two threads that receive, and any change of memory, of the FIFOs and of the hardware between them. The devices are those of the source,
  the table of \<open>struct pci_devemu\<close> that the linker collects.
\<close>

section \<open>The devices\<close>

text \<open>The card is well typed, and every request of every disk is accounted for.\<close>

definition devices_ok :: "('f, 'a) ahci_world_scheme \<Rightarrow> bool" where
  "devices_ok w \<longleftrightarrow> world_wf w \<and> (\<forall>sc. w_ahci w = Some sc \<longrightarrow> hba_inv sc)"

lemma devices_ok_cong: "w_e1000 w' = w_e1000 w \<Longrightarrow> w_ahci w' = w_ahci w \<Longrightarrow> devices_ok w' = devices_ok w"
  by (simp add: devices_ok_def world_wf_def)

lemma alloc_bar_more: "e82545_alloc_bar idx t len (pi, w) = Inr (pi', w') \<Longrightarrow> pci_world.more w' = pci_world.more w"
  by (auto simp: e82545_alloc_bar_def bindE_Inr case_prod_beta)

lemma e1000_init_ahci: "e82545_init opts (pi, w) = Inr (err, pi', w') \<Longrightarrow> w_ahci w' = w_ahci w"
  for w :: "('f, 'a) ahci_world_scheme"
  by (fastforce simp: e82545_init_def e82545_bars_def bindE_Inr Let_def e1000_leave_def
      dest!: request_keeps alloc_bar_more dest: more_devices)

lemma e1000_bar_ahci:
  fixes w :: "('f, 'a) ahci_world_scheme"
  shows "e1000_barwrite iommu idx off sz v (pi, w) = Inr (pi', w') \<Longrightarrow> w_ahci w' = w_ahci w"
    "e1000_barread idx off sz (pi, w) = Inr (v, pi', w') \<Longrightarrow> w_ahci w' = w_ahci w"
  by (auto simp: e1000_barwrite_def e1000_barread_def bindE_Inr e1000_leave_def split: option.split_asm)

lemma e1000_poll_ahci: "e1000_poll fifo iommu stk w = Inr w' \<Longrightarrow> w_ahci w' = w_ahci w"
  for w :: "('f, 'a) ahci_world_scheme"
  by (auto simp: e1000_poll_def poll_tx_def e82545_rx_poll_def bindE_Inr e1000_leave_def Let_def split: option.split_asm)

lemma ahci_bar_card:
  fixes w :: "('f, 'a) ahci_world_scheme"
  shows "ahci_barwrite iommu junk idx off sz v (pi, w) = Inr (pi', w') \<Longrightarrow> w_e1000 w' = w_e1000 w"
    "ahci_barread idx off sz (pi, w) = Inr (v, pi', w') \<Longrightarrow> w_e1000 w' = w_e1000 w"
  by (auto simp: ahci_barwrite_def ahci_barread_def bindE_Inr hba_leave_def split: option.split_asm)

lemma ahci_thr_card: "ahci_blockif_thr iommu junk w = Inr w' \<Longrightarrow> w_e1000 w' = w_e1000 w"
  for w :: "('f, 'a) ahci_world_scheme"
  by (auto simp: ahci_blockif_thr_def bindE_Inr Let_def hba_leave_def split: option.split_asm)

text \<open>Each function of the table keeps both.\<close>

lemma card_wf_step: "e1000_step fifo iommu stk w w' \<Longrightarrow> w_ahci w' = w_ahci w \<Longrightarrow> devices_ok w \<Longrightarrow> devices_ok w'"
  for w w' :: "('f, 'a) ahci_world_scheme"
  using step_wf by (auto simp: devices_ok_def)

lemma accounted_ok: "accounted w' \<Longrightarrow> w_e1000 w' = w_e1000 w \<Longrightarrow> devices_ok w \<Longrightarrow> devices_ok w'"
  by (auto simp: devices_ok_def accounted_def world_wf_def)

lemma ok_accounted: "devices_ok w \<Longrightarrow> w_ahci w = Some sc \<Longrightarrow> accounted w"
  by (simp add: devices_ok_def accounted_def)

lemma ahci_init_keeps:
  fixes w :: "('f, 'a) ahci_world_scheme"
  assumes "pci_ahci_init env atapi opts (pi, w) = Inr (err, pi', w')" "devices_ok w"
  shows "devices_ok w'"
proof (cases "err = 0")
  case True
  then have "accounted w'" using init_inv assms(1) by (fastforce simp: accounted_def)
  then show ?thesis using ahci_init_card [OF assms(1)] assms(2) by (rule accounted_ok)
next
  case False
  then have "w_ahci w' = None" using assms(1) by (fastforce simp: pci_ahci_init_def bindE_Inr Let_def hba_leave_def split: if_split_asm)
  then show ?thesis using ahci_init_card [OF assms(1)] assms(2) by (simp add: devices_ok_def world_wf_def)
qed

lemma ahci_bar_keeps:
  fixes w :: "('f, 'a) ahci_world_scheme"
  shows "ahci_barwrite iommu junk idx off sz v (pi, w) = Inr (pi', w') \<Longrightarrow> devices_ok w \<Longrightarrow> devices_ok w'"
    "ahci_barread idx off sz (pi, w) = Inr (u, pi', w') \<Longrightarrow> devices_ok w \<Longrightarrow> devices_ok w'"
proof -
  have a: "accounted w" if "w_ahci w \<noteq> None" "devices_ok w" using that ok_accounted by blast
  show "devices_ok w'" if "ahci_barwrite iommu junk idx off sz v (pi, w) = Inr (pi', w')" "devices_ok w"
    using write_accounted [OF that(1)] ahci_bar_card(1) [OF that(1)] that a
    by (auto simp: ahci_barwrite_def intro: accounted_ok split: option.split_asm)
  show "devices_ok w'" if "ahci_barread idx off sz (pi, w) = Inr (u, pi', w')" "devices_ok w"
    using read_accounted [OF that(1)] ahci_bar_card(2) [OF that(1)] that a
    by (auto simp: ahci_barread_def intro: accounted_ok split: option.split_asm)
qed

interpretation model: bus_devices "pci_devemu_set iommu junk env :: ('f, 'a) ahci_world_scheme pci_devemu list" devices_ok
  for iommu junk env
proof
  fix w w' :: "('f, 'a) ahci_world_scheme"
  show "pci_world.more w' = pci_world.more w \<Longrightarrow> devices_ok w \<Longrightarrow> devices_ok w'"
    using more_devices devices_ok_cong by metis
next
  fix pe :: "('f, 'a) ahci_world_scheme pci_devemu" and opts pi w err pi' w'
  assume "pe \<in> set (pci_devemu_set iommu junk env)" "pe_init pe opts (pi, w) = Inr (err, pi', w')" "devices_ok w"
  then show "devices_ok w'"
    using card_wf_step [OF step_init] e1000_init_ahci ahci_init_keeps
    by (fastforce simp: pci_devemu_set_def pci_de_e82545_def pci_de_ahci_def pci_ahci_hd_init_def pci_ahci_atapi_init_def)
next
  fix pe :: "('f, 'a) ahci_world_scheme pci_devemu" and idx off sz val pi w pi' w'
  assume "pe \<in> set (pci_devemu_set iommu junk env)" "pe_barwrite pe idx off sz val (pi, w) = Inr (pi', w')" "devices_ok w"
  then show "devices_ok w'"
    using card_wf_step [OF step_write] e1000_bar_ahci(1) ahci_bar_keeps(1)
    by (fastforce simp: pci_devemu_set_def pci_de_e82545_def pci_de_ahci_def)
next
  fix pe :: "('f, 'a) ahci_world_scheme pci_devemu" and idx off sz v pi w pi' w'
  assume "pe \<in> set (pci_devemu_set iommu junk env)" "pe_barread pe idx off sz (pi, w) = Inr (v, pi', w')" "devices_ok w"
  then show "devices_ok w'"
    using card_wf_step [OF step_read] e1000_bar_ahci(2) ahci_bar_keeps(2)
    by (fastforce simp: pci_devemu_set_def pci_de_e82545_def pci_de_ahci_def)
qed (auto simp: pci_devemu_set_def pci_de_e82545_def pci_de_ahci_def)

section \<open>Runs\<close>

text \<open>The rest of the machine may change what the devices do not own: memory, FIFOs and the hardware behind the forwarding.\<close>

definition outside_step :: "('f, 'h) dm_world \<Rightarrow> ('f, 'h) dm_world \<Rightarrow> bool" where
  "outside_step w w' \<longleftrightarrow> (\<exists>m f h. w' = w\<lparr>w_ram := m, w_fifo := f, w_hw := h\<rparr>)"

text \<open>
  The parts of a turn of the main loop, and what happens between them: a turn of the thread that receives for the
  card, which runs with interrupts disabled, a turn of the thread of the receiving DMA controller, and its interrupt.
  Each runs to its end. The semaphore of the card's thread is not part of the state and may have any value.
\<close>

inductive thread_step :: "('f, 'h) dm_config \<Rightarrow> ('f, 'h) dm_world \<Rightarrow> ('f, 'h) dm_world \<Rightarrow> bool" for cfg where
  at_request: "dm_request cfg (req, w) = Inr (ret, req', w') \<Longrightarrow> thread_step cfg w w'"
| at_card: "e1000_poll (fifo_process_rx (dm_fifo cfg)) (CONFIG_IOMMU cfg) (dm_stk cfg) w = Inr w' \<Longrightarrow> thread_step cfg w w'"
| at_disk: "ahci_blockif_thr (CONFIG_IOMMU cfg) (dm_stack cfg) w = Inr w' \<Longrightarrow> thread_step cfg w w'"
| at_dma: "thread_step cfg w (msgdma_poll cfg u w)"
| card_thread: "e1000_fifo_work (fifo_process_rx (dm_fifo cfg)) (CONFIG_IOMMU cfg) (sem, w) = Inr (Some (sem', w')) \<Longrightarrow>
    thread_step cfg w w'"
| dma_thread: "msgdma_work cfg w = Some w' \<Longrightarrow> thread_step cfg w w'"
| dma_intr: "thread_step cfg w (w\<lparr>w_msgdma1 := emul_msgdma_fifo_intr (w_msgdma1 w)\<rparr>)"

inductive dm_reach :: "('f, 'h) dm_config \<Rightarrow> ('f, 'h) dm_world \<Rightarrow> bool" for cfg where
  reach_boot: "w_e1000 w = None \<Longrightarrow> w_ahci w = None \<Longrightarrow> dm_init cfg malloced created w = Inr w' \<Longrightarrow> dm_reach cfg w'"
| reach_loop: "dm_reach cfg w \<Longrightarrow> dm_loop_turn cfg epw w = Inr (reply, w') \<Longrightarrow> dm_reach cfg w'"
| reach_thread: "dm_reach cfg w \<Longrightarrow> thread_step cfg w w' \<Longrightarrow> dm_reach cfg w'"
| reach_outside: "dm_reach cfg w \<Longrightarrow> outside_step w w' \<Longrightarrow> dm_reach cfg w'"

lemma dm_init_keeps:
  assumes "dm_init cfg malloced created w = Inr w'" "dm_devs cfg = pci_devemu_set iommu junk env" "devices_ok w"
  shows "devices_ok w'"
proof -
  have k: "devices_ok (u\<lparr>w_msgdma0 := a, w_msgdma1 := b\<rparr>) = devices_ok u" "devices_ok (u\<lparr>req_count := n, w_fifo_calls := c\<rparr>) = devices_ok u"
    "devices_ok (u\<lparr>w_msgdma0 := a, w_msgdma1 := b, w_msgdma1 := d\<rparr>) = devices_ok u" for u :: "('a, 'b) dm_world" and a b d n c
    by (rule devices_ok_cong; simp)+
  show ?thesis
    using assms
    by (fastforce simp: dm_init_def Let_def bindE_Inr k case_prod_beta split: if_split_asm dest: model.emul_pci_init_keeps)
qed

lemma request_keeps_devices:
  assumes "dm_request cfg (req, w) = Inr (ret, req', w')" "dm_devs cfg = pci_devemu_set iommu junk env" "devices_ok w"
  shows "devices_ok w'"
proof -
  have k: "devices_ok (put_msgdma u sc w) = devices_ok w" "devices_ok (w\<lparr>w_iommu := st\<rparr>) = devices_ok w" "devices_ok (w\<lparr>w_hw := h\<rparr>) = devices_ok w"
    for u sc st h
    by (rule devices_ok_cong; simp add: put_msgdma_def)+
  have e: "devices_ok w1" if "emul_request cfg el (req, w) = Inr (req1, w1)" for el req1 w1
    using that assms(2,3) k
    by (auto simp: emul_request_def Let_def bindE_Inr split: emul_target.split_asm intro: model.emul_pci_keeps)
  show ?thesis using assms(1,3) k e
    by (auto simp: dm_request_def Let_def bindE_Inr case_prod_beta split: option.split_asm prod.split_asm)
qed

lemma card_poll_keeps:
  "e1000_poll fifo iommu stk w = Inr w' \<Longrightarrow> devices_ok w \<Longrightarrow> devices_ok w'" for w :: "('f, 'a) ahci_world_scheme"
  using card_wf_step [OF step_poll] e1000_poll_ahci by blast

lemma disk_turn_keeps:
  fixes w :: "('f, 'a) ahci_world_scheme"
  assumes "ahci_blockif_thr iommu junk w = Inr w'" "devices_ok w"
  shows "devices_ok w'"
proof (cases "w_ahci w")
  case None
  then have "w' = w" using assms(1) by (auto simp: ahci_blockif_thr_def split: option.split_asm)
  then show ?thesis using assms(2) by simp
next
  case (Some sc)
  from turn_accounted [OF assms(1) ok_accounted [OF assms(2) Some]] ahci_thr_card [OF assms(1)] assms(2)
  show ?thesis by (rule accounted_ok)
qed

lemma card_thread_keeps:
  fixes w :: "('f, 'a) ahci_world_scheme"
  assumes "e1000_fifo_work fifo iommu (sem, w) = Inr (Some (sem', w'))" "devices_ok w"
  shows "devices_ok w'"
proof -
  have "w_ahci w' = w_ahci w"
    using assms(1) by (auto simp: e1000_fifo_work_def e82545_rx_poll_def bindE_Inr e1000_leave_def Let_def split: option.split_asm if_split_asm)
  moreover have "world_wf w'" using fifo_work_wf [OF assms(1)] assms(2) by (simp add: devices_ok_def)
  ultimately show ?thesis using assms(2) by (simp add: devices_ok_def)
qed

lemma thread_keeps_devices:
  assumes "thread_step cfg w w'" "dm_devs cfg = pci_devemu_set iommu junk env" "devices_ok w"
  shows "devices_ok w'"
  using assms
proof (induction rule: thread_step.induct)
  case (at_dma w u)
  have "devices_ok (msgdma_poll cfg u w) = devices_ok w"
    by (rule devices_ok_cong; simp add: msgdma_poll_def put_msgdma_def split: prod.split)
  then show ?case using at_dma by simp
next
  case (dma_thread w w')
  have "devices_ok w' = devices_ok w"
    using dma_thread(1) by (intro devices_ok_cong) (auto simp: msgdma_work_def put_msgdma_def split: option.split_asm)
  then show ?case using dma_thread by simp
next
  case (dma_intr w)
  have "devices_ok (w\<lparr>w_msgdma1 := emul_msgdma_fifo_intr (w_msgdma1 w)\<rparr>) = devices_ok w" by (rule devices_ok_cong; simp)
  then show ?case using dma_intr by simp
qed (blast intro: request_keeps_devices card_poll_keeps disk_turn_keeps card_thread_keeps)+

lemma turn_keeps_devices:
  assumes "dm_loop_turn cfg epw w = Inr (reply, w')" "dm_devs cfg = pci_devemu_set iommu junk env" "devices_ok w"
  shows "devices_ok w'"
proof -
  have k: "devices_ok (u\<lparr>req_count := n\<rparr>) = devices_ok u" "devices_ok (msgdma_poll cfg i u) = devices_ok u" for u n i
    by (rule devices_ok_cong; simp add: msgdma_poll_def put_msgdma_def split: prod.split)+
  obtain r w1 where w1: "(case epw of None \<Rightarrow> Inr (None, w)
            | Some req \<Rightarrow> bindE (dm_request cfg (req, w\<lparr>req_count := req_count w + 1\<rparr>)) (\<lambda>(ret, req, w). Inr (Some req, w))) = Inr (r, w1)"
    "(if CONFIG_EMUL_PCI cfg then bindE (e1000_poll (fifo_process_rx (dm_fifo cfg)) (CONFIG_IOMMU cfg) (dm_stk cfg) w1)
                (ahci_blockif_thr (CONFIG_IOMMU cfg) (dm_stack cfg))
            else Inr (msgdma_poll cfg 1 (msgdma_poll cfg 0 w1))) = Inr w'"
    using assms(1) by (auto simp: dm_loop_turn_def bindE_Inr)
  have "devices_ok w1"
    using w1(1) assms(3) k(1) request_keeps_devices [OF _ assms(2)] by (fastforce simp: bindE_Inr split: option.split_asm)
  then show ?thesis using w1(2) k(2) card_poll_keeps disk_turn_keeps by (fastforce simp: bindE_Inr split: if_split_asm)
qed

lemma reach_ok: "dm_reach cfg w \<Longrightarrow> dm_devs cfg = pci_devemu_set iommu junk env \<Longrightarrow> devices_ok w"
proof (induction rule: dm_reach.induct)
  case (reach_boot w malloced created w')
  have "devices_ok w" using reach_boot(1,2) by (simp add: devices_ok_def world_wf_def)
  then show ?case using dm_init_keeps reach_boot(3,4) by blast
next
  case (reach_loop w epw reply w')
  then show ?case using turn_keeps_devices by blast
next
  case (reach_thread w w')
  then show ?case using thread_keeps_devices by blast
next
  case (reach_outside w w')
  then have "devices_ok w" "w_e1000 w' = w_e1000 w" "w_ahci w' = w_ahci w" by (auto simp: outside_step_def)
  then show ?case using devices_ok_cong by blast
qed

section \<open>The property\<close>

text \<open>C3: Whatever the guest does, the devices stay sound: after the start of the machine and any turns of the main loop, of
  its parts and of the two receiving threads, in any order, with any requests to any window and any change of memory, of the FIFOs
  and of the hardware between them, the tables of the network card have their sizes, its EEPROM has its words and its bit counter
  and mode are in range, and on every port of the disk controller with a disk each
  request block is free or belongs to exactly one slot, the pending slots are those of the blocks in use, and exactly
  these blocks wait in the queue of the disk, once each.\<close>

theorem machine_invariant:
  assumes "dm_reach cfg w" "dm_devs cfg = pci_devemu_set iommu junk env"
  shows "(\<forall>sc. w_e1000 w = Some sc \<longrightarrow>
      length (esc_uni (l2_part sc)) = 16 \<and> length (esc_fmcast (l2_part sc)) = 128 \<and> length (esc_fvlan (l2_part sc)) = 128 \<and>
      length (esc_txctx (tx_part sc)) = 16 \<and> length (eeprom_data (nvm_part sc)) = 64 \<and>
      nvm_bits (nvm_part sc) \<le> 16 \<and> nvm_mode (nvm_part sc) \<le> 2) \<and>
    (\<forall>sc k bc. w_ahci w = Some sc \<and> bctx (port sc k) = Some bc \<longrightarrow>
      (let p = port sc k in distinct (iofhd p @ iobhd p) \<and> set (iofhd p @ iobhd p) = {..<ioqsz p} \<and>
         inj_on (\<lambda>i. io_slot (ioreq p i)) (set (iobhd p)) \<and> {s. bit (pending p) s} = (\<lambda>i. io_slot (ioreq p i)) ` set (iobhd p) \<and>
         queued bc = mset (iobhd p)))"
proof -
  have ok: "devices_ok w" using reach_ok assms by blast
  have disk: "port_inv (port sc k)" if "w_ahci w = Some sc" "bctx (port sc k) = Some bc" for sc k bc
    using ok that by (simp add: devices_ok_def hba_inv_def has_disk_def)
  have card: "card_wf sc" if "w_e1000 w = Some sc" for sc using ok that by (simp add: devices_ok_def world_wf_def)
  have books: "let p = port sc k in distinct (iofhd p @ iobhd p) \<and> set (iofhd p @ iobhd p) = {..<ioqsz p} \<and>
      inj_on (\<lambda>i. io_slot (ioreq p i)) (set (iobhd p)) \<and> {s. bit (pending p) s} = (\<lambda>i. io_slot (ioreq p i)) ` set (iobhd p) \<and>
      queued bc = mset (iobhd p)" if "w_ahci w = Some sc \<and> bctx (port sc k) = Some bc" for sc k bc
    using disk [of sc k bc] that unfolding port_inv_def Let_def by auto
  show ?thesis using card books by (simp add: card_wf_def l2_wf_def nvm_wf_def)
qed

text \<open>The start of the machine with the devices of the source is such a run.\<close>

theorem machine_invariant_witness:
  "\<exists>w sc. dm_reach boot_cfg w \<and> w_e1000 w = Some sc \<and> length (esc_uni (l2_part sc)) = 16 \<and>
     get_devi w (0, 0, 0) \<noteq> None \<and> w_ahci w \<noteq> None"
proof -
  obtain w' pi0 pi1 sc where b: "dm_init boot_cfg True True cold_world = Inr w'" "get_func w' = booted_funcs pi0 pi1"
    "w_ahci w' = Some sc" "card_quiet w'"
    using dm_boots [OF boot_cfg_sel cold(1-4)] by blast
  then have r: "dm_reach boot_cfg w'" using reach_boot cold(5,6) by blast
  obtain sc0 where "w_e1000 w' = Some sc0" using b(4) by (auto simp: card_quiet_def)
  then show ?thesis using machine_invariant [OF r boot_cfg_sel(1)] r b(3) devi_booted [OF b(2)] by (intro exI [of _ w'] exI [of _ sc0]) simp
qed

end
