(* ===== verification/Guest_Disk.thy ===== *)
theory Guest_Disk
  imports Device_Run Ahci_Disk
begin

text \<open>
  A disk transfer as the guest sees it: one turn of the main loop takes the write of the doorbell from the exception
  window through the dispatcher, the PCI window, the table of ranges and the BAR of the controller to the port, and then polls
  the devices. Nothing else happens in the turn when the network card is off.
\<close>

section \<open>A register of the controller through the bus\<close>

text \<open>The controller's registers are decoded at the address in its BAR, inside the PCI window.\<close>

definition controller_at :: "pci_devinst \<Rightarrow> 'a pci_world_scheme \<Rightarrow> bool" where
  "controller_at pi w \<longleftrightarrow> get_devi w (pi_bdf pi) = Some pi \<and> pi_devemu pi = ''ahci-hd'' \<and> mem_inv (w_mem w) \<and>
     bar_type (pi_bar pi 5) = PCIBAR_MEM32 \<and> bar_size (pi_bar pi 5) = 0x400 \<and>
     0xfdb10000 \<le> unat (bar_addr (pi_bar pi 5)) \<and> unat (bar_addr (pi_bar pi 5)) + 0x400 \<le> 0xfdb60000 \<and>
     (\<forall>a. covers (bar_range pi 5) a \<longrightarrow> range_at (w_mem w) a = Some (bar_range pi 5))"

lemma controller_offset:
  assumes "controller_at pi w" "unat off + 4 \<le> 0x400"
  defines "a \<equiv> bar_addr (pi_bar pi 5) + off"
  shows "unat a = unat (bar_addr (pi_bar pi 5)) + unat off" "range_at (w_mem w) a = Some (bar_range pi 5)"
    and "a \<ge> bar_addr (pi_bar pi 5) \<and> a + 4 \<le> bar_addr (pi_bar pi 5) + bar_size (pi_bar pi 5)" "a - bar_addr (pi_bar pi 5) = off"
proof -
  have u: "unat (bar_addr (pi_bar pi 5)) + 0x400 \<le> 0xfdb60000" "bar_size (pi_bar pi 5) = 0x400"
    using assms(1) by (simp_all add: controller_at_def)
  show n: "unat a = unat (bar_addr (pi_bar pi 5)) + unat off"
    unfolding a_def using u(1) assms(2) by (subst unat_add_64) simp_all
  have n4: "unat (a + 4) = unat a + 4" using u(1) assms(2) n by (subst unat_add_64) simp_all
  have e: "unat (bar_addr (pi_bar pi 5) + 0x400) = unat (bar_addr (pi_bar pi 5)) + 0x400"
    using u(1) by (subst unat_add_64) simp_all
  show b: "a \<ge> bar_addr (pi_bar pi 5) \<and> a + 4 \<le> bar_addr (pi_bar pi 5) + bar_size (pi_bar pi 5)"
    unfolding u(2) word_le_nat_alt n4 e unfolding n using assms(2) by simp
  have "unat (0x3ff + bar_addr (pi_bar pi 5)) = 0x3ff + unat (bar_addr (pi_bar pi 5))"
    using u(1) by (subst unat_add_64) simp_all
  then have "covers (bar_range pi 5) a"
    using n assms(2) u by (simp add: covers_def bar_range_def word_le_nat_alt)
  then show "range_at (w_mem w) a = Some (bar_range pi 5)" using assms(1) by (simp add: controller_at_def)
  show "a - bar_addr (pi_bar pi 5) = off" by (simp add: a_def)
qed

lemma bus_write_controller:
  fixes w :: "('f, 'a) ahci_world_scheme"
  defines "ms \<equiv> \<lambda>pi. (w_mem w)\<lparr>mmio_hint := Some (new_range (bar_range pi 5))\<rparr>"
  assumes "controller_at pi w" "unat off + 4 \<le> 0x400" "ahci_barwrite iommu junk 5 off 4 val (pi, w\<lparr>w_mem := ms pi\<rparr>) = Inr (pi, w1)"
  shows "bus_access (pci_devemu_set iommu junk env) (bar_addr (pi_bar pi 5) + off) True 4 val w = Inr (0, val, put_devi (pi_bdf pi) (Some pi) w1)"
proof -
  let ?a = "bar_addr (pi_bar pi 5) + off"
  note c = assms(2) [unfolded controller_at_def]
  have hit: "emulate_mem (pci_mem_call (pci_devemu_set iommu junk env)) (w_mem w) w ?a True 4 val =
      pci_mem_call (pci_devemu_set iommu junk env) (Pci_emul_mem_handler (pi_bdf pi) 5) MEM_F_WRITE ?a 4 (ms pi) (val, w)"
    using c controller_offset [OF assms(2,3)] unfolding ms_def by (simp add: emulate_mem_hit bar_range_def)
  have "w_mem w1 = ms pi" using assms(4) by (auto simp: ahci_barwrite_def bindE_Inr hba_leave_def split: option.split_asm)
  then show ?thesis
    using c controller_offset [OF assms(2,3)] assms(4)
    by (simp add: bus_access_def hit pci_mem_call_def pci_emul_mem_handler_def pci_de_ahci_def bind_assertE Let_def devemu_found put_devi_mem)
qed

section \<open>The polls\<close>

text \<open>A card that is off leaves everything but its own record alone.\<close>

lemma quiet_poll:
  fixes w :: "('f, 'a) ahci_world_scheme"
  assumes "card_quiet w" "get_devi w (0, 0, 0) \<noteq> None"
  shows "\<exists>sc. e1000_poll fifo iommu stk w = Inr (w\<lparr>w_e1000 := Some sc\<rparr>)"
proof -
  obtain sc pi where sc: "w_e1000 w = Some sc" "pi_bdf (esc_pi (intr_part sc)) = (0, 0, 0)" "free_mutex (esc_mtx (intr_part sc))"
    "\<not> esc_tx_enabled (tx_part sc)" "\<not> esc_rx_enabled (rx_part sc)" "get_devi w (0, 0, 0) = Some pi"
    using assms by (auto simp: card_quiet_def)
  have put: "put_devi (0, 0, 0) (Some pi) (w\<lparr>w_e1000 := x\<rparr>) = w\<lparr>w_e1000 := x\<rparr>" for x
    by (rule put_same_devi) (use sc(6) in \<open>simp add: get_devi_def get_func_def\<close>)
  show ?thesis
    using sc put
    by (auto simp: e1000_poll_def poll_tx_def e82545_tx_poll_def e82545_rx_poll_def e82545_tap_callback_def e1000_leave_def at_devi_def
        io_lock_def io_unlock_def on_sc_def on_intr_def esc_lock_def esc_unlock_def pthread_mutex_lock_def pthread_mutex_unlock_def
        free_mutex_def upd_tx_def Let_def bind_assertE)
qed

text \<open>The block thread does not look at the card.\<close>

lemma thr_ignores_card:
  fixes w :: "('f, 'a) ahci_world_scheme"
  assumes "ahci_blockif_thr iommu junk w = Inr w'"
  shows "ahci_blockif_thr iommu junk (w\<lparr>w_e1000 := x\<rparr>) = Inr (w'\<lparr>w_e1000 := x\<rparr>)"
proof -
  have g: "get_devi (w\<lparr>w_e1000 := x\<rparr>) b = get_devi w b" for b by (simp add: get_devi_def get_func_def)
  have a: "at_hba pi (w\<lparr>w_e1000 := x\<rparr>) sc = at_hba pi w sc" for pi sc by (simp add: at_hba_def)
  have l: "hba_leave io (w\<lparr>w_e1000 := x\<rparr>) = (fst (hba_leave io w), (snd (hba_leave io w))\<lparr>w_e1000 := x\<rparr>)" for io
    by (simp add: hba_leave_def)
  have p: "put_devi b pi (v\<lparr>w_e1000 := x\<rparr>) = (put_devi b pi v)\<lparr>w_e1000 := x\<rparr>" for b pi and v :: "('f, 'a) ahci_world_scheme"
    by (cases b) (simp add: put_devi_def map_slot_def)
  show ?thesis using assms
    by (auto simp: ahci_blockif_thr_def g a l p bindE_Inr Let_def case_prod_beta split: option.split_asm)
qed

section \<open>A turn of the main loop\<close>

lemma barwrite_bus:
  fixes w :: "('f, 'a) ahci_world_scheme"
  shows "ahci_barwrite iommu junk idx off sz v (pi, w) = Inr (pi', w1) \<Longrightarrow> pci_businfo w1 = pci_businfo w"
  by (auto simp: ahci_barwrite_def bindE_Inr hba_leave_def split: option.split_asm)

lemma still_there:
  "pci_businfo w' = pci_businfo w \<Longrightarrow> get_devi w c \<noteq> None \<Longrightarrow> get_devi (put_devi b (Some pi) w') c \<noteq> None"
  by (auto simp: get_devi_def get_func_put) (auto simp: get_func_def split: prod.split bind_splits)

text \<open>The request that rings the doorbell of a port.\<close>

definition rings :: "nat \<Rightarrow> nat \<Rightarrow> pci_devinst \<Rightarrow> epw_request \<Rightarrow> bool" where
  "rings n slot pi req \<longleftrightarrow> rq_addr req = bar_addr (pi_bar pi 5) + port_offset n AHCI_P_CI \<and> rq_is_write req \<and>
     rq_data_len req = 4 \<and> rq_flit_size req = 4 \<and> le32 (rq_data req) 0 = slot_bit slot"

lemma doorbell_turn:
  fixes w :: "('f, 'h) dm_world"
  assumes "dm_devs cfg = pci_devemu_set (CONFIG_IOMMU cfg) (dm_stack cfg) env" "CONFIG_EMUL_PCI cfg" "controller_at pi w"
    "card_quiet w" "get_devi w (0, 0, 0) \<noteq> None" "n < 6" "rings n slot pi req"
    "ahci_barwrite (CONFIG_IOMMU cfg) (dm_stack cfg) 5 (port_offset n AHCI_P_CI) 4 (ucast (slot_bit slot))
       (pi, w\<lparr>req_count := k, w_mem := (w_mem w)\<lparr>mmio_hint := Some (new_range (bar_range pi 5))\<rparr>\<rparr>) = Inr (pi, w1)"
    "ahci_blockif_thr (CONFIG_IOMMU cfg) (dm_stack cfg) (put_devi (pi_bdf pi) (Some pi) w1) = Inr w2" "k = req_count w + 1"
  shows "\<exists>x. dm_loop_turn cfg (Some req) w = Inr (Some req, w2\<lparr>w_e1000 := x\<rparr>)"
proof -
  let ?w = "w\<lparr>req_count := k\<rparr>" and ?w1 = "put_devi (pi_bdf pi) (Some pi) w1"
  have c: "controller_at pi ?w" using assms(3) by (simp add: controller_at_def get_devi_def get_func_def)
  have off: "unat (port_offset n AHCI_P_CI) + 4 \<le> 0x400" using assms(6) port_offset_nat [of n AHCI_P_CI] by simp
  have a: "unat (rq_addr req) = unat (bar_addr (pi_bar pi 5)) + unat (port_offset n AHCI_P_CI)"
    using controller_offset(1) [OF assms(3) off] assms(7) by (simp add: rings_def)
  then have win: "0xfdb10000 \<le> unat (rq_addr req)" "unat (rq_addr req) < 0xfdb60000"
    using assms(3) off by (auto simp: controller_at_def)
  have b: "bus_access (dm_devs cfg) (rq_addr req) True 4 (ucast (le32 (rq_data req) 0)) ?w = Inr (0, ucast (slot_bit slot), ?w1)"
    using bus_write_controller [OF c off, of "CONFIG_IOMMU cfg" "dm_stack cfg" "ucast (slot_bit slot)" w1 env] assms(1,7,8)
    by (simp add: rings_def)
  have r: "dm_request cfg (req, ?w) = Inr (0, req, ?w1)"
    using pci_dispatch [OF win, of cfg ?w] pci_write32 [OF _ _ _ b] assms(7) by (simp add: rings_def)
  have "card_quiet ?w1" using assms(4,8) ahci_bar_card(1) [OF assms(8)] card_quiet_cong [of ?w1 w] by simp
  moreover have "get_devi ?w1 (0, 0, 0) \<noteq> None"
    by (rule still_there) (use barwrite_bus [OF assms(8)] assms(5) in simp_all)
  ultimately obtain x where p: "e1000_poll (fifo_process_rx (dm_fifo cfg)) (CONFIG_IOMMU cfg) (dm_stk cfg) ?w1 = Inr (?w1\<lparr>w_e1000 := Some x\<rparr>)"
    using quiet_poll by blast
  show ?thesis
    using r p thr_ignores_card [OF assms(9), of "Some x"] assms(2,10) by (auto simp: dm_loop_turn_def)
qed

lemma ready_cong:
  "ready_port n L F bc pi w sc \<Longrightarrow> ready_port n L F bc pi (w\<lparr>req_count := k, w_mem := ms\<rparr>) sc"
  for w :: "('f, 'h) dm_world"
  by (simp add: ready_port_def get_func_def split: prod.splits)

section \<open>Properties\<close>

text \<open>A machine with its controller and a card that is off, and the two requirements on the places of a command: the buffers and
  the command do not overlap each other or the image of the disk.\<close>

definition disk_machine :: "('f, 'h) dm_config \<Rightarrow> ahci_env \<Rightarrow> pci_devinst \<Rightarrow> ('f, 'h) dm_world \<Rightarrow> bool" where
  "disk_machine cfg env pi w \<longleftrightarrow> dm_devs cfg = pci_devemu_set (CONFIG_IOMMU cfg) (dm_stack cfg) env \<and> CONFIG_EMUL_PCI cfg \<and>
     controller_at pi w \<and> card_quiet w \<and> get_devi w (0, 0, 0) \<noteq> None"

text \<open>C1: A guest reads its disk: when the driver has put a READ DMA EXT command into a slot of an idle port and writes the slot's
  bit to the command issue register through the exception window, the turn of the main loop that serves this request also
  serves the disk and leaves in the buffers of the command's table exactly the bytes of the disk from the sector asked for, the
  length in the header of the slot (in the byte order of the host), a register frame in the receive area, and the
  port idle again with success in its task file and the interrupt noted.\<close>

theorem guest_disk_read:
  fixes w :: "('f, 'h) dm_world"
  assumes "disk_machine cfg env pi w" "n < 6" "rings n slot pi req" "ready_port n L F bc pi w sc" "slot < 32"
    "asks_dma False (CONFIG_IOMMU cfg) (w_ram w) (L + slot * AHCI_CL_SIZE) iov start len"
    "iov_apart iov" "off_disk (nat (int (bc_base bc) + start)) (unat len) iov"
    "off_disk (table_at (CONFIG_IOMMU cfg) (w_ram w) (L + slot * AHCI_CL_SIZE) + 2) 1 iov"
    "off_disk (L + slot * AHCI_CL_SIZE + 4) 4 iov" "off_disk (F + 0x40) 20 iov"
    "L + slot * AHCI_CL_SIZE + 8 \<le> F + 0x40 \<or> F + 0x54 \<le> L + slot * AHCI_CL_SIZE + 4"
  shows "\<exists>w' sc'. dm_loop_turn cfg (Some req) w = Inr (Some req, w') \<and> w_ahci w' = Some sc' \<and>
    iov_bytes iov (w_ram w') = map (w_ram w) [nat (int (bc_base bc) + start)..<nat (int (bc_base bc) + start) + unat len] \<and>
    load32 (w_ram w') (L + slot * AHCI_CL_SIZE + 4) = len \<and> w_ram w' (F + 0x40) = 0x34 \<and> completed_port (port sc' n)"
proof -
  note d = assms(1) [unfolded disk_machine_def]
  define w0 where "w0 = w\<lparr>req_count := req_count w + 1, w_mem := (w_mem w)\<lparr>mmio_hint := Some (new_range (bar_range pi 5))\<rparr>\<rparr>"
  have r: "ready_port n L F bc pi w0 sc" unfolding w0_def by (rule ready_cong [OF assms(4)])
  have m: "w_ram w0 = w_ram w" by (simp add: w0_def)
  obtain w1 w2 sc2 where t: "ahci_barwrite (CONFIG_IOMMU cfg) (dm_stack cfg) 5 (port_offset n AHCI_P_CI) 4 (ucast (slot_bit slot)) (pi, w0) = Inr (pi, w1)"
    "ahci_blockif_thr (CONFIG_IOMMU cfg) (dm_stack cfg) (put_devi (pi_bdf pi) (Some pi) w1) = Inr w2" "w_ahci w2 = Some sc2"
    "iov_bytes iov (w_ram w2) = map (w_ram w) [nat (int (bc_base bc) + start)..<nat (int (bc_base bc) + start) + unat len]"
    "load32 (w_ram w2) (L + slot * AHCI_CL_SIZE + 4) = len" "w_ram w2 (F + 0x40) = 0x34" "completed_port (port sc2 n)"
    using read_dma [OF r assms(5), of "CONFIG_IOMMU cfg" iov start len "dm_stack cfg"] assms(6-12) unfolding m by blast
  obtain x where "dm_loop_turn cfg (Some req) w = Inr (Some req, w2\<lparr>w_e1000 := x\<rparr>)"
    using doorbell_turn [OF _ _ _ _ _ assms(2,3) t(1) [unfolded w0_def] t(2)] d by blast
  then show ?thesis using t(3-7) by (intro exI [of _ "w2\<lparr>w_e1000 := x\<rparr>"] exI [of _ sc2]) simp
qed

text \<open>C6: And writes it: after a WRITE DMA EXT command the sectors asked for hold exactly the bytes of the buffers, in their
  order, at the end of the turn that serves the doorbell, and the completion is posted as for a read.\<close>

theorem guest_disk_write:
  fixes w :: "('f, 'h) dm_world"
  assumes "disk_machine cfg env pi w" "n < 6" "rings n slot pi req" "ready_port n L F bc pi w sc" "slot < 32"
    "asks_dma True (CONFIG_IOMMU cfg) (w_ram w) (L + slot * AHCI_CL_SIZE) iov start len"
    "off_disk (nat (int (bc_base bc) + start)) (unat len) iov"
    "let D = nat (int (bc_base bc) + start) in \<forall>(a, k)\<in>{(table_at (CONFIG_IOMMU cfg) (w_ram w) (L + slot * AHCI_CL_SIZE) + 2, 1),
       (L + slot * AHCI_CL_SIZE + 4, 4), (F + 0x40, 20)}. D + unat len \<le> a \<or> a + k \<le> D"
    "L + slot * AHCI_CL_SIZE + 8 \<le> F + 0x40 \<or> F + 0x54 \<le> L + slot * AHCI_CL_SIZE + 4"
  shows "\<exists>w' sc'. dm_loop_turn cfg (Some req) w = Inr (Some req, w') \<and> w_ahci w' = Some sc' \<and>
    map (w_ram w') [nat (int (bc_base bc) + start)..<nat (int (bc_base bc) + start) + unat len] = iov_bytes iov (w_ram w) \<and>
    load32 (w_ram w') (L + slot * AHCI_CL_SIZE + 4) = len \<and> w_ram w' (F + 0x40) = 0x34 \<and> completed_port (port sc' n)"
proof -
  note d = assms(1) [unfolded disk_machine_def]
  define w0 where "w0 = w\<lparr>req_count := req_count w + 1, w_mem := (w_mem w)\<lparr>mmio_hint := Some (new_range (bar_range pi 5))\<rparr>\<rparr>"
  have r: "ready_port n L F bc pi w0 sc" unfolding w0_def by (rule ready_cong [OF assms(4)])
  have m: "w_ram w0 = w_ram w" by (simp add: w0_def)
  obtain w1 w2 sc2 where t: "ahci_barwrite (CONFIG_IOMMU cfg) (dm_stack cfg) 5 (port_offset n AHCI_P_CI) 4 (ucast (slot_bit slot)) (pi, w0) = Inr (pi, w1)"
    "ahci_blockif_thr (CONFIG_IOMMU cfg) (dm_stack cfg) (put_devi (pi_bdf pi) (Some pi) w1) = Inr w2" "w_ahci w2 = Some sc2"
    "map (w_ram w2) [nat (int (bc_base bc) + start)..<nat (int (bc_base bc) + start) + unat len] = iov_bytes iov (w_ram w)"
    "load32 (w_ram w2) (L + slot * AHCI_CL_SIZE + 4) = len" "w_ram w2 (F + 0x40) = 0x34" "completed_port (port sc2 n)"
    using write_dma [OF r assms(5), of "CONFIG_IOMMU cfg" iov start len "dm_stack cfg"] assms(6-9) unfolding m by blast
  obtain x where "dm_loop_turn cfg (Some req) w = Inr (Some req, w2\<lparr>w_e1000 := x\<rparr>)"
    using doorbell_turn [OF _ _ _ _ _ assms(2,3) t(1) [unfolded w0_def] t(2)] d by blast
  then show ?thesis using t(3-7) by (intro exI [of _ "w2\<lparr>w_e1000 := x\<rparr>"] exI [of _ sc2]) simp
qed

section \<open>Witnesses\<close>

text \<open>One command in slot 0: one sector at block 2 of the disk and one buffer at \<open>0x4000\<close>.\<close>

definition wit_dma :: "u8 \<Rightarrow> bytes" where
  "wit_dma c = (\<lambda>_. 0)(2 := 1, 9 := 0x20, 0x2000 := 0x27, 0x2001 := 0x80, 0x2002 := c, 0x2004 := 2, 0x200c := 1,
     0x2081 := 0x40, 0x208c := 0xff, 0x208d := 1, 0x4000 := 0x5a, 0x3000400 := 0xa5)"

definition wit_sc :: pci_ahci_softc where
  "wit_sc = (zero_hba zero_devinst)\<lparr>ports := 6, port := (\<lambda>_. wit_disk)\<rparr>"

definition wit_iov :: "iovec list" where
  "wit_iov = [\<lparr>iov_base = 0x4000, iov_len = 512\<rparr>]"

lemma wit_port_ready:
  assumes "w_ahci w = Some wit_sc" "w_blockif w = Some (Some 0)" "lintr_ready pi" "get_func w (pi_bdf pi) \<noteq> None"
  shows "\<exists>bc. ready_port 0 0 0x1000 bc pi w wit_sc \<and> bc_base bc = 0x3000000"
proof -
  obtain bc :: "nat blockif_ctxt" where bc: "blockif_open True 0 = Some bc" by (auto simp: blockif_open_def)
  have b: "bc_base bc = 0x3000000" "bc_sectsz bc = 512" "\<not> bc_rdonly bc" using bc by (auto simp: blockif_open_def)
  have "hba_inv wit_sc" using wit_disk_inv by (simp add: hba_inv_def wit_sc_def)
  moreover have "idle_port wit_disk" using wit_disk_inv
    by (simp add: idle_port_def) (simp add: wit_disk_def wit_port_def zero_port_def port_busy_def running_def)
  moreover have "receiving wit_disk" "cmd_lst wit_disk = Some 0" "rfis wit_disk = Some 0x1000" "bctx wit_disk = Some bc"
    using bc by (simp_all add: wit_disk_def wit_port_def zero_port_def receiving_def)
  moreover have "free_mutex (asc_mtx wit_sc)" "ports wit_sc = 6" "port wit_sc k = wit_disk" for k
    by (simp_all add: wit_sc_def zero_hba_def free_mutex_def pthread_mutex_init_def)
  ultimately have "ready_port 0 0 0x1000 bc pi w wit_sc"
    using b assms by (simp add: ready_port_def)
  then show ?thesis using b by blast
qed

lemma wit_bytes:
  "map (wit_dma c) [2, 3] = [1, 0]" "map (wit_dma c) [8, 9, 10, 11, 12, 13, 14, 15] = [0, 0x20, 0, 0, 0, 0, 0, 0]"
  "wit_dma c 0x2000 = 0x27" "wit_dma c 0x2001 = 0x80" "wit_dma c 0x2002 = c"
  "map (wit_dma c) [0x2004, 0x2005, 0x2006, 0x2008, 0x2009, 0x200a] = [2, 0, 0, 0, 0, 0]" "map (wit_dma c) [0x200c, 0x200d] = [1, 0]"
  "map (wit_dma c) [0x2080, 0x2081, 0x2082, 0x2083, 0x2084, 0x2085, 0x2086, 0x2087] = [0, 0x40, 0, 0, 0, 0, 0, 0]"
  "map (wit_dma c) [0x208c, 0x208d, 0x208e, 0x208f] = [0xff, 1, 0, 0]" "wit_dma c 0x4000 = 0x5a" "wit_dma c 0x3000400 = 0xa5"
  by (simp_all add: wit_dma_def)

lemma wit_cat: "word_cat (0x20 :: u8) (0 :: u8) = (0x2000 :: u16)" "word_cat (0x40 :: u8) (0 :: u8) = (0x4000 :: u16)"
  "word_cat (1 :: u8) (0xff :: u8) = (0x1ff :: u16)"
  by code_simp+

lemma wit_prdtl: "hdr_prdtl (wit_dma c) 0 = 1"
  by (simp add: hdr_prdtl_def le16_def wit_dma_def)

lemma wit_words: "le64 (wit_dma c) 8 = 0x2000" "le64 (wit_dma c) 0x2080 = 0x4000"
  "le32 (wit_dma c) 0x208c = 0x1ff"
  using wit_bytes [of c] by (simp_all add: le64_def le32_def le16_def wit_cat)

lemma wit_table: "table_at True (wit_dma c) 0 = 0x2000"
  by (simp add: table_at_def wit_words paddr_guest2host_def)

lemma wit_asks:
  assumes "wr = (c = 0x35)" "c = 0x25 \<or> c = 0x35"
  shows "asks_dma wr True (wit_dma c) 0 wit_iov 1024 512"
proof -
  have "rw_48 c" "\<not> rw_ncq c" using assms(2) by (auto simp: rw_48_def rw_ncq_def)
  then have "rw_range (wit_dma c) 0x2000 = (2, 1)"
    using wit_bytes [of c] by (simp add: rw_range_def lba48_def byte_at_def Let_def)
  moreover have "build_iov_loop True (wit_dma c) 0x2080 1 0 512 0 [] = (wit_iov, 512, 0)"
    by (simp add: wit_words paddr_guest2host_def Let_def wit_iov_def)
  moreover have "bit (wit_dma c 0x2001) 7" unfolding wit_bytes by code_simp
  ultimately show ?thesis
    using assms wit_bytes(3,5) [of c] unfolding asks_dma_def Let_def wit_table wit_prdtl
    by (auto simp: wit_iov_def)
qed

lemma wit_apart: "off_disk a k wit_iov \<longleftrightarrow> k = 0 \<or> a + k \<le> 0x4000 \<or> 0x4200 \<le> a" "iov_apart wit_iov"
  by (auto simp: off_disk_def iov_cells_def wit_iov_def disjoint_iff)

text \<open>The machine of the boot theorem with its driver's setup: an idle first port with its lists, and memory with a command.\<close>

definition disk_cfg :: "(unit, unit) dm_config" where
  "disk_cfg = wit_cfg\<lparr>CONFIG_IOMMU := True, dm_devs := pci_devemu_set True (\<lambda>_. 0) wit_env\<rparr>"

definition wit_bell :: epw_request where
  "wit_bell = (wit_req True)\<lparr>rq_addr := 0xfdb50138, rq_data := (\<lambda>_. 0)(0 := 1)\<rparr>"

lemma wit_machine:
  "\<exists>(w :: (unit, unit) dm_world) pi bc. disk_machine disk_cfg wit_env pi w \<and> rings 0 0 pi wit_bell \<and>
     ready_port 0 0 0x1000 bc pi w wit_sc \<and> bc_base bc = 0x3000000 \<and> w_ram w = m"
proof -
  have cfg: "dm_devs disk_cfg = pci_devemu_set True (\<lambda>_. 0) wit_env" "CONFIG_EMUL_PCI disk_cfg" "CONFIG_IOMMU disk_cfg" "dm_stack disk_cfg = (\<lambda>_. 0)"
    by (simp_all add: disk_cfg_def wit_cfg_def)
  obtain w' pi0 pi1 pi sc bc0 where b: "get_func w' = booted_funcs pi0 pi1" "card_quiet (w' :: (unit, unit) dm_world)" "w_blockif w' = Some (Some 0)"
    "sata_ready (make_ident (md5 wit_env ''test'')) bc0 pi sc" "routed pi pi1" "\<forall>a. range_at (w_mem w') a = boot_range a" "mem_inv (w_mem w')"
    using dm_boots [OF cfg(1,2) boot_cfg_sel(3) cold(1-4)] by blast
  let ?w = "w'\<lparr>w_ahci := Some wit_sc, w_ram := m\<rparr>"
  have pi1: "pi_bdf pi1 = (0, 1, 0)" "pi_devemu pi1 = ''ahci-hd''" "lintr_ready pi1"
    "pi_bar pi1 5 = \<lparr>bar_type = PCIBAR_MEM32, bar_size = 0x400, bar_addr = 0xfdb50000\<rparr>"
    using b(4,5) by (simp_all add: sata_ready_def routed_def lintr_ready_def)
  have range: "bar_range pi1 5 = sata_range" using pi1 by (simp add: bar_range_def sata_range_def)
  have g: "get_func ?w = get_func w'" by (simp add: fun_eq_iff get_func_def)
  then have f: "get_func ?w (pi_bdf pi1) \<noteq> None" using b(1) by (simp add: pi1(1) del: One_nat_def)
  have devi: "get_devi ?w c = (if c = (0, 0, 0) then Some pi0 else if c = (0, 1, 0) then Some pi1 else None)" for c
    using devi_booted [of ?w pi0 pi1 c] g b(1) by simp
  have at: "controller_at pi1 ?w"
    using pi1 devi range b(6,7) ecfg_apart by (auto simp: controller_at_def boot_range_def)
  have "card_quiet ?w" using b(2) card_quiet_cong [of ?w w'] by simp
  then have "disk_machine disk_cfg wit_env pi1 ?w" using at devi cfg by (simp add: disk_machine_def)
  moreover have "rings 0 0 pi1 wit_bell"
    using pi1(4) by (simp add: rings_def wit_bell_def wit_req_def port_offset_def le32_def le16_def slot_bit_def word_cat_eq)
  moreover obtain bc where "ready_port 0 0 0x1000 bc pi1 ?w wit_sc" "bc_base bc = 0x3000000"
    using wit_port_ready [OF _ _ pi1(3) f] b(3) by auto
  ultimately show ?thesis by (intro exI [of _ ?w] exI [of _ pi1] exI [of _ bc]) simp
qed

theorem guest_disk_read_witness:
  "\<exists>(w :: (unit, unit) dm_world) w'. dm_loop_turn disk_cfg (Some wit_bell) w = Inr (Some wit_bell, w') \<and>
     w_ram w 0x4000 = 0x5a \<and> w_ram w' 0x4000 = 0xa5"
proof -
  obtain w :: "(unit, unit) dm_world" and pi bc where w: "disk_machine disk_cfg wit_env pi w" "rings 0 0 pi wit_bell"
    "ready_port 0 0 0x1000 bc pi w wit_sc" "bc_base bc = 0x3000000" "w_ram w = wit_dma 0x25"
    using wit_machine by blast
  have q: "asks_dma False (CONFIG_IOMMU disk_cfg) (w_ram w) (0 + 0 * AHCI_CL_SIZE) wit_iov 1024 512"
    using wit_asks [of False "0x25"] by (simp add: w(5) disk_cfg_def)
  from guest_disk_read [OF w(1) _ w(2,3) _ q wit_apart(2)]
  obtain w' where r: "dm_loop_turn disk_cfg (Some wit_bell) w = Inr (Some wit_bell, w')"
    "iov_bytes wit_iov (w_ram w') = map (w_ram w) [0x3000400..<0x3000600]"
    by (auto simp: wit_apart(1) w(4,5) wit_table disk_cfg_def)
  have "hd (iov_bytes wit_iov (w_ram w')) = w_ram w' 0x4000" by (simp add: wit_iov_def upt_conv_Cons)
  moreover have "hd (map (w_ram w) [0x3000400..<0x3000600]) = 0xa5" using wit_bytes by (simp add: w(5) upt_conv_Cons)
  ultimately show ?thesis using r wit_bytes(10) [of "0x25"] w(5) by metis
qed

theorem guest_disk_write_witness:
  "\<exists>(w :: (unit, unit) dm_world) w'. dm_loop_turn disk_cfg (Some wit_bell) w = Inr (Some wit_bell, w') \<and>
     w_ram w 0x3000400 = 0xa5 \<and> w_ram w' 0x3000400 = 0x5a"
proof -
  obtain w :: "(unit, unit) dm_world" and pi bc where w: "disk_machine disk_cfg wit_env pi w" "rings 0 0 pi wit_bell"
    "ready_port 0 0 0x1000 bc pi w wit_sc" "bc_base bc = 0x3000000" "w_ram w = wit_dma 0x35"
    using wit_machine by blast
  have q: "asks_dma True (CONFIG_IOMMU disk_cfg) (w_ram w) (0 + 0 * AHCI_CL_SIZE) wit_iov 1024 512"
    using wit_asks [of True "0x35"] by (simp add: w(5) disk_cfg_def)
  from guest_disk_write [OF w(1) _ w(2,3) _ q]
  obtain w' where r: "dm_loop_turn disk_cfg (Some wit_bell) w = Inr (Some wit_bell, w')"
    "map (w_ram w') [0x3000400..<0x3000600] = iov_bytes wit_iov (w_ram w)"
    by (auto simp: wit_apart(1) w(4,5) wit_table disk_cfg_def)
  have "hd (iov_bytes wit_iov (w_ram w)) = 0x5a" using wit_bytes by (simp add: wit_iov_def upt_conv_Cons w(5))
  moreover have "hd (map (w_ram w') [0x3000400..<0x3000600]) = w_ram w' 0x3000400" by (simp add: upt_conv_Cons)
  ultimately show ?thesis using r wit_bytes(11) [of "0x35"] w(5) by metis
qed

end
