(* ===== verification/E1000_Send.thy ===== *)
theory E1000_Send
  imports E1000_Ring E1000_Rx
begin

text \<open>
  A whole run of the transmission: the packets and contexts between the head and the tail of the ring as the guest left
  them in memory, and the poll of the card that sends them. A poll begins a packet only while it has taken fewer
  descriptors than a quarter of the ring.
\<close>

section \<open>The descriptors that are marked\<close>

definition wants_status :: "bytes \<Rightarrow> nat \<Rightarrow> bool" where
  "wants_status m d \<longleftrightarrow> td_lower m d AND E1000_TXD_CMD_RS \<noteq> 0"

text \<open>\<open>n\<close> descriptors from \<open>head\<close> on are done: the status byte of each that asks for it has its bit 0 set.\<close>

definition asks_at :: "nat \<Rightarrow> nat \<Rightarrow> nat \<Rightarrow> nat \<Rightarrow> bytes \<Rightarrow> nat \<Rightarrow> bool" where
  "asks_at ring dsize head n m a \<longleftrightarrow>
     (\<exists>j<n. a = ring + 16 * ((head + j) mod dsize) + 12 \<and> wants_status m (ring + 16 * ((head + j) mod dsize)))"

definition marked :: "nat \<Rightarrow> nat \<Rightarrow> nat \<Rightarrow> nat \<Rightarrow> bytes \<Rightarrow> bytes" where
  "marked ring dsize head n m = (\<lambda>a. if asks_at ring dsize head n m a then m a OR 1 else m a)"

definition some_asks :: "nat \<Rightarrow> nat \<Rightarrow> nat \<Rightarrow> nat \<Rightarrow> bytes \<Rightarrow> bool" where
  "some_asks ring dsize head n m \<longleftrightarrow> (\<exists>j<n. wants_status m (ring + 16 * ((head + j) mod dsize)))"

text \<open>Two memories with the same descriptors but for their status bytes.\<close>

definition same_descs :: "nat \<Rightarrow> nat \<Rightarrow> bytes \<Rightarrow> bytes \<Rightarrow> bool" where
  "same_descs ring dsize m m' \<longleftrightarrow> (\<forall>i<dsize. \<forall>k<16. k \<noteq> 12 \<longrightarrow> m' (ring + 16 * i + k) = m (ring + 16 * i + k))"

lemma same_descsD: "same_descs ring dsize m m' \<Longrightarrow> i < dsize \<Longrightarrow> k < 16 \<Longrightarrow> k \<noteq> 12 \<Longrightarrow> m' (ring + 16 * i + k) = m (ring + 16 * i + k)"
  by (simp add: same_descs_def)

lemma same_descs_fields:
  assumes "same_descs ring dsize m m'" "i < dsize"
  defines "d \<equiv> ring + 16 * i"
  shows "td_lower m' d = td_lower m d" "le64 m' d = le64 m d" "le16 m' (d + 8) = le16 m (d + 8)" "le16 m' (d + 14) = le16 m (d + 14)"
    "m' (d + 10) = m (d + 10)" "m' (d + 13) = m (d + 13)"
proof -
  have k: "m' (d + k) = m (d + k)" if "k < 16" "k \<noteq> 12" for k
    unfolding d_def using same_descsD [OF assms(1,2) that] .
  note f = k [of 0] k [of 1] k [of 2] k [of 3] k [of 4] k [of 5] k [of 6] k [of 7] k [of 8] k [of 9] k [of 10] k [of 11]
    k [of 13] k [of 14] k [of 15] k [of "Suc (Suc (Suc 0))"]
  show "td_lower m' d = td_lower m d" "le64 m' d = le64 m d" "le16 m' (d + 8) = le16 m (d + 8)" "le16 m' (d + 14) = le16 m (d + 14)"
    "m' (d + 10) = m (d + 10)" "m' (d + 13) = m (d + 13)"
    using f by (simp_all add: td_lower_def le64_def le32_def le16_def ac_simps)
qed

lemma wants_same: "same_descs ring dsize m m' \<Longrightarrow> i < dsize \<Longrightarrow> wants_status m' (ring + 16 * i) = wants_status m (ring + 16 * i)"
  using same_descs_fields(1) by (simp add: wants_status_def)

lemma same_descs_marked: "same_descs ring dsize m (marked ring dsize head n m)"
proof -
  have "\<not> asks_at ring dsize head n m (ring + 16 * i + k)" if "k < 16" "k \<noteq> 12" for i k
  proof -
    have "k = 12" if "16 * i + k = 16 * x + 12" for x using that \<open>k < 16\<close> by presburger
    then show ?thesis using that(2) by (auto simp: asks_at_def)
  qed
  then show ?thesis by (simp add: same_descs_def marked_def)
qed

lemma same_descs_trans: "same_descs ring dsize m m1 \<Longrightarrow> same_descs ring dsize m1 m2 \<Longrightarrow> same_descs ring dsize m m2"
  by (simp add: same_descs_def)

lemma asks_same: "same_descs ring dsize m m' \<Longrightarrow> 0 < dsize \<Longrightarrow> asks_at ring dsize head n m' a = asks_at ring dsize head n m a"
  using wants_same [of ring dsize m m'] by (auto simp: asks_at_def)

lemma some_asks_same: "same_descs ring dsize m m' \<Longrightarrow> 0 < dsize \<Longrightarrow> some_asks ring dsize head n m' = some_asks ring dsize head n m"
  using wants_same [of ring dsize m m'] by (auto simp: some_asks_def)

lemma asks_add:
  "asks_at ring dsize head (n1 + n2) m a \<longleftrightarrow> asks_at ring dsize head n1 m a \<or> asks_at ring dsize ((head + n1) mod dsize) n2 m a"
proof -
  have s: "(\<exists>j<n1 + n2. P j) \<longleftrightarrow> (\<exists>j<n1. P j) \<or> (\<exists>j<n2. P (n1 + j))" for P :: "nat \<Rightarrow> bool"
    by (metis add_less_cancel_left le_Suc_ex not_less trans_less_add1)
  show ?thesis unfolding asks_at_def s by (simp add: mod_add_left_eq add.assoc)
qed

lemma some_asks_add:
  "some_asks ring dsize head (n1 + n2) m \<longleftrightarrow> some_asks ring dsize head n1 m \<or> some_asks ring dsize ((head + n1) mod dsize) n2 m"
proof -
  have "some_asks ring dsize head n m \<longleftrightarrow> (\<exists>a. asks_at ring dsize head n m a)" for head n
    by (auto simp: some_asks_def asks_at_def)
  then show ?thesis by (simp add: asks_add ex_disj_distrib)
qed

lemma marked_add:
  assumes "0 < dsize"
  shows "marked ring dsize ((head + n1) mod dsize) n2 (marked ring dsize head n1 m) = marked ring dsize head (n1 + n2) m"
  unfolding marked_def [of _ _ _ n2] marked_def [of _ _ _ "n1 + n2"] asks_same [OF same_descs_marked assms] asks_add
  by (auto simp: marked_def or.assoc)

lemma ring_apart: "j < n \<Longrightarrow> n < dsize \<Longrightarrow> (head + j) mod dsize \<noteq> (head + n) mod (dsize :: nat)"
proof
  assume j: "j < n" "n < dsize" and eq: "(head + j) mod dsize = (head + n) mod dsize"
  then have "(head + n - (head + j)) mod dsize = 0" using mod_eq_dvd_iff_nat [of "head + j" "head + n" dsize] by simp
  then show False using j by simp
qed

lemma done_loop_eq:
  assumes "head < dsize" "n < dsize"
  shows "tx_done_loop ring dsize ((head + n) mod dsize) head m b =
    Some (Inr (marked ring dsize head n m, b \<or> some_asks ring dsize head n m))"
  using assms
proof (induction n arbitrary: head m b)
  case 0
  then show ?case by (subst tx_done_loop.simps) (simp add: marked_def asks_at_def some_asks_def)
next
  case (Suc n)
  let ?d = "ring + 16 * head" and ?h = "(head + 1) mod dsize"
  define m1 where "m1 = (if wants_status m ?d then m(?d + 12 := m (?d + 12) OR 1) else m)"
  have one: "m1 = marked ring dsize head 1 m" using Suc.prems(1) by (auto simp: m1_def marked_def asks_at_def fun_eq_iff)
  have b1: "some_asks ring dsize head 1 m = wants_status m ?d" using Suc.prems(1) by (simp add: some_asks_def)
  have ne: "head \<noteq> (head + Suc n) mod dsize" using ring_apart [of 0 "Suc n" dsize head] Suc.prems by simp
  have eq: "(head + Suc n) mod dsize = (?h + n) mod dsize" by (simp add: mod_add_left_eq)
  have "0 < dsize" using Suc.prems by simp
  have "tx_done_loop ring dsize ((?h + n) mod dsize) ?h m1 (b \<or> wants_status m ?d) =
      Some (Inr (marked ring dsize ?h n m1, (b \<or> wants_status m ?d) \<or> some_asks ring dsize ?h n m1))"
    by (rule Suc.IH) (use Suc.prems in simp_all)
  moreover have "next_desc dsize head = Inr ?h" using Suc.prems(1) by (simp add: next_desc_def)
  moreover have "tx_done_loop ring dsize ((head + Suc n) mod dsize) head m b =
      (case next_desc dsize head of Inl e \<Rightarrow> Some (Inl e)
       | Inr h \<Rightarrow> tx_done_loop ring dsize ((head + Suc n) mod dsize) h m1 (b \<or> wants_status m ?d))"
    by (subst tx_done_loop.simps) (simp only: ne if_False Let_def m1_def wants_status_def)
  ultimately have "tx_done_loop ring dsize ((head + Suc n) mod dsize) head m b =
      Some (Inr (marked ring dsize ?h n m1, (b \<or> wants_status m ?d) \<or> some_asks ring dsize ?h n m1))"
    unfolding eq by simp
  then show ?case
    using marked_add [OF \<open>0 < dsize\<close>, of ring head 1 n m] some_asks_add [of ring dsize head 1 n m]
      b1
    by (simp add: one some_asks_same [OF same_descs_marked \<open>0 < dsize\<close>])
qed

section \<open>Gathering\<close>

lemma tx_desc_same:
  assumes "same_descs ring dsize m m'" "i < dsize"
  shows "tx_desc iommu cd m' (ring + 16 * i) p = tx_desc iommu cd m (ring + 16 * i) p"
  unfolding tx_desc_def add_frag_def last_desc_def td_len_def Let_def by (simp only: same_descs_fields [OF assms])

lemma tx_desc_head:
  "tx_desc iommu cd m d p = Inr (Tx_more q) \<or> tx_desc iommu cd m d p = Inr (Tx_last q) \<Longrightarrow> tp_head q = tp_head p \<and> tp_desc q = tp_desc p"
  by (auto simp: tx_desc_def add_frag_def last_desc_def Let_def res_simps split: if_splits)

lemma gather_same:
  assumes "tp_head p < dsize" "(tp_head p + k) mod dsize = tail" "same_descs ring dsize m m'"
  shows "tx_gather iommu cd m' ring dsize tail p = tx_gather iommu cd m ring dsize tail p"
  using assms(1,2)
proof (induction k arbitrary: p)
  case 0
  then show ?case by (simp add: tx_gather.simps [of iommu cd _ ring dsize tail p])
next
  case (Suc k)
  note d = tx_desc_same [OF assms(3) Suc.prems(1)]
  have n: "next_desc dsize h = Inr ((h + 1) mod dsize)" for h using Suc.prems(1) by (simp add: next_desc_def)
  have ih: "tx_gather iommu cd m' ring dsize tail (q\<lparr>tp_head := (tp_head p + 1) mod dsize, tp_desc := tp_desc q + 1\<rparr>) =
      tx_gather iommu cd m ring dsize tail (q\<lparr>tp_head := (tp_head p + 1) mod dsize, tp_desc := tp_desc q + 1\<rparr>)" for q
    by (rule Suc.IH) (use ring_step [OF Suc.prems(2,1)] in simp_all)
  have q: "tx_gather iommu cd m' ring dsize tail (q\<lparr>tp_head := (tp_head q + 1) mod dsize, tp_desc := tp_desc q + 1\<rparr>) =
      tx_gather iommu cd m ring dsize tail (q\<lparr>tp_head := (tp_head q + 1) mod dsize, tp_desc := tp_desc q + 1\<rparr>)"
    if "tx_desc iommu cd m (ring + 16 * tp_head p) p = Inr (Tx_more q)" for q
    using tx_desc_head [OF disjI1 [OF that]] ih [of q] by simp
  show ?case unfolding tx_gather.simps [of iommu cd m' ring dsize tail p] tx_gather.simps [of iommu cd m ring dsize tail p] d n
    by (rule if_cong [OF refl refl], rule sum.case_cong [OF refl refl], rule tx_step.case_cong) (use q in simp_all)
qed

text \<open>The last descriptor of a packet, counted from its first.\<close>

lemma gather_head:
  assumes "tp_head p < dsize" "(tp_head p + k) mod dsize = tail" "tx_gather iommu cd m ring dsize tail p = Some (Inr (Tx_packet q))"
  shows "\<exists>j<k. tp_desc q = tp_desc p + j \<and> tp_head q = (tp_head p + j) mod dsize"
  using assms
proof (induction k arbitrary: p)
  case 0
  then show ?case by (simp add: tx_gather.simps [of iommu cd m ring dsize tail p])
next
  case (Suc k)
  have n: "next_desc dsize h = Inr ((h + 1) mod dsize)" for h using Suc.prems(1) by (simp add: next_desc_def)
  show ?case
  proof (cases "tx_desc iommu cd m (ring + 16 * tp_head p) p = Inr (Tx_last q)")
    case True
    then have "tp_head q = tp_head p \<and> tp_desc q = tp_desc p" using tx_desc_head by blast
    then show ?thesis using Suc.prems(1) by (intro exI [of _ 0]) simp
  next
    case False
    then obtain p' where p': "tx_desc iommu cd m (ring + 16 * tp_head p) p = Inr (Tx_more p')"
      "tx_gather iommu cd m ring dsize tail (p'\<lparr>tp_head := (tp_head p' + 1) mod dsize, tp_desc := tp_desc p' + 1\<rparr>) = Some (Inr (Tx_packet q))"
      using Suc.prems(3) by (auto simp: n tx_gather.simps [of iommu cd m ring dsize tail p] split: if_splits sum.splits tx_step.splits)
    have h: "tp_head p' = tp_head p" "tp_desc p' = tp_desc p" using tx_desc_head p'(1) by blast+
    from Suc.IH [OF _ _ p'(2)] obtain j where "j < k" "tp_desc q = tp_desc p + 1 + j" "tp_head q = ((tp_head p + 1) mod dsize + j) mod dsize"
      using ring_step [OF Suc.prems(2,1)] by (auto simp: h)
    then show ?thesis by (intro exI [of _ "1 + j"]) (simp add: mod_add_left_eq)
  qed
qed

section \<open>The packets of a run\<close>

text \<open>The header copy on the stack takes at most 360 bytes.\<close>

definition header_copy :: "nat \<Rightarrow> nat set" where
  "header_copy stk = {stk..<stk + 360}"

definition status_bytes :: "nat \<Rightarrow> nat \<Rightarrow> nat set" where
  "status_bytes ring dsize = (\<lambda>i. ring + 16 * i + 12) ` {..<dsize}"

text \<open>
  A gathered packet that the card can send in one frame: no segmentation, at most 64 fragments, which hold the
  headers and lie apart from the header copy and the status bytes.
\<close>

definition packet_ok :: "u32 \<Rightarrow> nat \<Rightarrow> nat \<Rightarrow> nat \<Rightarrow> u8 list \<Rightarrow> bytes \<Rightarrow> tx_pkt \<Rightarrow> bool" where
  "packet_ok ctrl stk ring dsize cd m p \<longleftrightarrow> \<not> tp_tso p \<and> tp_iovcnt p \<le> I82545_MAX_TXSEGS \<and>
     (\<exists>h. tx_hdrlen cd (tx_vlen ctrl (td_lower m (ring + 16 * tp_head p))) p = Inr h \<and> h \<le> iov_size (tp_iov p)) \<and>
     clear_of (header_copy stk \<union> status_bytes ring dsize) (tp_iov p) \<and> list_all (\<lambda>v. iov_len v \<le> 131070) (tp_iov p)"

definition packet_frame :: "u32 \<Rightarrow> u32 \<Rightarrow> nat \<Rightarrow> bytes \<Rightarrow> tx_pkt \<Rightarrow> u8 list" where
  "packet_frame ctrl vet ring m p =
     (let d = ring + 16 * tp_head p in
      ref_frame (tx_vlen ctrl (td_lower m d) \<noteq> 0) vet (le16 m (d + 14)) (tp_ck0 p) (tp_ck1 p) (gather m (tp_iov p)))"

text \<open>
  What a run with room for \<open>lim\<close> descriptors does from \<open>head\<close> on, with the saved context \<open>cd\<close>: it takes \<open>n\<close> descriptors
  and sends the frames in order. A packet is begun as long as there is room for one descriptor and the tail is not
  reached. A context descriptor replaces the saved context.
\<close>

inductive sends ::
    "bool \<Rightarrow> u32 \<Rightarrow> u32 \<Rightarrow> nat \<Rightarrow> nat \<Rightarrow> bytes \<Rightarrow> nat \<Rightarrow> nat \<Rightarrow> nat \<Rightarrow> u8 list \<Rightarrow> nat \<Rightarrow> nat \<Rightarrow> u8 list list \<Rightarrow> bool"
  for iommu ctrl vet stk ring m dsize tail where
  sends_end: "head = tail \<or> lim = 0 \<Longrightarrow> sends iommu ctrl vet stk ring m dsize tail lim cd head 0 []"
| sends_context: "0 < lim \<Longrightarrow> head \<noteq> tail \<Longrightarrow> e82545_txdesc_type (td_lower m (ring + 16 * head)) = E1000_TXD_TYP_C \<Longrightarrow>
    sends iommu ctrl vet stk ring m dsize tail (lim - 1) (region m (ring + 16 * head) 16) ((head + 1) mod dsize) n frames \<Longrightarrow>
    sends iommu ctrl vet stk ring m dsize tail lim cd head (1 + n) frames"
| sends_packet: "0 < lim \<Longrightarrow> tx_gather iommu cd m ring dsize tail (tx_pkt0 head) = Some (Inr (Tx_packet p)) \<Longrightarrow>
    packet_ok ctrl stk ring dsize cd m p \<Longrightarrow>
    sends iommu ctrl vet stk ring m dsize tail (lim - (tp_desc p + 1)) cd ((tp_head p + 1) mod dsize) n frames \<Longrightarrow>
    sends iommu ctrl vet stk ring m dsize tail lim cd head (tp_desc p + 1 + n) (packet_frame ctrl vet ring m p # frames)"

text \<open>A run takes no descriptor twice, and it stops at the tail or when its room is used up.\<close>

lemma sends_within:
  "sends iommu ctrl vet stk ring m dsize tail lim cd head n frames \<Longrightarrow> head < dsize \<Longrightarrow> (head + k) mod dsize = tail \<Longrightarrow> n \<le> k"
proof (induction arbitrary: k rule: sends.induct)
  case (sends_context lim head n frames cd)
  then obtain k' where k: "k = Suc k'" by (cases k) auto
  then show ?case using sends_context.IH [OF ring_step(2,1)] sends_context.prems by auto
next
  case (sends_packet lim cd head p n frames)
  have h: "tp_head (tx_pkt0 head) < dsize" "(tp_head (tx_pkt0 head) + k) mod dsize = tail" using sends_packet.prems by (simp_all add: tx_pkt0_def)
  obtain j where j: "j < k" "tp_desc p = j" "tp_head p = (head + j) mod dsize"
    using gather_head [OF h sends_packet.hyps(2)] by (auto simp: tx_pkt0_def)
  have "(tp_head p + 1) mod dsize = (head + (j + 1)) mod dsize" by (simp add: j(3) mod_Suc_eq)
  then have "((tp_head p + 1) mod dsize + (k - (j + 1))) mod dsize = (head + (j + 1) + (k - (j + 1))) mod dsize"
    by (simp add: mod_add_left_eq)
  then have "((tp_head p + 1) mod dsize + (k - (j + 1))) mod dsize = tail" using j(1) sends_packet.prems(2) by simp
  moreover have "(tp_head p + 1) mod dsize < dsize" using sends_packet.prems(1) by (intro mod_less_divisor) simp
  ultimately show ?case using sends_packet.IH [of "k - (j + 1)"] j by simp
qed simp

lemma sends_stops:
  "sends iommu ctrl vet stk ring m dsize tail lim cd head n frames \<Longrightarrow> head < dsize \<Longrightarrow> tail < dsize \<Longrightarrow>
   (head + n) mod dsize = tail \<or> lim \<le> n"
proof (induction rule: sends.induct)
  case (sends_context lim head n frames cd)
  have "(head + 1) mod dsize < dsize" using sends_context.prems(1) by simp
  then show ?case using sends_context.IH sends_context.prems(2) by (auto simp: mod_Suc_eq mod_add_left_eq add.assoc)
next
  case (sends_packet lim cd head p n frames)
  have h0: "head < dsize" by fact
  obtain k where k: "(head + k) mod dsize = tail" using ring_distance [OF sends_packet.prems] by blast
  then have h: "tp_head (tx_pkt0 head) < dsize" "(tp_head (tx_pkt0 head) + k) mod dsize = tail" using h0 by (simp_all add: tx_pkt0_def)
  obtain j where j: "tp_desc p = j" "tp_head p = (head + j) mod dsize"
    using gather_head [OF h sends_packet.hyps(2)] by (auto simp: tx_pkt0_def)
  have "(tp_head p + 1) mod dsize = (head + (j + 1)) mod dsize" by (simp add: j(2) mod_Suc_eq)
  then have "((tp_head p + 1) mod dsize + n) mod dsize = (head + (tp_desc p + 1 + n)) mod dsize"
    by (simp add: mod_add_left_eq j(1) add.assoc)
  moreover have "(tp_head p + 1) mod dsize < dsize" using h0 by (intro mod_less_divisor) simp
  ultimately show ?case using sends_packet.IH sends_packet.prems(2) by auto
qed auto

lemma hdrlen_small:
  assumes "tx_hdrlen cd (tx_vlen ctrl lower) p = Inr h" "\<not> tp_tso p"
  shows "tx_vlen ctrl lower + h \<le> 360"
proof -
  define h0 where "h0 = (if tx_vlen ctrl lower \<noteq> 0 then 12 else (0 :: nat))"
  define h1 where "h1 = (if ck_valid (tp_ck0 p) then max h0 (unat (ck_off (tp_ck0 p)) + 2) else h0)"
  define h2 where "h2 = (if ck_valid (tp_ck1 p) then max h1 (unat (ck_off (tp_ck1 p)) + 2) else h1)"
  have "unat (ck_off (tp_ck0 p)) < 256" "unat (ck_off (tp_ck1 p)) < 256" using unat_u8 by blast+
  then have "h2 \<le> 257" by (simp add: h2_def h1_def h0_def)
  moreover have "h = 0 \<or> h = h2 \<or> h < h2 + 100"
    using assms(1) [unfolded tx_hdrlen_def Let_def, folded h0_def, folded h1_def, folded h2_def] assms(2)
    by (auto split: list.splits if_splits)
  moreover have "tx_vlen ctrl lower \<le> 4" by (simp add: tx_vlen_def)
  ultimately show ?thesis by linarith
qed

section \<open>One call of the transmission\<close>

definition agrees :: "nat set \<Rightarrow> bytes \<Rightarrow> bytes \<Rightarrow> bool" where
  "agrees S m m' \<longleftrightarrow> (\<forall>a. a \<notin> S \<longrightarrow> m' a = m a)"

lemma agrees_descs: "agrees S m m' \<Longrightarrow> S \<inter> {ring..<ring + 16 * dsize} = {} \<Longrightarrow> same_descs ring dsize m m'"
  unfolding agrees_def same_descs_def by (auto simp: disjoint_iff)

lemma agrees_marked:
  "agrees S m m' \<Longrightarrow> same_descs ring dsize m m' \<Longrightarrow> 0 < dsize \<Longrightarrow>
   agrees S (marked ring dsize head n m) (marked ring dsize head n m')"
  by (simp add: agrees_def marked_def asks_same)

lemma marked_status: "0 < dsize \<Longrightarrow> agrees (status_bytes ring dsize) m (marked ring dsize head n m)"
  by (auto simp: agrees_def marked_def asks_at_def status_bytes_def)

lemma transmit_packet:
  assumes "esc_txdesc (tx_part (io_sc io)) = Some r" "head < dsize" "tail < dsize" "tp_desc p + 1 < dsize"
    "tx_gather iommu (esc_txctx (tx_part (io_sc io))) m (unat r) dsize tail (tx_pkt0 head) = Some (Inr (Tx_packet p))"
    "packet_ok (esc_CTRL (io_sc io)) stk (unat r) dsize (esc_txctx (tx_part (io_sc io))) m p"
    "same_descs (unat r) dsize m (io_mem io)" "agrees (header_copy stk \<union> status_bytes (unat r) dsize) m (io_mem io)"
    "header_copy stk \<inter> {unat r..<unat r + 16 * dsize} = {}"
  shows "\<exists>io'. e82545_transmit iommu stk head tail dsize b io =
      Inr (tp_desc p + 1, (tp_head p + 1) mod dsize, b \<or> some_asks (unat r) dsize head (tp_desc p + 1) m, io') \<and>
    (tp_head p + 1) mod dsize = (head + (tp_desc p + 1)) mod dsize \<and>
    io_sc io' = io_sc io \<and> io_sent io' = io_sent io @ [packet_frame (esc_CTRL (io_sc io)) (esc_VET (io_sc io)) (unat r) m p] \<and>
    agrees (header_copy stk) (marked (unat r) dsize head (tp_desc p + 1) (io_mem io)) (io_mem io')"
proof -
  let ?m = "io_mem io" and ?cd = "esc_txctx (tx_part (io_sc io))" and ?ring = "unat r" and ?k = "tp_desc p + 1"
  obtain k where k: "(tp_head (tx_pkt0 head) + k) mod dsize = tail"
    using ring_distance [OF assms(2,3)] by (auto simp: tx_pkt0_def)
  have h0: "tp_head (tx_pkt0 head) < dsize" "tp_desc (tx_pkt0 head) = 0" using assms(2) by (simp_all add: tx_pkt0_def)
  have g: "tx_gather iommu ?cd ?m ?ring dsize tail (tx_pkt0 head) = Some (Inr (Tx_packet p))"
    using gather_same [OF h0(1) k assms(7)] assms(5) by simp
  have head': "tp_head p = (head + tp_desc p) mod dsize"
    using gather_head [OF h0(1) k assms(5)] h0(2) by (auto simp: tx_pkt0_def)
  then have i: "tp_head p < dsize" using assms(2) by simp
  let ?d = "?ring + 16 * tp_head p"
  note f = same_descs_fields [OF assms(7) i]
  obtain h where ok: "\<not> tp_tso p" "tp_iovcnt p \<le> I82545_MAX_TXSEGS" "tx_hdrlen ?cd (tx_vlen (esc_CTRL (io_sc io)) (td_lower ?m ?d)) p = Inr h"
    "h \<le> iov_size (tp_iov p)" "clear_of (header_copy stk \<union> status_bytes ?ring dsize) (tp_iov p)"
    "list_all (\<lambda>v. iov_len v \<le> 131070) (tp_iov p)"
    using assms(6) unfolding packet_ok_def f by blast
  have len: "length (tp_iov p) \<le> I82545_MAX_TXSEGS" using gather_inv [OF g] ok(2) by (simp add: tx_pkt0_def)
  have small: "tx_vlen (esc_CTRL (io_sc io)) (td_lower ?m ?d) + h \<le> 360" by (rule hdrlen_small [OF ok(3,1)])
  have "clear_of {stk..<stk + tx_vlen (esc_CTRL (io_sc io)) (td_lower ?m ?d) + h} (tp_iov p)"
    by (rule clear_of_mono [OF ok(5)]) (use small in \<open>auto simp: header_copy_def\<close>)
  from frame_sent [OF ok(1,2) len refl ok(3,4) this ok(6), of "io_sent io"]
  obtain m1 where m1: "tx_send (io_sc io) stk ?d p ?m (io_sent io) = Inr (m1, io_sent io @
      [ref_frame (tx_vlen (esc_CTRL (io_sc io)) (td_lower ?m ?d) \<noteq> 0) (esc_VET (io_sc io)) (le16 ?m (?d + 14)) (tp_ck0 p) (tp_ck1 p)
        (gather ?m (tp_iov p))])"
    "\<forall>a. m1 a \<noteq> ?m a \<longrightarrow> a \<in> {stk..<stk + tx_vlen (esc_CTRL (io_sc io)) (td_lower ?m ?d) + h}" by blast
  have ga: "gather ?m (tp_iov p) = gather m (tp_iov p)"
    using assms(8) by (intro gather_cong [OF ok(5)]) (simp add: agrees_def)
  have ag: "agrees (header_copy stk) ?m m1" using m1(2) small by (fastforce simp: agrees_def header_copy_def)
  note sd = agrees_descs [OF ag assms(9)]
  have pos: "0 < dsize" using assms(2) by simp
  have "(head + ?k) mod dsize = (tp_head p + 1) mod dsize" unfolding head' by (simp add: mod_Suc_eq)
  then have "e82545_transmit_done ?ring head ((tp_head p + 1) mod dsize) dsize m1 b =
      Inr (marked ?ring dsize head ?k m1, b \<or> some_asks ?ring dsize head ?k m)"
    using done_loop_eq [OF assms(2,4), of ?ring m1 b] some_asks_same [OF same_descs_trans [OF assms(7) sd] pos]
    by (simp add: e82545_transmit_done_def)
  then have "e82545_transmit iommu stk head tail dsize b io = Inr (?k, (tp_head p + 1) mod dsize, b \<or> some_asks ?ring dsize head ?k m,
      io\<lparr>io_sent := io_sent io @ [packet_frame (esc_CTRL (io_sc io)) (esc_VET (io_sc io)) ?ring m p], io_mem := marked ?ring dsize head ?k m1\<rparr>)"
    using assms(1,2) g m1(1) by (simp add: e82545_transmit_def Let_def next_desc_def packet_frame_def f ga)
  then show ?thesis using agrees_marked [OF ag sd pos] \<open>(head + ?k) mod dsize = _\<close> by simp
qed

text \<open>A context descriptor, and the end of the ring.\<close>

lemma transmit_context:
  assumes "esc_txdesc (tx_part (io_sc io)) = Some r" "head < dsize" "head \<noteq> tail" "1 < dsize"
    "e82545_txdesc_type (td_lower (io_mem io) (unat r + 16 * head)) = E1000_TXD_TYP_C"
  shows "e82545_transmit iommu stk head tail dsize b io =
    Inr (1, (head + 1) mod dsize, b \<or> some_asks (unat r) dsize head 1 (io_mem io),
      io\<lparr>io_sc := upd_tx (\<lambda>t. t\<lparr>esc_txctx := region (io_mem io) (unat r + 16 * head) 16\<rparr>) (io_sc io),
        io_mem := marked (unat r) dsize head 1 (io_mem io)\<rparr>)"
proof -
  have "tx_gather iommu cd (io_mem io) (unat r) dsize tail (tx_pkt0 head) = Some (Inr (Tx_ctx (tx_pkt0 head)))" for cd
    using assms(3,5) by (subst tx_gather.simps) (simp add: tx_pkt0_def tx_desc_def Let_def)
  moreover have "e82545_transmit_done (unat r) head ((head + 1) mod dsize) dsize (io_mem io) b =
      Inr (marked (unat r) dsize head 1 (io_mem io), b \<or> some_asks (unat r) dsize head 1 (io_mem io))"
    using done_loop_eq [OF assms(2,4), of "unat r" "io_mem io" b] by (simp add: e82545_transmit_done_def)
  ultimately show ?thesis using assms(1,2) by (simp add: e82545_transmit_def Let_def next_desc_def tx_pkt0_def)
qed

lemma transmit_idle:
  assumes "esc_txdesc (tx_part (io_sc io)) = Some r"
  shows "e82545_transmit iommu stk tail tail dsize b io = Inr (0, tail, b, io)"
proof -
  have "tx_gather iommu cd m ring dsize tail (tx_pkt0 tail) = Some (Inr Tx_idle)" for cd m ring
    by (subst tx_gather.simps) (simp add: tx_pkt0_def)
  then show ?thesis using assms by (simp add: e82545_transmit_def Let_def)
qed

section \<open>The loop and the poll\<close>

lemma loop_stops:
  assumes "esc_txdesc (tx_part (io_sc io)) = Some r" "head = tail \<or> lim \<le> 0"
  shows "tx_loop iommu stk tail dsize head lim head b io = Inr (head, head, lim, b, io)"
  using transmit_idle [OF assms(1)] assms(2) by (subst tx_loop.simps) auto

lemma loop_goes_on:
  assumes "e82545_transmit iommu stk head tail dsize b io = Inr (k, head', b', io')" "esc_tx_enabled (tx_part (io_sc io))" "0 < k" "0 < lim"
  shows "tx_loop iommu stk tail dsize head lim rhead b io = tx_loop iommu stk tail dsize head' (lim - int k) head' b' io'"
  using assms by (subst tx_loop.simps) simp

text \<open>What was marked and what the header copies hold so far, from the memory the guest left.\<close>

lemma marked_agrees:
  assumes "agrees (header_copy stk) (marked ring dsize head0 j m) m'" "header_copy stk \<inter> {ring..<ring + 16 * dsize} = {}" "0 < dsize"
  shows "same_descs ring dsize m m'" "agrees (header_copy stk \<union> status_bytes ring dsize) m m'"
    "agrees (header_copy stk) (marked ring dsize head0 (j + k) m) (marked ring dsize ((head0 + j) mod dsize) k m')"
proof -
  note sd = agrees_descs [OF assms(1,2)]
  show "same_descs ring dsize m m'" using same_descs_trans [OF same_descs_marked sd] .
  show "agrees (header_copy stk \<union> status_bytes ring dsize) m m'"
    using assms(1) marked_status [OF assms(3), of ring m head0 j] by (simp add: agrees_def)
  show "agrees (header_copy stk) (marked ring dsize head0 (j + k) m) (marked ring dsize ((head0 + j) mod dsize) k m')"
    using agrees_marked [OF assms(1) sd assms(3), of "(head0 + j) mod dsize" k] marked_add [OF assms(3)] by simp
qed

lemma agrees_trans: "agrees S m m1 \<Longrightarrow> agrees S m1 m2 \<Longrightarrow> agrees S m m2"
  by (simp add: agrees_def)

text \<open>A descriptor that was not marked is as the guest left it.\<close>

lemma next_unmarked:
  assumes "agrees (header_copy stk) (marked ring dsize head0 j m) m'" "header_copy stk \<inter> {ring..<ring + 16 * dsize} = {}" "j < dsize"
  defines "d \<equiv> ring + 16 * ((head0 + j) mod dsize)"
  shows "region m' d 16 = region m d 16"
proof (rule region_cong)
  fix b assume b: "d \<le> b" "b < d + 16"
  have i: "(head0 + j) mod dsize < dsize" using assms(3) by simp
  have "\<not> asks_at ring dsize head0 j m b"
  proof
    assume "asks_at ring dsize head0 j m b"
    then obtain i where i: "i < j" "b = ring + 16 * ((head0 + i) mod dsize) + 12" by (auto simp: asks_at_def)
    have "(head0 + i) mod dsize = (head0 + j) mod dsize" using b i(2) unfolding d_def by linarith
    then show False using ring_apart [OF i(1) assms(3)] by simp
  qed
  moreover have "d + 16 \<le> ring + 16 * dsize" using i unfolding d_def by linarith
  then have "b \<in> {ring..<ring + 16 * dsize}" using b by (simp add: d_def)
  then have "b \<notin> header_copy stk" using assms(2) by blast
  ultimately show "m' b = m b" using assms(1) by (simp add: agrees_def marked_def)
qed

lemma room_left: "nat lim - k = nat (lim - int k)"
  by linarith

lemma loop_sends:
  assumes "sends iommu ctrl vet stk ring m dsize tail lim0 cd head n frames" "ring = unat r" "tail < dsize"
    "header_copy stk \<inter> {ring..<ring + 16 * dsize} = {}"
  shows "head = (head0 + j) mod dsize \<Longrightarrow> j + n < dsize \<Longrightarrow> lim0 = nat lim \<Longrightarrow> esc_txdesc (tx_part (io_sc io)) = Some r \<Longrightarrow>
    esc_tx_enabled (tx_part (io_sc io)) \<Longrightarrow> esc_CTRL (io_sc io) = ctrl \<Longrightarrow> esc_VET (io_sc io) = vet \<Longrightarrow>
    esc_txctx (tx_part (io_sc io)) = cd \<Longrightarrow> agrees (header_copy stk) (marked ring dsize head0 j m) (io_mem io) \<Longrightarrow>
    \<exists>io' cd'. tx_loop iommu stk tail dsize head lim head b io =
        Inr ((head + n) mod dsize, (head + n) mod dsize, lim - int n, b \<or> some_asks ring dsize head n m, io') \<and>
      io_sc io' = upd_tx (\<lambda>t. t\<lparr>esc_txctx := cd'\<rparr>) (io_sc io) \<and> io_sent io' = io_sent io @ frames \<and>
      agrees (header_copy stk) (marked ring dsize head0 (j + n) m) (io_mem io')"
  using assms(1)
proof (induction arbitrary: j lim b io rule: sends.induct)
  case (sends_end head lim0 cd)
  have "upd_tx (\<lambda>t. t\<lparr>esc_txctx := cd\<rparr>) (io_sc io) = io_sc io" using sends_end.prems(8) by (auto simp: upd_tx_def)
  then show ?case using sends_end.prems loop_stops [OF sends_end.prems(4), of head tail lim iommu stk dsize b] sends_end.hyps
    by (intro exI [of _ io] exI [of _ cd]) (simp add: some_asks_def)
next
  case (sends_context lim0 head n frames cd)
  have pos: "0 < dsize" "1 < dsize" using sends_context.prems(2) by simp_all
  note ag = marked_agrees [OF sends_context.prems(9) assms(4) pos(1)]
  have hd: "head < dsize" using sends_context.prems(1) pos by simp
  have ty: "e82545_txdesc_type (td_lower (io_mem io) (unat r + 16 * head)) = E1000_TXD_TYP_C"
    using same_descs_fields(1) [OF ag(1) hd] sends_context.hyps(3) assms(2) by simp
  have j: "j < dsize" using sends_context.prems(2) by simp
  have reg: "region (io_mem io) (ring + 16 * head) 16 = region m (ring + 16 * head) 16"
    using next_unmarked [OF sends_context.prems(9) assms(4) j] sends_context.prems(1) by simp
  define io1 where "io1 = io\<lparr>io_sc := upd_tx (\<lambda>t. t\<lparr>esc_txctx := region m (ring + 16 * head) 16\<rparr>) (io_sc io),
    io_mem := marked ring dsize head 1 (io_mem io)\<rparr>"
  have t: "e82545_transmit iommu stk head tail dsize b io = Inr (1, (head + 1) mod dsize, b \<or> some_asks ring dsize head 1 m, io1)"
    using transmit_context [OF sends_context.prems(4) hd sends_context.hyps(2) pos(2) ty, of iommu stk b]
      some_asks_same [OF ag(1) pos(1), of head 1] reg assms(2) by (simp add: io1_def)
  have io1: "esc_txdesc (tx_part (io_sc io1)) = Some r" "esc_tx_enabled (tx_part (io_sc io1))" "esc_CTRL (io_sc io1) = ctrl"
    "esc_VET (io_sc io1) = vet" "esc_txctx (tx_part (io_sc io1)) = region m (ring + 16 * head) 16" "io_sent io1 = io_sent io"
    using sends_context.prems by (simp_all add: io1_def upd_tx_def)
  have m1: "agrees (header_copy stk) (marked ring dsize head0 (j + 1) m) (io_mem io1)"
    using ag(3) [of 1] sends_context.prems(1) by (simp add: io1_def)
  have h1: "(head + 1) mod dsize = (head0 + (j + 1)) mod dsize" unfolding sends_context.prems(1) by (simp add: mod_Suc_eq)
  obtain io' cd' where io': "tx_loop iommu stk tail dsize ((head + 1) mod dsize) (lim - int 1) ((head + 1) mod dsize) (b \<or> some_asks ring dsize head 1 m) io1 =
      Inr (((head + 1) mod dsize + n) mod dsize, ((head + 1) mod dsize + n) mod dsize, lim - int 1 - int n, (b \<or> some_asks ring dsize head 1 m) \<or> some_asks ring dsize ((head + 1) mod dsize) n m, io')"
    "io_sc io' = upd_tx (\<lambda>t. t\<lparr>esc_txctx := cd'\<rparr>) (io_sc io1)" "io_sent io' = io_sent io1 @ frames"
    "agrees (header_copy stk) (marked ring dsize head0 (j + 1 + n) m) (io_mem io')"
    using sends_context.IH [OF h1 _ _ io1(1-5) m1, of "lim - int 1" "b \<or> some_asks ring dsize head 1 m"] sends_context.prems(2,3) by (auto simp: room_left)
  have "tx_loop iommu stk tail dsize head lim head b io = Inr ((head + (1 + n)) mod dsize, (head + (1 + n)) mod dsize, lim - int (1 + n), b \<or> some_asks ring dsize head (1 + n) m, io')"
    using loop_goes_on [OF t sends_context.prems(5)] sends_context.hyps(1) sends_context.prems(3) io'(1) some_asks_add [of ring dsize head 1 n m]
    by (simp add: algebra_simps disj_assoc mod_simps)
  moreover have "io_sc io' = upd_tx (\<lambda>t. t\<lparr>esc_txctx := cd'\<rparr>) (io_sc io)" using io'(2) by (simp add: io1_def upd_tx_def)
  ultimately show ?case using io'(3,4) io1(6) by (intro exI [of _ io'] exI [of _ cd']) (simp add: add.assoc)
next
  case (sends_packet lim0 cd head p n frames)
  let ?k = "tp_desc p + 1"
  have pos: "0 < dsize" "?k < dsize" using sends_packet.prems(2) by simp_all
  note ag = marked_agrees [OF sends_packet.prems(9) assms(4) pos(1)]
  have hd: "head < dsize" using sends_packet.prems(1) pos by simp
  obtain io1 where io1: "e82545_transmit iommu stk head tail dsize b io =
      Inr (?k, (tp_head p + 1) mod dsize, b \<or> some_asks ring dsize head ?k m, io1)"
    "(tp_head p + 1) mod dsize = (head + ?k) mod dsize" "io_sc io1 = io_sc io" "io_sent io1 = io_sent io @ [packet_frame ctrl vet ring m p]"
    "agrees (header_copy stk) (marked ring dsize head ?k (io_mem io)) (io_mem io1)"
    using transmit_packet [OF sends_packet.prems(4) hd assms(3) pos(2), of iommu m stk b] sends_packet.hyps(2,3) sends_packet.prems(6-8) ag(1,2) assms(2,4)
    by auto
  have m1: "agrees (header_copy stk) (marked ring dsize head0 (j + ?k) m) (io_mem io1)"
    using agrees_trans [OF ag(3) [of ?k] io1(5) [unfolded sends_packet.prems(1)]] .
  have h1: "(tp_head p + 1) mod dsize = (head0 + (j + ?k)) mod dsize" unfolding io1(2) sends_packet.prems(1) by (metis mod_add_left_eq add.assoc)
  have sc: "esc_txdesc (tx_part (io_sc io1)) = Some r" "esc_tx_enabled (tx_part (io_sc io1))" "esc_CTRL (io_sc io1) = ctrl"
    "esc_VET (io_sc io1) = vet" "esc_txctx (tx_part (io_sc io1)) = cd"
    using sends_packet.prems io1(3) by simp_all
  obtain io' cd' where io': "tx_loop iommu stk tail dsize ((tp_head p + 1) mod dsize) (lim - int ?k) ((tp_head p + 1) mod dsize) (b \<or> some_asks ring dsize head ?k m) io1 =
      Inr (((tp_head p + 1) mod dsize + n) mod dsize, ((tp_head p + 1) mod dsize + n) mod dsize, lim - int ?k - int n, (b \<or> some_asks ring dsize head ?k m) \<or> some_asks ring dsize ((tp_head p + 1) mod dsize) n m, io')"
    "io_sc io' = upd_tx (\<lambda>t. t\<lparr>esc_txctx := cd'\<rparr>) (io_sc io1)" "io_sent io' = io_sent io1 @ frames"
    "agrees (header_copy stk) (marked ring dsize head0 (j + ?k + n) m) (io_mem io')"
    using sends_packet.IH [OF h1 _ _ sc m1, of "lim - int ?k" "b \<or> some_asks ring dsize head ?k m"] sends_packet.prems(2,3) by (auto simp: room_left)
  have e: "((tp_head p + 1) mod dsize + n) mod dsize = (head + (?k + n)) mod dsize"
    unfolding io1(2) by (simp add: mod_add_left_eq add.assoc)
  have "tx_loop iommu stk tail dsize head lim head b io = Inr ((head + (?k + n)) mod dsize, (head + (?k + n)) mod dsize, lim - int (?k + n), b \<or> some_asks ring dsize head (?k + n) m, io')"
    using loop_goes_on [OF io1(1) sends_packet.prems(5)] sends_packet.hyps(1) sends_packet.prems(3) io'(1) some_asks_add [of ring dsize head ?k n m, folded io1(2)]
    unfolding e by (simp add: algebra_simps disj_assoc)
  then show ?case using io'(2-4) io1(3,4) by (intro exI [of _ io'] exI [of _ cd']) (simp add: add.assoc)
qed

lemma sends_not_empty: "sends iommu ctrl vet stk ring m dsize tail lim cd head n frames \<Longrightarrow> 0 < n \<Longrightarrow> head \<noteq> tail"
  by (cases rule: sends.cases)
    (auto simp: tx_gather.simps [of _ _ _ _ _ tail "tx_pkt0 tail"] tx_pkt0_def dest!: tx_gather.simps [THEN trans [OF sym]] split: if_splits)

text \<open>The causes of a run: a descriptor asked for its status, and the run emptied the ring.\<close>

definition run_causes :: "bool \<Rightarrow> bool \<Rightarrow> u32" where
  "run_causes rs done_all = (if rs then E1000_ICR_TXDW else 0) OR (if done_all then E1000_ICR_TXQE else 0)"

text \<open>
  The queue is set up: the ring at \<open>ring\<close> with \<open>dsize\<close> descriptors apart from the header copy, the two copies of the
  head equal, and head and tail in range.
\<close>

definition queue_ok :: "nat \<Rightarrow> u64 \<Rightarrow> nat \<Rightarrow> e1000_tx \<Rightarrow> bool" where
  "queue_ok stk r dsize t \<longleftrightarrow> esc_tx_enabled t \<and> esc_txdesc t = Some r \<and> dsize = unat (esc_TDLEN t) div 16 mod 2 ^ 16 \<and>
     esc_TDHr t = esc_TDH t \<and> unat (esc_TDH t) < dsize \<and> unat (esc_TDT t) < dsize \<and> header_copy stk \<inter> {unat r..<unat r + 16 * dsize} = {}"

lemma poll_sends:
  assumes "queue_ok stk r dsize (tx_part (io_sc io))" "intr_ready (intr_part (io_sc io))"
    "sends iommu (esc_CTRL (io_sc io)) (esc_VET (io_sc io)) stk (unat r) (io_mem io) dsize (unat (esc_TDT (tx_part (io_sc io))))
       (dsize div 4) (esc_txctx (tx_part (io_sc io))) (unat (esc_TDH (tx_part (io_sc io)))) n frames" "0 < n"
    "head' = (unat (esc_TDH (tx_part (io_sc io))) + n) mod dsize"
  shows "\<exists>io'. e82545_tx_poll iommu stk io = Inr io' \<and> io_sent io' = io_sent io @ frames \<and>
    agrees (header_copy stk) (marked (unat r) dsize (unat (esc_TDH (tx_part (io_sc io)))) n (io_mem io)) (io_mem io') \<and>
    tx_part (io_sc io') = (tx_part (io_sc io))\<lparr>esc_tx_active := True, esc_txctx := esc_txctx (tx_part (io_sc io')),
      esc_TDH := word_of_nat head', esc_TDHr := word_of_nat head'\<rparr> \<and> rx_part (io_sc io') = rx_part (io_sc io) \<and>
    queue_ok stk r dsize (tx_part (io_sc io')) \<and> intr_ready (intr_part (io_sc io')) \<and>
    esc_ICR (intr_part (io_sc io')) = esc_ICR (intr_part (io_sc io)) OR
      run_causes (some_asks (unat r) dsize (unat (esc_TDH (tx_part (io_sc io)))) n (io_mem io)) (head' = unat (esc_TDT (tx_part (io_sc io)))) \<and>
    esc_IMS (intr_part (io_sc io')) = esc_IMS (intr_part (io_sc io)) \<and>
    lintr_rest (esc_pi (intr_part (io_sc io'))) = lintr_rest (esc_pi (intr_part (io_sc io)))"
proof -
  let ?sc = "io_sc io" and ?m = "io_mem io"
  let ?t = "tx_part ?sc" and ?i = "intr_part ?sc"
  let ?head = "unat (esc_TDH ?t)" and ?tail = "unat (esc_TDT ?t)"
  let ?cause = "run_causes (some_asks (unat r) dsize ?head n ?m) (head' = ?tail)"
  note q = assms(1) [unfolded queue_ok_def]
  have free: "esc_mtx ?i = \<lparr>mtx_lock = 0\<rparr>" using assms(2) by (simp add: intr_ready_def free_mutex_def)
  define lk where "lk k sc = sc\<lparr>intr_part := (intr_part sc)\<lparr>esc_mtx := \<lparr>mtx_lock = k\<rparr>\<rparr>\<rparr>" for k and sc :: e82545_softc
  have lock: "io_lock x = Inr (x\<lparr>io_sc := lk 1 (io_sc x)\<rparr>)" if "esc_mtx (intr_part (io_sc x)) = \<lparr>mtx_lock = 0\<rparr>" for x
    using that by (simp add: io_lock_def on_intr_def esc_lock_def pthread_mutex_lock_def lk_def)
  have unlock: "io_unlock x = Inr (x\<lparr>io_sc := lk 0 (io_sc x)\<rparr>)" if "esc_mtx (intr_part (io_sc x)) = \<lparr>mtx_lock = 1\<rparr>" for x
    using that by (simp add: io_unlock_def on_intr_def esc_unlock_def pthread_mutex_unlock_def lk_def)
  define io1 where "io1 = io\<lparr>io_sc := upd_tx (\<lambda>t. t\<lparr>esc_tx_active := True\<rparr>) ?sc\<rparr>"
  have io1: "esc_txdesc (tx_part (io_sc io1)) = Some r" "esc_tx_enabled (tx_part (io_sc io1))" "esc_CTRL (io_sc io1) = esc_CTRL ?sc"
    "esc_VET (io_sc io1) = esc_VET ?sc" "esc_txctx (tx_part (io_sc io1)) = esc_txctx ?t" and sent1: "io_sent io1 = io_sent io"
    using q by (simp_all add: io1_def upd_tx_def)
  have init: "agrees (header_copy stk) (marked (unat r) dsize ?head 0 ?m) (io_mem io1)"
    by (simp add: io1_def agrees_def marked_def asks_at_def)
  have c: "?tail < dsize" "header_copy stk \<inter> {unat r..<unat r + 16 * dsize} = {}" "?head = (?head + 0) mod dsize" "0 + n < dsize"
    "dsize div 4 = nat (int (dsize div 4))"
  proof -
    show t: "?tail < dsize" "header_copy stk \<inter> {unat r..<unat r + 16 * dsize} = {}" using q by blast+
    have h: "?head < dsize" using q by blast
    then show "?head = (?head + 0) mod dsize" by simp
    define k where "k = (if ?head \<le> ?tail then ?tail - ?head else dsize - ?head + ?tail)"
    have "(?head + k) mod dsize = ?tail" "k < dsize" using h t(1) by (auto simp: k_def)
    then show "0 + n < dsize" using sends_within [OF assms(3) h] by fastforce
  qed simp
  from loop_sends [OF assms(3) refl c io1, of False] init
  obtain io2 cd' where io2: "tx_loop iommu stk ?tail dsize ?head (int (dsize div 4)) ?head False io1 =
      Inr (head', head', int (dsize div 4) - int n, some_asks (unat r) dsize ?head n ?m, io2)"
    "io_sc io2 = upd_tx (\<lambda>t. t\<lparr>esc_txctx := cd'\<rparr>) (io_sc io1)" "io_sent io2 = io_sent io @ frames"
    "agrees (header_copy stk) (marked (unat r) dsize ?head n ?m) (io_mem io2)"
    by (auto simp: sent1 assms(5))
  define sc3 where "sc3 = upd_tx (\<lambda>t. t\<lparr>esc_TDH := word_of_nat head', esc_TDHr := word_of_nat head'\<rparr>) (lk 1 (io_sc io2))"
  have i3: "intr_part sc3 = ?i\<lparr>esc_mtx := \<lparr>mtx_lock = 1\<rparr>\<rparr>" by (simp add: sc3_def lk_def io2(2) io1_def upd_tx_def)
  have inv3: "intr_inv (intr_part sc3)" using assms(2) unfolding i3 by (simp add: intr_ready_def)
  obtain i4 where i4: "(if ?cause \<noteq> 0 then on_intr (e82545_icr_assert ?cause) sc3 else Inr sc3) = Inr (sc3\<lparr>intr_part := i4\<rparr>)"
    "intr_kept (intr_part sc3) i4" "esc_ICR i4 = esc_ICR ?i OR ?cause" "esc_IMS i4 = esc_IMS ?i"
  proof (cases "?cause = 0")
    case True
    have "intr_kept (intr_part sc3) (intr_part sc3)" using inv3 by (simp add: intr_kept_def)
    then show ?thesis using True that [of "intr_part sc3"] i3 by simp
  next
    case False
    obtain i4 where "e82545_icr_assert ?cause (intr_part sc3) = Inr i4" "intr_kept (intr_part sc3) i4"
      "esc_ICR i4 = esc_ICR (intr_part sc3) OR ?cause" "esc_IMS i4 = esc_IMS (intr_part sc3)"
      using icr_assert_ok [OF inv3] by blast
    then show ?thesis using False that [of i4] i3 by (simp add: on_intr_def)
  qed
  have ne: "esc_TDHr ?t \<noteq> esc_TDT ?t" using sends_not_empty [OF assms(3,4)] q by auto
  have sz: "unat (esc_TDLEN ?t) div 16 mod 2 ^ 16 = dsize" using q by simp
  have x: "io_lock io = Inr (io\<lparr>io_sc := lk 1 ?sc\<rparr>)" by (rule lock) (rule free)
  define iox where "iox = io\<lparr>io_sc := upd_tx (\<lambda>t. t\<lparr>esc_tx_active := True\<rparr>) (lk 1 ?sc)\<rparr>"
  have a: "io_unlock iox = Inr io1"
  proof -
    have "io_unlock iox = Inr (iox\<lparr>io_sc := lk 0 (io_sc iox)\<rparr>)" by (rule unlock) (simp add: iox_def upd_tx_def lk_def)
    moreover have "lk 0 (io_sc iox) = io_sc io1" using free by (auto simp: iox_def io1_def upd_tx_def lk_def)
    ultimately show ?thesis by (simp add: iox_def io1_def)
  qed
  have b: "io_lock io2 = Inr (io2\<lparr>io_sc := lk 1 (io_sc io2)\<rparr>)" by (rule lock) (simp add: io2(2) io1_def upd_tx_def free)
  have hd: "head' < dsize" unfolding assms(5) using c(1) by (intro mod_less_divisor) simp
  moreover have "dsize < 2 ^ 16" using q mod_less_divisor [of "2 ^ 16" "unat (esc_TDLEN ?t) div 16"] by (metis zero_less_numeral zero_less_power)
  ultimately have uh: "unat (word_of_nat head' :: u16) = head'" by (simp add: unat_of_nat take_bit_nat_eq_self)
  have e: "tx_run_end head' head' (some_asks (unat r) dsize ?head n ?m) True (io2\<lparr>io_sc := lk 1 (io_sc io2)\<rparr>) =
      Inr (io2\<lparr>io_sc := sc3\<lparr>intr_part := i4\<rparr>\<rparr>)"
  proof -
    have "esc_TDT (tx_part sc3) = esc_TDT ?t" by (simp add: sc3_def io2(2) io1_def upd_tx_def lk_def)
    then have "esc_TDH (tx_part sc3) = esc_TDT (tx_part sc3) \<longleftrightarrow> head' = ?tail"
      using uh by (simp add: sc3_def upd_tx_def) (metis unsigned_word_eqI)
    then have "run_causes (some_asks (unat r) dsize ?head n ?m) (esc_TDH (tx_part sc3) = esc_TDT (tx_part sc3)) = ?cause" by simp
    then have "tx_run_end head' head' (some_asks (unat r) dsize ?head n ?m) True (io2\<lparr>io_sc := lk 1 (io_sc io2)\<rparr>) =
        bindE (if ?cause \<noteq> 0 then on_intr (e82545_icr_assert ?cause) sc3 else Inr sc3) (\<lambda>sc. Inr (io2\<lparr>io_sc := sc\<rparr>))"
      by (simp add: tx_run_end_def Let_def sc3_def [symmetric] run_causes_def [symmetric] cong: if_cong split del: if_split)
    then show ?thesis unfolding i4(1) by simp
  qed
  have ioxs: "tx_part (io_sc iox) = ?t\<lparr>esc_tx_active := True\<rparr>" by (simp add: iox_def upd_tx_def lk_def)
  have lim: "int (dsize div 4) - int n \<noteq> int (dsize div 4)" using assms(4) by simp
  have run: "e82545_tx_run iommu stk iox = Inr (io2\<lparr>io_sc := sc3\<lparr>intr_part := i4\<rparr>\<rparr>)"
    using a io2(1) b e lim by (simp add: e82545_tx_run_def ioxs sz [simplified] Let_def)
  define io5 where "io5 = io2\<lparr>io_sc := lk 0 (sc3\<lparr>intr_part := i4\<rparr>)\<rparr>"
  have u: "io_unlock (io2\<lparr>io_sc := sc3\<lparr>intr_part := i4\<rparr>\<rparr>) = Inr io5"
    using unlock [of "io2\<lparr>io_sc := sc3\<lparr>intr_part := i4\<rparr>\<rparr>"] i4(2) unfolding i3 by (simp add: intr_kept_def io5_def)
  have poll: "e82545_tx_poll iommu stk io = Inr io5"
    using x run u ne q by (simp add: e82545_tx_poll_def iox_def lk_def)
  have s5: "tx_part (io_sc io5) = ?t\<lparr>esc_tx_active := True, esc_txctx := cd', esc_TDH := word_of_nat head', esc_TDHr := word_of_nat head'\<rparr>"
    "rx_part (io_sc io5) = rx_part ?sc" "intr_part (io_sc io5) = i4\<lparr>esc_mtx := \<lparr>mtx_lock = 0\<rparr>\<rparr>" "io_sent io5 = io_sent io2" "io_mem io5 = io_mem io2"
    by (simp_all add: io5_def sc3_def lk_def io2(2) io1_def upd_tx_def)
  have "intr_ready (intr_part (io_sc io5))" using i4(2) by (simp add: s5 intr_ready_def intr_kept_def free_mutex_def)
  moreover have "queue_ok stk r dsize (tx_part (io_sc io5))" using q hd uh by (simp add: s5 queue_ok_def sz [simplified])
  ultimately show ?thesis
    using poll io2(3,4) i4(2-4) i3 by (intro exI [of _ io5]) (simp add: s5 intr_kept_def)
qed

section \<open>A reception with nothing to receive\<close>

definition rx_silent :: "'f fifo_rx \<Rightarrow> 'f \<Rightarrow> e1000_rx \<Rightarrow> bool" where
  "rx_silent fifo f r \<longleftrightarrow> \<not> esc_rx_enabled r \<or> esc_rx_loopback r \<or>
     (unat (esc_RDLEN r) div 16 \<noteq> 0 \<and> esc_rxdesc r \<noteq> None \<and> (\<forall>vec m. \<exists>l f'. fifo f vec m = (l, f', m) \<and> l \<le> 0))"

lemma rx_loop_silent:
  assumes "\<forall>vec m. \<exists>l f'. fifo (rx_fifo io) vec m = (l, f', m) \<and> l \<le> 0"
  shows "\<exists>f'. rx_loop fifo iommu ring n lim left head cause io = Some (head, cause, io\<lparr>rx_fifo := f'\<rparr>)"
proof (cases "0 < lim \<and> int (max_pkt_desc (esc_RCTL (rx_part (rx_sc io)))) \<le> left")
  case False
  have "rx_loop fifo iommu ring n lim left head cause io = Some (head, cause, io)"
    unfolding rx_loop.simps [of fifo iommu ring n lim left head cause io] Let_def if_not_P [OF False] ..
  moreover have "io\<lparr>rx_fifo := rx_fifo io\<rparr> = io" by simp
  ultimately show ?thesis by metis
next
  case True
  define v where "v = rx_vec iommu (rx_mem io) ring n head (e82545_bufsz (esc_RCTL (rx_part (rx_sc io))))
    (max_pkt_desc (esc_RCTL (rx_part (rx_sc io))))"
  obtain l f' where "fifo (rx_fifo io) v (rx_mem io) = (l, f', rx_mem io)" "l \<le> 0" using assms by blast
  then show ?thesis using True by (intro exI [of _ f'], subst rx_loop.simps) (simp add: Let_def v_def [symmetric])
qed

lemma tap_silent:
  assumes "intr_ready (intr_part (rx_sc io))" "rx_silent fifo (rx_fifo io) (rx_part (rx_sc io))"
  shows "\<exists>io' extra. e82545_tap_callback fifo iommu io = Inr io' \<and> rx_kept io io' \<and> rx_mem io' = rx_mem io \<and> intr_ready (intr_part (rx_sc io')) \<and>
    esc_ICR (intr_part (rx_sc io')) = esc_ICR (intr_part (rx_sc io)) OR extra"
proof -
  have inv: "intr_inv (intr_part (rx_sc io))" "free_mutex (esc_mtx (intr_part (rx_sc io)))"
    using assms(1) by (simp_all add: intr_ready_def)
  obtain x1 where x1: "on_sc (on_intr esc_lock) io = Inr (with_mtx x1 io)" "held_mutex x1" using rx_lock_ok [OF inv(2)] by blast
  have unlock: "\<exists>y. on_sc (on_intr esc_unlock) a = Inr (with_mtx y a) \<and> free_mutex y" if "held_mutex (esc_mtx (intr_part (rx_sc a)))" for a :: "'a rx_io"
    using rx_unlock_ok that by blast
  let ?r = "rx_part (rx_sc io)"
  let ?n = "unat (esc_RDLEN ?r) div 16" and ?head = "unat (esc_RDH ?r)"
  let ?left = "rx_left ?n (unat (esc_RDT ?r)) ?head"
  show ?thesis
  proof (cases "\<not> esc_rx_enabled ?r \<or> esc_rx_loopback ?r \<or> ?n \<noteq> 0 \<and> ?left < int (max_pkt_desc (esc_RCTL ?r))")
    case True
    obtain y where y: "on_sc (on_intr esc_unlock) (with_mtx x1 io) = Inr (with_mtx y (with_mtx x1 io))" "free_mutex y"
      using unlock [of "with_mtx x1 io"] x1(2) by auto
    then have "e82545_tap_callback fifo iommu io = Inr (with_mtx y (with_mtx x1 io))"
      using True x1(1) by (auto simp: e82545_tap_callback_def Let_def)
    moreover have "rx_kept io (with_mtx y (with_mtx x1 io))" using rx_kept_trans rx_kept_simps(1) by blast
    ultimately show ?thesis using y(2) inv(1)
      by (intro exI [of _ "with_mtx y (with_mtx x1 io)"] exI [of _ "0 :: u32"]) (simp add: intr_ready_def)
  next
    case False
    then obtain rxdesc where e: "esc_rx_enabled ?r" "\<not> esc_rx_loopback ?r" "?n \<noteq> 0" "esc_rxdesc ?r = Some rxdesc"
      "\<forall>vec m. \<exists>l f'. fifo (rx_fifo io) vec m = (l, f', m) \<and> l \<le> 0" "\<not> ?left < int (max_pkt_desc (esc_RCTL ?r))"
      using assms(2) unfolding rx_silent_def by blast
    define a where "a = upd_sc (\<lambda>r. r\<lparr>esc_rx_active := True\<rparr>) (with_mtx x1 io)"
    obtain x2 where x2: "on_sc (on_intr esc_unlock) a = Inr (with_mtx x2 a)" "free_mutex x2"
      using unlock [of a] x1(2) by (auto simp: a_def)
    define b where "b = with_mtx x2 a"
    have bf: "rx_fifo b = rx_fifo io" by (simp add: b_def a_def)
    obtain f' where loop: "?n div 4 = 0 \<longrightarrow> b\<lparr>rx_fifo := f'\<rparr> = b"
      "rx_loop fifo iommu (unat rxdesc) ?n (int (?n div 4)) ?left ?head 0 b = Some (?head, 0, b\<lparr>rx_fifo := f'\<rparr>) \<or> ?n div 4 = 0"
    proof (cases "?n div 4 = 0")
      case True
      then show ?thesis using that [of "rx_fifo b"] by simp
    next
      case False
      then show ?thesis using that rx_loop_silent [of fifo b iommu "unat rxdesc" ?n "int (?n div 4)" ?left ?head 0] e(5) bf by auto
    qed
    define c where "c = b\<lparr>rx_fifo := f'\<rparr>"
    note loop' = loop [folded c_def]
    obtain x3 where x3: "on_sc (on_intr esc_lock) c = Inr (with_mtx x3 c)" "held_mutex x3"
      using rx_lock_ok [of c] x2(2) by (auto simp: c_def b_def)
    have "intr_inv (intr_part (rx_sc (with_mtx x3 c)))" using inv(1) by (simp add: c_def b_def a_def)
    from rx_finish_ok [OF this, of ?n ?head 0] obtain d extra where d: "rx_finish ?n ?head 0 (with_mtx x3 c) = Inr d"
      "rx_kept (with_mtx x3 c) d" "intr_inv (intr_part (rx_sc d))" "esc_mtx (intr_part (rx_sc d)) = x3"
      "esc_ICR (intr_part (rx_sc d)) = esc_ICR (intr_part (rx_sc io)) OR extra" "rx_mem d = rx_mem io"
      by (auto simp: c_def b_def a_def)
    obtain x4 where x4: "on_sc (on_intr esc_unlock) d = Inr (with_mtx x4 d)" "free_mutex x4" using unlock [of d] d(4) x3(2) by auto
    have x2b: "on_sc (on_intr esc_unlock) (upd_sc (\<lambda>r. r\<lparr>esc_rx_active := True\<rparr>) (with_mtx x1 io)) = Inr b"
      using x2(1) by (simp add: a_def b_def)
    have "e82545_tap_callback fifo iommu io = Inr (with_mtx x4 d)"
    proof (cases "?n div 4 = 0")
      case True
      then have "b = c" using loop'(1) by simp
      then show ?thesis using True x1(1) x2b x3(1) x4(1) d(1) e(1-4,6) by (simp add: e82545_tap_callback_def Let_def)
    next
      case False
      then show ?thesis using loop'(2) x1(1) x2b x3(1) x4(1) d(1) e(1-4,6) by (simp add: e82545_tap_callback_def Let_def)
    qed
    moreover have "rx_kept io (with_mtx x4 d)"
    proof -
      have "rx_kept io a" unfolding a_def by (rule rx_kept_trans [OF rx_kept_simps(1,2)])
      also have "rx_kept a b" by (simp add: b_def)
      also have "rx_kept b c" by (simp add: c_def)
      also have "rx_kept c (with_mtx x3 c)" by simp
      also note d(2)
      also have "rx_kept d (with_mtx x4 d)" by simp
      finally show ?thesis .
    qed
    ultimately show ?thesis using d(3,5,6) x4(2) by (intro exI [of _ "with_mtx x4 d"] exI [of _ extra]) (simp add: intr_ready_def)
  qed
qed

end
