(* ===== verification/Guest_Net.thy ===== *)
theory Guest_Net
  imports Guest_Disk E1000_Send
begin

text \<open>
  The network as the guest sees it. Sending: one turn of the main loop takes the write of the tail register from the
  exception window to the card, and its poll sends the packets of the ring from the head on, within its budget of a quarter of the ring. Receiving: the poll of
  a turn without a request brings a packet of the FIFO to the buffers of the ring.
\<close>

section \<open>The tail register\<close>

lemma tail_write:
  assumes "free_mutex (esc_mtx (intr_part sc))"
  shows "e82545_write iommu 0 0x3818 4 val sc = Inr (upd_tx (\<lambda>t. t\<lparr>esc_TDT := ucast (ucast val :: u32)\<rparr>) sc)"
proof -
  have free: "esc_mtx (intr_part sc) = \<lparr>mtx_lock = 0\<rparr>" using assms by (simp add: free_mutex_def)
  define sc1 where "sc1 = sc\<lparr>intr_part := (intr_part sc)\<lparr>esc_mtx := \<lparr>mtx_lock = 1\<rparr>\<rparr>\<rparr>"
  have l: "on_intr esc_lock sc = Inr sc1"
    using free by (simp add: on_intr_def esc_lock_def pthread_mutex_lock_def sc1_def)
  have w: "e82545_write_register iommu 0x3818 v sc1 = Inr (upd_tx (\<lambda>t. t\<lparr>esc_TDT := ucast v\<rparr>) sc1)" for v
    by (simp add: register_switch)
  have "on_intr esc_unlock (upd_tx g sc1) = Inr (upd_tx g sc)" for g
    using free by (auto simp: on_intr_def esc_unlock_def pthread_mutex_unlock_def sc1_def upd_tx_def)
  then show ?thesis by (simp add: e82545_write_def l w)
qed

section \<open>A disk with nothing to do\<close>

definition disk_idle :: "('f, 'a) ahci_world_scheme \<Rightarrow> bool" where
  "disk_idle w \<longleftrightarrow> w_blockif w = None \<or>
     (\<exists>n sc bc. w_blockif w = Some (Some n) \<and> w_ahci w = Some sc \<and> get_devi w (pi_bdf (asc_pi sc)) \<noteq> None \<and>
        bctx (port sc n) = Some bc \<and> free_mutex (bc_mtx bc) \<and> bc_pendq bc = [])"

lemma put_devi_ram [simp]: "w_ram (put_devi b pi w) = w_ram w" "w_sent (put_devi b pi w) = w_sent w"
  by (cases b; simp add: put_devi_def map_slot_def)+

lemma thr_idle:
  assumes "disk_idle w"
  shows "\<exists>w'. ahci_blockif_thr iommu junk w = Inr w' \<and> w_e1000 w' = w_e1000 w \<and> w_ram w' = w_ram w \<and> w_sent w' = w_sent w \<and> w_pic w' = w_pic w"
proof (cases "w_blockif w")
  case None
  then show ?thesis by (simp add: ahci_blockif_thr_def)
next
  case (Some x)
  then obtain n sc bc pi where d: "w_blockif w = Some (Some n)" "w_ahci w = Some sc" "get_devi w (pi_bdf (asc_pi sc)) = Some pi"
    "bctx (port sc n) = Some bc" "free_mutex (bc_mtx bc)" "bc_pendq bc = []"
    using assms by (auto simp: disk_idle_def)
  obtain m where m: "lock_bc bc = Inr (bc\<lparr>bc_mtx := m\<rparr>)" "held_mutex m" using lock_bc_free [OF d(5)] by blast
  let ?w = "(ahci_blk_at n bc (at_hba pi w sc))\<lparr>blk_bc := bc\<lparr>bc_mtx := m\<rparr>\<rparr>"
  have "blockif_dequeue (bc\<lparr>bc_mtx := m\<rparr>) 0 = Inr (None, bc\<lparr>bc_mtx := m\<rparr>)" using d(6) by (simp add: blockif_dequeue_def)
  then have "blockif_loop (ahci_callback iommu junk n) ?w = Some (Inr ?w)" by (subst blockif_loop.simps) simp
  moreover obtain m' where "unlock_bc (bc\<lparr>bc_mtx := m\<rparr>) = Inr (bc\<lparr>bc_mtx := m'\<rparr>)"
    using unlock_bc_held [of "bc\<lparr>bc_mtx := m\<rparr>"] m(2) by auto
  ultimately have "blockif_thr True (ahci_callback iommu junk n) (ahci_blk_at n bc (at_hba pi w sc)) =
      Inr ((ahci_blk_at n bc (at_hba pi w sc))\<lparr>blk_bc := bc\<lparr>bc_mtx := m'\<rparr>\<rparr>)"
    using m(1) by (simp add: blockif_thr_def ahci_blk_at_def)
  then show ?thesis using d(1-4)
    by (simp add: ahci_blockif_thr_def ahci_blk_at_def Let_def case_prod_beta hba_leave_def of_blk_def at_hba_def upd_port_def upd_hba_def)
qed

lemma idle_put:
  fixes w :: "('f, 'a) ahci_world_scheme"
  assumes "disk_idle w" "pci_businfo w' = pci_businfo w" "w_blockif w' = w_blockif w" "w_ahci w' = w_ahci w"
  shows "disk_idle (put_devi b (Some pi) w')"
proof -
  have k: "w_blockif (put_devi b (Some pi) w') = w_blockif w" "w_ahci (put_devi b (Some pi) w') = w_ahci w"
    using assms(3,4) by (cases b; simp add: put_devi_def map_slot_def)+
  show ?thesis using assms(1) still_there [OF assms(2)] unfolding disk_idle_def k by blast
qed

section \<open>The poll of the card in the machine\<close>

lemma card_poll:
  fixes w :: "('f, 'a) ahci_world_scheme"
  assumes "w_e1000 w = Some sc" "get_devi w (pi_bdf (esc_pi (intr_part sc))) = Some pi" "at_devi pi (w_pic w) sc = sc"
    "queue_ok stk r dsize (tx_part sc)" "intr_ready (intr_part sc)" "rx_silent fifo (w_fifo w) (rx_part sc)"
    "sends iommu (esc_CTRL sc) (esc_VET sc) stk (unat r) (w_ram w) dsize (unat (esc_TDT (tx_part sc)))
       (dsize div 4) (esc_txctx (tx_part sc)) (unat (esc_TDH (tx_part sc))) n frames" "0 < n" "head' = (unat (esc_TDH (tx_part sc)) + n) mod dsize"
  shows "\<exists>w' sc' extra pi'. e1000_poll fifo iommu stk w = Inr (put_devi (pi_bdf (esc_pi (intr_part sc))) (Some pi') w') \<and>
    pci_businfo w' = pci_businfo w \<and> w_blockif w' = w_blockif w \<and> w_ahci w' = w_ahci w \<and> w_e1000 w' = Some sc' \<and>
    w_sent w' = w_sent w @ frames \<and> esc_TDH (tx_part sc') = word_of_nat head' \<and>
    queue_ok stk r dsize (tx_part sc') \<and> esc_TDT (tx_part sc') = esc_TDT (tx_part sc) \<and> w_pic w' = esc_pic (intr_part sc') \<and>
    agrees (header_copy stk) (marked (unat r) dsize (unat (esc_TDH (tx_part sc))) n (w_ram w)) (w_ram w') \<and>
    intr_ready (intr_part sc') \<and> esc_IMS (intr_part sc') = esc_IMS (intr_part sc) \<and>
    lintr_rest (esc_pi (intr_part sc')) = lintr_rest (esc_pi (intr_part sc)) \<and>
    esc_ICR (intr_part sc') = esc_ICR (intr_part sc) OR
      run_causes (some_asks (unat r) dsize (unat (esc_TDH (tx_part sc))) n (w_ram w)) (head' = unat (esc_TDT (tx_part sc))) OR extra"
proof -
  define io where "io = \<lparr>io_sc = sc, io_mem = w_ram w, io_sent = w_sent w\<rparr>"
  have io: "io_sc io = sc" "io_mem io = w_ram w" "io_sent io = w_sent w" by (simp_all add: io_def)
  obtain io' where t: "e82545_tx_poll iommu stk io = Inr io'" "io_sent io' = w_sent w @ frames"
    "agrees (header_copy stk) (marked (unat r) dsize (unat (esc_TDH (tx_part sc))) n (w_ram w)) (io_mem io')"
    "esc_TDH (tx_part (io_sc io')) = word_of_nat head'" "queue_ok stk r dsize (tx_part (io_sc io'))" "esc_TDT (tx_part (io_sc io')) = esc_TDT (tx_part sc)" "rx_part (io_sc io') = rx_part sc" "intr_ready (intr_part (io_sc io'))"
    "esc_ICR (intr_part (io_sc io')) = esc_ICR (intr_part sc) OR
      run_causes (some_asks (unat r) dsize (unat (esc_TDH (tx_part sc))) n (w_ram w)) (head' = unat (esc_TDT (tx_part sc)))"
    "esc_IMS (intr_part (io_sc io')) = esc_IMS (intr_part sc)" "lintr_rest (esc_pi (intr_part (io_sc io'))) = lintr_rest (esc_pi (intr_part sc))"
  proof -
    obtain io' where "e82545_tx_poll iommu stk io = Inr io'" "io_sent io' = w_sent w @ frames"
      "agrees (header_copy stk) (marked (unat r) dsize (unat (esc_TDH (tx_part sc))) n (w_ram w)) (io_mem io')"
      "tx_part (io_sc io') = (tx_part sc)\<lparr>esc_tx_active := True, esc_txctx := esc_txctx (tx_part (io_sc io')),
        esc_TDH := word_of_nat head', esc_TDHr := word_of_nat head'\<rparr>" "rx_part (io_sc io') = rx_part sc"
      "queue_ok stk r dsize (tx_part (io_sc io'))" "intr_ready (intr_part (io_sc io'))"
      "esc_ICR (intr_part (io_sc io')) = esc_ICR (intr_part sc) OR
        run_causes (some_asks (unat r) dsize (unat (esc_TDH (tx_part sc))) n (w_ram w)) (head' = unat (esc_TDT (tx_part sc)))"
      "esc_IMS (intr_part (io_sc io')) = esc_IMS (intr_part sc)" "lintr_rest (esc_pi (intr_part (io_sc io'))) = lintr_rest (esc_pi (intr_part sc))"
      using poll_sends [of stk r dsize io iommu n frames head'] assms(4,5,7-9) unfolding io by blast
    moreover have "esc_TDH (tx_part (io_sc io')) = word_of_nat head'" "esc_TDT (tx_part (io_sc io')) = esc_TDT (tx_part sc)"
      by (subst calculation(4), simp)+
    ultimately show ?thesis using that by blast
  qed
  define rx where "rx = \<lparr>rx_sc = io_sc io', rx_mem = io_mem io', rx_fifo = w_fifo w\<rparr>"
  have rx: "rx_sc rx = io_sc io'" "rx_mem rx = io_mem io'" "rx_fifo rx = w_fifo w" by (simp_all add: rx_def)
  obtain rx' extra where p: "e82545_tap_callback fifo iommu rx = Inr rx'" "rx_kept rx rx'" "intr_ready (intr_part (rx_sc rx'))"
    "esc_ICR (intr_part (rx_sc rx')) = esc_ICR (intr_part (io_sc io')) OR extra" "rx_mem rx' = io_mem io'"
    using tap_silent [of rx fifo iommu] t(7,8) assms(6) unfolding rx by auto
  note k = p(2) [unfolded rx_kept_def rx]
  let ?sc = "rx_sc rx'"
  let ?w = "w\<lparr>w_sent := io_sent io', w_ram := rx_mem rx', w_fifo := rx_fifo rx', w_pic := esc_pic (intr_part ?sc), w_e1000 := Some ?sc\<rparr>"
  have "e1000_poll fifo iommu stk w = Inr (put_devi (pi_bdf (esc_pi (intr_part sc))) (Some (esc_pi (intr_part ?sc))) ?w)"
    using assms(1-3) t(1) p(1)
    by (simp add: e1000_poll_def poll_tx_def e82545_rx_poll_def io_def [symmetric] rx_def [symmetric] e1000_leave_def Let_def)
  moreover have "agrees (header_copy stk) (marked (unat r) dsize (unat (esc_TDH (tx_part sc))) n (w_ram w)) (rx_mem rx')"
    using t(3) p(5) by simp
  ultimately show ?thesis using t p(3,4) k
    by (intro exI [of _ ?w] exI [of _ ?sc] exI [of _ extra] exI [of _ "esc_pi (intr_part ?sc)"]) (simp add: or.assoc)
qed

section \<open>A turn of the main loop\<close>

text \<open>
  The machine: the card decoded inside the PCI window, with its interrupt invariant and nothing to receive, and the disk idle.
\<close>

definition net_machine :: "('f, 'h) dm_config \<Rightarrow> bdf \<Rightarrow> pci_devinst \<Rightarrow> e82545_softc \<Rightarrow> ('f, 'h) dm_world \<Rightarrow> bool" where
  "net_machine cfg b pi sc w \<longleftrightarrow> CONFIG_EMUL_PCI cfg \<and> card_at (dm_devs cfg) (CONFIG_IOMMU cfg) b pi sc w \<and>
     0xfdb10000 \<le> unat (bar_addr (pi_bar pi 0)) \<and> unat (bar_addr (pi_bar pi 0)) + 0x20000 \<le> 0xfdb60000 \<and>
     intr_ready ((intr_part sc)\<lparr>esc_pi := pi, esc_pic := w_pic w\<rparr>) \<and>
     rx_silent (fifo_process_rx (dm_fifo cfg)) (w_fifo w) (rx_part sc) \<and> disk_idle w"

text \<open>The request that writes the tail of the transmit ring.\<close>

definition writes_tail :: "u16 \<Rightarrow> pci_devinst \<Rightarrow> epw_request \<Rightarrow> bool" where
  "writes_tail tail pi req \<longleftrightarrow> rq_addr req = bar_addr (pi_bar pi 0) + 0x3818 \<and> rq_is_write req \<and>
     rq_data_len req = 4 \<and> rq_flit_size req = 4 \<and> ucast (le32 (rq_data req) 0) = tail"

lemma tail_request:
  fixes w :: "('f, 'h) dm_world"
  assumes "net_machine cfg b pi sc w" "writes_tail tail pi req"
  defines "sc1 \<equiv> upd_tx (\<lambda>t. t\<lparr>esc_TDT := tail\<rparr>) (at_devi pi (w_pic w) sc)"
  shows "dm_request cfg (req, w) = Inr (0, req, with_card pi sc1 w)"
proof -
  note d = assms(1) [unfolded net_machine_def]
  have c: "card_at (dm_devs cfg) (CONFIG_IOMMU cfg) b pi sc w" using d by blast
  have free: "free_mutex (esc_mtx (intr_part (at_devi pi (w_pic w) sc)))" and g: "get_devi w b = Some pi" using c by (simp_all add: card_at_def)
  have off: "unat (0x3818 :: u64) + 4 \<le> 0x20000" by simp
  let ?v = "ucast (le32 (rq_data req) 0) :: u64"
  have u: "ucast (ucast (ucast (x :: u32) :: u64) :: u32) = (ucast x :: u16)" for x by (rule bit_word_eqI) (simp add: bit_simps)
  have w: "e82545_write (CONFIG_IOMMU cfg) 0 0x3818 4 ?v (at_devi pi (w_pic w) sc) = Inr sc1"
    using tail_write [OF free] assms(2) u by (simp add: sc1_def writes_tail_def)
  have s: "esc_pi (intr_part sc1) = pi" "esc_pic (intr_part sc1) = w_pic w" by (simp_all add: sc1_def upd_tx_def)
  have b: "bus_access (dm_devs cfg) (rq_addr req) True 4 ?v w = Inr (0, ?v, with_card pi sc1 w)"
    using bus_access_card [OF c off, of True ?v] w leave_with [OF g s] assms(2) by (simp add: writes_tail_def)
  have a: "unat (rq_addr req) = unat (bar_addr (pi_bar pi 0)) + 0x3818"
    using d assms(2) by (simp add: writes_tail_def) (subst unat_add_64, simp_all)
  have "0xfdb10000 \<le> unat (rq_addr req)" "unat (rq_addr req) < 0xfdb60000" using a d by simp_all
  then show ?thesis using pci_dispatch [of req cfg w] pci_write32 [OF _ _ _ b] assms(2) by (simp add: writes_tail_def)
qed

text \<open>The interrupt line after a poll that left the causes pending.\<close>

lemma line_after:
  assumes "intr_ready i" "lintr_rest (esc_pi i) = lintr_rest pi" "lintr_allowed pi" "pi_irq pi \<noteq> 0"
    "esc_ICR i AND causes = causes" "esc_IMS i AND causes \<noteq> 0"
  shows "line_level (pi_irq pi) (esc_pic i) False \<or> esc_mevpitr i"
proof -
  have irq: "pi_irq (esc_pi i) = pi_irq pi" "lintr_allowed (esc_pi i) = lintr_allowed pi"
    using pi_irq_rest [OF assms(2)] allowed_rest [OF assms(2)] by auto
  have "esc_IMS i AND causes = (esc_ICR i AND esc_IMS i) AND causes" using assms(5) by (metis and.assoc and.commute)
  then have "esc_ICR i AND esc_IMS i \<noteq> 0" using assms(6) by auto
  then show ?thesis using assms(1,3,4) ready_line [OF assms(1)] irq
    by (auto simp: intr_ready_def intr_inv_def intr_live_def card_line_def)
qed

section \<open>Properties\<close>

text \<open>C2: A guest sends packets: when the driver has put packets without segmentation, each possibly preceded by a context, into
  the transmit ring and writes the index after the last to the tail register through the exception window, the turn of the main loop that
  serves this request takes packets in order while it has used fewer descriptors than a quarter of the ring has, and
  hands the network the frame of each, the bytes of the
  fragments with the VLAN tag and the checksums the descriptors ask for. It moves the head past them, to the tail unless the quarter
  was used up, leaves the queue ready for the next turn, marks as done
  exactly the descriptors that asked for it, changes nothing else in memory but the header copy, and sets the
  causes of the transmission, that of the empty queue only if the tail was reached; the interrupt line is then up if one of them is not masked, unless the function may not
  interrupt or the throttling timer runs.\<close>

theorem guest_transmits:
  fixes w :: "('f, 'h) dm_world"
  assumes "net_machine cfg b pi sc w" "writes_tail tail pi req"
    "queue_ok (dm_stk cfg) r dsize ((tx_part sc)\<lparr>esc_TDT := tail\<rparr>)" "head = unat (esc_TDH (tx_part sc))"
    "sends (CONFIG_IOMMU cfg) (esc_CTRL sc) (esc_VET sc) (dm_stk cfg) (unat r) (w_ram w) dsize (unat tail)
       (dsize div 4) (esc_txctx (tx_part sc)) head n frames" "0 < n" "head' = (head + n) mod dsize"
    "causes = run_causes (some_asks (unat r) dsize head n (w_ram w)) (head' = unat tail)"
  shows "\<exists>w' sc'. dm_loop_turn cfg (Some req) w = Inr (Some req, w') \<and> w_e1000 w' = Some sc' \<and>
    w_sent w' = w_sent w @ frames \<and> esc_TDH (tx_part sc') = word_of_nat head' \<and> (head' = unat tail \<or> dsize div 4 \<le> n) \<and>
    queue_ok (dm_stk cfg) r dsize (tx_part sc') \<and> esc_TDT (tx_part sc') = tail \<and>
    (\<forall>a. a \<notin> header_copy (dm_stk cfg) \<longrightarrow> w_ram w' a = marked (unat r) dsize head n (w_ram w) a) \<and>
    esc_ICR (intr_part sc') AND causes = causes \<and>
    (esc_IMS (intr_part sc) AND causes \<noteq> 0 \<and> lintr_allowed pi \<and> pi_irq pi \<noteq> 0 \<longrightarrow>
       line_level (pi_irq pi) (w_pic w') False \<or> esc_mevpitr (intr_part sc'))"
proof -
  note d = assms(1) [unfolded net_machine_def]
  let ?w = "w\<lparr>req_count := req_count w + 1\<rparr>"
  define sc1 where "sc1 = upd_tx (\<lambda>t. t\<lparr>esc_TDT := tail\<rparr>) (at_devi pi (w_pic w) sc)"
  let ?w1 = "with_card pi sc1 ?w"
  have at: "card_at (dm_devs cfg) (CONFIG_IOMMU cfg) b pi sc w" using d by blast
  have m: "net_machine cfg b pi sc ?w" using assms(1)
    by (simp add: net_machine_def card_at_def disk_idle_def get_devi_def get_func_def)
  have q: "dm_request cfg (req, ?w) = Inr (0, req, ?w1)"
    using tail_request [OF m assms(2)] by (simp add: sc1_def)
  have s: "intr_part sc1 = (intr_part sc)\<lparr>esc_pi := pi, esc_pic := w_pic w\<rparr>" "tx_part sc1 = (tx_part sc)\<lparr>esc_TDT := tail\<rparr>" "rx_part sc1 = rx_part sc"
    "esc_CTRL sc1 = esc_CTRL sc" "esc_VET sc1 = esc_VET sc" "at_devi pi (w_pic w) sc1 = sc1"
    by (simp_all add: sc1_def upd_tx_def at_devi_def)
  have bdf: "pi_bdf pi = b" "get_devi ?w1 b = Some pi" using at by (simp_all add: card_at_def with_card_def get_devi_def get_func_def)
  have w1: "w_e1000 ?w1 = Some sc1" "w_pic ?w1 = w_pic w" "w_ram ?w1 = w_ram w" "w_sent ?w1 = w_sent w" "w_fifo ?w1 = w_fifo w" by (simp_all add: with_card_def)
  obtain w2 sc2 extra pi2 where p: "e1000_poll (fifo_process_rx (dm_fifo cfg)) (CONFIG_IOMMU cfg) (dm_stk cfg) ?w1 = Inr (put_devi b (Some pi2) w2)"
    "pci_businfo w2 = pci_businfo ?w1" "w_blockif w2 = w_blockif ?w1" "w_ahci w2 = w_ahci ?w1" "w_e1000 w2 = Some sc2"
    "w_sent w2 = w_sent w @ frames" "esc_TDH (tx_part sc2) = word_of_nat head' \<and> queue_ok (dm_stk cfg) r dsize (tx_part sc2) \<and> esc_TDT (tx_part sc2) = tail" "w_pic w2 = esc_pic (intr_part sc2)"
    "agrees (header_copy (dm_stk cfg)) (marked (unat r) dsize head n (w_ram w)) (w_ram w2)"
    "intr_ready (intr_part sc2)" "esc_IMS (intr_part sc2) = esc_IMS (intr_part sc)" "lintr_rest (esc_pi (intr_part sc2)) = lintr_rest pi"
    "esc_ICR (intr_part sc2) = esc_ICR (intr_part sc) OR causes OR extra"
    using card_poll [of ?w1 sc1 pi "dm_stk cfg" r dsize "fifo_process_rx (dm_fifo cfg)" "CONFIG_IOMMU cfg" n frames head'] assms(3,5-8) d bdf
    unfolding w1 s(1-5) by (auto simp: s(6) assms(4))
  have "disk_idle ?w1" using d by (simp add: disk_idle_def with_card_def get_devi_def get_func_def)
  then have "disk_idle (put_devi b (Some pi2) w2)" using p(2-4) by (rule idle_put)
  from thr_idle [OF this, of "CONFIG_IOMMU cfg" "dm_stack cfg"] obtain w3 where i: "ahci_blockif_thr (CONFIG_IOMMU cfg) (dm_stack cfg) (put_devi b (Some pi2) w2) = Inr w3"
    "w_e1000 w3 = Some sc2" "w_ram w3 = w_ram w2" "w_sent w3 = w_sent w2" "w_pic w3 = w_pic w2"
    using p(5) by auto
  have turn: "dm_loop_turn cfg (Some req) w = Inr (Some req, w3)"
    using q p(1) i(1) d by (simp add: dm_loop_turn_def)
  have "unat (esc_TDH (tx_part sc)) < dsize" "unat tail < dsize" using assms(3) by (simp_all add: queue_ok_def)
  then have stop: "head' = unat tail \<or> dsize div 4 \<le> n" using sends_stops [OF assms(5)] assms(4,7) by blast
  have icr: "esc_ICR (intr_part sc2) AND causes = causes" unfolding p(13)
    by (rule bit_word_eqI) (auto simp: bit_simps)
  have "esc_IMS (intr_part sc) AND causes \<noteq> 0 \<and> lintr_allowed pi \<and> pi_irq pi \<noteq> 0 \<longrightarrow>
      line_level (pi_irq pi) (w_pic w3) False \<or> esc_mevpitr (intr_part sc2)"
    using line_after [OF p(10,12) _ _ icr] p(8,11) i(5) by simp
  then show ?thesis using turn i(2-4) p(6,7,9) icr stop by (intro exI [of _ w3] exI [of _ sc2]) (simp add: agrees_def)
qed

section \<open>Receiving\<close>

definition tx_silent :: "e1000_tx \<Rightarrow> bool" where
  "tx_silent t \<longleftrightarrow> \<not> esc_tx_enabled t \<or> esc_TDHr t = esc_TDT t"

lemma tx_poll_silent:
  assumes "free_mutex (esc_mtx (intr_part (io_sc io)))" "tx_silent (tx_part (io_sc io))"
  shows "e82545_tx_poll iommu stk io = Inr (io\<lparr>io_sc := upd_tx (\<lambda>t. t\<lparr>esc_tx_active := False\<rparr>) (io_sc io)\<rparr>)"
proof -
  have free: "esc_mtx (intr_part (io_sc io)) = \<lparr>mtx_lock = 0\<rparr>" using assms(1) by (simp add: free_mutex_def)
  show ?thesis using assms(2) free
    by (auto simp: e82545_tx_poll_def tx_silent_def io_lock_def io_unlock_def on_intr_def esc_lock_def esc_unlock_def
        pthread_mutex_lock_def pthread_mutex_unlock_def upd_tx_def Let_def)
qed

text \<open>A machine with its card idle on the sending side, and its disk idle.\<close>

definition rx_machine :: "('f, 'h) dm_config \<Rightarrow> pci_devinst \<Rightarrow> e82545_softc \<Rightarrow> ('f, 'h) dm_world \<Rightarrow> bool" where
  "rx_machine cfg pi sc w \<longleftrightarrow> CONFIG_EMUL_PCI cfg \<and> w_e1000 w = Some sc \<and> get_devi w (pi_bdf (esc_pi (intr_part sc))) = Some pi \<and>
     intr_ready ((intr_part sc)\<lparr>esc_pi := pi, esc_pic := w_pic w\<rparr>) \<and> tx_silent (tx_part sc) \<and> disk_idle w"

text \<open>
  A packet of \<open>l\<close> bytes waits in the FIFO for a ring of \<open>n\<close> descriptors that has room for it; the FIFO leaves the memory \<open>m1\<close>.
\<close>

definition packet_waits ::
    "'f fifo_rx \<Rightarrow> bool \<Rightarrow> 'f \<Rightarrow> bytes \<Rightarrow> e82545_softc \<Rightarrow> u64 \<Rightarrow> nat \<Rightarrow> int \<Rightarrow> bytes \<Rightarrow> bool" where
  "packet_waits fifo iommu f m sc ring n l m1 \<longleftrightarrow>
     (let r = rx_part sc; head = unat (esc_RDH r); k = max_pkt_desc (esc_RCTL r);
          vec = rx_vec iommu m (unat ring) n head (e82545_bufsz (esc_RCTL r)) k in
      esc_rx_enabled r \<and> \<not> esc_rx_loopback r \<and> esc_rxdesc r = Some ring \<and> n = unat (esc_RDLEN r) div 16 \<and> 4 \<le> n \<and>
      int k \<le> rx_left n (unat (esc_RDT r)) head \<and> one_packet fifo f vec m l m1 \<and> 0 < l \<and> \<not> vlan_unknown sc m1 vec)"

text \<open>C5: A guest receives a packet: when one waits in the FIFO and the receive ring has room, a turn of the main loop moves the head of
  the ring past the descriptors of the packet, marks each of them done, the last one as the end of the packet, with lengths that add up to
  the length of the packet with its padding and check sequence (less a last buffer that is exactly full), leaves the
  memory outside the ring as the FIFO filled it, and sets the causes of the reception; the interrupt line is then up
  if one of them is not masked, unless the function may not interrupt or the throttling timer runs.\<close>

theorem guest_receives:
  fixes w :: "('f, 'h) dm_world"
  assumes "rx_machine cfg pi sc w" "packet_waits (fifo_process_rx (dm_fifo cfg)) (CONFIG_IOMMU cfg) (w_fifo w) (w_ram w) sc ring n l m1"
    "bufsz = e82545_bufsz (esc_RCTL (rx_part sc))" "head = unat (esc_RDH (rx_part sc))"
    "len = nat (rx_len (esc_RCTL (rx_part sc)) l)" "nd = (len + bufsz - 1) div bufsz" "nd \<le> n"
  shows "\<exists>w' sc'. dm_loop_turn cfg None w = Inr (None, w') \<and> w_e1000 w' = Some sc' \<and>
    esc_RDH (rx_part sc') = word_of_nat ((head + nd) mod n) \<and>
    (\<forall>j<nd. rx_entry (w_ram w') (rx_at (unat ring) n head j) = (if j = nd - 1 then (len mod bufsz, 0x87) else (bufsz, 1))) \<and>
    (\<Sum>j<nd. fst (rx_entry (w_ram w') (rx_at (unat ring) n head j))) = (if bufsz dvd len then len - bufsz else len) \<and>
    (\<forall>a. a \<notin> {unat ring..<unat ring + 16 * n} \<longrightarrow> w_ram w' a = m1 a) \<and>
    esc_ICR (intr_part sc') AND rx_cause sc len = rx_cause sc len \<and>
    (esc_IMS (intr_part sc) AND rx_cause sc len \<noteq> 0 \<and> lintr_allowed pi \<and> pi_irq pi \<noteq> 0 \<longrightarrow>
       line_level (pi_irq pi) (w_pic w') False \<or> esc_mevpitr (intr_part sc'))"
proof -
  note d = assms(1) [unfolded rx_machine_def]
  define sc1 where "sc1 = upd_tx (\<lambda>t. t\<lparr>esc_tx_active := False\<rparr>) (at_devi pi (w_pic w) sc)"
  have s1: "rx_part sc1 = rx_part sc" "intr_part sc1 = (intr_part sc)\<lparr>esc_pi := pi, esc_pic := w_pic w\<rparr>"
    "rx_cause sc1 x = rx_cause sc x" "vlan_unknown sc1 m v = vlan_unknown sc m v" for x m v
    by (simp_all add: sc1_def upd_tx_def at_devi_def rx_cause_def vlan_unknown_def)
  have "free_mutex (esc_mtx (intr_part (at_devi pi (w_pic w) sc)))" using d by (simp add: intr_ready_def)
  moreover have "tx_silent (tx_part (at_devi pi (w_pic w) sc))" using d by (simp add: at_devi_def)
  ultimately have t: "poll_tx (CONFIG_IOMMU cfg) (dm_stk cfg) (at_devi pi (w_pic w) sc) w = Inr (sc1, w)"
    using tx_poll_silent [of "\<lparr>io_sc = at_devi pi (w_pic w) sc, io_mem = w_ram w, io_sent = w_sent w\<rparr>"] by (simp add: poll_tx_def sc1_def)
  define rx where "rx = \<lparr>rx_sc = sc1, rx_mem = w_ram w, rx_fifo = w_fifo w\<rparr>"
  have rx: "rx_sc rx = sc1" "rx_mem rx = w_ram w" "rx_fifo rx = w_fifo w" by (simp_all add: rx_def)
  note pw = assms(2) [unfolded packet_waits_def Let_def]
  obtain rx' where p: "e82545_tap_callback (fifo_process_rx (dm_fifo cfg)) (CONFIG_IOMMU cfg) rx = Inr rx'" "intr_ready (intr_part (rx_sc rx'))"
    "esc_RDH (rx_part (rx_sc rx')) = word_of_nat ((head + nd) mod n)" "\<exists>old. esc_ICR (intr_part (rx_sc rx')) = old OR rx_cause sc len"
    "\<forall>j<nd. rx_entry (rx_mem rx') (rx_at (unat ring) n head j) = (if j = nd - 1 then (len mod bufsz, 0x87) else (bufsz, 1))"
    "(\<Sum>j<nd. fst (rx_entry (rx_mem rx') (rx_at (unat ring) n head j))) = (if bufsz dvd len then len - bufsz else len)"
    "rx_kept rx rx'" "\<forall>a. a \<notin> {unat ring..<unat ring + 16 * n} \<longrightarrow> rx_mem rx' a = m1 a"
    using packet_received [of rx "rx_part sc" ring n head bufsz "max_pkt_desc (esc_RCTL (rx_part sc))" _ "CONFIG_IOMMU cfg"
        "fifo_process_rx (dm_fifo cfg)" l m1 len nd] pw assms(3-7) d unfolding rx s1 by blast
  let ?sc = "rx_sc rx'"
  define w2 where "w2 = w\<lparr>w_ram := rx_mem rx', w_fifo := rx_fifo rx', w_pic := esc_pic (intr_part ?sc), w_e1000 := Some ?sc\<rparr>"
  let ?b = "pi_bdf (esc_pi (intr_part sc))"
  have poll: "e1000_poll (fifo_process_rx (dm_fifo cfg)) (CONFIG_IOMMU cfg) (dm_stk cfg) w = Inr (put_devi ?b (Some (esc_pi (intr_part ?sc))) w2)"
    using d t p(1) by (simp add: e1000_poll_def e82545_rx_poll_def rx_def [symmetric] e1000_leave_def Let_def w2_def)
  have "disk_idle (put_devi ?b (Some (esc_pi (intr_part ?sc))) w2)"
    by (rule idle_put [of w]) (use d in \<open>simp_all add: w2_def\<close>)
  from thr_idle [OF this, of "CONFIG_IOMMU cfg" "dm_stack cfg"] obtain w3
    where i: "ahci_blockif_thr (CONFIG_IOMMU cfg) (dm_stack cfg) (put_devi ?b (Some (esc_pi (intr_part ?sc))) w2) = Inr w3"
    "w_e1000 w3 = Some ?sc" "w_ram w3 = rx_mem rx'" "w_pic w3 = esc_pic (intr_part ?sc)"
    by (auto simp: w2_def)
  have turn: "dm_loop_turn cfg None w = Inr (None, w3)" using poll i(1) d by (simp add: dm_loop_turn_def)
  have icr: "esc_ICR (intr_part ?sc) AND rx_cause sc len = rx_cause sc len"
    using p(4) by (auto intro!: bit_word_eqI simp: bit_simps)
  have "esc_IMS (intr_part sc) AND rx_cause sc len \<noteq> 0 \<and> lintr_allowed pi \<and> pi_irq pi \<noteq> 0 \<longrightarrow>
      line_level (pi_irq pi) (w_pic w3) False \<or> esc_mevpitr (intr_part ?sc)"
    using line_after [OF p(2) _ _ _ icr, of pi] p(7) i(4) unfolding rx_kept_def rx s1 by simp
  then show ?thesis using turn i(2,3) p(3,5,6,8) icr by (intro exI [of _ w3] exI [of _ ?sc]) simp
qed

section \<open>Witness\<close>

text \<open>The card of a fresh bus with its transmit ring at 4096 and the packet of \<open>wit_plain\<close> in its first descriptor.\<close>

definition net_cfg :: "(unit, unit) dm_config" where
  "net_cfg = wit_cfg\<lparr>CONFIG_IOMMU := True, dm_devs := [pci_de_e82545 True], dm_stk := 0x8000\<rparr>"

definition net_sc :: e82545_softc where
  "net_sc = upd_tx (\<lambda>t. t\<lparr>esc_txdesc := Some 4096, esc_txctx := wit_ctx 1, esc_TDLEN := 128\<rparr>) wit_softc"

definition net_req :: epw_request where
  "net_req = (wit_req True)\<lparr>rq_addr := 0xfdb23818, rq_data := (\<lambda>_. 0)(0 := 1)\<rparr>"

lemma net_sc_sel:
  "esc_CTRL net_sc = 0" "rx_part net_sc = rx_part wit_softc" "intr_part net_sc = wit_intr" "esc_txctx (tx_part net_sc) = wit_ctx 1"
  "esc_TDH (tx_part net_sc) = 0" "\<not> esc_rx_enabled (rx_part wit_softc)" "esc_VET net_sc = 0"
  by (simp_all add: net_sc_def upd_tx_def wit_softc_def)

lemma wit_queue: "queue_ok 0x8000 4096 8 ((tx_part net_sc)\<lparr>esc_TDT := 1\<rparr>)"
  by (auto simp: queue_ok_def net_sc_def upd_tx_def wit_softc_def header_copy_def)

lemma wit_sends: "sends True 0 0 0x8000 4096 wit_plain_mem 8 1 2 (wit_ctx 1) 0 1 [packet_frame 0 0 4096 wit_plain_mem wit_plain]"
proof -
  have w: "tp_head wit_plain = 0" "tp_desc wit_plain = 0" by (simp_all add: wit_plain_def)
  have ok: "packet_ok 0 0x8000 4096 8 (wit_ctx 1) wit_plain_mem wit_plain"
    by (auto simp: packet_ok_def wit_plain_def no_ck_def I82545_MAX_TXSEGS_def header_copy_def status_bytes_def tx_hdrlen_def tx_vlen_def)
  have "sends True 0 0 0x8000 4096 wit_plain_mem 8 1 2 (wit_ctx 1) 0 (tp_desc wit_plain + 1 + 0)
      (packet_frame 0 0 4096 wit_plain_mem wit_plain # [])"
    by (rule sends_packet [OF _ wit_plain_gather ok])
      (use sends_end [of 1 1 1 True 0 0 "0x8000" 4096 wit_plain_mem 8 "wit_ctx 1"] in \<open>simp_all add: w\<close>)
  then show ?thesis by (simp add: w)
qed

lemma wit_net:
  "\<exists>(w :: (unit, unit) dm_world) pi. net_machine net_cfg (0, 0, 0) pi net_sc w \<and> writes_tail 1 pi net_req \<and>
     w_ram w = wit_plain_mem \<and> w_sent w = []"
proof -
  have "fresh_pci wit_world" using wit_fresh by (simp add: fresh_pci_def wit_world_def e1000_world.defs)
  from card_init_eq [OF this, of True None] obtain w0 :: "(unit, unit) dm_world" and sc where w0: "\<exists>fi. get_func w0 (0, 0, 0) = Some fi" "w_e1000 w0 = Some sc"
    "w_mem w0 = \<lparr>mmio_rb_root = [new_range (reg_range (0, 0, 0)), new_range (flash_range (0, 0, 0))],
       mmio_rb_fallback = [], mmio_hint = None, malloc_ok = True\<rparr>"
    "intr_part sc = reset_intr ((intr_part zero_softc)\<lparr>esc_pi := card_bars card_pi, esc_pic := w_pic wit_world\<rparr>)"
    by blast
  let ?pi = "card_bars card_pi"
  let ?w1 = "put_devi (0, 0, 0) (Some ?pi) w0"
  let ?w = "?w1\<lparr>w_e1000 := Some net_sc, w_ram := wit_plain_mem, w_sent := [], w_pic := [], w_blockif := None\<rparr>"
  have cfg: "CONFIG_EMUL_PCI net_cfg" "CONFIG_IOMMU net_cfg" "dm_devs net_cfg = [pci_de_e82545 True]" by (simp_all add: net_cfg_def wit_cfg_def)
  have g: "get_devi ?w b = get_devi ?w1 b" for b by (simp add: get_devi_def get_func_def)
  have "card_at [pci_de_e82545 True] True (0, 0, 0) ?pi sc ?w1" by (rule card_at_init [OF w0])
  then have at: "card_at [pci_de_e82545 True] True (0, 0, 0) ?pi net_sc ?w"
    unfolding card_at_def g by (simp add: net_sc_sel wit_intr_def free_mutex_def)
  have ready: "intr_ready ((intr_part net_sc)\<lparr>esc_pi := ?pi, esc_pic := w_pic ?w\<rparr>)"
    by (simp add: net_sc_sel intr_ready_def intr_inv_def intr_live_def pin_inv_def lintr_inv_def lintr_ready_def card_bars_sel
        lintr_wanted_def free_mutex_def wit_intr_def)
  have "net_machine net_cfg (0, 0, 0) ?pi net_sc ?w"
    using at ready cfg by (simp add: net_machine_def card_bars_sel rx_silent_def net_sc_sel disk_idle_def)
  moreover have "writes_tail 1 ?pi net_req"
    by (simp add: writes_tail_def net_req_def wit_req_def card_bars_sel le32_def le16_def word_cat_eq)
  ultimately show ?thesis by (intro exI [of _ ?w] exI [of _ ?pi]) simp
qed

theorem guest_transmits_witness:
  "\<exists>(w :: (unit, unit) dm_world) w' sc'. dm_loop_turn net_cfg (Some net_req) w = Inr (Some net_req, w') \<and> w_sent w = [] \<and>
     w_sent w' = [packet_frame 0 0 4096 wit_plain_mem wit_plain] \<and> w_e1000 w' = Some sc' \<and> esc_TDH (tx_part sc') = 1"
proof -
  obtain w :: "(unit, unit) dm_world" and pi where w: "net_machine net_cfg (0, 0, 0) pi net_sc w" "writes_tail 1 pi net_req"
    "w_ram w = wit_plain_mem" "w_sent w = []" using wit_net by blast
  have cfg: "CONFIG_IOMMU net_cfg = True" "dm_stk net_cfg = 0x8000" by (simp_all add: net_cfg_def)
  have s: "sends (CONFIG_IOMMU net_cfg) (esc_CTRL net_sc) (esc_VET net_sc) (dm_stk net_cfg) (unat (4096 :: u64)) (w_ram w) 8 (unat (1 :: u16)) (8 div 4)
      (esc_txctx (tx_part net_sc)) 0 1 [packet_frame 0 0 4096 wit_plain_mem wit_plain]"
    using wit_sends by (simp add: cfg net_sc_sel w(3))
  have q: "queue_ok (dm_stk net_cfg) 4096 8 ((tx_part net_sc)\<lparr>esc_TDT := 1\<rparr>)" "0 = unat (esc_TDH (tx_part net_sc))"
    using wit_queue by (simp_all add: cfg net_sc_sel)
  from guest_transmits [OF w(1,2) q s _ refl refl] show ?thesis using w(4) by fastforce
qed

text \<open>The packet of \<open>wit_rx\<close> waits for the card on a bus of its own.\<close>

definition net_rx_cfg :: "(u8 list list, unit) dm_config" where
  "net_rx_cfg = \<lparr>CONFIG_EMUL_PCI = True, CONFIG_IOMMU = True, MSGDMA_DESC_EXT = False, INVARIANTS = False,
     dm_hw = \<lparr>bus_read = (\<lambda>_ n h. (replicate n 0, h)), bus_write = (\<lambda>_ _ h. h)\<rparr>,
     dm_fifo = \<lparr>fifo_process_tx = (\<lambda>f _ _. (0, f)), fifo_process_rx = wit_fifo\<rparr>,
     dm_devs = [], dm_stk = 0, dm_junk = 0, dm_stack = (\<lambda>_. 0)\<rparr>"

definition net_rx_sc :: e82545_softc where
  "net_rx_sc = upd_tx (\<lambda>t. t\<lparr>esc_tx_enabled := False\<rparr>) (rx_sc wit_rx)"

definition net_rx_world :: "(u8 list list, unit) dm_world" where
  "net_rx_world = put_devi (0, 0, 0) (Some wit_devinst)
     \<lparr>pci_businfo = (\<lambda>_. None)(0 := Some zero_bus),
      w_cursors = \<lparr>pci_emul_iobase = 0x2000, pci_emul_membase32 = 0xfdb10000, pci_emul_membase64 = PCI_EMUL_MEMBASE64\<rparr>,
      w_mem = \<lparr>mmio_rb_root = [], mmio_rb_fallback = [], mmio_hint = None, malloc_ok = True\<rparr>,
      w_pic = [], w_latch = \<lparr>cfgenable = False, cfgbus = 0, cfgslot = 0, cfgfunc = 0, cfgoff = 0\<rparr>,
      w_e1000 = Some net_rx_sc, w_ram = (\<lambda>_. 0), w_sent = [], w_fifo = [wit_packet 2044],
      w_ahci = None, w_blockif = None, w_msgdma0 = undefined, w_msgdma1 = undefined, w_descs = undefined, w_iommu = undefined, w_hw = (),
      w_fifo_calls = [], req_count = 0\<rparr>"

lemma net_rx_sel:
  "w_e1000 net_rx_world = Some net_rx_sc" "w_ram net_rx_world = (\<lambda>_. 0)" "w_fifo net_rx_world = [wit_packet 2044]"
  "w_pic net_rx_world = []" "w_blockif net_rx_world = None" "get_devi net_rx_world (0, 0, 0) = Some wit_devinst"
  by (simp_all add: net_rx_world_def put_devi_def map_slot_def get_devi_def get_func_def zero_bus_def zero_slot_def)

lemma net_rx_card:
  "intr_part net_rx_sc = wit_intr" "\<not> esc_tx_enabled (tx_part net_rx_sc)" "esc_rx_enabled (rx_part net_rx_sc)"
  "\<not> esc_rx_loopback (rx_part net_rx_sc)" "esc_rxdesc (rx_part net_rx_sc) = Some 4096" "esc_RDLEN (rx_part net_rx_sc) = 128"
  "esc_RDH (rx_part net_rx_sc) = 0" "esc_RDT (rx_part net_rx_sc) = 4" "esc_RCTL (rx_part net_rx_sc) = 0"
  by (simp_all add: net_rx_sc_def wit_rx_def wit_softc_def upd_rx_def upd_tx_def)

lemma wit_rx_machine: "rx_machine net_rx_cfg wit_devinst net_rx_sc net_rx_world"
proof -
  have "wit_intr\<lparr>esc_pi := wit_devinst, esc_pic := []\<rparr> = wit_intr" "pi_bdf (esc_pi wit_intr) = (0, 0, 0)"
    by (simp_all add: wit_intr_def wit_devinst_def pi_bdf_def)
  then show ?thesis using wit_intr_ready
    by (simp add: rx_machine_def net_rx_sel net_rx_card disk_idle_def tx_silent_def net_rx_cfg_def)
qed

lemma wit_waits:
  "\<exists>m1. packet_waits (fifo_process_rx (dm_fifo net_rx_cfg)) (CONFIG_IOMMU net_rx_cfg) (w_fifo net_rx_world) (w_ram net_rx_world)
     net_rx_sc 4096 8 2044 m1"
proof -
  have c: "max_pkt_desc 0 = 1" "rx_left 8 4 0 = 4"
    by (simp_all add: e82545_bufsz_def max_pkt_desc_def rx_left_def signed_modulo_int_def)
  let ?vec = "rx_vec True (\<lambda>_. 0) 4096 8 0 (e82545_bufsz 0) 1"
  obtain m1 where "one_packet wit_fifo [wit_packet 2044] ?vec (\<lambda>_. 0) 2044 m1"
    using wit_fifo_one [of "wit_packet 2044" ?vec "\<lambda>_. 0"] by auto
  then show ?thesis
    by (intro exI [of _ m1]) (simp add: packet_waits_def net_rx_cfg_def net_rx_sel net_rx_card c Let_def vlan_unknown_def)
qed

theorem guest_receives_witness:
  "\<exists>w' sc'. dm_loop_turn net_rx_cfg None net_rx_world = Inr (None, w') \<and> w_e1000 w' = Some sc' \<and>
     esc_RDH (rx_part sc') = 1 \<and> rx_entry (w_ram w') (rx_at 4096 8 0 0) = (0, 0x87)"
proof -
  obtain m1 where m1: "packet_waits (fifo_process_rx (dm_fifo net_rx_cfg)) (CONFIG_IOMMU net_rx_cfg) (w_fifo net_rx_world)
     (w_ram net_rx_world) net_rx_sc 4096 8 2044 m1" using wit_waits by blast
  have c: "2048 = e82545_bufsz (esc_RCTL (rx_part net_rx_sc))" "0 = unat (esc_RDH (rx_part net_rx_sc))"
    "2048 = nat (rx_len (esc_RCTL (rx_part net_rx_sc)) 2044)" "1 = (2048 + 2048 - 1) div (2048 :: nat)" "1 \<le> (8 :: nat)"
    by (simp_all add: net_rx_card e82545_bufsz_def rx_len_def)
  from guest_receives [OF wit_rx_machine m1 c] show ?thesis by fastforce
qed

end
