(* ===== verification/Crt_Globals.thy ===== *)
theory Crt_Globals
  imports Prelude
begin

text \<open>
  The start-up code of \<open>src/crt_init_globals.c\<close>, which fills the program's global pointers with
  capabilities, and its \<open>strlen\<close>. The built-in functions on capabilities follow the CHERI architecture; which
  bounds and addresses the compressed format of 128 bits can express is a parameter, an \<open>encoding\<close>. The code is the one for
  a capability table (\<open>__CHERI_CAPABILITY_TABLE__\<close>); the other way to find the table of relocations is not modelled. The table is
  a list of entries: it lies apart from the pointers that the loop fills, so the stores do not change it.
\<close>

section \<open>Capabilities\<close>

record capability =
  cap_tag :: bool
  cap_base :: u64
  cap_top :: nat
  cap_addr :: u64
  cap_perms :: u64

text \<open>
  \<open>rep_addr c a\<close>: with the bounds of \<open>c\<close> the address \<open>a\<close> can be expressed. \<open>rep_bounds c n\<close>: the bounds that
  setting a length of \<open>n\<close> at the address of \<open>c\<close> gives.
\<close>

record encoding =
  rep_addr :: "capability \<Rightarrow> u64 \<Rightarrow> bool"
  rep_bounds :: "capability \<Rightarrow> u64 \<Rightarrow> u64 \<times> nat"

definition cap_set_addr :: "encoding \<Rightarrow> capability \<Rightarrow> u64 \<Rightarrow> capability" where
  "cap_set_addr enc c a = c\<lparr>cap_addr := a, cap_tag := cap_tag c \<and> rep_addr enc c a\<rparr>"

definition cheri_offset_set :: "encoding \<Rightarrow> capability \<Rightarrow> u64 \<Rightarrow> capability" where
  "cheri_offset_set enc c off = cap_set_addr enc c (cap_base c + off)"

definition cheri_offset_increment :: "encoding \<Rightarrow> capability \<Rightarrow> u64 \<Rightarrow> capability" where
  "cheri_offset_increment enc c d = cap_set_addr enc c (cap_addr c + d)"

definition cheri_perms_and :: "capability \<Rightarrow> u64 \<Rightarrow> capability" where
  "cheri_perms_and c perms = c\<lparr>cap_perms := cap_perms c AND perms\<rparr>"

text \<open>Setting bounds outside those of the capability, or through one without a tag, traps.\<close>

definition cheri_bounds_set :: "encoding \<Rightarrow> capability \<Rightarrow> u64 \<Rightarrow> capability res" where
  "cheri_bounds_set enc c n =
     (if \<not> cap_tag c \<or> cap_addr c < cap_base c \<or> cap_top c < unat (cap_addr c) + unat n then Inl Out_of_bounds
      else Inr (c\<lparr>cap_base := fst (rep_bounds enc c n), cap_top := snd (rep_bounds enc c n)\<rparr>))"

abbreviation (input) CAP_EXECUTE :: u64 where "CAP_EXECUTE \<equiv> 0x2"
abbreviation (input) CAP_STORE :: u64 where "CAP_STORE \<equiv> 0x8"
abbreviation (input) CAP_STORE_CAPABILITY :: u64 where "CAP_STORE_CAPABILITY \<equiv> 0x20"

text \<open>Memory as the capabilities it holds, by the address of their sixteen bytes.\<close>

type_synonym cap_mem = "u64 \<Rightarrow> capability option"

definition store_cap :: "capability \<Rightarrow> capability \<Rightarrow> cap_mem \<Rightarrow> cap_mem res" where
  "store_cap dest c m =
     (if cap_tag dest \<and> cap_perms dest AND CAP_STORE \<noteq> 0 \<and> cap_perms dest AND CAP_STORE_CAPABILITY \<noteq> 0 \<and>
         cap_base dest \<le> cap_addr dest \<and> unat (cap_addr dest) + 16 \<le> cap_top dest \<and> cap_addr dest AND 0xf = 0
      then Inr (m(cap_addr dest \<mapsto> c)) else Inl Out_of_bounds)"

section \<open>The table of relocations\<close>

record capreloc =
  capability_location :: u64
  rl_object :: u64
  rl_offset :: u64
  rl_size :: u64
  rl_permissions :: u64

abbreviation (input) function_reloc_flag :: u64 where "function_reloc_flag \<equiv> 0x8000000000000000"
abbreviation (input) function_pointer_permissions :: u64 where
  "function_pointer_permissions \<equiv> NOT CAP_STORE_CAPABILITY AND NOT CAP_STORE"
abbreviation (input) global_pointer_permissions :: u64 where "global_pointer_permissions \<equiv> NOT CAP_EXECUTE"

definition is_function :: "capreloc \<Rightarrow> bool" where
  "is_function r \<longleftrightarrow> rl_permissions r AND function_reloc_flag = function_reloc_flag"

text \<open>The capability of one entry.\<close>

definition reloc_src :: "encoding \<Rightarrow> capability \<Rightarrow> capability \<Rightarrow> capreloc \<Rightarrow> capability res" where
  "reloc_src enc gdc pcc r =
     (let src = cheri_offset_set enc (if is_function r then pcc else gdc) (rl_object r) in
      bindE (if \<not> is_function r \<and> rl_size r \<noteq> 0 then cheri_bounds_set enc src (rl_size r) else Inr src) (\<lambda>src.
      Inr (cheri_offset_increment enc src (rl_offset r))))"

text \<open>The loop, with the pointers \<open>reloc\<close> and \<open>stop_relocs\<close> as the addresses that its test compares.\<close>

fun init_relocs :: "encoding \<Rightarrow> capability \<Rightarrow> capability \<Rightarrow> u64 \<Rightarrow> u64 \<Rightarrow> capreloc list \<Rightarrow> cap_mem \<Rightarrow> cap_mem res" where
  "init_relocs enc gdc pcc reloc stop [] m = Inr m"
| "init_relocs enc gdc pcc reloc stop (r # rs) m =
     (if \<not> reloc < stop then Inr m
      else
        (let dest = cheri_offset_set enc gdc (capability_location r) in
         bindE (reloc_src enc gdc pcc r) (\<lambda>src.
         bindE (store_cap dest src m) (init_relocs enc gdc pcc (reloc + 40) stop rs))))"

text \<open>
  The linker places the entries, of 40 bytes each, from \<open>start_addr\<close> on; the capability they are read through is the
  data capability with the bounds of the table, and the end of the table is counted from the base of that capability.
\<close>

definition crt_init_globals ::
    "encoding \<Rightarrow> capability \<Rightarrow> capability \<Rightarrow> u64 \<Rightarrow> capreloc list \<Rightarrow> cap_mem \<Rightarrow> cap_mem res" where
  "crt_init_globals enc gdc pcc start_addr relocs m =
     (let relocs_size = of_nat (40 * length relocs) in
      bindE (cheri_bounds_set enc (cheri_offset_set enc gdc start_addr) relocs_size) (\<lambda>start_relocs.
      let stop_relocs = cheri_offset_set enc start_relocs relocs_size in
      init_relocs enc (cheri_perms_and gdc global_pointer_permissions) (cheri_perms_and pcc function_pointer_permissions)
        (cap_addr start_relocs) (cap_addr stop_relocs) relocs m))"

section \<open>The length of a string\<close>

partial_function (option) strlen_loop :: "(nat \<Rightarrow> u8) \<Rightarrow> nat \<Rightarrow> nat option" where
  "strlen_loop m p = (if m p = 0 then Some p else strlen_loop m (p + 1))"

definition strlen :: "(nat \<Rightarrow> u8) \<Rightarrow> nat \<Rightarrow> nat res" where
  "strlen m str = (case strlen_loop m str of None \<Rightarrow> Inl No_return | Some p \<Rightarrow> Inr (p - str))"

section \<open>Authority\<close>

text \<open>What the format guarantees: bounds round outward but stay in the capability, and an address within the bounds, or at
  their end, can be expressed.\<close>

definition encoding_ok :: "encoding \<Rightarrow> bool" where
  "encoding_ok enc \<longleftrightarrow>
     (\<forall>c n. cap_tag c \<and> cap_base c \<le> cap_addr c \<and> unat (cap_addr c) + unat n \<le> cap_top c \<longrightarrow>
        cap_base c \<le> fst (rep_bounds enc c n) \<and> fst (rep_bounds enc c n) \<le> cap_addr c \<and>
        unat (cap_addr c) + unat n \<le> snd (rep_bounds enc c n) \<and> snd (rep_bounds enc c n) \<le> cap_top c) \<and>
     (\<forall>c a. cap_base c \<le> a \<and> unat a \<le> cap_top c \<longrightarrow> rep_addr enc c a)"

text \<open>A capability that is tagged has no more authority than another.\<close>

definition cap_le :: "capability \<Rightarrow> capability \<Rightarrow> bool" where
  "cap_le c d \<longleftrightarrow> (cap_tag c \<longrightarrow> cap_tag d \<and> cap_base d \<le> cap_base c \<and> cap_top c \<le> cap_top d) \<and>
     (\<forall>i. bit (cap_perms c) i \<longrightarrow> bit (cap_perms d) i)"

lemma cap_le_refl [simp]: "cap_le c c"
  by (simp add: cap_le_def)

lemma cap_le_trans: "cap_le a b \<Longrightarrow> cap_le b c \<Longrightarrow> cap_le a c"
  unfolding cap_le_def by (blast intro: order_trans)

lemma addr_le: "cap_le (cap_set_addr enc c a) c" "cap_le (cheri_offset_set enc c a) c" "cap_le (cheri_offset_increment enc c a) c"
  by (simp_all add: cap_le_def cap_set_addr_def cheri_offset_set_def cheri_offset_increment_def)

lemma perms_le: "cap_le (cheri_perms_and c perms) c"
  by (simp add: cap_le_def cheri_perms_and_def bit_simps)

lemma bounds_le: "encoding_ok enc \<Longrightarrow> cheri_bounds_set enc c n = Inr c' \<Longrightarrow> cap_le c' c"
  by (auto simp: cheri_bounds_set_def cap_le_def encoding_ok_def not_less not_le split: if_split_asm)

lemma src_le:
  assumes "encoding_ok enc" "reloc_src enc gdc pcc r = Inr c"
  shows "cap_le c (if is_function r then pcc else gdc)"
proof -
  let ?s = "cheri_offset_set enc (if is_function r then pcc else gdc) (rl_object r)"
  obtain d where d: "(if \<not> is_function r \<and> rl_size r \<noteq> 0 then cheri_bounds_set enc ?s (rl_size r) else Inr ?s) = Inr d"
    "c = cheri_offset_increment enc d (rl_offset r)"
    using assms(2) by (auto simp: reloc_src_def Let_def bindE_Inr)
  have "cap_le d ?s" using d(1) bounds_le [OF assms(1)] by (auto split: if_split_asm)
  then show ?thesis unfolding d(2) using addr_le cap_le_trans by metis
qed

lemma store_capD:
  "store_cap dest c m = Inr m' \<Longrightarrow> m' = m(cap_addr dest \<mapsto> c)"
  by (simp add: store_cap_def split: if_split_asm)

lemma dest_addr: "cap_addr (cheri_offset_set enc c off) = cap_base c + off"
  by (simp add: cheri_offset_set_def cap_set_addr_def)

text \<open>Where the entries put what.\<close>

definition put_by :: "capability \<Rightarrow> capability \<Rightarrow> capreloc list \<Rightarrow> u64 \<Rightarrow> capability \<Rightarrow> bool" where
  "put_by gdc pcc rs a c \<longleftrightarrow>
     (\<exists>r\<in>set rs. a = cap_base gdc + capability_location r \<and> cap_le c (if is_function r then pcc else gdc))"

lemma put_by_mono: "put_by gdc pcc rs a c \<Longrightarrow> put_by gdc pcc (r # rs) a c"
  by (auto simp: put_by_def)

lemma relocs_authority:
  assumes "encoding_ok enc" "init_relocs enc gdc pcc at stop rs m = Inr m'"
  shows "m' a = m a \<or> (\<exists>c. m' a = Some c \<and> put_by gdc pcc rs a c)"
  using assms(2)
proof (induction rs arbitrary: at m)
  case (Cons r rs)
  show ?case
  proof (cases "at < stop")
    case False
    then show ?thesis using Cons.prems by simp
  next
    case True
    then obtain c m1 where c: "reloc_src enc gdc pcc r = Inr c" "store_cap (cheri_offset_set enc gdc (capability_location r)) c m = Inr m1"
      "init_relocs enc gdc pcc (at + 40) stop rs m1 = Inr m'"
      using Cons.prems by (auto simp: Let_def bindE_Inr)
    have m1: "m1 = m(cap_base gdc + capability_location r \<mapsto> c)" using store_capD [OF c(2)] by (simp add: dest_addr)
    have "put_by gdc pcc (r # rs) (cap_base gdc + capability_location r) c"
      unfolding put_by_def using src_le [OF assms(1) c(1)] by fastforce
    then show ?thesis using Cons.IH [OF c(3)] put_by_mono unfolding m1 by (cases "a = cap_base gdc + capability_location r") auto
  qed
qed simp

section \<open>What the table asks for\<close>

definition whole :: "capability \<Rightarrow> bool" where
  "whole c \<longleftrightarrow> cap_tag c \<and> cap_base c = 0 \<and> cap_top c = 2 ^ 64"

text \<open>An entry the linker makes: an aligned place, an object in the address space, and an offset in the object or at its end.\<close>

definition reloc_ok :: "capreloc \<Rightarrow> bool" where
  "reloc_ok r \<longleftrightarrow> capability_location r AND 0xf = 0 \<and> unat (capability_location r) + 16 \<le> 2 ^ 64 \<and>
     (\<not> is_function r \<and> rl_size r \<noteq> 0 \<longrightarrow> unat (rl_object r) + unat (rl_size r) < 2 ^ 64 \<and> rl_offset r \<le> rl_size r)"

text \<open>What its pointer has to be.\<close>

definition points_to :: "capability \<Rightarrow> capability \<Rightarrow> capreloc \<Rightarrow> capability \<Rightarrow> bool" where
  "points_to gdc pcc r c \<longleftrightarrow> cap_tag c \<and> cap_addr c = rl_object r + rl_offset r \<and>
     cap_perms c = cap_perms (if is_function r then pcc else gdc) \<and>
     (if is_function r \<or> rl_size r = 0 then cap_base c = 0 \<and> cap_top c = 2 ^ 64
      else cap_base c \<le> rl_object r \<and> unat (rl_object r) + unat (rl_size r) \<le> cap_top c)"

lemma whole_addr: "encoding_ok enc \<Longrightarrow> whole c \<Longrightarrow> whole (cap_set_addr enc c a)"
  using unat_less_64 [of a] by (simp add: whole_def encoding_ok_def cap_set_addr_def)

lemma rounded:
  assumes "encoding_ok enc" "cap_tag c" "cap_base c \<le> cap_addr c" "unat (cap_addr c) + unat n \<le> cap_top c"
  shows "cheri_bounds_set enc c n = Inr (c\<lparr>cap_base := fst (rep_bounds enc c n), cap_top := snd (rep_bounds enc c n)\<rparr>)"
    "fst (rep_bounds enc c n) \<le> cap_addr c" "unat (cap_addr c) + unat n \<le> snd (rep_bounds enc c n)"
  using assms by (auto simp: cheri_bounds_set_def encoding_ok_def)

lemma src_points:
  assumes "encoding_ok enc" "whole gdc" "whole pcc" "reloc_ok r"
  shows "\<exists>c. reloc_src enc gdc pcc r = Inr c \<and> points_to gdc pcc r c"
proof -
  let ?b = "if is_function r then pcc else gdc"
  let ?s = "cheri_offset_set enc ?b (rl_object r)"
  have s: "whole ?s" "cap_addr ?s = rl_object r" "cap_perms ?s = cap_perms ?b"
    using assms(2,3) whole_addr [OF assms(1)] by (auto simp: cheri_offset_set_def cap_set_addr_def whole_def)
  show ?thesis
  proof (cases "is_function r \<or> rl_size r = 0")
    case True
    then have "reloc_src enc gdc pcc r = Inr (cheri_offset_increment enc ?s (rl_offset r))"
      by (auto simp: reloc_src_def Let_def)
    moreover have "whole (cheri_offset_increment enc ?s (rl_offset r))"
      using whole_addr [OF assms(1) s(1)] by (simp add: cheri_offset_increment_def)
    ultimately show ?thesis using True s by (auto simp: points_to_def whole_def cheri_offset_increment_def cap_set_addr_def)
  next
    case False
    then have sz: "unat (rl_object r) + unat (rl_size r) < 2 ^ 64" "rl_offset r \<le> rl_size r" using assms(4) by (simp_all add: reloc_ok_def)
    define d where "d = ?s\<lparr>cap_base := fst (rep_bounds enc ?s (rl_size r)), cap_top := snd (rep_bounds enc ?s (rl_size r))\<rparr>"
    have "cap_tag ?s" "cap_base ?s \<le> cap_addr ?s" "unat (cap_addr ?s) + unat (rl_size r) \<le> cap_top ?s"
      using s(1) sz(1) unfolding s(2) by (simp_all add: whole_def)
    note b0 = rounded [OF assms(1) this]
    then have b: "cheri_bounds_set enc ?s (rl_size r) = Inr d" "cap_base d \<le> rl_object r" "unat (rl_object r) + unat (rl_size r) \<le> cap_top d"
      unfolding s(2) d_def by simp_all
    have n: "unat (rl_object r + rl_offset r) = unat (rl_object r) + unat (rl_offset r)"
      using sz by (subst unat_add_64) (simp_all add: word_le_nat_alt)
    then have "cap_base d \<le> rl_object r + rl_offset r" "unat (rl_object r + rl_offset r) \<le> cap_top d"
      using b(2,3) sz(2) by (simp_all add: word_le_nat_alt)
    then have "rep_addr enc d (rl_object r + rl_offset r)" using assms(1) by (simp add: encoding_ok_def)
    moreover have "cap_tag d" "cap_addr d = rl_object r" "cap_perms d = cap_perms ?b" using s by (simp_all add: d_def whole_def)
    ultimately have "points_to gdc pcc r (cheri_offset_increment enc d (rl_offset r))"
      using False b(2,3) by (simp add: points_to_def cheri_offset_increment_def cap_set_addr_def)
    then show ?thesis using False b(1) by (auto simp: reloc_src_def Let_def)
  qed
qed

lemma store_whole:
  assumes "encoding_ok enc" "whole gdc" "cap_perms gdc AND CAP_STORE \<noteq> 0" "cap_perms gdc AND CAP_STORE_CAPABILITY \<noteq> 0" "reloc_ok r"
  shows "store_cap (cheri_offset_set enc gdc (capability_location r)) c m = Inr (m(capability_location r \<mapsto> c))"
  using whole_addr [OF assms(1,2), of "capability_location r"] assms(2-5)
  by (simp add: store_cap_def cheri_offset_set_def cap_set_addr_def whole_def reloc_ok_def)

lemma init_relocs_run:
  assumes "encoding_ok enc" "whole gdc" "whole pcc" "cap_perms gdc AND CAP_STORE \<noteq> 0" "cap_perms gdc AND CAP_STORE_CAPABILITY \<noteq> 0"
  shows "\<forall>r\<in>set rs. reloc_ok r \<Longrightarrow> distinct (map capability_location rs) \<Longrightarrow> unat stop = unat at + 40 * length rs \<Longrightarrow>
    \<exists>m'. init_relocs enc gdc pcc at stop rs m = Inr m' \<and> (\<forall>r\<in>set rs. \<exists>c. m' (capability_location r) = Some c \<and> points_to gdc pcc r c) \<and>
      (\<forall>a. a \<notin> capability_location ` set rs \<longrightarrow> m' a = m a)"
proof (induction rs arbitrary: at m)
  case (Cons r rs)
  have "reloc_ok r" using Cons.prems(1) by simp
  then obtain c where c: "reloc_src enc gdc pcc r = Inr c" "points_to gdc pcc r c" using src_points [OF assms(1-3)] by blast
  have lt: "at < stop" using Cons.prems(3) by (simp add: word_less_nat_alt)
  have "unat (at + 40) = unat at + 40" using Cons.prems(3) unat_less_64 [of stop] by (subst unat_add_64) simp_all
  then have "\<forall>r\<in>set rs. reloc_ok r" "distinct (map capability_location rs)" "unat stop = unat (at + 40) + 40 * length rs"
    using Cons.prems by simp_all
  from Cons.IH [OF this, of "m(capability_location r \<mapsto> c)"]
  obtain m' where m': "init_relocs enc gdc pcc (at + 40) stop rs (m(capability_location r \<mapsto> c)) = Inr m'"
    "\<forall>r\<in>set rs. \<exists>c. m' (capability_location r) = Some c \<and> points_to gdc pcc r c"
    "\<forall>a. a \<notin> capability_location ` set rs \<longrightarrow> m' a = (m(capability_location r \<mapsto> c)) a"
    by blast
  have "init_relocs enc gdc pcc at stop (r # rs) m = Inr m'"
    using lt c(1) store_whole [OF assms(1,2,4,5) \<open>reloc_ok r\<close>] m'(1) by (simp add: Let_def)
  moreover have "m' (capability_location r) = Some c" using m'(3) Cons.prems(2) by simp
  ultimately show ?case using m'(2,3) c(2) by (intro exI [of _ m']) auto
qed simp

lemma unat_of_nat_small: "n < 2 ^ 64 \<Longrightarrow> unat (of_nat n :: u64) = n"
  by (simp add: unsigned_of_nat take_bit_nat_eq_self)

lemma crt_run:
  assumes "encoding_ok enc" "whole gdc" "whole pcc" "bit (cap_perms gdc) 3" "bit (cap_perms gdc) 5"
    "\<forall>r\<in>set relocs. reloc_ok r" "distinct (map capability_location relocs)" "unat start_addr + 40 * length relocs < 2 ^ 64"
    "fst (rep_bounds enc (cheri_offset_set enc gdc start_addr) (of_nat (40 * length relocs))) = start_addr"
  defines "g \<equiv> cheri_perms_and gdc global_pointer_permissions" and "p \<equiv> cheri_perms_and pcc function_pointer_permissions"
  shows "\<exists>m'. crt_init_globals enc gdc pcc start_addr relocs m = Inr m' \<and>
    (\<forall>r\<in>set relocs. \<exists>c. m' (capability_location r) = Some c \<and> points_to g p r c) \<and>
    (\<forall>a. a \<notin> capability_location ` set relocs \<longrightarrow> m' a = m a)"
proof -
  have w: "whole g" "whole p" using assms(2,3) by (simp_all add: g_def p_def whole_def cheri_perms_and_def)
  have bits: "(x AND NOT 2) AND 8 \<noteq> 0" "(x AND NOT 2) AND 0x20 \<noteq> 0" if "bit x 3" "bit x 5" for x :: u64
  proof -
    have "bit ((x AND NOT 2) AND 8) 3" "bit ((x AND NOT 2) AND 0x20) 5" using that by (simp_all add: bit_simps)
    then show "(x AND NOT 2) AND 8 \<noteq> 0" "(x AND NOT 2) AND 0x20 \<noteq> 0" by (metis bit_0_eq bot_apply bot_bool_def)+
  qed
  have s: "cap_perms g AND CAP_STORE \<noteq> 0" "cap_perms g AND CAP_STORE_CAPABILITY \<noteq> 0"
    using bits [OF assms(4,5)] by (simp_all add: g_def cheri_perms_and_def)
  let ?t = "cheri_offset_set enc gdc start_addr" and ?n = "of_nat (40 * length relocs) :: u64"
  have n: "unat ?n = 40 * length relocs" using assms(8) by (intro unat_of_nat_small) simp
  have t: "whole ?t" "cap_addr ?t = start_addr" using whole_addr [OF assms(1,2)] assms(2)
    by (simp_all add: cheri_offset_set_def cap_set_addr_def whole_def)
  then have "cap_tag ?t" "cap_base ?t \<le> cap_addr ?t" "unat (cap_addr ?t) + unat ?n \<le> cap_top ?t"
    using assms(8) unfolding n t(2) by (simp_all add: whole_def)
  note b = rounded(1) [OF assms(1) this]
  have "unat (start_addr + ?n) = unat start_addr + 40 * length relocs" using assms(8) n by (subst unat_add_64) simp_all
  from init_relocs_run [OF assms(1) w s assms(6,7) this, of m]
  show ?thesis using b t(2) assms(9)
    by (simp add: crt_init_globals_def Let_def g_def p_def dest_addr del: of_nat_mult)
qed

text \<open>When the base is rounded down the end of the table moves down with it, and the entries from there on are passed over.\<close>

lemma init_relocs_stop: "\<not> at < stop \<Longrightarrow> init_relocs enc gdc pcc at stop rs m = Inr m"
  by (cases rs) simp_all

lemma init_relocs_short:
  "unat at + 40 * length us < 2 ^ 64 \<Longrightarrow> unat stop \<le> unat at + 40 * length us \<Longrightarrow>
   init_relocs enc gdc pcc at stop (us @ vs) m = init_relocs enc gdc pcc at stop us m"
proof (induction us arbitrary: at m)
  case Nil
  then show ?case by (simp add: init_relocs_stop word_less_nat_alt)
next
  case (Cons r us)
  have "unat (at + 40) = unat at + 40" using Cons.prems by (subst unat_add_64) simp_all
  then have "init_relocs enc gdc pcc (at + 40) stop (us @ vs) = init_relocs enc gdc pcc (at + 40) stop us"
    using Cons.prems by (intro ext Cons.IH) simp_all
  then show ?case by simp
qed

lemma rounded_table_skips:
  assumes "encoding_ok enc" "whole gdc" "unat start_addr + 40 * length (us @ vs) < 2 ^ 64"
    "unat (fst (rep_bounds enc (cheri_offset_set enc gdc start_addr) (of_nat (40 * length (us @ vs))))) + 40 * length vs \<le> unat start_addr"
  shows "\<exists>stop. crt_init_globals enc gdc pcc start_addr (us @ vs) m =
    init_relocs enc (cheri_perms_and gdc global_pointer_permissions) (cheri_perms_and pcc function_pointer_permissions) start_addr stop us m"
proof -
  let ?t = "cheri_offset_set enc gdc start_addr" and ?n = "of_nat (40 * length (us @ vs)) :: u64"
  let ?b = "fst (rep_bounds enc ?t ?n)"
  have n: "unat ?n = 40 * length (us @ vs)" using assms(3) by (intro unat_of_nat_small) simp
  have t: "whole ?t" "cap_addr ?t = start_addr" using whole_addr [OF assms(1,2)] assms(2)
    by (simp_all add: cheri_offset_set_def cap_set_addr_def whole_def)
  then have "cap_tag ?t" "cap_base ?t \<le> cap_addr ?t" "unat (cap_addr ?t) + unat ?n \<le> cap_top ?t"
    using assms(3) unfolding n t(2) by (simp_all add: whole_def)
  note b = rounded(1) [OF assms(1) this]
  have "unat (?b + ?n) = unat ?b + 40 * length (us @ vs)" using assms(3,4) n by (subst unat_add_64) simp_all
  then have "unat (?b + ?n) \<le> unat start_addr + 40 * length us" using assms(4) by simp
  moreover have "unat start_addr + 40 * length us < 2 ^ 64" using assms(3) by simp
  ultimately have "init_relocs enc g p start_addr (?b + ?n) (us @ vs) m = init_relocs enc g p start_addr (?b + ?n) us m" for g p
    by (intro init_relocs_short)
  then show ?thesis using b t(2)
    by (intro exI [of _ "?b + ?n"]) (simp add: crt_init_globals_def Let_def dest_addr del: of_nat_mult)
qed

section \<open>Properties\<close>

text \<open>C27: Every global pointer is what the linker asked for: with a data and a program capability for the whole address space
  and a table of entries at distinct aligned places whose start the capability format can express as a base, the start-up code
  returns; then the place of each entry holds a valid capability for the address of its object plus the offset, with
  bounds that contain the object when its size is given, without the right to execute for data and without the right
  to store for code, and every other place is as it was.\<close>

theorem globals_initialised:
  assumes "encoding_ok enc" "whole gdc" "whole pcc" "bit (cap_perms gdc) 3" "bit (cap_perms gdc) 5"
    "\<forall>r\<in>set relocs. reloc_ok r" "distinct (map capability_location relocs)" "unat start_addr + 40 * length relocs < 2 ^ 64"
    "fst (rep_bounds enc (cheri_offset_set enc gdc start_addr) (of_nat (40 * length relocs))) = start_addr"
  shows "\<exists>m'. crt_init_globals enc gdc pcc start_addr relocs m = Inr m' \<and>
    (\<forall>r\<in>set relocs. \<exists>c. m' (capability_location r) = Some c \<and> cap_tag c \<and> cap_addr c = rl_object r + rl_offset r \<and>
       (\<not> is_function r \<and> rl_size r \<noteq> 0 \<longrightarrow> cap_base c \<le> rl_object r \<and> unat (rl_object r) + unat (rl_size r) \<le> cap_top c) \<and>
       cap_perms c = (if is_function r then cap_perms pcc AND NOT 0x28 else cap_perms gdc AND NOT 0x2)) \<and>
    (\<forall>a. a \<notin> capability_location ` set relocs \<longrightarrow> m' a = m a)"
proof -
  have "NOT 0x20 AND NOT 8 = (NOT 0x28 :: u64)" by simp
  then show ?thesis
    using crt_run [OF assms, of m] by (auto simp: points_to_def cheri_perms_and_def split: if_split_asm)
qed

text \<open>C28: No global pointer is both writable and executable, and none exceeds the two capabilities the program was given: whatever the
  table says, when the start-up code returns each place of memory is as it was or holds a capability with no more authority
  than the data capability and without the right to execute, or with no more than the program capability and without
  the right to store.\<close>

theorem globals_confined:
  assumes "encoding_ok enc" "crt_init_globals enc gdc pcc start_addr relocs m = Inr m'"
  shows "m' a = m a \<or> (\<exists>c. m' a = Some c \<and>
    (cap_le c gdc \<and> \<not> bit (cap_perms c) 1 \<or> cap_le c pcc \<and> \<not> bit (cap_perms c) 3 \<and> \<not> bit (cap_perms c) 5))"
proof -
  let ?g = "cheri_perms_and gdc global_pointer_permissions" and ?p = "cheri_perms_and pcc function_pointer_permissions"
  obtain at stop where run: "init_relocs enc ?g ?p at stop relocs m = Inr m'"
    using assms(2) by (auto simp: crt_init_globals_def Let_def bindE_Inr)
  consider "m' a = m a" | c where "m' a = Some c" "cap_le c ?g" | c where "m' a = Some c" "cap_le c ?p"
    using relocs_authority [OF assms(1) run, of a] by (auto simp: put_by_def split: if_split_asm)
  then show ?thesis
  proof cases
    case (2 c)
    then have "\<not> bit (cap_perms c) 1" by (auto simp: cap_le_def cheri_perms_and_def bit_simps)
    then show ?thesis using 2 cap_le_trans perms_le by blast
  next
    case (3 c)
    then have "\<not> bit (cap_perms c) 3" "\<not> bit (cap_perms c) 5" by (auto simp: cap_le_def cheri_perms_and_def bit_simps)
    then show ?thesis using 3 cap_le_trans perms_le by blast
  qed simp
qed

text \<open>And \<open>strlen\<close> returns exactly on terminated strings, with the number of bytes before the first zero.\<close>

lemma strlen_loop_ends: "m (p + k) = 0 \<Longrightarrow> \<forall>i<k. m (p + i) \<noteq> 0 \<Longrightarrow> strlen_loop m p = Some (p + k)"
proof (induction k arbitrary: p)
  case (Suc k)
  have "m p \<noteq> 0" using Suc.prems(2) by force
  moreover have "strlen_loop m (p + 1) = Some (p + 1 + k)"
    using Suc.prems by (intro Suc.IH) (simp, metis Suc_less_eq add.assoc plus_1_eq_Suc)
  ultimately show ?case by (subst strlen_loop.simps) simp
qed (subst strlen_loop.simps, simp)

lemma strlen_loopD: "strlen_loop m p = Some q \<Longrightarrow> p \<le> q \<and> m q = 0 \<and> (\<forall>i. p \<le> i \<and> i < q \<longrightarrow> m i \<noteq> 0)"
proof (rule strlen_loop.raw_induct [rotated, where P = "\<lambda>m p q. p \<le> q \<and> m q = 0 \<and> (\<forall>i. p \<le> i \<and> i < q \<longrightarrow> m i \<noteq> 0)"])
  fix f :: "(nat \<Rightarrow> u8) \<Rightarrow> nat \<Rightarrow> nat option" and m p q
  assume IH: "\<And>m p q. f m p = Some q \<Longrightarrow> p \<le> q \<and> m q = 0 \<and> (\<forall>i. p \<le> i \<and> i < q \<longrightarrow> m i \<noteq> (0 :: u8))"
    and r: "(if m p = 0 then Some p else f m (p + 1)) = Some q"
  show "p \<le> q \<and> m q = 0 \<and> (\<forall>i. p \<le> i \<and> i < q \<longrightarrow> m i \<noteq> 0)"
  proof (cases "m p = 0")
    case False
    then have q: "p + 1 \<le> q" "m q = 0" "\<forall>i. p + 1 \<le> i \<and> i < q \<longrightarrow> m i \<noteq> 0" using IH [of m "p + 1" q] r by simp_all
    have "m i \<noteq> 0" if "p \<le> i" "i < q" for i using that spec [OF q(3), of i] False by (cases "i = p") auto
    then show ?thesis using q(1,2) by simp
  qed (use r in auto)
qed

lemma strlen_spec: "strlen m str = Inr k \<longleftrightarrow> m (str + k) = 0 \<and> (\<forall>i<k. m (str + i) \<noteq> 0)"
proof
  assume "strlen m str = Inr k"
  then obtain q where q: "strlen_loop m str = Some q" "k = q - str" by (auto simp: strlen_def split: option.split_asm)
  then show "m (str + k) = 0 \<and> (\<forall>i<k. m (str + i) \<noteq> 0)" using strlen_loopD [OF q(1)] by simp
next
  assume "m (str + k) = 0 \<and> (\<forall>i<k. m (str + i) \<noteq> 0)"
  then have "strlen_loop m str = Some (str + k)" using strlen_loop_ends by blast
  then show "strlen m str = Inr k" by (simp add: strlen_def)
qed

section \<open>Witnesses\<close>

definition exact_encoding :: encoding where
  "exact_encoding = \<lparr>rep_addr = (\<lambda>_ _. True), rep_bounds = (\<lambda>c n. (cap_addr c, unat (cap_addr c) + unat n))\<rparr>"

lemma exact_ok: "encoding_ok exact_encoding"
  by (simp add: encoding_ok_def exact_encoding_def)

definition all_cap :: capability where
  "all_cap = \<lparr>cap_tag = True, cap_base = 0, cap_top = 2 ^ 64, cap_addr = 0, cap_perms = 0xff\<rparr>"

definition wit_relocs :: "capreloc list" where
  "wit_relocs = [\<lparr>capability_location = 0x1000, rl_object = 0x2000, rl_offset = 4, rl_size = 16, rl_permissions = 0\<rparr>,
     \<lparr>capability_location = 0x1010, rl_object = 0x8000, rl_offset = 0, rl_size = 0x100, rl_permissions = 0x8000000000000000\<rparr>]"

lemma wit_relocs_ok: "\<forall>r\<in>set wit_relocs. reloc_ok r" "distinct (map capability_location wit_relocs)" "whole all_cap"
  "bit (cap_perms all_cap) 3" "bit (cap_perms all_cap) 5" "unat (0x100 :: u64) + 40 * length wit_relocs < 2 ^ 64"
  "fst (rep_bounds exact_encoding (cheri_offset_set exact_encoding all_cap 0x100) (of_nat (40 * length wit_relocs))) = 0x100"
  by (simp_all add: wit_relocs_def reloc_ok_def whole_def all_cap_def is_function_def exact_encoding_def cheri_offset_set_def cap_set_addr_def)

theorem globals_initialised_witness:
  "\<exists>m' c d. crt_init_globals exact_encoding all_cap all_cap 0x100 wit_relocs (\<lambda>_. None) = Inr m' \<and> m' 0x1000 = Some c \<and>
     cap_addr c = 0x2004 \<and> cap_perms c = 0xfd \<and> m' 0x1010 = Some d \<and> cap_addr d = 0x8000 \<and> cap_perms d = 0xd7"
  using globals_initialised [OF exact_ok wit_relocs_ok(3,3-5,1,2,6,7), of "\<lambda>_. None"]
  by (fastforce simp: wit_relocs_def is_function_def all_cap_def)

theorem globals_confined_witness:
  "\<exists>m'. crt_init_globals exact_encoding all_cap all_cap 0x100 wit_relocs (\<lambda>_. None) = Inr m' \<and>
     (m' 0x1010 = None \<or> (\<exists>c. m' 0x1010 = Some c \<and> (cap_le c all_cap \<and> \<not> bit (cap_perms c) 1 \<or> cap_le c all_cap \<and> \<not> bit (cap_perms c) 3 \<and> \<not> bit (cap_perms c) 5)))"
proof -
  obtain m' where m': "crt_init_globals exact_encoding all_cap all_cap 0x100 wit_relocs (\<lambda>_. None) = Inr m'"
    using crt_run [OF exact_ok wit_relocs_ok(3,3-5,1,2,6,7)] by blast
  show ?thesis using globals_confined [OF exact_ok m', of "0x1010"] m' by simp
qed

end
