(* ===== verification/Board.thy ===== *)
theory Board
  imports Emul_Link
begin

text \<open>
  The start of the board (\<open>src/main.c\<close>): \<open>board_init\<close> as the sequence of its calls into the kernel with their arguments,
  and the small handlers of the file. The kernel is outside the repository, so the calls are data without a
  meaning. Addresses are physical ones in the uncached segment.
\<close>

section \<open>Calls\<close>

datatype intr_handler = Softintr | Hardintr | Beripic_intr | Mips_timer_intr
datatype irq_handler = Altera_fifo_intr nat | Ipi_from_freebsd

record beripic_resource =
  res_cfg :: u64
  res_ip_read :: u64
  res_ip_set :: u64
  res_ip_clear :: u64

datatype board_call =
    Aju_init u64 nat | Mdx_console_register
  | Mips_setup_intr nat intr_handler
  | Set_resource nat beripic_resource | Beripic_init | Beripic_install_intr_map "nat \<Rightarrow> irq_handler option"
  | Beripic_enable nat nat
  | Mips_timer_init nat
  | Mips_wr_status "u32" "u32"
  | Mtc0 nat nat u32
  | Epw_init u64 u64 | Epw_control bool
  | Malloc_init | Malloc_add_region u64 nat

text \<open>
  \<open>Mips_wr_status on off\<close> stands for the read, change and write of the status register.
\<close>

section \<open>Addresses and bits\<close>

abbreviation (input) AJU1_BASE :: u64 where "AJU1_BASE \<equiv> 0xff7f001000"
abbreviation (input) FIFO3_INTR :: nat where "FIFO3_INTR \<equiv> 11"
abbreviation (input) BERIPIC0_CFG :: u64 where "BERIPIC0_CFG \<equiv> 0xff7f804000"
abbreviation (input) BERIPIC0_IP_READ :: u64 where "BERIPIC0_IP_READ \<equiv> 0xff7f806000"
abbreviation (input) BERIPIC0_IP_SET :: u64 where "BERIPIC0_IP_SET \<equiv> 0xff7f806080"
abbreviation (input) BERIPIC0_IP_CLEAR :: u64 where "BERIPIC0_IP_CLEAR \<equiv> 0xff7f806100"
abbreviation (input) BERIPIC1_CFG :: u64 where "BERIPIC1_CFG \<equiv> 0xff7f808000"
abbreviation (input) BERIPIC1_IP_READ :: u64 where "BERIPIC1_IP_READ \<equiv> 0xff7f80a000"
abbreviation (input) BERIPIC1_IP_SET :: u64 where "BERIPIC1_IP_SET \<equiv> 0xff7f80a080"
abbreviation (input) BERIPIC1_IP_CLEAR :: u64 where "BERIPIC1_IP_CLEAR \<equiv> 0xff7f80a100"
abbreviation (input) MIPS_DEFAULT_FREQ :: nat where "MIPS_DEFAULT_FREQ \<equiv> 100000000"

text \<open>The uncached segment and the status register of the MIPS64 architecture.\<close>

abbreviation (input) XKPHYS_UNCACHED :: u64 where "XKPHYS_UNCACHED \<equiv> 0x9000000000000000"
abbreviation (input) MIPS_SR_IE :: u32 where "MIPS_SR_IE \<equiv> 0x1"
abbreviation (input) MIPS_SR_UX :: u32 where "MIPS_SR_UX \<equiv> 0x20"
abbreviation (input) MIPS_SR_SX :: u32 where "MIPS_SR_SX \<equiv> 0x40"
abbreviation (input) MIPS_SR_KX :: u32 where "MIPS_SR_KX \<equiv> 0x80"
abbreviation (input) MIPS_SR_BEV :: u32 where "MIPS_SR_BEV \<equiv> 0x400000"

definition MIPS_SR_IM_HARD :: "nat \<Rightarrow> u32" where
  "MIPS_SR_IM_HARD n = push_bit (n + 10) 1"

section \<open>The initialisation\<close>

definition beripic_intr_map :: "nat \<Rightarrow> irq_handler option" where
  "beripic_intr_map = [11 \<mapsto> Altera_fifo_intr 1, 12 \<mapsto> Altera_fifo_intr 0, 16 \<mapsto> Ipi_from_freebsd]"

text \<open>Up to the initialisation of the timer, from there to the change of the status register, and the rest.\<close>

definition board_calls1 :: "board_call list" where
  "board_calls1 =
     [Aju_init (XKPHYS_UNCACHED + AJU1_BASE) 8, Mdx_console_register,
      Mips_setup_intr 0 Softintr, Mips_setup_intr 1 Softintr, Mips_setup_intr 2 Beripic_intr,
      Mips_setup_intr 3 Hardintr, Mips_setup_intr 4 Hardintr, Mips_setup_intr 5 Hardintr, Mips_setup_intr 6 Hardintr,
      Mips_setup_intr 7 Mips_timer_intr,
      Set_resource 1 \<lparr>res_cfg = BERIPIC1_CFG OR XKPHYS_UNCACHED, res_ip_read = BERIPIC1_IP_READ OR XKPHYS_UNCACHED,
        res_ip_set = BERIPIC1_IP_SET OR XKPHYS_UNCACHED, res_ip_clear = BERIPIC1_IP_CLEAR OR XKPHYS_UNCACHED\<rparr>,
      Beripic_init, Beripic_install_intr_map beripic_intr_map,
      Set_resource 0 \<lparr>res_cfg = BERIPIC0_CFG OR XKPHYS_UNCACHED, res_ip_read = BERIPIC0_IP_READ OR XKPHYS_UNCACHED,
        res_ip_set = BERIPIC0_IP_SET OR XKPHYS_UNCACHED, res_ip_clear = BERIPIC0_IP_CLEAR OR XKPHYS_UNCACHED\<rparr>,
      Beripic_enable 16 0, Mips_timer_init MIPS_DEFAULT_FREQ]"

definition board_calls2 :: "u64 \<Rightarrow> board_call list" where
  "board_calls2 DM_BASE =
     [Mips_wr_status (MIPS_SR_IM_HARD 0 OR MIPS_SR_IM_HARD 5 OR MIPS_SR_IE OR MIPS_SR_UX OR MIPS_SR_KX OR MIPS_SR_SX) MIPS_SR_BEV,
      Mtc0 5 0 0,
      Epw_init (EPW_BASE OR XKPHYS_UNCACHED) (EPW_WINDOW OR XKPHYS_UNCACHED), Epw_control True,
      Beripic_enable FIFO3_INTR 0,
      Malloc_init, Malloc_add_region (DM_BASE + 0x01000000 div 2) (0x01000000 div 2)]"

definition board_init :: "int \<Rightarrow> u64 \<Rightarrow> board_call list \<times> unit res" where
  "board_init timer_error DM_BASE =
     (if timer_error \<noteq> 0 then (board_calls1, Inl Panic) else (board_calls1 @ board_calls2 DM_BASE, Inr ()))"

section \<open>The handlers of the file\<close>

text \<open>The new value of the cause register, the characters sent to the UART, and the loops of the unhandled TLB traps.\<close>

definition softintr :: "nat \<Rightarrow> u32 \<Rightarrow> u32" where
  "softintr i cause = cause AND NOT (push_bit (8 + i) 1)"

definition uart_putchar :: "u8 \<Rightarrow> u8 list" where
  "uart_putchar c = (if c = 10 then [13] else []) @ [c]"

definition tlb_nosegtab :: "unit res" where
  "tlb_nosegtab = Inl No_return"

definition main_fn :: "unit res \<Rightarrow> unit res \<Rightarrow> unit res" where
  "main_fn dm_init dm_loop = bindE dm_init (\<lambda>_. bindE dm_loop (\<lambda>_. Inl Panic))"

lemma main_never_returns: "\<exists>e. main_fn dm_init dm_loop = Inl e"
  by (cases dm_init; cases dm_loop) (simp_all add: main_fn_def)

lemma softintr_clears: "bit (softintr i cause) k \<longleftrightarrow> bit cause k \<and> k \<noteq> 8 + i"
  by (auto simp: softintr_def bit_simps dest: bit_imp_le_length)

section \<open>The order of the calls\<close>

text \<open>
  The interrupt enable bit is set by one call only, after the handlers of all eight lines, the map of the controller and the timer
  have been set up, and every source that is ever enabled at the controller has an entry in the map.
\<close>

definition sets_enable :: "board_call \<Rightarrow> bool" where
  "sets_enable c \<longleftrightarrow> (case c of Mips_wr_status on off \<Rightarrow> bit on 0 | _ \<Rightarrow> False)"

lemma irqs: "dom beripic_intr_map = {11, 12, 16}"
  by (auto simp: beripic_intr_map_def)

lemma calls1_disabled: "c \<in> set board_calls1 \<Longrightarrow> \<not> sets_enable c"
  by (auto simp: board_calls1_def sets_enable_def)

lemma calls2_enable: "\<exists>c cs. board_calls2 base = c # cs \<and> sets_enable c \<and> filter sets_enable cs = []"
  by (simp add: board_calls2_def sets_enable_def MIPS_SR_IM_HARD_def bit_simps)

lemma enabled_last:
  assumes "board_init 0 base = (cs, r)"
  shows "takeWhile (\<lambda>c. \<not> sets_enable c) cs = board_calls1" "length (filter sets_enable cs) = 1"
proof -
  obtain c ds where c: "board_calls2 base = c # ds" "sets_enable c" "filter sets_enable ds = []"
    using calls2_enable by blast
  have cs: "cs = board_calls1 @ c # ds"
    using assms c by (simp add: board_init_def)
  have "filter sets_enable board_calls1 = []"
    by (simp add: filter_empty_conv calls1_disabled)
  then show "takeWhile (\<lambda>c. \<not> sets_enable c) cs = board_calls1" "length (filter sets_enable cs) = 1"
    using c by (simp_all add: cs takeWhile_append2 calls1_disabled)
qed

lemma lines_set_up: "Mips_setup_intr i h \<in> set board_calls1 \<longleftrightarrow>
    (i, h) \<in> {(0, Softintr), (1, Softintr), (2, Beripic_intr), (3, Hardintr), (4, Hardintr), (5, Hardintr), (6, Hardintr), (7, Mips_timer_intr)}"
  by (auto simp: board_calls1_def)

lemma set_up_before: "Beripic_install_intr_map beripic_intr_map \<in> set board_calls1" "Mips_timer_init MIPS_DEFAULT_FREQ \<in> set board_calls1"
  by (simp_all add: board_calls1_def)

lemma sources_mapped: "Beripic_enable irq line \<in> set (board_calls1 @ board_calls2 base) \<Longrightarrow> irq \<in> dom beripic_intr_map"
  by (auto simp: board_calls1_def board_calls2_def irqs beripic_intr_map_def)

end
