(* ===== verification/Spec2Isabelle.thy ===== *)
theory Spec2Isabelle
  imports Ahci_Ident Ahci_Complete Guest_Disk Guest_Net Crt_Globals Board
begin

text \<open>
  \<^bold>\<open>The program.\<close>

  The device model is the software that a CHERI processor core runs to emulate devices for the
  operating system on another core. The guest's accesses to a window of its address space (the
  exception window) are handed to the dispatcher (\<open>src/device-model.c\<close>), which looks the offset up
  in two tables. Requests for the real Altera DMA controllers are passed on to the hardware
  (\<open>src/fwd_device.c\<close>); requests for emulated devices go to an emulated mSGDMA controller
  (\<open>src/emul_msgdma.c\<close>), to the IOMMU registers (\<open>src/emul_iommu.c\<close>, \<open>src/tlb.c\<close>) or to a PCI bus
  (\<open>src/emul_pci.c\<close>). The bus and its two devices come from FreeBSD's bhyve: the bus itself
  (\<open>bhyve/pci_emul.c\<close>, \<open>bhyve/bhyve_support.c\<close>), the table of memory ranges (\<open>bhyve/mem.c\<close>), an
  Intel e1000 network card (\<open>bhyve/pci_e82545.c\<close>), an AHCI disk controller (\<open>bhyve/pci_ahci.c\<close>) with
  the queue of disk requests (\<open>bhyve/block_if.c\<close>), and the thread primitives they are linked with
  (\<open>bhyve/pthread.c\<close>). One main loop serves a request and then polls the devices. A second
  thread takes what arrives in the receiving FIFO, for the card (created by \<open>e82545_setup_fifo\<close>, it
  runs with interrupts disabled) or for the receiving DMA controller (\<open>emul_msgdma_rx_init\<close>). In the
  model an operation runs to its end before the next one starts: the interleavings that the theorems
  quantify over are sequences of whole operations of both threads. That the second thread may also
  preempt a poll of the first one in the middle is not modelled.

  \<^bold>\<open>Ground.\<close> \<open>Prelude\<close>: word types, the result type \<open>res\<close> (a fault or a value; failed assertions,
  panics, null pointers, accesses out of bounds and loops that never end are faults), the
  byte accessors of the big-endian target and of little-endian structures. \<open>Iovec\<close>: the flat
  memory of the guest and scatter/gather vectors. \<open>Pthread_Model\<close>: the mutexes; a lock is a number
  and locking a held mutex fails an assertion. \<open>Fifo\<close>: the FIFO driver as a parameter.

  \<^bold>\<open>The bus.\<close> \<open>Mem_Ranges\<close> (\<open>bhyve/mem.c\<close>): the table of ranges, its hint and its fallback list; a
  tree is the sorted list of its entries. \<open>Pci_Device\<close>: \<open>struct pci_devinst\<close> as the record
  \<open>pci_devinst\<close> and the checked accessors of configuration space. \<open>Pci_Intr\<close>: the state machine of
  the interrupt pin; the calls to the interrupt controller are a log. \<open>Pci_Caps\<close>: the capability
  list, the guest's writes to it and the MSI-X table. \<open>Pci_Bar\<close>: allocation, registration and moving
  of base address registers, and accesses through them. \<open>Pci_Emul\<close>: buses, slots and functions
  (\<open>pci_world\<close>), creation of devices, pin routing, every configuration access.

  \<^bold>\<open>The network card.\<close> Its \<open>struct e82545_softc\<close> is split into the parts the functions touch.
  \<open>E1000_Eeprom\<close>: the serial EEPROM and the PHY. \<open>E1000_Intr\<close>: causes, mask, throttling timer and line.
  \<open>E1000_Csum\<close>: the Internet checksum over fragments. \<open>E1000_Tx\<close> and \<open>E1000_Rx\<close>: transmission and
  reception over the descriptor rings. \<open>E1000_Regs\<close>: the register switch, enabling, disabling and
  reset. \<open>E1000_Device\<close>: the card as a device of the bus (\<open>e1000_world\<close>). \<open>E1000_Frame\<close> and
  \<open>E1000_Ring\<close> prove what is sent and which loops end, \<open>E1000_Send\<close> follows a poll over all the packets of
  a ring (\<open>sends\<close>), \<open>E1000_Bus\<close> goes from an address on the bus to a
  register and through initialisation, \<open>E1000_Types\<close> keeps the sizes of the card's arrays.

  \<^bold>\<open>The disk.\<close> \<open>Block_If\<close> (\<open>bhyve/block_if.c\<close>): the three queues of a disk, submission, cancelling, the
  processing loop with the callback as a parameter, transfers and geometry. \<open>Block_Queue\<close>: the same
  queue as a client sees it.

  \<^bold>\<open>The AHCI controller\<close> (\<open>bhyve/pci_ahci.c\<close>). The record \<open>pci_ahci_softc\<close> holds the registers, the lock
  and the ports (\<open>ahci_port\<close>); request blocks (\<open>ahci_ioreq\<close>) are named by their index and the two
  lists of a port are lists of indices; \<open>ahci_io\<close> is the controller with memory and the interrupt log.
  \<open>Ahci_State\<close>: interrupts, frames to the host, stopping and resetting. \<open>Ahci_Cmd\<close>: the table of buffers
  and the ATA commands. \<open>Ahci_Atapi\<close>: the packet commands. \<open>Ahci_Port\<close>: the command switch, the walk over
  the issued slots, the completion callbacks. \<open>Ahci_Dev\<close>: registers, initialisation, the device of
  the bus (\<open>ahci_world\<close>) and the block thread. Proofs: \<open>Ahci_Frame\<close> (what a command leaves alone),
  \<open>Ahci_Slots\<close> (what a slot becomes), \<open>Ahci_Walk\<close> (the walk ends or why not), \<open>Ahci_Ident\<close> (the
  identification block), \<open>Ahci_Regs\<close> (registers read back), \<open>Ahci_Inv\<close> (the bookkeeping of requests
  under the accesses of a driver), \<open>Ahci_Thread\<close> (and under completion), \<open>Ahci_Init\<close> (the controller
  comes up), \<open>Ahci_Run\<close> (every run), \<open>Ahci_Disk\<close> (a DMA command from the doorbell to its completion), \<open>Ahci_Complete\<close>
  (a turn of the block thread completes any number of queued commands).

  \<^bold>\<open>Around the bus.\<close> \<open>Emul_Link\<close>: requests and the tables of windows. \<open>Emul_Pci\<close>: the PCI window.
  \<open>Emul_Msgdma\<close>: the emulated DMA controller. \<open>Emul_Iommu\<close>: the IOMMU registers over the translation
  table of the coprocessor. \<open>Fwd_Device\<close>: forwarding. \<open>Device_Model\<close>: the dispatcher, its
  initialisation, the main loop and the receiving thread, over the record \<open>dm_world\<close> of the whole state. On the whole
  machine: \<open>Bus_Devices\<close> states what the bus asks of the functions of a \<open>struct pci_devemu\<close> and proves
  what it gives back for every access; \<open>Device_Boot\<close> runs \<open>dm_init\<close> from the cold state; \<open>Device_Run\<close>
  follows every run of the main loop, of its parts and of the receiving threads; \<open>Guest_Disk\<close> follows a disk transfer through one turn of it, \<open>Guest_Net\<close> the
  sending of packets and the reception of one.

  \<^bold>\<open>The start.\<close> \<open>Crt_Globals\<close> (\<open>src/crt_init_globals.c\<close>): the loop that fills the program's global
  pointers with capabilities, in the build with a capability table; what the compressed format can
  express is a parameter with the laws \<open>encoding_ok\<close>, and the table of relocations is a list that the
  stores do not change. \<open>Board\<close> (\<open>src/main.c\<close>): \<open>board_init\<close> as the list of its calls into the kernel,
  which is outside the repository: the calls are data without a meaning, and the lemmas are about
  their order only.

  \<^bold>\<open>How the code is translated.\<close>

  A structure is a record with the fields of the code; pointers to structures that are allocated
  once are indices or options, and \<open>NULL\<close> is \<open>None\<close>. A function that changes state returns the new
  state in \<open>res\<close>. Registers are words of their width and their arithmetic wraps; offsets of the disk
  image are integers. Addresses of memory are natural numbers after the translation
  \<open>paddr_guest2host\<close>. What a function leaves uninitialised on the stack and passes on is an argument
  (\<open>junk\<close>, \<open>stack\<close>).

  Loops over a counter or a list are structural recursions or come with a measure. Loops whose end
  depends on the guest are \<open>partial_function (option)\<close>: the walk over issued slots (\<open>port_loop\<close>), the
  processing loop of the disk (\<open>blockif_loop\<close>), the gathering of descriptors, segmentation and
  write-back of the card (\<open>tx_gather\<close>, \<open>tso_loop\<close>, \<open>tx_done_loop\<close>), its reception (\<open>rx_loop\<close>), its waits
  (\<open>tx_wait\<close>, \<open>rx_wait\<close>) and the search of the capability list (\<open>find_cap\<close>). \<open>None\<close> means that the loop
  is never left, and their callers turn it into the fault \<open>No_return\<close>; no fuel is used, and the
  theorems say when they return.

  Parameters stand for what is not in the repository: the FIFO driver, the hardware behind the
  forwarded registers, the MD5 digest of the disk's name, whether memory can be allocated, the
  frequency with which threads are polled. The interrupt controller is the log of the calls made
  to it.

  \<^bold>\<open>What the theorems show.\<close>

  Five interfaces are locales, each interpreted on the model: \<open>mutex\<close> (as \<open>pthread\<close>), \<open>range_table\<close>
  (as \<open>mmio\<close>), \<open>irq_pin\<close> (as \<open>pin\<close>), \<open>request_queue\<close> (as \<open>disk\<close>) and \<open>bus_devices\<close> (as \<open>model\<close>, the
  card and the controller); the clients' lemmas rest on their laws.
  The lemmas on the disk queue alone assume of its callback what \<open>answers\<close> says, which a callback that
  starts another part of its command does not satisfy; the theorems on the controller run the
  callbacks of the code.

  The machine: from the cold state \<open>dm_init\<close> creates exactly the two devices, decoded at their places;
  after any turns of the main loop, of its parts and of the receiving threads, with any requests and
  any change of memory and hardware between them, the tables of the card and the bookkeeping of the controller are intact; one doorbell
  request moves the sectors the guest's command names between the disk and the buffers the guest
  listed, completes the slot and touches nothing else; one write of the tail register sends packets
  from the head of the ring on, in order, up to the tail or until a quarter of the ring is used up,
  where segmentation is not asked for; a packet in the FIFO reaches the receive ring. The start: every global pointer is what the
  linker asked for, and none has more authority than the program was given or both writes and executes.

  Invariants over every sequence of operations: the ranges of the table never overlap and dispatch
  finds the one that covers an address; the interrupt line is up exactly when a device asks for it and
  is allowed to; every interrupt of the card that is unmasked reaches the line, but for those after a
  reset with the line up and before the next read of the causes; the request blocks, pending slots and disk queue of every port agree. Functional
  results: what a configuration write changes and what sizing a BAR reads; the frame the card sends for a
  packet and the checksums in it; the descriptors and causes of a received packet; how
  the devices come up; what stopping a port and a turn of the block thread leave behind, and that the turn returns when all commands in
  service are queued ones with their last part.
  Equivalences: the checksum over fragments is the one's complement sum of the bytes; the poll of the
  DMA controller follows the links like its pointer-free reference. Termination: register
  writes, transmission and the walk over slots return except in the listed cases. Round
  trips: EEPROM words, registers, configuration space, MSI-X table entries, ranges, disk contents. The
  places where a guest can stop or hang the program are theorems too.

  \<^bold>\<open>Not modelled.\<close>

  The assembly files (start-up and exception vectors), the mdx kernel and its drivers (a submodule outside this repository: FIFO,
  interrupt controller, exception window, console), copies of system headers without code
  (\<open>src/freebsd_cdefs.h\<close> and headers of \<open>bhyve/sys\<close>), the self test \<open>src/test.c\<close>, debug prints, and code that
  is not compiled: the sending thread of the card and its tap device, options of slots, firmware
  tables, the dummy device, descriptors with capabilities (\<open>E1000_DESC_CAP\<close>). Capabilities are modelled
  where they are made (\<open>Crt_Globals\<close>); in the devices they are pointers without bounds, so an access
  that the model performs could trap on the hardware. Loads of 16 and 32 bits are taken to work at unaligned addresses. Two windows that use the
  same FIFO at once are outside the documented use.
\<close>

end
